(* ===== verification/Prelude.thy ===== *)
theory Prelude
  imports Main "HOL-Library.Char_ord" "HOL-Library.List_Lexorder" "HOL-Library.Product_Lexorder"
begin

text \<open>
  Shared vocabulary of the development: the error values that stand for the exceptions of
  \<open>src/src/macr_runtime/errors.py\<close>, results as sums, the bounded-text checks that every
  contract of the runtime repeats (\<open>_IDENTIFIER\<close>, \<open>_SHA256\<close>, UUIDv4, non-empty text), and
  the list lemmas with which tables of rows are read, inserted into and updated.

  Python strings are modelled by their UTF-8 bytes (\<open>string\<close>); every comparison the code
  makes on them (equality, membership, sorting, \<open>ORDER BY\<close>) is the same on code points and
  on UTF-8 bytes.
\<close>

named_theorems result_simps \<open>case analysis of results\<close>
named_theorems table_simps \<open>reading updated tables\<close>

section \<open>Errors\<close>

text \<open>One constructor per exception class the modelled code raises; the argument says which
  of the class's messages it carries.\<close>

datatype value_reason =
    Bad_Identifier | Bad_Integer | Bad_Uuid | Bad_Digest | Bad_Text | Bad_Lane
  | Bad_Timestamp | Bad_Fields | Bad_Array | Bad_Duplicates | Bad_Version | Bad_Scope_Version
  | Bad_Json | Bad_Choice | Bad_Order | Expiry_Not_Future | Bad_Outcome | Bad_Document | Bad_Content

datatype auth_reason =
    Authority_State_Not_Open | Authority_Stale_Epoch | Authority_Missing
  | Authority_Digest_Invalid | Authority_Revoked | Authority_Expired | Authority_Scope_Refused
  | Batch_Missing | Batch_Digest_Invalid | Batch_Revoked | Batch_Expired
  | Batch_Dispatcher_Refused | Batch_Plan_Mismatch | Batch_Member_Mismatch
  | Batch_Cost_Mismatch | Batch_Expiry_Mismatch | Batch_Dispatchers_Mismatch
  | Over_Member_Ceiling | Authority_No_Transaction

datatype lease_reason =
    Lease_Held_By_Other | Lease_Holder_Invalid | Lease_Not_Expired
  | Target_Expired | Target_Conflict | Target_Needs_Reconciliation | Target_Reuse
  | Target_Other_Plan | Target_No_Group | Target_Two_Automatic | Target_Missing
  | Target_Not_Active | Target_Not_Awaiting
  | Queue_Missing | Queue_Not_Claimed | Queue_Holder_Invalid | Queue_Expired
  | Queue_Cost_Exceeded | Queue_Conflict | Queue_Collision | Queue_Lost_Race
  | Queue_Not_Reconciliation | Queue_Cursor | Queue_Schema

datatype conflict_reason =
    Control_State_Invalid | Control_Sequence_Invalid | Control_Receipt_Mismatch
  | Policy_Not_Built_In | Reconciliation_Row_Invalid | Capacity_Row_Invalid
  | Capacity_Inconsistent | Authority_Already_Consumed | Transition_Target_Invalid
  | Transition_Needs_Probe | Projection_Changed | Bootstrap_Not_Quiescent
  | Policy_Revision_Conflict | Target_Binding_Stale | Target_State_Refused
  | Target_Already_Active | Target_Not_Idle | Transition_Binding_Stale | Transition_Not_Idle
  | Successor_Conflict | Circuit_Binding_Stale | Probe_Not_Exact | Half_Open_Refused
  | Project_Capacity_Inconsistent | Not_Unused_Grant | Grant_Cancel_Lost
  | Transition_Body_Invalid | Other_Provider | Request_Identity_Conflict
  | Request_Not_Waiting_Or_Granted | Permit_Identity_Invalid | Permit_Not_Cancellable
  | Waiting_Identity_Invalid | Request_Not_Waiting | Permit_Request_Mismatch
  | Permit_Not_Fresh | Permit_Not_Probe | Permit_No_Transport | Request_Missing
  | Not_Reconciliation | Reconciliation_Changed | Unknown_Policy | Schema_Unsupported
  | State_Missing | Policy_Missing | Policy_Invalid | Directory_Unknown

datatype reconcile_reason =
    Circuit_Needs_Reconciliation | Half_Open_Other_Probe | Unresolved_Capacity
  | Grant_Needs_Reconciliation | Circuit_Opened_Before_Transport

datatype agent_reason =
    Agent_Exists | Agent_Missing | Illegal_Transition | Stale_Revision | Stale_Epoch
  | Ownership_Conflict | Lease_Expired | Stale_Token | Event_Integrity | Projection_Conflict
  | Rebuild_Blocked

datatype semantic_reason =
    Registry_Unknown | Registry_Mismatch | Graph_Missing | Graph_Exists | Graph_Stale | Graph_Digest_Mismatch
  | Patch_Conflict | Patch_Invalid | Node_Conflict | Relation_Dangling | Relation_Direction | Status_Transition
  | Supersession_Invalid | Scope_Escalation | Commit_Authority_Invalid | Commit_Permit_Invalid | Agent_Binding_Conflict

datatype busy_reason = Capacity_Busy | Waiting_Fair_Turn

datatype err =
    ValueError value_reason
  | AuthError auth_reason             \<comment> \<open>\<open>DispatchAuthorizationError\<close>\<close>
  | LeaseError lease_reason           \<comment> \<open>\<open>DispatchLeaseError\<close>\<close>
  | Conflict conflict_reason          \<comment> \<open>\<open>ProviderAdmissionConflict\<close>\<close>
  | Reconcile reconcile_reason        \<comment> \<open>\<open>ProviderAdmissionReconciliationError\<close>\<close>
  | Busy busy_reason                  \<comment> \<open>\<open>ProviderAdmissionBusyError\<close>\<close>
  | AgentError agent_reason           \<comment> \<open>\<open>AgentStateKernelError\<close> of \<open>agent/errors.py\<close>\<close>
  | SemanticError semantic_reason     \<comment> \<open>\<open>SemanticStateError\<close> of \<open>semantic/errors.py\<close>\<close>
  | IntegrityError                    \<comment> \<open>\<open>sqlite3.IntegrityError\<close>\<close>
  | StorageError                      \<comment> \<open>\<open>StoragePolicyError\<close>\<close>
  | AttributeError
  | NameError
  | TypeError
  | AssertionError

type_synonym 'a result = "err + 'a"

section \<open>Results\<close>

definition ebind :: "'a result \<Rightarrow> ('a \<Rightarrow> 'b result) \<Rightarrow> 'b result" where
  "ebind r f = (case r of Inl e \<Rightarrow> Inl e | Inr a \<Rightarrow> f a)"

definition is_ok :: "'a result \<Rightarrow> bool" where
  "is_ok r \<longleftrightarrow> (case r of Inl _ \<Rightarrow> False | Inr _ \<Rightarrow> True)"

lemma ebind_simps [simp]: "ebind (Inl e) f = Inl e" "ebind (Inr a) f = f a"
  by (simp_all add: ebind_def)

lemma ebind_Inr_iff [result_simps]: "ebind r f = Inr b \<longleftrightarrow> (\<exists>a. r = Inr a \<and> f a = Inr b)"
  by (cases r) auto

lemma is_ok_simps [simp]: "is_ok (Inr a)" "\<not> is_ok (Inl e)"
  by (simp_all add: is_ok_def)

lemma is_ok_iff: "is_ok r \<longleftrightarrow> (\<exists>a. r = Inr a)"
  by (cases r) auto

text \<open>The checks of one value after another, as the statements of a \<open>__post_init__\<close>.\<close>

fun all_ok :: "unit result list \<Rightarrow> unit result" where
  "all_ok [] = Inr ()"
| "all_ok (r # rs) = ebind r (\<lambda>_. all_ok rs)"

definition guard :: "bool \<Rightarrow> err \<Rightarrow> unit result" where
  "guard b e = (if b then Inr () else Inl e)"

lemma guard_Inr [simp]: "guard b e = Inr u \<longleftrightarrow> b"
  by (simp add: guard_def)

lemma all_ok_Inr [simp]: "all_ok rs = Inr u \<longleftrightarrow> (\<forall>r \<in> set rs. r = Inr ())"
  by (induction rs) (auto simp: result_simps)

lemma all_ok_append: "all_ok (rs @ ss) = ebind (all_ok rs) (\<lambda>_. all_ok ss)"
proof (induction rs)
  case (Cons r rs)
  then show ?case by (cases r) simp_all
qed simp

section \<open>Bounded text\<close>

definition byte :: "char \<Rightarrow> nat" where
  "byte c = of_char c"

definition is_digit :: "char \<Rightarrow> bool" where
  "is_digit c \<longleftrightarrow> 48 \<le> byte c \<and> byte c \<le> 57"

definition is_lower_hex :: "char \<Rightarrow> bool" where
  "is_lower_hex c \<longleftrightarrow> is_digit c \<or> 97 \<le> byte c \<and> byte c \<le> 102"

definition is_alnum :: "char \<Rightarrow> bool" where
  "is_alnum c \<longleftrightarrow> is_digit c \<or> 65 \<le> byte c \<and> byte c \<le> 90 \<or> 97 \<le> byte c \<and> byte c \<le> 122"

text \<open>\<open>_IDENTIFIER = ^[A-Za-z0-9][A-Za-z0-9._:-]{0,127}$\<close>, used with \<open>fullmatch\<close>.\<close>

definition is_identifier_char :: "char \<Rightarrow> bool" where
  "is_identifier_char c \<longleftrightarrow> is_alnum c \<or> byte c = 46 \<or> byte c = 95 \<or> byte c = 58 \<or> byte c = 45"

definition is_identifier :: "string \<Rightarrow> bool" where
  "is_identifier s \<longleftrightarrow>
     (case s of [] \<Rightarrow> False
      | c # cs \<Rightarrow> is_alnum c \<and> length cs \<le> 127 \<and> list_all is_identifier_char cs)"

text \<open>\<open>_SHA256 = ^[0-9a-f]{64}$\<close>.\<close>

definition is_sha256 :: "string \<Rightarrow> bool" where
  "is_sha256 s \<longleftrightarrow> length s = 64 \<and> list_all is_lower_hex s"

text \<open>
  \<open>str(uuid.UUID(v)) == v\<close> with version 4: the canonical lower-case form, version digit 4 and
  the RFC 4122 variant (\<open>uuid.UUID.version\<close> is \<open>None\<close> for another variant).
\<close>

definition uuid_dash :: "nat \<Rightarrow> bool" where
  "uuid_dash i \<longleftrightarrow> i = 8 \<or> i = 13 \<or> i = 18 \<or> i = 23"

definition is_uuid4 :: "string \<Rightarrow> bool" where
  "is_uuid4 s \<longleftrightarrow> length s = 36 \<and>
     list_all (\<lambda>(i, c). if uuid_dash i then byte c = 45 else is_lower_hex c) (enumerate 0 s) \<and>
     byte (s ! 14) = 52 \<and>
     (byte (s ! 19) = 56 \<or> byte (s ! 19) = 57 \<or> byte (s ! 19) = 97 \<or> byte (s ! 19) = 98)"

text \<open>\<open>str.strip()\<close> and \<open>str.lower()\<close>, on the ASCII characters.\<close>

definition is_space :: "char \<Rightarrow> bool" where
  "is_space c \<longleftrightarrow> 9 \<le> byte c \<and> byte c \<le> 13 \<or> 28 \<le> byte c \<and> byte c \<le> 32"

definition strip :: "string \<Rightarrow> string" where
  "strip s = rev (dropWhile is_space (rev (dropWhile is_space s)))"

definition lower_char :: "char \<Rightarrow> char" where
  "lower_char c = (if 65 \<le> byte c \<and> byte c \<le> 90 then char_of (byte c + 32) else c)"

definition lower :: "string \<Rightarrow> string" where
  "lower s = map lower_char s"

text \<open>The validating helpers \<open>_identifier\<close>, \<open>_digest\<close>, \<open>_uuid4\<close>, \<open>_non_empty\<close>,
  \<open>_positive_int\<close> and their optional forms.\<close>

definition chk_identifier :: "string \<Rightarrow> string result" where
  "chk_identifier s = (if is_identifier s then Inr s else Inl (ValueError Bad_Identifier))"

definition chk_digest :: "string \<Rightarrow> string result" where
  "chk_digest s = (if is_sha256 s then Inr s else Inl (ValueError Bad_Digest))"

definition chk_uuid4 :: "string \<Rightarrow> string result" where
  "chk_uuid4 s = (if is_uuid4 s then Inr s else Inl (ValueError Bad_Uuid))"

definition chk_non_empty :: "string \<Rightarrow> string result" where
  "chk_non_empty s = (if strip s = [] then Inl (ValueError Bad_Text) else Inr (strip s))"

definition chk_range :: "int \<Rightarrow> int \<Rightarrow> int result" where
  "chk_range v maximum = (if 1 \<le> v \<and> v \<le> maximum then Inr v else Inl (ValueError Bad_Integer))"

definition chk_optional :: "('a \<Rightarrow> 'a result) \<Rightarrow> 'a option \<Rightarrow> 'a option result" where
  "chk_optional f v = (case v of None \<Rightarrow> Inr None | Some x \<Rightarrow> ebind (f x) (\<lambda>y. Inr (Some y)))"

lemma chk_identifier_Inr [simp]: "chk_identifier s = Inr t \<longleftrightarrow> is_identifier s \<and> t = s"
  by (auto simp: chk_identifier_def)

lemma chk_digest_Inr [simp]: "chk_digest s = Inr t \<longleftrightarrow> is_sha256 s \<and> t = s"
  by (auto simp: chk_digest_def)

lemma chk_uuid4_Inr [simp]: "chk_uuid4 s = Inr t \<longleftrightarrow> is_uuid4 s \<and> t = s"
  by (auto simp: chk_uuid4_def)

lemma chk_range_Inr [simp]: "chk_range v m = Inr w \<longleftrightarrow> 1 \<le> v \<and> v \<le> m \<and> w = v"
  by (auto simp: chk_range_def)

lemma chk_optional_digest_Inr [simp]:
  "chk_optional chk_digest v = Inr w \<longleftrightarrow> w = v \<and> (\<forall>d. v = Some d \<longrightarrow> is_sha256 d)"
  by (cases v) (auto simp: chk_optional_def result_simps)

lemma chk_optional_uuid4_Inr [simp]:
  "chk_optional chk_uuid4 v = Inr w \<longleftrightarrow> w = v \<and> (\<forall>d. v = Some d \<longrightarrow> is_uuid4 d)"
  by (cases v) (auto simp: chk_optional_def result_simps)

lemma chk_optional_identifier_Inr [simp]:
  "chk_optional chk_identifier v = Inr w \<longleftrightarrow> w = v \<and> (\<forall>d. v = Some d \<longrightarrow> is_identifier d)"
  by (cases v) (auto simp: chk_optional_def result_simps)

text \<open>A check mapped over an array, stopping at the first failure.\<close>

fun emap :: "('a \<Rightarrow> 'b result) \<Rightarrow> 'a list \<Rightarrow> 'b list result" where
  "emap f [] = Inr []"
| "emap f (x # xs) = ebind (f x) (\<lambda>y. ebind (emap f xs) (\<lambda>ys. Inr (y # ys)))"

lemma emap_Inr [result_simps]: "emap f xs = Inr ys \<longleftrightarrow> list_all2 (\<lambda>x y. f x = Inr y) xs ys"
  by (induction xs arbitrary: ys) (auto simp: result_simps list_all2_Cons1)

lemma emap_id: "(\<And>x. x \<in> set xs \<Longrightarrow> f x = Inr x) \<Longrightarrow> emap f xs = Inr xs"
  by (induction xs) auto

section \<open>Tables\<close>

text \<open>
  A table is the list of its rows in insertion order. \<open>lookup_row\<close> is a \<open>SELECT\<close> by a
  predicate with \<open>fetchone\<close>, \<open>update_rows\<close> an \<open>UPDATE ... WHERE\<close>, \<open>count_rows\<close> its row
  count.
\<close>

definition lookup_row :: "('r \<Rightarrow> bool) \<Rightarrow> 'r list \<Rightarrow> 'r option" where
  "lookup_row P rs = find P rs"

definition update_rows :: "('r \<Rightarrow> bool) \<Rightarrow> ('r \<Rightarrow> 'r) \<Rightarrow> 'r list \<Rightarrow> 'r list" where
  "update_rows P f rs = map (\<lambda>r. if P r then f r else r) rs"

definition count_rows :: "('r \<Rightarrow> bool) \<Rightarrow> 'r list \<Rightarrow> nat" where
  "count_rows P rs = length (filter P rs)"

lemma lookup_row_Some: "lookup_row P rs = Some r \<Longrightarrow> r \<in> set rs \<and> P r"
  by (auto simp: lookup_row_def find_Some_iff)

lemma lookup_row_None: "lookup_row P rs = None \<longleftrightarrow> (\<forall>r \<in> set rs. \<not> P r)"
  by (auto simp: lookup_row_def find_None_iff)

lemma lookup_row_simps [simp]:
  "lookup_row P [] = None"
  "lookup_row P (r # rs) = (if P r then Some r else lookup_row P rs)"
  by (simp_all add: lookup_row_def)

lemma lookup_row_append [table_simps]:
  "lookup_row P (rs @ ss) = (case lookup_row P rs of None \<Rightarrow> lookup_row P ss | Some r \<Rightarrow> Some r)"
  by (induction rs) auto

lemma lookup_row_unique:
  assumes "distinct (map k rs)" and "r \<in> set rs" and "k r = x"
  shows "lookup_row (\<lambda>r. k r = x) rs = Some r"
  using assms by (induction rs) (auto simp: image_iff)

lemma lookup_row_iff:
  assumes "distinct (map k rs)"
  shows "lookup_row (\<lambda>r. k r = x) rs = Some r \<longleftrightarrow> r \<in> set rs \<and> k r = x"
  using assms lookup_row_unique lookup_row_Some by fastforce

lemma update_rows_simps [simp]:
  "update_rows P f [] = []"
  "update_rows P f (r # rs) = (if P r then f r else r) # update_rows P f rs"
  by (simp_all add: update_rows_def)

lemma update_rows_append [table_simps]:
  "update_rows P f (rs @ ss) = update_rows P f rs @ update_rows P f ss"
  by (simp add: update_rows_def)

lemma length_update_rows [simp]: "length (update_rows P f rs) = length rs"
  by (simp add: update_rows_def)

lemma map_update_rows [table_simps]:
  "(\<And>r. P r \<Longrightarrow> g (f r) = g r) \<Longrightarrow> map g (update_rows P f rs) = map g rs"
  by (simp add: update_rows_def)

lemma keys_update_rows [table_simps]:
  "(\<And>r. P r \<Longrightarrow> g (f r) = g r) \<Longrightarrow> g ` set (update_rows P f rs) = g ` set rs"
  by (metis image_set map_update_rows)

lemma set_update_rows: "set (update_rows P f rs) = (\<lambda>r. if P r then f r else r) ` set rs"
  by (simp add: update_rows_def)

lemma lookup_update_rows_same [table_simps]:
  assumes "\<And>r. P r \<Longrightarrow> P (f r)"
  shows "lookup_row P (update_rows P f rs) = map_option f (lookup_row P rs)"
  using assms by (induction rs) auto

lemma lookup_update_rows_other:
  assumes "\<And>r. P r \<Longrightarrow> Q (f r) = Q r" and "\<And>r. P r \<Longrightarrow> \<not> Q r"
  shows "lookup_row Q (update_rows P f rs) = lookup_row Q rs"
  using assms by (induction rs) auto

lemma count_rows_simps [simp]:
  "count_rows P [] = 0"
  "count_rows P (r # rs) = (if P r then Suc (count_rows P rs) else count_rows P rs)"
  "count_rows P (rs @ ss) = count_rows P rs + count_rows P ss"
  by (simp_all add: count_rows_def)

lemma count_rows_0: "count_rows P rs = 0 \<longleftrightarrow> (\<forall>r \<in> set rs. \<not> P r)"
  by (induction rs) auto

lemma count_rows_le: "(\<And>r. r \<in> set rs \<Longrightarrow> P r \<Longrightarrow> Q r) \<Longrightarrow> count_rows P rs \<le> count_rows Q rs"
  by (induction rs) (simp_all add: le_SucI)

lemma count_rows_cong:
  "(\<And>r. r \<in> set rs \<Longrightarrow> P r = Q r) \<Longrightarrow> count_rows P rs = count_rows Q rs"
  by (induction rs) simp_all

lemma count_rows_update_same:
  assumes "\<And>r. r \<in> set rs \<Longrightarrow> P r \<Longrightarrow> Q (f r) = Q r"
  shows "count_rows Q (update_rows P f rs) = count_rows Q rs"
  using assms by (induction rs) simp_all

lemma update_rows_id: "(\<And>r. r \<in> set rs \<Longrightarrow> \<not> P r) \<Longrightarrow> update_rows P f rs = rs"
  by (induction rs) auto

text \<open>Updating the one row of a key moves exactly that row in or out of a count.\<close>

lemma count_rows_update_key:
  assumes "distinct (map k rs)" and "r \<in> set rs" and "k r = x"
  shows "count_rows Q (update_rows (\<lambda>s. k s = x) f rs) + (if Q r then 1 else 0)
       = count_rows Q rs + (if Q (f r) then 1 else 0)"
  using assms
proof (induction rs)
  case (Cons s rs)
  show ?case
  proof (cases "s = r")
    case True
    have "update_rows (\<lambda>s. k s = x) f rs = rs"
      using Cons.prems True by (intro update_rows_id) (auto simp: image_iff)
    with True Cons.prems show ?thesis by simp
  next
    case False
    then have "r \<in> set rs" "k s \<noteq> x"
      using Cons.prems by (auto simp: image_iff)
    with Cons show ?thesis by auto
  qed
qed simp

end
