(* ===== verification/CanonicalProps.thy ===== *)
theory CanonicalProps
  imports Canonical
begin

text \<open>
  The canonical text of a JSON value determines the value: the printer of
  \<open>src/src/macr_runtime/canonical.py\<close> is injective on finite values, so that two records with the
  same digest are the same record (up to key order) unless SHA-256 collides.
\<close>

section \<open>Normal forms\<close>

lemma norm_items_map: "norm_items xs = map json_norm xs"
  by (induction xs) auto

lemma norm_members_map: "norm_members kvs = map (\<lambda>(k, x). (k, json_norm x)) kvs"
  by (induction kvs) auto

lemma insort_key_map:
  "(\<And>x. fst (g x) = fst x) \<Longrightarrow> insort_key fst (g x) (map g xs) = map g (insort_key fst x xs)"
  by (induction xs) auto

lemma sort_key_map:
  "(\<And>x. fst (g x) = fst x) \<Longrightarrow> sort_key fst (map g xs) = map g (sort_key fst xs)"
  by (induction xs) (auto simp: insort_key_map)

lemma sort_key_stable_idem: "sort_key f (sort_key f xs) = sort_key f xs"
  by (rule sort_key_id_if_sorted) (rule sorted_sort_key)

lemma json_norm_idem [simp]:
  "json_norm (json_norm v) = json_norm v"
  "norm_items (norm_items xs) = norm_items xs"
  "norm_members (norm_members kvs) = norm_members kvs"
proof (induction v and xs and kvs rule: json_norm_norm_items_norm_members.induct)
  case (2 kvs)
  have "norm_members (sort_key fst (norm_members kvs)) = sort_key fst (norm_members (norm_members kvs))"
    by (simp add: norm_members_map sort_key_map split_beta)
  with 2 show ?case by (simp add: sort_key_stable_idem)
qed auto

lemma dict_eq_norm [simp]: "dict_eq (json_norm a) b = dict_eq a b" "dict_eq a (json_norm b) = dict_eq a b"
  by (simp_all add: dict_eq_def)

lemma sha256_body_norm [simp]: "sha256_body sha (json_norm v) = sha256_body sha v"
  by (simp add: sha256_body_def)

section \<open>Decimal numerals\<close>

fun undec :: "string \<Rightarrow> nat" where
  "undec [] = 0"
| "undec (c # cs) = (byte c - 48) * 10 ^ length cs + undec cs"

lemma byte_digit_char: "n < 10 \<Longrightarrow> byte (digit_char n) = 48 + n"
  by (simp add: byte_def digit_char_def)

lemma undec_append: "undec (xs @ ys) = undec xs * 10 ^ length ys + undec ys"
  by (induction xs) (auto simp: algebra_simps power_add)

lemma undec_dec: "undec (dec n) = n"
proof (induction n rule: dec.induct)
  case (1 n)
  then show ?case
    by (cases "n < 10") (auto simp: dec.simps [of n] undec_append byte_digit_char)
qed

lemma dec_inject [simp]: "dec m = dec n \<longleftrightarrow> m = n"
  by (metis undec_dec)

lemma dec_digits: "c \<in> set (dec n) \<Longrightarrow> is_digit c"
proof (induction n rule: dec.induct)
  case (1 n)
  then show ?case
    by (cases "n < 10") (auto simp: dec.simps [of n] is_digit_def byte_digit_char)
qed

lemma dec_nonempty [simp]: "dec n \<noteq> []"
  by (subst dec.simps) simp

section \<open>Number tokens\<close>

definition is_number_char :: "char \<Rightarrow> bool" where
  "is_number_char c \<longleftrightarrow> is_digit c \<or> c = CHR ''-'' \<or> c = CHR ''+'' \<or> c = CHR ''.'' \<or> c = CHR ''e''"

text \<open>\<open>repr\<close> of a finite float: number characters, a leading digit or minus sign, and a point or
  an exponent, which no integer has.\<close>

definition float_text :: "string \<Rightarrow> bool" where
  "float_text t \<longleftrightarrow> list_all is_number_char t \<and> (CHR ''.'' \<in> set t \<or> CHR ''e'' \<in> set t)
     \<and> (\<exists>c cs. t = c # cs \<and> (is_digit c \<or> c = CHR ''-''))"

fun wf_json :: "json \<Rightarrow> bool"
  and wf_items :: "json list \<Rightarrow> bool"
  and wf_members :: "(string \<times> json) list \<Rightarrow> bool" where
  "wf_json JNonFinite = False"
| "wf_json JOther = False"
| "wf_json (JFloat t) = float_text t"
| "wf_json (JList xs) = wf_items xs"
| "wf_json (JObj kvs) = wf_members kvs"
| "wf_json _ = True"
| "wf_items [] = True"
| "wf_items (x # xs) = (wf_json x \<and> wf_items xs)"
| "wf_members [] = True"
| "wf_members ((k, x) # kvs) = (wf_json x \<and> wf_members kvs)"

lemma not_digit_chars [simp]:
  "\<not> is_digit CHR ''-''" "\<not> is_digit CHR ''.''" "\<not> is_digit CHR ''e''" "\<not> is_digit CHR '',''"
  "\<not> is_digit CHR '']''" "\<not> is_digit CHR ''}''" "\<not> is_digit CHR 0x22" "\<not> is_digit CHR ''n''"
  "\<not> is_digit CHR ''t''" "\<not> is_digit CHR ''f''" "\<not> is_digit CHR ''[''" "\<not> is_digit CHR ''{''"
  by (simp_all add: is_digit_def byte_def)

lemma int_text_nonempty [simp]: "int_text i \<noteq> []"
  by (simp add: int_text_def)

lemma int_text_chars: "c \<in> set (int_text i) \<Longrightarrow> is_digit c \<or> c = CHR ''-''"
  by (auto simp: int_text_def dest: dec_digits split: if_splits)

lemma int_text_inject [simp]: "int_text i = int_text j \<longleftrightarrow> i = j"
proof
  assume eq: "int_text i = int_text j"
  have minus: "dec n \<noteq> CHR ''-'' # cs" for n cs
    using dec_digits [of "CHR ''-''" n] by auto
  from eq show "i = j"
    by (auto simp: int_text_def minus minus [symmetric] split: if_splits)
qed simp

lemma int_float_disjoint: "float_text t \<Longrightarrow> int_text i \<noteq> t"
proof
  assume t: "float_text t" and eq: "int_text i = t"
  have no: "c \<notin> set (int_text i)" if "\<not> is_digit c" "c \<noteq> CHR ''-''" for c
    using that int_text_chars by blast
  have "CHR ''.'' \<notin> set t" "CHR ''e'' \<notin> set t"
    using no [of "CHR ''.''"] no [of "CHR ''e''"] eq by simp_all
  with t show False by (simp add: float_text_def)
qed

text \<open>What may follow a value inside a text.\<close>

definition stops :: "string \<Rightarrow> bool" where
  "stops r \<longleftrightarrow> (case r of [] \<Rightarrow> True | c # _ \<Rightarrow> c = CHR '','' \<or> c = CHR '']'' \<or> c = CHR ''}'')"

lemma stops_simps [simp]: "stops []" "stops (c # cs) = (c = CHR '','' \<or> c = CHR '']'' \<or> c = CHR ''}'')"
  by (simp_all add: stops_def)

lemma number_token:
  assumes "list_all is_number_char a" "list_all is_number_char b" "stops r" "stops s" "a @ r = b @ s"
  shows "a = b \<and> r = s"
proof -
  have tw: "takeWhile is_number_char (x @ y) = x" if "list_all is_number_char x" "stops y" for x y
    using that by (cases y) (auto simp: list_all_iff is_number_char_def takeWhile_append)
  have "a = b"
    using tw [OF assms(1,3)] tw [OF assms(2,4)] assms(5) by simp
  with assms(5) show ?thesis by simp
qed

lemma int_text_number: "list_all is_number_char (int_text i)"
  using int_text_chars by (auto simp: list_all_iff is_number_char_def)

section \<open>Strings\<close>

lemma byte_hex_char: "n < 16 \<Longrightarrow> byte (hex_char n) = (if n < 10 then 48 + n else 87 + n)"
  by (simp add: byte_def hex_char_def)

lemma hex_char_inject: "m < 16 \<Longrightarrow> n < 16 \<Longrightarrow> hex_char m = hex_char n \<Longrightarrow> m = n"
  by (drule arg_cong [of _ _ byte]) (simp add: byte_hex_char split: if_splits)

lemma byte_inject [simp]: "byte c = byte d \<longleftrightarrow> c = d"
  by (simp add: byte_def)

lemma byte_less [simp]: "byte c < 256"
  by (simp add: byte_def)

lemma esc_char_nonempty [simp]: "esc_char c \<noteq> []"
  by (simp add: esc_char_def Let_def)

lemma esc_char_not_quote: "esc_char c @ xs \<noteq> CHR 0x22 # ys"
  by (auto simp: esc_char_def Let_def byte_def split: if_splits)

text \<open>Reading one escaped character back.\<close>

definition unhex :: "char \<Rightarrow> nat" where
  "unhex c = (if byte c < 58 then byte c - 48 else byte c - 87)"

definition unesc :: "string \<Rightarrow> char \<times> string" where
  "unesc t =
     (if byte (t ! 0) \<noteq> 92 then (t ! 0, drop 1 t)
      else let n = byte (t ! 1) in
        if n = 117 then (char_of (16 * unhex (t ! 4) + unhex (t ! 5)), drop 6 t)
        else (char_of (if n = 34 \<or> n = 92 then n else if n = 110 then 10 else if n = 114 then 13
                else if n = 116 then 9 else if n = 102 then 12 else 8), drop 2 t))"

lemma unhex_hex_char: "n < 16 \<Longrightarrow> unhex (hex_char n) = n"
  by (simp add: unhex_def byte_hex_char)

lemma char_of_byte [simp]: "char_of (byte c) = c"
  by (simp add: byte_def)

lemma char_of_byteI: "byte c = n \<Longrightarrow> char_of n = c"
  by auto

lemma byte_literals [simp]:
  "byte CHR 0x5C = 92" "byte CHR 0x22 = 34" "byte CHR ''n'' = 110" "byte CHR ''r'' = 114"
  "byte CHR ''t'' = 116" "byte CHR ''f'' = 102" "byte CHR ''b'' = 98" "byte CHR ''u'' = 117"
  by (simp_all add: byte_def)

lemma unesc_control:
  assumes "byte c < 32"
  shows "unesc (CHR 0x5C # CHR ''u'' # a # b # hex_char (byte c div 16) # hex_char (byte c mod 16) # r) = (c, r)"
proof -
  have "16 * unhex (hex_char (byte c div 16)) + unhex (hex_char (byte c mod 16)) = byte c"
    using byte_less [of c] by (simp add: unhex_hex_char less_mult_imp_div_less)
  then show ?thesis by (simp add: unesc_def Let_def)
qed

lemma unesc_short:
  "unesc (CHR 0x5C # CHR 0x22 # r) = (char_of (34 :: nat), r)"
  "unesc (CHR 0x5C # CHR 0x5C # r) = (char_of (92 :: nat), r)"
  "unesc (CHR 0x5C # CHR ''n'' # r) = (char_of (10 :: nat), r)"
  "unesc (CHR 0x5C # CHR ''r'' # r) = (char_of (13 :: nat), r)"
  "unesc (CHR 0x5C # CHR ''t'' # r) = (char_of (9 :: nat), r)"
  "unesc (CHR 0x5C # CHR ''f'' # r) = (char_of (12 :: nat), r)"
  "unesc (CHR 0x5C # CHR ''b'' # r) = (char_of (8 :: nat), r)"
  by (simp_all add: unesc_def Let_def)

lemma unesc_plain: "byte c \<noteq> 92 \<Longrightarrow> unesc (c # r) = (c, r)"
  by (simp add: unesc_def)

lemma unesc_esc_char: "unesc (esc_char c @ r) = (c, r)"
  unfolding esc_char_def Let_def
  by (simp only: append_Cons append_Nil unesc_short unesc_control unesc_plain char_of_byteI
      if_distrib [of "\<lambda>t. t @ r"] if_distrib [of unesc] cong: if_cong)
    (auto simp: char_of_byteI unesc_plain)

lemma esc_char_prefix_free: "esc_char c @ xs = esc_char d @ ys \<Longrightarrow> c = d \<and> xs = ys"
  by (metis Pair_inject unesc_esc_char)

lemma esc_prefix_free: "esc s @ CHR 0x22 # xs = esc t @ CHR 0x22 # ys \<Longrightarrow> s = t \<and> xs = ys"
proof (induction s arbitrary: t)
  case Nil
  then show ?case
    by (cases t) (auto simp: esc_char_not_quote esc_char_not_quote [symmetric])
next
  case (Cons c s)
  then show ?case
    by (cases t) (auto simp: esc_char_not_quote dest: esc_char_prefix_free)
qed

lemma quoted_prefix_free: "quoted s @ xs = quoted t @ ys \<Longrightarrow> s = t \<and> xs = ys"
  using esc_prefix_free [of s xs t ys] by (simp add: quoted_def)

section \<open>The printer is injective\<close>

text \<open>The first character of a value tells its kind.\<close>

definition kind_of :: "json \<Rightarrow> nat" where
  "kind_of v = (case v of JNull \<Rightarrow> 0 | JBool b \<Rightarrow> if b then 1 else 2 | JInt _ \<Rightarrow> 3 | JFloat _ \<Rightarrow> 3
     | JStr _ \<Rightarrow> 4 | JList _ \<Rightarrow> 5 | JObj _ \<Rightarrow> 6 | _ \<Rightarrow> 7)"

definition kind_char :: "char \<Rightarrow> nat" where
  "kind_char c = (if c = CHR ''n'' then 0 else if c = CHR ''t'' then 1 else if c = CHR ''f'' then 2
     else if is_digit c \<or> c = CHR ''-'' then 3 else if c = CHR 0x22 then 4 else if c = CHR ''['' then 5
     else if c = CHR ''{'' then 6 else 7)"

lemma kind_char_number: "is_digit c \<or> c = CHR ''-'' \<Longrightarrow> kind_char c = 3"
  by (auto simp: kind_char_def)

lemma kind_char_simps [simp]:
  "kind_char CHR ''n'' = 0" "kind_char CHR ''t'' = 1" "kind_char CHR ''f'' = 2"
  "kind_char CHR 0x22 = 4" "kind_char CHR ''['' = 5" "kind_char CHR ''{'' = 6"
  by (simp_all add: kind_char_def)

lemma kind_of_simps [simp]:
  "kind_of JNull = 0" "kind_of (JBool b) = (if b then 1 else 2)" "kind_of (JInt i) = 3"
  "kind_of (JFloat t) = 3" "kind_of (JStr s) = 4" "kind_of (JList xs) = 5" "kind_of (JObj kvs) = 6"
  by (simp_all add: kind_of_def)

lemma int_text_first: "\<exists>c. (\<exists>cs. int_text i = c # cs) \<and> kind_char c = 3"
proof -
  obtain c cs where t: "int_text i = c # cs" by (cases "int_text i") auto
  with int_text_chars [of c i] have "kind_char c = 3" by (intro kind_char_number) simp
  with t show ?thesis by blast
qed

lemma float_text_first: "float_text t \<Longrightarrow> \<exists>c. (\<exists>cs. t = c # cs) \<and> kind_char c = 3"
  unfolding float_text_def using kind_char_number by blast

lemma enc_kind: "wf_json v \<Longrightarrow> \<exists>c cs. enc v = c # cs \<and> kind_char c = kind_of v"
  by (cases v) (simp_all add: quoted_def int_text_first float_text_first)

lemma same_kind:
  assumes "wf_json v" "wf_json w" "enc v @ r = enc w @ s"
  shows "kind_of v = kind_of w"
  using enc_kind [OF assms(1)] enc_kind [OF assms(2)] assms(3) by auto

lemma enc_number: "wf_json v \<Longrightarrow> kind_of v = 3 \<Longrightarrow> list_all is_number_char (enc v)"
  by (cases v) (auto simp: int_text_number float_text_def split: if_splits)

lemma number_inject: "wf_json v \<Longrightarrow> wf_json w \<Longrightarrow> kind_of v = 3 \<Longrightarrow> kind_of w = 3 \<Longrightarrow> enc v = enc w \<Longrightarrow> v = w"
  by (cases v; cases w) (auto simp: int_float_disjoint dest: int_float_disjoint split: if_splits)

lemma kind_char_stop: "kind_char CHR '','' = 7" "kind_char CHR '']'' = 7" "kind_char CHR ''}'' = 7"
  by (simp_all add: kind_char_def)

lemma kind_of_wf: "wf_json v \<Longrightarrow> kind_of v \<noteq> 7"
  by (cases v) simp_all

lemma wf_first_not_stop:
  assumes "wf_json v" "stops r"
  shows "enc v @ s \<noteq> r"
proof -
  obtain c cs where e: "enc v = c # cs" "kind_char c = kind_of v" using enc_kind [OF assms(1)] by blast
  with kind_of_wf [OF assms(1)] kind_char_stop have "\<not> stops (c # x)" for x by auto
  with e assms(2) show ?thesis by auto
qed

lemma kind_of_string: "kind_of v = 4 \<Longrightarrow> \<exists>t. v = JStr t"
  by (cases v) (auto simp: kind_of_def split: if_splits)

lemma kind_of_nested:
  "kind_of v = 5 \<Longrightarrow> \<exists>xs. v = JList xs"
  "kind_of v = 6 \<Longrightarrow> \<exists>kvs. v = JObj kvs"
  by (cases v; simp add: kind_of_def split: if_splits)+

lemma kind_of_constant: "kind_of v \<le> 2 \<Longrightarrow> kind_of w = kind_of v \<Longrightarrow> w = v"
  by (cases v; cases w) (simp_all add: kind_of_def split: if_splits)

text \<open>Two non-numbers of the same kind agree once their contents do.\<close>

lemma enc_scalar:
  assumes "wf_json v" "wf_json w" "stops r" "stops s" "enc v @ r = enc w @ s"
    and "kind_of v \<in> {0, 1, 2, 3, 4}"
  shows "v = w \<and> r = s"
proof (cases "kind_of v = 3")
  case True
  then have w: "kind_of w = 3" using same_kind [OF assms(1,2,5)] by simp
  have "enc v = enc w \<and> r = s"
    by (rule number_token [OF enc_number [OF assms(1) True] enc_number [OF assms(2) w] assms(3-5)])
  with number_inject [OF assms(1,2) True w] show ?thesis by simp
next
  case False
  have k: "kind_of w = kind_of v" using same_kind [OF assms(1,2,5)] by simp
  show ?thesis
  proof (cases "kind_of v = 4")
    case True
    then obtain a b where "v = JStr a" "w = JStr b" using k kind_of_string by metis
    with assms(5) quoted_prefix_free [of a r b s] show ?thesis by simp
  next
    case F: False
    then have "w = v" using False k assms(6) kind_of_constant [of v w] by auto
    with assms(5) show ?thesis by simp
  qed
qed

lemma enc_items_close:
  assumes "wf_items ys" "CHR '']'' # r = enc_items ys @ CHR '']'' # s"
  shows "ys = [] \<and> r = s"
proof (cases ys)
  case (Cons y zs)
  have "enc y @ (if zs = [] then [] else CHR '','' # enc_items zs) @ CHR '']'' # s \<noteq> CHR '']'' # r"
    using assms(1) Cons by (intro wf_first_not_stop) simp_all
  with assms(2) Cons show ?thesis by simp
qed (use assms(2) in simp)

lemma enc_prefix_free:
  "wf_json v \<Longrightarrow> wf_json w \<Longrightarrow> stops r \<Longrightarrow> stops s \<Longrightarrow> enc v @ r = enc w @ s \<Longrightarrow> v = w \<and> r = s"
  "wf_items xs \<Longrightarrow> wf_items ys \<Longrightarrow> enc_items xs @ CHR '']'' # r = enc_items ys @ CHR '']'' # s
     \<Longrightarrow> xs = ys \<and> r = s"
  "wf_members ks \<Longrightarrow> wf_members ls \<Longrightarrow> enc_members ks @ CHR ''}'' # r = enc_members ls @ CHR ''}'' # s
     \<Longrightarrow> ks = ls \<and> r = s"
proof (induction v and xs and ks arbitrary: w r s and ys r s and ls r s rule: enc_enc_items_enc_members.induct)
  case 1
  then show ?case by (rule enc_scalar) simp
next
  case (2 b)
  then show ?case by (rule enc_scalar) simp
next
  case (3 i)
  then show ?case by (rule enc_scalar) simp
next
  case (4 t)
  then show ?case by (rule enc_scalar) simp
next
  case (5 t)
  then show ?case by (rule enc_scalar) simp
next
  case (6 xs)
  obtain ys where w: "w = JList ys"
    using same_kind [OF "6.prems"(1,2,5)] kind_of_nested [of w] by auto
  have "xs = ys \<and> r = s"
    using "6.prems" w by (intro "6.IH") simp_all
  with w show ?case by simp
next
  case (7 kvs)
  obtain ls where w: "w = JObj ls"
    using same_kind [OF "7.prems"(1,2,5)] kind_of_nested [of w] by auto
  have "kvs = ls \<and> r = s"
    using "7.prems" w by (intro "7.IH") simp_all
  with w show ?case by simp
next
  case 10
  then show ?case
    using enc_items_close [of ys r s] by simp
next
  case (11 x xs)
  obtain y zs where ys: "ys = y # zs"
    using enc_items_close [of "x # xs" s r] "11.prems" by (cases ys) auto
  define t where "t = (if xs = [] then [] else CHR '','' # enc_items xs) @ CHR '']'' # r"
  define u where "u = (if zs = [] then [] else CHR '','' # enc_items zs) @ CHR '']'' # s"
  have "x = y \<and> t = u"
    using "11.prems" ys by (intro "11.IH"(1)) (auto simp: t_def u_def)
  moreover have "t = u \<Longrightarrow> xs = zs \<and> r = s"
    using "11.prems" "11.IH"(2) [of zs r s] ys by (auto simp: t_def u_def split: if_splits)
  ultimately show ?case by (simp add: ys)
next
  case 12
  then show ?case by (cases ls) (auto simp: quoted_def)
next
  case (13 k x kvs)
  then obtain l y zs where ls: "ls = (l, y) # zs"
    by (cases ls) (auto simp: quoted_def)
  define t where "t = (if kvs = [] then [] else CHR '','' # enc_members kvs) @ CHR ''}'' # r"
  define u where "u = (if zs = [] then [] else CHR '','' # enc_members zs) @ CHR ''}'' # s"
  have q: "k = l \<and> enc x @ t = enc y @ u"
    using "13.prems"(3) ls quoted_prefix_free [of k "CHR '':'' # enc x @ t" l "CHR '':'' # enc y @ u"]
    by (simp add: t_def u_def)
  then have "x = y \<and> t = u"
    using "13.prems" ls by (intro "13.IH"(1)) (auto simp: t_def u_def)
  moreover have "t = u \<Longrightarrow> kvs = zs \<and> r = s"
    using "13.prems" "13.IH"(2) [of zs r s] ls by (auto simp: t_def u_def split: if_splits)
  ultimately show ?case using q by (simp add: ls)
qed simp_all

section \<open>Canonical text and digests\<close>

lemma wf_members_all: "wf_members kvs \<longleftrightarrow> (\<forall>(k, x) \<in> set kvs. wf_json x)"
  by (induction kvs) auto

lemma wf_norm [simp]:
  "wf_json (json_norm v) = wf_json v"
  "wf_items (norm_items xs) = wf_items xs"
  "wf_members (norm_members kvs) = wf_members kvs"
proof (induction v and xs and kvs rule: json_norm_norm_items_norm_members.induct)
  case (2 kvs)
  then show ?case by (simp add: wf_members_all)
qed auto

text \<open>C7. The canonical text of a finite JSON value determines it up to the order of object
  keys: two well-formed documents with the same canonical bytes are equal dictionaries.\<close>

theorem canonical_json_injective:
  assumes "wf_json v" "wf_json w" "canonical_json_bytes v = Inr b" "canonical_json_bytes w = Inr b"
  shows "dict_eq v w"
proof -
  have "enc (json_norm v) @ [] = enc (json_norm w) @ []"
    using assms(3,4) by (auto simp: canonical_json_bytes_def result_simps)
  with enc_prefix_free(1) [of "json_norm v" "json_norm w" "[]" "[]"] assms(1,2)
  show ?thesis by (simp add: dict_eq_def)
qed

theorem canonical_json_injective_witness:
  "dict_eq (JObj [(''b'', JInt 1), (''a'', JNull)]) (JObj [(''a'', JNull), (''b'', JInt 1)])"
  by (rule canonical_json_injective [of _ _ "enc (JObj [(''a'', JNull), (''b'', JInt 1)])"])
    (simp_all add: canonical_json_bytes_def)

text \<open>The digest of a record determines the record unless SHA-256 collides on the two texts.\<close>

definition collides :: "(string \<Rightarrow> string) \<Rightarrow> json \<Rightarrow> json \<Rightarrow> bool" where
  "collides sha v w \<longleftrightarrow> sha (enc (json_norm v)) = sha (enc (json_norm w)) \<and> enc (json_norm v) \<noteq> enc (json_norm w)"

lemma sha256_body_inject:
  assumes "wf_json v" "wf_json w" "\<not> collides sha v w"
  shows "sha256_body sha v = sha256_body sha w \<longleftrightarrow> dict_eq v w"
proof
  assume "sha256_body sha v = sha256_body sha w"
  with assms(3) have "enc (json_norm v) @ [] = enc (json_norm w) @ []"
    by (simp add: sha256_body_def collides_def)
  with enc_prefix_free(1) [of "json_norm v" "json_norm w" "[]" "[]"] assms(1,2)
  show "dict_eq v w" by (simp add: dict_eq_def)
next
  assume "dict_eq v w"
  then show "sha256_body sha v = sha256_body sha w" by (simp add: dict_eq_def sha256_body_def)
qed

end
