(* ===== verification/Timestamps.thy ===== *)
theory Timestamps
  imports CanonicalProps
begin

text \<open>
  Timestamps as text. Every table stores \<open>isoformat()\<close> of an aware UTC datetime, reads it back with
  \<open>datetime.fromisoformat\<close>, and some queries compare the texts themselves (\<open>lease_expires_at <= ?\<close>).
  Here is the reader for the form that \<open>isoformat\<close> writes, that it reads back the instant, and
  that the texts are ordered as the instants are: this is why the tables of the model can hold
  instants.
\<close>

section \<open>The calendar\<close>

text \<open>Day of the era of the first day (1 March) of a year of the era.\<close>

definition year_start :: "int \<Rightarrow> int" where
  "year_start y = (if y = 400 then 146097 else 365 * y + y div 4 - y div 100)"

definition year_of_era :: "int \<Rightarrow> int" where
  "year_of_era doe = (doe - doe div 1460 + doe div 36524 - doe div 146096) div 365"

lemma minus_div_mono:
  assumes "(a :: int) \<le> b" "0 < k"
  shows "a - a div k \<le> b - b div k"
proof -
  have "b - a \<le> (b - a) * k" using assms by (simp add: mult_le_cancel_left1)
  then have "b div k \<le> (a + (b - a) * k) div k" by (intro zdiv_mono1) (use assms in linarith)+
  also have "\<dots> = a div k + (b - a)" using assms by simp
  finally show ?thesis by linarith
qed

lemma year_of_era_mono:
  assumes "a \<le> b"
  shows "year_of_era a \<le> year_of_era b"
proof -
  have d: "x div 146096 = x div 36524 div 4" for x :: int by (simp add: zdiv_zmult2_eq [symmetric])
  have "a - a div 1460 \<le> b - b div 1460" using minus_div_mono assms by simp
  moreover have "a div 36524 - a div 36524 div 4 \<le> b div 36524 - b div 36524 div 4"
    using minus_div_mono [of "a div 36524" "b div 36524" 4] zdiv_mono1 assms by simp
  ultimately show ?thesis unfolding year_of_era_def d by (intro zdiv_mono1) linarith+
qed

lemma year_check:
  "list_all (\<lambda>y. year_of_era (year_start y) = y \<and> year_of_era (year_start (y + 1) - 1) = y
     \<and> year_start (y + 1) - year_start y \<le> 366 \<and> year_start y < year_start (y + 1)) [0 .. 399]"
  by code_simp

lemma year_checkD:
  assumes "0 \<le> y" "y < 400"
  shows "year_of_era (year_start y) = y" "year_of_era (year_start (y + 1) - 1) = y"
    "year_start (y + 1) - year_start y \<le> 366" "year_start y < year_start (y + 1)"
  using year_check assms by (simp_all add: list_all_iff)

lemma year_of_era_bounds:
  assumes "0 \<le> doe" "doe < 146097"
  shows "0 \<le> year_of_era doe" "year_of_era doe < 400"
    "year_start (year_of_era doe) \<le> doe" "doe < year_start (year_of_era doe) + 366"
proof -
  have ex: "\<exists>y. 0 \<le> y \<and> y < int n \<and> year_start y \<le> doe \<and> doe < year_start (y + 1)"
    if "n \<le> 400" "doe < year_start (int n)" for n
    using that
  proof (induction n)
    case 0
    then show ?case using assms by (simp add: year_start_def)
  next
    case (Suc n)
    show ?case
    proof (cases "doe < year_start (int n)")
      case True
      with Suc obtain y where "0 \<le> y" "y < int n" "year_start y \<le> doe" "doe < year_start (y + 1)" by auto
      then show ?thesis by (intro exI [of _ y]) auto
    next
      case False
      with Suc show ?thesis by (intro exI [of _ "int n"]) (auto simp: add.commute)
    qed
  qed
  have "doe < year_start (int 400)" using assms by (simp add: year_start_def)
  from ex [OF _ this] obtain y where y: "0 \<le> y" "y < 400" "year_start y \<le> doe" "doe < year_start (y + 1)"
    by auto
  have "year_of_era (year_start y) \<le> year_of_era doe" "year_of_era doe \<le> year_of_era (year_start (y + 1) - 1)"
    by (rule year_of_era_mono; use y in linarith)+
  then have e: "year_of_era doe = y" using year_checkD [OF y(1,2)] by linarith
  show "0 \<le> year_of_era doe" "year_of_era doe < 400" "year_start (year_of_era doe) \<le> doe"
    "doe < year_start (year_of_era doe) + 366"
    using y year_checkD(3) [OF y(1,2)] unfolding e by linarith+
qed

text \<open>The date counted from 1 March: year, month from March (0 to 11) and day.\<close>

definition march_date :: "int \<Rightarrow> int \<times> int \<times> int" where
  "march_date d =
     (let z = d + 719468; doe = z mod 146097; yoe = year_of_era doe; doy = doe - year_start yoe;
          mp = (5 * doy + 2) div 153
      in (yoe + z div 146097 * 400, mp, doy - (153 * mp + 2) div 5 + 1))"

definition civil_of_march :: "int \<times> int \<times> int \<Rightarrow> int \<times> int \<times> int" where
  "civil_of_march ymd = (case ymd of (y, mp, day) \<Rightarrow>
     (let month = (if mp < 10 then mp + 3 else mp - 9) in (y + (if month \<le> 2 then 1 else 0), month, day)))"

definition day_of_march :: "int \<times> int \<times> int \<Rightarrow> int" where
  "day_of_march ymd = (case ymd of (y, mp, day) \<Rightarrow>
     y div 400 * 146097 + year_start (y mod 400) + (153 * mp + 2) div 5 + day - 1 - 719468)"

lemma civil_date_march: "civil_date d = civil_of_march (march_date d)"
proof -
  let ?doe = "(d + 719468) mod 146097"
  have "0 \<le> ?doe" "?doe < 146097" by simp_all
  from year_of_era_bounds(2) [OF this]
  have s: "year_start (year_of_era ?doe) = 365 * year_of_era ?doe + year_of_era ?doe div 4 - year_of_era ?doe div 100"
    by (simp add: year_start_def)
  show ?thesis
    unfolding civil_date_def march_date_def civil_of_march_def Let_def prod.case year_of_era_def [symmetric] s ..
qed

lemma march_date_bounds:
  assumes "march_date d = (y, mp, day)"
  shows "0 \<le> mp" "mp \<le> 11" "1 \<le> day" "day \<le> 31" "day_of_march (march_date d) = d"
proof -
  define doe where "doe = (d + 719468) mod 146097"
  define doy where "doy = doe - year_start (year_of_era doe)"
  have "0 \<le> doe" "doe < 146097" by (simp_all add: doe_def)
  note b = year_of_era_bounds [OF this]
  have r: "0 \<le> doy" "doy \<le> 365" using b by (simp_all add: doy_def)
  have m: "y = year_of_era doe + (d + 719468) div 146097 * 400" "mp = (5 * doy + 2) div 153"
    "day = doy - (153 * mp + 2) div 5 + 1"
    using assms unfolding march_date_def Let_def doe_def [symmetric] doy_def [symmetric] prod.inject by blast+
  show "0 \<le> mp" "mp \<le> 11" using r by (simp_all add: m)
  have d: "5 * doy + 2 = 153 * mp + (5 * doy + 2) mod 153" "0 \<le> (5 * doy + 2) mod 153" "(5 * doy + 2) mod 153 \<le> 152"
    using pos_mod_bound [of 153 "5 * doy + 2"] by (simp_all add: m)
  have q: "153 * mp + 2 = 5 * ((153 * mp + 2) div 5) + (153 * mp + 2) mod 5" "0 \<le> (153 * mp + 2) mod 5"
    "(153 * mp + 2) mod 5 \<le> 4"
    using pos_mod_bound [of 5 "153 * mp + 2"] by simp_all
  show "1 \<le> day" "day \<le> 31" unfolding m(3) using d q by linarith+
  have "y mod 400 = year_of_era doe" "y div 400 = (d + 719468) div 146097" using b by (simp_all add: m)
  then have "day_of_march (y, mp, day) = (d + 719468) div 146097 * 146097 + year_start (year_of_era doe) + doy - 719468"
    by (simp add: day_of_march_def m(3))
  also have "\<dots> = d" by (simp add: doy_def doe_def)
  finally show "day_of_march (march_date d) = d" using assms by simp
qed

lemma march_date_mono:
  assumes "d < d'"
  shows "march_date d < march_date d'"
proof -
  define z z' where "z = d + 719468" and "z' = d' + 719468"
  define u u' where "u = year_of_era (z mod 146097)" and "u' = year_of_era (z' mod 146097)"
  have b: "0 \<le> z mod 146097" "z mod 146097 < 146097" "0 \<le> z' mod 146097" "z' mod 146097 < 146097" by simp_all
  note u = year_of_era_bounds(1,2) [OF b(1,2), folded u_def] and u' = year_of_era_bounds(1,2) [OF b(3,4), folded u'_def]
  have "z < z'" using assms by (simp add: z_def z'_def)
  then have e: "z div 146097 < z' div 146097 \<or> z div 146097 = z' div 146097 \<and> z mod 146097 < z' mod 146097"
    using zdiv_mono1 [of z z' 146097] div_mult_mod_eq [of z 146097] div_mult_mod_eq [of z' 146097] by linarith
  define y y' where "y = z mod 146097 - year_start u" and "y' = z' mod 146097 - year_start u'"
  have m: "march_date d = (u + z div 146097 * 400, (5 * y + 2) div 153, y - (153 * ((5 * y + 2) div 153) + 2) div 5 + 1)"
    "march_date d' = (u' + z' div 146097 * 400, (5 * y' + 2) div 153, y' - (153 * ((5 * y' + 2) div 153) + 2) div 5 + 1)"
    unfolding march_date_def Let_def z_def [symmetric] u_def [symmetric] y_def [symmetric]
      z'_def [symmetric] u'_def [symmetric] y'_def [symmetric] by (rule refl)+
  show ?thesis
  proof (cases "u + z div 146097 * 400 < u' + z' div 146097 * 400")
    case True
    then show ?thesis unfolding m by simp
  next
    case False
    then have eq: "z div 146097 = z' div 146097" "z mod 146097 < z' mod 146097" "u' \<le> u" using e u u' by linarith+
    then have uu: "u' = u" using year_of_era_mono [of "z mod 146097" "z' mod 146097"] by (simp add: u_def u'_def)
    have "y < y'" using eq by (simp add: y_def y'_def uu)
    then have "(5 * y + 2) div 153 < (5 * y' + 2) div 153
        \<or> (5 * y + 2) div 153 = (5 * y' + 2) div 153 \<and> y < y'"
      using zdiv_mono1 [of "5 * y + 2" "5 * y' + 2" 153] by linarith
    then show ?thesis unfolding m uu eq(1) by auto
  qed
qed

definition day_of_civil :: "int \<times> int \<times> int \<Rightarrow> int" where
  "day_of_civil ymd = (case ymd of (y, month, day) \<Rightarrow>
     day_of_march (if month \<le> 2 then (y - 1, month + 9, day) else (y, month - 3, day)))"

lemma civil_date_bounds:
  assumes "civil_date d = (y, month, day)"
  shows "1 \<le> month" "month \<le> 12" "1 \<le> day" "day \<le> 31" "day_of_civil (civil_date d) = d"
proof -
  obtain u mp v where m: "march_date d = (u, mp, v)" by (cases "march_date d")
  note b = march_date_bounds [OF m]
  show "1 \<le> month" "month \<le> 12" "1 \<le> day" "day \<le> 31"
    using b(1-4) assms by (auto simp: civil_date_march m civil_of_march_def Let_def split: if_splits)
  have "day_of_civil (civil_date d) = day_of_march (march_date d)"
    using b(1,2) by (auto simp: civil_date_march m civil_of_march_def day_of_civil_def Let_def)
  with b(5) show "day_of_civil (civil_date d) = d" by simp
qed

lemma civil_date_mono:
  assumes "d < d'"
  shows "civil_date d < civil_date d'"
proof -
  obtain u mp v u' mp' v' where m: "march_date d = (u, mp, v)" "march_date d' = (u', mp', v')"
    by (cases "march_date d", cases "march_date d'") blast
  from march_date_mono [OF assms] march_date_bounds(1,2) [OF m(1)] march_date_bounds(1,2) [OF m(2)]
  show ?thesis unfolding civil_date_march m
    by (auto simp: civil_of_march_def Let_def)
qed

section \<open>Padded numerals\<close>

lemma undec_bound: "list_all is_digit s \<Longrightarrow> undec s < 10 ^ length s"
proof (induction s)
  case (Cons c s)
  then have "byte c - 48 \<le> 9" "undec s < 10 ^ length s" by (auto simp: is_digit_def)
  moreover have "(byte c - 48) * 10 ^ length s \<le> 9 * 10 ^ length s" using calculation(1) by (rule mult_le_mono1)
  ultimately show ?case unfolding undec.simps list.size by (simp only: add_Suc_right power_Suc add_0_right)
qed simp

lemma byte_less_iff: "c < d \<longleftrightarrow> byte c < byte d"
  by (simp add: byte_def less_char_def)

lemma byte_eq: "byte c = byte d \<longleftrightarrow> c = d"
  by (simp add: byte_def)

lemma append_less:
  fixes s t :: string
  shows "length s = length t \<Longrightarrow> s @ u < t @ v \<longleftrightarrow> s < t \<or> s = t \<and> u < v"
  by (induction s t rule: list_induct2) auto

lemma digits_less:
  "length s = length t \<Longrightarrow> list_all is_digit s \<Longrightarrow> list_all is_digit t \<Longrightarrow> s < t \<longleftrightarrow> undec s < undec t"
proof (induction s t rule: list_induct2)
  case (Cons c s d t)
  have b: "undec s < 10 ^ length t" "undec t < 10 ^ length t"
    using undec_bound [of s] undec_bound [of t] Cons by simp_all
  let ?m = "byte c - 48" and ?n = "byte d - 48"
  have cd: "c < d \<longleftrightarrow> ?m < ?n" "c = d \<longleftrightarrow> ?m = ?n"
    using Cons.prems by (auto simp: byte_less_iff is_digit_def simp flip: byte_eq)
  have less: "x * 10 ^ length t + p < y * 10 ^ length t + q" if "x < y" "p < 10 ^ length t" for x y p q :: nat
  proof -
    have "x * 10 ^ length t + p < (x + 1) * 10 ^ length t" using that by simp
    also have "\<dots> \<le> y * 10 ^ length t" using that(1) by (intro mult_le_mono1) simp
    finally show ?thesis by simp
  qed
  show ?case
    using Cons less [of ?m ?n "undec s" "undec t"] less [of ?n ?m "undec t" "undec s"] b cd
    by (auto simp: linorder_neq_iff)
qed simp

lemma length_dec: "n < 10 ^ w \<Longrightarrow> 0 < w \<Longrightarrow> length (dec n) \<le> w"
proof (induction n arbitrary: w rule: dec.induct)
  case (1 n)
  show ?case
  proof (cases "n < 10")
    case False
    then obtain v where w: "w = Suc v" "0 < v" using 1(2,3) by (cases w; cases "w - 1") auto
    then have "n div 10 < 10 ^ v" using 1(2) by (simp add: less_mult_imp_div_less)
    from 1(1) [OF False this w(2)] False show ?thesis by (subst dec.simps) (simp add: w)
  qed (use 1 in \<open>simp add: dec.simps [of n]\<close>)
qed

lemma undec_zeros [simp]: "undec (replicate k (CHR ''0'')) = 0"
  by (induction k) (simp_all add: byte_def)

lemma pad_facts:
  assumes "0 \<le> i" "i < 10 ^ w" "0 < w"
  shows "length (pad w i) = w" "list_all is_digit (pad w i)" "undec (pad w i) = nat i"
proof -
  have "nat i < 10 ^ w" using assms by (simp add: nat_less_iff)
  then have "length (dec (nat i)) \<le> w" using assms(3) by (rule length_dec)
  then show "length (pad w i) = w" by (simp add: pad_def Let_def)
  show "list_all is_digit (pad w i)"
    by (auto simp: pad_def Let_def list_all_iff is_digit_def byte_def dest: dec_digits)
  show "undec (pad w i) = nat i" by (simp add: pad_def Let_def undec_append undec_dec)
qed

lemma pad_less:
  assumes "0 \<le> i" "i < 10 ^ w" "0 \<le> j" "j < 10 ^ w" "0 < w"
  shows "pad w i @ u < pad w j @ v \<longleftrightarrow> i < j \<or> i = j \<and> u < v"
proof -
  note i = pad_facts [OF assms(1,2,5)] and j = pad_facts [OF assms(3,4,5)]
  have "pad w i < pad w j \<longleftrightarrow> i < j" using digits_less [of "pad w i" "pad w j"] i j assms by auto
  moreover have "pad w i = pad w j \<longleftrightarrow> i = j" using i(3) j(3) assms by (metis eq_nat_nat_iff)
  ultimately show ?thesis using append_less [of "pad w i" "pad w j"] i(1) j(1) by simp
qed

section \<open>The text of an instant\<close>

text \<open>The instants a \<open>datetime\<close> can hold: the years 1 to 9999.\<close>

definition datetime_ok :: "int \<Rightarrow> bool" where
  "datetime_ok t \<longleftrightarrow> -62135596800000000 \<le> t \<and> t < 253402300800000000"

lemma datetime_year:
  assumes "datetime_ok t" "civil_date (t div 1000000 div 86400) = (y, m, d)"
  shows "1 \<le> y" "y \<le> 9999"
proof -
  let ?d = "t div 1000000 div 86400"
  have r: "-719162 \<le> ?d" "?d < 2932897" using assms(1) by (auto simp: datetime_ok_def)
  have c: "civil_date (-719162) = (1, 1, 1)" "civil_date 2932897 = (10000, 1, 1)" by code_simp+
  have "civil_date ?d < (10000, 1, 1)" using civil_date_mono [OF r(2)] by (simp add: c)
  moreover have "(1, 1, 1) \<le> civil_date ?d"
    using civil_date_mono [of "-719162" ?d] r(1) by (cases "?d = -719162") (auto simp: c)
  ultimately show "1 \<le> y" "y \<le> 9999"
    using civil_date_bounds(1-4) [OF assms(2)] unfolding assms(2) by auto
qed

definition instant_key :: "int \<Rightarrow> (int \<times> int \<times> int) \<times> int \<times> int \<times> int \<times> int" where
  "instant_key t = (let s = t div 1000000; tod = s mod 86400 in
     (civil_date (s div 86400), tod div 3600, tod div 60 mod 60, tod mod 60, t mod 1000000))"

lemma instant_key_mono:
  assumes "a < b"
  shows "instant_key a < instant_key b"
proof -
  define s s' where "s = a div 1000000" and "s' = b div 1000000"
  have 1: "s < s' \<or> s = s' \<and> a mod 1000000 < b mod 1000000"
    using assms zdiv_mono1 [of a b 1000000] div_mult_mod_eq [of a 1000000] div_mult_mod_eq [of b 1000000]
    unfolding s_def s'_def by linarith
  define m m' where "m = s mod 86400" and "m' = s' mod 86400"
  have 2: "s div 86400 < s' div 86400 \<or> s div 86400 = s' div 86400 \<and> m < m'" if "s < s'"
    using that zdiv_mono1 [of s s' 86400] div_mult_mod_eq [of s 86400] div_mult_mod_eq [of s' 86400]
    unfolding m_def m'_def by linarith
  define p p' where "p = m div 60" and "p' = m' div 60"
  have 3: "p < p' \<or> p = p' \<and> m mod 60 < m' mod 60" if "m < m'"
    using that zdiv_mono1 [of m m' 60] div_mult_mod_eq [of m 60] div_mult_mod_eq [of m' 60]
    unfolding p_def p'_def by linarith
  have 4: "p div 60 < p' div 60 \<or> p div 60 = p' div 60 \<and> p mod 60 < p' mod 60" if "p < p'"
    using that zdiv_mono1 [of p p' 60] div_mult_mod_eq [of p 60] div_mult_mod_eq [of p' 60] by linarith
  have k: "instant_key a = (civil_date (s div 86400), p div 60, p mod 60, m mod 60, a mod 1000000)"
    "instant_key b = (civil_date (s' div 86400), p' div 60, p' mod 60, m' mod 60, b mod 1000000)"
    by (simp_all add: instant_key_def Let_def s_def s'_def m_def m'_def p_def p'_def zdiv_zmult2_eq [symmetric])
  show ?thesis
  proof (cases "s < s'")
    case True
    from 2 [OF this] show ?thesis
    proof
      assume "s div 86400 < s' div 86400"
      from civil_date_mono [OF this] show ?thesis unfolding k by simp
    next
      assume e: "s div 86400 = s' div 86400 \<and> m < m'"
      with 3 4 show ?thesis unfolding k by auto
    qed
  next
    case False
    with 1 have "s = s'" "a mod 1000000 < b mod 1000000" by auto
    then show ?thesis unfolding k by (simp add: m_def m'_def p_def p'_def)
  qed
qed

lemma clock_bounds:
  "0 \<le> x mod 86400 div 3600" "x mod 86400 div 3600 < (10 :: int) ^ 2" "0 \<le> x mod 86400 div 60 mod 60"
  "x mod 86400 div 60 mod 60 < (10 :: int) ^ 2" "0 \<le> x mod 86400 mod 60" "x mod 86400 mod 60 < (10 :: int) ^ 2"
  "0 \<le> x mod 1000000" "x mod 1000000 < (10 :: int) ^ 6"
proof -
  have "0 \<le> x mod 86400" "x mod 86400 < 86400" "y mod 60 < 60" "x mod 1000000 < 1000000" for y :: int
    by (rule pos_mod_sign pos_mod_bound; simp)+
  then show "0 \<le> x mod 86400 div 3600" "x mod 86400 div 3600 < (10 :: int) ^ 2" "0 \<le> x mod 86400 div 60 mod 60"
    "x mod 86400 div 60 mod 60 < (10 :: int) ^ 2" "0 \<le> x mod 86400 mod 60" "x mod 86400 mod 60 < (10 :: int) ^ 2"
    "0 \<le> x mod 1000000" "x mod 1000000 < (10 :: int) ^ 6"
    by (simp_all add: less_trans [of _ 60 100])
qed

lemma isoformat_key_mono:
  assumes "datetime_ok a" "datetime_ok b" "instant_key a < instant_key b"
  shows "isoformat a < isoformat b"
proof -
  obtain y m d y' m' d' where c: "civil_date (a div 1000000 div 86400) = (y, m, d)"
      "civil_date (b div 1000000 div 86400) = (y', m', d')"
    by (metis prod_cases3)
  define h i q h' i' q' where
    "h = a div 1000000 mod 86400 div 3600" "i = a div 1000000 mod 86400 div 60 mod 60"
    "q = a div 1000000 mod 86400 mod 60" "h' = b div 1000000 mod 86400 div 3600"
    "i' = b div 1000000 mod 86400 div 60 mod 60" "q' = b div 1000000 mod 86400 mod 60"
  define u u' where "u = a mod 1000000" and "u' = b mod 1000000"
  have r: "0 \<le> y" "y < 10 ^ 4" "0 \<le> y'" "y' < 10 ^ 4"
    using datetime_year [OF assms(1) c(1)] datetime_year [OF assms(2) c(2)] by simp_all
  have r2: "0 \<le> m" "m < 10 ^ 2" "0 \<le> d" "d < 10 ^ 2" "0 \<le> m'" "m' < 10 ^ 2" "0 \<le> d'" "d' < 10 ^ 2"
    using civil_date_bounds(1-4) [OF c(1)] civil_date_bounds(1-4) [OF c(2)] by simp_all
  have r3: "0 \<le> h" "h < 10 ^ 2" "0 \<le> i" "i < 10 ^ 2" "0 \<le> q" "q < 10 ^ 2" "0 \<le> h'" "h' < 10 ^ 2" "0 \<le> i'" "i' < 10 ^ 2"
    "0 \<le> q'" "q' < 10 ^ 2" "0 \<le> u" "u < 10 ^ 6" "0 \<le> u'" "u' < 10 ^ 6"
    unfolding h_i_q_h'_i'_q'_def u_def u'_def by (rule clock_bounds)+
  define w w' where "w = (if u = 0 then [] else ''.'' @ pad 6 u) @ ''+00:00''"
    and "w' = (if u' = 0 then [] else ''.'' @ pad 6 u') @ ''+00:00''"
  have f: "w < w'" if "u < u'"
    using that r3(13-16) unfolding w_def w'_def by (simp add: pad_less byte_less_iff byte_def)
  have t: "isoformat a = pad 4 y @ ''-'' @ pad 2 m @ ''-'' @ pad 2 d @ ''T'' @ pad 2 h @ '':''
         @ pad 2 i @ '':'' @ pad 2 q @ w"
    "isoformat b = pad 4 y' @ ''-'' @ pad 2 m' @ ''-'' @ pad 2 d' @ ''T'' @ pad 2 h' @ '':''
         @ pad 2 i' @ '':'' @ pad 2 q' @ w'"
    unfolding isoformat_def Let_def c prod.case h_i_q_h'_i'_q'_def u_def u'_def w_def w'_def by (rule refl)+
  have "instant_key a = ((y, m, d), h, i, q, u)" "instant_key b = ((y', m', d'), h', i', q', u')"
    unfolding instant_key_def Let_def c h_i_q_h'_i'_q'_def u_def u'_def by (rule refl)+
  with assms(3) have "y < y' \<or> y = y' \<and> (m < m' \<or> m = m' \<and> (d < d' \<or> d = d' \<and> (h < h' \<or> h = h' \<and> (i < i' \<or> i = i'
    \<and> (q < q' \<or> q = q' \<and> u < u')))))" by auto
  then show ?thesis
    unfolding t append_Cons append_Nil append_assoc
    using r r2 r3(1-12) f by (auto simp: pad_less)
qed

text \<open>The stored timestamps sort as the instants they denote: comparing the texts of two aware
  datetimes, as \<open>WHERE lease_expires_at <= ?\<close> and \<open>ORDER BY requested_at\<close> do, is comparing the
  instants, with and without a fraction of a second.\<close>

theorem isoformat_less_iff:
  assumes "datetime_ok a" "datetime_ok b"
  shows "isoformat a < isoformat b \<longleftrightarrow> a < b"
proof -
  have "isoformat x < isoformat y" if "x < y" "datetime_ok x" "datetime_ok y" for x y
    using isoformat_key_mono [OF that(2,3) instant_key_mono [OF that(1)]] .
  with assms show ?thesis by (metis less_asym less_irrefl linorder_neqE)
qed

theorem isoformat_less_iff_witness:
  "isoformat 1789171200000000 < isoformat 1789171200000001"
  by (subst isoformat_less_iff) (simp_all add: datetime_ok_def)

section \<open>Reading a timestamp back\<close>

text \<open>\<open>datetime.fromisoformat\<close> on the form that \<open>isoformat\<close> writes in UTC; any other text is
  treated as no timestamp.\<close>

definition read_isoformat :: "string \<Rightarrow> timestamp_text" where
  "read_isoformat s =
     (let num = (\<lambda>i n. int (undec (take n (drop i s))));
          day = day_of_civil (num 0 4, num 5 2, num 8 2);
          tod = num 11 2 * 3600 + num 14 2 * 60 + num 17 2;
          us = (if take 1 (drop 19 s) = ''.'' then num 20 6 else 0);
          t = (day * 86400 + tod) * 1000000 + us
      in if datetime_ok t \<and> isoformat t = s then Ts_Aware t else Ts_Invalid)"

lemma read_isoformat_Aware: "read_isoformat s = Ts_Aware t \<Longrightarrow> s = isoformat t \<and> datetime_ok t"
  by (auto simp: read_isoformat_def Let_def split: if_splits)

lemma clock_join: "x mod 86400 div 3600 * 3600 + x mod 86400 div 60 mod 60 * 60 + x mod 86400 mod 60 = (x :: int) mod 86400"
proof -
  let ?m = "x mod 86400"
  have "?m div 3600 = ?m div 60 div 60" by (simp add: zdiv_zmult2_eq [symmetric])
  then show ?thesis using div_mult_mod_eq [of ?m 60] div_mult_mod_eq [of "?m div 60" 60] by linarith
qed

lemma iso_fields:
  assumes "s = Y @ ''-'' @ M @ ''-'' @ D @ ''T'' @ H @ '':'' @ I @ '':'' @ Q @ R"
    and "length Y = 4" "length M = 2" "length D = 2" "length H = 2" "length I = 2" "length Q = 2"
  shows "take 4 (drop 0 s) = Y" "take 2 (drop 5 s) = M" "take 2 (drop 8 s) = D" "take 2 (drop 11 s) = H"
    "take 2 (drop 14 s) = I" "take 2 (drop 17 s) = Q" "drop 19 s = R"
  unfolding assms(1) by (simp_all add: assms(2-7))

lemma read_isoformat:
  assumes "datetime_ok t"
  shows "read_isoformat (isoformat t) = Ts_Aware t"
proof -
  define x where "x = t div 1000000"
  obtain y m d where c: "civil_date (x div 86400) = (y, m, d)" by (metis prod_cases3)
  note cb = clock_bounds [of x] clock_bounds(7,8) [of t]
  have r: "0 \<le> y" "y < 10 ^ 4" "0 \<le> m" "m < 10 ^ 2" "0 \<le> d" "d < 10 ^ 2"
    using datetime_year [OF assms c [unfolded x_def]] civil_date_bounds(1-4) [OF c] by simp_all
  have w: "0 < (4 :: nat)" "0 < (2 :: nat)" "0 < (6 :: nat)" by simp_all
  note p = pad_facts [OF r(1,2) w(1)] pad_facts [OF r(3,4) w(2)] pad_facts [OF r(5,6) w(2)] pad_facts [OF cb(1,2) w(2)]
    pad_facts [OF cb(3,4) w(2)] pad_facts [OF cb(5,6) w(2)] pad_facts [OF cb(9,10) w(3)]
  have t: "isoformat t = pad 4 y @ ''-'' @ pad 2 m @ ''-'' @ pad 2 d @ ''T'' @ pad 2 (x mod 86400 div 3600) @ '':''
         @ pad 2 (x mod 86400 div 60 mod 60) @ '':'' @ pad 2 (x mod 86400 mod 60)
         @ (if t mod 1000000 = 0 then [] else ''.'' @ pad 6 (t mod 1000000)) @ ''+00:00''"
    unfolding isoformat_def Let_def x_def [symmetric] c prod.case by (rule refl)
  let ?num = "\<lambda>i n. int (undec (take n (drop i (isoformat t))))"
  note f = iso_fields [OF t p(1,4,7,10,13,16)]
  have n: "?num 0 4 = y" "?num 5 2 = m" "?num 8 2 = d" "?num 11 2 = x mod 86400 div 3600"
    "?num 14 2 = x mod 86400 div 60 mod 60" "?num 17 2 = x mod 86400 mod 60"
    unfolding f p(3,6,9,12,15,18) by (rule nat_0_le; rule r cb)+
  have "drop 1 xs = tl xs" for xs :: string by (cases xs) simp_all
  from this [symmetric] have d20: "drop 20 s = tl (drop 19 s)" for s :: string by simp
  have us: "(if take 1 (drop 19 (isoformat t)) = ''.'' then ?num 20 6 else 0) = t mod 1000000"
    unfolding d20 f using p(19,21) cb(9) by simp
  have c': "day_of_civil (y, m, d) = x div 86400" using civil_date_bounds(5) [OF c] unfolding c .
  have "(x div 86400 * 86400 + x mod 86400) * 1000000 + t mod 1000000 = t"
    unfolding div_mult_mod_eq unfolding x_def by (rule div_mult_mod_eq)
  then show ?thesis
    unfolding read_isoformat_def Let_def n us clock_join c' using assms by (simp only: simp_thms if_True)
qed

text \<open>The type invariant of a clock reading plus a lease time.\<close>

lemma isoformat_inject: "datetime_ok a \<Longrightarrow> datetime_ok b \<Longrightarrow> isoformat a = isoformat b \<Longrightarrow> a = b"
  by (metis read_isoformat timestamp_text.inject)

end
