(* ===== verification/RuntimeDb.thy ===== *)
theory RuntimeDb
  imports Complex_Main Timestamps
begin

text \<open>
  The coordination database of \<open>src/src/macr_runtime/runtime_db.py\<close>: one record type per table
  with its columns, and one record for the whole database. A \<open>TEXT\<close> column with a \<open>CHECK\<close> list
  is a datatype, a timestamp column the instant it denotes, a \<open>*_json\<close> column the document it
  holds (\<open>json.loads\<close> of the canonical text is the normal form of the document). A table
  is the list of its rows in insertion order; \<open>PRIMARY KEY\<close> and \<open>UNIQUE\<close> constraints are checked
  by the inserting operations, which then end with \<open>IntegrityError\<close>.

  Every operation of the stores runs between \<open>BEGIN IMMEDIATE\<close> and \<open>commit\<close>, \<open>rollback\<close> on an
  exception: its model maps a database to a result and the committed database, which is the
  old one when the operation rolls back.
\<close>

section \<open>Environment of an operation\<close>

text \<open>
  What an operation draws from outside: the hash, the random UUIDs (\<open>uid n\<close> is the UUID drawn
  for the row numbered \<open>n\<close>), the clock (\<open>clk i\<close> is the \<open>i\<close>-th reading it takes), and the \<open>SUM\<close>
  of SQLite over a column of floats, whose rounding is SQLite's own.
\<close>

record env =
  sha :: "string \<Rightarrow> string"
  uid :: "int \<Rightarrow> string"
  clk :: "nat \<Rightarrow> int"
  sql_sum :: "rat list \<Rightarrow> rat"

section \<open>Authority tables\<close>

datatype authority_state = Auth_Open | Auth_Hold | Auth_Suspended | Auth_Revoked

record epoch_row =
  ep_epoch :: int
  ep_state :: authority_state
  ep_reason_digest :: "string option"
  ep_updated_at :: int

record authority_row =
  au_authority_id :: string
  au_source_kind :: string
  au_source_id :: string
  au_body_json :: json
  au_body_sha256 :: string
  au_revision :: int
  au_epoch :: int
  au_scope_json :: json
  au_issued_at :: int
  au_expires_at :: int
  au_revoked_at :: "int option"

record lease_row =
  dl_resource_key :: string
  dl_run_id :: string
  dl_fencing_token :: int
  dl_acquired_at :: int
  dl_expires_at :: int

record run_row =
  rn_run_id :: string
  rn_dispatch_event_id :: string
  rn_terminal_event_id :: "string option"
  rn_state :: string
  rn_started_at :: int
  rn_terminal_at :: "int option"

section \<open>Provider admission tables\<close>

datatype lane = Interactive | Routine | Bulk

datatype circuit = Closed | Open | Half_Open

datatype deployment_mode = Canonical_Runtime | Offline_Test

datatype request_state =
    Waiting | Granted | Dispatched | Completed | Cancelled | Reconciliation_Required | Reconciled

fun lane_value :: "lane \<Rightarrow> string" where
  "lane_value Interactive = ''interactive''"
| "lane_value Routine = ''routine''"
| "lane_value Bulk = ''bulk''"

fun circuit_value :: "circuit \<Rightarrow> string" where
  "circuit_value Closed = ''closed''"
| "circuit_value Open = ''open''"
| "circuit_value Half_Open = ''half_open''"

fun mode_value :: "deployment_mode \<Rightarrow> string" where
  "mode_value Canonical_Runtime = ''canonical_runtime''"
| "mode_value Offline_Test = ''offline_test''"

fun request_state_value :: "request_state \<Rightarrow> string" where
  "request_state_value Waiting = ''waiting''"
| "request_state_value Granted = ''granted''"
| "request_state_value Dispatched = ''dispatched''"
| "request_state_value Completed = ''completed''"
| "request_state_value Cancelled = ''cancelled''"
| "request_state_value Reconciliation_Required = ''reconciliation_required''"
| "request_state_value Reconciled = ''reconciled''"

record policy_row =
  po_provider_id :: string
  po_revision :: int
  po_body_json :: json
  po_body_sha256 :: string
  po_policy_digest :: string
  po_created_at :: int

record state_row =
  st_provider_id :: string
  st_policy_digest :: string
  st_deployment_mode :: deployment_mode
  st_deployment_digest :: string
  st_effective_target :: int
  st_circuit_state :: circuit
  st_grant_sequence :: int
  st_last_granted_lane :: "lane option"
  st_half_open_probe :: "string option"
  st_control_revision :: int
  st_control_digest :: string
  st_last_signal :: "string option"
  st_updated_at :: int

record transition_row =
  tr_transition_id :: string
  tr_provider_id :: string
  tr_control_revision :: int
  tr_prior_control_digest :: string
  tr_transition_kind :: string
  tr_authority_digest :: "string option"
  tr_binding_digest :: "string option"
  tr_request_id :: "string option"
  tr_evidence_digest :: "string option"
  tr_body_json :: json
  tr_body_sha256 :: string
  tr_created_at :: int

record project_row =
  pj_provider_id :: string
  pj_project_binding_digest :: string
  pj_active_units :: int
  pj_last_grant_sequence :: int
  pj_updated_at :: int

record request_row =
  rq_request_id :: string
  rq_provider_id :: string
  rq_project_binding_digest :: string
  rq_admission_lane :: lane
  rq_run_id :: string
  rq_authority_digest :: string
  rq_authority_epoch :: int
  rq_task_digest :: string
  rq_member_digest :: "string option"
  rq_provider_tier_binding_digest :: "string option"
  rq_policy_digest :: string
  rq_capacity_unit :: int
  rq_state :: request_state
  rq_fencing_token :: "int option"
  rq_requested_at :: int
  rq_granted_at :: "int option"
  rq_transport_started_at :: "int option"
  rq_terminal_at :: "int option"
  rq_expires_at :: int
  rq_terminal_evidence_digest :: "string option"
  rq_resolution_evidence_digest :: "string option"
  rq_resolved_at :: "int option"

section \<open>Queue and target tables\<close>

text \<open>A \<open>REAL\<close> column holds a float, given by its \<open>repr\<close> text as in the JSON values.\<close>

datatype member_state =
    Queued | Claimed | Member_Completed | Member_Failed | Member_Reconciliation

datatype target_state = Target_Active | Target_Released | Target_Reconciliation

record batch_authority_row =
  bt_authority_id :: string
  bt_body_json :: json
  bt_body_sha256 :: string
  bt_scope_json :: json
  bt_scope_sha256 :: string
  bt_plan_digest :: string
  bt_revision :: int
  bt_issued_at :: int
  bt_expires_at :: int
  bt_revoked_at :: "int option"

record batch_row =
  ba_plan_digest :: string
  ba_authority_id :: string
  ba_authority_digest :: string
  ba_authority_revision :: int
  ba_aggregate_cost_ceiling_usd :: string
  ba_authorized_dispatchers :: "string list"
  ba_expires_at :: int
  ba_members_sha256 :: string
  ba_enqueued_at :: int
  ba_project_binding_digest :: "string option"
  ba_admission_lane :: "lane option"
  ba_provider_admission_policy_digest :: "string option"

record member_row =
  me_member_id :: string
  me_plan_digest :: string
  me_ordinal :: int
  me_member_digest :: string
  me_provider_id :: string
  me_route_id :: string
  me_role_digest :: string
  me_privacy :: string
  me_context_class :: string
  me_cost_ceiling_usd :: string
  me_state :: member_state
  me_lease_holder :: "string option"
  me_fencing_token :: "int option"
  me_lease_expires_at :: "int option"
  me_attempts :: int
  me_terminal_at :: "int option"
  me_terminal_evidence_digest :: "string option"
  me_observed_cost_usd :: "string option"
  me_provider_tier_binding_digest :: "string option"

record claim_row =
  tc_plan_digest :: string
  tc_target_key :: string
  tc_member_id :: string
  tc_alternative_group :: "string option"
  tc_materialize_automatically :: bool

record target_row =
  tl_lease_id :: string
  tl_repository_id :: string
  tl_target_key :: string
  tl_plan_digest :: string
  tl_member_digest :: string
  tl_alternative_group :: "string option"
  tl_materialize_automatically :: bool
  tl_state :: target_state
  tl_fencing_token :: int
  tl_acquired_at :: int
  tl_expires_at :: int
  tl_released_at :: "int option"
  tl_reconciliation_evidence_digest :: "string option"

section \<open>The database\<close>

record runtime_db =
  db_epoch :: epoch_row
  db_authorities :: "authority_row list"
  db_leases :: "lease_row list"
  db_fencing_counter :: int
  db_runs :: "run_row list"
  db_policies :: "policy_row list"
  db_states :: "state_row list"
  db_transitions :: "transition_row list"
  db_projects :: "project_row list"
  db_requests :: "request_row list"
  db_batches :: "batch_row list"
  db_members :: "member_row list"
  db_targets :: "target_row list"
  db_batch_authorities :: "batch_authority_row list"
  db_claims :: "claim_row list"

text \<open>The database that \<open>_initialize\<close> leaves behind on a new file.\<close>

definition initial_db :: runtime_db where
  "initial_db =
     \<lparr>db_epoch = \<lparr>ep_epoch = 0, ep_state = Auth_Open, ep_reason_digest = None, ep_updated_at = 0\<rparr>,
      db_authorities = [], db_leases = [], db_fencing_counter = 0, db_runs = [], db_policies = [],
      db_states = [], db_transitions = [], db_projects = [], db_requests = [], db_batches = [],
      db_members = [], db_targets = [], db_batch_authorities = [], db_claims = []\<rparr>"

text \<open>\<open>UPDATE fencing_counter SET value = value + 1\<close>: every fenced grant of the runtime draws
  its token here, whatever the component: the statement is repeated in \<open>provider_admission.py\<close>,
  \<open>dispatch.py\<close>, \<open>target_leases.py\<close> and \<open>scheduler.py\<close>.\<close>

definition bump_fencing :: "runtime_db \<Rightarrow> runtime_db" where
  "bump_fencing db = db\<lparr>db_fencing_counter := db_fencing_counter db + 1\<rparr>"

lemma bump_fencing_simps [simp]:
  "db_fencing_counter (bump_fencing db) = db_fencing_counter db + 1"
  "db_epoch (bump_fencing db) = db_epoch db"
  "db_authorities (bump_fencing db) = db_authorities db"
  "db_leases (bump_fencing db) = db_leases db"
  "db_requests (bump_fencing db) = db_requests db"
  "db_states (bump_fencing db) = db_states db"
  "db_transitions (bump_fencing db) = db_transitions db"
  "db_projects (bump_fencing db) = db_projects db"
  "db_policies (bump_fencing db) = db_policies db"
  "db_members (bump_fencing db) = db_members db"
  "db_batches (bump_fencing db) = db_batches db"
  "db_targets (bump_fencing db) = db_targets db"
  "db_batch_authorities (bump_fencing db) = db_batch_authorities db"
  "db_claims (bump_fencing db) = db_claims db"
  by (simp_all add: bump_fencing_def)

text \<open>\<open>commit_result old r\<close>: the exception rolls back, success commits.\<close>

definition commit_result :: "runtime_db \<Rightarrow> ('a \<times> runtime_db) result \<Rightarrow> 'a result \<times> runtime_db" where
  "commit_result old r = (case r of Inl err \<Rightarrow> (Inl err, old) | Inr (a, db) \<Rightarrow> (Inr a, db))"

lemma commit_result_Inr:
  "commit_result db r = (res, db') \<Longrightarrow> db' = db \<and> \<not> is_ok res \<or> (\<exists>a. r = Inr (a, db') \<and> res = Inr a)"
  by (auto simp: commit_result_def split: sum.splits)

section \<open>Invariants of a step system\<close>

text \<open>
  The stores are shared by processes that run their transactions in any order. A store's
  operations are then a step relation on databases, and a property of every reachable
  database is an invariant of the steps. The locale holds the induction once; every store
  interprets it on its own steps.
\<close>

locale step_system =
  fixes start :: "'s \<Rightarrow> bool"
    and step :: "'s \<Rightarrow> 's \<Rightarrow> bool"
    and inv :: "'s \<Rightarrow> bool"
  assumes start_inv: "start s \<Longrightarrow> inv s"
    and step_inv: "inv s \<Longrightarrow> step s t \<Longrightarrow> inv t"
begin

lemma steps_inv: "step\<^sup>*\<^sup>* s t \<Longrightarrow> inv s \<Longrightarrow> inv t"
  by (induction rule: rtranclp_induct) (auto intro: step_inv)

lemma reachable_inv: "start s \<Longrightarrow> step\<^sup>*\<^sup>* s t \<Longrightarrow> inv t"
  using steps_inv start_inv by blast

end

text \<open>
  Two stores hand out grants that can be taken back (dispatch authorities and batch grants). What
  their clients rely on is one contract: a revocation survives every operation, and a revoked
  grant is refused.
\<close>

locale revocable_store =
  fixes step :: "'s \<Rightarrow> 's \<Rightarrow> bool"
    and revoked :: "'k \<Rightarrow> 's \<Rightarrow> bool"
    and grants :: "'k \<Rightarrow> 's \<Rightarrow> bool"
  assumes revoked_step: "revoked k s \<Longrightarrow> step s t \<Longrightarrow> revoked k t"
    and revoked_refused: "revoked k s \<Longrightarrow> \<not> grants k s"
begin

lemma revoked_steps: "step\<^sup>*\<^sup>* s t \<Longrightarrow> revoked k s \<Longrightarrow> revoked k t"
  by (induction rule: rtranclp_induct) (auto intro: revoked_step)

lemma never_again: "step\<^sup>*\<^sup>* s t \<Longrightarrow> revoked k s \<Longrightarrow> \<not> grants k t"
  using revoked_steps revoked_refused by blast

end

end
