(* ===== verification/Authority.thy ===== *)
theory Authority
  imports RuntimeDb
begin

text \<open>
  \<open>src/src/macr_runtime/authority.py\<close>: the scope of a dispatch authority and what it permits,
  and the store that issues, revokes and verifies authorities against the current stop epoch.
  \<open>AuthorizationReference\<close> is the value of \<open>execution.py\<close> that callers hold.
\<close>

section \<open>Scopes\<close>

record authority_scope =
  sc_providers :: "string list"
  sc_planes :: "string list"
  sc_task_types :: "string list"
  sc_batch_ids :: "string list"
  sc_member_digests :: "string list"
  sc_tier_digests :: "string list"
  sc_project_digests :: "string list"
  sc_lanes :: "string list"
  sc_policy_digests :: "string list"
  sc_target_digests :: "string list"
  sc_circuit_digests :: "string list"
  sc_version :: int

definition string_tuple :: "bool \<Rightarrow> string list \<Rightarrow> string list result" where
  "string_tuple required xs =
     ebind (emap chk_non_empty xs) (\<lambda>ys.
       if required \<and> ys = [] then Inl (ValueError Bad_Array)
       else if \<not> distinct ys then Inl (ValueError Bad_Duplicates)
       else Inr ys)"

definition digest_tuple :: "string list \<Rightarrow> string list result" where
  "digest_tuple xs =
     ebind (string_tuple False xs) (\<lambda>ys.
       if list_ex (\<lambda>y. \<not> is_sha256 (lower y)) ys then Inl (ValueError Bad_Digest)
       else Inr (map lower ys))"

definition lane_tuple :: "string list \<Rightarrow> string list result" where
  "lane_tuple xs =
     ebind (string_tuple False xs) (\<lambda>ys.
       if list_ex (\<lambda>y. y \<notin> {''interactive'', ''routine'', ''bulk''}) ys then Inl (ValueError Bad_Lane)
       else Inr ys)"

text \<open>\<open>AuthorityScope.__post_init__\<close>: every field normalised in turn, then the version rules.\<close>

definition scope_post_init :: "authority_scope \<Rightarrow> authority_scope result" where
  "scope_post_init s =
     ebind (string_tuple True (sc_providers s)) (\<lambda>providers.
     ebind (string_tuple True (sc_planes s)) (\<lambda>planes.
     ebind (string_tuple False (sc_task_types s)) (\<lambda>task_types.
     ebind (string_tuple False (sc_batch_ids s)) (\<lambda>batch_ids.
     ebind (digest_tuple (sc_member_digests s)) (\<lambda>members.
     ebind (digest_tuple (sc_tier_digests s)) (\<lambda>tiers.
     ebind (digest_tuple (sc_project_digests s)) (\<lambda>projects.
     ebind (lane_tuple (sc_lanes s)) (\<lambda>lanes.
     ebind (digest_tuple (sc_policy_digests s)) (\<lambda>policies.
     ebind (digest_tuple (sc_target_digests s)) (\<lambda>targets.
     ebind (digest_tuple (sc_circuit_digests s)) (\<lambda>circuits.
       if sc_version s \<notin> {1, 2, 3} then Inl (ValueError Bad_Scope_Version)
       else if sc_version s = 1 \<and> tiers \<noteq> [] then Inl (ValueError Bad_Scope_Version)
       else if sc_version s < 3 \<and> (projects \<noteq> [] \<or> lanes \<noteq> [] \<or> policies \<noteq> [] \<or> targets \<noteq> [] \<or> circuits \<noteq> [])
       then Inl (ValueError Bad_Scope_Version)
       else Inr \<lparr>sc_providers = providers, sc_planes = planes, sc_task_types = task_types,
                 sc_batch_ids = batch_ids, sc_member_digests = members, sc_tier_digests = tiers,
                 sc_project_digests = projects, sc_lanes = lanes, sc_policy_digests = policies,
                 sc_target_digests = targets, sc_circuit_digests = circuits,
                 sc_version = sc_version s\<rparr>)))))))))))"

definition scope_keys :: "int \<Rightarrow> string list" where
  "scope_keys version =
     (if version = 1 then [''providers'', ''planes'', ''task_types'', ''batch_ids'', ''member_digests'']
      else if version = 2 then
        [''scope_contract_version'', ''providers'', ''planes'', ''task_types'', ''batch_ids'',
         ''member_digests'', ''provider_tier_binding_digests'']
      else
        [''scope_contract_version'', ''providers'', ''planes'', ''task_types'', ''batch_ids'',
         ''member_digests'', ''provider_tier_binding_digests'', ''project_binding_digests'',
         ''admission_lanes'', ''provider_admission_policy_digests'',
         ''provider_admission_target_digests'', ''provider_admission_circuit_digests''])"

text \<open>The version number of a stored scope: absent means 1; a Boolean equals its number in
  Python. \<open>JFloat\<close> texts do not occur in scope documents.\<close>

definition scope_version_of :: "(string \<times> json) list \<Rightarrow> int option" where
  "scope_version_of kvs =
     (case jget ''scope_contract_version'' kvs of
        None \<Rightarrow> Some 1
      | Some (JInt n) \<Rightarrow> (if n \<in> {1, 2, 3} then Some n else None)
      | Some (JBool True) \<Rightarrow> Some 1
      | Some _ \<Rightarrow> None)"

fun json_strings :: "json list \<Rightarrow> string list option" where
  "json_strings [] = Some []"
| "json_strings (JStr s # xs) = map_option ((#) s) (json_strings xs)"
| "json_strings (_ # xs) = None"

text \<open>One array field of \<open>from_dict\<close>: \<open>data.get(key, ())\<close>, then the type checks of
  \<open>_string_tuple\<close>.\<close>

definition field_strings :: "string \<Rightarrow> (string \<times> json) list \<Rightarrow> string list result" where
  "field_strings k kvs =
     (case jget k kvs of
        None \<Rightarrow> Inr []
      | Some (JList xs) \<Rightarrow>
          (case json_strings xs of None \<Rightarrow> Inl (ValueError Bad_Text) | Some ss \<Rightarrow> Inr ss)
      | Some _ \<Rightarrow> Inl (ValueError Bad_Array))"

definition scope_from_dict :: "json \<Rightarrow> authority_scope result" where
  "scope_from_dict data =
     (case data of
        JObj kvs \<Rightarrow>
          (case scope_version_of kvs of
             None \<Rightarrow> Inl (ValueError Bad_Scope_Version)
           | Some version \<Rightarrow>
               if set (map fst kvs) \<noteq> set (scope_keys version) then Inl (ValueError Bad_Fields)
               else
                 ebind (field_strings ''providers'' kvs) (\<lambda>providers.
                 ebind (field_strings ''planes'' kvs) (\<lambda>planes.
                 ebind (field_strings ''task_types'' kvs) (\<lambda>task_types.
                 ebind (field_strings ''batch_ids'' kvs) (\<lambda>batch_ids.
                 ebind (field_strings ''member_digests'' kvs) (\<lambda>members.
                 ebind (field_strings ''provider_tier_binding_digests'' kvs) (\<lambda>tiers.
                 ebind (field_strings ''project_binding_digests'' kvs) (\<lambda>projects.
                 ebind (field_strings ''admission_lanes'' kvs) (\<lambda>lanes.
                 ebind (field_strings ''provider_admission_policy_digests'' kvs) (\<lambda>policies.
                 ebind (field_strings ''provider_admission_target_digests'' kvs) (\<lambda>targets.
                 ebind (field_strings ''provider_admission_circuit_digests'' kvs) (\<lambda>circuits.
                   scope_post_init
                     \<lparr>sc_providers = providers, sc_planes = planes, sc_task_types = task_types,
                      sc_batch_ids = batch_ids, sc_member_digests = members, sc_tier_digests = tiers,
                      sc_project_digests = projects, sc_lanes = lanes, sc_policy_digests = policies,
                      sc_target_digests = targets, sc_circuit_digests = circuits,
                      sc_version = version\<rparr>))))))))))))
      | _ \<Rightarrow> Inl AttributeError)"

definition scope_to_dict :: "authority_scope \<Rightarrow> json" where
  "scope_to_dict s =
     JObj ((if sc_version s \<in> {2, 3} then [(''scope_contract_version'', JInt (sc_version s))] else [])
       @ [(''providers'', jstrs (sc_providers s)), (''planes'', jstrs (sc_planes s)),
          (''task_types'', jstrs (sc_task_types s)), (''batch_ids'', jstrs (sc_batch_ids s)),
          (''member_digests'', jstrs (sc_member_digests s))]
       @ (if sc_version s \<in> {2, 3}
          then [(''provider_tier_binding_digests'', jstrs (sc_tier_digests s))] else [])
       @ (if sc_version s = 3
          then [(''project_binding_digests'', jstrs (sc_project_digests s)),
                (''admission_lanes'', jstrs (sc_lanes s)),
                (''provider_admission_policy_digests'', jstrs (sc_policy_digests s)),
                (''provider_admission_target_digests'', jstrs (sc_target_digests s)),
                (''provider_admission_circuit_digests'', jstrs (sc_circuit_digests s))]
          else []))"

section \<open>What a scope permits\<close>

text \<open>The keyword arguments of \<open>permits\<close> and \<open>verify\<close>.\<close>

record authority_query =
  aq_provider_id :: string
  aq_plane :: string
  aq_task_type :: string
  aq_batch_id :: "string option"
  aq_member_digest :: "string option"
  aq_tier_digest :: "string option"
  aq_project_digest :: "string option"
  aq_lane :: "string option"
  aq_policy_digest :: "string option"
  aq_target_digest :: "string option"
  aq_circuit_digest :: "string option"

definition listed :: "string option \<Rightarrow> string list \<Rightarrow> bool" where
  "listed v xs \<longleftrightarrow> (case v of None \<Rightarrow> False | Some s \<Rightarrow> lower s \<in> set xs)"

definition permits :: "authority_scope \<Rightarrow> authority_query \<Rightarrow> bool" where
  "permits s q \<longleftrightarrow>
     (let tier_permitted =
            (aq_tier_digest q = None \<and> sc_tier_digests s = [])
            \<or> (sc_version s \<in> {2, 3} \<and> listed (aq_tier_digest q) (sc_tier_digests s));
          admission_requested =
            aq_project_digest q \<noteq> None \<or> aq_lane q \<noteq> None \<or> aq_policy_digest q \<noteq> None
            \<or> sc_project_digests s \<noteq> [] \<or> sc_lanes s \<noteq> [] \<or> sc_policy_digests s \<noteq> [];
          admission_permitted = (\<not> admission_requested
            \<or> (sc_version s = 3 \<and> listed (aq_project_digest q) (sc_project_digests s)
               \<and> (case aq_lane q of None \<Rightarrow> False | Some l \<Rightarrow> l \<in> set (sc_lanes s))
               \<and> listed (aq_policy_digest q) (sc_policy_digests s)));
          target_requested = (aq_target_digest q \<noteq> None \<or> sc_target_digests s \<noteq> []);
          target_permitted = (\<not> target_requested
            \<or> (sc_version s = 3 \<and> listed (aq_target_digest q) (sc_target_digests s)));
          circuit_requested = (aq_circuit_digest q \<noteq> None \<or> sc_circuit_digests s \<noteq> []);
          circuit_permitted = (\<not> circuit_requested
            \<or> (sc_version s = 3 \<and> listed (aq_circuit_digest q) (sc_circuit_digests s)))
      in aq_provider_id q \<in> set (sc_providers s)
         \<and> aq_plane q \<in> set (sc_planes s)
         \<and> (sc_task_types s = [] \<or> aq_task_type q \<in> set (sc_task_types s))
         \<and> (sc_batch_ids s = [] \<or> (case aq_batch_id q of None \<Rightarrow> False | Some b \<Rightarrow> b \<in> set (sc_batch_ids s)))
         \<and> (sc_member_digests s = [] \<or> listed (aq_member_digest q) (sc_member_digests s))
         \<and> tier_permitted \<and> admission_permitted \<and> target_permitted \<and> circuit_permitted)"

section \<open>References\<close>

text \<open>\<open>AuthorizationReference\<close>; its \<open>scope\<close> text is the document it denotes.\<close>

record authorization_reference =
  ref_source_kind :: string
  ref_source_id :: string
  ref_digest :: string
  ref_revision :: int
  ref_epoch :: int
  ref_scope :: json

definition reference_post_init :: "authorization_reference \<Rightarrow> authorization_reference result" where
  "reference_post_init r =
     ebind (chk_non_empty (ref_source_kind r)) (\<lambda>kind.
     ebind (chk_non_empty (ref_source_id r)) (\<lambda>sid.
     ebind (chk_digest (lower (ref_digest r))) (\<lambda>digest.
       if ref_revision r < 1 then Inl (ValueError Bad_Integer)
       else if ref_epoch r < 0 then Inl (ValueError Bad_Integer)
       else Inr (r\<lparr>ref_source_kind := kind, ref_source_id := sid, ref_digest := digest\<rparr>))))"

section \<open>The store\<close>

text \<open>The document an authority binds.\<close>

definition authority_body ::
  "string \<Rightarrow> string \<Rightarrow> string \<Rightarrow> int \<Rightarrow> int \<Rightarrow> authority_scope \<Rightarrow> int \<Rightarrow> int \<Rightarrow> json" where
  "authority_body authority_id kind sid revision epoch scope issued expires =
     JObj [(''authority_id'', JStr authority_id), (''source_kind'', JStr kind), (''source_id'', JStr sid),
           (''revision'', JInt revision), (''epoch'', JInt epoch), (''scope'', scope_to_dict scope),
           (''issued_at'', JStr (isoformat issued)), (''expires_at'', JStr (isoformat expires))]"

definition next_revision :: "string \<Rightarrow> string \<Rightarrow> authority_row list \<Rightarrow> int" where
  "next_revision kind sid rows =
     fold max (map au_revision (filter (\<lambda>r. au_source_kind r = kind \<and> au_source_id r = sid) rows)) 0 + 1"

definition issue ::
  "env \<Rightarrow> string \<Rightarrow> string \<Rightarrow> authority_scope \<Rightarrow> timestamp_text \<Rightarrow> runtime_db
     \<Rightarrow> authorization_reference result \<times> runtime_db" where
  "issue e source_kind source_id scope expires_at db =
     (case ebind (chk_non_empty source_kind) (\<lambda>kind. ebind (chk_non_empty source_id) (\<lambda>sid.
             ebind (aware_iso8601 expires_at) (\<lambda>expiry. Inr (kind, sid, expiry)))) of
        Inl err \<Rightarrow> (Inl err, db)
      | Inr (kind, sid, expiry) \<Rightarrow>
          (let now = clk e 0 in
           if expiry \<le> now then (Inl (ValueError Expiry_Not_Future), db)
           else if ep_state (db_epoch db) \<noteq> Auth_Open then (Inl (AuthError Authority_State_Not_Open), db)
           else
             let revision = next_revision kind sid (db_authorities db);
                 epoch = ep_epoch (db_epoch db);
                 authority_id = uid e revision;
                 scope_json = json_norm (scope_to_dict scope);
                 body = json_norm (authority_body authority_id kind sid revision epoch scope now expiry);
                 digest = sha256_body (sha e) body;
                 row = \<lparr>au_authority_id = authority_id, au_source_kind = kind, au_source_id = sid,
                        au_body_json = body, au_body_sha256 = digest, au_revision = revision,
                        au_epoch = epoch, au_scope_json = scope_json, au_issued_at = now,
                        au_expires_at = expiry, au_revoked_at = None\<rparr>
             in if list_ex (\<lambda>r. au_authority_id r = authority_id) (db_authorities db)
                then (Inl IntegrityError, db)
                else (reference_post_init
                        \<lparr>ref_source_kind = kind, ref_source_id = sid, ref_digest = digest,
                         ref_revision = revision, ref_epoch = epoch, ref_scope = scope_json\<rparr>,
                      db\<lparr>db_authorities := db_authorities db @ [row]\<rparr>)))"

fun authority_state_of :: "string \<Rightarrow> authority_state option" where
  "authority_state_of s =
     (if s = ''open'' then Some Auth_Open else if s = ''hold'' then Some Auth_Hold
      else if s = ''suspended'' then Some Auth_Suspended else if s = ''revoked'' then Some Auth_Revoked
      else None)"

definition advance_epoch :: "env \<Rightarrow> string \<Rightarrow> string \<Rightarrow> runtime_db \<Rightarrow> int result \<times> runtime_db" where
  "advance_epoch e reason_digest state db =
     (if \<not> is_sha256 (lower reason_digest) then (Inl (ValueError Bad_Digest), db)
      else case chk_non_empty state of
        Inl err \<Rightarrow> (Inl err, db)
      | Inr st \<Rightarrow>
          (case authority_state_of st of
             None \<Rightarrow> (Inl (ValueError Bad_Choice), db)
           | Some s \<Rightarrow>
               let epoch = ep_epoch (db_epoch db) + 1
               in (Inr epoch,
                   db\<lparr>db_epoch := \<lparr>ep_epoch = epoch, ep_state = s,
                       ep_reason_digest = Some (lower reason_digest), ep_updated_at = clk e 0\<rparr>\<rparr>)))"

definition revoke :: "env \<Rightarrow> authorization_reference \<Rightarrow> runtime_db \<Rightarrow> bool result \<times> runtime_db" where
  "revoke e r db =
     (case lookup_row (\<lambda>a. au_source_kind a = ref_source_kind r \<and> au_source_id a = ref_source_id r
              \<and> au_revision a = ref_revision r \<and> au_epoch a = ref_epoch r) (db_authorities db) of
        None \<Rightarrow> (Inl (AuthError Authority_Digest_Invalid), db)
      | Some row \<Rightarrow>
          if au_body_sha256 row \<noteq> ref_digest r then (Inl (AuthError Authority_Digest_Invalid), db)
          else if au_revoked_at row = None then
            (Inr True,
             db\<lparr>db_authorities := update_rows
                   (\<lambda>a. au_authority_id a = au_authority_id row \<and> au_revoked_at a = None)
                   (\<lambda>a. a\<lparr>au_revoked_at := Some (clk e 0)\<rparr>) (db_authorities db)\<rparr>)
          else (Inr False, db))"

definition find_authority :: "authorization_reference \<Rightarrow> runtime_db \<Rightarrow> authority_row option" where
  "find_authority r db =
     lookup_row (\<lambda>a. au_source_kind a = ref_source_kind r \<and> au_source_id a = ref_source_id r
        \<and> au_revision a = ref_revision r) (db_authorities db)"

text \<open>\<open>body.get("scope")\<close> of a stored body, compared with the scope's document.\<close>

definition body_scope_matches :: "json \<Rightarrow> authority_scope \<Rightarrow> bool" where
  "body_scope_matches body scope \<longleftrightarrow>
     (case body of
        JObj kvs \<Rightarrow> (case jget ''scope'' kvs of None \<Rightarrow> False | Some d \<Rightarrow> dict_eq d (scope_to_dict scope))
      | _ \<Rightarrow> False)"

definition is_object :: "json \<Rightarrow> bool" where
  "is_object v \<longleftrightarrow> (case v of JObj _ \<Rightarrow> True | _ \<Rightarrow> False)"

definition verify ::
  "(string \<Rightarrow> string) \<Rightarrow> int \<Rightarrow> authorization_reference \<Rightarrow> authority_query \<Rightarrow> runtime_db
     \<Rightarrow> authorization_reference result" where
  "verify h now r q db =
     (if ref_epoch r \<noteq> ep_epoch (db_epoch db) then Inl (AuthError Authority_Stale_Epoch)
      else if ep_state (db_epoch db) \<noteq> Auth_Open then Inl (AuthError Authority_State_Not_Open)
      else case find_authority r db of
        None \<Rightarrow> Inl (AuthError Authority_Missing)
      | Some row \<Rightarrow>
          (case scope_from_dict (au_scope_json row) of
             Inl (ValueError _) \<Rightarrow> Inl (AuthError Authority_Digest_Invalid)
           | Inl err \<Rightarrow> Inl err
           | Inr scope \<Rightarrow>
               let expected = sha256_body h (au_body_json row) in
               if expected \<noteq> au_body_sha256 row \<or> expected \<noteq> ref_digest r \<or> au_epoch row \<noteq> ref_epoch r
                  \<or> au_scope_json row \<noteq> ref_scope r
               then Inl (AuthError Authority_Digest_Invalid)
               else if \<not> is_object (au_body_json row) then Inl AttributeError
               else if \<not> body_scope_matches (au_body_json row) scope
               then Inl (AuthError Authority_Digest_Invalid)
               else if au_revoked_at row \<noteq> None then Inl (AuthError Authority_Revoked)
               else if au_expires_at row \<le> now then Inl (AuthError Authority_Expired)
               else
                 ebind (chk_non_empty (aq_provider_id q)) (\<lambda>provider.
                 ebind (chk_non_empty (aq_plane q)) (\<lambda>plane.
                 ebind (chk_non_empty (aq_task_type q)) (\<lambda>task_type.
                   if permits scope (q\<lparr>aq_provider_id := provider, aq_plane := plane, aq_task_type := task_type\<rparr>)
                   then Inr r
                   else Inl (AuthError Authority_Scope_Refused))))))"

text \<open>\<open>verify_in_transaction\<close>: the same checks on the caller's connection, which must be inside a
  transaction.\<close>

definition verify_in_transaction ::
  "(string \<Rightarrow> string) \<Rightarrow> bool \<Rightarrow> int \<Rightarrow> authorization_reference \<Rightarrow> authority_query \<Rightarrow> runtime_db
     \<Rightarrow> authorization_reference result" where
  "verify_in_transaction h in_transaction now r q db =
     (if \<not> in_transaction then Inl (AuthError Authority_No_Transaction) else verify h now r q db)"

text \<open>
  \<open>ProviderAdmissionKernel._consume_activation_authority\<close> of \<open>provider_admission.py\<close>: a one-use
  authority is revoked in the transaction that acts on it.
\<close>

definition consume_activation_authority ::
  "authorization_reference \<Rightarrow> int \<Rightarrow> runtime_db \<Rightarrow> runtime_db result" where
  "consume_activation_authority r now db =
     (let sel = (\<lambda>a. au_source_kind a = ref_source_kind r \<and> au_source_id a = ref_source_id r
                  \<and> au_revision a = ref_revision r \<and> au_epoch a = ref_epoch r
                  \<and> au_body_sha256 a = ref_digest r \<and> au_revoked_at a = None)
      in if count_rows sel (db_authorities db) \<noteq> 1 then Inl (Conflict Authority_Already_Consumed)
         else Inr (db\<lparr>db_authorities :=
                update_rows sel (\<lambda>a. a\<lparr>au_revoked_at := Some now\<rparr>) (db_authorities db)\<rparr>))"

end
