(* ===== verification/TextFacts.thy ===== *)
theory TextFacts
  imports CanonicalProps
begin

text \<open>
  Facts that every contract with a stored document uses: stripping and lower-casing text twice changes
  nothing more, and a field of the canonical form of an object is the canonical form of the field.
\<close>

section \<open>Stripped text\<close>

lemma hd_dropWhile_stops: "dropWhile P u = [] \<or> \<not> P (hd (dropWhile P u))"
  using hd_dropWhile [of P u] by blast

lemma dropWhile_rev_stable:
  assumes "t = [] \<or> \<not> P (hd t)"
  shows "dropWhile P (rev (dropWhile P (rev t))) = rev (dropWhile P (rev t))"
proof (cases "rev (dropWhile P (rev t))")
  case (Cons c cs)
  have "t = rev (dropWhile P (rev t)) @ rev (takeWhile P (rev t))"
    by (metis rev_append rev_rev_ident takeWhile_dropWhile_id)
  with Cons have "hd t = c" by (metis append_Cons list.sel(1))
  moreover have "t \<noteq> []" using Cons by auto
  ultimately show ?thesis using assms Cons by simp
next
  case Nil
  then show ?thesis by (simp only: dropWhile.simps)
qed

lemma strip_idem [simp]: "strip (strip s) = strip s"
  unfolding strip_def using dropWhile_rev_stable [where P = is_space, OF hd_dropWhile_stops [of is_space s]] by simp

lemma chk_non_empty_Inr: "chk_non_empty s = Inr t \<Longrightarrow> t = strip s \<and> strip s \<noteq> []"
  by (auto simp: chk_non_empty_def split: if_splits)

lemma chk_non_empty_strip [simp]: "strip s \<noteq> [] \<Longrightarrow> chk_non_empty (strip s) = Inr (strip s)"
  by (simp add: chk_non_empty_def)

lemma lower_hex_fixed: "is_lower_hex c \<Longrightarrow> lower_char c = c"
  by (auto simp: is_lower_hex_def is_digit_def lower_char_def)

lemma lower_sha256 [simp]: "is_sha256 s \<Longrightarrow> lower s = s"
  by (auto simp: is_sha256_def lower_def list_all_iff lower_hex_fixed intro: map_idI)

section \<open>Reading a normalised object\<close>

lemma map_of_insort: "k \<notin> fst ` set kvs \<Longrightarrow> map_of (insort_key fst (k, x) kvs) = (map_of kvs)(k \<mapsto> x)"
  by (induction kvs) (auto simp: fun_eq_iff)

lemma map_of_sort: "distinct (map fst kvs) \<Longrightarrow> map_of (sort_key fst kvs) = map_of kvs"
  by (induction kvs) (auto simp: map_of_insort)

lemma map_of_norm_members: "map_of (norm_members kvs) k = map_option json_norm (map_of kvs k)"
  by (induction kvs) auto

lemma fst_norm_members [simp]: "map fst (norm_members kvs) = map fst kvs"
  by (induction kvs) auto

lemma jget_norm:
  "distinct (map fst kvs) \<Longrightarrow>
     jget k (sort_key fst (norm_members kvs)) = map_option json_norm (jget k kvs)"
  by (simp add: jget_def map_of_sort map_of_norm_members)

lemma fst_set_norm_members [simp]: "fst ` set (norm_members kvs) = fst ` set kvs"
  by (metis fst_norm_members image_set)

lemma keys_norm [simp]: "fst ` set (sort_key fst (norm_members kvs)) = fst ` set kvs"
  by (metis fst_norm_members image_set set_sort)

lemma norm_jstrs [simp]: "json_norm (jstrs xs) = jstrs xs"
  by (simp add: jstrs_def norm_items_map comp_def)

lemma jget_normal:
  assumes "distinct (map fst kvs)" "json_norm (JObj kvs) = JObj lvs"
  shows "jget k lvs = map_option json_norm (jget k kvs)"
  using jget_norm [OF assms(1), of k] assms(2) by simp

end
