(* ===== verification/AuthorityProps.thy ===== *)
theory AuthorityProps
  imports Authority TextFacts
begin

text \<open>
  Correctness of the authority store: a verified authority goes back to one issue, is current,
  unrevoked and unexpired and its scope allows the request; an issued authority verifies; a stop (epoch advance) and a
  revocation are final under every later sequence of operations.
\<close>

section \<open>The strings of an array\<close>

lemma json_strings_map [simp]: "json_strings (map JStr xs) = Some xs"
  by (induction xs) auto

section \<open>The document of a scope\<close>

definition normal_scope :: "authority_scope \<Rightarrow> bool" where
  "normal_scope s \<longleftrightarrow> scope_post_init s = Inr s"

lemma normal_scope_version:
  assumes "normal_scope s"
  shows "sc_version s \<in> {1, 2, 3}"
    and "sc_version s = 1 \<Longrightarrow> sc_tier_digests s = []"
    and "sc_version s < 3 \<Longrightarrow> sc_project_digests s = [] \<and> sc_lanes s = [] \<and> sc_policy_digests s = []
           \<and> sc_target_digests s = [] \<and> sc_circuit_digests s = []"
  using assms
  by (cases s, auto simp: normal_scope_def scope_post_init_def result_simps split: if_splits)

text \<open>Reading back the document of a scope gives the scope.\<close>

definition scope_members :: "authority_scope \<Rightarrow> (string \<times> json) list" where
  "scope_members s = (case scope_to_dict s of JObj kvs \<Rightarrow> kvs | _ \<Rightarrow> [])"

lemma scope_to_dict_members: "scope_to_dict s = JObj (scope_members s)"
  by (simp add: scope_members_def scope_to_dict_def)

lemma scope_members_keys:
  "sc_version s \<in> {1, 2, 3} \<Longrightarrow> map fst (scope_members s) = scope_keys (sc_version s)"
  by (auto simp: scope_members_def scope_to_dict_def scope_keys_def)

lemma distinct_scope_keys: "distinct (scope_keys v)"
  by (simp add: scope_keys_def)

definition stored_scope :: "authority_scope \<Rightarrow> (string \<times> json) list" where
  "stored_scope s = sort_key fst (norm_members (scope_members s))"

lemma norm_scope: "json_norm (scope_to_dict s) = JObj (stored_scope s)"
  by (simp add: scope_to_dict_members stored_scope_def)

lemma jget_stored:
  "sc_version s \<in> {1, 2, 3} \<Longrightarrow>
     jget k (stored_scope s) = map_option json_norm (jget k (scope_members s))"
  unfolding stored_scope_def
  by (rule jget_norm) (simp add: scope_members_keys distinct_scope_keys)

lemma stored_keys: "sc_version s \<in> {1, 2, 3} \<Longrightarrow> set (map fst (stored_scope s)) = set (scope_keys (sc_version s))"
  by (simp add: stored_scope_def flip: scope_members_keys)

lemma stored_field:
  assumes "jget k (scope_members s) = Some (jstrs xs)" "sc_version s \<in> {1, 2, 3}"
  shows "field_strings k (stored_scope s) = Inr xs"
  using assms by (simp add: field_strings_def jget_stored) (simp add: jstrs_def)

lemma stored_field_absent:
  assumes "jget k (scope_members s) = None" "sc_version s \<in> {1, 2, 3}"
  shows "field_strings k (stored_scope s) = Inr []"
  using assms by (simp add: field_strings_def jget_stored)

lemma stored_version:
  assumes "sc_version s \<in> {1, 2, 3}"
  shows "scope_version_of (stored_scope s) = Some (sc_version s)"
proof -
  have "jget ''scope_contract_version'' (scope_members s)
      = (if sc_version s = 1 then None else Some (JInt (sc_version s)))"
    using assms by (auto simp: scope_members_def scope_to_dict_def jget_def)
  then show ?thesis using assms by (auto simp: scope_version_of_def jget_stored)
qed

definition scope_fields :: "authority_scope \<Rightarrow> (string \<times> string list) list" where
  "scope_fields s =
     [(''providers'', sc_providers s), (''planes'', sc_planes s), (''task_types'', sc_task_types s),
      (''batch_ids'', sc_batch_ids s), (''member_digests'', sc_member_digests s),
      (''provider_tier_binding_digests'', sc_tier_digests s),
      (''project_binding_digests'', sc_project_digests s), (''admission_lanes'', sc_lanes s),
      (''provider_admission_policy_digests'', sc_policy_digests s),
      (''provider_admission_target_digests'', sc_target_digests s),
      (''provider_admission_circuit_digests'', sc_circuit_digests s)]"

lemma in_set_take_drop: "x \<in> set xs \<Longrightarrow> x \<in> set (take n xs) \<or> x \<in> set (drop n xs)"
  by (metis append_take_drop_id UnE set_append)

lemma scope_fields_stored:
  assumes n: "normal_scope s" and k: "(k, xs) \<in> set (scope_fields s)"
  shows "field_strings k (stored_scope s) = Inr xs"
proof -
  note v = normal_scope_version [OF n]
  have m: "(k, jstrs xs) \<in> set (scope_members s) \<or> k \<notin> set (scope_keys (sc_version s)) \<and> xs = []"
  proof (cases "sc_version s = 3")
    case True
    then have "set (scope_members s) \<supseteq> (\<lambda>(k, xs). (k, jstrs xs)) ` set (scope_fields s)"
      by (simp add: scope_fields_def scope_members_def scope_to_dict_def)
    with k show ?thesis by force
  next
    case False
    with v have z: "sc_project_digests s = []" "sc_lanes s = []" "sc_policy_digests s = []"
      "sc_target_digests s = []" "sc_circuit_digests s = []" "sc_version s = 1 \<or> sc_version s = 2"
      "sc_version s = 1 \<Longrightarrow> sc_tier_digests s = []" by auto
    let ?old = "if sc_version s = 1 then take 5 (scope_fields s) else take 6 (scope_fields s)"
    let ?new = "if sc_version s = 1 then drop 5 (scope_fields s) else drop 6 (scope_fields s)"
    from k consider "(k, xs) \<in> set ?old" | "(k, xs) \<in> set ?new"
      using in_set_take_drop [of "(k, xs)" "scope_fields s"] by (cases "sc_version s = 1") auto
    then show ?thesis
    proof cases
      case 1
      have "set (scope_members s) \<supseteq> (\<lambda>(k, xs). (k, jstrs xs)) ` set ?old"
        using z(6) by (elim disjE) (simp_all add: scope_fields_def scope_members_def scope_to_dict_def)
      with 1 show ?thesis by force
    next
      case 2
      have "\<forall>(k, xs) \<in> set ?new. k \<notin> set (scope_keys (sc_version s)) \<and> xs = []"
        using z by (elim disjE) (simp_all add: scope_fields_def scope_keys_def)
      with 2 show ?thesis by auto
    qed
  qed
  have "jget k (scope_members s) = Some (jstrs xs) \<or> jget k (scope_members s) = None \<and> xs = []"
    using m
  proof (elim disjE conjE)
    assume "(k, jstrs xs) \<in> set (scope_members s)"
    then show ?thesis
      unfolding jget_def by (intro disjI1 map_of_is_SomeI) (simp_all only: scope_members_keys [OF v(1)] distinct_scope_keys)
  next
    assume "k \<notin> set (scope_keys (sc_version s))" "xs = []"
    then show ?thesis
      unfolding jget_def map_of_eq_None_iff by (simp only: scope_members_keys [OF v(1)] flip: set_map) simp
  qed
  with stored_field [OF _ v(1)] stored_field_absent [OF _ v(1)] show ?thesis by blast
qed

lemma scope_round_trip:
  assumes n: "normal_scope s"
  shows "scope_from_dict (json_norm (scope_to_dict s)) = Inr s"
proof -
  note v = normal_scope_version(1) [OF n]
  note f = scope_fields_stored [OF n]
  have eta: "\<lparr>sc_providers = sc_providers s, sc_planes = sc_planes s, sc_task_types = sc_task_types s,
      sc_batch_ids = sc_batch_ids s, sc_member_digests = sc_member_digests s,
      sc_tier_digests = sc_tier_digests s, sc_project_digests = sc_project_digests s,
      sc_lanes = sc_lanes s, sc_policy_digests = sc_policy_digests s,
      sc_target_digests = sc_target_digests s, sc_circuit_digests = sc_circuit_digests s,
      sc_version = sc_version s\<rparr> = s"
    by (cases s) simp
  have "scope_from_dict (json_norm (scope_to_dict s)) = scope_post_init s"
    using v
    by (simp add: norm_scope scope_from_dict_def stored_version stored_keys f scope_fields_def eta
        del: set_map)
  with n show ?thesis by (simp add: normal_scope_def)
qed

section \<open>Verification is sound\<close>

text \<open>What a verified authority guarantees at the instant \<open>now\<close>.\<close>

definition authorises ::
  "(string \<Rightarrow> string) \<Rightarrow> int \<Rightarrow> authorization_reference \<Rightarrow> authority_query \<Rightarrow> runtime_db \<Rightarrow> bool" where
  "authorises h now r q db \<longleftrightarrow>
     ep_state (db_epoch db) = Auth_Open \<and> ref_epoch r = ep_epoch (db_epoch db) \<and>
     (\<exists>row scope. row \<in> set (db_authorities db) \<and> find_authority r db = Some row
        \<and> au_revoked_at row = None \<and> now < au_expires_at row \<and> au_epoch row = ref_epoch r
        \<and> sha256_body h (au_body_json row) = ref_digest r \<and> au_body_sha256 row = ref_digest r
        \<and> scope_from_dict (au_scope_json row) = Inr scope
        \<and> permits scope (q\<lparr>aq_provider_id := strip (aq_provider_id q), aq_plane := strip (aq_plane q),
                           aq_task_type := strip (aq_task_type q)\<rparr>))"

lemma find_authority_Some:
  "find_authority r db = Some row \<Longrightarrow>
     row \<in> set (db_authorities db) \<and> au_source_kind row = ref_source_kind r
     \<and> au_source_id row = ref_source_id r \<and> au_revision row = ref_revision r"
  unfolding find_authority_def by (drule lookup_row_Some) simp

lemma verify_authorises: "verify h now r q db = Inr r' \<Longrightarrow> r' = r \<and> authorises h now r q db"
  unfolding verify_def authorises_def
  by (auto simp: Let_def result_simps not_le split: if_splits option.splits sum.splits err.splits
      dest: find_authority_Some chk_non_empty_Inr)

lemma verify_complete:
  assumes "authorises h now r q db" and "find_authority r db = Some row"
    and "au_scope_json row = ref_scope r" and "is_object (au_body_json row)"
    and "\<And>scope. scope_from_dict (au_scope_json row) = Inr scope \<Longrightarrow> body_scope_matches (au_body_json row) scope"
    and "strip (aq_provider_id q) \<noteq> []" "strip (aq_plane q) \<noteq> []" "strip (aq_task_type q) \<noteq> []"
  shows "verify h now r q db = Inr r"
  using assms by (auto simp: authorises_def verify_def Let_def chk_non_empty_def)

section \<open>Issued authorities verify\<close>

lemma fold_max_le: "x \<in> set xs \<Longrightarrow> x \<le> fold max xs (a :: int)"
  and fold_max_start: "a \<le> fold max xs (a :: int)"
proof (induction xs arbitrary: a)
  case (Cons y ys)
  { case 1 then show ?case using Cons.IH(1) Cons.IH(2) [of "max y a"] by fastforce }
  { case 2 then show ?case using Cons.IH(2) [of "max y a"] by simp }
qed simp_all

lemma next_revision_fresh:
  "r \<in> set rows \<Longrightarrow> au_source_kind r = k \<Longrightarrow> au_source_id r = i \<Longrightarrow> au_revision r < next_revision k i rows"
  unfolding next_revision_def using fold_max_le [of "au_revision r"] by fastforce

lemma next_revision_pos: "1 \<le> next_revision k i rows"
  unfolding next_revision_def using fold_max_start [of 0] by simp

text \<open>A successful issue, taken apart: the row it appends and the reference it returns.\<close>

definition issued_row :: "env \<Rightarrow> string \<Rightarrow> string \<Rightarrow> authority_scope \<Rightarrow> int \<Rightarrow> runtime_db \<Rightarrow> authority_row" where
  "issued_row e k i scope expiry db =
     (let n = next_revision k i (db_authorities db);
          body = json_norm (authority_body (uid e n) k i n (ep_epoch (db_epoch db)) scope (clk e 0) expiry)
      in \<lparr>au_authority_id = uid e n, au_source_kind = k, au_source_id = i, au_body_json = body,
          au_body_sha256 = sha256_body (sha e) body, au_revision = n, au_epoch = ep_epoch (db_epoch db),
          au_scope_json = json_norm (scope_to_dict scope), au_issued_at = clk e 0,
          au_expires_at = expiry, au_revoked_at = None\<rparr>)"

definition row_reference :: "authority_row \<Rightarrow> authorization_reference" where
  "row_reference a = \<lparr>ref_source_kind = au_source_kind a, ref_source_id = au_source_id a,
     ref_digest = lower (au_body_sha256 a), ref_revision = au_revision a, ref_epoch = au_epoch a,
     ref_scope = au_scope_json a\<rparr>"

lemma issue_Inr:
  assumes "issue e kind sid scope x db = (Inr r, db')"
  shows "\<exists>expiry. x = Ts_Aware expiry \<and> clk e 0 < expiry \<and> ep_state (db_epoch db) = Auth_Open
    \<and> db' = db\<lparr>db_authorities := db_authorities db @ [issued_row e (strip kind) (strip sid) scope expiry db]\<rparr>
    \<and> r = row_reference (issued_row e (strip kind) (strip sid) scope expiry db)
    \<and> (\<forall>a \<in> set (db_authorities db).
         au_authority_id a \<noteq> uid e (next_revision (strip kind) (strip sid) (db_authorities db)))"
  using assms
  by (auto simp: issue_def result_simps Let_def aware_iso8601_def reference_post_init_def list_ex_iff
      issued_row_def row_reference_def
      split: sum.splits if_splits timestamp_text.splits dest!: chk_non_empty_Inr)

lemma body_scope_matches_issued:
  "body_scope_matches (json_norm (authority_body a k i n ep scope t x)) scope"
proof -
  have "jget ''scope'' (sort_key fst (norm_members
       [(''authority_id'', JStr a), (''source_kind'', JStr k), (''source_id'', JStr i),
        (''revision'', JInt n), (''epoch'', JInt ep), (''scope'', scope_to_dict scope),
        (''issued_at'', JStr (isoformat t)), (''expires_at'', JStr (isoformat x))]))
     = Some (json_norm (scope_to_dict scope))"
    by (subst jget_norm) (simp_all add: jget_def)
  then show ?thesis by (simp add: body_scope_matches_def authority_body_def del: json_norm.simps(3-) norm_members.simps)
qed

text \<open>An authority that \<open>issue\<close> returns verifies from then until it expires, for every request
  its scope permits, as long as the database is the one \<open>issue\<close> committed.\<close>

theorem issue_verifies:
  assumes "issue e kind sid scope x db = (Inr r, db')" and "normal_scope scope"
    and "\<forall>t. is_sha256 (sha e t)" and "x = Ts_Aware expiry" and "now < expiry"
    and "permits scope (q\<lparr>aq_provider_id := strip (aq_provider_id q), aq_plane := strip (aq_plane q),
           aq_task_type := strip (aq_task_type q)\<rparr>)"
    and "strip (aq_provider_id q) \<noteq> []" "strip (aq_plane q) \<noteq> []" "strip (aq_task_type q) \<noteq> []"
  shows "verify (sha e) now r q db' = Inr r"
proof -
  define row where "row = issued_row e (strip kind) (strip sid) scope expiry db"
  have iss: "db' = db\<lparr>db_authorities := db_authorities db @ [row]\<rparr>" "r = row_reference row"
    "ep_state (db_epoch db) = Auth_Open"
    using issue_Inr [OF assms(1)] assms(4) by (auto simp: row_def)
  have dig: "ref_digest r = au_body_sha256 row"
    using assms(3) by (simp add: iss(2) row_reference_def row_def issued_row_def Let_def sha256_body_def)
  have rows: "db_authorities db' = db_authorities db @ [row]"
    by (simp add: iss(1))
  have none: "find_authority r db = None"
    unfolding find_authority_def lookup_row_None
    using next_revision_fresh [of _ "db_authorities db"]
    by (force simp: iss(2) row_reference_def row_def issued_row_def Let_def)
  then have find: "find_authority r db' = Some row"
    unfolding find_authority_def rows by (simp add: lookup_row_append iss(2) row_reference_def)
  have rt: "scope_from_dict (au_scope_json row) = Inr scope"
    using scope_round_trip [OF assms(2)] by (simp add: row_def issued_row_def Let_def)
  have obj: "is_object (au_body_json row)" "body_scope_matches (au_body_json row) scope"
    by (simp_all add: row_def issued_row_def Let_def body_scope_matches_issued)
      (simp add: authority_body_def is_object_def)
  have vals: "au_epoch row = ep_epoch (db_epoch db)" "ref_epoch r = au_epoch row" "au_revoked_at row = None"
    "au_expires_at row = expiry" "ref_scope r = au_scope_json row"
    "sha256_body (sha e) (au_body_json row) = au_body_sha256 row"
    by (simp_all add: iss(2) row_reference_def row_def issued_row_def Let_def)
  show ?thesis
  proof (rule verify_complete [OF _ find])
    show "authorises (sha e) now r q db'"
      using find rt vals dig iss assms(5,6) by (auto simp: authorises_def)
  qed (use vals obj rt assms in auto)
qed

section \<open>Every sequence of operations\<close>

text \<open>The operations on the authority tables; a step of another component leaves them alone.\<close>

inductive auth_step :: "runtime_db \<Rightarrow> runtime_db \<Rightarrow> bool" where
  issue_step: "issue e k i s x db = (res, db') \<Longrightarrow> auth_step db db'"
| advance_step: "advance_epoch e d s db = (res2, db') \<Longrightarrow> auth_step db db'"
| revoke_step: "revoke e r db = (res3, db') \<Longrightarrow> auth_step db db'"
| consume_step: "consume_activation_authority r now db = Inr db' \<Longrightarrow> auth_step db db'"
| other_step: "db_epoch db' = db_epoch db \<Longrightarrow> db_authorities db' = db_authorities db \<Longrightarrow> auth_step db db'"

inductive_cases auth_stepE: "auth_step db db'"

definition au_key :: "authority_row \<Rightarrow> string \<times> string \<times> int" where
  "au_key a = (au_source_kind a, au_source_id a, au_revision a)"

definition auth_inv :: "runtime_db \<Rightarrow> bool" where
  "auth_inv db \<longleftrightarrow> distinct (map au_authority_id (db_authorities db)) \<and> distinct (map au_key (db_authorities db))
     \<and> (\<forall>a \<in> set (db_authorities db). au_epoch a \<le> ep_epoch (db_epoch db))"

text \<open>What a revision of the authority table can do: append one fresh row, or mark rows revoked.\<close>

definition mark_revoked :: "(authority_row \<Rightarrow> bool) \<Rightarrow> int \<Rightarrow> authority_row list \<Rightarrow> authority_row list" where
  "mark_revoked P t rs = update_rows P (\<lambda>a. a\<lparr>au_revoked_at := Some t\<rparr>) rs"

lemma issue_cases:
  assumes "issue e k i s x db = (res, db')"
  shows "db' = db \<or> (\<exists>row. db' = db\<lparr>db_authorities := db_authorities db @ [row]\<rparr>
    \<and> au_epoch row = ep_epoch (db_epoch db) \<and> au_revoked_at row = None
    \<and> au_revision row = next_revision (au_source_kind row) (au_source_id row) (db_authorities db)
    \<and> (\<forall>a \<in> set (db_authorities db). au_authority_id a \<noteq> au_authority_id row))"
  using assms by (auto simp: issue_def Let_def list_ex_iff split: sum.splits if_splits prod.splits)

lemma revoke_cases:
  assumes "revoke e r db = (res, db')"
  shows "db' = db \<or> (\<exists>P t. db' = db\<lparr>db_authorities := mark_revoked P t (db_authorities db)\<rparr>)"
proof -
  show ?thesis
    using assms unfolding revoke_def mark_revoked_def
    by (simp split: option.splits if_splits) blast
qed

lemma consume_cases:
  "consume_activation_authority r now db = Inr db' \<Longrightarrow>
     \<exists>P. db' = db\<lparr>db_authorities := mark_revoked P now (db_authorities db)\<rparr>"
  by (auto simp: consume_activation_authority_def mark_revoked_def Let_def split: if_splits)

lemma advance_cases:
  assumes "advance_epoch e d s db = (res, db')"
  shows "db' = db \<or> (\<exists>ep. db' = db\<lparr>db_epoch := ep\<rparr> \<and> ep_epoch ep = ep_epoch (db_epoch db) + 1)"
  using assms by (auto simp: advance_epoch_def Let_def split: if_splits sum.splits option.splits)

text \<open>The four ways the tables evolve, for every preservation proof below.\<close>

lemma auth_step_cases:
  assumes "auth_step db db'"
  obtains (same) "db_epoch db' = db_epoch db" "db_authorities db' = db_authorities db"
  | (append) row where "db_epoch db' = db_epoch db" "db_authorities db' = db_authorities db @ [row]"
      "au_epoch row = ep_epoch (db_epoch db)" "au_key row \<notin> au_key ` set (db_authorities db)"
      "au_authority_id row \<notin> au_authority_id ` set (db_authorities db)"
  | (mark) P t where "db_epoch db' = db_epoch db" "db_authorities db' = mark_revoked P t (db_authorities db)"
  | (advance) "ep_epoch (db_epoch db') = ep_epoch (db_epoch db) + 1" "db_authorities db' = db_authorities db"
  using assms
proof (cases rule: auth_step.cases)
  case (issue_step e k i s x res)
  from issue_cases [OF issue_step] show thesis
  proof (elim disjE exE conjE)
    fix row assume r: "db' = db\<lparr>db_authorities := db_authorities db @ [row]\<rparr>"
      "au_epoch row = ep_epoch (db_epoch db)"
      "au_revision row = next_revision (au_source_kind row) (au_source_id row) (db_authorities db)"
      "\<forall>a \<in> set (db_authorities db). au_authority_id a \<noteq> au_authority_id row"
    have "au_key row \<notin> au_key ` set (db_authorities db)"
      using next_revision_fresh [of _ "db_authorities db"] r(3) by (fastforce simp: au_key_def)
    then show thesis using r by (intro append) auto
  qed (simp add: same)
next
  case (advance_step e d s res)
  from advance_cases [OF advance_step] show thesis by (elim disjE exE conjE) (simp_all add: same advance)
next
  case (revoke_step e r res)
  from revoke_cases [OF revoke_step] show thesis by (elim disjE exE) (simp_all add: same mark)
next
  case (consume_step r now)
  from consume_cases [OF consume_step] show thesis by (elim exE) (simp add: mark)
qed (simp add: same)

lemma mark_revoked_keys [simp]:
  "map au_key (mark_revoked P t rs) = map au_key rs"
  "map au_authority_id (mark_revoked P t rs) = map au_authority_id rs"
  "map au_epoch (mark_revoked P t rs) = map au_epoch rs"
  by (simp_all add: mark_revoked_def map_update_rows au_key_def)

lemma mark_revoked_epoch: "(\<forall>a \<in> set (mark_revoked P t rs). au_epoch a \<le> n) \<longleftrightarrow> (\<forall>a \<in> set rs. au_epoch a \<le> n)"
proof -
  have m: "(\<forall>a \<in> set xs. au_epoch a \<le> n) \<longleftrightarrow> (\<forall>e \<in> set (map au_epoch xs). e \<le> n)" for xs :: "authority_row list"
    by simp
  show ?thesis unfolding m mark_revoked_keys ..
qed

lemma auth_step_inv: "auth_inv db \<Longrightarrow> auth_step db db' \<Longrightarrow> auth_inv db'"
  by (erule auth_step_cases) (auto simp: auth_inv_def mark_revoked_epoch)

lemma auth_inv_initial: "auth_inv initial_db"
  by (simp add: auth_inv_def initial_db_def)

interpretation authority_steps: step_system "\<lambda>db. db = initial_db" auth_step auth_inv
  by unfold_locales (auto simp: auth_inv_initial intro: auth_step_inv)

lemma epoch_step: "auth_step db db' \<Longrightarrow> ep_epoch (db_epoch db) \<le> ep_epoch (db_epoch db')"
  by (erule auth_step_cases) auto

lemma epoch_steps: "auth_step\<^sup>*\<^sup>* db db' \<Longrightarrow> ep_epoch (db_epoch db) \<le> ep_epoch (db_epoch db')"
  by (induction rule: rtranclp_induct) (auto dest: epoch_step)

section \<open>A revoked row stays revoked\<close>

definition revoked_key :: "string \<times> string \<times> int \<Rightarrow> runtime_db \<Rightarrow> bool" where
  "revoked_key k db \<longleftrightarrow> k \<in> au_key ` set (db_authorities db)
     \<and> (\<forall>a \<in> set (db_authorities db). au_key a = k \<longrightarrow> au_revoked_at a \<noteq> None)"

lemma revoked_key_step: "revoked_key k db \<Longrightarrow> auth_step db db' \<Longrightarrow> revoked_key k db'"
proof (erule auth_step_cases)
  fix P t assume r: "revoked_key k db" and m: "db_authorities db' = mark_revoked P t (db_authorities db)"
  have "au_key ` set (db_authorities db') = au_key ` set (db_authorities db)"
    unfolding m by (metis image_set mark_revoked_keys(1))
  moreover have "\<forall>a \<in> set (db_authorities db'). au_key a = k \<longrightarrow> au_revoked_at a \<noteq> None"
    using r by (auto simp: m revoked_key_def mark_revoked_def set_update_rows au_key_def)
  ultimately show "revoked_key k db'" using r by (simp add: revoked_key_def)
qed (auto simp: revoked_key_def)

definition ref_key :: "authorization_reference \<Rightarrow> string \<times> string \<times> int" where
  "ref_key r = (ref_source_kind r, ref_source_id r, ref_revision r)"

lemma revoked_not_verified: "revoked_key (ref_key r) db \<Longrightarrow> verify h now r q db \<noteq> Inr r'"
proof
  assume r: "revoked_key (ref_key r) db" and "verify h now r q db = Inr r'"
  then obtain row where row: "find_authority r db = Some row" "au_revoked_at row = None"
    using verify_authorises [of h now r q db r'] by (auto simp: authorises_def)
  then have "row \<in> set (db_authorities db)" "au_key row = ref_key r"
    by (auto simp: au_key_def ref_key_def dest: find_authority_Some)
  with r have "au_revoked_at row \<noteq> None" unfolding revoked_key_def by blast
  with row(2) show False by simp
qed

text \<open>Some reference of the key verifies, for some request and at some time.\<close>

definition key_verifies :: "string \<times> string \<times> int \<Rightarrow> runtime_db \<Rightarrow> bool" where
  "key_verifies k db \<longleftrightarrow> (\<exists>h now r q r'. ref_key r = k \<and> verify h now r q db = Inr r')"

interpretation authority_grants: revocable_store auth_step revoked_key key_verifies
  by unfold_locales (auto simp: key_verifies_def revoked_not_verified intro: revoked_key_step)

lemma revoked_not_consumed:
  assumes "revoked_key (ref_key r) db"
  shows "consume_activation_authority r now db = Inl (Conflict Authority_Already_Consumed)"
proof -
  have "count_rows (\<lambda>a. au_source_kind a = ref_source_kind r \<and> au_source_id a = ref_source_id r
      \<and> au_revision a = ref_revision r \<and> au_epoch a = ref_epoch r
      \<and> au_body_sha256 a = ref_digest r \<and> au_revoked_at a = None) (db_authorities db) = 0"
    using assms unfolding count_rows_0 by (auto simp: revoked_key_def ref_key_def au_key_def)
  then show ?thesis unfolding consume_activation_authority_def Let_def by simp
qed

lemma key_unique:
  "distinct (map f rs) \<Longrightarrow> a \<in> set rs \<Longrightarrow> b \<in> set rs \<Longrightarrow> f a = f b \<Longrightarrow> a = b"
  by (meson distinct_map inj_onD)

lemma mark_revoked_key:
  assumes "distinct (map au_key rs)" "a \<in> set rs" "P a \<or> au_revoked_at a \<noteq> None" "db_authorities db = mark_revoked P t rs"
  shows "revoked_key (au_key a) db"
proof -
  have "au_key ` set (db_authorities db) = au_key ` set rs"
    unfolding assms(4) by (metis image_set mark_revoked_keys(1))
  moreover have "au_revoked_at b \<noteq> None" if "b \<in> set (db_authorities db)" "au_key b = au_key a" for b
  proof -
    from that(1) obtain c where c: "c \<in> set rs" "b = (if P c then c\<lparr>au_revoked_at := Some t\<rparr> else c)"
      by (auto simp: assms(4) mark_revoked_def set_update_rows)
    then have "au_key c = au_key a" using that(2) by (auto simp: au_key_def split: if_splits)
    then have "c = a" using key_unique [OF assms(1) c(1) assms(2)] by simp
    with c assms(3) show ?thesis by auto
  qed
  ultimately show ?thesis using assms(2) by (simp add: revoked_key_def)
qed

lemma revoke_Inr:
  assumes "revoke e r db = (Inr b, db')"
  obtains row where "row \<in> set (db_authorities db)" "au_key row = ref_key r"
    "(\<exists>P. P row \<and> db_authorities db' = mark_revoked P (clk e 0) (db_authorities db)) \<or> au_revoked_at row \<noteq> None \<and> db' = db"
proof -
  let ?P = "\<lambda>a :: authority_row. au_source_kind a = ref_source_kind r \<and> au_source_id a = ref_source_id r
              \<and> au_revision a = ref_revision r \<and> au_epoch a = ref_epoch r"
  from assms obtain row where f: "lookup_row ?P (db_authorities db) = Some row"
    unfolding revoke_def by (cases "lookup_row ?P (db_authorities db)") simp_all
  then have row: "row \<in> set (db_authorities db)" "au_key row = ref_key r"
    using lookup_row_Some [OF f] by (simp_all add: au_key_def ref_key_def)
  let ?Q = "\<lambda>a :: authority_row. au_authority_id a = au_authority_id row \<and> au_revoked_at a = None"
  from assms have "db' = (if au_revoked_at row = None
      then db\<lparr>db_authorities := mark_revoked ?Q (clk e 0) (db_authorities db)\<rparr> else db)"
    unfolding revoke_def f mark_revoked_def
    by (cases "au_body_sha256 row = ref_digest r"; cases "au_revoked_at row = None") auto
  then consider "?Q row \<and> db_authorities db' = mark_revoked ?Q (clk e 0) (db_authorities db)" | "au_revoked_at row \<noteq> None \<and> db' = db"
    by (cases "au_revoked_at row = None") simp_all
  then show thesis
  proof cases
    case 1
    then show ?thesis by (intro that [OF row] disjI1 exI [of _ ?Q])
  next
    case 2
    then show ?thesis by (intro that [OF row] disjI2)
  qed
qed

lemma revoke_marks:
  assumes "revoke e r db = (Inr b, db')" and "auth_inv db"
  shows "revoked_key (ref_key r) db'"
proof -
  obtain row where row: "row \<in> set (db_authorities db)" "au_key row = ref_key r"
    and d: "(\<exists>P. P row \<and> db_authorities db' = mark_revoked P (clk e 0) (db_authorities db)) \<or> au_revoked_at row \<noteq> None \<and> db' = db"
    by (rule revoke_Inr [OF assms(1)])
  have u: "distinct (map au_key (db_authorities db))" using assms(2) by (simp add: auth_inv_def)
  from d show ?thesis
  proof (elim disjE exE conjE)
    fix P assume "P row" "db_authorities db' = mark_revoked P (clk e 0) (db_authorities db)"
    then show ?thesis using mark_revoked_key [OF u row(1), of P db'] row(2) by simp
  next
    assume r: "au_revoked_at row \<noteq> None" "db' = db"
    have "a = row" if "a \<in> set (db_authorities db)" "au_key a = ref_key r" for a
      using key_unique [OF u that(1) row(1)] that(2) row(2) by simp
    then have "\<forall>a \<in> set (db_authorities db). au_key a = ref_key r \<longrightarrow> au_revoked_at a \<noteq> None"
      using r(1) by blast
    moreover have "ref_key r \<in> au_key ` set (db_authorities db)" using row by (metis imageI)
    ultimately show ?thesis using r(2) by (simp add: revoked_key_def)
  qed
qed

lemma consume_marks:
  assumes "consume_activation_authority r now db = Inr db'" and "auth_inv db"
  shows "revoked_key (ref_key r) db'"
proof -
  define sel where "sel = (\<lambda>a :: authority_row. au_source_kind a = ref_source_kind r \<and> au_source_id a = ref_source_id r
      \<and> au_revision a = ref_revision r \<and> au_epoch a = ref_epoch r
      \<and> au_body_sha256 a = ref_digest r \<and> au_revoked_at a = None)"
  have c: "count_rows sel (db_authorities db) = 1" "db_authorities db' = mark_revoked sel now (db_authorities db)"
    using assms(1) unfolding consume_activation_authority_def Let_def sel_def mark_revoked_def
    by (auto split: if_splits)
  from c(1) have "\<not> (\<forall>a \<in> set (db_authorities db). \<not> sel a)"
    unfolding count_rows_0 [symmetric] by simp
  then obtain a where a: "a \<in> set (db_authorities db)" "sel a" by blast
  then have "au_key a = ref_key r" by (simp add: sel_def au_key_def ref_key_def)
  with mark_revoked_key [OF _ a(1) _ c(2)] a(2) assms(2) show ?thesis by (auto simp: auth_inv_def)
qed

section \<open>Where a verified authority comes from\<close>

text \<open>What a scope allows, clause by clause: the capabilities a request names must be listed, and the
  restrictions of the scope must be met.\<close>

definition allows_digest :: "string list \<Rightarrow> string option \<Rightarrow> bool" where
  "allows_digest ds v \<longleftrightarrow> v = None \<and> ds = [] \<or> (\<exists>d. v = Some d \<and> lower d \<in> set ds)"

definition within_scope :: "authority_scope \<Rightarrow> authority_query \<Rightarrow> bool" where
  "within_scope s q \<longleftrightarrow> aq_provider_id q \<in> set (sc_providers s) \<and> aq_plane q \<in> set (sc_planes s)
     \<and> (sc_task_types s = [] \<or> aq_task_type q \<in> set (sc_task_types s))
     \<and> (sc_batch_ids s = [] \<or> (\<exists>b. aq_batch_id q = Some b \<and> b \<in> set (sc_batch_ids s)))
     \<and> (sc_member_digests s = [] \<or> (\<exists>d. aq_member_digest q = Some d \<and> lower d \<in> set (sc_member_digests s)))
     \<and> allows_digest (sc_tier_digests s) (aq_tier_digest q)
     \<and> allows_digest (sc_target_digests s) (aq_target_digest q)
     \<and> allows_digest (sc_circuit_digests s) (aq_circuit_digest q)
     \<and> (aq_project_digest q = None \<and> aq_lane q = None \<and> aq_policy_digest q = None
          \<and> sc_project_digests s = [] \<and> sc_lanes s = [] \<and> sc_policy_digests s = []
        \<or> (\<exists>d l p. aq_project_digest q = Some d \<and> aq_lane q = Some l \<and> aq_policy_digest q = Some p
            \<and> lower d \<in> set (sc_project_digests s) \<and> l \<in> set (sc_lanes s) \<and> lower p \<in> set (sc_policy_digests s)))"

lemma permits_within: "permits s q \<Longrightarrow> within_scope s q"
  unfolding permits_def within_scope_def allows_digest_def listed_def Let_def
  by (auto split: option.splits)

text \<open>A stored row is what one \<open>issue\<close> wrote, up to its revocation.\<close>

definition written :: "authority_row \<Rightarrow> runtime_db \<Rightarrow> bool" where
  "written row db \<longleftrightarrow> (\<exists>e k i scope expiry db0 res db1 t. auth_step\<^sup>*\<^sup>* initial_db db0
     \<and> issue e k i scope (Ts_Aware expiry) db0 = (res, db1) \<and> auth_step\<^sup>*\<^sup>* db1 db
     \<and> row = (issued_row e (strip k) (strip i) scope expiry db0)\<lparr>au_revoked_at := t\<rparr>)"

lemma issue_appends:
  assumes "issue e k i s x db = (res, db')"
  shows "db' = db \<or> (\<exists>expiry. x = Ts_Aware expiry \<and> clk e 0 < expiry
    \<and> db' = db\<lparr>db_authorities := db_authorities db @ [issued_row e (strip k) (strip i) s expiry db]\<rparr>)"
  using assms
  by (auto simp: issue_def result_simps Let_def aware_iso8601_def issued_row_def
      split: sum.splits if_splits timestamp_text.splits dest!: chk_non_empty_Inr)

lemma written_step:
  assumes "written row db" "auth_step db db'"
  shows "written (row\<lparr>au_revoked_at := t\<rparr>) db'"
proof -
  obtain e k i scope expiry db0 res db1 t0 where w: "auth_step\<^sup>*\<^sup>* initial_db db0"
    "issue e k i scope (Ts_Aware expiry) db0 = (res, db1)" "auth_step\<^sup>*\<^sup>* db1 db"
    "row = (issued_row e (strip k) (strip i) scope expiry db0)\<lparr>au_revoked_at := t0\<rparr>"
    using assms(1) unfolding written_def by blast
  have "auth_step\<^sup>*\<^sup>* db1 db'" using w(3) assms(2) by simp
  moreover have "row\<lparr>au_revoked_at := t\<rparr> = (issued_row e (strip k) (strip i) scope expiry db0)\<lparr>au_revoked_at := t\<rparr>"
    by (simp add: w(4))
  ultimately show ?thesis using w(1,2) unfolding written_def by blast
qed

text \<open>No other operation writes a row.\<close>

lemma mark_revoked_rows: "row \<in> set (mark_revoked P t rs) \<Longrightarrow> \<exists>a \<in> set rs. \<exists>u. row = a\<lparr>au_revoked_at := u\<rparr>"
proof -
  assume "row \<in> set (mark_revoked P t rs)"
  then obtain a where a: "a \<in> set rs" "row = (if P a then a\<lparr>au_revoked_at := Some t\<rparr> else a)"
    by (auto simp: mark_revoked_def set_update_rows)
  then have "row = a\<lparr>au_revoked_at := au_revoked_at row\<rparr>" by simp
  with a(1) show ?thesis by blast
qed

lemma row_written_before:
  assumes "auth_step db db'" "row \<in> set (db_authorities db')"
  shows "(\<exists>a \<in> set (db_authorities db). \<exists>u. row = a\<lparr>au_revoked_at := u\<rparr>)
    \<or> (\<exists>e k i s expiry res. issue e k i s (Ts_Aware expiry) db = (res, db')
        \<and> row = issued_row e (strip k) (strip i) s expiry db)"
  using assms(1)
proof cases
  case (issue_step e k i s x res)
  have old: "\<exists>u. row = row\<lparr>au_revoked_at := u\<rparr>" by (intro exI [of _ "au_revoked_at row"]) simp
  from issue_appends [OF issue_step] show ?thesis
  proof (elim disjE exE conjE)
    assume "db' = db" then show ?thesis using old assms(2) by blast
  next
    fix expiry assume x: "x = Ts_Aware expiry"
      "db' = db\<lparr>db_authorities := db_authorities db @ [issued_row e (strip k) (strip i) s expiry db]\<rparr>"
    show ?thesis
    proof (cases "row \<in> set (db_authorities db)")
      case True then show ?thesis using old by blast
    next
      case False
      then have "row = issued_row e (strip k) (strip i) s expiry db" using assms(2) x(2) by simp
      then show ?thesis using issue_step x(1) by blast
    qed
  qed
next
  case (advance_step e d s res)
  then have "db_authorities db' = db_authorities db" using advance_cases by fastforce
  then show ?thesis using assms(2) by (intro disjI1 bexI [of _ row] exI [of _ "au_revoked_at row"]) simp_all
next
  case (revoke_step e r res)
  from revoke_cases [OF revoke_step] consider "db' = db" | P t where "db_authorities db' = mark_revoked P t (db_authorities db)"
    by auto
  then show ?thesis
  proof cases
    case 1
    then show ?thesis using assms(2) by (intro disjI1 bexI [of _ row] exI [of _ "au_revoked_at row"]) simp_all
  next
    case 2
    then show ?thesis using assms(2) mark_revoked_rows by metis
  qed
next
  case (consume_step r now)
  then obtain P where "db_authorities db' = mark_revoked P now (db_authorities db)" using consume_cases by fastforce
  then show ?thesis using assms(2) mark_revoked_rows by metis
next
  case other_step
  then show ?thesis using assms(2) by (intro disjI1 bexI [of _ row] exI [of _ "au_revoked_at row"]) simp_all
qed

lemma rows_written: "auth_step\<^sup>*\<^sup>* initial_db db \<Longrightarrow> row \<in> set (db_authorities db) \<Longrightarrow> written row db"
proof (induction arbitrary: row rule: rtranclp_induct)
  case base
  then show ?case by (simp add: initial_db_def)
next
  case (step d d')
  from row_written_before [OF step.hyps(2) step.prems] show ?case
  proof (elim disjE bexE exE conjE)
    fix a u assume "a \<in> set (db_authorities d)" "row = a\<lparr>au_revoked_at := u\<rparr>"
    then show ?thesis using written_step [OF step.IH step.hyps(2)] by simp
  next
    fix e k i s expiry res assume w: "issue e k i s (Ts_Aware expiry) d = (res, d')"
      "row = issued_row e (strip k) (strip i) s expiry d"
    have "row = (issued_row e (strip k) (strip i) s expiry d)\<lparr>au_revoked_at := au_revoked_at row\<rparr>" by (simp add: w(2))
    then show ?thesis using step.hyps(1) w(1) unfolding written_def by blast
  qed
qed

text \<open>What \<open>verify\<close> finds, taken apart.\<close>

lemma verify_Inr:
  assumes "verify h now r q db = Inr r'"
  obtains row kvs d scope where "row \<in> set (db_authorities db)" "au_key row = ref_key r" "r' = r"
    "ref_epoch r = ep_epoch (db_epoch db)" "ep_state (db_epoch db) = Auth_Open" "au_epoch row = ref_epoch r"
    "au_body_json row = JObj kvs" "jget ''scope'' kvs = Some d" "json_norm d = json_norm (scope_to_dict scope)"
    "scope_from_dict (ref_scope r) = Inr scope" "au_scope_json row = ref_scope r"
    "ref_digest r = sha256_body h (JObj kvs)" "au_body_sha256 row = ref_digest r"
    "au_revoked_at row = None" "now < au_expires_at row"
    "within_scope scope (q\<lparr>aq_provider_id := strip (aq_provider_id q), aq_plane := strip (aq_plane q),
       aq_task_type := strip (aq_task_type q)\<rparr>)"
proof -
  from assms obtain row where row: "find_authority r db = Some row"
    unfolding verify_def by (cases "find_authority r db") (simp_all split: if_splits)
  from assms row obtain scope where scope: "scope_from_dict (au_scope_json row) = Inr scope"
    unfolding verify_def by (cases "scope_from_dict (au_scope_json row)") (auto split: if_splits err.splits)
  from assms row scope have c: "body_scope_matches (au_body_json row) scope" "au_scope_json row = ref_scope r"
    "ref_digest r = sha256_body h (au_body_json row)" "au_body_sha256 row = ref_digest r" "au_epoch row = ref_epoch r"
    "au_revoked_at row = None" "now < au_expires_at row" "ref_epoch r = ep_epoch (db_epoch db)"
    "ep_state (db_epoch db) = Auth_Open"
    unfolding verify_def by (simp_all add: Let_def split: if_splits)
  obtain kvs d where b: "au_body_json row = JObj kvs" "jget ''scope'' kvs = Some d" "json_norm d = json_norm (scope_to_dict scope)"
    using c(1) unfolding body_scope_matches_def by (auto simp: dict_eq_def split: json.splits option.splits)
  have a: "r' = r" "authorises h now r q db" using verify_authorises [OF assms] by simp_all
  then have "within_scope scope (q\<lparr>aq_provider_id := strip (aq_provider_id q), aq_plane := strip (aq_plane q),
       aq_task_type := strip (aq_task_type q)\<rparr>)"
    using row scope by (auto simp: authorises_def intro: permits_within)
  moreover have "row \<in> set (db_authorities db)" "au_key row = ref_key r"
    using find_authority_Some [OF row] by (simp_all add: au_key_def ref_key_def)
  ultimately show thesis using that a(1) b c scope by simp
qed

text \<open>C4. Whatever \<open>verify\<close> accepts was granted and still stands. In any database, even a damaged
  one, the stop epoch is open and is that of the reference; the document with the reference's digest
  carries a scope; that scope is the one the reference shows, and it allows the request. In a reachable
  database the reference belongs to one \<open>issue\<close>, made before in the same epoch: its kind, source,
  revision, digest and scope are those this \<open>issue\<close> wrote, its expiry has not come, the scope that
  was issued allows the request, and no \<open>revoke\<close> of it has returned since.\<close>

theorem verify_sound:
  assumes "verify h now r q db = Inr r'"
  shows "r' = r \<and> ep_state (db_epoch db) = Auth_Open \<and> ref_epoch r = ep_epoch (db_epoch db)
    \<and> (\<exists>kvs d scope. ref_digest r = sha256_body h (JObj kvs) \<and> jget ''scope'' kvs = Some d
        \<and> json_norm d = json_norm (scope_to_dict scope) \<and> scope_from_dict (ref_scope r) = Inr scope
        \<and> within_scope scope (q\<lparr>aq_provider_id := strip (aq_provider_id q), aq_plane := strip (aq_plane q),
             aq_task_type := strip (aq_task_type q)\<rparr>))
    \<and> (auth_step\<^sup>*\<^sup>* initial_db db \<longrightarrow>
        (\<exists>e k i scope expiry db0 res db1 n. auth_step\<^sup>*\<^sup>* initial_db db0
          \<and> issue e k i scope (Ts_Aware expiry) db0 = (res, db1) \<and> auth_step\<^sup>*\<^sup>* db1 db
          \<and> ref_source_kind r = strip k \<and> ref_source_id r = strip i
          \<and> n = next_revision (strip k) (strip i) (db_authorities db0) \<and> ref_revision r = n
          \<and> ref_epoch r = ep_epoch (db_epoch db0) \<and> ref_scope r = json_norm (scope_to_dict scope)
          \<and> ref_digest r = sha256_body h (json_norm (authority_body (uid e n) (strip k) (strip i) n
               (ep_epoch (db_epoch db0)) scope (clk e 0) expiry))
          \<and> now < expiry
          \<and> (normal_scope scope \<longrightarrow> within_scope scope (q\<lparr>aq_provider_id := strip (aq_provider_id q),
               aq_plane := strip (aq_plane q), aq_task_type := strip (aq_task_type q)\<rparr>)))
        \<and> (\<forall>e r2 b d d'. auth_step\<^sup>*\<^sup>* initial_db d \<and> revoke e r2 d = (Inr b, d') \<and> auth_step\<^sup>*\<^sup>* d' db
             \<longrightarrow> ref_key r2 \<noteq> ref_key r))"
proof -
  obtain row kvs d scope where row: "row \<in> set (db_authorities db)" "au_key row = ref_key r" "au_epoch row = ref_epoch r"
      "au_body_json row = JObj kvs" "au_scope_json row = ref_scope r" "au_body_sha256 row = ref_digest r" "now < au_expires_at row"
    and now: "r' = r" "ep_state (db_epoch db) = Auth_Open" "ref_epoch r = ep_epoch (db_epoch db)"
    and doc: "ref_digest r = sha256_body h (JObj kvs)" "jget ''scope'' kvs = Some d"
      "json_norm d = json_norm (scope_to_dict scope)" "scope_from_dict (ref_scope r) = Inr scope"
      "within_scope scope (q\<lparr>aq_provider_id := strip (aq_provider_id q), aq_plane := strip (aq_plane q),
         aq_task_type := strip (aq_task_type q)\<rparr>)"
    using verify_Inr [OF assms] by metis
  have kept: "ref_key r2 \<noteq> ref_key r"
    if "auth_step\<^sup>*\<^sup>* initial_db d0 \<and> revoke e r2 d0 = (Inr b, d') \<and> auth_step\<^sup>*\<^sup>* d' db" for e r2 b d0 d'
  proof
    assume "ref_key r2 = ref_key r"
    moreover have "revoked_key (ref_key r2) d'"
      using that authority_steps.reachable_inv [OF refl, of d0] revoke_marks by blast
    ultimately show False
      using authority_grants.revoked_steps that revoked_not_verified assms by metis
  qed
  have given: "\<exists>e k i s expiry db0 res db1 n. auth_step\<^sup>*\<^sup>* initial_db db0
          \<and> issue e k i s (Ts_Aware expiry) db0 = (res, db1) \<and> auth_step\<^sup>*\<^sup>* db1 db
          \<and> ref_source_kind r = strip k \<and> ref_source_id r = strip i
          \<and> n = next_revision (strip k) (strip i) (db_authorities db0) \<and> ref_revision r = n
          \<and> ref_epoch r = ep_epoch (db_epoch db0) \<and> ref_scope r = json_norm (scope_to_dict s)
          \<and> ref_digest r = sha256_body h (json_norm (authority_body (uid e n) (strip k) (strip i) n
               (ep_epoch (db_epoch db0)) s (clk e 0) expiry))
          \<and> now < expiry
          \<and> (normal_scope s \<longrightarrow> within_scope s (q\<lparr>aq_provider_id := strip (aq_provider_id q),
               aq_plane := strip (aq_plane q), aq_task_type := strip (aq_task_type q)\<rparr>))"
    if r: "auth_step\<^sup>*\<^sup>* initial_db db"
  proof -
    from rows_written [OF r row(1)] obtain e k i s expiry db0 res db1 t where w: "auth_step\<^sup>*\<^sup>* initial_db db0"
      "issue e k i s (Ts_Aware expiry) db0 = (res, db1)" "auth_step\<^sup>*\<^sup>* db1 db"
      and i: "row = (issued_row e (strip k) (strip i) s expiry db0)\<lparr>au_revoked_at := t\<rparr>"
      unfolding written_def by blast
    have "s = scope" if "normal_scope s"
      using scope_round_trip [OF that] doc(4) row(5) i by (simp add: issued_row_def Let_def)
    then show ?thesis
      using row doc(1,5)
      by (intro exI [of _ e] exI [of _ k] exI [of _ i] exI [of _ s] exI [of _ expiry] exI [of _ db0] exI [of _ res]
          exI [of _ db1] exI [of _ "next_revision (strip k) (strip i) (db_authorities db0)"] conjI w refl impI)
        (auto simp: i issued_row_def Let_def au_key_def ref_key_def)
  qed
  show ?thesis using now doc kept given by blast
qed

section \<open>A concrete authority\<close>

text \<open>The concrete environment, scope and request of the witnesses. \<open>example_sha\<close> is a stand-in with
  the shape of a SHA-256 digest: 64 digits made from the length of the text.\<close>

definition example_digit :: "string \<Rightarrow> int \<Rightarrow> char" where
  "example_digit s d = digit_char (nat (int (length s) div d mod 10))"

definition example_sha :: "string \<Rightarrow> string" where
  "example_sha s = replicate 58 (CHR ''0'') @ map (example_digit s) [100000, 10000, 1000, 100, 10, 1]"

definition example_uid :: "int \<Rightarrow> string" where
  "example_uid n = ''00000000-0000-4000-8000-00000000'' @ pad 4 n"

definition example_env :: env where
  "example_env = \<lparr>sha = example_sha, uid = example_uid, clk = (\<lambda>i. seconds (int i)), sql_sum = sum_list\<rparr>"

definition example_scope :: authority_scope where
  "example_scope = \<lparr>sc_providers = [''p''], sc_planes = [''cloud''], sc_task_types = [], sc_batch_ids = [],
     sc_member_digests = [], sc_tier_digests = [], sc_project_digests = [], sc_lanes = [],
     sc_policy_digests = [], sc_target_digests = [], sc_circuit_digests = [], sc_version = 1\<rparr>"

definition example_query :: authority_query where
  "example_query = \<lparr>aq_provider_id = ''p'', aq_plane = ''cloud'', aq_task_type = ''t'', aq_batch_id = None,
     aq_member_digest = None, aq_tier_digest = None, aq_project_digest = None, aq_lane = None,
     aq_policy_digest = None, aq_target_digest = None, aq_circuit_digest = None\<rparr>"

definition example_row :: authority_row where
  "example_row = issued_row example_env ''operator'' ''s'' example_scope (seconds 60) initial_db"

definition example_db :: runtime_db where
  "example_db = initial_db\<lparr>db_authorities := [example_row]\<rparr>"

lemma digit_char_hex: "n \<le> 9 \<Longrightarrow> is_lower_hex (digit_char n)"
proof -
  assume n: "n \<le> 9"
  then have "byte (digit_char n) = 48 + n" by (simp add: byte_def digit_char_def)
  with n show ?thesis unfolding is_lower_hex_def is_digit_def by linarith
qed

lemma example_digit_hex: "is_lower_hex (example_digit s d)"
  unfolding example_digit_def by (rule digit_char_hex) simp

lemma example_sha_hex: "is_sha256 (example_sha s)"
proof -
  have "list_all is_lower_hex (replicate 58 (CHR ''0''))" by code_simp
  then show ?thesis
    unfolding is_sha256_def example_sha_def list_all_append by (simp add: example_digit_hex)
qed

lemma example_scope_normal: "normal_scope example_scope"
  unfolding normal_scope_def by code_simp

lemma issue_ok:
  assumes "chk_non_empty kind = Inr kind" "chk_non_empty sid = Inr sid" "clk e 0 < expiry"
    "ep_state (db_epoch db) = Auth_Open" "\<And>t. is_sha256 (sha e t)" "0 \<le> ep_epoch (db_epoch db)"
    "\<forall>a \<in> set (db_authorities db). au_authority_id a \<noteq> uid e (next_revision kind sid (db_authorities db))"
  shows "issue e kind sid scope (Ts_Aware expiry) db
    = (Inr (row_reference (issued_row e kind sid scope expiry db)),
       db\<lparr>db_authorities := db_authorities db @ [issued_row e kind sid scope expiry db]\<rparr>)"
  using assms next_revision_pos [of kind sid "db_authorities db"]
  by (auto simp: issue_def aware_iso8601_def Let_def list_ex_iff reference_post_init_def issued_row_def
      row_reference_def sha256_body_def chk_digest_def)

lemma example_issue_ok:
  "issue example_env ''operator'' ''s'' example_scope (Ts_Aware (seconds 60)) initial_db
     = (Inr (row_reference example_row), example_db)"
proof -
  have "chk_non_empty ''operator'' = Inr ''operator''" "chk_non_empty ''s'' = Inr ''s''"
    by code_simp+
  then show ?thesis
    unfolding example_row_def example_db_def
    by (subst issue_ok) (simp_all add: example_env_def example_sha_hex initial_db_def seconds_def)
qed

lemma example_permits:
  "permits example_scope (example_query\<lparr>aq_provider_id := strip (aq_provider_id example_query),
     aq_plane := strip (aq_plane example_query), aq_task_type := strip (aq_task_type example_query)\<rparr>)"
  "strip (aq_provider_id example_query) \<noteq> []" "strip (aq_plane example_query) \<noteq> []"
  "strip (aq_task_type example_query) \<noteq> []"
  by code_simp+

text \<open>A stop is final: after \<open>advance_epoch\<close> no sequence of operations makes a reference of an
  earlier epoch verify again, whatever state the stop and later epochs are in.\<close>

theorem epoch_stop_is_final:
  assumes "advance_epoch e reason state db = (Inr n, db1)" and "auth_step\<^sup>*\<^sup>* db1 db2"
    and "ref_epoch r \<le> ep_epoch (db_epoch db)"
  shows "verify h now r q db2 = Inl (AuthError Authority_Stale_Epoch)"
proof -
  have "ep_epoch (db_epoch db1) = ep_epoch (db_epoch db) + 1"
    using assms(1) by (auto simp: advance_epoch_def Let_def split: if_splits sum.splits option.splits)
  with epoch_steps [OF assms(2)] assms(3) show ?thesis by (simp add: verify_def)
qed

text \<open>C12. A revocation is final: once \<open>revoke\<close> returns (whether it or an earlier call revoked the
  authority), no sequence of operations makes the reference verify again.\<close>

theorem revocation_is_final:
  assumes "auth_step\<^sup>*\<^sup>* initial_db db" and "revoke e r db = (Inr b, db1)" and "auth_step\<^sup>*\<^sup>* db1 db2"
  shows "verify h now r q db2 \<noteq> Inr r'"
proof -
  have "revoked_key (ref_key r) db1"
    using authority_steps.reachable_inv [OF refl assms(1)] assms(2) by (rule revoke_marks [rotated])
  from authority_grants.never_again [OF assms(3) this] show ?thesis by (auto simp: key_verifies_def)
qed

text \<open>An activation authority is used once: after it was consumed, consuming it again is refused
  in every later state, and it never verifies again.\<close>

theorem activation_authority_is_one_use:
  assumes "auth_step\<^sup>*\<^sup>* initial_db db" and "consume_activation_authority r now db = Inr db1"
    and "auth_step\<^sup>*\<^sup>* db1 db2"
  shows "consume_activation_authority r later db2 = Inl (Conflict Authority_Already_Consumed)
       \<and> verify h later r q db2 \<noteq> Inr r'"
proof -
  have "revoked_key (ref_key r) db2"
    using authority_steps.reachable_inv [OF refl assms(1)] assms(2,3)
    by (intro authority_grants.revoked_steps [OF assms(3)] consume_marks)
  then show ?thesis by (simp add: revoked_not_consumed revoked_not_verified)
qed

text \<open>Concrete instances.\<close>

theorem issue_verifies_witness:
  "verify example_sha (seconds 30) (row_reference example_row) example_query example_db
     = Inr (row_reference example_row)"
proof -
  have "verify (sha example_env) (seconds 30) (row_reference example_row) example_query example_db
     = Inr (row_reference example_row)"
    by (rule issue_verifies [OF example_issue_ok example_scope_normal _ refl _ example_permits])
      (simp_all add: example_env_def example_sha_hex seconds_def)
  then show ?thesis by (simp add: example_env_def)
qed

lemma example_verifies:
  "verify example_sha (seconds 30) (row_reference example_row) example_query example_db
     = Inr (row_reference example_row)"
proof -
  have f: "find_authority (row_reference example_row) example_db = Some example_row"
    by (simp add: find_authority_def example_db_def row_reference_def)
  show ?thesis
  proof (rule verify_complete [OF _ f])
    have "authorises (sha example_env) (seconds 30) (row_reference example_row) example_query example_db"
      using f scope_round_trip [OF example_scope_normal] example_permits(1) example_sha_hex
      by (auto simp: authorises_def example_db_def example_row_def issued_row_def Let_def row_reference_def
          initial_db_def example_env_def sha256_body_def seconds_def)
    then show "authorises example_sha (seconds 30) (row_reference example_row) example_query example_db"
      by (simp add: example_env_def)
    show "is_object (au_body_json example_row)"
      by (simp add: example_row_def issued_row_def Let_def authority_body_def is_object_def)
    show "body_scope_matches (au_body_json example_row) scope"
      if "scope_from_dict (au_scope_json example_row) = Inr scope" for scope
      using that scope_round_trip [OF example_scope_normal]
      by (simp add: example_row_def issued_row_def Let_def body_scope_matches_issued)
  qed (use example_permits in \<open>simp_all add: row_reference_def\<close>)
qed

theorem epoch_stop_is_final_witness:
  "verify example_sha (seconds 30) (row_reference example_row) example_query
     (snd (advance_epoch example_env (replicate 64 (CHR ''a'')) ''open'' example_db))
   = Inl (AuthError Authority_Stale_Epoch)"
proof (rule epoch_stop_is_final)
  have "is_sha256 (lower (replicate 64 (CHR ''a'')))" "chk_non_empty ''open'' = Inr ''open''" by code_simp+
  then show "advance_epoch example_env (replicate 64 (CHR ''a'')) ''open'' example_db
     = (Inr 1, snd (advance_epoch example_env (replicate 64 (CHR ''a'')) ''open'' example_db))"
    by (simp add: advance_epoch_def example_db_def initial_db_def)
qed (simp_all add: example_db_def initial_db_def row_reference_def example_row_def issued_row_def Let_def)

lemma example_reachable: "auth_step\<^sup>*\<^sup>* initial_db example_db"
  using issue_step [OF example_issue_ok] by blast

theorem verify_sound_witness:
  "\<exists>e k i scope expiry db0 res db1. issue e k i scope (Ts_Aware expiry) db0 = (res, db1) \<and> auth_step\<^sup>*\<^sup>* db1 example_db
     \<and> strip k = ''operator'' \<and> seconds 30 < expiry \<and> json_norm (scope_to_dict scope) = au_scope_json example_row"
  using verify_sound [OF example_verifies] example_reachable
  by (fastforce simp: row_reference_def example_row_def issued_row_def Let_def)

theorem revocation_is_final_witness:
  "\<exists>b db1. revoke example_env (row_reference example_row) example_db = (Inr b, db1)
     \<and> verify example_sha (seconds 30) (row_reference example_row) example_query db1 \<noteq> Inr (row_reference example_row)"
proof -
  have r: "revoke example_env (row_reference example_row) example_db
      = (Inr True, snd (revoke example_env (row_reference example_row) example_db))"
    using example_sha_hex
    by (simp add: revoke_def example_db_def row_reference_def example_row_def issued_row_def Let_def
        sha256_body_def example_env_def)
  with revocation_is_final [OF example_reachable r rtranclp.rtrancl_refl] show ?thesis by metis
qed

theorem activation_authority_is_one_use_witness:
  "\<exists>db1. consume_activation_authority (row_reference example_row) 7 example_db = Inr db1
     \<and> consume_activation_authority (row_reference example_row) 8 db1 = Inl (Conflict Authority_Already_Consumed)"
proof -
  obtain db1 where c: "consume_activation_authority (row_reference example_row) 7 example_db = Inr db1"
    using example_sha_hex
    by (simp add: consume_activation_authority_def example_db_def row_reference_def example_row_def
        issued_row_def Let_def sha256_body_def example_env_def)
  from activation_authority_is_one_use [OF example_reachable c rtranclp.rtrancl_refl] c show ?thesis by metis
qed

end
