(* ===== verification/AdmissionPolicy.thy ===== *)
theory AdmissionPolicy
  imports AuthorityProps
begin

text \<open>
  The contracts of \<open>src/src/macr_runtime/provider_admission.py\<close>: project bindings, capacity
  policies (the built-in ones included), the bindings that name one control change (target,
  policy transition, circuit), the request a client asks to admit and the permit it gets.
  Every contract validates its fields on construction (\<open>*_post_init\<close>) and is named by the
  digest of its document. Validation of the Python type of a field (\<open>isinstance\<close>) is the
  type of the model's field.
\<close>

definition max_provider_capacity :: int where
  "max_provider_capacity = 32"

definition zero_digest :: string where
  "zero_digest = replicate 64 (CHR ''0'')"

section \<open>Project bindings\<close>

record project_binding =
  pb_project_id :: string
  pb_revision :: int
  pb_binding_source :: string

definition project_binding_post_init :: "project_binding \<Rightarrow> project_binding result" where
  "project_binding_post_init b =
     ebind (chk_identifier (pb_project_id b)) (\<lambda>_.
     ebind (chk_range (pb_revision b) 1000000) (\<lambda>_.
     ebind (chk_identifier (pb_binding_source b)) (\<lambda>_. Inr b)))"

definition project_binding_to_dict :: "project_binding \<Rightarrow> json" where
  "project_binding_to_dict b =
     JObj [(''project_id'', JStr (pb_project_id b)), (''revision'', JInt (pb_revision b)),
           (''binding_source'', JStr (pb_binding_source b))]"

definition project_binding_digest :: "(string \<Rightarrow> string) \<Rightarrow> project_binding \<Rightarrow> string" where
  "project_binding_digest h b = sha256_hex h ''provider_admission_project_v1'' (project_binding_to_dict b)"

section \<open>Policies\<close>

record policy =
  pl_provider_id :: string
  pl_revision :: int
  pl_capacity_unit :: int
  pl_effective_target :: int
  pl_candidate_target :: int
  pl_hard_max :: int
  pl_per_project_cap :: int
  pl_policy_source :: string
  pl_uncertain_dispatch_scope :: string

definition policy_post_init :: "policy \<Rightarrow> policy result" where
  "policy_post_init p =
     ebind (chk_identifier (pl_provider_id p)) (\<lambda>_.
     ebind (chk_range (pl_revision p) 1000000) (\<lambda>_.
     ebind (chk_range (pl_capacity_unit p) 1) (\<lambda>capacity_unit.
     ebind (chk_range (pl_effective_target p) max_provider_capacity) (\<lambda>effective.
     ebind (chk_range (pl_candidate_target p) max_provider_capacity) (\<lambda>candidate.
     ebind (chk_range (pl_hard_max p) max_provider_capacity) (\<lambda>hard.
     ebind (chk_range (pl_per_project_cap p) max_provider_capacity) (\<lambda>per_project.
       if \<not> (effective \<le> candidate \<and> candidate \<le> hard) then Inl (ValueError Bad_Order)
       else if per_project > hard then Inl (ValueError Bad_Order)
       else if capacity_unit \<noteq> 1 then Inl (ValueError Bad_Integer)
       else ebind (chk_identifier (pl_policy_source p)) (\<lambda>_.
         if pl_uncertain_dispatch_scope p \<notin> {''global'', ''capacity_reservation''}
         then Inl (ValueError Bad_Choice) else Inr p))))))))"

definition policy_ok :: "policy \<Rightarrow> bool" where
  "policy_ok p \<longleftrightarrow> policy_post_init p = Inr p"

definition policy_to_dict :: "policy \<Rightarrow> json" where
  "policy_to_dict p =
     JObj ([(''provider_id'', JStr (pl_provider_id p)), (''revision'', JInt (pl_revision p)),
            (''capacity_unit'', JInt (pl_capacity_unit p)),
            (''effective_target'', JInt (pl_effective_target p)),
            (''candidate_target'', JInt (pl_candidate_target p)), (''hard_max'', JInt (pl_hard_max p)),
            (''per_project_cap'', JInt (pl_per_project_cap p)),
            (''policy_source'', JStr (pl_policy_source p))]
           @ (if pl_uncertain_dispatch_scope p \<noteq> ''global''
              then [(''uncertain_dispatch_scope'', JStr (pl_uncertain_dispatch_scope p))] else []))"

definition policy_digest :: "(string \<Rightarrow> string) \<Rightarrow> policy \<Rightarrow> string" where
  "policy_digest h p = sha256_hex h ''provider_admission_policy_v1'' (policy_to_dict p)"

definition policy_keys :: "string list" where
  "policy_keys = [''provider_id'', ''revision'', ''capacity_unit'', ''effective_target'', ''candidate_target'',
     ''hard_max'', ''per_project_cap'', ''policy_source'']"

text \<open>\<open>cls(**value)\<close> of a decoded document: a field of another JSON type fails its check.\<close>

definition str_field :: "string \<Rightarrow> (string \<times> json) list \<Rightarrow> string result" where
  "str_field k kvs = (case jget k kvs of Some (JStr s) \<Rightarrow> Inr s | _ \<Rightarrow> Inl (ValueError Bad_Identifier))"

definition int_field :: "string \<Rightarrow> (string \<times> json) list \<Rightarrow> int result" where
  "int_field k kvs = (case jget k kvs of Some (JInt n) \<Rightarrow> Inr n | _ \<Rightarrow> Inl (ValueError Bad_Integer))"

definition scope_field :: "(string \<times> json) list \<Rightarrow> string result" where
  "scope_field kvs =
     (case jget ''uncertain_dispatch_scope'' kvs of
        None \<Rightarrow> Inr ''global''
      | Some (JStr s) \<Rightarrow> Inr s
      | Some (JList _) \<Rightarrow> Inl TypeError
      | Some (JObj _) \<Rightarrow> Inl TypeError
      | Some _ \<Rightarrow> Inl (ValueError Bad_Choice))"

definition policy_from_dict :: "json \<Rightarrow> policy result" where
  "policy_from_dict v =
     (case v of
        JObj kvs \<Rightarrow>
          if set (map fst kvs) \<noteq> set policy_keys
             \<and> set (map fst kvs) \<noteq> insert ''uncertain_dispatch_scope'' (set policy_keys)
          then Inl (ValueError Bad_Fields)
          else
            ebind (str_field ''provider_id'' kvs) (\<lambda>provider.
            ebind (int_field ''revision'' kvs) (\<lambda>revision.
            ebind (int_field ''capacity_unit'' kvs) (\<lambda>unit.
            ebind (int_field ''effective_target'' kvs) (\<lambda>effective.
            ebind (int_field ''candidate_target'' kvs) (\<lambda>candidate.
            ebind (int_field ''hard_max'' kvs) (\<lambda>hard.
            ebind (int_field ''per_project_cap'' kvs) (\<lambda>cap.
            ebind (str_field ''policy_source'' kvs) (\<lambda>source.
            ebind (scope_field kvs) (\<lambda>scope.
              policy_post_init
                \<lparr>pl_provider_id = provider, pl_revision = revision, pl_capacity_unit = unit,
                 pl_effective_target = effective, pl_candidate_target = candidate, pl_hard_max = hard,
                 pl_per_project_cap = cap, pl_policy_source = source,
                 pl_uncertain_dispatch_scope = scope\<rparr>)))))))))
      | _ \<Rightarrow> Inl (ValueError Bad_Fields))"

subsection \<open>The built-in policies\<close>

definition glm_provider_admission_policy :: policy where
  "glm_provider_admission_policy =
     \<lparr>pl_provider_id = ''glm_flash_worker'', pl_revision = 3, pl_capacity_unit = 1, pl_effective_target = 8,
      pl_candidate_target = 16, pl_hard_max = 32, pl_per_project_cap = 8, pl_policy_source = ''built_in'',
      pl_uncertain_dispatch_scope = ''capacity_reservation''\<rparr>"

definition glm_provider_admission_policy_v2 :: policy where
  "glm_provider_admission_policy_v2 =
     \<lparr>pl_provider_id = ''glm_flash_worker'', pl_revision = 2, pl_capacity_unit = 1, pl_effective_target = 8,
      pl_candidate_target = 16, pl_hard_max = 32, pl_per_project_cap = 8, pl_policy_source = ''built_in'',
      pl_uncertain_dispatch_scope = ''global''\<rparr>"

definition glm_provider_admission_policy_v1 :: policy where
  "glm_provider_admission_policy_v1 =
     \<lparr>pl_provider_id = ''glm_flash_worker'', pl_revision = 1, pl_capacity_unit = 1, pl_effective_target = 1,
      pl_candidate_target = 2, pl_hard_max = 8, pl_per_project_cap = 2, pl_policy_source = ''built_in'',
      pl_uncertain_dispatch_scope = ''global''\<rparr>"

definition grok_provider_admission_policy :: policy where
  "grok_provider_admission_policy =
     \<lparr>pl_provider_id = ''grok'', pl_revision = 2, pl_capacity_unit = 1, pl_effective_target = 8,
      pl_candidate_target = 16, pl_hard_max = 32, pl_per_project_cap = 8, pl_policy_source = ''built_in'',
      pl_uncertain_dispatch_scope = ''capacity_reservation''\<rparr>"

definition grok_provider_admission_policy_v1 :: policy where
  "grok_provider_admission_policy_v1 =
     \<lparr>pl_provider_id = ''grok'', pl_revision = 1, pl_capacity_unit = 1, pl_effective_target = 8,
      pl_candidate_target = 16, pl_hard_max = 32, pl_per_project_cap = 8, pl_policy_source = ''built_in'',
      pl_uncertain_dispatch_scope = ''global''\<rparr>"

definition builtin_policy_history :: "string \<Rightarrow> policy list result" where
  "builtin_policy_history provider_id =
     ebind (chk_identifier provider_id) (\<lambda>provider.
       if provider = ''glm_flash_worker''
       then Inr [glm_provider_admission_policy_v1, glm_provider_admission_policy_v2, glm_provider_admission_policy]
       else if provider = ''grok'' then Inr [grok_provider_admission_policy_v1, grok_provider_admission_policy]
       else Inl (Conflict Policy_Not_Built_In))"

definition builtin_policy :: "string \<Rightarrow> policy result" where
  "builtin_policy provider_id =
     ebind (chk_identifier provider_id) (\<lambda>provider.
       case lookup_row (\<lambda>p. pl_provider_id p = provider)
              [glm_provider_admission_policy, grok_provider_admission_policy] of
         Some p \<Rightarrow> Inr p | None \<Rightarrow> Inl (Conflict Policy_Not_Built_In))"

text \<open>The transitions \<open>supersede_policy\<close> supports.\<close>

definition supported_pairs :: "(policy \<times> policy) list" where
  "supported_pairs =
     [(glm_provider_admission_policy_v1, glm_provider_admission_policy_v2),
      (glm_provider_admission_policy_v2, glm_provider_admission_policy),
      (grok_provider_admission_policy_v1, grok_provider_admission_policy)]"

section \<open>Control bindings\<close>

record target_binding =
  tb_provider_id :: string
  tb_policy_digest :: string
  tb_target :: int
  tb_policy_revision :: int

definition target_binding_post_init :: "target_binding \<Rightarrow> target_binding result" where
  "target_binding_post_init b =
     ebind (chk_identifier (tb_provider_id b)) (\<lambda>_.
     ebind (chk_digest (tb_policy_digest b)) (\<lambda>_.
     ebind (chk_range (tb_target b) max_provider_capacity) (\<lambda>_.
     ebind (chk_range (tb_policy_revision b) 1000000) (\<lambda>_. Inr b))))"

definition target_binding_create :: "(string \<Rightarrow> string) \<Rightarrow> policy \<Rightarrow> int \<Rightarrow> target_binding result" where
  "target_binding_create h p target =
     (if \<not> (1 \<le> target \<and> target \<le> pl_hard_max p) then Inl (ValueError Bad_Integer)
      else target_binding_post_init
             \<lparr>tb_provider_id = pl_provider_id p, tb_policy_digest = policy_digest h p, tb_target = target,
              tb_policy_revision = pl_revision p\<rparr>)"

definition target_binding_to_dict :: "target_binding \<Rightarrow> json" where
  "target_binding_to_dict b =
     JObj [(''provider_id'', JStr (tb_provider_id b)), (''policy_digest'', JStr (tb_policy_digest b)),
           (''target'', JInt (tb_target b)), (''policy_revision'', JInt (tb_policy_revision b))]"

definition target_binding_digest :: "(string \<Rightarrow> string) \<Rightarrow> target_binding \<Rightarrow> string" where
  "target_binding_digest h b = sha256_hex h ''provider_admission_target_v1'' (target_binding_to_dict b)"

record transition_binding =
  xb_provider_id :: string
  xb_from_digest :: string
  xb_from_revision :: int
  xb_to_digest :: string
  xb_to_revision :: int
  xb_target :: int
  xb_snapshot_digest :: "string option"
  xb_evidence_digest :: "string option"

definition transition_binding_post_init :: "transition_binding \<Rightarrow> transition_binding result" where
  "transition_binding_post_init b =
     ebind (chk_identifier (xb_provider_id b)) (\<lambda>_.
     ebind (chk_digest (xb_from_digest b)) (\<lambda>_.
     ebind (chk_digest (xb_to_digest b)) (\<lambda>_.
     ebind (chk_range (xb_from_revision b) 1000000) (\<lambda>from_revision.
     ebind (chk_range (xb_to_revision b) 1000000) (\<lambda>to_revision.
       if to_revision \<le> from_revision then Inl (ValueError Bad_Order)
       else
         ebind (chk_range (xb_target b) max_provider_capacity) (\<lambda>_.
         ebind (chk_optional chk_digest (xb_snapshot_digest b)) (\<lambda>_.
         ebind (chk_optional chk_digest (xb_evidence_digest b)) (\<lambda>_. Inr b))))))))"

definition transition_binding_create ::
  "(string \<Rightarrow> string) \<Rightarrow> policy \<Rightarrow> policy \<Rightarrow> int \<Rightarrow> string option \<Rightarrow> string option \<Rightarrow> transition_binding result" where
  "transition_binding_create h current successor target snapshot evidence =
     (if pl_provider_id current \<noteq> pl_provider_id successor \<or> pl_revision successor \<le> pl_revision current
         \<or> \<not> (1 \<le> target \<and> target \<le> pl_hard_max successor)
      then Inl (ValueError Bad_Order)
      else transition_binding_post_init
             \<lparr>xb_provider_id = pl_provider_id current, xb_from_digest = policy_digest h current,
              xb_from_revision = pl_revision current, xb_to_digest = policy_digest h successor,
              xb_to_revision = pl_revision successor, xb_target = target,
              xb_snapshot_digest = snapshot, xb_evidence_digest = evidence\<rparr>)"

definition transition_binding_to_dict :: "transition_binding \<Rightarrow> json" where
  "transition_binding_to_dict b =
     JObj ([(''provider_id'', JStr (xb_provider_id b)), (''from_policy_digest'', JStr (xb_from_digest b)),
            (''from_policy_revision'', JInt (xb_from_revision b)),
            (''to_policy_digest'', JStr (xb_to_digest b)),
            (''to_policy_revision'', JInt (xb_to_revision b)), (''target'', JInt (xb_target b))]
           @ (case xb_snapshot_digest b of None \<Rightarrow> []
              | Some d \<Rightarrow> [(''reconciliation_snapshot_digest'', JStr d)])
           @ (case xb_evidence_digest b of None \<Rightarrow> []
              | Some d \<Rightarrow> [(''reconciliation_isolation_evidence_digest'', JStr d)]))"

definition transition_binding_digest :: "(string \<Rightarrow> string) \<Rightarrow> transition_binding \<Rightarrow> string" where
  "transition_binding_digest h b =
     sha256_hex h
       (if xb_snapshot_digest b \<noteq> None \<or> xb_evidence_digest b \<noteq> None
        then ''provider_admission_policy_transition_v2'' else ''provider_admission_policy_transition_v1'')
       (transition_binding_to_dict b)"

record circuit_binding =
  cb_provider_id :: string
  cb_policy_digest :: string
  cb_from_state :: string
  cb_to_state :: string
  cb_policy_revision :: int
  cb_probe_request_digest :: string

definition circuit_binding_post_init :: "circuit_binding \<Rightarrow> circuit_binding result" where
  "circuit_binding_post_init b =
     ebind (chk_identifier (cb_provider_id b)) (\<lambda>_.
     ebind (chk_digest (cb_policy_digest b)) (\<lambda>_.
       if (cb_from_state b, cb_to_state b) \<noteq> (''open'', ''half_open'') then Inl (ValueError Bad_Choice)
       else
         ebind (chk_range (cb_policy_revision b) 1000000) (\<lambda>_.
         ebind (chk_digest (cb_probe_request_digest b)) (\<lambda>_. Inr b))))"

definition circuit_binding_create ::
  "(string \<Rightarrow> string) \<Rightarrow> policy \<Rightarrow> string \<Rightarrow> string \<Rightarrow> string \<Rightarrow> circuit_binding result" where
  "circuit_binding_create h p from_state to_state probe =
     circuit_binding_post_init
       \<lparr>cb_provider_id = pl_provider_id p, cb_policy_digest = policy_digest h p, cb_from_state = from_state,
        cb_to_state = to_state, cb_policy_revision = pl_revision p, cb_probe_request_digest = probe\<rparr>"

definition circuit_binding_to_dict :: "circuit_binding \<Rightarrow> json" where
  "circuit_binding_to_dict b =
     JObj [(''provider_id'', JStr (cb_provider_id b)), (''policy_digest'', JStr (cb_policy_digest b)),
           (''from_state'', JStr (cb_from_state b)), (''to_state'', JStr (cb_to_state b)),
           (''policy_revision'', JInt (cb_policy_revision b)),
           (''probe_request_digest'', JStr (cb_probe_request_digest b))]"

definition circuit_binding_digest :: "(string \<Rightarrow> string) \<Rightarrow> circuit_binding \<Rightarrow> string" where
  "circuit_binding_digest h b = sha256_hex h ''provider_admission_circuit_v1'' (circuit_binding_to_dict b)"

section \<open>Requests and permits\<close>

record admission_request =
  ar_request_id :: string
  ar_provider_id :: string
  ar_project_digest :: string
  ar_lane :: lane
  ar_run_id :: string
  ar_authorization :: authorization_reference
  ar_plane :: string
  ar_task_type :: string
  ar_task_digest :: string
  ar_member_digest :: "string option"
  ar_batch_id :: "string option"
  ar_tier_digest :: "string option"

definition request_post_init :: "admission_request \<Rightarrow> admission_request result" where
  "request_post_init q =
     ebind (chk_uuid4 (ar_request_id q)) (\<lambda>_.
     ebind (chk_identifier (ar_provider_id q)) (\<lambda>_.
     ebind (chk_digest (ar_project_digest q)) (\<lambda>_.
     ebind (chk_uuid4 (ar_run_id q)) (\<lambda>_.
     ebind (chk_identifier (ar_plane q)) (\<lambda>_.
     ebind (chk_identifier (ar_task_type q)) (\<lambda>_.
     ebind (chk_digest (ar_task_digest q)) (\<lambda>_.
     ebind (chk_optional chk_digest (ar_member_digest q)) (\<lambda>_.
     ebind (chk_optional chk_identifier (ar_batch_id q)) (\<lambda>_.
     ebind (chk_optional chk_digest (ar_tier_digest q)) (\<lambda>_. Inr q))))))))))"

definition request_to_dict :: "admission_request \<Rightarrow> json" where
  "request_to_dict q =
     JObj [(''request_id'', JStr (ar_request_id q)), (''provider_id'', JStr (ar_provider_id q)),
           (''project_binding_digest'', JStr (ar_project_digest q)), (''lane'', JStr (lane_value (ar_lane q))),
           (''run_id'', JStr (ar_run_id q)),
           (''authorization_digest'', JStr (ref_digest (ar_authorization q))),
           (''authorization_epoch'', JInt (ref_epoch (ar_authorization q))),
           (''plane'', JStr (ar_plane q)), (''task_type'', JStr (ar_task_type q)),
           (''task_digest'', JStr (ar_task_digest q)), (''member_digest'', jstr (ar_member_digest q)),
           (''batch_id'', jstr (ar_batch_id q)), (''provider_tier_binding_digest'', jstr (ar_tier_digest q))]"

definition request_digest :: "(string \<Rightarrow> string) \<Rightarrow> admission_request \<Rightarrow> string" where
  "request_digest h q = sha256_hex h ''provider_admission_request_v1'' (request_to_dict q)"

record permit =
  pm_request_id :: string
  pm_provider_id :: string
  pm_project_digest :: string
  pm_lane :: string
  pm_run_id :: string
  pm_authority_digest :: string
  pm_authority_epoch :: int
  pm_task_digest :: string
  pm_member_digest :: "string option"
  pm_tier_digest :: "string option"
  pm_policy_digest :: string
  pm_capacity_unit :: int
  pm_fencing_token :: int
  pm_acquired_at :: int
  pm_expires_at :: int

definition permit_post_init :: "permit \<Rightarrow> permit result" where
  "permit_post_init p =
     ebind (chk_uuid4 (pm_request_id p)) (\<lambda>_.
     ebind (chk_identifier (pm_provider_id p)) (\<lambda>_.
     ebind (chk_digest (pm_project_digest p)) (\<lambda>_.
       if pm_lane p \<notin> {''interactive'', ''routine'', ''bulk''} then Inl (ValueError Bad_Lane)
       else
         ebind (chk_uuid4 (pm_run_id p)) (\<lambda>_.
         ebind (chk_digest (pm_authority_digest p)) (\<lambda>_.
           if pm_authority_epoch p < 0 then Inl (ValueError Bad_Integer)
           else
             ebind (chk_digest (pm_task_digest p)) (\<lambda>_.
             ebind (chk_optional chk_digest (pm_member_digest p)) (\<lambda>_.
             ebind (chk_optional chk_digest (pm_tier_digest p)) (\<lambda>_.
             ebind (chk_digest (pm_policy_digest p)) (\<lambda>_.
               if pm_capacity_unit p \<noteq> 1 then Inl (ValueError Bad_Integer)
               else ebind (chk_range (pm_fencing_token p) (2 ^ 63 - 1)) (\<lambda>_. Inr p))))))))))"

end
