(* ===== verification/AdmissionKernel.thy ===== *)
theory AdmissionKernel
  imports AdmissionPolicy
begin

text \<open>
  \<open>ProviderAdmissionKernel\<close> of \<open>src/src/macr_runtime/provider_admission.py\<close>: the control state of a
  provider (its capacity target and circuit) and its append-only chain of receipts, and the
  requests that wait for, hold and release its capacity.

  An operation runs in one transaction on the database \<open>db\<close>; a check it makes before the
  transaction reads the database \<open>seen\<close>, which another process may have changed since. The
  result is paired with the database that is committed.
\<close>

section \<open>Control documents\<close>

record kernel =
  k_path :: string
  k_policy :: policy
  k_mode :: deployment_mode

text \<open>\<open>str(Path(path).resolve()).replace("\\\\", "/").casefold()\<close>, for ASCII paths; \<open>k_path\<close> is the
  resolved path.\<close>

definition normalized_path :: "string \<Rightarrow> string" where
  "normalized_path s = lower (map (\<lambda>c. if byte c = 92 then CHR ''/'' else c) s)"

definition deployment_binding_digest ::
  "(string \<Rightarrow> string) \<Rightarrow> string \<Rightarrow> deployment_mode \<Rightarrow> policy \<Rightarrow> string" where
  "deployment_binding_digest h path mode p =
     sha256_hex h ''provider_admission_deployment_v1''
       (JObj [(''deployment_mode'', JStr (mode_value mode)),
              (''runtime_path_sha256'', JStr (h (normalized_path path))),
              (''provider_id'', JStr (pl_provider_id p)), (''policy_digest'', JStr (policy_digest h p))])"

text \<open>The keyword arguments of \<open>_append_control_transition\<close>.\<close>

record control_change =
  cc_kind :: string
  cc_target :: int
  cc_circuit :: circuit
  cc_probe :: "string option"
  cc_signal :: "string option"
  cc_authority :: "string option"
  cc_binding :: "string option"
  cc_request :: "string option"
  cc_evidence :: "string option"

definition control_document ::
  "string \<Rightarrow> string \<Rightarrow> deployment_mode \<Rightarrow> string \<Rightarrow> int \<Rightarrow> string \<Rightarrow> control_change \<Rightarrow> int \<Rightarrow> json" where
  "control_document provider pdigest mode deployment revision prior c created =
     JObj [(''schema'', JStr ''provider_admission_control_transition_v1''),
           (''provider_id'', JStr provider), (''policy_digest'', JStr pdigest),
           (''deployment_mode'', JStr (mode_value mode)), (''deployment_digest'', JStr deployment),
           (''control_revision'', JInt revision), (''prior_control_digest'', JStr prior),
           (''transition_kind'', JStr (cc_kind c)), (''effective_target'', JInt (cc_target c)),
           (''circuit_state'', JStr (circuit_value (cc_circuit c))),
           (''half_open_probe_request_digest'', jstr (cc_probe c)), (''last_signal'', jstr (cc_signal c)),
           (''authority_digest'', jstr (cc_authority c)), (''binding_digest'', jstr (cc_binding c)),
           (''request_id'', jstr (cc_request c)), (''evidence_digest'', jstr (cc_evidence c)),
           (''created_at'', JStr (isoformat created))]"

definition find_state :: "string \<Rightarrow> runtime_db \<Rightarrow> state_row option" where
  "find_state provider db = lookup_row (\<lambda>s. st_provider_id s = provider) (db_states db)"

definition find_transition :: "string \<Rightarrow> int \<Rightarrow> runtime_db \<Rightarrow> transition_row option" where
  "find_transition provider revision db =
     lookup_row (\<lambda>t. tr_provider_id t = provider \<and> tr_control_revision t = revision) (db_transitions db)"

definition transition_revisions :: "string \<Rightarrow> runtime_db \<Rightarrow> int list" where
  "transition_revisions provider db =
     map tr_control_revision (filter (\<lambda>t. tr_provider_id t = provider) (db_transitions db))"

text \<open>What the receipt of the current state must say.\<close>

definition receipt_change :: "state_row \<Rightarrow> transition_row \<Rightarrow> control_change" where
  "receipt_change s t =
     \<lparr>cc_kind = tr_transition_kind t, cc_target = st_effective_target s, cc_circuit = st_circuit_state s,
      cc_probe = st_half_open_probe s, cc_signal = st_last_signal s, cc_authority = tr_authority_digest t,
      cc_binding = tr_binding_digest t, cc_request = tr_request_id t, cc_evidence = tr_evidence_digest t\<rparr>"

definition validated_control_state ::
  "(string \<Rightarrow> string) \<Rightarrow> policy \<Rightarrow> deployment_mode option \<Rightarrow> string option \<Rightarrow> runtime_db \<Rightarrow> state_row result" where
  "validated_control_state h p mode deployment db =
     (case find_state (pl_provider_id p) db of
        None \<Rightarrow> Inl (Conflict Control_State_Invalid)
      | Some s \<Rightarrow>
          if st_policy_digest s \<noteq> policy_digest h p
             \<or> \<not> is_sha256 (st_deployment_digest s)
             \<or> (mode \<noteq> None \<and> mode \<noteq> Some (st_deployment_mode s))
             \<or> (deployment \<noteq> None \<and> deployment \<noteq> Some (st_deployment_digest s))
             \<or> \<not> (1 \<le> st_effective_target s \<and> st_effective_target s \<le> pl_hard_max p)
             \<or> st_control_revision s < 1
             \<or> \<not> is_sha256 (st_control_digest s)
             \<or> (st_circuit_state s = Half_Open
                \<and> \<not> (case st_half_open_probe s of None \<Rightarrow> False | Some d \<Rightarrow> is_sha256 d))
             \<or> (st_circuit_state s \<noteq> Half_Open \<and> st_half_open_probe s \<noteq> None)
          then Inl (Conflict Control_State_Invalid)
          else
            (let revisions = transition_revisions (pl_provider_id p) db in
             case find_transition (pl_provider_id p) (st_control_revision s) db of
               None \<Rightarrow> Inl (Conflict Control_Sequence_Invalid)
             | Some t \<Rightarrow>
                 if int (length revisions) \<noteq> st_control_revision s
                    \<or> Min (set revisions) \<noteq> 1 \<or> Max (set revisions) \<noteq> st_control_revision s
                 then Inl (Conflict Control_Sequence_Invalid)
                 else
                   (let body_sha256 = sha256_body h (tr_body_json t);
                        expected = control_document (pl_provider_id p) (policy_digest h p)
                          (st_deployment_mode s) (st_deployment_digest s) (st_control_revision s)
                          (tr_prior_control_digest t) (receipt_change s t) (tr_created_at t);
                        previous = (if st_control_revision s > 1
                                    then find_transition (pl_provider_id p) (st_control_revision s - 1) db
                                    else None);
                        expected_prior = (case previous of None \<Rightarrow> zero_digest | Some r \<Rightarrow> tr_body_sha256 r)
                    in if \<not> dict_eq (tr_body_json t) expected
                          \<or> body_sha256 \<noteq> tr_body_sha256 t \<or> body_sha256 \<noteq> st_control_digest s
                          \<or> tr_prior_control_digest t \<noteq> expected_prior
                       then Inl (Conflict Control_Receipt_Mismatch)
                       else Inr s)))"

definition deployment_digest :: "(string \<Rightarrow> string) \<Rightarrow> kernel \<Rightarrow> string" where
  "deployment_digest h k = deployment_binding_digest h (k_path k) (k_mode k) (k_policy k)"

definition validated_state :: "(string \<Rightarrow> string) \<Rightarrow> kernel \<Rightarrow> runtime_db \<Rightarrow> state_row result" where
  "validated_state h k db =
     validated_control_state h (k_policy k) (Some (k_mode k)) (Some (deployment_digest h k)) db"

section \<open>Appending a receipt\<close>

definition insert_transition :: "transition_row \<Rightarrow> runtime_db \<Rightarrow> runtime_db result" where
  "insert_transition t db =
     (if list_ex (\<lambda>r. tr_transition_id r = tr_transition_id t \<or> tr_body_sha256 r = tr_body_sha256 t
           \<or> tr_provider_id r = tr_provider_id t \<and> tr_control_revision r = tr_control_revision t)
         (db_transitions db)
      then Inl IntegrityError
      else Inr (db\<lparr>db_transitions := db_transitions db @ [t]\<rparr>))"

text \<open>The arguments \<open>_append_control_transition\<close> accepts.\<close>

definition check_change :: "policy \<Rightarrow> control_change \<Rightarrow> unit result" where
  "check_change p c =
     ebind (chk_identifier (cc_kind c)) (\<lambda>_.
     ebind (case cc_signal c of None \<Rightarrow> Inl (ValueError Bad_Identifier) | Some s \<Rightarrow> chk_identifier s) (\<lambda>_.
       if \<not> (1 \<le> cc_target c \<and> cc_target c \<le> pl_hard_max p) then Inl (Conflict Transition_Target_Invalid)
       else
         ebind (chk_optional chk_digest (cc_probe c)) (\<lambda>probe.
           if (cc_circuit c = Half_Open) \<noteq> (probe \<noteq> None) then Inl (Conflict Transition_Needs_Probe)
           else
             ebind (chk_optional chk_digest (cc_authority c)) (\<lambda>_.
             ebind (chk_optional chk_digest (cc_binding c)) (\<lambda>_.
             ebind (chk_optional chk_digest (cc_evidence c)) (\<lambda>_.
             ebind (chk_optional chk_uuid4 (cc_request c)) (\<lambda>_. Inr ())))))))"

text \<open>The receipt it inserts, and the projection it writes: the first state row, or an update
  guarded by the revision and digest the caller read.\<close>

definition receipt ::
  "env \<Rightarrow> kernel \<Rightarrow> policy \<Rightarrow> int \<Rightarrow> string \<Rightarrow> control_change \<Rightarrow> int \<Rightarrow> transition_row" where
  "receipt e k p revision prior c now =
     (let body = json_norm (control_document (pl_provider_id p) (policy_digest (sha e) p) (k_mode k)
                   (deployment_binding_digest (sha e) (k_path k) (k_mode k) p) revision prior c now)
      in \<lparr>tr_transition_id = uid e revision, tr_provider_id = pl_provider_id p,
          tr_control_revision = revision, tr_prior_control_digest = prior, tr_transition_kind = cc_kind c,
          tr_authority_digest = cc_authority c, tr_binding_digest = cc_binding c,
          tr_request_id = cc_request c, tr_evidence_digest = cc_evidence c, tr_body_json = body,
          tr_body_sha256 = sha256_body (sha e) body, tr_created_at = now\<rparr>)"

definition control_update ::
  "env \<Rightarrow> kernel \<Rightarrow> policy \<Rightarrow> control_change \<Rightarrow> int \<Rightarrow> string \<Rightarrow> int \<Rightarrow> state_row \<Rightarrow> state_row" where
  "control_update e k p c revision digest now r =
     r\<lparr>st_policy_digest := policy_digest (sha e) p, st_deployment_mode := k_mode k,
       st_deployment_digest := deployment_binding_digest (sha e) (k_path k) (k_mode k) p,
       st_effective_target := cc_target c, st_circuit_state := cc_circuit c, st_half_open_probe := cc_probe c,
       st_control_revision := revision, st_control_digest := digest, st_last_signal := cc_signal c,
       st_updated_at := now\<rparr>"

definition first_state ::
  "env \<Rightarrow> kernel \<Rightarrow> policy \<Rightarrow> control_change \<Rightarrow> int \<Rightarrow> string \<Rightarrow> int \<Rightarrow> state_row" where
  "first_state e k p c revision digest now =
     \<lparr>st_provider_id = pl_provider_id (k_policy k), st_policy_digest = policy_digest (sha e) p,
      st_deployment_mode = k_mode k,
      st_deployment_digest = deployment_binding_digest (sha e) (k_path k) (k_mode k) p,
      st_effective_target = cc_target c, st_circuit_state = cc_circuit c, st_grant_sequence = 0,
      st_last_granted_lane = None, st_half_open_probe = cc_probe c, st_control_revision = revision,
      st_control_digest = digest, st_last_signal = cc_signal c, st_updated_at = now\<rparr>"

definition same_projection :: "policy \<Rightarrow> state_row \<Rightarrow> state_row \<Rightarrow> bool" where
  "same_projection p s r \<longleftrightarrow>
     st_provider_id r = pl_provider_id p \<and> st_control_revision r = st_control_revision s
     \<and> st_control_digest r = st_control_digest s"

definition write_projection ::
  "env \<Rightarrow> kernel \<Rightarrow> policy \<Rightarrow> state_row option \<Rightarrow> control_change \<Rightarrow> int \<Rightarrow> string \<Rightarrow> int \<Rightarrow> runtime_db
     \<Rightarrow> runtime_db result" where
  "write_projection e k p state c revision digest now db =
     (case state of
        None \<Rightarrow>
          if find_state (pl_provider_id (k_policy k)) db \<noteq> None then Inl IntegrityError
          else Inr (db\<lparr>db_states := db_states db @ [first_state e k p c revision digest now]\<rparr>)
      | Some s \<Rightarrow>
          if count_rows (same_projection p s) (db_states db) \<noteq> 1 then Inl (Conflict Projection_Changed)
          else Inr (db\<lparr>db_states := update_rows (same_projection p s)
                     (control_update e k p c revision digest now) (db_states db)\<rparr>))"

definition append_control_transition ::
  "env \<Rightarrow> kernel \<Rightarrow> policy \<Rightarrow> state_row option \<Rightarrow> control_change \<Rightarrow> int \<Rightarrow> runtime_db
     \<Rightarrow> (state_row \<times> runtime_db) result" where
  "append_control_transition e k p state c now db =
     ebind (check_change p c) (\<lambda>_.
       let revision = (case state of None \<Rightarrow> 1 | Some s \<Rightarrow> st_control_revision s + 1);
           prior = (case state of None \<Rightarrow> zero_digest | Some s \<Rightarrow> st_control_digest s);
           t = receipt e k p revision prior c now
       in ebind (insert_transition t db) (\<lambda>db1.
          ebind (write_projection e k p state c revision (tr_body_sha256 t) now db1) (\<lambda>db2.
          ebind (validated_control_state (sha e) p (Some (k_mode k))
                   (Some (deployment_binding_digest (sha e) (k_path k) (k_mode k) p)) db2)
            (\<lambda>s. Inr (s, db2)))))"

section \<open>Installing and changing the policy\<close>

text \<open>The policy row of a provider and revision: inserted when absent, else it must be the same.\<close>

definition ensure_policy_row ::
  "(string \<Rightarrow> string) \<Rightarrow> conflict_reason \<Rightarrow> policy \<Rightarrow> int \<Rightarrow> runtime_db \<Rightarrow> runtime_db result" where
  "ensure_policy_row h why p now db =
     (let body = json_norm (policy_to_dict p); body_sha256 = sha256_body h body in
      case lookup_row (\<lambda>r. po_provider_id r = pl_provider_id p \<and> po_revision r = pl_revision p) (db_policies db) of
        None \<Rightarrow>
          if list_ex (\<lambda>r. po_policy_digest r = policy_digest h p) (db_policies db) then Inl IntegrityError
          else Inr (db\<lparr>db_policies := db_policies db @
                 [\<lparr>po_provider_id = pl_provider_id p, po_revision = pl_revision p, po_body_json = body,
                   po_body_sha256 = body_sha256, po_policy_digest = policy_digest h p,
                   po_created_at = now\<rparr>]\<rparr>)
      | Some r \<Rightarrow>
          if po_body_json r \<noteq> body \<or> po_body_sha256 r \<noteq> body_sha256 \<or> po_policy_digest r \<noteq> policy_digest h p
          then Inl (Conflict why) else Inr db)"

definition run_nonterminal :: "run_row \<Rightarrow> bool" where
  "run_nonterminal r \<longleftrightarrow> rn_terminal_event_id r = None \<or> rn_terminal_at r = None \<or> rn_state r = ''dispatched''"

definition genesis_change :: "policy \<Rightarrow> control_change" where
  "genesis_change p =
     \<lparr>cc_kind = ''genesis'', cc_target = pl_effective_target p, cc_circuit = Closed, cc_probe = None,
      cc_signal = Some ''policy_installed'', cc_authority = None, cc_binding = None, cc_request = None,
      cc_evidence = None\<rparr>"

definition install_policy :: "env \<Rightarrow> kernel \<Rightarrow> runtime_db \<Rightarrow> unit result \<times> runtime_db" where
  "install_policy e k db =
     (let p = k_policy k; now = clk e 0; state = find_state (pl_provider_id p) db in
      commit_result db
        (if state = None \<and> (count_rows run_nonterminal (db_runs db) > 0 \<or> db_leases db \<noteq> [])
         then Inl (Conflict Bootstrap_Not_Quiescent)
         else
           ebind (ensure_policy_row (sha e) Policy_Revision_Conflict p now db) (\<lambda>db1.
             if state = None
             then ebind (append_control_transition e k p None (genesis_change p) now db1)
                    (\<lambda>(_, db2). Inr ((), db2))
             else ebind (validated_state (sha e) k db1) (\<lambda>_. Inr ((), db1)))))"

definition blank_query :: "string \<Rightarrow> string \<Rightarrow> string \<Rightarrow> authority_query" where
  "blank_query provider plane task_type =
     \<lparr>aq_provider_id = provider, aq_plane = plane, aq_task_type = task_type, aq_batch_id = None,
      aq_member_digest = None, aq_tier_digest = None, aq_project_digest = None, aq_lane = None,
      aq_policy_digest = None, aq_target_digest = None, aq_circuit_digest = None\<rparr>"

definition provider_count :: "string \<Rightarrow> request_state list \<Rightarrow> runtime_db \<Rightarrow> nat" where
  "provider_count provider states db =
     count_rows (\<lambda>r. rq_provider_id r = provider \<and> rq_state r \<in> set states) (db_requests db)"

definition activate_target ::
  "env \<Rightarrow> kernel \<Rightarrow> target_binding \<Rightarrow> authorization_reference \<Rightarrow> runtime_db \<Rightarrow> runtime_db
     \<Rightarrow> unit result \<times> runtime_db" where
  "activate_target e k b r seen db =
     (let p = k_policy k; h = sha e;
          q = (blank_query (pl_provider_id p) ''provider_capacity_activation'' ''provider_capacity_target'')
                \<lparr>aq_target_digest := Some (target_binding_digest h b)\<rparr> in
      if tb_provider_id b \<noteq> pl_provider_id p \<or> tb_policy_digest b \<noteq> policy_digest h p
         \<or> tb_policy_revision b \<noteq> pl_revision p \<or> \<not> (1 \<le> tb_target b \<and> tb_target b \<le> pl_hard_max p)
      then (Inl (Conflict Target_Binding_Stale), db)
      else commit_result db
        (ebind (verify h (clk e 0) r q seen) (\<lambda>_.
         let now = clk e 1 in
         ebind (validated_state h k db) (\<lambda>state.
         ebind (verify_in_transaction h True (clk e 2) r q db) (\<lambda>_.
           if st_circuit_state state \<noteq> Closed then Inl (Conflict Target_State_Refused)
           else if st_effective_target state = tb_target b then Inl (Conflict Target_Already_Active)
           else if provider_count (pl_provider_id p) [Waiting, Granted, Dispatched, Reconciliation_Required] db > 0
           then Inl (Conflict Target_Not_Idle)
           else
             ebind (consume_activation_authority r now db) (\<lambda>db1.
             ebind (append_control_transition e k p (Some state)
                      \<lparr>cc_kind = ''target_activated'', cc_target = tb_target b, cc_circuit = Closed,
                       cc_probe = None, cc_signal = Some ''target_activated'',
                       cc_authority = Some (ref_digest r), cc_binding = Some (target_binding_digest h b),
                       cc_request = None, cc_evidence = None\<rparr> now db1)
               (\<lambda>(_, db2). Inr ((), db2))))))))"

section \<open>Circuit episodes and reconciliation snapshots\<close>

text \<open>\<open>_open_episode_is_unknown_only\<close>: one pass over the receipts in order, carrying the previous
  circuit state, whether an open episode is active and whether only unknown outcomes opened it.\<close>

definition body_string :: "string \<Rightarrow> json \<Rightarrow> json option" where
  "body_string key body = (case body of JObj kvs \<Rightarrow> jget key kvs | _ \<Rightarrow> None)"

definition pressure_kinds :: "string list" where
  "pressure_kinds = [''circuit_opened'', ''half_open_failed'', ''half_open_cancelled'', ''permit_expired'']"

definition stopping_signal :: "json \<Rightarrow> bool" where
  "stopping_signal v \<longleftrightarrow>
     (case v of
        JStr s \<Rightarrow> s = ''local_integrity_stop'' \<or> s = ''http_429'' \<or> take 6 s = ''http_5''
      | _ \<Rightarrow> False)"

fun episode_step ::
  "json option \<times> bool \<times> bool \<Rightarrow> transition_row \<Rightarrow> (json option \<times> bool \<times> bool) result" where
  "episode_step (previous, active, unknown_only) t =
     (case (body_string ''circuit_state'' (tr_body_json t), body_string ''last_signal'' (tr_body_json t)) of
        (Some current, Some signal) \<Rightarrow>
          (if current = JStr ''open'' \<and> previous \<noteq> Some (JStr ''open'')
           then Inr (Some current, True, tr_transition_kind t = ''unknown_after_dispatch'')
           else if current \<noteq> JStr ''open'' then Inr (Some current, False, False)
           else if active \<and> (tr_transition_kind t \<in> set pressure_kinds \<or> stopping_signal signal)
           then Inr (Some current, active, False)
           else Inr (Some current, active, unknown_only))
      | _ \<Rightarrow> Inl (Conflict Transition_Body_Invalid))"

fun episode_fold ::
  "json option \<times> bool \<times> bool \<Rightarrow> transition_row list \<Rightarrow> (json option \<times> bool \<times> bool) result" where
  "episode_fold acc [] = Inr acc"
| "episode_fold acc (t # ts) = ebind (episode_step acc t) (\<lambda>acc'. episode_fold acc' ts)"

definition open_episode_is_unknown_only :: "string \<Rightarrow> runtime_db \<Rightarrow> bool result" where
  "open_episode_is_unknown_only provider db =
     ebind (episode_fold (None, False, False)
              (sort_key tr_control_revision (filter (\<lambda>t. tr_provider_id t = provider) (db_transitions db))))
       (\<lambda>(_, active, unknown_only). Inr (active \<and> unknown_only))"

definition snapshot_request_document :: "request_row \<Rightarrow> json" where
  "snapshot_request_document r =
     JObj [(''request_id'', JStr (rq_request_id r)), (''run_id'', JStr (rq_run_id r)),
           (''project_binding_digest'', JStr (rq_project_binding_digest r)),
           (''admission_lane'', JStr (lane_value (rq_admission_lane r))),
           (''authority_digest'', JStr (rq_authority_digest r)),
           (''authority_epoch'', JInt (rq_authority_epoch r)), (''task_digest'', JStr (rq_task_digest r)),
           (''member_digest'', jstr (rq_member_digest r)),
           (''provider_tier_binding_digest'', jstr (rq_provider_tier_binding_digest r)),
           (''policy_digest'', JStr (rq_policy_digest r)), (''capacity_unit'', JInt (rq_capacity_unit r)),
           (''state'', JStr (request_state_value (rq_state r))),
           (''transport_started_at'', jstr (map_option isoformat (rq_transport_started_at r))),
           (''terminal_at'', jstr (map_option isoformat (rq_terminal_at r))),
           (''terminal_evidence_digest'', jstr (rq_terminal_evidence_digest r))]"

definition check_snapshot_request :: "request_row \<Rightarrow> unit result" where
  "check_snapshot_request r =
     all_ok
       [guard (is_uuid4 (rq_request_id r)) (ValueError Bad_Uuid), guard (is_uuid4 (rq_run_id r)) (ValueError Bad_Uuid),
        guard (is_sha256 (rq_project_binding_digest r)) (ValueError Bad_Digest),
        guard (is_sha256 (rq_authority_digest r)) (ValueError Bad_Digest),
        guard (is_sha256 (rq_task_digest r)) (ValueError Bad_Digest),
        guard (is_sha256 (rq_policy_digest r)) (ValueError Bad_Digest),
        guard (case rq_terminal_evidence_digest r of None \<Rightarrow> False | Some d \<Rightarrow> is_sha256 d) (ValueError Bad_Digest),
        guard (case rq_member_digest r of None \<Rightarrow> True | Some d \<Rightarrow> is_sha256 d) (ValueError Bad_Digest),
        guard (case rq_provider_tier_binding_digest r of None \<Rightarrow> True | Some d \<Rightarrow> is_sha256 d) (ValueError Bad_Digest),
        guard (\<not> (rq_authority_epoch r < 0 \<or> rq_capacity_unit r \<noteq> 1 \<or> rq_state r \<noteq> Reconciliation_Required
                 \<or> rq_transport_started_at r = None \<or> rq_terminal_at r = None))
          (Conflict Reconciliation_Row_Invalid)]"

definition active_states :: "request_state list" where
  "active_states = [Granted, Dispatched, Reconciliation_Required]"

definition capacity_rows :: "string \<Rightarrow> runtime_db \<Rightarrow> request_row list" where
  "capacity_rows provider db =
     sort_key rq_request_id
       (filter (\<lambda>r. rq_provider_id r = provider \<and> rq_state r \<in> set active_states) (db_requests db))"

definition active_projects :: "string \<Rightarrow> runtime_db \<Rightarrow> project_row list" where
  "active_projects provider db =
     sort_key pj_project_binding_digest
       (filter (\<lambda>p. pj_provider_id p = provider \<and> pj_active_units p > 0) (db_projects db))"

definition check_capacity_row :: "request_row \<Rightarrow> unit result" where
  "check_capacity_row r =
     all_ok [guard (is_uuid4 (rq_request_id r)) (ValueError Bad_Uuid),
             guard (is_sha256 (rq_project_binding_digest r)) (ValueError Bad_Digest),
             guard (rq_state r \<in> set active_states \<and> rq_capacity_unit r = 1) (Conflict Capacity_Row_Invalid)]"

text \<open>\<open>observed_projects != dict(expected_projects)\<close>: the two dictionaries agree.\<close>

definition capacity_consistent :: "project_row list \<Rightarrow> request_row list \<Rightarrow> bool" where
  "capacity_consistent ps rs \<longleftrightarrow>
     (\<forall>p \<in> set ps. pj_active_units p
        = int (count_rows (\<lambda>r. rq_project_binding_digest r = pj_project_binding_digest p) rs))
     \<and> (\<forall>r \<in> set rs. \<exists>p \<in> set ps. pj_project_binding_digest p = rq_project_binding_digest r)"

definition reconciliation_isolation_snapshot_digest ::
  "(string \<Rightarrow> string) \<Rightarrow> policy \<Rightarrow> state_row \<Rightarrow> runtime_db \<Rightarrow> string result" where
  "reconciliation_isolation_snapshot_digest h p s db =
     (let provider = pl_provider_id p;
          rows = sort_key rq_request_id
            (filter (\<lambda>r. rq_provider_id r = provider \<and> rq_state r = Reconciliation_Required) (db_requests db));
          projects = active_projects provider db;
          capacity = capacity_rows provider db in
      ebind (all_ok (map check_snapshot_request rows)) (\<lambda>_.
      ebind (all_ok (map check_capacity_row capacity)) (\<lambda>_.
        if \<not> capacity_consistent projects capacity then Inl (Conflict Capacity_Inconsistent)
        else Inr (sha256_hex h ''provider_admission_reconciliation_isolation_snapshot_v1''
          (JObj [(''provider_id'', JStr provider), (''policy_revision'', JInt (pl_revision p)),
                 (''policy_digest'', JStr (policy_digest h p)),
                 (''deployment_digest'', JStr (st_deployment_digest s)),
                 (''effective_target'', JInt (st_effective_target s)),
                 (''circuit_state'', JStr (circuit_value (st_circuit_state s))),
                 (''control_revision'', JInt (st_control_revision s)),
                 (''control_digest'', JStr (st_control_digest s)), (''last_signal'', jstr (st_last_signal s)),
                 (''requests'', JList (map snapshot_request_document rows)),
                 (''active_capacity'', JList (map (\<lambda>r. JObj
                    [(''request_id'', JStr (rq_request_id r)),
                     (''project_binding_digest'', JStr (rq_project_binding_digest r)),
                     (''state'', JStr (request_state_value (rq_state r))),
                     (''capacity_unit'', JInt (rq_capacity_unit r))]) capacity)),
                 (''project_active_counts'', JList (map (\<lambda>p. JObj
                    [(''project_binding_digest'', JStr (pj_project_binding_digest p)),
                     (''active_units'', JInt (pj_active_units p))]) projects))])))))"

definition supersede_policy ::
  "env \<Rightarrow> kernel \<Rightarrow> transition_binding \<Rightarrow> policy \<Rightarrow> authorization_reference \<Rightarrow> runtime_db \<Rightarrow> runtime_db
     \<Rightarrow> unit result \<times> runtime_db" where
  "supersede_policy e k b successor r seen db =
     (let p = k_policy k; h = sha e; provider = pl_provider_id p;
          q = (blank_query provider ''provider_capacity_activation'' ''provider_admission_policy_transition'')
                \<lparr>aq_target_digest := Some (transition_binding_digest h b)\<rparr> in
      if (p, successor) \<notin> set supported_pairs \<or> provider \<noteq> xb_provider_id b
         \<or> policy_digest h p \<noteq> xb_from_digest b \<or> pl_revision p \<noteq> xb_from_revision b
         \<or> pl_provider_id successor \<noteq> xb_provider_id b \<or> policy_digest h successor \<noteq> xb_to_digest b
         \<or> pl_revision successor \<noteq> xb_to_revision b
         \<or> \<not> (1 \<le> xb_target b \<and> xb_target b \<le> pl_hard_max successor)
      then (Inl (Conflict Transition_Binding_Stale), db)
      else commit_result db
        (ebind (verify h (clk e 0) r q seen) (\<lambda>_.
         let now = clk e 1 in
         ebind (validated_state h k db) (\<lambda>state.
         ebind (verify_in_transaction h True (clk e 2) r q db) (\<lambda>_.
           let blocking = provider_count provider [Waiting, Granted, Dispatched] db;
               unresolved = provider_count provider [Reconciliation_Required] db;
               semantics_migration = (pl_uncertain_dispatch_scope p = ''global''
                 \<and> pl_uncertain_dispatch_scope successor = ''capacity_reservation'') in
           ebind (if unresolved > 0
                  then ebind (reconciliation_isolation_snapshot_digest h p state db) (\<lambda>d. Inr (Some d))
                  else Inr None) (\<lambda>current_snapshot.
           ebind (if semantics_migration \<and> xb_snapshot_digest b = current_snapshot
                     \<and> xb_evidence_digest b \<noteq> None \<and> st_circuit_state state = Open
                  then open_episode_is_unknown_only provider db else Inr False) (\<lambda>can_isolate_existing.
           let active_units = sum_list (map pj_active_units
                 (filter (\<lambda>j. pj_provider_id j = provider) (db_projects db)));
               project_over_cap = count_rows (\<lambda>j. pj_provider_id j = provider
                 \<and> pj_active_units j > pl_per_project_cap successor) (db_projects db) in
           if blocking > 0 \<or> active_units \<noteq> int unresolved \<or> active_units > xb_target b
              \<or> project_over_cap > 0 \<or> (unresolved > 0 \<and> \<not> can_isolate_existing)
              \<or> (unresolved = 0 \<and> (st_circuit_state state \<noteq> Closed \<or> xb_snapshot_digest b \<noteq> None
                   \<or> xb_evidence_digest b \<noteq> None))
           then Inl (Conflict Transition_Not_Idle)
           else
             ebind (ensure_policy_row h Successor_Conflict successor now db) (\<lambda>db1.
             ebind (consume_activation_authority r now db1) (\<lambda>db2.
             ebind (append_control_transition e k successor (Some state)
                      \<lparr>cc_kind = ''policy_superseded'', cc_target = xb_target b, cc_circuit = Closed,
                       cc_probe = None,
                       cc_signal = Some (if unresolved > 0 then ''policy_superseded_with_reconciliation''
                                         else ''policy_superseded''),
                       cc_authority = Some (ref_digest r), cc_binding = Some (transition_binding_digest h b),
                       cc_request = None,
                       cc_evidence = (if unresolved > 0 then xb_evidence_digest b else None)\<rparr> now db2)
               (\<lambda>(_, db3). Inr ((), db3)))))))))))"

end
