(* ===== verification/AdmissionRequests.thy ===== *)
theory AdmissionRequests
  imports AdmissionKernel
begin

text \<open>
  The life of a capacity request in \<open>ProviderAdmissionKernel\<close>: admission (\<open>try_admit\<close>), the start
  and the end of its transport, cancellation, expiry, reconciliation, and the half-open circuit
  whose only request is the named probe.
\<close>

section \<open>Rows and permits\<close>

definition request_query :: "(string \<Rightarrow> string) \<Rightarrow> kernel \<Rightarrow> admission_request \<Rightarrow> authority_query" where
  "request_query h k q =
     \<lparr>aq_provider_id = ar_provider_id q, aq_plane = ar_plane q, aq_task_type = ar_task_type q,
      aq_batch_id = ar_batch_id q, aq_member_digest = ar_member_digest q, aq_tier_digest = ar_tier_digest q,
      aq_project_digest = Some (ar_project_digest q), aq_lane = Some (lane_value (ar_lane q)),
      aq_policy_digest = Some (policy_digest h (k_policy k)), aq_target_digest = None,
      aq_circuit_digest = None\<rparr>"

definition verify_authority ::
  "(string \<Rightarrow> string) \<Rightarrow> kernel \<Rightarrow> int \<Rightarrow> admission_request \<Rightarrow> runtime_db \<Rightarrow> authorization_reference result" where
  "verify_authority h k now q db = verify h now (ar_authorization q) (request_query h k q) db"

definition verify_authority_locked ::
  "(string \<Rightarrow> string) \<Rightarrow> kernel \<Rightarrow> int \<Rightarrow> admission_request \<Rightarrow> runtime_db \<Rightarrow> authorization_reference result" where
  "verify_authority_locked h k now q db =
     verify_in_transaction h True now (ar_authorization q) (request_query h k q) db"

definition row_matches_request :: "request_row \<Rightarrow> admission_request \<Rightarrow> string \<Rightarrow> bool" where
  "row_matches_request row q pdigest \<longleftrightarrow>
     rq_provider_id row = ar_provider_id q \<and> rq_project_binding_digest row = ar_project_digest q
     \<and> rq_admission_lane row = ar_lane q \<and> rq_run_id row = ar_run_id q
     \<and> rq_authority_digest row = ref_digest (ar_authorization q)
     \<and> rq_authority_epoch row = ref_epoch (ar_authorization q) \<and> rq_task_digest row = ar_task_digest q
     \<and> rq_member_digest row = ar_member_digest q \<and> rq_provider_tier_binding_digest row = ar_tier_digest q
     \<and> rq_policy_digest row = pdigest \<and> rq_capacity_unit row = 1"

definition permit_from_row :: "request_row \<Rightarrow> permit result" where
  "permit_from_row row =
     (case (rq_fencing_token row, rq_granted_at row) of
        (Some token, Some granted) \<Rightarrow>
          permit_post_init
            \<lparr>pm_request_id = rq_request_id row, pm_provider_id = rq_provider_id row,
             pm_project_digest = rq_project_binding_digest row, pm_lane = lane_value (rq_admission_lane row),
             pm_run_id = rq_run_id row, pm_authority_digest = rq_authority_digest row,
             pm_authority_epoch = rq_authority_epoch row, pm_task_digest = rq_task_digest row,
             pm_member_digest = rq_member_digest row, pm_tier_digest = rq_provider_tier_binding_digest row,
             pm_policy_digest = rq_policy_digest row, pm_capacity_unit = rq_capacity_unit row,
             pm_fencing_token = token, pm_acquired_at = granted, pm_expires_at = rq_expires_at row\<rparr>
      | _ \<Rightarrow> Inl (ValueError Bad_Integer))"

definition find_request :: "string \<Rightarrow> runtime_db \<Rightarrow> request_row option" where
  "find_request rid db = lookup_row (\<lambda>r. rq_request_id r = rid) (db_requests db)"

text \<open>\<open>UPDATE provider_admission_requests SET ... WHERE request_id=? AND state=?\<close>.\<close>

definition update_request ::
  "string \<Rightarrow> request_state \<Rightarrow> (request_row \<Rightarrow> request_row) \<Rightarrow> runtime_db \<Rightarrow> runtime_db" where
  "update_request rid s f db =
     db\<lparr>db_requests := update_rows (\<lambda>r. rq_request_id r = rid \<and> rq_state r = s) f (db_requests db)\<rparr>"

definition decrement_project :: "request_row \<Rightarrow> int \<Rightarrow> runtime_db \<Rightarrow> runtime_db result" where
  "decrement_project row now db =
     (let sel = (\<lambda>p. pj_provider_id p = rq_provider_id row
             \<and> pj_project_binding_digest p = rq_project_binding_digest row \<and> pj_active_units p \<ge> 1)
      in if count_rows sel (db_projects db) \<noteq> 1 then Inl (Conflict Project_Capacity_Inconsistent)
         else Inr (db\<lparr>db_projects := update_rows sel
                (\<lambda>p. p\<lparr>pj_active_units := pj_active_units p - 1, pj_updated_at := now\<rparr>) (db_projects db)\<rparr>))"

definition circuit_change :: "string \<Rightarrow> state_row \<Rightarrow> circuit \<Rightarrow> string \<Rightarrow> string \<Rightarrow> string option \<Rightarrow> control_change" where
  "circuit_change kind s next signal rid evidence =
     \<lparr>cc_kind = kind, cc_target = st_effective_target s, cc_circuit = next, cc_probe = None,
      cc_signal = Some signal, cc_authority = None, cc_binding = None, cc_request = Some rid,
      cc_evidence = evidence\<rparr>"

definition cancel_granted_row ::
  "env \<Rightarrow> kernel \<Rightarrow> request_row \<Rightarrow> state_row \<Rightarrow> int \<Rightarrow> string \<Rightarrow> runtime_db \<Rightarrow> runtime_db result" where
  "cancel_granted_row e k row s now reason db =
     (if rq_state row \<noteq> Granted then Inl (Conflict Not_Unused_Grant)
      else
        ebind (decrement_project row now db) (\<lambda>db1.
          if count_rows (\<lambda>r. rq_request_id r = rq_request_id row \<and> rq_state r = Granted) (db_requests db1) \<noteq> 1
          then Inl (Conflict Grant_Cancel_Lost)
          else
            (let db2 = update_request (rq_request_id row) Granted
                   (\<lambda>r. r\<lparr>rq_state := Cancelled, rq_terminal_at := Some now\<rparr>) db1
             in if st_circuit_state s = Half_Open
                then ebind (append_control_transition e k (k_policy k) (Some s)
                       (circuit_change ''half_open_cancelled'' s Open reason (rq_request_id row) None) now db2)
                     (\<lambda>(_, db3). Inr db3)
                else Inr db2)))"

section \<open>Expiry\<close>

text \<open>One row of the loop of \<open>_expire\<close>; the flag is the first expired dispatched request.\<close>

fun expire_row ::
  "env \<Rightarrow> kernel \<Rightarrow> state_row \<Rightarrow> int \<Rightarrow> request_row \<Rightarrow> runtime_db \<times> string option
     \<Rightarrow> (runtime_db \<times> string option) result" where
  "expire_row e k s now row (db, first) =
     (if rq_expires_at row > now then Inr (db, first)
      else if rq_state row = Waiting
      then Inr (update_request (rq_request_id row) Waiting
                  (\<lambda>r. r\<lparr>rq_state := Cancelled, rq_terminal_at := Some now\<rparr>) db, first)
      else if rq_state row = Granted
      then ebind (cancel_granted_row e k row s now ''half_open_probe_expired'' db) (\<lambda>db1. Inr (db1, first))
      else Inr (update_request (rq_request_id row) Dispatched
                  (\<lambda>r. r\<lparr>rq_state := Reconciliation_Required, rq_terminal_at := Some now\<rparr>) db,
                case first of None \<Rightarrow> Some (rq_request_id row) | Some f \<Rightarrow> Some f))"

fun expire_rows ::
  "env \<Rightarrow> kernel \<Rightarrow> state_row \<Rightarrow> int \<Rightarrow> request_row list \<Rightarrow> runtime_db \<times> string option
     \<Rightarrow> (runtime_db \<times> string option) result" where
  "expire_rows e k s now [] acc = Inr acc"
| "expire_rows e k s now (row # rows) acc =
     ebind (expire_row e k s now row acc) (\<lambda>acc'. expire_rows e k s now rows acc')"

definition expire :: "env \<Rightarrow> kernel \<Rightarrow> int \<Rightarrow> runtime_db \<Rightarrow> runtime_db result" where
  "expire e k now db =
     ebind (validated_state (sha e) k db) (\<lambda>s.
     ebind (expire_rows e k s now
              (filter (\<lambda>r. rq_provider_id r = pl_provider_id (k_policy k)
                  \<and> rq_state r \<in> {Waiting, Granted, Dispatched}) (db_requests db)) (db, None))
       (\<lambda>(db1, first).
         case first of
           None \<Rightarrow> Inr db1
         | Some rid \<Rightarrow>
             (let isolated = (pl_uncertain_dispatch_scope (k_policy k) = ''capacity_reservation''
                    \<and> st_circuit_state s = Closed);
                  kind = (if isolated then ''dispatch_expired_isolated'' else ''permit_expired'')
              in ebind (append_control_transition e k (k_policy k) (Some s)
                    (circuit_change kind s (if isolated then Closed else Open) kind rid None) now db1)
                  (\<lambda>(_, db2). Inr db2))))"

section \<open>Fair selection\<close>

definition project_active :: "request_row \<Rightarrow> runtime_db \<Rightarrow> int" where
  "project_active r db =
     sum_list (map rq_capacity_unit (filter (\<lambda>a. rq_provider_id a = rq_provider_id r
       \<and> rq_project_binding_digest a = rq_project_binding_digest r
       \<and> rq_state a \<in> set active_states) (db_requests db)))"

definition project_last_grant :: "request_row \<Rightarrow> runtime_db \<Rightarrow> int" where
  "project_last_grant r db =
     (case lookup_row (\<lambda>p. pj_provider_id p = rq_provider_id r
              \<and> pj_project_binding_digest p = rq_project_binding_digest r) (db_projects db) of
        None \<Rightarrow> 0 | Some p \<Rightarrow> pj_last_grant_sequence p)"

definition waiting_rows :: "kernel \<Rightarrow> runtime_db \<Rightarrow> request_row list" where
  "waiting_rows k db =
     sort_key (\<lambda>r. (rq_requested_at r, rq_request_id r))
       (filter (\<lambda>r. rq_provider_id r = pl_provider_id (k_policy k) \<and> rq_state r = Waiting) (db_requests db))"

definition eligible_rows :: "kernel \<Rightarrow> runtime_db \<Rightarrow> request_row list" where
  "eligible_rows k db =
     filter (\<lambda>r. project_active r db + rq_capacity_unit r \<le> pl_per_project_cap (k_policy k)) (waiting_rows k db)"

definition fair_key :: "runtime_db \<Rightarrow> request_row \<Rightarrow> int \<times> int \<times> string" where
  "fair_key db r = (project_last_grant r db, rq_requested_at r, rq_request_id r)"

definition selected_waiting :: "kernel \<Rightarrow> runtime_db \<Rightarrow> request_row option result" where
  "selected_waiting k db =
     (let eligible = eligible_rows k db;
          interactive = filter (\<lambda>r. rq_admission_lane r = Interactive) eligible;
          non_interactive = filter (\<lambda>r. rq_admission_lane r \<noteq> Interactive) eligible in
      if eligible = [] then Inr None
      else case find_state (pl_provider_id (k_policy k)) db of
        None \<Rightarrow> if interactive \<noteq> [] then Inl TypeError else Inr (Some (arg_min_list (fair_key db) non_interactive))
      | Some s \<Rightarrow>
          (let lane_rows = (if interactive \<noteq> [] \<and> st_last_granted_lane s \<noteq> Some Interactive then interactive
                            else if non_interactive \<noteq> [] then non_interactive else interactive)
           in Inr (Some (arg_min_list (fair_key db) lane_rows))))"

section \<open>Admission\<close>

definition active_capacity :: "string \<Rightarrow> runtime_db \<Rightarrow> int" where
  "active_capacity provider db =
     sum_list (map rq_capacity_unit (filter (\<lambda>r. rq_provider_id r = provider
       \<and> rq_state r \<in> set active_states) (db_requests db)))"

definition waiting_row :: "(string \<Rightarrow> string) \<Rightarrow> kernel \<Rightarrow> admission_request \<Rightarrow> int \<Rightarrow> int \<Rightarrow> request_row" where
  "waiting_row h k q now expires =
     \<lparr>rq_request_id = ar_request_id q, rq_provider_id = ar_provider_id q,
      rq_project_binding_digest = ar_project_digest q, rq_admission_lane = ar_lane q, rq_run_id = ar_run_id q,
      rq_authority_digest = ref_digest (ar_authorization q), rq_authority_epoch = ref_epoch (ar_authorization q),
      rq_task_digest = ar_task_digest q, rq_member_digest = ar_member_digest q,
      rq_provider_tier_binding_digest = ar_tier_digest q, rq_policy_digest = policy_digest h (k_policy k),
      rq_capacity_unit = 1, rq_state = Waiting, rq_fencing_token = None, rq_requested_at = now,
      rq_granted_at = None, rq_transport_started_at = None, rq_terminal_at = None, rq_expires_at = expires,
      rq_terminal_evidence_digest = None, rq_resolution_evidence_digest = None, rq_resolved_at = None\<rparr>"

definition increment_project :: "string \<Rightarrow> string \<Rightarrow> int \<Rightarrow> int \<Rightarrow> runtime_db \<Rightarrow> runtime_db" where
  "increment_project provider project sequence now db =
     (let sel = (\<lambda>p. pj_provider_id p = provider \<and> pj_project_binding_digest p = project) in
      if list_ex sel (db_projects db)
      then db\<lparr>db_projects := update_rows sel
             (\<lambda>p. p\<lparr>pj_active_units := pj_active_units p + 1, pj_last_grant_sequence := sequence,
                    pj_updated_at := now\<rparr>) (db_projects db)\<rparr>
      else db\<lparr>db_projects := db_projects db @
             [\<lparr>pj_provider_id = provider, pj_project_binding_digest = project, pj_active_units = 1,
               pj_last_grant_sequence = sequence, pj_updated_at = now\<rparr>]\<rparr>)"

definition record_grant :: "string \<Rightarrow> lane \<Rightarrow> int \<Rightarrow> int \<Rightarrow> runtime_db \<Rightarrow> runtime_db" where
  "record_grant provider admission_lane sequence now db =
     db\<lparr>db_states := update_rows (\<lambda>s. st_provider_id s = provider)
          (\<lambda>s. s\<lparr>st_grant_sequence := sequence, st_last_granted_lane := Some admission_lane,
                 st_updated_at := now\<rparr>) (db_states db)\<rparr>"

text \<open>The end of \<open>try_admit\<close>, once the request is waiting: capacity, turn, grant.\<close>

definition grant_waiting ::
  "kernel \<Rightarrow> state_row \<Rightarrow> admission_request \<Rightarrow> int \<Rightarrow> runtime_db \<Rightarrow> runtime_db \<Rightarrow> permit result \<times> runtime_db" where
  "grant_waiting k s q now old db =
     (let provider = ar_provider_id q;
          capacity = (if st_circuit_state s = Half_Open then 1 else st_effective_target s) in
      if active_capacity provider db + 1 > capacity then (Inl (Busy Capacity_Busy), db)
      else case selected_waiting k db of
        Inl err \<Rightarrow> (Inl err, old)
      | Inr None \<Rightarrow> (Inl (Busy Waiting_Fair_Turn), db)
      | Inr (Some r) \<Rightarrow>
          if rq_request_id r \<noteq> ar_request_id q then (Inl (Busy Waiting_Fair_Turn), db)
          else
            (let db1 = bump_fencing db; token = db_fencing_counter db1;
                 sequence = st_grant_sequence s + 1;
                 db2 = increment_project provider (ar_project_digest q) sequence now db1;
                 db3 = record_grant provider (ar_lane q) sequence now db2;
                 db4 = update_request (ar_request_id q) Waiting
                   (\<lambda>r. r\<lparr>rq_state := Granted, rq_fencing_token := Some token, rq_granted_at := Some now\<rparr>) db3
             in case find_request (ar_request_id q) db4 of
                  None \<Rightarrow> (Inl TypeError, db4)
                | Some row \<Rightarrow> (permit_from_row row, db4)))"

definition probe_mismatch :: "(string \<Rightarrow> string) \<Rightarrow> admission_request \<Rightarrow> state_row \<Rightarrow> bool" where
  "probe_mismatch h q s \<longleftrightarrow> st_circuit_state s = Half_Open \<and> st_half_open_probe s \<noteq> Some (request_digest h q)"

definition unresolved_blocks :: "kernel \<Rightarrow> string \<Rightarrow> runtime_db \<Rightarrow> bool" where
  "unresolved_blocks k provider db \<longleftrightarrow>
     pl_uncertain_dispatch_scope (k_policy k) = ''global'' \<and> provider_count provider [Reconciliation_Required] db > 0"

definition admit_in_transaction ::
  "env \<Rightarrow> kernel \<Rightarrow> admission_request \<Rightarrow> int \<Rightarrow> int \<Rightarrow> runtime_db \<Rightarrow> permit result \<times> runtime_db" where
  "admit_in_transaction e k q ttl now db =
     (let h = sha e in
      case expire e k now db of
        Inl err \<Rightarrow> (Inl err, db)
      | Inr db1 \<Rightarrow>
      (case validated_state h k db1 of
        Inl err \<Rightarrow> (Inl err, db)
      | Inr s \<Rightarrow>
          if st_circuit_state s = Open then (Inl (Reconcile Circuit_Needs_Reconciliation), db1)
          else if probe_mismatch h q s then (Inl (Reconcile Half_Open_Other_Probe), db1)
          else if unresolved_blocks k (ar_provider_id q) db1 then (Inl (Reconcile Unresolved_Capacity), db1)
          else case find_request (ar_request_id q) db1 of
            Some row \<Rightarrow>
              if \<not> row_matches_request row q (policy_digest h (k_policy k))
              then (Inl (Conflict Request_Identity_Conflict), db)
              else if rq_state row = Granted then (permit_from_row row, db1)
              else if rq_state row \<noteq> Waiting then (Inl (Conflict Request_Not_Waiting_Or_Granted), db)
              else grant_waiting k s q now db db1
          | None \<Rightarrow>
              if list_ex (\<lambda>r. rq_run_id r = ar_run_id q) (db_requests db1) then (Inl IntegrityError, db)
              else grant_waiting k s q now db
                     (db1\<lparr>db_requests := db_requests db1 @ [waiting_row h k q now (now + seconds ttl)]\<rparr>)))"

definition try_admit ::
  "env \<Rightarrow> kernel \<Rightarrow> admission_request \<Rightarrow> int \<Rightarrow> runtime_db \<Rightarrow> runtime_db \<Rightarrow> permit result \<times> runtime_db" where
  "try_admit e k q ttl_seconds seen db =
     (if ar_provider_id q \<noteq> pl_provider_id (k_policy k) then (Inl (Conflict Other_Provider), db)
      else case chk_range ttl_seconds 86400 of
        Inl err \<Rightarrow> (Inl err, db)
      | Inr ttl \<Rightarrow>
      (case verify_authority (sha e) k (clk e 0) q seen of
        Inl err \<Rightarrow> (Inl err, db)
      | Inr _ \<Rightarrow> admit_in_transaction e k q ttl (clk e 1) db))"

section \<open>Transport\<close>

definition permit_matches_row :: "permit \<Rightarrow> request_row \<Rightarrow> bool" where
  "permit_matches_row p row \<longleftrightarrow>
     rq_provider_id row = pm_provider_id p \<and> rq_project_binding_digest row = pm_project_digest p
     \<and> lane_value (rq_admission_lane row) = pm_lane p \<and> rq_run_id row = pm_run_id p
     \<and> rq_authority_digest row = pm_authority_digest p \<and> rq_authority_epoch row = pm_authority_epoch p
     \<and> rq_task_digest row = pm_task_digest p \<and> rq_member_digest row = pm_member_digest p
     \<and> rq_provider_tier_binding_digest row = pm_tier_digest p \<and> rq_policy_digest row = pm_policy_digest p
     \<and> rq_capacity_unit row = pm_capacity_unit p \<and> rq_fencing_token row = Some (pm_fencing_token p)
     \<and> rq_granted_at row = Some (pm_acquired_at p) \<and> rq_expires_at row = pm_expires_at p"

definition require_permit_row :: "permit \<Rightarrow> runtime_db \<Rightarrow> request_row result" where
  "require_permit_row p db =
     (case find_request (pm_request_id p) db of
        None \<Rightarrow> Inl (Conflict Permit_Identity_Invalid)
      | Some row \<Rightarrow> if permit_matches_row p row then Inr row else Inl (Conflict Permit_Identity_Invalid))"

definition cancel_before_transport :: "env \<Rightarrow> kernel \<Rightarrow> permit \<Rightarrow> runtime_db \<Rightarrow> unit result \<times> runtime_db" where
  "cancel_before_transport e k p db =
     commit_result db
       (ebind (validated_state (sha e) k db) (\<lambda>s.
        ebind (require_permit_row p db) (\<lambda>row.
          if rq_state row \<noteq> Granted then Inl (Conflict Permit_Not_Cancellable)
          else ebind (cancel_granted_row e k row s (clk e 0) ''half_open_cancelled'' db) (\<lambda>db1. Inr ((), db1)))))"

definition cancel_waiting :: "env \<Rightarrow> string \<Rightarrow> string \<Rightarrow> runtime_db \<Rightarrow> bool result \<times> runtime_db" where
  "cancel_waiting e request_id run_id db =
     commit_result db
       (ebind (chk_uuid4 request_id) (\<lambda>rid.
        ebind (chk_uuid4 run_id) (\<lambda>run.
          case find_request rid db of
            None \<Rightarrow> Inr (False, db)
          | Some row \<Rightarrow>
              if rq_run_id row \<noteq> run then Inl (Conflict Waiting_Identity_Invalid)
              else if rq_state row \<noteq> Waiting then Inl (Conflict Request_Not_Waiting)
              else Inr (count_rows (\<lambda>r. rq_request_id r = rid \<and> rq_state r = Waiting) (db_requests db) = 1,
                        update_request rid Waiting
                          (\<lambda>r. r\<lparr>rq_state := Cancelled, rq_terminal_at := Some (clk e 0)\<rparr>) db))))"

text \<open>A grant that may no longer start is cancelled and committed before the error is raised.\<close>

definition cancel_and_raise ::
  "env \<Rightarrow> kernel \<Rightarrow> request_row \<Rightarrow> state_row \<Rightarrow> int \<Rightarrow> string \<Rightarrow> err \<Rightarrow> runtime_db \<Rightarrow> runtime_db
     \<Rightarrow> unit result \<times> runtime_db" where
  "cancel_and_raise e k row s now reason err old db =
     (case cancel_granted_row e k row s now reason db of
        Inl err' \<Rightarrow> (Inl err', old)
      | Inr db' \<Rightarrow> (Inl err, db'))"

definition begin_transport ::
  "env \<Rightarrow> kernel \<Rightarrow> permit \<Rightarrow> admission_request \<Rightarrow> runtime_db \<Rightarrow> unit result \<times> runtime_db" where
  "begin_transport e k p q db =
     (let h = sha e; now = clk e 0 in
      case expire e k now db of
        Inl err \<Rightarrow> (Inl err, db)
      | Inr db1 \<Rightarrow>
      (case validated_state h k db1 of
        Inl err \<Rightarrow> (Inl err, db)
      | Inr s \<Rightarrow>
      (case require_permit_row p db1 of
        Inl err \<Rightarrow> (Inl err, db)
      | Inr row \<Rightarrow>
          if \<not> row_matches_request row q (policy_digest h (k_policy k))
          then (Inl (Conflict Permit_Request_Mismatch), db1)
          else if rq_state row = Reconciliation_Required then (Inl (Reconcile Grant_Needs_Reconciliation), db1)
          else if rq_state row \<noteq> Granted then (Inl (Conflict Permit_Not_Fresh), db1)
          else if st_circuit_state s = Open
          then cancel_and_raise e k row s now ''grant_blocked_by_open_circuit''
                 (Reconcile Circuit_Opened_Before_Transport) db db1
          else if unresolved_blocks k (pm_provider_id p) db1
          then cancel_and_raise e k row s now ''grant_blocked_by_unresolved_capacity''
                 (Reconcile Unresolved_Capacity) db db1
          else if probe_mismatch h q s
          then cancel_and_raise e k row s now ''half_open_probe_mismatch'' (Conflict Permit_Not_Probe) db db1
          else case verify_authority_locked h k (clk e 1) q db1 of
            Inl (AuthError why) \<Rightarrow>
              cancel_and_raise e k row s now ''half_open_authority_invalid'' (AuthError why) db db1
          | Inl err \<Rightarrow> (Inl err, db)
          | Inr _ \<Rightarrow>
              (Inr (), update_request (pm_request_id p) Granted
                 (\<lambda>r. r\<lparr>rq_state := Dispatched, rq_transport_started_at := Some now\<rparr>) db1))))"

end
