(* ===== verification/AdmissionOutcome.thy ===== *)
theory AdmissionOutcome
  imports AdmissionRequests
begin

text \<open>
  How a transport ends (\<open>finish\<close>), how an unknown outcome is resolved
  (\<open>resolve_reconciliation\<close>), how an open circuit is probed (\<open>activate_half_open\<close>), and what a
  reader sees (\<open>read_request\<close>, \<open>status\<close>), of \<open>src/src/macr_runtime/provider_admission.py\<close>.
\<close>

section \<open>The end of a transport\<close>

record outcome =
  oc_network_attempted :: "bool option"
  oc_response_received :: "bool option"
  oc_http_status :: "int option"
  oc_terminal_persisted :: bool
  oc_evidence :: string

definition check_outcome :: "outcome \<Rightarrow> unit result" where
  "check_outcome oc =
     (if oc_response_received oc = Some True \<and> oc_network_attempted oc \<noteq> Some True
      then Inl (ValueError Bad_Outcome)
      else if (case oc_http_status oc of None \<Rightarrow> False
               | Some n \<Rightarrow> \<not> (100 \<le> n \<and> n \<le> 599) \<or> oc_response_received oc \<noteq> Some True)
      then Inl (ValueError Bad_Outcome)
      else ebind (chk_digest (oc_evidence oc)) (\<lambda>_. Inr ()))"

definition ambiguous :: "outcome \<Rightarrow> bool" where
  "ambiguous oc \<longleftrightarrow>
     \<not> oc_terminal_persisted oc \<or> oc_network_attempted oc = None
     \<or> (oc_network_attempted oc = Some True \<and> oc_response_received oc \<noteq> Some True)"

definition provider_pressure :: "outcome \<Rightarrow> bool" where
  "provider_pressure oc \<longleftrightarrow>
     (case oc_http_status oc of None \<Rightarrow> False | Some n \<Rightarrow> n = 429 \<or> 500 \<le> n \<and> n \<le> 599)"

definition isolated_uncertainty :: "policy \<Rightarrow> circuit \<Rightarrow> outcome \<Rightarrow> bool" where
  "isolated_uncertainty p c oc \<longleftrightarrow>
     pl_uncertain_dispatch_scope p = ''capacity_reservation'' \<and> \<not> provider_pressure oc
     \<and> oc_terminal_persisted oc \<and> oc_network_attempted oc = Some True
     \<and> oc_response_received oc = Some False \<and> c = Closed"

definition http_signal :: "int \<Rightarrow> string" where
  "http_signal n = ''http_'' @ int_text n"

text \<open>The request state, circuit state and signal that \<open>finish\<close> computes.\<close>

definition finish_request_state :: "outcome \<Rightarrow> request_state" where
  "finish_request_state oc = (if ambiguous oc then Reconciliation_Required else Completed)"

definition finish_circuit :: "policy \<Rightarrow> circuit \<Rightarrow> outcome \<Rightarrow> circuit" where
  "finish_circuit p c oc =
     (if ambiguous oc then
        (if provider_pressure oc then Open
         else if \<not> oc_terminal_persisted oc \<or> oc_network_attempted oc = None then Open
         else if isolated_uncertainty p c oc then Closed else Open)
      else if c = Open then Open
      else if c = Half_Open then
        (if \<not> provider_pressure oc \<and> oc_network_attempted oc = Some True \<and> oc_response_received oc = Some True
         then Closed else Open)
      else if provider_pressure oc then Open else Closed)"

definition finish_signal :: "policy \<Rightarrow> circuit \<Rightarrow> outcome \<Rightarrow> string" where
  "finish_signal p c oc =
     (if ambiguous oc then
        (if provider_pressure oc then http_signal (the (oc_http_status oc))
         else if \<not> oc_terminal_persisted oc \<or> oc_network_attempted oc = None then ''local_integrity_stop''
         else if isolated_uncertainty p c oc then ''unknown_after_dispatch_isolated''
         else ''unknown_after_dispatch'')
      else case oc_http_status oc of
        Some n \<Rightarrow> http_signal n
      | None \<Rightarrow> if oc_network_attempted oc = Some False then ''known_pre_network_terminal''
               else ''response_received'')"

definition finish_kind :: "policy \<Rightarrow> circuit \<Rightarrow> outcome \<Rightarrow> string" where
  "finish_kind p c oc =
     (let next = finish_circuit p c oc; signal = finish_signal p c oc in
      if ambiguous oc then
        (if c = Half_Open then ''half_open_failed''
         else if signal = ''unknown_after_dispatch_isolated'' then ''unknown_after_dispatch_isolated''
         else if signal = ''local_integrity_stop'' then ''local_integrity_stop''
         else if provider_pressure oc \<and> c \<noteq> Open then ''circuit_opened''
         else if provider_pressure oc then ''terminal_observed_while_open''
         else ''unknown_after_dispatch'')
      else if c = Half_Open then (if next = Closed then ''half_open_succeeded'' else ''half_open_failed'')
      else if c = Open then ''terminal_observed_while_open''
      else if next = Open then ''circuit_opened''
      else ''terminal_observed'')"

definition finish :: "env \<Rightarrow> kernel \<Rightarrow> permit \<Rightarrow> outcome \<Rightarrow> runtime_db \<Rightarrow> unit result \<times> runtime_db" where
  "finish e k p oc db =
     commit_result db
       (ebind (check_outcome oc) (\<lambda>_.
        let now = clk e 0; pol = k_policy k in
        ebind (validated_state (sha e) k db) (\<lambda>s.
        ebind (require_permit_row p db) (\<lambda>row.
          if rq_state row \<noteq> Dispatched then Inl (Conflict Permit_No_Transport)
          else
            (let c = st_circuit_state s in
             ebind (if ambiguous oc then Inr db else decrement_project row now db) (\<lambda>db1.
               let db2 = db1\<lparr>db_requests := update_rows (\<lambda>r. rq_request_id r = pm_request_id p)
                     (\<lambda>r. r\<lparr>rq_state := finish_request_state oc, rq_terminal_at := Some now,
                            rq_terminal_evidence_digest := Some (oc_evidence oc)\<rparr>) (db_requests db1)\<rparr>
               in ebind (append_control_transition e k pol (Some s)
                     (circuit_change (finish_kind pol c oc) s (finish_circuit pol c oc)
                        (finish_signal pol c oc) (pm_request_id p) (Some (oc_evidence oc))) now db2)
                   (\<lambda>(_, db3). Inr ((), db3))))))))"

section \<open>Reconciliation\<close>

definition read_request :: "string \<Rightarrow> runtime_db \<Rightarrow> request_row result" where
  "read_request request_id db =
     ebind (chk_uuid4 request_id) (\<lambda>rid.
       case find_request rid db of None \<Rightarrow> Inl (Conflict Request_Missing) | Some row \<Rightarrow> Inr row)"

definition resolution_query :: "request_row \<Rightarrow> authority_query" where
  "resolution_query row =
     \<lparr>aq_provider_id = rq_provider_id row, aq_plane = ''provider_admission_reconciliation'',
      aq_task_type = ''provider_admission_resolution'', aq_batch_id = None,
      aq_member_digest = rq_member_digest row, aq_tier_digest = rq_provider_tier_binding_digest row,
      aq_project_digest = Some (rq_project_binding_digest row),
      aq_lane = Some (lane_value (rq_admission_lane row)), aq_policy_digest = Some (rq_policy_digest row),
      aq_target_digest = None, aq_circuit_digest = None\<rparr>"

definition resolve_reconciliation ::
  "env \<Rightarrow> kernel \<Rightarrow> string \<Rightarrow> authorization_reference \<Rightarrow> string \<Rightarrow> runtime_db \<Rightarrow> runtime_db
     \<Rightarrow> unit result \<times> runtime_db" where
  "resolve_reconciliation e k request_id r evidence seen db =
     commit_result db
       (ebind (chk_uuid4 request_id) (\<lambda>rid.
        ebind (chk_digest evidence) (\<lambda>evidence.
          case find_request rid seen of
            None \<Rightarrow> Inl (Conflict Not_Reconciliation)
          | Some before \<Rightarrow>
              if rq_state before \<noteq> Reconciliation_Required then Inl (Conflict Not_Reconciliation)
              else
                ebind (verify (sha e) (clk e 0) r (resolution_query before) seen) (\<lambda>_.
                let now = clk e 1 in
                ebind (validated_state (sha e) k db) (\<lambda>s.
                  case find_request rid db of
                    None \<Rightarrow> Inl (Conflict Reconciliation_Changed)
                  | Some row \<Rightarrow>
                      if rq_state row \<noteq> Reconciliation_Required then Inl (Conflict Reconciliation_Changed)
                      else
                        ebind (decrement_project row now db) (\<lambda>db1.
                          let db2 = db1\<lparr>db_requests := update_rows (\<lambda>r. rq_request_id r = rid)
                                (\<lambda>r. r\<lparr>rq_state := Reconciled, rq_resolution_evidence_digest := Some evidence,
                                       rq_resolved_at := Some now\<rparr>) (db_requests db1)\<rparr>
                          in ebind (append_control_transition e k (k_policy k) (Some s)
                                (circuit_change ''reconciliation_resolved'' s (st_circuit_state s)
                                   ''reconciled'' rid (Some evidence)) now db2)
                              (\<lambda>(_, db3). Inr ((), db3))))))))"

section \<open>Probing an open circuit\<close>

definition circuit_query :: "(string \<Rightarrow> string) \<Rightarrow> kernel \<Rightarrow> circuit_binding \<Rightarrow> authority_query" where
  "circuit_query h k b =
     (blank_query (pl_provider_id (k_policy k)) ''provider_circuit_activation'' ''provider_circuit_half_open'')
       \<lparr>aq_circuit_digest := Some (circuit_binding_digest h b)\<rparr>"

definition activate_half_open ::
  "env \<Rightarrow> kernel \<Rightarrow> circuit_binding \<Rightarrow> authorization_reference \<Rightarrow> admission_request \<Rightarrow> runtime_db \<Rightarrow> runtime_db
     \<Rightarrow> unit result \<times> runtime_db" where
  "activate_half_open e k b r probe seen db =
     (let h = sha e; p = k_policy k; provider = pl_provider_id p in
      if cb_provider_id b \<noteq> provider \<or> cb_policy_digest b \<noteq> policy_digest h p
         \<or> cb_policy_revision b \<noteq> pl_revision p
      then (Inl (Conflict Circuit_Binding_Stale), db)
      else if ar_provider_id probe \<noteq> provider \<or> ar_lane probe \<noteq> Interactive
         \<or> request_digest h probe \<noteq> cb_probe_request_digest b
      then (Inl (Conflict Probe_Not_Exact), db)
      else commit_result db
        (ebind (verify_authority h k (clk e 0) probe seen) (\<lambda>_.
         ebind (verify h (clk e 1) r (circuit_query h k b) seen) (\<lambda>_.
         let now = clk e 2 in
         ebind (validated_state h k db) (\<lambda>s.
         ebind (verify_authority_locked h k (clk e 3) probe db) (\<lambda>_.
         ebind (verify_in_transaction h True (clk e 4) r (circuit_query h k b) db) (\<lambda>_.
           if circuit_value (st_circuit_state s) \<noteq> cb_from_state b
              \<or> provider_count provider [Reconciliation_Required] db > 0
              \<or> provider_count provider [Waiting, Granted, Dispatched] db > 0
              \<or> count_rows (\<lambda>q. rq_request_id q = ar_request_id probe \<or> rq_run_id q = ar_run_id probe)
                  (db_requests db) > 0
           then Inl (Conflict Half_Open_Refused)
           else
             ebind (consume_activation_authority r now db) (\<lambda>db1.
             ebind (append_control_transition e k p (Some s)
                      \<lparr>cc_kind = ''half_open_activated'', cc_target = st_effective_target s,
                       cc_circuit = Half_Open, cc_probe = Some (cb_probe_request_digest b),
                       cc_signal = Some ''half_open_authorized'', cc_authority = Some (ref_digest r),
                       cc_binding = Some (circuit_binding_digest h b), cc_request = None,
                       cc_evidence = None\<rparr> now db1)
               (\<lambda>(_, db2). Inr ((), db2))))))))))"

section \<open>Status\<close>

record admission_status =
  as_initialized :: bool
  as_provider_id :: string
  as_policy_revision :: int
  as_policy_digest :: string
  as_scope :: string
  as_deployment_mode :: "deployment_mode option"
  as_deployment_digest :: "string option"
  as_effective_target :: int
  as_candidate_target :: int
  as_hard_max :: int
  as_per_project_cap :: int
  as_circuit_state :: circuit
  as_last_signal :: "string option"
  as_counts :: "(request_state \<times> nat) list"
  as_lane_counts :: "(lane \<times> nat) list"
  as_project_active_counts :: "(string \<times> int) list"
  as_legacy_count :: nat

definition all_request_states :: "request_state list" where
  "all_request_states =
     [Waiting, Granted, Dispatched, Completed, Cancelled, Reconciliation_Required, Reconciled]"

definition all_lanes :: "lane list" where
  "all_lanes = [Interactive, Routine, Bulk]"

definition live_status :: "(string \<Rightarrow> string) \<Rightarrow> policy \<Rightarrow> state_row \<Rightarrow> runtime_db \<Rightarrow> admission_status" where
  "live_status h p s db =
     (let provider = pl_provider_id p in
      \<lparr>as_initialized = True, as_provider_id = provider, as_policy_revision = pl_revision p,
       as_policy_digest = policy_digest h p, as_scope = pl_uncertain_dispatch_scope p,
       as_deployment_mode = Some (st_deployment_mode s), as_deployment_digest = Some (st_deployment_digest s),
       as_effective_target = st_effective_target s, as_candidate_target = pl_candidate_target p,
       as_hard_max = pl_hard_max p, as_per_project_cap = pl_per_project_cap p,
       as_circuit_state = st_circuit_state s, as_last_signal = st_last_signal s,
       as_counts = map (\<lambda>x. (x, provider_count provider [x] db)) all_request_states,
       as_lane_counts = map (\<lambda>l. (l, count_rows (\<lambda>r. rq_provider_id r = provider
            \<and> rq_state r \<in> {Waiting, Granted, Dispatched} \<and> rq_admission_lane r = l) (db_requests db))) all_lanes,
       as_project_active_counts = map (\<lambda>j. (pj_project_binding_digest j, pj_active_units j))
            (active_projects provider db),
       as_legacy_count = count_rows (\<lambda>b. ba_project_binding_digest b = None \<or> ba_admission_lane b = None
            \<or> ba_provider_admission_policy_digest b = None) (db_batches db)\<rparr>)"

definition status :: "(string \<Rightarrow> string) \<Rightarrow> kernel \<Rightarrow> string \<Rightarrow> runtime_db \<Rightarrow> admission_status result" where
  "status h k provider_id db =
     ebind (chk_identifier provider_id) (\<lambda>provider.
       if provider \<noteq> pl_provider_id (k_policy k) then Inl (Conflict Other_Provider)
       else ebind (validated_state h k db) (\<lambda>s. Inr (live_status h (k_policy k) s db)))"

text \<open>\<open>read_provider_admission_status\<close>: the read-only view of a file that may not exist, may have an
  older schema or no state for the provider. \<open>None\<close> is a missing file; the number is the
  version in \<open>schema_meta\<close>.\<close>

definition uninitialized_status :: "(string \<Rightarrow> string) \<Rightarrow> policy \<Rightarrow> admission_status" where
  "uninitialized_status h p =
     \<lparr>as_initialized = False, as_provider_id = pl_provider_id p, as_policy_revision = pl_revision p,
      as_policy_digest = policy_digest h p, as_scope = pl_uncertain_dispatch_scope p,
      as_deployment_mode = None, as_deployment_digest = None, as_effective_target = pl_effective_target p,
      as_candidate_target = pl_candidate_target p, as_hard_max = pl_hard_max p,
      as_per_project_cap = pl_per_project_cap p, as_circuit_state = Closed, as_last_signal = None,
      as_counts = map (\<lambda>x. (x, 0)) all_request_states, as_lane_counts = map (\<lambda>l. (l, 0)) all_lanes,
      as_project_active_counts = [], as_legacy_count = 0\<rparr>"

definition stored_policy_ok :: "(string \<Rightarrow> string) \<Rightarrow> policy \<Rightarrow> policy_row \<Rightarrow> unit result" where
  "stored_policy_ok h p row =
     (case policy_from_dict (po_body_json row) of
        Inl _ \<Rightarrow> Inl (Conflict Policy_Invalid)
      | Inr stored \<Rightarrow>
          if sha256_body h (po_body_json row) \<noteq> po_body_sha256 row \<or> stored \<noteq> p
             \<or> policy_digest h stored \<noteq> po_policy_digest row
          then Inl (Conflict Policy_Invalid) else Inr ())"

definition related_rows :: "string \<Rightarrow> runtime_db \<Rightarrow> nat" where
  "related_rows provider db =
     count_rows (\<lambda>r. po_provider_id r = provider) (db_policies db)
     + count_rows (\<lambda>r. tr_provider_id r = provider) (db_transitions db)
     + count_rows (\<lambda>r. rq_provider_id r = provider) (db_requests db)
     + count_rows (\<lambda>r. pj_provider_id r = provider) (db_projects db)"

definition current_builtin ::
  "(string \<Rightarrow> string) \<Rightarrow> string \<Rightarrow> state_row \<Rightarrow> policy result" where
  "current_builtin h provider s =
     ebind (builtin_policy_history provider) (\<lambda>history.
       case filter (\<lambda>p. policy_digest h p = st_policy_digest s) history of
         [p] \<Rightarrow> Inr p | _ \<Rightarrow> Inl (Conflict Unknown_Policy))"

definition read_provider_admission_status ::
  "(string \<Rightarrow> string) \<Rightarrow> (int option \<times> runtime_db) option \<Rightarrow> string \<Rightarrow> admission_status result" where
  "read_provider_admission_status h file provider_id =
     ebind (chk_identifier provider_id) (\<lambda>provider.
     ebind (builtin_policy provider) (\<lambda>p.
       case file of
         None \<Rightarrow> Inr (uninitialized_status h p)
       | Some (version, db) \<Rightarrow>
           if (case version of None \<Rightarrow> True | Some v \<Rightarrow> v < 8) then Inr (uninitialized_status h p)
           else if version \<noteq> Some 8 then Inl (Conflict Schema_Unsupported)
           else case find_state provider db of
             None \<Rightarrow>
               if related_rows provider db > 0 then Inl (Conflict State_Missing)
               else Inr (uninitialized_status h p)
           | Some head \<Rightarrow>
               ebind (current_builtin h provider head) (\<lambda>current.
               case lookup_row (\<lambda>r. po_provider_id r = provider \<and> po_revision r = pl_revision current)
                      (db_policies db) of
                 None \<Rightarrow> Inl (Conflict Policy_Missing)
               | Some row \<Rightarrow>
                   ebind (stored_policy_ok h current row) (\<lambda>_.
                   ebind (validated_control_state h current None None db) (\<lambda>s.
                     Inr (live_status h current s db))))))"

text \<open>\<open>ProviderAdmissionKernel.canonical_runtime\<close>: the policy a canonical kernel is opened with,
  from an explicit one, the state on disk, or the current built-in.\<close>

definition canonical_runtime_policy ::
  "(string \<Rightarrow> string) \<Rightarrow> (int option \<times> runtime_db) option \<Rightarrow> policy option \<Rightarrow> string \<Rightarrow> policy result" where
  "canonical_runtime_policy h file explicit provider_id =
     ebind (chk_identifier provider_id) (\<lambda>provider.
     ebind (case explicit of Some p \<Rightarrow> Inr p | None \<Rightarrow> builtin_policy provider) (\<lambda>selected.
       if explicit \<noteq> None \<and> pl_provider_id selected \<noteq> provider then Inl (ValueError Bad_Choice)
       else case (explicit, file) of
         (None, Some (Some v, db)) \<Rightarrow>
           if v < 8 then Inr selected
           else (case find_state provider db of
               None \<Rightarrow> Inr selected
             | Some head \<Rightarrow> current_builtin h provider head)
       | _ \<Rightarrow> Inr selected))"

end
