(* ===== verification/AdmissionSteps.thy ===== *)
theory AdmissionSteps
  imports AdmissionOutcome
begin

text \<open>
  The admission store as a step system. \<open>micro\<close> is the relation of its atomic changes: a
  request moves along an edge of its life cycle, releases a unit of capacity, is granted one;
  a receipt is appended to the control chain. Every operation of the kernel, on every branch,
  commits a sequence of such changes (\<open>*_micro\<close>), so an invariant is proved once per
  change and holds for all operations.
\<close>

section \<open>The life cycle of a request\<close>

fun edge :: "request_state \<Rightarrow> request_state \<Rightarrow> bool" where
  "edge Waiting Granted = True"
| "edge Waiting Cancelled = True"
| "edge Granted Dispatched = True"
| "edge Granted Cancelled = True"
| "edge Dispatched Completed = True"
| "edge Dispatched Reconciliation_Required = True"
| "edge Reconciliation_Required Reconciled = True"
| "edge _ _ = False"

definition active :: "request_state \<Rightarrow> bool" where
  "active s \<longleftrightarrow> s \<in> set active_states"

lemma active_simps [simp]:
  "active Granted" "active Dispatched" "active Reconciliation_Required"
  "\<not> active Waiting" "\<not> active Completed" "\<not> active Cancelled" "\<not> active Reconciled"
  by (simp_all add: active_def active_states_def)

text \<open>A row update that only moves the state (and the timestamps and evidence of its end).\<close>

definition moves_to :: "(request_row \<Rightarrow> request_row) \<Rightarrow> request_state \<Rightarrow> bool" where
  "moves_to f s \<longleftrightarrow>
     (\<forall>r. rq_request_id (f r) = rq_request_id r \<and> rq_provider_id (f r) = rq_provider_id r
        \<and> rq_project_binding_digest (f r) = rq_project_binding_digest r
        \<and> rq_admission_lane (f r) = rq_admission_lane r \<and> rq_run_id (f r) = rq_run_id r
        \<and> rq_authority_digest (f r) = rq_authority_digest r \<and> rq_authority_epoch (f r) = rq_authority_epoch r
        \<and> rq_task_digest (f r) = rq_task_digest r \<and> rq_member_digest (f r) = rq_member_digest r
        \<and> rq_provider_tier_binding_digest (f r) = rq_provider_tier_binding_digest r
        \<and> rq_policy_digest (f r) = rq_policy_digest r \<and> rq_capacity_unit (f r) = rq_capacity_unit r
        \<and> rq_fencing_token (f r) = rq_fencing_token r \<and> rq_requested_at (f r) = rq_requested_at r
        \<and> rq_granted_at (f r) = rq_granted_at r \<and> rq_expires_at (f r) = rq_expires_at r
        \<and> rq_state (f r) = s)"

definition set_row :: "string \<Rightarrow> (request_row \<Rightarrow> request_row) \<Rightarrow> runtime_db \<Rightarrow> runtime_db" where
  "set_row rid f db = db\<lparr>db_requests := update_rows (\<lambda>r. rq_request_id r = rid) f (db_requests db)\<rparr>"

definition grant_db ::
  "state_row \<Rightarrow> string \<Rightarrow> string \<Rightarrow> lane \<Rightarrow> string \<Rightarrow> int \<Rightarrow> runtime_db \<Rightarrow> runtime_db" where
  "grant_db s provider project admission_lane rid now db =
     set_row rid (\<lambda>r. r\<lparr>rq_state := Granted, rq_fencing_token := Some (db_fencing_counter db + 1),
                        rq_granted_at := Some now\<rparr>)
       (record_grant provider admission_lane (st_grant_sequence s + 1) now
         (increment_project provider project (st_grant_sequence s + 1) now (bump_fencing db)))"

text \<open>The units of a provider and of a project in use.\<close>

definition in_use :: "string \<Rightarrow> runtime_db \<Rightarrow> nat" where
  "in_use provider db = count_rows (\<lambda>r. rq_provider_id r = provider \<and> active (rq_state r)) (db_requests db)"

definition project_use :: "string \<Rightarrow> string \<Rightarrow> runtime_db \<Rightarrow> nat" where
  "project_use provider project db =
     count_rows (\<lambda>r. rq_provider_id r = provider \<and> rq_project_binding_digest r = project
        \<and> active (rq_state r)) (db_requests db)"

definition capacity_of :: "state_row \<Rightarrow> int" where
  "capacity_of s = (if st_circuit_state s = Half_Open then 1 else st_effective_target s)"

text \<open>A one-use authority that was spent: its row is there, and revoked.\<close>

definition consumed_authority :: "string option \<Rightarrow> runtime_db \<Rightarrow> bool" where
  "consumed_authority digest db \<longleftrightarrow>
     (\<exists>a \<in> set (db_authorities db). Some (au_body_sha256 a) = digest \<and> au_revoked_at a \<noteq> None)"

inductive micro :: "(string \<Rightarrow> string) \<Rightarrow> policy set \<Rightarrow> runtime_db \<Rightarrow> runtime_db \<Rightarrow> bool"
  for h :: "string \<Rightarrow> string" and P :: "policy set" where
  enqueue:
    "rq_state r = Waiting \<Longrightarrow> rq_capacity_unit r = 1 \<Longrightarrow> rq_fencing_token r = None \<Longrightarrow>
     find_request (rq_request_id r) db = None \<Longrightarrow> rq_run_id r \<notin> rq_run_id ` set (db_requests db) \<Longrightarrow>
     find_state (rq_provider_id r) db \<noteq> None \<Longrightarrow>
     p \<in> P \<Longrightarrow> rq_provider_id r = pl_provider_id p \<Longrightarrow> rq_policy_digest r = policy_digest h p \<Longrightarrow>
     micro h P db (db\<lparr>db_requests := db_requests db @ [r]\<rparr>)"
| move:
    "find_request rid db = Some row \<Longrightarrow> edge (rq_state row) s' \<Longrightarrow> active (rq_state row) = active s' \<Longrightarrow>
     moves_to f s' \<Longrightarrow> micro h P db (set_row rid f db)"
| release:
    "find_request rid db = Some row \<Longrightarrow> edge (rq_state row) s' \<Longrightarrow> active (rq_state row) \<Longrightarrow> \<not> active s' \<Longrightarrow>
     moves_to f s' \<Longrightarrow> decrement_project row now db = Inr db1 \<Longrightarrow> micro h P db (set_row rid f db1)"
| grant:
    "find_request rid db = Some row \<Longrightarrow> rq_state row = Waiting \<Longrightarrow> find_state (rq_provider_id row) db = Some s \<Longrightarrow>
     p \<in> P \<Longrightarrow> st_policy_digest s = policy_digest h p \<Longrightarrow>
     int (in_use (rq_provider_id row) db) + 1 \<le> capacity_of s \<Longrightarrow>
     int (project_use (rq_provider_id row) (rq_project_binding_digest row) db) + 1 \<le> pl_per_project_cap p \<Longrightarrow>
     micro h P db (grant_db s (rq_provider_id row) (rq_project_binding_digest row) (rq_admission_lane row) rid now db)"
| circuit_step:
    "append_control_transition e k (k_policy k) (Some s) c now db = Inr (s', db') \<Longrightarrow> sha e = h \<Longrightarrow> k_policy k \<in> P \<Longrightarrow>
     find_state (pl_provider_id (k_policy k)) db = Some s \<Longrightarrow> st_policy_digest s = policy_digest h (k_policy k) \<Longrightarrow>
     cc_target c = st_effective_target s \<Longrightarrow> cc_circuit c \<noteq> Half_Open \<Longrightarrow>
     (st_circuit_state s = Open \<Longrightarrow> cc_circuit c = Open) \<Longrightarrow> micro h P db db'"
| retarget:
    "append_control_transition e k p (Some s) c now db = Inr (s', db') \<Longrightarrow> sha e = h \<Longrightarrow> p \<in> P \<Longrightarrow>
     find_state (pl_provider_id p) db = Some s \<Longrightarrow>
     int (in_use (pl_provider_id p) db) \<le> (if cc_circuit c = Half_Open then 0 else cc_target c) \<Longrightarrow>
     (\<And>project. int (project_use (pl_provider_id p) project db) \<le> pl_per_project_cap p) \<Longrightarrow>
     consumed_authority (cc_authority c) db \<Longrightarrow> micro h P db db'"
| genesis:
    "append_control_transition e k (k_policy k) None (genesis_change (k_policy k)) now db = Inr (s', db') \<Longrightarrow>
     sha e = h \<Longrightarrow> k_policy k \<in> P \<Longrightarrow> find_state (pl_provider_id (k_policy k)) db = None \<Longrightarrow> micro h P db db'"
| policy_row:
    "ensure_policy_row h why p now db = Inr db' \<Longrightarrow> micro h P db db'"
| consume:
    "consume_activation_authority r now db = Inr db' \<Longrightarrow> micro h P db db'"

text \<open>The keys every table lookup relies on.\<close>

definition keys_ok :: "runtime_db \<Rightarrow> bool" where
  "keys_ok db \<longleftrightarrow> distinct (map rq_request_id (db_requests db)) \<and> distinct (map st_provider_id (db_states db))
     \<and> (\<forall>r \<in> set (db_requests db). rq_capacity_unit r = 1)"

section \<open>The effect of the sub-procedures\<close>

lemma validated_control_state_Inr:
  assumes "validated_control_state h p m d db = Inr s"
  shows "find_state (pl_provider_id p) db = Some s" "st_policy_digest s = policy_digest h p"
    "1 \<le> st_effective_target s" "st_effective_target s \<le> pl_hard_max p"
    "st_circuit_state s = Half_Open \<longleftrightarrow> st_half_open_probe s \<noteq> None"
  using assms unfolding validated_control_state_def
  by (auto simp: Let_def split: option.splits if_splits)

lemma validated_state_Inr:
  assumes "validated_state h k db = Inr s"
  shows "find_state (pl_provider_id (k_policy k)) db = Some s"
    "st_policy_digest s = policy_digest h (k_policy k)"
    "1 \<le> st_effective_target s" "st_effective_target s \<le> pl_hard_max (k_policy k)"
    "st_circuit_state s = Half_Open \<longleftrightarrow> st_half_open_probe s \<noteq> None"
  using validated_control_state_Inr [OF assms [unfolded validated_state_def]] by auto

lemma find_state_provider: "find_state x db = Some s \<Longrightarrow> st_provider_id s = x \<and> s \<in> set (db_states db)"
  unfolding find_state_def by (drule lookup_row_Some) simp

lemma find_request_Some: "find_request x db = Some r \<Longrightarrow> rq_request_id r = x \<and> r \<in> set (db_requests db)"
  unfolding find_request_def by (drule lookup_row_Some) simp

lemma find_request_in:
  "distinct (map rq_request_id (db_requests db)) \<Longrightarrow> r \<in> set (db_requests db) \<Longrightarrow> find_request (rq_request_id r) db = Some r"
  unfolding find_request_def by (rule lookup_row_unique) auto

definition current :: "string \<Rightarrow> state_row \<Rightarrow> runtime_db \<Rightarrow> bool" where
  "current provider s db \<longleftrightarrow>
     (\<exists>s0. find_state provider db = Some s0 \<and> (s0 = s \<or> st_control_revision s0 > st_control_revision s))"

lemma receipt_fields [simp]:
  "tr_provider_id (receipt e k p n d c now) = pl_provider_id p"
  "tr_control_revision (receipt e k p n d c now) = n"
  "tr_prior_control_digest (receipt e k p n d c now) = d"
  "tr_transition_kind (receipt e k p n d c now) = cc_kind c"
  "tr_transition_id (receipt e k p n d c now) = uid e n"
  by (simp_all add: receipt_def Let_def)

lemma insert_transition_Inr:
  "insert_transition t db = Inr db' \<longleftrightarrow> db' = db\<lparr>db_transitions := db_transitions db @ [t]\<rparr>
     \<and> (\<forall>r \<in> set (db_transitions db). tr_transition_id r \<noteq> tr_transition_id t \<and> tr_body_sha256 r \<noteq> tr_body_sha256 t
          \<and> \<not> (tr_provider_id r = tr_provider_id t \<and> tr_control_revision r = tr_control_revision t))"
  by (auto simp: insert_transition_def list_ex_iff)

lemma check_change_Inr:
  "check_change p c = Inr u \<Longrightarrow> (cc_circuit c = Half_Open) = (cc_probe c \<noteq> None) \<and> 1 \<le> cc_target c \<and> cc_target c \<le> pl_hard_max p"
  by (auto simp: check_change_def result_simps split: if_splits option.splits)

lemma append_Some_Inr:
  assumes "append_control_transition e k p (Some s) c now db = Inr (s', db')"
  defines "t \<equiv> receipt e k p (st_control_revision s + 1) (st_control_digest s) c now"
  shows "insert_transition t db = Inr (db\<lparr>db_transitions := db_transitions db @ [t]\<rparr>)"
    and "count_rows (same_projection p s) (db_states db) = 1"
    and "db' = db\<lparr>db_transitions := db_transitions db @ [t],
           db_states := update_rows (same_projection p s)
             (control_update e k p c (st_control_revision s + 1) (tr_body_sha256 t) now) (db_states db)\<rparr>"
    and "validated_control_state (sha e) p (Some (k_mode k))
           (Some (deployment_binding_digest (sha e) (k_path k) (k_mode k) p)) db' = Inr s'"
    and "check_change p c = Inr ()"
proof -
  from assms(1) obtain db1 db2 where
    c: "check_change p c = Inr ()" and i: "insert_transition t db = Inr db1"
    and w: "write_projection e k p (Some s) c (st_control_revision s + 1) (tr_body_sha256 t) now db1 = Inr db2"
    and v: "validated_control_state (sha e) p (Some (k_mode k))
           (Some (deployment_binding_digest (sha e) (k_path k) (k_mode k) p)) db2 = Inr s'" and d: "db' = db2"
    unfolding append_control_transition_def t_def
    by (auto simp: result_simps Let_def)
  show "check_change p c = Inr ()" by (rule c)
  have d1: "db1 = db\<lparr>db_transitions := db_transitions db @ [t]\<rparr>" using i by (simp add: insert_transition_Inr)
  with i show "insert_transition t db = Inr (db\<lparr>db_transitions := db_transitions db @ [t]\<rparr>)" by simp
  from w d1 show "count_rows (same_projection p s) (db_states db) = 1"
    by (simp add: write_projection_def split: if_splits)
  from w d1 d show "db' = db\<lparr>db_transitions := db_transitions db @ [t],
           db_states := update_rows (same_projection p s)
             (control_update e k p c (st_control_revision s + 1) (tr_body_sha256 t) now) (db_states db)\<rparr>"
    by (simp add: write_projection_def split: if_splits)
  from v d show "validated_control_state (sha e) p (Some (k_mode k))
           (Some (deployment_binding_digest (sha e) (k_path k) (k_mode k) p)) db' = Inr s'" by simp
qed

lemma append_None_Inr:
  assumes "append_control_transition e k p None c now db = Inr (s', db')"
  defines "t \<equiv> receipt e k p 1 zero_digest c now"
  shows "insert_transition t db = Inr (db\<lparr>db_transitions := db_transitions db @ [t]\<rparr>)"
    and "find_state (pl_provider_id (k_policy k)) db = None"
    and "db' = db\<lparr>db_transitions := db_transitions db @ [t],
           db_states := db_states db @ [first_state e k p c 1 (tr_body_sha256 t) now]\<rparr>"
    and "validated_control_state (sha e) p (Some (k_mode k))
           (Some (deployment_binding_digest (sha e) (k_path k) (k_mode k) p)) db' = Inr s'"
    and "check_change p c = Inr ()"
proof -
  from assms(1) obtain db1 db2 where
    c: "check_change p c = Inr ()" and i: "insert_transition t db = Inr db1"
    and w: "write_projection e k p None c 1 (tr_body_sha256 t) now db1 = Inr db2"
    and v: "validated_control_state (sha e) p (Some (k_mode k))
           (Some (deployment_binding_digest (sha e) (k_path k) (k_mode k) p)) db2 = Inr s'" and d: "db' = db2"
    unfolding append_control_transition_def t_def
    by (auto simp: result_simps Let_def)
  show "check_change p c = Inr ()" by (rule c)
  have d1: "db1 = db\<lparr>db_transitions := db_transitions db @ [t]\<rparr>" using i by (simp add: insert_transition_Inr)
  with i show "insert_transition t db = Inr (db\<lparr>db_transitions := db_transitions db @ [t]\<rparr>)" by simp
  from w d1 show "find_state (pl_provider_id (k_policy k)) db = None"
    by (simp add: write_projection_def find_state_def split: if_splits)
  from w d1 d show "db' = db\<lparr>db_transitions := db_transitions db @ [t],
           db_states := db_states db @ [first_state e k p c 1 (tr_body_sha256 t) now]\<rparr>"
    by (simp add: write_projection_def split: if_splits)
  from v d show "validated_control_state (sha e) p (Some (k_mode k))
           (Some (deployment_binding_digest (sha e) (k_path k) (k_mode k) p)) db' = Inr s'" by simp
qed

text \<open>Only the current state can be advanced, and the state it becomes.\<close>

lemma same_projection_current:
  assumes "distinct (map st_provider_id (db_states db))" and "current (pl_provider_id p) s db"
    and "count_rows (same_projection p s) (db_states db) = 1"
  shows "find_state (pl_provider_id p) db = Some s"
proof -
  from assms(3) have "\<not> (\<forall>r \<in> set (db_states db). \<not> same_projection p s r)"
    unfolding count_rows_0 [symmetric] by simp
  then obtain r where r: "r \<in> set (db_states db)" "same_projection p s r" by blast
  with assms(1) have "find_state (pl_provider_id p) db = Some r"
    unfolding find_state_def by (intro lookup_row_unique) (auto simp: same_projection_def)
  with assms(2) r(2) show ?thesis by (auto simp: current_def same_projection_def)
qed

lemma update_projection:
  assumes "distinct (map st_provider_id (db_states db))" and "find_state (pl_provider_id p) db = Some s"
  shows "update_rows (same_projection p s) f (db_states db)
       = update_rows (\<lambda>r. st_provider_id r = pl_provider_id p) f (db_states db)"
proof -
  have "same_projection p s r = (st_provider_id r = pl_provider_id p)" if "r \<in> set (db_states db)" for r
  proof -
    have "st_provider_id r = pl_provider_id p \<Longrightarrow> r = s"
      using assms(2) lookup_row_iff [OF assms(1), of "pl_provider_id p" r] that by (simp add: find_state_def)
    then show ?thesis using find_state_provider [OF assms(2)] by (auto simp: same_projection_def)
  qed
  then show ?thesis by (simp add: update_rows_def)
qed

lemma append_step:
  assumes "append_control_transition e k p (Some s) c now db = Inr (s', db')"
    and "distinct (map st_provider_id (db_states db))" and "current (pl_provider_id p) s db"
  defines "t \<equiv> receipt e k p (st_control_revision s + 1) (st_control_digest s) c now"
  shows "find_state (pl_provider_id p) db = Some s"
    and "db' = db\<lparr>db_transitions := db_transitions db @ [t],
           db_states := update_rows (\<lambda>r. st_provider_id r = pl_provider_id p)
             (control_update e k p c (st_control_revision s + 1) (tr_body_sha256 t) now) (db_states db)\<rparr>"
    and "s' = control_update e k p c (st_control_revision s + 1) (tr_body_sha256 t) now s"
    and "find_state (pl_provider_id p) db' = Some s'"
proof -
  note a = append_Some_Inr [OF assms(1)]
  show f: "find_state (pl_provider_id p) db = Some s"
    by (rule same_projection_current [OF assms(2,3) a(2)])
  show d: "db' = db\<lparr>db_transitions := db_transitions db @ [t],
           db_states := update_rows (\<lambda>r. st_provider_id r = pl_provider_id p)
             (control_update e k p c (st_control_revision s + 1) (tr_body_sha256 t) now) (db_states db)\<rparr>"
    using a(3) by (simp add: update_projection [OF assms(2) f] t_def)
  from validated_control_state_Inr(1) [OF a(4)] show s': "find_state (pl_provider_id p) db' = Some s'" .
  have "find_state (pl_provider_id p) db' = map_option
      (control_update e k p c (st_control_revision s + 1) (tr_body_sha256 t) now) (find_state (pl_provider_id p) db)"
    by (simp add: d find_state_def control_update_def lookup_update_rows_same)
  with f s' show "s' = control_update e k p c (st_control_revision s + 1) (tr_body_sha256 t) now s" by simp
qed

text \<open>What each change leaves alone.\<close>

lemma decrement_Inr:
  "decrement_project row now db = Inr db1 \<Longrightarrow>
     \<exists>ps. db1 = db\<lparr>db_projects := ps\<rparr>"
  unfolding decrement_project_def by (auto simp: Let_def split: if_splits)

lemma increment_db: "\<exists>ps. increment_project a b n now db = db\<lparr>db_projects := ps\<rparr>"
  unfolding increment_project_def Let_def by auto

lemma ensure_policy_row_db: "ensure_policy_row h why p now db = Inr db' \<Longrightarrow> \<exists>ps. db' = db\<lparr>db_policies := ps\<rparr>"
proof -
  have same: "\<exists>ps. d = d\<lparr>db_policies := ps\<rparr>" for d :: runtime_db
    by (rule exI [of _ "db_policies d"]) simp
  assume "ensure_policy_row h why p now db = Inr db'"
  then show ?thesis
    unfolding ensure_policy_row_def by (auto simp: Let_def split: option.splits if_splits intro: same)
qed

lemma consume_db: "consume_activation_authority r now db = Inr db' \<Longrightarrow> \<exists>as. db' = db\<lparr>db_authorities := as\<rparr>"
  unfolding consume_activation_authority_def by (auto simp: Let_def split: if_splits)

lemma map_id_set_row: "moves_to f s' \<Longrightarrow> map rq_request_id (update_rows Q f rs) = map rq_request_id rs"
  by (rule map_update_rows) (simp add: moves_to_def)

lemma map_unit_set_row: "moves_to f s' \<Longrightarrow> map rq_capacity_unit (update_rows Q f rs) = map rq_capacity_unit rs"
  by (rule map_update_rows) (simp add: moves_to_def)

lemma units_map: "(\<forall>r \<in> set rs. rq_capacity_unit r = 1) \<longleftrightarrow> (\<forall>n \<in> set (map rq_capacity_unit rs). n = 1)"
  by simp

lemma keys_ok_maps:
  assumes "map rq_request_id (db_requests db') = map rq_request_id (db_requests db)"
    and "map st_provider_id (db_states db') = map st_provider_id (db_states db)"
    and "map rq_capacity_unit (db_requests db') = map rq_capacity_unit (db_requests db)"
  shows "keys_ok db' = keys_ok db"
  unfolding keys_ok_def units_map assms ..

lemma update_request_set_row:
  assumes "distinct (map rq_request_id (db_requests db))" "find_request rid db = Some row" "rq_state row = x"
  shows "update_request rid x f db = set_row rid f db"
proof -
  have "(rq_request_id r = rid \<and> rq_state r = x) = (rq_request_id r = rid)" if "r \<in> set (db_requests db)" for r
    using find_request_in [OF assms(1) that] assms(2,3) by auto
  then show ?thesis by (simp add: update_request_def set_row_def update_rows_def)
qed

lemma grant_db_fields:
  "map rq_request_id (db_requests (grant_db s a b l rid now db)) = map rq_request_id (db_requests db)"
  "map st_provider_id (db_states (grant_db s a b l rid now db)) = map st_provider_id (db_states db)"
  "map rq_capacity_unit (db_requests (grant_db s a b l rid now db)) = map rq_capacity_unit (db_requests db)"
proof -
  obtain ps where ps: "increment_project a b (st_grant_sequence s + 1) now (bump_fencing db)
      = (bump_fencing db)\<lparr>db_projects := ps\<rparr>" using increment_db by blast
  show "map rq_request_id (db_requests (grant_db s a b l rid now db)) = map rq_request_id (db_requests db)"
    "map st_provider_id (db_states (grant_db s a b l rid now db)) = map st_provider_id (db_states db)"
    "map rq_capacity_unit (db_requests (grant_db s a b l rid now db)) = map rq_capacity_unit (db_requests db)"
    by (simp_all add: grant_db_def set_row_def record_grant_def ps map_update_rows)
qed

lemma map_control_update:
  "map st_provider_id (update_rows Q (control_update e k p c n d now) rs) = map st_provider_id rs"
  by (rule map_update_rows) (simp add: control_update_def)

lemma find_state_None_keys:
  "find_state x db = None \<Longrightarrow> x \<notin> set (map st_provider_id (db_states db))"
  by (auto simp: find_state_def lookup_row_None)

lemma micro_keys: "micro h P db db' \<Longrightarrow> keys_ok db \<Longrightarrow> keys_ok db'"
proof (induction rule: micro.induct)
  case (enqueue r db)
  then show ?case by (auto simp: keys_ok_def find_request_def lookup_row_None)
next
  case (move rid db row s' f)
  then have "keys_ok (set_row rid f db) = keys_ok db"
    by (intro keys_ok_maps) (simp_all add: set_row_def map_id_set_row map_unit_set_row)
  with move show ?case by blast
next
  case (release rid db row s' f now db1)
  then have "keys_ok (set_row rid f db1) = keys_ok db"
    by (intro keys_ok_maps) (auto simp: set_row_def map_id_set_row map_unit_set_row dest: decrement_Inr)
  with release show ?case by blast
next
  case (grant rid db row s p now)
  have "keys_ok (grant_db s (rq_provider_id row) (rq_project_binding_digest row) (rq_admission_lane row) rid now db)
      = keys_ok db"
    by (rule keys_ok_maps) (rule grant_db_fields)+
  with grant show ?case by blast
next
  case (circuit_step e k s c now db s' db')
  then show ?case
    by (simp add: keys_ok_def append_Some_Inr(3) [OF circuit_step(1)] map_control_update)
next
  case (retarget e k p s c now db s' db')
  then show ?case
    by (simp add: keys_ok_def append_Some_Inr(3) [OF retarget(1)] map_control_update)
next
  case (genesis e k now db s' db')
  then show ?case
    using find_state_None_keys [OF append_None_Inr(2) [OF genesis(1)]]
    by (simp add: keys_ok_def append_None_Inr(3) [OF genesis(1)] first_state_def)
next
  case (policy_row why p now db db')
  then show ?case by (auto simp: keys_ok_def dest!: ensure_policy_row_db)
next
  case (consume r now db db')
  then show ?case by (auto simp: keys_ok_def dest!: consume_db)
qed

lemma micros_keys: "(micro h P)\<^sup>*\<^sup>* db db' \<Longrightarrow> keys_ok db \<Longrightarrow> keys_ok db'"
  by (induction rule: rtranclp_induct) (auto dest: micro_keys)

section \<open>Operations are sequences of changes\<close>

text \<open>What an operation of the kernel \<open>k\<close> needs of its environment.\<close>

definition served :: "(string \<Rightarrow> string) \<Rightarrow> policy set \<Rightarrow> env \<Rightarrow> kernel \<Rightarrow> bool" where
  "served h P e k \<longleftrightarrow> sha e = h \<and> k_policy k \<in> P"

definition held :: "(string \<Rightarrow> string) \<Rightarrow> kernel \<Rightarrow> state_row \<Rightarrow> runtime_db \<Rightarrow> bool" where
  "held h k s db \<longleftrightarrow> current (pl_provider_id (k_policy k)) s db \<and> st_policy_digest s = policy_digest h (k_policy k)"

lemma held_validated: "validated_state h k db = Inr s \<Longrightarrow> held h k s db"
  using validated_state_Inr [of h k db s] by (auto simp: held_def current_def)

lemma append_micro:
  assumes "append_control_transition e k (k_policy k) (Some s) c now db = Inr (s', db')"
    and "keys_ok db" "held h k s db" "served h P e k"
    and "cc_target c = st_effective_target s" "cc_circuit c \<noteq> Half_Open"
    and "st_circuit_state s = Open \<Longrightarrow> cc_circuit c = Open"
  shows "micro h P db db'" "held h k s db'" "db_requests db' = db_requests db" "db_projects db' = db_projects db"
proof -
  have k: "distinct (map st_provider_id (db_states db))" "current (pl_provider_id (k_policy k)) s db"
    using assms(2,3) by (simp_all add: keys_ok_def held_def)
  note a = append_step [OF assms(1) k]
  show "micro h P db db'"
    by (rule micro.circuit_step [OF assms(1)]) (use assms a(1) in \<open>auto simp: served_def held_def\<close>)
  show "held h k s db'"
    using assms(3) a(3,4) by (auto simp: held_def current_def control_update_def)
  show "db_requests db' = db_requests db" "db_projects db' = db_projects db"
    by (simp_all add: a(2))
qed

lemma find_state_requests [simp]:
  "find_state x (db\<lparr>db_requests := rs\<rparr>) = find_state x db"
  "find_state x (db\<lparr>db_projects := ps\<rparr>) = find_state x db"
  "find_state x (db\<lparr>db_authorities := as\<rparr>) = find_state x db"
  "find_state x (db\<lparr>db_policies := pols\<rparr>) = find_state x db"
  "find_state x (set_row rid f db) = find_state x db"
  "find_state x (bump_fencing db) = find_state x db"
  by (simp_all add: find_state_def set_row_def)

lemma held_requests [simp]:
  "held h k s (db\<lparr>db_requests := rs\<rparr>) = held h k s db"
  "held h k s (db\<lparr>db_projects := ps\<rparr>) = held h k s db"
  "held h k s (set_row rid f db) = held h k s db"
  by (simp_all add: held_def current_def)

lemma cancel_granted_row_micro:
  assumes "cancel_granted_row e k row s now reason db = Inr db'"
    and "keys_ok db" "held h k s db" "served h P e k" "row \<in> set (db_requests db)"
  shows "(micro h P)\<^sup>*\<^sup>* db db'" "held h k s db'"
    "\<exists>f. moves_to f Cancelled \<and> db_requests db' = db_requests (set_row (rq_request_id row) f db)"
proof -
  let ?f = "\<lambda>r :: request_row. r\<lparr>rq_state := Cancelled, rq_terminal_at := Some now\<rparr>"
  have mv: "moves_to ?f Cancelled" by (simp add: moves_to_def)
  have fr: "find_request (rq_request_id row) db = Some row"
    using assms(2,5) by (intro find_request_in) (auto simp: keys_ok_def)
  from assms(1) obtain db1 where st: "rq_state row = Granted" and d: "decrement_project row now db = Inr db1"
    and rest: "(if st_circuit_state s = Half_Open
       then ebind (append_control_transition e k (k_policy k) (Some s)
              (circuit_change ''half_open_cancelled'' s Open reason (rq_request_id row) None) now
              (update_request (rq_request_id row) Granted ?f db1)) (\<lambda>(_, db3). Inr db3)
       else Inr (update_request (rq_request_id row) Granted ?f db1)) = Inr db'"
    unfolding cancel_granted_row_def by (auto simp: result_simps Let_def split: if_splits)
  from decrement_Inr [OF d] obtain ps where ps: "db1 = db\<lparr>db_projects := ps\<rparr>" by blast
  have fr1: "find_request (rq_request_id row) db1 = Some row" using fr by (simp add: ps find_request_def)
  have u: "update_request (rq_request_id row) Granted ?f db1 = set_row (rq_request_id row) ?f db1"
    by (rule update_request_set_row [OF _ fr1 st]) (use assms(2) in \<open>simp add: ps keys_ok_def\<close>)
  let ?db2 = "set_row (rq_request_id row) ?f db1"
  have m: "micro h P db ?db2"
    by (rule micro.release [OF fr _ _ _ mv d]) (simp_all add: st)
  have h2: "held h k s ?db2" using assms(3) by (simp add: ps)
  have r2: "db_requests ?db2 = db_requests (set_row (rq_request_id row) ?f db)" by (simp add: ps set_row_def)
  have k2: "keys_ok ?db2" using micro_keys [OF m assms(2)] .
  consider (append) s' where "append_control_transition e k (k_policy k) (Some s)
       (circuit_change ''half_open_cancelled'' s Open reason (rq_request_id row) None) now ?db2 = Inr (s', db')"
    | (plain) "db' = ?db2"
    using rest unfolding u by (auto simp: result_simps split: if_splits)
  then have "(micro h P)\<^sup>*\<^sup>* db db' \<and> held h k s db' \<and> db_requests db' = db_requests ?db2"
  proof cases
    case append
    note a = append_micro [OF append k2 h2 assms(4)]
    have "cc_circuit (circuit_change ''half_open_cancelled'' s Open reason (rq_request_id row) None) = Open"
      by (simp add: circuit_change_def)
    have "micro h P ?db2 db'" "held h k s db'" "db_requests db' = db_requests ?db2"
      by (rule a; simp add: circuit_change_def)+
    with m show ?thesis by (meson rtranclp.rtrancl_into_rtrancl r_into_rtranclp)
  next
    case plain
    with m h2 show ?thesis by auto
  qed
  with mv r2 show "(micro h P)\<^sup>*\<^sup>* db db'" "held h k s db'"
    "\<exists>f. moves_to f Cancelled \<and> db_requests db' = db_requests (set_row (rq_request_id row) f db)"
    by auto
qed

definition others_kept :: "string \<Rightarrow> runtime_db \<Rightarrow> runtime_db \<Rightarrow> bool" where
  "others_kept rid db db' \<longleftrightarrow>
     (\<forall>r \<in> set (db_requests db). rq_request_id r \<noteq> rid \<longrightarrow> r \<in> set (db_requests db'))"

lemma others_kept_set_row: "db_requests db' = db_requests (set_row rid f db) \<Longrightarrow> others_kept rid db db'"
  unfolding others_kept_def set_row_def by (auto simp: set_update_rows)

lemma others_kept_refl [simp]: "others_kept rid db db"
  by (simp add: others_kept_def)

lemma expire_row_micro:
  assumes "expire_row e k s now row (db, first) = Inr (db', first')"
    and "keys_ok db" "held h k s db" "served h P e k" "row \<in> set (db_requests db)"
    and "rq_state row \<in> {Waiting, Granted, Dispatched}"
  shows "(micro h P)\<^sup>*\<^sup>* db db' \<and> held h k s db' \<and> others_kept (rq_request_id row) db db'"
proof -
  have d: "distinct (map rq_request_id (db_requests db))" using assms(2) by (simp add: keys_ok_def)
  have fr: "find_request (rq_request_id row) db = Some row"
    using d assms(5) by (rule find_request_in)
  have move: ?thesis if m: "moves_to f x" "edge (rq_state row) x" "active (rq_state row) = active x"
    and e: "db' = update_request (rq_request_id row) (rq_state row) f db" for f x
  proof -
    have u: "db' = set_row (rq_request_id row) f db"
      unfolding e by (rule update_request_set_row [OF d fr refl])
    have "micro h P db db'" unfolding u by (rule micro.move [OF fr m(2,3,1)])
    moreover have "held h k s db'" using assms(3) by (simp add: u)
    moreover have "others_kept (rq_request_id row) db db'" by (rule others_kept_set_row) (simp add: u)
    ultimately show ?thesis by blast
  qed
  consider "rq_expires_at row > now" | "rq_expires_at row \<le> now" "rq_state row = Waiting"
    | "rq_expires_at row \<le> now" "rq_state row = Granted" | "rq_expires_at row \<le> now" "rq_state row = Dispatched"
    using assms(6) by fastforce
  then show ?thesis
  proof cases
    case 1
    then have "db' = db" using assms(1) by simp
    with assms(3) show ?thesis by simp
  next
    case 2
    show ?thesis
      by (rule move [of "\<lambda>r. r\<lparr>rq_state := Cancelled, rq_terminal_at := Some now\<rparr>" Cancelled])
        (use 2 assms(1) in \<open>simp_all add: moves_to_def\<close>)
  next
    case 3
    then have "cancel_granted_row e k row s now ''half_open_probe_expired'' db = Inr db'"
      using assms(1) by (auto simp: result_simps)
    from cancel_granted_row_micro [OF this assms(2-5)] show ?thesis
      by (auto intro: others_kept_set_row)
  next
    case 4
    show ?thesis
      by (rule move [of "\<lambda>r. r\<lparr>rq_state := Reconciliation_Required, rq_terminal_at := Some now\<rparr>" Reconciliation_Required])
        (use 4 assms(1) in \<open>simp_all add: moves_to_def\<close>)
  qed
qed

lemma expire_rows_micro:
  assumes "expire_rows e k s now rows (db, first) = Inr (db', first')"
    and "keys_ok db" "held h k s db" "served h P e k"
    and "distinct (map rq_request_id rows)"
    and "\<forall>row \<in> set rows. row \<in> set (db_requests db) \<and> rq_state row \<in> {Waiting, Granted, Dispatched}"
  shows "(micro h P)\<^sup>*\<^sup>* db db' \<and> held h k s db'"
  using assms
proof (induction rows arbitrary: db first)
  case (Cons row rows)
  from Cons.prems(1) obtain db1 first1 where
    r: "expire_row e k s now row (db, first) = Inr (db1, first1)"
    and rs: "expire_rows e k s now rows (db1, first1) = Inr (db', first')"
    by (auto simp: result_simps)
  have s: "(micro h P)\<^sup>*\<^sup>* db db1 \<and> held h k s db1 \<and> others_kept (rq_request_id row) db db1"
    using expire_row_micro [OF r Cons.prems(2-4)] Cons.prems(6) by simp
  have "\<forall>x \<in> set rows. x \<in> set (db_requests db1) \<and> rq_state x \<in> {Waiting, Granted, Dispatched}"
  proof
    fix x assume x: "x \<in> set rows"
    with Cons.prems(5) have "rq_request_id x \<noteq> rq_request_id row" by (auto simp: image_iff)
    with x Cons.prems(6) s show "x \<in> set (db_requests db1) \<and> rq_state x \<in> {Waiting, Granted, Dispatched}"
      by (simp add: others_kept_def)
  qed
  then have "(micro h P)\<^sup>*\<^sup>* db1 db' \<and> held h k s db'"
    using Cons.IH [OF rs] micros_keys [of h P db db1] s Cons.prems(2,4,5) by simp
  with s show ?case by auto
qed simp

lemma expire_micro:
  assumes "expire e k now db = Inr db'" and "keys_ok db" "served h P e k"
  shows "(micro h P)\<^sup>*\<^sup>* db db'"
proof -
  let ?rows = "filter (\<lambda>r. rq_provider_id r = pl_provider_id (k_policy k)
                  \<and> rq_state r \<in> {Waiting, Granted, Dispatched}) (db_requests db)"
  have sh: "sha e = h" using assms(3) by (simp add: served_def)
  from assms(1) obtain s acc where v: "validated_state h k db = Inr s"
    and ra: "expire_rows e k s now ?rows (db, None) = Inr acc"
    and la: "(case acc of (db1, first) \<Rightarrow> case first of None \<Rightarrow> Inr db1 | Some rid \<Rightarrow>
             (let isolated = (pl_uncertain_dispatch_scope (k_policy k) = ''capacity_reservation''
                    \<and> st_circuit_state s = Closed);
                  kind = (if isolated then ''dispatch_expired_isolated'' else ''permit_expired'')
              in ebind (append_control_transition e k (k_policy k) (Some s)
                    (circuit_change kind s (if isolated then Closed else Open) kind rid None) now db1)
                  (\<lambda>(_, db2). Inr db2))) = Inr db'"
    unfolding expire_def sh ebind_Inr_iff by blast
  obtain db1 first where acc: "acc = (db1, first)" by (cases acc)
  note r = ra [unfolded acc]
  have last: "(case first of None \<Rightarrow> Inr db1 | Some rid \<Rightarrow>
             (let isolated = (pl_uncertain_dispatch_scope (k_policy k) = ''capacity_reservation''
                    \<and> st_circuit_state s = Closed);
                  kind = (if isolated then ''dispatch_expired_isolated'' else ''permit_expired'')
              in ebind (append_control_transition e k (k_policy k) (Some s)
                    (circuit_change kind s (if isolated then Closed else Open) kind rid None) now db1)
                  (\<lambda>(_, db2). Inr db2))) = Inr db'"
    using la by (simp add: acc)
  have "distinct (map rq_request_id ?rows)"
    using assms(2) by (simp add: keys_ok_def distinct_map_filter)
  moreover have "\<forall>row \<in> set ?rows. row \<in> set (db_requests db) \<and> rq_state row \<in> {Waiting, Granted, Dispatched}"
    by simp
  ultimately have "(micro h P)\<^sup>*\<^sup>* db db1 \<and> held h k s db1"
    by (rule expire_rows_micro [OF r assms(2) held_validated [OF v] assms(3)])
  then have s: "(micro h P)\<^sup>*\<^sup>* db db1" "held h k s db1" by blast+
  show ?thesis
  proof (cases first)
    case None
    with last s show ?thesis by simp
  next
    case (Some rid)
    define isolated where "isolated \<longleftrightarrow> pl_uncertain_dispatch_scope (k_policy k) = ''capacity_reservation''
        \<and> st_circuit_state s = Closed"
    define kind where "kind = (if isolated then ''dispatch_expired_isolated'' else ''permit_expired'')"
    define nxt where "nxt = (if isolated then Closed else Open)"
    have n: "nxt \<noteq> Half_Open" by (simp add: nxt_def)
    from last Some obtain s' where
      a: "append_control_transition e k (k_policy k) (Some s) (circuit_change kind s nxt kind rid None) now db1
          = Inr (s', db')"
      unfolding Let_def isolated_def [symmetric] kind_def [symmetric] nxt_def [symmetric]
      by (auto simp: ebind_Inr_iff)
    have "micro h P db1 db'"
      by (rule append_micro [OF a micros_keys [OF s(1) assms(2)] s(2) assms(3)])
        (simp_all add: circuit_change_def n, simp add: nxt_def isolated_def)
    with s(1) show ?thesis by simp
  qed
qed

end
