(* ===== verification/AdmissionCapacity.thy ===== *)
theory AdmissionCapacity
  imports AdmissionSteps
begin

text \<open>
  Capacity accounting of the admission store: the units recorded per project are the rows that
  hold capacity, and no provider or project exceeds its limit. Both are invariants of the
  atomic changes.
\<close>

section \<open>Counting rows that hold capacity\<close>

lemma project_use_set_row:
  assumes "distinct (map rq_request_id (db_requests db))" "find_request rid db = Some row"
    "rq_provider_id (f row) = rq_provider_id row" "rq_project_binding_digest (f row) = rq_project_binding_digest row"
  shows "project_use a b (set_row rid f db)
      + (if rq_provider_id row = a \<and> rq_project_binding_digest row = b \<and> active (rq_state row) then 1 else 0)
    = project_use a b db
      + (if rq_provider_id row = a \<and> rq_project_binding_digest row = b \<and> active (rq_state (f row)) then 1 else 0)"
  using count_rows_update_key [OF assms(1), of row rid
      "\<lambda>r. rq_provider_id r = a \<and> rq_project_binding_digest r = b \<and> active (rq_state r)" f]
    find_request_Some [OF assms(2)] assms(3,4)
  by (simp add: project_use_def set_row_def)

lemma in_use_set_row:
  assumes "distinct (map rq_request_id (db_requests db))" "find_request rid db = Some row"
    "rq_provider_id (f row) = rq_provider_id row"
  shows "in_use a (set_row rid f db) + (if rq_provider_id row = a \<and> active (rq_state row) then 1 else 0)
    = in_use a db + (if rq_provider_id row = a \<and> active (rq_state (f row)) then 1 else 0)"
  using count_rows_update_key [OF assms(1), of row rid "\<lambda>r. rq_provider_id r = a \<and> active (rq_state r)" f]
    find_request_Some [OF assms(2)] assms(3)
  by (simp add: in_use_def set_row_def)

lemma use_requests:
  "db_requests db' = db_requests db \<Longrightarrow> project_use a b db' = project_use a b db"
  "db_requests db' = db_requests db \<Longrightarrow> in_use a db' = in_use a db"
  by (simp_all add: project_use_def in_use_def)

lemma find_request_cong: "db_requests db' = db_requests db \<Longrightarrow> find_request x db' = find_request x db"
  by (simp add: find_request_def)

lemma project_use_le_in_use: "project_use a b db \<le> in_use a db"
  unfolding project_use_def in_use_def by (rule count_rows_le) simp

section \<open>The project table\<close>

definition pj_key :: "project_row \<Rightarrow> string \<times> string" where
  "pj_key j = (pj_provider_id j, pj_project_binding_digest j)"

definition units :: "string \<Rightarrow> string \<Rightarrow> runtime_db \<Rightarrow> int" where
  "units a b db = (case lookup_row (\<lambda>j. pj_key j = (a, b)) (db_projects db) of None \<Rightarrow> 0 | Some j \<Rightarrow> pj_active_units j)"

definition units_ok :: "runtime_db \<Rightarrow> bool" where
  "units_ok db \<longleftrightarrow> distinct (map pj_key (db_projects db)) \<and> (\<forall>a b. units a b db = int (project_use a b db))"

lemma units_cong: "db_projects db' = db_projects db \<Longrightarrow> units a b db' = units a b db"
  by (simp add: units_def)

lemma units_update:
  assumes "distinct (map pj_key ps)" "db_projects db = ps" "db_projects db' = update_rows (\<lambda>j. pj_key j = K) f ps"
    "\<And>j. pj_key (f j) = pj_key j" "\<And>j. pj_active_units (f j) = pj_active_units j + d" "K \<in> pj_key ` set ps"
  shows "units a b db' = units a b db + (if (a, b) = K then d else 0)"
    and "distinct (map pj_key (db_projects db'))"
proof -
  show "distinct (map pj_key (db_projects db'))"
    using assms(1) by (simp add: assms(3,4) map_update_rows)
  show "units a b db' = units a b db + (if (a, b) = K then d else 0)"
  proof (cases "(a, b) = K")
    case True
    have "lookup_row (\<lambda>j. pj_key j = K) ps \<noteq> None"
      using assms(6) by (auto simp: lookup_row_None)
    then show ?thesis
      unfolding units_def assms(2,3) True
      by (subst lookup_update_rows_same) (auto simp: assms(4,5))
  next
    case False
    then have "lookup_row (\<lambda>j. pj_key j = (a, b)) (update_rows (\<lambda>j. pj_key j = K) f ps)
        = lookup_row (\<lambda>j. pj_key j = (a, b)) ps"
      by (intro lookup_update_rows_other) (auto simp: assms(4))
    with False show ?thesis by (simp add: units_def assms(2,3))
  qed
qed

definition row_key :: "request_row \<Rightarrow> string \<times> string" where
  "row_key r = (rq_provider_id r, rq_project_binding_digest r)"

lemma decrement_units:
  assumes "decrement_project row now db = Inr db1" "distinct (map pj_key (db_projects db))"
  shows "units a b db1 = units a b db - (if (a, b) = row_key row then 1 else 0)"
    and "distinct (map pj_key (db_projects db1))"
proof -
  let ?f = "\<lambda>p :: project_row. p\<lparr>pj_active_units := pj_active_units p - 1, pj_updated_at := now\<rparr>"
  let ?sel = "\<lambda>p :: project_row. pj_provider_id p = rq_provider_id row
             \<and> pj_project_binding_digest p = rq_project_binding_digest row \<and> pj_active_units p \<ge> 1"
  from assms(1) have c: "count_rows ?sel (db_projects db) = 1" and p: "db_projects db1 = update_rows ?sel ?f (db_projects db)"
    unfolding decrement_project_def Let_def by (auto split: if_splits)
  from c have "\<not> (\<forall>r \<in> set (db_projects db). \<not> ?sel r)"
    unfolding count_rows_0 [symmetric] by simp
  then obtain j where j: "j \<in> set (db_projects db)" "?sel j" by blast
  then have jk: "pj_key j = row_key row" by (simp add: pj_key_def row_key_def)
  have "?sel r = (pj_key r = row_key row)" if "r \<in> set (db_projects db)" for r
  proof
    assume "pj_key r = row_key row"
    then have "r = j" using key_unique [OF assms(2) that j(1)] jk by simp
    with j(2) show "?sel r" by simp
  qed (simp add: pj_key_def row_key_def)
  then have u: "db_projects db1 = update_rows (\<lambda>r. pj_key r = row_key row) ?f (db_projects db)"
    unfolding p update_rows_def by (intro map_cong) auto
  have "row_key row \<in> pj_key ` set (db_projects db)" using j(1) jk by (metis imageI)
  from units_update [OF assms(2) refl u _ _ this, of "-1"]
  show "units a b db1 = units a b db - (if (a, b) = row_key row then 1 else 0)"
    "distinct (map pj_key (db_projects db1))"
    by (auto simp: pj_key_def)
qed

lemma increment_units:
  assumes "distinct (map pj_key (db_projects db))"
  shows "units x y (increment_project a b n now db) = units x y db + (if (x, y) = (a, b) then 1 else 0)"
    and "distinct (map pj_key (db_projects (increment_project a b n now db)))"
proof -
  let ?f = "\<lambda>p :: project_row. p\<lparr>pj_active_units := pj_active_units p + 1, pj_last_grant_sequence := n, pj_updated_at := now\<rparr>"
  let ?db = "increment_project a b n now db"
  let ?new = "\<lparr>pj_provider_id = a, pj_project_binding_digest = b, pj_active_units = 1,
               pj_last_grant_sequence = n, pj_updated_at = now\<rparr> :: project_row"
  have sel: "(\<lambda>p. pj_provider_id p = a \<and> pj_project_binding_digest p = b) = (\<lambda>p. pj_key p = (a, b))"
    by (simp add: pj_key_def)
  have "units x y ?db = units x y db + (if (x, y) = (a, b) then 1 else 0) \<and> distinct (map pj_key (db_projects ?db))"
  proof (cases "(a, b) \<in> pj_key ` set (db_projects db)")
    case True
    then have "list_ex (\<lambda>p. pj_key p = (a, b)) (db_projects db)" by (force simp: list_ex_iff)
    then have u: "db_projects ?db = update_rows (\<lambda>p. pj_key p = (a, b)) ?f (db_projects db)"
      by (simp add: increment_project_def Let_def sel)
    show ?thesis using units_update [OF assms refl u _ _ True, of 1] by (auto simp: pj_key_def)
  next
    case False
    then have no: "\<not> list_ex (\<lambda>p. pj_key p = (a, b)) (db_projects db)" by (force simp: list_ex_iff)
    then have u: "db_projects ?db = db_projects db @ [?new]"
      by (simp add: increment_project_def Let_def sel)
    have "lookup_row (\<lambda>p. pj_key p = (a, b)) (db_projects db) = None"
      using False by (force simp: lookup_row_None)
    then have "units x y ?db = units x y db + (if (x, y) = (a, b) then 1 else 0)"
      by (auto simp: units_def u lookup_row_append pj_key_def split: option.splits)
    moreover have "distinct (map pj_key (db_projects ?db))"
      using assms False by (simp add: u pj_key_def)
    ultimately show ?thesis by blast
  qed
  then show "units x y ?db = units x y db + (if (x, y) = (a, b) then 1 else 0)"
    "distinct (map pj_key (db_projects ?db))" by blast+
qed

lemma units_ok_cong:
  assumes "units_ok db" "db_projects db' = db_projects db" "\<And>a b. project_use a b db' = project_use a b db"
  shows "units_ok db'"
  using assms by (simp add: units_ok_def units_def)

lemma grant_db_parts:
  "db_requests (grant_db s a b l rid now db)
     = db_requests (set_row rid (\<lambda>r. r\<lparr>rq_state := Granted, rq_fencing_token := Some (db_fencing_counter db + 1),
                        rq_granted_at := Some now\<rparr>) db)"
  "db_projects (grant_db s a b l rid now db)
     = db_projects (increment_project a b (st_grant_sequence s + 1) now db)"
  "db_states (grant_db s a b l rid now db)
     = db_states (record_grant a l (st_grant_sequence s + 1) now db)"
  "db_fencing_counter (grant_db s a b l rid now db) = db_fencing_counter db + 1"
  "db_transitions (grant_db s a b l rid now db) = db_transitions db"
  "db_policies (grant_db s a b l rid now db) = db_policies db"
  "db_authorities (grant_db s a b l rid now db) = db_authorities db"
  "db_epoch (grant_db s a b l rid now db) = db_epoch db"
  by (simp_all add: grant_db_def set_row_def record_grant_def increment_project_def bump_fencing_def Let_def)

lemma moves_toD:
  "moves_to f s \<Longrightarrow> rq_provider_id (f r) = rq_provider_id r"
  "moves_to f s \<Longrightarrow> rq_project_binding_digest (f r) = rq_project_binding_digest r"
  "moves_to f s \<Longrightarrow> rq_state (f r) = s"
  "moves_to f s \<Longrightarrow> rq_request_id (f r) = rq_request_id r"
  by (simp_all add: moves_to_def)

lemma use_move:
  assumes "keys_ok db" "find_request rid db = Some row" "moves_to f s'" "active (rq_state row) = active s'"
  shows "project_use a b (set_row rid f db) = project_use a b db" "in_use a (set_row rid f db) = in_use a db"
proof -
  have d: "distinct (map rq_request_id (db_requests db))" using assms(1) by (simp add: keys_ok_def)
  show "project_use a b (set_row rid f db) = project_use a b db"
    using project_use_set_row [OF d assms(2), of f a b] assms(3,4) by (auto simp: moves_toD split: if_splits)
  show "in_use a (set_row rid f db) = in_use a db"
    using in_use_set_row [OF d assms(2), of f a] assms(3,4) by (auto simp: moves_toD split: if_splits)
qed

lemma use_release:
  assumes "keys_ok db" "find_request rid db = Some row" "moves_to f s'" "active (rq_state row)" "\<not> active s'"
  shows "int (project_use a b (set_row rid f db)) = int (project_use a b db) - (if (a, b) = row_key row then 1 else 0)"
    "int (in_use a (set_row rid f db)) = int (in_use a db) - (if a = rq_provider_id row then 1 else 0)"
proof -
  have d: "distinct (map rq_request_id (db_requests db))" using assms(1) by (simp add: keys_ok_def)
  show "int (project_use a b (set_row rid f db)) = int (project_use a b db) - (if (a, b) = row_key row then 1 else 0)"
    using project_use_set_row [OF d assms(2), of f a b] assms(3-5)
    by (auto simp: moves_toD row_key_def split: if_splits)
  show "int (in_use a (set_row rid f db)) = int (in_use a db) - (if a = rq_provider_id row then 1 else 0)"
    using in_use_set_row [OF d assms(2), of f a] assms(3-5) by (auto simp: moves_toD split: if_splits)
qed

lemma use_grant:
  assumes "keys_ok db" "find_request rid db = Some row" "rq_state row = Waiting"
  shows "int (project_use x y (grant_db s a b l rid now db)) = int (project_use x y db) + (if (x, y) = row_key row then 1 else 0)"
    "int (in_use x (grant_db s a b l rid now db)) = int (in_use x db) + (if x = rq_provider_id row then 1 else 0)"
proof -
  let ?f = "\<lambda>r :: request_row. r\<lparr>rq_state := Granted, rq_fencing_token := Some (db_fencing_counter db + 1), rq_granted_at := Some now\<rparr>"
  have d: "distinct (map rq_request_id (db_requests db))" using assms(1) by (simp add: keys_ok_def)
  show "int (project_use x y (grant_db s a b l rid now db)) = int (project_use x y db) + (if (x, y) = row_key row then 1 else 0)"
    unfolding use_requests(1) [OF grant_db_parts(1)] using project_use_set_row [OF d assms(2), of ?f x y] assms(3)
    by (auto simp: row_key_def split: if_splits)
  show "int (in_use x (grant_db s a b l rid now db)) = int (in_use x db) + (if x = rq_provider_id row then 1 else 0)"
    unfolding use_requests(2) [OF grant_db_parts(1)] using in_use_set_row [OF d assms(2), of ?f x] assms(3)
    by (auto split: if_splits)
qed

lemma use_enqueue:
  "rq_state r = Waiting \<Longrightarrow> project_use a b (db\<lparr>db_requests := db_requests db @ [r]\<rparr>) = project_use a b db"
  "rq_state r = Waiting \<Longrightarrow> in_use a (db\<lparr>db_requests := db_requests db @ [r]\<rparr>) = in_use a db"
  by (simp_all add: project_use_def in_use_def)

lemma micro_units: "micro h P db db' \<Longrightarrow> keys_ok db \<Longrightarrow> units_ok db \<Longrightarrow> units_ok db'"
proof (induction rule: micro.induct)
  case (enqueue r db)
  show ?case by (rule units_ok_cong [OF enqueue.prems(2)]) (simp_all add: use_enqueue enqueue(1))
next
  case (move rid db row s' f)
  note u = use_move(1) [OF move.prems(1) move(1,4,3)]
  show ?case by (rule units_ok_cong [OF move.prems(2) _ u]) (simp add: set_row_def)
next
  case (release rid db row s' f now db1)
  obtain ps where ps: "db1 = db\<lparr>db_projects := ps\<rparr>" using decrement_Inr [OF release(6)] by blast
  have q: "db_requests (set_row rid f db1) = db_requests (set_row rid f db)"
    and u: "db_projects (set_row rid f db1) = db_projects db1"
    by (simp_all add: ps set_row_def)
  show ?case
    using decrement_units [OF release(6)] release.prems use_release [OF release.prems(1) release(1,5,3,4)]
    by (simp add: units_ok_def units_cong [OF u] u use_requests [OF q])
next
  case (grant rid db row s p now)
  show ?case
    unfolding units_ok_def units_cong [OF grant_db_parts(2)] grant_db_parts(2)
    using increment_units [of db] use_grant [OF grant.prems(1) grant(1,2)] grant.prems(2)
    by (auto simp: units_ok_def row_key_def)
next
  case (circuit_step e k s c now db s' db')
  note a = append_Some_Inr(3) [OF circuit_step(1)]
  have r: "db_requests db' = db_requests db" "db_projects db' = db_projects db" by (simp_all add: a)
  show ?case by (rule units_ok_cong [OF circuit_step.prems(2) r(2) use_requests(1) [OF r(1)]])
next
  case (retarget e k p s c now db s' db')
  note a = append_Some_Inr(3) [OF retarget(1)]
  have r: "db_requests db' = db_requests db" "db_projects db' = db_projects db" by (simp_all add: a)
  show ?case by (rule units_ok_cong [OF retarget.prems(2) r(2) use_requests(1) [OF r(1)]])
next
  case (genesis e k now db s' db')
  note a = append_None_Inr(3) [OF genesis(1)]
  have r: "db_requests db' = db_requests db" "db_projects db' = db_projects db" by (simp_all add: a)
  show ?case by (rule units_ok_cong [OF genesis.prems(2) r(2) use_requests(1) [OF r(1)]])
next
  case (policy_row why p now db db')
  obtain ps where ps: "db' = db\<lparr>db_policies := ps\<rparr>" using ensure_policy_row_db [OF policy_row(1)] by blast
  have r: "db_requests db' = db_requests db" "db_projects db' = db_projects db" by (simp_all add: ps)
  show ?case by (rule units_ok_cong [OF policy_row.prems(2) r(2) use_requests(1) [OF r(1)]])
next
  case (consume r now db db')
  obtain as where as: "db' = db\<lparr>db_authorities := as\<rparr>" using consume_db [OF consume(1)] by blast
  have r: "db_requests db' = db_requests db" "db_projects db' = db_projects db" by (simp_all add: as)
  show ?case by (rule units_ok_cong [OF consume.prems(2) r(2) use_requests(1) [OF r(1)]])
qed

section \<open>The capacity invariant\<close>

text \<open>The limits of one control state: its policy is one of \<open>P\<close>, its target is within the policy's
  hard maximum, the provider uses no more than the target (one unit while half-open) and no
  project more than the per-project cap.\<close>

definition within_limits :: "(string \<Rightarrow> string) \<Rightarrow> policy set \<Rightarrow> runtime_db \<Rightarrow> state_row \<Rightarrow> bool" where
  "within_limits h P db s \<longleftrightarrow>
     (\<exists>p \<in> P. pl_provider_id p = st_provider_id s \<and> st_policy_digest s = policy_digest h p
        \<and> 1 \<le> st_effective_target s \<and> st_effective_target s \<le> pl_hard_max p
        \<and> int (in_use (st_provider_id s) db) \<le> capacity_of s
        \<and> (\<forall>b. int (project_use (st_provider_id s) b db) \<le> pl_per_project_cap p))"

definition capacity_inv :: "(string \<Rightarrow> string) \<Rightarrow> policy set \<Rightarrow> runtime_db \<Rightarrow> bool" where
  "capacity_inv h P db \<longleftrightarrow> keys_ok db \<and> units_ok db
     \<and> (\<forall>x s. find_state x db = Some s \<longrightarrow> within_limits h P db s)
     \<and> (\<forall>r \<in> set (db_requests db). find_state (rq_provider_id r) db \<noteq> None)"

text \<open>The policies in use: valid, and told apart by their digests.\<close>

definition policies_ok :: "(string \<Rightarrow> string) \<Rightarrow> policy set \<Rightarrow> bool" where
  "policies_ok h P \<longleftrightarrow> (\<forall>p \<in> P. policy_ok p) \<and> inj_on (policy_digest h) P"

lemma within_limits_mono:
  assumes "within_limits h P db s" "\<And>b. project_use (st_provider_id s) b db' \<le> project_use (st_provider_id s) b db"
    "in_use (st_provider_id s) db' \<le> in_use (st_provider_id s) db"
  shows "within_limits h P db' s"
  using assms unfolding within_limits_def by (meson of_nat_mono order_trans)

lemma capacity_inv_requests:
  assumes "capacity_inv h P db" "keys_ok db'" "units_ok db'" "\<And>x. find_state x db' = find_state x db"
    "\<And>a b. project_use a b db' \<le> project_use a b db" "\<And>a. in_use a db' \<le> in_use a db"
    "rq_provider_id ` set (db_requests db') \<subseteq> rq_provider_id ` set (db_requests db)"
  shows "capacity_inv h P db'"
proof -
  have "\<forall>r \<in> set (db_requests db'). find_state (rq_provider_id r) db' \<noteq> None"
  proof
    fix r assume "r \<in> set (db_requests db')"
    with assms(7) have "rq_provider_id r \<in> rq_provider_id ` set (db_requests db)" by blast
    then obtain q where "q \<in> set (db_requests db)" "rq_provider_id r = rq_provider_id q" by blast
    then show "find_state (rq_provider_id r) db' \<noteq> None"
      using assms(1) by (simp add: assms(4) capacity_inv_def)
  qed
  moreover have "\<forall>x s. find_state x db' = Some s \<longrightarrow> within_limits h P db' s"
  proof (intro allI impI)
    fix x s assume "find_state x db' = Some s"
    then have "within_limits h P db s" using assms(1) by (simp add: assms(4) capacity_inv_def)
    then show "within_limits h P db' s" by (rule within_limits_mono) (rule assms(5), rule assms(6))
  qed
  ultimately show ?thesis using assms(2,3) by (simp add: capacity_inv_def)
qed

lemma set_row_providers:
  "moves_to f s' \<Longrightarrow> rq_provider_id ` set (db_requests (set_row rid f db)) = rq_provider_id ` set (db_requests db)"
  using map_update_rows [of "\<lambda>r. rq_request_id r = rid" rq_provider_id f "db_requests db"]
  by (simp add: set_row_def moves_toD flip: set_map)

text \<open>After a control change of provider \<open>x\<close>: its new state, the others as before.\<close>

lemma find_state_control:
  assumes "db_states db' = update_rows (\<lambda>r. st_provider_id r = x) f (db_states db)"
    "\<And>r. st_provider_id (f r) = st_provider_id r"
  shows "find_state y db' = (if y = x then map_option f (find_state y db) else find_state y db)"
proof (cases "y = x")
  case True
  then show ?thesis by (simp add: find_state_def assms lookup_update_rows_same)
next
  case False
  then show ?thesis by (simp add: find_state_def assms lookup_update_rows_other)
qed

lemma capacity_inv_state:
  assumes "capacity_inv h P db" "keys_ok db'" "units_ok db'" "db_requests db' = db_requests db"
    "\<And>y. y \<noteq> x \<Longrightarrow> find_state y db' = find_state y db" "find_state x db' = Some s'"
    "within_limits h P db s'"
  shows "capacity_inv h P db'"
proof -
  have w: "within_limits h P db' s = within_limits h P db s" for s
    by (simp add: within_limits_def use_requests [OF assms(4)])
  have "\<forall>y s. find_state y db' = Some s \<longrightarrow> within_limits h P db' s"
  proof (intro allI impI)
    fix y s assume s: "find_state y db' = Some s"
    show "within_limits h P db' s"
    proof (cases "y = x")
      case True
      with s assms(6,7) show ?thesis by (simp add: w)
    next
      case False
      with s assms(1,5) show ?thesis by (simp add: capacity_inv_def w)
    qed
  qed
  moreover have "\<forall>r \<in> set (db_requests db'). find_state (rq_provider_id r) db' \<noteq> None"
  proof
    fix r assume "r \<in> set (db_requests db')"
    then have "find_state (rq_provider_id r) db \<noteq> None" using assms(1,4) by (simp add: capacity_inv_def)
    then show "find_state (rq_provider_id r) db' \<noteq> None"
      using assms(5,6) by (cases "rq_provider_id r = x") auto
  qed
  ultimately show ?thesis using assms(2,3) by (simp add: capacity_inv_def)
qed

lemma append_state:
  assumes "append_control_transition e k p (Some s) c now db = Inr (s', db')"
    and "keys_ok db" "find_state (pl_provider_id p) db = Some s"
  shows "find_state y db' = (if y = pl_provider_id p then Some s' else find_state y db)"
    and "st_provider_id s' = pl_provider_id p" "st_policy_digest s' = policy_digest (sha e) p"
    and "st_effective_target s' = cc_target c" "st_circuit_state s' = cc_circuit c"
    and "1 \<le> cc_target c" "cc_target c \<le> pl_hard_max p"
    and "db_requests db' = db_requests db" "db_projects db' = db_projects db"
proof -
  have c: "distinct (map st_provider_id (db_states db))" "current (pl_provider_id p) s db"
    using assms(2,3) by (simp_all add: keys_ok_def current_def)
  note a = append_step [OF assms(1) c]
  show "find_state y db' = (if y = pl_provider_id p then Some s' else find_state y db)"
  proof -
    define f where "f = control_update e k p c (st_control_revision s + 1)
      (tr_body_sha256 (receipt e k p (st_control_revision s + 1) (st_control_digest s) c now)) now"
    have "db_states db' = update_rows (\<lambda>r. st_provider_id r = pl_provider_id p) f (db_states db)"
      by (simp add: a(2) f_def)
    then have "find_state y db' = (if y = pl_provider_id p then map_option f (find_state y db) else find_state y db)"
      by (rule find_state_control) (simp add: f_def control_update_def)
    then show ?thesis using a(1,3) by (cases "y = pl_provider_id p") (simp_all add: f_def)
  qed
  show "st_provider_id s' = pl_provider_id p" "st_policy_digest s' = policy_digest (sha e) p"
    "st_effective_target s' = cc_target c" "st_circuit_state s' = cc_circuit c"
    using find_state_provider [OF a(1)] by (simp_all add: a(3) control_update_def)
  show "1 \<le> cc_target c" "cc_target c \<le> pl_hard_max p"
    using check_change_Inr [OF append_Some_Inr(5) [OF assms(1)]] by auto
  show "db_requests db' = db_requests db" "db_projects db' = db_projects db" by (simp_all add: a(2))
qed

lemma capacity_of_target: "1 \<le> st_effective_target s \<Longrightarrow> capacity_of s \<le> st_effective_target s"
  by (simp add: capacity_of_def)

lemma micro_capacity:
  assumes "micro h P db db'" "policies_ok h P" "capacity_inv h P db"
  shows "capacity_inv h P db'"
proof -
  have ko: "keys_ok db" "units_ok db" using assms(3) by (simp_all add: capacity_inv_def)
  have ko': "keys_ok db'" "units_ok db'"
    using micro_keys [OF assms(1) ko(1)] micro_units [OF assms(1) ko] by auto
  from assms(1) show ?thesis
  proof cases
    case (enqueue r)
    have f: "find_state x db' = find_state x db" for x by (simp add: enqueue(1))
    have w: "within_limits h P db' s = within_limits h P db s" for s
      by (simp add: within_limits_def enqueue(1) use_enqueue [OF enqueue(2)])
    show ?thesis using assms(3) ko' enqueue(7)
      by (simp add: capacity_inv_def w f) (simp add: enqueue(1))
  next
    case (move rid row s' f)
    note u = use_move [OF ko(1) move(2,5,4)]
    show ?thesis
      by (rule capacity_inv_requests [OF assms(3) ko']) (simp_all add: move(1) u set_row_providers [OF move(5)])
  next
    case (release rid row s' f now db1)
    obtain ps where ps: "db1 = db\<lparr>db_projects := ps\<rparr>" using decrement_Inr [OF release(7)] by blast
    have q: "db_requests db' = db_requests (set_row rid f db)" by (simp add: release(1) ps set_row_def)
    note u = use_release [OF ko(1) release(2,6,4,5)]
    have "int (project_use a b db') \<le> int (project_use a b db)" "int (in_use a db') \<le> int (in_use a db)" for a b
      unfolding use_requests [OF q] u by simp_all
    then show ?thesis
      by (intro capacity_inv_requests [OF assms(3) ko'])
        (simp_all add: q set_row_providers [OF release(6)], simp add: release(1) ps)
  next
    case (grant rid row s p now)
    let ?x = "rq_provider_id row"
    let ?g = "\<lambda>s :: state_row. s\<lparr>st_grant_sequence := st_grant_sequence s + 1\<rparr>"
    have u: "int (project_use x y db') = int (project_use x y db) + (if (x, y) = row_key row then 1 else 0)"
      "int (in_use x db') = int (in_use x db) + (if x = rq_provider_id row then 1 else 0)" for x y
      unfolding grant(1) by (rule use_grant [OF ko(1) grant(2,3)])+
    define upd where "upd = (\<lambda>r :: state_row. r\<lparr>st_grant_sequence := st_grant_sequence s + 1,
        st_last_granted_lane := Some (rq_admission_lane row), st_updated_at := now\<rparr>)"
    have f: "find_state y db' = (if y = ?x then map_option upd (find_state y db) else find_state y db)" for y
      by (rule find_state_control) (simp_all add: grant(1) grant_db_parts record_grant_def upd_def)
    have row: "row \<in> set (db_requests db)" using find_request_Some [OF grant(2)] by simp
    obtain p' where p': "p' \<in> P" "st_policy_digest s = policy_digest h p'" "within_limits h P db s"
      "pl_provider_id p' = st_provider_id s"
      using assms(3) grant(4) unfolding capacity_inv_def within_limits_def by metis
    have "p' = p" using assms(2) p'(1,2) grant(5,6) by (auto simp: policies_ok_def inj_on_def)
    have sx: "st_provider_id s = ?x" using find_state_provider [OF grant(4)] by simp
    have "within_limits h P db' (upd s)"
      unfolding within_limits_def
    proof (intro bexI [of _ p] conjI allI)
      have w: "1 \<le> st_effective_target s \<and> st_effective_target s \<le> pl_hard_max p
          \<and> (\<forall>b. int (project_use ?x b db) \<le> pl_per_project_cap p)"
        using p'(3) assms(2) grant(5,6) unfolding within_limits_def policies_ok_def sx by (auto simp: inj_on_def)
      show "int (project_use (st_provider_id (upd s)) b db') \<le> pl_per_project_cap p" for b
        using w grant(8) by (auto simp: upd_def sx u row_key_def)
      show "int (in_use (st_provider_id (upd s)) db') \<le> capacity_of (upd s)"
        using grant(7) by (auto simp: upd_def sx u capacity_of_def split: if_splits)
    qed (use p' \<open>p' = p\<close> p'(3) grant(5,6) assms(2) in
        \<open>auto simp: upd_def within_limits_def policies_ok_def inj_on_def\<close>)
    moreover have "within_limits h P db' t" if "find_state y db = Some t" "y \<noteq> ?x" for y t
    proof -
      have y: "st_provider_id t \<noteq> ?x" using find_state_provider [OF that(1)] that(2) by simp
      have "int (project_use (st_provider_id t) b db') = int (project_use (st_provider_id t) b db)"
        "int (in_use (st_provider_id t) db') = int (in_use (st_provider_id t) db)" for b
        using y by (simp_all add: u row_key_def)
      moreover have "within_limits h P db t" using assms(3) that(1) by (simp add: capacity_inv_def)
      ultimately show ?thesis by (simp add: within_limits_def)
    qed
    ultimately have "\<forall>y t. find_state y db' = Some t \<longrightarrow> within_limits h P db' t"
      using grant(4) by (auto simp: f split: if_splits)
    moreover have "rq_provider_id ` set (db_requests db') = rq_provider_id ` set (db_requests db)"
      using map_update_rows [of "\<lambda>r. rq_request_id r = rid" rq_provider_id _ "db_requests db"]
      by (simp add: grant(1) grant_db_parts set_row_def flip: set_map)
    then have "\<forall>r \<in> set (db_requests db'). find_state (rq_provider_id r) db' \<noteq> None"
    proof (intro ballI)
      fix r assume "r \<in> set (db_requests db')"
      with \<open>rq_provider_id ` set (db_requests db') = rq_provider_id ` set (db_requests db)\<close>
      obtain q where "q \<in> set (db_requests db)" "rq_provider_id r = rq_provider_id q" by (metis imageE imageI)
      then have "find_state (rq_provider_id r) db \<noteq> None" using assms(3) by (simp add: capacity_inv_def)
      then show "find_state (rq_provider_id r) db' \<noteq> None"
        by (cases "rq_provider_id r = ?x") (simp_all add: f)
    qed
    ultimately show ?thesis using ko' by (simp add: capacity_inv_def)
  next
    case (circuit_step e k s c now s')
    note a = append_state [OF circuit_step(1) ko(1) circuit_step(4)]
    have "within_limits h P db s" using assms(3) circuit_step(4) by (simp add: capacity_inv_def)
    then obtain p where p: "p \<in> P" "st_policy_digest s = policy_digest h p"
      "int (in_use (st_provider_id s) db) \<le> capacity_of s" "pl_provider_id p = st_provider_id s"
      "\<And>b. int (project_use (st_provider_id s) b db) \<le> pl_per_project_cap p"
      unfolding within_limits_def by blast
    have "p = k_policy k" using assms(2) p(1,2) circuit_step(3,5) by (auto simp: policies_ok_def inj_on_def)
    moreover have "capacity_of s \<le> capacity_of s'"
      using circuit_step(6,7) a(4-6) by (simp add: capacity_of_def)
    ultimately have "within_limits h P db s'"
      unfolding within_limits_def using p(3,5)
      by (intro bexI [of _ p] conjI allI)
        (use p(1,4) a(2-7) circuit_step(2) find_state_provider [OF circuit_step(4)] in simp_all)
    then show ?thesis
      by (intro capacity_inv_state [OF assms(3) ko' a(8), of "pl_provider_id (k_policy k)" s']) (simp_all add: a(1))
  next
    case (retarget e k p s c now s')
    note a = append_state [OF retarget(1) ko(1) retarget(4)]
    have "within_limits h P db s'"
      unfolding within_limits_def using retarget(2,3,5,6) a(2-7)
      by (intro bexI [of _ p]) (auto simp: capacity_of_def split: if_splits)
    then show ?thesis
      by (intro capacity_inv_state [OF assms(3) ko' a(8), of "pl_provider_id p" s']) (simp_all add: a(1))
  next
    case (genesis e k now s')
    note a = append_None_Inr [OF genesis(1)]
    let ?p = "k_policy k"
    have r: "db_requests db' = db_requests db" by (simp add: a(3))
    have f: "find_state y db' = (case find_state y db of None \<Rightarrow>
        (if y = pl_provider_id ?p then Some s' else None) | Some s \<Rightarrow> Some s)" for y
      using validated_control_state_Inr(1) [OF a(4)] a(2)
      by (auto simp: a(3) find_state_def lookup_row_append first_state_def split: option.splits if_splits)
    have s': "st_provider_id s' = pl_provider_id ?p" "st_policy_digest s' = policy_digest h ?p"
      "1 \<le> st_effective_target s'" "st_effective_target s' \<le> pl_hard_max ?p"
      using validated_control_state_Inr [OF a(4)] find_state_provider genesis(2) by auto
    have "rq_provider_id r \<noteq> pl_provider_id ?p" if "r \<in> set (db_requests db)" for r
      using assms(3) that genesis(4) by (auto simp: capacity_inv_def)
    then have z: "in_use (pl_provider_id ?p) db = 0" "project_use (pl_provider_id ?p) b db = 0" for b
      by (auto simp: in_use_def project_use_def count_rows_0)
    have "0 \<le> pl_per_project_cap ?p"
      using assms(2) genesis(3) by (auto simp: policies_ok_def policy_ok_def policy_post_init_def result_simps)
    then have "within_limits h P db s'"
      unfolding within_limits_def using s' genesis(3) z
      by (intro bexI [of _ ?p]) (auto simp: capacity_of_def)
    then show ?thesis
      using genesis(4) by (intro capacity_inv_state [OF assms(3) ko' r, of "pl_provider_id ?p" s'])
        (simp_all add: f split: option.splits)
  next
    case (policy_row why p now)
    obtain ps where ps: "db' = db\<lparr>db_policies := ps\<rparr>" using ensure_policy_row_db [OF policy_row(1)] by blast
    show ?thesis
      by (rule capacity_inv_requests [OF assms(3) ko']) (simp_all add: ps project_use_def in_use_def)
  next
    case (consume r now)
    obtain as where as: "db' = db\<lparr>db_authorities := as\<rparr>" using consume_db [OF consume(1)] by blast
    show ?thesis
      by (rule capacity_inv_requests [OF assms(3) ko']) (simp_all add: as project_use_def in_use_def)
  qed
qed

end
