(* ===== verification/AdmissionOps.thy ===== *)
theory AdmissionOps
  imports AdmissionCapacity
begin

text \<open>
  Every operation of the kernel commits a sequence of atomic changes, whatever it returns.
\<close>

lemma chk_uuid4_same: "chk_uuid4 s = Inr t \<Longrightarrow> t = s"
  by simp

section \<open>Granting\<close>

lemma arg_min_list_in: "xs \<noteq> [] \<Longrightarrow> arg_min_list f xs \<in> set xs"
  by (induction f xs rule: arg_min_list.induct) (auto simp: Let_def)

lemma selected_waiting_eligible:
  assumes "selected_waiting k db = Inr (Some r)"
  shows "r \<in> set (eligible_rows k db)"
proof -
  let ?e = "eligible_rows k db"
  let ?i = "filter (\<lambda>r. rq_admission_lane r = Interactive) ?e"
  let ?n = "filter (\<lambda>r. rq_admission_lane r \<noteq> Interactive) ?e"
  have "?e \<noteq> []" using assms by (auto simp: selected_waiting_def Let_def split: if_splits)
  then have "?i = [] \<Longrightarrow> ?n \<noteq> []" by (cases ?e) (auto simp: filter_empty_conv)
  with assms have "(?i \<noteq> [] \<and> r = arg_min_list (fair_key db) ?i) \<or> (?n \<noteq> [] \<and> r = arg_min_list (fair_key db) ?n)"
    unfolding selected_waiting_def Let_def
    by (cases "find_state (pl_provider_id (k_policy k)) db") (auto split: if_splits)
  then have "r \<in> set ?i \<or> r \<in> set ?n" using arg_min_list_in by blast
  then show ?thesis by auto
qed

lemma eligible_rowsD:
  assumes "r \<in> set (eligible_rows k db)"
  shows "r \<in> set (db_requests db)" "rq_provider_id r = pl_provider_id (k_policy k)" "rq_state r = Waiting"
    "project_active r db + rq_capacity_unit r \<le> pl_per_project_cap (k_policy k)"
  using assms by (auto simp: eligible_rows_def waiting_rows_def)

lemma sum_units:
  "(\<forall>r \<in> set rs. rq_capacity_unit r = 1) \<Longrightarrow> sum_list (map rq_capacity_unit (filter Q rs)) = int (count_rows Q rs)"
  by (induction rs) auto

lemma active_capacity_in_use: "keys_ok db \<Longrightarrow> active_capacity x db = int (in_use x db)"
  unfolding active_capacity_def in_use_def active_def by (intro sum_units) (simp add: keys_ok_def)

lemma project_active_use:
  "keys_ok db \<Longrightarrow> project_active r db = int (project_use (rq_provider_id r) (rq_project_binding_digest r) db)"
  unfolding project_active_def project_use_def active_def by (intro sum_units) (simp add: keys_ok_def)

text \<open>\<open>grant_waiting\<close>: nothing more is committed than the waiting request, or its grant.\<close>

lemma update_request_grant_db:
  assumes "keys_ok db" "find_request rid db = Some row" "rq_state row = Waiting"
  shows "update_request rid Waiting
      (\<lambda>r. r\<lparr>rq_state := Granted, rq_fencing_token := Some (db_fencing_counter db + 1), rq_granted_at := Some now\<rparr>)
      (record_grant a l n now (increment_project a b n now (bump_fencing db)))
    = set_row rid (\<lambda>r. r\<lparr>rq_state := Granted, rq_fencing_token := Some (db_fencing_counter db + 1), rq_granted_at := Some now\<rparr>)
      (record_grant a l n now (increment_project a b n now (bump_fencing db)))"
proof -
  have r: "db_requests (record_grant a l n now (increment_project a b n now (bump_fencing db))) = db_requests db"
    by (simp add: record_grant_def increment_project_def Let_def)
  show ?thesis
    by (rule update_request_set_row [of _ rid row]) (use assms r find_request_cong [OF r] in \<open>simp_all add: keys_ok_def\<close>)
qed

lemma grant_waiting_cases:
  assumes "grant_waiting k s q now old db = (res, db')" "keys_ok db" "served h P e k" "held h k s db"
    and "find_state (pl_provider_id (k_policy k)) db = Some s"
    and "find_request (ar_request_id q) db = Some row" "rq_state row = Waiting"
    and "rq_provider_id row = ar_provider_id q" "rq_project_binding_digest row = ar_project_digest q"
    and "rq_admission_lane row = ar_lane q"
  shows "db' = old \<and> \<not> is_ok res \<or> db' = db \<and> \<not> is_ok res
    \<or> micro h P db db' \<and> db' = grant_db s (rq_provider_id row) (rq_project_binding_digest row) (rq_admission_lane row)
         (ar_request_id q) now db"
proof -
  let ?x = "ar_provider_id q"
  consider (busy) "active_capacity ?x db + 1 > capacity_of s"
    | (err) err where "active_capacity ?x db + 1 \<le> capacity_of s" "selected_waiting k db = Inl err"
    | (none) "active_capacity ?x db + 1 \<le> capacity_of s" "selected_waiting k db = Inr None"
    | (other) r where "active_capacity ?x db + 1 \<le> capacity_of s" "selected_waiting k db = Inr (Some r)"
        "rq_request_id r \<noteq> ar_request_id q"
    | (grant) r where "active_capacity ?x db + 1 \<le> capacity_of s" "selected_waiting k db = Inr (Some r)"
        "rq_request_id r = ar_request_id q"
    by (metis linorder_not_less option.exhaust sum.exhaust)
  then show ?thesis
  proof cases
    case busy
    with assms(1) show ?thesis by (auto simp: grant_waiting_def capacity_of_def)
  next
    case err
    with assms(1) show ?thesis by (auto simp: grant_waiting_def capacity_of_def)
  next
    case none
    with assms(1) show ?thesis by (auto simp: grant_waiting_def capacity_of_def)
  next
    case other
    with assms(1) show ?thesis by (auto simp: grant_waiting_def capacity_of_def)
  next
    case grant
    note el = eligible_rowsD [OF selected_waiting_eligible [OF grant(2)]]
    have "find_request (ar_request_id q) db = Some r"
      using find_request_in [OF _ el(1)] assms(2) grant(3) by (simp add: keys_ok_def)
    with assms(6) have r: "r = row" by simp
    let ?g = "grant_db s (rq_provider_id row) (rq_project_binding_digest row) (rq_admission_lane row) (ar_request_id q) now db"
    have "db' = ?g"
    proof -
      have "\<not> capacity_of s < active_capacity ?x db + 1" using grant(1) by simp
      then show ?thesis
        using assms(1) grant(2,3)
        by (auto simp: grant_waiting_def Let_def update_request_grant_db [OF assms(2,6,7)] grant_db_def assms(8-10)
            simp flip: capacity_of_def split: option.splits)
    qed
    moreover have "micro h P db ?g"
    proof (rule micro.grant [OF assms(6,7)])
      show "find_state (rq_provider_id row) db = Some s" using assms(5) el(2) by (simp add: r)
      show "k_policy k \<in> P" "st_policy_digest s = policy_digest h (k_policy k)"
        using assms(3,4) by (simp_all add: served_def held_def)
      show "int (in_use (rq_provider_id row) db) + 1 \<le> capacity_of s"
        using grant(1) by (simp add: active_capacity_in_use [OF assms(2)] assms(8))
      have "rq_capacity_unit row = 1" using assms(2) el(1) by (simp add: keys_ok_def r)
      then show "int (project_use (rq_provider_id row) (rq_project_binding_digest row) db) + 1
          \<le> pl_per_project_cap (k_policy k)"
        using el(4) by (simp add: project_active_use [OF assms(2)] r)
    qed
    ultimately show ?thesis by blast
  qed
qed

lemma admit_in_transaction_micro:
  assumes "admit_in_transaction e k q ttl now db = (res, db')" "keys_ok db" "served h P e k"
    and "ar_provider_id q = pl_provider_id (k_policy k)"
  shows "(micro h P)\<^sup>*\<^sup>* db db'"
proof -
  have sh: "sha e = h" using assms(3) by (simp add: served_def)
  show ?thesis
  proof (cases "expire e k now db")
    case (Inl err)
    with assms(1) show ?thesis by (simp add: admit_in_transaction_def Let_def)
  next
    case (Inr db1)
    note m1 = expire_micro [OF Inr assms(2,3)]
    note k1 = micros_keys [OF m1 assms(2)]
    show ?thesis
    proof (cases "validated_state h k db1")
      case (Inl err)
      with \<open>expire e k now db = Inr db1\<close> assms(1) show ?thesis
        by (simp add: admit_in_transaction_def Let_def sh)
    next
      case v: (Inr s)
      have hs: "held h k s db1" by (rule held_validated [OF v])
      have fs: "find_state (pl_provider_id (k_policy k)) db1 = Some s" by (rule validated_state_Inr(1) [OF v])
      let ?new = "waiting_row h k q now (now + seconds ttl)"
      let ?db2 = "db1\<lparr>db_requests := db_requests db1 @ [?new]\<rparr>"
      note defs = admit_in_transaction_def Let_def sh Inr v
      consider (early) "db' = db \<or> db' = db1"
        | (old) row where "find_request (ar_request_id q) db1 = Some row"
            "row_matches_request row q (policy_digest h (k_policy k))" "rq_state row = Waiting"
            "grant_waiting k s q now db db1 = (res, db')"
        | (new) "find_request (ar_request_id q) db1 = None" "\<forall>r \<in> set (db_requests db1). rq_run_id r \<noteq> ar_run_id q"
            "grant_waiting k s q now db ?db2 = (res, db')"
        using assms(1) unfolding defs
        by (auto simp: list_ex_iff v split: if_splits option.splits)
      then show ?thesis
      proof cases
        case early
        with m1 show ?thesis by auto
      next
        case old
        from grant_waiting_cases [OF old(4) k1 assms(3) hs fs old(1,3)] old(2) m1 show ?thesis
          by (auto simp: row_matches_request_def)
      next
        case new
        have m2: "micro h P db1 ?db2"
          by (rule micro.enqueue [where p = "k_policy k"])
            (use new fs assms(3,4) in \<open>auto simp: waiting_row_def served_def\<close>)
        have f2: "find_request (ar_request_id q) ?db2 = Some ?new"
          using new(1) by (simp add: find_request_def lookup_row_append waiting_row_def)
        have "db' = db \<or> db' = ?db2 \<or> micro h P ?db2 db'"
          using grant_waiting_cases [OF new(3) micro_keys [OF m2 k1] assms(3) _ _ f2] hs fs
          by (auto simp: waiting_row_def)
        moreover have "(micro h P)\<^sup>*\<^sup>* db ?db2" using m1 m2 by simp
        ultimately show ?thesis by auto
      qed
    qed
  qed
qed

lemma try_admit_micro:
  assumes "try_admit e k q ttl seen db = (res, db')" "keys_ok db" "served h P e k"
  shows "(micro h P)\<^sup>*\<^sup>* db db'"
  using assms admit_in_transaction_micro [OF _ assms(2,3)]
  by (auto simp: try_admit_def split: if_splits sum.splits)

section \<open>Transport, outcome and reconciliation\<close>

text \<open>A row change followed by its receipt.\<close>

lemma row_then_receipt:
  assumes "keys_ok db" "held h k s db" "served h P e k" "find_request rid db = Some row"
    and "edge (rq_state row) s'" "s' \<noteq> Granted" "moves_to f s'"
    and "if active (rq_state row) = active s' then db1 = db else decrement_project row now db = Inr db1"
    and "append_control_transition e k (k_policy k) (Some s) (circuit_change kind s nxt signal x ev) now
           (set_row rid f db1) = Inr (s2, db3)"
    and "st_circuit_state s = Open \<Longrightarrow> nxt = Open"
  shows "(micro h P)\<^sup>*\<^sup>* db db3"
proof -
  have "micro h P db (set_row rid f db1) \<and> held h k s (set_row rid f db1)"
  proof (cases "active (rq_state row) = active s'")
    case True
    then have "db1 = db" using assms(8) by simp
    then show ?thesis using micro.move [OF assms(4,5) True assms(7)] assms(2) by simp
  next
    case False
    then have a: "active (rq_state row)" "\<not> active s'"
      using assms(5,6) by (cases "rq_state row"; cases s'; simp)+
    have d: "decrement_project row now db = Inr db1" using assms(8) False by simp
    then obtain ps where "db1 = db\<lparr>db_projects := ps\<rparr>" using decrement_Inr by blast
    with micro.release [OF assms(4,5) a assms(7) d] assms(2) show ?thesis by simp
  qed
  then have m: "micro h P db (set_row rid f db1)" and hs: "held h k s (set_row rid f db1)" by blast+
  have "nxt \<noteq> Half_Open"
    using check_change_Inr [OF append_Some_Inr(5) [OF assms(9)]] by (simp add: circuit_change_def)
  then have "micro h P (set_row rid f db1) db3"
    by (intro append_micro(1) [OF assms(9) micro_keys [OF m assms(1)] hs assms(3)])
      (simp_all add: circuit_change_def assms(10))
  with m show ?thesis by simp
qed

lemma require_permit_row_Inr:
  "require_permit_row p db = Inr row \<Longrightarrow> find_request (pm_request_id p) db = Some row \<and> permit_matches_row p row"
  by (auto simp: require_permit_row_def split: option.splits if_splits)

lemma finish_Inr:
  assumes "finish e k p oc db = (res, db')" "db' \<noteq> db \<or> is_ok res" "sha e = h"
  obtains s row db1 s2 where "validated_state h k db = Inr s" "check_outcome oc = Inr ()"
    "require_permit_row p db = Inr row" "rq_state row = Dispatched" "res = Inr ()"
    "if ambiguous oc then db1 = db else decrement_project row (clk e 0) db = Inr db1"
    "append_control_transition e k (k_policy k) (Some s)
       (circuit_change (finish_kind (k_policy k) (st_circuit_state s) oc) s
         (finish_circuit (k_policy k) (st_circuit_state s) oc) (finish_signal (k_policy k) (st_circuit_state s) oc)
         (pm_request_id p) (Some (oc_evidence oc))) (clk e 0)
       (set_row (pm_request_id p) (\<lambda>r. r\<lparr>rq_state := finish_request_state oc, rq_terminal_at := Some (clk e 0),
                            rq_terminal_evidence_digest := Some (oc_evidence oc)\<rparr>) db1) = Inr (s2, db')"
proof -
  have i: "(if b then Inl x else y) = Inr z \<longleftrightarrow> \<not> b \<and> y = Inr z" for b and x :: err and y and z :: "unit \<times> runtime_db"
    by simp
  from commit_result_Inr [OF assms(1) [unfolded finish_def]] assms(2)
  show thesis
    unfolding assms(3) ebind_Inr_iff Let_def i set_row_def [symmetric]
    by (elim disjE exE conjE) (auto intro!: that split: if_splits)
qed

lemma finish_circuit_open [simp]: "finish_circuit p Open oc = Open"
  by (simp add: finish_circuit_def isolated_uncertainty_def)

lemma finish_micro:
  assumes "finish e k p oc db = (res, db')" "keys_ok db" "served h P e k"
  shows "(micro h P)\<^sup>*\<^sup>* db db'"
proof (cases "db' = db")
  case False
  have sh: "sha e = h" using assms(3) by (simp add: served_def)
  from finish_Inr [OF assms(1) disjI1 [OF False] sh] obtain s row db1 s2 where
    v: "validated_state h k db = Inr s" and r: "require_permit_row p db = Inr row" "rq_state row = Dispatched"
    and d: "if ambiguous oc then db1 = db else decrement_project row (clk e 0) db = Inr db1"
    and a: "append_control_transition e k (k_policy k) (Some s)
       (circuit_change (finish_kind (k_policy k) (st_circuit_state s) oc) s
         (finish_circuit (k_policy k) (st_circuit_state s) oc) (finish_signal (k_policy k) (st_circuit_state s) oc)
         (pm_request_id p) (Some (oc_evidence oc))) (clk e 0)
       (set_row (pm_request_id p) (\<lambda>r. r\<lparr>rq_state := finish_request_state oc, rq_terminal_at := Some (clk e 0),
                            rq_terminal_evidence_digest := Some (oc_evidence oc)\<rparr>) db1) = Inr (s2, db')"
    by metis
  have fr: "find_request (pm_request_id p) db = Some row" using require_permit_row_Inr [OF r(1)] by simp
  show ?thesis
    by (rule row_then_receipt [OF assms(2) held_validated [OF v] assms(3) fr _ _ _ _ a, of "finish_request_state oc"])
      (use d r(2) in \<open>simp_all add: moves_to_def finish_request_state_def\<close>)
qed simp

lemma resolve_Inr:
  assumes "resolve_reconciliation e k rid r evidence seen db = (res, db')" "db' \<noteq> db \<or> is_ok res" "sha e = h"
  obtains s row db1 s2 before where "validated_state h k db = Inr s"
    "find_request rid db = Some row" "rq_state row = Reconciliation_Required"
    "is_sha256 evidence" "find_request rid seen = Some before"
    "authorises h (clk e 0) r (resolution_query before) seen"
    "decrement_project row (clk e 1) db = Inr db1"
    "append_control_transition e k (k_policy k) (Some s)
       (circuit_change ''reconciliation_resolved'' s (st_circuit_state s) ''reconciled'' rid (Some evidence)) (clk e 1)
       (set_row rid (\<lambda>r. r\<lparr>rq_state := Reconciled, rq_resolution_evidence_digest := Some evidence,
                                       rq_resolved_at := Some (clk e 1)\<rparr>) db1) = Inr (s2, db')"
proof -
  have i: "(if b then Inl x else y) = Inr z \<longleftrightarrow> \<not> b \<and> y = Inr z" for b and x :: err and y and z :: "unit \<times> runtime_db"
    by simp
  have o: "(case x of None \<Rightarrow> Inl y | Some v \<Rightarrow> g v) = Inr z \<longleftrightarrow> (\<exists>v. x = Some v \<and> g v = Inr z)"
    for x :: "request_row option" and y :: err and g and z :: "unit \<times> runtime_db"
    by (cases x) simp_all
  from commit_result_Inr [OF assms(1) [unfolded resolve_reconciliation_def]] assms(2)
  show thesis
    unfolding assms(3) ebind_Inr_iff Let_def i o set_row_def [symmetric]
    by (elim disjE exE conjE) (auto intro!: that dest: verify_authorises)
qed

lemma resolve_micro:
  assumes "resolve_reconciliation e k rid r evidence seen db = (res, db')" "keys_ok db" "served h P e k"
  shows "(micro h P)\<^sup>*\<^sup>* db db'"
proof (cases "db' = db")
  case False
  have sh: "sha e = h" using assms(3) by (simp add: served_def)
  from resolve_Inr [OF assms(1) disjI1 [OF False] sh] obtain s row db1 s2 where v: "validated_state h k db = Inr s"
    and fr: "find_request rid db = Some row" and st: "rq_state row = Reconciliation_Required"
    and d: "decrement_project row (clk e 1) db = Inr db1"
    and a: "append_control_transition e k (k_policy k) (Some s)
       (circuit_change ''reconciliation_resolved'' s (st_circuit_state s) ''reconciled'' rid (Some evidence)) (clk e 1)
       (set_row rid (\<lambda>r. r\<lparr>rq_state := Reconciled, rq_resolution_evidence_digest := Some evidence,
                                       rq_resolved_at := Some (clk e 1)\<rparr>) db1) = Inr (s2, db')"
    by metis
  show ?thesis
    by (rule row_then_receipt [OF assms(2) held_validated [OF v] assms(3) fr _ _ _ _ a, of Reconciled])
      (use d st in \<open>simp_all add: moves_to_def\<close>)
qed simp

lemma cancel_before_transport_micro:
  assumes "cancel_before_transport e k p db = (res, db')" "keys_ok db" "served h P e k"
  shows "(micro h P)\<^sup>*\<^sup>* db db'"
proof (cases "db' = db")
  case False
  have sh: "sha e = h" using assms(3) by (simp add: served_def)
  from commit_result_Inr [OF assms(1) [unfolded cancel_before_transport_def]] False
  obtain s row where v: "validated_state h k db = Inr s" and r: "require_permit_row p db = Inr row"
    and c: "cancel_granted_row e k row s (clk e 0) ''half_open_cancelled'' db = Inr db'"
    unfolding sh by (auto simp: result_simps split: if_splits)
  have "row \<in> set (db_requests db)" using require_permit_row_Inr [OF r] find_request_Some by blast
  from cancel_granted_row_micro(1) [OF c assms(2) held_validated [OF v] assms(3) this] show ?thesis .
qed simp

lemma cancel_waiting_micro:
  assumes "cancel_waiting e rid run db = (res, db')" "keys_ok db"
  shows "(micro h P)\<^sup>*\<^sup>* db db'"
proof (cases "db' = db")
  case False
  let ?f = "\<lambda>r :: request_row. r\<lparr>rq_state := Cancelled, rq_terminal_at := Some (clk e 0)\<rparr>"
  from commit_result_Inr [OF assms(1) [unfolded cancel_waiting_def]] False
  obtain row where fr: "find_request rid db = Some row" and st: "rq_state row = Waiting"
    and d: "db' = update_request rid Waiting ?f db"
    by (auto simp: result_simps split: if_splits option.splits)
  have "db' = set_row rid ?f db"
    unfolding d by (rule update_request_set_row [OF _ fr st]) (use assms(2) in \<open>simp add: keys_ok_def\<close>)
  moreover have "micro h P db (set_row rid ?f db)"
    by (rule micro.move [OF fr, of Cancelled]) (simp_all add: st moves_to_def)
  ultimately show ?thesis by simp
qed simp

lemma cancel_and_raise_micro:
  assumes "cancel_and_raise e k row s now reason err old db = (res, db')" "keys_ok db" "held h k s db"
    "served h P e k" "row \<in> set (db_requests db)"
  shows "db' = old \<or> (micro h P)\<^sup>*\<^sup>* db db'"
  using assms(1) cancel_granted_row_micro(1) [OF _ assms(2-5)]
  by (auto simp: cancel_and_raise_def split: sum.splits)

text \<open>\<open>begin_transport\<close>: expiry first, then either the grant is cancelled, or nothing more, or the
  transport starts.\<close>

lemma begin_transport_cases:
  assumes "begin_transport e k p q db = (res, db')" "sha e = h" "keys_ok db" "served h P e k"
  obtains (kept) "db' = db" "\<not> is_ok res"
  | (expired) "expire e k (clk e 0) db = Inr db'" "\<not> is_ok res"
  | (cancelled) db1 where "(micro h P)\<^sup>*\<^sup>* db db1" "(micro h P)\<^sup>*\<^sup>* db1 db'" "\<not> is_ok res"
  | (started) db1 s row where "expire e k (clk e 0) db = Inr db1" "validated_state h k db1 = Inr s"
      "require_permit_row p db1 = Inr row" "row_matches_request row q (policy_digest h (k_policy k))"
      "rq_state row = Granted" "st_circuit_state s \<noteq> Open" "\<not> unresolved_blocks k (pm_provider_id p) db1"
      "\<not> probe_mismatch h q s" "verify_authority_locked h k (clk e 1) q db1 = Inr (ar_authorization q)"
      "res = Inr ()"
      "db' = update_request (pm_request_id p) Granted
                 (\<lambda>r. r\<lparr>rq_state := Dispatched, rq_transport_started_at := Some (clk e 0)\<rparr>) db1"
proof (cases "expire e k (clk e 0) db")
  case (Inl err)
  then show thesis using assms(1) kept by (auto simp: begin_transport_def Let_def)
next
  case x: (Inr db1)
  note m1 = expire_micro [OF x assms(3,4)]
  note k1 = micros_keys [OF m1 assms(3)]
  show thesis
  proof (cases "validated_state h k db1")
    case (Inl err)
    then show thesis using assms(1) kept by (auto simp: begin_transport_def Let_def x assms(2))
  next
    case v: (Inr s)
    show thesis
    proof (cases "require_permit_row p db1")
      case (Inl err)
      then show thesis using assms(1) kept by (auto simp: begin_transport_def Let_def x assms(2) v)
    next
      case r: (Inr row)
      have row: "row \<in> set (db_requests db1)" using require_permit_row_Inr [OF r] find_request_Some by blast
      have can: thesis if "cancel_and_raise e k row s (clk e 0) reason err db db1 = (res, db')" for reason err
      proof -
        have n: "\<not> is_ok res" using that by (auto simp: cancel_and_raise_def split: sum.splits)
        from cancel_and_raise_micro [OF that k1 held_validated [OF v] assms(4) row] n show thesis
          using cancelled [OF m1] kept by blast
      qed
      have ex: thesis if "(Inl err, db1) = (res, db')" for err
        using that x by (intro expired) auto
      have kp: thesis if "(Inl err, db) = (res, db')" for err
        using that by (intro kept) auto
      let ?u = "update_request (pm_request_id p) Granted
                 (\<lambda>r. r\<lparr>rq_state := Dispatched, rq_transport_started_at := Some (clk e 0)\<rparr>) db1"
      note b = assms(1) [unfolded begin_transport_def Let_def x assms(2), simplified x v r sum.case]
      consider "\<not> row_matches_request row q (policy_digest h (k_policy k)) \<or> rq_state row \<noteq> Granted"
        | "row_matches_request row q (policy_digest h (k_policy k))" "rq_state row = Granted"
            "st_circuit_state s = Open \<or> unresolved_blocks k (pm_provider_id p) db1 \<or> probe_mismatch h q s"
        | (go) "row_matches_request row q (policy_digest h (k_policy k))" "rq_state row = Granted"
            "st_circuit_state s \<noteq> Open" "\<not> unresolved_blocks k (pm_provider_id p) db1" "\<not> probe_mismatch h q s"
        by blast
      then show thesis
      proof cases
        case 1
        with b show thesis using ex by (auto split: if_splits)
      next
        case 2
        with b show thesis using can by (auto split: if_splits)
      next
        case go
        show thesis
        proof (cases "verify_authority_locked h k (clk e 1) q db1")
          case (Inl err)
          with b go show thesis using can kp by (cases err) auto
        next
          case (Inr a)
          then have "a = ar_authorization q"
            using verify_authorises by (simp add: verify_authority_locked_def verify_in_transaction_def)
          with Inr b go show thesis using started [OF x v r] by auto
        qed
      qed
    qed
  qed
qed

lemma begin_transport_micro:
  assumes "begin_transport e k p q db = (res, db')" "keys_ok db" "served h P e k"
  shows "(micro h P)\<^sup>*\<^sup>* db db'"
proof -
  have sh: "sha e = h" using assms(3) by (simp add: served_def)
  from assms(1) sh assms(2,3) show ?thesis
  proof (cases rule: begin_transport_cases)
    case (started db1 s row)
    note m1 = expire_micro [OF started(1) assms(2,3)]
    note k1 = micros_keys [OF m1 assms(2)]
    let ?f = "\<lambda>r :: request_row. r\<lparr>rq_state := Dispatched, rq_transport_started_at := Some (clk e 0)\<rparr>"
    have fr: "find_request (pm_request_id p) db1 = Some row" using require_permit_row_Inr [OF started(3)] by simp
    have "db' = set_row (pm_request_id p) ?f db1"
      unfolding started(11) by (rule update_request_set_row [OF _ fr started(5)]) (use k1 in \<open>simp add: keys_ok_def\<close>)
    moreover have "micro h P db1 (set_row (pm_request_id p) ?f db1)"
      by (rule micro.move [OF fr, of Dispatched]) (simp_all add: started(5) moves_to_def)
    ultimately show ?thesis using m1 by simp
  qed (use expire_micro [OF _ assms(2,3)] in auto)
qed

section \<open>Control changes\<close>

lemma provider_count_in_use:
  assumes "provider_count x states db = 0" "set active_states \<subseteq> set states"
  shows "in_use x db = 0" "project_use x b db = 0"
proof -
  show "in_use x db = 0"
    using assms unfolding in_use_def provider_count_def count_rows_0 active_def by blast
  then show "project_use x b db = 0" using project_use_le_in_use [of x b db] by simp
qed

lemma cap_nonneg: "policy_ok p \<Longrightarrow> 1 \<le> pl_per_project_cap p"
  by (auto simp: policy_ok_def policy_post_init_def result_simps)

lemma in_use_count:
  "in_use x db = provider_count x [Granted, Dispatched] db + provider_count x [Reconciliation_Required] db"
proof -
  have "count_rows (\<lambda>r. rq_provider_id r = x \<and> active (rq_state r)) rs
      = count_rows (\<lambda>r. rq_provider_id r = x \<and> rq_state r \<in> set [Granted, Dispatched]) rs
        + count_rows (\<lambda>r. rq_provider_id r = x \<and> rq_state r \<in> set [Reconciliation_Required]) rs" for rs
    by (induction rs) (auto simp: active_def active_states_def)
  then show ?thesis by (simp add: in_use_def provider_count_def)
qed

lemma ebind_InrE:
  assumes "ebind r f = Inr b" obtains a where "r = Inr a" "f a = Inr b"
  using assms by (auto simp: ebind_Inr_iff)

lemma if_Inl_Inr: "(if b then Inl x else y) = Inr z \<longleftrightarrow> \<not> b \<and> y = Inr z"
  by simp

lemma consume_consumed:
  assumes "consume_activation_authority r now db = Inr db1"
  shows "consumed_authority (Some (ref_digest r)) db1"
proof -
  let ?sel = "\<lambda>a. au_source_kind a = ref_source_kind r \<and> au_source_id a = ref_source_id r
    \<and> au_revision a = ref_revision r \<and> au_epoch a = ref_epoch r
    \<and> au_body_sha256 a = ref_digest r \<and> au_revoked_at a = None"
  have c: "count_rows ?sel (db_authorities db) = 1"
    and d: "db_authorities db1 = update_rows ?sel (\<lambda>a. a\<lparr>au_revoked_at := Some now\<rparr>) (db_authorities db)"
    using assms by (auto simp: consume_activation_authority_def Let_def split: if_splits)
  from c have "\<not> (\<forall>a \<in> set (db_authorities db). \<not> ?sel a)" unfolding count_rows_0 [symmetric] by simp
  then obtain a where "a \<in> set (db_authorities db)" "?sel a" by blast
  then have "a\<lparr>au_revoked_at := Some now\<rparr> \<in> set (db_authorities db1)"
    by (force simp: d set_update_rows)
  with \<open>?sel a\<close> show ?thesis
    unfolding consumed_authority_def by (intro bexI [of _ "a\<lparr>au_revoked_at := Some now\<rparr>"]) simp_all
qed

lemma consume_retarget:
  assumes "consume_activation_authority r now db = Inr db1" "keys_ok db" "sha e = h" "p \<in> P"
    and "append_control_transition e k p (Some s) c now db1 = Inr (s', db2)"
    and "find_state (pl_provider_id p) db = Some s"
    and "int (in_use (pl_provider_id p) db) \<le> (if cc_circuit c = Half_Open then 0 else cc_target c)"
    and "\<And>project. int (project_use (pl_provider_id p) project db) \<le> pl_per_project_cap p"
    and "cc_authority c = Some (ref_digest r)"
  shows "(micro h P)\<^sup>*\<^sup>* db db2"
proof -
  have ca: "consumed_authority (cc_authority c) db1"
    using consume_consumed [OF assms(1)] assms(9) by simp
  obtain as where as: "db1 = db\<lparr>db_authorities := as\<rparr>" using consume_db [OF assms(1)] by blast
  have r: "db_requests db1 = db_requests db" by (simp add: as)
  have "micro h P db1 db2"
    by (rule micro.retarget [OF assms(5,3,4)]) (use assms(6-8) use_requests [OF r] ca in \<open>simp_all add: as\<close>)
  with micro.consume [OF assms(1)] show ?thesis by (meson converse_rtranclp_into_rtranclp r_into_rtranclp)
qed

lemma activate_target_Inr:
  assumes "activate_target e k b r seen db = (res, db')" "db' \<noteq> db \<or> is_ok res" "sha e = h"
  obtains s db1 s' where "validated_state h k db = Inr s" "st_circuit_state s = Closed"
    "provider_count (pl_provider_id (k_policy k)) [Waiting, Granted, Dispatched, Reconciliation_Required] db = 0"
    "tb_target b \<le> pl_hard_max (k_policy k)" "1 \<le> tb_target b"
    "authorises h (clk e 2) r (aq_target_digest_update (\<lambda>_. Some (target_binding_digest h b))
       (blank_query (pl_provider_id (k_policy k)) ''provider_capacity_activation'' ''provider_capacity_target'')) db"
    "consume_activation_authority r (clk e 1) db = Inr db1"
    "append_control_transition e k (k_policy k) (Some s)
       \<lparr>cc_kind = ''target_activated'', cc_target = tb_target b, cc_circuit = Closed,
        cc_probe = None, cc_signal = Some ''target_activated'', cc_authority = Some (ref_digest r),
        cc_binding = Some (target_binding_digest h b), cc_request = None, cc_evidence = None\<rparr>
       (clk e 1) db1 = Inr (s', db')"
proof -
  have r: "commit_result db (ebind (verify h (clk e 0) r (aq_target_digest_update (\<lambda>_. Some (target_binding_digest h b))
        (blank_query (pl_provider_id (k_policy k)) ''provider_capacity_activation'' ''provider_capacity_target'')) seen) (\<lambda>_.
      ebind (validated_state h k db) (\<lambda>state.
         ebind (verify_in_transaction h True (clk e 2) r (aq_target_digest_update (\<lambda>_. Some (target_binding_digest h b))
        (blank_query (pl_provider_id (k_policy k)) ''provider_capacity_activation'' ''provider_capacity_target'')) db) (\<lambda>_.
           if st_circuit_state state \<noteq> Closed then Inl (Conflict Target_State_Refused)
           else if st_effective_target state = tb_target b then Inl (Conflict Target_Already_Active)
           else if provider_count (pl_provider_id (k_policy k)) [Waiting, Granted, Dispatched, Reconciliation_Required] db > 0
           then Inl (Conflict Target_Not_Idle)
           else
             ebind (consume_activation_authority r (clk e 1) db) (\<lambda>db1.
             ebind (append_control_transition e k (k_policy k) (Some state)
                      \<lparr>cc_kind = ''target_activated'', cc_target = tb_target b, cc_circuit = Closed,
                       cc_probe = None, cc_signal = Some ''target_activated'',
                       cc_authority = Some (ref_digest r), cc_binding = Some (target_binding_digest h b),
                       cc_request = None, cc_evidence = None\<rparr> (clk e 1) db1)
               (\<lambda>(_, db2). Inr ((), db2))))))) = (res, db')"
    and t: "1 \<le> tb_target b" "tb_target b \<le> pl_hard_max (k_policy k)"
    using assms(1,2) unfolding activate_target_def Let_def assms(3) by (auto split: if_splits)
  from commit_result_Inr [OF r] assms(2) show thesis
    unfolding ebind_Inr_iff if_Inl_Inr verify_in_transaction_def
    by (elim disjE exE conjE) (auto intro!: that t dest: verify_authorises)
qed

lemma activate_target_micro:
  assumes "activate_target e k b r seen db = (res, db')" "keys_ok db" "served h P e k" "policies_ok h P"
  shows "(micro h P)\<^sup>*\<^sup>* db db'"
proof (cases "db' = db")
  case False
  have sh: "sha e = h" and kP: "k_policy k \<in> P" using assms(3) by (simp_all add: served_def)
  from activate_target_Inr [OF assms(1) disjI1 [OF False] sh] obtain s db1 s' where
    v: "validated_state h k db = Inr s"
    and z: "provider_count (pl_provider_id (k_policy k)) [Waiting, Granted, Dispatched, Reconciliation_Required] db = 0"
    and t: "1 \<le> tb_target b" and c: "consume_activation_authority r (clk e 1) db = Inr db1"
    and a: "append_control_transition e k (k_policy k) (Some s)
       \<lparr>cc_kind = ''target_activated'', cc_target = tb_target b, cc_circuit = Closed,
        cc_probe = None, cc_signal = Some ''target_activated'', cc_authority = Some (ref_digest r),
        cc_binding = Some (target_binding_digest h b), cc_request = None, cc_evidence = None\<rparr>
       (clk e 1) db1 = Inr (s', db')"
    by metis
  have "1 \<le> pl_per_project_cap (k_policy k)"
    using assms(4) kP cap_nonneg by (auto simp: policies_ok_def)
  then show ?thesis
    using t provider_count_in_use [OF z]
    by (intro consume_retarget [OF c assms(2) sh kP a validated_state_Inr(1) [OF v]])
      (simp_all add: active_states_def)
qed simp

lemma activate_half_open_Inr:
  assumes "activate_half_open e k b r probe seen db = (res, db')" "db' \<noteq> db \<or> is_ok res" "sha e = h"
  obtains s db1 s' where "validated_state h k db = Inr s" "circuit_value (st_circuit_state s) = cb_from_state b"
    "request_digest h probe = cb_probe_request_digest b" "ar_lane probe = Interactive"
    "provider_count (pl_provider_id (k_policy k)) [Reconciliation_Required] db = 0"
    "provider_count (pl_provider_id (k_policy k)) [Waiting, Granted, Dispatched] db = 0"
    "count_rows (\<lambda>q. rq_request_id q = ar_request_id probe \<or> rq_run_id q = ar_run_id probe) (db_requests db) = 0"
    "verify_authority_locked h k (clk e 3) probe db = Inr (ar_authorization probe)"
    "consume_activation_authority r (clk e 2) db = Inr db1"
    "append_control_transition e k (k_policy k) (Some s)
       \<lparr>cc_kind = ''half_open_activated'', cc_target = st_effective_target s, cc_circuit = Half_Open,
        cc_probe = Some (cb_probe_request_digest b), cc_signal = Some ''half_open_authorized'',
        cc_authority = Some (ref_digest r), cc_binding = Some (circuit_binding_digest h b),
        cc_request = None, cc_evidence = None\<rparr> (clk e 2) db1 = Inr (s', db')"
proof -
  have w: "verify_authority_locked h k n probe db = Inr x \<Longrightarrow> x = ar_authorization probe" for n x
    using verify_authorises by (simp add: verify_authority_locked_def verify_in_transaction_def)
  from assms(1,2) obtain x where
    r: "commit_result db x = (res, db')" and t: "request_digest h probe = cb_probe_request_digest b" "ar_lane probe = Interactive"
    and x: "x = ebind (verify_authority h k (clk e 0) probe seen) (\<lambda>_.
         ebind (verify h (clk e 1) r (circuit_query h k b) seen) (\<lambda>_.
         ebind (validated_state h k db) (\<lambda>s.
         ebind (verify_authority_locked h k (clk e 3) probe db) (\<lambda>_.
         ebind (verify_in_transaction h True (clk e 4) r (circuit_query h k b) db) (\<lambda>_.
           if circuit_value (st_circuit_state s) \<noteq> cb_from_state b
              \<or> provider_count (pl_provider_id (k_policy k)) [Reconciliation_Required] db > 0
              \<or> provider_count (pl_provider_id (k_policy k)) [Waiting, Granted, Dispatched] db > 0
              \<or> count_rows (\<lambda>q. rq_request_id q = ar_request_id probe \<or> rq_run_id q = ar_run_id probe)
                  (db_requests db) > 0
           then Inl (Conflict Half_Open_Refused)
           else
             ebind (consume_activation_authority r (clk e 2) db) (\<lambda>db1.
             ebind (append_control_transition e k (k_policy k) (Some s)
                      \<lparr>cc_kind = ''half_open_activated'', cc_target = st_effective_target s,
                       cc_circuit = Half_Open, cc_probe = Some (cb_probe_request_digest b),
                       cc_signal = Some ''half_open_authorized'', cc_authority = Some (ref_digest r),
                       cc_binding = Some (circuit_binding_digest h b), cc_request = None,
                       cc_evidence = None\<rparr> (clk e 2) db1)
               (\<lambda>(_, db2). Inr ((), db2))))))))"
    unfolding activate_half_open_def Let_def assms(3) by (auto split: if_splits)
  from commit_result_Inr [OF r] assms(2) show thesis
    unfolding x ebind_Inr_iff if_Inl_Inr
    by (elim disjE exE conjE) (auto dest: w intro!: that t)
qed

lemma activate_half_open_micro:
  assumes "activate_half_open e k b r probe seen db = (res, db')" "keys_ok db" "served h P e k" "policies_ok h P"
  shows "(micro h P)\<^sup>*\<^sup>* db db'"
proof (cases "db' = db")
  case False
  have sh: "sha e = h" and kP: "k_policy k \<in> P" using assms(3) by (simp_all add: served_def)
  from assms(1) disjI1 [OF False] sh show ?thesis
  proof (cases rule: activate_half_open_Inr)
    case x: (1 s db1 s')
    have "provider_count (pl_provider_id (k_policy k)) [Granted, Dispatched] db = 0"
      using x(6) unfolding provider_count_def count_rows_0 by auto
    then have z: "in_use (pl_provider_id (k_policy k)) db = 0" using x(5) by (simp add: in_use_count)
    have "1 \<le> pl_per_project_cap (k_policy k)"
      using assms(4) kP cap_nonneg by (auto simp: policies_ok_def)
    then have "int (project_use (pl_provider_id (k_policy k)) b db) \<le> pl_per_project_cap (k_policy k)" for b
      using project_use_le_in_use [of "pl_provider_id (k_policy k)" b db] z by simp
    then show ?thesis
      using z by (intro consume_retarget [OF x(9) assms(2) sh kP x(10) validated_state_Inr(1) [OF x(1)]]) simp_all
  qed
qed simp

lemma install_policy_micro:
  assumes "install_policy e k db = (res, db')" "keys_ok db" "served h P e k"
  shows "(micro h P)\<^sup>*\<^sup>* db db'"
proof (cases "db' = db")
  case False
  have sh: "sha e = h" and kP: "k_policy k \<in> P" using assms(3) by (simp_all add: served_def)
  let ?p = "k_policy k"
  let ?next = "\<lambda>db1. if find_state (pl_provider_id ?p) db = None
             then ebind (append_control_transition e k ?p None (genesis_change ?p) (clk e 0) db1)
                    (\<lambda>(_, db2). Inr ((), db2))
             else ebind (validated_state h k db1) (\<lambda>_. Inr ((), db1))"
  let ?x = "if find_state (pl_provider_id ?p) db = None
         \<and> (count_rows run_nonterminal (db_runs db) > 0 \<or> db_leases db \<noteq> [])
       then Inl (Conflict Bootstrap_Not_Quiescent)
       else ebind (ensure_policy_row h Policy_Revision_Conflict ?p (clk e 0) db) ?next"
  have "commit_result db ?x = (res, db')" using assms(1) unfolding install_policy_def Let_def sh .
  from commit_result_Inr [OF this] False obtain u where "?x = Inr (u, db')" by blast
  then have "ebind (ensure_policy_row h Policy_Revision_Conflict ?p (clk e 0) db) ?next = Inr (u, db')"
    unfolding if_Inl_Inr by (rule conjunct2)
  then obtain db1 where p: "ensure_policy_row h Policy_Revision_Conflict ?p (clk e 0) db = Inr db1"
    and n: "?next db1 = Inr (u, db')" by (rule ebind_InrE)
  have r: "find_state (pl_provider_id ?p) db = None \<and> (\<exists>s'. append_control_transition e k ?p None (genesis_change ?p) (clk e 0) db1
       = Inr (s', db')) \<or> db' = db1"
    using n by (cases "find_state (pl_provider_id ?p) db") (auto simp: ebind_Inr_iff)
  obtain ps where ps: "db1 = db\<lparr>db_policies := ps\<rparr>" using ensure_policy_row_db [OF p] by blast
  have m: "micro h P db db1" by (rule micro.policy_row [OF p])
  from r show ?thesis
  proof (elim disjE conjE exE)
    fix s' assume f: "find_state (pl_provider_id ?p) db = None"
      and a: "append_control_transition e k ?p None (genesis_change ?p) (clk e 0) db1 = Inr (s', db')"
    have "micro h P db1 db'"
      by (rule micro.genesis [OF a sh kP]) (simp add: ps f)
    with m show ?thesis by simp
  next
    assume "db' = db1"
    with m show ?thesis by simp
  qed
qed simp

subsection \<open>Superseding a policy\<close>

definition project_units :: "string \<Rightarrow> runtime_db \<Rightarrow> int" where
  "project_units x db = sum_list (map pj_active_units (filter (\<lambda>j. pj_provider_id j = x) (db_projects db)))"

definition supersede_change ::
  "(string \<Rightarrow> string) \<Rightarrow> transition_binding \<Rightarrow> authorization_reference \<Rightarrow> nat \<Rightarrow> control_change" where
  "supersede_change h b r unresolved =
     \<lparr>cc_kind = ''policy_superseded'', cc_target = xb_target b, cc_circuit = Closed, cc_probe = None,
      cc_signal = Some (if unresolved > 0 then ''policy_superseded_with_reconciliation'' else ''policy_superseded''),
      cc_authority = Some (ref_digest r), cc_binding = Some (transition_binding_digest h b), cc_request = None,
      cc_evidence = (if unresolved > 0 then xb_evidence_digest b else None)\<rparr>"

lemma supersede_Inr:
  assumes "supersede_policy e k b successor r seen db = (res, db')" "db' \<noteq> db \<or> is_ok res" "sha e = h"
  obtains s db1 db2 s' where "(k_policy k, successor) \<in> set supported_pairs"
    "pl_provider_id successor = pl_provider_id (k_policy k)" "validated_state h k db = Inr s"
    "provider_count (pl_provider_id (k_policy k)) [Waiting, Granted, Dispatched] db = 0"
    "project_units (pl_provider_id (k_policy k)) db
       = int (provider_count (pl_provider_id (k_policy k)) [Reconciliation_Required] db)"
    "project_units (pl_provider_id (k_policy k)) db \<le> xb_target b"
    "count_rows (\<lambda>j. pj_provider_id j = pl_provider_id (k_policy k)
                 \<and> pj_active_units j > pl_per_project_cap successor) (db_projects db) = 0"
    "provider_count (pl_provider_id (k_policy k)) [Reconciliation_Required] db = 0 \<longrightarrow> st_circuit_state s = Closed"
    "provider_count (pl_provider_id (k_policy k)) [Reconciliation_Required] db > 0 \<longrightarrow>
       st_circuit_state s = Open \<and> pl_uncertain_dispatch_scope (k_policy k) = ''global''
       \<and> pl_uncertain_dispatch_scope successor = ''capacity_reservation'' \<and> xb_evidence_digest b \<noteq> None
       \<and> reconciliation_isolation_snapshot_digest h (k_policy k) s db = Inr (the (xb_snapshot_digest b))
       \<and> open_episode_is_unknown_only (pl_provider_id (k_policy k)) db = Inr True"
    "ensure_policy_row h Successor_Conflict successor (clk e 1) db = Inr db1"
    "consume_activation_authority r (clk e 1) db1 = Inr db2"
    "append_control_transition e k successor (Some s)
       (supersede_change h b r (provider_count (pl_provider_id (k_policy k)) [Reconciliation_Required] db))
       (clk e 1) db2 = Inr (s', db')"
proof -
  let ?x = "pl_provider_id (k_policy k)"
  let ?blocking = "provider_count ?x [Waiting, Granted, Dispatched] db"
  let ?unresolved = "provider_count ?x [Reconciliation_Required] db"
  let ?over = "count_rows (\<lambda>j. pj_provider_id j = ?x \<and> pj_active_units j > pl_per_project_cap successor) (db_projects db)"
  let ?migration = "pl_uncertain_dispatch_scope (k_policy k) = ''global''
                 \<and> pl_uncertain_dispatch_scope successor = ''capacity_reservation''"
  let ?snap = "\<lambda>s. if ?unresolved > 0
                  then ebind (reconciliation_isolation_snapshot_digest h (k_policy k) s db) (\<lambda>d. Inr (Some d)) else Inr None"
  let ?can = "\<lambda>s snap. if ?migration \<and> xb_snapshot_digest b = snap
                     \<and> xb_evidence_digest b \<noteq> None \<and> st_circuit_state s = Open
                  then open_episode_is_unknown_only ?x db else Inr False"
  let ?refuse = "\<lambda>s can. ?blocking > 0 \<or> project_units ?x db \<noteq> int ?unresolved \<or> project_units ?x db > xb_target b
              \<or> ?over > 0 \<or> (?unresolved > 0 \<and> \<not> can)
              \<or> (?unresolved = 0 \<and> (st_circuit_state s \<noteq> Closed \<or> xb_snapshot_digest b \<noteq> None \<or> xb_evidence_digest b \<noteq> None))"
  obtain q where run: "commit_result db
        (ebind (verify h (clk e 0) r q seen) (\<lambda>_. ebind (validated_state h k db) (\<lambda>s.
         ebind (verify_in_transaction h True (clk e 2) r q db) (\<lambda>_.
         ebind (?snap s) (\<lambda>snap. ebind (?can s snap) (\<lambda>can.
           if ?refuse s can then Inl (Conflict Transition_Not_Idle)
           else
             ebind (ensure_policy_row h Successor_Conflict successor (clk e 1) db) (\<lambda>db1.
             ebind (consume_activation_authority r (clk e 1) db1) (\<lambda>db2.
             ebind (append_control_transition e k successor (Some s) (supersede_change h b r ?unresolved) (clk e 1) db2)
               (\<lambda>(_, db3). Inr ((), db3)))))))))) = (res, db')"
    and pre: "(k_policy k, successor) \<in> set supported_pairs" "pl_provider_id successor = ?x"
    using assms(1,2) unfolding supersede_policy_def Let_def assms(3) supersede_change_def [symmetric] project_units_def [symmetric]
    by (auto split: if_splits)
  from commit_result_Inr [OF run] assms(2) obtain s snap can db1 db2 s' where
    v: "validated_state h k db = Inr s" and sn: "?snap s = Inr snap" and cn: "?can s snap = Inr can"
    and nr: "\<not> ?refuse s can" and p: "ensure_policy_row h Successor_Conflict successor (clk e 1) db = Inr db1"
    and c: "consume_activation_authority r (clk e 1) db1 = Inr db2"
    and a: "append_control_transition e k successor (Some s) (supersede_change h b r ?unresolved) (clk e 1) db2 = Inr (s', db')"
    by (elim disjE exE conjE) (auto elim!: ebind_InrE split: prod.splits if_splits)
  have iso: "?unresolved > 0 \<longrightarrow> st_circuit_state s = Open \<and> ?migration \<and> xb_evidence_digest b \<noteq> None
       \<and> reconciliation_isolation_snapshot_digest h (k_policy k) s db = Inr (the (xb_snapshot_digest b))
       \<and> open_episode_is_unknown_only ?x db = Inr True"
  proof
    assume u: "?unresolved > 0"
    with nr have can: "can" by blast
    with cn have "?migration \<and> xb_snapshot_digest b = snap \<and> xb_evidence_digest b \<noteq> None \<and> st_circuit_state s = Open
        \<and> open_episode_is_unknown_only ?x db = Inr True"
      by (simp split: if_splits)
    moreover from sn u obtain d where "reconciliation_isolation_snapshot_digest h (k_policy k) s db = Inr d" "snap = Some d"
      by (auto elim!: ebind_InrE)
    ultimately show "st_circuit_state s = Open \<and> ?migration \<and> xb_evidence_digest b \<noteq> None
       \<and> reconciliation_isolation_snapshot_digest h (k_policy k) s db = Inr (the (xb_snapshot_digest b))
       \<and> open_episode_is_unknown_only ?x db = Inr True"
      by simp
  qed
  show thesis
    by (rule that [OF pre v _ _ _ _ _ _ p c a]) (use nr iso in auto)
qed

lemma project_units_over:
  assumes "units_ok db" "0 \<le> cap"
    and "count_rows (\<lambda>j. pj_provider_id j = x \<and> pj_active_units j > cap) (db_projects db) = 0"
  shows "int (project_use x b db) \<le> cap"
proof -
  have "int (project_use x b db) = units x b db" using assms(1) by (simp add: units_ok_def)
  also have "\<dots> \<le> cap"
  proof (cases "lookup_row (\<lambda>j. pj_key j = (x, b)) (db_projects db)")
    case None
    then show ?thesis using assms(2) by (simp add: units_def)
  next
    case (Some j)
    then have "j \<in> set (db_projects db)" "pj_provider_id j = x"
      using lookup_row_Some [OF Some] by (simp_all add: pj_key_def)
    then show ?thesis using assms(3) Some unfolding count_rows_0 by (auto simp: units_def)
  qed
  finally show ?thesis .
qed

lemma supported_pairs_ok: "(p, s) \<in> set supported_pairs \<Longrightarrow> pl_per_project_cap s = 8"
  by (auto simp: supported_pairs_def glm_provider_admission_policy_def glm_provider_admission_policy_v2_def
      grok_provider_admission_policy_def)

lemma supersede_micro:
  assumes "supersede_policy e k b successor r seen db = (res, db')" "keys_ok db" "units_ok db" "served h P e k"
    "successor \<in> P"
  shows "(micro h P)\<^sup>*\<^sup>* db db'"
proof (cases "db' = db")
  case False
  have sh: "sha e = h" using assms(4) by (simp add: served_def)
  from assms(1) disjI1 [OF False] sh show ?thesis
  proof (cases rule: supersede_Inr)
    case x: (1 s db1 db2 s')
    let ?x = "pl_provider_id (k_policy k)"
    obtain ps where ps: "db1 = db\<lparr>db_policies := ps\<rparr>" using ensure_policy_row_db [OF x(10)] by blast
    have r: "db_requests db1 = db_requests db" by (simp add: ps)
    have m1: "micro h P db db1" by (rule micro.policy_row [OF x(10)])
    have "provider_count ?x [Granted, Dispatched] db = 0"
      using x(4) unfolding provider_count_def count_rows_0 by auto
    then have u: "int (in_use ?x db) \<le> xb_target b" using x(5,6) by (simp add: in_use_count)
    have cap: "int (project_use ?x y db) \<le> pl_per_project_cap successor" for y
      using supported_pairs_ok [OF x(1)] by (intro project_units_over [OF assms(3) _ x(7)]) simp
    have "(micro h P)\<^sup>*\<^sup>* db1 db'"
      by (rule consume_retarget [OF x(11) micro_keys [OF m1 assms(2)] sh assms(5) x(12)])
        (use validated_state_Inr(1) [OF x(3)] u cap in
          \<open>simp_all add: ps x(2) supersede_change_def use_requests [OF r, unfolded ps]\<close>)
    with m1 show ?thesis by simp
  qed
qed simp

end
