(* ===== verification/AdmissionSafety.thy ===== *)
theory AdmissionSafety
  imports AdmissionOps
begin

text \<open>
  Every sequence of kernel operations, by any number of kernels on one database, interleaved
  with the other components: capacity is never exceeded, requests follow their life cycle,
  fencing tokens are never reused.
\<close>

section \<open>The step system\<close>

text \<open>A step of another component leaves the admission tables alone and never takes back a fencing
  token. The database \<open>seen\<close> by an unlocked check is arbitrary.\<close>

inductive kernel_step :: "(string \<Rightarrow> string) \<Rightarrow> policy set \<Rightarrow> runtime_db \<Rightarrow> runtime_db \<Rightarrow> bool"
  for h :: "string \<Rightarrow> string" and P :: "policy set" where
  install: "served h P e k \<Longrightarrow> install_policy e k db = (res, db') \<Longrightarrow> kernel_step h P db db'"
| target: "served h P e k \<Longrightarrow> activate_target e k b r seen db = (res, db') \<Longrightarrow> kernel_step h P db db'"
| supersede: "served h P e k \<Longrightarrow> successor \<in> P \<Longrightarrow> supersede_policy e k xb successor r seen db = (res, db') \<Longrightarrow>
    kernel_step h P db db'"
| half_open: "served h P e k \<Longrightarrow> activate_half_open e k cb r q seen db = (res, db') \<Longrightarrow> kernel_step h P db db'"
| admit: "served h P e k \<Longrightarrow> try_admit e k q ttl seen db = (pres, db') \<Longrightarrow> kernel_step h P db db'"
| cancel: "served h P e k \<Longrightarrow> cancel_before_transport e k p db = (res, db') \<Longrightarrow> kernel_step h P db db'"
| cancel_wait: "cancel_waiting e rid run db = (bres, db') \<Longrightarrow> kernel_step h P db db'"
| begin_it: "served h P e k \<Longrightarrow> begin_transport e k p q db = (res, db') \<Longrightarrow> kernel_step h P db db'"
| finish_it: "served h P e k \<Longrightarrow> finish e k p oc db = (res, db') \<Longrightarrow> kernel_step h P db db'"
| resolve: "served h P e k \<Longrightarrow> resolve_reconciliation e k rid r evidence seen db = (res, db') \<Longrightarrow> kernel_step h P db db'"
| foreign: "db_requests db' = db_requests db \<Longrightarrow> db_projects db' = db_projects db \<Longrightarrow> db_states db' = db_states db \<Longrightarrow>
    db_transitions db' = db_transitions db \<Longrightarrow> db_policies db' = db_policies db \<Longrightarrow>
    db_fencing_counter db \<le> db_fencing_counter db' \<Longrightarrow> kernel_step h P db db'"

text \<open>A kernel step is a sequence of atomic changes, or a step elsewhere.\<close>

lemma kernel_step_micro:
  assumes "kernel_step h P db db'" "policies_ok h P" "keys_ok db" "units_ok db"
  shows "(micro h P)\<^sup>*\<^sup>* db db' \<or> (db_requests db' = db_requests db \<and> db_projects db' = db_projects db
    \<and> db_states db' = db_states db \<and> db_transitions db' = db_transitions db \<and> db_policies db' = db_policies db
    \<and> db_fencing_counter db \<le> db_fencing_counter db')"
  using assms(1)
proof cases
  case (install e k res)
  then show ?thesis using install_policy_micro assms(3) by blast
next
  case (target e k b r seen res)
  then show ?thesis using activate_target_micro assms(2,3) by blast
next
  case (supersede e k successor xb r seen res)
  then show ?thesis using supersede_micro assms(3,4) by blast
next
  case (half_open e k cb r q seen res)
  then show ?thesis using activate_half_open_micro assms(2,3) by blast
next
  case (admit e k q ttl seen pres)
  then show ?thesis using try_admit_micro assms(3) by blast
next
  case (cancel e k p res)
  then show ?thesis using cancel_before_transport_micro assms(3) by blast
next
  case (cancel_wait e rid run bres)
  then show ?thesis using cancel_waiting_micro assms(3) by blast
next
  case (begin_it e k p q res)
  then show ?thesis using begin_transport_micro assms(3) by blast
next
  case (finish_it e k p oc res)
  then show ?thesis using finish_micro assms(3) by blast
next
  case (resolve e k rid r evidence seen res)
  then show ?thesis using resolve_micro assms(3) by blast
qed simp

text \<open>An invariant of the atomic changes that only reads the admission tables and tolerates a growing
  counter is an invariant of the steps.\<close>

lemma micros_capacity: "(micro h P)\<^sup>*\<^sup>* db db' \<Longrightarrow> policies_ok h P \<Longrightarrow> capacity_inv h P db \<Longrightarrow> capacity_inv h P db'"
  by (induction rule: rtranclp_induct) (auto intro: micro_capacity)

lemma capacity_inv_keys: "capacity_inv h P db \<Longrightarrow> keys_ok db \<and> units_ok db"
  by (simp add: capacity_inv_def)

lemma capacity_inv_foreign:
  assumes "capacity_inv h P db" "db_requests db' = db_requests db" "db_projects db' = db_projects db"
    "db_states db' = db_states db"
  shows "capacity_inv h P db'"
proof -
  have f: "find_state x db' = find_state x db" for x by (simp add: find_state_def assms(4))
  have w: "within_limits h P db' s = within_limits h P db s" for s
    by (simp add: within_limits_def use_requests [OF assms(2)])
  have u: "units_ok db' = units_ok db"
    by (simp add: units_ok_def assms(3) units_cong [OF assms(3)] use_requests [OF assms(2)])
  show ?thesis using assms(1) by (simp add: capacity_inv_def keys_ok_def f w u assms(2,4))
qed

lemma kernel_step_capacity:
  "kernel_step h P db db' \<Longrightarrow> policies_ok h P \<Longrightarrow> capacity_inv h P db \<Longrightarrow> capacity_inv h P db'"
  using kernel_step_micro [of h P db db'] micros_capacity [of h P db db'] capacity_inv_foreign [of h P db db']
    capacity_inv_keys [of h P db] by blast

lemma capacity_inv_initial: "capacity_inv h P initial_db"
  by (simp add: capacity_inv_def keys_ok_def units_ok_def units_def initial_db_def find_state_def
      project_use_def)

interpretation admission: step_system "\<lambda>db. db = initial_db" "kernel_step h P"
  "\<lambda>db. policies_ok h P \<longrightarrow> capacity_inv h P db" for h P
  by unfold_locales (auto simp: capacity_inv_initial intro: kernel_step_capacity)

lemma reachable_capacity:
  "policies_ok h P \<Longrightarrow> (kernel_step h P)\<^sup>*\<^sup>* initial_db db \<Longrightarrow> capacity_inv h P db"
  using admission.reachable_inv [OF refl] by blast

section \<open>Capacity\<close>

text \<open>C1. In every reachable database the units a provider has in use (granted, dispatched or
  unresolved) are at most its effective target, one while its circuit is half-open; the
  target is within the hard maximum of the policy in force, and no project exceeds the
  policy's per-project cap.\<close>

theorem capacity_never_exceeded:
  assumes "policies_ok h P" and "(kernel_step h P)\<^sup>*\<^sup>* initial_db db" and "find_state x db = Some s"
  shows "\<exists>p \<in> P. policy_digest h p = st_policy_digest s \<and> pl_provider_id p = x
    \<and> int (in_use x db) \<le> capacity_of s \<and> capacity_of s \<le> st_effective_target s
    \<and> st_effective_target s \<le> pl_hard_max p
    \<and> (\<forall>project. int (project_use x project db) \<le> pl_per_project_cap p)"
proof -
  have "within_limits h P db s" "st_provider_id s = x"
    using reachable_capacity [OF assms(1,2)] assms(3) find_state_provider [OF assms(3)]
    by (auto simp: capacity_inv_def)
  then show ?thesis unfolding within_limits_def using capacity_of_target by metis
qed

text \<open>The project table is exact: the recorded \<open>active_units\<close> of every project are the number of
  its rows that hold capacity, in every reachable database.\<close>

theorem project_accounting_exact:
  assumes "policies_ok h P" and "(kernel_step h P)\<^sup>*\<^sup>* initial_db db"
  shows "units provider project db = int (project_use provider project db)"
  using reachable_capacity [OF assms] by (simp add: capacity_inv_def units_ok_def)

section \<open>Life cycle\<close>

text \<open>What stays of a row when it moves.\<close>

definition same_request :: "request_row \<Rightarrow> request_row \<Rightarrow> bool" where
  "same_request r r' \<longleftrightarrow>
     rq_request_id r' = rq_request_id r \<and> rq_provider_id r' = rq_provider_id r
     \<and> rq_project_binding_digest r' = rq_project_binding_digest r
     \<and> rq_admission_lane r' = rq_admission_lane r \<and> rq_run_id r' = rq_run_id r
     \<and> rq_authority_digest r' = rq_authority_digest r \<and> rq_authority_epoch r' = rq_authority_epoch r
     \<and> rq_task_digest r' = rq_task_digest r \<and> rq_member_digest r' = rq_member_digest r
     \<and> rq_provider_tier_binding_digest r' = rq_provider_tier_binding_digest r
     \<and> rq_policy_digest r' = rq_policy_digest r \<and> rq_requested_at r' = rq_requested_at r
     \<and> rq_expires_at r' = rq_expires_at r
     \<and> (rq_fencing_token r \<noteq> None \<longrightarrow> rq_fencing_token r' = rq_fencing_token r)"

definition progresses :: "request_row \<Rightarrow> request_row \<Rightarrow> bool" where
  "progresses r r' \<longleftrightarrow> same_request r r' \<and> edge\<^sup>*\<^sup>* (rq_state r) (rq_state r')"

lemma progresses_refl [simp]: "progresses r r"
  by (simp add: progresses_def same_request_def)

lemma progresses_trans: "progresses a b \<Longrightarrow> progresses b c \<Longrightarrow> progresses a c"
  unfolding progresses_def same_request_def by (metis rtranclp_trans)

lemma moves_progress: "moves_to f s' \<Longrightarrow> edge (rq_state r) s' \<Longrightarrow> progresses r (f r)"
  by (auto simp: progresses_def same_request_def moves_to_def)

text \<open>Rows without a token are the waiting ones, and the cancelled ones that never got a grant.\<close>

definition tokens_ok :: "runtime_db \<Rightarrow> bool" where
  "tokens_ok db \<longleftrightarrow>
     (\<forall>r \<in> set (db_requests db).
        (rq_state r = Waiting \<longrightarrow> rq_fencing_token r = None) \<and>
        (\<forall>n. rq_fencing_token r = Some n \<longrightarrow> n \<le> db_fencing_counter db) \<and>
        (\<forall>r' \<in> set (db_requests db). rq_fencing_token r \<noteq> None \<longrightarrow> rq_fencing_token r' = rq_fencing_token r
            \<longrightarrow> rq_request_id r' = rq_request_id r))"

definition carries_over :: "runtime_db \<Rightarrow> runtime_db \<Rightarrow> bool" where
  "carries_over db db' \<longleftrightarrow>
     (\<forall>r \<in> set (db_requests db). \<exists>r' \<in> set (db_requests db'). progresses r r')"

lemma carries_over_refl [simp]: "carries_over db db"
  unfolding carries_over_def by (metis progresses_refl)

lemma carries_over_subset: "set (db_requests db) \<subseteq> set (db_requests db') \<Longrightarrow> carries_over db db'"
  unfolding carries_over_def by (meson progresses_refl subsetD)

lemma carries_over_same: "db_requests db' = db_requests db \<Longrightarrow> carries_over db db'"
  by (rule carries_over_subset) simp

lemma carries_over_trans: "carries_over a b \<Longrightarrow> carries_over b c \<Longrightarrow> carries_over a c"
  unfolding carries_over_def by (metis progresses_trans)

lemma set_row_cases:
  assumes "distinct (map rq_request_id (db_requests db))" "find_request rid db = Some row"
    "r' \<in> set (db_requests (set_row rid f db))"
  shows "r' = f row \<or> (r' \<in> set (db_requests db) \<and> rq_request_id r' \<noteq> rid)"
proof -
  from assms(3) obtain r where r: "r \<in> set (db_requests db)" "r' = (if rq_request_id r = rid then f r else r)"
    by (auto simp: set_row_def set_update_rows)
  then show ?thesis using find_request_in [OF assms(1) r(1)] assms(2) by (cases "rq_request_id r = rid") auto
qed

lemma carries_over_set_row:
  assumes "distinct (map rq_request_id (db_requests db))" "find_request rid db = Some row" "progresses row (f row)"
    "db_requests db' = db_requests (set_row rid f db)"
  shows "carries_over db db'"
  unfolding carries_over_def assms(4)
proof
  fix r assume r: "r \<in> set (db_requests db)"
  show "\<exists>r' \<in> set (db_requests (set_row rid f db)). progresses r r'"
  proof (cases "rq_request_id r = rid")
    case True
    then have "r = row" using find_request_in [OF assms(1) r] assms(2) by simp
    moreover have "f r \<in> set (db_requests (set_row rid f db))"
      using r True by (force simp: set_row_def set_update_rows)
    ultimately show ?thesis using assms(3) by blast
  next
    case False
    then have "r \<in> set (db_requests (set_row rid f db))" using r by (force simp: set_row_def set_update_rows)
    then show ?thesis using progresses_refl by blast
  qed
qed

lemma micro_requests:
  assumes "micro h P db db'"
  obtains (same) "db_requests db' = db_requests db" "db_fencing_counter db' = db_fencing_counter db"
  | (new) r where "db_requests db' = db_requests db @ [r]" "rq_state r = Waiting" "rq_fencing_token r = None"
      "find_request (rq_request_id r) db = None" "db_fencing_counter db' = db_fencing_counter db"
      "\<exists>p \<in> P. pl_provider_id p = rq_provider_id r \<and> policy_digest h p = rq_policy_digest r"
  | (moved) rid row f s' where "find_request rid db = Some row" "edge (rq_state row) s'" "moves_to f s'"
      "rq_state row \<noteq> Waiting \<or> s' \<noteq> Granted"
      "db_requests db' = db_requests (set_row rid f db)" "db_fencing_counter db' = db_fencing_counter db"
  | (granted) rid row now where "find_request rid db = Some row" "rq_state row = Waiting"
      "db_requests db' = db_requests (set_row rid (\<lambda>r. r\<lparr>rq_state := Granted,
          rq_fencing_token := Some (db_fencing_counter db + 1), rq_granted_at := Some now\<rparr>) db)"
      "db_fencing_counter db' = db_fencing_counter db + 1"
  using assms
proof cases
  case (enqueue r p)
  then show thesis by (intro new [of r]) auto
next
  case (move rid row s' f)
  have "rq_state row \<noteq> Waiting \<or> s' \<noteq> Granted" using move(4) by auto
  then show thesis using move by (intro moved [of rid row s' f]) (simp_all add: set_row_def)
next
  case (release rid row s' f now db1)
  obtain ps where ps: "db1 = db\<lparr>db_projects := ps\<rparr>" using decrement_Inr [OF release(7)] by blast
  have "rq_state row \<noteq> Waiting \<or> s' \<noteq> Granted" using release(4,5) by auto
  then show thesis using release by (intro moved [of rid row s' f]) (simp_all add: set_row_def ps)
next
  case (grant rid row s p now)
  then show thesis by (intro granted [of rid row now]) (simp_all add: grant_db_parts)
next
  case (circuit_step e k s c now s')
  then show thesis using append_Some_Inr(3) [OF circuit_step(1)] by (intro same) simp_all
next
  case (retarget e k p s c now s')
  then show thesis using append_Some_Inr(3) [OF retarget(1)] by (intro same) simp_all
next
  case (genesis e k now s')
  then show thesis using append_None_Inr(3) [OF genesis(1)] by (intro same) simp_all
next
  case (policy_row why p now)
  then show thesis using ensure_policy_row_db by (intro same) fastforce+
next
  case (consume r now)
  then show thesis using consume_db by (intro same) fastforce+
qed

lemma micro_carries:
  assumes "micro h P db db'" "keys_ok db" "tokens_ok db"
  shows "carries_over db db'"
proof -
  have d: "distinct (map rq_request_id (db_requests db))" using assms(2) by (simp add: keys_ok_def)
  from assms(1) show ?thesis
  proof (cases rule: micro_requests)
    case same
    from carries_over_same [OF same(1)] show ?thesis .
  next
    case (new r)
    then show ?thesis by (intro carries_over_subset) auto
  next
    case (moved rid row f s')
    show ?thesis by (rule carries_over_set_row [OF d moved(1) moves_progress [OF moved(3,2)] moved(5)])
  next
    case (granted rid row now)
    have "rq_fencing_token row = None"
      using assms(3) find_request_Some [OF granted(1)] granted(2) by (auto simp: tokens_ok_def)
    then have "progresses row (row\<lparr>rq_state := Granted, rq_fencing_token := Some (db_fencing_counter db + 1), rq_granted_at := Some now\<rparr>)"
      using granted(2) by (auto simp: progresses_def same_request_def)
    from carries_over_set_row [OF d granted(1) this granted(3)] show ?thesis .
  qed
qed

lemma tokens_okI:
  assumes "\<And>r. r \<in> set (db_requests db) \<Longrightarrow> rq_state r = Waiting \<Longrightarrow> rq_fencing_token r = None"
    and "\<And>r n. r \<in> set (db_requests db) \<Longrightarrow> rq_fencing_token r = Some n \<Longrightarrow> n \<le> db_fencing_counter db"
    and "\<And>r r' n. r \<in> set (db_requests db) \<Longrightarrow> r' \<in> set (db_requests db) \<Longrightarrow> rq_fencing_token r = Some n \<Longrightarrow>
           rq_fencing_token r' = Some n \<Longrightarrow> rq_request_id r' = rq_request_id r"
  shows "tokens_ok db"
  unfolding tokens_ok_def
proof (intro ballI conjI allI impI)
  fix r r' assume r: "r \<in> set (db_requests db)" "r' \<in> set (db_requests db)"
    "rq_fencing_token r \<noteq> None" "rq_fencing_token r' = rq_fencing_token r"
  then obtain n where "rq_fencing_token r = Some n" by blast
  with r show "rq_request_id r' = rq_request_id r" by (intro assms(3) [of r r' n]) simp_all
qed (use assms(1,2) in auto)

lemma tokens_okD:
  assumes "tokens_ok db" "r \<in> set (db_requests db)"
  shows "rq_state r = Waiting \<Longrightarrow> rq_fencing_token r = None"
    "rq_fencing_token r = Some n \<Longrightarrow> n \<le> db_fencing_counter db"
    "r' \<in> set (db_requests db) \<Longrightarrow> rq_fencing_token r = Some n \<Longrightarrow> rq_fencing_token r' = Some n \<Longrightarrow>
       rq_request_id r' = rq_request_id r"
proof -
  note t = assms(1) [unfolded tokens_ok_def, THEN bspec, OF assms(2)]
  show "rq_state r = Waiting \<Longrightarrow> rq_fencing_token r = None" using t by blast
  show "rq_fencing_token r = Some n \<Longrightarrow> n \<le> db_fencing_counter db" using t by blast
  show "rq_request_id r' = rq_request_id r"
    if "r' \<in> set (db_requests db)" "rq_fencing_token r = Some n" "rq_fencing_token r' = Some n"
    using t [THEN conjunct2, THEN conjunct2, THEN bspec, OF that(1)] that(2,3) by simp
qed

lemma edge_not_waiting: "edge a b \<Longrightarrow> b \<noteq> Waiting"
  by (cases a; cases b) simp_all

lemma tokens_foreign:
  "tokens_ok db \<Longrightarrow> db_requests db' = db_requests db \<Longrightarrow> db_fencing_counter db \<le> db_fencing_counter db' \<Longrightarrow> tokens_ok db'"
  using tokens_okD [of db] by (intro tokens_okI) (metis order_trans)+

lemma micro_tokens:
  assumes "micro h P db db'" "keys_ok db" "tokens_ok db"
  shows "tokens_ok db'"
proof -
  have d: "distinct (map rq_request_id (db_requests db))" using assms(2) by (simp add: keys_ok_def)
  note t = tokens_okD [OF assms(3)]
  from assms(1) show ?thesis
  proof (cases rule: micro_requests)
    case same
    then show ?thesis using tokens_foreign [OF assms(3)] by simp
  next
    case (new r)
    have c: "x = r \<or> x \<in> set (db_requests db)" if "x \<in> set (db_requests db')" for x
      using that new(1) by auto
    show ?thesis
    proof (rule tokens_okI)
      fix x assume "x \<in> set (db_requests db')" "rq_state x = Waiting"
      then show "rq_fencing_token x = None" using c t(1) new(3) by blast
    next
      fix x n assume x: "x \<in> set (db_requests db')" "rq_fencing_token x = Some n"
      then have "x \<in> set (db_requests db)" using c [OF x(1)] new(3) by auto
      then show "n \<le> db_fencing_counter db'" using t(2) x(2) new(5) by simp
    next
      fix x x' n assume x: "x \<in> set (db_requests db')" "x' \<in> set (db_requests db')"
        "rq_fencing_token x = Some n" "rq_fencing_token x' = Some n"
      then have "x \<in> set (db_requests db)" "x' \<in> set (db_requests db)"
        using c [OF x(1)] c [OF x(2)] new(3) by auto
      then show "rq_request_id x' = rq_request_id x" using t(3) x(3,4) by blast
    qed
  next
    case (moved rid row f s')
    have row: "row \<in> set (db_requests db)" "rq_request_id row = rid"
      using find_request_Some [OF moved(1)] by auto
    have f: "rq_fencing_token (f row) = rq_fencing_token row" "rq_request_id (f row) = rid" "rq_state (f row) = s'"
      using moved(3) row by (simp_all add: moves_to_def)
    have c: "\<exists>r0 \<in> set (db_requests db). rq_fencing_token r = rq_fencing_token r0 \<and> rq_request_id r = rq_request_id r0
        \<and> (rq_state r = Waiting \<longrightarrow> rq_state r0 = Waiting)" if "r \<in> set (db_requests db')" for r
    proof -
      have "r \<in> set (db_requests (set_row rid f db))" using that by (simp add: moved(5))
      from set_row_cases [OF d moved(1) this] show ?thesis
      proof
        assume "r = f row"
        then show ?thesis using row f edge_not_waiting [OF moved(2)] by (intro bexI [of _ row]) simp_all
      qed blast
    qed
    show ?thesis
    proof (rule tokens_okI)
      fix r assume "r \<in> set (db_requests db')" "rq_state r = Waiting"
      then show "rq_fencing_token r = None" using c t(1) by metis
    next
      fix r n assume "r \<in> set (db_requests db')" "rq_fencing_token r = Some n"
      then show "n \<le> db_fencing_counter db'" using c t(2) moved(6) by metis
    next
      fix r r' n assume "r \<in> set (db_requests db')" "r' \<in> set (db_requests db')"
        "rq_fencing_token r = Some n" "rq_fencing_token r' = Some n"
      then show "rq_request_id r' = rq_request_id r" using c t(3) by metis
    qed
  next
    case (granted rid row now)
    let ?g = "row\<lparr>rq_state := Granted, rq_fencing_token := Some (db_fencing_counter db + 1), rq_granted_at := Some now\<rparr>"
    have row: "row \<in> set (db_requests db)" "rq_request_id row = rid"
      using find_request_Some [OF granted(1)] by auto
    have c: "r = ?g \<or> r \<in> set (db_requests db) \<and> rq_request_id r \<noteq> rid" if "r \<in> set (db_requests db')" for r
      by (rule set_row_cases [OF d granted(1) that [unfolded granted(3)]])
    have old: "n \<noteq> db_fencing_counter db + 1" if "r \<in> set (db_requests db)" "rq_fencing_token r = Some n" for r n
      using t(2) [OF that] by simp
    show ?thesis
    proof (rule tokens_okI)
      fix r assume r: "r \<in> set (db_requests db')" "rq_state r = Waiting"
      then have "r \<in> set (db_requests db)" using c [OF r(1)] by auto
      then show "rq_fencing_token r = None" using t(1) r(2) by blast
    next
      fix r n assume r: "r \<in> set (db_requests db')" "rq_fencing_token r = Some n"
      from c [OF r(1)] show "n \<le> db_fencing_counter db'"
        using t(2) [of r n] r(2) granted(4) by auto
    next
      fix r r' n assume r: "r \<in> set (db_requests db')" "r' \<in> set (db_requests db')"
        "rq_fencing_token r = Some n" "rq_fencing_token r' = Some n"
      show "rq_request_id r' = rq_request_id r"
        using c [OF r(1)] c [OF r(2)] r(3,4) old [of r n] old [of r' n] t(3) [of r r' n] row(2) by auto
    qed
  qed
qed

text \<open>A request is bound to a policy of its own provider.\<close>

definition bound_row :: "(string \<Rightarrow> string) \<Rightarrow> policy set \<Rightarrow> request_row \<Rightarrow> bool" where
  "bound_row h P r \<longleftrightarrow> (\<exists>p \<in> P. pl_provider_id p = rq_provider_id r \<and> policy_digest h p = rq_policy_digest r)"

definition bound_ok :: "(string \<Rightarrow> string) \<Rightarrow> policy set \<Rightarrow> runtime_db \<Rightarrow> bool" where
  "bound_ok h P db \<longleftrightarrow> (\<forall>r \<in> set (db_requests db). bound_row h P r)"

lemma micro_bound:
  assumes "micro h P db db'" "keys_ok db" "bound_ok h P db"
  shows "bound_ok h P db'"
proof -
  have d: "distinct (map rq_request_id (db_requests db))" using assms(2) by (simp add: keys_ok_def)
  have upd: "bound_ok h P db'" if "find_request rid db = Some row" "db_requests db' = db_requests (set_row rid f db)"
    "rq_provider_id (f row) = rq_provider_id row" "rq_policy_digest (f row) = rq_policy_digest row" for rid row f
    unfolding bound_ok_def
  proof
    fix r assume "r \<in> set (db_requests db')"
    from set_row_cases [OF d that(1) this [unfolded that(2)]] show "bound_row h P r"
      using assms(3) find_request_Some [OF that(1)] that(3,4) by (auto simp: bound_ok_def bound_row_def)
  qed
  from assms(1) show ?thesis
  proof (cases rule: micro_requests)
    case same
    then show ?thesis using assms(3) by (simp add: bound_ok_def)
  next
    case (new r)
    then show ?thesis using assms(3) by (auto simp: bound_ok_def bound_row_def)
  next
    case (moved rid row f s')
    show ?thesis by (rule upd [OF moved(1,5)]) (use moved(3) in \<open>simp_all add: moves_to_def\<close>)
  next
    case (granted rid row now)
    show ?thesis by (rule upd [OF granted(1,3)]) simp_all
  qed
qed

lemma micros_bound:
  "(micro h P)\<^sup>*\<^sup>* db db' \<Longrightarrow> keys_ok db \<Longrightarrow> bound_ok h P db \<Longrightarrow> bound_ok h P db'"
  by (induction rule: rtranclp_induct) (auto intro: micro_bound dest: micros_keys)

lemma micros_requests:
  assumes "(micro h P)\<^sup>*\<^sup>* db db'" "keys_ok db" "tokens_ok db"
  shows "keys_ok db' \<and> tokens_ok db' \<and> carries_over db db'"
  using assms
proof (induction rule: rtranclp_induct)
  case (step y z)
  then show ?case
    using micro_keys micro_tokens micro_carries carries_over_trans by blast
qed simp

definition request_inv :: "(string \<Rightarrow> string) \<Rightarrow> policy set \<Rightarrow> runtime_db \<Rightarrow> bool" where
  "request_inv h P db \<longleftrightarrow> capacity_inv h P db \<and> tokens_ok db \<and> bound_ok h P db"

lemma kernel_step_requests:
  assumes "kernel_step h P db db'" "policies_ok h P" "request_inv h P db"
  shows "request_inv h P db' \<and> carries_over db db'"
proof -
  have k: "keys_ok db" "units_ok db" "tokens_ok db" "capacity_inv h P db" "bound_ok h P db"
    using assms(3) capacity_inv_keys by (auto simp: request_inv_def)
  have c: "capacity_inv h P db'" by (rule kernel_step_capacity [OF assms(1,2) k(4)])
  from kernel_step_micro [OF assms(1,2) k(1,2)] show ?thesis
  proof
    assume m: "(micro h P)\<^sup>*\<^sup>* db db'"
    from micros_requests [OF m k(1,3)] micros_bound [OF m k(1,5)] c show ?thesis by (simp add: request_inv_def)
  next
    assume f: "db_requests db' = db_requests db \<and> db_projects db' = db_projects db
      \<and> db_states db' = db_states db \<and> db_transitions db' = db_transitions db \<and> db_policies db' = db_policies db
      \<and> db_fencing_counter db \<le> db_fencing_counter db'"
    then have "carries_over db db'" by (intro carries_over_same) simp
    with f c k(5) tokens_foreign [OF k(3)] show ?thesis by (simp add: request_inv_def bound_ok_def)
  qed
qed

interpretation request: step_system "\<lambda>db. db = initial_db" "kernel_step h P"
  "\<lambda>db. policies_ok h P \<longrightarrow> request_inv h P db" for h P
proof unfold_locales
  fix db assume "db = initial_db"
  then show "policies_ok h P \<longrightarrow> request_inv h P db"
    by (simp add: request_inv_def capacity_inv_initial) (simp add: tokens_ok_def bound_ok_def initial_db_def)
qed (use kernel_step_requests in blast)

lemma reachable_requests:
  "policies_ok h P \<Longrightarrow> (kernel_step h P)\<^sup>*\<^sup>* initial_db db \<Longrightarrow> request_inv h P db"
  using request.reachable_inv [OF refl] by blast

lemma steps_carry:
  assumes "(kernel_step h P)\<^sup>*\<^sup>* db db'" "policies_ok h P" "request_inv h P db"
  shows "request_inv h P db' \<and> carries_over db db'"
  using assms(1)
proof (induction rule: rtranclp_induct)
  case (step y z)
  then show ?case using kernel_step_requests [OF _ assms(2)] carries_over_trans by blast
qed (use assms(3) in simp)

text \<open>A fencing token is never reused: in every reachable database two requests with the same
  token are the same request, and no token is ahead of the shared counter.\<close>

theorem fencing_tokens_unique:
  assumes "policies_ok h P" and "(kernel_step h P)\<^sup>*\<^sup>* initial_db db"
    and "r \<in> set (db_requests db)" "r' \<in> set (db_requests db)"
    and "rq_fencing_token r = Some n" "rq_fencing_token r' = Some n"
  shows "r' = r \<and> n \<le> db_fencing_counter db"
proof -
  have t: "tokens_ok db" "keys_ok db"
    using reachable_requests [OF assms(1,2)] capacity_inv_keys by (auto simp: request_inv_def)
  note d = tokens_okD [OF t(1) assms(3)]
  have "rq_request_id r' = rq_request_id r" by (rule d(3) [OF assms(4-6)])
  then have "r' = r" using t(2) key_unique assms(3,4) by (fastforce simp: keys_ok_def)
  with d(2) [OF assms(5)] show ?thesis by simp
qed

text \<open>C11. Requests follow their life cycle: whatever the kernels do, a request keeps its identity, its
  binding and its token, is never deleted, and its state only moves along the edges waiting to granted
  or cancelled, granted to dispatched or cancelled, dispatched to completed or reconciliation
  required, reconciliation required to reconciled.\<close>

theorem requests_follow_life_cycle:
  assumes "policies_ok h P" and "(kernel_step h P)\<^sup>*\<^sup>* initial_db db" and "(kernel_step h P)\<^sup>*\<^sup>* db db'"
    and "find_request rid db = Some r"
  shows "\<exists>r'. find_request rid db' = Some r' \<and> same_request r r' \<and> edge\<^sup>*\<^sup>* (rq_state r) (rq_state r')"
proof -
  have s: "request_inv h P db' \<and> carries_over db db'"
    by (rule steps_carry [OF assms(3,1) reachable_requests [OF assms(1,2)]])
  have r: "r \<in> set (db_requests db)" "rq_request_id r = rid" using find_request_Some [OF assms(4)] by auto
  from s r(1) obtain r' where r': "r' \<in> set (db_requests db')" "progresses r r'"
    by (auto simp: carries_over_def)
  have "keys_ok db'" using s capacity_inv_keys by (auto simp: request_inv_def)
  then have "find_request (rq_request_id r') db' = Some r'"
    using r'(1) by (intro find_request_in) (simp add: keys_ok_def)
  with r' r(2) show ?thesis by (auto simp: progresses_def same_request_def)
qed

text \<open>Edges never lead back.\<close>

fun rank :: "request_state \<Rightarrow> nat" where
  "rank Waiting = 0" | "rank Granted = 1" | "rank Dispatched = 2" | "rank Reconciliation_Required = 3"
| "rank Completed = 4" | "rank Cancelled = 4" | "rank Reconciled = 4"

lemma edge_rank: "edge a b \<Longrightarrow> rank a < rank b"
  by (cases a; cases b) simp_all

lemma edges_rank: "edge\<^sup>*\<^sup>* a b \<Longrightarrow> a = b \<or> rank a < rank b"
  by (induction rule: rtranclp_induct) (auto dest: edge_rank)

end
