(* ===== verification/AdmissionControl.thy ===== *)
theory AdmissionControl
  imports AdmissionSafety
begin

text \<open>
  The control chain of a provider: its receipts are numbered without gaps, each names the digest of
  the one before, the last one is the receipt of the current state, and appending the next
  one succeeds. This is an invariant of every kernel step, so the integrity check with
  which each operation starts never refuses a database that only kernels have written.
\<close>

section \<open>The integrity check, taken apart\<close>

definition receipts_of :: "string \<Rightarrow> runtime_db \<Rightarrow> transition_row list" where
  "receipts_of x db = filter (\<lambda>t. tr_provider_id t = x) (db_transitions db)"

definition receipt_at :: "int \<Rightarrow> transition_row list \<Rightarrow> transition_row option" where
  "receipt_at n ts = lookup_row (\<lambda>t. tr_control_revision t = n) ts"

lemma find_transition_receipt: "find_transition x n db = receipt_at n (receipts_of x db)"
proof -
  have "lookup_row (\<lambda>t. tr_provider_id t = x \<and> tr_control_revision t = n) ts
      = lookup_row (\<lambda>t. tr_control_revision t = n) (filter (\<lambda>t. tr_provider_id t = x) ts)" for ts :: "transition_row list"
    by (induction ts) auto
  then show ?thesis by (simp add: find_transition_def receipt_at_def receipts_of_def)
qed

lemma transition_revisions_receipts: "transition_revisions x db = map tr_control_revision (receipts_of x db)"
  by (simp add: transition_revisions_def receipts_of_def)

definition state_valid ::
  "(string \<Rightarrow> string) \<Rightarrow> policy \<Rightarrow> deployment_mode option \<Rightarrow> string option \<Rightarrow> state_row \<Rightarrow> bool" where
  "state_valid h p m d s \<longleftrightarrow>
     st_policy_digest s = policy_digest h p \<and> is_sha256 (st_deployment_digest s)
     \<and> (m \<noteq> None \<longrightarrow> m = Some (st_deployment_mode s)) \<and> (d \<noteq> None \<longrightarrow> d = Some (st_deployment_digest s))
     \<and> 1 \<le> st_effective_target s \<and> st_effective_target s \<le> pl_hard_max p \<and> 1 \<le> st_control_revision s
     \<and> is_sha256 (st_control_digest s)
     \<and> (st_circuit_state s = Half_Open \<longrightarrow> (\<exists>x. st_half_open_probe s = Some x \<and> is_sha256 x))
     \<and> (st_circuit_state s \<noteq> Half_Open \<longrightarrow> st_half_open_probe s = None)"

definition prior_digest :: "int \<Rightarrow> transition_row list \<Rightarrow> string" where
  "prior_digest n ts =
     (case (if n > 1 then receipt_at (n - 1) ts else None) of None \<Rightarrow> zero_digest | Some r \<Rightarrow> tr_body_sha256 r)"

definition receipts_valid :: "(string \<Rightarrow> string) \<Rightarrow> policy \<Rightarrow> state_row \<Rightarrow> transition_row list \<Rightarrow> bool" where
  "receipts_valid h p s ts \<longleftrightarrow>
     (\<exists>t. receipt_at (st_control_revision s) ts = Some t
        \<and> int (length ts) = st_control_revision s
        \<and> Min (tr_control_revision ` set ts) = 1 \<and> Max (tr_control_revision ` set ts) = st_control_revision s
        \<and> dict_eq (tr_body_json t) (control_document (pl_provider_id p) (policy_digest h p)
             (st_deployment_mode s) (st_deployment_digest s) (st_control_revision s)
             (tr_prior_control_digest t) (receipt_change s t) (tr_created_at t))
        \<and> sha256_body h (tr_body_json t) = tr_body_sha256 t \<and> tr_body_sha256 t = st_control_digest s
        \<and> tr_prior_control_digest t = prior_digest (st_control_revision s) ts)"

lemma validated_iff:
  "validated_control_state h p m d db = Inr s \<longleftrightarrow>
     find_state (pl_provider_id p) db = Some s \<and> state_valid h p m d s
     \<and> receipts_valid h p s (receipts_of (pl_provider_id p) db)"
proof (cases "find_state (pl_provider_id p) db")
  case None
  then show ?thesis by (simp add: validated_control_state_def)
next
  case (Some s0)
  let ?ts = "receipts_of (pl_provider_id p) db"
  let ?bad = "st_policy_digest s0 \<noteq> policy_digest h p
             \<or> \<not> is_sha256 (st_deployment_digest s0)
             \<or> (m \<noteq> None \<and> m \<noteq> Some (st_deployment_mode s0))
             \<or> (d \<noteq> None \<and> d \<noteq> Some (st_deployment_digest s0))
             \<or> \<not> (1 \<le> st_effective_target s0 \<and> st_effective_target s0 \<le> pl_hard_max p)
             \<or> st_control_revision s0 < 1
             \<or> \<not> is_sha256 (st_control_digest s0)
             \<or> (st_circuit_state s0 = Half_Open
                \<and> \<not> (case st_half_open_probe s0 of None \<Rightarrow> False | Some d \<Rightarrow> is_sha256 d))
             \<or> (st_circuit_state s0 \<noteq> Half_Open \<and> st_half_open_probe s0 \<noteq> None)"
  have bad: "?bad \<longleftrightarrow> \<not> state_valid h p m d s0"
    by (cases "st_half_open_probe s0") (auto simp: state_valid_def)
  show ?thesis
    unfolding validated_control_state_def Some option.case bad find_transition_receipt transition_revisions_receipts
      receipts_valid_def prior_digest_def Let_def set_map
    by (cases "receipt_at (st_control_revision s0) ?ts") auto
qed

section \<open>Appending succeeds\<close>

lemma receipt_at_append:
  "receipt_at n (ts @ [t]) = (case receipt_at n ts of None \<Rightarrow> if tr_control_revision t = n then Some t else None | Some r \<Rightarrow> Some r)"
  by (auto simp: receipt_at_def lookup_row_append split: option.splits)

lemma receipts_valid_bounds:
  assumes "receipts_valid h p s ts" "t \<in> set ts"
  shows "1 \<le> tr_control_revision t" "tr_control_revision t \<le> st_control_revision s"
proof -
  have f: "finite (tr_control_revision ` set ts)" and m: "tr_control_revision t \<in> tr_control_revision ` set ts"
    using assms(2) by auto
  from Min_le [OF f m] Max_ge [OF f m] show "1 \<le> tr_control_revision t" "tr_control_revision t \<le> st_control_revision s"
    using assms(1) by (auto simp: receipts_valid_def)
qed

lemma receipts_valid_fresh: "receipts_valid h p s ts \<Longrightarrow> receipt_at (st_control_revision s + 1) ts = None"
  unfolding receipt_at_def lookup_row_None using receipts_valid_bounds by fastforce

lemma receipts_valid_append:
  assumes "receipts_valid h p s ts" "1 \<le> st_control_revision s"
    and "tr_control_revision t = st_control_revision s + 1" "tr_prior_control_digest t = st_control_digest s"
    and "st_control_revision s' = st_control_revision s + 1" "st_control_digest s' = tr_body_sha256 t"
    and "sha256_body h (tr_body_json t) = tr_body_sha256 t"
    and "dict_eq (tr_body_json t) (control_document (pl_provider_id q) (policy_digest h q)
             (st_deployment_mode s') (st_deployment_digest s') (st_control_revision s')
             (tr_prior_control_digest t) (receipt_change s' t) (tr_created_at t))"
  shows "receipts_valid h q s' (ts @ [t])"
proof -
  note n = receipts_valid_fresh [OF assms(1)]
  from assms(1) obtain u where u: "receipt_at (st_control_revision s) ts = Some u"
    "int (length ts) = st_control_revision s" "Min (tr_control_revision ` set ts) = 1"
    "Max (tr_control_revision ` set ts) = st_control_revision s" "tr_body_sha256 u = st_control_digest s"
    unfolding receipts_valid_def by blast
  have ne: "ts \<noteq> []" using u(1) by (auto simp: receipt_at_def)
  have last: "receipt_at (st_control_revision s') (ts @ [t]) = Some t"
    by (simp add: receipt_at_append n assms(3,5))
  have prior: "prior_digest (st_control_revision s') (ts @ [t]) = st_control_digest s"
    using assms(2) by (simp add: prior_digest_def assms(5) receipt_at_append u(1,5))
  have "Min (tr_control_revision ` set (ts @ [t])) = 1" "Max (tr_control_revision ` set (ts @ [t])) = st_control_revision s'"
    using ne assms(2) by (simp_all add: u(3,4) assms(3,5) Min_insert Max_insert)
  then show ?thesis
    unfolding receipts_valid_def using last prior assms(4,6-8) u(2) by (intro exI [of _ t]) (simp add: assms(5))
qed

definition fresh_receipt :: "transition_row \<Rightarrow> runtime_db \<Rightarrow> bool" where
  "fresh_receipt t db \<longleftrightarrow>
     (\<forall>r \<in> set (db_transitions db). tr_transition_id r \<noteq> tr_transition_id t \<and> tr_body_sha256 r \<noteq> tr_body_sha256 t)"

lemma receipts_of_simps [simp]:
  "receipts_of x (db\<lparr>db_requests := rs\<rparr>) = receipts_of x db"
  "receipts_of x (db\<lparr>db_projects := ps\<rparr>) = receipts_of x db"
  "receipts_of x (db\<lparr>db_authorities := as\<rparr>) = receipts_of x db"
  "receipts_of x (db\<lparr>db_policies := pols\<rparr>) = receipts_of x db"
  "receipts_of x (db\<lparr>db_states := ss\<rparr>) = receipts_of x db"
  "receipts_of x (db\<lparr>db_transitions := db_transitions db @ [t]\<rparr>)
     = receipts_of x db @ (if tr_provider_id t = x then [t] else [])"
  by (simp_all add: receipts_of_def)

lemma receipt_body:
  "tr_body_json (receipt e k p n d c now) = json_norm (control_document (pl_provider_id p) (policy_digest (sha e) p) (k_mode k)
     (deployment_binding_digest (sha e) (k_path k) (k_mode k) p) n d c now)"
  "tr_body_sha256 (receipt e k p n d c now) = sha256_body (sha e) (control_document (pl_provider_id p)
     (policy_digest (sha e) p) (k_mode k) (deployment_binding_digest (sha e) (k_path k) (k_mode k) p) n d c now)"
  "tr_created_at (receipt e k p n d c now) = now"
  by (simp_all add: receipt_def Let_def)

lemma receipt_change_receipt:
  "receipt_change (control_update e k p c m g now s) (receipt e k p n d c now) = c"
  "receipt_change (first_state e k p c m g now) (receipt e k p n d c now) = c"
  by (simp_all add: receipt_change_def control_update_def first_state_def receipt_def Let_def)

lemma digest_hex: "\<forall>t. is_sha256 (sha e t) \<Longrightarrow> is_sha256 (deployment_binding_digest (sha e) a m p)"
  "\<forall>t. is_sha256 (sha e t) \<Longrightarrow> is_sha256 (tr_body_sha256 (receipt e k p n d c now))"
  by (simp_all add: deployment_binding_digest_def sha256_hex_def receipt_def Let_def sha256_body_def)

lemma check_change_full:
  assumes "check_change p c = Inr u"
  shows "(cc_circuit c = Half_Open) = (cc_probe c \<noteq> None)" "1 \<le> cc_target c" "cc_target c \<le> pl_hard_max p"
    "\<And>d. cc_probe c = Some d \<Longrightarrow> is_sha256 d"
  using assms by (auto simp: check_change_def result_simps split: if_splits option.splits)

lemma count_rows_key:
  assumes "distinct (map k rs)" "r \<in> set rs" "k r = x"
  shows "count_rows (\<lambda>r. k r = x) rs = 1"
  using assms
proof (induction rs)
  case (Cons y ys)
  then show ?case
    by (cases "y = r") (auto simp: count_rows_0 image_iff)
qed simp

text \<open>The state a control change leaves: valid, with the receipt of the change.\<close>

lemma append_succeeds:
  assumes v: "validated_control_state (sha e) p m d db = Inr s" and prov: "pl_provider_id q = pl_provider_id p"
    and hex: "\<forall>t. is_sha256 (sha e t)" and c: "check_change q c = Inr ()"
    and dis: "distinct (map st_provider_id (db_states db))"
    and t_def: "t = receipt e k q (st_control_revision s + 1) (st_control_digest s) c now"
    and fresh: "fresh_receipt t db"
    and s'_def: "s' = control_update e k q c (st_control_revision s + 1) (tr_body_sha256 t) now s"
  shows "append_control_transition e k q (Some s) c now db = Inr (s',
     db\<lparr>db_transitions := db_transitions db @ [t],
        db_states := update_rows (\<lambda>r. st_provider_id r = pl_provider_id q)
          (control_update e k q c (st_control_revision s + 1) (tr_body_sha256 t) now) (db_states db)\<rparr>)"
proof -
  let ?ts = "receipts_of (pl_provider_id p) db"
  from v have f: "find_state (pl_provider_id q) db = Some s" and sv: "state_valid (sha e) p m d s"
    and rv: "receipts_valid (sha e) p s ?ts"
    unfolding validated_iff prov by auto
  have rev: "1 \<le> st_control_revision s" using sv by (simp add: state_valid_def)
  have "tr_control_revision r \<le> st_control_revision s" if "r \<in> set (db_transitions db)" "tr_provider_id r = pl_provider_id q" for r
    using receipts_valid_bounds(2) [OF rv] that by (simp add: receipts_of_def prov)
  then have ins: "insert_transition t db = Inr (db\<lparr>db_transitions := db_transitions db @ [t]\<rparr>)"
    using fresh unfolding insert_transition_Inr fresh_receipt_def t_def by fastforce
  have cnt: "count_rows (same_projection q s) (db_states db) = 1"
  proof -
    have s: "s \<in> set (db_states db)" "st_provider_id s = pl_provider_id q" using find_state_provider [OF f] by auto
    have "same_projection q s r = (st_provider_id r = pl_provider_id q)" if "r \<in> set (db_states db)" for r
      using key_unique [OF dis that s(1)] s(2) by (auto simp: same_projection_def)
    then have "count_rows (same_projection q s) (db_states db) = count_rows (\<lambda>r. st_provider_id r = pl_provider_id q) (db_states db)"
      by (rule count_rows_cong)
    also have "\<dots> = 1"
      using dis s by (intro count_rows_key)
    finally show ?thesis .
  qed
  let ?upd = "control_update e k q c (st_control_revision s + 1) (tr_body_sha256 t) now"
  let ?db = "db\<lparr>db_transitions := db_transitions db @ [t],
        db_states := update_rows (\<lambda>r. st_provider_id r = pl_provider_id q) ?upd (db_states db)\<rparr>"
  have f': "find_state (pl_provider_id q) ?db = Some s'"
    using find_state_control [of ?db "pl_provider_id q" ?upd db "pl_provider_id q"] f
    by (simp add: control_update_def s'_def)
  have v': "validated_control_state (sha e) q (Some (k_mode k))
      (Some (deployment_binding_digest (sha e) (k_path k) (k_mode k) q)) ?db = Inr s'"
    unfolding validated_iff
  proof (intro conjI f')
    show "state_valid (sha e) q (Some (k_mode k)) (Some (deployment_binding_digest (sha e) (k_path k) (k_mode k) q)) s'"
      using check_change_full [OF c] rev digest_hex [OF hex]
      by (auto simp: state_valid_def s'_def control_update_def t_def)
    have ts: "receipts_of (pl_provider_id q) ?db = ?ts @ [t]"
      by (simp add: receipts_of_def t_def prov)
    show "receipts_valid (sha e) q s' (receipts_of (pl_provider_id q) ?db)"
      unfolding ts
      by (rule receipts_valid_append [OF rv rev])
        (simp_all add: s'_def t_def receipt_body receipt_change_receipt, simp_all add: control_update_def)
  qed
  show ?thesis
    unfolding append_control_transition_def Let_def option.case t_def [symmetric]
    by (simp add: c ins write_projection_def cnt update_projection [OF dis f] v')
qed

text \<open>A new provider: the genesis receipt.\<close>

lemma genesis_succeeds:
  assumes none: "find_state (pl_provider_id (k_policy k)) db = None" "receipts_of (pl_provider_id (k_policy k)) db = []"
    and hex: "\<forall>t. is_sha256 (sha e t)" and c: "check_change (k_policy k) c = Inr ()"
    and t_def: "t = receipt e k (k_policy k) 1 zero_digest c now" and fresh: "fresh_receipt t db"
    and s'_def: "s' = first_state e k (k_policy k) c 1 (tr_body_sha256 t) now"
  shows "append_control_transition e k (k_policy k) None c now db = Inr (s',
     db\<lparr>db_transitions := db_transitions db @ [t], db_states := db_states db @ [s']\<rparr>)"
proof -
  let ?p = "k_policy k"
  let ?db = "db\<lparr>db_transitions := db_transitions db @ [t], db_states := db_states db @ [s']\<rparr>"
  have "tr_provider_id r \<noteq> pl_provider_id ?p" if "r \<in> set (db_transitions db)" for r
    using none(2) that by (auto simp: receipts_of_def filter_empty_conv)
  then have ins: "insert_transition t db = Inr (db\<lparr>db_transitions := db_transitions db @ [t]\<rparr>)"
    using fresh unfolding insert_transition_Inr fresh_receipt_def t_def by fastforce
  have prov: "st_provider_id s' = pl_provider_id ?p" by (simp add: s'_def first_state_def)
  have f': "find_state (pl_provider_id ?p) ?db = Some s'"
    using none(1) prov by (simp add: find_state_def lookup_row_append)
  have ts: "receipts_of (pl_provider_id ?p) ?db = [t]"
    using none(2) by (simp add: receipts_of_def t_def)
  have v': "validated_control_state (sha e) ?p (Some (k_mode k))
      (Some (deployment_binding_digest (sha e) (k_path k) (k_mode k) ?p)) ?db = Inr s'"
    unfolding validated_iff
  proof (intro conjI f')
    show "state_valid (sha e) ?p (Some (k_mode k)) (Some (deployment_binding_digest (sha e) (k_path k) (k_mode k) ?p)) s'"
      using check_change_full [OF c] digest_hex [OF hex]
      by (auto simp: state_valid_def s'_def first_state_def t_def)
    show "receipts_valid (sha e) ?p s' (receipts_of (pl_provider_id ?p) ?db)"
      unfolding ts receipts_valid_def
      by (rule exI [of _ t])
        (simp add: s'_def t_def receipt_body receipt_change_receipt receipt_at_def prior_digest_def,
          simp add: first_state_def receipt_body)
  qed
  show ?thesis
    unfolding append_control_transition_def Let_def option.case t_def [symmetric]
    using none(1) v' by (simp add: c ins write_projection_def s'_def [symmetric] find_state_def)
qed

section \<open>The chain is an invariant\<close>

definition linked :: "(string \<Rightarrow> string) \<Rightarrow> transition_row list \<Rightarrow> bool" where
  "linked h ts \<longleftrightarrow> distinct (map tr_control_revision ts) \<and>
     (\<forall>t \<in> set ts. 1 \<le> tr_control_revision t \<and> sha256_body h (tr_body_json t) = tr_body_sha256 t
        \<and> (if tr_control_revision t = 1 then tr_prior_control_digest t = zero_digest
           else \<exists>r \<in> set ts. tr_control_revision r = tr_control_revision t - 1
                  \<and> tr_body_sha256 r = tr_prior_control_digest t))"

definition control_inv :: "(string \<Rightarrow> string) \<Rightarrow> policy set \<Rightarrow> runtime_db \<Rightarrow> bool" where
  "control_inv h P db \<longleftrightarrow>
     (\<forall>x. linked h (receipts_of x db)) \<and> (\<forall>x. find_state x db = None \<longrightarrow> receipts_of x db = [])
     \<and> (\<forall>x s. find_state x db = Some s \<longrightarrow>
          (\<exists>p \<in> P. pl_provider_id p = x \<and> validated_control_state h p None None db = Inr s))"

lemma control_invD:
  assumes "control_inv h P db"
  shows "linked h (receipts_of x db)" "find_state x db = None \<Longrightarrow> receipts_of x db = []"
    "find_state x db = Some s \<Longrightarrow> \<exists>p \<in> P. pl_provider_id p = x \<and> validated_control_state h p None None db = Inr s"
  using assms by (simp_all add: control_inv_def)

lemma control_inv_cong:
  assumes "control_inv h P db" "\<And>x. receipts_of x db' = receipts_of x db" "\<And>x. find_state x db' = find_state x db"
  shows "control_inv h P db'"
  using assms(1) by (simp add: control_inv_def validated_iff assms(2,3))

lemma linked_append:
  assumes "linked h ts" "receipts_valid h p s ts" "1 \<le> st_control_revision s"
    and "tr_control_revision t = st_control_revision s + 1" "tr_prior_control_digest t = st_control_digest s"
    and "sha256_body h (tr_body_json t) = tr_body_sha256 t"
  shows "linked h (ts @ [t])"
proof -
  from assms(2) obtain u where u: "receipt_at (st_control_revision s) ts = Some u" "tr_body_sha256 u = st_control_digest s"
    unfolding receipts_valid_def by blast
  then have u': "u \<in> set ts" "tr_control_revision u = st_control_revision s"
    using lookup_row_Some [OF u(1) [unfolded receipt_at_def]] by simp_all
  have "tr_control_revision t \<notin> tr_control_revision ` set ts"
    using receipts_valid_bounds(2) [OF assms(2)] assms(4) by fastforce
  moreover have "\<exists>r \<in> set (ts @ [t]). tr_control_revision r = tr_control_revision t - 1
      \<and> tr_body_sha256 r = tr_prior_control_digest t"
    using u u' assms(4,5) by (intro bexI [of _ u]) simp_all
  moreover have "(if tr_control_revision r = 1 then tr_prior_control_digest r = zero_digest
           else \<exists>q \<in> set (ts @ [t]). tr_control_revision q = tr_control_revision r - 1
                  \<and> tr_body_sha256 q = tr_prior_control_digest r)" if "r \<in> set ts" for r
    using assms(1) that by (auto simp: linked_def)
  ultimately show ?thesis
    using assms(1,3,4,6) by (auto simp: linked_def)
qed

text \<open>A state change that the integrity check does not read.\<close>

definition same_control :: "state_row \<Rightarrow> state_row \<Rightarrow> bool" where
  "same_control s s' \<longleftrightarrow>
     st_provider_id s' = st_provider_id s \<and> st_policy_digest s' = st_policy_digest s
     \<and> st_deployment_mode s' = st_deployment_mode s \<and> st_deployment_digest s' = st_deployment_digest s
     \<and> st_effective_target s' = st_effective_target s \<and> st_circuit_state s' = st_circuit_state s
     \<and> st_half_open_probe s' = st_half_open_probe s \<and> st_control_revision s' = st_control_revision s
     \<and> st_control_digest s' = st_control_digest s \<and> st_last_signal s' = st_last_signal s"

lemma same_control_valid:
  assumes "same_control s s'"
  shows "state_valid h p m d s' = state_valid h p m d s" "receipts_valid h p s' ts = receipts_valid h p s ts"
  using assms by (simp_all add: same_control_def state_valid_def receipts_valid_def receipt_change_def)

lemma control_inv_state:
  assumes "control_inv h P db" "p \<in> P" "validated_control_state h p m d db' = Inr s'"
    "linked h (receipts_of (pl_provider_id p) db')"
    "\<And>x. x \<noteq> pl_provider_id p \<Longrightarrow> receipts_of x db' = receipts_of x db"
    "\<And>x. x \<noteq> pl_provider_id p \<Longrightarrow> find_state x db' = find_state x db"
  shows "control_inv h P db'"
  unfolding control_inv_def
proof (intro conjI allI impI)
  have sp: "find_state (pl_provider_id p) db' = Some s'" "validated_control_state h p None None db' = Inr s'"
    using assms(3) unfolding validated_iff by (auto simp: state_valid_def)
  fix x
  show "linked h (receipts_of x db')"
    using assms(4,5) control_invD(1) [OF assms(1)] by (cases "x = pl_provider_id p") simp_all
  show "receipts_of x db' = []" if "find_state x db' = None"
    using that sp(1) assms(5,6) control_invD(2) [OF assms(1)] by (cases "x = pl_provider_id p") simp_all
  show "\<exists>p \<in> P. pl_provider_id p = x \<and> validated_control_state h p None None db' = Inr s" if s: "find_state x db' = Some s" for s
  proof (cases "x = pl_provider_id p")
    case True
    with s sp assms(2) show ?thesis by auto
  next
    case False
    with s assms(6) have "find_state x db = Some s" by simp
    from control_invD(3) [OF assms(1) this] obtain q where
      "q \<in> P" "pl_provider_id q = x" "validated_control_state h q None None db = Inr s" by blast
    then show ?thesis using assms(5,6) [OF False] by (auto simp: validated_iff)
  qed
qed

lemma control_inv_append:
  assumes "append_control_transition e k p (Some s) c now db = Inr (s', db')" "sha e = h" "p \<in> P"
    "find_state (pl_provider_id p) db = Some s" "keys_ok db" "control_inv h P db"
  shows "control_inv h P db'"
proof -
  have c: "distinct (map st_provider_id (db_states db))" "current (pl_provider_id p) s db"
    using assms(4,5) by (simp_all add: keys_ok_def current_def)
  note a = append_step [OF assms(1) c]
  let ?t = "receipt e k p (st_control_revision s + 1) (st_control_digest s) c now"
  from assms(6) obtain q where q: "linked h (receipts_of (pl_provider_id p) db)"
    "validated_control_state h q None None db = Inr s" "pl_provider_id q = pl_provider_id p"
    using control_invD(1,3) [OF assms(6)] assms(4) by blast
  then have rv: "receipts_valid h q s (receipts_of (pl_provider_id p) db)" "1 \<le> st_control_revision s"
    by (simp_all add: validated_iff state_valid_def)
  have ts: "receipts_of x db' = receipts_of x db @ (if pl_provider_id p = x then [?t] else [])" for x
    by (simp add: a(2) receipts_of_def)
  show ?thesis
  proof (rule control_inv_state [OF assms(6,3) append_Some_Inr(4) [OF assms(1), unfolded assms(2)]])
    show "linked h (receipts_of (pl_provider_id p) db')"
      unfolding ts using linked_append [OF q(1) rv, of ?t] assms(2)
      by (simp add: receipt_body)
    show "find_state x db' = find_state x db" if "x \<noteq> pl_provider_id p" for x
      using append_state(1) [OF assms(1,5,4), of x] that by simp
  qed (simp add: ts)
qed

lemma micro_control:
  assumes "micro h P db db'" "keys_ok db" "control_inv h P db"
  shows "control_inv h P db'"
  using assms(1)
proof cases
  case (enqueue r)
  show ?thesis by (rule control_inv_cong [OF assms(3)]) (simp_all add: enqueue(1))
next
  case (move rid row s' f)
  show ?thesis by (rule control_inv_cong [OF assms(3)]) (simp_all add: move(1), simp add: set_row_def)
next
  case (release rid row s' f now db1)
  obtain ps where ps: "db1 = db\<lparr>db_projects := ps\<rparr>" using decrement_Inr [OF release(7)] by blast
  show ?thesis by (rule control_inv_cong [OF assms(3)]) (simp_all add: release(1) ps, simp add: set_row_def)
next
  case (grant rid row s p now)
  let ?x = "rq_provider_id row"
  define upd where "upd = (\<lambda>r :: state_row. r\<lparr>st_grant_sequence := st_grant_sequence s + 1,
      st_last_granted_lane := Some (rq_admission_lane row), st_updated_at := now\<rparr>)"
  have f: "find_state y db' = (if y = ?x then map_option upd (find_state y db) else find_state y db)" for y
    by (rule find_state_control) (simp_all add: grant(1) grant_db_parts record_grant_def upd_def)
  have ts: "receipts_of y db' = receipts_of y db" for y
    by (simp add: grant(1) receipts_of_def grant_db_parts)
  obtain q where q: "q \<in> P" "pl_provider_id q = ?x" "validated_control_state h q None None db = Inr s"
    "linked h (receipts_of ?x db)"
    using control_invD(1,3) [OF assms(3)] grant(4) by blast
  have "same_control s (upd s)" by (simp add: same_control_def upd_def)
  from same_control_valid [OF this] q(2,3) grant(4)
  have "validated_control_state h q None None db' = Inr (upd s)"
    by (simp add: validated_iff f ts)
  then show ?thesis
    by (rule control_inv_state [OF assms(3) q(1)]) (use q in \<open>simp_all add: ts f\<close>)
next
  case (circuit_step e k s c now s')
  then show ?thesis using control_inv_append [OF _ _ _ _ assms(2,3)] by blast
next
  case (retarget e k p s c now s')
  then show ?thesis using control_inv_append [OF _ _ _ _ assms(2,3)] by blast
next
  case (genesis e k now s')
  note a = append_None_Inr [OF genesis(1)]
  let ?t = "receipt e k (k_policy k) 1 zero_digest (genesis_change (k_policy k)) now"
  have no: "receipts_of (pl_provider_id (k_policy k)) db = []"
    using control_invD(2) [OF assms(3) a(2)] .
  have ts: "receipts_of x db' = receipts_of x db @ (if pl_provider_id (k_policy k) = x then [?t] else [])" for x
    by (simp add: a(3) receipts_of_def)
  show ?thesis
    by (rule control_inv_state [OF assms(3) genesis(3) a(4) [unfolded genesis(2)]])
      (simp_all add: ts no linked_def receipt_body genesis(2), simp add: a(3) find_state_def lookup_row_append
        first_state_def split: option.splits)
next
  case (policy_row why p now)
  obtain ps where ps: "db' = db\<lparr>db_policies := ps\<rparr>" using ensure_policy_row_db [OF policy_row(1)] by blast
  show ?thesis by (rule control_inv_cong [OF assms(3)]) (simp_all add: ps)
next
  case (consume r now)
  obtain as where as: "db' = db\<lparr>db_authorities := as\<rparr>" using consume_db [OF consume(1)] by blast
  show ?thesis by (rule control_inv_cong [OF assms(3)]) (simp_all add: as)
qed

lemma micros_control:
  "(micro h P)\<^sup>*\<^sup>* db db' \<Longrightarrow> keys_ok db \<Longrightarrow> control_inv h P db \<Longrightarrow> control_inv h P db'"
  by (induction rule: rtranclp_induct) (auto intro: micro_control dest: micros_keys)

lemma control_inv_initial: "control_inv h P initial_db"
  by (simp add: control_inv_def receipts_of_def find_state_def initial_db_def linked_def)

definition kernel_inv :: "(string \<Rightarrow> string) \<Rightarrow> policy set \<Rightarrow> runtime_db \<Rightarrow> bool" where
  "kernel_inv h P db \<longleftrightarrow> request_inv h P db \<and> control_inv h P db"

lemma kernel_inv_keys: "kernel_inv h P db \<Longrightarrow> keys_ok db \<and> units_ok db \<and> tokens_ok db \<and> capacity_inv h P db \<and> control_inv h P db"
  using capacity_inv_keys by (auto simp: kernel_inv_def request_inv_def)

lemma kernel_step_kernel_inv:
  assumes "kernel_step h P db db'" "policies_ok h P" "kernel_inv h P db"
  shows "kernel_inv h P db'"
proof -
  note k = kernel_inv_keys [OF assms(3)]
  have r: "request_inv h P db'"
    using kernel_step_requests [OF assms(1,2)] assms(3) by (simp add: kernel_inv_def)
  have "(micro h P)\<^sup>*\<^sup>* db db' \<or> (db_requests db' = db_requests db \<and> db_projects db' = db_projects db
      \<and> db_states db' = db_states db \<and> db_transitions db' = db_transitions db \<and> db_policies db' = db_policies db
      \<and> db_fencing_counter db \<le> db_fencing_counter db')"
    using kernel_step_micro [OF assms(1,2)] k by blast
  then have "control_inv h P db'"
  proof
    assume m: "(micro h P)\<^sup>*\<^sup>* db db'"
    show ?thesis using micros_control [OF m] k by blast
  next
    assume f: "db_requests db' = db_requests db \<and> db_projects db' = db_projects db
      \<and> db_states db' = db_states db \<and> db_transitions db' = db_transitions db \<and> db_policies db' = db_policies db
      \<and> db_fencing_counter db \<le> db_fencing_counter db'"
    show ?thesis
      by (rule control_inv_cong [of h P db]) (use k f in \<open>simp_all add: receipts_of_def find_state_def\<close>)
  qed
  with r show ?thesis by (simp add: kernel_inv_def)
qed

interpretation kernel: step_system "\<lambda>db. db = initial_db" "kernel_step h P"
  "\<lambda>db. policies_ok h P \<longrightarrow> kernel_inv h P db" for h P
proof unfold_locales
  fix db assume "db = initial_db"
  then show "policies_ok h P \<longrightarrow> kernel_inv h P db"
    using reachable_requests [of h P initial_db] control_inv_initial by (simp add: kernel_inv_def)
qed (use kernel_step_kernel_inv in blast)

lemma reachable_kernel_inv:
  "policies_ok h P \<Longrightarrow> (kernel_step h P)\<^sup>*\<^sup>* initial_db db \<Longrightarrow> kernel_inv h P db"
  using kernel.reachable_inv [OF refl] by blast

text \<open>C8. The control chain is intact in every reachable database: the receipts of a provider are
  numbered from 1 to the current revision, each once, each with the digest of its own body and the
  digest of its predecessor, the state carries the digest of the last one, and the integrity check
  of the policy in force accepts the state.\<close>

theorem receipt_chain_intact:
  assumes "policies_ok h P" and "(kernel_step h P)\<^sup>*\<^sup>* initial_db db" and "find_state x db = Some s"
  shows "linked h (receipts_of x db)
    \<and> tr_control_revision ` set (receipts_of x db) = {1 .. st_control_revision s}
    \<and> (\<exists>p \<in> P. pl_provider_id p = x \<and> validated_control_state h p None None db = Inr s)"
proof -
  note c = control_invD [OF reachable_kernel_inv [OF assms(1,2), THEN kernel_inv_keys, THEN conjunct2, THEN conjunct2,
        THEN conjunct2, THEN conjunct2]]
  obtain p where p: "p \<in> P" "pl_provider_id p = x" "validated_control_state h p None None db = Inr s"
    using c(3) [OF assms(3)] by blast
  let ?ts = "receipts_of x db"
  have rv: "receipts_valid h p s ?ts" and r1: "1 \<le> st_control_revision s"
    using p by (auto simp: validated_iff state_valid_def)
  have sub: "tr_control_revision ` set ?ts \<subseteq> {1 .. st_control_revision s}"
    using receipts_valid_bounds [OF rv] by auto
  have "card (tr_control_revision ` set ?ts) = length ?ts"
    using c(1) [of x] unfolding linked_def by (metis distinct_card length_map list.set_map)
  also have "\<dots> = card {1 .. st_control_revision s}"
    using rv r1 by (auto simp: receipts_valid_def)
  finally have "tr_control_revision ` set ?ts = {1 .. st_control_revision s}"
    using sub by (intro card_subset_eq) simp_all
  with c(1) p show ?thesis by blast
qed

definition appended :: "runtime_db \<Rightarrow> runtime_db \<Rightarrow> bool" where
  "appended db db' \<longleftrightarrow> (\<exists>ts. db_transitions db' = db_transitions db @ ts)"

lemma appended_trans: "appended a b \<Longrightarrow> appended b c \<Longrightarrow> appended a c"
  by (auto simp: appended_def)

lemma appended_same: "db_transitions db' = db_transitions db \<Longrightarrow> appended db db'"
  by (simp add: appended_def)

lemma micro_appended: "micro h P db db' \<Longrightarrow> appended db db'"
proof (induction rule: micro.induct)
  case (release rid db row s' f now db1)
  then show ?case by (intro appended_same) (auto simp: set_row_def dest: decrement_Inr)
next
  case (circuit_step e k s c now db s' db')
  then show ?case using append_Some_Inr(3) [OF circuit_step(1)] by (simp add: appended_def)
next
  case (retarget e k p s c now db s' db')
  then show ?case using append_Some_Inr(3) [OF retarget(1)] by (simp add: appended_def)
next
  case (genesis e k now db s' db')
  then show ?case using append_None_Inr(3) [OF genesis(1)] by (simp add: appended_def)
next
  case (policy_row why p now db db')
  then show ?case by (intro appended_same) (auto dest: ensure_policy_row_db)
next
  case (consume r now db db')
  then show ?case by (intro appended_same) (auto dest: consume_db)
qed (simp_all add: appended_same set_row_def grant_db_parts)

lemma micros_appended: "(micro h P)\<^sup>*\<^sup>* db db' \<Longrightarrow> appended db db'"
  by (induction rule: rtranclp_induct) (auto intro: appended_trans micro_appended appended_same)

text \<open>Receipts are append-only: no sequence of kernel operations changes, reorders or removes a
  receipt that was written.\<close>

theorem receipts_append_only:
  assumes "policies_ok h P" and "(kernel_step h P)\<^sup>*\<^sup>* initial_db db" and "(kernel_step h P)\<^sup>*\<^sup>* db db'"
  shows "\<exists>ts. db_transitions db' = db_transitions db @ ts"
proof -
  have "kernel_inv h P db' \<and> appended db db'"
    using assms(3)
  proof (induction rule: rtranclp_induct)
    case base
    then show ?case using reachable_kernel_inv [OF assms(1,2)] by (simp add: appended_same)
  next
    case (step y z)
    then have "keys_ok y" "units_ok y" using kernel_inv_keys by blast+
    from kernel_step_micro [OF step(2) assms(1) this] have "appended y z"
      using micros_appended appended_same by blast
    with step show ?case using kernel_step_kernel_inv [OF step(2) assms(1)] appended_trans by blast
  qed
  then show ?thesis by (simp add: appended_def)
qed

section \<open>Leaving an open circuit\<close>

lemma consume_keeps_consumed:
  assumes "consume_activation_authority r now db = Inr db1" "consumed_authority d db"
  shows "consumed_authority d db1"
proof -
  from assms(2) obtain a where a: "a \<in> set (db_authorities db)" "Some (au_body_sha256 a) = d" "au_revoked_at a \<noteq> None"
    by (auto simp: consumed_authority_def)
  from assms(1) obtain Q f where d: "db_authorities db1 = update_rows Q f (db_authorities db)"
    and Q: "\<And>a. Q a \<Longrightarrow> au_revoked_at a = None"
    unfolding consume_activation_authority_def by (auto simp: Let_def split: if_splits)
  have "a \<in> set (db_authorities db1)" unfolding d set_update_rows using a(1,3) Q by force
  with a show ?thesis by (auto simp: consumed_authority_def)
qed

lemma micro_keeps_consumed: "micro h P db db' \<Longrightarrow> consumed_authority d db \<Longrightarrow> consumed_authority d db'"
proof (induction rule: micro.induct)
  case (consume r now db db')
  then show ?case by (rule consume_keeps_consumed)
next
  case (release rid db row s' f now db1)
  moreover obtain ps where "db1 = db\<lparr>db_projects := ps\<rparr>" using decrement_Inr [OF release(6)] by blast
  ultimately show ?case by (simp add: consumed_authority_def set_row_def)
next
  case (circuit_step e k s c now db s' db')
  then show ?case using append_Some_Inr(3) [OF circuit_step(1)] by (simp add: consumed_authority_def)
next
  case (retarget e k p s c now db s' db')
  then show ?case using append_Some_Inr(3) [OF retarget(1)] by (simp add: consumed_authority_def)
next
  case (genesis e k now db s' db')
  then show ?case using append_None_Inr(3) [OF genesis(1)] by (simp add: consumed_authority_def)
next
  case (policy_row why p now db db')
  moreover obtain ps where "db' = db\<lparr>db_policies := ps\<rparr>" using ensure_policy_row_db [OF policy_row(1)] by blast
  ultimately show ?case by (simp add: consumed_authority_def)
qed (simp_all add: consumed_authority_def set_row_def grant_db_parts)

text \<open>A receipt of \<open>x\<close> written between the two databases names a spent authority.\<close>

definition authorised_change :: "string \<Rightarrow> runtime_db \<Rightarrow> runtime_db \<Rightarrow> bool" where
  "authorised_change x db db' \<longleftrightarrow>
     (\<exists>t \<in> set (drop (length (db_transitions db)) (db_transitions db')).
        tr_provider_id t = x \<and> tr_authority_digest t \<noteq> None \<and> consumed_authority (tr_authority_digest t) db')"

lemma authorised_change_later:
  assumes "authorised_change x a b" "micro h P b c"
  shows "authorised_change x a c"
proof -
  obtain ts where ts: "db_transitions c = db_transitions b @ ts"
    using micro_appended [OF assms(2)] by (auto simp: appended_def)
  from assms(1) obtain t where t: "t \<in> set (drop (length (db_transitions a)) (db_transitions b))"
    "tr_provider_id t = x" "tr_authority_digest t \<noteq> None" "consumed_authority (tr_authority_digest t) b"
    by (auto simp: authorised_change_def)
  have "t \<in> set (drop (length (db_transitions a)) (db_transitions c))" using t(1) by (simp add: ts)
  with t micro_keeps_consumed [OF assms(2) t(4)] show ?thesis by (auto simp: authorised_change_def)
qed

lemma authorised_change_earlier:
  assumes "appended a b" "authorised_change x b c" "appended b c"
  shows "authorised_change x a c"
proof -
  from assms(1,3) obtain ts us where ts: "db_transitions b = db_transitions a @ ts" "db_transitions c = db_transitions b @ us"
    by (auto simp: appended_def)
  then have "set (drop (length (db_transitions b)) (db_transitions c)) \<subseteq> set (drop (length (db_transitions a)) (db_transitions c))"
    by simp
  with assms(2) show ?thesis by (auto simp: authorised_change_def)
qed

lemma receipt_authority [simp]: "tr_authority_digest (receipt e k p n d c now) = cc_authority c"
  by (simp add: receipt_def Let_def)

lemma micro_open:
  assumes "micro h P db db'" "keys_ok db" "find_state x db = Some s"
  shows "\<exists>s'. find_state x db' = Some s' \<and> (st_circuit_state s = Open \<longrightarrow> st_circuit_state s' = Open \<or> authorised_change x db db')"
  using assms(1)
proof cases
  case (release rid row s' f now db1)
  then show ?thesis using assms(3) decrement_Inr [OF release(7)] by auto
next
  case (grant rid row t p now)
  have "find_state x db' = (if x = rq_provider_id row then map_option (\<lambda>s. s\<lparr>st_grant_sequence := st_grant_sequence t + 1,
      st_last_granted_lane := Some (rq_admission_lane row), st_updated_at := now\<rparr>) (find_state x db) else find_state x db)"
    by (rule find_state_control) (simp_all add: grant(1) grant_db_parts record_grant_def)
  then show ?thesis using assms(3) by auto
next
  case (circuit_step e k t c now s')
  note a = append_state [OF circuit_step(1) assms(2) circuit_step(4)]
  show ?thesis
    using a(1) [of x] a(5) circuit_step(4,8) assms(3) by (cases "x = pl_provider_id (k_policy k)") auto
next
  case (retarget e k p t c now s')
  note a = append_state [OF retarget(1) assms(2) retarget(4)]
  show ?thesis
  proof (cases "x = pl_provider_id p")
    case True
    note d = append_Some_Inr(3) [OF retarget(1)]
    have "consumed_authority (cc_authority c) db'" using retarget(7) by (simp add: d consumed_authority_def)
    moreover have "cc_authority c \<noteq> None" using retarget(7) by (cases "cc_authority c") (auto simp: consumed_authority_def)
    ultimately have "authorised_change x db db'"
      unfolding authorised_change_def by (simp add: d True)
    then show ?thesis using a(1) [of x] True by simp
  next
    case False
    then show ?thesis using a(1) [of x] assms(3) by simp
  qed
next
  case (genesis e k now s')
  show ?thesis
    using append_None_Inr(3) [OF genesis(1)] assms(3) by (simp add: find_state_def lookup_row_append)
next
  case (policy_row why p now)
  then show ?thesis using assms(3) ensure_policy_row_db [OF policy_row(1)] by auto
next
  case (consume r now)
  then show ?thesis using assms(3) consume_db [OF consume(1)] by auto
qed (use assms(3) in auto)

lemma micros_open:
  assumes "(micro h P)\<^sup>*\<^sup>* db db'" "keys_ok db" "find_state x db = Some s" "st_circuit_state s = Open"
  shows "\<exists>s'. find_state x db' = Some s' \<and> (st_circuit_state s' = Open \<or> authorised_change x db db')"
  using assms(1)
proof (induction rule: rtranclp_induct)
  case base
  then show ?case using assms(3,4) by simp
next
  case (step y z)
  then obtain t where t: "find_state x y = Some t" "st_circuit_state t = Open \<or> authorised_change x db y" by blast
  from micro_open [OF step(2) micros_keys [OF step(1) assms(2)] t(1)] obtain t' where
    t': "find_state x z = Some t'" "st_circuit_state t = Open \<longrightarrow> st_circuit_state t' = Open \<or> authorised_change x y z"
    by blast
  have ap: "appended db y" "appended y z" using micros_appended [OF step(1)] micro_appended [OF step(2)] by auto
  show ?case
    using t(2) t' authorised_change_later [OF _ step(2)] authorised_change_earlier [OF ap(1) _ ap(2)] by blast
qed

text \<open>C6. An open circuit only leaves \<open>open\<close> through a spent authority: whatever a kernel operation does
  on whatever branch, a provider whose circuit was open has an open circuit afterwards, unless the
  operation wrote a receipt of that provider naming an activation authority that it consumed. No
  transport outcome, expiry, cancellation or reconciliation closes it.\<close>

theorem open_circuit_needs_authority:
  assumes "policies_ok h P" and "(kernel_step h P)\<^sup>*\<^sup>* initial_db db" and "kernel_step h P db db'"
    and "find_state x db = Some s" and "st_circuit_state s = Open"
  shows "\<exists>s'. find_state x db' = Some s' \<and> (st_circuit_state s' = Open \<or> authorised_change x db db')"
proof -
  have k: "keys_ok db" "units_ok db" using kernel_inv_keys [OF reachable_kernel_inv [OF assms(1,2)]] by auto
  from kernel_step_micro [OF assms(3,1) k] show ?thesis
  proof
    assume "(micro h P)\<^sup>*\<^sup>* db db'"
    from micros_open [OF this k(1) assms(4,5)] show ?thesis .
  next
    assume "db_requests db' = db_requests db \<and> db_projects db' = db_projects db
      \<and> db_states db' = db_states db \<and> db_transitions db' = db_transitions db \<and> db_policies db' = db_policies db
      \<and> db_fencing_counter db \<le> db_fencing_counter db'"
    then show ?thesis using assms(4,5) by (simp add: find_state_def)
  qed
qed

end
