(* ===== verification/AdmissionTransport.thy ===== *)
theory AdmissionTransport
  imports AdmissionControl
begin

text \<open>
  What a caller of \<open>ProviderAdmissionKernel\<close> may rely on when an operation returns: expiry
  leaves no overdue request, a permit is only handed out under a live authority and a passing
  circuit, transport only starts under the same conditions rechecked, and the end of a transport
  releases exactly the capacity it should.
\<close>

section \<open>Expiry\<close>

definition overdue_free :: "string \<Rightarrow> int \<Rightarrow> runtime_db \<Rightarrow> bool" where
  "overdue_free provider now db \<longleftrightarrow>
     (\<forall>r \<in> set (db_requests db). rq_provider_id r = provider \<longrightarrow>
        rq_state r \<in> {Waiting, Granted, Dispatched} \<longrightarrow> now < rq_expires_at r)"

definition live :: "request_row \<Rightarrow> bool" where
  "live r \<longleftrightarrow> rq_state r \<in> {Waiting, Granted, Dispatched}"

lemma live_simps [simp]:
  "rq_state r = Cancelled \<Longrightarrow> \<not> live r" "rq_state r = Reconciliation_Required \<Longrightarrow> \<not> live r"
  by (simp_all add: live_def)

text \<open>One row of the loop: it is not overdue, or it is no longer live afterwards.\<close>

lemma expire_row_rows:
  assumes "expire_row e k s now row (db, first) = Inr (db', first')"
    and "keys_ok db" "held h k s db" "served h P e k" "row \<in> set (db_requests db)" "live row"
  shows "now < rq_expires_at row \<and> db' = db
    \<or> (\<forall>r \<in> set (db_requests db'). \<not> live r \<or> r \<in> set (db_requests db) \<and> rq_request_id r \<noteq> rq_request_id row)"
proof -
  have d: "distinct (map rq_request_id (db_requests db))" using assms(2) by (simp add: keys_ok_def)
  have fr: "find_request (rq_request_id row) db = Some row"
    using d assms(5) by (rule find_request_in)
  have gone: ?thesis if "moves_to f x" "x \<in> {Cancelled, Reconciliation_Required}"
    "db_requests db' = db_requests (set_row (rq_request_id row) f db)" for f x
  proof (rule disjI2, rule ballI)
    fix r assume "r \<in> set (db_requests db')"
    from set_row_cases [OF d fr this [unfolded that(3)]]
    show "\<not> live r \<or> r \<in> set (db_requests db) \<and> rq_request_id r \<noteq> rq_request_id row"
      using that(1,2) by (auto simp: moves_to_def live_def)
  qed
  consider "rq_expires_at row > now" | "rq_expires_at row \<le> now" "rq_state row = Waiting"
    | "rq_expires_at row \<le> now" "rq_state row = Granted" | "rq_expires_at row \<le> now" "rq_state row = Dispatched"
    using assms(6) by (fastforce simp: live_def)
  then show ?thesis
  proof cases
    case 1
    with assms(1) show ?thesis by simp
  next
    case 2
    then have "db' = update_request (rq_request_id row) Waiting
        (\<lambda>r. r\<lparr>rq_state := Cancelled, rq_terminal_at := Some now\<rparr>) db"
      using assms(1) by simp
    then have u: "db' = set_row (rq_request_id row) (\<lambda>r. r\<lparr>rq_state := Cancelled, rq_terminal_at := Some now\<rparr>) db"
      by (simp add: update_request_set_row [OF d fr 2(2)])
    show ?thesis by (rule gone [where x = Cancelled, OF _ _ arg_cong [OF u]]) (simp_all add: moves_to_def)
  next
    case 3
    then have "cancel_granted_row e k row s now ''half_open_probe_expired'' db = Inr db'"
      using assms(1) by (auto simp: result_simps)
    from cancel_granted_row_micro(3) [OF this assms(2-5)] show ?thesis using gone by auto
  next
    case 4
    then have "db' = update_request (rq_request_id row) Dispatched
        (\<lambda>r. r\<lparr>rq_state := Reconciliation_Required, rq_terminal_at := Some now\<rparr>) db"
      using assms(1) by simp
    then have u: "db' = set_row (rq_request_id row)
        (\<lambda>r. r\<lparr>rq_state := Reconciliation_Required, rq_terminal_at := Some now\<rparr>) db"
      by (simp add: update_request_set_row [OF d fr 4(2)])
    show ?thesis
      by (rule gone [where x = Reconciliation_Required, OF _ _ arg_cong [OF u]]) (simp_all add: moves_to_def)
  qed
qed

lemma expire_rows_rows:
  assumes "expire_rows e k s now rows (db, first) = Inr (db', first')"
    and "keys_ok db" "held h k s db" "served h P e k"
    and "distinct (map rq_request_id rows)" "\<forall>row \<in> set rows. row \<in> set (db_requests db) \<and> live row"
  shows "\<forall>r \<in> set (db_requests db'). live r \<longrightarrow> r \<in> set (db_requests db) \<and> (r \<in> set rows \<longrightarrow> now < rq_expires_at r)"
  using assms
proof (induction rows arbitrary: db first)
  case (Cons row rows)
  from Cons.prems(1) obtain db1 first1 where
    r: "expire_row e k s now row (db, first) = Inr (db1, first1)"
    and rs: "expire_rows e k s now rows (db1, first1) = Inr (db', first')"
    by (auto simp: result_simps)
  have row: "row \<in> set (db_requests db)" "live row" using Cons.prems(6) by auto
  have m: "(micro h P)\<^sup>*\<^sup>* db db1 \<and> held h k s db1 \<and> others_kept (rq_request_id row) db db1"
    by (rule expire_row_micro [OF r Cons.prems(2-4) row(1)]) (use row(2) in \<open>simp add: live_def\<close>)
  have one: "now < rq_expires_at row \<and> db1 = db
      \<or> (\<forall>r \<in> set (db_requests db1). \<not> live r \<or> r \<in> set (db_requests db) \<and> rq_request_id r \<noteq> rq_request_id row)"
    by (rule expire_row_rows [OF r Cons.prems(2-4) row])
  have ids: "rq_request_id x \<noteq> rq_request_id row" if "x \<in> set rows" for x
    using Cons.prems(5) that by (auto simp: image_iff)
  have "\<forall>x \<in> set rows. x \<in> set (db_requests db1) \<and> live x"
    using m ids Cons.prems(6) by (auto simp: others_kept_def)
  then have "\<forall>r \<in> set (db_requests db'). live r \<longrightarrow> r \<in> set (db_requests db1) \<and> (r \<in> set rows \<longrightarrow> now < rq_expires_at r)"
    using Cons.IH [OF rs] micros_keys [of h P db db1] m Cons.prems(2,4,5) by simp
  with one show ?case by auto
qed simp

lemma append_requests:
  "append_control_transition e k p (Some s) c now db = Inr (s', db') \<Longrightarrow> db_requests db' = db_requests db"
  using append_Some_Inr(3) [of e k p s c now db s' db'] by simp

lemma expire_rows_kept:
  assumes "expire e k now db = Inr db'" "keys_ok db" "served h P e k"
  shows "\<forall>r \<in> set (db_requests db'). live r \<longrightarrow> r \<in> set (db_requests db)
    \<and> (rq_provider_id r = pl_provider_id (k_policy k) \<longrightarrow> now < rq_expires_at r)"
proof -
  let ?rows = "filter (\<lambda>r. rq_provider_id r = pl_provider_id (k_policy k)
                  \<and> rq_state r \<in> {Waiting, Granted, Dispatched}) (db_requests db)"
  have sh: "sha e = h" using assms(3) by (simp add: served_def)
  from assms(1) obtain s db1 first where v: "validated_state h k db = Inr s"
    and r: "expire_rows e k s now ?rows (db, None) = Inr (db1, first)"
    and q: "db_requests db' = db_requests db1"
    unfolding expire_def sh ebind_Inr_iff
    by (auto simp: Let_def ebind_Inr_iff append_requests split: option.splits)
  have "\<forall>r \<in> set (db_requests db1). live r \<longrightarrow> r \<in> set (db_requests db) \<and> (r \<in> set ?rows \<longrightarrow> now < rq_expires_at r)"
    by (rule expire_rows_rows [OF r assms(2) held_validated [OF v] assms(3)])
      (use assms(2) in \<open>simp_all add: keys_ok_def distinct_map_filter live_def\<close>)
  then show ?thesis by (auto simp: q live_def)
qed

lemma expire_overdue_free:
  "expire e k now db = Inr db' \<Longrightarrow> keys_ok db \<Longrightarrow> served h P e k \<Longrightarrow> overdue_free (pl_provider_id (k_policy k)) now db'"
  using expire_rows_kept [of e k now db db' h P] by (auto simp: overdue_free_def live_def)

section \<open>Admission\<close>

lemma permit_from_row_Inr:
  "permit_from_row row = Inr p \<Longrightarrow> permit_matches_row p row \<and> pm_request_id p = rq_request_id row
     \<and> pm_lane p = lane_value (rq_admission_lane row) \<and> rq_fencing_token row = Some (pm_fencing_token p)
     \<and> 1 \<le> pm_fencing_token p"
  by (auto simp: permit_from_row_def permit_post_init_def permit_matches_row_def result_simps
      split: option.splits if_splits)

lemma permit_row_found:
  "permit_from_row row = Inr p \<Longrightarrow> find_request (rq_request_id row) db = Some row \<Longrightarrow> require_permit_row p db = Inr row"
  using permit_from_row_Inr [of row p] by (simp add: require_permit_row_def)

definition granted :: "int \<Rightarrow> int \<Rightarrow> request_row \<Rightarrow> request_row" where
  "granted token now r = r\<lparr>rq_state := Granted, rq_fencing_token := Some token, rq_granted_at := Some now\<rparr>"

lemma granted_simps [simp]:
  "rq_state (granted t n r) = Granted" "rq_request_id (granted t n r) = rq_request_id r"
  "rq_provider_id (granted t n r) = rq_provider_id r" "rq_expires_at (granted t n r) = rq_expires_at r"
  "rq_fencing_token (granted t n r) = Some t" "rq_granted_at (granted t n r) = Some n"
  "row_matches_request (granted t n r) q d = row_matches_request r q d"
  by (simp_all add: granted_def row_matches_request_def)

lemma grant_db_find:
  assumes "find_request rid db = Some row" "rq_state row = Waiting" "keys_ok db"
  shows "find_request rid (grant_db s a b l rid now db) = Some (granted (db_fencing_counter db + 1) now row)"
    "find_state x (grant_db s a b l rid now db)
       = (if x = a then map_option (\<lambda>t. t\<lparr>st_grant_sequence := st_grant_sequence s + 1, st_last_granted_lane := Some l,
            st_updated_at := now\<rparr>) (find_state x db) else find_state x db)"
    "db_requests (grant_db s a b l rid now db)
       = update_rows (\<lambda>r. rq_request_id r = rid) (granted (db_fencing_counter db + 1) now) (db_requests db)"
proof -
  have g: "(\<lambda>r. r\<lparr>rq_state := Granted, rq_fencing_token := Some (db_fencing_counter db + 1), rq_granted_at := Some now\<rparr>)
      = granted (db_fencing_counter db + 1) now"
    by (simp add: fun_eq_iff granted_def)
  show r: "db_requests (grant_db s a b l rid now db)
       = update_rows (\<lambda>r. rq_request_id r = rid) (granted (db_fencing_counter db + 1) now) (db_requests db)"
    by (simp add: grant_db_parts set_row_def g)
  show "find_request rid (grant_db s a b l rid now db) = Some (granted (db_fencing_counter db + 1) now row)"
    using assms(1) by (simp add: find_request_def r lookup_update_rows_same)
  show "find_state x (grant_db s a b l rid now db)
       = (if x = a then map_option (\<lambda>t. t\<lparr>st_grant_sequence := st_grant_sequence s + 1, st_last_granted_lane := Some l,
            st_updated_at := now\<rparr>) (find_state x db) else find_state x db)"
    by (rule find_state_control) (simp_all add: grant_db_parts record_grant_def)
qed

lemma grant_db_unresolved:
  assumes "find_request rid db = Some row" "rq_state row = Waiting" "keys_ok db"
  shows "provider_count x [Reconciliation_Required] (grant_db s a b l rid now db)
    = provider_count x [Reconciliation_Required] db"
proof -
  let ?P = "\<lambda>r. rq_provider_id r = x \<and> rq_state r \<in> set [Reconciliation_Required]"
  have "?P (if rq_request_id r = rid then granted t now r else r) = ?P r" if "r \<in> set (db_requests db)" for r t
    using find_request_in [of db r] that assms by (auto simp: keys_ok_def)
  then show ?thesis
    unfolding provider_count_def count_rows_def grant_db_find(3) [OF assms] update_rows_def
    by (simp add: filter_map comp_def cong: filter_cong)
qed

text \<open>A permit comes out of a grant of exactly this request.\<close>

lemma grant_waiting_Inr:
  assumes "grant_waiting k s q now old db = (Inr p, db')" "keys_ok db"
    and "find_request (ar_request_id q) db = Some row" "rq_state row = Waiting"
    and "rq_provider_id row = ar_provider_id q" "rq_project_binding_digest row = ar_project_digest q"
    and "rq_admission_lane row = ar_lane q"
  shows "int (in_use (ar_provider_id q) db) + 1 \<le> capacity_of s" "selected_waiting k db = Inr (Some row)"
    "db' = grant_db s (ar_provider_id q) (ar_project_digest q) (ar_lane q) (ar_request_id q) now db"
    "permit_from_row (granted (db_fencing_counter db + 1) now row) = Inr p"
proof -
  let ?x = "ar_provider_id q"
  note d = assms(1) [unfolded grant_waiting_def capacity_of_def [symmetric]]
  have cap: "\<not> active_capacity ?x db + 1 > capacity_of s"
    using d by (auto simp: Let_def split: if_splits)
  then show "int (in_use ?x db) + 1 \<le> capacity_of s"
    by (simp add: active_capacity_in_use [OF assms(2)])
  obtain r where r: "selected_waiting k db = Inr (Some r)" "rq_request_id r = ar_request_id q"
    using d cap by (auto simp: Let_def split: if_splits sum.splits option.splits)
  have "find_request (ar_request_id q) db = Some r"
    using find_request_in [OF _ eligible_rowsD(1) [OF selected_waiting_eligible [OF r(1)]]] assms(2) r(2)
    by (simp add: keys_ok_def)
  with assms(3) have rr: "r = row" by simp
  with r show "selected_waiting k db = Inr (Some row)" by simp
  let ?g = "grant_db s ?x (ar_project_digest q) (ar_lane q) (ar_request_id q) now db"
  note f = grant_db_find(1) [OF assms(3,4,2), of s ?x "ar_project_digest q" "ar_lane q" now]
  have u: "update_request (ar_request_id q) Waiting
      (\<lambda>r. r\<lparr>rq_state := Granted, rq_fencing_token := Some (db_fencing_counter (bump_fencing db)), rq_granted_at := Some now\<rparr>)
      (record_grant ?x (ar_lane q) (st_grant_sequence s + 1) now
        (increment_project ?x (ar_project_digest q) (st_grant_sequence s + 1) now (bump_fencing db))) = ?g"
    by (simp add: update_request_grant_db [OF assms(2,3,4)] grant_db_def)
  have "(case find_request (ar_request_id q) ?g of None \<Rightarrow> (Inl TypeError, ?g)
      | Some row \<Rightarrow> (permit_from_row row, ?g)) = (Inr p, db')"
    using d cap r unfolding Let_def u by simp
  then show "db' = ?g" "permit_from_row (granted (db_fencing_counter db + 1) now row) = Inr p"
    by (simp_all add: f)
qed

text \<open>How a permit comes about: a fresh grant, or the permit of an earlier grant handed out again.\<close>

lemma admit_in_transaction_Inr:
  assumes "admit_in_transaction e k q ttl now db = (Inr p, db')" "keys_ok db" "served h P e k"
    and "ar_provider_id q = pl_provider_id (k_policy k)"
  obtains db1 s row where "expire e k now db = Inr db1" "validated_state h k db1 = Inr s"
    "st_circuit_state s \<noteq> Open" "\<not> probe_mismatch h q s" "\<not> unresolved_blocks k (ar_provider_id q) db1"
    "find_request (ar_request_id q) db' = Some row" "permit_from_row row = Inr p" "rq_state row = Granted"
    "row_matches_request row q (policy_digest h (k_policy k))"
    "db' = db1 \<or> int (in_use (ar_provider_id q) db1) + 1 \<le> capacity_of s"
    "find_request (ar_request_id q) db1 = Some row \<and> db' = db1 \<or> rq_expires_at row = now + seconds ttl
       \<or> (\<exists>w. find_request (ar_request_id q) db1 = Some w \<and> rq_state w = Waiting
            \<and> rq_provider_id w = ar_provider_id q \<and> rq_expires_at row = rq_expires_at w)"
    "db_states db' = db_states db1 \<or> (\<exists>t l. db_states db' = db_states (record_grant (ar_provider_id q) l t now db1))"
    "provider_count (ar_provider_id q) [Reconciliation_Required] db'
       = provider_count (ar_provider_id q) [Reconciliation_Required] db1"
proof -
  have sh: "sha e = h" using assms(3) by (simp add: served_def)
  note a = assms(1) [unfolded admit_in_transaction_def Let_def sh]
  obtain db1 where x: "expire e k now db = Inr db1" using a by (cases "expire e k now db") auto
  obtain s where v: "validated_state h k db1 = Inr s" using a x by (cases "validated_state h k db1") auto
  have c: "st_circuit_state s \<noteq> Open" "\<not> probe_mismatch h q s" "\<not> unresolved_blocks k (ar_provider_id q) db1"
    using a x v by (auto split: if_splits)
  have m1: "(micro h P)\<^sup>*\<^sup>* db db1" by (rule expire_micro [OF x assms(2,3)])
  have k1: "keys_ok db1" by (rule micros_keys [OF m1 assms(2)])
  let ?new = "waiting_row h k q now (now + seconds ttl)"
  let ?db2 = "db1\<lparr>db_requests := db_requests db1 @ [?new]\<rparr>"
  consider (again) row where "find_request (ar_request_id q) db1 = Some row"
      "row_matches_request row q (policy_digest h (k_policy k))" "rq_state row = Granted"
      "permit_from_row row = Inr p" "db' = db1"
    | (waiting) row where "find_request (ar_request_id q) db1 = Some row"
      "row_matches_request row q (policy_digest h (k_policy k))" "rq_state row = Waiting"
      "grant_waiting k s q now db db1 = (Inr p, db')"
    | (new) "find_request (ar_request_id q) db1 = None" "\<forall>r \<in> set (db_requests db1). rq_run_id r \<noteq> ar_run_id q"
      "grant_waiting k s q now db ?db2 = (Inr p, db')"
    using a x v c by (auto simp: list_ex_iff split: if_splits option.splits)
  then show thesis
  proof cases
    case again
    show thesis by (rule that [OF x v c, of row]) (use again in simp_all)
  next
    case waiting
    have row: "rq_provider_id row = ar_provider_id q" "rq_project_binding_digest row = ar_project_digest q"
      "rq_admission_lane row = ar_lane q" using waiting(2) by (simp_all add: row_matches_request_def)
    note g = grant_waiting_Inr [OF waiting(4) k1 waiting(1,3) row]
    note f = grant_db_find [OF waiting(1,3) k1]
    show thesis
      by (rule that [OF x v c, of "granted (db_fencing_counter db1 + 1) now row"])
        (use g waiting row(1) in \<open>auto simp: f grant_db_parts grant_db_unresolved [OF waiting(1,3) k1]\<close>)
  next
    case new
    have fs: "find_state (ar_provider_id q) db1 \<noteq> None"
      using validated_state_Inr(1) [OF v] assms(4) by simp
    have k2: "keys_ok ?db2"
      by (rule micro_keys [OF micro.enqueue [where p = "k_policy k"] k1])
        (use new fs assms(3,4) in \<open>auto simp: waiting_row_def served_def\<close>)
    have f2: "find_request (ar_request_id q) ?db2 = Some ?new"
      using new(1) by (simp add: find_request_def lookup_row_append waiting_row_def)
    have w: "rq_state ?new = Waiting" "rq_provider_id ?new = ar_provider_id q"
      "rq_project_binding_digest ?new = ar_project_digest q" "rq_admission_lane ?new = ar_lane q"
      by (simp_all add: waiting_row_def)
    have w': "rq_expires_at ?new = now + seconds ttl" "row_matches_request ?new q (policy_digest h (k_policy k))"
      by (simp_all add: waiting_row_def row_matches_request_def)
    have u: "in_use x ?db2 = in_use x db1" for x
      by (simp add: in_use_def w)
    have u2: "provider_count x [Reconciliation_Required] ?db2 = provider_count x [Reconciliation_Required] db1" for x
      by (simp add: provider_count_def w)
    note g = grant_waiting_Inr [OF new(3) k2 f2 w]
    note f = grant_db_find [OF f2 w(1) k2]
    show thesis
      by (rule that [OF x v c, of "granted (db_fencing_counter ?db2 + 1) now ?new"])
        (use g in \<open>auto simp: f u u2 w w' grant_db_parts record_grant_def grant_db_unresolved [OF f2 w(1) k2]\<close>)
  qed
qed

lemma record_grant_find:
  assumes "db_states db' = db_states db \<or> (\<exists>t l. db_states db' = db_states (record_grant x l t now db))"
    and "find_state x db = Some s"
  obtains s' where "find_state x db' = Some s'" "st_circuit_state s' = st_circuit_state s"
    "st_half_open_probe s' = st_half_open_probe s" "st_policy_digest s' = st_policy_digest s"
    "st_effective_target s' = st_effective_target s"
proof (cases "db_states db' = db_states db")
  case True
  then show thesis using assms(2) that [of s] by (simp add: find_state_def)
next
  case False
  then obtain t l where "db_states db' = db_states (record_grant x l t now db)" using assms(1) by blast
  then have "find_state x db' = map_option (\<lambda>s. s\<lparr>st_grant_sequence := t, st_last_granted_lane := Some l,
      st_updated_at := now\<rparr>) (find_state x db)"
    by (simp add: find_state_def record_grant_def lookup_update_rows_same)
  then show thesis using assms(2) that by simp
qed

lemma try_admit_Inr:
  assumes "try_admit e k q ttl seen db = (Inr p, db')" "sha e = h"
  shows "ar_provider_id q = pl_provider_id (k_policy k)" "1 \<le> ttl" "ttl \<le> 86400"
    "verify_authority h k (clk e 0) q seen = Inr (ar_authorization q)"
    "admit_in_transaction e k q ttl (clk e 1) db = (Inr p, db')"
proof -
  have "r = ar_authorization q" if "verify_authority h k (clk e 0) q seen = Inr r" for r
    using that verify_authorises by (simp add: verify_authority_def)
  then show "ar_provider_id q = pl_provider_id (k_policy k)" "1 \<le> ttl" "ttl \<le> 86400"
    "verify_authority h k (clk e 0) q seen = Inr (ar_authorization q)"
    "admit_in_transaction e k q ttl (clk e 1) db = (Inr p, db')"
    using assms by (auto simp: try_admit_def split: if_splits sum.splits)
qed

lemma reachable_in_use:
  assumes "policies_ok h P" "(kernel_step h P)\<^sup>*\<^sup>* initial_db db" "find_state x db = Some s"
  shows "int (in_use x db) \<le> capacity_of s"
proof -
  have "within_limits h P db s" "st_provider_id s = x"
    using reachable_capacity [OF assms(1,2)] assms(3) find_state_provider [OF assms(3)]
    by (auto simp: capacity_inv_def)
  then show ?thesis by (auto simp: within_limits_def)
qed

text \<open>C5. A permit is only handed out under a live authority and a passing circuit: when \<open>try_admit\<close>
  returns a permit, the authority it names verified for this provider, plane, task, project, lane
  and policy; the circuit is closed, or half-open with exactly this request as its probe; the row of
  the request is granted, unexpired, carries the request's binding and the permit's; and the units
  in use, this one included, are within the capacity.\<close>

theorem try_admit_sound:
  assumes "policies_ok h P" and "(kernel_step h P)\<^sup>*\<^sup>* initial_db db" and "served h P e k"
    and "try_admit e k q ttl seen db = (Inr p, db')"
  shows "authorises h (clk e 0) (ar_authorization q) (request_query h k q) seen
    \<and> (\<exists>s row. find_state (ar_provider_id q) db' = Some s \<and> st_policy_digest s = policy_digest h (k_policy k)
        \<and> (st_circuit_state s = Closed
            \<or> st_circuit_state s = Half_Open \<and> st_half_open_probe s = Some (request_digest h q))
        \<and> find_request (ar_request_id q) db' = Some row \<and> rq_state row = Granted
        \<and> row_matches_request row q (policy_digest h (k_policy k)) \<and> require_permit_row p db' = Inr row
        \<and> clk e 1 < rq_expires_at row \<and> int (in_use (ar_provider_id q) db') \<le> capacity_of s)"
proof -
  have sh: "sha e = h" using assms(3) by (simp add: served_def)
  note t = try_admit_Inr [OF assms(4) sh]
  have k: "keys_ok db" using reachable_kernel_inv [OF assms(1,2)] kernel_inv_keys by blast
  have step: "(kernel_step h P)\<^sup>*\<^sup>* initial_db db'"
    using assms(2) kernel_step.admit [OF assms(3,4)] by simp
  from t(5) k assms(3) t(1) show ?thesis
  proof (cases rule: admit_in_transaction_Inr)
    case x: (1 db1 s row)
    note l = expire_rows_kept [OF x(1) k assms(3)]
    have ex: "clk e 1 < rq_expires_at w" if "find_request (ar_request_id q) db1 = Some w"
      "rq_state w \<in> {Waiting, Granted}" "rq_provider_id w = ar_provider_id q" for w
      using l find_request_Some [OF that(1)] that t(1) by (auto simp: live_def)
    have "rq_provider_id row = ar_provider_id q" using x(9) by (simp add: row_matches_request_def)
    have e: "clk e 1 < rq_expires_at row"
      using x(11)
    proof (elim disjE exE conjE)
      fix w assume w: "find_request (ar_request_id q) db1 = Some w" "rq_state w = Waiting"
        "rq_provider_id w = ar_provider_id q" "rq_expires_at row = rq_expires_at w"
      with ex show ?thesis by simp
    qed (use ex x(8) \<open>rq_provider_id row = _\<close> t(2) in \<open>simp_all add: seconds_def\<close>)
    have fs: "find_state (ar_provider_id q) db1 = Some s" "st_policy_digest s = policy_digest h (k_policy k)"
      using validated_state_Inr(1,2) [OF x(2)] t(1) by simp_all
    from x(12) fs(1) obtain s' where s': "find_state (ar_provider_id q) db' = Some s'"
      "st_circuit_state s' = st_circuit_state s" "st_half_open_probe s' = st_half_open_probe s"
      "st_policy_digest s' = st_policy_digest s"
      by (rule record_grant_find)
    have "int (in_use (ar_provider_id q) db') \<le> capacity_of s'"
      using reachable_in_use [OF assms(1) step s'(1)] .
    moreover have "require_permit_row p db' = Inr row"
      using permit_row_found [OF x(7)] x(6) find_request_Some [OF x(6)] by simp
    moreover have "st_circuit_state s' = Closed \<or> st_circuit_state s' = Half_Open \<and> st_half_open_probe s' = Some (request_digest h q)"
      using x(3,4) s'(2,3) by (cases "st_circuit_state s") (auto simp: probe_mismatch_def)
    ultimately show ?thesis
      using verify_authorises t(4) s' fs(2) x(6,8,9) e
      by (auto simp: verify_authority_def)
  qed
qed

section \<open>Transport\<close>

lemma reachable_row_provider:
  assumes "policies_ok h P" "bound_ok h P db" "served h P e k" "row \<in> set (db_requests db)"
    and "rq_policy_digest row = policy_digest h (k_policy k)"
  shows "rq_provider_id row = pl_provider_id (k_policy k)"
proof -
  obtain p where p: "p \<in> P" "pl_provider_id p = rq_provider_id row" "policy_digest h p = rq_policy_digest row"
    using assms(2,4) by (auto simp: bound_ok_def bound_row_def)
  moreover have "k_policy k \<in> P" using assms(3) by (simp add: served_def)
  ultimately have "p = k_policy k" using assms(1,5) by (auto simp: policies_ok_def inj_on_def)
  with p show ?thesis by simp
qed

lemma expire_bound:
  assumes "expire e k now db = Inr db'" "keys_ok db" "served h P e k" "bound_ok h P db"
  shows "bound_ok h P db'" "keys_ok db'"
  using micros_bound [OF expire_micro [OF assms(1-3)] assms(2,4)] micros_keys [OF expire_micro [OF assms(1-3)] assms(2)]
  by auto

lemma reachable_parts:
  assumes "policies_ok h P" "(kernel_step h P)\<^sup>*\<^sup>* initial_db db"
  shows "keys_ok db" "units_ok db" "tokens_ok db" "bound_ok h P db" "capacity_inv h P db" "control_inv h P db"
  using reachable_kernel_inv [OF assms] capacity_inv_keys by (auto simp: kernel_inv_def request_inv_def)

text \<open>C2. Transport only starts on a fresh, unexpired grant whose authority still holds: when
  \<open>begin_transport\<close> returns, the row of the permit was granted before the call and is not expired at
  its start, it carries the permit's fencing token and the request's binding, the authority verified
  inside the same transaction, the circuit is closed or half-open for exactly this probe, and the
  only thing that happened to the row is the move to dispatched.\<close>

theorem begin_transport_sound:
  assumes "policies_ok h P" and "(kernel_step h P)\<^sup>*\<^sup>* initial_db db" and "served h P e k"
    and "begin_transport e k p q db = (Inr (), db')"
  shows "\<exists>db1 s row. expire e k (clk e 0) db = Inr db1
    \<and> authorises h (clk e 1) (ar_authorization q) (request_query h k q) db1
    \<and> find_state (pl_provider_id (k_policy k)) db1 = Some s
    \<and> (st_circuit_state s = Closed \<or> st_circuit_state s = Half_Open \<and> st_half_open_probe s = Some (request_digest h q))
    \<and> row \<in> set (db_requests db) \<and> rq_request_id row = pm_request_id p \<and> rq_state row = Granted
    \<and> clk e 0 < rq_expires_at row \<and> permit_matches_row p row
    \<and> row_matches_request row q (policy_digest h (k_policy k))
    \<and> find_request (pm_request_id p) db' = Some (row\<lparr>rq_state := Dispatched, rq_transport_started_at := Some (clk e 0)\<rparr>)"
proof -
  have sh: "sha e = h" using assms(3) by (simp add: served_def)
  note r = reachable_parts [OF assms(1,2)]
  from assms(4) sh r(1) assms(3) show ?thesis
  proof (cases rule: begin_transport_cases)
    case (started db1 s row)
    note b = expire_bound [OF started(1) r(1) assms(3) r(4)]
    have fr: "find_request (pm_request_id p) db1 = Some row" "permit_matches_row p row"
      using require_permit_row_Inr [OF started(3)] by auto
    have row: "row \<in> set (db_requests db1)" "rq_request_id row = pm_request_id p" using find_request_Some [OF fr(1)] by auto
    have pv: "rq_provider_id row = pl_provider_id (k_policy k)"
      by (rule reachable_row_provider [OF assms(1) b(1) assms(3) row(1)])
        (use started(4) in \<open>simp add: row_matches_request_def\<close>)
    have kept: "row \<in> set (db_requests db) \<and> clk e 0 < rq_expires_at row"
      using expire_rows_kept [OF started(1) r(1) assms(3)] row(1) pv started(5) by (simp add: live_def)
    have "db' = set_row (pm_request_id p) (\<lambda>r. r\<lparr>rq_state := Dispatched, rq_transport_started_at := Some (clk e 0)\<rparr>) db1"
      unfolding started(11) by (rule update_request_set_row [OF _ fr(1) started(5)]) (use b(2) in \<open>simp add: keys_ok_def\<close>)
    then have f: "find_request (pm_request_id p) db' = Some (row\<lparr>rq_state := Dispatched, rq_transport_started_at := Some (clk e 0)\<rparr>)"
      using fr(1) by (simp add: find_request_def set_row_def lookup_update_rows_same)
    have c: "st_circuit_state s = Closed \<or> st_circuit_state s = Half_Open \<and> st_half_open_probe s = Some (request_digest h q)"
      using started(6,8) by (cases "st_circuit_state s") (auto simp: probe_mismatch_def)
    have a: "authorises h (clk e 1) (ar_authorization q) (request_query h k q) db1"
      using verify_authorises started(9) by (simp add: verify_authority_locked_def verify_in_transaction_def)
    show ?thesis
      using started(1,4,5) a validated_state_Inr(1) [OF started(2)] c kept row(2) fr(2) f by blast
  qed simp_all
qed

section \<open>Outcomes\<close>

text \<open>A request moves, and a receipt is appended: what the tables look like afterwards.\<close>

lemma moved_row_use:
  assumes "keys_ok db" "find_request rid db = Some row" "moves_to f s'" "active s' \<Longrightarrow> active (rq_state row)"
    and "db_requests db3 = db_requests (set_row rid f db)"
  shows "int (in_use x db3) = int (in_use x db)
           - (if x = rq_provider_id row \<and> active (rq_state row) \<and> \<not> active s' then 1 else 0)"
    and "find_request y db3 = (if y = rid then Some (f row) else find_request y db)"
proof -
  have u: "in_use x db3 = in_use x (set_row rid f db)" by (simp add: in_use_def assms(5))
  show "int (in_use x db3) = int (in_use x db)
           - (if x = rq_provider_id row \<and> active (rq_state row) \<and> \<not> active s' then 1 else 0)"
  proof (cases "active (rq_state row) \<and> \<not> active s'")
    case True
    then show ?thesis using use_release(2) [OF assms(1,2,3)] u by simp
  next
    case False
    then have "active (rq_state row) = active s'" using assms(4) by blast
    then show ?thesis using use_move(2) [OF assms(1,2,3)] u by simp
  qed
  have i: "rq_request_id (f r) = rq_request_id r" for r using assms(3) by (simp add: moves_to_def)
  show "find_request y db3 = (if y = rid then Some (f row) else find_request y db)"
  proof (cases "y = rid")
    case True
    then show ?thesis
      using assms(2) by (simp add: find_request_def assms(5) set_row_def lookup_update_rows_same i)
  next
    case False
    then show ?thesis by (simp add: find_request_def assms(5) set_row_def lookup_update_rows_other i)
  qed
qed

lemma receipt_appended:
  assumes "append_control_transition e k p (Some s) c now db1 = Inr (s2, db2)"
    and "db_states db1 = db_states db" "keys_ok db" "find_state (pl_provider_id p) db = Some s"
  shows "find_state (pl_provider_id p) db2 = Some s2" "st_circuit_state s2 = cc_circuit c"
    "st_effective_target s2 = cc_target c" "st_control_revision s2 = st_control_revision s + 1"
    "st_half_open_probe s2 = cc_probe c" "db_requests db2 = db_requests db1" "db_projects db2 = db_projects db1"
    "db_transitions db2 = db_transitions db1 @ [receipt e k p (st_control_revision s + 1) (st_control_digest s) c now]"
    "st_policy_digest s2 = policy_digest (sha e) p"
    "x \<noteq> pl_provider_id p \<Longrightarrow> find_state x db2 = find_state x db1"
proof -
  have k: "distinct (map st_provider_id (db_states db1))" using assms(2,3) by (simp add: keys_ok_def)
  have "find_state (pl_provider_id p) db1 = Some s" using assms(2,4) by (simp add: find_state_def)
  then have c: "current (pl_provider_id p) s db1" by (simp add: current_def)
  note a = append_step [OF assms(1) k c]
  show "find_state (pl_provider_id p) db2 = Some s2" by (rule a(4))
  show "st_circuit_state s2 = cc_circuit c" "st_effective_target s2 = cc_target c"
    "st_control_revision s2 = st_control_revision s + 1" "st_half_open_probe s2 = cc_probe c"
    "st_policy_digest s2 = policy_digest (sha e) p"
    by (simp_all add: a(3) control_update_def)
  show "db_requests db2 = db_requests db1" "db_projects db2 = db_projects db1"
    "db_transitions db2 = db_transitions db1 @ [receipt e k p (st_control_revision s + 1) (st_control_digest s) c now]"
    by (simp_all add: a(2))
  show "find_state x db2 = find_state x db1" if "x \<noteq> pl_provider_id p"
    using that by (subst a(2)) (simp add: find_state_def lookup_update_rows_other control_update_def)
qed

text \<open>The outcomes that leave nothing open, and the answers that tell of an overloaded provider.\<close>

definition outcome_known :: "outcome \<Rightarrow> bool" where
  "outcome_known oc \<longleftrightarrow> oc_terminal_persisted oc \<and> (oc_network_attempted oc = Some False
     \<or> oc_network_attempted oc = Some True \<and> oc_response_received oc = Some True)"

definition overload_answer :: "outcome \<Rightarrow> bool" where
  "overload_answer oc \<longleftrightarrow> (\<exists>n. oc_http_status oc = Some n \<and> (n = 429 \<or> n \<in> {500 .. 599}))"

lemma outcome_known: "outcome_known oc \<longleftrightarrow> \<not> ambiguous oc"
  by (cases "oc_network_attempted oc") (auto simp: outcome_known_def ambiguous_def)

lemma overload_answer: "overload_answer oc \<longleftrightarrow> provider_pressure oc"
  by (auto simp: overload_answer_def provider_pressure_def split: option.splits)

lemma finish_circuit_cases:
  "overload_answer oc \<Longrightarrow> finish_circuit p c oc = Open"
  "finish_circuit p Half_Open oc
     = (if outcome_known oc \<and> \<not> overload_answer oc \<and> oc_network_attempted oc = Some True then Closed else Open)"
  "finish_circuit p Closed oc
     = (if \<not> overload_answer oc \<and> (outcome_known oc \<or> pl_uncertain_dispatch_scope p = ''capacity_reservation''
             \<and> oc_terminal_persisted oc \<and> oc_network_attempted oc = Some True \<and> oc_response_received oc = Some False)
        then Closed else Open)"
  unfolding overload_answer outcome_known finish_circuit_def isolated_uncertainty_def ambiguous_def by auto

lemma finish_units:
  assumes "if ambiguous oc then db1 = db else decrement_project row now db = Inr db1" "units_ok db"
  shows "units a b db1 = units a b db - (if (a, b) = row_key row \<and> outcome_known oc then 1 else 0)"
  using assms decrement_units(1) [of row now db db1 a b] by (auto simp: outcome_known units_ok_def split: if_splits)

text \<open>C3. The end of a transport. \<open>finish\<close> ends only the dispatched request of the permit. When the
  terminal record is persisted and either nothing was sent or an answer came, the outcome is known: the
  request is completed, one unit of its provider and its project is released and no other. Otherwise the
  request requires reconciliation and every unit stays in use. The row records time and evidence. An
  answer 429 or 5xx opens the circuit, and an open circuit stays open; a half-open one closes exactly
  for a known outcome that was sent and answered; a closed one stays closed exactly when the outcome is
  known, or a sent request stayed unanswered and the policy confines such uncertainty to its capacity
  unit. The capacity target is kept, the probe is over and the control revision grows by one.\<close>

theorem finish_accounting:
  assumes "policies_ok h P" and "(kernel_step h P)\<^sup>*\<^sup>* initial_db db" and "served h P e k"
    and "finish e k p oc db = (Inr (), db')"
  shows "\<exists>row s s'. find_request (pm_request_id p) db = Some row \<and> rq_state row = Dispatched \<and> permit_matches_row p row
    \<and> find_request (pm_request_id p) db'
        = Some (row\<lparr>rq_state := if outcome_known oc then Completed else Reconciliation_Required,
            rq_terminal_at := Some (clk e 0), rq_terminal_evidence_digest := Some (oc_evidence oc)\<rparr>)
    \<and> (\<forall>rid. rid \<noteq> pm_request_id p \<longrightarrow> find_request rid db' = find_request rid db)
    \<and> (\<forall>x. int (in_use x db') = int (in_use x db) - (if x = rq_provider_id row \<and> outcome_known oc then 1 else 0))
    \<and> (\<forall>x y. units x y db' = units x y db
        - (if x = rq_provider_id row \<and> y = rq_project_binding_digest row \<and> outcome_known oc then 1 else 0))
    \<and> find_state (pl_provider_id (k_policy k)) db = Some s \<and> find_state (pl_provider_id (k_policy k)) db' = Some s'
    \<and> (overload_answer oc \<or> st_circuit_state s = Open \<longrightarrow> st_circuit_state s' = Open)
    \<and> (st_circuit_state s = Half_Open \<longrightarrow> st_circuit_state s' =
        (if outcome_known oc \<and> \<not> overload_answer oc \<and> oc_network_attempted oc = Some True then Closed else Open))
    \<and> (st_circuit_state s = Closed \<longrightarrow> st_circuit_state s' =
        (if \<not> overload_answer oc \<and> (outcome_known oc \<or> pl_uncertain_dispatch_scope (k_policy k) = ''capacity_reservation''
             \<and> oc_terminal_persisted oc \<and> oc_network_attempted oc = Some True \<and> oc_response_received oc = Some False)
         then Closed else Open))
    \<and> st_effective_target s' = st_effective_target s \<and> st_half_open_probe s' = None
    \<and> st_control_revision s' = st_control_revision s + 1"
proof -
  have sh: "sha e = h" using assms(3) by (simp add: served_def)
  note r = reachable_parts [OF assms(1,2)]
  have ok: "db' \<noteq> db \<or> is_ok (Inr () :: unit result)" by simp
  from assms(4) ok sh show ?thesis
  proof (cases rule: finish_Inr)
    case x: (1 s row db1 s2)
    let ?f = "\<lambda>r. r\<lparr>rq_state := if outcome_known oc then Completed else Reconciliation_Required,
          rq_terminal_at := Some (clk e 0), rq_terminal_evidence_digest := Some (oc_evidence oc)\<rparr>"
    have st: "finish_request_state oc = (if outcome_known oc then Completed else Reconciliation_Required)"
      by (simp add: finish_request_state_def outcome_known)
    note x7 = x(7) [unfolded st]
    have mv: "moves_to ?f (if outcome_known oc then Completed else Reconciliation_Required)" by (simp add: moves_to_def)
    have d: "db_requests db1 = db_requests db" "db_states db1 = db_states db"
      using x(6) decrement_Inr by (fastforce split: if_splits)+
    note fs = validated_state_Inr(1) [OF x(1)]
    have fr: "find_request (pm_request_id p) db = Some row" "permit_matches_row p row"
      using require_permit_row_Inr [OF x(3)] by auto
    have ds: "db_states (set_row (pm_request_id p) ?f db1) = db_states db" by (simp add: d set_row_def)
    note a = receipt_appended [OF x7 ds r(1) fs]
    have rs: "db_requests db' = db_requests (set_row (pm_request_id p) ?f db)"
      by (simp add: a(6)) (simp add: set_row_def d)
    have u: "int (in_use y db') = int (in_use y db) - (if y = rq_provider_id row \<and> outcome_known oc then 1 else 0)" for y
      using moved_row_use(1) [OF r(1) fr(1) mv _ rs, of y] by (simp add: x(4))
    have f: "find_request rid db' = (if rid = pm_request_id p then Some (?f row) else find_request rid db)" for rid
      using moved_row_use(2) [OF r(1) fr(1) mv _ rs, of rid] by (simp add: x(4))
    have pj: "units y z db' = units y z db
        - (if y = rq_provider_id row \<and> z = rq_project_binding_digest row \<and> outcome_known oc then 1 else 0)" for y z
      using finish_units [OF x(6) r(2), of y z] units_cong [of db' db1 y z] a(7)
      by (simp add: set_row_def row_key_def)
    note c = a(2) [unfolded circuit_change_def, simplified]
    show ?thesis
      by (intro exI [of _ row] exI [of _ s] exI [of _ s2] conjI allI impI u pj fr x(4) fs a(1,4))
        (use f in \<open>simp_all add: a(3,5) c finish_circuit_cases circuit_change_def, auto simp: c finish_circuit_cases\<close>)
  qed
qed

end
