(* ===== verification/AdmissionProgress.thy ===== *)
theory AdmissionProgress
  imports AdmissionTransport
begin

text \<open>
  Liveness and order of admission: who is selected among the waiting requests, that a request
  that may run gets its permit, and that a lost answer can be asked for again.
\<close>

section \<open>Fair selection\<close>




section \<open>Progress\<close>

lemma selected_alone:
  assumes "find_state (pl_provider_id (k_policy k)) db \<noteq> None" "row \<in> set (db_requests db)"
    and "distinct (map rq_request_id (db_requests db))"
    and "rq_provider_id row = pl_provider_id (k_policy k)" "rq_state row = Waiting"
    and "\<And>r. r \<in> set (db_requests db) \<Longrightarrow> rq_provider_id r = pl_provider_id (k_policy k) \<Longrightarrow> rq_state r = Waiting \<Longrightarrow> r = row"
    and "project_active row db + rq_capacity_unit row \<le> pl_per_project_cap (k_policy k)"
  shows "selected_waiting k db = Inr (Some row)"
proof -
  let ?e = "eligible_rows k db"
  have m: "x = row" if "x \<in> set ?e" for x using eligible_rowsD [OF that] assms(6) by blast
  have i: "row \<in> set ?e" using assms(2,4,5,7) by (simp add: eligible_rows_def waiting_rows_def)
  obtain s where s: "find_state (pl_provider_id (k_policy k)) db = Some s" using assms(1) by blast
  have "selected_waiting k db \<noteq> Inr None \<and> (\<forall>e. selected_waiting k db \<noteq> Inl e)"
    using i s by (auto simp: selected_waiting_def Let_def)
  then obtain r where r: "selected_waiting k db = Inr (Some r)"
    by (metis option.exhaust sum.exhaust)
  with m [OF selected_waiting_eligible [OF r]] show ?thesis by simp
qed

lemma permit_from_row_ok:
  assumes "request_post_init q = Inr q" "row_matches_request row q d" "is_sha256 d" "rq_request_id row = ar_request_id q"
    and "is_sha256 (ref_digest (ar_authorization q))" "0 \<le> ref_epoch (ar_authorization q)"
    and "rq_fencing_token row = Some t" "1 \<le> t" "t < 2 ^ 63" "rq_granted_at row = Some g"
  obtains p where "permit_from_row row = Inr p"
proof -
  have "lane_value l \<in> {''interactive'', ''routine'', ''bulk''}" for l by (cases l) simp_all
  then show thesis
    using assms that
    by (simp add: permit_from_row_def permit_post_init_def request_post_init_def row_matches_request_def result_simps)
qed

lemma grant_waiting_alone:
  assumes "keys_ok db" "find_request (ar_request_id q) db = Some row" "rq_state row = Waiting"
    and "selected_waiting k db = Inr (Some row)" "int (in_use (ar_provider_id q) db) + 1 \<le> capacity_of s"
  shows "grant_waiting k s q now old db =
    (permit_from_row (granted (db_fencing_counter db + 1) now row),
     grant_db s (ar_provider_id q) (ar_project_digest q) (ar_lane q) (ar_request_id q) now db)"
proof -
  let ?x = "ar_provider_id q"
  let ?g = "grant_db s ?x (ar_project_digest q) (ar_lane q) (ar_request_id q) now db"
  have u: "update_request (ar_request_id q) Waiting
      (\<lambda>r. r\<lparr>rq_state := Granted, rq_fencing_token := Some (db_fencing_counter (bump_fencing db)), rq_granted_at := Some now\<rparr>)
      (record_grant ?x (ar_lane q) (st_grant_sequence s + 1) now
        (increment_project ?x (ar_project_digest q) (st_grant_sequence s + 1) now (bump_fencing db))) = ?g"
    by (simp add: update_request_grant_db [OF assms(1,2,3)] grant_db_def)
  have c: "\<not> active_capacity ?x db + 1 > capacity_of s" using assms(5) by (simp add: active_capacity_in_use [OF assms(1)])
  have i: "rq_request_id row = ar_request_id q" using find_request_Some [OF assms(2)] by simp
  show ?thesis
    unfolding grant_waiting_def capacity_of_def [symmetric] Let_def u
    using c by (simp add: assms(4) i grant_db_find(1) [OF assms(2,3,1)])
qed

text \<open>What a request needs to be granted at once: it is new, it is the only one that waits, and there
  is room for it in the provider and in its project.\<close>

definition room_for :: "kernel \<Rightarrow> state_row \<Rightarrow> admission_request \<Rightarrow> runtime_db \<Rightarrow> bool" where
  "room_for k s q db \<longleftrightarrow>
     (\<forall>r \<in> set (db_requests db). rq_request_id r \<noteq> ar_request_id q \<and> rq_run_id r \<noteq> ar_run_id q
        \<and> \<not> (rq_provider_id r = ar_provider_id q \<and> rq_state r = Waiting))
     \<and> int (in_use (ar_provider_id q) db) + 1 \<le> st_effective_target s
     \<and> int (project_use (ar_provider_id q) (ar_project_digest q) db) + 1 \<le> pl_per_project_cap (k_policy k)
     \<and> 0 \<le> db_fencing_counter db \<and> db_fencing_counter db < 2 ^ 63 - 1"

definition well_formed_request :: "admission_request \<Rightarrow> bool" where
  "well_formed_request q \<longleftrightarrow> request_post_init q = Inr q \<and> is_sha256 (ref_digest (ar_authorization q))
     \<and> 0 \<le> ref_epoch (ar_authorization q)"

lemma admit_alone:
  assumes "served h P e k" "\<forall>t. is_sha256 (h t)" "well_formed_request q"
    and "ar_provider_id q = pl_provider_id (k_policy k)" "1 \<le> ttl" "ttl \<le> 86400"
    and "verify_authority h k (clk e 0) q seen = Inr a"
    and "expire e k (clk e 1) db = Inr db1" "validated_state h k db1 = Inr s" "keys_ok db1"
    and "st_circuit_state s = Closed" "\<not> unresolved_blocks k (ar_provider_id q) db1" "room_for k s q db1"
  defines "new \<equiv> waiting_row h k q (clk e 1) (clk e 1 + seconds ttl)"
  defines "db2 \<equiv> db1\<lparr>db_requests := db_requests db1 @ [new]\<rparr>"
  obtains p where "permit_from_row (granted (db_fencing_counter db1 + 1) (clk e 1) new) = Inr p"
    "try_admit e k q ttl seen db = (Inr p,
       grant_db s (ar_provider_id q) (ar_project_digest q) (ar_lane q) (ar_request_id q) (clk e 1) db2)"
proof -
  let ?x = "ar_provider_id q"
  have sh: "sha e = h" using assms(1) by (simp add: served_def)
  have w: "rq_state new = Waiting" "rq_provider_id new = ?x" "rq_request_id new = ar_request_id q"
    "rq_project_binding_digest new = ar_project_digest q" "rq_capacity_unit new = 1"
    "row_matches_request new q (policy_digest h (k_policy k))"
    by (simp_all add: new_def waiting_row_def row_matches_request_def)
  have none: "find_request (ar_request_id q) db1 = None"
    using assms(13) by (simp add: room_for_def find_request_def lookup_row_None)
  have f2: "find_request (ar_request_id q) db2 = Some new"
    using none by (simp add: db2_def find_request_def lookup_row_append w)
  have k2: "keys_ok db2"
    using assms(10,13) by (auto simp: keys_ok_def db2_def room_for_def w image_iff)
  have fs: "find_state ?x db2 = Some s" "find_state ?x db1 = Some s"
    using validated_state_Inr(1) [OF assms(9)] assms(4) by (simp_all add: db2_def find_state_def)
  have use: "in_use ?x db2 = in_use ?x db1" "project_use ?x b db2 = project_use ?x b db1" for b
    by (simp_all add: db2_def use_enqueue [OF w(1)])
  have sel: "selected_waiting k db2 = Inr (Some new)"
  proof (rule selected_alone)
    show "project_active new db2 + rq_capacity_unit new \<le> pl_per_project_cap (k_policy k)"
      using assms(13) by (simp add: project_active_use [OF k2] w use room_for_def)
    show "r = new" if "r \<in> set (db_requests db2)" "rq_provider_id r = pl_provider_id (k_policy k)" "rq_state r = Waiting" for r
      using that assms(4,13) by (auto simp: db2_def room_for_def)
  qed (use fs assms(4) k2 in \<open>simp_all add: w db2_def keys_ok_def\<close>)
  have cap: "int (in_use ?x db2) + 1 \<le> capacity_of s"
    using assms(11,13) by (simp add: use room_for_def capacity_of_def)
  note g = grant_waiting_alone [OF k2 f2 w(1) sel cap, of "clk e 1" db]
  have d: "is_sha256 (policy_digest h (k_policy k))"
    using assms(2) by (simp add: policy_digest_def sha256_hex_def)
  have pi: "request_post_init q = Inr q" "is_sha256 (ref_digest (ar_authorization q))" "0 \<le> ref_epoch (ar_authorization q)"
    using assms(3) by (simp_all add: well_formed_request_def)
  obtain p where p: "permit_from_row (granted (db_fencing_counter db1 + 1) (clk e 1) new) = Inr p"
    by (rule permit_from_row_ok [OF pi(1) _ d _ pi(2,3), of "granted (db_fencing_counter db1 + 1) (clk e 1) new"
        "db_fencing_counter db1 + 1" "clk e 1"]) (use assms(13) w in \<open>simp_all add: room_for_def\<close>)
  have "\<not> list_ex (\<lambda>r. rq_run_id r = ar_run_id q) (db_requests db1)"
    using assms(13) by (auto simp: list_ex_iff room_for_def)
  then have "admit_in_transaction e k q ttl (clk e 1) db = grant_waiting k s q (clk e 1) db db2"
    unfolding admit_in_transaction_def Let_def sh assms(8) sum.case assms(9) none option.case
    using assms(11,12) by (simp add: probe_mismatch_def db2_def new_def)
  moreover have "db_fencing_counter db2 = db_fencing_counter db1" by (simp add: db2_def)
  ultimately have "admit_in_transaction e k q ttl (clk e 1) db = (Inr p,
       grant_db s ?x (ar_project_digest q) (ar_lane q) (ar_request_id q) (clk e 1) db2)"
    using g p by simp
  then have "try_admit e k q ttl seen db = (Inr p,
       grant_db s ?x (ar_project_digest q) (ar_lane q) (ar_request_id q) (clk e 1) db2)"
    using assms(4-7) by (simp add: try_admit_def sh chk_range_def)
  with p that show thesis by blast
qed

text \<open>C9. A request that may run is granted at once. The conditions: the kernel serves a reachable
  database; the request is well formed, its request and run identifiers are new, the time to live is in
  its bounds and its authority verifies; overdue requests expire without an error and the control state
  that is left validates; the circuit is closed and no unresolved capacity blocks the provider; no other
  request of the provider waits, and there is room in the provider and in the project. Then
  \<open>try_admit\<close> returns a permit and stores a granted row that carries the identity and the digests of
  the request, the permit's token, the time of the grant and the time it expires; the provider and the
  project have one unit more in use, and nobody else has.\<close>

theorem lone_request_is_admitted:
  assumes "policies_ok h P" and "(kernel_step h P)\<^sup>*\<^sup>* initial_db db" and "served h P e k"
    and "\<forall>t. is_sha256 (h t)" and "well_formed_request q"
    and "ar_provider_id q = pl_provider_id (k_policy k)" "1 \<le> ttl" "ttl \<le> 86400"
    and "verify_authority h k (clk e 0) q seen = Inr a"
    and "expire e k (clk e 1) db = Inr db1" "validated_state h k db1 = Inr s"
    and "st_circuit_state s = Closed" "\<not> unresolved_blocks k (ar_provider_id q) db1" "room_for k s q db1"
  shows "\<exists>p db'. try_admit e k q ttl seen db = (Inr p, db') \<and> pm_request_id p = ar_request_id q
     \<and> pm_fencing_token p = db_fencing_counter db1 + 1 \<and> pm_expires_at p = clk e 1 + seconds ttl
     \<and> is_ok (require_permit_row p db')
     \<and> (\<exists>row. find_request (ar_request_id q) db' = Some row \<and> rq_state row = Granted
          \<and> rq_fencing_token row = Some (pm_fencing_token p) \<and> rq_granted_at row = Some (clk e 1)
          \<and> rq_expires_at row = pm_expires_at p \<and> rq_provider_id row = ar_provider_id q
          \<and> rq_project_binding_digest row = ar_project_digest q \<and> rq_admission_lane row = ar_lane q
          \<and> rq_run_id row = ar_run_id q \<and> rq_task_digest row = ar_task_digest q
          \<and> rq_member_digest row = ar_member_digest q \<and> rq_provider_tier_binding_digest row = ar_tier_digest q
          \<and> rq_authority_digest row = ref_digest (ar_authorization q)
          \<and> rq_authority_epoch row = ref_epoch (ar_authorization q)
          \<and> rq_policy_digest row = policy_digest h (k_policy k))
     \<and> (\<forall>x. in_use x db' = in_use x db1 + (if x = ar_provider_id q then 1 else 0))
     \<and> (\<forall>x y. project_use x y db' = project_use x y db1
          + (if x = ar_provider_id q \<and> y = ar_project_digest q then 1 else 0))"
proof -
  have k1: "keys_ok db1"
    using expire_bound(2) [OF assms(10) _ assms(3)] reachable_parts [OF assms(1,2)] by blast
  let ?new = "waiting_row h k q (clk e 1) (clk e 1 + seconds ttl)"
  let ?db2 = "db1\<lparr>db_requests := db_requests db1 @ [?new]\<rparr>"
  obtain p where p: "permit_from_row (granted (db_fencing_counter db1 + 1) (clk e 1) ?new) = Inr p"
    and t: "try_admit e k q ttl seen db = (Inr p,
       grant_db s (ar_provider_id q) (ar_project_digest q) (ar_lane q) (ar_request_id q) (clk e 1) ?db2)"
    by (rule admit_alone [OF assms(3-11) k1 assms(12-14)])
  have new: "rq_request_id ?new = ar_request_id q" "rq_state ?new = Waiting" "rq_expires_at ?new = clk e 1 + seconds ttl"
    by (simp_all add: waiting_row_def)
  have "find_request (ar_request_id q) db1 = None"
    using assms(14) by (simp add: room_for_def find_request_def lookup_row_None)
  then have f2: "find_request (ar_request_id q) ?db2 = Some ?new"
    by (simp add: find_request_def lookup_row_append waiting_row_def)
  have k2: "keys_ok ?db2"
    using k1 assms(14) by (auto simp: keys_ok_def room_for_def waiting_row_def image_iff)
  note f = grant_db_find(1) [OF f2 new(2) k2, of s "ar_provider_id q" "ar_project_digest q" "ar_lane q" "clk e 1"]
  note m = permit_from_row_Inr [OF p]
  have "is_ok (require_permit_row p (grant_db s (ar_provider_id q) (ar_project_digest q) (ar_lane q)
      (ar_request_id q) (clk e 1) ?db2))"
    using permit_row_found [OF p, of "grant_db s (ar_provider_id q) (ar_project_digest q) (ar_lane q)
      (ar_request_id q) (clk e 1) ?db2"] f by (simp add: new del: One_nat_def)
  moreover have "pm_request_id p = ar_request_id q" "pm_fencing_token p = db_fencing_counter db1 + 1"
    "pm_expires_at p = clk e 1 + seconds ttl"
    using m by (simp_all add: new permit_matches_row_def del: One_nat_def)
  moreover have "in_use x (grant_db s (ar_provider_id q) (ar_project_digest q) (ar_lane q) (ar_request_id q) (clk e 1) ?db2)
      = in_use x db1 + (if x = ar_provider_id q then 1 else 0)"
    "project_use x y (grant_db s (ar_provider_id q) (ar_project_digest q) (ar_lane q) (ar_request_id q) (clk e 1) ?db2)
      = project_use x y db1 + (if x = ar_provider_id q \<and> y = ar_project_digest q then 1 else 0)" for x y
    using use_grant(1) [OF k2 f2 new(2), of x y s "ar_provider_id q" "ar_project_digest q" "ar_lane q" "clk e 1"]
      use_grant(2) [OF k2 f2 new(2), of x s "ar_provider_id q" "ar_project_digest q" "ar_lane q" "clk e 1"]
    by (simp_all add: use_enqueue new(2) row_key_def waiting_row_def split: if_splits)
  ultimately show ?thesis using t f
    by (intro exI [of _ p] exI [of _ "grant_db s (ar_provider_id q) (ar_project_digest q) (ar_lane q)
      (ar_request_id q) (clk e 1) ?db2"]) (simp add: new granted_def waiting_row_def del: One_nat_def)
qed

end
