(* ===== verification/AdmissionExample.thy ===== *)
theory AdmissionExample
  imports AdmissionProgress
begin

text \<open>
  A concrete run of the kernel, step by step, that the instances of the properties use: the
  policy of \<open>grok\<close> is installed, an authority is issued, a request is granted, its transport starts,
  and ends with an unknown outcome that opens the circuit.
\<close>

section \<open>The stand-in environment\<close>

definition later_env :: "int \<Rightarrow> env" where
  "later_env n = example_env\<lparr>clk := (\<lambda>i. seconds (n + int i))\<rparr>"

lemma env_simps [simp]:
  "sha example_env = example_sha" "sha (later_env n) = example_sha" "clk example_env i = seconds (int i)"
  "clk (later_env n) i = seconds (n + int i)" "uid (later_env n) = uid example_env"
  by (simp_all add: later_env_def example_env_def)

lemma seconds_less [simp]: "seconds a < seconds b \<longleftrightarrow> a < b" "seconds a \<le> seconds b \<longleftrightarrow> a \<le> b"
  "0 < seconds b \<longleftrightarrow> 0 < b"
  "seconds a + seconds b = seconds (a + b)"
  by (simp_all add: seconds_def)

lemma example_hex: "\<forall>t. is_sha256 (example_sha t)"
  by (simp add: example_sha_hex)

section \<open>The policy is installed\<close>

definition ex_kernel :: kernel where
  "ex_kernel = \<lparr>k_path = ''/rt.db'', k_policy = grok_provider_admission_policy, k_mode = Offline_Test\<rparr>"

abbreviation ex_policies :: "policy set" where
  "ex_policies \<equiv> {grok_provider_admission_policy}"

lemma ex_kernel_simps [simp]:
  "k_policy ex_kernel = grok_provider_admission_policy" "k_mode ex_kernel = Offline_Test"
  by (simp_all add: ex_kernel_def)

lemma grok_simps [simp]:
  "pl_provider_id grok_provider_admission_policy = ''grok''" "pl_effective_target grok_provider_admission_policy = 8"
  "pl_hard_max grok_provider_admission_policy = 32" "pl_per_project_cap grok_provider_admission_policy = 8"
  "pl_uncertain_dispatch_scope grok_provider_admission_policy = ''capacity_reservation''"
  by (simp_all add: grok_provider_admission_policy_def)

lemma ex_policies_ok: "policies_ok example_sha ex_policies"
proof -
  have "policy_ok grok_provider_admission_policy" unfolding policy_ok_def by code_simp
  then show ?thesis by (simp add: policies_ok_def)
qed

lemma ex_served [simp]: "served example_sha ex_policies (later_env n) ex_kernel" "served example_sha ex_policies example_env ex_kernel"
  by (simp_all add: served_def)

definition ex_change :: control_change where
  "ex_change = genesis_change grok_provider_admission_policy"

definition ex_receipt :: transition_row where
  "ex_receipt = receipt example_env ex_kernel grok_provider_admission_policy 1 zero_digest ex_change 0"

definition ex_state :: state_row where
  "ex_state = first_state example_env ex_kernel grok_provider_admission_policy ex_change 1 (tr_body_sha256 ex_receipt) 0"

definition ex_policy_row :: policy_row where
  "ex_policy_row = \<lparr>po_provider_id = ''grok'', po_revision = pl_revision grok_provider_admission_policy,
     po_body_json = json_norm (policy_to_dict grok_provider_admission_policy),
     po_body_sha256 = sha256_body example_sha (json_norm (policy_to_dict grok_provider_admission_policy)),
     po_policy_digest = policy_digest example_sha grok_provider_admission_policy, po_created_at = 0\<rparr>"

definition ex_installed :: runtime_db where
  "ex_installed = initial_db\<lparr>db_policies := [ex_policy_row], db_transitions := [ex_receipt], db_states := [ex_state]\<rparr>"

lemma seconds_0 [simp]: "seconds 0 = 0"
  by (simp add: seconds_def)

lemma ex_check_change: "check_change grok_provider_admission_policy ex_change = Inr ()"
  by code_simp

lemma ex_install: "install_policy example_env ex_kernel initial_db = (Inr (), ex_installed)"
proof -
  let ?db1 = "initial_db\<lparr>db_policies := [ex_policy_row]\<rparr>"
  have p: "ensure_policy_row example_sha Policy_Revision_Conflict grok_provider_admission_policy 0 initial_db = Inr ?db1"
    by (simp add: ensure_policy_row_def initial_db_def Let_def ex_policy_row_def)
  have "append_control_transition example_env ex_kernel (k_policy ex_kernel) None ex_change 0 ?db1
      = Inr (ex_state, ?db1\<lparr>db_transitions := db_transitions ?db1 @ [ex_receipt], db_states := db_states ?db1 @ [ex_state]\<rparr>)"
    by (rule genesis_succeeds)
      (simp_all add: initial_db_def find_state_def receipts_of_def example_hex ex_check_change ex_receipt_def ex_state_def
        fresh_receipt_def)
  then have a: "append_control_transition example_env ex_kernel grok_provider_admission_policy None
      (genesis_change grok_provider_admission_policy) 0 ?db1 = Inr (ex_state, ex_installed)"
    by (simp add: ex_change_def ex_installed_def initial_db_def)
  have f: "find_state ''grok'' initial_db = None" by (simp add: initial_db_def find_state_def)
  show ?thesis
    by (simp add: install_policy_def Let_def f p a commit_result_def) (simp add: initial_db_def count_rows_def)
qed

lemma ex_installed_reachable: "(kernel_step example_sha ex_policies)\<^sup>*\<^sup>* initial_db ex_installed"
  using kernel_step.install [OF ex_served(2) ex_install] by simp

lemma receipts_of_eq:
  assumes "receipts_of (pl_provider_id p) db = receipts_of (pl_provider_id p) db'"
    and "find_state (pl_provider_id p) db = find_state (pl_provider_id p) db'"
  shows "validated_control_state h p m d db = validated_control_state h p m d db'"
  unfolding validated_control_state_def find_transition_receipt transition_revisions_receipts assms ..

lemma ex_validated: "validated_state example_sha ex_kernel ex_installed = Inr ex_state"
proof -
  let ?db1 = "initial_db\<lparr>db_policies := [ex_policy_row]\<rparr>"
  have "append_control_transition example_env ex_kernel (k_policy ex_kernel) None ex_change 0 ?db1
      = Inr (ex_state, ?db1\<lparr>db_transitions := db_transitions ?db1 @ [ex_receipt], db_states := db_states ?db1 @ [ex_state]\<rparr>)"
    by (rule genesis_succeeds)
      (simp_all add: initial_db_def find_state_def receipts_of_def example_hex ex_check_change ex_receipt_def ex_state_def
        fresh_receipt_def)
  from append_None_Inr(4) [OF this] show ?thesis
    by (simp add: validated_state_def deployment_digest_def ex_installed_def initial_db_def)
qed

text \<open>A database that differs from the installed one only in tables the check does not read.\<close>

lemma ex_validated_like:
  assumes "db_states db = db_states ex_installed" "db_transitions db = db_transitions ex_installed"
  shows "validated_state example_sha ex_kernel db = Inr ex_state"
proof -
  have "validated_state example_sha ex_kernel db = validated_state example_sha ex_kernel ex_installed"
    unfolding validated_state_def
    by (rule receipts_of_eq) (simp_all add: receipts_of_def find_state_def assms)
  then show ?thesis by (simp add: ex_validated)
qed

lemma ex_state_simps [simp]:
  "st_circuit_state ex_state = Closed" "st_effective_target ex_state = 8" "st_provider_id ex_state = ''grok''"
  "st_half_open_probe ex_state = None" "st_control_revision ex_state = 1" "st_grant_sequence ex_state = 0"
  by (simp_all add: ex_state_def first_state_def ex_change_def genesis_change_def)

section \<open>An authority is issued\<close>

definition ex_project :: string where
  "ex_project = replicate 64 (CHR ''a'')"

definition ex_scope :: authority_scope where
  "ex_scope = \<lparr>sc_providers = [''grok''], sc_planes = [''cloud''], sc_task_types = [], sc_batch_ids = [],
     sc_member_digests = [], sc_tier_digests = [], sc_project_digests = [ex_project], sc_lanes = [''interactive''],
     sc_policy_digests = [policy_digest example_sha grok_provider_admission_policy], sc_target_digests = [],
     sc_circuit_digests = [], sc_version = 3\<rparr>"

definition ex_authority :: authority_row where
  "ex_authority = issued_row example_env ''operator'' ''s'' ex_scope (seconds 600) ex_installed"

definition ex_authorised :: runtime_db where
  "ex_authorised = ex_installed\<lparr>db_authorities := [ex_authority]\<rparr>"

definition ex_request :: admission_request where
  "ex_request = \<lparr>ar_request_id = ''00000000-0000-4000-8000-000000000001'', ar_provider_id = ''grok'',
     ar_project_digest = ex_project, ar_lane = Interactive, ar_run_id = ''00000000-0000-4000-8000-000000000002'',
     ar_authorization = row_reference ex_authority, ar_plane = ''cloud'', ar_task_type = ''review'',
     ar_task_digest = replicate 64 (CHR ''b''), ar_member_digest = None, ar_batch_id = None, ar_tier_digest = None\<rparr>"

lemma ex_request_simps [simp]:
  "ar_provider_id ex_request = ''grok''" "ar_project_digest ex_request = ex_project" "ar_lane ex_request = Interactive"
  "ar_authorization ex_request = row_reference ex_authority"
  by (simp_all add: ex_request_def)

lemma policy_digest_hex [simp]: "is_sha256 (policy_digest example_sha p)"
  by (simp add: policy_digest_def sha256_hex_def example_sha_hex)

lemma chk_hex_text: "is_sha256 s \<Longrightarrow> chk_non_empty s = Inr s"
proof -
  assume a: "is_sha256 s"
  have ns: "\<not> is_space c" if "is_lower_hex c" for c
    using that by (auto simp: is_lower_hex_def is_digit_def is_space_def)
  have "\<And>c. c \<in> set s \<Longrightarrow> \<not> is_space c" "s \<noteq> []"
    using a ns by (auto simp: is_sha256_def list_all_iff)
  then have "dropWhile is_space s = s" "dropWhile is_space (rev s) = rev s"
    by (simp_all add: dropWhile_eq_self_iff hd_rev)
  then have "strip s = s" by (simp add: strip_def)
  with \<open>s \<noteq> []\<close> show ?thesis by (simp add: chk_non_empty_def)
qed

lemma ex_project_hex [simp]: "is_sha256 ex_project"
  unfolding ex_project_def by code_simp

lemma ex_scope_normal: "normal_scope ex_scope"
proof -
  have t: "string_tuple True [''grok''] = Inr [''grok'']" "string_tuple True [''cloud''] = Inr [''cloud'']"
    "string_tuple False [] = Inr []" "lane_tuple [''interactive''] = Inr [''interactive'']"
    by code_simp+
  have d: "digest_tuple [s] = Inr [s]" if "is_sha256 s" for s
    using that by (simp add: digest_tuple_def string_tuple_def chk_hex_text)
  have e: "digest_tuple [] = Inr []" by (simp add: digest_tuple_def t)
  show ?thesis
    by (simp add: normal_scope_def scope_post_init_def ex_scope_def t d e)
qed

lemma ex_authority_simps [simp]:
  "au_epoch ex_authority = 0" "au_revoked_at ex_authority = None" "au_expires_at ex_authority = seconds 600"
  "ref_epoch (row_reference ex_authority) = 0" "is_sha256 (ref_digest (row_reference ex_authority))"
  by (simp_all add: ex_authority_def issued_row_def Let_def ex_installed_def initial_db_def row_reference_def
      sha256_body_def example_sha_hex)

lemma ex_query: "request_query example_sha ex_kernel ex_request
  = \<lparr>aq_provider_id = ''grok'', aq_plane = ''cloud'', aq_task_type = ''review'', aq_batch_id = None,
     aq_member_digest = None, aq_tier_digest = None, aq_project_digest = Some ex_project, aq_lane = Some ''interactive'',
     aq_policy_digest = Some (policy_digest example_sha grok_provider_admission_policy), aq_target_digest = None,
     aq_circuit_digest = None\<rparr>"
  by (simp add: request_query_def) (simp add: ex_request_def)

lemma ex_verified:
  assumes "db_authorities db = [ex_authority]" "db_epoch db = db_epoch initial_db" "now < seconds 600"
  shows "verify example_sha now (row_reference ex_authority) (request_query example_sha ex_kernel ex_request) db
    = Inr (row_reference ex_authority)"
proof -
  have f: "find_authority (row_reference ex_authority) db = Some ex_authority"
    by (simp add: find_authority_def assms(1) row_reference_def)
  have st: "strip ''grok'' = ''grok''" "strip ''cloud'' = ''cloud''" "strip ''review'' = ''review''" by code_simp+
  show ?thesis
  proof (rule verify_complete [OF _ f])
    have "permits ex_scope (request_query example_sha ex_kernel ex_request)"
      unfolding ex_query by (simp add: permits_def ex_scope_def listed_def)
    then have "authorises (sha example_env) now (row_reference ex_authority) (request_query example_sha ex_kernel ex_request) db"
      using f scope_round_trip [OF ex_scope_normal] assms example_sha_hex
      unfolding ex_query
      by (auto simp: authorises_def ex_authority_def issued_row_def Let_def row_reference_def st
          initial_db_def sha256_body_def ex_installed_def)
    then show "authorises example_sha now (row_reference ex_authority) (request_query example_sha ex_kernel ex_request) db"
      by simp
    show "is_object (au_body_json ex_authority)"
      by (simp add: ex_authority_def issued_row_def Let_def authority_body_def is_object_def)
    show "body_scope_matches (au_body_json ex_authority) scope"
      if "scope_from_dict (au_scope_json ex_authority) = Inr scope" for scope
      using that scope_round_trip [OF ex_scope_normal]
      by (simp add: ex_authority_def issued_row_def Let_def body_scope_matches_issued)
  qed (simp_all add: row_reference_def ex_query st)
qed

lemma ex_authorised_reachable: "(kernel_step example_sha ex_policies)\<^sup>*\<^sup>* initial_db ex_authorised"
proof -
  have "kernel_step example_sha ex_policies ex_installed ex_authorised"
    by (rule kernel_step.foreign) (simp_all add: ex_authorised_def)
  with ex_installed_reachable show ?thesis by simp
qed

section \<open>The request is granted\<close>

lemma expire_nothing:
  assumes "validated_state (sha e) k db = Inr s"
    and "\<And>r. r \<in> set (db_requests db) \<Longrightarrow> rq_provider_id r = pl_provider_id (k_policy k) \<Longrightarrow> live r \<Longrightarrow> now < rq_expires_at r"
  shows "expire e k now db = Inr db"
proof -
  have "expire_rows e k s now rows (db, None) = Inr (db, None)"
    if "\<forall>r \<in> set rows. now < rq_expires_at r" for rows
    using that by (induction rows) simp_all
  then show ?thesis using assms by (simp add: expire_def live_def)
qed

definition ex_waiting :: request_row where
  "ex_waiting = waiting_row example_sha ex_kernel ex_request (seconds 1) (seconds 61)"

definition ex_row :: request_row where
  "ex_row = granted 1 (seconds 1) ex_waiting"

definition ex_granted :: runtime_db where
  "ex_granted = grant_db ex_state ''grok'' ex_project Interactive (ar_request_id ex_request) (seconds 1)
     (ex_authorised\<lparr>db_requests := [ex_waiting]\<rparr>)"

definition ex_permit :: permit where
  "ex_permit = projr (permit_from_row ex_row)"

lemma ex_request_ok: "well_formed_request ex_request"
proof -
  have "request_post_init ex_request = Inr ex_request"
  proof -
    have "is_uuid4 ''00000000-0000-4000-8000-000000000001''" "is_uuid4 ''00000000-0000-4000-8000-000000000002''"
      "is_identifier ''grok''" "is_identifier ''cloud''" "is_identifier ''review''" "is_sha256 (replicate 64 (CHR ''b''))"
      by code_simp+
    then show ?thesis
      by (simp add: request_post_init_def result_simps) (simp add: ex_request_def chk_optional_def)
  qed
  then show ?thesis by (simp add: well_formed_request_def)
qed

lemma ex_authorised_simps [simp]:
  "db_requests ex_authorised = []" "db_fencing_counter ex_authorised = 0" "db_authorities ex_authorised = [ex_authority]"
  "db_epoch ex_authorised = db_epoch initial_db" "db_states ex_authorised = db_states ex_installed"
  "db_transitions ex_authorised = db_transitions ex_installed" "db_projects ex_authorised = []"
  by (simp_all add: ex_authorised_def ex_installed_def initial_db_def)

lemma ex_admitted:
  "permit_from_row ex_row = Inr ex_permit"
  "try_admit example_env ex_kernel ex_request 60 ex_authorised ex_authorised = (Inr ex_permit, ex_granted)"
proof -
  have v: "validated_state example_sha ex_kernel ex_authorised = Inr ex_state" by (rule ex_validated_like) simp_all
  have x: "expire example_env ex_kernel (clk example_env 1) ex_authorised = Inr ex_authorised"
    by (rule expire_nothing) (use v in simp_all)
  have a: "verify_authority example_sha ex_kernel (clk example_env 0) ex_request ex_authorised = Inr (row_reference ex_authority)"
    unfolding verify_authority_def ex_request_simps by (rule ex_verified) simp_all
  have k: "keys_ok ex_authorised" using reachable_parts(1) [OF ex_policies_ok ex_authorised_reachable] .
  have r: "room_for ex_kernel ex_state ex_request ex_authorised"
    by (simp add: room_for_def in_use_def project_use_def)
  have u: "\<not> unresolved_blocks ex_kernel (ar_provider_id ex_request) ex_authorised" by (simp add: unresolved_blocks_def)
  obtain p where p: "permit_from_row (granted (db_fencing_counter ex_authorised + 1) (clk example_env 1)
        (waiting_row example_sha ex_kernel ex_request (clk example_env 1) (clk example_env 1 + seconds 60))) = Inr p"
    and t: "try_admit example_env ex_kernel ex_request 60 ex_authorised ex_authorised = (Inr p,
       grant_db ex_state (ar_provider_id ex_request) (ar_project_digest ex_request) (ar_lane ex_request)
         (ar_request_id ex_request) (clk example_env 1)
         (ex_authorised\<lparr>db_requests := db_requests ex_authorised @
           [waiting_row example_sha ex_kernel ex_request (clk example_env 1) (clk example_env 1 + seconds 60)]\<rparr>))"
    by (rule admit_alone [where ttl = 60, OF ex_served(2) example_hex ex_request_ok _ _ _ a x v k _ u r]) simp_all
  from p have "permit_from_row ex_row = Inr p" by (simp add: ex_row_def ex_waiting_def)
  then show "permit_from_row ex_row = Inr ex_permit" by (simp add: ex_permit_def)
  with \<open>permit_from_row ex_row = Inr p\<close> t
  show "try_admit example_env ex_kernel ex_request 60 ex_authorised ex_authorised = (Inr ex_permit, ex_granted)"
    by (simp add: ex_granted_def ex_waiting_def)
qed

lemma ex_granted_reachable: "(kernel_step example_sha ex_policies)\<^sup>*\<^sup>* initial_db ex_granted"
  using ex_authorised_reachable kernel_step.admit [OF ex_served(2) ex_admitted(2)] by simp

lemma ex_row_simps [simp]:
  "rq_request_id ex_row = ar_request_id ex_request" "rq_state ex_row = Granted" "rq_provider_id ex_row = ''grok''"
  "rq_expires_at ex_row = seconds 61" "rq_fencing_token ex_row = Some 1" "rq_project_binding_digest ex_row = ex_project"
  "row_matches_request ex_row ex_request (policy_digest example_sha grok_provider_admission_policy)"
  by (simp_all add: ex_row_def ex_waiting_def waiting_row_def, simp_all add: granted_def row_matches_request_def waiting_row_def)

lemma ex_granted_requests [simp]: "db_requests ex_granted = [ex_row]"
  by (simp add: ex_granted_def grant_db_parts set_row_def update_rows_def ex_row_def granted_def)
    (simp add: ex_waiting_def waiting_row_def)

lemma ex_permit_simps [simp]:
  "permit_matches_row ex_permit ex_row" "pm_request_id ex_permit = ar_request_id ex_request"
  "pm_fencing_token ex_permit = 1"
  using permit_from_row_Inr [OF ex_admitted(1)] by simp_all

section \<open>The transport starts\<close>

lemma ex_granted_parts [simp]:
  "db_authorities ex_granted = [ex_authority]" "db_epoch ex_granted = db_epoch initial_db"
  "db_transitions ex_granted = [ex_receipt]" "db_fencing_counter ex_granted = 1"
  by (simp_all add: ex_granted_def grant_db_parts) (simp add: ex_installed_def)

definition ex_granted_state :: state_row where
  "ex_granted_state = ex_state\<lparr>st_grant_sequence := 1, st_last_granted_lane := Some Interactive, st_updated_at := seconds 1\<rparr>"

lemma ex_granted_states: "db_states ex_granted = [ex_granted_state]"
  by (simp add: ex_granted_def grant_db_parts record_grant_def ex_installed_def update_rows_def ex_granted_state_def)

lemma ex_granted_state_simps [simp]:
  "st_circuit_state ex_granted_state = Closed" "st_effective_target ex_granted_state = 8"
  "st_control_revision ex_granted_state = 1" "st_provider_id ex_granted_state = ''grok''"
  by (simp_all add: ex_granted_state_def)

lemma same_control_validated:
  assumes "validated_state h k db = Inr s" "same_control s s'"
    and "receipts_of (pl_provider_id (k_policy k)) db' = receipts_of (pl_provider_id (k_policy k)) db"
    and "find_state (pl_provider_id (k_policy k)) db' = Some s'"
  shows "validated_state h k db' = Inr s'"
  using assms(1) same_control_valid [OF assms(2)]
  unfolding validated_state_def validated_iff assms(3,4) by simp

lemma ex_granted_validated:
  assumes "db_states db = [ex_granted_state]" "db_transitions db = [ex_receipt]"
  shows "validated_state example_sha ex_kernel db = Inr ex_granted_state"
  by (rule same_control_validated [OF ex_validated])
    (simp_all add: same_control_def ex_granted_state_def [symmetric] find_state_def assms receipts_of_def ex_installed_def,
      simp add: ex_granted_state_def)

definition ex_started :: request_row where
  "ex_started = ex_row\<lparr>rq_state := Dispatched, rq_transport_started_at := Some (seconds 10)\<rparr>"

definition ex_dispatched :: runtime_db where
  "ex_dispatched = ex_granted\<lparr>db_requests := [ex_started]\<rparr>"

lemma ex_begun: "begin_transport (later_env 10) ex_kernel ex_permit ex_request ex_granted = (Inr (), ex_dispatched)"
proof -
  have v: "validated_state example_sha ex_kernel ex_granted = Inr ex_granted_state"
    by (rule ex_granted_validated) (simp_all add: ex_granted_states)
  have x: "expire (later_env 10) ex_kernel (seconds 10) ex_granted = Inr ex_granted"
    by (rule expire_nothing) (use v in simp_all)
  have a: "verify_authority_locked example_sha ex_kernel (seconds 11) ex_request ex_granted = Inr (row_reference ex_authority)"
    unfolding verify_authority_locked_def verify_in_transaction_def ex_request_simps by (simp add: ex_verified)
  have r: "require_permit_row ex_permit ex_granted = Inr ex_row"
    by (simp add: require_permit_row_def find_request_def lookup_row_def)
  show ?thesis
    by (simp add: begin_transport_def x v r a unresolved_blocks_def probe_mismatch_def update_request_def update_rows_def
        ex_dispatched_def ex_started_def)
qed

lemma ex_dispatched_reachable: "(kernel_step example_sha ex_policies)\<^sup>*\<^sup>* initial_db ex_dispatched"
  using ex_granted_reachable kernel_step.begin_it [OF ex_served(1) ex_begun] by simp

section \<open>The transport ends without an answer\<close>

definition ex_unknown :: outcome where
  "ex_unknown = \<lparr>oc_network_attempted = None, oc_response_received = None, oc_http_status = None,
     oc_terminal_persisted = True, oc_evidence = replicate 64 (CHR ''c'')\<rparr>"

definition ex_opened :: runtime_db where
  "ex_opened = snd (finish (later_env 20) ex_kernel ex_permit ex_unknown ex_dispatched)"

definition ex_finish_change :: control_change where
  "ex_finish_change = circuit_change ''local_integrity_stop'' ex_granted_state Open ''local_integrity_stop''
     (ar_request_id ex_request) (Some (oc_evidence ex_unknown))"

lemma ex_unknown_simps:
  "check_outcome ex_unknown = Inr ()" "ambiguous ex_unknown"
  "finish_circuit p Closed ex_unknown = Open" "finish_signal p Closed ex_unknown = ''local_integrity_stop''"
  "finish_kind p Closed ex_unknown = ''local_integrity_stop''" "finish_request_state ex_unknown = Reconciliation_Required"
proof -
  show "check_outcome ex_unknown = Inr ()" by code_simp
  show "ambiguous ex_unknown" by code_simp
  show "finish_circuit p Closed ex_unknown = Open" "finish_signal p Closed ex_unknown = ''local_integrity_stop''"
    "finish_kind p Closed ex_unknown = ''local_integrity_stop''" "finish_request_state ex_unknown = Reconciliation_Required"
    by (simp_all add: finish_circuit_def finish_signal_def finish_kind_def finish_request_state_def ambiguous_def
        provider_pressure_def ex_unknown_def isolated_uncertainty_def Let_def)
qed

lemma ex_finish_check: "check_change grok_provider_admission_policy ex_finish_change = Inr ()"
proof -
  have "is_identifier ''local_integrity_stop''" "is_sha256 (replicate 64 (CHR ''c''))"
    "is_uuid4 ''00000000-0000-4000-8000-000000000001''" by code_simp+
  then show ?thesis
    by (simp add: check_change_def ex_finish_change_def circuit_change_def chk_optional_def ex_unknown_def
        ex_request_def result_simps)
qed

section \<open>Receipts with different digests\<close>

text \<open>The stand-in hash separates texts by their length, so the receipts of the run are fresh when
  their texts differ in length, which follows from the lengths of the fields.\<close>

definition members_length :: "(string \<times> json) list \<Rightarrow> nat" where
  "members_length kvs = sum_list (map (\<lambda>(k, x). length (quoted k) + length (enc x) + 2) kvs)"

lemma length_enc_members: "kvs \<noteq> [] \<Longrightarrow> length (enc_members kvs) + 1 = members_length kvs"
proof (induction kvs)
  case (Cons kv kvs)
  then show ?case by (cases kv; cases "kvs = []") (simp_all add: members_length_def)
qed simp

lemma members_length_insort: "members_length (insort_key f kv kvs) = members_length (kv # kvs)"
  by (induction kvs) (simp_all add: members_length_def)

lemma members_length_sort: "members_length (sort_key f kvs) = members_length kvs"
  by (induction kvs) (simp_all add: members_length_insort, simp_all add: members_length_def)

lemma length_enc_norm:
  "kvs \<noteq> [] \<Longrightarrow> length (enc (json_norm (JObj kvs))) = members_length (norm_members kvs) + 1"
proof -
  assume a: "kvs \<noteq> []"
  then have "sort_key fst (norm_members kvs) \<noteq> []"
    by (metis length_0_conv length_map length_sort norm_members_map)
  from length_enc_members [OF this] show ?thesis by (simp add: members_length_sort)
qed

lemma length_quoted_hex: "is_sha256 s \<Longrightarrow> length (quoted s) = 66"
proof -
  have "esc_char c = [c]" if "is_lower_hex c" for c
    using that by (auto simp: esc_char_def Let_def is_lower_hex_def is_digit_def)
  then have "list_all is_lower_hex s \<Longrightarrow> esc s = s" for s by (induction s) auto
  then show "is_sha256 s \<Longrightarrow> length (quoted s) = 66" by (simp add: quoted_def is_sha256_def)
qed

lemma digit_char_inject: "m < 10 \<Longrightarrow> n < 10 \<Longrightarrow> digit_char m = digit_char n \<Longrightarrow> m = n"
proof -
  assume a: "m < 10" "n < 10" "digit_char m = digit_char n"
  have "48 + m = 48 + n"
    using byte_digit_char [OF a(1)] byte_digit_char [OF a(2)] a(3) by (simp only:)
  then show "m = n" by linarith
qed

lemma example_digit_inject:
  assumes "example_digit s d = example_digit t d"
  shows "int (length s) div d mod 10 = int (length t) div d mod 10"
proof -
  have "nat (int (length s) div d mod 10) = nat (int (length t) div d mod 10)"
    by (rule digit_char_inject) (use assms in \<open>simp_all add: example_digit_def nat_less_iff\<close>)
  then show ?thesis by (simp add: eq_nat_nat_iff)
qed

lemma three_digits: "(a :: int) mod 1000 = a div 100 mod 10 * 100 + a div 10 mod 10 * 10 + a div 1 mod 10"
  using zmod_zmult2_eq [of 10 a 100] zmod_zmult2_eq [of 10 a 10] by simp

lemma example_sha_length:
  assumes "example_sha s = example_sha t"
  shows "int (length s) mod 1000 = int (length t) mod 1000"
proof -
  have "example_digit s 100 = example_digit t 100" "example_digit s 10 = example_digit t 10"
    "example_digit s 1 = example_digit t 1"
    using assms by (simp_all add: example_sha_def)
  from this [THEN example_digit_inject] show ?thesis by (simp only: three_digits)
qed

lemma receipt_length:
  "length (enc (json_norm (tr_body_json (receipt e k p n d c now)))) =
     1 + members_length (norm_members [(''schema'', JStr ''provider_admission_control_transition_v1''),
           (''provider_id'', JStr (pl_provider_id p)), (''policy_digest'', JStr (policy_digest (sha e) p)),
           (''deployment_mode'', JStr (mode_value (k_mode k))),
           (''deployment_digest'', JStr (deployment_binding_digest (sha e) (k_path k) (k_mode k) p)),
           (''control_revision'', JInt n), (''prior_control_digest'', JStr d),
           (''transition_kind'', JStr (cc_kind c)), (''effective_target'', JInt (cc_target c)),
           (''circuit_state'', JStr (circuit_value (cc_circuit c))),
           (''half_open_probe_request_digest'', jstr (cc_probe c)), (''last_signal'', jstr (cc_signal c)),
           (''authority_digest'', jstr (cc_authority c)), (''binding_digest'', jstr (cc_binding c)),
           (''request_id'', jstr (cc_request c)), (''evidence_digest'', jstr (cc_evidence c)),
           (''created_at'', JStr (isoformat now))])"
  by (simp only: receipt_def Let_def transition_row.simps json_norm_idem control_document_def length_enc_norm
      list.distinct not_False_eq_True simp_thms add.commute)

lemma norm_jstr [simp]: "json_norm (jstr v) = jstr v"
  by (cases v) (simp_all add: jstr_def)

text \<open>The texts of two receipts of the same kernel differ by the lengths of these fields.\<close>

definition change_length :: "int \<Rightarrow> control_change \<Rightarrow> int \<Rightarrow> nat" where
  "change_length n c now =
     length (int_text n) + length (quoted (cc_kind c)) + length (int_text (cc_target c))
     + length (quoted (circuit_value (cc_circuit c))) + length (enc (jstr (cc_probe c))) + length (enc (jstr (cc_signal c)))
     + length (enc (jstr (cc_authority c))) + length (enc (jstr (cc_binding c))) + length (enc (jstr (cc_request c)))
     + length (enc (jstr (cc_evidence c))) + length (quoted (isoformat now))"

lemma receipt_length_diff:
  assumes "sha e = sha e'" "is_sha256 d" "is_sha256 d'"
  shows "int (length (enc (json_norm (tr_body_json (receipt e k p n d c now)))))
     - int (length (enc (json_norm (tr_body_json (receipt e' k p n' d' c' now')))))
   = int (change_length n c now) - int (change_length n' c' now')"
  unfolding receipt_length members_length_def change_length_def assms(1)
  by (simp del: length_append add: algebra_simps length_quoted_hex assms(2,3))

lemma receipts_differ:
  assumes "sha e = example_sha" "sha e' = example_sha"
    and "is_sha256 d" "is_sha256 d'"
    and "(int (change_length n c now) - int (change_length n' c' now')) mod 1000 \<noteq> 0"
  shows "tr_body_sha256 (receipt e k p n d c now) \<noteq> tr_body_sha256 (receipt e' k p n' d' c' now')"
proof
  let ?a = "enc (json_norm (tr_body_json (receipt e k p n d c now)))"
  let ?b = "enc (json_norm (tr_body_json (receipt e' k p n' d' c' now')))"
  assume "tr_body_sha256 (receipt e k p n d c now) = tr_body_sha256 (receipt e' k p n' d' c' now')"
  then have "example_sha ?a = example_sha ?b"
    by (simp add: receipt_def Let_def sha256_body_def assms(1,2))
  then have "int (length ?a) mod 1000 = int (length ?b) mod 1000" by (rule example_sha_length)
  then have "(int (length ?a) - int (length ?b)) mod 1000 = 0" by (metis mod_eq_dvd_iff mod_0_imp_dvd dvd_imp_mod_0)
  moreover have "sha e = sha e'" using assms(1,2) by simp
  ultimately show False
    using assms(5) receipt_length_diff [OF _ assms(3,4), of e e' k p n c now n' c' now'] by simp
qed

section \<open>The circuit opens\<close>

lemma ex_rid: "ar_request_id ex_request = ''00000000-0000-4000-8000-000000000001''"
  by (simp add: ex_request_def)

lemma ex_finish_change_eq: "ex_finish_change =
    \<lparr>cc_kind = ''local_integrity_stop'', cc_target = 8, cc_circuit = Open, cc_probe = None,
      cc_signal = Some ''local_integrity_stop'', cc_authority = None, cc_binding = None,
      cc_request = Some ''00000000-0000-4000-8000-000000000001'', cc_evidence = Some (replicate 64 (CHR ''c''))\<rparr>"
  by (simp add: ex_finish_change_def circuit_change_def ex_unknown_def ex_rid)

lemma ex_lengths_differ:
  "(int (change_length 2 ex_finish_change (seconds 20)) - int (change_length 1 ex_change 0)) mod 1000 \<noteq> 0"
  unfolding ex_finish_change_eq by code_simp

definition ex_stop_receipt :: transition_row where
  "ex_stop_receipt = receipt (later_env 20) ex_kernel grok_provider_admission_policy 2 (st_control_digest ex_granted_state)
     ex_finish_change (seconds 20)"

lemma ex_control_digest: "st_control_digest ex_granted_state = tr_body_sha256 ex_receipt"
  by (simp add: ex_granted_state_def ex_state_def first_state_def)

lemma ex_receipt_hex: "is_sha256 (tr_body_sha256 ex_receipt)"
  unfolding ex_receipt_def by (rule digest_hex) (simp add: example_hex)

lemma zero_digest_hex: "is_sha256 zero_digest"
  by code_simp

lemma ex_stop_fresh: "fresh_receipt ex_stop_receipt ex_dispatched"
proof -
  have "tr_body_sha256 (receipt (later_env 20) ex_kernel grok_provider_admission_policy 2 (tr_body_sha256 ex_receipt)
      ex_finish_change (seconds 20))
    \<noteq> tr_body_sha256 (receipt example_env ex_kernel grok_provider_admission_policy 1 zero_digest ex_change 0)"
    by (rule receipts_differ [OF _ _ ex_receipt_hex zero_digest_hex ex_lengths_differ]) simp_all
  then have d: "tr_body_sha256 ex_stop_receipt \<noteq> tr_body_sha256 ex_receipt"
    unfolding ex_receipt_def [symmetric] ex_stop_receipt_def ex_control_digest .
  have "uid example_env 2 \<noteq> uid example_env 1" by code_simp
  then have "tr_transition_id ex_receipt \<noteq> tr_transition_id ex_stop_receipt"
    by (simp add: ex_stop_receipt_def ex_receipt_def)
  with d show ?thesis by (simp add: fresh_receipt_def ex_dispatched_def)
qed

definition ex_stopped_state :: state_row where
  "ex_stopped_state = control_update (later_env 20) ex_kernel grok_provider_admission_policy ex_finish_change 2
     (tr_body_sha256 ex_stop_receipt) (seconds 20) ex_granted_state"

definition ex_unresolved :: request_row where
  "ex_unresolved = ex_started\<lparr>rq_state := Reconciliation_Required, rq_terminal_at := Some (seconds 20),
     rq_terminal_evidence_digest := Some (oc_evidence ex_unknown)\<rparr>"

lemma ex_started_simps [simp]:
  "rq_request_id ex_started = ar_request_id ex_request" "rq_state ex_started = Dispatched" "rq_provider_id ex_started = ''grok''"
  "permit_matches_row ex_permit ex_started"
  using ex_permit_simps(1) by (simp_all add: ex_started_def permit_matches_row_def)

lemma ex_finished:
  "finish (later_env 20) ex_kernel ex_permit ex_unknown ex_dispatched = (Inr (), ex_opened)"
  "ex_opened = ex_dispatched\<lparr>db_requests := [ex_unresolved], db_transitions := [ex_receipt, ex_stop_receipt],
     db_states := [ex_stopped_state]\<rparr>"
proof -
  let ?db2 = "ex_dispatched\<lparr>db_requests := [ex_unresolved]\<rparr>"
  have v: "validated_state example_sha ex_kernel ex_dispatched = Inr ex_granted_state"
    "validated_state example_sha ex_kernel ?db2 = Inr ex_granted_state"
    by (rule ex_granted_validated; simp add: ex_dispatched_def ex_granted_states)+
  have v2: "validated_control_state (sha (later_env 20)) grok_provider_admission_policy (Some (k_mode ex_kernel))
      (Some (deployment_digest example_sha ex_kernel)) ?db2 = Inr ex_granted_state"
    using v(2) by (simp add: validated_state_def)
  have r: "require_permit_row ex_permit ex_dispatched = Inr ex_started"
    by (simp add: require_permit_row_def find_request_def lookup_row_def ex_dispatched_def)
  have a: "append_control_transition (later_env 20) ex_kernel grok_provider_admission_policy (Some ex_granted_state)
      ex_finish_change (seconds 20) ?db2 = Inr (ex_stopped_state,
        ?db2\<lparr>db_transitions := db_transitions ?db2 @ [ex_stop_receipt],
           db_states := update_rows (\<lambda>r. st_provider_id r = pl_provider_id grok_provider_admission_policy)
             (control_update (later_env 20) ex_kernel grok_provider_admission_policy ex_finish_change
               (st_control_revision ex_granted_state + 1) (tr_body_sha256 ex_stop_receipt) (seconds 20)) (db_states ?db2)\<rparr>)"
    by (rule append_succeeds [OF v2])
      (simp_all add: example_hex ex_finish_check ex_dispatched_def ex_granted_states ex_stop_receipt_def ex_stopped_state_def,
        use ex_stop_fresh in \<open>simp add: fresh_receipt_def ex_dispatched_def ex_stop_receipt_def\<close>)
  have c: "circuit_change ''local_integrity_stop'' ex_granted_state Open ''local_integrity_stop'' (ar_request_id ex_request)
        (Some (oc_evidence ex_unknown)) = ex_finish_change"
    by (simp add: ex_finish_change_def)
  have u: "ex_started\<lparr>rq_state := Reconciliation_Required, rq_terminal_at := Some (seconds 20),
      rq_terminal_evidence_digest := Some (oc_evidence ex_unknown)\<rparr> = ex_unresolved"
    by (simp add: ex_unresolved_def)
  let ?opened = "ex_dispatched\<lparr>db_requests := [ex_unresolved], db_transitions := [ex_receipt, ex_stop_receipt],
     db_states := [ex_stopped_state]\<rparr>"
  have d: "db_requests ex_dispatched = [ex_started]" by (simp add: ex_dispatched_def)
  have "finish (later_env 20) ex_kernel ex_permit ex_unknown ex_dispatched = (Inr (), ?opened)"
    by (simp add: finish_def Let_def v r ex_unknown_simps u c a d update_rows_def commit_result_def)
      (simp add: ex_dispatched_def ex_granted_states update_rows_def ex_stopped_state_def)
  then show "finish (later_env 20) ex_kernel ex_permit ex_unknown ex_dispatched = (Inr (), ex_opened)"
    "ex_opened = ?opened"
    by (simp_all add: ex_opened_def)
qed

lemma ex_opened_reachable: "(kernel_step example_sha ex_policies)\<^sup>*\<^sup>* initial_db ex_opened"
  using ex_dispatched_reachable kernel_step.finish_it [OF ex_served(1) ex_finished(1)] by simp

lemma ex_opened_state: "find_state ''grok'' ex_opened = Some ex_stopped_state" "st_circuit_state ex_stopped_state = Open"
  by (simp_all add: ex_finished(2) find_state_def lookup_row_def ex_stopped_state_def control_update_def,
      simp_all add: ex_finish_change_eq)

end
