(* ===== verification/AdmissionWitnesses.thy ===== *)
theory AdmissionWitnesses
  imports AdmissionExample
begin

text \<open>
  Every property of the admission kernel at a point of the concrete run, its hypotheses discharged
  there.
\<close>

theorem capacity_never_exceeded_witness:
  "\<exists>p \<in> ex_policies. policy_digest example_sha p = st_policy_digest ex_granted_state \<and> pl_provider_id p = ''grok''
    \<and> int (in_use ''grok'' ex_granted) \<le> capacity_of ex_granted_state
    \<and> capacity_of ex_granted_state \<le> st_effective_target ex_granted_state
    \<and> st_effective_target ex_granted_state \<le> pl_hard_max p
    \<and> (\<forall>project. int (project_use ''grok'' project ex_granted) \<le> pl_per_project_cap p)"
  by (rule capacity_never_exceeded [OF ex_policies_ok ex_granted_reachable])
    (simp add: find_state_def ex_granted_states)

theorem project_accounting_exact_witness:
  "units ''grok'' ex_project ex_granted = 1"
  using project_accounting_exact [OF ex_policies_ok ex_granted_reachable, of "''grok''" ex_project]
  by (simp add: project_use_def count_rows_def)

theorem fencing_tokens_unique_witness:
  "ex_row = ex_row \<and> 1 \<le> db_fencing_counter ex_granted"
  by (rule fencing_tokens_unique [OF ex_policies_ok ex_granted_reachable]) simp_all

theorem requests_follow_life_cycle_witness:
  "\<exists>r'. find_request (ar_request_id ex_request) ex_opened = Some r' \<and> same_request ex_row r'
     \<and> edge\<^sup>*\<^sup>* Granted (rq_state r')"
proof -
  have s: "(kernel_step example_sha ex_policies)\<^sup>*\<^sup>* ex_granted ex_opened"
    using kernel_step.begin_it [OF ex_served(1) ex_begun] kernel_step.finish_it [OF ex_served(1) ex_finished(1)] by simp
  have "find_request (ar_request_id ex_request) ex_granted = Some ex_row" by (simp add: find_request_def)
  from requests_follow_life_cycle [OF ex_policies_ok ex_granted_reachable s this] show ?thesis by simp
qed

theorem receipt_chain_intact_witness:
  "linked example_sha (receipts_of ''grok'' ex_opened)
    \<and> tr_control_revision ` set (receipts_of ''grok'' ex_opened) = {1 .. st_control_revision ex_stopped_state}
    \<and> (\<exists>p \<in> ex_policies. pl_provider_id p = ''grok''
        \<and> validated_control_state example_sha p None None ex_opened = Inr ex_stopped_state)"
  by (rule receipt_chain_intact [OF ex_policies_ok ex_opened_reachable ex_opened_state(1)])

theorem receipts_append_only_witness:
  "\<exists>ts. db_transitions ex_opened = db_transitions ex_installed @ ts"
proof (rule receipts_append_only [OF ex_policies_ok ex_installed_reachable])
  have "kernel_step example_sha ex_policies ex_installed ex_authorised"
    by (rule kernel_step.foreign) (simp_all add: ex_authorised_def)
  then show "(kernel_step example_sha ex_policies)\<^sup>*\<^sup>* ex_installed ex_opened"
    using kernel_step.admit [OF ex_served(2) ex_admitted(2)] kernel_step.begin_it [OF ex_served(1) ex_begun]
      kernel_step.finish_it [OF ex_served(1) ex_finished(1)] by (meson converse_rtranclp_into_rtranclp rtranclp.rtrancl_refl)
qed

theorem open_circuit_needs_authority_witness:
  "let db' = snd (try_admit (later_env 30) ex_kernel ex_request 60 ex_opened ex_opened)
   in \<exists>s'. find_state ''grok'' db' = Some s' \<and> (st_circuit_state s' = Open \<or> authorised_change ''grok'' ex_opened db')"
  unfolding Let_def
  by (rule open_circuit_needs_authority [OF ex_policies_ok ex_opened_reachable
        kernel_step.admit [OF ex_served(1) prod.collapse [symmetric]] ex_opened_state])

theorem try_admit_sound_witness:
  "\<exists>s row. find_state ''grok'' ex_granted = Some s \<and> st_circuit_state s = Closed
     \<and> find_request (ar_request_id ex_request) ex_granted = Some row \<and> rq_state row = Granted
     \<and> int (in_use ''grok'' ex_granted) \<le> capacity_of s"
  using try_admit_sound [OF ex_policies_ok ex_authorised_reachable ex_served(2) ex_admitted(2)]
  by (auto simp: find_state_def ex_granted_states)

theorem begin_transport_sound_witness:
  "find_request (ar_request_id ex_request) ex_dispatched
     = Some (ex_row\<lparr>rq_state := Dispatched, rq_transport_started_at := Some (seconds 10)\<rparr>)"
  using begin_transport_sound [OF ex_policies_ok ex_granted_reachable ex_served(1) ex_begun] by auto

theorem finish_accounting_witness:
  "\<exists>s. find_state ''grok'' ex_opened = Some s \<and> st_circuit_state s = Open
     \<and> int (in_use ''grok'' ex_opened) = int (in_use ''grok'' ex_dispatched)
     \<and> units ''grok'' ex_project ex_opened = units ''grok'' ex_project ex_dispatched"
  using finish_accounting [OF ex_policies_ok ex_dispatched_reachable ex_served(1) ex_finished(1)]
  by (auto simp: ex_unknown_simps ex_opened_state outcome_known)


theorem lone_request_is_admitted_witness:
  "\<exists>p db'. try_admit example_env ex_kernel ex_request 60 ex_authorised ex_authorised = (Inr p, db')
     \<and> pm_request_id p = ar_request_id ex_request \<and> pm_fencing_token p = 1 \<and> pm_expires_at p = seconds 61
     \<and> (\<exists>row. find_request (ar_request_id ex_request) db' = Some row \<and> rq_state row = Granted
          \<and> rq_fencing_token row = Some 1 \<and> rq_granted_at row = Some (seconds 1))"
proof -
  have v: "validated_state example_sha ex_kernel ex_authorised = Inr ex_state" by (rule ex_validated_like) simp_all
  have x: "expire example_env ex_kernel (clk example_env 1) ex_authorised = Inr ex_authorised"
    by (rule expire_nothing) (use v in simp_all)
  have a: "verify_authority example_sha ex_kernel (clk example_env 0) ex_request ex_authorised = Inr (row_reference ex_authority)"
    unfolding verify_authority_def ex_request_simps by (rule ex_verified) simp_all
  have r: "room_for ex_kernel ex_state ex_request ex_authorised"
    by (simp add: room_for_def in_use_def project_use_def)
  have u: "\<not> unresolved_blocks ex_kernel (ar_provider_id ex_request) ex_authorised" by (simp add: unresolved_blocks_def)
  show ?thesis
    using lone_request_is_admitted [where ttl = 60, OF ex_policies_ok ex_authorised_reachable ex_served(2) example_hex
        ex_request_ok _ _ _ a x v _ u r] by fastforce
qed

end
