(* ===== verification/Floats.thy ===== *)
theory Floats
  imports Complex_Main "HOL-Library.Log_Nat"
begin

text \<open>
  Python floats as values: the rational number a binary64 float stands for, and the rounding of the
  operations on it. \<open>round_float\<close> rounds to the nearest number of 53 significant bits and exponent
  at least \<open>-1074\<close>, ties to the even one. There is no upper end to the range: a result from
  \<open>2 ^ 1024\<close> on, an infinity in Python, stands above every finite float, so it compares with
  them as the infinity does.
\<close>

section \<open>Rounding\<close>

text \<open>The exponent of the leading bit.\<close>

definition floor_log2 :: "rat \<Rightarrow> int" where
  "floor_log2 x =
     (let (p, q) = quotient_of x; k = bitlen p - bitlen q
      in if 2 powi k \<le> x then k else k - 1)"

definition round_half_even :: "rat \<Rightarrow> int" where
  "round_half_even x =
     (let f = \<lfloor>x\<rfloor>; r = x - of_int f
      in if r < 1 / 2 then f else if 1 / 2 < r then f + 1 else if even f then f else f + 1)"

text \<open>The distance of neighbouring floats around \<open>x\<close>.\<close>

definition float_ulp :: "rat \<Rightarrow> rat" where
  "float_ulp x = 2 powi (max (floor_log2 \<bar>x\<bar> - 52) (- 1074))"

definition round_float :: "rat \<Rightarrow> rat" where
  "round_float x = (if x = 0 then 0 else float_ulp x * of_int (round_half_even (x / float_ulp x)))"

definition fadd :: "rat \<Rightarrow> rat \<Rightarrow> rat" where
  "fadd x y = round_float (x + y)"

section \<open>Bounds\<close>

lemma bitlen_powi:
  assumes "0 < n"
  shows "2 powi (bitlen n - 1) \<le> (of_int n :: rat)" "(of_int n :: rat) < 2 powi bitlen n"
proof -
  have f: "2 ^ nat (bitlen n - 1) \<le> n" "n < 2 ^ nat (bitlen n)" using bitlen_bounds [OF assms] by auto
  have pos: "0 < bitlen n" using assms bitlen_nonneg [of n] bitlen_eq_zero_iff [of n] by linarith
  have "(of_int (2 ^ nat (bitlen n - 1)) :: rat) \<le> of_int n" using f(1) of_int_le_iff by blast
  then show "2 powi (bitlen n - 1) \<le> (of_int n :: rat)" using pos by (simp add: power_int_def)
  have "(of_int n :: rat) < of_int (2 ^ nat (bitlen n))" using f(2) of_int_less_iff by blast
  then show "(of_int n :: rat) < 2 powi bitlen n" using pos by (simp add: power_int_def)
qed

lemma floor_log2_bounds:
  assumes "0 < x"
  shows "2 powi floor_log2 x \<le> x" "x < 2 powi (floor_log2 x + 1)"
proof -
  obtain p q where pq: "quotient_of x = (p, q)" by (cases "quotient_of x")
  have q: "0 < q" using quotient_of_denom_pos[OF pq] .
  have x: "x = of_int p / of_int q" using quotient_of_div[OF pq] .
  have p: "0 < p" using assms q by (simp add: x zero_less_divide_iff)
  define a b where "a = bitlen p" and "b = bitlen q"
  note bp = bitlen_powi[OF p, folded a_def] and bq = bitlen_powi[OF q, folded b_def]
  have "2 powi (a - b - 1) * of_int q \<le> 2 powi (a - b - 1) * (2 powi b :: rat)"
    using bq(2) by (intro mult_left_mono) auto
  also have "\<dots> = 2 powi (a - 1)" by (simp flip: power_int_add)
  also note bp(1)
  finally have lower: "2 powi (a - b - 1) \<le> x" using q by (simp add: x pos_le_divide_eq)
  note bp(2)
  also have "(2 powi a :: rat) = 2 powi (a - b + 1) * 2 powi (b - 1)" by (simp flip: power_int_add)
  also have "\<dots> \<le> 2 powi (a - b + 1) * of_int q" using bq(1) by (intro mult_left_mono) auto
  finally have upper: "x < 2 powi (a - b + 1)" using q by (simp add: x pos_divide_less_eq)
  have l: "floor_log2 x = (if 2 powi (a - b) \<le> x then a - b else a - b - 1)"
    by (simp add: floor_log2_def pq a_def b_def)
  show "2 powi floor_log2 x \<le> x" "x < 2 powi (floor_log2 x + 1)" using lower upper by (auto simp: l)
qed

lemma float_ulp_pos [simp]: "0 < float_ulp x"
  by (simp add: float_ulp_def)

lemma round_half_even_bounds:
  "\<bar>of_int (round_half_even x) - x\<bar> \<le> 1 / 2"
proof -
  have "of_int \<lfloor>x\<rfloor> \<le> x" "x < of_int \<lfloor>x\<rfloor> + 1" by linarith+
  then show ?thesis unfolding round_half_even_def Let_def by (auto simp: abs_le_iff)
qed

lemma round_half_even_int [simp]: "round_half_even (of_int n) = n"
  by (simp add: round_half_even_def)

lemma round_half_even_mono: "x \<le> y \<Longrightarrow> round_half_even x \<le> round_half_even y"
proof -
  assume le: "x \<le> y"
  then have f: "\<lfloor>x\<rfloor> \<le> \<lfloor>y\<rfloor>" by (rule floor_mono)
  show ?thesis
  proof (cases "\<lfloor>x\<rfloor> = \<lfloor>y\<rfloor>")
    case True with le show ?thesis by (auto simp: round_half_even_def Let_def)
  next
    case False
    have "round_half_even x \<le> \<lfloor>x\<rfloor> + 1" "\<lfloor>y\<rfloor> \<le> round_half_even y" by (auto simp: round_half_even_def Let_def)
    with f False show ?thesis by linarith
  qed
qed

text \<open>An operation is off by at most half a unit in the last place.\<close>

lemma round_float_error: "\<bar>round_float x - x\<bar> \<le> \<bar>x\<bar> / 2 ^ 53 + 2 powi (- 1075)"
proof (cases "x = 0")
  case False
  let ?u = "float_ulp x"
  have "\<bar>of_int (round_half_even (x / ?u)) - x / ?u\<bar> \<le> 1 / 2" by (rule round_half_even_bounds)
  then have "\<bar>of_int (round_half_even (x / ?u)) - x / ?u\<bar> * \<bar>?u\<bar> \<le> 1 / 2 * \<bar>?u\<bar>"
    by (intro mult_right_mono) auto
  then have "\<bar>(of_int (round_half_even (x / ?u)) - x / ?u) * ?u\<bar> \<le> 1 / 2 * ?u"
    by (simp only: abs_mult abs_of_pos[OF float_ulp_pos])
  moreover have "(of_int (round_half_even (x / ?u)) - x / ?u) * ?u = round_float x - x"
    using False less_imp_neq[OF float_ulp_pos[of x]] by (simp add: round_float_def field_simps)
  ultimately have "\<bar>round_float x - x\<bar> \<le> ?u / 2" by simp
  also have "?u / 2 \<le> \<bar>x\<bar> / 2 ^ 53 + 2 powi (- 1075)"
  proof -
    have "2 powi (floor_log2 \<bar>x\<bar> - 52) = 2 powi (floor_log2 \<bar>x\<bar>) / (2 ^ 52 :: rat)" by (simp add: power_int_diff)
    moreover have "2 powi floor_log2 \<bar>x\<bar> \<le> \<bar>x\<bar>" using False by (intro floor_log2_bounds) simp
    moreover have "(2 powi (- 1074) :: rat) = 2 * 2 powi (- 1075)"
      using power_int_add [of "2 :: rat" 1 "- 1075"] by simp
    moreover have "0 < (2 powi (- 1075) :: rat)" by simp
    ultimately show ?thesis unfolding float_ulp_def max_def by (auto simp: field_simps)
  qed
  finally show ?thesis .
qed (simp add: round_float_def)

lemma round_float_nonneg: "0 \<le> x \<Longrightarrow> 0 \<le> round_float x"
  using round_half_even_mono[of 0 "x / float_ulp x"] round_half_even_int[of 0]
  by (auto simp: round_float_def less_imp_le intro!: mult_nonneg_nonneg)

section \<open>Rounding respects the order\<close>

lemma floor_log2_mono: "0 < x \<Longrightarrow> x \<le> y \<Longrightarrow> floor_log2 x \<le> floor_log2 y"
proof (rule ccontr)
  assume a: "0 < x" "x \<le> y" "\<not> floor_log2 x \<le> floor_log2 y"
  then have "(2 powi (floor_log2 y + 1) :: rat) \<le> 2 powi floor_log2 x" by (intro power_int_increasing) auto
  with a floor_log2_bounds[of x] floor_log2_bounds[of y] show False by linarith
qed

text \<open>A power of two that is a whole number of units is a barrier of the rounding.\<close>

lemma round_float_upper:
  assumes "0 < x" "x \<le> 2 powi e" "- 1074 \<le> e" "floor_log2 x - 52 \<le> e"
  shows "round_float x \<le> 2 powi e"
proof -
  let ?k = "max (floor_log2 x - 52) (- 1074)"
  have u: "float_ulp x = 2 powi ?k" using assms(1) by (simp add: float_ulp_def)
  have e: "(2 powi e :: rat) = 2 powi ?k * of_int (2 ^ nat (e - ?k))"
  proof -
    have "(2 powi (e - ?k) :: rat) = 2 ^ nat (e - ?k)" using assms by (simp add: power_int_def)
    moreover have "(2 powi e :: rat) = 2 powi ?k * 2 powi (e - ?k)" by (simp flip: power_int_add)
    ultimately show ?thesis by simp
  qed
  have "x / float_ulp x \<le> of_int (2 ^ nat (e - ?k))" using assms(2) by (simp add: u e field_simps)
  then have "round_half_even (x / float_ulp x) \<le> 2 ^ nat (e - ?k)"
    using round_half_even_mono round_half_even_int by metis
  then have "of_int (round_half_even (x / float_ulp x)) \<le> (of_int (2 ^ nat (e - ?k)) :: rat)"
    using of_int_le_iff by blast
  then have "2 powi ?k * of_int (round_half_even (x / float_ulp x)) \<le> (2 powi e :: rat)"
    unfolding e by (intro mult_left_mono) simp_all
  with assms(1) show ?thesis by (simp add: round_float_def u)
qed

lemma round_float_lower:
  assumes "0 < x" "2 powi e \<le> x" "- 1074 \<le> e" "floor_log2 x - 52 \<le> e"
  shows "2 powi e \<le> round_float x"
proof -
  let ?k = "max (floor_log2 x - 52) (- 1074)"
  have u: "float_ulp x = 2 powi ?k" using assms(1) by (simp add: float_ulp_def)
  have e: "(2 powi e :: rat) = 2 powi ?k * of_int (2 ^ nat (e - ?k))"
  proof -
    have "(2 powi (e - ?k) :: rat) = 2 ^ nat (e - ?k)" using assms by (simp add: power_int_def)
    moreover have "(2 powi e :: rat) = 2 powi ?k * 2 powi (e - ?k)" by (simp flip: power_int_add)
    ultimately show ?thesis by simp
  qed
  have "of_int (2 ^ nat (e - ?k)) \<le> x / float_ulp x" using assms(2) by (simp add: u e field_simps)
  then have "2 ^ nat (e - ?k) \<le> round_half_even (x / float_ulp x)"
    using round_half_even_mono round_half_even_int by metis
  then have "(of_int (2 ^ nat (e - ?k)) :: rat) \<le> of_int (round_half_even (x / float_ulp x))"
    using of_int_le_iff by blast
  then have "(2 powi e :: rat) \<le> 2 powi ?k * of_int (round_half_even (x / float_ulp x))"
    unfolding e by (intro mult_left_mono) simp_all
  with assms(1) show ?thesis by (simp add: round_float_def u)
qed

theorem round_float_mono:
  assumes "0 \<le> x" "x \<le> y"
  shows "round_float x \<le> round_float y"
proof (cases "x = 0")
  case True with assms round_float_nonneg[of y] show ?thesis by (simp add: round_float_def)
next
  case False
  with assms have pos: "0 < x" "0 < y" by auto
  let ?a = "floor_log2 x" and ?b = "floor_log2 y"
  have ab: "?a \<le> ?b" using pos(1) assms(2) by (rule floor_log2_mono)
  show ?thesis
  proof (cases "float_ulp x = float_ulp y")
    case True
    have "x / float_ulp x \<le> y / float_ulp y" using assms(2) by (simp add: True divide_right_mono less_imp_le)
    then have "round_half_even (x / float_ulp x) \<le> round_half_even (y / float_ulp y)" by (rule round_half_even_mono)
    with pos True show ?thesis by (simp add: round_float_def mult_left_mono less_imp_le)
  next
    case neq: False
    then have "?a \<noteq> ?b" using pos by (auto simp: float_ulp_def)
    moreover from neq ab pos have "- 1074 < ?b - 52" by (auto simp: float_ulp_def max_def split: if_splits)
    ultimately have lt: "?a < ?b" "- 1074 < ?b - 52" using ab by auto
    have "x \<le> 2 powi ?b"
    proof -
      have "(2 powi (?a + 1) :: rat) \<le> 2 powi ?b" using lt by (intro power_int_increasing) auto
      with floor_log2_bounds(2)[OF pos(1)] show ?thesis by linarith
    qed
    with lt pos have "round_float x \<le> 2 powi ?b" by (intro round_float_upper) auto
    also have "\<dots> \<le> round_float y" using lt pos floor_log2_bounds(1)[OF pos(2)] by (intro round_float_lower) auto
    finally show ?thesis .
  qed
qed

lemma fadd_mono: "0 \<le> x \<Longrightarrow> x \<le> x' \<Longrightarrow> 0 \<le> y \<Longrightarrow> y \<le> y' \<Longrightarrow> fadd x y \<le> fadd x' y'"
  unfolding fadd_def by (intro round_float_mono) auto

end
