(* ===== verification/Costs.thy ===== *)
theory Costs
  imports CanonicalProps Floats
begin

text \<open>
  Amounts of money. A cost is a finite non-negative float, given by its \<open>repr\<close> text as in the JSON
  values. \<open>dec_value\<close> is the decimal that text shows and \<open>float_value\<close> the float it denotes, the
  nearest one to that decimal. Costs are compared and added as floats: \<open>fadd\<close> rounds its sum.
\<close>

definition dec_value :: "string \<Rightarrow> rat" where
  "dec_value t =
     (let neg = take 1 t = ''-''; u = (if neg then drop 1 t else t);
          mant = takeWhile ((\<noteq>) (CHR ''e'')) u; ex = drop (length mant + 1) u;
          ip = takeWhile ((\<noteq>) (CHR ''.'')) mant; fp = drop (length ip + 1) mant;
          e = (if take 1 ex = ''-'' then - int (undec (drop 1 ex))
               else if take 1 ex = ''+'' then int (undec (drop 1 ex)) else int (undec ex)) - int (length fp);
          m = of_nat (undec (ip @ fp));
          v = (if 0 \<le> e then m * 10 ^ nat e else m / 10 ^ nat (- e))
      in if neg then - v else v)"

lemma dec_value_examples:
  "dec_value ''12.5'' = 25 / 2" "dec_value ''1e-05'' = 1 / 100000" "dec_value ''-0.25'' = - 1 / 4"
  "dec_value ''3.0'' = 3" "dec_value ''1.5e+16'' = 15000000000000000"
  by (simp_all add: dec_value_def byte_def)

definition float_value :: "string \<Rightarrow> rat" where
  "float_value t = round_float (dec_value t)"

text \<open>The slack of the ceiling checks, the float \<open>1e-12\<close>.\<close>

definition slack :: rat where
  "slack = float_value ''1e-12''"

text \<open>At the width of a float the slack is rounded too: a cost one unit above a ceiling of 10000
  passes, though it lies above the ceiling by more than \<open>1e-12\<close>.\<close>

lemma slack_is_rounded:
  "float_value ''10000.000000000002'' \<le> fadd (float_value ''10000.0'') slack"
  "fadd (float_value ''0.25'') slack < float_value ''0.2500000000012''"
proof -
  have d: "dec_value ''10000.000000000002'' = 5000000000000001 / 500000000000" "dec_value ''10000.0'' = 10000"
    "dec_value ''0.2500000000012'' = 2500000000012 / 10000000000000" "dec_value ''0.25'' = 1 / 4"
    "dec_value ''1e-12'' = 1 / 1000000000000"
    by (simp_all add: dec_value_def byte_def)
  have "round_float (5000000000000001 / 500000000000) \<le> fadd (round_float 10000) (round_float (1 / 1000000000000))"
    "fadd (round_float (1 / 4)) (round_float (1 / 1000000000000)) < round_float (2500000000012 / 10000000000000)"
    by code_simp+
  then show "float_value ''10000.000000000002'' \<le> fadd (float_value ''10000.0'') slack"
    "fadd (float_value ''0.25'') slack < float_value ''0.2500000000012''"
    by (simp_all only: float_value_def slack_def d)
qed

lemma slack_pos: "0 < slack"
  by code_simp

lemma float_value_mono: "0 \<le> dec_value s \<Longrightarrow> dec_value s \<le> dec_value t \<Longrightarrow> float_value s \<le> float_value t"
  unfolding float_value_def by (rule round_float_mono)

text \<open>What a passed check says of the exact amounts.\<close>

lemma fadd_check:
  assumes "0 \<le> a" "fadd s c \<le> fadd a slack"
  shows "s + c \<le> (a + slack) * (1 + 1 / 2 ^ 51)"
proof (cases "0 \<le> s + c")
  case True
  obtain t :: rat where t: "t = 2 powi (- 1075)" by blast
  have tiny: "t \<le> slack / 2 ^ 54" unfolding t by code_simp
  have b: "\<bar>fadd s c - (s + c)\<bar> \<le> (s + c) / 2 ^ 53 + t" "\<bar>fadd a slack - (a + slack)\<bar> \<le> (a + slack) / 2 ^ 53 + t"
    using round_float_error [of "s + c"] round_float_error [of "a + slack"] assms True slack_pos
    unfolding t fadd_def by simp_all
  have "(s + c) * (1 - 1 / 2 ^ 53) - t \<le> fadd s c" using abs_le_D2 [OF b(1)] by (simp add: field_simps)
  moreover have "fadd a slack \<le> (a + slack) * (1 + 1 / 2 ^ 53) + t" using abs_le_D1 [OF b(2)] by (simp add: field_simps)
  moreover have "2 * t \<le> slack / 2 ^ 53" using tiny by simp
  moreover have "x - t \<le> p \<Longrightarrow> q \<le> y + t \<Longrightarrow> 2 * t \<le> z \<Longrightarrow> p \<le> q \<Longrightarrow> x \<le> y + z" for x y z p q :: rat
    by linarith
  ultimately have "(s + c) * (1 - 1 / 2 ^ 53) \<le> (a + slack) * (1 + 1 / 2 ^ 53) + slack / 2 ^ 53"
    using assms(2) by blast
  with assms(1) slack_pos show ?thesis by (simp add: field_simps)
next
  case False
  moreover have "0 \<le> (a + slack) * (1 + 1 / 2 ^ 51)" using assms(1) slack_pos by simp
  ultimately show ?thesis by linarith
qed

text \<open>\<open>_cost(name, value)\<close>: an integer becomes the float of that value (for integers below
  10 to the 16th, which \<open>repr\<close> shows in full).\<close>

definition cost_of :: "json \<Rightarrow> string result" where
  "cost_of v =
     (case v of
        JInt n \<Rightarrow> if n < 0 then Inl (ValueError Bad_Integer) else Inr (int_text n @ ''.0'')
      | JFloat t \<Rightarrow> if float_value t < 0 then Inl (ValueError Bad_Integer) else Inr t
      | _ \<Rightarrow> Inl (ValueError Bad_Integer))"

definition cost_ok :: "string \<Rightarrow> bool" where
  "cost_ok t \<longleftrightarrow> float_text t \<and> 0 \<le> float_value t"

lemma cost_of_JFloat: "cost_ok t \<Longrightarrow> cost_of (JFloat t) = Inr t"
  by (simp add: cost_of_def cost_ok_def)

text \<open>A cost that passed \<open>_cost\<close> is not negative.\<close>

lemma dec_value_nonneg: "take 1 t \<noteq> ''-'' \<Longrightarrow> 0 \<le> dec_value t"
  by (simp add: dec_value_def Let_def)

lemma cost_of_nonneg: "cost_of v = Inr u \<Longrightarrow> 0 \<le> float_value u"
proof (cases v)
  case (JInt n)
  assume "cost_of v = Inr u"
  with JInt have n: "0 \<le> n" "u = int_text n @ ''.0''" by (auto simp: cost_of_def split: if_splits)
  obtain c cs where d: "dec (nat n) = c # cs" by (cases "dec (nat n)") auto
  then have "is_digit c" using dec_digits [of c "nat n"] by simp
  then have "take 1 u \<noteq> ''-''" using n d by (auto simp: int_text_def is_digit_def byte_def)
  then show ?thesis by (simp add: float_value_def dec_value_nonneg round_float_nonneg)
qed (auto simp: cost_of_def split: if_splits)

lemma cost_of_nonneg_float: "cost_of (JFloat t) = Inr u \<Longrightarrow> u = t \<and> 0 \<le> float_value u"
  by (auto simp: cost_of_def split: if_splits)

section \<open>Equality of JSON values in Python\<close>

text \<open>\<open>==\<close> on decoded documents: numbers and Booleans compare by value, arrays by position,
  dictionaries by key (on normal forms, in key order).\<close>

definition num_value :: "json \<Rightarrow> rat option" where
  "num_value v =
     (case v of JBool b \<Rightarrow> Some (if b then 1 else 0) | JInt i \<Rightarrow> Some (of_int i)
      | JFloat t \<Rightarrow> Some (float_value t) | _ \<Rightarrow> None)"

fun py_eq :: "json \<Rightarrow> json \<Rightarrow> bool"
  and py_eq_items :: "json list \<Rightarrow> json list \<Rightarrow> bool"
  and py_eq_members :: "(string \<times> json) list \<Rightarrow> (string \<times> json) list \<Rightarrow> bool" where
  "py_eq (JList xs) w = (case w of JList ys \<Rightarrow> py_eq_items xs ys | _ \<Rightarrow> False)"
| "py_eq (JObj kvs) w = (case w of JObj lvs \<Rightarrow> py_eq_members kvs lvs | _ \<Rightarrow> False)"
| "py_eq v w = (case num_value v of Some a \<Rightarrow> num_value w = Some a | None \<Rightarrow> v = w \<and> v \<noteq> JNonFinite \<and> v \<noteq> JOther)"
| "py_eq_items [] ys = (ys = [])"
| "py_eq_items (x # xs) ys = (case ys of [] \<Rightarrow> False | y # zs \<Rightarrow> py_eq x y \<and> py_eq_items xs zs)"
| "py_eq_members [] lvs = (lvs = [])"
| "py_eq_members ((k, x) # kvs) lvs =
     (case lvs of [] \<Rightarrow> False | l # ls \<Rightarrow> k = fst l \<and> py_eq x (snd l) \<and> py_eq_members kvs ls)"

lemma py_eq_refl:
  "wf_json v \<Longrightarrow> py_eq v v" "wf_items xs \<Longrightarrow> py_eq_items xs xs" "wf_members kvs \<Longrightarrow> py_eq_members kvs kvs"
  by (induction v and xs and kvs rule: wf_json_wf_items_wf_members.induct) (auto simp: num_value_def)

end
