(* ===== verification/BatchAuthority.thy ===== *)
theory BatchAuthority
  imports AuthorityProps Costs
begin

text \<open>
  \<open>src/src/macr_runtime/batch_authority.py\<close>: the scope an operator grants for one plan (its
  ordered members with their cost ceilings, the aggregate ceiling, the dispatchers that may run
  it and the expiry), and the store that issues, loads, verifies and revokes such grants.
\<close>

section \<open>Scopes\<close>

record batch_member =
  bm_member_digest :: string
  bm_provider_id :: string
  bm_route_id :: string
  bm_role_digest :: string
  bm_privacy :: string
  bm_context_class :: string
  bm_cost_ceiling_usd :: string

definition member_create ::
  "string \<Rightarrow> string \<Rightarrow> string \<Rightarrow> string \<Rightarrow> string \<Rightarrow> string \<Rightarrow> json \<Rightarrow> batch_member result" where
  "member_create digest provider route role privacy context cost =
     ebind (chk_digest digest) (\<lambda>digest.
     ebind (chk_identifier provider) (\<lambda>provider.
     ebind (chk_digest route) (\<lambda>route.
     ebind (chk_digest role) (\<lambda>role.
     ebind (chk_identifier privacy) (\<lambda>privacy.
     ebind (chk_identifier context) (\<lambda>context.
     ebind (cost_of cost) (\<lambda>cost.
       Inr \<lparr>bm_member_digest = digest, bm_provider_id = provider, bm_route_id = route,
            bm_role_digest = role, bm_privacy = privacy, bm_context_class = context,
            bm_cost_ceiling_usd = cost\<rparr>)))))))"

definition member_to_dict :: "batch_member \<Rightarrow> json" where
  "member_to_dict m =
     JObj [(''member_digest'', JStr (bm_member_digest m)), (''provider_id'', JStr (bm_provider_id m)),
           (''route_id'', JStr (bm_route_id m)), (''role_digest'', JStr (bm_role_digest m)),
           (''privacy'', JStr (bm_privacy m)), (''context_class'', JStr (bm_context_class m)),
           (''cost_ceiling_usd'', JFloat (bm_cost_ceiling_usd m))]"

text \<open>A text field of \<open>from_dict\<close>: what is absent or not text fails its check, with the error of
  the check.\<close>

definition text_field :: "value_reason \<Rightarrow> string \<Rightarrow> (string \<times> json) list \<Rightarrow> string result" where
  "text_field why k kvs = (case jget k kvs of Some (JStr s) \<Rightarrow> Inr s | _ \<Rightarrow> Inl (ValueError why))"

definition member_from_dict :: "json \<Rightarrow> batch_member result" where
  "member_from_dict v =
     (case v of
        JObj kvs \<Rightarrow>
          ebind (text_field Bad_Digest ''member_digest'' kvs) (\<lambda>digest.
          ebind (chk_digest digest) (\<lambda>_.
          ebind (text_field Bad_Identifier ''provider_id'' kvs) (\<lambda>provider.
          ebind (chk_identifier provider) (\<lambda>_.
          ebind (text_field Bad_Digest ''route_id'' kvs) (\<lambda>route.
          ebind (chk_digest route) (\<lambda>_.
          ebind (text_field Bad_Digest ''role_digest'' kvs) (\<lambda>role.
          ebind (chk_digest role) (\<lambda>_.
          ebind (text_field Bad_Identifier ''privacy'' kvs) (\<lambda>privacy.
          ebind (chk_identifier privacy) (\<lambda>_.
          ebind (text_field Bad_Identifier ''context_class'' kvs) (\<lambda>context.
            member_create digest provider route role privacy context
              (case jget ''cost_ceiling_usd'' kvs of None \<Rightarrow> JNull | Some c \<Rightarrow> c))))))))))))
      | _ \<Rightarrow> Inl (ValueError Bad_Document))"

text \<open>Equality of two member scopes: costs are floats.\<close>

definition member_eq :: "batch_member \<Rightarrow> batch_member \<Rightarrow> bool" where
  "member_eq a b \<longleftrightarrow> bm_member_digest a = bm_member_digest b \<and> bm_provider_id a = bm_provider_id b
     \<and> bm_route_id a = bm_route_id b \<and> bm_role_digest a = bm_role_digest b \<and> bm_privacy a = bm_privacy b
     \<and> bm_context_class a = bm_context_class b
     \<and> float_value (bm_cost_ceiling_usd a) = float_value (bm_cost_ceiling_usd b)"

record batch_scope =
  bs_plan_digest :: string
  bs_ordered_members :: "batch_member list"
  bs_aggregate_cost_ceiling_usd :: string
  bs_expires_at :: int
  bs_authorized_dispatchers :: "string list"

text \<open>\<open>_identifier_set\<close>: bounded identifiers, at least one, no duplicate, sorted.\<close>

definition identifier_set :: "string list \<Rightarrow> string list result" where
  "identifier_set vs =
     ebind (emap chk_identifier vs) (\<lambda>vs.
       if vs = [] \<or> \<not> distinct vs then Inl (ValueError Bad_Duplicates) else Inr (sort vs))"

definition batch_scope_create ::
  "string \<Rightarrow> batch_member list \<Rightarrow> json \<Rightarrow> timestamp_text \<Rightarrow> string list \<Rightarrow> batch_scope result" where
  "batch_scope_create plan members aggregate expires dispatchers =
     ebind (chk_digest plan) (\<lambda>plan.
       if members = [] then Inl (ValueError Bad_Array)
       else if \<not> distinct (map bm_member_digest members) then Inl (ValueError Bad_Duplicates)
       else
         ebind (cost_of aggregate) (\<lambda>aggregate.
         ebind (aware_iso8601 expires) (\<lambda>expires.
         ebind (identifier_set dispatchers) (\<lambda>dispatchers.
           Inr \<lparr>bs_plan_digest = plan, bs_ordered_members = members, bs_aggregate_cost_ceiling_usd = aggregate,
                bs_expires_at = expires, bs_authorized_dispatchers = dispatchers\<rparr>))))"

definition batch_scope_to_dict :: "batch_scope \<Rightarrow> json" where
  "batch_scope_to_dict s =
     JObj [(''plan_digest'', JStr (bs_plan_digest s)),
           (''ordered_members'', JList (map member_to_dict (bs_ordered_members s))),
           (''aggregate_cost_ceiling_usd'', JFloat (bs_aggregate_cost_ceiling_usd s)),
           (''expires_at'', JStr (isoformat (bs_expires_at s))),
           (''authorized_dispatchers'', jstrs (bs_authorized_dispatchers s))]"

text \<open>\<open>tuple(value.get("authorized_dispatchers", ()))\<close>, then the type check of each item: a text is
  the tuple of its characters, an object that of its keys, any other value has no tuple.\<close>

definition dispatchers_of :: "json option \<Rightarrow> string list result" where
  "dispatchers_of v =
     (case v of
        None \<Rightarrow> Inr []
      | Some (JList xs) \<Rightarrow>
          (case json_strings xs of None \<Rightarrow> Inl (ValueError Bad_Identifier) | Some ss \<Rightarrow> Inr ss)
      | Some (JStr s) \<Rightarrow> Inr (map (\<lambda>c. [c]) s)
      | Some (JObj kvs) \<Rightarrow> Inr (map fst kvs)
      | Some _ \<Rightarrow> Inl TypeError)"

definition batch_scope_from_dict :: "json \<Rightarrow> batch_scope result" where
  "batch_scope_from_dict v =
     (case v of
        JObj kvs \<Rightarrow>
          (case jget ''ordered_members'' kvs of
             Some (JList items) \<Rightarrow>
               ebind (emap member_from_dict items) (\<lambda>members.
               ebind (dispatchers_of (jget ''authorized_dispatchers'' kvs)) (\<lambda>dispatchers.
               ebind (text_field Bad_Digest ''plan_digest'' kvs) (\<lambda>plan.
                 batch_scope_create plan members
                   (case jget ''aggregate_cost_ceiling_usd'' kvs of None \<Rightarrow> JNull | Some c \<Rightarrow> c)
                   (case jget ''expires_at'' kvs of Some (JStr t) \<Rightarrow> read_isoformat t | _ \<Rightarrow> Ts_Invalid)
                   dispatchers)))
           | _ \<Rightarrow> Inl (ValueError Bad_Array))
      | _ \<Rightarrow> Inl (ValueError Bad_Document))"

section \<open>References\<close>

record batch_reference =
  br_authority_id :: string
  br_digest :: string
  br_revision :: int
  br_plan_digest :: string

definition batch_reference_post_init :: "batch_reference \<Rightarrow> batch_reference result" where
  "batch_reference_post_init r =
     ebind (chk_uuid4 (lower (br_authority_id r))) (\<lambda>aid.
     ebind (chk_digest (br_digest r)) (\<lambda>_.
       if br_revision r < 1 then Inl (ValueError Bad_Integer)
       else ebind (chk_digest (br_plan_digest r)) (\<lambda>_. Inr (r\<lparr>br_authority_id := aid\<rparr>))))"

section \<open>The store\<close>

definition next_batch_revision :: "string \<Rightarrow> batch_authority_row list \<Rightarrow> int" where
  "next_batch_revision plan rows =
     fold max (map bt_revision (filter (\<lambda>r. bt_plan_digest r = plan) rows)) 0 + 1"

definition batch_body :: "string \<Rightarrow> int \<Rightarrow> int \<Rightarrow> batch_scope \<Rightarrow> json" where
  "batch_body aid revision issued scope =
     JObj [(''authority_id'', JStr aid), (''revision'', JInt revision),
           (''issued_at'', JStr (isoformat issued)), (''scope'', batch_scope_to_dict scope)]"

definition batch_issued_row :: "env \<Rightarrow> batch_scope \<Rightarrow> runtime_db \<Rightarrow> batch_authority_row" where
  "batch_issued_row e scope db =
     (let revision = next_batch_revision (bs_plan_digest scope) (db_batch_authorities db);
          aid = uid e revision; scope_json = json_norm (batch_scope_to_dict scope);
          body = json_norm (batch_body aid revision (clk e 0) scope)
      in \<lparr>bt_authority_id = aid, bt_body_json = body, bt_body_sha256 = sha256_body (sha e) body,
          bt_scope_json = scope_json, bt_scope_sha256 = sha256_body (sha e) scope_json,
          bt_plan_digest = bs_plan_digest scope, bt_revision = revision, bt_issued_at = clk e 0,
          bt_expires_at = bs_expires_at scope, bt_revoked_at = None\<rparr>)"

definition batch_reference_of :: "batch_authority_row \<Rightarrow> batch_reference" where
  "batch_reference_of r =
     \<lparr>br_authority_id = bt_authority_id r, br_digest = bt_body_sha256 r, br_revision = bt_revision r,
      br_plan_digest = bt_plan_digest r\<rparr>"

definition batch_issue :: "env \<Rightarrow> batch_scope \<Rightarrow> runtime_db \<Rightarrow> batch_reference result \<times> runtime_db" where
  "batch_issue e scope db =
     (if bs_expires_at scope \<le> clk e 0 then (Inl (ValueError Expiry_Not_Future), db)
      else
        (let row = batch_issued_row e scope db in
         if list_ex (\<lambda>r. bt_authority_id r = bt_authority_id row \<or> bt_body_sha256 r = bt_body_sha256 row)
              (db_batch_authorities db)
         then (Inl IntegrityError, db)
         else (batch_reference_post_init (batch_reference_of row),
               db\<lparr>db_batch_authorities := db_batch_authorities db @ [row]\<rparr>)))"

definition find_batch_authority :: "string \<Rightarrow> runtime_db \<Rightarrow> batch_authority_row option" where
  "find_batch_authority aid db = lookup_row (\<lambda>r. bt_authority_id r = aid) (db_batch_authorities db)"

text \<open>\<open>body.get("scope") != scope.to_dict()\<close> on an object.\<close>

definition batch_body_matches :: "json \<Rightarrow> batch_scope \<Rightarrow> bool" where
  "batch_body_matches body scope \<longleftrightarrow>
     (case body of
        JObj kvs \<Rightarrow>
          (case jget ''scope'' kvs of
             None \<Rightarrow> False
           | Some d \<Rightarrow> py_eq (json_norm d) (json_norm (batch_scope_to_dict scope)))
      | _ \<Rightarrow> False)"

definition load_scope :: "(string \<Rightarrow> string) \<Rightarrow> int \<Rightarrow> batch_reference \<Rightarrow> runtime_db \<Rightarrow> batch_scope result" where
  "load_scope h now r db =
     (case find_batch_authority (br_authority_id r) db of
        None \<Rightarrow> Inl (AuthError Batch_Missing)
      | Some row \<Rightarrow>
          (case batch_scope_from_dict (bt_scope_json row) of
             Inl (ValueError _) \<Rightarrow> Inl (AuthError Batch_Digest_Invalid)
           | Inl TypeError \<Rightarrow> Inl (AuthError Batch_Digest_Invalid)
           | Inl err \<Rightarrow> Inl err
           | Inr scope \<Rightarrow>
               let digest = sha256_body h (bt_body_json row) in
               if digest \<noteq> bt_body_sha256 row \<or> digest \<noteq> br_digest r
                  \<or> sha256_body h (bt_scope_json row) \<noteq> bt_scope_sha256 row
               then Inl (AuthError Batch_Digest_Invalid)
               else if \<not> is_object (bt_body_json row) then Inl AttributeError
               else if \<not> batch_body_matches (bt_body_json row) scope \<or> bt_plan_digest row \<noteq> br_plan_digest r
                  \<or> bt_revision row \<noteq> br_revision r \<or> bs_plan_digest scope \<noteq> br_plan_digest r
               then Inl (AuthError Batch_Digest_Invalid)
               else if bt_revoked_at row \<noteq> None then Inl (AuthError Batch_Revoked)
               else if bt_expires_at row \<le> now then Inl (AuthError Batch_Expired)
               else Inr scope))"

definition dispatcher_scope ::
  "(string \<Rightarrow> string) \<Rightarrow> int \<Rightarrow> batch_reference \<Rightarrow> string option \<Rightarrow> runtime_db \<Rightarrow> batch_scope result" where
  "dispatcher_scope h now r dispatcher db =
     ebind (load_scope h now r db) (\<lambda>scope.
       case dispatcher of
         None \<Rightarrow> Inr scope
       | Some d \<Rightarrow>
           ebind (chk_identifier d) (\<lambda>d.
             if d \<in> set (bs_authorized_dispatchers scope) then Inr scope
             else Inl (AuthError Batch_Dispatcher_Refused)))"

definition batch_verify ::
  "(string \<Rightarrow> string) \<Rightarrow> int \<Rightarrow> batch_reference \<Rightarrow> batch_scope \<Rightarrow> string option \<Rightarrow> runtime_db
     \<Rightarrow> batch_reference result" where
  "batch_verify h now r expected dispatcher db =
     ebind (dispatcher_scope h now r dispatcher db) (\<lambda>actual.
       if bs_plan_digest actual \<noteq> bs_plan_digest expected then Inl (AuthError Batch_Plan_Mismatch)
       else if \<not> list_all2 member_eq (bs_ordered_members actual) (bs_ordered_members expected)
       then Inl (AuthError Batch_Member_Mismatch)
       else if float_value (bs_aggregate_cost_ceiling_usd actual) \<noteq> float_value (bs_aggregate_cost_ceiling_usd expected)
       then Inl (AuthError Batch_Cost_Mismatch)
       else if bs_expires_at actual \<noteq> bs_expires_at expected then Inl (AuthError Batch_Expiry_Mismatch)
       else if bs_authorized_dispatchers actual \<noteq> bs_authorized_dispatchers expected
       then Inl (AuthError Batch_Dispatchers_Mismatch)
       else Inr r)"

definition batch_revoke :: "env \<Rightarrow> batch_reference \<Rightarrow> runtime_db \<Rightarrow> bool result \<times> runtime_db" where
  "batch_revoke e r db =
     (case find_batch_authority (br_authority_id r) db of
        None \<Rightarrow> (Inl (AuthError Batch_Missing), db)
      | Some row \<Rightarrow>
          if bt_body_sha256 row \<noteq> br_digest r \<or> bt_revision row \<noteq> br_revision r
             \<or> bt_plan_digest row \<noteq> br_plan_digest r
          then (Inl (AuthError Batch_Digest_Invalid), db)
          else if bt_revoked_at row = None then
            (Inr True,
             db\<lparr>db_batch_authorities := update_rows
                   (\<lambda>a. bt_authority_id a = br_authority_id r \<and> bt_revoked_at a = None)
                   (\<lambda>a. a\<lparr>bt_revoked_at := Some (clk e 0)\<rparr>) (db_batch_authorities db)\<rparr>)
          else (Inr False, db))"

end
