(* ===== verification/BatchAuthorityProps.thy ===== *)
theory BatchAuthorityProps
  imports BatchAuthority
begin

text \<open>
  Correctness of batch grants: the stored scope reads back as the scope that was issued, what is
  loaded is live, intact and covers the dispatcher, an issued grant loads until it expires, and a
  revocation is final.
\<close>

section \<open>The document of a scope\<close>

definition member_ok :: "batch_member \<Rightarrow> bool" where
  "member_ok m \<longleftrightarrow> is_sha256 (bm_member_digest m) \<and> is_identifier (bm_provider_id m) \<and> is_sha256 (bm_route_id m)
     \<and> is_sha256 (bm_role_digest m) \<and> is_identifier (bm_privacy m) \<and> is_identifier (bm_context_class m)
     \<and> cost_ok (bm_cost_ceiling_usd m)"

definition batch_scope_ok :: "batch_scope \<Rightarrow> bool" where
  "batch_scope_ok s \<longleftrightarrow> is_sha256 (bs_plan_digest s) \<and> bs_ordered_members s \<noteq> []
     \<and> (\<forall>m \<in> set (bs_ordered_members s). member_ok m) \<and> distinct (map bm_member_digest (bs_ordered_members s))
     \<and> cost_ok (bs_aggregate_cost_ceiling_usd s) \<and> datetime_ok (bs_expires_at s)
     \<and> bs_authorized_dispatchers s \<noteq> [] \<and> distinct (bs_authorized_dispatchers s)
     \<and> sorted (bs_authorized_dispatchers s) \<and> (\<forall>d \<in> set (bs_authorized_dispatchers s). is_identifier d)"

lemma member_round_trip:
  assumes "member_ok m"
  shows "member_from_dict (json_norm (member_to_dict m)) = Inr m"
proof -
  let ?kvs = "[(''member_digest'', JStr (bm_member_digest m)), (''provider_id'', JStr (bm_provider_id m)),
           (''route_id'', JStr (bm_route_id m)), (''role_digest'', JStr (bm_role_digest m)),
           (''privacy'', JStr (bm_privacy m)), (''context_class'', JStr (bm_context_class m)),
           (''cost_ceiling_usd'', JFloat (bm_cost_ceiling_usd m))]"
  obtain lvs where l: "json_norm (JObj ?kvs) = JObj lvs" by (simp only: json_norm.simps)
  have g: "jget k lvs = map_option json_norm (jget k ?kvs)" for k by (rule jget_normal [OF _ l]) simp
  have f: "jget ''member_digest'' lvs = Some (JStr (bm_member_digest m))" "jget ''provider_id'' lvs = Some (JStr (bm_provider_id m))"
    "jget ''route_id'' lvs = Some (JStr (bm_route_id m))" "jget ''role_digest'' lvs = Some (JStr (bm_role_digest m))"
    "jget ''privacy'' lvs = Some (JStr (bm_privacy m))" "jget ''context_class'' lvs = Some (JStr (bm_context_class m))"
    "jget ''cost_ceiling_usd'' lvs = Some (JFloat (bm_cost_ceiling_usd m))"
    unfolding g by (simp_all add: jget_def)
  show ?thesis
    unfolding member_to_dict_def l
    using assms cost_of_JFloat [of "bm_cost_ceiling_usd m"]
    by (simp add: member_from_dict_def text_field_def f member_create_def member_ok_def chk_digest_def chk_identifier_def)
qed

lemma identifier_set_fixed:
  "vs \<noteq> [] \<Longrightarrow> distinct vs \<Longrightarrow> sorted vs \<Longrightarrow> (\<forall>d \<in> set vs. is_identifier d) \<Longrightarrow> identifier_set vs = Inr vs"
  by (simp add: identifier_set_def emap_id chk_identifier_def sorted_sort_id)

lemma batch_scope_round_trip:
  assumes "batch_scope_ok s"
  shows "batch_scope_from_dict (json_norm (batch_scope_to_dict s)) = Inr s"
proof -
  let ?kvs = "[(''plan_digest'', JStr (bs_plan_digest s)),
           (''ordered_members'', JList (map member_to_dict (bs_ordered_members s))),
           (''aggregate_cost_ceiling_usd'', JFloat (bs_aggregate_cost_ceiling_usd s)),
           (''expires_at'', JStr (isoformat (bs_expires_at s))),
           (''authorized_dispatchers'', jstrs (bs_authorized_dispatchers s))]"
  obtain lvs where l: "json_norm (JObj ?kvs) = JObj lvs" by (simp only: json_norm.simps)
  have g: "jget k lvs = map_option json_norm (jget k ?kvs)" for k by (rule jget_normal [OF _ l]) simp
  have "emap member_from_dict (map (\<lambda>m. json_norm (member_to_dict m)) ms) = Inr ms" if "\<forall>m \<in> set ms. member_ok m" for ms
    using that by (induction ms) (simp_all add: member_round_trip)
  then have ms: "emap member_from_dict (norm_items (map member_to_dict (bs_ordered_members s))) = Inr (bs_ordered_members s)"
    using assms by (simp add: norm_items_map comp_def batch_scope_ok_def)
  have ds: "dispatchers_of (Some (jstrs (bs_authorized_dispatchers s))) = Inr (bs_authorized_dispatchers s)"
    by (simp add: dispatchers_of_def jstrs_def)
  have f: "jget ''plan_digest'' lvs = Some (JStr (bs_plan_digest s))"
    "jget ''ordered_members'' lvs = Some (JList (norm_items (map member_to_dict (bs_ordered_members s))))"
    "jget ''aggregate_cost_ceiling_usd'' lvs = Some (JFloat (bs_aggregate_cost_ceiling_usd s))"
    "jget ''expires_at'' lvs = Some (JStr (isoformat (bs_expires_at s)))"
    "jget ''authorized_dispatchers'' lvs = Some (jstrs (bs_authorized_dispatchers s))"
    unfolding g by (simp_all add: jget_def)
  show ?thesis
    unfolding batch_scope_to_dict_def l
    using assms cost_of_JFloat [of "bs_aggregate_cost_ceiling_usd s"] read_isoformat [of "bs_expires_at s"]
    by (simp add: batch_scope_from_dict_def f ms ds text_field_def batch_scope_create_def batch_scope_ok_def
        chk_digest_def aware_iso8601_def identifier_set_fixed)
qed

section \<open>What is loaded\<close>

text \<open>The grant behind a reference is live: its row is there, unrevoked and unexpired, its two
  digests are intact, and its scope is for the plan of the reference.\<close>

definition batch_live ::
  "(string \<Rightarrow> string) \<Rightarrow> int \<Rightarrow> batch_reference \<Rightarrow> batch_scope \<Rightarrow> runtime_db \<Rightarrow> bool" where
  "batch_live h now r scope db \<longleftrightarrow>
     (\<exists>row \<in> set (db_batch_authorities db). bt_authority_id row = br_authority_id r
        \<and> bt_revoked_at row = None \<and> now < bt_expires_at row \<and> bt_plan_digest row = br_plan_digest r
        \<and> bt_revision row = br_revision r \<and> sha256_body h (bt_body_json row) = br_digest r
        \<and> sha256_body h (bt_scope_json row) = bt_scope_sha256 row
        \<and> batch_scope_from_dict (bt_scope_json row) = Inr scope \<and> batch_body_matches (bt_body_json row) scope
        \<and> bs_plan_digest scope = br_plan_digest r)"

lemma find_batch_Some:
  "find_batch_authority aid db = Some row \<Longrightarrow> row \<in> set (db_batch_authorities db) \<and> bt_authority_id row = aid"
  unfolding find_batch_authority_def by (drule lookup_row_Some) simp

lemma load_scope_live: "load_scope h now r db = Inr scope \<Longrightarrow> batch_live h now r scope db"
  unfolding load_scope_def batch_live_def
  by (auto simp: Let_def not_le split: option.splits sum.splits err.splits if_splits dest: find_batch_Some)

lemma load_scope_complete:
  assumes "find_batch_authority (br_authority_id r) db = Some row"
    and "bt_revoked_at row = None" "now < bt_expires_at row" "bt_plan_digest row = br_plan_digest r"
    and "bt_revision row = br_revision r" "sha256_body h (bt_body_json row) = br_digest r"
    and "bt_body_sha256 row = br_digest r" "sha256_body h (bt_scope_json row) = bt_scope_sha256 row"
    and "batch_scope_from_dict (bt_scope_json row) = Inr scope" "batch_body_matches (bt_body_json row) scope"
    and "bs_plan_digest scope = br_plan_digest r"
  shows "load_scope h now r db = Inr scope"
proof -
  have "is_object (bt_body_json row)"
    using assms(10) by (auto simp: batch_body_matches_def is_object_def split: json.splits)
  with assms show ?thesis by (simp add: load_scope_def Let_def)
qed

lemma dispatcher_scope_Inr:
  "dispatcher_scope h now r (Some d) db = Inr scope \<longleftrightarrow>
     load_scope h now r db = Inr scope \<and> is_identifier d \<and> d \<in> set (bs_authorized_dispatchers scope)"
  by (auto simp: dispatcher_scope_def result_simps chk_identifier_def)

lemma dispatcher_scope_None [simp]: "dispatcher_scope h now r None db = load_scope h now r db"
  by (cases "load_scope h now r db") (simp_all add: dispatcher_scope_def)

text \<open>What \<open>verify\<close> accepts is exactly what was granted: the grant is live and intact, it names
  the plan, the ordered members with their ceilings, the aggregate ceiling, the expiry and the
  dispatchers that the caller expects, and the dispatcher is one of them.\<close>

theorem batch_verify_sound:
  assumes "batch_verify h now r expected (Some d) db = Inr r'"
  shows "r' = r \<and> (\<exists>scope. batch_live h now r scope db \<and> d \<in> set (bs_authorized_dispatchers scope)
    \<and> bs_plan_digest scope = bs_plan_digest expected
    \<and> list_all2 member_eq (bs_ordered_members scope) (bs_ordered_members expected)
    \<and> float_value (bs_aggregate_cost_ceiling_usd scope) = float_value (bs_aggregate_cost_ceiling_usd expected)
    \<and> bs_expires_at scope = bs_expires_at expected
    \<and> bs_authorized_dispatchers scope = bs_authorized_dispatchers expected)"
proof -
  obtain scope where s: "dispatcher_scope h now r (Some d) db = Inr scope" and
    rest: "(if bs_plan_digest scope \<noteq> bs_plan_digest expected then Inl (AuthError Batch_Plan_Mismatch)
       else if \<not> list_all2 member_eq (bs_ordered_members scope) (bs_ordered_members expected)
       then Inl (AuthError Batch_Member_Mismatch)
       else if float_value (bs_aggregate_cost_ceiling_usd scope) \<noteq> float_value (bs_aggregate_cost_ceiling_usd expected)
       then Inl (AuthError Batch_Cost_Mismatch)
       else if bs_expires_at scope \<noteq> bs_expires_at expected then Inl (AuthError Batch_Expiry_Mismatch)
       else if bs_authorized_dispatchers scope \<noteq> bs_authorized_dispatchers expected
       then Inl (AuthError Batch_Dispatchers_Mismatch)
       else Inr r) = Inr r'"
    using assms unfolding batch_verify_def ebind_Inr_iff by blast
  from s have "batch_live h now r scope db" "d \<in> set (bs_authorized_dispatchers scope)"
    unfolding dispatcher_scope_Inr by (auto intro: load_scope_live)
  with rest show ?thesis by (auto split: if_splits)
qed

section \<open>Every sequence of operations\<close>

inductive batch_step :: "runtime_db \<Rightarrow> runtime_db \<Rightarrow> bool" where
  issue_batch: "batch_issue e scope db = (res, db') \<Longrightarrow> batch_step db db'"
| revoke_batch: "batch_revoke e r db = (bres, db') \<Longrightarrow> batch_step db db'"
| other_batch: "db_batch_authorities db' = db_batch_authorities db \<Longrightarrow> batch_step db db'"

definition batch_ids_unique :: "runtime_db \<Rightarrow> bool" where
  "batch_ids_unique db \<longleftrightarrow> distinct (map bt_authority_id (db_batch_authorities db))"

definition batch_revoked :: "string \<Rightarrow> runtime_db \<Rightarrow> bool" where
  "batch_revoked aid db \<longleftrightarrow> aid \<in> bt_authority_id ` set (db_batch_authorities db)
     \<and> (\<forall>a \<in> set (db_batch_authorities db). bt_authority_id a = aid \<longrightarrow> bt_revoked_at a \<noteq> None)"

lemma batch_issue_cases:
  assumes "batch_issue e scope db = (res, db')"
  shows "db' = db \<and> \<not> is_ok res \<or> (db' = db\<lparr>db_batch_authorities := db_batch_authorities db @ [batch_issued_row e scope db]\<rparr>
    \<and> clk e 0 < bs_expires_at scope
    \<and> res = batch_reference_post_init (batch_reference_of (batch_issued_row e scope db))
    \<and> (\<forall>a \<in> set (db_batch_authorities db). bt_authority_id a \<noteq> bt_authority_id (batch_issued_row e scope db)))"
  using assms by (auto simp: batch_issue_def Let_def list_ex_iff split: if_splits)

lemma batch_revoke_cases:
  assumes "batch_revoke e r db = (res, db')"
  shows "db' = db \<or> (\<exists>P. db' = db\<lparr>db_batch_authorities :=
    update_rows P (\<lambda>a. a\<lparr>bt_revoked_at := Some (clk e 0)\<rparr>) (db_batch_authorities db)\<rparr>)"
proof -
  show ?thesis using assms unfolding batch_revoke_def by (simp split: option.splits if_splits) blast
qed

text \<open>The three ways the table evolves.\<close>

lemma batch_step_cases:
  assumes "batch_step db db'"
  obtains (same) "db_batch_authorities db' = db_batch_authorities db"
  | (append) row where "db_batch_authorities db' = db_batch_authorities db @ [row]"
      "bt_authority_id row \<notin> bt_authority_id ` set (db_batch_authorities db)"
  | (mark) P t where "db_batch_authorities db'
      = update_rows P (\<lambda>a. a\<lparr>bt_revoked_at := Some t\<rparr>) (db_batch_authorities db)"
  using assms
proof cases
  case (issue_batch e scope res)
  from batch_issue_cases [OF this] show thesis
  proof (elim disjE conjE)
    assume "db' = db\<lparr>db_batch_authorities := db_batch_authorities db @ [batch_issued_row e scope db]\<rparr>"
      "\<forall>a \<in> set (db_batch_authorities db). bt_authority_id a \<noteq> bt_authority_id (batch_issued_row e scope db)"
    then show thesis by (intro append [of "batch_issued_row e scope db"]) auto
  qed (simp add: same)
next
  case (revoke_batch e r res)
  from batch_revoke_cases [OF this] show thesis by (elim disjE exE) (simp_all add: same mark)
qed (rule same)

lemma batch_ids_step: "batch_ids_unique db \<Longrightarrow> batch_step db db' \<Longrightarrow> batch_ids_unique db'"
  by (erule batch_step_cases) (auto simp: batch_ids_unique_def map_update_rows)

interpretation batch_steps: step_system "\<lambda>db. db = initial_db" batch_step batch_ids_unique
  by unfold_locales (simp add: batch_ids_unique_def initial_db_def, rule batch_ids_step)

definition batch_loads :: "string \<Rightarrow> runtime_db \<Rightarrow> bool" where
  "batch_loads aid db \<longleftrightarrow> (\<exists>h now r scope. br_authority_id r = aid \<and> load_scope h now r db = Inr scope)"

interpretation batch_grants: revocable_store batch_step batch_revoked batch_loads
proof
  fix aid db db' assume r: "batch_revoked aid db" and "batch_step db db'"
  from this(2) show "batch_revoked aid db'"
  proof (cases rule: batch_step_cases)
    case (mark P t)
    have "bt_authority_id ` set (db_batch_authorities db') = bt_authority_id ` set (db_batch_authorities db)"
      unfolding mark by (rule keys_update_rows) simp
    moreover have "\<forall>a \<in> set (db_batch_authorities db'). bt_authority_id a = aid \<longrightarrow> bt_revoked_at a \<noteq> None"
      using r by (auto simp: mark batch_revoked_def set_update_rows)
    ultimately show ?thesis using r by (simp add: batch_revoked_def)
  qed (use r in \<open>auto simp: batch_revoked_def\<close>)
next
  fix aid db assume "batch_revoked aid db"
  then show "\<not> batch_loads aid db"
    unfolding batch_revoked_def batch_loads_def batch_live_def by (metis load_scope_live batch_live_def)
qed

lemma batch_revoke_marks:
  assumes "batch_revoke e r db = (Inr b, db')" and "batch_ids_unique db"
  shows "batch_revoked (br_authority_id r) db'"
proof -
  let ?aid = "br_authority_id r"
  obtain row where f: "find_batch_authority ?aid db = Some row"
    using assms(1) by (cases "find_batch_authority ?aid db") (simp_all add: batch_revoke_def)
  note row = find_batch_Some [OF f]
  have u: "a = row" if "a \<in> set (db_batch_authorities db)" "bt_authority_id a = ?aid" for a
    using key_unique [OF assms(2) [unfolded batch_ids_unique_def] that(1), of row] that(2) row by simp
  show ?thesis
  proof (cases "bt_revoked_at row = None")
    case True
    then have "db_batch_authorities db' = update_rows (\<lambda>a. bt_authority_id a = ?aid \<and> bt_revoked_at a = None)
        (\<lambda>a. a\<lparr>bt_revoked_at := Some (clk e 0)\<rparr>) (db_batch_authorities db)"
      using assms(1) by (auto simp: batch_revoke_def f split: if_splits)
    note m = this
    have "bt_authority_id ` set (db_batch_authorities db') = bt_authority_id ` set (db_batch_authorities db)"
      unfolding m by (rule keys_update_rows) simp
    moreover have "\<forall>a \<in> set (db_batch_authorities db'). bt_authority_id a = ?aid \<longrightarrow> bt_revoked_at a \<noteq> None"
      by (auto simp: m set_update_rows)
    moreover have "?aid \<in> bt_authority_id ` set (db_batch_authorities db)" using row by (metis imageI)
    ultimately show ?thesis by (simp add: batch_revoked_def)
  next
    case False
    then have "db' = db" using assms(1) by (auto simp: batch_revoke_def f split: if_splits)
    moreover have "?aid \<in> bt_authority_id ` set (db_batch_authorities db)" using row by (metis imageI)
    moreover have "\<forall>a \<in> set (db_batch_authorities db). bt_authority_id a = ?aid \<longrightarrow> bt_revoked_at a \<noteq> None"
      using u False by blast
    ultimately show ?thesis by (simp only: batch_revoked_def simp_thms)
  qed
qed

text \<open>The revocation of a batch grant is final: once \<open>revoke\<close> returned, in every later state the
  grant is refused, whatever the reference says and whenever it is read.\<close>

theorem batch_revocation_is_final:
  assumes "batch_step\<^sup>*\<^sup>* initial_db db" and "batch_revoke e r db = (Inr b, db1)" and "batch_step\<^sup>*\<^sup>* db1 db2"
    and "br_authority_id r' = br_authority_id r"
  shows "load_scope h now r' db2 \<noteq> Inr scope"
proof -
  have "batch_revoked (br_authority_id r) db1"
    using batch_steps.reachable_inv [OF refl assms(1)] assms(2) by (rule batch_revoke_marks [rotated])
  from batch_grants.never_again [OF assms(3) this] assms(4) show ?thesis by (auto simp: batch_loads_def)
qed

section \<open>An issued grant\<close>

lemma lower_uuid4:
  assumes "is_uuid4 s"
  shows "lower s = s"
proof -
  have "lower_char (s ! i) = s ! i" if "i < length s" for i
  proof -
    have "(i, s ! i) \<in> set (enumerate 0 s)" using that by (simp add: in_set_enumerate_eq)
    then have "byte (s ! i) = 45 \<or> is_lower_hex (s ! i)"
      using assms by (fastforce simp: is_uuid4_def list_all_iff split: if_splits)
    then show ?thesis by (auto simp: lower_char_def is_lower_hex_def is_digit_def)
  qed
  then show ?thesis unfolding lower_def by (intro nth_equalityI) simp_all
qed

lemma next_batch_revision_pos: "1 \<le> next_batch_revision p rows"
  unfolding next_batch_revision_def using fold_max_start [of 0] by simp

lemma member_wf: "member_ok m \<Longrightarrow> wf_json (member_to_dict m)"
  by (simp add: member_to_dict_def member_ok_def cost_ok_def)

lemma batch_scope_wf:
  assumes "batch_scope_ok s"
  shows "wf_json (batch_scope_to_dict s)"
proof -
  have "wf_items (map member_to_dict ms)" if "\<forall>m \<in> set ms. member_ok m" for ms
    using that by (induction ms) (simp_all add: member_wf)
  moreover have "wf_items (map JStr ss)" for ss by (induction ss) simp_all
  ultimately show ?thesis
    using assms by (simp add: batch_scope_to_dict_def batch_scope_ok_def cost_ok_def jstrs_def)
qed

lemma batch_body_matches_issued:
  assumes "batch_scope_ok s"
  shows "batch_body_matches (json_norm (batch_body aid n t s)) s"
proof -
  have "jget ''scope'' (sort_key fst (norm_members
       [(''authority_id'', JStr aid), (''revision'', JInt n), (''issued_at'', JStr (isoformat t)),
        (''scope'', batch_scope_to_dict s)])) = Some (json_norm (batch_scope_to_dict s))"
    by (subst jget_norm) (simp_all add: jget_def)
  moreover have "py_eq (json_norm (batch_scope_to_dict s)) (json_norm (batch_scope_to_dict s))"
    by (rule py_eq_refl) (simp add: batch_scope_wf assms)
  ultimately show ?thesis
    by (simp add: batch_body_matches_def batch_body_def del: norm_members.simps sort_key_simps)
qed

text \<open>A batch grant that \<open>issue\<close> returns loads, from then until it expires, as exactly the scope
  that was issued: the stored text of the scope, with its members, cost ceilings, expiry and
  dispatchers, reads back as the scope.\<close>

theorem issued_batch_loads:
  assumes "batch_issue e scope db = (Inr r, db')" and "batch_scope_ok scope"
    and "now < bs_expires_at scope" and "is_uuid4 (uid e (next_batch_revision (bs_plan_digest scope) (db_batch_authorities db)))"
  shows "load_scope (sha e) now r db' = Inr scope"
proof -
  let ?row = "batch_issued_row e scope db"
  have d: "db_batch_authorities db' = db_batch_authorities db @ [?row]" "batch_reference_post_init (batch_reference_of ?row) = Inr r"
    and u: "\<forall>a \<in> set (db_batch_authorities db). bt_authority_id a \<noteq> bt_authority_id ?row"
    using batch_issue_cases [OF assms(1)] by auto
  have i: "lower (bt_authority_id ?row) = bt_authority_id ?row"
    using lower_uuid4 [OF assms(4)] by (simp add: batch_issued_row_def Let_def)
  have r: "r = batch_reference_of ?row"
    using d(2) by (auto simp: batch_reference_post_init_def result_simps batch_reference_of_def i split: if_splits)
  have "lookup_row (\<lambda>a. bt_authority_id a = bt_authority_id ?row) (db_batch_authorities db) = None"
    using u by (simp add: lookup_row_None)
  then have f: "find_batch_authority (br_authority_id r) db' = Some ?row"
    by (simp add: find_batch_authority_def d(1) lookup_row_append r batch_reference_of_def)
  show ?thesis
    by (rule load_scope_complete [OF f])
      (use assms(2,3) batch_scope_round_trip [OF assms(2)] batch_body_matches_issued [OF assms(2)] in
        \<open>simp_all add: r batch_reference_of_def batch_issued_row_def Let_def\<close>)
qed

section \<open>A concrete grant\<close>

lemma float_text_code [code]:
  "float_text t \<longleftrightarrow> list_all is_number_char t \<and> (CHR ''.'' \<in> set t \<or> CHR ''e'' \<in> set t)
     \<and> (case t of [] \<Rightarrow> False | c # _ \<Rightarrow> is_digit c \<or> c = CHR ''-'')"
  by (cases t) (simp_all add: float_text_def)

definition example_member :: "nat \<Rightarrow> batch_member" where
  "example_member n = \<lparr>bm_member_digest = replicate 64 (digit_char n), bm_provider_id = ''glm'',
     bm_route_id = replicate 64 (CHR ''b''), bm_role_digest = replicate 64 (CHR ''c''), bm_privacy = ''public'',
     bm_context_class = ''small'', bm_cost_ceiling_usd = ''0.25''\<rparr>"

definition example_batch :: batch_scope where
  "example_batch = \<lparr>bs_plan_digest = replicate 64 (CHR ''a''), bs_ordered_members = [example_member 1, example_member 2],
     bs_aggregate_cost_ceiling_usd = ''0.5'', bs_expires_at = seconds 600, bs_authorized_dispatchers = [''w1'', ''w2'']\<rparr>"

lemma example_batch_ok: "batch_scope_ok example_batch"
proof -
  have "is_sha256 (replicate 64 (CHR ''a''))" "member_ok (example_member 1)" "member_ok (example_member 2)"
    "bm_member_digest (example_member 1) \<noteq> bm_member_digest (example_member 2)"
    by code_simp+
  moreover have "cost_ok ''0.5''" "datetime_ok (seconds 600)" "is_identifier ''w1''" "is_identifier ''w2''" "''w1'' \<le> ''w2''"
    by code_simp+
  ultimately show ?thesis by (simp add: batch_scope_ok_def example_batch_def)
qed

definition example_batch_row :: batch_authority_row where
  "example_batch_row = batch_issued_row example_env example_batch initial_db"

definition example_batch_db :: runtime_db where
  "example_batch_db = initial_db\<lparr>db_batch_authorities := [example_batch_row]\<rparr>"

lemma example_uid_1: "is_uuid4 (example_uid 1)"
  by code_simp

lemma example_batch_issue:
  "batch_issue example_env example_batch initial_db = (Inr (batch_reference_of example_batch_row), example_batch_db)"
proof -
  have n: "next_batch_revision (bs_plan_digest example_batch) [] = 1" by (simp add: next_batch_revision_def)
  have "is_sha256 (bs_plan_digest example_batch)" using example_batch_ok by (simp add: batch_scope_ok_def)
  then have "batch_reference_post_init (batch_reference_of example_batch_row) = Inr (batch_reference_of example_batch_row)"
    using example_uid_1 lower_uuid4 [OF example_uid_1] n
    by (simp add: batch_reference_post_init_def batch_reference_of_def example_batch_row_def batch_issued_row_def Let_def
        initial_db_def example_env_def sha256_body_def chk_digest_def example_sha_hex chk_uuid4_def)
  moreover have "seconds 0 < bs_expires_at example_batch" by (simp add: example_batch_def seconds_def)
  ultimately show ?thesis
    by (simp add: batch_issue_def Let_def example_batch_row_def [symmetric] example_batch_db_def)
      (simp add: initial_db_def example_env_def)
qed

lemma example_batch_loads:
  assumes "now < seconds 600" "db_batch_authorities db = [example_batch_row]"
  shows "load_scope example_sha now (batch_reference_of example_batch_row) db = Inr example_batch"
proof (rule load_scope_complete [where row = example_batch_row])
  show "find_batch_authority (br_authority_id (batch_reference_of example_batch_row)) db = Some example_batch_row"
    by (simp add: find_batch_authority_def assms(2) batch_reference_of_def)
qed (use assms(1) batch_scope_round_trip [OF example_batch_ok] batch_body_matches_issued [OF example_batch_ok] in
  \<open>simp_all add: batch_reference_of_def example_batch_row_def batch_issued_row_def Let_def example_env_def\<close>,
  simp_all add: example_batch_def)

theorem issued_batch_loads_witness:
  "load_scope (sha example_env) (seconds 30) (batch_reference_of example_batch_row) example_batch_db = Inr example_batch"
  by (rule issued_batch_loads [OF example_batch_issue example_batch_ok])
    (use example_uid_1 in \<open>simp_all add: example_batch_def seconds_def next_batch_revision_def initial_db_def example_env_def\<close>)

theorem batch_verify_sound_witness:
  "\<exists>scope. batch_live example_sha (seconds 30) (batch_reference_of example_batch_row) scope example_batch_db
    \<and> ''w1'' \<in> set (bs_authorized_dispatchers scope)"
proof -
  have "load_scope example_sha (seconds 30) (batch_reference_of example_batch_row) example_batch_db = Inr example_batch"
    by (rule example_batch_loads) (simp_all add: seconds_def example_batch_db_def)
  moreover have "is_identifier ''w1''" by code_simp
  ultimately have "dispatcher_scope example_sha (seconds 30) (batch_reference_of example_batch_row) (Some ''w1'') example_batch_db
      = Inr example_batch"
    by (simp add: dispatcher_scope_Inr) (simp add: example_batch_def)
  then have "batch_verify example_sha (seconds 30) (batch_reference_of example_batch_row) example_batch (Some ''w1'') example_batch_db
      = Inr (batch_reference_of example_batch_row)"
    by (simp add: batch_verify_def member_eq_def list_all2_refl)
  from batch_verify_sound [OF this] show ?thesis by blast
qed

theorem batch_revocation_is_final_witness:
  "load_scope example_sha (seconds 30) (batch_reference_of example_batch_row)
     (snd (batch_revoke example_env (batch_reference_of example_batch_row) example_batch_db)) \<noteq> Inr example_batch"
proof -
  have "batch_step initial_db example_batch_db" by (rule batch_step.issue_batch [OF example_batch_issue])
  moreover have "find_batch_authority (br_authority_id (batch_reference_of example_batch_row)) example_batch_db = Some example_batch_row"
    by (simp add: find_batch_authority_def example_batch_db_def batch_reference_of_def)
  then have "fst (batch_revoke example_env (batch_reference_of example_batch_row) example_batch_db) = Inr True"
    by (simp add: batch_revoke_def batch_reference_of_def)
      (simp add: example_batch_row_def batch_issued_row_def Let_def)
  ultimately show ?thesis
    by (intro batch_revocation_is_final [where db = example_batch_db and e = example_env and b = True
          and r = "batch_reference_of example_batch_row"])
      (auto simp: prod_eq_iff)
qed

end
