(* ===== verification/Dispatch.thy ===== *)
theory Dispatch
  imports AuthorityProps
begin

text \<open>
  \<open>src/src/macr_runtime/dispatch.py\<close>: the cross-process leases on dispatch resources, fenced by the
  counter of the database, and the admission gate that joins them with the dispatch authority.
  \<open>DispatchContext\<close> is the value of \<open>execution.py\<close> that the gate is asked with.
\<close>

section \<open>The context of a dispatch\<close>

datatype interaction_plane = Direct_Plane | Delegation_Plane

fun plane_value :: "interaction_plane \<Rightarrow> string" where
  "plane_value Direct_Plane = ''direct''"
| "plane_value Delegation_Plane = ''delegation''"

record dispatch_origin =
  do_host :: string
  do_identifier_kind :: string
  do_native_id :: string

definition origin_post_init :: "dispatch_origin \<Rightarrow> dispatch_origin result" where
  "origin_post_init d =
     ebind (chk_non_empty (do_host d)) (\<lambda>host.
     ebind (chk_non_empty (do_identifier_kind d)) (\<lambda>kind.
     ebind (chk_non_empty (do_native_id d)) (\<lambda>native.
       Inr \<lparr>do_host = host, do_identifier_kind = kind, do_native_id = native\<rparr>)))"

record dispatch_context =
  dc_run_id :: string
  dc_plane :: interaction_plane
  dc_origin :: dispatch_origin
  dc_authorization :: authorization_reference
  dc_policy_snapshot_sha256 :: string
  dc_batch_id :: "string option"
  dc_member_digest :: "string option"
  dc_relay_is_authorship :: bool
  dc_plan_digest :: "string option"
  dc_plan_revision :: "int option"
  dc_role_slot_id :: "string option"
  dc_route_id :: "string option"
  dc_model_token_policy_digest :: "string option"
  dc_provider_tier_binding_digest :: "string option"
  dc_project_binding_digest :: "string option"
  dc_admission_lane :: "string option"
  dc_provider_admission_policy_digest :: "string option"

text \<open>The digests of \<open>execution.py\<close> are lowered, UUIDs brought into canonical form.\<close>

definition chk_digest_lower :: "string \<Rightarrow> string result" where
  "chk_digest_lower s = chk_digest (lower s)"

definition chk_uuid4_lower :: "string \<Rightarrow> string result" where
  "chk_uuid4_lower s = chk_uuid4 (lower s)"

definition context_post_init :: "dispatch_context \<Rightarrow> dispatch_context result" where
  "context_post_init c =
     ebind (chk_uuid4_lower (dc_run_id c)) (\<lambda>run.
     ebind (chk_digest_lower (dc_policy_snapshot_sha256 c)) (\<lambda>snapshot.
     ebind (chk_optional chk_non_empty (dc_batch_id c)) (\<lambda>batch.
     ebind (chk_optional chk_digest_lower (dc_member_digest c)) (\<lambda>member.
     ebind (guard (\<not> dc_relay_is_authorship c) (ValueError Bad_Choice)) (\<lambda>_.
     ebind (chk_optional chk_digest_lower (dc_plan_digest c)) (\<lambda>plan.
     ebind (guard (case dc_plan_revision c of None \<Rightarrow> True | Some n \<Rightarrow> 1 \<le> n) (ValueError Bad_Integer)) (\<lambda>_.
     ebind (chk_optional chk_non_empty (dc_role_slot_id c)) (\<lambda>slot.
     ebind (chk_optional chk_digest_lower (dc_route_id c)) (\<lambda>route.
     ebind (chk_optional chk_digest_lower (dc_model_token_policy_digest c)) (\<lambda>tokens.
     ebind (chk_optional chk_digest_lower (dc_provider_tier_binding_digest c)) (\<lambda>tier.
     ebind (chk_optional chk_digest_lower (dc_project_binding_digest c)) (\<lambda>project.
     ebind (guard (case dc_admission_lane c of None \<Rightarrow> True
              | Some l \<Rightarrow> l \<in> {''interactive'', ''routine'', ''bulk''}) (ValueError Bad_Lane)) (\<lambda>_.
     ebind (chk_optional chk_digest_lower (dc_provider_admission_policy_digest c)) (\<lambda>policy.
       Inr (c\<lparr>dc_run_id := run, dc_policy_snapshot_sha256 := snapshot, dc_batch_id := batch,
              dc_member_digest := member, dc_plan_digest := plan, dc_role_slot_id := slot,
              dc_route_id := route, dc_model_token_policy_digest := tokens,
              dc_provider_tier_binding_digest := tier, dc_project_binding_digest := project,
              dc_provider_admission_policy_digest := policy\<rparr>)))))))))))))))"

section \<open>Leases\<close>

record dispatch_permit =
  dp_resource_key :: string
  dp_run_id :: string
  dp_fencing_token :: int
  dp_acquired_at :: int
  dp_expires_at :: int

definition permit_of_lease :: "lease_row \<Rightarrow> dispatch_permit" where
  "permit_of_lease r =
     \<lparr>dp_resource_key = dl_resource_key r, dp_run_id = dl_run_id r, dp_fencing_token = dl_fencing_token r,
      dp_acquired_at = dl_acquired_at r, dp_expires_at = dl_expires_at r\<rparr>"

definition find_lease :: "string \<Rightarrow> runtime_db \<Rightarrow> lease_row option" where
  "find_lease resource db = lookup_row (\<lambda>r. dl_resource_key r = resource) (db_leases db)"

definition delete_lease :: "string \<Rightarrow> runtime_db \<Rightarrow> runtime_db" where
  "delete_lease resource db = db\<lparr>db_leases := filter (\<lambda>r. dl_resource_key r \<noteq> resource) (db_leases db)\<rparr>"

text \<open>\<open>INSERT INTO dispatch_leases\<close> under a fresh fencing token.\<close>

definition insert_lease :: "string \<Rightarrow> string \<Rightarrow> int \<Rightarrow> int \<Rightarrow> runtime_db \<Rightarrow> dispatch_permit \<times> runtime_db" where
  "insert_lease resource run now ttl db =
     (let db1 = bump_fencing db;
          row = \<lparr>dl_resource_key = resource, dl_run_id = run, dl_fencing_token = db_fencing_counter db1,
                 dl_acquired_at = now, dl_expires_at = now + seconds ttl\<rparr>
      in (permit_of_lease row, db1\<lparr>db_leases := db_leases db1 @ [row]\<rparr>))"

definition acquire :: "env \<Rightarrow> string \<Rightarrow> string \<Rightarrow> int \<Rightarrow> runtime_db \<Rightarrow> dispatch_permit result \<times> runtime_db" where
  "acquire e resource_key run_id ttl db =
     commit_result db
       (ebind (chk_non_empty resource_key) (\<lambda>resource.
        ebind (chk_uuid4_lower run_id) (\<lambda>run.
        ebind (chk_range ttl 86400) (\<lambda>ttl.
          let now = clk e 0 in
          case find_lease resource db of
            None \<Rightarrow> Inr (insert_lease resource run now ttl db)
          | Some row \<Rightarrow>
              if dl_expires_at row \<le> now then Inr (insert_lease resource run now ttl (delete_lease resource db))
              else if dl_run_id row = run then Inr (permit_of_lease row, db)
              else Inl (LeaseError Lease_Held_By_Other)))))"

definition renew_lease ::
  "env \<Rightarrow> string \<Rightarrow> string \<Rightarrow> int \<Rightarrow> int \<Rightarrow> runtime_db \<Rightarrow> dispatch_permit result \<times> runtime_db" where
  "renew_lease e resource_key run_id token ttl db =
     commit_result db
       (ebind (chk_non_empty resource_key) (\<lambda>resource.
        ebind (chk_uuid4_lower run_id) (\<lambda>run.
        ebind (chk_range ttl 86400) (\<lambda>ttl.
          let now = clk e 0 in
          case find_lease resource db of
            None \<Rightarrow> Inl (LeaseError Lease_Holder_Invalid)
          | Some row \<Rightarrow>
              if dl_run_id row \<noteq> run \<or> dl_fencing_token row \<noteq> token \<or> dl_expires_at row \<le> now
              then Inl (LeaseError Lease_Holder_Invalid)
              else
                Inr (\<lparr>dp_resource_key = resource, dp_run_id = run, dp_fencing_token = token,
                      dp_acquired_at = dl_acquired_at row, dp_expires_at = now + seconds ttl\<rparr>,
                     db\<lparr>db_leases := update_rows (\<lambda>r. dl_resource_key r = resource)
                          (\<lambda>r. r\<lparr>dl_expires_at := now + seconds ttl\<rparr>) (db_leases db)\<rparr>)))))"

definition release_lease :: "string \<Rightarrow> string \<Rightarrow> int \<Rightarrow> runtime_db \<Rightarrow> bool result \<times> runtime_db" where
  "release_lease resource_key run_id token db =
     commit_result db
       (ebind (chk_non_empty resource_key) (\<lambda>resource.
        ebind (chk_uuid4_lower run_id) (\<lambda>run.
          case find_lease resource db of
            None \<Rightarrow> Inl (LeaseError Lease_Holder_Invalid)
          | Some row \<Rightarrow>
              if dl_run_id row \<noteq> run \<or> dl_fencing_token row \<noteq> token
              then Inl (LeaseError Lease_Holder_Invalid)
              else Inr (True, delete_lease resource db))))"

text \<open>\<open>WHERE run_id = ? ORDER BY resource_key\<close>.\<close>

definition leases_of_run :: "string \<Rightarrow> runtime_db \<Rightarrow> lease_row list" where
  "leases_of_run run db = sort_key dl_resource_key (filter (\<lambda>r. dl_run_id r = run) (db_leases db))"

definition list_for_run :: "string \<Rightarrow> runtime_db \<Rightarrow> dispatch_permit list result" where
  "list_for_run run_id db =
     ebind (chk_uuid4_lower run_id) (\<lambda>run. Inr (map permit_of_lease (leases_of_run run db)))"

definition reap_expired_for_run :: "env \<Rightarrow> string \<Rightarrow> runtime_db \<Rightarrow> dispatch_permit list result \<times> runtime_db" where
  "reap_expired_for_run e run_id db =
     commit_result db
       (ebind (chk_uuid4_lower run_id) (\<lambda>run.
          let now = clk e 0; rows = leases_of_run run db in
          if list_ex (\<lambda>r. now < dl_expires_at r) rows then Inl (LeaseError Lease_Not_Expired)
          else Inr (map permit_of_lease rows,
                    db\<lparr>db_leases := filter (\<lambda>r. dl_run_id r \<noteq> run) (db_leases db)\<rparr>)))"

definition read_lease :: "string \<Rightarrow> runtime_db \<Rightarrow> dispatch_permit option result" where
  "read_lease resource_key db =
     ebind (chk_non_empty resource_key) (\<lambda>resource. Inr (map_option permit_of_lease (find_lease resource db)))"

section \<open>The admission gate\<close>

definition gate_query :: "dispatch_context \<Rightarrow> string \<Rightarrow> string \<Rightarrow> authority_query" where
  "gate_query c provider task_type =
     \<lparr>aq_provider_id = provider, aq_plane = plane_value (dc_plane c), aq_task_type = task_type,
      aq_batch_id = dc_batch_id c, aq_member_digest = dc_member_digest c,
      aq_tier_digest = dc_provider_tier_binding_digest c, aq_project_digest = dc_project_binding_digest c,
      aq_lane = dc_admission_lane c, aq_policy_digest = dc_provider_admission_policy_digest c,
      aq_target_digest = None, aq_circuit_digest = None\<rparr>"

text \<open>
  \<open>AdmissionGate.admit\<close> is three transactions: the authority is verified in the database \<open>seen\<close>, the
  lease is acquired in \<open>db\<close>, the authority is verified again, and the lease is released when it
  no longer holds. Other processes run between them: \<open>between\<close> is what they do to the database
  after the acquisition, \<open>later\<close> what they do after the second verification.
\<close>

definition admit ::
  "env \<Rightarrow> dispatch_context \<Rightarrow> string \<Rightarrow> string \<Rightarrow> string \<Rightarrow> int
     \<Rightarrow> (runtime_db \<Rightarrow> runtime_db) \<Rightarrow> (runtime_db \<Rightarrow> runtime_db) \<Rightarrow> runtime_db \<Rightarrow> runtime_db
     \<Rightarrow> dispatch_permit result \<times> runtime_db" where
  "admit e c resource provider task_type ttl between later seen db =
     (case verify (sha e) (clk e 0) (dc_authorization c) (gate_query c provider task_type) seen of
        Inl err \<Rightarrow> (Inl err, db)
      | Inr _ \<Rightarrow>
          (case acquire (e\<lparr>clk := \<lambda>i. clk e (i + 1)\<rparr>) resource (dc_run_id c) ttl db of
             (Inl err, db1) \<Rightarrow> (Inl err, db1)
           | (Inr permit, db1) \<Rightarrow>
               (let db2 = between db1 in
                case verify (sha e) (clk e 2) (dc_authorization c) (gate_query c provider task_type) db2 of
                  Inr _ \<Rightarrow> (Inr permit, db2)
                | Inl (AuthError why) \<Rightarrow>
                    (case release_lease (dp_resource_key permit) (dp_run_id permit) (dp_fencing_token permit) (later db2) of
                       (Inl err, db3) \<Rightarrow> (Inl err, db3)
                     | (Inr _, db3) \<Rightarrow> (Inl (AuthError why), db3))
                | Inl err \<Rightarrow> (Inl err, db2))))"

end
