(* ===== verification/FencedTokens.thy ===== *)
theory FencedTokens
  imports RuntimeDb "HOL-Library.Multiset"
begin

text \<open>
  Fencing tokens: the contract of a table whose rows hold tokens drawn from a counter, stated once for all
  stores, and how the tokens of a table change under the updates they use.
\<close>

section \<open>Fenced tables\<close>

lemma distinct_submset: "mset xs \<subseteq># mset ys \<Longrightarrow> distinct ys \<Longrightarrow> distinct xs"
proof -
  assume m: "mset xs \<subseteq># mset ys" and d: "distinct ys"
  from m obtain M where "mset ys = mset xs + M" unfolding mset_subset_eq_exists_conv by blast
  moreover obtain zs where "M = mset zs" using ex_mset by metis
  ultimately have "mset ys = mset (xs @ zs)" by simp
  then show ?thesis using d by (metis mset_eq_imp_distinct_iff distinct_append)
qed

text \<open>
  Dispatch leases, target leases and queue claims draw their tokens from one counter, the leases on
  agent runs from another. The contract
  of such a table: a step keeps or drops tokens, or adds the one value that the counter has just
  reached. Then tokens are unique, and a token that was dropped never comes back.
\<close>

locale fenced_table =
  fixes counter :: "'s \<Rightarrow> int"
    and tokens :: "'s \<Rightarrow> int list"
    and step :: "'s \<Rightarrow> 's \<Rightarrow> bool"
  assumes fenced_step: "step s t \<Longrightarrow> counter s \<le> counter t \<and> (mset (tokens t) \<subseteq># mset (tokens s)
    \<or> counter s < counter t \<and> mset (tokens t) \<subseteq># add_mset (counter t) (mset (tokens s)))"
begin

definition fenced :: "'s \<Rightarrow> bool" where
  "fenced s \<longleftrightarrow> distinct (tokens s) \<and> (\<forall>n \<in> set (tokens s). n \<le> counter s)"

lemma counter_steps: "step\<^sup>*\<^sup>* s t \<Longrightarrow> counter s \<le> counter t"
  by (induction rule: rtranclp_induct) (use fenced_step in force)+

lemma step_tokens: "step s t \<Longrightarrow> set (tokens t) \<subseteq> set (tokens s) \<union> {n. counter s < n \<and> n = counter t}"
  using fenced_step [of s t] by (auto dest: mset_subset_eqD simp flip: set_mset_mset)

lemma step_fenced: "fenced s \<Longrightarrow> step s t \<Longrightarrow> fenced t"
proof -
  assume f: "fenced s" and st: "step s t"
  have b: "\<forall>n \<in> set (tokens t). n \<le> counter t"
    using step_tokens [OF st] f fenced_step [OF st] by (fastforce simp: fenced_def)
  from fenced_step [OF st] show "fenced t"
  proof (elim conjE disjE)
    assume "mset (tokens t) \<subseteq># mset (tokens s)"
    with distinct_submset [of "tokens t" "tokens s"] f b show ?thesis by (simp add: fenced_def)
  next
    assume c: "counter s < counter t" and m: "mset (tokens t) \<subseteq># add_mset (counter t) (mset (tokens s))"
    have "distinct (counter t # tokens s)" using f c by (force simp: fenced_def)
    with distinct_submset [of "tokens t" "counter t # tokens s"] m b show ?thesis by (simp add: fenced_def)
  qed
qed

lemma steps_fenced: "step\<^sup>*\<^sup>* s t \<Longrightarrow> fenced s \<Longrightarrow> fenced t"
  by (induction rule: rtranclp_induct) (auto intro: step_fenced)

lemma retired_token: "step\<^sup>*\<^sup>* s t \<Longrightarrow> n \<le> counter s \<Longrightarrow> n \<notin> set (tokens s) \<Longrightarrow> n \<notin> set (tokens t)"
proof (induction rule: rtranclp_induct)
  case (step t u)
  with step_tokens [OF step.hyps(2)] counter_steps [OF step.hyps(1)] show ?case by auto
qed

end

section \<open>Updates of a table\<close>

lemma tokens_fewer:
  assumes "\<And>r. r \<in> set rs \<Longrightarrow> sel r \<Longrightarrow> g (f r) = g r \<or> g (f r) = None"
  shows "mset (List.map_filter g (update_rows sel f rs)) \<subseteq># mset (List.map_filter g rs)"
  using assms
proof (induction rs)
  case (Cons r rs)
  then have ih: "mset (List.map_filter g (update_rows sel f rs)) \<subseteq># mset (List.map_filter g rs)" by simp
  show ?case
  proof (cases "sel r \<and> g (f r) = None")
    case True
    with ih subset_mset.order_trans [OF ih, of "add_mset (the (g r)) (mset (List.map_filter g rs))"] show ?thesis
      by (cases "g r") (simp_all add: List.map_filter_simps)
  next
    case False
    with Cons.prems [of r] have "g (if sel r then f r else r) = g r" by auto
    with ih show ?thesis by (simp add: List.map_filter_simps split: option.splits)
  qed
qed simp

lemma one_new_token:
  assumes "count_rows sel rs \<le> 1" "\<And>r. g (f r) = Some n"
  shows "mset (List.map_filter g (update_rows sel f rs)) \<subseteq># add_mset n (mset (List.map_filter g rs))"
  using assms(1)
proof (induction rs)
  case (Cons r rs)
  show ?case
  proof (cases "sel r")
    case True
    with Cons.prems have "\<forall>x \<in> set rs. \<not> sel x" by (simp add: count_rows_0)
    then have "update_rows sel f rs = rs" by (intro update_rows_id) auto
    with True assms(2) show ?thesis by (simp add: List.map_filter_simps split: option.splits)
  next
    case False
    with Cons have ih: "mset (List.map_filter g (update_rows sel f rs)) \<subseteq># add_mset n (mset (List.map_filter g rs))" by simp
    show ?thesis
    proof (cases "g r")
      case None
      with False ih show ?thesis by (simp add: List.map_filter_simps)
    next
      case (Some t)
      have "add_mset t (mset (List.map_filter g (update_rows sel f rs))) \<subseteq># add_mset n (add_mset t (mset (List.map_filter g rs)))"
        using ih by (simp add: add_mset_commute)
      with Some False show ?thesis by (simp add: List.map_filter_simps)
    qed
  qed
qed simp

end
