(* ===== verification/DispatchProps.thy ===== *)
theory DispatchProps
  imports Dispatch FencedTokens
begin

text \<open>
  Correctness of the dispatch leases: one holder per resource, fencing tokens that only grow, a
  superseded holder that can do nothing any more, and an admission gate that hands out a lease only
  under a live authority.
\<close>

section \<open>Lease operations\<close>

text \<open>An operation on the leases, by the run that calls it and at the time it reads; \<open>elsewhere\<close> is
  any operation of another component.\<close>

inductive lease_act :: "string \<Rightarrow> int \<Rightarrow> runtime_db \<Rightarrow> runtime_db \<Rightarrow> bool" where
  acquires: "acquire e resource run ttl db = (res, db') \<Longrightarrow> lease_act (lower run) (clk e 0) db db'"
| renews: "renew_lease e resource run token ttl db = (res, db') \<Longrightarrow> lease_act (lower run) (clk e 0) db db'"
| releases: "release_lease resource run token db = (bres, db') \<Longrightarrow> lease_act (lower run) now db db'"
| reaps: "reap_expired_for_run e run db = (lres, db') \<Longrightarrow> lease_act (lower run) (clk e 0) db db'"
| elsewhere: "db_leases db' = db_leases db \<Longrightarrow> db_fencing_counter db \<le> db_fencing_counter db' \<Longrightarrow> lease_act run now db db'"

definition lease_step :: "runtime_db \<Rightarrow> runtime_db \<Rightarrow> bool" where
  "lease_step db db' \<longleftrightarrow> (\<exists>run now. lease_act run now db db')"

lemma find_lease_Some: "find_lease resource db = Some row \<Longrightarrow> row \<in> set (db_leases db) \<and> dl_resource_key row = resource"
  unfolding find_lease_def by (drule lookup_row_Some) simp

lemma find_lease_None: "find_lease resource db = None \<longleftrightarrow> (\<forall>row \<in> set (db_leases db). dl_resource_key row \<noteq> resource)"
  by (simp add: find_lease_def lookup_row_None)

text \<open>What a new lease is, and how \<open>acquire\<close> ends.\<close>

definition new_lease :: "string \<Rightarrow> string \<Rightarrow> int \<Rightarrow> int \<Rightarrow> runtime_db \<Rightarrow> lease_row" where
  "new_lease resource run now ttl db =
     \<lparr>dl_resource_key = resource, dl_run_id = run, dl_fencing_token = db_fencing_counter db + 1,
      dl_acquired_at = now, dl_expires_at = now + seconds ttl\<rparr>"

lemma insert_lease_eq:
  "insert_lease resource run now ttl db = (permit_of_lease (new_lease resource run now ttl db),
     (bump_fencing db)\<lparr>db_leases := db_leases db @ [new_lease resource run now ttl db]\<rparr>)"
  by (simp add: insert_lease_def Let_def new_lease_def)

lemma acquire_cases:
  assumes "acquire e resource run ttl db = (res, db')"
  obtains (refused) err where "res = Inl err" "db' = db"
  | (again) row where "find_lease (strip resource) db = Some row" "dl_run_id row = lower run" "clk e 0 < dl_expires_at row"
      "res = Inr (permit_of_lease row)" "db' = db"
  | (granted) row where "row = new_lease (strip resource) (lower run) (clk e 0) ttl db" "res = Inr (permit_of_lease row)"
      "db' = (bump_fencing (delete_lease (strip resource) db))\<lparr>db_leases :=
         db_leases (delete_lease (strip resource) db) @ [row]\<rparr>" "1 \<le> ttl" "is_uuid4 (lower run)" "strip resource \<noteq> []"
      "\<forall>r \<in> set (db_leases db). dl_resource_key r = strip resource \<longrightarrow> find_lease (strip resource) db \<noteq> None
         \<and> dl_expires_at (the (find_lease (strip resource) db)) \<le> clk e 0"
proof (cases res)
  case (Inl err)
  then have "db' = db" using assms by (auto simp: acquire_def commit_result_def split: sum.splits)
  with Inl show thesis by (rule refused)
next
  case (Inr p)
  let ?r = "strip resource"
  have c: "is_uuid4 (lower run)" "1 \<le> ttl" "?r \<noteq> []" and
    m: "(case find_lease ?r db of
            None \<Rightarrow> Inr (insert_lease ?r (lower run) (clk e 0) ttl db)
          | Some row \<Rightarrow>
              if dl_expires_at row \<le> clk e 0 then Inr (insert_lease ?r (lower run) (clk e 0) ttl (delete_lease ?r db))
              else if dl_run_id row = lower run then Inr (permit_of_lease row, db)
              else Inl (LeaseError Lease_Held_By_Other)) = Inr (p, db')"
    using assms Inr
    by (auto simp: acquire_def commit_result_def chk_uuid4_lower_def Let_def result_simps dest!: chk_non_empty_Inr split: sum.splits)
  have d: "new_lease ?r (lower run) (clk e 0) ttl (delete_lease ?r db) = new_lease ?r (lower run) (clk e 0) ttl db"
    by (simp add: new_lease_def delete_lease_def)
  show thesis
  proof (cases "find_lease ?r db")
    case None
    then have n: "\<forall>row \<in> set (db_leases db). dl_resource_key row \<noteq> ?r" by (simp add: find_lease_None)
    then have "delete_lease ?r db = db" by (simp add: delete_lease_def)
    with None m c Inr n show thesis by (intro granted) (auto simp: insert_lease_eq)
  next
    case (Some row)
    show thesis
    proof (cases "dl_expires_at row \<le> clk e 0")
      case True
      with Some m c Inr show thesis by (intro granted) (auto simp: insert_lease_eq d)
    next
      case False
      with Some m Inr show thesis by (intro again [of row]) (auto split: if_splits)
    qed
  qed
qed

lemma renew_cases:
  assumes "renew_lease e resource run token ttl db = (res, db')"
  obtains (refused) err where "res = Inl err" "db' = db"
  | (renewed) row p where "find_lease (strip resource) db = Some row" "dl_run_id row = lower run" "dl_fencing_token row = token"
      "clk e 0 < dl_expires_at row" "res = Inr p" "dp_fencing_token p = token"
      "db' = db\<lparr>db_leases := update_rows (\<lambda>r. dl_resource_key r = strip resource)
          (\<lambda>r. r\<lparr>dl_expires_at := clk e 0 + seconds ttl\<rparr>) (db_leases db)\<rparr>"
proof (cases res)
  case (Inl err)
  then have "db' = db" using assms by (auto simp: renew_lease_def commit_result_def split: sum.splits)
  with Inl show thesis by (rule refused)
next
  case (Inr p)
  have m: "(case find_lease (strip resource) db of
            None \<Rightarrow> Inl (LeaseError Lease_Holder_Invalid)
          | Some row \<Rightarrow>
              if dl_run_id row \<noteq> lower run \<or> dl_fencing_token row \<noteq> token \<or> dl_expires_at row \<le> clk e 0
              then Inl (LeaseError Lease_Holder_Invalid)
              else
                Inr (\<lparr>dp_resource_key = strip resource, dp_run_id = lower run, dp_fencing_token = token,
                      dp_acquired_at = dl_acquired_at row, dp_expires_at = clk e 0 + seconds ttl\<rparr>,
                     db\<lparr>db_leases := update_rows (\<lambda>r. dl_resource_key r = strip resource)
                          (\<lambda>r. r\<lparr>dl_expires_at := clk e 0 + seconds ttl\<rparr>) (db_leases db)\<rparr>)) = Inr (p, db')"
    using assms Inr
    by (auto simp: renew_lease_def commit_result_def chk_uuid4_lower_def Let_def result_simps dest!: chk_non_empty_Inr
        split: sum.splits)
  then obtain row where "find_lease (strip resource) db = Some row" by (cases "find_lease (strip resource) db") simp_all
  with m Inr show thesis by (intro renewed [of row p]) (auto split: if_splits)
qed

lemma release_cases:
  assumes "release_lease resource run token db = (res, db')"
  obtains (refused) err where "res = Inl err" "db' = db" "\<And>why. err \<noteq> AuthError why"
  | (released) row where "find_lease (strip resource) db = Some row" "dl_run_id row = lower run"
      "dl_fencing_token row = token" "res = Inr True" "db' = delete_lease (strip resource) db"
proof (cases res)
  case (Inl err)
  with assms have "db' = db" "err \<noteq> AuthError why" for why
    by (auto simp: release_lease_def commit_result_def chk_uuid4_lower_def chk_uuid4_def chk_non_empty_def
        split: sum.splits option.splits if_splits)
  with Inl show thesis by (intro refused)
next
  case (Inr p)
  show thesis
    using assms Inr
    by (auto simp: release_lease_def commit_result_def chk_uuid4_lower_def Let_def result_simps
        dest!: chk_non_empty_Inr split: sum.splits option.splits if_splits intro: released)
qed

lemma reap_cases:
  assumes "reap_expired_for_run e run db = (res, db')"
  obtains (refused) err where "res = Inl err" "db' = db"
  | (reaped) "\<forall>r \<in> set (db_leases db). dl_run_id r = lower run \<longrightarrow> dl_expires_at r \<le> clk e 0"
      "res = Inr (map permit_of_lease (leases_of_run (lower run) db))"
      "db' = db\<lparr>db_leases := filter (\<lambda>r. dl_run_id r \<noteq> lower run) (db_leases db)\<rparr>"
proof (cases res)
  case (Inl err)
  then have "db' = db" using assms by (auto simp: reap_expired_for_run_def commit_result_def split: sum.splits)
  with Inl show thesis by (rule refused)
next
  case (Inr p)
  have "\<forall>r \<in> set (leases_of_run (lower run) db). dl_expires_at r \<le> clk e 0" "p = map permit_of_lease (leases_of_run (lower run) db)"
    "db' = db\<lparr>db_leases := filter (\<lambda>r. dl_run_id r \<noteq> lower run) (db_leases db)\<rparr>"
    using assms Inr
    by (auto simp: reap_expired_for_run_def commit_result_def chk_uuid4_lower_def Let_def result_simps list_ex_iff not_less
        split: sum.splits if_splits)
  with Inr show thesis by (intro reaped) (auto simp: leases_of_run_def)
qed

text \<open>Every act, in terms of the table: some rows go, one row may be fresh, and expiries of one
  resource may move.\<close>

lemma lease_act_rows:
  assumes "lease_act run now db db'"
  shows "db_fencing_counter db \<le> db_fencing_counter db'
    \<and> (\<forall>r' \<in> set (db_leases db'). (\<exists>r \<in> set (db_leases db). dl_resource_key r' = dl_resource_key r
          \<and> dl_run_id r' = dl_run_id r \<and> dl_fencing_token r' = dl_fencing_token r)
        \<or> dl_fencing_token r' = db_fencing_counter db + 1 \<and> db_fencing_counter db' = db_fencing_counter db + 1 \<and> dl_run_id r' = run)"
  using assms
proof cases
  case (acquires e resource run ttl res)
  from acquires(3) show ?thesis
    by (cases rule: acquire_cases) (auto simp: delete_lease_def new_lease_def acquires(1))
next
  case (renews e resource run token ttl res)
  from renews(3) show ?thesis by (cases rule: renew_cases) (auto simp: set_update_rows, metis)
next
  case (releases resource run token bres)
  from releases(2) show ?thesis by (cases rule: release_cases) (auto simp: delete_lease_def)
next
  case (reaps e run lres)
  from reaps(3) show ?thesis by (cases rule: reap_cases) auto
qed auto

definition lease_tokens :: "runtime_db \<Rightarrow> int list" where
  "lease_tokens db = map dl_fencing_token (db_leases db)"

lemma mset_map_filter: "mset (map f (filter P xs)) \<subseteq># mset (map f xs)"
  by (simp add: image_mset_subseteq_mono multiset_filter_subset)

lemma lease_act_fenced:
  assumes "lease_act run now db db'"
  shows "db_fencing_counter db \<le> db_fencing_counter db' \<and> (mset (lease_tokens db') \<subseteq># mset (lease_tokens db)
    \<or> db_fencing_counter db < db_fencing_counter db'
      \<and> mset (lease_tokens db') \<subseteq># add_mset (db_fencing_counter db') (mset (lease_tokens db)))"
  using assms
proof cases
  case (acquires e resource run ttl res)
  from acquires(3) show ?thesis
    by (cases rule: acquire_cases) (use mset_map_filter in \<open>auto simp: lease_tokens_def delete_lease_def new_lease_def\<close>)
next
  case (renews e resource run token ttl res)
  from renews(3) show ?thesis by (cases rule: renew_cases) (auto simp: lease_tokens_def map_update_rows)
next
  case (releases resource run token bres)
  from releases(2) show ?thesis by (cases rule: release_cases) (auto simp: lease_tokens_def delete_lease_def mset_map_filter simp del: mset_map)
next
  case (reaps e run lres)
  from reaps(3) show ?thesis by (cases rule: reap_cases) (auto simp: lease_tokens_def mset_map_filter simp del: mset_map)
qed (auto simp: lease_tokens_def)

interpretation leases: fenced_table db_fencing_counter lease_tokens lease_step
  by unfold_locales (auto simp: lease_step_def dest!: lease_act_fenced)

text \<open>The table is keyed by resource.\<close>

definition lease_keys_ok :: "runtime_db \<Rightarrow> bool" where
  "lease_keys_ok db \<longleftrightarrow> distinct (map dl_resource_key (db_leases db)) \<and> leases.fenced db"

lemma lease_keys_act:
  assumes "distinct (map dl_resource_key (db_leases db))" "lease_act run now db db'"
  shows "distinct (map dl_resource_key (db_leases db'))"
  using assms(2)
proof cases
  case (acquires e resource run ttl res)
  from acquires(3) show ?thesis
    by (cases rule: acquire_cases) (use assms(1) in \<open>auto simp: delete_lease_def new_lease_def distinct_map_filter\<close>)
next
  case (renews e resource run token ttl res)
  from renews(3) show ?thesis by (cases rule: renew_cases) (use assms(1) in \<open>auto simp: map_update_rows\<close>)
next
  case (releases resource run token bres)
  from releases(2) show ?thesis by (cases rule: release_cases) (use assms(1) in \<open>auto simp: delete_lease_def distinct_map_filter\<close>)
next
  case (reaps e run lres)
  from reaps(3) show ?thesis by (cases rule: reap_cases) (use assms(1) in \<open>auto simp: distinct_map_filter\<close>)
qed (use assms(1) in auto)

lemma lease_step_keys: "lease_keys_ok db \<Longrightarrow> lease_step db db' \<Longrightarrow> lease_keys_ok db'"
  using leases.step_fenced lease_keys_act unfolding lease_keys_ok_def lease_step_def by blast

interpretation lease_steps: step_system "\<lambda>db. db = initial_db" lease_step lease_keys_ok
  by unfold_locales (simp add: lease_keys_ok_def initial_db_def leases.fenced_def lease_tokens_def, rule lease_step_keys)

section \<open>One holder per resource\<close>

lemma find_lease_row:
  assumes "distinct (map dl_resource_key (db_leases db))" "row \<in> set (db_leases db)"
  shows "find_lease (dl_resource_key row) db = Some row"
  using assms unfolding find_lease_def by (intro lookup_row_unique) simp_all

text \<open>What others do while a lease is live does not touch it.\<close>

lemma lease_kept:
  assumes "lease_keys_ok db" "row \<in> set (db_leases db)" "lease_act other now db db'" "other \<noteq> dl_run_id row"
    and "now < dl_expires_at row"
  shows "row \<in> set (db_leases db')"
proof -
  have f: "find_lease (dl_resource_key row) db = Some row"
    using assms(1,2) by (intro find_lease_row) (simp_all add: lease_keys_ok_def)
  from assms(3) show ?thesis
  proof cases
    case (acquires e resource run ttl res)
    from acquires(3) show ?thesis
    proof (cases rule: acquire_cases)
      case (granted new)
      then have "dl_resource_key row \<noteq> strip resource" using f assms(2,5) acquires(2) by force
      with granted assms(2) show ?thesis by (simp add: delete_lease_def)
    qed (use assms(2) in auto)
  next
    case (renews e resource run token ttl res)
    from renews(3) show ?thesis
    proof (cases rule: renew_cases)
      case (renewed row')
      then have "dl_resource_key row \<noteq> strip resource" using f assms(4) renews(1) by force
      with renewed(7) assms(2) show ?thesis by (force simp: set_update_rows)
    qed (use assms(2) in auto)
  next
    case (releases resource run token bres)
    from releases(2) show ?thesis
    proof (cases rule: release_cases)
      case (released row')
      then have "dl_resource_key row \<noteq> strip resource" using f assms(4) releases(1) by force
      with released(5) assms(2) show ?thesis by (simp add: delete_lease_def)
    qed (use assms(2) in auto)
  next
    case (reaps e run lres)
    from reaps(3) show ?thesis by (cases rule: reap_cases) (use assms(2,4) reaps(1) in auto)
  qed (use assms(2) in auto)
qed

definition others_act :: "string \<Rightarrow> int \<Rightarrow> runtime_db \<Rightarrow> runtime_db \<Rightarrow> bool" where
  "others_act run until db db' \<longleftrightarrow> (\<exists>other now. lease_act other now db db' \<and> other \<noteq> run \<and> now < until)"

lemma others_step: "others_act run until db db' \<Longrightarrow> lease_step db db'"
  by (auto simp: others_act_def lease_step_def)

lemma others_steps: "(others_act run until)\<^sup>*\<^sup>* db db' \<Longrightarrow> lease_step\<^sup>*\<^sup>* db db'"
  by (rule rtranclp_mono [THEN predicate2D]) (auto intro: others_step)

lemma lease_kept_steps:
  assumes "(others_act (dl_run_id row) (dl_expires_at row))\<^sup>*\<^sup>* db db'" "lease_keys_ok db" "row \<in> set (db_leases db)"
  shows "row \<in> set (db_leases db')"
  using assms(1)
proof (induction rule: rtranclp_induct)
  case (step t u)
  have "lease_keys_ok t" using lease_steps.steps_inv [OF others_steps [OF step.hyps(1)] assms(2)] .
  with step.hyps(2) step.IH show ?case unfolding others_act_def by (blast intro: lease_kept)
qed (rule assms(3))

lemma acquired_row:
  assumes "lease_keys_ok db" "acquire e resource run ttl db = (Inr p, db')"
  obtains row where "row \<in> set (db_leases db')" "permit_of_lease row = p" "dl_resource_key row = strip resource"
    "dl_run_id row = lower run" "clk e 0 < dl_expires_at row" "lease_keys_ok db'"
proof -
  have k: "lease_keys_ok db'"
    using lease_step_keys [OF assms(1)] lease_act.acquires [OF assms(2)] unfolding lease_step_def by blast
  from assms(2) show thesis
  proof (cases rule: acquire_cases)
    case (again row)
    then show thesis using that [of row] find_lease_Some [of "strip resource" db row] k by simp
  next
    case (granted row)
    then show thesis using that [of row] k by (simp add: new_lease_def seconds_def)
  qed simp
qed

text \<open>C14. A resource has one holder: after \<open>acquire\<close> returned a permit, and whatever the other runs do
  before it expires, the lease is still the holder's and no other run can acquire the resource.\<close>

theorem lease_is_exclusive:
  assumes "lease_step\<^sup>*\<^sup>* initial_db db" and "acquire e resource run ttl db = (Inr p, db1)"
    and "(others_act (lower run) (dp_expires_at p))\<^sup>*\<^sup>* db1 db2"
    and "lower run' \<noteq> lower run" "clk e' 0 < dp_expires_at p"
  shows "read_lease resource db2 = Inr (Some p) \<and> (\<exists>err. acquire e' resource run' ttl' db2 = (Inl err, db2))"
proof -
  obtain row where row: "row \<in> set (db_leases db1)" "permit_of_lease row = p" "dl_resource_key row = strip resource"
    "dl_run_id row = lower run" "lease_keys_ok db1"
    by (rule acquired_row [OF lease_steps.reachable_inv [OF refl assms(1)] assms(2)])
  have x: "dl_expires_at row = dp_expires_at p" using row(2) by (auto simp: permit_of_lease_def)
  have kept: "row \<in> set (db_leases db2)"
    by (rule lease_kept_steps [of row db1 db2, unfolded row(4) x, OF assms(3) row(5,1)])
  have "lease_keys_ok db2" using lease_steps.steps_inv [OF others_steps [OF assms(3)] row(5)] .
  then have f: "find_lease (strip resource) db2 = Some row"
    using find_lease_row [of db2 row] kept row(3) by (simp add: lease_keys_ok_def)
  have "\<exists>err. acquire e' resource run' ttl' db2 = (Inl err, db2)"
  proof (cases "acquire e' resource run' ttl' db2")
    case (Pair res db3)
    from Pair show ?thesis
      by (cases rule: acquire_cases) (use Pair f assms(4,5) row kept x in auto)
  qed
  moreover have "strip resource \<noteq> []"
    using assms(2) by (auto simp: acquire_def commit_result_def result_simps dest!: chk_non_empty_Inr split: sum.splits)
  ultimately show ?thesis using f row(2) by (simp add: read_lease_def chk_non_empty_def)
qed

section \<open>A superseded holder\<close>

definition superseded :: "string \<Rightarrow> int \<Rightarrow> runtime_db \<Rightarrow> bool" where
  "superseded resource token db \<longleftrightarrow> token \<le> db_fencing_counter db
     \<and> (\<forall>r \<in> set (db_leases db). dl_resource_key r = resource \<longrightarrow> token < dl_fencing_token r)"

lemma superseded_step: "superseded resource token db \<Longrightarrow> lease_step db db' \<Longrightarrow> superseded resource token db'"
  using lease_act_rows unfolding superseded_def lease_step_def by fastforce

lemma superseded_steps: "lease_step\<^sup>*\<^sup>* db db' \<Longrightarrow> superseded resource token db \<Longrightarrow> superseded resource token db'"
  by (induction rule: rtranclp_induct) (auto intro: superseded_step)

lemma superseded_refused:
  assumes "superseded (strip resource) token db"
  shows "\<not> is_ok (fst (renew_lease e resource run token ttl db))" "\<not> is_ok (fst (release_lease resource run token db))"
proof -
  have n: "dl_fencing_token row \<noteq> token" if "find_lease (strip resource) db = Some row" for row
    using assms find_lease_Some [OF that] by (auto simp: superseded_def)
  obtain x d y d' where x: "renew_lease e resource run token ttl db = (x, d)" "release_lease resource run token db = (y, d')"
    by (metis surj_pair)
  show "\<not> is_ok (fst (renew_lease e resource run token ttl db))"
    using x(1) by (cases rule: renew_cases) (use n x in auto)
  show "\<not> is_ok (fst (release_lease resource run token db))"
    using x(2) by (cases rule: release_cases) (use n x in auto)
qed

text \<open>Fencing: when another run holds the resource after the first, its token is strictly greater,
  and from then on the first holder can neither renew nor release with its old token, in any later
  state.\<close>

theorem superseded_holder_is_fenced:
  assumes "lease_step\<^sup>*\<^sup>* initial_db db" and "acquire e resource run ttl db = (Inr p, db1)"
    and "lease_step\<^sup>*\<^sup>* db1 db2" and "acquire e' resource run' ttl' db2 = (Inr p', db3)" "lower run' \<noteq> lower run"
    and "lease_step\<^sup>*\<^sup>* db3 db4"
  shows "dp_fencing_token p < dp_fencing_token p'
    \<and> \<not> is_ok (fst (renew_lease e2 resource run2 (dp_fencing_token p) ttl2 db4))
    \<and> \<not> is_ok (fst (release_lease resource run2 (dp_fencing_token p) db4))"
proof -
  obtain row where row: "row \<in> set (db_leases db1)" "permit_of_lease row = p" "dl_resource_key row = strip resource"
    "dl_run_id row = lower run" "lease_keys_ok db1"
    by (rule acquired_row [OF lease_steps.reachable_inv [OF refl assms(1)] assms(2)])
  define tok where "tok = dp_fencing_token p"
  have tk: "dl_fencing_token row = tok" using row(2) by (auto simp: permit_of_lease_def tok_def)
  define J where "J = (\<lambda>d :: runtime_db. tok \<le> db_fencing_counter d \<and> (\<forall>r \<in> set (db_leases d). dl_resource_key r = strip resource \<longrightarrow>
      dl_fencing_token r = tok \<and> dl_run_id r = lower run \<or> tok < dl_fencing_token r))"
  have only: "r = row" if "r \<in> set (db_leases db1)" "dl_resource_key r = strip resource" for r
    using key_unique [of dl_resource_key "db_leases db1" r row] that row by (simp add: lease_keys_ok_def)
  have "tok \<le> db_fencing_counter db1"
    using row(1,5) tk by (auto simp: lease_keys_ok_def leases.fenced_def lease_tokens_def)
  then have j1: "J db1" unfolding J_def using only tk row(4) by blast
  have step: "J t" if "J s" "lease_step s t" for s t
    using that lease_act_rows unfolding J_def lease_step_def by fastforce
  have "J db2" using assms(3) j1 by (induction rule: rtranclp_induct) (auto intro: step)
  moreover have "lease_step db2 db3" using lease_act.acquires [OF assms(4)] unfolding lease_step_def by blast
  ultimately have j3: "J db3" by (rule step)
  have k2: "lease_keys_ok db2" by (rule lease_steps.steps_inv [OF assms(3) row(5)])
  obtain row' where row': "row' \<in> set (db_leases db3)" "permit_of_lease row' = p'" "dl_resource_key row' = strip resource"
    "dl_run_id row' = lower run'" "lease_keys_ok db3"
    by (rule acquired_row [OF k2 assms(4)])
  have less: "tok < dl_fencing_token row'" using j3 row' assms(5) by (auto simp: J_def)
  have only': "r = row'" if "r \<in> set (db_leases db3)" "dl_resource_key r = strip resource" for r
    using key_unique [of dl_resource_key "db_leases db3" r row'] that row' by (simp add: lease_keys_ok_def)
  have "superseded (strip resource) tok db3"
    unfolding superseded_def using j3 only' less unfolding J_def by blast
  then have "superseded (strip resource) tok db4" by (rule superseded_steps [OF assms(6)])
  moreover have "dp_fencing_token p' = dl_fencing_token row'" using row'(2) by (auto simp: permit_of_lease_def)
  ultimately show ?thesis using superseded_refused less by (simp add: tok_def)
qed

section \<open>The gate\<close>

lemma permit_of_lease_simps [simp]:
  "dp_resource_key (permit_of_lease r) = dl_resource_key r" "dp_run_id (permit_of_lease r) = dl_run_id r"
  "dp_fencing_token (permit_of_lease r) = dl_fencing_token r" "dp_expires_at (permit_of_lease r) = dl_expires_at r"
  by (simp_all add: permit_of_lease_def)


lemma gate_cases:
  assumes "admit e c resource provider task_type ttl between later seen db = (res, db')"
  obtains (refused) err where "res = Inl err" "db' = db"
  | (unleased) err p db1 where "acquire (e\<lparr>clk := \<lambda>i. clk e (i + 1)\<rparr>) resource (dc_run_id c) ttl db = (Inr p, db1)"
      "res = Inl err" "db' = between db1" "\<And>why. err \<noteq> AuthError why"
  | (returned) why p db1 bres where "acquire (e\<lparr>clk := \<lambda>i. clk e (i + 1)\<rparr>) resource (dc_run_id c) ttl db = (Inr p, db1)"
      "release_lease (dp_resource_key p) (dp_run_id p) (dp_fencing_token p) (later (between db1)) = (bres, db')"
      "res = (case bres of Inl err \<Rightarrow> Inl err | Inr _ \<Rightarrow> Inl (AuthError why))"
  | (admitted) p db1 r where "acquire (e\<lparr>clk := \<lambda>i. clk e (i + 1)\<rparr>) resource (dc_run_id c) ttl db = (Inr p, db1)"
      "verify (sha e) (clk e 2) (dc_authorization c) (gate_query c provider task_type) (between db1) = Inr r"
      "res = Inr p" "db' = between db1"
proof (cases "verify (sha e) (clk e 0) (dc_authorization c) (gate_query c provider task_type) seen")
  case (Inl err)
  with assms show thesis by (intro refused) (auto simp: admit_def)
next
  case v: (Inr r)
  let ?e = "e\<lparr>clk := \<lambda>i. clk e (i + 1)\<rparr>"
  obtain ares db1 where a: "acquire ?e resource (dc_run_id c) ttl db = (ares, db1)" by (metis surj_pair)
  show thesis
  proof (cases ares)
    case (Inl err)
    have "db1 = db" using a Inl by (cases rule: acquire_cases) auto
    with Inl v a assms show thesis by (intro refused) (auto simp: admit_def)
  next
    case p: (Inr p)
    let ?v = "verify (sha e) (clk e 2) (dc_authorization c) (gate_query c provider task_type) (between db1)"
    show thesis
    proof (cases ?v)
      case (Inr r')
      with v a p assms show thesis by (intro admitted) (auto simp: admit_def Let_def)
    next
      case (Inl err)
      show thesis
      proof (cases "\<exists>why. err = AuthError why")
        case True
        then obtain why where w: "err = AuthError why" ..
        obtain bres db3 where rl: "release_lease (dp_resource_key p) (dp_run_id p) (dp_fencing_token p) (later (between db1)) = (bres, db3)"
          by (metis surj_pair)
        with v a p Inl w assms show thesis
          by (intro returned [of p db1 bres why]) (auto simp: admit_def Let_def split: sum.splits)
      next
        case False
        then have "db' = between db1" "res = Inl err"
          using v a p Inl assms by (auto simp: admit_def Let_def split: err.splits)
        with a p False show thesis by (intro unleased) auto
      qed
    qed
  qed
qed


text \<open>A refused admission keeps no lease: when the authority stopped holding while the lease was
  being acquired, the lease is given back, and otherwise the database is unchanged.\<close>

theorem refused_gate_keeps_no_lease:
  assumes "lease_step\<^sup>*\<^sup>* initial_db db"
    and "admit e c resource provider task_type ttl between later seen db = (Inl (AuthError why), db')"
  shows "db' = db \<or> find_lease (strip resource) db' = None"
  using assms(2)
proof (cases rule: gate_cases)
  case (returned w p db1 bres)
  obtain row where row: "row \<in> set (db_leases db1)" "permit_of_lease row = p" "dl_resource_key row = strip resource"
    "dl_run_id row = lower (dc_run_id c)" "clk e 1 < dl_expires_at row" "lease_keys_ok db1"
    using acquired_row [OF lease_steps.reachable_inv [OF refl assms(1)] returned(1)] by auto
  from returned(2) show ?thesis
  proof (cases rule: release_cases)
    case (refused err)
    with returned(3) show ?thesis by auto
  next
    case (released row')
    have "strip (strip resource) = strip resource" by simp
    with released(5) row(2,3) show ?thesis by (auto simp: find_lease_None delete_lease_def)
  qed
qed auto

section \<open>A concrete gate\<close>

definition gate_scope :: authority_scope where
  "gate_scope = example_scope\<lparr>sc_planes := [''delegation'']\<rparr>"

definition gate_row :: authority_row where
  "gate_row = issued_row example_env ''operator'' ''s'' gate_scope (seconds 60) initial_db"

definition gate_db :: runtime_db where
  "gate_db = initial_db\<lparr>db_authorities := [gate_row]\<rparr>"

definition gate_run :: string where
  "gate_run = ''00000000-0000-4000-8000-000000000007''"

definition other_run :: string where
  "other_run = ''00000000-0000-4000-8000-000000000008''"

definition gate_context :: dispatch_context where
  "gate_context = \<lparr>dc_run_id = gate_run, dc_plane = Delegation_Plane,
     dc_origin = \<lparr>do_host = ''h'', do_identifier_kind = ''k'', do_native_id = ''n''\<rparr>,
     dc_authorization = row_reference gate_row, dc_policy_snapshot_sha256 = replicate 64 (CHR ''a''),
     dc_batch_id = None, dc_member_digest = None, dc_relay_is_authorship = False, dc_plan_digest = None,
     dc_plan_revision = None, dc_role_slot_id = None, dc_route_id = None, dc_model_token_policy_digest = None,
     dc_provider_tier_binding_digest = None, dc_project_binding_digest = None, dc_admission_lane = None,
     dc_provider_admission_policy_digest = None\<rparr>"

lemma gate_text: "strip ''r'' = ''r''" "lower gate_run = gate_run" "is_uuid4 gate_run" "lower other_run = other_run"
    "is_uuid4 other_run" "gate_run \<noteq> other_run"
  by code_simp+

definition gate_lease :: lease_row where
  "gate_lease = new_lease ''r'' gate_run (seconds 1) 30 gate_db"

definition gate_leased :: runtime_db where
  "gate_leased = (bump_fencing gate_db)\<lparr>db_leases := [gate_lease]\<rparr>"


lemma gate_verifies:
  assumes "now < seconds 60"
  shows "verify example_sha now (row_reference gate_row) (gate_query gate_context ''p'' ''t'') gate_db = Inr (row_reference gate_row)"
proof -
  have n: "normal_scope gate_scope" unfolding normal_scope_def by code_simp
  have "chk_non_empty ''operator'' = Inr ''operator''" "chk_non_empty ''s'' = Inr ''s''" by code_simp+
  then have "issue example_env ''operator'' ''s'' gate_scope (Ts_Aware (seconds 60)) initial_db = (Inr (row_reference gate_row), gate_db)"
    unfolding gate_row_def gate_db_def
    by (subst issue_ok) (simp_all add: example_env_def example_sha_hex initial_db_def seconds_def)
  note i = this
  let ?q = "gate_query gate_context ''p'' ''t''"
  have q: "?q = example_query\<lparr>aq_plane := ''delegation''\<rparr>"
    by (simp add: gate_query_def gate_context_def example_query_def)
  have p: "permits gate_scope (?q\<lparr>aq_provider_id := strip (aq_provider_id ?q), aq_plane := strip (aq_plane ?q),
      aq_task_type := strip (aq_task_type ?q)\<rparr>)" "strip (aq_provider_id ?q) \<noteq> []" "strip (aq_plane ?q) \<noteq> []"
      "strip (aq_task_type ?q) \<noteq> []"
    unfolding q by code_simp+
  have "sha example_env = example_sha" by (simp add: example_env_def)
  show ?thesis
  proof -
    have f: "find_authority (row_reference gate_row) gate_db = Some gate_row"
      by (simp add: find_authority_def gate_db_def row_reference_def)
    show ?thesis
    proof (rule verify_complete [OF _ f])
      show "authorises example_sha now (row_reference gate_row) ?q gate_db"
        using f scope_round_trip [OF n] p(1) example_sha_hex assms
        by (auto simp: authorises_def gate_db_def gate_row_def issued_row_def Let_def row_reference_def
            initial_db_def example_env_def sha256_body_def)
      show "is_object (au_body_json gate_row)"
        by (simp add: gate_row_def issued_row_def Let_def authority_body_def is_object_def)
      show "body_scope_matches (au_body_json gate_row) scope"
        if "scope_from_dict (au_scope_json gate_row) = Inr scope" for scope
        using that scope_round_trip [OF n]
        by (simp add: gate_row_def issued_row_def Let_def body_scope_matches_issued)
    qed (use p in \<open>simp_all add: row_reference_def\<close>)
  qed
qed

lemma gate_acquire:
  assumes "clk e 0 = seconds 1"
  shows "acquire e ''r'' gate_run 30 gate_db = (Inr (permit_of_lease gate_lease), gate_leased)"
proof -
  have "db_leases gate_db = []" by (simp add: gate_db_def initial_db_def)
  with assms gate_text show ?thesis
    by (simp add: acquire_def chk_non_empty_def chk_uuid4_lower_def chk_uuid4_def chk_range_def find_lease_def insert_lease_eq
        commit_result_def gate_leased_def gate_lease_def Let_def)
qed


lemma gate_db_reachable: "lease_step\<^sup>*\<^sup>* initial_db gate_db"
proof -
  have "lease_act x 0 initial_db gate_db" for x by (rule lease_act.elsewhere) (simp_all add: gate_db_def)
  then show ?thesis unfolding lease_step_def by blast
qed

theorem lease_is_exclusive_witness:
  "\<exists>err. acquire (example_env\<lparr>clk := \<lambda>i. seconds 20\<rparr>) ''r'' other_run 30 gate_leased = (Inl err, gate_leased)"
proof -
  have a: "acquire (example_env\<lparr>clk := \<lambda>i. seconds 1\<rparr>) ''r'' gate_run 30 gate_db = (Inr (permit_of_lease gate_lease), gate_leased)"
    by (rule gate_acquire) simp
  show ?thesis
    using lease_is_exclusive [OF gate_db_reachable a rtranclp.rtrancl_refl, of other_run "example_env\<lparr>clk := \<lambda>i. seconds 20\<rparr>" 30]
      gate_text by (simp add: gate_lease_def new_lease_def seconds_def)
qed

theorem superseded_holder_is_fenced_witness:
  "let e = example_env\<lparr>clk := \<lambda>i. seconds 100\<rparr>; db = snd (acquire e ''r'' other_run 30 gate_leased)
   in \<not> is_ok (fst (release_lease ''r'' gate_run 1 db))"
proof -
  let ?e = "example_env\<lparr>clk := \<lambda>i. seconds 100\<rparr>"
  have a: "acquire (example_env\<lparr>clk := \<lambda>i. seconds 1\<rparr>) ''r'' gate_run 30 gate_db = (Inr (permit_of_lease gate_lease), gate_leased)"
    by (rule gate_acquire) simp
  have f: "find_lease ''r'' gate_leased = Some gate_lease" by (simp add: find_lease_def gate_leased_def gate_lease_def new_lease_def)
  have x: "dl_expires_at gate_lease \<le> seconds 100" by (simp add: gate_lease_def new_lease_def seconds_def)
  obtain p db' where b: "acquire ?e ''r'' other_run 30 gate_leased = (Inr p, db')"
    using gate_text x by (simp add: acquire_def chk_non_empty_def chk_uuid4_lower_def chk_uuid4_def chk_range_def f insert_lease_eq
        commit_result_def Let_def)
  have "dp_fencing_token (permit_of_lease gate_lease) = 1"
    by (simp add: gate_lease_def new_lease_def gate_db_def initial_db_def)
  with superseded_holder_is_fenced [OF gate_db_reachable a rtranclp.rtrancl_refl b _ rtranclp.rtrancl_refl] gate_text b
  show ?thesis by (simp add: Let_def)
qed


text \<open>The authority is revoked while the lease is being acquired.\<close>

definition gate_revoked :: "runtime_db \<Rightarrow> runtime_db" where
  "gate_revoked db = db\<lparr>db_authorities := [gate_row\<lparr>au_revoked_at := Some (seconds 1)\<rparr>]\<rparr>"

theorem refused_gate_keeps_no_lease_witness:
  "let db' = snd (admit example_env gate_context ''r'' ''p'' ''t'' 30 gate_revoked id gate_db gate_db)
   in db' \<noteq> gate_db \<and> find_lease ''r'' db' = None"
proof -
  let ?q = "gate_query gate_context ''p'' ''t''"
  let ?db2 = "gate_revoked gate_leased"
  have v: "verify example_sha (seconds 0) (row_reference gate_row) ?q gate_db = Inr (row_reference gate_row)"
    by (rule gate_verifies) (simp add: seconds_def)
  have a: "acquire (example_env\<lparr>clk := \<lambda>i. clk example_env (i + 1)\<rparr>) ''r'' gate_run 30 gate_db
      = (Inr (permit_of_lease gate_lease), gate_leased)"
    by (rule gate_acquire) (simp add: example_env_def)
  have c: "dc_authorization gate_context = row_reference gate_row" "dc_run_id gate_context = gate_run"
    by (simp_all add: gate_context_def)
  have e: "sha example_env = example_sha" "clk example_env 0 = seconds 0" "clk example_env 2 = seconds 2"
    by (simp_all add: example_env_def)
  have l: "find_lease ''r'' ?db2 = Some gate_lease" "dl_run_id gate_lease = gate_run" "dl_resource_key gate_lease = ''r''"
    by (simp_all add: find_lease_def gate_revoked_def gate_leased_def gate_lease_def new_lease_def)
  have rel: "release_lease ''r'' gate_run (dl_fencing_token gate_lease) ?db2 = (Inr True, delete_lease ''r'' ?db2)"
    using gate_text l by (simp add: release_lease_def chk_non_empty_def chk_uuid4_lower_def chk_uuid4_def commit_result_def)
  have w: "\<exists>why. verify example_sha (seconds 2) (row_reference gate_row) ?q ?db2 = Inl (AuthError why)"
  proof -
    have n: "normal_scope gate_scope" unfolding normal_scope_def by code_simp
    have f: "find_authority (row_reference gate_row) ?db2 = Some (gate_row\<lparr>au_revoked_at := Some (seconds 1)\<rparr>)"
      by (simp add: find_authority_def gate_revoked_def row_reference_def)
    have r: "scope_from_dict (au_scope_json gate_row) = Inr gate_scope"
      using scope_round_trip [OF n] by (simp add: gate_row_def issued_row_def Let_def)
    have "is_object (au_body_json gate_row)" "body_scope_matches (au_body_json gate_row) gate_scope"
      by (simp_all add: gate_row_def issued_row_def Let_def body_scope_matches_issued)
        (simp add: authority_body_def is_object_def)
    moreover have "ep_epoch (db_epoch ?db2) = 0" "ep_state (db_epoch ?db2) = Auth_Open" "ref_epoch (row_reference gate_row) = 0"
      by (simp_all add: gate_revoked_def gate_leased_def gate_db_def initial_db_def row_reference_def gate_row_def
          issued_row_def Let_def)
    moreover have "sha256_body example_sha (au_body_json gate_row) = au_body_sha256 gate_row"
      by (simp add: gate_row_def issued_row_def Let_def example_env_def)
    moreover have "is_sha256 (au_body_sha256 gate_row)"
      by (simp add: gate_row_def issued_row_def Let_def example_env_def sha256_body_def example_sha_hex)
    moreover have "au_epoch gate_row = 0" by (simp add: gate_row_def issued_row_def Let_def initial_db_def)
    moreover have "ref_digest (row_reference gate_row) = au_body_sha256 gate_row" "ref_scope (row_reference gate_row) = au_scope_json gate_row"
      using calculation(7) by (simp_all add: row_reference_def)
    ultimately show ?thesis by (simp add: verify_def f r Let_def)
  qed
  then obtain why where w: "verify example_sha (seconds 2) (row_reference gate_row) ?q ?db2 = Inl (AuthError why)" ..
  have ad: "admit example_env gate_context ''r'' ''p'' ''t'' 30 gate_revoked id gate_db gate_db = (Inl (AuthError why), delete_lease ''r'' ?db2)"
    unfolding admit_def c e a Let_def prod.case sum.case v w by (simp add: l rel)
  have "delete_lease ''r'' ?db2 \<noteq> gate_db"
  proof
    assume "delete_lease ''r'' ?db2 = gate_db"
    then have "db_fencing_counter (delete_lease ''r'' ?db2) = db_fencing_counter gate_db" by simp
    then show False by (simp add: delete_lease_def gate_revoked_def gate_leased_def)
  qed
  with refused_gate_keeps_no_lease [OF gate_db_reachable ad] ad gate_text(1) show ?thesis by (simp add: Let_def)
qed

end
