(* ===== verification/TargetLeases.thy ===== *)
theory TargetLeases
  imports DispatchProps
begin

text \<open>
  \<open>src/src/macr_runtime/target_leases.py\<close>: the identity of a repository path under Windows rules,
  and the leases with which the members of a plan own the paths they write. A path may have
  several live owners only as named alternatives of one plan, of which one at most materialises
  automatically.

  Paths are ASCII here, where Unicode normalisation is the identity and \<open>casefold\<close> is \<open>lower\<close>.
  The resolution of a path through the file system (\<open>Path.resolve\<close>, \<open>relative_to\<close>) is the
  parameter \<open>escapes\<close> of a repository.
\<close>

section \<open>Paths\<close>

text \<open>\<open>text.split(sep)\<close> and \<open>sep.join(parts)\<close>.\<close>

fun split_on :: "char \<Rightarrow> string \<Rightarrow> string list" where
  "split_on c [] = [[]]"
| "split_on c (x # xs) =
     (if x = c then [] # split_on c xs
      else case split_on c xs of [] \<Rightarrow> [[x]] | p # ps \<Rightarrow> (x # p) # ps)"

fun join_with :: "char \<Rightarrow> string list \<Rightarrow> string" where
  "join_with c [] = []"
| "join_with c (p # ps) = p @ (if ps = [] then [] else c # join_with c ps)"

definition slash :: char where
  "slash = CHR ''/''"

definition backslash :: char where
  "backslash = CHR 0x5C"

definition upper_char :: "char \<Rightarrow> char" where
  "upper_char c = (if 97 \<le> byte c \<and> byte c \<le> 122 then char_of (byte c - 32) else c)"

definition windows_reserved :: "string list" where
  "windows_reserved =
     [''CON'', ''PRN'', ''AUX'', ''NUL''] @ map (\<lambda>i. ''COM'' @ [digit_char i]) [1..<10]
       @ map (\<lambda>i. ''LPT'' @ [digit_char i]) [1..<10]"

definition unsafe_part :: "string \<Rightarrow> bool" where
  "unsafe_part p \<longleftrightarrow>
     p = [] \<or> p = ''.'' \<or> p = ''..'' \<or> last p = CHR '' '' \<or> last p = CHR ''.''
     \<or> map upper_char (takeWhile ((\<noteq>) (CHR ''.'')) p) \<in> set windows_reserved"

definition normalize_repository_relative_path :: "string \<Rightarrow> string result" where
  "normalize_repository_relative_path path =
     (if strip path = [] then Inl (ValueError Bad_Text)
      else if path \<noteq> strip path then Inl (ValueError Bad_Text)
      else if CHR 0x00 \<in> set path \<or> hd path = slash \<or> hd path = backslash \<or> CHR '':'' \<in> set path
      then Inl (ValueError Bad_Text)
      else
        (let parts = split_on slash (map (\<lambda>c. if c = backslash then slash else c) path) in
         if list_ex unsafe_part parts then Inl (ValueError Bad_Text)
         else Inr (join_with slash (map lower parts))))"

section \<open>Repositories\<close>

text \<open>\<open>RepositoryIdentity\<close>: its identifier, and whether a normalised path leaves the root when
  the file system resolves it.\<close>

record repository =
  rp_repository_id :: string
  rp_escapes :: "string \<Rightarrow> bool"

text \<open>The identifier binds the root path and the revision.\<close>

definition repository_identifier :: "(string \<Rightarrow> string) \<Rightarrow> string \<Rightarrow> string \<Rightarrow> string" where
  "repository_identifier h root_path revision =
     sha256_hex h ''repository_identity_v1''
       (JObj [(''root_path_digest'', JStr (sha256_hex h ''repository_root_path_v1''
                 (JObj [(''root'', JStr (lower (map (\<lambda>c. if c = backslash then slash else c) root_path)))]))),
              (''revision_digest'', JStr revision)])"

definition target_key_of :: "(string \<Rightarrow> string) \<Rightarrow> repository \<Rightarrow> string \<Rightarrow> string" where
  "target_key_of h repo path =
     sha256_hex h ''repository_target_v1''
       (JObj [(''repository_id'', JStr (rp_repository_id repo)), (''relative_path'', JStr path)])"

definition normalize_target :: "(string \<Rightarrow> string) \<Rightarrow> repository \<Rightarrow> string \<Rightarrow> (string \<times> string) result" where
  "normalize_target h repo path =
     ebind (normalize_repository_relative_path path) (\<lambda>p.
       if rp_escapes repo p then Inl (ValueError Bad_Text) else Inr (p, target_key_of h repo p))"

section \<open>Leases\<close>

definition target_lease_id :: "(string \<Rightarrow> string) \<Rightarrow> repository \<Rightarrow> string \<Rightarrow> string \<Rightarrow> string \<Rightarrow> string" where
  "target_lease_id h repo key plan member =
     sha256_hex h ''target_path_lease_v1''
       (JObj [(''repository_id'', JStr (rp_repository_id repo)), (''target_key'', JStr key),
              (''plan_digest'', JStr plan), (''member_digest'', JStr member)])"

definition find_target :: "string \<Rightarrow> runtime_db \<Rightarrow> target_row option" where
  "find_target lid db = lookup_row (\<lambda>r. tl_lease_id r = lid) (db_targets db)"

definition set_target_state :: "target_state \<Rightarrow> (target_row \<Rightarrow> bool) \<Rightarrow> runtime_db \<Rightarrow> runtime_db" where
  "set_target_state s sel db = db\<lparr>db_targets := update_rows sel (\<lambda>r. r\<lparr>tl_state := s\<rparr>) (db_targets db)\<rparr>"

text \<open>The rows that own a target: \<open>state IN ('active', 'reconciliation_required')\<close>, by token.\<close>

definition owners :: "string \<Rightarrow> string \<Rightarrow> runtime_db \<Rightarrow> target_row list" where
  "owners repo_id key db =
     sort_key tl_fencing_token
       (filter (\<lambda>r. tl_repository_id r = repo_id \<and> tl_target_key r = key \<and> tl_state r \<noteq> Target_Released)
          (db_targets db))"

text \<open>What the live owners of the target forbid.\<close>

definition ownership_conflict :: "string \<Rightarrow> string option \<Rightarrow> bool \<Rightarrow> target_row list \<Rightarrow> lease_reason option" where
  "ownership_conflict plan grp automatic active =
     (if active = [] then None
      else if list_ex (\<lambda>r. tl_state r = Target_Reconciliation) active then Some Target_Needs_Reconciliation
      else if list_ex (\<lambda>r. tl_plan_digest r \<noteq> plan) active then Some Target_Other_Plan
      else if grp = None \<or> None \<in> set (map tl_alternative_group active)
         \<or> set (map tl_alternative_group active) \<noteq> {grp} then Some Target_No_Group
      else if sum_list (map (\<lambda>r. if tl_materialize_automatically r then 1 else (0 :: nat)) active)
              + (if automatic then 1 else 0) > 1 then Some Target_Two_Automatic
      else None)"

definition acquire_target ::
  "env \<Rightarrow> repository \<Rightarrow> string \<Rightarrow> string \<Rightarrow> string \<Rightarrow> string option \<Rightarrow> bool \<Rightarrow> int \<Rightarrow> runtime_db
     \<Rightarrow> target_row result \<times> runtime_db" where
  "acquire_target e repo plan_digest member_digest path grp automatic ttl db =
     (case ebind (chk_digest plan_digest) (\<lambda>plan. ebind (chk_digest member_digest) (\<lambda>member.
             ebind (normalize_target (sha e) repo path) (\<lambda>(_, key).
             ebind (chk_optional chk_identifier grp) (\<lambda>_.
             ebind (chk_range ttl 86400) (\<lambda>_. Inr (plan, member, key)))))) of
        Inl err \<Rightarrow> (Inl err, db)
      | Inr (plan, member, key) \<Rightarrow>
          (let now = clk e 0; lid = target_lease_id (sha e) repo key plan member in
           case find_target lid db of
             Some x \<Rightarrow>
               if tl_state x = Target_Active then
                 if tl_expires_at x \<le> now
                 then (Inl (LeaseError Target_Expired),
                       set_target_state Target_Reconciliation (\<lambda>r. tl_lease_id r = lid) db)
                 else if tl_alternative_group x = grp \<and> tl_materialize_automatically x = automatic
                 then (Inr x, db)
                 else (Inl (LeaseError Target_Conflict), db)
               else if tl_state x = Target_Reconciliation then (Inl (LeaseError Target_Needs_Reconciliation), db)
               else (Inl (LeaseError Target_Reuse), db)
           | None \<Rightarrow>
               (let active = owners (rp_repository_id repo) key db;
                    expired = filter (\<lambda>r. tl_state r = Target_Active \<and> tl_expires_at r \<le> now) active in
                if expired \<noteq> []
                then (Inl (LeaseError Target_Expired),
                      set_target_state Target_Reconciliation (\<lambda>r. tl_lease_id r \<in> set (map tl_lease_id expired)) db)
                else case ownership_conflict plan grp automatic active of
                  Some why \<Rightarrow> (Inl (LeaseError why), db)
                | None \<Rightarrow>
                    if list_ex (\<lambda>r. tl_repository_id r = rp_repository_id repo \<and> tl_target_key r = key
                         \<and> tl_plan_digest r = plan \<and> tl_member_digest r = member) (db_targets db)
                    then (Inl IntegrityError, db)
                    else
                      (let db1 = bump_fencing db;
                           row = \<lparr>tl_lease_id = lid, tl_repository_id = rp_repository_id repo, tl_target_key = key,
                                  tl_plan_digest = plan, tl_member_digest = member, tl_alternative_group = grp,
                                  tl_materialize_automatically = automatic, tl_state = Target_Active,
                                  tl_fencing_token = db_fencing_counter db1, tl_acquired_at = now,
                                  tl_expires_at = now + seconds ttl, tl_released_at = None,
                                  tl_reconciliation_evidence_digest = None\<rparr>
                       in (Inr row, db1\<lparr>db_targets := db_targets db1 @ [row]\<rparr>)))))"

definition assert_holder :: "target_row option \<Rightarrow> string \<Rightarrow> int \<Rightarrow> target_row result" where
  "assert_holder row member token =
     (if token < 1 then Inl (ValueError Bad_Integer)
      else case row of
        None \<Rightarrow> Inl (LeaseError Target_Missing)
      | Some r \<Rightarrow>
          if tl_state r \<noteq> Target_Active then Inl (LeaseError Target_Not_Active)
          else if tl_member_digest r \<noteq> member \<or> tl_fencing_token r \<noteq> token
          then Inl (LeaseError Lease_Holder_Invalid)
          else Inr r)"

definition read_target :: "string \<Rightarrow> runtime_db \<Rightarrow> target_row result" where
  "read_target lease_id db =
     ebind (chk_digest lease_id) (\<lambda>lid.
       case find_target lid db of None \<Rightarrow> Inl (LeaseError Target_Missing) | Some r \<Rightarrow> Inr r)"

definition renew_target ::
  "env \<Rightarrow> string \<Rightarrow> string \<Rightarrow> int \<Rightarrow> int \<Rightarrow> runtime_db \<Rightarrow> target_row result \<times> runtime_db" where
  "renew_target e lease_id member_digest token ttl db =
     (case ebind (chk_digest lease_id) (\<lambda>lid. ebind (chk_digest member_digest) (\<lambda>member.
             ebind (chk_range ttl 86400) (\<lambda>_. assert_holder (find_target lid db) member token))) of
        Inl err \<Rightarrow> (Inl err, db)
      | Inr row \<Rightarrow>
          (let now = clk e 0; lid = lease_id in
           if tl_expires_at row \<le> now
           then (Inl (LeaseError Target_Expired), set_target_state Target_Reconciliation (\<lambda>r. tl_lease_id r = lid) db)
           else
             (let db' = db\<lparr>db_targets := update_rows (\<lambda>r. tl_lease_id r = lid)
                    (\<lambda>r. r\<lparr>tl_expires_at := now + seconds ttl\<rparr>) (db_targets db)\<rparr>
              in (read_target lid db', db'))))"

definition release_target :: "env \<Rightarrow> string \<Rightarrow> string \<Rightarrow> int \<Rightarrow> runtime_db \<Rightarrow> target_row result \<times> runtime_db" where
  "release_target e lease_id member_digest token db =
     (case ebind (chk_digest lease_id) (\<lambda>lid. ebind (chk_digest member_digest) (\<lambda>member.
             assert_holder (find_target lid db) member token)) of
        Inl err \<Rightarrow> (Inl err, db)
      | Inr row \<Rightarrow>
          (let now = clk e 0; lid = lease_id in
           if tl_expires_at row \<le> now
           then (Inl (LeaseError Target_Expired), set_target_state Target_Reconciliation (\<lambda>r. tl_lease_id r = lid) db)
           else
             (let db' = db\<lparr>db_targets := update_rows (\<lambda>r. tl_lease_id r = lid)
                    (\<lambda>r. r\<lparr>tl_state := Target_Released, tl_released_at := Some now\<rparr>) (db_targets db)\<rparr>
              in (read_target lid db', db'))))"

definition reconcile_release :: "env \<Rightarrow> string \<Rightarrow> string \<Rightarrow> runtime_db \<Rightarrow> target_row result \<times> runtime_db" where
  "reconcile_release e lease_id evidence_digest db =
     (case ebind (chk_digest lease_id) (\<lambda>lid. ebind (chk_digest evidence_digest) (\<lambda>evidence.
             case find_target lid db of
               None \<Rightarrow> Inl (LeaseError Target_Not_Awaiting)
             | Some r \<Rightarrow> if tl_state r \<noteq> Target_Reconciliation then Inl (LeaseError Target_Not_Awaiting) else Inr (lid, evidence))) of
        Inl err \<Rightarrow> (Inl err, db)
      | Inr (lid, evidence) \<Rightarrow>
          (let db' = db\<lparr>db_targets := update_rows (\<lambda>r. tl_lease_id r = lid)
                 (\<lambda>r. r\<lparr>tl_state := Target_Released, tl_released_at := Some (clk e 0),
                        tl_reconciliation_evidence_digest := Some evidence\<rparr>) (db_targets db)\<rparr>
           in (read_target lid db', db')))"

end
