(* ===== verification/TargetLeasesProps.thy ===== *)
theory TargetLeasesProps
  imports TargetLeases
begin

text \<open>
  Correctness of the target leases: path identities are stable and safe, the live owners of a path
  are alternatives of one plan with at most one automatic writer, leases move along one life
  cycle, and an expired lease only comes back through reconciliation.
\<close>

section \<open>Paths\<close>

lemma split_on_nonempty [simp]: "split_on c s \<noteq> []"
  by (induction s) (auto split: list.splits)

lemma join_split: "join_with c (split_on c s) = s"
proof (induction s)
  case (Cons x s)
  then show ?case by (cases "split_on c s") auto
qed simp

lemma split_join:
  "ps \<noteq> [] \<Longrightarrow> (\<forall>p \<in> set ps. c \<notin> set p) \<Longrightarrow> split_on c (join_with c ps) = ps"
proof (induction ps)
  case (Cons p ps)
  have s: "split_on c (p @ q) = (case split_on c q of [] \<Rightarrow> [p] | r # rs \<Rightarrow> (p @ r) # rs)" if "c \<notin> set p" for p q
    using that by (induction p) (auto split: list.splits)
  from Cons s [of p "[]"] show ?case by (cases "ps = []") (simp_all add: s)
qed simp

lemma split_on_parts: "p \<in> set (split_on c s) \<Longrightarrow> c \<notin> set p"
proof (induction s arbitrary: p)
  case (Cons x s)
  then show ?case by (cases "split_on c s") (auto split: if_splits)
qed simp

lemma split_on_subset: "\<Union> (set ` set (split_on c s)) \<subseteq> set s"
proof (induction s)
  case (Cons x s)
  then show ?case by (cases "split_on c s") auto
qed simp

lemma join_with_set: "set (join_with c ps) \<subseteq> insert c (\<Union> (set ` set ps))"
  by (induction ps) auto

lemma byte_bound: "byte c < 256"
  unfolding byte_def by (metis of_char_of of_char_mod_256 mod_less_divisor zero_less_numeral)

lemma byte_char_of: "n < 256 \<Longrightarrow> byte (char_of n) = n"
  by (simp add: byte_def)

lemma lower_char_byte: "byte (lower_char c) = (if 65 \<le> byte c \<and> byte c \<le> 90 then byte c + 32 else byte c)"
  by (simp add: lower_char_def byte_char_of)

lemma lower_char_iff [simp]: "lower_char c = CHR ''/'' \<longleftrightarrow> c = CHR ''/''" "lower_char c = CHR '' '' \<longleftrightarrow> c = CHR '' ''"
  "lower_char c = CHR ''.'' \<longleftrightarrow> c = CHR ''.''" "lower_char c = CHR '':'' \<longleftrightarrow> c = CHR '':''"
  "lower_char c = CHR 0x00 \<longleftrightarrow> c = CHR 0x00" "lower_char c = CHR 0x5C \<longleftrightarrow> c = CHR 0x5C"
proof -
  have i: "lower_char c = d \<longleftrightarrow> c = d" if "byte d < 65 \<or> 90 < byte d \<and> byte d < 97 \<or> 122 < byte d" for d
    using that lower_char_byte [of c] lower_char_byte [of d] by (auto simp: lower_char_def simp flip: byte_eq split: if_splits)
  show "lower_char c = CHR ''/'' \<longleftrightarrow> c = CHR ''/''" "lower_char c = CHR '' '' \<longleftrightarrow> c = CHR '' ''"
    "lower_char c = CHR ''.'' \<longleftrightarrow> c = CHR ''.''" "lower_char c = CHR '':'' \<longleftrightarrow> c = CHR '':''"
    "lower_char c = CHR 0x00 \<longleftrightarrow> c = CHR 0x00" "lower_char c = CHR 0x5C \<longleftrightarrow> c = CHR 0x5C"
    by (rule i; simp add: byte_def)+
qed

lemma lower_lower [simp]: "lower (lower s) = lower s"
proof -
  have "lower_char (lower_char c) = lower_char c" for c
    by (subst byte_eq [symmetric]) (simp add: lower_char_byte)
  then show ?thesis by (simp add: lower_def)
qed

lemma upper_lower: "map upper_char (map lower_char s) = map upper_char s"
proof -
  have "upper_char (lower_char c) = upper_char c" for c
    by (auto simp: upper_char_def lower_char_byte byte_eq simp flip: byte_eq)
  then show ?thesis by simp
qed

text \<open>What a normalised path looks like.\<close>

definition safe_path :: "string \<Rightarrow> bool" where
  "safe_path q \<longleftrightarrow> lower q = q \<and> backslash \<notin> set q \<and> CHR '':'' \<notin> set q \<and> CHR 0x00 \<notin> set q
     \<and> (\<forall>part \<in> set (split_on slash q). \<not> unsafe_part part)"

lemma unsafe_lower: "unsafe_part (lower p) = unsafe_part p"
proof -
  have "map upper_char (takeWhile ((\<noteq>) (CHR ''.'')) (lower p)) = map upper_char (takeWhile ((\<noteq>) (CHR ''.'')) p)"
  proof -
    have "takeWhile ((\<noteq>) (CHR ''.'')) (lower p) = lower (takeWhile ((\<noteq>) (CHR ''.'')) p)"
      by (induction p) (simp_all add: lower_def eq_commute [of "CHR ''.''"])
    then show ?thesis by (metis lower_def upper_lower)
  qed
  moreover have "lower p = ''.'' \<longleftrightarrow> p = ''.''" "lower p = ''..'' \<longleftrightarrow> p = ''..''" "lower p = [] \<longleftrightarrow> p = []"
    by (auto simp: lower_def map_eq_Cons_conv)
  moreover have "p \<noteq> [] \<Longrightarrow> last (lower p) = lower_char (last p)" by (simp add: lower_def last_map)
  ultimately show ?thesis unfolding unsafe_part_def by (cases "p = []") auto
qed

text \<open>The identity of a path: its characters in lower case, with forward slashes.\<close>

definition path_char :: "char \<Rightarrow> char" where
  "path_char c = lower_char (if c = backslash then slash else c)"

lemma path_char_space [simp]: "is_space (path_char c) = is_space c"
  by (auto simp: path_char_def is_space_def lower_char_byte backslash_def slash_def) (simp_all add: byte_def)

lemma strip_fixed_iff: "strip p = p \<longleftrightarrow> p = [] \<or> \<not> is_space (hd p) \<and> \<not> is_space (last p)"
proof (cases "p = []")
  case False
  show ?thesis
  proof
    assume s: "strip p = p"
    have l: "length (dropWhile is_space xs) \<le> length xs" for xs by (rule length_dropWhile_le)
    have "length (strip p) \<le> length (dropWhile is_space p)"
      unfolding strip_def using l [of "rev (dropWhile is_space p)"] by simp
    with s l [of p] have e: "length (dropWhile is_space p) = length p" by simp
    have d: "dropWhile is_space xs = xs" if "length (dropWhile is_space xs) = length xs" for xs
      using that by (metis append_self_conv2 length_append takeWhile_dropWhile_id add_cancel_right_left length_0_conv)
    from d [OF e] have 1: "\<not> is_space (hd p)" using False by (simp add: dropWhile_eq_self_iff)
    have "dropWhile is_space (rev p) = rev p" using s d [OF e] by (simp add: strip_def) (metis rev_rev_ident)
    with 1 False show "p = [] \<or> \<not> is_space (hd p) \<and> \<not> is_space (last p)" by (simp add: dropWhile_eq_self_iff hd_rev)
  next
    assume "p = [] \<or> \<not> is_space (hd p) \<and> \<not> is_space (last p)"
    with False have "dropWhile is_space p = p" "dropWhile is_space (rev p) = rev p"
      by (simp_all add: dropWhile_eq_self_iff hd_rev)
    then show "strip p = p" by (simp add: strip_def)
  qed
qed (simp add: strip_def)

lemma strip_empty_iff: "strip p = [] \<longleftrightarrow> (\<forall>c \<in> set p. is_space c)"
proof -
  have "strip p = [] \<longleftrightarrow> dropWhile is_space p = []"
    by (auto simp: strip_def dropWhile_eq_Nil_conv dest: set_dropWhileD) (metis hd_dropWhile hd_in_set dropWhile_eq_Nil_conv)
  then show ?thesis by (simp add: dropWhile_eq_Nil_conv)
qed

lemma split_lower: "split_on slash (lower s) = map lower (split_on slash s)"
proof (induction s)
  case (Cons x s)
  have "lower_char x = slash \<longleftrightarrow> x = slash" by (simp add: slash_def)
  with Cons show ?case by (cases "split_on slash s") (auto simp: lower_def)
qed (simp add: lower_def)

lemma join_lower: "join_with slash (map lower ps) = lower (join_with slash ps)"
proof -
  have "lower_char slash = slash" by (simp add: slash_def)
  then show ?thesis by (induction ps) (simp_all add: lower_def)
qed

lemma path_char_props [simp]:
  "path_char c = slash \<longleftrightarrow> c = slash \<or> c = backslash" "path_char c \<noteq> backslash" "path_char c = CHR '':'' \<longleftrightarrow> c = CHR '':''"
  "path_char c = CHR 0x00 \<longleftrightarrow> c = CHR 0x00" "path_char (path_char c) = path_char c"
proof -
  have l: "lower_char (lower_char c) = lower_char c" for c
    by (subst byte_eq [symmetric]) (simp add: lower_char_byte)
  show "path_char c = slash \<longleftrightarrow> c = slash \<or> c = backslash" "path_char c = CHR '':'' \<longleftrightarrow> c = CHR '':''"
    "path_char c = CHR 0x00 \<longleftrightarrow> c = CHR 0x00"
    by (auto simp: path_char_def slash_def backslash_def)
  show b: "path_char c \<noteq> backslash" for c by (auto simp: path_char_def slash_def backslash_def)
  show "path_char (path_char c) = path_char c" using b [of c] by (simp add: path_char_def l)
qed

lemma normalize_same:
  "normalize_repository_relative_path (map path_char p) = normalize_repository_relative_path p"
proof (cases "p = []")
  case False
  define bs where "bs = (\<lambda>c. if c = backslash then slash else c)"
  have m: "map bs (map path_char p) = lower (map bs p)"
    by (auto simp: bs_def lower_def path_char_def [symmetric])
  have s: "map path_char p = strip (map path_char p) \<longleftrightarrow> p = strip p"
    using strip_fixed_iff [of p] strip_fixed_iff [of "map path_char p"] False by (auto simp: hd_map last_map)
  have e: "strip (map path_char p) = [] \<longleftrightarrow> strip p = []" by (simp add: strip_empty_iff)
  have h: "hd (map path_char p) = slash \<or> hd (map path_char p) = backslash \<longleftrightarrow> hd p = slash \<or> hd p = backslash"
    using False by (simp add: hd_map)
  have x: "CHR 0x00 \<in> set (map path_char p) \<longleftrightarrow> CHR 0x00 \<in> set p" "CHR '':'' \<in> set (map path_char p) \<longleftrightarrow> CHR '':'' \<in> set p"
    by (auto simp: image_iff eq_commute [of "CHR 0x00"] eq_commute [of "CHR '':''"])
  have h': "(CHR 0x00 \<in> set p \<or> hd (map path_char p) = slash \<or> hd (map path_char p) = backslash \<or> CHR '':'' \<in> set p)
      \<longleftrightarrow> (CHR 0x00 \<in> set p \<or> hd p = slash \<or> hd p = backslash \<or> CHR '':'' \<in> set p)"
    using h by blast
  have u: "list_ex unsafe_part (map lower ps) = list_ex unsafe_part ps" for ps
    by (simp add: list_ex_iff unsafe_lower)
  have l: "map lower (map lower ps) = map lower ps" for ps by simp
  show ?thesis
    unfolding normalize_repository_relative_path_def bs_def [symmetric] m Let_def split_lower l u e s x h' ..
qed simp

lemma normalize_Inr:
  assumes "normalize_repository_relative_path p = Inr q"
  shows "q = map path_char p" "safe_path q"
proof -
  let ?bs = "\<lambda>c. if c = backslash then slash else c"
  have c: "CHR 0x00 \<notin> set p" "CHR '':'' \<notin> set p" "\<not> list_ex unsafe_part (split_on slash (map ?bs p))"
    "q = join_with slash (map lower (split_on slash (map ?bs p)))"
    using assms by (auto simp: normalize_repository_relative_path_def Let_def split: if_splits)
  have q: "q = lower (map ?bs p)" unfolding c(4) join_lower join_split ..
  then show "q = map path_char p" by (auto simp: lower_def path_char_def)
  note qp = this
  have "lower q = q" by (simp add: q)
  moreover have "backslash \<notin> set q" by (auto simp: qp) (metis path_char_props(2))
  moreover have "CHR '':'' \<notin> set q" "CHR 0x00 \<notin> set q"
    using c(1,2) path_char_props(3,4) unfolding qp set_map by (metis imageE)+
  moreover have "\<forall>part \<in> set (split_on slash q). \<not> unsafe_part part"
    using c(3) by (simp add: q split_lower list_ex_iff unsafe_lower)
  ultimately show "safe_path q" by (simp add: safe_path_def)
qed

text \<open>A target path has one identity: an accepted path is safe (relative, no empty, dot or
  reserved component, no drive or stream), its identity is its own identity, and another spelling of it
  (upper or lower case, either slash) is accepted with the same identity.\<close>

theorem path_identity:
  assumes "normalize_repository_relative_path p = Inr q"
  shows "safe_path q \<and> normalize_repository_relative_path q = Inr q
    \<and> (normalize_repository_relative_path p' = Inr q \<longleftrightarrow> map path_char p' = map path_char p)"
proof -
  have q: "q = map path_char p" by (rule normalize_Inr [OF assms])
  have i: "normalize_repository_relative_path q = Inr q" unfolding q normalize_same using assms q by simp
  have "map path_char p' = map path_char p" if "normalize_repository_relative_path p' = Inr q"
    using normalize_Inr(1) [OF that] q by simp
  moreover have "normalize_repository_relative_path p' = Inr q" if "map path_char p' = map path_char p"
    using normalize_same [of p'] normalize_same [of p] assms that by simp
  ultimately show ?thesis using normalize_Inr(2) [OF assms] i by blast
qed

theorem path_identity_witness:
  "normalize_repository_relative_path ''src/main.py'' = Inr ''src/main.py''"
proof -
  have "normalize_repository_relative_path (''Src'' @ backslash # ''Main.py'') = Inr ''src/main.py''" by code_simp
  from path_identity [OF this] show ?thesis by blast
qed

section \<open>Every sequence of operations\<close>

inductive target_step :: "runtime_db \<Rightarrow> runtime_db \<Rightarrow> bool" where
  acquire_it: "acquire_target e repo plan member path grp automatic ttl db = (res, db') \<Longrightarrow> target_step db db'"
| renew_it: "renew_target e lid member token ttl db = (res, db') \<Longrightarrow> target_step db db'"
| release_it: "release_target e lid member token db = (res, db') \<Longrightarrow> target_step db db'"
| reconcile_it: "reconcile_release e lid evidence db = (res, db') \<Longrightarrow> target_step db db'"
| elsewhere: "db_targets db' = db_targets db \<Longrightarrow> db_fencing_counter db \<le> db_fencing_counter db' \<Longrightarrow> target_step db db'"

definition same_target :: "target_row \<Rightarrow> target_row \<Rightarrow> bool" where
  "same_target r r' \<longleftrightarrow> tl_lease_id r' = tl_lease_id r \<and> tl_repository_id r' = tl_repository_id r
     \<and> tl_target_key r' = tl_target_key r \<and> tl_plan_digest r' = tl_plan_digest r \<and> tl_member_digest r' = tl_member_digest r
     \<and> tl_alternative_group r' = tl_alternative_group r
     \<and> tl_materialize_automatically r' = tl_materialize_automatically r
     \<and> tl_fencing_token r' = tl_fencing_token r \<and> tl_acquired_at r' = tl_acquired_at r"

text \<open>The life cycle: an active lease is renewed, released or expires; what expired is released by
  reconciliation.\<close>

definition target_move :: "target_row \<Rightarrow> target_row \<Rightarrow> bool" where
  "target_move r r' \<longleftrightarrow> same_target r r' \<and> (tl_state r = Target_Active \<and> (tl_state r' = Target_Released \<longrightarrow> tl_released_at r' \<noteq> None)
     \<or> tl_state r = Target_Reconciliation \<and> tl_state r' = Target_Released \<and> tl_reconciliation_evidence_digest r' \<noteq> None)"

definition target_ids :: "runtime_db \<Rightarrow> bool" where
  "target_ids db \<longleftrightarrow> distinct (map tl_lease_id (db_targets db))"

lemma find_target_Some: "find_target lid db = Some r \<Longrightarrow> r \<in> set (db_targets db) \<and> tl_lease_id r = lid"
  unfolding find_target_def by (drule lookup_row_Some) simp

lemma find_target_unique:
  "target_ids db \<Longrightarrow> find_target lid db = Some r \<Longrightarrow> x \<in> set (db_targets db) \<Longrightarrow> tl_lease_id x = lid \<Longrightarrow> x = r"
  using find_target_Some [of lid db r] key_unique [of tl_lease_id "db_targets db" x r] by (simp add: target_ids_def)

lemma assert_holder_Inr:
  "assert_holder x member token = Inr r \<longleftrightarrow>
     1 \<le> token \<and> x = Some r \<and> tl_state r = Target_Active \<and> tl_member_digest r = member \<and> tl_fencing_token r = token"
  by (auto simp: assert_holder_def split: option.splits)

lemma owners_set:
  "r \<in> set (owners repo key db) \<longleftrightarrow>
     r \<in> set (db_targets db) \<and> tl_repository_id r = repo \<and> tl_target_key r = key \<and> tl_state r \<noteq> Target_Released"
  by (auto simp: owners_def)

text \<open>The operations, taken apart: the table is unchanged, gets one fresh row, or some rows move.\<close>

lemma acquire_target_cases:
  assumes "acquire_target e repo plan member path grp automatic ttl db = (res, db')"
  obtains (same) "db' = db" "\<And>r. res = Inr r \<Longrightarrow> r \<in> set (db_targets db) \<and> tl_state r = Target_Active \<and> clk e 0 < tl_expires_at r"
  | (expired) sel where "db' = set_target_state Target_Reconciliation sel db" "\<And>r. res \<noteq> Inr r"
      "\<And>r. target_ids db \<Longrightarrow> r \<in> set (db_targets db) \<Longrightarrow> sel r \<Longrightarrow> tl_state r = Target_Active \<and> tl_expires_at r \<le> clk e 0"
  | (fresh) row key rel where "db' = (bump_fencing db)\<lparr>db_targets := db_targets db @ [row]\<rparr>" "res = Inr row"
      "tl_fencing_token row = db_fencing_counter db + 1" "tl_state row = Target_Active"
      "tl_lease_id row \<notin> tl_lease_id ` set (db_targets db)" "tl_repository_id row = rp_repository_id repo"
      "tl_target_key row = key" "tl_plan_digest row = plan" "tl_alternative_group row = grp"
      "tl_materialize_automatically row = automatic" "tl_expires_at row = clk e 0 + seconds ttl" "1 \<le> ttl"
      "ownership_conflict plan grp automatic (owners (rp_repository_id repo) key db) = None"
      "normalize_target (sha e) repo path = Inr (rel, key)"
      "\<forall>r \<in> set (owners (rp_repository_id repo) key db). tl_state r = Target_Active \<longrightarrow> clk e 0 < tl_expires_at r"
proof -
  let ?c = "ebind (chk_digest plan) (\<lambda>plan. ebind (chk_digest member) (\<lambda>member.
             ebind (normalize_target (sha e) repo path) (\<lambda>(_, key).
             ebind (chk_optional chk_identifier grp) (\<lambda>_.
             ebind (chk_range ttl 86400) (\<lambda>_. Inr (plan, member, key))))))"
  show thesis
  proof (cases ?c)
    case (Inl err)
    then show thesis using assms by (intro same) (auto simp: acquire_target_def)
  next
    case (Inr z)
    then obtain key rel where z: "?c = Inr (plan, member, key)" "1 \<le> ttl" "normalize_target (sha e) repo path = Inr (rel, key)"
      by (auto simp: result_simps)
    let ?lid = "target_lease_id (sha e) repo key plan member"
    let ?active = "owners (rp_repository_id repo) key db"
    let ?exp = "filter (\<lambda>r. tl_state r = Target_Active \<and> tl_expires_at r \<le> clk e 0) ?active"
    show thesis
    proof (cases "find_target ?lid db")
      case (Some x)
      note x = find_target_Some [OF Some]
      show thesis
      proof (cases "tl_state x = Target_Active \<and> tl_expires_at x \<le> clk e 0")
        case True
        then have "db' = set_target_state Target_Reconciliation (\<lambda>r. tl_lease_id r = ?lid) db" "\<And>r. res \<noteq> Inr r"
          using assms z(1) Some by (auto simp: acquire_target_def Let_def)
        moreover have "tl_state r = Target_Active \<and> tl_expires_at r \<le> clk e 0"
          if "target_ids db" "r \<in> set (db_targets db)" "tl_lease_id r = ?lid" for r
          using find_target_unique [OF that(1) Some that(2,3)] True by simp
        ultimately show thesis by (rule expired)
      next
        case False
        with assms z(1) Some x show thesis by (intro same) (auto simp: acquire_target_def Let_def split: if_splits)
      qed
    next
      case None
      show thesis
      proof (cases "?exp = []")
        case False
        then have "db' = set_target_state Target_Reconciliation (\<lambda>r. tl_lease_id r \<in> set (map tl_lease_id ?exp)) db" "\<And>r. res \<noteq> Inr r"
          using assms z(1) None by (auto simp: acquire_target_def Let_def)
        moreover have "tl_state r = Target_Active \<and> tl_expires_at r \<le> clk e 0"
          if "target_ids db" "r \<in> set (db_targets db)" "tl_lease_id r \<in> set (map tl_lease_id ?exp)" for r
        proof -
          from that(3) obtain x where "x \<in> set ?exp" "tl_lease_id x = tl_lease_id r" by auto
          with that(1,2) key_unique [of tl_lease_id "db_targets db" x r] show ?thesis by (auto simp: target_ids_def owners_set)
        qed
        ultimately show thesis by (rule expired)
      next
        case True
        show thesis
        proof (cases "ownership_conflict plan grp automatic ?active")
          case (Some why)
          with assms z(1) None True show thesis by (intro same) (auto simp: acquire_target_def Let_def)
        next
          case oc: None
          have n: "?lid \<notin> tl_lease_id ` set (db_targets db)"
            using None by (auto simp: find_target_def lookup_row_None)
          show thesis
          proof (cases "list_ex (\<lambda>r. tl_repository_id r = rp_repository_id repo \<and> tl_target_key r = key
                         \<and> tl_plan_digest r = plan \<and> tl_member_digest r = member) (db_targets db)")
            case True
            with assms z(1) None \<open>?exp = []\<close> oc show thesis by (intro same) (auto simp: acquire_target_def Let_def)
          next
            case False
            have "acquire_target e repo plan member path grp automatic ttl db
              = (let row = \<lparr>tl_lease_id = ?lid, tl_repository_id = rp_repository_id repo, tl_target_key = key,
                   tl_plan_digest = plan, tl_member_digest = member, tl_alternative_group = grp,
                   tl_materialize_automatically = automatic, tl_state = Target_Active,
                   tl_fencing_token = db_fencing_counter (bump_fencing db), tl_acquired_at = clk e 0,
                   tl_expires_at = clk e 0 + seconds ttl, tl_released_at = None,
                   tl_reconciliation_evidence_digest = None\<rparr>
                 in (Inr row, (bump_fencing db)\<lparr>db_targets := db_targets (bump_fencing db) @ [row]\<rparr>))"
              unfolding acquire_target_def z(1) sum.case prod.case Let_def None option.case oc
              using \<open>?exp = []\<close> False by simp
            moreover have "\<forall>r \<in> set ?active. tl_state r = Target_Active \<longrightarrow> clk e 0 < tl_expires_at r"
              using \<open>?exp = []\<close> by (auto simp: filter_empty_conv)
            ultimately show thesis using assms n oc z(2,3) by (intro fresh) (auto simp: Let_def)
          qed
        qed
      qed
    qed
  qed
qed

lemma renew_target_cases:
  assumes "renew_target e lid member token ttl db = (res, db')"
  obtains (same) "db' = db" "\<And>r. res \<noteq> Inr r"
  | (changed) row f where "find_target lid db = Some row" "tl_state row = Target_Active" "tl_member_digest row = member"
      "tl_fencing_token row = token" "db' = db\<lparr>db_targets := update_rows (\<lambda>r. tl_lease_id r = lid) f (db_targets db)\<rparr>"
      "\<And>r. same_target r (f r)"
      "tl_expires_at row \<le> clk e 0 \<and> f = (\<lambda>r. r\<lparr>tl_state := Target_Reconciliation\<rparr>) \<and> (\<forall>r. res \<noteq> Inr r)
       \<or> clk e 0 < tl_expires_at row \<and> f = (\<lambda>r. r\<lparr>tl_expires_at := clk e 0 + seconds ttl\<rparr>)"
proof (cases "ebind (chk_digest lid) (\<lambda>lid. ebind (chk_digest member) (\<lambda>member.
             ebind (chk_range ttl 86400) (\<lambda>_. assert_holder (find_target lid db) member token)))")
  case (Inl err)
  with assms show thesis by (intro same) (auto simp: renew_target_def)
next
  case (Inr row)
  then have row: "find_target lid db = Some row" "tl_state row = Target_Active" "tl_member_digest row = member"
      "tl_fencing_token row = token"
    by (auto simp: result_simps assert_holder_Inr)
  show thesis
  proof (cases "tl_expires_at row \<le> clk e 0")
    case True
    then show thesis using assms Inr
      by (intro changed [OF row, of "\<lambda>r. r\<lparr>tl_state := Target_Reconciliation\<rparr>"])
        (auto simp: renew_target_def Let_def set_target_state_def same_target_def)
  next
    case False
    then show thesis using assms Inr
      by (intro changed [OF row, of "\<lambda>r. r\<lparr>tl_expires_at := clk e 0 + seconds ttl\<rparr>"])
        (auto simp: renew_target_def Let_def same_target_def)
  qed
qed

lemma release_target_cases:
  assumes "release_target e lid member token db = (res, db')"
  obtains (same) "db' = db" "\<And>r. res \<noteq> Inr r"
  | (changed) row f where "find_target lid db = Some row" "tl_state row = Target_Active" "tl_member_digest row = member"
      "tl_fencing_token row = token" "db' = db\<lparr>db_targets := update_rows (\<lambda>r. tl_lease_id r = lid) f (db_targets db)\<rparr>"
      "\<And>r. same_target r (f r)"
      "tl_expires_at row \<le> clk e 0 \<and> f = (\<lambda>r. r\<lparr>tl_state := Target_Reconciliation\<rparr>) \<and> (\<forall>r. res \<noteq> Inr r)
       \<or> clk e 0 < tl_expires_at row \<and> f = (\<lambda>r. r\<lparr>tl_state := Target_Released, tl_released_at := Some (clk e 0)\<rparr>)"
proof (cases "ebind (chk_digest lid) (\<lambda>lid. ebind (chk_digest member) (\<lambda>member.
             assert_holder (find_target lid db) member token))")
  case (Inl err)
  with assms show thesis by (intro same) (auto simp: release_target_def)
next
  case (Inr row)
  then have row: "find_target lid db = Some row" "tl_state row = Target_Active" "tl_member_digest row = member"
      "tl_fencing_token row = token"
    by (auto simp: result_simps assert_holder_Inr)
  show thesis
  proof (cases "tl_expires_at row \<le> clk e 0")
    case True
    then show thesis using assms Inr
      by (intro changed [OF row, of "\<lambda>r. r\<lparr>tl_state := Target_Reconciliation\<rparr>"])
        (auto simp: release_target_def Let_def set_target_state_def same_target_def)
  next
    case False
    then show thesis using assms Inr
      by (intro changed [OF row, of "\<lambda>r. r\<lparr>tl_state := Target_Released, tl_released_at := Some (clk e 0)\<rparr>"])
        (auto simp: release_target_def Let_def same_target_def)
  qed
qed

lemma reconcile_release_cases:
  assumes "reconcile_release e lid evidence db = (res, db')"
  obtains (same) "db' = db" "\<And>r. res \<noteq> Inr r"
  | (changed) row where "find_target lid db = Some row" "tl_state row = Target_Reconciliation" "is_sha256 evidence"
      "db' = db\<lparr>db_targets := update_rows (\<lambda>r. tl_lease_id r = lid)
         (\<lambda>r. r\<lparr>tl_state := Target_Released, tl_released_at := Some (clk e 0),
                tl_reconciliation_evidence_digest := Some evidence\<rparr>) (db_targets db)\<rparr>"
proof (cases "ebind (chk_digest lid) (\<lambda>lid. ebind (chk_digest evidence) (\<lambda>evidence.
             case find_target lid db of
               None \<Rightarrow> Inl (LeaseError Target_Not_Awaiting)
             | Some r \<Rightarrow> if tl_state r \<noteq> Target_Reconciliation then Inl (LeaseError Target_Not_Awaiting) else Inr (lid, evidence)))")
  case (Inl err)
  with assms show thesis by (intro same) (auto simp: reconcile_release_def)
next
  case (Inr z)
  then obtain row where row: "find_target lid db = Some row" "tl_state row = Target_Reconciliation" "is_sha256 evidence" "z = (lid, evidence)"
    by (auto simp: result_simps split: option.splits if_splits)
  with assms Inr show thesis by (intro changed [OF row(1-3)]) (auto simp: reconcile_release_def Let_def)
qed

lemma target_step_cases:
  assumes "target_step db db'"
  obtains (same) "db_targets db' = db_targets db" "db_fencing_counter db \<le> db_fencing_counter db'"
  | (fresh) row where "db_targets db' = db_targets db @ [row]"
      "db_fencing_counter db' = db_fencing_counter db + 1" "tl_fencing_token row = db_fencing_counter db'"
      "tl_state row = Target_Active" "tl_lease_id row \<notin> tl_lease_id ` set (db_targets db)"
      "ownership_conflict (tl_plan_digest row) (tl_alternative_group row) (tl_materialize_automatically row)
         (owners (tl_repository_id row) (tl_target_key row) db) = None"
  | (moved) sel f where "db_targets db' = update_rows sel f (db_targets db)" "db_fencing_counter db' = db_fencing_counter db"
      "\<And>r. same_target r (f r)"
      "\<And>r. target_ids db \<Longrightarrow> r \<in> set (db_targets db) \<Longrightarrow> sel r \<Longrightarrow> target_move r (f r)"
  using assms
proof cases
  case (acquire_it e repo plan member path grp automatic ttl res)
  from acquire_it show thesis
  proof (cases rule: acquire_target_cases)
    case same
    then show thesis by (intro that(1)) simp_all
  next
    case (expired sel)
    then show thesis
      by (intro moved [of sel "\<lambda>r. r\<lparr>tl_state := Target_Reconciliation\<rparr>"])
        (auto simp: set_target_state_def same_target_def target_move_def)
  next
    case (fresh row key rel)
    then show thesis by (intro that(2) [of row]) simp_all
  qed
next
  case (renew_it e lid member token ttl res)
  from renew_it show thesis
  proof (cases rule: renew_target_cases)
    case same
    then show thesis by (intro that(1)) simp_all
  next
    case (changed row f)
    have "target_move r (f r)" if "target_ids db" "r \<in> set (db_targets db)" "tl_lease_id r = lid" for r
      using find_target_unique [OF that(1) changed(1) that(2,3)] changed(2,6,7) by (auto simp: target_move_def)
    with changed(5,6) show thesis by (intro moved [of "\<lambda>r. tl_lease_id r = lid" f]) simp_all
  qed
next
  case (release_it e lid member token res)
  from release_it show thesis
  proof (cases rule: release_target_cases)
    case same
    then show thesis by (intro that(1)) simp_all
  next
    case (changed row f)
    have "target_move r (f r)" if "target_ids db" "r \<in> set (db_targets db)" "tl_lease_id r = lid" for r
      using find_target_unique [OF that(1) changed(1) that(2,3)] changed(2,6,7) by (auto simp: target_move_def)
    with changed(5,6) show thesis by (intro moved [of "\<lambda>r. tl_lease_id r = lid" f]) simp_all
  qed
next
  case (reconcile_it e lid evidence res)
  from reconcile_it show thesis
  proof (cases rule: reconcile_release_cases)
    case same
    then show thesis by (intro that(1)) simp_all
  next
    case (changed row)
    let ?f = "\<lambda>r. r\<lparr>tl_state := Target_Released, tl_released_at := Some (clk e 0),
                tl_reconciliation_evidence_digest := Some evidence\<rparr>"
    have "target_move r (?f r)" if "target_ids db" "r \<in> set (db_targets db)" "tl_lease_id r = lid" for r
      using find_target_unique [OF that(1) changed(1) that(2,3)] changed(2) by (auto simp: target_move_def same_target_def)
    with changed(4) show thesis
      by (intro moved [of "\<lambda>r. tl_lease_id r = lid" ?f]) (simp_all add: same_target_def)
  qed
qed (rule that(1))

definition target_tokens :: "runtime_db \<Rightarrow> int list" where
  "target_tokens db = map tl_fencing_token (db_targets db)"

interpretation targets: fenced_table db_fencing_counter target_tokens target_step
proof
  fix db db' assume "target_step db db'"
  then show "db_fencing_counter db \<le> db_fencing_counter db' \<and> (mset (target_tokens db') \<subseteq># mset (target_tokens db)
    \<or> db_fencing_counter db < db_fencing_counter db'
      \<and> mset (target_tokens db') \<subseteq># add_mset (db_fencing_counter db') (mset (target_tokens db)))"
  proof (cases rule: target_step_cases)
    case (moved sel f)
    then have "target_tokens db' = target_tokens db"
      by (simp add: target_tokens_def map_update_rows same_target_def)
    with moved(2) show ?thesis by simp
  qed (auto simp: target_tokens_def)
qed

section \<open>Ownership\<close>

text \<open>Two live owners of one path are named alternatives of one plan, not both automatic.\<close>

definition exclusive :: "target_row list \<Rightarrow> bool" where
  "exclusive rows \<longleftrightarrow> (\<forall>r \<in> set rows. \<forall>s \<in> set rows. tl_lease_id r \<noteq> tl_lease_id s
     \<and> tl_state r \<noteq> Target_Released \<and> tl_state s \<noteq> Target_Released \<and> tl_repository_id r = tl_repository_id s
     \<and> tl_target_key r = tl_target_key s \<longrightarrow>
       tl_plan_digest r = tl_plan_digest s \<and> tl_alternative_group r \<noteq> None \<and> tl_alternative_group r = tl_alternative_group s
       \<and> \<not> (tl_materialize_automatically r \<and> tl_materialize_automatically s))"

lemma ownership_conflict_None:
  assumes "ownership_conflict plan grp automatic active = None" "r \<in> set active"
  shows "tl_plan_digest r = plan" "grp \<noteq> None" "tl_alternative_group r = grp" "\<not> (automatic \<and> tl_materialize_automatically r)"
proof -
  have c: "active \<noteq> []" "\<not> list_ex (\<lambda>r. tl_plan_digest r \<noteq> plan) active" "grp \<noteq> None"
    "set (map tl_alternative_group active) = {grp}"
    "sum_list (map (\<lambda>r. if tl_materialize_automatically r then 1 else (0 :: nat)) active) + (if automatic then 1 else 0) \<le> 1"
    using assms by (auto simp: ownership_conflict_def split: if_splits)
  show "tl_plan_digest r = plan" using c(2) assms(2) by (auto simp: list_ex_iff)
  show "grp \<noteq> None" by (rule c(3))
  show "tl_alternative_group r = grp" using c(4) assms(2) by (metis imageI list.set_map singletonD)
  define total where "total = sum_list (map (\<lambda>r. if tl_materialize_automatically r then 1 else (0 :: nat)) active)"
  have "(if tl_materialize_automatically r then 1 else 0) \<le> total"
    unfolding total_def using assms(2) by (intro member_le_sum_list) (auto simp: image_iff)
  with c(5) [folded total_def] show "\<not> (automatic \<and> tl_materialize_automatically r)" by (auto split: if_splits)
qed

definition target_inv :: "runtime_db \<Rightarrow> bool" where
  "target_inv db \<longleftrightarrow> target_ids db \<and> targets.fenced db \<and> exclusive (db_targets db)"

lemma target_move_held: "target_move r r' \<Longrightarrow> tl_state r' \<noteq> Target_Released \<Longrightarrow> tl_state r \<noteq> Target_Released"
  by (auto simp: target_move_def)

lemma target_step_inv: "target_inv db \<Longrightarrow> target_step db db' \<Longrightarrow> target_inv db'"
proof -
  assume inv: "target_inv db" and st: "target_step db db'"
  have f: "targets.fenced db'" using targets.step_fenced [OF _ st] inv by (simp add: target_inv_def)
  from st have "target_ids db' \<and> exclusive (db_targets db')"
  proof (cases rule: target_step_cases)
    case (fresh row)
    have "target_ids db'" using inv fresh(1,5) by (auto simp: target_inv_def target_ids_def)
    moreover have o: "tl_plan_digest r = tl_plan_digest row" "tl_alternative_group row \<noteq> None"
        "tl_alternative_group r = tl_alternative_group row"
        "\<not> (tl_materialize_automatically row \<and> tl_materialize_automatically r)"
      if "r \<in> set (db_targets db)" "tl_state r \<noteq> Target_Released" "tl_repository_id r = tl_repository_id row"
        "tl_target_key r = tl_target_key row" for r
      using ownership_conflict_None [OF fresh(6), of r] that by (simp_all add: owners_set)
    have "exclusive (db_targets db')"
      unfolding exclusive_def
    proof (intro ballI impI)
      fix r s
      assume r: "r \<in> set (db_targets db')" and s: "s \<in> set (db_targets db')" and
        c: "tl_lease_id r \<noteq> tl_lease_id s \<and> tl_state r \<noteq> Target_Released \<and> tl_state s \<noteq> Target_Released
          \<and> tl_repository_id r = tl_repository_id s \<and> tl_target_key r = tl_target_key s"
      consider "r \<in> set (db_targets db)" "s \<in> set (db_targets db)" | "r = row" "s \<in> set (db_targets db)"
        | "r \<in> set (db_targets db)" "s = row"
        using r s c by (auto simp: fresh(1))
      then show "tl_plan_digest r = tl_plan_digest s \<and> tl_alternative_group r \<noteq> None \<and> tl_alternative_group r = tl_alternative_group s
          \<and> \<not> (tl_materialize_automatically r \<and> tl_materialize_automatically s)"
      proof cases
        case 1
        with inv c show ?thesis unfolding target_inv_def exclusive_def by blast
      next
        case 2
        with o [of s] c show ?thesis by simp
      next
        case 3
        with o [of r] c show ?thesis by auto
      qed
    qed
    ultimately show ?thesis by simp
  next
    case (moved sel f)
    have ids: "target_ids db" using inv by (simp add: target_inv_def)
    have m: "\<exists>r0 \<in> set (db_targets db). same_target r0 r \<and> (tl_state r \<noteq> Target_Released \<longrightarrow> tl_state r0 \<noteq> Target_Released)"
      if "r \<in> set (db_targets db')" for r
    proof -
      from that obtain r0 where r0: "r0 \<in> set (db_targets db)" "r = (if sel r0 then f r0 else r0)"
        by (auto simp: moved(1) set_update_rows)
      show ?thesis
      proof (cases "sel r0")
        case True
        with r0 moved(3) target_move_held [OF moved(4) [OF ids r0(1) True]] show ?thesis by auto
      next
        case False
        with r0 show ?thesis by (auto simp: same_target_def)
      qed
    qed
    have "target_ids db'" using ids moved(3) by (simp add: target_ids_def moved(1) map_update_rows same_target_def)
    moreover have "exclusive (db_targets db')"
      unfolding exclusive_def
    proof (intro ballI impI)
      fix r s
      assume r: "r \<in> set (db_targets db')" and s: "s \<in> set (db_targets db')" and
        c: "tl_lease_id r \<noteq> tl_lease_id s \<and> tl_state r \<noteq> Target_Released \<and> tl_state s \<noteq> Target_Released
          \<and> tl_repository_id r = tl_repository_id s \<and> tl_target_key r = tl_target_key s"
      obtain r0 s0 where "r0 \<in> set (db_targets db)" "same_target r0 r" "tl_state r0 \<noteq> Target_Released"
        "s0 \<in> set (db_targets db)" "same_target s0 s" "tl_state s0 \<noteq> Target_Released"
        using m [OF r] m [OF s] c by blast
      with inv c show "tl_plan_digest r = tl_plan_digest s \<and> tl_alternative_group r \<noteq> None \<and> tl_alternative_group r = tl_alternative_group s
          \<and> \<not> (tl_materialize_automatically r \<and> tl_materialize_automatically s)"
        unfolding target_inv_def exclusive_def same_target_def by metis
    qed
    ultimately show ?thesis by simp
  qed (use inv in \<open>simp add: target_inv_def target_ids_def\<close>)
  with f show "target_inv db'" by (simp add: target_inv_def)
qed

interpretation target_steps: step_system "\<lambda>db. db = initial_db" target_step target_inv
  by unfold_locales
    (simp add: target_inv_def target_ids_def targets.fenced_def target_tokens_def exclusive_def initial_db_def, rule target_step_inv)


text \<open>C13. A path has one owner: in every database the operations can reach, two different leases
  that hold one path of one repository are named alternatives of the same plan, in the same group,
  and not both of them materialise automatically.\<close>

theorem target_ownership_exclusive:
  assumes "target_step\<^sup>*\<^sup>* initial_db db" and "r \<in> set (db_targets db)" "s \<in> set (db_targets db)"
    and "tl_lease_id r \<noteq> tl_lease_id s" "tl_state r \<noteq> Target_Released" "tl_state s \<noteq> Target_Released"
    and "tl_repository_id r = tl_repository_id s" "tl_target_key r = tl_target_key s"
  shows "tl_plan_digest r = tl_plan_digest s \<and> tl_alternative_group r \<noteq> None
    \<and> tl_alternative_group r = tl_alternative_group s
    \<and> \<not> (tl_materialize_automatically r \<and> tl_materialize_automatically s)"
proof -
  have "exclusive (db_targets db)"
    using target_steps.reachable_inv [OF refl assms(1)] by (simp add: target_inv_def)
  then show ?thesis unfolding exclusive_def using assms(2-) by blast
qed

section \<open>The life of a lease\<close>

definition target_life :: "target_row \<Rightarrow> target_row \<Rightarrow> bool" where
  "target_life r r' \<longleftrightarrow> same_target r r' \<and> (tl_state r = Target_Released \<longrightarrow> r' = r)
     \<and> (tl_state r = Target_Reconciliation \<longrightarrow>
          r' = r \<or> tl_state r' = Target_Released \<and> tl_reconciliation_evidence_digest r' \<noteq> None)"

lemma same_target_trans: "same_target r s \<Longrightarrow> same_target s t \<Longrightarrow> same_target r t"
  by (simp add: same_target_def)

lemma target_life_trans: "target_life r s \<Longrightarrow> target_life s t \<Longrightarrow> target_life r t"
  unfolding target_life_def by (meson same_target_trans)

lemma target_life_refl: "target_life r r"
  by (simp add: target_life_def same_target_def)

lemma target_kept:
  assumes "target_ids db" "target_step db db'" "find_target lid db = Some r"
  shows "\<exists>r'. find_target lid db' = Some r' \<and> target_life r r'"
  using assms(2)
proof (cases rule: target_step_cases)
  case same
  with assms(3) target_life_refl show ?thesis by (auto simp: find_target_def)
next
  case (fresh row)
  with assms(3) have "find_target lid db' = Some r" by (simp add: find_target_def lookup_row_append)
  with target_life_refl show ?thesis by blast
next
  case (moved sel f)
  let ?r' = "if sel r then f r else r"
  note r = find_target_Some [OF assms(3)]
  have ids: "distinct (map tl_lease_id (db_targets db'))"
    using assms(1) moved(3) by (simp add: target_ids_def moved(1) map_update_rows same_target_def)
  have m: "?r' \<in> set (db_targets db')" using r by (auto simp: moved(1) set_update_rows)
  have k: "tl_lease_id ?r' = lid" using r moved(3) [of r] by (simp add: same_target_def)
  have f: "find_target lid db' = Some ?r'"
    using ids m k unfolding find_target_def by (rule lookup_row_unique)
  moreover have "target_life r ?r'"
  proof (cases "sel r")
    case True
    with moved(3) [of r] moved(4) [OF assms(1) conjunct1 [OF r]] show ?thesis
      by (auto simp: target_life_def target_move_def)
  next
    case False
    with target_life_refl show ?thesis by simp
  qed
  ultimately show ?thesis by blast
qed

text \<open>A lease is never lost and never comes back: after any sequence of operations it is still
  stored, for the same path, plan and member and under the same fencing token; once released it does
  not change any more, and once it needs reconciliation it can only be released with evidence, never
  become active again.\<close>

theorem target_lease_life:
  assumes "target_step\<^sup>*\<^sup>* initial_db db" and "find_target lid db = Some r" and "target_step\<^sup>*\<^sup>* db db'"
  shows "\<exists>r'. find_target lid db' = Some r' \<and> same_target r r'
    \<and> (tl_state r = Target_Released \<longrightarrow> r' = r)
    \<and> (tl_state r = Target_Reconciliation \<longrightarrow>
         r' = r \<or> tl_state r' = Target_Released \<and> tl_reconciliation_evidence_digest r' \<noteq> None)"
proof -
  from assms(3) have "\<exists>r'. find_target lid db' = Some r' \<and> target_life r r'"
  proof (induction rule: rtranclp_induct)
    case base
    with assms(2) target_life_refl show ?case by blast
  next
    case (step d d')
    then obtain s where s: "find_target lid d = Some s" "target_life r s" by blast
    have "target_step\<^sup>*\<^sup>* initial_db d" using assms(1) step.hyps(1) by simp
    then have "target_ids d" using target_steps.reachable_inv [OF refl] by (simp add: target_inv_def)
    from target_kept [OF this step.hyps(2) s(1)] s(2) show ?case using target_life_trans by blast
  qed
  then show ?thesis by (auto simp: target_life_def)
qed

text \<open>An owner that let its lease expire blocks the path: while a lease on it is expired or needs
  reconciliation, no acquisition adds an owner, whichever member of whichever plan asks. What
  \<open>acquire\<close> may still return is a live lease the caller already holds.\<close>

theorem expired_owner_blocks_path:
  assumes "acquire_target e repo plan member path grp automatic ttl db = (res, db')"
    and "r \<in> set (db_targets db)" "tl_repository_id r = rp_repository_id repo"
    and "normalize_target (sha e) repo path = Inr (rel, tl_target_key r)"
    and "tl_state r = Target_Reconciliation \<or> tl_state r = Target_Active \<and> tl_expires_at r \<le> clk e 0"
  shows "map tl_lease_id (db_targets db') = map tl_lease_id (db_targets db)
    \<and> (\<forall>row. res = Inr row \<longrightarrow> row \<in> set (db_targets db) \<and> row \<noteq> r \<and> clk e 0 < tl_expires_at row)"
  using assms(1)
proof (cases rule: acquire_target_cases)
  case same
  with assms(5) show ?thesis by auto
next
  case (expired sel)
  then show ?thesis by (simp add: set_target_state_def map_update_rows)
next
  case (fresh row key rel')
  let ?active = "owners (rp_repository_id repo) key db"
  have r: "r \<in> set ?active" using fresh(14) assms by (auto simp: owners_set)
  then have "tl_state r \<noteq> Target_Reconciliation"
    using fresh(13) by (auto simp: ownership_conflict_def list_ex_iff split: if_splits)
  with r fresh(15) assms(5) show ?thesis by fastforce
qed

section \<open>An example\<close>

text \<open>Two alternatives of one plan on one path, under a hash that tells their two leases apart.\<close>

abbreviation dg :: "char \<Rightarrow> string" where
  "dg c \<equiv> replicate 64 c"

definition ex_repository :: repository where
  "ex_repository = \<lparr>rp_repository_id = ''repo'', rp_escapes = (\<lambda>_. False)\<rparr>"

definition ex_lease_document :: "char \<Rightarrow> json" where
  "ex_lease_document c = JObj [(''repository_id'', JStr ''repo''), (''target_key'', JStr (dg CHR ''a'')),
     (''plan_digest'', JStr (dg CHR ''a'')), (''member_digest'', JStr (dg c))]"

definition pair_sha :: "string \<Rightarrow> string" where
  "pair_sha s = dg (if s = ''target_path_lease_v1'' @ CHR 0x00 # enc (json_norm (ex_lease_document CHR ''b''))
                    then CHR ''b'' else CHR ''a'')"

definition target_env :: "int \<Rightarrow> env" where
  "target_env t = \<lparr>sha = pair_sha, uid = (\<lambda>_. []), clk = (\<lambda>_. seconds t), sql_sum = sum_list\<rparr>"

definition ex_target :: "char \<Rightarrow> char \<Rightarrow> bool \<Rightarrow> int \<Rightarrow> int \<Rightarrow> target_row" where
  "ex_target lid member automatic token t =
     \<lparr>tl_lease_id = dg lid, tl_repository_id = ''repo'', tl_target_key = dg CHR ''a'', tl_plan_digest = dg CHR ''a'',
      tl_member_digest = dg member, tl_alternative_group = Some ''g'', tl_materialize_automatically = automatic,
      tl_state = Target_Active, tl_fencing_token = token, tl_acquired_at = seconds t, tl_expires_at = seconds t + seconds 60,
      tl_released_at = None, tl_reconciliation_evidence_digest = None\<rparr>"

definition ex_targets :: "target_row list" where
  "ex_targets = [ex_target CHR ''b'' CHR ''b'' True 1 0, ex_target CHR ''a'' CHR ''c'' False 2 1]"

lemma wf_lease_document [simp]: "wf_json (ex_lease_document c)"
  by (simp add: ex_lease_document_def)

lemma ex_documents: "enc (json_norm (ex_lease_document CHR ''c'')) \<noteq> enc (json_norm (ex_lease_document CHR ''b''))"
proof
  assume "enc (json_norm (ex_lease_document CHR ''c'')) = enc (json_norm (ex_lease_document CHR ''b''))"
  then have "enc (json_norm (ex_lease_document CHR ''c'')) @ [] = enc (json_norm (ex_lease_document CHR ''b'')) @ []" by simp
  then have "json_norm (ex_lease_document CHR ''c'') = json_norm (ex_lease_document CHR ''b'')"
    by (intro conjunct1 [OF enc_prefix_free(1) [of _ _ "[]" "[]"]]) simp_all
  then show False by (simp add: ex_lease_document_def)
qed

lemma ex_ids:
  "target_lease_id pair_sha ex_repository (dg CHR ''a'') (dg CHR ''a'') (dg CHR ''b'') = dg CHR ''b''"
  "target_lease_id pair_sha ex_repository (dg CHR ''a'') (dg CHR ''a'') (dg CHR ''c'') = dg CHR ''a''"
  "normalize_target pair_sha ex_repository ''a'' = Inr (''a'', dg CHR ''a'')"
proof -
  have "target_lease_id pair_sha ex_repository (dg CHR ''a'') (dg CHR ''a'') (dg c) = 
     pair_sha (''target_path_lease_v1'' @ CHR 0x00 # enc (json_norm (ex_lease_document c)))" for c
    by (simp add: target_lease_id_def sha256_hex_def ex_lease_document_def ex_repository_def)
  with ex_documents show "target_lease_id pair_sha ex_repository (dg CHR ''a'') (dg CHR ''a'') (dg CHR ''b'') = dg CHR ''b''"
    "target_lease_id pair_sha ex_repository (dg CHR ''a'') (dg CHR ''a'') (dg CHR ''c'') = dg CHR ''a''"
    by (simp_all add: pair_sha_def)
  have "normalize_repository_relative_path ''a'' = Inr ''a''" by code_simp
  then show "normalize_target pair_sha ex_repository ''a'' = Inr (''a'', dg CHR ''a'')"
    by (simp add: normalize_target_def ex_repository_def target_key_of_def sha256_hex_def pair_sha_def)
qed

lemma ex_repo_id: "rp_repository_id ex_repository = ''repo''"
  by (simp add: ex_repository_def)

lemma dg_props [simp]: "is_sha256 (dg CHR ''a'')" "is_sha256 (dg CHR ''b'')" "is_sha256 (dg CHR ''c'')" "is_identifier ''g''"
  by code_simp+

lemma dg_eq [simp]: "dg c = dg d \<longleftrightarrow> c = d"
  by (auto dest: arg_cong [of _ _ hd])

definition ex_one :: runtime_db where
  "ex_one = initial_db\<lparr>db_fencing_counter := 1, db_targets := [ex_target CHR ''b'' CHR ''b'' True 1 0]\<rparr>"

definition ex_two :: runtime_db where
  "ex_two = initial_db\<lparr>db_fencing_counter := 2, db_targets := ex_targets\<rparr>"

lemma ex_acquire_one:
  "acquire_target (target_env 0) ex_repository (dg CHR ''a'') (dg CHR ''b'') ''a'' (Some ''g'') True 60 initial_db
   = (Inr (ex_target CHR ''b'' CHR ''b'' True 1 0), ex_one)"
  unfolding acquire_target_def
  by (simp add: ex_ids target_env_def Let_def chk_digest_def chk_optional_def chk_identifier_def chk_range_def find_target_def initial_db_def
    owners_def ownership_conflict_def ex_repo_id ex_target_def ex_one_def bump_fencing_def)

lemma ex_acquire_two:
  "acquire_target (target_env 1) ex_repository (dg CHR ''a'') (dg CHR ''c'') ''a'' (Some ''g'') False 60 ex_one
   = (Inr (ex_target CHR ''a'' CHR ''c'' False 2 1), ex_two)"
  unfolding acquire_target_def
  by (simp add: ex_ids target_env_def Let_def chk_digest_def chk_optional_def chk_identifier_def chk_range_def find_target_def initial_db_def
    owners_def ownership_conflict_def ex_repo_id ex_target_def ex_one_def ex_two_def ex_targets_def bump_fencing_def seconds_def)

lemma ex_two_reachable: "target_step\<^sup>*\<^sup>* initial_db ex_one" "target_step\<^sup>*\<^sup>* initial_db ex_two"
  using acquire_it [OF ex_acquire_one] acquire_it [OF ex_acquire_two] by auto


theorem target_ownership_exclusive_witness:
  "\<not> (tl_materialize_automatically (ex_target CHR ''b'' CHR ''b'' True 1 0)
      \<and> tl_materialize_automatically (ex_target CHR ''a'' CHR ''c'' False 2 1))"
  using target_ownership_exclusive [OF ex_two_reachable(2), of "ex_target CHR ''b'' CHR ''b'' True 1 0" "ex_target CHR ''a'' CHR ''c'' False 2 1"]
  by (simp add: ex_two_def ex_targets_def ex_target_def)

theorem target_lease_life_witness:
  "\<exists>r'. find_target (dg CHR ''b'') ex_two = Some r' \<and> same_target (ex_target CHR ''b'' CHR ''b'' True 1 0) r'"
proof -
  have "find_target (dg CHR ''b'') ex_one = Some (ex_target CHR ''b'' CHR ''b'' True 1 0)"
    by (simp add: find_target_def ex_one_def ex_target_def)
  moreover have "target_step\<^sup>*\<^sup>* ex_one ex_two" using acquire_it [OF ex_acquire_two] by blast
  ultimately show ?thesis using target_lease_life [OF ex_two_reachable(1)] by blast
qed

text \<open>A minute later the first lease has expired, and a third member is turned away.\<close>

theorem expired_owner_blocks_path_witness:
  "\<exists>err db'. acquire_target (target_env 60) ex_repository (dg CHR ''b'') (dg CHR ''c'') ''a'' (Some ''g'') False 60 ex_one
     = (Inl err, db')"
proof -
  obtain res db' where a: "acquire_target (target_env 60) ex_repository (dg CHR ''b'') (dg CHR ''c'') ''a'' (Some ''g'') False 60 ex_one
     = (res, db')" by fastforce
  have "\<forall>row. res \<noteq> Inr row"
    using expired_owner_blocks_path [OF a, of "ex_target CHR ''b'' CHR ''b'' True 1 0" "''a''"] ex_ids(3)
    by (auto simp: ex_one_def ex_target_def ex_repo_id target_env_def seconds_def)
  with a show ?thesis by (cases res) auto
qed

end
