(* ===== verification/PlanQueue.thy ===== *)
theory PlanQueue
  imports BatchAuthorityProps TargetLeases
begin

text \<open>
  \<open>src/src/macr_runtime/scheduler.py\<close>: the queue of the members of a plan. A plan is enqueued once
  under a batch authority; dispatchers claim its members in order, one attempt each, under a fencing
  token and a lease, while the costs claimed and spent stay below the aggregate ceiling; a claim ends
  completed, failed, back in the queue, or in need of reconciliation.
\<close>

section \<open>Plans\<close>

record target_claim =
  cl_target_key :: string
  cl_alternative_group :: "string option"
  cl_materialize_automatically :: bool

definition target_claim_create :: "string \<Rightarrow> string option \<Rightarrow> bool \<Rightarrow> target_claim result" where
  "target_claim_create key grp automatic =
     ebind (chk_digest key) (\<lambda>key.
     ebind (chk_optional chk_identifier grp) (\<lambda>grp.
       Inr \<lparr>cl_target_key = key, cl_alternative_group = grp, cl_materialize_automatically = automatic\<rparr>))"

definition claim_for_path ::
  "(string \<Rightarrow> string) \<Rightarrow> string \<Rightarrow> string option \<Rightarrow> bool \<Rightarrow> target_claim result" where
  "claim_for_path h path grp automatic =
     ebind (normalize_repository_relative_path path) (\<lambda>p.
       target_claim_create (sha256_hex h ''plan_target_path_v1'' (JObj [(''path'', JStr p)])) grp automatic)"

definition claim_to_dict :: "target_claim \<Rightarrow> json" where
  "claim_to_dict c =
     JObj [(''target_key'', JStr (cl_target_key c)), (''alternative_group'', jstr (cl_alternative_group c)),
           (''materialize_automatically'', JBool (cl_materialize_automatically c))]"

text \<open>A queue member is a batch member with the binding of its provider tier and its target claims.\<close>

record queue_member =
  batch_member +
  qm_provider_tier_binding_digest :: "string option"
  qm_target_claims :: "target_claim list"

definition authority_scope_of :: "queue_member \<Rightarrow> batch_member" where
  "authority_scope_of m = batch_member.truncate m"

definition queue_member_create :: "batch_member result \<Rightarrow> string option \<Rightarrow> target_claim list \<Rightarrow> queue_member result" where
  "queue_member_create scope tier claims =
     ebind scope (\<lambda>b.
       if \<not> distinct (map cl_target_key claims) then Inl (ValueError Bad_Duplicates)
       else ebind (chk_optional chk_digest tier) (\<lambda>tier.
         Inr (batch_member.extend b (queue_member.fields tier claims))))"

definition queue_member_to_dict :: "queue_member \<Rightarrow> json" where
  "queue_member_to_dict m =
     (case member_to_dict (authority_scope_of m) of
        JObj kvs \<Rightarrow> JObj (kvs @ [(''provider_tier_binding_digest'', jstr (qm_provider_tier_binding_digest m)),
                               (''target_claims'', JList (map claim_to_dict (qm_target_claims m)))])
      | v \<Rightarrow> v)"

record queue_plan =
  qp_plan_digest :: string
  qp_members :: "queue_member list"
  qp_aggregate_cost_ceiling_usd :: string
  qp_authority :: batch_reference
  qp_project_binding_digest :: "string option"
  qp_admission_lane :: "lane option"
  qp_provider_admission_policy_digest :: "string option"

definition lane_of_text :: "string \<Rightarrow> lane result" where
  "lane_of_text t =
     (if t = ''interactive'' then Inr Interactive else if t = ''routine'' then Inr Routine
      else if t = ''bulk'' then Inr Bulk else Inl (ValueError Bad_Lane))"

definition queue_plan_create ::
  "string \<Rightarrow> queue_member list \<Rightarrow> json \<Rightarrow> batch_reference \<Rightarrow> string option \<Rightarrow> string option \<Rightarrow> string option
     \<Rightarrow> queue_plan result" where
  "queue_plan_create plan members aggregate ref project lane_text policy =
     ebind (chk_digest plan) (\<lambda>plan.
       if members = [] then Inl (ValueError Bad_Array)
       else if \<not> distinct (map bm_member_digest members) then Inl (ValueError Bad_Duplicates)
       else
         ebind (cost_of aggregate) (\<lambda>aggregate.
           if br_plan_digest ref \<noteq> plan then Inl (ValueError Bad_Digest)
           else
             ebind (chk_optional chk_digest project) (\<lambda>project.
             ebind (case lane_text of None \<Rightarrow> Inr None | Some t \<Rightarrow> ebind (lane_of_text t) (\<lambda>l. Inr (Some l))) (\<lambda>lane.
             ebind (chk_optional chk_digest policy) (\<lambda>policy.
               Inr \<lparr>qp_plan_digest = plan, qp_members = members, qp_aggregate_cost_ceiling_usd = aggregate,
                    qp_authority = ref, qp_project_binding_digest = project, qp_admission_lane = lane,
                    qp_provider_admission_policy_digest = policy\<rparr>)))))"

section \<open>Collisions\<close>

text \<open>\<open>claims[claim.target_key].append(claim)\<close>: the claims per target, in the order the targets
  first occur.\<close>

fun add_claim :: "target_claim \<Rightarrow> (string \<times> target_claim list) list \<Rightarrow> (string \<times> target_claim list) list" where
  "add_claim c [] = [(cl_target_key c, [c])]"
| "add_claim c ((k, cs) # rest) =
     (if k = cl_target_key c then (k, cs @ [c]) # rest else (k, cs) # add_claim c rest)"

definition claims_by_target :: "queue_member list \<Rightarrow> (string \<times> target_claim list) list" where
  "claims_by_target members = fold add_claim (concat (map qm_target_claims members)) []"

definition check_target :: "target_claim list \<Rightarrow> unit result" where
  "check_target cs =
     (if length cs < 2 then Inr ()
      else if None \<in> set (map cl_alternative_group cs) \<or> length (remdups (map cl_alternative_group cs)) \<noteq> 1
      then Inl (LeaseError Target_No_Group)
      else if length (filter cl_materialize_automatically cs) > 1 then Inl (LeaseError Target_Two_Automatic)
      else Inr ())"

definition validate_collisions :: "queue_member list \<Rightarrow> unit result" where
  "validate_collisions members = all_ok (map (\<lambda>(k, cs). check_target cs) (claims_by_target members))"

section \<open>Enqueueing\<close>

definition members_digest :: "(string \<Rightarrow> string) \<Rightarrow> queue_member list \<Rightarrow> string" where
  "members_digest h members = sha256_hex h ''plan_queue_members_v1'' (JList (map queue_member_to_dict members))"

definition queue_member_id :: "(string \<Rightarrow> string) \<Rightarrow> string \<Rightarrow> nat \<Rightarrow> string \<Rightarrow> string" where
  "queue_member_id h plan i digest =
     sha256_hex h ''plan_queue_member_v1''
       (JObj [(''plan_digest'', JStr plan), (''ordinal'', JInt (int i)), (''member_digest'', JStr digest)])"

definition queue_member_ids :: "(string \<Rightarrow> string) \<Rightarrow> queue_plan \<Rightarrow> string list" where
  "queue_member_ids h plan =
     map (\<lambda>(i, m). queue_member_id h (qp_plan_digest plan) i (bm_member_digest m)) (enumerate 0 (qp_members plan))"

definition find_batch :: "string \<Rightarrow> runtime_db \<Rightarrow> batch_row option" where
  "find_batch plan db = lookup_row (\<lambda>b. ba_plan_digest b = plan) (db_batches db)"

definition find_member :: "string \<Rightarrow> runtime_db \<Rightarrow> member_row option" where
  "find_member mid db = lookup_row (\<lambda>m. me_member_id m = mid) (db_members db)"

text \<open>\<open>SELECT * FROM plan_queue_members WHERE plan_digest = ? ORDER BY ordinal\<close>.\<close>

definition plan_members :: "string \<Rightarrow> runtime_db \<Rightarrow> member_row list" where
  "plan_members plan db = sort_key me_ordinal (filter (\<lambda>m. me_plan_digest m = plan) (db_members db))"

definition new_batch_row ::
  "(string \<Rightarrow> string) \<Rightarrow> queue_plan \<Rightarrow> batch_scope \<Rightarrow> int \<Rightarrow> batch_row" where
  "new_batch_row h plan scope now =
     \<lparr>ba_plan_digest = qp_plan_digest plan, ba_authority_id = br_authority_id (qp_authority plan),
      ba_authority_digest = br_digest (qp_authority plan), ba_authority_revision = br_revision (qp_authority plan),
      ba_aggregate_cost_ceiling_usd = qp_aggregate_cost_ceiling_usd plan,
      ba_authorized_dispatchers = bs_authorized_dispatchers scope, ba_expires_at = bs_expires_at scope,
      ba_members_sha256 = members_digest h (qp_members plan), ba_enqueued_at = now,
      ba_project_binding_digest = qp_project_binding_digest plan, ba_admission_lane = qp_admission_lane plan,
      ba_provider_admission_policy_digest = qp_provider_admission_policy_digest plan\<rparr>"

definition batch_matches :: "batch_row \<Rightarrow> batch_row \<Rightarrow> bool" where
  "batch_matches old new \<longleftrightarrow>
     ba_authority_id old = ba_authority_id new \<and> ba_authority_digest old = ba_authority_digest new
     \<and> ba_authority_revision old = ba_authority_revision new
     \<and> float_value (ba_aggregate_cost_ceiling_usd old) = float_value (ba_aggregate_cost_ceiling_usd new)
     \<and> ba_authorized_dispatchers old = ba_authorized_dispatchers new \<and> ba_expires_at old = ba_expires_at new
     \<and> ba_members_sha256 old = ba_members_sha256 new
     \<and> ba_project_binding_digest old = ba_project_binding_digest new
     \<and> ba_admission_lane old = ba_admission_lane new
     \<and> ba_provider_admission_policy_digest old = ba_provider_admission_policy_digest new"

definition new_member_row :: "string \<Rightarrow> nat \<Rightarrow> queue_member \<Rightarrow> string \<Rightarrow> member_row" where
  "new_member_row plan i m mid =
     \<lparr>me_member_id = mid, me_plan_digest = plan, me_ordinal = int i, me_member_digest = bm_member_digest m,
      me_provider_id = bm_provider_id m, me_route_id = bm_route_id m, me_role_digest = bm_role_digest m,
      me_privacy = bm_privacy m, me_context_class = bm_context_class m,
      me_cost_ceiling_usd = bm_cost_ceiling_usd m, me_state = Queued, me_lease_holder = None,
      me_fencing_token = None, me_lease_expires_at = None, me_attempts = 0, me_terminal_at = None,
      me_terminal_evidence_digest = None, me_observed_cost_usd = None,
      me_provider_tier_binding_digest = qm_provider_tier_binding_digest m\<rparr>"

definition new_claim_rows :: "string \<Rightarrow> queue_member \<Rightarrow> string \<Rightarrow> claim_row list" where
  "new_claim_rows plan m mid =
     map (\<lambda>c. \<lparr>tc_plan_digest = plan, tc_target_key = cl_target_key c, tc_member_id = mid,
               tc_alternative_group = cl_alternative_group c,
               tc_materialize_automatically = cl_materialize_automatically c\<rparr>) (qm_target_claims m)"

text \<open>The rows of a plan.\<close>

definition plan_rows :: "(string \<Rightarrow> string) \<Rightarrow> queue_plan \<Rightarrow> member_row list" where
  "plan_rows h plan =
     map (\<lambda>(i, m). new_member_row (qp_plan_digest plan) i m
            (queue_member_id h (qp_plan_digest plan) i (bm_member_digest m))) (enumerate 0 (qp_members plan))"

definition plan_claims :: "(string \<Rightarrow> string) \<Rightarrow> queue_plan \<Rightarrow> claim_row list" where
  "plan_claims h plan =
     concat (map (\<lambda>(m, mid). new_claim_rows (qp_plan_digest plan) m mid)
       (zip (qp_members plan) (queue_member_ids h plan)))"

text \<open>The constraints of the three tables on the new rows: primary keys, \<open>UNIQUE\<close> pairs and the
  reference to the authority.\<close>

definition rows_admissible :: "batch_row \<Rightarrow> member_row list \<Rightarrow> claim_row list \<Rightarrow> runtime_db \<Rightarrow> bool" where
  "rows_admissible b ms cs db \<longleftrightarrow>
     find_batch_authority (ba_authority_id b) db \<noteq> None
     \<and> distinct (map me_member_id (db_members db @ ms))
     \<and> distinct (map (\<lambda>m. (me_plan_digest m, me_ordinal m)) (db_members db @ ms))
     \<and> distinct (map (\<lambda>m. (me_plan_digest m, me_member_digest m)) (db_members db @ ms))
     \<and> distinct (map (\<lambda>c. (tc_plan_digest c, tc_target_key c, tc_member_id c)) (db_claims db @ cs))"

text \<open>\<open>enqueue\<close> reads the authority before its transaction, in the database \<open>seen\<close>.\<close>

definition enqueue :: "env \<Rightarrow> queue_plan \<Rightarrow> runtime_db \<Rightarrow> runtime_db \<Rightarrow> string list result \<times> runtime_db" where
  "enqueue e plan seen db =
     (case ebind (dispatcher_scope (sha e) (clk e 0) (qp_authority plan) None seen) (\<lambda>scope.
             if bs_plan_digest scope \<noteq> qp_plan_digest plan then Inl (AuthError Batch_Plan_Mismatch)
             else if \<not> list_all2 member_eq (bs_ordered_members scope) (map authority_scope_of (qp_members plan))
             then Inl (AuthError Batch_Member_Mismatch)
             else if float_value (bs_aggregate_cost_ceiling_usd scope) \<noteq> float_value (qp_aggregate_cost_ceiling_usd plan)
             then Inl (AuthError Batch_Cost_Mismatch)
             else ebind (validate_collisions (qp_members plan)) (\<lambda>_. Inr scope)) of
        Inl err \<Rightarrow> (Inl err, db)
      | Inr scope \<Rightarrow>
          (let b = new_batch_row (sha e) plan scope (clk e 1) in
           case find_batch (qp_plan_digest plan) db of
             Some old \<Rightarrow>
               if \<not> batch_matches old b then (Inl (LeaseError Queue_Conflict), db)
               else (Inr (map me_member_id (plan_members (qp_plan_digest plan) db)), db)
           | None \<Rightarrow>
               let ms = plan_rows (sha e) plan; cs = plan_claims (sha e) plan in
               if \<not> rows_admissible b ms cs db then (Inl IntegrityError, db)
               else (Inr (queue_member_ids (sha e) plan),
                     db\<lparr>db_batches := db_batches db @ [b], db_members := db_members db @ ms,
                        db_claims := db_claims db @ cs\<rparr>)))"

end
