(* ===== verification/QueueClaims.thy ===== *)
theory QueueClaims
  imports PlanQueue
begin

text \<open>
  \<open>src/src/macr_runtime/scheduler.py\<close>, the rest of \<open>PlanQueue\<close>: claiming the next member, renewing
  and ending a claim, reconciliation, and the reading operations. An operation that runs two
  transactions takes a function \<open>between\<close>: what other processes commit between the two.
\<close>

section \<open>Claims\<close>

text \<open>\<open>QueueCandidate\<close> and \<open>QueueClaim\<close>, whose fields the code lists with those of the candidate.\<close>

record queue_candidate =
  qc_member_id :: string
  qc_plan_digest :: string
  qc_ordinal :: int
  qc_member_digest :: string
  qc_provider_id :: string
  qc_route_id :: string
  qc_role_digest :: string
  qc_privacy :: string
  qc_context_class :: string
  qc_cost_ceiling_usd :: string
  qc_provider_tier_binding_digest :: "string option"

record queue_claim =
  queue_candidate +
  qc_dispatcher_id :: string
  qc_fencing_token :: int
  qc_lease_expires_at :: int
  qc_attempts :: int

definition candidate_of :: "member_row \<Rightarrow> queue_candidate" where
  "candidate_of m =
     \<lparr>qc_member_id = me_member_id m, qc_plan_digest = me_plan_digest m, qc_ordinal = me_ordinal m,
      qc_member_digest = me_member_digest m, qc_provider_id = me_provider_id m, qc_route_id = me_route_id m,
      qc_role_digest = me_role_digest m, qc_privacy = me_privacy m, qc_context_class = me_context_class m,
      qc_cost_ceiling_usd = me_cost_ceiling_usd m,
      qc_provider_tier_binding_digest = me_provider_tier_binding_digest m\<rparr>"

definition claim_of :: "member_row \<Rightarrow> string \<Rightarrow> int \<Rightarrow> int \<Rightarrow> int \<Rightarrow> queue_claim" where
  "claim_of m dispatcher token expires attempts =
     queue_candidate.extend (candidate_of m) (queue_claim.fields dispatcher token expires attempts)"

text \<open>\<open>_mark_expired_claims\<close>: a comparison with \<open>NULL\<close> is not true.\<close>

definition claim_expired :: "int \<Rightarrow> member_row \<Rightarrow> bool" where
  "claim_expired now m \<longleftrightarrow>
     me_state m = Claimed \<and> (case me_lease_expires_at m of None \<Rightarrow> False | Some t \<Rightarrow> t \<le> now)"

definition mark_expired_claims :: "int \<Rightarrow> runtime_db \<Rightarrow> runtime_db" where
  "mark_expired_claims now db =
     db\<lparr>db_members := update_rows (claim_expired now)
          (\<lambda>m. m\<lparr>me_state := Member_Reconciliation, me_terminal_at := Some now\<rparr>) (db_members db)\<rparr>"

definition reference_from_row :: "batch_row \<Rightarrow> batch_reference result" where
  "reference_from_row b =
     batch_reference_post_init
       \<lparr>br_authority_id = ba_authority_id b, br_digest = ba_authority_digest b,
        br_revision = ba_authority_revision b, br_plan_digest = ba_plan_digest b\<rparr>"

definition scope_member_from_row :: "member_row \<Rightarrow> batch_member result" where
  "scope_member_from_row m =
     member_create (me_member_digest m) (me_provider_id m) (me_route_id m) (me_role_digest m) (me_privacy m)
       (me_context_class m) (JFloat (me_cost_ceiling_usd m))"

text \<open>The queued members joined with their batches, by plan and ordinal.\<close>

definition claimable_rows :: "string option \<Rightarrow> runtime_db \<Rightarrow> (member_row \<times> batch_row) list" where
  "claimable_rows plan db =
     concat (map (\<lambda>m. map (Pair m) (filter (\<lambda>b. ba_plan_digest b = me_plan_digest m) (db_batches db)))
       (sort_key (\<lambda>m. (me_plan_digest m, me_ordinal m))
         (filter (\<lambda>m. me_state m = Queued \<and> (plan = None \<or> plan = Some (me_plan_digest m))) (db_members db))))"

text \<open>The loop of \<open>claim\<close> and \<open>peek_claimable\<close> over the rows: one the authority refuses is passed over,
  one that disagrees with its authority ends the search. The \<open>i\<close>-th row is checked at \<open>clock i\<close>.\<close>

definition row_agrees :: "batch_scope \<Rightarrow> member_row \<Rightarrow> batch_row \<Rightarrow> unit result" where
  "row_agrees scope m b =
     (if float_value (bs_aggregate_cost_ceiling_usd scope) \<noteq> float_value (ba_aggregate_cost_ceiling_usd b)
      then Inl (AuthError Batch_Cost_Mismatch)
      else if length (bs_ordered_members scope) \<le> nat (me_ordinal m) then Inl (AuthError Batch_Member_Mismatch)
      else ebind (scope_member_from_row m) (\<lambda>x.
        if member_eq (bs_ordered_members scope ! nat (me_ordinal m)) x then Inr ()
        else Inl (AuthError Batch_Member_Mismatch)))"

fun select_claimable ::
  "(string \<Rightarrow> string) \<Rightarrow> string \<Rightarrow> runtime_db \<Rightarrow> (nat \<Rightarrow> int) \<Rightarrow> err \<Rightarrow> (member_row \<times> batch_row) list
     \<Rightarrow> (member_row \<times> batch_row) result" where
  "select_claimable h dispatcher db clock last_error [] = Inl last_error"
| "select_claimable h dispatcher db clock last_error ((m, b) # rows) =
     (case ebind (reference_from_row b) (\<lambda>r. dispatcher_scope h (clock 0) r (Some dispatcher) db) of
        Inl (AuthError why) \<Rightarrow> select_claimable h dispatcher db (\<lambda>i. clock (Suc i)) (AuthError why) rows
      | Inl err \<Rightarrow> Inl err
      | Inr scope \<Rightarrow> ebind (row_agrees scope m b) (\<lambda>_. Inr (m, b)))"

text \<open>What a member counts against the aggregate ceiling.\<close>

definition member_reserve :: "member_row \<Rightarrow> rat" where
  "member_reserve m =
     (case me_state m of
        Queued \<Rightarrow> 0
      | Claimed \<Rightarrow> float_value (me_cost_ceiling_usd m)
      | Member_Reconciliation \<Rightarrow> float_value (me_cost_ceiling_usd m)
      | _ \<Rightarrow> (case me_observed_cost_usd m of None \<Rightarrow> float_value (me_cost_ceiling_usd m) | Some c \<Rightarrow> float_value c))"

definition plan_reserves :: "string \<Rightarrow> runtime_db \<Rightarrow> rat list" where
  "plan_reserves plan db = map member_reserve (filter (\<lambda>m. me_plan_digest m = plan) (db_members db))"

text \<open>The admission of the selected member; \<open>sum_of\<close> is the \<open>SUM\<close> of the database.\<close>

definition claim_member ::
  "(rat list \<Rightarrow> rat) \<Rightarrow> member_row \<Rightarrow> batch_row \<Rightarrow> string \<Rightarrow> int \<Rightarrow> runtime_db \<Rightarrow> (queue_claim \<times> runtime_db) result" where
  "claim_member sum_of m b dispatcher expires db =
     (if fadd (float_value (ba_aggregate_cost_ceiling_usd b)) slack
           < fadd (sum_of (plan_reserves (me_plan_digest m) db)) (float_value (me_cost_ceiling_usd m))
      then Inl (LeaseError Queue_Cost_Exceeded)
      else
        (let db1 = bump_fencing db; token = db_fencing_counter db1;
             sel = (\<lambda>x. me_member_id x = me_member_id m \<and> me_state x = Queued \<and> me_attempts x = 0) in
         if count_rows sel (db_members db1) \<noteq> 1 then Inl (LeaseError Queue_Lost_Race)
         else Inr (claim_of m dispatcher token expires 1,
                   db1\<lparr>db_members := update_rows sel
                     (\<lambda>x. x\<lparr>me_state := Claimed, me_lease_holder := Some dispatcher, me_fencing_token := Some token,
                            me_lease_expires_at := Some expires, me_attempts := 1\<rparr>) (db_members db1)\<rparr>)))"

definition claim_check :: "string \<Rightarrow> int \<Rightarrow> string option \<Rightarrow> string option \<Rightarrow> unit result" where
  "claim_check dispatcher ttl plan expected =
     ebind (chk_identifier dispatcher) (\<lambda>_. ebind (chk_range ttl 86400) (\<lambda>_.
     ebind (chk_optional chk_digest plan) (\<lambda>_. ebind (chk_optional chk_digest expected) (\<lambda>_. Inr ()))))"

definition claim ::
  "env \<Rightarrow> string \<Rightarrow> int \<Rightarrow> string option \<Rightarrow> string option \<Rightarrow> (runtime_db \<Rightarrow> runtime_db) \<Rightarrow> runtime_db
     \<Rightarrow> queue_claim option result \<times> runtime_db" where
  "claim e dispatcher ttl plan expected between db =
     (case claim_check dispatcher ttl plan expected of
        Inl err \<Rightarrow> (Inl err, db)
      | Inr _ \<Rightarrow>
          (let now = clk e 0; db1 = between (mark_expired_claims now db); rows = claimable_rows plan db1 in
           if rows = [] then (Inr None, db1)
           else commit_result db1
             (ebind (select_claimable (sha e) dispatcher db1 (\<lambda>i. clk e (Suc i)) AssertionError rows) (\<lambda>(m, b).
                if expected \<noteq> None \<and> expected \<noteq> Some (me_member_id m) then Inr (None, db1)
                else ebind (claim_member (sql_sum e) m b dispatcher (now + seconds ttl) db1) (\<lambda>(c, db2). Inr (Some c, db2))))))"

definition peek_claimable ::
  "env \<Rightarrow> string \<Rightarrow> string \<Rightarrow> (runtime_db \<Rightarrow> runtime_db) \<Rightarrow> runtime_db
     \<Rightarrow> queue_candidate option result \<times> runtime_db" where
  "peek_claimable e dispatcher plan between db =
     (case ebind (chk_identifier dispatcher) (\<lambda>_. chk_digest plan) of
        Inl err \<Rightarrow> (Inl err, db)
      | Inr _ \<Rightarrow>
          (let db1 = between (mark_expired_claims (clk e 0) db); rows = claimable_rows (Some plan) db1 in
           if rows = [] then (Inr None, db1)
           else (ebind (select_claimable (sha e) dispatcher db1 (\<lambda>i. clk e (Suc i)) AssertionError rows)
                   (\<lambda>(m, b). Inr (Some (candidate_of m))), db1)))"

section \<open>The holder's operations\<close>

definition update_member :: "string \<Rightarrow> (member_row \<Rightarrow> member_row) \<Rightarrow> runtime_db \<Rightarrow> runtime_db" where
  "update_member mid f db = db\<lparr>db_members := update_rows (\<lambda>m. me_member_id m = mid) f (db_members db)\<rparr>"

definition read_member :: "string \<Rightarrow> runtime_db \<Rightarrow> member_row result" where
  "read_member mid db =
     ebind (chk_digest mid) (\<lambda>mid.
       case find_member mid db of None \<Rightarrow> Inl (LeaseError Queue_Missing) | Some m \<Rightarrow> Inr m)"

text \<open>The row of a claim, when the caller holds it.\<close>

definition held_claim :: "string \<Rightarrow> string \<Rightarrow> int \<Rightarrow> runtime_db \<Rightarrow> member_row result" where
  "held_claim mid dispatcher token db =
     (case find_member mid db of
        None \<Rightarrow> Inl (LeaseError Queue_Missing)
      | Some m \<Rightarrow>
          if me_state m \<noteq> Claimed then Inl (LeaseError Queue_Not_Claimed)
          else if me_lease_holder m \<noteq> Some dispatcher \<or> me_fencing_token m \<noteq> Some token
          then Inl (LeaseError Queue_Holder_Invalid)
          else if me_lease_expires_at m = None then Inl (ValueError Bad_Timestamp)
          else Inr m)"

definition lease_over :: "int \<Rightarrow> member_row \<Rightarrow> bool" where
  "lease_over now m \<longleftrightarrow> (case me_lease_expires_at m of None \<Rightarrow> True | Some t \<Rightarrow> t \<le> now)"

definition renew_claim ::
  "env \<Rightarrow> string \<Rightarrow> string \<Rightarrow> int \<Rightarrow> int \<Rightarrow> runtime_db \<Rightarrow> queue_claim result \<times> runtime_db" where
  "renew_claim e mid dispatcher token ttl db =
     (case ebind (chk_digest mid) (\<lambda>_. ebind (chk_identifier dispatcher) (\<lambda>_. ebind (chk_range ttl 86400) (\<lambda>_.
             if token < 1 then Inl (ValueError Bad_Integer) else held_claim mid dispatcher token db))) of
        Inl err \<Rightarrow> (Inl err, db)
      | Inr m \<Rightarrow>
          (let now = clk e 0; expires = now + seconds ttl in
           if lease_over now m
           then (Inl (LeaseError Queue_Expired),
                 update_member mid (\<lambda>x. x\<lparr>me_state := Member_Reconciliation, me_terminal_at := Some now\<rparr>) db)
           else (Inr (claim_of m dispatcher token expires (me_attempts m)),
                 update_member mid (\<lambda>x. x\<lparr>me_lease_expires_at := Some expires\<rparr>) db)))"

definition release_before_dispatch ::
  "env \<Rightarrow> string \<Rightarrow> string \<Rightarrow> int \<Rightarrow> runtime_db \<Rightarrow> member_row result \<times> runtime_db" where
  "release_before_dispatch e mid dispatcher token db =
     (case ebind (chk_digest mid) (\<lambda>_. ebind (chk_identifier dispatcher) (\<lambda>_.
             if token < 1 then Inl (ValueError Bad_Integer) else held_claim mid dispatcher token db)) of
        Inl err \<Rightarrow> (Inl err, db)
      | Inr m \<Rightarrow>
          (let now = clk e 0 in
           if lease_over now m
           then (Inl (LeaseError Queue_Expired),
                 update_member mid (\<lambda>x. x\<lparr>me_state := Member_Reconciliation, me_terminal_at := Some now\<rparr>) db)
           else
             (let db' = update_member mid (\<lambda>x. x\<lparr>me_state := Queued, me_lease_holder := None, me_fencing_token := None,
                                            me_lease_expires_at := None, me_attempts := 0\<rparr>) db
              in (read_member mid db', db'))))"

definition optional_cost :: "json option \<Rightarrow> string option result" where
  "optional_cost v = (case v of None \<Rightarrow> Inr None | Some c \<Rightarrow> ebind (cost_of c) (\<lambda>t. Inr (Some t)))"

text \<open>\<open>_terminal\<close>: an expired or overspent claim goes to reconciliation, and the operation raises after
  its commit. A missing cost is compared with the ceiling, which raises \<open>TypeError\<close>.\<close>

definition terminal_claim ::
  "env \<Rightarrow> member_state \<Rightarrow> string \<Rightarrow> string \<Rightarrow> int \<Rightarrow> string \<Rightarrow> json option \<Rightarrow> runtime_db
     \<Rightarrow> member_row result \<times> runtime_db" where
  "terminal_claim e state mid dispatcher token evidence observed db =
     (case (if state \<noteq> Member_Completed \<and> state \<noteq> Member_Failed then Inl (ValueError Bad_Choice)
            else ebind (chk_digest mid) (\<lambda>_. ebind (chk_identifier dispatcher) (\<lambda>_. ebind (chk_digest evidence) (\<lambda>_.
                 ebind (optional_cost observed) (\<lambda>cost.
                 if token < 1 then Inl (ValueError Bad_Integer)
                 else ebind (held_claim mid dispatcher token db) (\<lambda>m. Inr (m, cost))))))) of
        Inl err \<Rightarrow> (Inl err, db)
      | Inr (m, cost) \<Rightarrow>
          (let now = clk e 0;
               store = (\<lambda>s. update_member mid (\<lambda>x. x\<lparr>me_state := s, me_terminal_at := Some now,
                         me_terminal_evidence_digest := Some evidence, me_observed_cost_usd := cost\<rparr>) db) in
           if lease_over now m then (Inl (LeaseError Queue_Expired), store Member_Reconciliation)
           else case cost of
             None \<Rightarrow> (Inl TypeError, db)
           | Some c \<Rightarrow>
               if fadd (float_value (me_cost_ceiling_usd m)) slack < float_value c
               then (Inl (AuthError Over_Member_Ceiling), store Member_Reconciliation)
               else (read_member mid (store state), store state)))"

definition complete ::
  "env \<Rightarrow> string \<Rightarrow> string \<Rightarrow> int \<Rightarrow> string \<Rightarrow> json option \<Rightarrow> runtime_db \<Rightarrow> member_row result \<times> runtime_db" where
  "complete e = terminal_claim e Member_Completed"

definition fail ::
  "env \<Rightarrow> string \<Rightarrow> string \<Rightarrow> int \<Rightarrow> string \<Rightarrow> json option \<Rightarrow> runtime_db \<Rightarrow> member_row result \<times> runtime_db" where
  "fail e = terminal_claim e Member_Failed"

definition require_reconciliation ::
  "env \<Rightarrow> string \<Rightarrow> string \<Rightarrow> int \<Rightarrow> string \<Rightarrow> json option \<Rightarrow> runtime_db \<Rightarrow> member_row result \<times> runtime_db" where
  "require_reconciliation e mid dispatcher token evidence observed db =
     (case ebind (chk_digest mid) (\<lambda>_. ebind (chk_identifier dispatcher) (\<lambda>_. ebind (chk_digest evidence) (\<lambda>_.
             ebind (optional_cost observed) (\<lambda>cost.
             if token < 1 then Inl (ValueError Bad_Integer)
             else ebind (held_claim mid dispatcher token db) (\<lambda>m. Inr (m, cost)))))) of
        Inl err \<Rightarrow> (Inl err, db)
      | Inr (m, cost) \<Rightarrow>
          (let now = clk e 0;
               db' = update_member mid (\<lambda>x. x\<lparr>me_state := Member_Reconciliation, me_terminal_at := Some now,
                       me_terminal_evidence_digest := Some evidence, me_observed_cost_usd := cost\<rparr>) db
           in if lease_over now m then (Inl (LeaseError Queue_Expired), db') else (read_member mid db', db')))"

text \<open>\<open>resolve_reconciliation\<close> reads the row first (in \<open>seen\<close>), revokes the batch authority in one
  transaction and writes the terminal state in another.\<close>

definition resolve_member ::
  "env \<Rightarrow> string \<Rightarrow> member_state \<Rightarrow> string \<Rightarrow> json \<Rightarrow> runtime_db \<Rightarrow> (runtime_db \<Rightarrow> runtime_db) \<Rightarrow> runtime_db
     \<Rightarrow> member_row result \<times> runtime_db" where
  "resolve_member e mid state evidence observed seen between db =
     (case ebind (chk_digest mid) (\<lambda>_.
             if state \<noteq> Member_Completed \<and> state \<noteq> Member_Failed then Inl (ValueError Bad_Choice)
             else ebind (chk_digest evidence) (\<lambda>_. ebind (cost_of observed) (\<lambda>cost.
               case find_member mid seen of
                 None \<Rightarrow> Inl (LeaseError Queue_Missing)
               | Some m \<Rightarrow>
                   (case find_batch (me_plan_digest m) seen of
                      None \<Rightarrow> Inl (LeaseError Queue_Missing)
                    | Some b \<Rightarrow>
                        if me_state m \<noteq> Member_Reconciliation then Inl (LeaseError Queue_Not_Reconciliation)
                        else if state = Member_Completed \<and> fadd (float_value (me_cost_ceiling_usd m)) slack < float_value cost
                        then Inl (AuthError Over_Member_Ceiling)
                        else ebind (reference_from_row b) (\<lambda>r. Inr (r, cost)))))) of
        Inl err \<Rightarrow> (Inl err, db)
      | Inr (r, cost) \<Rightarrow>
          (case batch_revoke e r db of
             (Inl err, db1) \<Rightarrow> (Inl err, db1)
           | (Inr _, db1) \<Rightarrow>
               (let db2 = between db1;
                    sel = (\<lambda>x. me_member_id x = mid \<and> me_state x = Member_Reconciliation) in
                if count_rows sel (db_members db2) \<noteq> 1 then (Inl (LeaseError Queue_Lost_Race), db2)
                else
                  (let db3 = db2\<lparr>db_members := update_rows sel
                       (\<lambda>x. x\<lparr>me_state := state, me_terminal_at := Some (clk e 1),
                              me_terminal_evidence_digest := Some evidence, me_observed_cost_usd := Some cost\<rparr>)
                       (db_members db2)\<rparr>
                   in (read_member mid db3, db3)))))"

section \<open>Reading the queue\<close>

definition list_members :: "string \<Rightarrow> runtime_db \<Rightarrow> member_row list result" where
  "list_members plan db = ebind (chk_digest plan) (\<lambda>plan. Inr (plan_members plan db))"

definition member_order :: "member_row \<Rightarrow> string \<times> int \<times> string" where
  "member_order m = (me_plan_digest m, me_ordinal m, me_member_id m)"

definition list_by_state ::
  "env \<Rightarrow> member_state \<Rightarrow> int \<Rightarrow> string option \<Rightarrow> runtime_db \<Rightarrow> member_row list result \<times> runtime_db" where
  "list_by_state e state limit after db =
     (case ebind (chk_range limit 1000) (\<lambda>_. chk_optional chk_digest after) of
        Inl err \<Rightarrow> (Inl err, db)
      | Inr _ \<Rightarrow>
          (let db1 = mark_expired_claims (clk e 0) db;
               page = (\<lambda>P. take (nat limit) (sort_key member_order (filter (\<lambda>m. me_state m = state \<and> P m) (db_members db1))))
           in case after of
                None \<Rightarrow> (Inr (page (\<lambda>_. True)), db1)
              | Some mid \<Rightarrow>
                  (case find_member mid db1 of
                     None \<Rightarrow> (Inl (LeaseError Queue_Cursor), db)
                   | Some c \<Rightarrow>
                       if me_state c \<noteq> state then (Inl (LeaseError Queue_Cursor), db)
                       else (Inr (page (\<lambda>m. member_order c < member_order m)), db1))))"

definition member_states :: "member_state list" where
  "member_states = [Queued, Claimed, Member_Completed, Member_Failed, Member_Reconciliation]"

definition state_counts :: "env \<Rightarrow> runtime_db \<Rightarrow> (member_state \<times> nat) list \<times> runtime_db" where
  "state_counts e db =
     (let db1 = mark_expired_claims (clk e 0) db
      in (map (\<lambda>s. (s, count_rows (\<lambda>m. me_state m = s) (db_members db1))) member_states, db1))"

record tier_counts =
  tn_current_tier_bound_count :: nat
  tn_legacy_pre_tier_count :: nat
  tn_total_count :: nat

definition tier_status :: "runtime_db \<Rightarrow> tier_counts" where
  "tier_status db =
     \<lparr>tn_current_tier_bound_count = count_rows (\<lambda>m. me_provider_tier_binding_digest m \<noteq> None) (db_members db),
      tn_legacy_pre_tier_count = count_rows (\<lambda>m. me_provider_tier_binding_digest m = None) (db_members db),
      tn_total_count = length (db_members db)\<rparr>"

text \<open>\<open>read_queue_tier_status\<close> opens the file itself: \<open>file\<close> is the schema version it finds there with
  the database, or nothing when there is no file; \<open>on_d\<close> tells an absolute path on drive D.\<close>

definition read_queue_tier_status :: "bool \<Rightarrow> (int option \<times> runtime_db) option \<Rightarrow> tier_counts result" where
  "read_queue_tier_status on_d file =
     (if \<not> on_d then Inl StorageError
      else case file of
        None \<Rightarrow> Inr \<lparr>tn_current_tier_bound_count = 0, tn_legacy_pre_tier_count = 0, tn_total_count = 0\<rparr>
      | Some (None, db) \<Rightarrow> Inl (LeaseError Queue_Schema)
      | Some (Some version, db) \<Rightarrow>
          if 5 \<le> version \<and> version \<le> 7 then Inr (tier_status db) else Inl (LeaseError Queue_Schema))"

end
