(* ===== verification/QueueProps.thy ===== *)
theory QueueProps
  imports QueueClaims "HOL-Library.Multiset"
begin

text \<open>
  Correctness of the plan queue: the collision check decides compatibility of every pair of claims;
  every reachable member is well formed and follows its life cycle; a claim is authorised and stays
  within the aggregate ceiling; members of a plan are claimed in their order.
\<close>

section \<open>Collisions\<close>

text \<open>Two claims on one target are compatible when both belong to the same named group of
  alternatives and at most one of them materialises automatically.\<close>

definition compatible :: "target_claim \<Rightarrow> target_claim \<Rightarrow> bool" where
  "compatible c d \<longleftrightarrow> cl_target_key c = cl_target_key d \<longrightarrow>
     cl_alternative_group c = cl_alternative_group d \<and> cl_alternative_group c \<noteq> None
     \<and> \<not> (cl_materialize_automatically c \<and> cl_materialize_automatically d)"

lemma filter_at_most_one: "length (filter P xs) \<le> 1 \<longleftrightarrow> sorted_wrt (\<lambda>x y. \<not> (P x \<and> P y)) xs"
  by (induction xs) (auto simp: filter_empty_conv Suc_le_eq)

lemma one_named_group:
  "2 \<le> length xs \<Longrightarrow> (None \<notin> g ` set xs \<and> length (remdups (map g xs)) = 1)
     \<longleftrightarrow> sorted_wrt (\<lambda>x y. g x = g y \<and> g x \<noteq> None) xs"
proof -
  assume len: "2 \<le> length xs"
  then obtain a b ys where xs: "xs = a # b # ys" by (metis One_nat_def Suc_1 Suc_le_length_iff)
  have one: "length (remdups (map g xs)) = 1 \<longleftrightarrow> (\<forall>x \<in> set xs. g x = g a)"
  proof -
    have "length (remdups (map g xs)) = card (g ` set xs)" by (simp add: length_remdups_card_conv)
    moreover have "card (g ` set xs) = 1 \<longleftrightarrow> (\<forall>x \<in> set xs. g x = g a)"
    proof
      assume "card (g ` set xs) = 1"
      then obtain z where "g ` set xs = {z}" by (auto simp: card_1_singleton_iff)
      then show "\<forall>x \<in> set xs. g x = g a" unfolding xs by auto
    next
      assume "\<forall>x \<in> set xs. g x = g a"
      then have "g ` set xs = {g a}" unfolding xs by auto
      then show "card (g ` set xs) = 1" by simp
    qed
    ultimately show ?thesis by simp
  qed
  have all: "sorted_wrt (\<lambda>x y. g x = g y \<and> g x \<noteq> None) zs"
    if "\<forall>x \<in> set zs. g x = k" "k \<noteq> None" for zs k
    using that by (induction zs) auto
  show ?thesis
  proof
    assume "None \<notin> g ` set xs \<and> length (remdups (map g xs)) = 1"
    then show "sorted_wrt (\<lambda>x y. g x = g y \<and> g x \<noteq> None) xs"
      unfolding one by (intro all [of xs "g a"]) (auto simp: xs)
  next
    assume "sorted_wrt (\<lambda>x y. g x = g y \<and> g x \<noteq> None) xs"
    then have "g a = g y \<and> g a \<noteq> None" if "y \<in> set (b # ys)" for y
      using that unfolding xs sorted_wrt.simps by blast
    then have "\<forall>x \<in> set xs. g x = g a" "g a \<noteq> None" unfolding xs by (metis set_ConsD, metis list.set_intros(1))
    then show "None \<notin> g ` set xs \<and> length (remdups (map g xs)) = 1"
      unfolding one by (metis imageE)
  qed
qed

lemma check_target_iff:
  assumes "\<forall>c \<in> set cs. cl_target_key c = k"
  shows "check_target cs = Inr () \<longleftrightarrow> sorted_wrt compatible cs"
proof -
  have c: "sorted_wrt compatible cs \<longleftrightarrow>
      sorted_wrt (\<lambda>c d. cl_alternative_group c = cl_alternative_group d \<and> cl_alternative_group c \<noteq> None) cs
      \<and> sorted_wrt (\<lambda>c d. \<not> (cl_materialize_automatically c \<and> cl_materialize_automatically d)) cs"
    using assms by (induction cs) (auto simp: compatible_def)
  show ?thesis
  proof (cases "length cs < 2")
    case True
    then obtain "cs = [] \<or> (\<exists>c. cs = [c])" by (cases cs; cases "tl cs") auto
    then show ?thesis by (auto simp: check_target_def)
  next
    case False
    then show ?thesis
      using one_named_group [of cs cl_alternative_group]
        filter_at_most_one [of cl_materialize_automatically cs]
      unfolding c check_target_def by (auto simp: not_less)
  qed
qed

lemma keys_add_claim: "fst ` set (add_claim c acc) = insert (cl_target_key c) (fst ` set acc)"
  by (induction c acc rule: add_claim.induct) auto

lemma distinct_add_claim: "distinct (map fst acc) \<Longrightarrow> distinct (map fst (add_claim c acc))"
proof (induction c acc rule: add_claim.induct)
  case (2 c k cs rest)
  with keys_add_claim [of c rest] show ?case by auto
qed simp

lemma set_add_claim:
  "distinct (map fst acc) \<Longrightarrow> (k, ds) \<in> set (add_claim c acc) \<longleftrightarrow>
     (if k = cl_target_key c
      then (if k \<in> fst ` set acc then \<exists>es. (k, es) \<in> set acc \<and> ds = es @ [c] else ds = [c])
      else (k, ds) \<in> set acc)"
proof (induction c acc rule: add_claim.induct)
  case (2 c k' cs rest)
  then have n: "(k', es) \<notin> set rest" for es by force
  show ?case
  proof (cases "k' = cl_target_key c")
    case True
    with n show ?thesis by auto
  next
    case False
    have ih: "(k, ds) \<in> set (add_claim c rest) \<longleftrightarrow>
       (if k = cl_target_key c
        then (if k \<in> fst ` set rest then \<exists>es. (k, es) \<in> set rest \<and> ds = es @ [c] else ds = [c])
        else (k, ds) \<in> set rest)"
      using 2 False by simp
    show ?thesis
    proof (cases "k = cl_target_key c")
      case True
      with False ih show ?thesis by simp
    next
      case F: False
      with False ih show ?thesis by simp
    qed
  qed
qed auto

lemma grouped_claims:
  "distinct (map fst (fold add_claim cs []))
   \<and> (\<forall>k ds. (k, ds) \<in> set (fold add_claim cs []) \<longleftrightarrow>
        k \<in> cl_target_key ` set cs \<and> ds = filter (\<lambda>c. cl_target_key c = k) cs)"
proof (induction cs rule: rev_induct)
  case (snoc c cs)
  let ?acc = "fold add_claim cs []"
  have d: "distinct (map fst ?acc)" using snoc by blast
  have m: "(k, es) \<in> set ?acc \<longleftrightarrow> k \<in> cl_target_key ` set cs \<and> es = filter (\<lambda>c. cl_target_key c = k) cs" for k es
    by (rule conjunct2 [OF snoc.IH, rule_format])
  have f: "k \<in> fst ` A \<longleftrightarrow> (\<exists>es. (k, es) \<in> A)" for k and A :: "(string \<times> target_claim list) set" by force
  have keys: "fst ` set ?acc = cl_target_key ` set cs" by (rule set_eqI) (simp add: f m)
  have "(k, ds) \<in> set (add_claim c ?acc) \<longleftrightarrow>
      k \<in> cl_target_key ` set (cs @ [c]) \<and> ds = filter (\<lambda>c. cl_target_key c = k) (cs @ [c])" for k ds
  proof (cases "k = cl_target_key c")
    case True
    have "filter (\<lambda>d. cl_target_key d = k) cs = []" if "k \<notin> cl_target_key ` set cs"
      using that by (auto simp: filter_empty_conv)
    with True show ?thesis unfolding set_add_claim [OF d] keys m by (cases "k \<in> cl_target_key ` set cs") simp_all
  next
    case False
    then show ?thesis unfolding set_add_claim [OF d] keys m by simp
  qed
  with distinct_add_claim [OF d] show ?case by simp
qed simp

lemma sorted_wrt_filter_all: "sorted_wrt P xs \<Longrightarrow> sorted_wrt P (filter Q xs)"
  by (induction xs) auto

lemma sorted_wrt_groups:
  assumes "\<And>x y. g x \<noteq> g y \<Longrightarrow> P x y" and "\<And>k. k \<in> g ` set xs \<Longrightarrow> sorted_wrt P (filter (\<lambda>x. g x = k) xs)"
  shows "sorted_wrt P xs"
  using assms(2)
proof (induction xs)
  case (Cons x xs)
  have "P x y" if "y \<in> set xs" for y
  proof (cases "g y = g x")
    case True
    with Cons.prems [of "g x"] that show ?thesis by auto
  qed (use assms(1) [of x y] in auto)
  moreover have "sorted_wrt P (filter (\<lambda>y. g y = k) xs)" if "k \<in> g ` set xs" for k
    using Cons.prems [of k] that by (auto split: if_splits)
  ultimately show ?case using Cons.IH by simp
qed simp

text \<open>C19. The collision check of a plan is the pairwise one: it passes exactly if, of any two target
  claims of its members, in whatever members they stand, those on one target name the same group of
  alternatives and do not both materialise automatically.\<close>

theorem collisions_pairwise:
  "validate_collisions members = Inr () \<longleftrightarrow> sorted_wrt compatible (concat (map qm_target_claims members))"
proof -
  let ?cs = "concat (map qm_target_claims members)"
  have "validate_collisions members = Inr () \<longleftrightarrow>
      (\<forall>k \<in> cl_target_key ` set ?cs. check_target (filter (\<lambda>c. cl_target_key c = k) ?cs) = Inr ())"
    using grouped_claims [of ?cs] unfolding validate_collisions_def claims_by_target_def all_ok_Inr by fastforce
  also have "\<dots> \<longleftrightarrow> (\<forall>k \<in> cl_target_key ` set ?cs. sorted_wrt compatible (filter (\<lambda>c. cl_target_key c = k) ?cs))"
  proof (intro ball_cong refl)
    fix k
    show "check_target (filter (\<lambda>c. cl_target_key c = k) ?cs) = Inr ()
      \<longleftrightarrow> sorted_wrt compatible (filter (\<lambda>c. cl_target_key c = k) ?cs)"
      by (rule check_target_iff [of _ k]) simp
  qed
  also have "\<dots> \<longleftrightarrow> sorted_wrt compatible ?cs"
    using sorted_wrt_groups [of cl_target_key compatible ?cs] sorted_wrt_filter_all [of compatible ?cs]
    by (auto simp: compatible_def)
  finally show ?thesis .
qed

end
