(* ===== verification/QueueSafety.thy ===== *)
theory QueueSafety
  imports QueueProps DispatchProps
begin

text \<open>
  The plan queue as a system of transactions: the life cycle of its members, their invariant, the
  uniqueness of their tokens, and what a claim guarantees.
\<close>

section \<open>Transactions\<close>

text \<open>Every transaction of the queue; \<open>claim\<close> and \<open>peek_claimable\<close> run \<open>marks\<close> and then \<open>claims\<close> or
  nothing, \<open>resolve_member\<close> revokes the authority and then \<open>resolves\<close>.\<close>

inductive queue_step :: "runtime_db \<Rightarrow> runtime_db \<Rightarrow> bool" where
  enqueues: "enqueue e plan seen db = (ires, db') \<Longrightarrow> queue_step db db'"
| marks: "queue_step db (mark_expired_claims now db)"
| claims: "(m, b) \<in> set (claimable_rows plan db) \<Longrightarrow> claim_member sum_of m b dispatcher expires db = Inr (c, db')
    \<Longrightarrow> queue_step db db'"
| renews: "renew_claim e mid dispatcher token ttl db = (cres, db') \<Longrightarrow> queue_step db db'"
| releases: "release_before_dispatch e mid dispatcher token db = (mres, db') \<Longrightarrow> queue_step db db'"
| ends: "terminal_claim e state mid dispatcher token evidence observed db = (mres, db') \<Longrightarrow> queue_step db db'"
| gives_up: "require_reconciliation e mid dispatcher token evidence observed db = (mres, db') \<Longrightarrow> queue_step db db'"
| resolves: "state = Member_Completed \<or> state = Member_Failed
    \<Longrightarrow> \<forall>m \<in> set (db_members db). me_member_id m = mid \<longrightarrow> state = Member_Completed
         \<longrightarrow> float_value cost \<le> fadd (float_value (me_cost_ceiling_usd m)) slack
    \<Longrightarrow> queue_step db (db\<lparr>db_members := update_rows (\<lambda>x. me_member_id x = mid \<and> me_state x = Member_Reconciliation)
          (\<lambda>x. x\<lparr>me_state := state, me_terminal_at := Some now, me_terminal_evidence_digest := Some evidence,
                 me_observed_cost_usd := Some cost\<rparr>) (db_members db)\<rparr>)"
| elsewhere: "db_members db' = db_members db \<Longrightarrow> db_batches db' = db_batches db \<Longrightarrow> db_claims db' = db_claims db
    \<Longrightarrow> db_fencing_counter db \<le> db_fencing_counter db' \<Longrightarrow> queue_step db db'"


section \<open>The life of a member\<close>

definition same_member :: "member_row \<Rightarrow> member_row \<Rightarrow> bool" where
  "same_member m n \<longleftrightarrow> me_member_id n = me_member_id m \<and> me_plan_digest n = me_plan_digest m
     \<and> me_ordinal n = me_ordinal m \<and> me_member_digest n = me_member_digest m \<and> me_provider_id n = me_provider_id m
     \<and> me_route_id n = me_route_id m \<and> me_role_digest n = me_role_digest m \<and> me_privacy n = me_privacy m
     \<and> me_context_class n = me_context_class m \<and> me_cost_ceiling_usd n = me_cost_ceiling_usd m
     \<and> me_provider_tier_binding_digest n = me_provider_tier_binding_digest m"

text \<open>What a stored member looks like in each state.\<close>

definition member_row_ok :: "member_row \<Rightarrow> bool" where
  "member_row_ok m \<longleftrightarrow>
     (if me_state m = Queued
      then me_attempts m = 0 \<and> me_lease_holder m = None \<and> me_fencing_token m = None \<and> me_lease_expires_at m = None
      else me_attempts m = 1 \<and> me_lease_holder m \<noteq> None \<and> me_fencing_token m \<noteq> None \<and> me_lease_expires_at m \<noteq> None)
     \<and> (me_terminal_at m = None \<longleftrightarrow> me_state m = Queued \<or> me_state m = Claimed)
     \<and> (me_state m = Queued \<or> me_state m = Claimed \<longrightarrow> me_terminal_evidence_digest m = None \<and> me_observed_cost_usd m = None)
     \<and> (me_state m = Member_Completed \<or> me_state m = Member_Failed \<longrightarrow>
          me_terminal_evidence_digest m \<noteq> None \<and> me_observed_cost_usd m \<noteq> None)
     \<and> (me_state m = Member_Completed \<longrightarrow>
          float_value (the (me_observed_cost_usd m)) \<le> fadd (float_value (me_cost_ceiling_usd m)) slack)"

definition may_follow :: "member_state \<Rightarrow> member_state \<Rightarrow> bool" where
  "may_follow s t \<longleftrightarrow> s = t \<and> s = Claimed \<or> s = Queued \<and> t = Claimed
     \<or> s = Claimed \<and> t \<in> {Queued, Member_Completed, Member_Failed, Member_Reconciliation}
     \<or> s = Member_Reconciliation \<and> t \<in> {Member_Completed, Member_Failed}"

definition member_move :: "member_row \<Rightarrow> member_row \<Rightarrow> bool" where
  "member_move m n \<longleftrightarrow> same_member m n \<and> may_follow (me_state m) (me_state n) \<and> (member_row_ok m \<longrightarrow> member_row_ok n)"

definition member_ids :: "runtime_db \<Rightarrow> bool" where
  "member_ids db \<longleftrightarrow> distinct (map me_member_id (db_members db))"

lemma find_member_Some: "find_member mid db = Some m \<Longrightarrow> m \<in> set (db_members db) \<and> me_member_id m = mid"
  unfolding find_member_def by (drule lookup_row_Some) simp

lemma find_member_unique:
  "member_ids db \<Longrightarrow> find_member mid db = Some m \<Longrightarrow> x \<in> set (db_members db) \<Longrightarrow> me_member_id x = mid \<Longrightarrow> x = m"
  using find_member_Some [of mid db m] key_unique [of me_member_id "db_members db" x m] by (simp add: member_ids_def)

lemma find_member_iff:
  "member_ids db \<Longrightarrow> find_member mid db = Some m \<longleftrightarrow> m \<in> set (db_members db) \<and> me_member_id m = mid"
  unfolding member_ids_def find_member_def by (rule lookup_row_iff)

lemma held_claim_Inr:
  "held_claim mid dispatcher token db = Inr m \<longleftrightarrow> find_member mid db = Some m \<and> me_state m = Claimed
     \<and> me_lease_holder m = Some dispatcher \<and> me_fencing_token m = Some token \<and> me_lease_expires_at m \<noteq> None"
  by (auto simp: held_claim_def split: option.splits if_splits)

text \<open>What the holder's operations do: nothing, or they move the one row the caller holds.\<close>

definition holder_move :: "string \<Rightarrow> string \<Rightarrow> int \<Rightarrow> runtime_db \<Rightarrow> runtime_db \<Rightarrow> bool" where
  "holder_move mid dispatcher token db db' \<longleftrightarrow>
     (\<exists>m f. held_claim mid dispatcher token db = Inr m \<and> db' = update_member mid f db \<and> member_move m (f m)
        \<and> (me_fencing_token (f m) = Some token \<or> me_fencing_token (f m) = None)
        \<and> (\<forall>x. same_member x (f x)))"


lemma holder_moveI:
  assumes "held_claim mid dispatcher token db = Inr m"
    and "held_claim mid dispatcher token db = Inr m \<Longrightarrow> member_move m (f m)"
    and "me_fencing_token (f m) = me_fencing_token m \<or> me_fencing_token (f m) = None" "\<And>x. same_member x (f x)"
  shows "holder_move mid dispatcher token db (update_member mid f db)"
  unfolding holder_move_def using assms by (intro exI [of _ m] exI [of _ f]) (auto simp: held_claim_Inr)

lemmas move_simps = held_claim_Inr member_move_def same_member_def may_follow_def member_row_ok_def

lemma renew_claim_moves:
  assumes "renew_claim e mid dispatcher token ttl db = (res, db')"
  shows "db' = db \<or> holder_move mid dispatcher token db db'"
proof (cases "ebind (chk_digest mid) (\<lambda>_. ebind (chk_identifier dispatcher) (\<lambda>_. ebind (chk_range ttl 86400) (\<lambda>_.
             if token < 1 then Inl (ValueError Bad_Integer) else held_claim mid dispatcher token db)))")
  case (Inr m)
  then have h: "held_claim mid dispatcher token db = Inr m" by (auto simp: result_simps split: if_splits)
  show ?thesis
  proof (cases "lease_over (clk e 0) m")
    case True
    with assms Inr have "db' = update_member mid (\<lambda>x. x\<lparr>me_state := Member_Reconciliation, me_terminal_at := Some (clk e 0)\<rparr>) db"
      by (simp add: renew_claim_def Let_def)
    then show ?thesis by (auto intro!: holder_moveI [OF h] simp: move_simps)
  next
    case False
    with assms Inr have "db' = update_member mid (\<lambda>x. x\<lparr>me_lease_expires_at := Some (clk e 0 + seconds ttl)\<rparr>) db"
      by (simp add: renew_claim_def Let_def)
    then show ?thesis by (auto intro!: holder_moveI [OF h] simp: move_simps)
  qed
qed (use assms in \<open>simp add: renew_claim_def\<close>)

lemma release_moves:
  assumes "release_before_dispatch e mid dispatcher token db = (res, db')"
  shows "db' = db \<or> holder_move mid dispatcher token db db'"
proof (cases "ebind (chk_digest mid) (\<lambda>_. ebind (chk_identifier dispatcher) (\<lambda>_.
             if token < 1 then Inl (ValueError Bad_Integer) else held_claim mid dispatcher token db))")
  case (Inr m)
  then have h: "held_claim mid dispatcher token db = Inr m" by (auto simp: result_simps split: if_splits)
  show ?thesis
  proof (cases "lease_over (clk e 0) m")
    case True
    with assms Inr have "db' = update_member mid (\<lambda>x. x\<lparr>me_state := Member_Reconciliation, me_terminal_at := Some (clk e 0)\<rparr>) db"
      by (simp add: release_before_dispatch_def Let_def)
    then show ?thesis by (auto intro!: holder_moveI [OF h] simp: move_simps)
  next
    case False
    with assms Inr have "db' = update_member mid (\<lambda>x. x\<lparr>me_state := Queued, me_lease_holder := None, me_fencing_token := None,
                                            me_lease_expires_at := None, me_attempts := 0\<rparr>) db"
      by (simp add: release_before_dispatch_def Let_def)
    then show ?thesis by (auto intro!: holder_moveI [OF h] simp: move_simps)
  qed
qed (use assms in \<open>simp add: release_before_dispatch_def\<close>)

lemma optional_cost_None: "optional_cost v = Inr None \<longleftrightarrow> v = None"
  by (cases v) (auto simp: optional_cost_def result_simps)

text \<open>How a claim ends.\<close>

lemma terminal_cases:
  assumes "terminal_claim e state mid dispatcher token evidence observed db = (res, db')"
  obtains (same) "db' = db" "\<And>m. res \<noteq> Inr m"
  | (recon) m cost where "held_claim mid dispatcher token db = Inr m" "\<And>x. res \<noteq> Inr x" "optional_cost observed = Inr cost"
      "db' = update_member mid (\<lambda>x. x\<lparr>me_state := Member_Reconciliation, me_terminal_at := Some (clk e 0),
          me_terminal_evidence_digest := Some evidence, me_observed_cost_usd := cost\<rparr>) db"
  | (ended) m c where "held_claim mid dispatcher token db = Inr m" "optional_cost observed = Inr (Some c)" "is_sha256 mid"
      "state = Member_Completed \<or> state = Member_Failed" "float_value c \<le> fadd (float_value (me_cost_ceiling_usd m)) slack"
      "clk e 0 < the (me_lease_expires_at m)" "res = read_member mid db'"
      "db' = update_member mid (\<lambda>x. x\<lparr>me_state := state, me_terminal_at := Some (clk e 0),
          me_terminal_evidence_digest := Some evidence, me_observed_cost_usd := Some c\<rparr>) db"
proof (cases "(if state \<noteq> Member_Completed \<and> state \<noteq> Member_Failed then Inl (ValueError Bad_Choice)
            else ebind (chk_digest mid) (\<lambda>_. ebind (chk_identifier dispatcher) (\<lambda>_. ebind (chk_digest evidence) (\<lambda>_.
                 ebind (optional_cost observed) (\<lambda>cost.
                 if token < 1 then Inl (ValueError Bad_Integer)
                 else ebind (held_claim mid dispatcher token db) (\<lambda>m. Inr (m, cost)))))))")
  case (Inl err)
  with assms show thesis by (intro same) (auto simp: terminal_claim_def)
next
  case (Inr z)
  then obtain m cost where z: "z = (m, cost)" and st: "state = Member_Completed \<or> state = Member_Failed"
    and h: "held_claim mid dispatcher token db = Inr m" and c: "optional_cost observed = Inr cost" and d: "is_sha256 mid"
    by (auto simp: result_simps split: if_splits)
  show thesis
  proof (cases "lease_over (clk e 0) m")
    case True
    with assms Inr z show thesis by (intro recon [OF h _ c]) (auto simp: terminal_claim_def Let_def)
  next
    case F: False
    show thesis
    proof (cases cost)
      case None
      with assms Inr z F show thesis by (intro same) (auto simp: terminal_claim_def Let_def)
    next
      case (Some v)
      show thesis
      proof (cases "fadd (float_value (me_cost_ceiling_usd m)) slack < float_value v")
        case True
        with assms Inr z F Some show thesis by (intro recon [OF h _ c]) (auto simp: terminal_claim_def Let_def)
      next
        case False
        with assms Inr z F Some h d c st show thesis
          by (intro ended [OF h _ d st, of v])
            (auto simp: terminal_claim_def Let_def lease_over_def held_claim_Inr not_less split: option.splits)
      qed
    qed
  qed
qed

lemma terminal_moves:
  assumes "terminal_claim e state mid dispatcher token evidence observed db = (res, db')"
  shows "db' = db \<or> holder_move mid dispatcher token db db'"
  using assms
proof (cases rule: terminal_cases)
  case (recon m cost)
  then show ?thesis by (auto intro!: holder_moveI [OF recon(1)] simp: move_simps)
next
  case (ended m c)
  then show ?thesis by (auto intro!: holder_moveI [OF ended(1)] simp: move_simps)
qed simp

lemma require_moves:
  assumes "require_reconciliation e mid dispatcher token evidence observed db = (res, db')"
  shows "db' = db \<or> holder_move mid dispatcher token db db'"
proof (cases "ebind (chk_digest mid) (\<lambda>_. ebind (chk_identifier dispatcher) (\<lambda>_. ebind (chk_digest evidence) (\<lambda>_.
             ebind (optional_cost observed) (\<lambda>cost.
             if token < 1 then Inl (ValueError Bad_Integer)
             else ebind (held_claim mid dispatcher token db) (\<lambda>m. Inr (m, cost))))))")
  case (Inr z)
  then obtain m cost where z: "z = (m, cost)" and h: "held_claim mid dispatcher token db = Inr m"
    by (auto simp: result_simps split: if_splits)
  have "db' = update_member mid (\<lambda>x. x\<lparr>me_state := Member_Reconciliation, me_terminal_at := Some (clk e 0),
                       me_terminal_evidence_digest := Some evidence, me_observed_cost_usd := cost\<rparr>) db"
    using assms Inr z by (auto simp: require_reconciliation_def Let_def split: if_splits)
  then show ?thesis by (auto intro!: holder_moveI [OF h] simp: move_simps)
qed (use assms in \<open>simp add: require_reconciliation_def\<close>)


section \<open>What a transaction does to the tables\<close>

definition claim_sel :: "string \<Rightarrow> member_row \<Rightarrow> bool" where
  "claim_sel mid x \<longleftrightarrow> me_member_id x = mid \<and> me_state x = Queued \<and> me_attempts x = 0"

definition claimed_row :: "string \<Rightarrow> int \<Rightarrow> int \<Rightarrow> member_row \<Rightarrow> member_row" where
  "claimed_row dispatcher token expires x = x\<lparr>me_state := Claimed, me_lease_holder := Some dispatcher,
     me_fencing_token := Some token, me_lease_expires_at := Some expires, me_attempts := 1\<rparr>"

lemma claim_member_Inr:
  "claim_member sum_of m b dispatcher expires db = Inr (c, db') \<longleftrightarrow>
     fadd (sum_of (plan_reserves (me_plan_digest m) db)) (float_value (me_cost_ceiling_usd m))
       \<le> fadd (float_value (ba_aggregate_cost_ceiling_usd b)) slack
     \<and> count_rows (claim_sel (me_member_id m)) (db_members db) = 1
     \<and> c = claim_of m dispatcher (db_fencing_counter db + 1) expires 1
     \<and> db' = (bump_fencing db)\<lparr>db_members := update_rows (claim_sel (me_member_id m))
          (claimed_row dispatcher (db_fencing_counter db + 1) expires) (db_members db)\<rparr>"
proof -
  have sel: "claim_sel mid = (\<lambda>x. me_member_id x = mid \<and> me_state x = Queued \<and> me_attempts x = 0)" for mid
    by (rule ext) (simp add: claim_sel_def)
  have row: "claimed_row d t ex = (\<lambda>x. x\<lparr>me_state := Claimed, me_lease_holder := Some d,
     me_fencing_token := Some t, me_lease_expires_at := Some ex, me_attempts := 1\<rparr>)" for d t ex
    by (rule ext) (simp add: claimed_row_def)
  show ?thesis unfolding claim_member_def sel row Let_def by (auto simp: not_less)
qed

lemma claimable_rowsD:
  "(m, b) \<in> set (claimable_rows plan db) \<Longrightarrow>
     m \<in> set (db_members db) \<and> me_state m = Queued \<and> b \<in> set (db_batches db) \<and> ba_plan_digest b = me_plan_digest m
     \<and> (plan = None \<or> plan = Some (me_plan_digest m))"
  by (auto simp: claimable_rows_def)

lemma claimed_move: "me_state x = Queued \<Longrightarrow> member_move x (claimed_row dispatcher token expires x)"
  by (simp add: claimed_row_def move_simps)

lemma enqueue_cases:
  assumes "enqueue e plan seen db = (res, db')"
  obtains (same) "db' = db" "\<And>ids. res = Inr ids \<Longrightarrow> (\<exists>b. find_batch (qp_plan_digest plan) db = Some b)
      \<and> ids = map me_member_id (plan_members (qp_plan_digest plan) db)"
  | (added) scope where "dispatcher_scope (sha e) (clk e 0) (qp_authority plan) None seen = Inr scope"
      "validate_collisions (qp_members plan) = Inr ()" "find_batch (qp_plan_digest plan) db = None"
      "list_all2 member_eq (bs_ordered_members scope) (map authority_scope_of (qp_members plan))"
      "float_value (bs_aggregate_cost_ceiling_usd scope) = float_value (qp_aggregate_cost_ceiling_usd plan)"
      "rows_admissible (new_batch_row (sha e) plan scope (clk e 1)) (plan_rows (sha e) plan) (plan_claims (sha e) plan) db"
      "res = Inr (queue_member_ids (sha e) plan)"
      "db' = db\<lparr>db_batches := db_batches db @ [new_batch_row (sha e) plan scope (clk e 1)],
                db_members := db_members db @ plan_rows (sha e) plan, db_claims := db_claims db @ plan_claims (sha e) plan\<rparr>"
proof (cases "ebind (dispatcher_scope (sha e) (clk e 0) (qp_authority plan) None seen) (\<lambda>scope.
             if bs_plan_digest scope \<noteq> qp_plan_digest plan then Inl (AuthError Batch_Plan_Mismatch)
             else if \<not> list_all2 member_eq (bs_ordered_members scope) (map authority_scope_of (qp_members plan))
             then Inl (AuthError Batch_Member_Mismatch)
             else if float_value (bs_aggregate_cost_ceiling_usd scope) \<noteq> float_value (qp_aggregate_cost_ceiling_usd plan)
             then Inl (AuthError Batch_Cost_Mismatch)
             else ebind (validate_collisions (qp_members plan)) (\<lambda>_. Inr scope))")
  case (Inl err)
  with assms show thesis by (intro same) (auto simp: enqueue_def)
next
  case (Inr scope)
  then have s: "dispatcher_scope (sha e) (clk e 0) (qp_authority plan) None seen = Inr scope"
    "validate_collisions (qp_members plan) = Inr ()"
    "list_all2 member_eq (bs_ordered_members scope) (map authority_scope_of (qp_members plan))"
    "float_value (bs_aggregate_cost_ceiling_usd scope) = float_value (qp_aggregate_cost_ceiling_usd plan)"
    by (auto simp: result_simps split: if_splits)
  show thesis
  proof (cases "find_batch (qp_plan_digest plan) db")
    case (Some b)
    with assms Inr show thesis by (intro same) (auto simp: enqueue_def Let_def split: if_splits)
  next
    case None
    show thesis
    proof (cases "rows_admissible (new_batch_row (sha e) plan scope (clk e 1)) (plan_rows (sha e) plan) (plan_claims (sha e) plan) db")
      case True
      with assms Inr None s show thesis by (intro added [OF s(1,2) None s(3,4)]) (auto simp: enqueue_def Let_def)
    next
      case False
      with assms Inr None show thesis by (intro same) (auto simp: enqueue_def Let_def)
    qed
  qed
qed

lemma plan_rows_fresh:
  "m \<in> set (plan_rows h plan) \<Longrightarrow> me_plan_digest m = qp_plan_digest plan \<and> me_state m = Queued \<and> member_row_ok m \<and> me_fencing_token m = None"
  by (auto simp: plan_rows_def new_member_row_def member_row_ok_def)

lemma queue_step_cases:
  assumes "queue_step db db'"
  obtains (same) "db_members db' = db_members db" "db_batches db' = db_batches db" "db_fencing_counter db \<le> db_fencing_counter db'"
  | (added) plan b ms where "db_members db' = db_members db @ ms" "db_batches db' = db_batches db @ [b]"
      "db_fencing_counter db' = db_fencing_counter db" "find_batch plan db = None" "ba_plan_digest b = plan"
      "\<And>m. m \<in> set ms \<Longrightarrow> me_plan_digest m = plan \<and> me_state m = Queued \<and> member_row_ok m \<and> me_fencing_token m = None"
      "distinct (map me_member_id (db_members db'))" "distinct (map (\<lambda>m. (me_plan_digest m, me_ordinal m)) (db_members db'))"
  | (claimed) sum_of m b dispatcher expires c where "m \<in> set (db_members db)" "me_state m = Queued"
      "claim_member sum_of m b dispatcher expires db = Inr (c, db')"
  | (moved) sel f where "db_members db' = update_rows sel f (db_members db)" "db_batches db' = db_batches db"
      "db_fencing_counter db' = db_fencing_counter db" "\<And>r. same_member r (f r)"
      "\<And>r. member_ids db \<Longrightarrow> r \<in> set (db_members db) \<Longrightarrow> sel r \<Longrightarrow> member_move r (f r)
         \<and> (me_fencing_token (f r) = me_fencing_token r \<or> me_fencing_token (f r) = None)"
proof -
  have holder: thesis if "db' = db \<or> holder_move mid dispatcher token db db'" for mid dispatcher token
    using that
  proof (elim disjE)
    assume "holder_move mid dispatcher token db db'"
    then obtain m f where m: "held_claim mid dispatcher token db = Inr m" "db' = update_member mid f db" "member_move m (f m)"
      "me_fencing_token (f m) = Some token \<or> me_fencing_token (f m) = None" "\<forall>x. same_member x (f x)"
      unfolding holder_move_def by blast
    have u: "r = m" if "member_ids db" "r \<in> set (db_members db)" "me_member_id r = mid" for r
      using find_member_unique [OF that(1) _ that(2,3)] m(1) by (simp add: held_claim_Inr)
    from m u show thesis
      by (intro moved [of "\<lambda>x. me_member_id x = mid" f]) (auto simp: update_member_def held_claim_Inr)
  qed (rule same, simp_all)
  from assms show thesis
  proof cases
    case (enqueues e plan seen res)
    from this show thesis
    proof (cases rule: enqueue_cases)
      case (added scope)
      show thesis
        by (rule that(2) [of "plan_rows (sha e) plan" "new_batch_row (sha e) plan scope (clk e 1)" "qp_plan_digest plan"])
          (use added in \<open>auto simp: new_batch_row_def rows_admissible_def dest: plan_rows_fresh\<close>)
    qed (intro same, simp_all)
  next
    case (marks now)
    show thesis
      by (rule moved [of "claim_expired now" "\<lambda>m. m\<lparr>me_state := Member_Reconciliation, me_terminal_at := Some now\<rparr>"])
        (auto simp: marks mark_expired_claims_def claim_expired_def move_simps)
  next
    case (claims m b plan dispatcher expires c)
    with claimable_rowsD [OF claims(1)] show thesis by (intro claimed) auto
  next
    case (resolves state mid cost evidence now)
    show thesis
      by (rule moved [of "\<lambda>x. me_member_id x = mid \<and> me_state x = Member_Reconciliation"
            "\<lambda>x. x\<lparr>me_state := state, me_terminal_at := Some now, me_terminal_evidence_digest := Some evidence,
                 me_observed_cost_usd := Some cost\<rparr>"])
        (use resolves in \<open>auto simp: move_simps\<close>)
  next
    case (renews e mid dispatcher token ttl res)
    then show thesis by (intro holder renew_claim_moves)
  next
    case (releases e mid dispatcher token res)
    then show thesis by (intro holder release_moves)
  next
    case (ends e state mid dispatcher token evidence observed res)
    then show thesis by (intro holder terminal_moves)
  next
    case (gives_up e mid dispatcher token evidence observed res)
    then show thesis by (intro holder require_moves)
  qed (rule same)
qed


section \<open>The invariant\<close>

definition queue_inv :: "runtime_db \<Rightarrow> bool" where
  "queue_inv db \<longleftrightarrow> member_ids db \<and> distinct (map (\<lambda>m. (me_plan_digest m, me_ordinal m)) (db_members db))
     \<and> distinct (map ba_plan_digest (db_batches db))
     \<and> (\<forall>m \<in> set (db_members db). member_row_ok m \<and> me_plan_digest m \<in> ba_plan_digest ` set (db_batches db))"

lemma find_batch_None: "find_batch plan db = None \<longleftrightarrow> plan \<notin> ba_plan_digest ` set (db_batches db)"
  by (auto simp: find_batch_def lookup_row_None)

lemma queue_inv_moved:
  assumes "queue_inv db" "db_members db' = update_rows sel f (db_members db)" "db_batches db' = db_batches db"
    and "\<And>r. r \<in> set (db_members db) \<Longrightarrow> sel r \<Longrightarrow> member_move r (f r)" and "\<And>r. same_member r (f r)"
  shows "queue_inv db'"
proof -
  have "\<forall>m \<in> set (db_members db'). member_row_ok m \<and> me_plan_digest m \<in> ba_plan_digest ` set (db_batches db')"
    unfolding assms(2,3) set_update_rows
  proof (intro ballI, elim imageE)
    fix m r assume m: "m = (if sel r then f r else r)" "r \<in> set (db_members db)"
    with assms(1) have r: "member_row_ok r" "me_plan_digest r \<in> ba_plan_digest ` set (db_batches db)"
      by (auto simp: queue_inv_def)
    have "me_plan_digest (f r) = me_plan_digest r" using assms(5) [of r] by (simp add: same_member_def)
    with r m assms(4) [OF m(2)] show "member_row_ok m \<and> me_plan_digest m \<in> ba_plan_digest ` set (db_batches db)"
      by (auto simp: member_move_def)
  qed
  with assms(1,5) show ?thesis
    by (simp add: queue_inv_def member_ids_def assms(2,3) map_update_rows same_member_def)
qed

lemma queue_step_inv: "queue_inv db \<Longrightarrow> queue_step db db' \<Longrightarrow> queue_inv db'"
proof -
  assume inv: "queue_inv db" and "queue_step db db'"
  from this(2) show "queue_inv db'"
  proof (cases rule: queue_step_cases)
    case same
    with inv show ?thesis by (simp add: queue_inv_def member_ids_def)
  next
    case (added plan b ms)
    then have "plan \<notin> ba_plan_digest ` set (db_batches db)" by (simp add: find_batch_None)
    moreover have "\<forall>m \<in> set (db_members db'). member_row_ok m \<and> me_plan_digest m \<in> ba_plan_digest ` set (db_batches db')"
      using inv added(5,6) unfolding added(1,2) queue_inv_def by auto
    ultimately show ?thesis using inv added(5,7,8) by (simp add: queue_inv_def member_ids_def added(2))
  next
    case (claimed sum_of m b dispatcher expires c)
    then show ?thesis
      by (intro queue_inv_moved [OF inv, of db' "claim_sel (me_member_id m)" "claimed_row dispatcher (db_fencing_counter db + 1) expires"])
        (auto simp: claim_member_Inr claimed_move claim_sel_def, simp add: claimed_row_def same_member_def)
  next
    case (moved sel f)
    have "member_ids db" using inv by (simp add: queue_inv_def)
    with moved show ?thesis by (intro queue_inv_moved [OF inv moved(1,2)]) auto
  qed
qed

interpretation queue_steps: step_system "\<lambda>db. db = initial_db" queue_step queue_inv
  by unfold_locales (simp add: queue_inv_def member_ids_def initial_db_def, rule queue_step_inv)

text \<open>C18. Every stored member is well formed in every reachable database: a queued member has no
  holder, token or lease and no attempt; any other has used its one attempt and names its holder,
  token and lease; only ended members have a time of end; a completed member has evidence and an
  observed cost that is, compared as floats, at most its own ceiling plus the slack. Each belongs to an enqueued
  batch, and identifiers and positions are unique.\<close>

theorem queue_members_well_formed:
  assumes "queue_step\<^sup>*\<^sup>* initial_db db"
  shows "(\<forall>m \<in> set (db_members db). member_row_ok m \<and> (\<exists>b. find_batch (me_plan_digest m) db = Some b))
    \<and> distinct (map me_member_id (db_members db))
    \<and> distinct (map (\<lambda>m. (me_plan_digest m, me_ordinal m)) (db_members db))"
  using queue_steps.reachable_inv [OF refl assms] find_batch_None [of _ db]
  by (fastforce simp: queue_inv_def member_ids_def)

section \<open>Tokens\<close>

definition queue_tokens :: "runtime_db \<Rightarrow> int list" where
  "queue_tokens db = List.map_filter me_fencing_token (db_members db)"

text \<open>A reachable queue, as the table of its tokens.\<close>

definition queue_live_step :: "runtime_db \<Rightarrow> runtime_db \<Rightarrow> bool" where
  "queue_live_step db db' \<longleftrightarrow> queue_inv db \<and> queue_step db db'"

lemma queue_live_steps: "queue_step\<^sup>*\<^sup>* db db' \<Longrightarrow> queue_inv db \<Longrightarrow> queue_live_step\<^sup>*\<^sup>* db db'"
proof (induction rule: rtranclp_induct)
  case (step d d')
  with queue_steps.steps_inv [OF step.hyps(1)] have "queue_live_step d d'" by (simp add: queue_live_step_def)
  with step show ?case by simp
qed simp

interpretation queue_tokens: fenced_table db_fencing_counter queue_tokens queue_live_step
proof
  fix db db' assume "queue_live_step db db'"
  then have inv: "queue_inv db" and st: "queue_step db db'" by (simp_all add: queue_live_step_def)
  from st show "db_fencing_counter db \<le> db_fencing_counter db' \<and> (mset (queue_tokens db') \<subseteq># mset (queue_tokens db)
    \<or> db_fencing_counter db < db_fencing_counter db'
      \<and> mset (queue_tokens db') \<subseteq># add_mset (db_fencing_counter db') (mset (queue_tokens db)))"
  proof (cases rule: queue_step_cases)
    case same
    then show ?thesis by (simp add: queue_tokens_def)
  next
    case (added plan b ms)
    then have "List.map_filter me_fencing_token ms = []" by (auto simp: List.map_filter_def filter_empty_conv)
    with added(1,3) show ?thesis by (simp add: queue_tokens_def List.map_filter_def)
  next
    case (claimed sum_of m b dispatcher expires c)
    note cl = claimed(3) [unfolded claim_member_Inr]
    have "mset (queue_tokens db') \<subseteq># add_mset (db_fencing_counter db + 1) (mset (queue_tokens db))"
      unfolding queue_tokens_def using one_new_token [of "claim_sel (me_member_id m)" "db_members db" me_fencing_token] cl
      by (simp add: claimed_row_def)
    with cl show ?thesis by simp
  next
    case (moved sel f)
    have "member_ids db" using inv by (simp add: queue_inv_def)
    with moved tokens_fewer [of "db_members db" sel me_fencing_token f] show ?thesis by (simp add: queue_tokens_def)
  qed
qed

end
