(* ===== verification/QueueClaimProps.thy ===== *)
theory QueueClaimProps
  imports QueueSafety
begin

text \<open>
  What the operations of the plan queue guarantee to their callers: a claim is authorised, in order and
  within the ceiling; an unused claim is given back without a trace; a repeated enqueue is the first
  one; an ended member never changes.
\<close>

section \<open>The life of a member\<close>

definition member_life :: "member_row \<Rightarrow> member_row \<Rightarrow> bool" where
  "member_life m n \<longleftrightarrow> same_member m n \<and> (me_state m = Member_Completed \<or> me_state m = Member_Failed \<longrightarrow> n = m)
     \<and> (me_state m = Member_Reconciliation \<longrightarrow>
          me_state n = Member_Reconciliation \<or> me_state n = Member_Completed \<or> me_state n = Member_Failed)"

lemma member_life_refl: "member_life m m"
  by (simp add: member_life_def same_member_def)

lemma same_member_trans: "same_member m n \<Longrightarrow> same_member n k \<Longrightarrow> same_member m k"
  by (simp add: same_member_def)

lemma member_life_trans: "member_life m n \<Longrightarrow> member_life n k \<Longrightarrow> member_life m k"
  unfolding member_life_def by (meson same_member_trans)

lemma member_move_life: "member_move m n \<Longrightarrow> member_life m n"
  by (auto simp: member_move_def member_life_def may_follow_def)

lemma find_updated:
  assumes "member_ids db" "find_member mid db = Some m" "db_members db' = update_rows sel f (db_members db)"
    and "\<And>r. me_member_id (f r) = me_member_id r"
  shows "find_member mid db' = Some (if sel m then f m else m)"
proof -
  note m = find_member_Some [OF assms(2)]
  have "member_ids db'" using assms(1,4) by (simp add: member_ids_def assms(3) map_update_rows)
  moreover have "(if sel m then f m else m) \<in> set (db_members db')" using m by (auto simp: assms(3) set_update_rows)
  ultimately show ?thesis using m assms(4) by (simp add: find_member_iff)
qed

lemma member_kept:
  assumes "queue_inv db" "queue_step db db'" "find_member mid db = Some m"
  shows "\<exists>n. find_member mid db' = Some n \<and> member_life m n"
proof -
  have ids: "member_ids db" using assms(1) by (simp add: queue_inv_def)
  from assms(2) show ?thesis
  proof (cases rule: queue_step_cases)
    case same
    with assms(3) member_life_refl show ?thesis by (auto simp: find_member_def)
  next
    case (added plan b ms)
    with assms(3) have "find_member mid db' = Some m" by (simp add: find_member_def lookup_row_append)
    with member_life_refl show ?thesis by blast
  next
    case (claimed sum_of x b dispatcher expires c)
    let ?sel = "claim_sel (me_member_id x)" and ?f = "claimed_row dispatcher (db_fencing_counter db + 1) expires"
    have "find_member mid db' = Some (if ?sel m then ?f m else m)"
      using claimed(3) by (intro find_updated [OF ids assms(3)]) (simp_all add: claim_member_Inr, simp add: claimed_row_def)
    moreover have "member_life m (if ?sel m then ?f m else m)"
      using member_move_life [OF claimed_move] member_life_refl by (simp add: claim_sel_def)
    ultimately show ?thesis by blast
  next
    case (moved sel f)
    have "find_member mid db' = Some (if sel m then f m else m)"
      using moved(4) by (intro find_updated [OF ids assms(3) moved(1)]) (simp add: same_member_def)
    moreover have "member_life m (if sel m then f m else m)"
      using moved(5) [OF ids, of m] find_member_Some [OF assms(3)] member_move_life member_life_refl by simp
    ultimately show ?thesis by blast
  qed
qed

text \<open>C17. A member is never lost, keeps its identity, its place and its ceiling, and ends once: after
  any transactions a completed or failed member is unchanged, and one that needs reconciliation still
  does or has been completed or failed, never queued or claimed again.\<close>

theorem queue_member_life:
  assumes "queue_step\<^sup>*\<^sup>* initial_db db" and "find_member mid db = Some m" and "queue_step\<^sup>*\<^sup>* db db'"
  shows "\<exists>n. find_member mid db' = Some n \<and> same_member m n
    \<and> (me_state m = Member_Completed \<or> me_state m = Member_Failed \<longrightarrow> n = m)
    \<and> (me_state m = Member_Reconciliation \<longrightarrow>
         me_state n = Member_Reconciliation \<or> me_state n = Member_Completed \<or> me_state n = Member_Failed)"
proof -
  from assms(3) have "\<exists>n. find_member mid db' = Some n \<and> member_life m n"
  proof (induction rule: rtranclp_induct)
    case base
    with assms(2) member_life_refl show ?case by blast
  next
    case (step d d')
    then obtain k where k: "find_member mid d = Some k" "member_life m k" by blast
    have "queue_step\<^sup>*\<^sup>* initial_db d" using assms(1) step.hyps(1) by simp
    then have "queue_inv d" by (rule queue_steps.reachable_inv [OF refl])
    from member_kept [OF this step.hyps(2) k(1)] k(2) show ?case using member_life_trans by blast
  qed
  then show ?thesis by (auto simp: member_life_def)
qed

section \<open>Claiming\<close>

lemma select_claimable_Inr:
  "select_claimable h dispatcher db clock last_error rows = Inr (m, b) \<Longrightarrow>
     \<exists>i r scope. i < length rows \<and> rows ! i = (m, b) \<and> reference_from_row b = Inr r
       \<and> dispatcher_scope h (clock i) r (Some dispatcher) db = Inr scope \<and> row_agrees scope m b = Inr ()
       \<and> (\<forall>j < i. \<exists>why. ebind (reference_from_row (snd (rows ! j))) (\<lambda>r. dispatcher_scope h (clock j) r (Some dispatcher) db)
            = Inl (AuthError why))"
proof (induction rows arbitrary: clock last_error)
  case (Cons x rows)
  obtain m0 b0 where x: "x = (m0, b0)" by fastforce
  show ?case
  proof (cases "ebind (reference_from_row b0) (\<lambda>r. dispatcher_scope h (clock 0) r (Some dispatcher) db)")
    case (Inr scope)
    then obtain r where "reference_from_row b0 = Inr r" "dispatcher_scope h (clock 0) r (Some dispatcher) db = Inr scope"
      by (auto simp: result_simps)
    with Cons.prems Inr x show ?thesis by (intro exI [of _ 0]) (auto simp: result_simps)
  next
    case (Inl err)
    with Cons.prems x obtain why where why: "err = AuthError why"
      and "select_claimable h dispatcher db (\<lambda>i. clock (Suc i)) (AuthError why) rows = Inr (m, b)"
      by (cases err) simp_all
    from Cons.IH [OF this(2)] obtain i r scope where i: "i < length rows" "rows ! i = (m, b)" "reference_from_row b = Inr r"
      "dispatcher_scope h (clock (Suc i)) r (Some dispatcher) db = Inr scope" "row_agrees scope m b = Inr ()"
      "\<forall>j < i. \<exists>why. ebind (reference_from_row (snd (rows ! j))) (\<lambda>r. dispatcher_scope h (clock (Suc j)) r (Some dispatcher) db)
            = Inl (AuthError why)"
      by blast
    have "\<exists>why. ebind (reference_from_row (snd ((x # rows) ! j))) (\<lambda>r. dispatcher_scope h (clock j) r (Some dispatcher) db)
            = Inl (AuthError why)" if "j < Suc i" for j
      using that i(6) Inl why x by (cases j) simp_all
    with i(1-5) show ?thesis by (intro exI [of _ "Suc i"] exI [of _ r] exI [of _ scope]) simp
  qed
qed simp

text \<open>\<open>claim\<close>, taken apart.\<close>

lemma claim_Some:
  assumes "claim e dispatcher ttl plan expected between db = (Inr (Some c), db')"
  obtains m b i r scope where
    "(m, b) = claimable_rows plan (between (mark_expired_claims (clk e 0) db)) ! i"
    "i < length (claimable_rows plan (between (mark_expired_claims (clk e 0) db)))"
    "reference_from_row b = Inr r" "row_agrees scope m b = Inr ()"
    "dispatcher_scope (sha e) (clk e (Suc i)) r (Some dispatcher) (between (mark_expired_claims (clk e 0) db)) = Inr scope"
    "\<forall>j < i. \<exists>why. ebind (reference_from_row (snd (claimable_rows plan (between (mark_expired_claims (clk e 0) db)) ! j)))
        (\<lambda>r. dispatcher_scope (sha e) (clk e (Suc j)) r (Some dispatcher) (between (mark_expired_claims (clk e 0) db)))
            = Inl (AuthError why)"
    "claim_member (sql_sum e) m b dispatcher (clk e 0 + seconds ttl) (between (mark_expired_claims (clk e 0) db)) = Inr (c, db')"
proof -
  let ?db1 = "between (mark_expired_claims (clk e 0) db)"
  obtain m b where s: "select_claimable (sha e) dispatcher ?db1 (\<lambda>i. clk e (Suc i)) AssertionError (claimable_rows plan ?db1) = Inr (m, b)"
    and c: "claim_member (sql_sum e) m b dispatcher (clk e 0 + seconds ttl) ?db1 = Inr (c, db')"
    using assms unfolding claim_def
    by (auto simp: Let_def result_simps commit_result_def split: sum.splits if_splits)
  from select_claimable_Inr [OF s] obtain i r scope where
    i: "i < length (claimable_rows plan ?db1)" "claimable_rows plan ?db1 ! i = (m, b)" "reference_from_row b = Inr r"
      "dispatcher_scope (sha e) (clk e (Suc i)) r (Some dispatcher) ?db1 = Inr scope" "row_agrees scope m b = Inr ()"
      "\<forall>j < i. \<exists>why. ebind (reference_from_row (snd (claimable_rows plan ?db1 ! j)))
        (\<lambda>r. dispatcher_scope (sha e) (clk e (Suc j)) r (Some dispatcher) ?db1) = Inl (AuthError why)"
    by blast
  show thesis
  proof (rule that [OF _ i(1) i(3) i(5) i(4) i(6) c])
    show "(m, b) = claimable_rows plan ?db1 ! i" using i(2) by simp
  qed
qed

lemma sum_update_one:
  assumes "count_rows sel rs = 1" "m \<in> set rs" "sel m" "\<And>r. P (f r) = P r" "P m"
  shows "sum_list (map g (filter P (update_rows sel f rs))) = sum_list (map g (filter P rs)) - g m + (g (f m) :: rat)"
  using assms(1,2)
proof (induction rs)
  case (Cons r rs)
  show ?case
  proof (cases "sel r")
    case True
    with Cons.prems have n: "\<forall>x \<in> set rs. \<not> sel x" by (simp add: count_rows_0)
    then have "update_rows sel f rs = rs" by (intro update_rows_id) auto
    moreover have "r = m" using n Cons.prems(2) assms(3) by auto
    ultimately show ?thesis using True assms(4,5) by simp
  next
    case False
    with Cons.prems assms(3) have "m \<in> set rs" "count_rows sel rs = 1" by auto
    with Cons.IH False show ?thesis by simp
  qed
qed simp

text \<open>The exact sum of what the members of a plan count.\<close>

definition reserved_cost :: "string \<Rightarrow> runtime_db \<Rightarrow> rat" where
  "reserved_cost plan db = sum_list (plan_reserves plan db)"

lemma reserved_after_claim:
  assumes "claim_member sum_of m b dispatcher expires db = Inr (c, db')" "m \<in> set (db_members db)" "me_state m = Queued" "queue_inv db"
  shows "reserved_cost (me_plan_digest m) db' = reserved_cost (me_plan_digest m) db + float_value (me_cost_ceiling_usd m)"
proof -
  note c = assms(1) [unfolded claim_member_Inr]
  have a: "claim_sel (me_member_id m) m" using assms(2-4) by (auto simp: claim_sel_def queue_inv_def member_row_ok_def)
  have "member_reserve m = 0" "member_reserve (claimed_row dispatcher t expires m) = float_value (me_cost_ceiling_usd m)" for t
    using assms(3) by (simp_all add: member_reserve_def claimed_row_def)
  with sum_update_one [of "claim_sel (me_member_id m)" "db_members db" m "\<lambda>x. me_plan_digest x = me_plan_digest m"
      "claimed_row dispatcher (db_fencing_counter db + 1) expires" member_reserve] c a assms(2)
  show ?thesis by (simp add: reserved_cost_def plan_reserves_def) (simp add: claimed_row_def)
qed

lemma claim_finds:
  assumes "claim_member sum_of m b dispatcher expires db = Inr (c, db')" "m \<in> set (db_members db)" "me_state m = Queued" "queue_inv db"
  shows "find_member (me_member_id m) db' = Some (claimed_row dispatcher (db_fencing_counter db + 1) expires m)"
proof -
  note c = assms(1) [unfolded claim_member_Inr]
  have a: "claim_sel (me_member_id m) m" using assms(2-4) by (auto simp: claim_sel_def queue_inv_def member_row_ok_def)
  have ids: "member_ids db" using assms(4) by (simp add: queue_inv_def)
  have "find_member (me_member_id m) db = Some m" using ids assms(2) by (simp add: find_member_iff)
  from find_updated [OF ids this, of db' "claim_sel (me_member_id m)" "claimed_row dispatcher (db_fencing_counter db + 1) expires"] c a
  show ?thesis by (simp add: claimed_row_def)
qed


text \<open>What other processes do between two transactions of an operation.\<close>

definition others_commit :: "(runtime_db \<Rightarrow> runtime_db) \<Rightarrow> bool" where
  "others_commit between \<longleftrightarrow> (\<forall>db. queue_step\<^sup>*\<^sup>* db (between db))"

lemma claim_state_inv:
  assumes "queue_step\<^sup>*\<^sup>* initial_db db" "others_commit between"
  shows "queue_inv (between (mark_expired_claims now db))"
proof -
  have "queue_step\<^sup>*\<^sup>* initial_db (mark_expired_claims now db)" using assms(1) queue_step.marks by (rule rtranclp.rtrancl_into_rtrancl)
  also have "queue_step\<^sup>*\<^sup>* (mark_expired_claims now db) (between (mark_expired_claims now db))"
    using assms(2) by (simp add: others_commit_def)
  finally show ?thesis by (rule queue_steps.reachable_inv [OF refl])
qed

text \<open>The ceilings of a stored scope are not negative.\<close>

lemma loaded_aggregate_nonneg:
  "load_scope h now r db = Inr scope \<Longrightarrow> 0 \<le> float_value (bs_aggregate_cost_ceiling_usd scope)"
proof -
  assume "load_scope h now r db = Inr scope"
  then obtain v where "batch_scope_from_dict v = Inr scope"
    unfolding load_scope_def by (auto simp: Let_def split: option.splits sum.splits err.splits if_splits)
  then show ?thesis
    by (auto simp: batch_scope_from_dict_def batch_scope_create_def ebind_Inr_iff split: json.splits option.splits if_splits
        dest: cost_of_nonneg)
qed

text \<open>A row that agrees with its scope, field by field.\<close>

lemma row_agrees_Inr:
  assumes "row_agrees scope m b = Inr ()"
  shows "nat (me_ordinal m) < length (bs_ordered_members scope)"
    and "bm_member_digest (bs_ordered_members scope ! nat (me_ordinal m)) = me_member_digest m"
    "bm_provider_id (bs_ordered_members scope ! nat (me_ordinal m)) = me_provider_id m"
    "bm_route_id (bs_ordered_members scope ! nat (me_ordinal m)) = me_route_id m"
    "bm_role_digest (bs_ordered_members scope ! nat (me_ordinal m)) = me_role_digest m"
    "bm_privacy (bs_ordered_members scope ! nat (me_ordinal m)) = me_privacy m"
    "bm_context_class (bs_ordered_members scope ! nat (me_ordinal m)) = me_context_class m"
    "float_value (bm_cost_ceiling_usd (bs_ordered_members scope ! nat (me_ordinal m))) = float_value (me_cost_ceiling_usd m)"
    and "float_value (bs_aggregate_cost_ceiling_usd scope) = float_value (ba_aggregate_cost_ceiling_usd b)"
    and "0 \<le> float_value (me_cost_ceiling_usd m)"
proof -
  obtain x where x: "scope_member_from_row m = Inr x" "member_eq (bs_ordered_members scope ! nat (me_ordinal m)) x"
    and l: "nat (me_ordinal m) < length (bs_ordered_members scope)"
      "float_value (bs_aggregate_cost_ceiling_usd scope) = float_value (ba_aggregate_cost_ceiling_usd b)"
    using assms by (auto simp: row_agrees_def ebind_Inr_iff split: if_splits)
  have f: "bm_member_digest x = me_member_digest m \<and> bm_provider_id x = me_provider_id m \<and> bm_route_id x = me_route_id m
      \<and> bm_role_digest x = me_role_digest m \<and> bm_privacy x = me_privacy m \<and> bm_context_class x = me_context_class m
      \<and> bm_cost_ceiling_usd x = me_cost_ceiling_usd m \<and> 0 \<le> float_value (me_cost_ceiling_usd m)"
    using x(1) by (auto simp: scope_member_from_row_def member_create_def result_simps dest!: cost_of_nonneg_float split: if_splits)
  show "nat (me_ordinal m) < length (bs_ordered_members scope)"
    "float_value (bs_aggregate_cost_ceiling_usd scope) = float_value (ba_aggregate_cost_ceiling_usd b)"
    by (rule l)+
  show "0 \<le> float_value (me_cost_ceiling_usd m)" using f by blast
  show "bm_member_digest (bs_ordered_members scope ! nat (me_ordinal m)) = me_member_digest m"
    "bm_provider_id (bs_ordered_members scope ! nat (me_ordinal m)) = me_provider_id m"
    "bm_route_id (bs_ordered_members scope ! nat (me_ordinal m)) = me_route_id m"
    "bm_role_digest (bs_ordered_members scope ! nat (me_ordinal m)) = me_role_digest m"
    "bm_privacy (bs_ordered_members scope ! nat (me_ordinal m)) = me_privacy m"
    "bm_context_class (bs_ordered_members scope ! nat (me_ordinal m)) = me_context_class m"
    "float_value (bm_cost_ceiling_usd (bs_ordered_members scope ! nat (me_ordinal m))) = float_value (me_cost_ceiling_usd m)"
    using x(2) f by (simp_all add: member_eq_def)
qed

lemma find_batch_row:
  assumes "queue_inv db" "b \<in> set (db_batches db)"
  shows "find_batch (ba_plan_digest b) db = Some b"
proof -
  obtain x where x: "find_batch (ba_plan_digest b) db = Some x"
    using assms(2) find_batch_None [of "ba_plan_digest b" db] by auto
  then have "x \<in> set (db_batches db)" "ba_plan_digest x = ba_plan_digest b"
    by (auto simp: find_batch_def dest!: lookup_row_Some)
  with assms key_unique [of ba_plan_digest "db_batches db" x b] x show ?thesis by (simp add: queue_inv_def)
qed

text \<open>No member of an earlier database holds a token above the counter.\<close>

lemma earlier_tokens:
  assumes "queue_step\<^sup>*\<^sup>* initial_db d" "queue_step\<^sup>*\<^sup>* d db" "x \<in> set (db_members d)" "me_fencing_token x = Some t"
  shows "t \<le> db_fencing_counter db"
proof -
  have i: "queue_inv initial_db" "queue_inv d" using queue_steps.reachable_inv [OF refl] assms(1) by blast+
  have "queue_tokens.fenced initial_db" by (simp add: queue_tokens.fenced_def queue_tokens_def initial_db_def List.map_filter_def)
  then have "queue_tokens.fenced d" using queue_live_steps [OF assms(1) i(1)] by (rule queue_tokens.steps_fenced [rotated])
  moreover have "t \<in> set (queue_tokens d)" using assms(3,4) by (force simp: queue_tokens_def List.map_filter_def)
  ultimately have "t \<le> db_fencing_counter d" by (simp add: queue_tokens.fenced_def)
  also have "\<dots> \<le> db_fencing_counter db" by (rule queue_tokens.counter_steps [OF queue_live_steps [OF assms(2) i(2)]])
  finally show ?thesis .
qed

text \<open>The bound a passed check gives for the exact sums, when the database's sum is short by at most the
  share \<open>d\<close>.\<close>

lemma aggregate_bound:
  assumes "fadd paid c \<le> fadd a slack" "0 \<le> a" "0 \<le> c" "0 \<le> d" "(1 - d) * s \<le> paid"
  shows "(1 - d) * (s + c) \<le> (a + slack) * (1 + 1 / 2 ^ 51)"
proof -
  have "(1 - d) * c \<le> c" using assms(3,4) by (simp add: left_diff_distrib)
  with assms(5) have "(1 - d) * (s + c) \<le> paid + c" by (simp add: distrib_left)
  also have "\<dots> \<le> (a + slack) * (1 + 1 / 2 ^ 51)" by (rule fadd_check [OF assms(2,1)])
  finally show ?thesis .
qed

text \<open>C16. A claim is authorised and affordable. When \<open>claim\<close> hands out a member, the batch row of its
  plan names a batch authority that loads at that moment (unrevoked, unexpired, intact), names the
  dispatcher, and grants at the member's position exactly this member: the same digest, provider, route,
  role, privacy, context class and ceiling. The float sum of what the plan has claimed and spent, plus this
  member's ceiling, is at most the granted aggregate plus the slack; if SQLite's sum is short of the exact
  one by at most a share \<open>d\<close>, the exact sum after the claim stays, up to that share and the rounding of
  the last additions, within the aggregate plus \<open>1e-12\<close>. The stored member was queued and is now claimed by
  the dispatcher, under a token above every token a member held in any earlier database.\<close>

theorem claim_is_authorised:
  assumes "queue_step\<^sup>*\<^sup>* initial_db db" "others_commit between"
    and "claim e dispatcher ttl plan expected between db = (Inr (Some c), db')"
  shows "\<exists>db1 m b r scope i g. db1 = between (mark_expired_claims (clk e 0) db)
    \<and> m \<in> set (db_members db1) \<and> me_state m = Queued \<and> me_member_id m = qc_member_id c
    \<and> me_plan_digest m = qc_plan_digest c \<and> find_batch (qc_plan_digest c) db1 = Some b
    \<and> br_authority_id r = lower (ba_authority_id b) \<and> br_digest r = ba_authority_digest b
    \<and> br_revision r = ba_authority_revision b \<and> br_plan_digest r = qc_plan_digest c
    \<and> load_scope (sha e) (clk e (Suc i)) r db1 = Inr scope \<and> dispatcher \<in> set (bs_authorized_dispatchers scope)
    \<and> nat (me_ordinal m) < length (bs_ordered_members scope) \<and> g = bs_ordered_members scope ! nat (me_ordinal m)
    \<and> qc_ordinal c = me_ordinal m \<and> bm_member_digest g = qc_member_digest c \<and> bm_provider_id g = qc_provider_id c
    \<and> bm_route_id g = qc_route_id c \<and> bm_role_digest g = qc_role_digest c \<and> bm_privacy g = qc_privacy c
    \<and> bm_context_class g = qc_context_class c
    \<and> float_value (bm_cost_ceiling_usd g) = float_value (qc_cost_ceiling_usd c)
    \<and> fadd (sql_sum e (plan_reserves (qc_plan_digest c) db1)) (float_value (qc_cost_ceiling_usd c))
        \<le> fadd (float_value (bs_aggregate_cost_ceiling_usd scope)) slack
    \<and> (\<forall>d \<ge> 0. (1 - d) * reserved_cost (qc_plan_digest c) db1 \<le> sql_sum e (plan_reserves (qc_plan_digest c) db1)
        \<longrightarrow> (1 - d) * reserved_cost (qc_plan_digest c) db'
             \<le> (float_value (bs_aggregate_cost_ceiling_usd scope) + slack) * (1 + 1 / 2 ^ 51))
    \<and> find_member (qc_member_id c) db' = Some (claimed_row dispatcher (qc_fencing_token c) (clk e 0 + seconds ttl) m)
    \<and> (\<forall>d x t. queue_step\<^sup>*\<^sup>* initial_db d \<and> queue_step\<^sup>*\<^sup>* d db1 \<and> x \<in> set (db_members d) \<and> me_fencing_token x = Some t
        \<longrightarrow> t < qc_fencing_token c)
    \<and> db_fencing_counter db1 < qc_fencing_token c \<and> qc_fencing_token c = db_fencing_counter db'"
proof -
  let ?db1 = "between (mark_expired_claims (clk e 0) db)"
  have inv: "queue_inv ?db1" by (rule claim_state_inv [OF assms(1,2)])
  obtain m b i r scope where i: "(m, b) = claimable_rows plan ?db1 ! i" "i < length (claimable_rows plan ?db1)"
    and r: "reference_from_row b = Inr r" "row_agrees scope m b = Inr ()"
      "dispatcher_scope (sha e) (clk e (Suc i)) r (Some dispatcher) ?db1 = Inr scope"
    and cm: "claim_member (sql_sum e) m b dispatcher (clk e 0 + seconds ttl) ?db1 = Inr (c, db')"
    using assms(3) by (rule claim_Some)
  have m: "m \<in> set (db_members ?db1)" "me_state m = Queued" "b \<in> set (db_batches ?db1)" "ba_plan_digest b = me_plan_digest m"
    using claimable_rowsD [of m b plan ?db1] i by (auto simp: in_set_conv_nth)
  have c: "c = claim_of m dispatcher (db_fencing_counter ?db1 + 1) (clk e 0 + seconds ttl) 1"
      "fadd (sql_sum e (plan_reserves (me_plan_digest m) ?db1)) (float_value (me_cost_ceiling_usd m))
        \<le> fadd (float_value (ba_aggregate_cost_ceiling_usd b)) slack"
      "db_fencing_counter db' = db_fencing_counter ?db1 + 1"
    using cm by (auto simp: claim_member_Inr)
  have q: "qc_member_id c = me_member_id m" "qc_plan_digest c = me_plan_digest m" "qc_ordinal c = me_ordinal m"
    "qc_member_digest c = me_member_digest m" "qc_provider_id c = me_provider_id m" "qc_route_id c = me_route_id m"
    "qc_role_digest c = me_role_digest m" "qc_privacy c = me_privacy m" "qc_context_class c = me_context_class m"
    "qc_cost_ceiling_usd c = me_cost_ceiling_usd m" "qc_fencing_token c = db_fencing_counter ?db1 + 1"
    by (simp_all add: c(1) claim_of_def candidate_of_def queue_candidate.defs queue_claim.defs)
  have fb: "find_batch (me_plan_digest m) ?db1 = Some b"
    using find_batch_row [OF inv m(3)] m(4) by simp
  have br: "br_authority_id r = lower (ba_authority_id b)" "br_digest r = ba_authority_digest b"
    "br_revision r = ba_authority_revision b" "br_plan_digest r = me_plan_digest m"
    using r(1) m(4) by (auto simp: reference_from_row_def batch_reference_post_init_def chk_uuid4_def result_simps split: if_splits)
  have ls: "load_scope (sha e) (clk e (Suc i)) r ?db1 = Inr scope" "dispatcher \<in> set (bs_authorized_dispatchers scope)"
    using r(3) by (simp_all add: dispatcher_scope_Inr)
  note ra = row_agrees_Inr(1-8) [OF r(2)]
    and agg = row_agrees_Inr(9) [OF r(2)] and nonneg = row_agrees_Inr(10) [OF r(2)]
  have fit: "fadd (sql_sum e (plan_reserves (me_plan_digest m) ?db1)) (float_value (me_cost_ceiling_usd m))
      \<le> fadd (float_value (bs_aggregate_cost_ceiling_usd scope)) slack" using c(2) agg by simp
  have bound: "(1 - d) * reserved_cost (me_plan_digest m) db'
      \<le> (float_value (bs_aggregate_cost_ceiling_usd scope) + slack) * (1 + 1 / 2 ^ 51)"
    if "0 \<le> d" "(1 - d) * reserved_cost (me_plan_digest m) ?db1 \<le> sql_sum e (plan_reserves (me_plan_digest m) ?db1)" for d
    using aggregate_bound [OF fit loaded_aggregate_nonneg [OF ls(1)] nonneg that] reserved_after_claim [OF cm m(1,2) inv] by simp
  have r1: "queue_step\<^sup>*\<^sup>* d ?db1 \<Longrightarrow> queue_step\<^sup>*\<^sup>* initial_db d \<Longrightarrow> x \<in> set (db_members d) \<Longrightarrow> me_fencing_token x = Some t
      \<Longrightarrow> t < db_fencing_counter ?db1 + 1" for d x t
    using earlier_tokens [of d ?db1 x t] by fastforce
  have found: "find_member (me_member_id m) db'
      = Some (claimed_row dispatcher (db_fencing_counter ?db1 + 1) (clk e 0 + seconds ttl) m)"
    by (rule claim_finds [OF cm m(1,2) inv])
  show ?thesis unfolding q
    by (rule exI [of _ ?db1], rule exI [of _ m], rule exI [of _ b], rule exI [of _ r], rule exI [of _ scope], rule exI [of _ i],
        rule exI [of _ "bs_ordered_members scope ! nat (me_ordinal m)"])
      (intro conjI allI impI, (rule refl m(1,2) fb br ls ra fit found)+, (rule bound, assumption+),
        rule found, (elim conjE, rule r1, assumption+), simp, simp only: c(3))
qed

section \<open>Order\<close>

lemma load_scope_earlier:
  "load_scope h t r db = Inr scope \<Longrightarrow> s \<le> t \<Longrightarrow> load_scope h s r db = Inr scope"
  unfolding load_scope_def
  by (auto simp: Let_def split: option.splits sum.splits err.splits if_splits)

lemma dispatcher_scope_earlier:
  "dispatcher_scope h t r (Some d) db = Inr scope \<Longrightarrow> s \<le> t \<Longrightarrow> dispatcher_scope h s r (Some d) db = Inr scope"
  using load_scope_earlier unfolding dispatcher_scope_Inr by blast

lemma sorted_rows:
  "sorted (map k ms) \<Longrightarrow> sorted (map (k \<circ> fst) (concat (map (\<lambda>m. map (Pair m) (F m)) ms)))"
proof (induction ms)
  case (Cons a ms)
  have "sorted (map (\<lambda>_. k a) xs)" for xs by (induction xs) auto
  with Cons show ?case by (auto simp: sorted_append o_def)
qed simp

text \<open>The members of a plan are claimed in its order: when the clock does not run backwards, a
  claimed member is the first of its plan that was still queued.\<close>

theorem members_claimed_in_order:
  assumes "queue_step\<^sup>*\<^sup>* initial_db db" "others_commit between"
    and "claim e dispatcher ttl plan expected between db = (Inr (Some c), db')"
    and "mono (clk e)"
    and "m' \<in> set (db_members (between (mark_expired_claims (clk e 0) db)))" "me_state m' = Queued"
      "me_plan_digest m' = qc_plan_digest c"
  shows "qc_ordinal c \<le> me_ordinal m'"
proof -
  let ?db1 = "between (mark_expired_claims (clk e 0) db)"
  let ?rows = "claimable_rows plan ?db1"
  let ?key = "\<lambda>m. (me_plan_digest m, me_ordinal m)"
  have inv: "queue_inv ?db1" by (rule claim_state_inv [OF assms(1,2)])
  obtain m b i r scope where i: "(m, b) = ?rows ! i" "i < length ?rows"
    and r: "reference_from_row b = Inr r" "dispatcher_scope (sha e) (clk e (Suc i)) r (Some dispatcher) ?db1 = Inr scope"
    and before: "\<forall>j < i. \<exists>why. ebind (reference_from_row (snd (?rows ! j)))
        (\<lambda>r. dispatcher_scope (sha e) (clk e (Suc j)) r (Some dispatcher) ?db1) = Inl (AuthError why)"
    and cm: "claim_member (sql_sum e) m b dispatcher (clk e 0 + seconds ttl) ?db1 = Inr (c, db')"
    using assms(3) by (rule claim_Some)
  have m: "me_plan_digest m = qc_plan_digest c" "me_ordinal m = qc_ordinal c" "b \<in> set (db_batches ?db1)"
      "ba_plan_digest b = me_plan_digest m" "plan = None \<or> plan = Some (me_plan_digest m)"
    using claimable_rowsD [of m b plan ?db1] i cm
    by (auto simp: in_set_conv_nth claim_member_Inr claim_of_def candidate_of_def queue_candidate.defs queue_claim.defs)
  obtain j where j: "j < length ?rows" "?rows ! j = (m', b)"
  proof -
    have "(m', b) \<in> set ?rows" using assms(5-7) m by (auto simp: claimable_rows_def)
    then show thesis using that by (auto simp: in_set_conv_nth)
  qed
  have sorted: "sorted (map (?key \<circ> fst) ?rows)"
    unfolding claimable_rows_def by (rule sorted_rows) simp
  show ?thesis
  proof (cases "j < i")
    case True
    with before obtain why where "ebind (reference_from_row (snd (?rows ! j)))
        (\<lambda>r. dispatcher_scope (sha e) (clk e (Suc j)) r (Some dispatcher) ?db1) = Inl (AuthError why)" by blast
    then have "dispatcher_scope (sha e) (clk e (Suc j)) r (Some dispatcher) ?db1 \<noteq> Inr scope" by (simp add: j(2) r(1))
    moreover have le: "clk e (Suc j) \<le> clk e (Suc i)" using assms(4) True by (simp add: monoD)
    ultimately show ?thesis using dispatcher_scope_earlier [OF r(2) le] by simp
  next
    case False
    with sorted i(2) j(1) have "(?key \<circ> fst) (?rows ! i) \<le> (?key \<circ> fst) (?rows ! j)"
      using sorted_nth_mono [OF sorted, of i j] by simp
    with i(1) [symmetric] j(2) m assms(7) show ?thesis by simp
  qed
qed


section \<open>Giving a claim back\<close>

lemma counter_nonneg: "queue_step\<^sup>*\<^sup>* initial_db db \<Longrightarrow> 0 \<le> db_fencing_counter db"
  using queue_tokens.counter_steps [OF queue_live_steps, of initial_db db] queue_steps.start_inv [OF refl]
  by (simp add: initial_db_def)

text \<open>A claim that is released before it is dispatched leaves no trace: the released member is the
  queued row it was, with its attempt unused, and the whole database is as before the claim except for
  the fencing counter, which never goes back.\<close>

theorem unused_claim_is_undone:
  assumes "queue_step\<^sup>*\<^sup>* initial_db db" "others_commit between"
    and "claim e dispatcher ttl plan expected between db = (Inr (Some c), db')"
    and "is_sha256 (qc_member_id c)" and "clk e' 0 < qc_lease_expires_at c"
  shows "\<exists>m. find_member (qc_member_id c) (between (mark_expired_claims (clk e 0) db)) = Some m
    \<and> release_before_dispatch e' (qc_member_id c) dispatcher (qc_fencing_token c) db'
      = (Inr m, bump_fencing (between (mark_expired_claims (clk e 0) db)))"
proof -
  let ?db1 = "between (mark_expired_claims (clk e 0) db)"
  have reach: "queue_step\<^sup>*\<^sup>* initial_db ?db1"
  proof -
    have "queue_step\<^sup>*\<^sup>* initial_db (mark_expired_claims (clk e 0) db)"
      using assms(1) queue_step.marks by (rule rtranclp.rtrancl_into_rtrancl)
    also have "queue_step\<^sup>*\<^sup>* (mark_expired_claims (clk e 0) db) ?db1" using assms(2) by (simp add: others_commit_def)
    finally show ?thesis .
  qed
  then have inv: "queue_inv ?db1" by (rule queue_steps.reachable_inv [OF refl])
  obtain m b i r scope where i: "(m, b) = claimable_rows plan ?db1 ! i" "i < length (claimable_rows plan ?db1)"
    and cm: "claim_member (sql_sum e) m b dispatcher (clk e 0 + seconds ttl) ?db1 = Inr (c, db')"
    using assms(3) by (rule claim_Some)
  have m: "m \<in> set (db_members ?db1)" "me_state m = Queued"
    using claimable_rowsD [of m b plan ?db1] i by (auto simp: in_set_conv_nth)
  have chk: "is_identifier dispatcher"
    using assms(3) by (auto simp: claim_def claim_check_def result_simps split: sum.splits)
  let ?t = "db_fencing_counter ?db1 + 1" and ?x = "clk e 0 + seconds ttl" and ?mid = "me_member_id m"
  let ?f = "claimed_row dispatcher ?t ?x"
  let ?g = "\<lambda>x :: member_row. x\<lparr>me_state := Queued, me_lease_holder := None, me_fencing_token := None,
              me_lease_expires_at := None, me_attempts := 0\<rparr>"
  have c: "qc_member_id c = ?mid" "qc_fencing_token c = ?t" "qc_lease_expires_at c = ?x"
    and d: "db' = (bump_fencing ?db1)\<lparr>db_members := update_rows (claim_sel ?mid) ?f (db_members ?db1)\<rparr>"
    using cm by (auto simp: claim_member_Inr claim_of_def candidate_of_def queue_candidate.defs queue_claim.defs)
  have ids: "member_ids ?db1" using inv by (simp add: queue_inv_def)
  have found: "find_member ?mid ?db1 = Some m" using ids m(1) by (simp add: find_member_iff)
  have held: "held_claim ?mid dispatcher ?t db' = Inr (?f m)"
    using claim_finds [OF cm m inv] by (simp add: held_claim_Inr claimed_row_def)
  have undo: "update_rows (\<lambda>x. me_member_id x = ?mid) ?g (db_members db') = db_members ?db1"
  proof -
    have "(if me_member_id y = ?mid then ?g y else y) = x"
      if "x \<in> set (db_members ?db1)" "y = (if claim_sel ?mid x then ?f x else x)" for x y
    proof (cases "me_member_id x = ?mid")
      case True
      then have x: "x = m" using find_member_unique [OF ids found that(1)] by simp
      have "member_row_ok m" using inv m(1) by (simp add: queue_inv_def)
      with x that(2) m(2) show ?thesis
        by (cases m) (simp add: claim_sel_def claimed_row_def member_row_ok_def)
    next
      case False
      with that(2) show ?thesis by (simp add: claim_sel_def)
    qed
    then show ?thesis unfolding d update_rows_def by (simp add: map_idI)
  qed
  have up: "update_member ?mid ?g db' = bump_fencing ?db1"
  proof -
    have "update_member ?mid ?g db' = db'\<lparr>db_members := db_members ?db1\<rparr>" unfolding update_member_def undo ..
    also have "\<dots> = bump_fencing ?db1" unfolding d by (simp add: bump_fencing_def)
    finally show ?thesis .
  qed
  have "\<not> lease_over (clk e' 0) (?f m)" using assms(5) c(3) by (simp add: lease_over_def claimed_row_def)
  moreover have "1 \<le> ?t" using counter_nonneg [OF reach] by simp
  moreover have "read_member ?mid (bump_fencing ?db1) = Inr m"
    using assms(4) found by (simp add: c(1) read_member_def chk_digest_def find_member_def)
  ultimately have "release_before_dispatch e' ?mid dispatcher ?t db' = (Inr m, bump_fencing ?db1)"
    using assms(4) chk held up by (simp add: c(1) release_before_dispatch_def chk_digest_def chk_identifier_def Let_def)
  with found show ?thesis by (simp add: c)
qed

section \<open>Enqueueing twice\<close>

text \<open>The members of a plan, as their identifiers and positions.\<close>

definition plan_ids :: "string \<Rightarrow> runtime_db \<Rightarrow> (string \<times> int) list" where
  "plan_ids plan db = map (\<lambda>m. (me_member_id m, me_ordinal m)) (filter (\<lambda>m. me_plan_digest m = plan) (db_members db))"

lemma plan_ids_update:
  assumes "\<And>r. same_member r (f r)"
  shows "map (\<lambda>m. (me_member_id m, me_ordinal m)) (filter (\<lambda>m. me_plan_digest m = plan) (update_rows sel f rs))
    = map (\<lambda>m. (me_member_id m, me_ordinal m)) (filter (\<lambda>m. me_plan_digest m = plan) rs)"
  using assms by (induction rs) (auto simp: same_member_def)

lemma sort_key_image: "sort_key k (map g xs) = map g (sort_key (\<lambda>x. k (g x)) xs)"
proof -
  have "insort_key k (g x) (map g ys) = map g (insort_key (\<lambda>x. k (g x)) x ys)" for x ys
    by (induction ys) auto
  then show ?thesis by (induction xs) simp_all
qed

lemma plan_ids_members: "plan_ids plan db = plan_ids plan db' \<Longrightarrow>
  map me_member_id (plan_members plan db) = map me_member_id (plan_members plan db')"
proof -
  have "map me_member_id (plan_members plan d) = map fst (sort_key snd (plan_ids plan d))" for d
  proof -
    have "sort_key snd (plan_ids plan d) = map (\<lambda>m. (me_member_id m, me_ordinal m)) (plan_members plan d)"
      unfolding plan_ids_def plan_members_def sort_key_image by simp
    then show ?thesis by simp
  qed
  then show "plan_ids plan db = plan_ids plan db' \<Longrightarrow> ?thesis" by simp
qed


lemma plan_kept:
  assumes "queue_inv db" "queue_step db db'" "find_batch p db = Some b"
  shows "find_batch p db' = Some b \<and> plan_ids p db' = plan_ids p db"
proof -
  have ids: "member_ids db" using assms(1) by (simp add: queue_inv_def)
  from assms(2) show ?thesis
  proof (cases rule: queue_step_cases)
    case same
    with assms(3) show ?thesis by (simp add: find_batch_def plan_ids_def)
  next
    case (added plan x ms)
    with assms(3) have "plan \<noteq> p" by auto
    then have "filter (\<lambda>m. me_plan_digest m = p) ms = []" using added(6) by (auto simp: filter_empty_conv)
    with added(1,2) assms(3) show ?thesis by (simp add: find_batch_def plan_ids_def lookup_row_append)
  next
    case (claimed sum_of m x dispatcher expires c)
    with assms(3) show ?thesis
      using plan_ids_update [of "claimed_row dispatcher (db_fencing_counter db + 1) expires" p "claim_sel (me_member_id m)" "db_members db"]
      by (simp add: claim_member_Inr find_batch_def plan_ids_def) (simp add: claimed_row_def same_member_def)
  next
    case (moved sel f)
    with assms(3) plan_ids_update [of f p sel "db_members db"] show ?thesis by (simp add: find_batch_def plan_ids_def)
  qed
qed

lemma plan_kept_steps:
  "queue_step\<^sup>*\<^sup>* db db' \<Longrightarrow> queue_inv db \<Longrightarrow> find_batch p db = Some b
     \<Longrightarrow> find_batch p db' = Some b \<and> plan_ids p db' = plan_ids p db"
proof (induction rule: rtranclp_induct)
  case (step d d')
  with plan_kept [OF queue_steps.steps_inv [OF step.hyps(1)] step.hyps(2)] show ?case by simp
qed simp

lemma plan_rows_ids:
  "map me_member_id (plan_rows h plan) = queue_member_ids h plan"
  "map me_ordinal (plan_rows h plan) = map int [0..<length (qp_members plan)]"
proof -
  show "map me_member_id (plan_rows h plan) = queue_member_ids h plan"
    by (simp add: plan_rows_def queue_member_ids_def new_member_row_def comp_def case_prod_beta)
  have "map me_ordinal (plan_rows h plan) = map int (map fst (enumerate 0 (qp_members plan)))"
    by (simp add: plan_rows_def new_member_row_def comp_def case_prod_beta del: map_fst_enumerate)
  then show "map me_ordinal (plan_rows h plan) = map int [0..<length (qp_members plan)]"
    unfolding map_fst_enumerate by simp
qed

text \<open>Enqueueing is idempotent: when a plan that was enqueued is enqueued again, at any later time
  and under the same grant, whatever its members have gone through since, the call returns the same
  member identifiers, one per member, and changes nothing.\<close>

theorem enqueue_is_idempotent:
  assumes "queue_step\<^sup>*\<^sup>* initial_db db" and "find_batch (qp_plan_digest plan) db = None"
    and "enqueue e plan seen db = (Inr ids, db1)" and "queue_step\<^sup>*\<^sup>* db1 db2"
    and "sha e2 = sha e" and "dispatcher_scope (sha e2) (clk e2 0) (qp_authority plan) None seen2
      = dispatcher_scope (sha e) (clk e 0) (qp_authority plan) None seen"
  shows "enqueue e2 plan seen2 db2 = (Inr ids, db2) \<and> length ids = length (qp_members plan)"
  using assms(3)
proof (cases rule: enqueue_cases)
  case (added scope)
  let ?p = "qp_plan_digest plan" and ?ms = "plan_rows (sha e) plan" and ?b = "new_batch_row (sha e) plan scope (clk e 1)"
  have inv: "queue_inv db" by (rule queue_steps.reachable_inv [OF refl assms(1)])
  have st: "queue_step db db1" using assms(3) by (rule queue_step.enqueues)
  have "find_batch ?p db1 = Some ?b"
    using assms(2) by (simp add: added(8) find_batch_def lookup_row_append new_batch_row_def)
  note k = plan_kept_steps [OF assms(4) queue_step_inv [OF inv st] this]
  have "filter (\<lambda>m. me_plan_digest m = ?p) (db_members db) = []"
    using inv assms(2) unfolding filter_empty_conv queue_inv_def find_batch_None by metis
  moreover have "filter (\<lambda>m. me_plan_digest m = ?p) ?ms = ?ms" by (auto simp: filter_id_conv dest: plan_rows_fresh)
  ultimately have "plan_members ?p db1 = sort_key me_ordinal ?ms" by (simp add: plan_members_def added(8))
  moreover have "sorted (map me_ordinal ?ms)" unfolding plan_rows_ids by (simp add: sorted_map)
  ultimately have "plan_members ?p db1 = ?ms" by (simp add: sort_key_id_if_sorted)
  with plan_ids_members [OF conjunct2 [OF k]] plan_rows_ids(1) [of "sha e" plan]
  have ids: "map me_member_id (plan_members ?p db2) = ids" using added(7) assms(3) by simp
  have len: "length ids = length (qp_members plan)" using added(7) by (simp add: queue_member_ids_def)
  have "batch_matches ?b (new_batch_row (sha e2) plan scope (clk e2 1))"
    by (simp add: batch_matches_def new_batch_row_def assms(5))
  moreover have "bs_plan_digest scope = qp_plan_digest plan"
    using assms(2,3) added(1) by (auto simp: enqueue_def split: if_splits)
  moreover have s2: "dispatcher_scope (sha e2) (clk e2 0) (qp_authority plan) None seen2 = Inr scope"
    unfolding assms(6) by (rule added(1))
  ultimately have "enqueue e2 plan seen2 db2 = (Inr ids, db2)"
    unfolding enqueue_def s2 using k ids added(2-5) by (simp add: Let_def)
  with len show ?thesis by simp
qed (use assms(2) in auto)

end
