(* ===== verification/QueueExample.thy ===== *)
theory QueueExample
  imports QueueClaimProps TargetLeasesProps
begin

text \<open>
  A plan of two members, enqueued and claimed: the theorems of the queue at a concrete input. The hash
  is the stand-in of the other examples, made to tell the two member identifiers apart.
\<close>

section \<open>The plan\<close>

definition queue_doc :: "nat \<Rightarrow> json" where
  "queue_doc i = JObj [(''plan_digest'', JStr (dg CHR ''a'')), (''ordinal'', JInt (int i)),
     (''member_digest'', JStr (bm_member_digest (example_member (Suc i))))]"

definition queue_text :: "nat \<Rightarrow> string" where
  "queue_text i = ''plan_queue_member_v1'' @ CHR 0x00 # enc (json_norm (queue_doc i))"

definition queue_sha :: "string \<Rightarrow> string" where
  "queue_sha s = (if s = queue_text 1 then dg CHR ''f'' else example_sha s)"

definition queue_env :: "int \<Rightarrow> env" where
  "queue_env t = \<lparr>sha = queue_sha, uid = example_uid, clk = (\<lambda>i. seconds (t + int i)), sql_sum = sum_list\<rparr>"

lemma queue_env_simps [simp]: "sha (queue_env t) = queue_sha" "uid (queue_env t) = example_uid"
  "clk (queue_env t) i = seconds (t + int i)" "sql_sum (queue_env t) = sum_list"
  by (simp_all add: queue_env_def)

lemma queue_sha_hex: "is_sha256 (queue_sha s)"
proof -
  have "is_sha256 (dg CHR ''f'')" by code_simp
  then show ?thesis by (simp add: queue_sha_def example_sha_hex)
qed

definition queue_row :: batch_authority_row where
  "queue_row = batch_issued_row (queue_env 0) example_batch initial_db"

definition queue_ref :: batch_reference where
  "queue_ref = batch_reference_of queue_row"

lemma queue_loads:
  assumes "now < seconds 600" "db_batch_authorities db = [queue_row]"
  shows "load_scope queue_sha now queue_ref db = Inr example_batch"
proof (rule load_scope_complete [where row = queue_row])
  show "find_batch_authority (br_authority_id queue_ref) db = Some queue_row"
    by (simp add: find_batch_authority_def assms(2) queue_ref_def batch_reference_of_def)
qed (use assms(1) batch_scope_round_trip [OF example_batch_ok] batch_body_matches_issued [OF example_batch_ok] in
  \<open>simp_all add: queue_ref_def batch_reference_of_def queue_row_def batch_issued_row_def Let_def\<close>,
  simp_all add: example_batch_def)

definition queue_example_member :: "nat \<Rightarrow> queue_member" where
  "queue_example_member n = batch_member.extend (example_member n) (queue_member.fields None [])"

definition queue_example_plan :: queue_plan where
  "queue_example_plan = \<lparr>qp_plan_digest = dg CHR ''a'', qp_members = [queue_example_member 1, queue_example_member 2],
     qp_aggregate_cost_ceiling_usd = ''0.5'', qp_authority = queue_ref, qp_project_binding_digest = None,
     qp_admission_lane = None, qp_provider_admission_policy_digest = None\<rparr>"

lemma queue_member_simps:
  "authority_scope_of (queue_example_member n) = example_member n" "qm_target_claims (queue_example_member n) = []"
  "bm_member_digest (queue_example_member n) = bm_member_digest (example_member n)"
  "qm_provider_tier_binding_digest (queue_example_member n) = None"
  by (simp_all add: authority_scope_of_def queue_example_member_def batch_member.defs queue_member.defs)

definition first_id :: string where
  "first_id = queue_member_id queue_sha (dg CHR ''a'') 0 (bm_member_digest (example_member 1))"

lemma queue_texts: "queue_text 0 \<noteq> queue_text 1"
proof
  assume "queue_text 0 = queue_text 1"
  then have "enc (json_norm (queue_doc 0)) @ [] = enc (json_norm (queue_doc 1)) @ []" by (simp add: queue_text_def)
  then have "json_norm (queue_doc 0) = json_norm (queue_doc 1)"
    by (intro conjunct1 [OF enc_prefix_free(1) [of _ _ "[]" "[]"]]) (simp_all add: queue_doc_def)
  then show False by (simp add: queue_doc_def)
qed

lemma queue_ids:
  "queue_member_ids queue_sha queue_example_plan = [first_id, dg CHR ''f'']" "first_id \<noteq> dg CHR ''f''" "is_sha256 first_id"
proof -
  have t: "queue_member_id queue_sha (dg CHR ''a'') i (bm_member_digest (example_member (Suc i))) = queue_sha (queue_text i)" for i
    by (simp add: queue_member_id_def sha256_hex_def queue_text_def queue_doc_def)
  have f: "first_id = example_sha (queue_text 0)" using t [of 0] queue_texts by (simp add: first_id_def queue_sha_def)
  have "hd first_id = CHR ''0''" unfolding f example_sha_def by (simp add: hd_append)
  show "first_id \<noteq> dg CHR ''f''"
  proof
    assume "first_id = dg CHR ''f''"
    with \<open>hd first_id = CHR ''0''\<close> have "hd (dg CHR ''f'') = CHR ''0''" by simp
    then show False by simp
  qed
  show "is_sha256 first_id" unfolding f by (rule example_sha_hex)
  show "queue_member_ids queue_sha queue_example_plan = [first_id, dg CHR ''f'']"
    using t [of 1] by (simp add: queue_member_ids_def queue_example_plan_def queue_member_simps first_id_def queue_sha_def numeral_2_eq_2)
qed


section \<open>Enqueue and claim\<close>

definition queue_db0 :: runtime_db where
  "queue_db0 = initial_db\<lparr>db_batch_authorities := [queue_row]\<rparr>"

definition queue_batch :: batch_row where
  "queue_batch = new_batch_row queue_sha queue_example_plan example_batch (seconds 2)"

definition first_member :: member_row where
  "first_member = new_member_row (dg CHR ''a'') 0 (queue_example_member 1) first_id"

definition second_member :: member_row where
  "second_member = new_member_row (dg CHR ''a'') 1 (queue_example_member 2) (dg CHR ''f'')"

definition queue_db1 :: runtime_db where
  "queue_db1 = queue_db0\<lparr>db_batches := [queue_batch], db_members := [first_member, second_member]\<rparr>"

lemma queue_ref_simps: "br_plan_digest queue_ref = dg CHR ''a''" "batch_reference_post_init queue_ref = Inr queue_ref"
proof -
  have n: "next_batch_revision (bs_plan_digest example_batch) [] = 1" by (simp add: next_batch_revision_def)
  show p: "br_plan_digest queue_ref = dg CHR ''a''"
    by (simp add: queue_ref_def batch_reference_of_def queue_row_def batch_issued_row_def Let_def example_batch_def)
  show "batch_reference_post_init queue_ref = Inr queue_ref"
    using example_uid_1 lower_uuid4 [OF example_uid_1] n p
    by (simp add: batch_reference_post_init_def queue_ref_def batch_reference_of_def queue_row_def batch_issued_row_def Let_def
        initial_db_def sha256_body_def chk_digest_def queue_sha_hex chk_uuid4_def del: replicate_Suc)
qed

lemma queue_plan_rows:
  "plan_rows queue_sha queue_example_plan = [first_member, second_member]" "plan_claims queue_sha queue_example_plan = []"
  using queue_ids(1)
  by (simp_all add: plan_rows_def plan_claims_def queue_member_ids_def queue_example_plan_def first_member_def second_member_def
      first_id_def new_claim_rows_def queue_member_simps)

lemma member_digests: "bm_member_digest (example_member 1) \<noteq> bm_member_digest (example_member 2)"
  by code_simp

lemma queue_enqueued:
  "enqueue (queue_env 1) queue_example_plan queue_db0 queue_db0 = (Inr [first_id, dg CHR ''f''], queue_db1)"
proof -
  have l: "dispatcher_scope queue_sha (seconds 1) queue_ref None queue_db0 = Inr example_batch"
    by (simp add: dispatcher_scope_None queue_loads queue_db0_def seconds_def)
  have v: "validate_collisions [queue_example_member 1, queue_example_member 2] = Inr ()"
    by (simp add: validate_collisions_def claims_by_target_def queue_member_simps)
  have f: "find_batch_authority (br_authority_id queue_ref) queue_db0 = Some queue_row"
    by (simp add: find_batch_authority_def queue_db0_def queue_ref_def batch_reference_of_def)
  have b: "new_batch_row queue_sha queue_example_plan example_batch (seconds 2) = queue_batch" by (simp add: queue_batch_def)
  have d: "db_members queue_db0 = []" "db_batches queue_db0 = []" "db_claims queue_db0 = []"
    by (simp_all add: queue_db0_def initial_db_def)
  have a: "rows_admissible queue_batch [first_member, second_member] [] queue_db0"
    using queue_ids(2) member_digests f
    by (simp add: rows_admissible_def d queue_batch_def new_batch_row_def queue_example_plan_def first_member_def second_member_def
        new_member_row_def queue_member_simps)
  have p: "qp_plan_digest queue_example_plan = dg CHR ''a''" "qp_authority queue_example_plan = queue_ref"
    "qp_members queue_example_plan = [queue_example_member 1, queue_example_member 2]"
    "qp_aggregate_cost_ceiling_usd queue_example_plan = ''0.5''"
    by (simp_all add: queue_example_plan_def)
  have s: "bs_plan_digest example_batch = dg CHR ''a''" "bs_ordered_members example_batch = [example_member 1, example_member 2]"
    "bs_aggregate_cost_ceiling_usd example_batch = ''0.5''"
    by (simp_all add: example_batch_def)
  have e: "clk (queue_env 1) 0 = seconds 1" "clk (queue_env 1) 1 = seconds 2" "sha (queue_env 1) = queue_sha" by simp_all
  have z: "db_batches queue_db0 @ [queue_batch] = [queue_batch]" "db_claims queue_db0 @ [] = db_claims queue_db0"
    "db_members queue_db0 @ [first_member, second_member] = [first_member, second_member]" by (simp_all add: d)
  have fb: "find_batch (dg CHR ''a'') queue_db0 = None" by (simp add: find_batch_def d)
  show ?thesis
    unfolding enqueue_def e p l
    by (simp add: s queue_member_simps member_eq_def v Let_def fb b queue_plan_rows a queue_ids(1) z queue_db1_def
      del: append.simps replicate_Suc One_nat_def)
qed

lemma queue_db1_reachable: "queue_step\<^sup>*\<^sup>* initial_db queue_db1"
proof -
  have "queue_step initial_db queue_db0" by (rule queue_step.elsewhere) (simp_all add: queue_db0_def)
  moreover have "queue_step queue_db0 queue_db1" by (rule queue_step.enqueues [OF queue_enqueued])
  ultimately show ?thesis by simp
qed


lemma queue_row_simps:
  "me_member_id first_member = first_id" "me_member_id second_member = dg CHR ''f''" "me_state first_member = Queued"
  "me_state second_member = Queued" "me_plan_digest first_member = dg CHR ''a''" "me_plan_digest second_member = dg CHR ''a''"
  "me_ordinal first_member = 0" "me_ordinal second_member = 1" "me_attempts first_member = 0" "me_attempts second_member = 0"
  "me_cost_ceiling_usd first_member = ''0.25''" "ba_plan_digest queue_batch = dg CHR ''a''"
  "ba_aggregate_cost_ceiling_usd queue_batch = ''0.5''"
  by (simp_all add: first_member_def second_member_def new_member_row_def queue_batch_def new_batch_row_def queue_example_plan_def
      queue_example_member_def batch_member.defs queue_member.defs example_member_def)

lemma queue_claimable: "claimable_rows None queue_db1 = [(first_member, queue_batch), (second_member, queue_batch)]"
  by (simp add: claimable_rows_def queue_db1_def queue_row_simps)

lemma queue_unmarked: "mark_expired_claims now queue_db1 = queue_db1"
  by (simp add: mark_expired_claims_def queue_db1_def claim_expired_def queue_row_simps)

lemma queue_reference: "reference_from_row queue_batch = Inr queue_ref"
proof -
  have "reference_from_row queue_batch = batch_reference_post_init queue_ref"
    unfolding reference_from_row_def
    by (rule arg_cong [of _ _ batch_reference_post_init])
      (simp add: queue_batch_def new_batch_row_def queue_example_plan_def queue_ref_simps(1) flip: queue_ref_simps(1))
  then show ?thesis by (simp add: queue_ref_simps)
qed

lemma queue_agrees: "row_agrees example_batch first_member queue_batch = Inr ()"
proof -
  have "scope_member_from_row first_member = Inr (example_member 1)"
  proof -
    have "is_sha256 (bm_member_digest (example_member 1))" "is_identifier ''glm''" "is_sha256 (dg CHR ''b'')"
      "is_sha256 (dg CHR ''c'')" "is_identifier ''public''" "is_identifier ''small''" "cost_of (JFloat ''0.25'') = Inr ''0.25''"
      by code_simp+
    then show ?thesis
      by (simp add: scope_member_from_row_def member_create_def chk_digest_def chk_identifier_def first_member_def
          new_member_row_def queue_example_member_def batch_member.defs queue_member.defs example_member_def)
  qed
  then show ?thesis by (simp add: row_agrees_def queue_row_simps example_batch_def member_eq_def)
qed

definition first_claim :: queue_claim where
  "first_claim = claim_of first_member ''w1'' 1 (seconds 63) 1"

definition queue_db2 :: runtime_db where
  "queue_db2 = queue_db1\<lparr>db_fencing_counter := 1,
     db_members := [claimed_row ''w1'' 1 (seconds 63) first_member, second_member]\<rparr>"

lemma queue_claim_member:
  "claim_member sum_list first_member queue_batch ''w1'' (seconds 63) queue_db1 = Inr (first_claim, queue_db2)"
proof -
  have m: "db_members queue_db1 = [first_member, second_member]" "db_fencing_counter queue_db1 = 0"
    by (simp_all add: queue_db1_def queue_db0_def initial_db_def)
  have "sum_list (plan_reserves (dg CHR ''a'') queue_db1) = 0"
    by (simp add: plan_reserves_def m member_reserve_def queue_row_simps)
  moreover have "fadd 0 (float_value ''0.25'') \<le> fadd (float_value ''0.5'') slack" by code_simp
  moreover have "(bump_fencing queue_db1)\<lparr>db_members := [claimed_row ''w1'' 1 (seconds 63) first_member, second_member]\<rparr> = queue_db2"
    by (simp add: queue_db2_def bump_fencing_def m(2))
  ultimately show ?thesis
    using queue_ids(2) by (simp add: claim_member_Inr queue_row_simps m claim_sel_def first_claim_def)
qed

lemma queue_claimed: "claim (queue_env 3) ''w1'' 60 None None id queue_db1 = (Inr (Some first_claim), queue_db2)"
proof -
  have chk: "claim_check ''w1'' 60 None None = Inr ()"
  proof -
    have "is_identifier ''w1''" by code_simp
    then show ?thesis by (simp add: claim_check_def chk_identifier_def chk_range_def chk_optional_def)
  qed
  have sc: "dispatcher_scope queue_sha (seconds 4) queue_ref (Some ''w1'') queue_db1 = Inr example_batch"
  proof -
    have "is_identifier ''w1''" by code_simp
    moreover have "db_batch_authorities queue_db1 = [queue_row]" by (simp add: queue_db1_def queue_db0_def)
    ultimately show ?thesis by (simp add: dispatcher_scope_Inr queue_loads seconds_def) (simp add: example_batch_def)
  qed
  have sel: "select_claimable queue_sha ''w1'' queue_db1 (\<lambda>i. seconds (4 + int i)) AssertionError
      [(first_member, queue_batch), (second_member, queue_batch)] = Inr (first_member, queue_batch)"
    by (simp add: queue_reference sc queue_agrees)
  have t: "seconds 3 + seconds 60 = seconds 63" by (simp add: seconds_def)
  show ?thesis
    unfolding claim_def chk queue_env_simps
    by (simp add: queue_unmarked queue_claimable sel commit_result_def t queue_claim_member Let_def del: select_claimable.simps)
qed

lemma others_nothing: "others_commit id"
  by (simp add: others_commit_def)

lemma queue_db2_step: "queue_step\<^sup>*\<^sup>* queue_db1 queue_db2"
proof -
  have m: "(first_member, queue_batch) \<in> set (claimable_rows None queue_db1)" by (simp add: queue_claimable)
  show ?thesis using queue_step.claims [OF m queue_claim_member] by blast
qed

section \<open>The theorems at these databases\<close>

theorem queue_members_well_formed_witness:
  "list_all (\<lambda>m. member_row_ok m \<and> find_batch (me_plan_digest m) queue_db2 \<noteq> None) (db_members queue_db2)"
  using queue_members_well_formed [OF rtranclp_trans [OF queue_db1_reachable queue_db2_step]]
  unfolding list_all_iff by blast

theorem queue_member_life_witness:
  "\<exists>n. find_member (dg CHR ''f'') queue_db2 = Some n \<and> same_member second_member n"
proof -
  have "find_member (dg CHR ''f'') queue_db1 = Some second_member"
    using queue_ids(2) by (simp add: find_member_def queue_db1_def queue_row_simps)
  from queue_member_life [OF queue_db1_reachable this queue_db2_step] show ?thesis by blast
qed

theorem claim_is_authorised_witness:
  "\<exists>r scope t. load_scope queue_sha t r queue_db1 = Inr scope \<and> ''w1'' \<in> set (bs_authorized_dispatchers scope)
     \<and> bm_member_digest (bs_ordered_members scope ! 0) = qc_member_digest first_claim
     \<and> reserved_cost (qc_plan_digest first_claim) queue_db2
         \<le> (float_value (bs_aggregate_cost_ceiling_usd scope) + slack) * (1 + 1 / 2 ^ 51)"
proof -
  have o: "qc_ordinal first_claim = 0"
    by (simp add: first_claim_def claim_of_def candidate_of_def queue_candidate.defs queue_claim.defs queue_row_simps)
  have d: "x \<le> y" if "\<forall>d \<ge> 0. (1 - d) * a \<le> a \<longrightarrow> (1 - d) * x \<le> y" for a x y :: rat
    using spec [OF that, of 0] by simp
  show ?thesis
    using claim_is_authorised [OF queue_db1_reachable others_nothing queue_claimed]
    unfolding id_apply queue_env_simps queue_unmarked reserved_cost_def [symmetric]
    by (elim exE conjE) (metis d o nat_0)
qed

theorem members_claimed_in_order_witness: "qc_ordinal first_claim \<le> 1"
proof -
  have "mono (clk (queue_env 3))" by (simp add: mono_def seconds_def)
  moreover have "second_member \<in> set (db_members (id (mark_expired_claims (clk (queue_env 3) 0) queue_db1)))"
    unfolding id_apply queue_unmarked by (simp add: queue_db1_def)
  moreover have "qc_plan_digest first_claim = dg CHR ''a''"
    by (simp add: first_claim_def claim_of_def candidate_of_def queue_candidate.defs queue_claim.defs queue_row_simps)
  ultimately have "qc_ordinal first_claim \<le> me_ordinal second_member"
    by (intro members_claimed_in_order [OF queue_db1_reachable others_nothing queue_claimed]) (simp_all add: queue_row_simps)
  then show ?thesis by (simp add: queue_row_simps)
qed

theorem unused_claim_is_undone_witness:
  "\<exists>m. release_before_dispatch (queue_env 10) (qc_member_id first_claim) ''w1'' (qc_fencing_token first_claim) queue_db2
     = (Inr m, bump_fencing queue_db1)"
proof -
  have "qc_member_id first_claim = first_id" "qc_lease_expires_at first_claim = seconds 63"
    by (simp_all add: first_claim_def claim_of_def candidate_of_def queue_candidate.defs queue_claim.defs queue_row_simps)
  then show ?thesis
    using unused_claim_is_undone [OF queue_db1_reachable others_nothing queue_claimed, of "queue_env 10"] queue_ids(3)
    by (auto simp: queue_unmarked seconds_def)
qed

theorem enqueue_is_idempotent_witness:
  "enqueue (queue_env 20) queue_example_plan queue_db2 queue_db2 = (Inr [first_id, dg CHR ''f''], queue_db2)"
proof -
  have r: "queue_step\<^sup>*\<^sup>* initial_db queue_db0"
    by (intro r_into_rtranclp queue_step.elsewhere) (simp_all add: queue_db0_def)
  have n: "find_batch (qp_plan_digest queue_example_plan) queue_db0 = None"
    by (simp add: find_batch_def queue_db0_def initial_db_def)
  have "dispatcher_scope queue_sha (seconds 20) queue_ref None queue_db2 = Inr example_batch"
    "dispatcher_scope queue_sha (seconds 1) queue_ref None queue_db0 = Inr example_batch"
    by (simp_all add: dispatcher_scope_None queue_loads queue_db0_def queue_db1_def queue_db2_def seconds_def)
  then have "dispatcher_scope (sha (queue_env 20)) (clk (queue_env 20) 0) (qp_authority queue_example_plan) None queue_db2
      = dispatcher_scope (sha (queue_env 1)) (clk (queue_env 1) 0) (qp_authority queue_example_plan) None queue_db0"
    by (simp add: queue_example_plan_def)
  with enqueue_is_idempotent [OF r n queue_enqueued queue_db2_step] show ?thesis by simp
qed

end
