(* ===== verification/Composition.thy ===== *)
theory Composition
  imports QueueExample AdmissionControl
begin

text \<open>
  The stores together. One coordination database is shared by the authority store, the dispatch leases,
  the provider admission kernel, the batch authorities, the plan queue and the target leases; their
  transactions interleave freely. Every operation of one store is a step elsewhere for the others, so
  the invariants of all of them hold in the composed system, and properties that need several stores
  can be stated over it.
\<close>

section \<open>Operations of the runtime\<close>

inductive kernel_op :: "(string \<Rightarrow> string) \<Rightarrow> policy set \<Rightarrow> runtime_db \<Rightarrow> runtime_db \<Rightarrow> bool"
  for h :: "string \<Rightarrow> string" and P :: "policy set" where
  install: "served h P e k \<Longrightarrow> install_policy e k db = (res, db') \<Longrightarrow> kernel_op h P db db'"
| target: "served h P e k \<Longrightarrow> activate_target e k b r seen db = (res, db') \<Longrightarrow> kernel_op h P db db'"
| supersede: "served h P e k \<Longrightarrow> successor \<in> P \<Longrightarrow> supersede_policy e k xb successor r seen db = (res, db') \<Longrightarrow>
    kernel_op h P db db'"
| half_open: "served h P e k \<Longrightarrow> activate_half_open e k cb r q seen db = (res, db') \<Longrightarrow> kernel_op h P db db'"
| admit: "served h P e k \<Longrightarrow> try_admit e k q ttl seen db = (pres, db') \<Longrightarrow> kernel_op h P db db'"
| cancel: "served h P e k \<Longrightarrow> cancel_before_transport e k p db = (res, db') \<Longrightarrow> kernel_op h P db db'"
| cancel_wait: "cancel_waiting e rid run db = (bres, db') \<Longrightarrow> kernel_op h P db db'"
| begin_it: "served h P e k \<Longrightarrow> begin_transport e k p q db = (res, db') \<Longrightarrow> kernel_op h P db db'"
| finish_it: "served h P e k \<Longrightarrow> finish e k p oc db = (res, db') \<Longrightarrow> kernel_op h P db db'"
| resolve: "served h P e k \<Longrightarrow> resolve_reconciliation e k rid r evidence seen db = (res, db') \<Longrightarrow> kernel_op h P db db'"

inductive authority_op :: "runtime_db \<Rightarrow> runtime_db \<Rightarrow> bool" where
  "issue e k i s x db = (res, db') \<Longrightarrow> authority_op db db'"
| "advance_epoch e d s db = (res2, db') \<Longrightarrow> authority_op db db'"
| "revoke e r db = (res3, db') \<Longrightarrow> authority_op db db'"

inductive batch_op :: "runtime_db \<Rightarrow> runtime_db \<Rightarrow> bool" where
  "batch_issue e scope db = (res, db') \<Longrightarrow> batch_op db db'"
| "batch_revoke e r db = (bres, db') \<Longrightarrow> batch_op db db'"

inductive lease_op :: "runtime_db \<Rightarrow> runtime_db \<Rightarrow> bool" where
  "acquire e resource run ttl db = (res, db') \<Longrightarrow> lease_op db db'"
| "renew_lease e resource run token ttl db = (res, db') \<Longrightarrow> lease_op db db'"
| "release_lease resource run token db = (bres, db') \<Longrightarrow> lease_op db db'"
| "reap_expired_for_run e run db = (lres, db') \<Longrightarrow> lease_op db db'"

inductive target_op :: "runtime_db \<Rightarrow> runtime_db \<Rightarrow> bool" where
  "acquire_target e repo plan member path grp automatic ttl db = (res, db') \<Longrightarrow> target_op db db'"
| "renew_target e lid member token ttl db = (res, db') \<Longrightarrow> target_op db db'"
| "release_target e lid member token db = (res, db') \<Longrightarrow> target_op db db'"
| "reconcile_release e lid evidence db = (res, db') \<Longrightarrow> target_op db db'"

text \<open>The transactions of the queue are those of \<open>queue_step\<close>, without the steps elsewhere.\<close>

inductive queue_op :: "runtime_db \<Rightarrow> runtime_db \<Rightarrow> bool" where
  "enqueue e plan seen db = (ires, db') \<Longrightarrow> queue_op db db'"
| "queue_op db (mark_expired_claims now db)"
| "(m, b) \<in> set (claimable_rows plan db) \<Longrightarrow> claim_member sum_of m b dispatcher expires db = Inr (c, db') \<Longrightarrow> queue_op db db'"
| "renew_claim e mid dispatcher token ttl db = (cres, db') \<Longrightarrow> queue_op db db'"
| "release_before_dispatch e mid dispatcher token db = (mres, db') \<Longrightarrow> queue_op db db'"
| "terminal_claim e state mid dispatcher token evidence observed db = (mres, db') \<Longrightarrow> queue_op db db'"
| "require_reconciliation e mid dispatcher token evidence observed db = (mres, db') \<Longrightarrow> queue_op db db'"
| "state = Member_Completed \<or> state = Member_Failed
    \<Longrightarrow> \<forall>m \<in> set (db_members db). me_member_id m = mid \<longrightarrow> state = Member_Completed
         \<longrightarrow> float_value cost \<le> fadd (float_value (me_cost_ceiling_usd m)) slack
    \<Longrightarrow> queue_op db (db\<lparr>db_members := update_rows (\<lambda>x. me_member_id x = mid \<and> me_state x = Member_Reconciliation)
          (\<lambda>x. x\<lparr>me_state := state, me_terminal_at := Some now, me_terminal_evidence_digest := Some evidence,
                 me_observed_cost_usd := Some cost\<rparr>) (db_members db)\<rparr>)"

definition runtime_op :: "(string \<Rightarrow> string) \<Rightarrow> policy set \<Rightarrow> runtime_db \<Rightarrow> runtime_db \<Rightarrow> bool" where
  "runtime_op h P db db' \<longleftrightarrow> kernel_op h P db db' \<or> authority_op db db' \<or> batch_op db db' \<or> lease_op db db'
     \<or> target_op db db' \<or> queue_op db db'"

section \<open>What an operation leaves alone\<close>

definition kernel_view where
  "kernel_view db = (db_requests db, db_projects db, db_states db, db_transitions db, db_policies db)"

definition authority_view where
  "authority_view db = (db_epoch db, db_authorities db)"

definition queue_view where
  "queue_view db = (db_batches db, db_members db, db_claims db)"

lemmas view_defs = kernel_view_def authority_view_def queue_view_def

lemma authority_op_frame:
  "authority_op db db' \<Longrightarrow> kernel_view db' = kernel_view db \<and> queue_view db' = queue_view db \<and> db_leases db' = db_leases db
     \<and> db_targets db' = db_targets db \<and> db_batch_authorities db' = db_batch_authorities db
     \<and> db_fencing_counter db' = db_fencing_counter db"
  by (erule authority_op.cases)
    (auto simp: view_defs dest!: issue_cases advance_cases revoke_cases)

lemma batch_op_frame:
  "batch_op db db' \<Longrightarrow> kernel_view db' = kernel_view db \<and> queue_view db' = queue_view db \<and> db_leases db' = db_leases db
     \<and> db_targets db' = db_targets db \<and> authority_view db' = authority_view db
     \<and> db_fencing_counter db' = db_fencing_counter db"
  by (erule batch_op.cases) (auto simp: view_defs dest!: batch_issue_cases batch_revoke_cases)

lemma lease_op_frame:
  assumes "lease_op db db'"
  shows "kernel_view db' = kernel_view db \<and> queue_view db' = queue_view db \<and> db_targets db' = db_targets db
     \<and> authority_view db' = authority_view db \<and> db_batch_authorities db' = db_batch_authorities db
     \<and> db_fencing_counter db \<le> db_fencing_counter db'"
  using assms
proof cases
  case (1 e resource run ttl res)
  then show ?thesis by (cases rule: acquire_cases) (auto simp: view_defs delete_lease_def)
next
  case (2 e resource run token ttl res)
  then show ?thesis by (cases rule: renew_cases) (auto simp: view_defs)
next
  case (3 resource run token bres)
  then show ?thesis by (cases rule: release_cases) (auto simp: view_defs delete_lease_def)
next
  case (4 e run lres)
  then show ?thesis by (cases rule: reap_cases) (auto simp: view_defs)
qed

lemma target_op_frame:
  assumes "target_op db db'"
  shows "kernel_view db' = kernel_view db \<and> queue_view db' = queue_view db \<and> db_leases db' = db_leases db
     \<and> authority_view db' = authority_view db \<and> db_batch_authorities db' = db_batch_authorities db
     \<and> db_fencing_counter db \<le> db_fencing_counter db'"
  using assms
proof cases
  case (1 e repo plan member path grp automatic ttl res)
  then show ?thesis by (cases rule: acquire_target_cases) (auto simp: view_defs set_target_state_def)
next
  case (2 e lid member token ttl res)
  then show ?thesis by (cases rule: renew_target_cases) (auto simp: view_defs)
next
  case (3 e lid member token res)
  then show ?thesis by (cases rule: release_target_cases) (auto simp: view_defs)
next
  case (4 e lid evidence res)
  then show ?thesis by (cases rule: reconcile_release_cases) (auto simp: view_defs)
qed

lemma holder_move_frame:
  "holder_move mid dispatcher token db db' \<Longrightarrow> \<exists>ms. db' = db\<lparr>db_members := ms\<rparr>"
  by (auto simp: holder_move_def update_member_def)

lemma queue_op_frame:
  assumes "queue_op db db'"
  shows "kernel_view db' = kernel_view db \<and> db_leases db' = db_leases db \<and> db_targets db' = db_targets db
     \<and> authority_view db' = authority_view db \<and> db_batch_authorities db' = db_batch_authorities db
     \<and> db_fencing_counter db \<le> db_fencing_counter db'"
proof -
  let ?G = "kernel_view db' = kernel_view db \<and> db_leases db' = db_leases db \<and> db_targets db' = db_targets db
     \<and> authority_view db' = authority_view db \<and> db_batch_authorities db' = db_batch_authorities db
     \<and> db_fencing_counter db \<le> db_fencing_counter db'"
  have h: ?G if "db' = db \<or> holder_move mid dispatcher token db db'" for mid dispatcher token
    using that holder_move_frame [of mid dispatcher token db db'] by (auto simp: view_defs)
  from assms show ?thesis
  proof cases
    case (1 e plan seen ires)
    then show ?thesis by (cases rule: enqueue_cases) (auto simp: view_defs)
  next
    case (2 now)
    then show ?thesis by (simp add: view_defs mark_expired_claims_def)
  next
    case (3 m b plan dispatcher expires c)
    then show ?thesis by (auto simp: view_defs claim_member_Inr)
  next
    case (4 e mid dispatcher token ttl cres)
    then show ?thesis by (intro h renew_claim_moves)
  next
    case (5 e mid dispatcher token mres)
    then show ?thesis by (intro h release_moves)
  next
    case (6 e state mid dispatcher token evidence observed mres)
    then show ?thesis by (intro h terminal_moves)
  next
    case (7 e mid dispatcher token evidence observed mres)
    then show ?thesis by (intro h require_moves)
  next
    case (8 state mid cost evidence now)
    then show ?thesis by (simp add: view_defs)
  qed
qed


lemma record_grant_db: "\<exists>ss. record_grant provider l n now db = db\<lparr>db_states := ss\<rparr>"
  unfolding record_grant_def by auto

lemma micro_frame:
  assumes "micro h P db db'"
  shows "queue_view db' = queue_view db \<and> db_leases db' = db_leases db \<and> db_targets db' = db_targets db
     \<and> db_batch_authorities db' = db_batch_authorities db \<and> db_fencing_counter db \<le> db_fencing_counter db'
     \<and> auth_step db db'"
  using assms
proof cases
  case (release rid row s' f now db1)
  then obtain ps where "db1 = db\<lparr>db_projects := ps\<rparr>" using decrement_Inr by blast
  with release show ?thesis by (auto simp: view_defs set_row_def intro: auth_step.other_step)
next
  case (grant rid row s p now)
  obtain ps where "increment_project (rq_provider_id row) (rq_project_binding_digest row) (st_grant_sequence s + 1) now (bump_fencing db)
      = (bump_fencing db)\<lparr>db_projects := ps\<rparr>" using increment_db by blast
  moreover obtain ss where "record_grant (rq_provider_id row) (rq_admission_lane row) (st_grant_sequence s + 1) now
      ((bump_fencing db)\<lparr>db_projects := ps\<rparr>) = (bump_fencing db)\<lparr>db_projects := ps\<rparr>\<lparr>db_states := ss\<rparr>"
    using record_grant_db by metis
  ultimately have "db' = (bump_fencing db)\<lparr>db_projects := ps, db_states := ss,
      db_requests := db_requests db'\<rparr>"
    using grant(1) by (simp add: grant_db_def set_row_def)
  then obtain rs where "db' = (bump_fencing db)\<lparr>db_projects := ps, db_states := ss, db_requests := rs\<rparr>" by blast
  then show ?thesis by (auto simp: view_defs intro: auth_step.other_step)
next
  case (circuit_step e k s c now s')
  with append_Some_Inr(3) [OF circuit_step(1)] show ?thesis by (auto simp: view_defs intro: auth_step.other_step)
next
  case (retarget e k p s c now s')
  with append_Some_Inr(3) [OF retarget(1)] show ?thesis by (auto simp: view_defs intro: auth_step.other_step)
next
  case (genesis e k now s')
  with append_None_Inr(3) [OF genesis(1)] show ?thesis by (auto simp: view_defs intro: auth_step.other_step)
next
  case (policy_row why p now)
  then obtain ps where "db' = db\<lparr>db_policies := ps\<rparr>" using ensure_policy_row_db by blast
  then show ?thesis by (auto simp: view_defs intro: auth_step.other_step)
next
  case (consume r now)
  then obtain as where "db' = db\<lparr>db_authorities := as\<rparr>" using consume_db by blast
  with consume show ?thesis by (auto simp: view_defs intro: auth_step.consume_step)
qed (auto simp: view_defs set_row_def intro: auth_step.other_step)

lemma micros_frame:
  "(micro h P)\<^sup>*\<^sup>* db db' \<Longrightarrow> queue_view db' = queue_view db \<and> db_leases db' = db_leases db \<and> db_targets db' = db_targets db
     \<and> db_batch_authorities db' = db_batch_authorities db \<and> db_fencing_counter db \<le> db_fencing_counter db'
     \<and> auth_step\<^sup>*\<^sup>* db db'"
proof (induction rule: rtranclp_induct)
  case (step d d')
  from micro_frame [OF step.hyps(2)] step.IH show ?case by auto
qed simp

lemma kernel_op_step: "kernel_op h P db db' \<Longrightarrow> kernel_step h P db db'"
  by (erule kernel_op.cases) (auto intro: kernel_step.intros)

lemma kernel_op_micros:
  assumes "kernel_op h P db db'" "policies_ok h P" "keys_ok db" "units_ok db"
  shows "(micro h P)\<^sup>*\<^sup>* db db'"
  using assms(1)
proof cases
  case (install e k res)
  then show ?thesis using install_policy_micro assms(3) by blast
next
  case (target e k b r seen res)
  then show ?thesis using activate_target_micro assms(2,3) by blast
next
  case (supersede e k successor xb r seen res)
  then show ?thesis using supersede_micro assms(3,4) by blast
next
  case (half_open e k cb r q seen res)
  then show ?thesis using activate_half_open_micro assms(2,3) by blast
next
  case (admit e k q ttl seen pres)
  then show ?thesis using try_admit_micro assms(3) by blast
next
  case (cancel e k p res)
  then show ?thesis using cancel_before_transport_micro assms(3) by blast
next
  case (cancel_wait e rid run bres)
  then show ?thesis using cancel_waiting_micro assms(3) by blast
next
  case (begin_it e k p q res)
  then show ?thesis using begin_transport_micro assms(3) by blast
next
  case (finish_it e k p oc res)
  then show ?thesis using finish_micro assms(3) by blast
next
  case (resolve e k rid r evidence seen res)
  then show ?thesis using resolve_micro assms(3) by blast
qed

section \<open>The invariants together\<close>

definition runtime_inv :: "(string \<Rightarrow> string) \<Rightarrow> policy set \<Rightarrow> runtime_db \<Rightarrow> bool" where
  "runtime_inv h P db \<longleftrightarrow> kernel_inv h P db \<and> auth_inv db \<and> batch_ids_unique db \<and> lease_keys_ok db
     \<and> target_inv db \<and> queue_inv db"

text \<open>An operation of the runtime is a step of every store.\<close>

lemma runtime_op_steps:
  assumes "runtime_op h P db db'" "policies_ok h P" "runtime_inv h P db"
  shows "kernel_step h P db db' \<and> auth_step\<^sup>*\<^sup>* db db' \<and> batch_step db db' \<and> lease_step db db' \<and> target_step db db'
    \<and> queue_step db db'"
proof -
  have el: "lease_step db db'" if "db_leases db' = db_leases db" "db_fencing_counter db \<le> db_fencing_counter db'"
    unfolding lease_step_def using lease_act.elsewhere [OF that] by blast
  note elsewhere = el kernel_step.foreign auth_step.other_step batch_step.other_batch target_step.elsewhere queue_step.elsewhere
  have op: "kernel_step h P db db' \<and> auth_step\<^sup>*\<^sup>* db db' \<and> batch_step db db' \<and> lease_step db db' \<and> target_step db db'
    \<and> queue_step db db'"
    if "kernel_op h P db db'"
  proof -
    have "keys_ok db" "units_ok db" using kernel_inv_keys assms(3) by (auto simp: runtime_inv_def)
    with micros_frame [OF kernel_op_micros [OF that assms(2)]]
    have f: "queue_view db' = queue_view db" "db_leases db' = db_leases db" "db_targets db' = db_targets db"
      "db_batch_authorities db' = db_batch_authorities db" "db_fencing_counter db \<le> db_fencing_counter db'" "auth_step\<^sup>*\<^sup>* db db'"
      by auto
    from f(1) have "queue_step db db'" using f(5) by (intro queue_step.elsewhere) (auto simp: view_defs)
    with f kernel_op_step [OF that] show ?thesis by (simp add: elsewhere)
  qed
  from assms(1) show ?thesis
    unfolding runtime_op_def
  proof (elim disjE)
    assume o: "authority_op db db'"
    then have "auth_step db db'" by (rule authority_op.cases) (auto intro: auth_step.intros)
    with authority_op_frame [OF o] show ?thesis by (auto simp: view_defs intro!: elsewhere)
  next
    assume o: "batch_op db db'"
    then have "batch_step db db'" by (rule batch_op.cases) (auto intro: batch_step.intros)
    with batch_op_frame [OF o] show ?thesis by (auto simp: view_defs intro!: r_into_rtranclp elsewhere)
  next
    assume o: "lease_op db db'"
    then have "lease_step db db'" unfolding lease_step_def by (rule lease_op.cases) (blast intro: lease_act.intros)+
    with lease_op_frame [OF o] show ?thesis by (auto simp: view_defs intro!: r_into_rtranclp elsewhere)
  next
    assume o: "target_op db db'"
    then have "target_step db db'" by (rule target_op.cases) (auto intro: target_step.intros)
    with target_op_frame [OF o] show ?thesis by (auto simp: view_defs intro!: r_into_rtranclp elsewhere)
  next
    assume o: "queue_op db db'"
    then have "queue_step db db'" by (rule queue_op.cases) (blast intro: queue_step.intros)+
    with queue_op_frame [OF o] show ?thesis by (auto simp: view_defs intro!: r_into_rtranclp elsewhere)
  qed (rule op)
qed


lemma runtime_op_inv:
  assumes "runtime_op h P db db'" "policies_ok h P" "runtime_inv h P db"
  shows "runtime_inv h P db'"
proof -
  note st = runtime_op_steps [OF assms]
  with assms(2,3) kernel_step_kernel_inv [of h P db db'] authority_steps.steps_inv [of db db'] batch_ids_step [of db db']
    lease_step_keys [of db db'] target_step_inv [of db db'] queue_step_inv [of db db']
  show ?thesis by (simp add: runtime_inv_def)
qed

lemma runtime_inv_initial: "runtime_inv h P initial_db"
proof -
  have "request_inv h P initial_db"
    using capacity_inv_initial by (simp add: request_inv_def) (simp add: tokens_ok_def bound_ok_def initial_db_def)
  then show ?thesis
    using control_inv_initial authority_steps.start_inv [OF refl] batch_steps.start_inv [OF refl] target_steps.start_inv [OF refl]
      queue_steps.start_inv [OF refl] lease_steps.start_inv [OF refl]
    by (simp add: runtime_inv_def kernel_inv_def)
qed

text \<open>A runtime whose kernels serve well-formed policies.\<close>

definition runtime_step :: "(string \<Rightarrow> string) \<Rightarrow> policy set \<Rightarrow> runtime_db \<Rightarrow> runtime_db \<Rightarrow> bool" where
  "runtime_step h P db db' \<longleftrightarrow> policies_ok h P \<and> runtime_op h P db db'"

interpretation runtime_steps: step_system "\<lambda>db. db = initial_db" "runtime_step h P" "runtime_inv h P" for h P
proof unfold_locales
  fix db assume "db = initial_db"
  then show "runtime_inv h P db" by (simp add: runtime_inv_initial)
next
  fix db db' assume "runtime_inv h P db" "runtime_step h P db db'"
  then show "runtime_inv h P db'" unfolding runtime_step_def using runtime_op_inv by blast
qed

text \<open>Every run of the runtime is a run of each store.\<close>

lemma runtime_runs:
  assumes "(runtime_step h P)\<^sup>*\<^sup>* db db'" "runtime_inv h P db"
  shows "(kernel_step h P)\<^sup>*\<^sup>* db db' \<and> auth_step\<^sup>*\<^sup>* db db' \<and> batch_step\<^sup>*\<^sup>* db db' \<and> lease_step\<^sup>*\<^sup>* db db'
    \<and> target_step\<^sup>*\<^sup>* db db' \<and> queue_step\<^sup>*\<^sup>* db db'"
  using assms(1)
proof (induction rule: rtranclp_induct)
  case (step d d')
  have "runtime_inv h P d" by (rule runtime_steps.steps_inv [OF step.hyps(1) assms(2)])
  with step.hyps(2) have "kernel_step h P d d' \<and> auth_step\<^sup>*\<^sup>* d d' \<and> batch_step d d' \<and> lease_step d d' \<and> target_step d d'
    \<and> queue_step d d'"
    unfolding runtime_step_def using runtime_op_steps by blast
  with step.IH show ?case by (auto intro: rtranclp.rtrancl_into_rtrancl rtranclp_trans)
qed simp

section \<open>One counter for all tokens\<close>

definition request_tokens :: "runtime_db \<Rightarrow> int list" where
  "request_tokens db = List.map_filter rq_fencing_token (db_requests db)"

definition all_tokens :: "runtime_db \<Rightarrow> int list" where
  "all_tokens db = lease_tokens db @ target_tokens db @ queue_tokens db @ request_tokens db"

lemma one_key: "distinct (map k rs) \<Longrightarrow> count_rows (\<lambda>r. k r = x) rs \<le> 1"
proof (induction rs)
  case (Cons r rs)
  show ?case
  proof (cases "k r = x")
    case True
    from Cons.prems have "k r \<notin> k ` set rs" by simp
    with True have "\<forall>s \<in> set rs. k s \<noteq> x" by (metis imageI)
    then have "count_rows (\<lambda>r. k r = x) rs = 0" by (simp add: count_rows_0)
    with True show ?thesis by simp
  qed (use Cons in simp)
qed simp

lemma micro_token_step:
  assumes "micro h P db db'" "keys_ok db"
  shows "db_fencing_counter db \<le> db_fencing_counter db' \<and> (mset (request_tokens db') \<subseteq># mset (request_tokens db)
    \<or> db_fencing_counter db < db_fencing_counter db'
      \<and> mset (request_tokens db') \<subseteq># add_mset (db_fencing_counter db') (mset (request_tokens db)))"
  using assms(1)
proof (cases rule: micro_requests)
  case (new r)
  then show ?thesis by (simp add: request_tokens_def List.map_filter_def)
next
  case (moved rid row f s')
  then show ?thesis
    using tokens_fewer [of "db_requests db" "\<lambda>r. rq_request_id r = rid" rq_fencing_token f]
    by (simp add: request_tokens_def set_row_def moves_to_def)
next
  case (granted rid row now)
  have "distinct (map rq_request_id (db_requests db))" using assms(2) by (simp add: keys_ok_def)
  with granted one_new_token [OF one_key, of rq_request_id "db_requests db" rq_fencing_token] show ?thesis
    by (simp add: request_tokens_def set_row_def)
qed (simp add: request_tokens_def)

text \<open>The changes of the composed system, each of which may draw one token.\<close>

definition change :: "(string \<Rightarrow> string) \<Rightarrow> policy set \<Rightarrow> runtime_db \<Rightarrow> runtime_db \<Rightarrow> bool" where
  "change h P db db' \<longleftrightarrow> micro h P db db' \<and> keys_ok db \<or> authority_op db db' \<or> batch_op db db' \<or> lease_op db db'
     \<or> target_op db db' \<or> queue_op db db' \<and> queue_inv db"

lemma lease_op_step: "lease_op db db' \<Longrightarrow> lease_step db db'"
  unfolding lease_step_def by (erule lease_op.cases) (blast intro: lease_act.intros)+

lemma target_op_step: "target_op db db' \<Longrightarrow> target_step db db'"
  by (erule target_op.cases) (auto intro: target_step.intros)

lemma queue_op_step: "queue_op db db' \<Longrightarrow> queue_step db db'"
  by (erule queue_op.cases) (blast intro: queue_step.intros)+

lemma tokens_one_table:
  assumes "c \<le> c' \<and> (mset ys \<subseteq># mset xs \<or> c < c' \<and> mset ys \<subseteq># add_mset c' (mset xs))"
  shows "c \<le> (c' :: int) \<and> (mset (us @ ys @ vs) \<subseteq># mset (us @ xs @ vs)
    \<or> c < c' \<and> mset (us @ ys @ vs) \<subseteq># add_mset c' (mset (us @ xs @ vs)))"
proof -
  have "mset us + mset ys + mset vs \<subseteq># mset us + M + mset vs" if "mset ys \<subseteq># M" for M
    using that by (intro subset_mset.add_mono) auto
  from this [of "mset xs"] this [of "add_mset c' (mset xs)"] assms show ?thesis by (auto simp: ac_simps)
qed

interpretation runtime_tokens: fenced_table db_fencing_counter all_tokens "change h P" for h P
proof
  fix db db' assume "change h P db db'"
  then show "db_fencing_counter db \<le> db_fencing_counter db' \<and> (mset (all_tokens db') \<subseteq># mset (all_tokens db)
    \<or> db_fencing_counter db < db_fencing_counter db'
      \<and> mset (all_tokens db') \<subseteq># add_mset (db_fencing_counter db') (mset (all_tokens db)))"
    unfolding change_def
  proof (elim disjE conjE)
    assume "micro h P db db'" "keys_ok db"
    with micro_frame [OF this(1)] tokens_one_table [OF micro_token_step [OF this], of "lease_tokens db @ target_tokens db @ queue_tokens db" "[]"]
    show ?thesis by (simp add: all_tokens_def lease_tokens_def target_tokens_def queue_tokens_def queue_view_def)
  next
    assume "authority_op db db'"
    from authority_op_frame [OF this] show ?thesis
      by (simp add: all_tokens_def lease_tokens_def target_tokens_def queue_tokens_def request_tokens_def view_defs)
  next
    assume "batch_op db db'"
    from batch_op_frame [OF this] show ?thesis
      by (simp add: all_tokens_def lease_tokens_def target_tokens_def queue_tokens_def request_tokens_def view_defs)
  next
    assume o: "lease_op db db'"
    with lease_op_frame [OF o] tokens_one_table [OF leases.fenced_step [OF lease_op_step [OF o]], of "[]"
        "target_tokens db @ queue_tokens db @ request_tokens db"]
    show ?thesis by (simp add: all_tokens_def target_tokens_def queue_tokens_def request_tokens_def view_defs)
  next
    assume o: "target_op db db'"
    with target_op_frame [OF o] tokens_one_table [OF targets.fenced_step [OF target_op_step [OF o]], of "lease_tokens db"
        "queue_tokens db @ request_tokens db"]
    show ?thesis by (simp add: all_tokens_def lease_tokens_def queue_tokens_def request_tokens_def view_defs)
  next
    assume o: "queue_op db db'" and "queue_inv db"
    then have "queue_live_step db db'" by (simp add: queue_live_step_def queue_op_step)
    with queue_op_frame [OF o] tokens_one_table [OF queue_tokens.fenced_step [OF this], of "lease_tokens db @ target_tokens db"
        "request_tokens db"]
    show ?thesis by (simp add: all_tokens_def lease_tokens_def target_tokens_def request_tokens_def view_defs)
  qed
qed


lemma micros_change: "(micro h P)\<^sup>*\<^sup>* db db' \<Longrightarrow> keys_ok db \<Longrightarrow> (change h P)\<^sup>*\<^sup>* db db' \<and> keys_ok db'"
proof (induction rule: rtranclp_induct)
  case (step d d')
  then have "change h P d d'" by (simp add: change_def)
  with step micro_keys [OF step.hyps(2)] show ?case by (auto intro: rtranclp.rtrancl_into_rtrancl)
qed simp

lemma runtime_change:
  assumes "runtime_op h P db db'" "policies_ok h P" "runtime_inv h P db"
  shows "(change h P)\<^sup>*\<^sup>* db db'"
proof -
  have k: "keys_ok db" "units_ok db" "queue_inv db" using kernel_inv_keys assms(3) by (auto simp: runtime_inv_def)
  show ?thesis
  proof (cases "kernel_op h P db db'")
    case True
    from micros_change [OF kernel_op_micros [OF True assms(2) k(1,2)] k(1)] show ?thesis by simp
  next
    case False
    with assms(1) k(3) have "change h P db db'" by (auto simp: runtime_op_def change_def)
    then show ?thesis by simp
  qed
qed

lemma runtime_changes: "(runtime_step h P)\<^sup>*\<^sup>* db db' \<Longrightarrow> runtime_inv h P db \<Longrightarrow> (change h P)\<^sup>*\<^sup>* db db'"
proof (induction rule: rtranclp_induct)
  case (step d d')
  have "runtime_inv h P d" by (rule runtime_steps.steps_inv [OF step.hyps(1) step.prems])
  with step.hyps(2) have "(change h P)\<^sup>*\<^sup>* d d'" unfolding runtime_step_def using runtime_change by blast
  with step.IH step.prems show ?case by simp
qed simp

text \<open>C20. No fencing token is used twice in the whole runtime: whatever sequence of operations the
  dispatch leases, target leases, plan queue and provider admission run on the shared database, all
  tokens their tables hold are different from each other and not above the counter, and a token that
  was drawn and is not held any more, by whichever table, never appears again in any of them.\<close>

theorem tokens_unique_across_stores:
  assumes "(runtime_step h P)\<^sup>*\<^sup>* initial_db db" and "(runtime_step h P)\<^sup>*\<^sup>* db db'"
  shows "distinct (all_tokens db') \<and> (\<forall>n \<in> set (all_tokens db'). n \<le> db_fencing_counter db')
    \<and> (\<forall>n. n \<le> db_fencing_counter db \<and> n \<notin> set (all_tokens db) \<longrightarrow> n \<notin> set (all_tokens db'))"
proof -
  have inv: "runtime_inv h P db" using runtime_steps.reachable_inv [OF refl assms(1)] .
  have f0: "runtime_tokens.fenced initial_db"
    by (simp add: runtime_tokens.fenced_def all_tokens_def lease_tokens_def target_tokens_def queue_tokens_def
        request_tokens_def initial_db_def)
  have c: "(change h P)\<^sup>*\<^sup>* initial_db db'"
    using runtime_changes [OF rtranclp_trans [OF assms(1,2)]] runtime_inv_initial by blast
  have "runtime_tokens.fenced db'" by (rule runtime_tokens.steps_fenced [OF c f0])
  moreover have "n \<notin> set (all_tokens db')" if "n \<le> db_fencing_counter db" "n \<notin> set (all_tokens db)" for n
    by (rule runtime_tokens.retired_token [OF runtime_changes [OF assms(2) inv] that])
  ultimately show ?thesis by (simp add: runtime_tokens.fenced_def)
qed

section \<open>Reconciling a member ends its plan\<close>

definition runtime_between :: "(string \<Rightarrow> string) \<Rightarrow> policy set \<Rightarrow> (runtime_db \<Rightarrow> runtime_db) \<Rightarrow> bool" where
  "runtime_between h P between \<longleftrightarrow> (\<forall>db. (runtime_step h P)\<^sup>*\<^sup>* db (between db))"

text \<open>The member that \<open>resolve_member\<close> saw, and what it did.\<close>

lemma resolve_member_Inr:
  assumes "resolve_member e mid state evidence observed seen between db = (Inr m', db')"
  obtains m b r cost u db1 where "find_member mid seen = Some m" "find_batch (me_plan_digest m) seen = Some b"
    "reference_from_row b = Inr r" "batch_revoke e r db = (Inr u, db1)" "state = Member_Completed \<or> state = Member_Failed"
    "state = Member_Completed \<longrightarrow> float_value cost \<le> fadd (float_value (me_cost_ceiling_usd m)) slack"
    "db' = (between db1)\<lparr>db_members := update_rows (\<lambda>x. me_member_id x = mid \<and> me_state x = Member_Reconciliation)
          (\<lambda>x. x\<lparr>me_state := state, me_terminal_at := Some (clk e 1), me_terminal_evidence_digest := Some evidence,
                 me_observed_cost_usd := Some cost\<rparr>) (db_members (between db1))\<rparr>"
proof -
  let ?f = "\<lambda>cost m b. if me_state m \<noteq> Member_Reconciliation then Inl (LeaseError Queue_Not_Reconciliation)
                        else if state = Member_Completed \<and> fadd (float_value (me_cost_ceiling_usd m)) slack < float_value cost
                        then Inl (AuthError Over_Member_Ceiling)
                        else ebind (reference_from_row b) (\<lambda>r. Inr (r, cost))"
  let ?g = "\<lambda>cost. case find_member mid seen of
                 None \<Rightarrow> Inl (LeaseError Queue_Missing)
               | Some m \<Rightarrow>
                   (case find_batch (me_plan_digest m) seen of
                      None \<Rightarrow> Inl (LeaseError Queue_Missing)
                    | Some b \<Rightarrow> ?f cost m b)"
  let ?c = "ebind (chk_digest mid) (\<lambda>_.
             if state \<noteq> Member_Completed \<and> state \<noteq> Member_Failed then Inl (ValueError Bad_Choice)
             else ebind (chk_digest evidence) (\<lambda>_. ebind (cost_of observed) ?g))"
  obtain r cost where z: "?c = Inr (r, cost)" using assms by (cases ?c) (auto simp: resolve_member_def)
  then have st: "state = Member_Completed \<or> state = Member_Failed" and g: "?g cost = Inr (r, cost)"
    by (auto simp: ebind_Inr_iff split: if_splits option.splits)
  obtain m where m: "find_member mid seen = Some m" using g by (cases "find_member mid seen") simp_all
  obtain b where b: "find_batch (me_plan_digest m) seen = Some b"
    using g m by (cases "find_batch (me_plan_digest m) seen") simp_all
  have f: "?f cost m b = Inr (r, cost)" using g m b by simp
  then have r: "reference_from_row b = Inr r"
    and c: "state = Member_Completed \<longrightarrow> float_value cost \<le> fadd (float_value (me_cost_ceiling_usd m)) slack"
    by (auto simp: ebind_Inr_iff not_less split: if_splits)
  obtain ures db1 where u: "batch_revoke e r db = (ures, db1)" by fastforce
  from assms u obtain v where v: "ures = Inr v"
    unfolding resolve_member_def z sum.case prod.case by (cases ures) auto
  have "db' = (between db1)\<lparr>db_members := update_rows (\<lambda>x. me_member_id x = mid \<and> me_state x = Member_Reconciliation)
          (\<lambda>x. x\<lparr>me_state := state, me_terminal_at := Some (clk e 1), me_terminal_evidence_digest := Some evidence,
                 me_observed_cost_usd := Some cost\<rparr>) (db_members (between db1))\<rparr>"
    using assms unfolding resolve_member_def z sum.case prod.case u v by (simp add: Let_def split: if_splits)
  with m b r u [unfolded v] st c show thesis by (rule that)
qed

lemma member_kept_steps:
  "queue_step\<^sup>*\<^sup>* db db' \<Longrightarrow> queue_inv db \<Longrightarrow> find_member mid db = Some m
     \<Longrightarrow> \<exists>n. find_member mid db' = Some n \<and> member_life m n"
proof (induction rule: rtranclp_induct)
  case base
  then show ?case using member_life_refl by blast
next
  case (step d d')
  then obtain k where k: "find_member mid d = Some k" "member_life m k" by blast
  from member_kept [OF queue_steps.steps_inv [OF step.hyps(1) step.prems(1)] step.hyps(2) k(1)] k(2)
  show ?case using member_life_trans by blast
qed


lemma resolve_op:
  assumes "resolve_member e mid state evidence observed seen between db = (Inr m', db')"
    and "(runtime_step h P)\<^sup>*\<^sup>* initial_db seen" "(runtime_step h P)\<^sup>*\<^sup>* seen db" "runtime_between h P between" "policies_ok h P"
  obtains m b r where "find_member mid seen = Some m" "find_batch (me_plan_digest m) seen = Some b"
    "reference_from_row b = Inr r" "batch_revoked (br_authority_id r) db'" "(runtime_step h P)\<^sup>*\<^sup>* db db'"
proof -
  obtain m b r cost u db1 where m: "find_member mid seen = Some m" "find_batch (me_plan_digest m) seen = Some b"
    "reference_from_row b = Inr r" and u: "batch_revoke e r db = (Inr u, db1)"
    and st: "state = Member_Completed \<or> state = Member_Failed"
    and c: "state = Member_Completed \<longrightarrow> float_value cost \<le> fadd (float_value (me_cost_ceiling_usd m)) slack"
    and db': "db' = (between db1)\<lparr>db_members := update_rows (\<lambda>x. me_member_id x = mid \<and> me_state x = Member_Reconciliation)
          (\<lambda>x. x\<lparr>me_state := state, me_terminal_at := Some (clk e 1), me_terminal_evidence_digest := Some evidence,
                 me_observed_cost_usd := Some cost\<rparr>) (db_members (between db1))\<rparr>"
    using resolve_member_Inr [OF assms(1)] .
  have "batch_op db db1" using u by (rule batch_op.intros)
  then have s1: "runtime_step h P db db1" using assms(5) by (simp add: runtime_step_def runtime_op_def)
  have s2: "(runtime_step h P)\<^sup>*\<^sup>* db1 (between db1)" using assms(4) by (simp add: runtime_between_def)
  have ri: "(runtime_step h P)\<^sup>*\<^sup>* initial_db db" using assms(2,3) by simp
  note inv0 = runtime_steps.reachable_inv [OF refl assms(2)] and inv = runtime_steps.reachable_inv [OF refl ri]
  have t: "(runtime_step h P)\<^sup>*\<^sup>* seen (between db1)" using assms(3) s1 s2 by (meson converse_rtranclp_into_rtranclp rtranclp_trans)
  have qi: "queue_inv seen" "queue_inv (between db1)"
    using inv0 runtime_steps.steps_inv [OF t inv0] by (simp_all add: runtime_inv_def)
  have qs: "queue_step\<^sup>*\<^sup>* seen (between db1)" using runtime_runs [OF t inv0] by simp
  obtain n where n: "find_member mid (between db1) = Some n" "member_life m n"
    using member_kept_steps [OF qs qi(1) m(1)] by blast
  have ids: "member_ids (between db1)" using qi(2) by (simp add: queue_inv_def)
  have "float_value cost \<le> fadd (float_value (me_cost_ceiling_usd x)) slack"
    if "x \<in> set (db_members (between db1))" "me_member_id x = mid" "state = Member_Completed" for x
    using find_member_unique [OF ids n(1) that(1,2)] n(2) c that(3) by (simp add: member_life_def same_member_def)
  then have "queue_op (between db1) db'" unfolding db' by (intro queue_op.intros(8) st) blast
  then have s3: "runtime_step h P (between db1) db'" using assms(5) by (simp add: runtime_step_def runtime_op_def)
  have "batch_ids_unique db" using inv by (simp add: runtime_inv_def)
  from batch_revoke_marks [OF u this] have "batch_revoked (br_authority_id r) db1" .
  moreover have "runtime_inv h P db1" by (rule runtime_steps.step_inv [OF inv s1])
  with s2 s3 have "batch_step\<^sup>*\<^sup>* db1 db'" using runtime_runs [of h P db1 db'] by (simp add: rtranclp.rtrancl_into_rtrancl)
  ultimately have "batch_revoked (br_authority_id r) db'" using batch_grants.revoked_steps by blast
  moreover have "(runtime_step h P)\<^sup>*\<^sup>* db db'" using s1 s2 s3 by (meson converse_rtranclp_into_rtranclp rtranclp.rtrancl_into_rtrancl)
  ultimately show thesis using m that by blast
qed

lemma lookup_update_kept:
  assumes "\<And>r. P r \<Longrightarrow> Q (f r) = Q r"
  shows "lookup_row Q (update_rows P f rs) = map_option (\<lambda>r. if P r then f r else r) (lookup_row Q rs)"
  using assms by (induction rs) auto

text \<open>Revoking the authority of one plan does not touch the grants of the others.\<close>

lemma revoke_spares_others:
  assumes "batch_revoke e r db = (res, db')" "br_plan_digest r2 \<noteq> br_plan_digest r"
  shows "load_scope h now r2 db' = load_scope h now r2 db"
proof -
  let ?P = "\<lambda>a. bt_authority_id a = br_authority_id r \<and> bt_revoked_at a = None"
  let ?f = "\<lambda>a. a\<lparr>bt_revoked_at := Some (clk e 0)\<rparr>"
  have "db' = db \<or> (\<exists>row. find_batch_authority (br_authority_id r) db = Some row \<and> bt_plan_digest row = br_plan_digest r
      \<and> bt_revoked_at row = None \<and> db' = db\<lparr>db_batch_authorities := update_rows ?P ?f (db_batch_authorities db)\<rparr>)"
    using assms(1) unfolding batch_revoke_def by (auto split: option.splits if_splits)
  then show ?thesis
  proof (elim disjE exE conjE)
    fix row assume row: "find_batch_authority (br_authority_id r) db = Some row" "bt_plan_digest row = br_plan_digest r"
      "bt_revoked_at row = None" "db' = db\<lparr>db_batch_authorities := update_rows ?P ?f (db_batch_authorities db)\<rparr>"
    show ?thesis
    proof (cases "br_authority_id r2 = br_authority_id r")
      case True
      have "find_batch_authority (br_authority_id r) db' = Some (?f row)"
        using row(1,3) unfolding row(4) find_batch_authority_def using find_batch_Some [OF row(1)] by (simp add: lookup_update_kept)
      with True row(1,2) assms(2) show ?thesis by (simp add: load_scope_def Let_def split: sum.splits err.splits)
    next
      case False
      then have "find_batch_authority (br_authority_id r2) db' = find_batch_authority (br_authority_id r2) db"
        unfolding row(4) find_batch_authority_def by simp (rule lookup_update_rows_other, auto)
      then show ?thesis by (simp add: load_scope_def)
    qed
  qed simp
qed

text \<open>The two writes of a resolution, between which other processes commit.\<close>

lemma resolve_effect:
  assumes "resolve_member e mid state evidence observed seen between db = (Inr m', db')" "find_member mid seen = Some m"
  obtains d1 where "db_members d1 = db_members db" "db_batches d1 = db_batches db"
    "\<And>h now r. br_plan_digest r \<noteq> me_plan_digest m \<Longrightarrow> load_scope h now r d1 = load_scope h now r db"
    "db_batches db' = db_batches (between d1)" "\<And>y. y \<noteq> mid \<Longrightarrow> find_member y db' = find_member y (between d1)"
    "\<And>h now r. load_scope h now r db' = load_scope h now r (between d1)"
proof -
  obtain n b r cost u d1 where n: "find_member mid seen = Some n" and w0: "find_batch (me_plan_digest n) seen = Some b"
    and w: "reference_from_row b = Inr r" "batch_revoke e r db = (Inr u, d1)"
    and db': "db' = (between d1)\<lparr>db_members := update_rows (\<lambda>x. me_member_id x = mid \<and> me_state x = Member_Reconciliation)
          (\<lambda>x. x\<lparr>me_state := state, me_terminal_at := Some (clk e 1), me_terminal_evidence_digest := Some evidence,
                 me_observed_cost_usd := Some cost\<rparr>) (db_members (between d1))\<rparr>"
    by (rule resolve_member_Inr [OF assms(1)])
  have "n = m" using n assms(2) by simp
  then have "br_plan_digest r = me_plan_digest m"
    using w0 w(1) by (auto simp: find_batch_def reference_from_row_def batch_reference_post_init_def result_simps
        dest!: lookup_row_Some split: if_splits)
  moreover have "db_members d1 = db_members db" "db_batches d1 = db_batches db"
    using batch_revoke_cases [OF w(2)] by auto
  moreover have "find_member y db' = find_member y (between d1)" if "y \<noteq> mid" for y
    using that unfolding db' find_member_def by simp (rule lookup_update_rows_other, auto)
  moreover have "load_scope h now r db' = load_scope h now r (between d1)" for h now r
    by (simp add: db' load_scope_def find_batch_authority_def)
  ultimately show thesis using revoke_spares_others [OF w(2)] by (intro that [of d1]) (simp_all add: db')
qed

text \<open>A claim comes from the grant of its plan's batch row.\<close>

lemma claim_loads:
  assumes "claim e dispatcher ttl plan expected between db = (Inr (Some c), db')"
    and "find_batch (qc_plan_digest c) (between (mark_expired_claims (clk e 0) db)) = Some b"
    and "queue_inv (between (mark_expired_claims (clk e 0) db))" "reference_from_row b = Inr r"
  shows "batch_loads (br_authority_id r) (between (mark_expired_claims (clk e 0) db))"
proof -
  let ?d = "between (mark_expired_claims (clk e 0) db)"
  obtain m bc i rc scope where i: "(m, bc) = claimable_rows plan ?d ! i" "i < length (claimable_rows plan ?d)"
    and r: "reference_from_row bc = Inr rc" "dispatcher_scope (sha e) (clk e (Suc i)) rc (Some dispatcher) ?d = Inr scope"
    and cm: "claim_member (sql_sum e) m bc dispatcher (clk e 0 + seconds ttl) ?d = Inr (c, db')"
    using assms(1) by (rule claim_Some)
  have m: "bc \<in> set (db_batches ?d)" "ba_plan_digest bc = me_plan_digest m"
    using claimable_rowsD [of m bc plan ?d] i by (auto simp: in_set_conv_nth)
  have "qc_plan_digest c = me_plan_digest m"
    using cm by (auto simp: claim_member_Inr claim_of_def candidate_of_def queue_candidate.defs queue_claim.defs)
  with assms(2) have b: "b \<in> set (db_batches ?d)" "ba_plan_digest b = me_plan_digest m"
    by (auto simp: find_batch_def dest!: lookup_row_Some)
  have "bc = b" using assms(3) m b key_unique [of ba_plan_digest "db_batches ?d" bc b] by (simp add: queue_inv_def)
  with r assms(4) show ?thesis by (auto simp: batch_loads_def dispatcher_scope_Inr)
qed

text \<open>C21. Resolving a member that needed reconciliation ends its plan: after \<open>resolve_reconciliation\<close>
  has completed or failed the member, no member of the same plan is ever claimed again, however the
  processes that share the database go on, for the authority the plan was enqueued under is revoked
  before the member is written. The resolution itself leaves the other plans alone: its first write
  touches no member and no batch row and changes for no reference of another plan whether and how it
  loads; its second write, after what others have committed in between, changes no member but this one,
  no batch row and no authority.\<close>

theorem reconciliation_ends_plan:
  assumes "policies_ok h P" "(runtime_step h P)\<^sup>*\<^sup>* initial_db seen" "(runtime_step h P)\<^sup>*\<^sup>* seen db" "runtime_between h P between"
    and "resolve_member e mid state evidence observed seen between db = (Inr m', db1)"
    and "find_member mid seen = Some m"
    and "(runtime_step h P)\<^sup>*\<^sup>* db1 db2" "runtime_between h P between2"
  shows "(\<nexists>c. fst (claim e2 dispatcher ttl plan expected between2 db2) = Inr (Some c) \<and> qc_plan_digest c = me_plan_digest m)
    \<and> (\<exists>d1. db_members d1 = db_members db \<and> db_batches d1 = db_batches db
        \<and> (\<forall>h now r. br_plan_digest r \<noteq> me_plan_digest m \<longrightarrow> load_scope h now r d1 = load_scope h now r db)
        \<and> db_batches db1 = db_batches (between d1) \<and> (\<forall>y. y \<noteq> mid \<longrightarrow> find_member y db1 = find_member y (between d1))
        \<and> (\<forall>h now r. load_scope h now r db1 = load_scope h now r (between d1)))"
proof (rule conjI, rule notI)
  show "\<exists>d1. db_members d1 = db_members db \<and> db_batches d1 = db_batches db
        \<and> (\<forall>h now r. br_plan_digest r \<noteq> me_plan_digest m \<longrightarrow> load_scope h now r d1 = load_scope h now r db)
        \<and> db_batches db1 = db_batches (between d1) \<and> (\<forall>y. y \<noteq> mid \<longrightarrow> find_member y db1 = find_member y (between d1))
        \<and> (\<forall>h now r. load_scope h now r db1 = load_scope h now r (between d1))"
    by (rule resolve_effect [OF assms(5,6)]) blast
next
  let ?p = "me_plan_digest m" and ?d = "between2 (mark_expired_claims (clk e2 0) db2)"
  assume "\<exists>c. fst (claim e2 dispatcher ttl plan expected between2 db2) = Inr (Some c) \<and> qc_plan_digest c = ?p"
  then obtain c db3 where cl: "claim e2 dispatcher ttl plan expected between2 db2 = (Inr (Some c), db3)"
    and p: "qc_plan_digest c = ?p" by (metis prod.collapse)
  obtain b r where b: "find_batch ?p seen = Some b" "reference_from_row b = Inr r" "batch_revoked (br_authority_id r) db1"
    and s: "(runtime_step h P)\<^sup>*\<^sup>* db db1"
    using resolve_op [OF assms(5,2,3,4,1)] assms(6) by (metis option.inject)
  have "queue_op db2 (mark_expired_claims (clk e2 0) db2)" by (rule queue_op.intros)
  then have "runtime_step h P db2 (mark_expired_claims (clk e2 0) db2)"
    using assms(1) by (simp add: runtime_step_def runtime_op_def)
  with assms(7,8) have t: "(runtime_step h P)\<^sup>*\<^sup>* db1 ?d"
    unfolding runtime_between_def by (meson rtranclp.rtrancl_into_rtrancl rtranclp_trans)
  with s assms(3) have t2: "(runtime_step h P)\<^sup>*\<^sup>* seen ?d" by simp
  have i1: "runtime_inv h P seen" by (rule runtime_steps.reachable_inv [OF refl assms(2)])
  have i2: "runtime_inv h P db1" by (rule runtime_steps.steps_inv [OF _ i1]) (use s assms(3) in simp)
  have q: "queue_inv seen" "queue_inv ?d" using i1 runtime_steps.steps_inv [OF t2 i1] by (simp_all add: runtime_inv_def)
  have "find_batch ?p ?d = Some b" using plan_kept_steps [OF _ q(1) b(1)] runtime_runs [OF t2 i1] by simp
  with cl p q(2) b(2) have "batch_loads (br_authority_id r) ?d" using claim_loads by metis
  moreover have "batch_step\<^sup>*\<^sup>* db1 ?d" using runtime_runs [OF t i2] by simp
  from batch_grants.revoked_steps [OF this b(3)] have "batch_revoked (br_authority_id r) ?d" .
  ultimately show False using batch_grants.revoked_refused by blast
qed


section \<open>The theorems at a run of the example\<close>

lemma queue_issue: "batch_issue (queue_env 0) example_batch initial_db = (Inr queue_ref, queue_db0)"
proof -
  have n: "next_batch_revision (bs_plan_digest example_batch) [] = 1" by (simp add: next_batch_revision_def)
  have "is_sha256 (bs_plan_digest example_batch)" using example_batch_ok by (simp add: batch_scope_ok_def)
  then have "batch_reference_post_init (batch_reference_of queue_row) = Inr (batch_reference_of queue_row)"
    using example_uid_1 lower_uuid4 [OF example_uid_1] n
    by (simp add: batch_reference_post_init_def batch_reference_of_def queue_row_def batch_issued_row_def Let_def
        initial_db_def sha256_body_def chk_digest_def queue_sha_hex chk_uuid4_def)
  moreover have "seconds 0 < bs_expires_at example_batch" by (simp add: example_batch_def seconds_def)
  ultimately show ?thesis
    by (simp add: batch_issue_def Let_def queue_row_def [symmetric] queue_ref_def) (simp add: initial_db_def queue_db0_def)
qed

lemma no_policies [simp]: "policies_ok h {}"
  by (simp add: policies_ok_def)

lemma queue_ops:
  "runtime_step h {} initial_db queue_db0" "runtime_step h {} queue_db0 queue_db1" "runtime_step h {} queue_db1 queue_db2"
  "runtime_step h {} db (mark_expired_claims now db)"
proof -
  have "batch_op initial_db queue_db0" by (rule batch_op.intros(1) [OF queue_issue])
  moreover have "queue_op queue_db0 queue_db1" by (rule queue_op.intros(1) [OF queue_enqueued])
  moreover have "queue_op queue_db1 queue_db2"
    by (rule queue_op.intros(3) [OF _ queue_claim_member, of None]) (simp add: queue_claimable)
  moreover have "queue_op db (mark_expired_claims now db)" by (rule queue_op.intros)
  ultimately show "runtime_step h {} initial_db queue_db0" "runtime_step h {} queue_db0 queue_db1"
    "runtime_step h {} queue_db1 queue_db2" "runtime_step h {} db (mark_expired_claims now db)"
    by (simp_all add: runtime_step_def runtime_op_def)
qed

lemma queue_db2_run: "(runtime_step h {})\<^sup>*\<^sup>* initial_db queue_db2"
  using queue_ops(1-3) [of h] by (meson rtranclp.rtrancl_into_rtrancl rtranclp.rtrancl_refl)

text \<open>A dispatch lease is taken after the first member was claimed: it gets the next token.\<close>

theorem tokens_unique_across_stores_witness:
  "all_tokens (snd (acquire (queue_env 10) ''r'' gate_run 30 queue_db2)) = [2, 1]
   \<and> distinct (all_tokens (snd (acquire (queue_env 10) ''r'' gate_run 30 queue_db2)))"
proof -
  let ?db = "snd (acquire (queue_env 10) ''r'' gate_run 30 queue_db2)"
  have l: "db_leases queue_db2 = []" "db_fencing_counter queue_db2 = 1" "queue_tokens queue_db2 = [1]"
    "target_tokens queue_db2 = []" "request_tokens queue_db2 = []"
    by (simp_all add: queue_db2_def queue_db1_def queue_db0_def initial_db_def queue_tokens_def target_tokens_def
        request_tokens_def List.map_filter_def queue_row_simps claimed_row_def)
      (simp add: second_member_def new_member_row_def)
  have c: "chk_uuid4_lower gate_run = Inr gate_run" using gate_text by (simp add: chk_uuid4_lower_def chk_uuid4_def)
  have a: "acquire (queue_env 10) ''r'' gate_run 30 queue_db2
      = (let (p, db) = insert_lease ''r'' gate_run (seconds 10) 30 queue_db2 in (Inr p, db))"
    using c l(1) gate_text(1) by (simp add: chk_range_def acquire_def find_lease_def chk_non_empty_def commit_result_def Let_def case_prod_beta)
  then have "lease_op queue_db2 ?db" by (metis lease_op.intros(1) prod.collapse)
  then have "runtime_step id {} queue_db2 ?db" by (simp add: runtime_step_def runtime_op_def)
  then have "(runtime_step id {})\<^sup>*\<^sup>* queue_db2 ?db" by blast
  from conjunct1 [OF tokens_unique_across_stores [OF queue_db2_run this]]
  show ?thesis using l
    by (simp add: a case_prod_beta insert_lease_def bump_fencing_def Let_def all_tokens_def lease_tokens_def queue_tokens_def
        target_tokens_def request_tokens_def new_lease_def)
qed


text \<open>The first member's claim expires and is resolved as failed; the second member is not claimed.\<close>

definition queue_expired :: runtime_db where
  "queue_expired = mark_expired_claims (seconds 100) queue_db2"

definition queue_resolved :: runtime_db where
  "queue_resolved = snd (resolve_member (queue_env 101) first_id Member_Failed (dg CHR ''e'') (JFloat ''0.1'') queue_expired id queue_expired)"

definition expired_member :: member_row where
  "expired_member = (claimed_row ''w1'' 1 (seconds 63) first_member)\<lparr>me_state := Member_Reconciliation, me_terminal_at := Some (seconds 100)\<rparr>"

lemma queue_expired_rows: "db_members queue_expired = [expired_member, second_member]" "db_batches queue_expired = [queue_batch]"
  "db_batch_authorities queue_expired = [queue_row]"
  by (simp_all add: queue_expired_def mark_expired_claims_def queue_db2_def queue_db1_def queue_db0_def claim_expired_def
      claimed_row_def expired_member_def queue_row_simps seconds_def)

lemma expired_simps: "me_member_id expired_member = first_id" "me_state expired_member = Member_Reconciliation"
  "me_plan_digest expired_member = dg CHR ''a''"
  by (simp_all add: expired_member_def claimed_row_def queue_row_simps)

lemma queue_revoke: "\<exists>db. batch_revoke (queue_env 101) queue_ref queue_expired = (Inr True, queue_expired\<lparr>db_batch_authorities := db\<rparr>)"
proof -
  have "find_batch_authority (br_authority_id queue_ref) queue_expired = Some queue_row"
    by (simp add: find_batch_authority_def queue_expired_rows queue_ref_def batch_reference_of_def)
  moreover have "bt_revoked_at queue_row = None" by (simp add: queue_row_def batch_issued_row_def Let_def)
  ultimately show ?thesis by (simp add: batch_revoke_def) (simp add: queue_ref_def batch_reference_of_def, blast)
qed

lemma queue_resolves:
  "\<exists>m'. resolve_member (queue_env 101) first_id Member_Failed (dg CHR ''e'') (JFloat ''0.1'') queue_expired id queue_expired
     = (Inr m', queue_resolved) \<and> second_member \<in> set (db_members queue_resolved)"
proof -
  have c: "chk_digest first_id = Inr first_id" "chk_digest (dg CHR ''e'') = Inr (dg CHR ''e'')" "cost_of (JFloat ''0.1'') = Inr ''0.1''"
    using queue_ids(3) by (simp add: chk_digest_def) code_simp+
  have f: "find_member first_id queue_expired = Some expired_member" "find_batch (dg CHR ''a'') queue_expired = Some queue_batch"
    by (simp_all add: find_member_def find_batch_def queue_expired_rows expired_simps queue_row_simps)
  obtain as where r: "batch_revoke (queue_env 101) queue_ref queue_expired = (Inr True, queue_expired\<lparr>db_batch_authorities := as\<rparr>)"
    using queue_revoke by blast
  have "\<exists>m' d. resolve_member (queue_env 101) first_id Member_Failed (dg CHR ''e'') (JFloat ''0.1'') queue_expired id queue_expired = (Inr m', d)
      \<and> second_member \<in> set (db_members d)"
    using queue_ids(2) c(1)
    by (simp add: resolve_member_def c f expired_simps queue_reference r queue_expired_rows queue_row_simps read_member_def find_member_def
      del: replicate_Suc)
  then show ?thesis by (metis queue_resolved_def snd_conv)
qed

theorem reconciliation_ends_plan_witness:
  "me_state second_member = Queued \<and> second_member \<in> set (db_members queue_resolved)
   \<and> (\<nexists>c. fst (claim (queue_env 200) ''w1'' 60 None None id queue_resolved) = Inr (Some c) \<and> qc_plan_digest c = dg CHR ''a'')"
proof -
  obtain m' where m: "resolve_member (queue_env 101) first_id Member_Failed (dg CHR ''e'') (JFloat ''0.1'') queue_expired id queue_expired
     = (Inr m', queue_resolved)" and s: "second_member \<in> set (db_members queue_resolved)" using queue_resolves by blast
  have run: "(runtime_step id {})\<^sup>*\<^sup>* initial_db queue_expired"
    unfolding queue_expired_def using queue_db2_run queue_ops(4) by (rule rtranclp.rtrancl_into_rtrancl)
  have b: "runtime_between id {} id" by (simp add: runtime_between_def)
  have f: "find_member first_id queue_expired = Some expired_member"
    by (simp add: find_member_def queue_expired_rows expired_simps)
  from s show ?thesis
    using conjunct1 [OF reconciliation_ends_plan [OF no_policies run rtranclp.rtrancl_refl b m f rtranclp.rtrancl_refl b]] expired_simps(3)
    by (simp add: queue_row_simps)
qed

end
