(* ===== verification/RecordContracts.thy ===== *)
theory RecordContracts
  imports RuntimeDb TextFacts
begin

text \<open>
  \<open>src/src/macr_runtime/_v07_contracts.py\<close>: the checks that the frozen records of the agent and
  semantic contracts apply to their fields. The checked value is an arbitrary JSON value, as it comes
  from a caller or out of a parsed document; text longer than the limit in UTF-8 bytes is refused.
\<close>

section \<open>Scalars\<close>

definition require_non_empty :: "nat \<Rightarrow> json \<Rightarrow> string result" where
  "require_non_empty max_bytes v =
     (case v of
        JStr s \<Rightarrow>
          if strip s = [] then Inl (ValueError Bad_Text)
          else if length (strip s) > max_bytes then Inl (ValueError Bad_Text)
          else Inr (strip s)
      | _ \<Rightarrow> Inl (ValueError Bad_Text))"

definition require_optional_non_empty :: "nat \<Rightarrow> json \<Rightarrow> string option result" where
  "require_optional_non_empty max_bytes v =
     (if v = JNull then Inr None else ebind (require_non_empty max_bytes v) (\<lambda>s. Inr (Some s)))"

definition require_sha256 :: "json \<Rightarrow> string result" where
  "require_sha256 v = (case v of JStr s \<Rightarrow> chk_digest s | _ \<Rightarrow> Inl (ValueError Bad_Digest))"

definition require_uuid4 :: "json \<Rightarrow> string result" where
  "require_uuid4 v = (case v of JStr s \<Rightarrow> chk_uuid4 s | _ \<Rightarrow> Inl (ValueError Bad_Uuid))"

definition require_positive_int :: "json \<Rightarrow> int result" where
  "require_positive_int v =
     (case v of JInt n \<Rightarrow> if n < 1 then Inl (ValueError Bad_Integer) else Inr n | _ \<Rightarrow> Inl (ValueError Bad_Integer))"

definition require_non_negative_int :: "json \<Rightarrow> int result" where
  "require_non_negative_int v =
     (case v of JInt n \<Rightarrow> if n < 0 then Inl (ValueError Bad_Integer) else Inr n | _ \<Rightarrow> Inl (ValueError Bad_Integer))"

definition normalize_timestamp :: "json \<Rightarrow> int result" where
  "normalize_timestamp v =
     (case v of JStr s \<Rightarrow> aware_iso8601 (read_isoformat s) | _ \<Rightarrow> Inl (ValueError Bad_Timestamp))"

section \<open>Objects\<close>

text \<open>\<open>require_closed_mapping\<close> with required fields only, and a field of its result.\<close>

definition require_closed_mapping :: "string list \<Rightarrow> json \<Rightarrow> (string \<times> json) list result" where
  "require_closed_mapping required data =
     (case data of
        JObj kvs \<Rightarrow>
          ebind (validate_json data) (\<lambda>_.
            if set (map fst kvs) \<noteq> set required then Inl (ValueError Bad_Fields) else Inr kvs)
      | _ \<Rightarrow> Inl (ValueError Bad_Json))"

definition jfield :: "string \<Rightarrow> (string \<times> json) list \<Rightarrow> json" where
  "jfield k kvs = (case jget k kvs of None \<Rightarrow> JNull | Some v \<Rightarrow> v)"

definition canonical_record_digest :: "(string \<Rightarrow> string) \<Rightarrow> string \<Rightarrow> json \<Rightarrow> string" where
  "canonical_record_digest h ns v = sha256_hex h ns v"

text \<open>A stored digest has to be the one that is computed from the record.\<close>

definition require_same_digest :: "string \<Rightarrow> json \<Rightarrow> unit result" where
  "require_same_digest computed v =
     ebind (require_sha256 v) (\<lambda>d. if computed \<noteq> d then Inl (ValueError Bad_Document) else Inr ())"

section \<open>What the checks accept\<close>

definition text_ok :: "nat \<Rightarrow> string \<Rightarrow> bool" where
  "text_ok n s \<longleftrightarrow> strip s = s \<and> s \<noteq> [] \<and> length s \<le> n"

text \<open>A hash function returns 64 lower-case hex digits.\<close>

definition hex_hash :: "(string \<Rightarrow> string) \<Rightarrow> bool" where
  "hex_hash h \<longleftrightarrow> (\<forall>s. is_sha256 (h s))"

lemma require_non_empty_Inr: "require_non_empty n v = Inr s \<Longrightarrow> text_ok n s \<and> (\<exists>t. v = JStr t)"
  by (auto simp: require_non_empty_def text_ok_def split: json.splits if_splits)

lemma require_non_empty_ok [simp]: "text_ok n s \<Longrightarrow> require_non_empty n (JStr s) = Inr s"
  by (simp add: require_non_empty_def text_ok_def)

lemma require_optional_Inr:
  "require_optional_non_empty n v = Inr x \<Longrightarrow> case x of None \<Rightarrow> v = JNull | Some s \<Rightarrow> text_ok n s"
  by (auto simp: require_optional_non_empty_def result_simps dest!: require_non_empty_Inr split: if_splits)

lemma require_optional_ok [simp]: "(case x of None \<Rightarrow> True | Some s \<Rightarrow> text_ok n s) \<Longrightarrow> require_optional_non_empty n (jstr x) = Inr x"
  by (cases x) (simp_all add: require_optional_non_empty_def jstr_def)

lemma require_sha256_Inr: "require_sha256 v = Inr s \<longleftrightarrow> v = JStr s \<and> is_sha256 s"
  by (auto simp: require_sha256_def split: json.splits)

lemma require_uuid4_Inr: "require_uuid4 v = Inr s \<longleftrightarrow> v = JStr s \<and> is_uuid4 s"
  by (auto simp: require_uuid4_def split: json.splits)

lemma require_positive_int_Inr: "require_positive_int v = Inr n \<longleftrightarrow> v = JInt n \<and> 1 \<le> n"
  by (auto simp: require_positive_int_def split: json.splits if_splits)

lemma require_non_negative_int_Inr: "require_non_negative_int v = Inr n \<longleftrightarrow> v = JInt n \<and> 0 \<le> n"
  by (auto simp: require_non_negative_int_def split: json.splits if_splits)

lemma normalize_timestamp_Inr: "normalize_timestamp v = Inr t \<longleftrightarrow> v = JStr (isoformat t) \<and> datetime_ok t"
proof
  assume "normalize_timestamp v = Inr t"
  then show "v = JStr (isoformat t) \<and> datetime_ok t"
    by (auto simp: normalize_timestamp_def aware_iso8601_def dest!: read_isoformat_Aware split: json.splits timestamp_text.splits)
next
  assume "v = JStr (isoformat t) \<and> datetime_ok t"
  then show "normalize_timestamp v = Inr t" by (simp add: normalize_timestamp_def aware_iso8601_def read_isoformat)
qed

lemma require_same_digest_Inr: "require_same_digest d v = Inr u \<longleftrightarrow> v = JStr d \<and> is_sha256 d"
  by (auto simp: require_same_digest_def result_simps require_sha256_Inr split: if_splits)

lemma canonical_record_digest_hex: "hex_hash h \<Longrightarrow> is_sha256 (canonical_record_digest h ns v)"
  by (simp add: hex_hash_def canonical_record_digest_def sha256_hex_def)

lemma canonical_record_digest_norm [simp]: "canonical_record_digest h ns (json_norm v) = canonical_record_digest h ns v"
  by (simp add: canonical_record_digest_def sha256_hex_def)

lemmas require_Inr = require_sha256_Inr require_uuid4_Inr require_positive_int_Inr require_non_negative_int_Inr
  normalize_timestamp_Inr require_same_digest_Inr

text \<open>The canonical form of a document with the required fields passes, and its fields are the
  canonical forms of the document's.\<close>

lemma validate_sort_members: "validate_members (sort_key fst kvs) = Inr () \<longleftrightarrow> validate_members kvs = Inr ()"
proof -
  have all: "validate_members kvs = Inr () \<longleftrightarrow> (\<forall>p \<in> set kvs. validate_json (snd p) = Inr ())" for kvs
    by (induction kvs) (auto simp: result_simps)
  show ?thesis unfolding all by simp
qed

lemma validate_norm [simp]:
  "validate_json (json_norm v) = Inr () \<longleftrightarrow> validate_json v = Inr ()"
  "validate_items (norm_items xs) = Inr () \<longleftrightarrow> validate_items xs = Inr ()"
  "validate_members (norm_members kvs) = Inr () \<longleftrightarrow> validate_members kvs = Inr ()"
  by (induction v and xs and kvs rule: json_norm_norm_items_norm_members.induct)
    (auto simp: result_simps validate_sort_members)

lemma closed_mapping_norm:
  assumes "distinct (map fst kvs)" "set (map fst kvs) = set ks" "validate_members kvs = Inr ()"
  obtains lvs where "require_closed_mapping ks (json_norm (JObj kvs)) = Inr lvs"
    "\<And>k. jfield k lvs = json_norm (jfield k kvs)"
proof
  let ?l = "sort_key fst (norm_members kvs)"
  have "validate_members ?l = Inr ()" using assms(3) by (simp add: validate_sort_members)
  then show "require_closed_mapping ks (json_norm (JObj kvs)) = Inr ?l"
    using assms(2) by (simp add: require_closed_mapping_def)
  show "jfield k ?l = json_norm (jfield k kvs)" for k
    by (simp add: jfield_def jget_norm [OF assms(1)] split: option.splits)
qed

text \<open>A document is read as it was built, or in its canonical form.\<close>

definition reads :: "(json \<Rightarrow> json) \<Rightarrow> bool" where
  "reads f \<longleftrightarrow> f = json_norm \<or> f = (\<lambda>v. v)"

lemma reads_norm: "reads json_norm" and reads_plain: "reads (\<lambda>v. v)"
  by (simp_all add: reads_def)

lemma reads_simps [simp]:
  assumes "reads f"
  shows "f (JStr s) = JStr s" "f (JInt n) = JInt n" "f JNull = JNull" "f (JList xs) = JList (map f xs)"
  using assms by (auto simp: reads_def norm_items_map)

lemma closed_mapping_reads:
  assumes "reads f" "distinct (map fst kvs)" "set (map fst kvs) = set ks" "validate_members kvs = Inr ()"
  obtains lvs where "require_closed_mapping ks (f (JObj kvs)) = Inr lvs" "\<And>k. jfield k lvs = f (jfield k kvs)"
proof (cases "f = json_norm")
  case True
  with closed_mapping_norm [OF assms(2-4)] that show thesis by metis
next
  case False
  then have f: "f = (\<lambda>v. v)" using assms(1) by (simp add: reads_def)
  show thesis by (rule that [of kvs]) (use assms(3,4) in \<open>simp_all add: f require_closed_mapping_def\<close>)
qed

end
