(* ===== verification/AgentContracts.thy ===== *)
theory AgentContracts
  imports RecordContracts
begin

text \<open>
  \<open>src/src/macr_runtime/agent/contracts.py\<close>: the bindings and the header of an agent run. The digest
  field of a record, which its constructor computes, is a function of the record here; a constructor takes
  the values that it checks as JSON values and the records it contains as records.
\<close>

section \<open>States of a run\<close>

datatype agent_state =
  Created | Admitted | Active | Waiting | Suspended | Waking | Blocked | Needs_Reconciliation | Completed | Failed | Cancelled

fun agent_state_value :: "agent_state \<Rightarrow> string" where
  "agent_state_value Created = ''created''"
| "agent_state_value Admitted = ''admitted''"
| "agent_state_value Active = ''active''"
| "agent_state_value Waiting = ''waiting''"
| "agent_state_value Suspended = ''suspended''"
| "agent_state_value Waking = ''waking''"
| "agent_state_value Blocked = ''blocked''"
| "agent_state_value Needs_Reconciliation = ''reconciliation_required''"
| "agent_state_value Completed = ''completed''"
| "agent_state_value Failed = ''failed''"
| "agent_state_value Cancelled = ''cancelled''"

definition agent_states :: "agent_state list" where
  "agent_states = [Created, Admitted, Active, Waiting, Suspended, Waking, Blocked, Needs_Reconciliation, Completed, Failed, Cancelled]"

text \<open>\<open>AgentRunState(value)\<close>.\<close>

definition agent_state_of :: "json \<Rightarrow> agent_state result" where
  "agent_state_of v =
     (case find (\<lambda>s. v = JStr (agent_state_value s)) agent_states of
        None \<Rightarrow> Inl (ValueError Bad_Choice) | Some s \<Rightarrow> Inr s)"

definition is_terminal_agent_run_state :: "agent_state \<Rightarrow> bool" where
  "is_terminal_agent_run_state s \<longleftrightarrow> s \<in> {Completed, Failed, Cancelled}"

section \<open>Versioned bindings\<close>

text \<open>\<open>_VersionedBinding\<close> and its five subclasses, which differ in the namespace of their digest.\<close>

datatype binding_kind = Goal_Binding | Budget_Binding | Semantic_Binding | Plan_Binding | World_Binding

fun binding_namespace :: "binding_kind \<Rightarrow> string" where
  "binding_namespace Goal_Binding = ''macr.agent.goal-binding.v1''"
| "binding_namespace Budget_Binding = ''macr.agent.budget-binding.v1''"
| "binding_namespace Semantic_Binding = ''macr.agent.semantic-state-binding.v1''"
| "binding_namespace Plan_Binding = ''macr.agent.plan-binding.v1''"
| "binding_namespace World_Binding = ''macr.agent.world-binding.v1''"

record versioned_binding =
  vb_ref :: string
  vb_digest :: string
  vb_revision :: int

definition binding_identity :: "versioned_binding \<Rightarrow> (string \<times> json) list" where
  "binding_identity b = [(''ref'', JStr (vb_ref b)), (''digest'', JStr (vb_digest b)), (''revision'', JInt (vb_revision b))]"

definition binding_digest :: "(string \<Rightarrow> string) \<Rightarrow> binding_kind \<Rightarrow> versioned_binding \<Rightarrow> string" where
  "binding_digest h k b = canonical_record_digest h (binding_namespace k) (JObj (binding_identity b))"

definition binding_create :: "json \<Rightarrow> json \<Rightarrow> json \<Rightarrow> versioned_binding result" where
  "binding_create ref digest revision =
     ebind (require_non_empty 512 ref) (\<lambda>ref.
     ebind (require_sha256 digest) (\<lambda>digest.
     ebind (require_positive_int revision) (\<lambda>revision.
       Inr \<lparr>vb_ref = ref, vb_digest = digest, vb_revision = revision\<rparr>)))"

definition binding_to_dict :: "(string \<Rightarrow> string) \<Rightarrow> binding_kind \<Rightarrow> versioned_binding \<Rightarrow> json" where
  "binding_to_dict h k b = JObj (binding_identity b @ [(''binding_digest'', JStr (binding_digest h k b))])"

definition binding_from_dict :: "(string \<Rightarrow> string) \<Rightarrow> binding_kind \<Rightarrow> json \<Rightarrow> versioned_binding result" where
  "binding_from_dict h k data =
     ebind (require_closed_mapping [''ref'', ''digest'', ''revision'', ''binding_digest''] data) (\<lambda>p.
     ebind (binding_create (jfield ''ref'' p) (jfield ''digest'' p) (jfield ''revision'' p)) (\<lambda>b.
     ebind (require_same_digest (binding_digest h k b) (jfield ''binding_digest'' p)) (\<lambda>_. Inr b)))"

text \<open>An optional binding in a document.\<close>

definition optional_binding_to_dict :: "(string \<Rightarrow> string) \<Rightarrow> binding_kind \<Rightarrow> versioned_binding option \<Rightarrow> json" where
  "optional_binding_to_dict h k b = (case b of None \<Rightarrow> JNull | Some b \<Rightarrow> binding_to_dict h k b)"

definition optional_binding_from_dict :: "(string \<Rightarrow> string) \<Rightarrow> binding_kind \<Rightarrow> json \<Rightarrow> versioned_binding option result" where
  "optional_binding_from_dict h k v =
     (if v = JNull then Inr None else ebind (binding_from_dict h k v) (\<lambda>b. Inr (Some b)))"

section \<open>Authority bindings\<close>

text \<open>\<open>AuthorizationReference\<close> of \<open>execution.py\<close> with the text of its scope.\<close>

record text_reference =
  tr_source_kind :: string
  tr_source_id :: string
  tr_digest :: string
  tr_revision :: int
  tr_epoch :: int
  tr_scope :: string

text \<open>\<open>_non_empty\<close> and \<open>_digest\<close> of \<open>execution.py\<close>.\<close>

definition any_non_empty :: "json \<Rightarrow> string result" where
  "any_non_empty v = (case v of JStr s \<Rightarrow> chk_non_empty s | _ \<Rightarrow> Inl (ValueError Bad_Text))"

definition lowered_digest :: "json \<Rightarrow> string result" where
  "lowered_digest v = (case v of JStr s \<Rightarrow> chk_digest (lower s) | _ \<Rightarrow> Inl (ValueError Bad_Digest))"

definition text_reference_create :: "json \<Rightarrow> json \<Rightarrow> json \<Rightarrow> json \<Rightarrow> json \<Rightarrow> json \<Rightarrow> text_reference result" where
  "text_reference_create kind sid digest revision epoch scope =
     ebind (any_non_empty kind) (\<lambda>kind.
     ebind (any_non_empty sid) (\<lambda>sid.
     ebind (lowered_digest digest) (\<lambda>digest.
     ebind (require_positive_int revision) (\<lambda>revision.
     ebind (require_non_negative_int epoch) (\<lambda>epoch.
     ebind (any_non_empty scope) (\<lambda>scope.
       Inr \<lparr>tr_source_kind = kind, tr_source_id = sid, tr_digest = digest, tr_revision = revision,
            tr_epoch = epoch, tr_scope = scope\<rparr>))))))"

definition reference_dict :: "text_reference \<Rightarrow> (string \<times> json) list" where
  "reference_dict r =
     [(''source_kind'', JStr (tr_source_kind r)), (''source_id'', JStr (tr_source_id r)), (''digest'', JStr (tr_digest r)),
      (''revision'', JInt (tr_revision r)), (''epoch'', JInt (tr_epoch r)), (''scope'', JStr (tr_scope r))]"

definition authority_binding_digest :: "(string \<Rightarrow> string) \<Rightarrow> text_reference \<Rightarrow> string" where
  "authority_binding_digest h r = canonical_record_digest h ''macr.agent.authority-binding.v1'' (JObj (reference_dict r))"

definition authority_binding_to_dict :: "(string \<Rightarrow> string) \<Rightarrow> text_reference \<Rightarrow> json" where
  "authority_binding_to_dict h r = JObj (reference_dict r @ [(''binding_digest'', JStr (authority_binding_digest h r))])"

definition authority_binding_from_dict :: "(string \<Rightarrow> string) \<Rightarrow> json \<Rightarrow> text_reference result" where
  "authority_binding_from_dict h data =
     ebind (require_closed_mapping [''source_kind'', ''source_id'', ''digest'', ''revision'', ''epoch'', ''scope'', ''binding_digest''] data) (\<lambda>p.
     ebind (text_reference_create (jfield ''source_kind'' p) (jfield ''source_id'' p) (jfield ''digest'' p)
              (jfield ''revision'' p) (jfield ''epoch'' p) (jfield ''scope'' p)) (\<lambda>r.
     ebind (require_same_digest (authority_binding_digest h r) (jfield ''binding_digest'' p)) (\<lambda>_. Inr r)))"

section \<open>Memory bindings\<close>

record memory_binding =
  mb_memory_system_id :: string
  mb_profile_id :: string
  mb_subject_ref :: string
  mb_head_ref :: "string option"
  mb_head_digest :: "string option"
  mb_access_policy_ref :: string
  mb_projection_policy_ref :: string

definition require_optional_sha256 :: "json \<Rightarrow> string option result" where
  "require_optional_sha256 v = (if v = JNull then Inr None else ebind (require_sha256 v) (\<lambda>d. Inr (Some d)))"

definition memory_create :: "json \<Rightarrow> json \<Rightarrow> json \<Rightarrow> json \<Rightarrow> json \<Rightarrow> json \<Rightarrow> json \<Rightarrow> memory_binding result" where
  "memory_create system profile subject hd_ref hd_digest access projection =
     ebind (require_non_empty 512 system) (\<lambda>system.
     ebind (require_non_empty 512 profile) (\<lambda>profile.
     ebind (require_non_empty 512 subject) (\<lambda>subject.
     ebind (require_optional_non_empty 512 hd_ref) (\<lambda>hd_ref.
     ebind (require_optional_sha256 hd_digest) (\<lambda>hd_digest.
       if (hd_ref = None) \<noteq> (hd_digest = None) then Inl (ValueError Bad_Fields)
       else
         ebind (require_non_empty 512 access) (\<lambda>access.
         ebind (require_non_empty 512 projection) (\<lambda>projection.
           Inr \<lparr>mb_memory_system_id = system, mb_profile_id = profile, mb_subject_ref = subject, mb_head_ref = hd_ref,
                mb_head_digest = hd_digest, mb_access_policy_ref = access, mb_projection_policy_ref = projection\<rparr>)))))))"

definition memory_identity :: "memory_binding \<Rightarrow> (string \<times> json) list" where
  "memory_identity m =
     [(''memory_system_id'', JStr (mb_memory_system_id m)), (''profile_id'', JStr (mb_profile_id m)),
      (''subject_ref'', JStr (mb_subject_ref m)), (''head_ref'', jstr (mb_head_ref m)), (''head_digest'', jstr (mb_head_digest m)),
      (''access_policy_ref'', JStr (mb_access_policy_ref m)), (''projection_policy_ref'', JStr (mb_projection_policy_ref m))]"

definition memory_binding_digest :: "(string \<Rightarrow> string) \<Rightarrow> memory_binding \<Rightarrow> string" where
  "memory_binding_digest h m = canonical_record_digest h ''macr.agent.memory-binding.v1'' (JObj (memory_identity m))"

definition memory_to_dict :: "(string \<Rightarrow> string) \<Rightarrow> memory_binding \<Rightarrow> json" where
  "memory_to_dict h m = JObj (memory_identity m @ [(''binding_digest'', JStr (memory_binding_digest h m))])"

definition memory_from_dict :: "(string \<Rightarrow> string) \<Rightarrow> json \<Rightarrow> memory_binding result" where
  "memory_from_dict h data =
     ebind (require_closed_mapping [''memory_system_id'', ''profile_id'', ''subject_ref'', ''head_ref'', ''head_digest'',
              ''access_policy_ref'', ''projection_policy_ref'', ''binding_digest''] data) (\<lambda>p.
     ebind (memory_create (jfield ''memory_system_id'' p) (jfield ''profile_id'' p) (jfield ''subject_ref'' p)
              (jfield ''head_ref'' p) (jfield ''head_digest'' p) (jfield ''access_policy_ref'' p)
              (jfield ''projection_policy_ref'' p)) (\<lambda>m.
     ebind (require_same_digest (memory_binding_digest h m) (jfield ''binding_digest'' p)) (\<lambda>_. Inr m)))"

section \<open>Identity and origin\<close>

record agent_identity =
  ai_run_id :: string
  ai_subject_digest :: string

definition identity_create :: "json \<Rightarrow> json \<Rightarrow> agent_identity result" where
  "identity_create run subject =
     ebind (require_uuid4 run) (\<lambda>run. ebind (require_sha256 subject) (\<lambda>subject.
       Inr \<lparr>ai_run_id = run, ai_subject_digest = subject\<rparr>))"

definition identity_to_dict :: "agent_identity \<Rightarrow> json" where
  "identity_to_dict i = JObj [(''agent_run_id'', JStr (ai_run_id i)), (''subject_digest'', JStr (ai_subject_digest i))]"

definition identity_from_dict :: "json \<Rightarrow> agent_identity result" where
  "identity_from_dict data =
     ebind (require_closed_mapping [''agent_run_id'', ''subject_digest''] data) (\<lambda>p.
       identity_create (jfield ''agent_run_id'' p) (jfield ''subject_digest'' p))"

text \<open>\<open>DispatchOrigin\<close> of \<open>execution.py\<close>.\<close>

record agent_origin =
  ao_host :: string
  ao_identifier_kind :: string
  ao_native_id :: string

definition origin_create :: "json \<Rightarrow> json \<Rightarrow> json \<Rightarrow> agent_origin result" where
  "origin_create host kind native =
     ebind (any_non_empty host) (\<lambda>host. ebind (any_non_empty kind) (\<lambda>kind. ebind (any_non_empty native) (\<lambda>native.
       Inr \<lparr>ao_host = host, ao_identifier_kind = kind, ao_native_id = native\<rparr>)))"

definition origin_dict :: "agent_origin \<Rightarrow> json" where
  "origin_dict o1 = JObj [(''host'', JStr (ao_host o1)), (''identifier_kind'', JStr (ao_identifier_kind o1)), (''native_id'', JStr (ao_native_id o1))]"

definition origin_from_dict :: "json \<Rightarrow> agent_origin result" where
  "origin_from_dict data =
     ebind (require_closed_mapping [''host'', ''identifier_kind'', ''native_id''] data) (\<lambda>p.
       origin_create (jfield ''host'' p) (jfield ''identifier_kind'' p) (jfield ''native_id'' p))"

section \<open>The header of a run\<close>

record agent_header =
  ah_identity :: agent_identity
  ah_agent_ref :: string
  ah_origin :: agent_origin
  ah_state :: agent_state
  ah_state_revision :: int
  ah_epoch :: int
  ah_goal :: versioned_binding
  ah_authority :: text_reference
  ah_budget :: versioned_binding
  ah_semantic_state :: "versioned_binding option"
  ah_active_plan :: "versioned_binding option"
  ah_world_bindings :: "versioned_binding list"
  ah_memory_bindings :: "memory_binding list"
  ah_parent_agent_run_id :: "string option"
  ah_delegation_ref :: "string option"
  ah_created_at :: int

definition canonical_bindings :: "('a \<Rightarrow> string) \<Rightarrow> 'a list \<Rightarrow> 'a list result" where
  "canonical_bindings digest values =
     (if \<not> distinct (map digest values) then Inl (ValueError Bad_Duplicates) else Inr (sort_key digest values))"

definition agent_run_subject_digest ::
  "(string \<Rightarrow> string) \<Rightarrow> string \<Rightarrow> agent_origin \<Rightarrow> versioned_binding \<Rightarrow> text_reference \<Rightarrow> versioned_binding
     \<Rightarrow> versioned_binding list \<Rightarrow> memory_binding list \<Rightarrow> string result" where
  "agent_run_subject_digest h agent_ref origin goal authority budget worlds memories =
     ebind (require_non_empty 512 (JStr agent_ref)) (\<lambda>agent_ref.
     ebind (canonical_bindings (binding_digest h World_Binding) worlds) (\<lambda>worlds.
     ebind (canonical_bindings (memory_binding_digest h) memories) (\<lambda>memories.
       Inr (canonical_record_digest h ''macr.agent.run-subject.v1''
         (JObj [(''agent_ref'', JStr agent_ref), (''origin'', origin_dict origin),
            (''goal_binding_digest'', JStr (binding_digest h Goal_Binding goal)),
            (''authority_binding_digest'', JStr (authority_binding_digest h authority)),
            (''budget_binding_digest'', JStr (binding_digest h Budget_Binding budget)),
            (''world_binding_digests'', jstrs (map (binding_digest h World_Binding) worlds)),
            (''memory_binding_digests'', jstrs (map (memory_binding_digest h) memories))])))))"

text \<open>\<open>AgentRunHeader(...)\<close>: the raw values are those of a document.\<close>

definition header_create ::
  "(string \<Rightarrow> string) \<Rightarrow> json \<Rightarrow> agent_identity \<Rightarrow> json \<Rightarrow> agent_origin \<Rightarrow> agent_state \<Rightarrow> json \<Rightarrow> json
     \<Rightarrow> versioned_binding \<Rightarrow> text_reference \<Rightarrow> versioned_binding \<Rightarrow> versioned_binding option \<Rightarrow> versioned_binding option
     \<Rightarrow> versioned_binding list \<Rightarrow> memory_binding list \<Rightarrow> json \<Rightarrow> json \<Rightarrow> json \<Rightarrow> agent_header result" where
  "header_create h schema identity agent_ref origin state revision epoch goal authority budget semantic plan worlds memories
       parent delegation created =
     (if schema \<noteq> JStr ''macr-agent-run/v1'' then Inl (ValueError Bad_Version)
      else
        ebind (require_non_empty 512 agent_ref) (\<lambda>agent_ref.
        ebind (require_positive_int revision) (\<lambda>revision.
        ebind (require_non_negative_int epoch) (\<lambda>epoch.
        ebind (canonical_bindings (binding_digest h World_Binding) worlds) (\<lambda>worlds.
        ebind (canonical_bindings (memory_binding_digest h) memories) (\<lambda>memories.
        ebind (require_optional_non_empty 512 parent) (\<lambda>parent.
        ebind (case parent of None \<Rightarrow> Inr None | Some p \<Rightarrow> ebind (chk_uuid4 p) (\<lambda>p. Inr (Some p))) (\<lambda>parent.
        ebind (require_optional_non_empty 512 delegation) (\<lambda>delegation.
          if (parent = None) \<noteq> (delegation = None) then Inl (ValueError Bad_Fields)
          else
            ebind (normalize_timestamp created) (\<lambda>created.
            ebind (agent_run_subject_digest h agent_ref origin goal authority budget worlds memories) (\<lambda>expected.
              if ai_subject_digest identity \<noteq> expected then Inl (ValueError Bad_Document)
              else Inr \<lparr>ah_identity = identity, ah_agent_ref = agent_ref, ah_origin = origin, ah_state = state,
                        ah_state_revision = revision, ah_epoch = epoch, ah_goal = goal, ah_authority = authority,
                        ah_budget = budget, ah_semantic_state = semantic, ah_active_plan = plan, ah_world_bindings = worlds,
                        ah_memory_bindings = memories, ah_parent_agent_run_id = parent, ah_delegation_ref = delegation,
                        ah_created_at = created\<rparr>)))))))))))"

definition header_to_dict :: "(string \<Rightarrow> string) \<Rightarrow> agent_header \<Rightarrow> json" where
  "header_to_dict h a =
     JObj [(''schema_version'', JStr ''macr-agent-run/v1''), (''identity'', identity_to_dict (ah_identity a)),
       (''agent_ref'', JStr (ah_agent_ref a)), (''origin'', origin_dict (ah_origin a)),
       (''state'', JStr (agent_state_value (ah_state a))), (''state_revision'', JInt (ah_state_revision a)),
       (''epoch'', JInt (ah_epoch a)), (''goal'', binding_to_dict h Goal_Binding (ah_goal a)),
       (''authority'', authority_binding_to_dict h (ah_authority a)),
       (''budget'', binding_to_dict h Budget_Binding (ah_budget a)),
       (''semantic_state'', optional_binding_to_dict h Semantic_Binding (ah_semantic_state a)),
       (''active_plan'', optional_binding_to_dict h Plan_Binding (ah_active_plan a)),
       (''world_bindings'', JList (map (binding_to_dict h World_Binding) (ah_world_bindings a))),
       (''memory_bindings'', JList (map (memory_to_dict h) (ah_memory_bindings a))),
       (''parent_agent_run_id'', jstr (ah_parent_agent_run_id a)), (''delegation_ref'', jstr (ah_delegation_ref a)),
       (''created_at'', JStr (isoformat (ah_created_at a)))]"

definition header_keys :: "string list" where
  "header_keys = [''schema_version'', ''identity'', ''agent_ref'', ''origin'', ''state'', ''state_revision'', ''epoch'', ''goal'',
     ''authority'', ''budget'', ''semantic_state'', ''active_plan'', ''world_bindings'', ''memory_bindings'',
     ''parent_agent_run_id'', ''delegation_ref'', ''created_at'']"

definition json_array :: "json \<Rightarrow> json list result" where
  "json_array v = (case v of JList xs \<Rightarrow> Inr xs | _ \<Rightarrow> Inl (ValueError Bad_Array))"

definition header_from_dict :: "(string \<Rightarrow> string) \<Rightarrow> json \<Rightarrow> agent_header result" where
  "header_from_dict h data =
     ebind (require_closed_mapping header_keys data) (\<lambda>p.
     ebind (json_array (jfield ''world_bindings'' p)) (\<lambda>worlds.
     ebind (json_array (jfield ''memory_bindings'' p)) (\<lambda>memories.
     ebind (identity_from_dict (jfield ''identity'' p)) (\<lambda>identity.
     ebind (origin_from_dict (jfield ''origin'' p)) (\<lambda>origin.
     ebind (agent_state_of (jfield ''state'' p)) (\<lambda>state.
     ebind (binding_from_dict h Goal_Binding (jfield ''goal'' p)) (\<lambda>goal.
     ebind (authority_binding_from_dict h (jfield ''authority'' p)) (\<lambda>authority.
     ebind (binding_from_dict h Budget_Binding (jfield ''budget'' p)) (\<lambda>budget.
     ebind (optional_binding_from_dict h Semantic_Binding (jfield ''semantic_state'' p)) (\<lambda>semantic.
     ebind (optional_binding_from_dict h Plan_Binding (jfield ''active_plan'' p)) (\<lambda>plan.
     ebind (emap (binding_from_dict h World_Binding) worlds) (\<lambda>worlds.
     ebind (emap (memory_from_dict h) memories) (\<lambda>memories.
       header_create h (jfield ''schema_version'' p) identity (jfield ''agent_ref'' p) origin state
         (jfield ''state_revision'' p) (jfield ''epoch'' p) goal authority budget semantic plan worlds memories
         (jfield ''parent_agent_run_id'' p) (jfield ''delegation_ref'' p) (jfield ''created_at'' p))))))))))))))"

end
