(* ===== verification/AgentEvents.thy ===== *)
theory AgentEvents
  imports AgentContracts
begin

text \<open>
  The event-sourced state of an agent run: the projection of \<open>src/src/macr_runtime/agent/state.py\<close>, the
  life cycle of \<open>agent/lifecycle.py\<close>, and the events of \<open>agent/events.py\<close> with their payload checks and the replay
  of an event chain. The payload of an event is kept in canonical form.
\<close>

section \<open>Life cycle\<close>

fun phase_b_transitions :: "agent_state \<Rightarrow> agent_state list" where
  "phase_b_transitions Created = [Admitted, Cancelled]"
| "phase_b_transitions Admitted = [Active, Failed, Cancelled]"
| "phase_b_transitions Active = [Blocked, Completed, Failed, Cancelled]"
| "phase_b_transitions Blocked = [Active, Failed, Cancelled]"
| "phase_b_transitions _ = []"

definition require_phase_b_transition :: "agent_state \<Rightarrow> agent_state \<Rightarrow> agent_state result" where
  "require_phase_b_transition source target =
     (if target \<in> set (phase_b_transitions source) then Inr target else Inl (AgentError Illegal_Transition))"

section \<open>Projection\<close>

record agent_projection =
  ap_initial_header :: agent_header
  ap_state :: agent_state
  ap_state_revision :: int
  ap_epoch :: int
  ap_updated_at :: int

definition ap_run_id :: "agent_projection \<Rightarrow> string" where
  "ap_run_id p = ai_run_id (ah_identity (ap_initial_header p))"

definition ap_subject_digest :: "agent_projection \<Rightarrow> string" where
  "ap_subject_digest p = ai_subject_digest (ah_identity (ap_initial_header p))"

definition require_creation_header :: "agent_header \<Rightarrow> agent_header result" where
  "require_creation_header a =
     (if ah_state a \<noteq> Created \<or> ah_state_revision a \<noteq> 1 \<or> ah_epoch a \<noteq> 0 then Inl (ValueError Bad_Document) else Inr a)"

definition projection_create :: "agent_header \<Rightarrow> agent_state \<Rightarrow> json \<Rightarrow> json \<Rightarrow> json \<Rightarrow> agent_projection result" where
  "projection_create header state revision epoch updated_at =
     ebind (require_creation_header header) (\<lambda>header.
     ebind (require_positive_int revision) (\<lambda>revision.
     ebind (require_non_negative_int epoch) (\<lambda>epoch.
     ebind (normalize_timestamp updated_at) (\<lambda>updated_at.
       Inr \<lparr>ap_initial_header = header, ap_state = state, ap_state_revision = revision, ap_epoch = epoch,
            ap_updated_at = updated_at\<rparr>))))"

text \<open>\<open>from_creation_header\<close>, whose default time is that of the header.\<close>

definition from_creation_header :: "agent_header \<Rightarrow> json \<Rightarrow> agent_projection result" where
  "from_creation_header header updated_at =
     ebind (require_creation_header header) (\<lambda>initial. projection_create initial Created (JInt 1) (JInt 0) updated_at)"

definition projection_identity :: "(string \<Rightarrow> string) \<Rightarrow> agent_projection \<Rightarrow> (string \<times> json) list" where
  "projection_identity h p =
     [(''schema_version'', JStr ''macr-agent-projection/v1''), (''agent_run_id'', JStr (ap_run_id p)),
      (''subject_digest'', JStr (ap_subject_digest p)), (''initial_header'', header_to_dict h (ap_initial_header p)),
      (''state'', JStr (agent_state_value (ap_state p))), (''state_revision'', JInt (ap_state_revision p)),
      (''epoch'', JInt (ap_epoch p))]"

definition state_digest :: "(string \<Rightarrow> string) \<Rightarrow> agent_projection \<Rightarrow> string" where
  "state_digest h p = canonical_record_digest h ''macr.agent.projection.v1'' (JObj (projection_identity h p))"

definition projection_to_dict :: "(string \<Rightarrow> string) \<Rightarrow> agent_projection \<Rightarrow> json" where
  "projection_to_dict h p =
     JObj (projection_identity h p @ [(''updated_at'', JStr (isoformat (ap_updated_at p))), (''state_digest'', JStr (state_digest h p))])"

definition projection_from_dict :: "(string \<Rightarrow> string) \<Rightarrow> json \<Rightarrow> agent_projection result" where
  "projection_from_dict h data =
     ebind (require_closed_mapping [''schema_version'', ''agent_run_id'', ''subject_digest'', ''initial_header'', ''state'',
              ''state_revision'', ''epoch'', ''updated_at'', ''state_digest''] data) (\<lambda>p.
       if jfield ''schema_version'' p \<noteq> JStr ''macr-agent-projection/v1'' then Inl (ValueError Bad_Version)
       else
         ebind (header_from_dict h (jfield ''initial_header'' p)) (\<lambda>header.
           if jfield ''agent_run_id'' p \<noteq> JStr (ai_run_id (ah_identity header)) then Inl (ValueError Bad_Document)
           else
             ebind (require_same_digest (ai_subject_digest (ah_identity header)) (jfield ''subject_digest'' p)) (\<lambda>_.
             ebind (agent_state_of (jfield ''state'' p)) (\<lambda>state.
             ebind (projection_create header state (jfield ''state_revision'' p) (jfield ''epoch'' p) (jfield ''updated_at'' p)) (\<lambda>r.
             ebind (require_same_digest (state_digest h r) (jfield ''state_digest'' p)) (\<lambda>_. Inr r))))))"

section \<open>Event types\<close>

datatype agent_event_type =
  Run_Created | Run_Admitted | Owner_Acquired | Run_Activated | Run_Blocked | Run_Completed | Run_Failed | Run_Cancelled
| Semantic_State_Advanced

fun event_type_value :: "agent_event_type \<Rightarrow> string" where
  "event_type_value Run_Created = ''agent.run_created''"
| "event_type_value Run_Admitted = ''agent.run_admitted''"
| "event_type_value Owner_Acquired = ''agent.owner_acquired''"
| "event_type_value Run_Activated = ''agent.run_activated''"
| "event_type_value Run_Blocked = ''agent.blocked''"
| "event_type_value Run_Completed = ''agent.completed''"
| "event_type_value Run_Failed = ''agent.failed''"
| "event_type_value Run_Cancelled = ''agent.cancelled''"
| "event_type_value Semantic_State_Advanced = ''agent.semantic_state_advanced''"

definition event_types :: "agent_event_type list" where
  "event_types = [Run_Created, Run_Admitted, Owner_Acquired, Run_Activated, Run_Blocked, Run_Completed, Run_Failed, Run_Cancelled,
     Semantic_State_Advanced]"

definition event_type_of :: "json \<Rightarrow> agent_event_type result" where
  "event_type_of v =
     (case find (\<lambda>t. v = JStr (event_type_value t)) event_types of
        None \<Rightarrow> Inl (ValueError Bad_Choice) | Some t \<Rightarrow> Inr t)"

fun payload_fields :: "agent_event_type \<Rightarrow> string list" where
  "payload_fields Run_Created = [''initial_header'']"
| "payload_fields Owner_Acquired = [''owner_id'', ''lease_id'', ''fencing_token'', ''expires_at'']"
| "payload_fields Run_Completed = [''evidence_ref'', ''evidence_digest'']"
| "payload_fields Semantic_State_Advanced = [''operation_kind'', ''operation_id'', ''previous_binding'', ''new_binding'',
     ''proposal_digest'', ''patch_digest'', ''registry_digest'', ''authorization_digest'']"
| "payload_fields _ = [''reason_code'', ''reason_digest'']"

text \<open>\<open>_TARGET_STATE\<close>, for the types that have one.\<close>

fun target_state :: "agent_event_type \<Rightarrow> agent_state option" where
  "target_state Run_Admitted = Some Admitted"
| "target_state Run_Activated = Some Active"
| "target_state Run_Blocked = Some Blocked"
| "target_state Run_Completed = Some Completed"
| "target_state Run_Failed = Some Failed"
| "target_state Run_Cancelled = Some Cancelled"
| "target_state _ = None"

section \<open>Content-free payloads\<close>

text \<open>The regular expressions as searches over the text: \<open>\<dots>_at\<close> is a match at the start of its
  argument, the Boolean of a search says whether the character before is one that forbids a match. Case is ignored on
  ASCII letters. \<open>PureWindowsPath(text).drive\<close> (Python 3.12) is not empty iff the text starts with two
  slashes or has a colon as its second character.\<close>

definition is_upper :: "char \<Rightarrow> bool" where
  "is_upper c \<longleftrightarrow> 65 \<le> byte c \<and> byte c \<le> 90"

definition is_lower_letter :: "char \<Rightarrow> bool" where
  "is_lower_letter c \<longleftrightarrow> 97 \<le> byte c \<and> byte c \<le> 122"

definition is_slash :: "char \<Rightarrow> bool" where
  "is_slash c \<longleftrightarrow> byte c = 47 \<or> byte c = 92"

definition is_word :: "char \<Rightarrow> bool" where
  "is_word c \<longleftrightarrow> is_alnum c \<or> byte c = 95 \<or> 128 \<le> byte c"

fun sub_acronyms :: "string \<Rightarrow> string" where
  "sub_acronyms (a # b # c # s) =
     (if is_upper a \<and> is_upper b \<and> is_lower_letter c then a # CHR ''_'' # sub_acronyms (b # c # s)
      else a # sub_acronyms (b # c # s))"
| "sub_acronyms s = s"

fun sub_words :: "bool \<Rightarrow> string \<Rightarrow> string" where
  "sub_words prev [] = []"
| "sub_words prev (c # s) =
     (if prev \<and> is_upper c then [CHR ''_''] else []) @ c # sub_words (is_lower_letter c \<or> is_digit c) s"

definition normalize_key :: "string \<Rightarrow> string" where
  "normalize_key k =
     map (\<lambda>c. if byte c = 45 then CHR ''_'' else c) (lower (sub_words False (sub_acronyms (strip k))))"

definition forbidden_keys :: "string list" where
  "forbidden_keys = [''answer'', ''api_key'', ''authorization_header'', ''bearer_token'', ''body'', ''content'', ''credential'',
     ''path'', ''paths'', ''private_key'', ''prompt'', ''raw_response'']"

definition ends_with :: "string \<Rightarrow> string \<Rightarrow> bool" where
  "ends_with t s \<longleftrightarrow> drop (length s - length t) s = t"

definition forbidden_key :: "string \<Rightarrow> bool" where
  "forbidden_key k \<longleftrightarrow>
     (let n = normalize_key k in
      n \<in> set forbidden_keys \<or> list_ex (\<lambda>t. ends_with t n) [''_body'', ''_content'', ''_path'', ''_paths''])"

definition has_drive :: "string \<Rightarrow> bool" where
  "has_drive s \<longleftrightarrow> (case s of a # b # _ \<Rightarrow> byte b = 58 \<or> is_slash a \<and> is_slash b | _ \<Rightarrow> False)"

definition local_path_at :: "string \<Rightarrow> bool" where
  "local_path_at s \<longleftrightarrow>
     (case s of
        a # b # r \<Rightarrow>
          (is_upper a \<or> is_lower_letter a) \<and> byte b = 58 \<and> r \<noteq> [] \<and> is_slash (hd r)
          \<or> byte a = 92 \<and> byte b = 92
             \<and> (let seg = takeWhile (\<lambda>c. \<not> is_slash c \<and> \<not> is_space c) r; rest = drop (length seg) r in
                seg \<noteq> [] \<and> rest \<noteq> [] \<and> is_slash (hd rest))
      | _ \<Rightarrow> False)"

fun finds_local_path :: "bool \<Rightarrow> string \<Rightarrow> bool" where
  "finds_local_path prev [] = False"
| "finds_local_path prev (c # s) = (\<not> prev \<and> local_path_at (c # s) \<or> finds_local_path (is_alnum c) s)"

definition contains_local_path :: "string \<Rightarrow> bool" where
  "contains_local_path s \<longleftrightarrow> has_drive (strip s) \<or> finds_local_path False s"

definition starts_lower :: "string \<Rightarrow> string \<Rightarrow> bool" where
  "starts_lower p s \<longleftrightarrow> lower (take (length p) s) = p"

definition token_key_at :: "string \<Rightarrow> string \<Rightarrow> bool" where
  "token_key_at p s \<longleftrightarrow>
     starts_lower p s \<and> 8 \<le> length (takeWhile (\<lambda>c. is_alnum c \<or> byte c = 95 \<or> byte c = 45) (drop (length p) s))"

definition private_key_at :: "string \<Rightarrow> bool" where
  "private_key_at s \<longleftrightarrow>
     (let r1 = drop 10 s; s1 = dropWhile is_space r1; r2 = drop 7 s1; s2 = dropWhile is_space r2 in
      starts_lower ''-----begin'' s \<and> s1 \<noteq> r1 \<and> starts_lower ''private'' s1 \<and> s2 \<noteq> r2 \<and> starts_lower ''key-----'' s2)"

fun finds_credential :: "bool \<Rightarrow> string \<Rightarrow> bool" where
  "finds_credential prev [] = False"
| "finds_credential prev (c # s) =
     (\<not> prev \<and> (token_key_at ''sk-'' (c # s) \<or> token_key_at ''xai-'' (c # s)) \<or> private_key_at (c # s)
      \<or> finds_credential (is_word c) s)"

definition clean_text :: "string \<Rightarrow> bool" where
  "clean_text s \<longleftrightarrow> \<not> contains_local_path s \<and> \<not> finds_credential False s"

fun validate_content_free :: "json \<Rightarrow> unit result"
  and content_free_items :: "json list \<Rightarrow> unit result"
  and content_free_members :: "(string \<times> json) list \<Rightarrow> unit result" where
  "validate_content_free (JObj kvs) = content_free_members kvs"
| "validate_content_free (JList xs) = content_free_items xs"
| "validate_content_free (JStr s) = (if clean_text s then Inr () else Inl (ValueError Bad_Content))"
| "validate_content_free _ = Inr ()"
| "content_free_items [] = Inr ()"
| "content_free_items (x # xs) = ebind (validate_content_free x) (\<lambda>_. content_free_items xs)"
| "content_free_members [] = Inr ()"
| "content_free_members ((k, x) # kvs) =
     (if forbidden_key k then Inl (ValueError Bad_Content)
      else ebind (validate_content_free x) (\<lambda>_. content_free_members kvs))"

section \<open>Payloads\<close>

definition reason_payload :: "(string \<times> json) list \<Rightarrow> json result" where
  "reason_payload data =
     ebind (require_non_empty 128 (jfield ''reason_code'' data)) (\<lambda>code.
     ebind (require_sha256 (jfield ''reason_digest'' data)) (\<lambda>digest.
       Inr (JObj [(''reason_code'', JStr code), (''reason_digest'', JStr digest)])))"

definition owner_payload :: "(string \<times> json) list \<Rightarrow> json result" where
  "owner_payload data =
     ebind (require_non_empty 256 (jfield ''owner_id'' data)) (\<lambda>owner.
     ebind (require_uuid4 (jfield ''lease_id'' data)) (\<lambda>lease.
     ebind (require_positive_int (jfield ''fencing_token'' data)) (\<lambda>token.
     ebind (normalize_timestamp (jfield ''expires_at'' data)) (\<lambda>expires.
       Inr (JObj [(''owner_id'', JStr owner), (''lease_id'', JStr lease), (''fencing_token'', JInt token),
              (''expires_at'', JStr (isoformat expires))])))))"

definition completed_payload :: "(string \<times> json) list \<Rightarrow> json result" where
  "completed_payload data =
     ebind (require_non_empty 512 (jfield ''evidence_ref'' data)) (\<lambda>ref.
     ebind (require_sha256 (jfield ''evidence_digest'' data)) (\<lambda>digest.
       Inr (JObj [(''evidence_ref'', JStr ref), (''evidence_digest'', JStr digest)])))"

definition semantic_payload :: "(string \<Rightarrow> string) \<Rightarrow> (string \<times> json) list \<Rightarrow> json result" where
  "semantic_payload h data =
     ebind (require_non_empty 32 (jfield ''operation_kind'' data)) (\<lambda>kind.
       if kind \<noteq> ''attach'' \<and> kind \<noteq> ''commit'' then Inl (ValueError Bad_Choice)
       else
         ebind (optional_binding_from_dict h Semantic_Binding (jfield ''previous_binding'' data)) (\<lambda>previous.
         ebind (binding_from_dict h Semantic_Binding (jfield ''new_binding'' data)) (\<lambda>new_binding.
         ebind (require_optional_sha256 (jfield ''proposal_digest'' data)) (\<lambda>proposal.
         ebind (require_optional_sha256 (jfield ''patch_digest'' data)) (\<lambda>patch.
           if kind = ''attach'' \<and> (proposal \<noteq> None \<or> patch \<noteq> None) then Inl (ValueError Bad_Fields)
           else if kind = ''commit'' \<and> (proposal = None \<or> patch = None) then Inl (ValueError Bad_Fields)
           else
             ebind (require_uuid4 (jfield ''operation_id'' data)) (\<lambda>operation.
             ebind (require_sha256 (jfield ''registry_digest'' data)) (\<lambda>registry.
             ebind (require_sha256 (jfield ''authorization_digest'' data)) (\<lambda>authorization.
               Inr (JObj [(''operation_kind'', JStr kind), (''operation_id'', JStr operation),
                 (''previous_binding'', optional_binding_to_dict h Semantic_Binding previous),
                 (''new_binding'', binding_to_dict h Semantic_Binding new_binding),
                 (''proposal_digest'', jstr proposal), (''patch_digest'', jstr patch), (''registry_digest'', JStr registry),
                 (''authorization_digest'', JStr authorization)])))))))))"

definition created_payload :: "(string \<Rightarrow> string) \<Rightarrow> (string \<times> json) list \<Rightarrow> json result" where
  "created_payload h data =
     ebind (header_from_dict h (jfield ''initial_header'' data)) (\<lambda>header.
     ebind (from_creation_header header (JStr (isoformat (ah_created_at header)))) (\<lambda>_.
       Inr (JObj [(''initial_header'', header_to_dict h header)])))"

definition typed_payload :: "(string \<Rightarrow> string) \<Rightarrow> agent_event_type \<Rightarrow> (string \<times> json) list \<Rightarrow> json result" where
  "typed_payload h t data =
     (case t of
        Run_Created \<Rightarrow> created_payload h data
      | Owner_Acquired \<Rightarrow> owner_payload data
      | Run_Completed \<Rightarrow> completed_payload data
      | Semantic_State_Advanced \<Rightarrow> semantic_payload h data
      | _ \<Rightarrow> reason_payload data)"

definition validated_payload :: "(string \<Rightarrow> string) \<Rightarrow> agent_event_type \<Rightarrow> json \<Rightarrow> json result" where
  "validated_payload h t payload =
     (case payload of
        JObj data \<Rightarrow>
          if set (map fst data) \<noteq> set (payload_fields t) then Inl (ValueError Bad_Fields)
          else
            ebind (typed_payload h t data) (\<lambda>normalized.
            ebind (validate_content_free normalized) (\<lambda>_.
            ebind (validate_json normalized) (\<lambda>_. Inr (json_norm normalized))))
      | _ \<Rightarrow> Inl (ValueError Bad_Json))"

end
