(* ===== verification/AgentReplay.thy ===== *)
theory AgentReplay
  imports AgentEvents
begin

text \<open>
  The events of \<open>src/src/macr_runtime/agent/events.py\<close>: their construction, their documents, and how a chain
  of events is replayed into the projection and the semantic binding of a run.
\<close>

section \<open>Events\<close>

record agent_event =
  ae_event_id :: string
  ae_run_id :: string
  ae_epoch :: int
  ae_before_revision :: int
  ae_after_revision :: int
  ae_event_type :: agent_event_type
  ae_payload :: json
  ae_state_digest_after :: string
  ae_created_at :: int

definition payload_digest :: "(string \<Rightarrow> string) \<Rightarrow> agent_event \<Rightarrow> string" where
  "payload_digest h v =
     canonical_record_digest h ''macr.agent.event-payload.v1''
       (JObj [(''event_type'', JStr (event_type_value (ae_event_type v))), (''payload'', ae_payload v)])"

definition payload_field :: "string \<Rightarrow> agent_event \<Rightarrow> json" where
  "payload_field k v = (case ae_payload v of JObj kvs \<Rightarrow> jfield k kvs | _ \<Rightarrow> JNull)"

definition event_header :: "(string \<Rightarrow> string) \<Rightarrow> agent_event \<Rightarrow> agent_header result" where
  "event_header h v = header_from_dict h (payload_field ''initial_header'' v)"

text \<open>The checks of \<open>__post_init__\<close> that compare the payload with the time of the event.\<close>

definition event_times :: "(string \<Rightarrow> string) \<Rightarrow> agent_event \<Rightarrow> unit result" where
  "event_times h v =
     (case ae_event_type v of
        Run_Created \<Rightarrow>
          ebind (event_header h v) (\<lambda>a.
            if ae_created_at v \<noteq> ah_created_at a then Inl (ValueError Bad_Timestamp) else Inr ())
      | Owner_Acquired \<Rightarrow>
          ebind (normalize_timestamp (payload_field ''expires_at'' v)) (\<lambda>expiry.
            if expiry \<le> ae_created_at v then Inl (ValueError Bad_Timestamp) else Inr ())
      | _ \<Rightarrow> Inr ())"

definition event_create ::
  "(string \<Rightarrow> string) \<Rightarrow> json \<Rightarrow> json \<Rightarrow> json \<Rightarrow> json \<Rightarrow> json \<Rightarrow> agent_event_type \<Rightarrow> json \<Rightarrow> json \<Rightarrow> json \<Rightarrow> agent_event result" where
  "event_create h event_id run_id epoch before after t payload digest created =
     ebind (require_uuid4 event_id) (\<lambda>event_id.
     ebind (require_uuid4 run_id) (\<lambda>run_id.
     ebind (require_non_negative_int epoch) (\<lambda>epoch.
     ebind (require_non_negative_int before) (\<lambda>before.
     ebind (require_positive_int after) (\<lambda>after.
       if after \<noteq> before + 1 then Inl (ValueError Bad_Order)
       else
         ebind (validated_payload h t payload) (\<lambda>payload.
         ebind (require_sha256 digest) (\<lambda>digest.
         ebind (normalize_timestamp created) (\<lambda>created.
           let v = \<lparr>ae_event_id = event_id, ae_run_id = run_id, ae_epoch = epoch, ae_before_revision = before,
                    ae_after_revision = after, ae_event_type = t, ae_payload = payload, ae_state_digest_after = digest,
                    ae_created_at = created\<rparr>
           in ebind (event_times h v) (\<lambda>_. Inr v)))))))))"

definition event_to_dict :: "(string \<Rightarrow> string) \<Rightarrow> agent_event \<Rightarrow> json" where
  "event_to_dict h v =
     JObj [(''schema_version'', JStr ''macr-agent-event/v1''), (''event_id'', JStr (ae_event_id v)), (''agent_run_id'', JStr (ae_run_id v)),
       (''epoch'', JInt (ae_epoch v)), (''before_revision'', JInt (ae_before_revision v)), (''after_revision'', JInt (ae_after_revision v)),
       (''event_type'', JStr (event_type_value (ae_event_type v))), (''payload'', ae_payload v),
       (''payload_digest'', JStr (payload_digest h v)), (''state_digest_after'', JStr (ae_state_digest_after v)),
       (''created_at'', JStr (isoformat (ae_created_at v)))]"

definition event_from_dict :: "(string \<Rightarrow> string) \<Rightarrow> json \<Rightarrow> agent_event result" where
  "event_from_dict h data =
     ebind (require_closed_mapping [''schema_version'', ''event_id'', ''agent_run_id'', ''epoch'', ''before_revision'', ''after_revision'',
              ''event_type'', ''payload'', ''payload_digest'', ''state_digest_after'', ''created_at''] data) (\<lambda>p.
       if jfield ''schema_version'' p \<noteq> JStr ''macr-agent-event/v1'' then Inl (ValueError Bad_Version)
       else
         ebind (event_type_of (jfield ''event_type'' p)) (\<lambda>t.
         ebind (event_create h (jfield ''event_id'' p) (jfield ''agent_run_id'' p) (jfield ''epoch'' p) (jfield ''before_revision'' p)
                  (jfield ''after_revision'' p) t (jfield ''payload'' p) (jfield ''state_digest_after'' p) (jfield ''created_at'' p)) (\<lambda>v.
         ebind (require_same_digest (payload_digest h v) (jfield ''payload_digest'' p)) (\<lambda>_. Inr v))))"

section \<open>Replay\<close>

text \<open>What an event makes of the state of a run that has one; and of none.\<close>

definition next_state :: "agent_projection \<Rightarrow> agent_event \<Rightarrow> agent_state result" where
  "next_state p v =
     (case ae_event_type v of
        Owner_Acquired \<Rightarrow>
          if ap_state p \<notin> {Admitted, Active, Blocked} then Inl (AgentError Event_Integrity)
          else if ae_epoch v \<noteq> ap_epoch p + 1 then Inl (AgentError Event_Integrity)
          else Inr (ap_state p)
      | Semantic_State_Advanced \<Rightarrow>
          if ae_epoch v \<noteq> ap_epoch p then Inl (AgentError Event_Integrity) else Inr (ap_state p)
      | _ \<Rightarrow>
          if ae_epoch v \<noteq> ap_epoch p then Inl (AgentError Event_Integrity)
          else
            (case target_state (ae_event_type v) of
               None \<Rightarrow> Inl (AgentError Event_Integrity)
             | Some t \<Rightarrow>
                 (case require_phase_b_transition (ap_state p) t of
                    Inl _ \<Rightarrow> Inl (AgentError Event_Integrity) | Inr t \<Rightarrow> Inr t)))"

definition first_projection :: "(string \<Rightarrow> string) \<Rightarrow> agent_event \<Rightarrow> agent_projection result" where
  "first_projection h v =
     (if ae_event_type v \<noteq> Run_Created \<or> ae_before_revision v \<noteq> 0 \<or> ae_after_revision v \<noteq> 1 \<or> ae_epoch v \<noteq> 0
      then Inl (AgentError Event_Integrity)
      else ebind (event_header h v) (\<lambda>a. from_creation_header a (JStr (isoformat (ae_created_at v)))))"

definition next_projection :: "agent_projection \<Rightarrow> agent_event \<Rightarrow> agent_projection result" where
  "next_projection p v =
     (if ae_event_type v = Run_Created then Inl (AgentError Event_Integrity)
      else if ae_run_id v \<noteq> ap_run_id p then Inl (AgentError Event_Integrity)
      else if ae_before_revision v \<noteq> ap_state_revision p \<or> ae_after_revision v \<noteq> ap_state_revision p + 1
      then Inl (AgentError Event_Integrity)
      else
        ebind (next_state p v) (\<lambda>s.
          projection_create (ap_initial_header p) s (JInt (ae_after_revision v)) (JInt (ae_epoch v))
            (JStr (isoformat (ae_created_at v)))))"

definition apply_agent_event :: "(string \<Rightarrow> string) \<Rightarrow> agent_projection option \<Rightarrow> agent_event \<Rightarrow> agent_projection result" where
  "apply_agent_event h current v =
     ebind (case current of None \<Rightarrow> first_projection h v | Some p \<Rightarrow> next_projection p v) (\<lambda>p.
       if ap_run_id p \<noteq> ae_run_id v then Inl (AgentError Event_Integrity)
       else if state_digest h p \<noteq> ae_state_digest_after v then Inl (AgentError Event_Integrity)
       else Inr p)"

fun replay_from :: "(string \<Rightarrow> string) \<Rightarrow> string list \<Rightarrow> agent_projection option \<Rightarrow> agent_event list \<Rightarrow> agent_projection result" where
  "replay_from h ids current [] = (case current of None \<Rightarrow> Inl (AgentError Event_Integrity) | Some p \<Rightarrow> Inr p)"
| "replay_from h ids current (v # vs) =
     (if ae_event_id v \<in> set ids then Inl (AgentError Event_Integrity)
      else ebind (apply_agent_event h current v) (\<lambda>p. replay_from h (ae_event_id v # ids) (Some p) vs))"

definition replay_agent_events :: "(string \<Rightarrow> string) \<Rightarrow> agent_event list \<Rightarrow> agent_projection result" where
  "replay_agent_events h vs = replay_from h [] None vs"

fun replay_semantic_binding ::
  "(string \<Rightarrow> string) \<Rightarrow> versioned_binding option \<Rightarrow> agent_event list \<Rightarrow> versioned_binding option result" where
  "replay_semantic_binding h current [] = Inr current"
| "replay_semantic_binding h current (v # vs) =
     (if ae_event_type v \<noteq> Semantic_State_Advanced then replay_semantic_binding h current vs
      else
        ebind (optional_binding_from_dict h Semantic_Binding (payload_field ''previous_binding'' v)) (\<lambda>previous.
          if previous \<noteq> current then Inl (AgentError Event_Integrity)
          else
            ebind (binding_from_dict h Semantic_Binding (payload_field ''new_binding'' v)) (\<lambda>b.
              replay_semantic_binding h (Some b) vs)))"

end
