(* ===== verification/AgentStore.thy ===== *)
theory AgentStore
  imports AgentReplay
begin

text \<open>
  \<open>src/src/macr_runtime/agent/store.py\<close> over the tables of \<open>agent/database.py\<close>: the event log of all runs,
  their projections with the index tables of their bindings, and the ownership leases. Opening the file,
  the schema and the fault injector of the tests are left out. A column that holds a timestamp holds the
  instant, a column that holds JSON text the document.
\<close>

section \<open>Tables\<close>

record event_row =
  er_sequence :: int
  er_event_id :: string
  er_run_id :: string
  er_epoch :: int
  er_before_revision :: int
  er_after_revision :: int
  er_event_type :: agent_event_type
  er_payload_json :: json
  er_payload_digest :: string
  er_state_digest_after :: string
  er_created_at :: int

record run_state_row =
  rs_run_id :: string
  rs_subject_digest :: string
  rs_agent_ref :: string
  rs_initial_header_json :: json
  rs_state :: agent_state
  rs_state_revision :: int
  rs_epoch :: int
  rs_goal_ref :: string
  rs_authority_ref :: string
  rs_budget_ref :: string
  rs_semantic_state_ref :: "string option"
  rs_semantic_state_digest :: "string option"
  rs_semantic_state_revision :: "int option"
  rs_active_plan_ref :: "string option"
  rs_parent_agent_run_id :: "string option"
  rs_delegation_ref :: "string option"
  rs_state_digest :: string
  rs_created_at :: int
  rs_updated_at :: int

text \<open>A row of \<open>agent_goals\<close>, \<open>agent_world_bindings\<close> or \<open>agent_plan_bindings\<close>, and of
  \<open>agent_memory_bindings\<close>: the run, the binding and its digest.\<close>

record binding_row =
  bi_run_id :: string
  bi_binding :: versioned_binding
  bi_binding_digest :: string

record memory_row =
  my_run_id :: string
  my_binding :: memory_binding
  my_binding_digest :: string

record child_row =
  ch_parent_run_id :: string
  ch_child_run_id :: string
  ch_delegation_ref :: string

record ownership_row =
  ow_run_id :: string
  ow_owner_id :: string
  ow_lease_id :: string
  ow_fencing_token :: int
  ow_epoch :: int
  ow_acquired_at :: int
  ow_expires_at :: int

record agent_db =
  ag_runs :: "run_state_row list"
  ag_events :: "event_row list"
  ag_goals :: "binding_row list"
  ag_worlds :: "binding_row list"
  ag_memories :: "memory_row list"
  ag_plans :: "binding_row list"
  ag_children :: "child_row list"
  ag_ownership :: "ownership_row list"
  ag_fencing_counter :: int

definition initial_agent_db :: agent_db where
  "initial_agent_db =
     \<lparr>ag_runs = [], ag_events = [], ag_goals = [], ag_worlds = [], ag_memories = [], ag_plans = [], ag_children = [],
      ag_ownership = [], ag_fencing_counter = 0\<rparr>"

section \<open>Reading rows\<close>

definition find_run :: "string \<Rightarrow> agent_db \<Rightarrow> run_state_row option" where
  "find_run run db = lookup_row (\<lambda>r. rs_run_id r = run) (ag_runs db)"

definition find_ownership :: "string \<Rightarrow> agent_db \<Rightarrow> ownership_row option" where
  "find_ownership run db = lookup_row (\<lambda>r. ow_run_id r = run) (ag_ownership db)"

definition run_events :: "string \<Rightarrow> agent_db \<Rightarrow> event_row list" where
  "run_events run db = filter (\<lambda>r. er_run_id r = run) (ag_events db)"

text \<open>An exception of the body of a \<open>try\<close> becomes another error.\<close>

definition recast :: "err \<Rightarrow> 'a result \<Rightarrow> 'a result" where
  "recast e r = (case r of Inl _ \<Rightarrow> Inl e | Inr a \<Rightarrow> Inr a)"

definition event_from_row :: "(string \<Rightarrow> string) \<Rightarrow> event_row \<Rightarrow> agent_event result" where
  "event_from_row h r =
     recast (AgentError Event_Integrity)
       (event_from_dict h
         (JObj [(''schema_version'', JStr ''macr-agent-event/v1''), (''event_id'', JStr (er_event_id r)),
            (''agent_run_id'', JStr (er_run_id r)), (''epoch'', JInt (er_epoch r)), (''before_revision'', JInt (er_before_revision r)),
            (''after_revision'', JInt (er_after_revision r)), (''event_type'', JStr (event_type_value (er_event_type r))),
            (''payload'', er_payload_json r), (''payload_digest'', JStr (er_payload_digest r)),
            (''state_digest_after'', JStr (er_state_digest_after r)), (''created_at'', JStr (isoformat (er_created_at r)))]))"

definition load_event_chain :: "(string \<Rightarrow> string) \<Rightarrow> string \<Rightarrow> agent_db \<Rightarrow> agent_event list result" where
  "load_event_chain h run db =
     (if run_events run db = [] then
        (if find_run run db = None then Inl (AgentError Agent_Missing) else Inl (AgentError Event_Integrity))
      else emap (event_from_row h) (run_events run db))"

definition projection_from_row :: "(string \<Rightarrow> string) \<Rightarrow> run_state_row \<Rightarrow> agent_projection result" where
  "projection_from_row h r =
     ebind (recast (AgentError Projection_Conflict)
       (ebind (header_from_dict h (rs_initial_header_json r)) (\<lambda>a.
          projection_create a (rs_state r) (JInt (rs_state_revision r)) (JInt (rs_epoch r)) (JStr (isoformat (rs_updated_at r)))))) (\<lambda>p.
       if ap_run_id p \<noteq> rs_run_id r then Inl (AgentError Projection_Conflict)
       else if ap_subject_digest p \<noteq> rs_subject_digest r then Inl (AgentError Projection_Conflict)
       else if state_digest h p \<noteq> rs_state_digest r then Inl (AgentError Projection_Conflict)
       else Inr p)"

definition semantic_binding_from_row :: "run_state_row \<Rightarrow> versioned_binding option result" where
  "semantic_binding_from_row r =
     (case (rs_semantic_state_ref r, rs_semantic_state_digest r, rs_semantic_state_revision r) of
        (None, None, None) \<Rightarrow> Inr None
      | (Some ref, Some digest, Some revision) \<Rightarrow>
          recast (AgentError Projection_Conflict)
            (ebind (binding_create (JStr ref) (JStr digest) (JInt revision)) (\<lambda>b. Inr (Some b)))
      | _ \<Rightarrow> Inl (AgentError Projection_Conflict))"

definition require_matching_tail :: "(string \<Rightarrow> string) \<Rightarrow> agent_db \<Rightarrow> agent_projection \<Rightarrow> unit result" where
  "require_matching_tail h db p =
     (if run_events (ap_run_id p) db = [] then Inl (AgentError Projection_Conflict)
      else
        (let tail = last (run_events (ap_run_id p) db) in
         if er_after_revision tail \<noteq> ap_state_revision p \<or> er_epoch tail \<noteq> ap_epoch p
            \<or> er_state_digest_after tail \<noteq> state_digest h p
         then Inl (AgentError Projection_Conflict) else Inr ()))"

definition current_projection :: "(string \<Rightarrow> string) \<Rightarrow> string \<Rightarrow> agent_db \<Rightarrow> agent_projection result" where
  "current_projection h run db =
     (case find_run run db of
        None \<Rightarrow> Inl (AgentError Agent_Missing)
      | Some r \<Rightarrow>
          ebind (projection_from_row h r) (\<lambda>p. ebind (require_matching_tail h db p) (\<lambda>_. Inr p)))"

definition get_agent_run :: "(string \<Rightarrow> string) \<Rightarrow> string \<Rightarrow> agent_db \<Rightarrow> agent_projection result" where
  "get_agent_run h run db = ebind (chk_uuid4 run) (\<lambda>run. current_projection h run db)"

definition get_agent_semantic_binding :: "(string \<Rightarrow> string) \<Rightarrow> string \<Rightarrow> agent_db \<Rightarrow> versioned_binding option result" where
  "get_agent_semantic_binding h run db =
     ebind (chk_uuid4 run) (\<lambda>run.
       case find_run run db of
         None \<Rightarrow> Inl (AgentError Agent_Missing)
       | Some r \<Rightarrow>
           ebind (semantic_binding_from_row r) (\<lambda>observed.
           ebind (load_event_chain h run db) (\<lambda>events.
           ebind (header_from_dict h (rs_initial_header_json r)) (\<lambda>a.
           ebind (replay_semantic_binding h (ah_semantic_state a) events) (\<lambda>replayed.
             if observed \<noteq> replayed then Inl (AgentError Projection_Conflict) else Inr observed)))))"

end
