(* ===== verification/AgentOps.thy ===== *)
theory AgentOps
  imports AgentStore
begin

text \<open>
  The transactions of \<open>AgentStore\<close> that change a run (\<open>src/src/macr_runtime/agent/store.py\<close>), with the permit
  of \<open>agent/ownership.py\<close>. Each maps the database to its result and to the database it commits, which is
  the old one when it raises. \<open>uid e 0\<close> is the event id that is drawn when the caller gives none.
\<close>

section \<open>Inserting\<close>

definition agent_commit :: "agent_db \<Rightarrow> ('a \<times> agent_db) result \<Rightarrow> 'a result \<times> agent_db" where
  "agent_commit old r = (case r of Inl err \<Rightarrow> (Inl err, old) | Inr (a, db) \<Rightarrow> (Inr a, db))"

definition insert_event :: "(string \<Rightarrow> string) \<Rightarrow> agent_event \<Rightarrow> agent_db \<Rightarrow> agent_db result" where
  "insert_event h v db =
     (if list_ex (\<lambda>r. er_event_id r = ae_event_id v) (ag_events db)
         \<or> list_ex (\<lambda>r. er_run_id r = ae_run_id v \<and> er_after_revision r = ae_after_revision v) (ag_events db)
      then Inl IntegrityError
      else Inr (db\<lparr>ag_events := ag_events db @
        [\<lparr>er_sequence = int (length (ag_events db)) + 1, er_event_id = ae_event_id v, er_run_id = ae_run_id v, er_epoch = ae_epoch v,
          er_before_revision = ae_before_revision v, er_after_revision = ae_after_revision v, er_event_type = ae_event_type v,
          er_payload_json = ae_payload v, er_payload_digest = payload_digest h v,
          er_state_digest_after = ae_state_digest_after v, er_created_at = ae_created_at v\<rparr>]\<rparr>))"

definition projection_row :: "(string \<Rightarrow> string) \<Rightarrow> agent_projection \<Rightarrow> run_state_row" where
  "projection_row h p =
     (let a = ap_initial_header p in
      \<lparr>rs_run_id = ap_run_id p, rs_subject_digest = ap_subject_digest p, rs_agent_ref = ah_agent_ref a,
       rs_initial_header_json = json_norm (header_to_dict h a), rs_state = ap_state p, rs_state_revision = ap_state_revision p,
       rs_epoch = ap_epoch p, rs_goal_ref = vb_ref (ah_goal a), rs_authority_ref = tr_source_id (ah_authority a),
       rs_budget_ref = vb_ref (ah_budget a), rs_semantic_state_ref = map_option vb_ref (ah_semantic_state a),
       rs_semantic_state_digest = map_option vb_digest (ah_semantic_state a),
       rs_semantic_state_revision = map_option vb_revision (ah_semantic_state a),
       rs_active_plan_ref = map_option vb_ref (ah_active_plan a), rs_parent_agent_run_id = ah_parent_agent_run_id a,
       rs_delegation_ref = ah_delegation_ref a, rs_state_digest = state_digest h p, rs_created_at = ah_created_at a,
       rs_updated_at = ap_updated_at p\<rparr>)"

definition insert_projection :: "(string \<Rightarrow> string) \<Rightarrow> agent_projection \<Rightarrow> agent_db \<Rightarrow> agent_db result" where
  "insert_projection h p db =
     (if find_run (ap_run_id p) db \<noteq> None then Inl IntegrityError
      else Inr (db\<lparr>ag_runs := ag_runs db @ [projection_row h p]\<rparr>))"

text \<open>Rows under the primary key of a table.\<close>

definition add_rows :: "('r \<Rightarrow> 'k) \<Rightarrow> 'r list \<Rightarrow> 'r list \<Rightarrow> 'r list result" where
  "add_rows key rows table =
     (if distinct (map key rows) \<and> list_all (\<lambda>r. key r \<notin> key ` set table) rows then Inr (table @ rows) else Inl IntegrityError)"

definition binding_rows :: "(string \<Rightarrow> string) \<Rightarrow> binding_kind \<Rightarrow> string \<Rightarrow> versioned_binding list \<Rightarrow> binding_row list" where
  "binding_rows h k run bs = map (\<lambda>b. \<lparr>bi_run_id = run, bi_binding = b, bi_binding_digest = binding_digest h k b\<rparr>) bs"

definition memory_rows :: "(string \<Rightarrow> string) \<Rightarrow> string \<Rightarrow> memory_binding list \<Rightarrow> memory_row list" where
  "memory_rows h run ms = map (\<lambda>m. \<lparr>my_run_id = run, my_binding = m, my_binding_digest = memory_binding_digest h m\<rparr>) ms"

definition binding_key :: "binding_row \<Rightarrow> string \<times> string" where
  "binding_key r = (bi_run_id r, bi_binding_digest r)"

definition memory_key :: "memory_row \<Rightarrow> string \<times> string" where
  "memory_key r = (my_run_id r, my_binding_digest r)"

definition find_child :: "string \<Rightarrow> string \<Rightarrow> agent_db \<Rightarrow> child_row option" where
  "find_child parent child db = lookup_row (\<lambda>c. ch_parent_run_id c = parent \<and> ch_child_run_id c = child) (ag_children db)"

text \<open>The lineage of a child: \<open>INSERT OR IGNORE\<close>, then the row that is there has to agree.\<close>

definition insert_lineage :: "agent_header \<Rightarrow> agent_db \<Rightarrow> agent_db result" where
  "insert_lineage a db =
     (case (ah_parent_agent_run_id a, ah_delegation_ref a) of
        (Some parent, Some delegation) \<Rightarrow>
          if find_run parent db = None then Inl (AgentError Projection_Conflict)
          else
            (let run = ai_run_id (ah_identity a);
                 db1 = (if find_child parent run db = None
                        then db\<lparr>ag_children := ag_children db @
                               [\<lparr>ch_parent_run_id = parent, ch_child_run_id = run, ch_delegation_ref = delegation\<rparr>]\<rparr>
                        else db)
             in (case find_child parent run db1 of
                   None \<Rightarrow> Inl (AgentError Projection_Conflict)
                 | Some c \<Rightarrow> if ch_delegation_ref c \<noteq> delegation then Inl (AgentError Projection_Conflict) else Inr db1))
      | _ \<Rightarrow> Inr db)"

definition insert_bindings :: "(string \<Rightarrow> string) \<Rightarrow> agent_header \<Rightarrow> agent_db \<Rightarrow> agent_db result" where
  "insert_bindings h a db =
     (let run = ai_run_id (ah_identity a) in
      ebind (add_rows binding_key (binding_rows h Goal_Binding run [ah_goal a]) (ag_goals db)) (\<lambda>goals.
      ebind (add_rows binding_key (binding_rows h World_Binding run (ah_world_bindings a)) (ag_worlds db)) (\<lambda>worlds.
      ebind (add_rows memory_key (memory_rows h run (ah_memory_bindings a)) (ag_memories db)) (\<lambda>memories.
      ebind (add_rows binding_key
               (binding_rows h Plan_Binding run (case ah_active_plan a of None \<Rightarrow> [] | Some b \<Rightarrow> [b])) (ag_plans db)) (\<lambda>plans.
        insert_lineage a
          (db\<lparr>ag_goals := goals, ag_worlds := worlds, ag_memories := memories, ag_plans := plans\<rparr>))))))"

definition event_id_of :: "env \<Rightarrow> string option \<Rightarrow> json" where
  "event_id_of e event_id = JStr (case event_id of None \<Rightarrow> uid e 0 | Some i \<Rightarrow> i)"

definition create_agent_run :: "env \<Rightarrow> agent_header \<Rightarrow> string option \<Rightarrow> agent_db \<Rightarrow> agent_projection result \<times> agent_db" where
  "create_agent_run e header event_id db =
     agent_commit db
       (ebind (from_creation_header header (JStr (isoformat (ah_created_at header)))) (\<lambda>p.
        ebind (event_create (sha e) (event_id_of e event_id) (JStr (ap_run_id p)) (JInt 0) (JInt 0) (JInt 1) Run_Created
                 (JObj [(''initial_header'', header_to_dict (sha e) header)]) (JStr (state_digest (sha e) p))
                 (JStr (isoformat (ah_created_at header)))) (\<lambda>v.
          if find_run (ap_run_id p) db \<noteq> None then Inl (AgentError Agent_Exists)
          else
            ebind (insert_event (sha e) v db) (\<lambda>db1.
            ebind (insert_projection (sha e) p db1) (\<lambda>db2.
            ebind (insert_bindings (sha e) header db2) (\<lambda>db3. Inr (p, db3)))))))"

section \<open>Advancing a run\<close>

text \<open>What the transitions share: the row that is current for the caller, the event with the projection it
  leads to, and the compare-and-swap of the row.\<close>

definition fresh_projection :: "(string \<Rightarrow> string) \<Rightarrow> string \<Rightarrow> int \<Rightarrow> int \<Rightarrow> agent_db \<Rightarrow> agent_projection result" where
  "fresh_projection h run revision epoch db =
     ebind (current_projection h run db) (\<lambda>p.
       if ap_state_revision p \<noteq> revision then Inl (AgentError Stale_Revision)
       else if ap_epoch p \<noteq> epoch then Inl (AgentError Stale_Epoch)
       else Inr p)"

definition build_event ::
  "(string \<Rightarrow> string) \<Rightarrow> agent_projection \<Rightarrow> agent_state \<Rightarrow> int \<Rightarrow> json \<Rightarrow> json \<Rightarrow> agent_event_type \<Rightarrow> json
     \<Rightarrow> (agent_event \<times> agent_projection) result" where
  "build_event h current state epoch created event_id t payload =
     ebind (projection_create (ap_initial_header current) state (JInt (ap_state_revision current + 1)) (JInt epoch) created) (\<lambda>next_p.
     ebind (event_create h event_id (JStr (ap_run_id current)) (JInt epoch) (JInt (ap_state_revision current))
              (JInt (ap_state_revision next_p)) t payload (JStr (state_digest h next_p)) created) (\<lambda>v.
     ebind (apply_agent_event h (Some current) v) (\<lambda>p.
       if p \<noteq> next_p then Inl (AgentError Projection_Conflict) else Inr (v, next_p))))"

definition swap_row ::
  "string \<Rightarrow> int \<Rightarrow> int \<Rightarrow> (run_state_row \<Rightarrow> run_state_row) \<Rightarrow> agent_db \<Rightarrow> agent_db result" where
  "swap_row run revision epoch f db =
     (let sel = (\<lambda>r. rs_run_id r = run \<and> rs_state_revision r = revision \<and> rs_epoch r = epoch) in
      if count_rows sel (ag_runs db) \<noteq> 1 then Inl (AgentError Projection_Conflict)
      else Inr (db\<lparr>ag_runs := update_rows sel f (ag_runs db)\<rparr>))"

definition set_projection :: "(string \<Rightarrow> string) \<Rightarrow> agent_projection \<Rightarrow> run_state_row \<Rightarrow> run_state_row" where
  "set_projection h p r =
     r\<lparr>rs_state := ap_state p, rs_state_revision := ap_state_revision p, rs_epoch := ap_epoch p,
       rs_state_digest := state_digest h p, rs_updated_at := ap_updated_at p\<rparr>"

definition transition_unowned ::
  "env \<Rightarrow> string \<Rightarrow> agent_state \<Rightarrow> agent_state \<Rightarrow> int \<Rightarrow> int \<Rightarrow> agent_event_type \<Rightarrow> json \<Rightarrow> int \<Rightarrow> string option
     \<Rightarrow> agent_db \<Rightarrow> agent_projection result \<times> agent_db" where
  "transition_unowned e run expected target revision epoch t payload created event_id db =
     agent_commit db
       (ebind (chk_uuid4 run) (\<lambda>run.
        ebind (require_positive_int (JInt revision)) (\<lambda>revision.
        ebind (require_non_negative_int (JInt epoch)) (\<lambda>epoch.
        ebind (fresh_projection (sha e) run revision epoch db) (\<lambda>current.
          if ap_state current \<noteq> expected then Inl (AgentError Illegal_Transition)
          else if find_ownership run db \<noteq> None then Inl (AgentError Ownership_Conflict)
          else
            ebind (require_phase_b_transition (ap_state current) target) (\<lambda>_.
            ebind (build_event (sha e) current target (ap_epoch current) (JStr (isoformat created)) (event_id_of e event_id) t payload)
              (\<lambda>(v, next_p).
            ebind (insert_event (sha e) v db) (\<lambda>db1.
            ebind (swap_row run revision epoch (set_projection (sha e) next_p) db1) (\<lambda>db2. Inr (next_p, db2))))))))))"

section \<open>Ownership\<close>

record agent_permit =
  pe_run_id :: string
  pe_owner_id :: string
  pe_lease_id :: string
  pe_fencing_token :: int
  pe_epoch :: int
  pe_revision :: int
  pe_acquired_at :: int
  pe_expires_at :: int

definition permit_create :: "json \<Rightarrow> json \<Rightarrow> json \<Rightarrow> json \<Rightarrow> json \<Rightarrow> json \<Rightarrow> json \<Rightarrow> json \<Rightarrow> agent_permit result" where
  "permit_create run owner lease token epoch revision acquired expires =
     ebind (require_uuid4 run) (\<lambda>run.
     ebind (require_non_empty 256 owner) (\<lambda>owner.
     ebind (require_uuid4 lease) (\<lambda>lease.
     ebind (require_positive_int token) (\<lambda>token.
     ebind (require_positive_int epoch) (\<lambda>epoch.
     ebind (require_positive_int revision) (\<lambda>revision.
     ebind (normalize_timestamp acquired) (\<lambda>acquired.
     ebind (normalize_timestamp expires) (\<lambda>expires.
       if expires \<le> acquired then Inl (ValueError Bad_Timestamp)
       else Inr \<lparr>pe_run_id = run, pe_owner_id = owner, pe_lease_id = lease, pe_fencing_token = token, pe_epoch = epoch,
                 pe_revision = revision, pe_acquired_at = acquired, pe_expires_at = expires\<rparr>))))))))"

definition permit_from_row :: "ownership_row \<Rightarrow> int \<Rightarrow> agent_permit result" where
  "permit_from_row r revision =
     permit_create (JStr (ow_run_id r)) (JStr (ow_owner_id r)) (JStr (ow_lease_id r)) (JInt (ow_fencing_token r))
       (JInt (ow_epoch r)) (JInt revision) (JStr (isoformat (ow_acquired_at r))) (JStr (isoformat (ow_expires_at r)))"

definition require_permit_row :: "ownership_row option \<Rightarrow> agent_permit \<Rightarrow> int option \<Rightarrow> ownership_row result" where
  "require_permit_row row permit observed =
     (case row of
        None \<Rightarrow> Inl (AgentError Ownership_Conflict)
      | Some r \<Rightarrow>
          if ow_fencing_token r \<noteq> pe_fencing_token permit then Inl (AgentError Stale_Token)
          else if ow_epoch r \<noteq> pe_epoch permit then Inl (AgentError Stale_Epoch)
          else if ow_owner_id r \<noteq> pe_owner_id permit \<or> ow_lease_id r \<noteq> pe_lease_id permit \<or> ow_run_id r \<noteq> pe_run_id permit
          then Inl (AgentError Ownership_Conflict)
          else if (case observed of None \<Rightarrow> False | Some now \<Rightarrow> ow_expires_at r \<le> now) then Inl (AgentError Lease_Expired)
          else Inr r)"

definition delete_ownership :: "string \<Rightarrow> agent_db \<Rightarrow> agent_db" where
  "delete_ownership run db = db\<lparr>ag_ownership := filter (\<lambda>r. ow_run_id r \<noteq> run) (ag_ownership db)\<rparr>"

definition insert_ownership :: "agent_permit \<Rightarrow> agent_db \<Rightarrow> agent_db result" where
  "insert_ownership permit db =
     (if list_ex (\<lambda>r. ow_run_id r = pe_run_id permit \<or> ow_lease_id r = pe_lease_id permit) (ag_ownership db) then Inl IntegrityError
      else Inr (db\<lparr>ag_ownership := ag_ownership db @
        [\<lparr>ow_run_id = pe_run_id permit, ow_owner_id = pe_owner_id permit, ow_lease_id = pe_lease_id permit,
          ow_fencing_token = pe_fencing_token permit, ow_epoch = pe_epoch permit, ow_acquired_at = pe_acquired_at permit,
          ow_expires_at = pe_expires_at permit\<rparr>]\<rparr>))"

text \<open>A new lease for the candidate, on a database without a row for the run.\<close>

definition grant_ownership ::
  "env \<Rightarrow> agent_projection \<Rightarrow> agent_permit \<Rightarrow> string option \<Rightarrow> agent_db \<Rightarrow> (agent_permit \<times> agent_db) result" where
  "grant_ownership e current candidate event_id db0 =
     (let db = db0\<lparr>ag_fencing_counter := ag_fencing_counter db0 + 1\<rparr>; run = ap_run_id current in
      ebind (permit_create (JStr run) (JStr (pe_owner_id candidate)) (JStr (pe_lease_id candidate)) (JInt (ag_fencing_counter db))
               (JInt (ap_epoch current + 1)) (JInt (ap_state_revision current + 1)) (JStr (isoformat (pe_acquired_at candidate)))
               (JStr (isoformat (pe_expires_at candidate)))) (\<lambda>permit.
      ebind (build_event (sha e) current (ap_state current) (ap_epoch current + 1) (JStr (isoformat (pe_acquired_at permit)))
               (event_id_of e event_id) Owner_Acquired
               (JObj [(''owner_id'', JStr (pe_owner_id permit)), (''lease_id'', JStr (pe_lease_id permit)),
                  (''fencing_token'', JInt (pe_fencing_token permit)), (''expires_at'', JStr (isoformat (pe_expires_at permit)))]))
        (\<lambda>(v, next_p).
      ebind (insert_event (sha e) v db) (\<lambda>db1.
      ebind (swap_row run (ap_state_revision current) (ap_epoch current)
               (\<lambda>r. r\<lparr>rs_state_revision := ap_state_revision next_p, rs_epoch := ap_epoch next_p,
                      rs_state_digest := state_digest (sha e) next_p, rs_updated_at := ap_updated_at next_p\<rparr>) db1) (\<lambda>db2.
      ebind (insert_ownership permit db2) (\<lambda>db3. Inr (permit, db3)))))))"

definition acquire_ownership ::
  "env \<Rightarrow> string \<Rightarrow> json \<Rightarrow> int \<Rightarrow> int \<Rightarrow> int \<Rightarrow> int \<Rightarrow> json \<Rightarrow> string option \<Rightarrow> agent_db \<Rightarrow> agent_permit result \<times> agent_db" where
  "acquire_ownership e run owner_id revision epoch observed expires lease_id event_id db =
     agent_commit db
       (ebind (chk_uuid4 run) (\<lambda>run.
        ebind (require_positive_int (JInt revision)) (\<lambda>revision.
        ebind (require_non_negative_int (JInt epoch)) (\<lambda>epoch.
        ebind (permit_create (JStr run) owner_id lease_id (JInt 1) (JInt (max 1 (epoch + 1))) (JInt (revision + 1))
                 (JStr (isoformat observed)) (JStr (isoformat expires))) (\<lambda>candidate.
        ebind (fresh_projection (sha e) run revision epoch db) (\<lambda>current.
          if ap_state current \<notin> {Admitted, Active, Blocked} then Inl (AgentError Illegal_Transition)
          else
            (case find_ownership run db of
               None \<Rightarrow> grant_ownership e current candidate event_id db
             | Some r \<Rightarrow>
                 if ow_expires_at r \<le> pe_acquired_at candidate
                 then grant_ownership e current candidate event_id (delete_ownership run db)
                 else if ow_owner_id r = pe_owner_id candidate
                 then ebind (permit_from_row r (ap_state_revision current)) (\<lambda>p. Inr (p, db))
                 else Inl (AgentError Ownership_Conflict))))))))"

definition renew_ownership :: "agent_permit \<Rightarrow> int \<Rightarrow> int \<Rightarrow> agent_db \<Rightarrow> agent_permit result \<times> agent_db" where
  "renew_ownership permit observed expires db =
     agent_commit db
       (ebind (permit_create (JStr (pe_run_id permit)) (JStr (pe_owner_id permit)) (JStr (pe_lease_id permit))
                 (JInt (pe_fencing_token permit)) (JInt (pe_epoch permit)) (JInt (pe_revision permit))
                 (JStr (isoformat (pe_acquired_at permit))) (JStr (isoformat expires))) (\<lambda>renewed.
        ebind (require_permit_row (find_ownership (pe_run_id permit) db) permit (Some observed)) (\<lambda>row.
          if pe_expires_at renewed \<le> ow_expires_at row then Inl (AgentError Ownership_Conflict)
          else
            (case find_run (pe_run_id permit) db of
               None \<Rightarrow> Inl (AgentError Projection_Conflict)
             | Some r \<Rightarrow>
                 if rs_epoch r \<noteq> pe_epoch permit then Inl (AgentError Stale_Epoch)
                 else
                   ebind (permit_create (JStr (pe_run_id renewed)) (JStr (pe_owner_id renewed)) (JStr (pe_lease_id renewed))
                            (JInt (pe_fencing_token renewed)) (JInt (pe_epoch renewed)) (JInt (rs_state_revision r))
                            (JStr (isoformat (pe_acquired_at renewed))) (JStr (isoformat (pe_expires_at renewed)))) (\<lambda>result.
                     Inr (result, db\<lparr>ag_ownership := update_rows (\<lambda>x. ow_run_id x = pe_run_id permit)
                            (\<lambda>x. x\<lparr>ow_expires_at := pe_expires_at renewed\<rparr>) (ag_ownership db)\<rparr>))))))"

definition release_ownership :: "agent_permit \<Rightarrow> agent_db \<Rightarrow> bool result \<times> agent_db" where
  "release_ownership permit db =
     agent_commit db
       (ebind (require_permit_row (find_ownership (pe_run_id permit) db) permit None) (\<lambda>_.
          Inr (True, delete_ownership (pe_run_id permit) db)))"

definition read_ownership :: "string \<Rightarrow> agent_db \<Rightarrow> agent_permit option result" where
  "read_ownership run db =
     ebind (chk_uuid4 run) (\<lambda>run.
       case find_ownership run db of
         None \<Rightarrow> Inr None
       | Some r \<Rightarrow>
           (case find_run run db of
              None \<Rightarrow> Inl (AgentError Projection_Conflict)
            | Some s \<Rightarrow> ebind (permit_from_row r (rs_state_revision s)) (\<lambda>p. Inr (Some p))))"

definition transition_owned ::
  "env \<Rightarrow> agent_permit \<Rightarrow> agent_state list \<Rightarrow> agent_state \<Rightarrow> int \<Rightarrow> int \<Rightarrow> agent_event_type \<Rightarrow> json \<Rightarrow> int \<Rightarrow> string option
     \<Rightarrow> agent_db \<Rightarrow> agent_projection result \<times> agent_db" where
  "transition_owned e permit expected target revision epoch t payload created event_id db =
     agent_commit db
       (ebind (require_positive_int (JInt revision)) (\<lambda>revision.
        ebind (require_non_negative_int (JInt epoch)) (\<lambda>epoch.
        ebind (fresh_projection (sha e) (pe_run_id permit) revision epoch db) (\<lambda>current.
        ebind (require_permit_row (find_ownership (pe_run_id permit) db) permit (Some created)) (\<lambda>_.
          if ap_state current \<notin> set expected then Inl (AgentError Illegal_Transition)
          else
            ebind (require_phase_b_transition (ap_state current) target) (\<lambda>_.
            ebind (build_event (sha e) current target (ap_epoch current) (JStr (isoformat created)) (event_id_of e event_id) t payload)
              (\<lambda>(v, next_p).
            ebind (insert_event (sha e) v db) (\<lambda>db1.
            ebind (swap_row (pe_run_id permit) revision epoch
                     (\<lambda>r. r\<lparr>rs_state := ap_state next_p, rs_state_revision := ap_state_revision next_p,
                            rs_state_digest := state_digest (sha e) next_p, rs_updated_at := ap_updated_at next_p\<rparr>) db1) (\<lambda>db2.
              Inr (next_p, if is_terminal_agent_run_state (ap_state next_p) then delete_ownership (pe_run_id permit) db2 else db2))))))))))"

end
