(* ===== verification/AgentRecovery.thy ===== *)
theory AgentRecovery
  imports AgentOps
begin

text \<open>
  The rest of \<open>src/src/macr_runtime/agent\<close>: the named operations of \<open>service.py\<close> and \<open>ownership.py\<close>, the agent half
  of a semantic commit (\<open>semantic_binding.py\<close>), the reading operations of \<open>store.py\<close>, and its inspection and
  rebuild of a projection from the event log.
\<close>

section \<open>The named operations\<close>

definition agent_reason :: "json \<Rightarrow> json \<Rightarrow> json" where
  "agent_reason code digest = JObj [(''reason_code'', code), (''reason_digest'', digest)]"

definition admit_agent_run where
  "admit_agent_run e run revision epoch code digest =
     transition_unowned e run Created Admitted revision epoch Run_Admitted (agent_reason code digest) (clk e 0)"

definition cancel_agent_run where
  "cancel_agent_run e run revision epoch code digest permit event_id db =
     (case permit of
        None \<Rightarrow> transition_unowned e run Created Cancelled revision epoch Run_Cancelled (agent_reason code digest) (clk e 0) event_id db
      | Some p \<Rightarrow>
          if pe_run_id p \<noteq> run then (Inl (ValueError Bad_Document), db)
          else transition_owned e p [Admitted, Active, Blocked] Cancelled revision epoch Run_Cancelled (agent_reason code digest)
                 (clk e 0) event_id db)"

definition activate_agent_run where
  "activate_agent_run e permit revision epoch code digest =
     transition_owned e permit [Admitted, Blocked] Active revision epoch Run_Activated (agent_reason code digest) (clk e 0)"

definition block_agent_run where
  "block_agent_run e permit revision epoch code digest =
     transition_owned e permit [Active] Blocked revision epoch Run_Blocked (agent_reason code digest) (clk e 0)"

definition complete_agent_run where
  "complete_agent_run e permit revision epoch evidence_ref digest =
     transition_owned e permit [Active] Completed revision epoch Run_Completed
       (JObj [(''evidence_ref'', evidence_ref), (''evidence_digest'', digest)]) (clk e 0)"

definition fail_agent_run where
  "fail_agent_run e permit revision epoch code digest =
     transition_owned e permit [Admitted, Active, Blocked] Failed revision epoch Run_Failed (agent_reason code digest) (clk e 0)"

text \<open>\<open>AgentOwnershipStore\<close>: the clock and the life time of a lease.\<close>

definition lease_seconds :: "int \<Rightarrow> int result" where
  "lease_seconds ttl =
     ebind (require_positive_int (JInt ttl)) (\<lambda>n. if 86400 < n then Inl (ValueError Bad_Integer) else Inr n)"

definition acquire_agent_run ::
  "env \<Rightarrow> string \<Rightarrow> json \<Rightarrow> int \<Rightarrow> int \<Rightarrow> int \<Rightarrow> string option \<Rightarrow> string option \<Rightarrow> agent_db \<Rightarrow> agent_permit result \<times> agent_db" where
  "acquire_agent_run e run owner revision epoch ttl event_id lease_id db =
     (case lease_seconds ttl of
        Inl err \<Rightarrow> (Inl err, db)
      | Inr n \<Rightarrow>
          acquire_ownership e run owner revision epoch (clk e 0) (clk e 0 + seconds n)
            (JStr (case lease_id of None \<Rightarrow> uid e 1 | Some l \<Rightarrow> l)) event_id db)"

definition renew_agent_run :: "env \<Rightarrow> agent_permit \<Rightarrow> int \<Rightarrow> agent_db \<Rightarrow> agent_permit result \<times> agent_db" where
  "renew_agent_run e permit ttl db =
     (case lease_seconds ttl of
        Inl err \<Rightarrow> (Inl err, db)
      | Inr n \<Rightarrow> renew_ownership permit (clk e 0) (clk e 0 + seconds n) db)"

section \<open>The agent half of a semantic commit\<close>

definition semantic_event_payload ::
  "(string \<Rightarrow> string) \<Rightarrow> json \<Rightarrow> json \<Rightarrow> versioned_binding option \<Rightarrow> versioned_binding \<Rightarrow> json \<Rightarrow> json \<Rightarrow> json \<Rightarrow> json \<Rightarrow> json" where
  "semantic_event_payload h kind operation previous new_binding proposal patch registry authorization =
     JObj [(''operation_kind'', kind), (''operation_id'', operation),
       (''previous_binding'', optional_binding_to_dict h Semantic_Binding previous),
       (''new_binding'', binding_to_dict h Semantic_Binding new_binding), (''proposal_digest'', proposal), (''patch_digest'', patch),
       (''registry_digest'', registry), (''authorization_digest'', authorization)]"

text \<open>\<open>_build_event\<close> and \<open>_commit_on_connection\<close>; the transaction is the caller's, so the second returns
  the database inside it.\<close>

definition semantic_build_event ::
  "(string \<Rightarrow> string) \<Rightarrow> agent_projection \<Rightarrow> versioned_binding option \<Rightarrow> versioned_binding \<Rightarrow> json \<Rightarrow> json \<Rightarrow> json \<Rightarrow> json
     \<Rightarrow> json \<Rightarrow> json \<Rightarrow> json \<Rightarrow> json \<Rightarrow> (agent_event \<times> agent_projection) result" where
  "semantic_build_event h current previous new_binding kind operation proposal patch registry authorization created event_id =
     build_event h current (ap_state current) (ap_epoch current) created event_id Semantic_State_Advanced
       (semantic_event_payload h kind operation previous new_binding proposal patch registry authorization)"

definition semantic_commit ::
  "(string \<Rightarrow> string) \<Rightarrow> agent_projection \<Rightarrow> agent_event \<Rightarrow> versioned_binding \<Rightarrow> int \<Rightarrow> int \<Rightarrow> agent_db
     \<Rightarrow> (agent_projection \<times> agent_db) result" where
  "semantic_commit h current v new_binding revision epoch db =
     (if ae_event_type v \<noteq> Semantic_State_Advanced then Inl (ValueError Bad_Choice)
      else
        ebind (require_positive_int (JInt revision)) (\<lambda>revision.
        ebind (require_non_negative_int (JInt epoch)) (\<lambda>epoch.
          case find_run (ap_run_id current) db of
            None \<Rightarrow> Inl (AgentError Agent_Missing)
          | Some r \<Rightarrow>
              ebind (projection_from_row h r) (\<lambda>observed.
              ebind (require_matching_tail h db observed) (\<lambda>_.
                if observed \<noteq> current \<or> ap_state_revision observed \<noteq> revision then Inl (AgentError Stale_Revision)
                else if ap_epoch observed \<noteq> epoch then Inl (AgentError Stale_Epoch)
                else
                  ebind (semantic_binding_from_row r) (\<lambda>previous.
                  ebind (optional_binding_from_dict h Semantic_Binding (payload_field ''previous_binding'' v)) (\<lambda>supplied.
                    if supplied \<noteq> previous then Inl (AgentError Projection_Conflict)
                    else
                      ebind (binding_from_dict h Semantic_Binding (payload_field ''new_binding'' v)) (\<lambda>event_new.
                        if event_new \<noteq> new_binding then Inl (AgentError Projection_Conflict)
                        else
                          ebind (apply_agent_event h (Some current) v) (\<lambda>next_p.
                          ebind (insert_event h v db) (\<lambda>db1.
                          ebind (swap_row (ap_run_id current) revision epoch
                                   (\<lambda>x. x\<lparr>rs_state_revision := ap_state_revision next_p, rs_state_digest := state_digest h next_p,
                                          rs_updated_at := ap_updated_at next_p, rs_semantic_state_ref := Some (vb_ref new_binding),
                                          rs_semantic_state_digest := Some (vb_digest new_binding),
                                          rs_semantic_state_revision := Some (vb_revision new_binding)\<rparr>) db1) (\<lambda>db2.
                            Inr (next_p, db2))))))))))))"

section \<open>Lists\<close>

text \<open>The runs are read one after the other, the \<open>i\<close>-th in the database \<open>later i\<close>.\<close>

definition list_agent_runs ::
  "(string \<Rightarrow> string) \<Rightarrow> agent_state option \<Rightarrow> int \<Rightarrow> string option \<Rightarrow> agent_db \<Rightarrow> (nat \<Rightarrow> agent_db) \<Rightarrow> agent_projection list result" where
  "list_agent_runs h state limit after db later =
     ebind (require_positive_int (JInt limit)) (\<lambda>limit.
       if 1000 < limit then Inl (ValueError Bad_Integer)
       else
         ebind (chk_optional chk_uuid4 after) (\<lambda>cursor.
           emap (\<lambda>(i, run). get_agent_run h run (later i))
             (enumerate 0 (take (nat limit) (sort (map rs_run_id
               (filter (\<lambda>r. (state = None \<or> state = Some (rs_state r)) \<and> (case cursor of None \<Rightarrow> True | Some c \<Rightarrow> c < rs_run_id r))
                 (ag_runs db))))))))"

definition list_agent_events ::
  "(string \<Rightarrow> string) \<Rightarrow> string \<Rightarrow> int \<Rightarrow> int option \<Rightarrow> agent_db \<Rightarrow> (int \<times> agent_event) list result" where
  "list_agent_events h run limit after db =
     ebind (chk_uuid4 run) (\<lambda>run.
     ebind (require_positive_int (JInt limit)) (\<lambda>limit.
       if 1000 < limit then Inl (ValueError Bad_Integer)
       else
         ebind (case after of None \<Rightarrow> Inr 0 | Some n \<Rightarrow> require_positive_int (JInt n)) (\<lambda>cursor.
           if find_run run db = None then Inl (AgentError Agent_Missing)
           else
             emap (\<lambda>r. ebind (event_from_row h r) (\<lambda>v. Inr (er_sequence r, v)))
               (take (nat limit) (filter (\<lambda>r. cursor < er_sequence r) (run_events run db))))))"

section \<open>Inspection\<close>

text \<open>The outgoing children that the creation events of the log name.\<close>

definition expected_outgoing_children :: "(string \<Rightarrow> string) \<Rightarrow> string \<Rightarrow> agent_db \<Rightarrow> child_row list result" where
  "expected_outgoing_children h parent db =
     ebind (emap (\<lambda>r. ebind (event_from_row h r) (event_header h))
       (filter (\<lambda>r. er_event_type r = Run_Created) (ag_events db))) (\<lambda>headers.
       Inr (map (\<lambda>a. \<lparr>ch_parent_run_id = parent, ch_child_run_id = ai_run_id (ah_identity a),
                      ch_delegation_ref = (case ah_delegation_ref a of None \<Rightarrow> [] | Some d \<Rightarrow> d)\<rparr>)
         (filter (\<lambda>a. ah_parent_agent_run_id a = Some parent) headers)))"

text \<open>The index tables: the rows come ordered by their binding digest, the expected ones are sorted as
  tuples, whose first component is not the digest. Comparing \<open>None\<close> with a text in a tuple
  raises \<open>TypeError\<close>.\<close>

definition binding_tuple :: "(string \<Rightarrow> string) \<Rightarrow> binding_kind \<Rightarrow> versioned_binding \<Rightarrow> string \<times> string \<times> int \<times> string" where
  "binding_tuple h k b = (vb_ref b, vb_digest b, vb_revision b, binding_digest h k b)"

definition memory_tuple :: "(string \<Rightarrow> string) \<Rightarrow> memory_binding
     \<Rightarrow> string \<times> string \<times> string \<times> string option \<times> string option \<times> string \<times> string \<times> string" where
  "memory_tuple h m = (mb_memory_system_id m, mb_profile_id m, mb_subject_ref m, mb_head_ref m, mb_head_digest m,
     mb_access_policy_ref m, mb_projection_policy_ref m, memory_binding_digest h m)"

definition optional_text :: "string option \<Rightarrow> string" where
  "optional_text v = (case v of None \<Rightarrow> [] | Some s \<Rightarrow> s)"

definition memory_sort_key :: "(string \<Rightarrow> string) \<Rightarrow> memory_binding \<Rightarrow> string list" where
  "memory_sort_key h m = [mb_memory_system_id m, mb_profile_id m, mb_subject_ref m, optional_text (mb_head_ref m),
     optional_text (mb_head_digest m), mb_access_policy_ref m, mb_projection_policy_ref m, memory_binding_digest h m]"

definition memories_comparable :: "memory_binding list \<Rightarrow> bool" where
  "memories_comparable ms \<longleftrightarrow>
     list_all (\<lambda>x. list_all (\<lambda>y. (mb_memory_system_id x, mb_profile_id x, mb_subject_ref x)
         = (mb_memory_system_id y, mb_profile_id y, mb_subject_ref y) \<longrightarrow> (mb_head_ref x = None) = (mb_head_ref y = None)) ms) ms"

definition indexed_bindings :: "string \<Rightarrow> binding_row list \<Rightarrow> binding_row list" where
  "indexed_bindings run rows = sort_key bi_binding_digest (filter (\<lambda>r. bi_run_id r = run) rows)"

definition row_tuple :: "binding_row \<Rightarrow> string \<times> string \<times> int \<times> string" where
  "row_tuple r = (vb_ref (bi_binding r), vb_digest (bi_binding r), vb_revision (bi_binding r), bi_binding_digest r)"

definition memory_row_tuple :: "memory_row
     \<Rightarrow> string \<times> string \<times> string \<times> string option \<times> string option \<times> string \<times> string \<times> string" where
  "memory_row_tuple r = (let m = my_binding r in (mb_memory_system_id m, mb_profile_id m, mb_subject_ref m, mb_head_ref m,
     mb_head_digest m, mb_access_policy_ref m, mb_projection_policy_ref m, my_binding_digest r))"

definition binding_indexes_match :: "(string \<Rightarrow> string) \<Rightarrow> agent_db \<Rightarrow> agent_projection \<Rightarrow> bool result" where
  "binding_indexes_match h db p =
     (let a = ap_initial_header p; run = ap_run_id p in
      if \<not> memories_comparable (ah_memory_bindings a) then Inl TypeError
      else
        ebind (expected_outgoing_children h run db) (\<lambda>outgoing.
          Inr (map row_tuple (indexed_bindings run (ag_goals db)) = [binding_tuple h Goal_Binding (ah_goal a)]
            \<and> map row_tuple (indexed_bindings run (ag_worlds db)) = sort (map (binding_tuple h World_Binding) (ah_world_bindings a))
            \<and> map memory_row_tuple (sort_key my_binding_digest (filter (\<lambda>r. my_run_id r = run) (ag_memories db)))
                = map (memory_tuple h) (sort_key (memory_sort_key h) (ah_memory_bindings a))
            \<and> map row_tuple (indexed_bindings run (ag_plans db))
                = (case ah_active_plan a of None \<Rightarrow> [] | Some b \<Rightarrow> [binding_tuple h Plan_Binding b])
            \<and> set (filter (\<lambda>c. ch_child_run_id c = run \<or> ch_parent_run_id c = run) (ag_children db))
                = set outgoing \<union> (case ah_parent_agent_run_id a of None \<Rightarrow> {}
                    | Some parent \<Rightarrow> {\<lparr>ch_parent_run_id = parent, ch_child_run_id = run,
                                      ch_delegation_ref = optional_text (ah_delegation_ref a)\<rparr>}))))"

datatype inspection_status = Exact_Match | Projection_Missing | Conflicting

record projection_inspection =
  pi_status :: inspection_status
  pi_event_count :: nat
  pi_replay_state_digest :: string
  pi_projection_state_digest :: "string option"

definition inspect_projection :: "(string \<Rightarrow> string) \<Rightarrow> string \<Rightarrow> agent_db \<Rightarrow> projection_inspection result" where
  "inspect_projection h run db =
     ebind (chk_uuid4 run) (\<lambda>run.
     ebind (load_event_chain h run db) (\<lambda>events.
     ebind (replay_agent_events h events) (\<lambda>replayed.
       let report = (\<lambda>s d. \<lparr>pi_status = s, pi_event_count = length events, pi_replay_state_digest = state_digest h replayed,
                              pi_projection_state_digest = d\<rparr>)
       in case find_run run db of
            None \<Rightarrow> Inr (report Projection_Missing None)
          | Some r \<Rightarrow>
              (case ebind (projection_from_row h r) (\<lambda>p.
                    ebind (semantic_binding_from_row r) (\<lambda>observed.
                    ebind (replay_semantic_binding h (ah_semantic_state (ap_initial_header p)) events) (\<lambda>semantic.
                      Inr (p, observed = semantic)))) of
                 Inl _ \<Rightarrow> Inr (report Conflicting (Some (rs_state_digest r)))
               | Inr (p, same_semantic) \<Rightarrow>
                   ebind (binding_indexes_match h db p) (\<lambda>indexes_match.
                     Inr (report (if p = replayed \<and> indexes_match \<and> same_semantic then Exact_Match else Conflicting)
                            (Some (state_digest h p))))))))"

section \<open>Rebuild\<close>

text \<open>\<open>DELETE FROM agent_runs\<close>, with the rows of the other tables that it cascades to.\<close>

definition delete_run :: "string \<Rightarrow> agent_db \<Rightarrow> agent_db" where
  "delete_run run db =
     db\<lparr>ag_runs := filter (\<lambda>r. rs_run_id r \<noteq> run) (ag_runs db), ag_goals := filter (\<lambda>r. bi_run_id r \<noteq> run) (ag_goals db),
        ag_worlds := filter (\<lambda>r. bi_run_id r \<noteq> run) (ag_worlds db), ag_memories := filter (\<lambda>r. my_run_id r \<noteq> run) (ag_memories db),
        ag_plans := filter (\<lambda>r. bi_run_id r \<noteq> run) (ag_plans db),
        ag_ownership := filter (\<lambda>r. ow_run_id r \<noteq> run) (ag_ownership db)\<rparr>"

definition rebuild_outgoing_children :: "(string \<Rightarrow> string) \<Rightarrow> string \<Rightarrow> agent_db \<Rightarrow> agent_db result" where
  "rebuild_outgoing_children h parent db =
     ebind (expected_outgoing_children h parent db) (\<lambda>expected.
     ebind (add_rows (\<lambda>c. (ch_parent_run_id c, ch_child_run_id c)) expected
              (filter (\<lambda>c. ch_parent_run_id c \<noteq> parent) (ag_children db))) (\<lambda>children.
       Inr (db\<lparr>ag_children := children\<rparr>)))"

definition set_semantic :: "versioned_binding option \<Rightarrow> run_state_row \<Rightarrow> run_state_row" where
  "set_semantic b r =
     r\<lparr>rs_semantic_state_ref := map_option vb_ref b, rs_semantic_state_digest := map_option vb_digest b,
       rs_semantic_state_revision := map_option vb_revision b\<rparr>"

definition rebuild_projection :: "env \<Rightarrow> string \<Rightarrow> timestamp_text option \<Rightarrow> agent_db \<Rightarrow> agent_projection result \<times> agent_db" where
  "rebuild_projection e run observed_at db =
     agent_commit db
       (ebind (chk_uuid4 run) (\<lambda>run.
        ebind (case observed_at of None \<Rightarrow> Inr (clk e 0) | Some t \<Rightarrow> aware_iso8601 t) (\<lambda>now.
        ebind (load_event_chain (sha e) run db) (\<lambda>events.
        ebind (replay_agent_events (sha e) events) (\<lambda>replayed.
        ebind (replay_semantic_binding (sha e) (ah_semantic_state (ap_initial_header replayed)) events) (\<lambda>semantic.
          if (case find_ownership run db of None \<Rightarrow> False | Some r \<Rightarrow> now < ow_expires_at r)
          then Inl (AgentError Rebuild_Blocked)
          else
            ebind (insert_projection (sha e) replayed (delete_run run db)) (\<lambda>db1.
            ebind (insert_bindings (sha e) (ap_initial_header replayed) db1) (\<lambda>db2.
            ebind (rebuild_outgoing_children (sha e) run db2) (\<lambda>db3.
              Inr (replayed,
                   if semantic \<noteq> ah_semantic_state (ap_initial_header replayed)
                   then db3\<lparr>ag_runs := update_rows (\<lambda>r. rs_run_id r = run) (set_semantic semantic) (ag_runs db3)\<rparr>
                   else db3))))))))))"

end
