(* ===== verification/AgentDocuments.thy ===== *)
theory AgentDocuments
  imports AgentContracts
begin

text \<open>
  The documents of the agent contracts read back as the records they were written from, and what a
  constructor or a reader accepts is well formed.
\<close>

section \<open>Well-formed records\<close>

definition any_text_ok :: "string \<Rightarrow> bool" where
  "any_text_ok s \<longleftrightarrow> strip s = s \<and> s \<noteq> []"

definition binding_ok :: "versioned_binding \<Rightarrow> bool" where
  "binding_ok b \<longleftrightarrow> text_ok 512 (vb_ref b) \<and> is_sha256 (vb_digest b) \<and> 1 \<le> vb_revision b"

definition reference_ok :: "text_reference \<Rightarrow> bool" where
  "reference_ok r \<longleftrightarrow> any_text_ok (tr_source_kind r) \<and> any_text_ok (tr_source_id r) \<and> is_sha256 (tr_digest r)
     \<and> 1 \<le> tr_revision r \<and> 0 \<le> tr_epoch r \<and> any_text_ok (tr_scope r)"

definition memory_ok :: "memory_binding \<Rightarrow> bool" where
  "memory_ok m \<longleftrightarrow> text_ok 512 (mb_memory_system_id m) \<and> text_ok 512 (mb_profile_id m) \<and> text_ok 512 (mb_subject_ref m)
     \<and> (case mb_head_ref m of None \<Rightarrow> True | Some s \<Rightarrow> text_ok 512 s)
     \<and> (case mb_head_digest m of None \<Rightarrow> True | Some s \<Rightarrow> is_sha256 s)
     \<and> (mb_head_ref m = None \<longleftrightarrow> mb_head_digest m = None)
     \<and> text_ok 512 (mb_access_policy_ref m) \<and> text_ok 512 (mb_projection_policy_ref m)"

definition origin_ok :: "agent_origin \<Rightarrow> bool" where
  "origin_ok a \<longleftrightarrow> any_text_ok (ao_host a) \<and> any_text_ok (ao_identifier_kind a) \<and> any_text_ok (ao_native_id a)"

definition canonical_list :: "('a \<Rightarrow> string) \<Rightarrow> 'a list \<Rightarrow> bool" where
  "canonical_list digest xs \<longleftrightarrow> distinct (map digest xs) \<and> sorted (map digest xs)"

definition header_ok :: "(string \<Rightarrow> string) \<Rightarrow> agent_header \<Rightarrow> bool" where
  "header_ok h a \<longleftrightarrow> is_uuid4 (ai_run_id (ah_identity a)) \<and> is_sha256 (ai_subject_digest (ah_identity a))
     \<and> text_ok 512 (ah_agent_ref a) \<and> origin_ok (ah_origin a) \<and> 1 \<le> ah_state_revision a \<and> 0 \<le> ah_epoch a
     \<and> binding_ok (ah_goal a) \<and> reference_ok (ah_authority a) \<and> binding_ok (ah_budget a)
     \<and> (case ah_semantic_state a of None \<Rightarrow> True | Some b \<Rightarrow> binding_ok b)
     \<and> (case ah_active_plan a of None \<Rightarrow> True | Some b \<Rightarrow> binding_ok b)
     \<and> (\<forall>b \<in> set (ah_world_bindings a). binding_ok b) \<and> canonical_list (binding_digest h World_Binding) (ah_world_bindings a)
     \<and> (\<forall>m \<in> set (ah_memory_bindings a). memory_ok m) \<and> canonical_list (memory_binding_digest h) (ah_memory_bindings a)
     \<and> (case ah_parent_agent_run_id a of None \<Rightarrow> True | Some p \<Rightarrow> text_ok 512 p \<and> is_uuid4 p)
     \<and> (case ah_delegation_ref a of None \<Rightarrow> True | Some d \<Rightarrow> text_ok 512 d)
     \<and> (ah_parent_agent_run_id a = None \<longleftrightarrow> ah_delegation_ref a = None)
     \<and> datetime_ok (ah_created_at a)
     \<and> agent_run_subject_digest h (ah_agent_ref a) (ah_origin a) (ah_goal a) (ah_authority a) (ah_budget a)
         (ah_world_bindings a) (ah_memory_bindings a) = Inr (ai_subject_digest (ah_identity a))"

section \<open>What the constructors accept\<close>

lemma any_non_empty_Inr: "any_non_empty v = Inr s \<Longrightarrow> any_text_ok s"
  by (auto simp: any_non_empty_def any_text_ok_def chk_non_empty_def split: json.splits if_splits)

lemma any_non_empty_ok [simp]: "any_text_ok s \<Longrightarrow> any_non_empty (JStr s) = Inr s"
  by (simp add: any_non_empty_def any_text_ok_def chk_non_empty_def)

lemma lowered_digest_Inr: "lowered_digest v = Inr s \<Longrightarrow> is_sha256 s"
  by (auto simp: lowered_digest_def split: json.splits)

lemma lowered_digest_ok [simp]: "is_sha256 s \<Longrightarrow> lowered_digest (JStr s) = Inr s"
  by (simp add: lowered_digest_def chk_digest_def)

lemma canonical_bindings_Inr: "canonical_bindings d xs = Inr ys \<Longrightarrow> canonical_list d ys \<and> set ys = set xs"
  by (auto simp: canonical_bindings_def canonical_list_def split: if_splits)
    (metis distinct_map distinct_sort set_sort)

lemma canonical_bindings_ok [simp]: "canonical_list d xs \<Longrightarrow> canonical_bindings d xs = Inr xs"
  by (simp add: canonical_bindings_def canonical_list_def sort_key_id_if_sorted)

lemma binding_create_Inr: "binding_create r d v = Inr b \<Longrightarrow> binding_ok b"
  by (auto simp: binding_create_def binding_ok_def result_simps require_Inr dest!: require_non_empty_Inr)

lemma binding_from_dict_Inr: "binding_from_dict h k v = Inr b \<Longrightarrow> binding_ok b"
  by (auto simp: binding_from_dict_def result_simps dest!: binding_create_Inr)

lemma optional_binding_Inr: "optional_binding_from_dict h k v = Inr b \<Longrightarrow> case b of None \<Rightarrow> True | Some b \<Rightarrow> binding_ok b"
  by (auto simp: optional_binding_from_dict_def result_simps dest!: binding_from_dict_Inr split: if_splits)

lemma text_reference_Inr: "text_reference_create k i d v e s = Inr r \<Longrightarrow> reference_ok r"
  by (auto simp: text_reference_create_def reference_ok_def result_simps require_Inr dest!: any_non_empty_Inr lowered_digest_Inr)

lemma authority_from_dict_Inr: "authority_binding_from_dict h v = Inr r \<Longrightarrow> reference_ok r"
  by (auto simp: authority_binding_from_dict_def result_simps dest!: text_reference_Inr)

lemma require_optional_sha256_Inr: "require_optional_sha256 v = Inr x \<Longrightarrow> case x of None \<Rightarrow> True | Some s \<Rightarrow> is_sha256 s"
  by (auto simp: require_optional_sha256_def result_simps require_Inr split: if_splits)

lemma require_optional_sha256_ok [simp]: "(case x of None \<Rightarrow> True | Some s \<Rightarrow> is_sha256 s) \<Longrightarrow> require_optional_sha256 (jstr x) = Inr x"
  by (cases x) (simp_all add: require_optional_sha256_def jstr_def require_sha256_def chk_digest_def)

lemma optional_text: "require_optional_non_empty n v = Inr x \<Longrightarrow> case x of None \<Rightarrow> True | Some s \<Rightarrow> text_ok n s"
  by (drule require_optional_Inr) (auto split: option.splits)

lemma memory_create_Inr: "memory_create s p u hr hg ac pr = Inr m \<Longrightarrow> memory_ok m"
  by (auto simp: memory_create_def memory_ok_def result_simps dest!: require_non_empty_Inr optional_text
      require_optional_sha256_Inr split: if_splits)

lemma memory_from_dict_Inr: "memory_from_dict h v = Inr m \<Longrightarrow> memory_ok m"
  by (auto simp: memory_from_dict_def result_simps dest!: memory_create_Inr)

lemma emap_all: "emap f xs = Inr ys \<Longrightarrow> (\<And>x y. f x = Inr y \<Longrightarrow> P y) \<Longrightarrow> \<forall>y \<in> set ys. P y"
proof (induction xs arbitrary: ys)
  case (Cons x xs)
  then show ?case by (auto simp: ebind_Inr_iff)
qed simp

lemma header_create_Inr:
  assumes "header_create h schema identity agent_ref origin state revision epoch goal authority budget semantic plan worlds memories
       parent delegation created = Inr a"
    and "is_uuid4 (ai_run_id identity)" "is_sha256 (ai_subject_digest identity)" "origin_ok origin"
    and "binding_ok goal" "reference_ok authority" "binding_ok budget"
    and "case semantic of None \<Rightarrow> True | Some b \<Rightarrow> binding_ok b" "case plan of None \<Rightarrow> True | Some b \<Rightarrow> binding_ok b"
    and "\<forall>b \<in> set worlds. binding_ok b" "\<forall>m \<in> set memories. memory_ok m"
  shows "header_ok h a"
proof -
  obtain r v e ws ms p p2 d t where
    c: "require_non_empty 512 agent_ref = Inr r" "require_positive_int revision = Inr v" "require_non_negative_int epoch = Inr e"
      "canonical_bindings (binding_digest h World_Binding) worlds = Inr ws" "canonical_bindings (memory_binding_digest h) memories = Inr ms"
      "require_optional_non_empty 512 parent = Inr p"
      "(case p of None \<Rightarrow> Inr None | Some p \<Rightarrow> ebind (chk_uuid4 p) (\<lambda>p. Inr (Some p))) = Inr p2"
      "require_optional_non_empty 512 delegation = Inr d" "p2 = None \<longleftrightarrow> d = None" "normalize_timestamp created = Inr t"
      "agent_run_subject_digest h r origin goal authority budget ws ms = Inr (ai_subject_digest identity)"
    and a: "a = \<lparr>ah_identity = identity, ah_agent_ref = r, ah_origin = origin, ah_state = state, ah_state_revision = v, ah_epoch = e,
        ah_goal = goal, ah_authority = authority, ah_budget = budget, ah_semantic_state = semantic, ah_active_plan = plan,
        ah_world_bindings = ws, ah_memory_bindings = ms, ah_parent_agent_run_id = p2, ah_delegation_ref = d, ah_created_at = t\<rparr>"
    using assms(1) by (auto simp: header_create_def ebind_Inr_iff split: if_splits)
  have "p2 = p" "case p of None \<Rightarrow> True | Some p \<Rightarrow> is_uuid4 p"
    using c(7) by (auto simp: ebind_Inr_iff split: option.splits)
  with c(1-6,8-11) assms(2-) optional_text [OF c(6)] optional_text [OF c(8)] show ?thesis
    by (auto simp: a header_ok_def require_Inr dest!: require_non_empty_Inr canonical_bindings_Inr split: option.splits)
qed

lemma origin_from_dict_Inr: "origin_from_dict v = Inr x \<Longrightarrow> origin_ok x"
  by (auto simp: origin_from_dict_def origin_create_def origin_ok_def result_simps dest!: any_non_empty_Inr)

lemma identity_from_dict_Inr: "identity_from_dict v = Inr x \<Longrightarrow> is_uuid4 (ai_run_id x) \<and> is_sha256 (ai_subject_digest x)"
  by (auto simp: identity_from_dict_def identity_create_def result_simps require_Inr)

lemma header_from_dict_Inr:
  assumes "header_from_dict h v = Inr a"
  shows "header_ok h a"
proof -
  obtain p wj mj identity origin state goal authority budget semantic plan worlds memories where
    c: "identity_from_dict (jfield ''identity'' p) = Inr identity" "origin_from_dict (jfield ''origin'' p) = Inr origin"
      "binding_from_dict h Goal_Binding (jfield ''goal'' p) = Inr goal" "authority_binding_from_dict h (jfield ''authority'' p) = Inr authority"
      "binding_from_dict h Budget_Binding (jfield ''budget'' p) = Inr budget"
      "optional_binding_from_dict h Semantic_Binding (jfield ''semantic_state'' p) = Inr semantic"
      "optional_binding_from_dict h Plan_Binding (jfield ''active_plan'' p) = Inr plan"
      "emap (binding_from_dict h World_Binding) wj = Inr worlds" "emap (memory_from_dict h) mj = Inr memories"
      "header_create h (jfield ''schema_version'' p) identity (jfield ''agent_ref'' p) origin state
         (jfield ''state_revision'' p) (jfield ''epoch'' p) goal authority budget semantic plan worlds memories
         (jfield ''parent_agent_run_id'' p) (jfield ''delegation_ref'' p) (jfield ''created_at'' p) = Inr a"
    using assms unfolding header_from_dict_def ebind_Inr_iff by blast
  have "\<forall>b \<in> set worlds. binding_ok b" by (rule emap_all [OF c(8)]) (rule binding_from_dict_Inr)
  moreover have "\<forall>m \<in> set memories. memory_ok m" by (rule emap_all [OF c(9)]) (rule memory_from_dict_Inr)
  ultimately show ?thesis
    using identity_from_dict_Inr [OF c(1)] origin_from_dict_Inr [OF c(2)] binding_from_dict_Inr [OF c(3)] authority_from_dict_Inr [OF c(4)]
      binding_from_dict_Inr [OF c(5)] optional_binding_Inr [OF c(6)] optional_binding_Inr [OF c(7)]
    by (intro header_create_Inr [OF c(10)]) auto
qed


section \<open>Documents read back\<close>

lemma jfield_simps [simp]: "jfield k [] = JNull" "jfield k ((l, v) # kvs) = (if k = l then v else jfield k kvs)"
  by (simp_all add: jfield_def jget_def)

lemma json_norm_jstr [simp]: "json_norm (jstr x) = jstr x"
  by (cases x) (simp_all add: jstr_def)

lemma reads_jstr [simp]: "reads f \<Longrightarrow> f (jstr x) = jstr x"
  by (cases x) (simp_all add: jstr_def)

lemma validate_jstr [simp]: "validate_json (jstr x) = Inr ()"
  by (cases x) (simp_all add: jstr_def)

lemma binding_reads:
  assumes rd: "reads f" and "binding_ok b" "hex_hash h"
  shows "binding_from_dict h k (f (binding_to_dict h k b)) = Inr b"
proof -
  let ?kvs = "[(''ref'', JStr (vb_ref b)), (''digest'', JStr (vb_digest b)), (''revision'', JInt (vb_revision b)),
     (''binding_digest'', JStr (binding_digest h k b))]"
  obtain lvs where l: "require_closed_mapping [''ref'', ''digest'', ''revision'', ''binding_digest''] (f (JObj ?kvs)) = Inr lvs"
    "\<And>k. jfield k lvs = f (jfield k ?kvs)"
    by (rule closed_mapping_reads [OF rd, of ?kvs "[''ref'', ''digest'', ''revision'', ''binding_digest'']"]) simp_all
  have e: "binding_to_dict h k b = JObj ?kvs" by (simp add: binding_to_dict_def binding_identity_def)
  have c: "binding_create (JStr (vb_ref b)) (JStr (vb_digest b)) (JInt (vb_revision b)) = Inr b"
    using assms(2) by (simp add: binding_create_def binding_ok_def require_sha256_def require_positive_int_def chk_digest_def)
  have d: "require_same_digest (binding_digest h k b) (JStr (binding_digest h k b)) = Inr ()"
    using canonical_record_digest_hex [OF assms(3)] by (simp add: require_same_digest_Inr binding_digest_def)
  show ?thesis unfolding binding_from_dict_def e l(1) ebind_simps l(2) using rd by (simp add: c d)
qed

lemma binding_to_dict_not_null [simp]: "reads f \<Longrightarrow> f (binding_to_dict h k b) \<noteq> JNull"
  by (auto simp: reads_def binding_to_dict_def)

lemma optional_binding_reads:
  assumes rd: "reads f" and "case b of None \<Rightarrow> True | Some b \<Rightarrow> binding_ok b" "hex_hash h"
  shows "optional_binding_from_dict h k (f (optional_binding_to_dict h k b)) = Inr b"
  using assms by (cases b) (simp_all add: optional_binding_from_dict_def optional_binding_to_dict_def binding_reads)

lemma authority_reads:
  assumes rd: "reads f" and "reference_ok r" "hex_hash h"
  shows "authority_binding_from_dict h (f (authority_binding_to_dict h r)) = Inr r"
proof -
  let ?ks = "[''source_kind'', ''source_id'', ''digest'', ''revision'', ''epoch'', ''scope'', ''binding_digest'']"
  let ?kvs = "reference_dict r @ [(''binding_digest'', JStr (authority_binding_digest h r))]"
  obtain lvs where l: "require_closed_mapping ?ks (f (JObj ?kvs)) = Inr lvs" "\<And>k. jfield k lvs = f (jfield k ?kvs)"
    by (rule closed_mapping_reads [OF rd, of ?kvs ?ks]) (simp_all add: reference_dict_def)
  have c: "text_reference_create (JStr (tr_source_kind r)) (JStr (tr_source_id r)) (JStr (tr_digest r)) (JInt (tr_revision r))
      (JInt (tr_epoch r)) (JStr (tr_scope r)) = Inr r"
    using assms(2)
    by (simp add: text_reference_create_def reference_ok_def require_positive_int_def require_non_negative_int_def)
  have d: "require_same_digest (authority_binding_digest h r) (JStr (authority_binding_digest h r)) = Inr ()"
    using canonical_record_digest_hex [OF assms(3)] by (simp add: require_same_digest_Inr authority_binding_digest_def)
  have f: "jfield ''source_kind'' lvs = JStr (tr_source_kind r)" "jfield ''source_id'' lvs = JStr (tr_source_id r)"
    "jfield ''digest'' lvs = JStr (tr_digest r)" "jfield ''revision'' lvs = JInt (tr_revision r)"
    "jfield ''epoch'' lvs = JInt (tr_epoch r)" "jfield ''scope'' lvs = JStr (tr_scope r)"
    "jfield ''binding_digest'' lvs = JStr (authority_binding_digest h r)"
    using rd unfolding l(2) by (simp_all add: reference_dict_def)
  show ?thesis unfolding authority_binding_from_dict_def authority_binding_to_dict_def l(1) ebind_simps f c d ..
qed

lemma memory_reads:
  assumes rd: "reads f" and "memory_ok m" "hex_hash h"
  shows "memory_from_dict h (f (memory_to_dict h m)) = Inr m"
proof -
  let ?ks = "[''memory_system_id'', ''profile_id'', ''subject_ref'', ''head_ref'', ''head_digest'',
              ''access_policy_ref'', ''projection_policy_ref'', ''binding_digest'']"
  let ?kvs = "memory_identity m @ [(''binding_digest'', JStr (memory_binding_digest h m))]"
  obtain lvs where l: "require_closed_mapping ?ks (f (JObj ?kvs)) = Inr lvs" "\<And>k. jfield k lvs = f (jfield k ?kvs)"
    by (rule closed_mapping_reads [OF rd, of ?kvs ?ks]) (simp_all add: memory_identity_def)
  have c: "memory_create (JStr (mb_memory_system_id m)) (JStr (mb_profile_id m)) (JStr (mb_subject_ref m)) (jstr (mb_head_ref m))
      (jstr (mb_head_digest m)) (JStr (mb_access_policy_ref m)) (JStr (mb_projection_policy_ref m)) = Inr m"
    using assms(2) by (simp add: memory_create_def memory_ok_def)
  have d: "require_same_digest (memory_binding_digest h m) (JStr (memory_binding_digest h m)) = Inr ()"
    using canonical_record_digest_hex [OF assms(3)] by (simp add: require_same_digest_Inr memory_binding_digest_def)
  have f: "jfield ''memory_system_id'' lvs = JStr (mb_memory_system_id m)" "jfield ''profile_id'' lvs = JStr (mb_profile_id m)"
    "jfield ''subject_ref'' lvs = JStr (mb_subject_ref m)" "jfield ''head_ref'' lvs = jstr (mb_head_ref m)"
    "jfield ''head_digest'' lvs = jstr (mb_head_digest m)" "jfield ''access_policy_ref'' lvs = JStr (mb_access_policy_ref m)"
    "jfield ''projection_policy_ref'' lvs = JStr (mb_projection_policy_ref m)"
    "jfield ''binding_digest'' lvs = JStr (memory_binding_digest h m)"
    using rd unfolding l(2) by (simp_all add: memory_identity_def)
  show ?thesis unfolding memory_from_dict_def memory_to_dict_def l(1) ebind_simps f c d ..
qed

lemma identity_reads:
  assumes rd: "reads f" and "is_uuid4 (ai_run_id i)" "is_sha256 (ai_subject_digest i)"
  shows "identity_from_dict (f (identity_to_dict i)) = Inr i"
proof -
  let ?kvs = "[(''agent_run_id'', JStr (ai_run_id i)), (''subject_digest'', JStr (ai_subject_digest i))]"
  obtain lvs where l: "require_closed_mapping [''agent_run_id'', ''subject_digest''] (f (JObj ?kvs)) = Inr lvs"
    "\<And>k. jfield k lvs = f (jfield k ?kvs)"
    by (rule closed_mapping_reads [OF rd, of ?kvs "[''agent_run_id'', ''subject_digest'']"]) simp_all
  show ?thesis
    unfolding identity_from_dict_def identity_to_dict_def l(1) ebind_simps l(2)
    using assms by (simp add: identity_create_def require_uuid4_def require_sha256_def chk_uuid4_def chk_digest_def)
qed

lemma origin_reads:
  assumes rd: "reads f" and "origin_ok r"
  shows "origin_from_dict (f (origin_dict r)) = Inr r"
proof -
  let ?kvs = "[(''host'', JStr (ao_host r)), (''identifier_kind'', JStr (ao_identifier_kind r)), (''native_id'', JStr (ao_native_id r))]"
  obtain lvs where l: "require_closed_mapping [''host'', ''identifier_kind'', ''native_id''] (f (JObj ?kvs)) = Inr lvs"
    "\<And>k. jfield k lvs = f (jfield k ?kvs)"
    by (rule closed_mapping_reads [OF rd, of ?kvs "[''host'', ''identifier_kind'', ''native_id'']"]) simp_all
  show ?thesis
    unfolding origin_from_dict_def origin_dict_def l(1) ebind_simps l(2)
    using assms by (simp add: origin_create_def origin_ok_def)
qed

lemma agent_state_of_value [simp]: "agent_state_of (JStr (agent_state_value s)) = Inr s"
  by (cases s) (simp_all add: agent_state_of_def agent_states_def)

lemma emap_map_ok: "\<forall>x \<in> set xs. f (g x) = Inr x \<Longrightarrow> emap f (map g xs) = Inr xs"
  by (induction xs) simp_all


definition header_members :: "(string \<Rightarrow> string) \<Rightarrow> agent_header \<Rightarrow> (string \<times> json) list" where
  "header_members h a = (case header_to_dict h a of JObj kvs \<Rightarrow> kvs | _ \<Rightarrow> [])"

lemma header_to_dict_members: "header_to_dict h a = JObj (header_members h a)"
  by (simp add: header_members_def header_to_dict_def)

lemma validate_bindings:
  "validate_json (binding_to_dict h k b) = Inr ()" "validate_json (memory_to_dict h m) = Inr ()"
  "validate_items (map (binding_to_dict h k) bs) = Inr ()" "validate_items (map (memory_to_dict h) ms) = Inr ()"
  "validate_json (optional_binding_to_dict h k ob) = Inr ()" "validate_json (authority_binding_to_dict h r) = Inr ()"
proof -
  show b: "validate_json (binding_to_dict h k b) = Inr ()" for b by (simp add: binding_to_dict_def binding_identity_def)
  show m: "validate_json (memory_to_dict h m) = Inr ()" for m by (simp add: memory_to_dict_def memory_identity_def)
  show "validate_items (map (binding_to_dict h k) bs) = Inr ()" by (induction bs) (simp_all add: b)
  show "validate_items (map (memory_to_dict h) ms) = Inr ()" by (induction ms) (simp_all add: m)
  show "validate_json (optional_binding_to_dict h k ob) = Inr ()" by (cases ob) (simp_all add: optional_binding_to_dict_def b)
  show "validate_json (authority_binding_to_dict h r) = Inr ()" by (simp add: authority_binding_to_dict_def reference_dict_def)
qed

lemma header_document:
  assumes rd: "reads f"
  obtains p where "require_closed_mapping header_keys (f (header_to_dict h a)) = Inr p"
    "\<And>k. jfield k p = f (jfield k (header_members h a))"
proof -
  have "distinct (map fst (header_members h a))" "set (map fst (header_members h a)) = set header_keys"
    by (simp_all add: header_members_def header_to_dict_def header_keys_def)
  moreover have "validate_members (header_members h a) = Inr ()"
    by (simp add: header_members_def header_to_dict_def validate_bindings identity_to_dict_def origin_dict_def)
  ultimately show thesis by (rule closed_mapping_reads [OF rd]) (rule that [unfolded header_to_dict_members])
qed

lemma header_fields:
  assumes rd: "reads f" and fields: "\<And>k. jfield k p = f (jfield k (header_members h a))"
  shows "jfield ''schema_version'' p = JStr ''macr-agent-run/v1''" "jfield ''identity'' p = f (identity_to_dict (ah_identity a))"
    "jfield ''agent_ref'' p = JStr (ah_agent_ref a)" "jfield ''origin'' p = f (origin_dict (ah_origin a))"
    "jfield ''state'' p = JStr (agent_state_value (ah_state a))" "jfield ''state_revision'' p = JInt (ah_state_revision a)"
    "jfield ''epoch'' p = JInt (ah_epoch a)" "jfield ''goal'' p = f (binding_to_dict h Goal_Binding (ah_goal a))"
    "jfield ''authority'' p = f (authority_binding_to_dict h (ah_authority a))"
    "jfield ''budget'' p = f (binding_to_dict h Budget_Binding (ah_budget a))"
    "jfield ''semantic_state'' p = f (optional_binding_to_dict h Semantic_Binding (ah_semantic_state a))"
    "jfield ''active_plan'' p = f (optional_binding_to_dict h Plan_Binding (ah_active_plan a))"
    "jfield ''world_bindings'' p = JList (map (\<lambda>b. f (binding_to_dict h World_Binding b)) (ah_world_bindings a))"
    "jfield ''memory_bindings'' p = JList (map (\<lambda>m. f (memory_to_dict h m)) (ah_memory_bindings a))"
    "jfield ''parent_agent_run_id'' p = jstr (ah_parent_agent_run_id a)" "jfield ''delegation_ref'' p = jstr (ah_delegation_ref a)"
    "jfield ''created_at'' p = JStr (isoformat (ah_created_at a))"
  using rd unfolding fields by (simp_all add: header_members_def header_to_dict_def comp_def)

lemma header_create_ok:
  assumes "header_ok h a"
  shows "header_create h (JStr ''macr-agent-run/v1'') (ah_identity a) (JStr (ah_agent_ref a)) (ah_origin a) (ah_state a)
    (JInt (ah_state_revision a)) (JInt (ah_epoch a)) (ah_goal a) (ah_authority a) (ah_budget a) (ah_semantic_state a)
    (ah_active_plan a) (ah_world_bindings a) (ah_memory_bindings a) (jstr (ah_parent_agent_run_id a)) (jstr (ah_delegation_ref a))
    (JStr (isoformat (ah_created_at a))) = Inr a"
proof -
  have p: "(case ah_parent_agent_run_id a of None \<Rightarrow> Inr None | Some p \<Rightarrow> ebind (chk_uuid4 p) (\<lambda>p. Inr (Some p))) = Inr (ah_parent_agent_run_id a)"
    "require_optional_non_empty 512 (jstr (ah_parent_agent_run_id a)) = Inr (ah_parent_agent_run_id a)"
    "require_optional_non_empty 512 (jstr (ah_delegation_ref a)) = Inr (ah_delegation_ref a)"
    using assms by (auto simp: header_ok_def chk_uuid4_def split: option.splits)
  have "normalize_timestamp (JStr (isoformat (ah_created_at a))) = Inr (ah_created_at a)"
    using assms by (simp add: normalize_timestamp_Inr header_ok_def)
  with p assms show ?thesis
    by (simp add: header_create_def header_ok_def require_positive_int_def require_non_negative_int_def)
qed

lemma header_reads:
  assumes rd: "reads f" and "header_ok h a" "hex_hash h"
  shows "header_from_dict h (f (header_to_dict h a)) = Inr a"
proof -
  obtain p where p: "require_closed_mapping header_keys (f (header_to_dict h a)) = Inr p"
    "\<And>k. jfield k p = f (jfield k (header_members h a))"
    using header_document [OF rd] by blast
  note f = header_fields [OF rd p(2)]
  note a = assms(2) [unfolded header_ok_def]
  have w: "emap (binding_from_dict h World_Binding) (map (\<lambda>b. f (binding_to_dict h World_Binding b)) (ah_world_bindings a))
      = Inr (ah_world_bindings a)"
    "emap (memory_from_dict h) (map (\<lambda>m. f (memory_to_dict h m)) (ah_memory_bindings a)) = Inr (ah_memory_bindings a)"
    using rd a assms(3) by (simp_all add: emap_map_ok binding_reads memory_reads)
  have c: "identity_from_dict (f (identity_to_dict (ah_identity a))) = Inr (ah_identity a)"
    "origin_from_dict (f (origin_dict (ah_origin a))) = Inr (ah_origin a)"
    "binding_from_dict h Goal_Binding (f (binding_to_dict h Goal_Binding (ah_goal a))) = Inr (ah_goal a)"
    "authority_binding_from_dict h (f (authority_binding_to_dict h (ah_authority a))) = Inr (ah_authority a)"
    "binding_from_dict h Budget_Binding (f (binding_to_dict h Budget_Binding (ah_budget a))) = Inr (ah_budget a)"
    "optional_binding_from_dict h Semantic_Binding (f (optional_binding_to_dict h Semantic_Binding (ah_semantic_state a)))
       = Inr (ah_semantic_state a)"
    "optional_binding_from_dict h Plan_Binding (f (optional_binding_to_dict h Plan_Binding (ah_active_plan a))) = Inr (ah_active_plan a)"
    using rd a assms(3) by (simp_all add: identity_reads origin_reads binding_reads authority_reads optional_binding_reads)
  show ?thesis
    unfolding header_from_dict_def p(1) f ebind_simps json_array_def json.case c agent_state_of_value w
    by (rule header_create_ok [OF assms(2)])
qed

lemmas binding_round_trip = binding_reads [OF reads_norm]
lemmas optional_binding_round_trip = optional_binding_reads [OF reads_norm]
lemmas header_round_trip = header_reads [OF reads_norm]

end
