(* ===== verification/AgentEventProps.thy ===== *)
theory AgentEventProps
  imports AgentRecovery AgentDocuments
begin

text \<open>
  Events read back as they were written: normalising a payload twice changes nothing, a stored event row
  yields the event, and a chain that is extended by an event that applies replays to its projection.
\<close>

section \<open>Payloads are normalised once\<close>

lemma jfield_norm:
  "distinct (map fst kvs) \<Longrightarrow> jfield k (sort_key fst (norm_members kvs)) = json_norm (jfield k kvs)"
  by (simp add: jfield_def jget_norm split: option.splits)

lemma reason_again:
  assumes "reason_payload data = Inr n"
  obtains kvs where "n = JObj kvs" "distinct (map fst kvs)" "map fst kvs = [''reason_code'', ''reason_digest'']"
    "reason_payload (sort_key fst (norm_members kvs)) = Inr n"
proof -
  obtain c d where n: "n = JObj [(''reason_code'', JStr c), (''reason_digest'', JStr d)]" "text_ok 128 c" "is_sha256 d"
    using assms by (auto simp: reason_payload_def result_simps require_Inr dest!: require_non_empty_Inr)
  show thesis
  proof (rule that [of "[(''reason_code'', JStr c), (''reason_digest'', JStr d)]"])
    show "reason_payload (sort_key fst (norm_members [(''reason_code'', JStr c), (''reason_digest'', JStr d)])) = Inr n"
      unfolding reason_payload_def by (subst jfield_norm, simp)+ (simp add: n require_sha256_def chk_digest_def)
  qed (simp_all add: n)
qed

lemma completed_again:
  assumes "completed_payload data = Inr n"
  obtains kvs where "n = JObj kvs" "distinct (map fst kvs)" "map fst kvs = [''evidence_ref'', ''evidence_digest'']"
    "completed_payload (sort_key fst (norm_members kvs)) = Inr n"
proof -
  obtain c d where n: "n = JObj [(''evidence_ref'', JStr c), (''evidence_digest'', JStr d)]" "text_ok 512 c" "is_sha256 d"
    using assms by (auto simp: completed_payload_def result_simps require_Inr dest!: require_non_empty_Inr)
  show thesis
  proof (rule that [of "[(''evidence_ref'', JStr c), (''evidence_digest'', JStr d)]"])
    show "completed_payload (sort_key fst (norm_members [(''evidence_ref'', JStr c), (''evidence_digest'', JStr d)])) = Inr n"
      unfolding completed_payload_def by (subst jfield_norm, simp)+ (simp add: n require_sha256_def chk_digest_def)
  qed (simp_all add: n)
qed

lemma owner_again:
  assumes "owner_payload data = Inr n"
  obtains kvs where "n = JObj kvs" "distinct (map fst kvs)" "map fst kvs = [''owner_id'', ''lease_id'', ''fencing_token'', ''expires_at'']"
    "owner_payload (sort_key fst (norm_members kvs)) = Inr n"
proof -
  obtain w l t x where n: "n = JObj [(''owner_id'', JStr w), (''lease_id'', JStr l), (''fencing_token'', JInt t), (''expires_at'', JStr (isoformat x))]"
    "text_ok 256 w" "is_uuid4 l" "1 \<le> t" "datetime_ok x"
    using assms by (auto simp: owner_payload_def result_simps require_Inr dest!: require_non_empty_Inr)
  show thesis
  proof (rule that [of "[(''owner_id'', JStr w), (''lease_id'', JStr l), (''fencing_token'', JInt t), (''expires_at'', JStr (isoformat x))]"])
    have x: "normalize_timestamp (JStr (isoformat x)) = Inr x" using n(5) by (simp add: normalize_timestamp_Inr)
    show "owner_payload (sort_key fst (norm_members [(''owner_id'', JStr w), (''lease_id'', JStr l), (''fencing_token'', JInt t), (''expires_at'', JStr (isoformat x))])) = Inr n"
      unfolding owner_payload_def
      by (subst jfield_norm, simp)+ (use n(4) in \<open>simp add: n(1-3) x require_uuid4_def chk_uuid4_def require_positive_int_def\<close>)
  qed (simp_all add: n)
qed

lemma created_again:
  assumes "created_payload h data = Inr n" "hex_hash h"
  obtains kvs where "n = JObj kvs" "distinct (map fst kvs)" "map fst kvs = [''initial_header'']"
    "created_payload h (sort_key fst (norm_members kvs)) = Inr n"
proof -
  obtain a p where n: "header_from_dict h (jfield ''initial_header'' data) = Inr a"
    "from_creation_header a (JStr (isoformat (ah_created_at a))) = Inr p" "n = JObj [(''initial_header'', header_to_dict h a)]"
    using assms(1) by (auto simp: created_payload_def ebind_Inr_iff)
  have r: "header_from_dict h (json_norm (header_to_dict h a)) = Inr a"
    using header_round_trip [OF header_from_dict_Inr [OF n(1)] assms(2)] .
  show thesis
  proof (rule that [of "[(''initial_header'', header_to_dict h a)]"])
    show "created_payload h (sort_key fst (norm_members [(''initial_header'', header_to_dict h a)])) = Inr n"
      unfolding created_payload_def by (subst jfield_norm, simp) (simp add: r n(2,3))
  qed (simp_all add: n(3))
qed

lemma semantic_again:
  assumes "semantic_payload h data = Inr n" "hex_hash h"
  obtains kvs where "n = JObj kvs" "distinct (map fst kvs)" "map fst kvs = payload_fields Semantic_State_Advanced"
    "semantic_payload h (sort_key fst (norm_members kvs)) = Inr n"
proof -
  obtain k where k: "require_non_empty 32 (jfield ''operation_kind'' data) = Inr k" "k = ''attach'' \<or> k = ''commit''"
    using assms(1) by (cases "require_non_empty 32 (jfield ''operation_kind'' data)") (auto simp: semantic_payload_def split: if_splits)
  then have "\<not> (k \<noteq> ''attach'' \<and> k \<noteq> ''commit'')" by blast
  note e = assms(1) [unfolded semantic_payload_def k(1) ebind_simps if_not_P [OF this] ebind_Inr_iff]
  obtain pv nb pr pa where p:
      "optional_binding_from_dict h Semantic_Binding (jfield ''previous_binding'' data) = Inr pv"
      "binding_from_dict h Semantic_Binding (jfield ''new_binding'' data) = Inr nb"
      "require_optional_sha256 (jfield ''proposal_digest'' data) = Inr pr" "require_optional_sha256 (jfield ''patch_digest'' data) = Inr pa"
    using e by blast
  have q: "\<not> (k = ''attach'' \<and> (pr \<noteq> None \<or> pa \<noteq> None))" "\<not> (k = ''commit'' \<and> (pr = None \<or> pa = None))"
    using e p by (auto split: if_splits)
  note e2 = assms(1) [unfolded semantic_payload_def k(1) ebind_simps if_not_P [OF \<open>\<not> (k \<noteq> ''attach'' \<and> k \<noteq> ''commit'')\<close>]
      p if_not_P [OF q(1)] if_not_P [OF q(2)] ebind_Inr_iff]
  obtain i r a where z: "is_uuid4 i" "is_sha256 r" "is_sha256 a"
    and n: "n = JObj [(''operation_kind'', JStr k), (''operation_id'', JStr i),
                 (''previous_binding'', optional_binding_to_dict h Semantic_Binding pv),
                 (''new_binding'', binding_to_dict h Semantic_Binding nb),
                 (''proposal_digest'', jstr pr), (''patch_digest'', jstr pa), (''registry_digest'', JStr r),
                 (''authorization_digest'', JStr a)]" (is "n = JObj ?kvs")
    using e2 unfolding require_uuid4_Inr require_sha256_Inr by blast
  note s = k p q z
  have b: "optional_binding_from_dict h Semantic_Binding (json_norm (optional_binding_to_dict h Semantic_Binding pv)) = Inr pv"
    "binding_from_dict h Semantic_Binding (json_norm (binding_to_dict h Semantic_Binding nb)) = Inr nb"
    using optional_binding_round_trip [OF optional_binding_Inr [OF s(3)] assms(2)] binding_round_trip [OF binding_from_dict_Inr [OF s(4)] assms(2)]
    by simp_all
  have o1: "require_optional_sha256 (jstr pr) = Inr pr" "require_optional_sha256 (jstr pa) = Inr pa" "require_non_empty 32 (JStr k) = Inr k"
    using require_optional_sha256_Inr [OF s(5)] require_optional_sha256_Inr [OF s(6)] require_non_empty_Inr [OF s(1)] by simp_all
  show thesis
  proof (rule that [of ?kvs])
    have f: "jfield ''operation_kind'' (sort_key fst (norm_members ?kvs)) = JStr k" "jfield ''operation_id'' (sort_key fst (norm_members ?kvs)) = JStr i"
      "jfield ''previous_binding'' (sort_key fst (norm_members ?kvs)) = json_norm (optional_binding_to_dict h Semantic_Binding pv)"
      "jfield ''new_binding'' (sort_key fst (norm_members ?kvs)) = json_norm (binding_to_dict h Semantic_Binding nb)"
      "jfield ''proposal_digest'' (sort_key fst (norm_members ?kvs)) = jstr pr" "jfield ''patch_digest'' (sort_key fst (norm_members ?kvs)) = jstr pa"
      "jfield ''registry_digest'' (sort_key fst (norm_members ?kvs)) = JStr r" "jfield ''authorization_digest'' (sort_key fst (norm_members ?kvs)) = JStr a"
      by (subst jfield_norm; simp)+
    show "semantic_payload h (sort_key fst (norm_members ?kvs)) = Inr n"
      unfolding semantic_payload_def f b o1 ebind_simps using s(2,7-11) unfolding n
      by (auto simp: require_uuid4_def require_sha256_def chk_uuid4_def chk_digest_def)
  qed (simp_all add: n)
qed

lemma typed_again:
  assumes "typed_payload h t data = Inr n" "hex_hash h"
  obtains kvs where "n = JObj kvs" "distinct (map fst kvs)" "map fst kvs = payload_fields t"
    "typed_payload h t (sort_key fst (norm_members kvs)) = Inr n"
proof (cases t)
  case Run_Created
  with assms created_again [of h data n] that show thesis by (auto simp: typed_payload_def)
next
  case Owner_Acquired
  with assms owner_again [of data n] that show thesis by (auto simp: typed_payload_def)
next
  case Run_Completed
  with assms completed_again [of data n] that show thesis by (auto simp: typed_payload_def)
next
  case Semantic_State_Advanced
  with assms semantic_again [of h data n] that show thesis by (auto simp: typed_payload_def)
qed (use assms reason_again [of data n] that in \<open>auto simp: typed_payload_def\<close>)

lemma validated_payload_again:
  assumes "validated_payload h t payload = Inr q" "hex_hash h"
  shows "validated_payload h t q = Inr q" "validate_json q = Inr ()" "json_norm q = q"
proof -
  obtain data n where n: "typed_payload h t data = Inr n" "validate_content_free n = Inr ()" "validate_json n = Inr ()" "q = json_norm n"
    using assms(1) by (auto simp: validated_payload_def ebind_Inr_iff split: json.splits if_splits)
  obtain kvs where k: "n = JObj kvs" "distinct (map fst kvs)" "map fst kvs = payload_fields t"
    "typed_payload h t (sort_key fst (norm_members kvs)) = Inr n"
    using typed_again [OF n(1) assms(2)] .
  have "set (map fst (sort_key fst (norm_members kvs))) = set (payload_fields t)" using k(3) keys_norm [of kvs] by (metis list.set_map)
  then show "validated_payload h t q = Inr q"
    unfolding validated_payload_def n(4) k(1) json_norm.simps json.case using k n(2,3) by simp
  show "validate_json q = Inr ()" using n(3,4) by simp
  show "json_norm q = q" by (simp add: n(4))
qed

section \<open>Events read back\<close>

definition event_ok :: "(string \<Rightarrow> string) \<Rightarrow> agent_event \<Rightarrow> bool" where
  "event_ok h v \<longleftrightarrow> is_uuid4 (ae_event_id v) \<and> is_uuid4 (ae_run_id v) \<and> 0 \<le> ae_epoch v \<and> 0 \<le> ae_before_revision v
     \<and> ae_after_revision v = ae_before_revision v + 1 \<and> is_sha256 (ae_state_digest_after v) \<and> datetime_ok (ae_created_at v)
     \<and> validated_payload h (ae_event_type v) (ae_payload v) = Inr (ae_payload v) \<and> validate_json (ae_payload v) = Inr ()
     \<and> event_times h v = Inr ()"

lemma event_create_Inr:
  assumes "event_create h i r ep b a t payload d c = Inr v" "hex_hash h"
  shows "event_ok h v \<and> ae_event_type v = t \<and> i = JStr (ae_event_id v) \<and> r = JStr (ae_run_id v) \<and> ep = JInt (ae_epoch v)
    \<and> b = JInt (ae_before_revision v) \<and> a = JInt (ae_after_revision v) \<and> d = JStr (ae_state_digest_after v)
    \<and> c = JStr (isoformat (ae_created_at v)) \<and> validated_payload h t payload = Inr (ae_payload v)"
proof -
  obtain ei ru en bn q dg cr where
    c: "require_uuid4 i = Inr ei" "require_uuid4 r = Inr ru" "require_non_negative_int ep = Inr en" "require_non_negative_int b = Inr bn"
      "require_positive_int a = Inr (bn + 1)" "validated_payload h t payload = Inr q" "require_sha256 d = Inr dg" "normalize_timestamp c = Inr cr"
      "event_times h v = Inr ()"
    and v: "v = \<lparr>ae_event_id = ei, ae_run_id = ru, ae_epoch = en, ae_before_revision = bn, ae_after_revision = bn + 1,
      ae_event_type = t, ae_payload = q, ae_state_digest_after = dg, ae_created_at = cr\<rparr>"
    using assms(1) by (auto simp: event_create_def ebind_Inr_iff Let_def split: if_splits)
  have f: "ae_event_id v = ei" "ae_run_id v = ru" "ae_epoch v = en" "ae_before_revision v = bn" "ae_after_revision v = bn + 1"
    "ae_event_type v = t" "ae_payload v = q" "ae_state_digest_after v = dg" "ae_created_at v = cr" by (simp_all add: v)
  show ?thesis
    unfolding event_ok_def f using c validated_payload_again [OF c(6) assms(2)] by (simp add: require_Inr)
qed

lemma event_create_again:
  assumes "event_ok h v"
  shows "event_create h (JStr (ae_event_id v)) (JStr (ae_run_id v)) (JInt (ae_epoch v)) (JInt (ae_before_revision v))
    (JInt (ae_after_revision v)) (ae_event_type v) (ae_payload v) (JStr (ae_state_digest_after v)) (JStr (isoformat (ae_created_at v))) = Inr v"
proof -
  have t: "normalize_timestamp (JStr (isoformat (ae_created_at v))) = Inr (ae_created_at v)"
    using assms by (simp add: normalize_timestamp_Inr event_ok_def)
  have v: "\<lparr>ae_event_id = ae_event_id v, ae_run_id = ae_run_id v, ae_epoch = ae_epoch v, ae_before_revision = ae_before_revision v,
      ae_after_revision = ae_before_revision v + 1, ae_event_type = ae_event_type v, ae_payload = ae_payload v,
      ae_state_digest_after = ae_state_digest_after v, ae_created_at = ae_created_at v\<rparr> = v"
    using assms by (cases v) (simp add: event_ok_def)
  show ?thesis
    using assms unfolding event_create_def
    by (simp add: event_ok_def t v require_uuid4_def require_sha256_def chk_uuid4_def chk_digest_def
        require_non_negative_int_def require_positive_int_def Let_def)
qed

lemma event_type_of_value [simp]: "event_type_of (JStr (event_type_value t)) = Inr t"
  by (cases t) (simp_all add: event_type_of_def event_types_def)

definition event_row_of :: "(string \<Rightarrow> string) \<Rightarrow> int \<Rightarrow> agent_event \<Rightarrow> event_row" where
  "event_row_of h n v =
     \<lparr>er_sequence = n, er_event_id = ae_event_id v, er_run_id = ae_run_id v, er_epoch = ae_epoch v,
      er_before_revision = ae_before_revision v, er_after_revision = ae_after_revision v, er_event_type = ae_event_type v,
      er_payload_json = ae_payload v, er_payload_digest = payload_digest h v,
      er_state_digest_after = ae_state_digest_after v, er_created_at = ae_created_at v\<rparr>"

lemma event_from_row_of:
  assumes "event_ok h v" "hex_hash h"
  shows "event_from_row h (event_row_of h n v) = Inr v"
proof -
  have d: "require_same_digest (payload_digest h v) (JStr (payload_digest h v)) = Inr ()"
    using canonical_record_digest_hex [OF assms(2)] by (simp add: require_same_digest_Inr payload_digest_def)
  have "validate_json (ae_payload v) = Inr ()" using assms(1) by (simp add: event_ok_def)
  then show ?thesis
    by (simp add: event_from_row_def event_row_of_def event_from_dict_def require_closed_mapping_def event_create_again [OF assms(1)] d recast_def)
qed

lemma event_from_row_Inr:
  assumes "event_from_row h r = Inr v" "hex_hash h"
  shows "event_ok h v \<and> ae_event_id v = er_event_id r \<and> ae_run_id v = er_run_id r \<and> ae_epoch v = er_epoch r
    \<and> ae_after_revision v = er_after_revision r \<and> ae_state_digest_after v = er_state_digest_after r \<and> ae_event_type v = er_event_type r
    \<and> ae_payload v = ae_payload v"
proof -
  from assms(1) have "event_create h (JStr (er_event_id r)) (JStr (er_run_id r)) (JInt (er_epoch r)) (JInt (er_before_revision r))
      (JInt (er_after_revision r)) (er_event_type r) (er_payload_json r) (JStr (er_state_digest_after r)) (JStr (isoformat (er_created_at r))) = Inr v"
    by (auto simp: event_from_row_def recast_def event_from_dict_def require_closed_mapping_def ebind_Inr_iff split: sum.splits if_splits)
  from event_create_Inr [OF this assms(2)] show ?thesis by simp
qed


section \<open>Projections\<close>

definition projection_ok :: "(string \<Rightarrow> string) \<Rightarrow> agent_projection \<Rightarrow> bool" where
  "projection_ok h p \<longleftrightarrow> header_ok h (ap_initial_header p) \<and> ah_state (ap_initial_header p) = Created
     \<and> ah_state_revision (ap_initial_header p) = 1 \<and> ah_epoch (ap_initial_header p) = 0
     \<and> 1 \<le> ap_state_revision p \<and> 0 \<le> ap_epoch p \<and> datetime_ok (ap_updated_at p)"

lemma projection_create_Inr:
  "projection_create a s r ep u = Inr p \<longleftrightarrow> ah_state a = Created \<and> ah_state_revision a = 1 \<and> ah_epoch a = 0
     \<and> r = JInt (ap_state_revision p) \<and> 1 \<le> ap_state_revision p \<and> ep = JInt (ap_epoch p) \<and> 0 \<le> ap_epoch p
     \<and> u = JStr (isoformat (ap_updated_at p)) \<and> datetime_ok (ap_updated_at p) \<and> ap_initial_header p = a \<and> ap_state p = s"
  by (cases p) (auto simp: projection_create_def require_creation_header_def ebind_Inr_iff require_Inr)

lemma projection_create_ok:
  "projection_ok h p \<Longrightarrow> projection_create (ap_initial_header p) (ap_state p) (JInt (ap_state_revision p)) (JInt (ap_epoch p))
     (JStr (isoformat (ap_updated_at p))) = Inr p"
  by (simp add: projection_create_Inr projection_ok_def)

lemma from_creation_Inr:
  "from_creation_header a (JStr (isoformat t)) = Inr p \<Longrightarrow> header_ok h a \<Longrightarrow> datetime_ok t
     \<Longrightarrow> projection_ok h p \<and> ap_initial_header p = a \<and> ap_state p = Created \<and> ap_state_revision p = 1 \<and> ap_epoch p = 0 \<and> ap_updated_at p = t"
  by (auto simp: from_creation_header_def require_creation_header_def ebind_Inr_iff projection_create_Inr projection_ok_def
      dest: isoformat_inject split: if_splits)

definition moves_on :: "agent_projection \<Rightarrow> agent_event \<Rightarrow> agent_projection \<Rightarrow> bool" where
  "moves_on p v q \<longleftrightarrow> ap_initial_header q = ap_initial_header p \<and> ap_state_revision q = ap_state_revision p + 1
     \<and> ae_before_revision v = ap_state_revision p
     \<and> ap_epoch p \<le> ap_epoch q \<and> (ap_state q = ap_state p \<or> ap_state q \<in> set (phase_b_transitions (ap_state p)))
     \<and> ae_run_id v = ap_run_id p"

definition shows_event :: "(string \<Rightarrow> string) \<Rightarrow> agent_projection \<Rightarrow> agent_event \<Rightarrow> bool" where
  "shows_event h q v \<longleftrightarrow> ae_after_revision v = ap_state_revision q \<and> ae_epoch v = ap_epoch q \<and> ae_run_id v = ap_run_id q
     \<and> ae_state_digest_after v = state_digest h q"

lemma next_state_Inr:
  "next_state p v = Inr s \<Longrightarrow> ap_epoch p \<le> ae_epoch v \<and> (s = ap_state p \<or> s \<in> set (phase_b_transitions (ap_state p)))"
  by (auto simp: next_state_def require_phase_b_transition_def split: agent_event_type.splits if_splits option.splits sum.splits)

lemma apply_Some:
  assumes "apply_agent_event h (Some p) v = Inr q" "projection_ok h p" "event_ok h v"
  shows "projection_ok h q \<and> moves_on p v q \<and> shows_event h q v \<and> ae_event_type v \<noteq> Run_Created"
proof -
  obtain s where n: "ae_event_type v \<noteq> Run_Created" "ae_run_id v = ap_run_id p" "ae_before_revision v = ap_state_revision p"
      "ae_after_revision v = ap_state_revision p + 1" "next_state p v = Inr s"
    and c: "projection_create (ap_initial_header p) s (JInt (ae_after_revision v)) (JInt (ae_epoch v)) (JStr (isoformat (ae_created_at v))) = Inr q"
    and d: "state_digest h q = ae_state_digest_after v" "ap_run_id q = ae_run_id v"
    using assms(1) by (auto simp: apply_agent_event_def next_projection_def ebind_Inr_iff split: if_splits)
  from c [unfolded projection_create_Inr] n next_state_Inr [OF n(5)] d assms(2) show ?thesis
    by (simp add: moves_on_def shows_event_def projection_ok_def)
qed

lemma apply_None:
  assumes "apply_agent_event h None v = Inr q" "event_ok h v"
  shows "projection_ok h q \<and> shows_event h q v \<and> ap_state_revision q = 1 \<and> ap_state q = Created \<and> ap_epoch q = 0
    \<and> event_header h v = Inr (ap_initial_header q) \<and> ae_event_type v = Run_Created"
proof -
  obtain a where n: "ae_event_type v = Run_Created" "ae_after_revision v = 1" "ae_epoch v = 0" "event_header h v = Inr a"
      "from_creation_header a (JStr (isoformat (ae_created_at v))) = Inr q"
    and d: "state_digest h q = ae_state_digest_after v" "ap_run_id q = ae_run_id v"
    using assms(1) by (auto simp: apply_agent_event_def first_projection_def ebind_Inr_iff split: if_splits)
  have "header_ok h a" using header_from_dict_Inr n(4) by (simp add: event_header_def)
  from from_creation_Inr [OF n(5) this] n d assms(2) show ?thesis by (simp add: shows_event_def event_ok_def)
qed

section \<open>Replay\<close>

lemma replay_snoc:
  "replay_from h ids cur vs = Inr p \<Longrightarrow> ae_event_id v \<notin> set ids \<Longrightarrow> ae_event_id v \<notin> ae_event_id ` set vs
     \<Longrightarrow> apply_agent_event h (Some p) v = Inr q \<Longrightarrow> replay_from h ids cur (vs @ [v]) = Inr q"
proof (induction vs arbitrary: ids cur)
  case Nil
  then show ?case by (simp split: option.splits)
next
  case (Cons x vs)
  then show ?case by (auto simp: ebind_Inr_iff split: if_splits)
qed

lemma replay_one: "apply_agent_event h None v = Inr q \<Longrightarrow> replay_agent_events h [v] = Inr q"
  by (simp add: replay_agent_events_def)

lemma replay_events_snoc:
  "replay_agent_events h vs = Inr p \<Longrightarrow> ae_event_id v \<notin> ae_event_id ` set vs \<Longrightarrow> apply_agent_event h (Some p) v = Inr q
     \<Longrightarrow> replay_agent_events h (vs @ [v]) = Inr q"
  unfolding replay_agent_events_def by (rule replay_snoc) simp_all

lemma replay_invariant:
  assumes "replay_from h ids cur vs = Inr p" "\<forall>v \<in> set vs. event_ok h v" "vs \<noteq> []"
    and "case cur of None \<Rightarrow> n = 0 | Some c \<Rightarrow> projection_ok h c \<and> ap_state_revision c = n"
  shows "projection_ok h p \<and> shows_event h p (last vs) \<and> ap_state_revision p = n + int (length vs)
    \<and> (\<forall>v \<in> set vs. ae_run_id v = ap_run_id p)"
  using assms
proof (induction vs arbitrary: ids cur n)
  case (Cons v vs)
  then obtain q where q: "apply_agent_event h cur v = Inr q" "replay_from h (ae_event_id v # ids) (Some q) vs = Inr p"
    by (auto simp: ebind_Inr_iff split: if_splits)
  have f: "projection_ok h q \<and> shows_event h q v \<and> ap_state_revision q = n + 1"
  proof (cases cur)
    case None
    with apply_None [of h v q] q(1) Cons.prems show ?thesis by simp
  next
    case (Some c)
    with apply_Some [of h c v q] q(1) Cons.prems show ?thesis by (simp add: moves_on_def)
  qed
  show ?case
  proof (cases "vs = []")
    case True
    with q f show ?thesis by (simp add: shows_event_def)
  next
    case False
    from Cons.IH [OF q(2) _ False, of "n + 1"] f Cons.prems(2) have
      i: "projection_ok h p \<and> shows_event h p (last vs) \<and> ap_state_revision p = n + 1 + int (length vs)
        \<and> (\<forall>v \<in> set vs. ae_run_id v = ap_run_id p)" by simp
    moreover have "ae_run_id v = ap_run_id p"
    proof -
      obtain w ws where w: "vs = w # ws" using False by (cases vs) simp_all
      with q(2) obtain q2 where "apply_agent_event h (Some q) w = Inr q2" by (auto simp: ebind_Inr_iff split: if_splits)
      from apply_Some [OF this] f Cons.prems(2) w have "ae_run_id w = ap_run_id q" by (simp add: moves_on_def)
      with f i w show ?thesis by (simp add: shows_event_def)
    qed
    ultimately show ?thesis using False by simp
  qed
qed simp

lemma replay_facts:
  assumes "replay_agent_events h vs = Inr p" "\<forall>v \<in> set vs. event_ok h v"
  shows "vs \<noteq> [] \<and> projection_ok h p \<and> shows_event h p (last vs) \<and> ap_state_revision p = int (length vs)
    \<and> (\<forall>v \<in> set vs. ae_run_id v = ap_run_id p)"
proof -
  have "vs \<noteq> []" using assms(1) by (auto simp: replay_agent_events_def)
  with replay_invariant [of h "[]" None vs p 0] assms show ?thesis by (simp add: replay_agent_events_def)
qed

lemma semantic_snoc_other:
  "ae_event_type v \<noteq> Semantic_State_Advanced \<Longrightarrow> replay_semantic_binding h cur (vs @ [v]) = replay_semantic_binding h cur vs"
  by (induction vs arbitrary: cur) (auto intro!: arg_cong [of _ _ "ebind _"])

lemma semantic_snoc:
  assumes "replay_semantic_binding h cur vs = Inr b" "ae_event_type v = Semantic_State_Advanced"
    "optional_binding_from_dict h Semantic_Binding (payload_field ''previous_binding'' v) = Inr b"
    "binding_from_dict h Semantic_Binding (payload_field ''new_binding'' v) = Inr c"
  shows "replay_semantic_binding h cur (vs @ [v]) = Inr (Some c)"
  using assms(1) by (induction vs arbitrary: cur) (use assms(2-4) in \<open>auto simp: ebind_Inr_iff split: if_splits\<close>)

lemma semantic_ok:
  "replay_semantic_binding h cur vs = Inr b \<Longrightarrow> (case cur of None \<Rightarrow> True | Some c \<Rightarrow> binding_ok c)
     \<Longrightarrow> (case b of None \<Rightarrow> True | Some c \<Rightarrow> binding_ok c)"
proof (induction vs arbitrary: cur)
  case (Cons v vs)
  then show ?case using binding_from_dict_Inr by (fastforce simp: ebind_Inr_iff split: if_splits)
qed simp

end
