(* ===== verification/AgentStoreSteps.thy ===== *)
theory AgentStoreSteps
  imports AgentEventProps FencedTokens
begin

text \<open>
  The agent store as a step system. Every transaction leaves the log as it is, or appends one event that
  applies to the projection of its run and writes the projection it leads to; so at any time the row of
  a run is the replay of its events.
\<close>

section \<open>Transactions\<close>

inductive agent_step :: "(string \<Rightarrow> string) \<Rightarrow> agent_db \<Rightarrow> agent_db \<Rightarrow> bool" for h :: "string \<Rightarrow> string" where
  create: "sha e = h \<Longrightarrow> header_ok h header \<Longrightarrow> create_agent_run e header event_id db = (pres, db') \<Longrightarrow> agent_step h db db'"
| unowned: "sha e = h \<Longrightarrow> transition_unowned e run expected target revision epoch t payload created event_id db = (pres, db')
    \<Longrightarrow> agent_step h db db'"
| acquire: "sha e = h \<Longrightarrow> acquire_ownership e run owner revision epoch observed expires lease event_id db = (qres, db')
    \<Longrightarrow> agent_step h db db'"
| renew: "renew_ownership permit observed expires db = (qres, db') \<Longrightarrow> agent_step h db db'"
| release: "release_ownership permit db = (bres, db') \<Longrightarrow> agent_step h db db'"
| owned: "sha e = h \<Longrightarrow> transition_owned e permit states target revision epoch t payload created event_id db = (pres, db')
    \<Longrightarrow> agent_step h db db'"
| semantic: "event_ok h v \<Longrightarrow> semantic_commit h current v new_binding revision epoch db = Inr (p, db') \<Longrightarrow> agent_step h db db'"
| rebuild: "sha e = h \<Longrightarrow> rebuild_projection e run observed_at db = (pres, db') \<Longrightarrow> agent_step h db db'"

lemma agent_commit_cases:
  assumes "agent_commit db r = (res, db')"
  obtains err where "r = Inl err" "res = Inl err" "db' = db" | a where "r = Inr (a, db')" "res = Inr a"
  using assms by (cases r) (auto simp: agent_commit_def)

section \<open>The row of a run\<close>

definition row_shows :: "(string \<Rightarrow> string) \<Rightarrow> agent_db \<Rightarrow> run_state_row \<Rightarrow> agent_projection \<Rightarrow> versioned_binding option \<Rightarrow> bool" where
  "row_shows h db r p sem \<longleftrightarrow>
     (\<exists>vs. emap (event_from_row h) (run_events (rs_run_id r) db) = Inr vs \<and> replay_agent_events h vs = Inr p
        \<and> replay_semantic_binding h (ah_semantic_state (ap_initial_header p)) vs = Inr sem
        \<and> r = set_semantic sem (projection_row h p))"

definition log_inv :: "(string \<Rightarrow> string) \<Rightarrow> agent_db \<Rightarrow> bool" where
  "log_inv h db \<longleftrightarrow> distinct (map er_event_id (ag_events db)) \<and> distinct (map rs_run_id (ag_runs db))
     \<and> (\<forall>x \<in> set (ag_events db). (\<exists>v. event_from_row h x = Inr v) \<and> er_run_id x \<in> rs_run_id ` set (ag_runs db))
     \<and> (\<forall>r \<in> set (ag_runs db). \<exists>p sem. row_shows h db r p sem)"

lemma find_run_iff: "distinct (map rs_run_id (ag_runs db)) \<Longrightarrow> find_run run db = Some r \<longleftrightarrow> r \<in> set (ag_runs db) \<and> rs_run_id r = run"
  by (simp add: find_run_def lookup_row_iff)

lemma emap_facts:
  "emap f xs = Inr ys \<Longrightarrow> (\<And>x y. f x = Inr y \<Longrightarrow> g y = k x) \<Longrightarrow> map g ys = map k xs"
  by (induction xs arbitrary: ys) (auto simp: ebind_Inr_iff)

lemma emap_append: "emap f (xs @ ys) = ebind (emap f xs) (\<lambda>us. ebind (emap f ys) (\<lambda>vs. Inr (us @ vs)))"
proof (induction xs)
  case (Cons x xs)
  then show ?case by (cases "f x"; cases "emap f xs"; cases "emap f ys") simp_all
qed (cases "emap f ys"; simp)

lemma emap_last: "emap f xs = Inr ys \<Longrightarrow> xs \<noteq> [] \<Longrightarrow> f (last xs) = Inr (last ys)"
proof (induction xs arbitrary: ys)
  case (Cons x xs)
  then show ?case by (cases xs) (auto simp: ebind_Inr_iff)
qed simp

lemma row_simps [simp]:
  "rs_run_id (projection_row h p) = ap_run_id p" "rs_state (projection_row h p) = ap_state p"
  "rs_state_revision (projection_row h p) = ap_state_revision p" "rs_epoch (projection_row h p) = ap_epoch p"
  "rs_initial_header_json (projection_row h p) = json_norm (header_to_dict h (ap_initial_header p))"
  "rs_subject_digest (projection_row h p) = ap_subject_digest p" "rs_state_digest (projection_row h p) = state_digest h p"
  "rs_updated_at (projection_row h p) = ap_updated_at p"
  by (simp_all add: projection_row_def Let_def)

lemma set_semantic_simps [simp]:
  "rs_run_id (set_semantic sem r) = rs_run_id r" "rs_state (set_semantic sem r) = rs_state r"
  "rs_state_revision (set_semantic sem r) = rs_state_revision r" "rs_epoch (set_semantic sem r) = rs_epoch r"
  "rs_initial_header_json (set_semantic sem r) = rs_initial_header_json r"
  "rs_subject_digest (set_semantic sem r) = rs_subject_digest r" "rs_state_digest (set_semantic sem r) = rs_state_digest r"
  "rs_updated_at (set_semantic sem r) = rs_updated_at r"
  by (simp_all add: set_semantic_def)

lemma semantic_from_row:
  "(case sem of None \<Rightarrow> True | Some b \<Rightarrow> binding_ok b) \<Longrightarrow> semantic_binding_from_row (set_semantic sem r) = Inr sem"
  by (cases sem)
    (auto simp: semantic_binding_from_row_def set_semantic_def binding_create_def binding_ok_def require_sha256_def chk_digest_def
      require_positive_int_def recast_def)

lemma shows_simps: "row_shows h db r p sem \<Longrightarrow> rs_run_id r = ap_run_id p \<and> rs_state r = ap_state p
    \<and> rs_state_revision r = ap_state_revision p \<and> rs_epoch r = ap_epoch p"
  by (auto simp: row_shows_def)

lemma row_reads:
  assumes "row_shows h db r p sem" "hex_hash h"
  shows "projection_ok h p" "projection_from_row h r = Inr p" "semantic_binding_from_row r = Inr sem"
    "require_matching_tail h db p = Inr ()"
proof -
  obtain vs where v: "emap (event_from_row h) (run_events (rs_run_id r) db) = Inr vs" "replay_agent_events h vs = Inr p"
    "replay_semantic_binding h (ah_semantic_state (ap_initial_header p)) vs = Inr sem" and r: "r = set_semantic sem (projection_row h p)"
    using assms(1) by (auto simp: row_shows_def)
  have e: "\<forall>x \<in> set vs. event_ok h x" by (rule emap_all [OF v(1)]) (use event_from_row_Inr assms(2) in blast)
  note f = replay_facts [OF v(2) e]
  show p: "projection_ok h p" using f by simp
  have "header_from_dict h (json_norm (header_to_dict h (ap_initial_header p))) = Inr (ap_initial_header p)"
    using header_round_trip p assms(2) by (simp add: projection_ok_def)
  then show "projection_from_row h r = Inr p"
    using projection_create_ok [OF p] by (simp add: r projection_from_row_def recast_def ap_subject_digest_def)
  have "case ah_semantic_state (ap_initial_header p) of None \<Rightarrow> True | Some c \<Rightarrow> binding_ok c"
    using p by (simp add: projection_ok_def header_ok_def)
  from semantic_from_row [OF semantic_ok [OF v(3) this]] show "semantic_binding_from_row r = Inr sem" by (simp add: r)
  let ?es = "run_events (ap_run_id p) db"
  have v': "emap (event_from_row h) ?es = Inr vs" using v(1) by (simp add: r)
  then have ne: "?es \<noteq> []" using f by auto
  from event_from_row_Inr [OF emap_last [OF v' ne] assms(2)] f ne show "require_matching_tail h db p = Inr ()"
    by (simp add: require_matching_tail_def shows_event_def)
qed

lemma current_row:
  assumes "log_inv h db" "hex_hash h" "current_projection h run db = Inr p"
  obtains r sem where "r \<in> set (ag_runs db)" "rs_run_id r = run" "row_shows h db r p sem" "find_run run db = Some r" "ap_run_id p = run"
proof -
  obtain r where r: "find_run run db = Some r" "projection_from_row h r = Inr p"
    using assms(3) by (auto simp: current_projection_def ebind_Inr_iff split: option.splits)
  then have m: "r \<in> set (ag_runs db)" "rs_run_id r = run" by (auto simp: find_run_def dest!: lookup_row_Some)
  then obtain q sem where q: "row_shows h db r q sem" using assms(1) by (auto simp: log_inv_def)
  with row_reads(2) [OF q assms(2)] r(2) have "q = p" by simp
  with q m r shows_simps [OF q] show thesis by (intro that) auto
qed

section \<open>Appending an event\<close>

lemma insert_event_Inr:
  "insert_event h v db = Inr db' \<longleftrightarrow> ae_event_id v \<notin> er_event_id ` set (ag_events db)
     \<and> (\<forall>r \<in> set (ag_events db). \<not> (er_run_id r = ae_run_id v \<and> er_after_revision r = ae_after_revision v))
     \<and> db' = db\<lparr>ag_events := ag_events db @ [event_row_of h (int (length (ag_events db)) + 1) v]\<rparr>"
proof -
  have "ae_event_id v \<notin> er_event_id ` set (ag_events db) \<longleftrightarrow> (\<forall>r \<in> set (ag_events db). er_event_id r \<noteq> ae_event_id v)" by force
  then show ?thesis by (auto simp: insert_event_def event_row_of_def list_ex_iff)
qed

lemma event_row_of_simps [simp]: "er_run_id (event_row_of h n v) = ae_run_id v" "er_event_id (event_row_of h n v) = ae_event_id v"
  by (simp_all add: event_row_of_def)

text \<open>How a row changes when its run gets an event.\<close>

definition semantic_after :: "(string \<Rightarrow> string) \<Rightarrow> agent_event \<Rightarrow> versioned_binding option \<Rightarrow> versioned_binding option \<Rightarrow> bool" where
  "semantic_after h v sem sem' \<longleftrightarrow>
     (if ae_event_type v = Semantic_State_Advanced
      then optional_binding_from_dict h Semantic_Binding (payload_field ''previous_binding'' v) = Inr sem
        \<and> (\<exists>b. binding_from_dict h Semantic_Binding (payload_field ''new_binding'' v) = Inr b \<and> sem' = Some b)
      else sem' = sem)"

definition advances ::
  "(string \<Rightarrow> string) \<Rightarrow> agent_db \<Rightarrow> agent_db \<Rightarrow> run_state_row \<Rightarrow> run_state_row \<Rightarrow> agent_projection \<Rightarrow> agent_event \<Rightarrow> agent_projection \<Rightarrow> bool" where
  "advances h db db' r r' p v q \<longleftrightarrow> r \<in> set (ag_runs db)
     \<and> (\<exists>sem sem'. row_shows h db r p sem \<and> semantic_after h v sem sem' \<and> r' = set_semantic sem' (projection_row h q))
     \<and> apply_agent_event h (Some p) v = Inr q \<and> event_ok h v \<and> ae_event_id v \<notin> er_event_id ` set (ag_events db)
     \<and> ag_events db' = ag_events db @ [event_row_of h (int (length (ag_events db)) + 1) v]
     \<and> ag_runs db' = update_rows (\<lambda>x. rs_run_id x = ap_run_id p) (\<lambda>_. r') (ag_runs db)"

lemma run_events_append:
  "ag_events db' = ag_events db @ [x] \<Longrightarrow> run_events run db' = run_events run db @ (if er_run_id x = run then [x] else [])"
  by (simp add: run_events_def)

lemma run_events_same: "ag_events db' = ag_events db \<Longrightarrow> run_events run db' = run_events run db"
  by (simp add: run_events_def)

lemma row_shows_other:
  "row_shows h db r p sem \<Longrightarrow> run_events (rs_run_id r) db' = run_events (rs_run_id r) db \<Longrightarrow> row_shows h db' r p sem"
  by (simp add: row_shows_def)

lemma advances_shows:
  assumes "advances h db db' r r' p v q" "hex_hash h"
  shows "\<exists>sem'. row_shows h db' r' q sem'" "rs_run_id r' = ap_run_id p" "rs_run_id r = ap_run_id p" "projection_ok h p" "moves_on p v q"
    "shows_event h q v"
proof -
  note a = assms(1) [unfolded advances_def]
  obtain sem sem' where s: "row_shows h db r p sem" "semantic_after h v sem sem'" "r' = set_semantic sem' (projection_row h q)"
    using a by blast
  obtain vs where vs: "emap (event_from_row h) (run_events (rs_run_id r) db) = Inr vs" "replay_agent_events h vs = Inr p"
    "replay_semantic_binding h (ah_semantic_state (ap_initial_header p)) vs = Inr sem"
    using s(1) by (auto simp: row_shows_def)
  show p: "projection_ok h p" using row_reads(1) [OF s(1) assms(2)] .
  have ap: "apply_agent_event h (Some p) v = Inr q" "event_ok h v" using a by simp_all
  note f = apply_Some [OF ap(1) p ap(2)]
  then show "moves_on p v q" "shows_event h q v" by simp_all
  show rr: "rs_run_id r = ap_run_id p" using shows_simps [OF s(1)] by simp
  have q: "ap_initial_header q = ap_initial_header p" "ap_run_id q = ap_run_id p" "ae_run_id v = ap_run_id p"
    using f by (simp_all add: moves_on_def ap_run_id_def)
  then show r': "rs_run_id r' = ap_run_id p" by (simp add: s(3))
  have "run_events (ap_run_id p) db' = run_events (ap_run_id p) db @ [event_row_of h (int (length (ag_events db)) + 1) v]"
    using a q(3) by (subst run_events_append) auto
  with vs(1) rr have e: "emap (event_from_row h) (run_events (rs_run_id r') db') = Inr (vs @ [v])"
    by (simp add: r' emap_append event_from_row_of [OF ap(2) assms(2)])
  have "map ae_event_id vs = map er_event_id (run_events (ap_run_id p) db)"
    by (rule emap_facts [OF vs(1) [unfolded rr]]) (use event_from_row_Inr assms(2) in blast)
  then have "ae_event_id ` set vs = er_event_id ` set (run_events (ap_run_id p) db)" by (metis list.set_map)
  then have "ae_event_id v \<notin> ae_event_id ` set vs" using a by (auto simp: run_events_def)
  from replay_events_snoc [OF vs(2) this ap(1)] have rp: "replay_agent_events h (vs @ [v]) = Inr q" .
  have "replay_semantic_binding h (ah_semantic_state (ap_initial_header q)) (vs @ [v]) = Inr sem'"
    using s(2) vs(3) semantic_snoc [OF vs(3)] semantic_snoc_other by (auto simp: semantic_after_def q(1) split: if_splits)
  with e rp s(3) show "\<exists>sem'. row_shows h db' r' q sem'" unfolding row_shows_def by blast
qed

lemma advances_inv:
  assumes "advances h db db' r r' p v q" "log_inv h db" "hex_hash h"
  shows "log_inv h db'"
proof -
  note a = assms(1) [unfolded advances_def] and s = advances_shows [OF assms(1,3)]
  have i: "map rs_run_id (ag_runs db') = map rs_run_id (ag_runs db)"
    using a s(2,3) by (simp add: map_update_rows)
  have ids: "rs_run_id ` set (ag_runs db') = rs_run_id ` set (ag_runs db)" using i by (metis list.set_map)
  have "\<exists>p sem. row_shows h db' x p sem" if x: "x \<in> set (ag_runs db')" for x
  proof (cases "rs_run_id x = ap_run_id p")
    case True
    with x a have "x = r'" by (auto simp: set_update_rows)
    with s(1) show ?thesis by blast
  next
    case False
    with x a s(2) have "x \<in> set (ag_runs db)" by (auto simp: set_update_rows split: if_splits)
    then obtain p0 sem0 where p0: "row_shows h db x p0 sem0" using assms(2) by (auto simp: log_inv_def)
    have "ae_run_id v = ap_run_id p" using s(5) by (simp add: moves_on_def)
    then have "run_events (rs_run_id x) db' = run_events (rs_run_id x) db"
      using a False by (subst run_events_append) auto
    from row_shows_other [OF p0 this] show ?thesis by blast
  qed
  moreover have "\<exists>v. event_from_row h x = Inr v" "er_run_id x \<in> rs_run_id ` set (ag_runs db')" if "x \<in> set (ag_events db')" for x
  proof -
    have v: "event_ok h v" "ae_run_id v = ap_run_id p" using a s(5) by (simp_all add: moves_on_def)
    from that a consider "x \<in> set (ag_events db)" | "x = event_row_of h (int (length (ag_events db)) + 1) v" by auto
    then show "\<exists>v. event_from_row h x = Inr v" "er_run_id x \<in> rs_run_id ` set (ag_runs db')"
      using assms(2) event_from_row_of [OF v(1) assms(3)] v(2) s(3) a unfolding ids
      by (cases; force simp: log_inv_def)+
  qed
  ultimately show ?thesis using assms(2) a i by (auto simp: log_inv_def)
qed

end
