(* ===== verification/AgentTransitions.thy ===== *)
theory AgentTransitions
  imports AgentStoreSteps
begin

text \<open>
  What each transaction of the agent store does to the log, to the row of its run and to the leases.
\<close>

section \<open>What each transaction does\<close>

lemma one_row: "distinct (map k rs) \<Longrightarrow> r \<in> set rs \<Longrightarrow> count_rows (\<lambda>x. k x = k r) rs = 1"
proof (induction rs)
  case (Cons x rs)
  show ?case
  proof (cases "x = r")
    case True
    with Cons.prems have "k r \<notin> k ` set rs" by simp
    then have "\<forall>y \<in> set rs. k y \<noteq> k r" by (metis imageI)
    then have "count_rows (\<lambda>x. k x = k r) rs = 0" by (simp add: count_rows_0)
    with True show ?thesis by simp
  next
    case False
    with Cons.prems have "r \<in> set rs" "k x \<noteq> k r" by (auto simp: image_iff)
    with Cons show ?thesis by simp
  qed
qed simp

text \<open>The part of the database that a transition of a run may leave alone.\<close>

definition leases :: "agent_db \<Rightarrow> ownership_row list \<times> int" where
  "leases db = (ag_ownership db, ag_fencing_counter db)"

lemma swap_row_one:
  assumes "distinct (map rs_run_id (ag_runs db))" "r \<in> set (ag_runs db)"
  shows "swap_row (rs_run_id r) (rs_state_revision r) (rs_epoch r) f db
    = Inr (db\<lparr>ag_runs := update_rows (\<lambda>x. rs_run_id x = rs_run_id r) (\<lambda>_. f r) (ag_runs db)\<rparr>)"
proof -
  let ?sel = "\<lambda>x. rs_run_id x = rs_run_id r \<and> rs_state_revision x = rs_state_revision r \<and> rs_epoch x = rs_epoch r"
  have u: "x = r" if "x \<in> set (ag_runs db)" "rs_run_id x = rs_run_id r" for x
    using assms that by (metis distinct_map inj_onD)
  have "count_rows ?sel (ag_runs db) = count_rows (\<lambda>x. rs_run_id x = rs_run_id r) (ag_runs db)"
    by (rule count_rows_cong) (use u in blast)
  then have c: "count_rows ?sel (ag_runs db) = 1" using one_row [OF assms] by simp
  have "update_rows ?sel f (ag_runs db) = update_rows (\<lambda>x. rs_run_id x = rs_run_id r) (\<lambda>_. f r) (ag_runs db)"
    unfolding update_rows_def by (rule map_cong) (use u in auto)
  with c show ?thesis by (simp add: swap_row_def Let_def)
qed

lemma advance_row:
  assumes "log_inv h db" "r \<in> set (ag_runs db)" "row_shows h db r p sem"
    and "apply_agent_event h (Some p) v = Inr q" "event_ok h v" "insert_event h v db1 = Inr db2"
    and "ag_events db1 = ag_events db" "ag_runs db1 = ag_runs db" "swap_row (ap_run_id p) (ap_state_revision p) (ap_epoch p) f db2 = Inr db3"
    and "semantic_after h v sem sem'" "f r = set_semantic sem' (projection_row h q)"
  shows "advances h db db3 r (f r) p v q \<and> leases db3 = leases db1"
proof -
  have i: "ae_event_id v \<notin> er_event_id ` set (ag_events db)" "ag_runs db2 = ag_runs db"
    "db2 = db1\<lparr>ag_events := ag_events db @ [event_row_of h (int (length (ag_events db)) + 1) v]\<rparr>"
    using assms(6-8) by (simp_all add: insert_event_Inr)
  have "distinct (map rs_run_id (ag_runs db2))" using assms(1) by (simp add: log_inv_def i(2))
  from swap_row_one [OF this, of r f] assms(2,3,9) i(2) shows_simps [OF assms(3)]
  have db3: "db3 = db2\<lparr>ag_runs := update_rows (\<lambda>x. rs_run_id x = ap_run_id p) (\<lambda>_. f r) (ag_runs db)\<rparr>" by simp
  then show ?thesis using assms i by (auto simp: advances_def leases_def)
qed

lemma build_event_Inr:
  assumes "build_event h p s ep created eid t payload = Inr (v, q)" "hex_hash h"
  shows "apply_agent_event h (Some p) v = Inr q" "event_ok h v" "ae_event_type v = t" "ap_state q = s" "ap_epoch q = ep"
    "created = JStr (isoformat (ap_updated_at q))" "ap_state_revision q = ap_state_revision p + 1"
proof -
  obtain x where c: "projection_create (ap_initial_header p) s (JInt (ap_state_revision p + 1)) (JInt ep) created = Inr q"
    and e: "event_create h eid (JStr (ap_run_id p)) (JInt ep) (JInt (ap_state_revision p)) (JInt (ap_state_revision q)) t payload
      (JStr (state_digest h q)) created = Inr v" and a: "apply_agent_event h (Some p) v = Inr x" "x = q"
    using assms(1) by (auto simp: build_event_def ebind_Inr_iff split: if_splits)
  show "apply_agent_event h (Some p) v = Inr q" using a by simp
  show "event_ok h v" "ae_event_type v = t" using event_create_Inr [OF e assms(2)] by simp_all
  show "ap_state q = s" "ap_epoch q = ep" "created = JStr (isoformat (ap_updated_at q))" "ap_state_revision q = ap_state_revision p + 1"
    using c by (simp_all add: projection_create_Inr)
qed

lemma semantic_keeps:
  "apply_agent_event h (Some p) v = Inr q \<Longrightarrow> ae_event_type v = Semantic_State_Advanced \<Longrightarrow> ap_state q = ap_state p \<and> ap_epoch q = ap_epoch p"
  by (auto simp: apply_agent_event_def next_projection_def next_state_def ebind_Inr_iff projection_create_Inr split: if_splits)

lemma build_event_type:
  assumes "build_event h p s ep created eid t payload = Inr (v, q)" "hex_hash h" "require_phase_b_transition (ap_state p) s = Inr u"
  shows "t \<noteq> Semantic_State_Advanced"
proof -
  have "s \<noteq> ap_state p"
    using assms(3) by (cases "ap_state p") (auto simp: require_phase_b_transition_def split: if_splits)
  then show ?thesis using build_event_Inr [OF assms(1,2)] semantic_keeps by metis
qed

lemma fresh_Inr:
  "fresh_projection h run revision epoch db = Inr p \<longleftrightarrow>
     current_projection h run db = Inr p \<and> ap_state_revision p = revision \<and> ap_epoch p = epoch"
  by (auto simp: fresh_projection_def ebind_Inr_iff split: if_splits)

lemma unowned_cases:
  assumes "transition_unowned e run expected target revision epoch t payload created event_id db = (res, db')"
    and "log_inv (sha e) db" "hex_hash (sha e)"
  obtains err where "res = Inl err" "db' = db"
  | r r' p v q where "res = Inr q" "advances (sha e) db db' r r' p v q" "ap_run_id p = run" "ap_state p = expected"
      "ap_state_revision p = revision" "ap_epoch p = epoch" "ap_epoch q = ap_epoch p" "ap_state q = target" "find_ownership run db = None"
      "leases db' = leases db"
  using assms(1) unfolding transition_unowned_def
proof (cases rule: agent_commit_cases)
  case (2 q)
  then obtain p v db1 u where f: "fresh_projection (sha e) run revision epoch db = Inr p" "ap_state p = expected" "find_ownership run db = None"
    and tr: "require_phase_b_transition (ap_state p) target = Inr u"
    and b: "build_event (sha e) p target (ap_epoch p) (JStr (isoformat created)) (event_id_of e event_id) t payload = Inr (v, q)"
    and i: "insert_event (sha e) v db = Inr db1"
    and s: "swap_row run revision epoch (set_projection (sha e) q) db1 = Inr db'"
    by (auto simp: ebind_Inr_iff require_Inr split: if_splits)
  note c = f(1) [unfolded fresh_Inr] and be = build_event_Inr [OF b assms(3)]
  obtain r sem where r: "r \<in> set (ag_runs db)" "row_shows (sha e) db r p sem" "ap_run_id p = run"
    using current_row [OF assms(2,3) conjunct1 [OF c]] by metis
  have "set_projection (sha e) q r = set_semantic sem (projection_row (sha e) q)"
  proof -
    have "r = set_semantic sem (projection_row (sha e) p)" using r(2) by (auto simp: row_shows_def)
    moreover have "ap_initial_header q = ap_initial_header p"
      using apply_Some [OF be(1) row_reads(1) [OF r(2) assms(3)] be(2)] by (simp add: moves_on_def)
    ultimately show ?thesis
      by (simp add: set_projection_def set_semantic_def projection_row_def Let_def ap_run_id_def ap_subject_digest_def)
  qed
  from advance_row [OF assms(2) r(1,2) be(1,2) i refl refl, of "set_projection (sha e) q" db' sem] s c r(3) this
    build_event_type [OF b assms(3) tr] be(3) have adv: "advances (sha e) db db' r (set_projection (sha e) q r) p v q" "leases db' = leases db"
    by (auto simp: semantic_after_def)
  show thesis by (rule that(2) [OF 2(2) adv(1) r(3) f(2) _ _ _ be(4) f(3) adv(2)]) (use c be(5) in simp_all)
qed (use that(1) in blast)


text \<open>The holder's transition; one that ends the run gives its lease up.\<close>

lemma require_permit_Inr:
  "require_permit_row row permit observed = Inr r \<longleftrightarrow> row = Some r \<and> ow_fencing_token r = pe_fencing_token permit
     \<and> ow_epoch r = pe_epoch permit \<and> ow_owner_id r = pe_owner_id permit \<and> ow_lease_id r = pe_lease_id permit
     \<and> ow_run_id r = pe_run_id permit \<and> (case observed of None \<Rightarrow> True | Some now \<Rightarrow> now < ow_expires_at r)"
  by (auto simp: require_permit_row_def split: option.splits if_splits)

lemma owned_cases:
  assumes "transition_owned e permit states target revision epoch t payload created event_id db = (res, db')"
    and "log_inv (sha e) db" "hex_hash (sha e)"
  obtains err where "res = Inl err" "db' = db"
  | r r' p v q row where "res = Inr q" "advances (sha e) db db' r r' p v q" "ap_run_id p = pe_run_id permit" "ap_state p \<in> set states"
      "ap_state_revision p = revision" "ap_epoch p = epoch" "ap_epoch q = ap_epoch p" "ap_state q = target"
      "require_permit_row (find_ownership (pe_run_id permit) db) permit (Some created) = Inr row"
      "leases db' = leases (if is_terminal_agent_run_state target then delete_ownership (pe_run_id permit) db else db)"
  using assms(1) unfolding transition_owned_def
proof (cases rule: agent_commit_cases)
  case (2 q)
  then obtain p v db1 db2 row u where tr: "require_phase_b_transition (ap_state p) target = Inr u" and f: "fresh_projection (sha e) (pe_run_id permit) revision epoch db = Inr p" "ap_state p \<in> set states"
      "require_permit_row (find_ownership (pe_run_id permit) db) permit (Some created) = Inr row"
    and b: "build_event (sha e) p target (ap_epoch p) (JStr (isoformat created)) (event_id_of e event_id) t payload = Inr (v, q)"
    and i: "insert_event (sha e) v db = Inr db1"
    and s: "swap_row (pe_run_id permit) revision epoch
                     (\<lambda>r. r\<lparr>rs_state := ap_state q, rs_state_revision := ap_state_revision q,
                            rs_state_digest := state_digest (sha e) q, rs_updated_at := ap_updated_at q\<rparr>) db1 = Inr db2"
    and d: "db' = (if is_terminal_agent_run_state (ap_state q) then delete_ownership (pe_run_id permit) db2 else db2)"
    by (auto simp: ebind_Inr_iff require_Inr split: if_splits)
  let ?f = "\<lambda>r. r\<lparr>rs_state := ap_state q, rs_state_revision := ap_state_revision q,
                            rs_state_digest := state_digest (sha e) q, rs_updated_at := ap_updated_at q\<rparr>"
  note c = f(1) [unfolded fresh_Inr] and be = build_event_Inr [OF b assms(3)]
  obtain r sem where r: "r \<in> set (ag_runs db)" "row_shows (sha e) db r p sem" "ap_run_id p = pe_run_id permit"
    using current_row [OF assms(2,3) conjunct1 [OF c]] by metis
  have "?f r = set_semantic sem (projection_row (sha e) q)"
  proof -
    have "r = set_semantic sem (projection_row (sha e) p)" using r(2) by (auto simp: row_shows_def)
    moreover have "ap_initial_header q = ap_initial_header p"
      using apply_Some [OF be(1) row_reads(1) [OF r(2) assms(3)] be(2)] by (simp add: moves_on_def)
    ultimately show ?thesis using be(5)
      by (simp add: set_semantic_def projection_row_def Let_def ap_run_id_def ap_subject_digest_def)
  qed
  from advance_row [OF assms(2) r(1,2) be(1,2) i refl refl, of ?f db2 sem] s c r(3) this build_event_type [OF b assms(3) tr] be(3)
  have adv: "advances (sha e) db db2 r (?f r) p v q" "leases db2 = leases db"
    by (auto simp: semantic_after_def)
  have "advances (sha e) db db' r (?f r) p v q" using adv(1) by (simp add: d advances_def delete_ownership_def)
  moreover have "leases db' = leases (if is_terminal_agent_run_state target then delete_ownership (pe_run_id permit) db else db)"
    using adv(2) be(4) by (simp add: d leases_def delete_ownership_def)
  ultimately show thesis using that(2) [OF 2(2) _ r(3) f(2) _ _ _ be(4) f(3)] c be(5) by blast
qed (use that(1) in blast)

text \<open>A new lease. The one it replaces, if any, has expired.\<close>

definition granted_row :: "agent_permit \<Rightarrow> ownership_row" where
  "granted_row p = \<lparr>ow_run_id = pe_run_id p, ow_owner_id = pe_owner_id p, ow_lease_id = pe_lease_id p, ow_fencing_token = pe_fencing_token p,
     ow_epoch = pe_epoch p, ow_acquired_at = pe_acquired_at p, ow_expires_at = pe_expires_at p\<rparr>"

lemma permit_create_Inr:
  "permit_create run owner lease token epoch revision acquired expires = Inr p \<Longrightarrow>
     run = JStr (pe_run_id p) \<and> token = JInt (pe_fencing_token p) \<and> epoch = JInt (pe_epoch p) \<and> revision = JInt (pe_revision p)
     \<and> lease = JStr (pe_lease_id p) \<and> acquired = JStr (isoformat (pe_acquired_at p)) \<and> expires = JStr (isoformat (pe_expires_at p))
     \<and> datetime_ok (pe_acquired_at p) \<and> datetime_ok (pe_expires_at p) \<and> pe_acquired_at p < pe_expires_at p \<and> 1 \<le> pe_fencing_token p"
  by (auto simp: permit_create_def ebind_Inr_iff require_Inr not_le split: if_splits)

lemma grant_ownership_Inr:
  assumes "grant_ownership e p candidate event_id db = Inr (permit, db')"
    and "log_inv (sha e) db" "hex_hash (sha e)" "r \<in> set (ag_runs db)" "row_shows (sha e) db r p sem"
  obtains r' v q where "advances (sha e) db db' r r' p v q" "ap_epoch q = ap_epoch p + 1" "ap_state q = ap_state p"
    "pe_run_id permit = ap_run_id p" "pe_epoch permit = ap_epoch q" "pe_revision permit = ap_state_revision q"
    "pe_fencing_token permit = ag_fencing_counter db + 1"
    "leases db' = (ag_ownership db @ [granted_row permit], ag_fencing_counter db + 1)"
    "\<forall>x \<in> set (ag_ownership db). ow_run_id x \<noteq> pe_run_id permit"
proof -
  let ?db = "db\<lparr>ag_fencing_counter := ag_fencing_counter db + 1\<rparr>"
  obtain v q db1 db2 where p: "permit_create (JStr (ap_run_id p)) (JStr (pe_owner_id candidate)) (JStr (pe_lease_id candidate))
        (JInt (ag_fencing_counter db + 1)) (JInt (ap_epoch p + 1)) (JInt (ap_state_revision p + 1)) (JStr (isoformat (pe_acquired_at candidate)))
               (JStr (isoformat (pe_expires_at candidate))) = Inr permit"
    and b: "build_event (sha e) p (ap_state p) (ap_epoch p + 1) (JStr (isoformat (pe_acquired_at permit)))
               (event_id_of e event_id) Owner_Acquired
               (JObj [(''owner_id'', JStr (pe_owner_id permit)), (''lease_id'', JStr (pe_lease_id permit)),
                  (''fencing_token'', JInt (pe_fencing_token permit)), (''expires_at'', JStr (isoformat (pe_expires_at permit)))]) = Inr (v, q)"
    and i: "insert_event (sha e) v ?db = Inr db1"
    and s: "swap_row (ap_run_id p) (ap_state_revision p) (ap_epoch p)
               (\<lambda>r. r\<lparr>rs_state_revision := ap_state_revision q, rs_epoch := ap_epoch q,
                      rs_state_digest := state_digest (sha e) q, rs_updated_at := ap_updated_at q\<rparr>) db1 = Inr db2"
    and o1: "insert_ownership permit db2 = Inr db'"
    using assms(1) by (auto simp: grant_ownership_def Let_def ebind_Inr_iff)
  let ?f = "\<lambda>r. r\<lparr>rs_state_revision := ap_state_revision q, rs_epoch := ap_epoch q,
                      rs_state_digest := state_digest (sha e) q, rs_updated_at := ap_updated_at q\<rparr>"
  note be = build_event_Inr [OF b assms(3)] and pc = permit_create_Inr [OF p]
  have "?f r = set_semantic sem (projection_row (sha e) q)"
  proof -
    have "r = set_semantic sem (projection_row (sha e) p)" using assms(5) by (auto simp: row_shows_def)
    moreover have "ap_initial_header q = ap_initial_header p"
      using apply_Some [OF be(1) row_reads(1) [OF assms(5,3)] be(2)] by (simp add: moves_on_def)
    ultimately show ?thesis using be(4)
      by (simp add: set_semantic_def projection_row_def Let_def ap_run_id_def ap_subject_digest_def)
  qed
  from advance_row [OF assms(2,4,5) be(1,2) i _ _ s _ this] be(3)
  have adv: "advances (sha e) db db2 r (?f r) p v q" "leases db2 = leases ?db" by (simp_all add: semantic_after_def)
  have o2: "db' = db2\<lparr>ag_ownership := ag_ownership db2 @ [granted_row permit]\<rparr>"
    "\<forall>x \<in> set (ag_ownership db2). ow_run_id x \<noteq> pe_run_id permit"
    using o1 by (auto simp: insert_ownership_def granted_row_def list_ex_iff split: if_splits)
  show thesis
  proof (rule that)
    show "advances (sha e) db db' r (?f r) p v q" using adv(1) by (simp add: o2(1) advances_def)
  qed (use be pc o2 adv(2) in \<open>simp_all add: leases_def\<close>)
qed


lemma acquire_own_cases:
  assumes "acquire_ownership e run owner revision epoch observed expires lease event_id db = (res, db')"
    and "log_inv (sha e) db" "hex_hash (sha e)"
  obtains err where "res = Inl err" "db' = db"
  | w permit where "res = Inr permit" "db' = db" "find_ownership run db = Some w" "permit_from_row w revision = Inr permit"
  | db0 permit r r' p v q where "res = Inr permit" "db0 = db \<and> find_ownership run db = None \<or> db0 = delete_ownership run db"
      "advances (sha e) db db' r r' p v q" "ap_run_id p = run" "ap_state p \<in> {Admitted, Active, Blocked}"
      "ap_state_revision p = revision" "ap_epoch p = epoch"
      "ap_epoch q = ap_epoch p + 1" "ap_state q = ap_state p" "pe_run_id permit = run" "pe_epoch permit = ap_epoch q"
      "pe_fencing_token permit = ag_fencing_counter db + 1"
      "leases db' = (ag_ownership db0 @ [granted_row permit], ag_fencing_counter db + 1)"
      "\<forall>x \<in> set (ag_ownership db0). ow_run_id x \<noteq> run"
  using assms(1) unfolding acquire_ownership_def
proof (cases rule: agent_commit_cases)
  case (2 permit)
  let ?g = "\<lambda>candidate current. case find_ownership run db of
               None \<Rightarrow> grant_ownership e current candidate event_id db
             | Some r \<Rightarrow>
                 if ow_expires_at r \<le> pe_acquired_at candidate
                 then grant_ownership e current candidate event_id (delete_ownership run db)
                 else if ow_owner_id r = pe_owner_id candidate
                 then ebind (permit_from_row r (ap_state_revision current)) (\<lambda>p. Inr (p, db))
                 else Inl (AgentError Ownership_Conflict)"
  obtain candidate p where f: "fresh_projection (sha e) run revision epoch db = Inr p" "ap_state p \<in> {Admitted, Active, Blocked}"
    and g: "?g candidate p = Inr (permit, db')"
    using 2(1) by (auto simp: ebind_Inr_iff require_Inr split: if_splits)
  note c = f(1) [unfolded fresh_Inr]
  obtain r sem where r: "r \<in> set (ag_runs db)" "row_shows (sha e) db r p sem" "ap_run_id p = run"
    using current_row [OF assms(2,3) conjunct1 [OF c]] by metis
  note kept = that(2) and granted = that(3)
  have result: thesis if d: "db0 = db \<and> find_ownership run db = None \<or> db0 = delete_ownership run db"
    and gr: "grant_ownership e p candidate event_id db0 = Inr (permit, db')" for db0
  proof -
    have same: "ag_events db0 = ag_events db" "ag_runs db0 = ag_runs db" "ag_fencing_counter db0 = ag_fencing_counter db"
      using d by (auto simp: delete_ownership_def)
    have inv: "log_inv (sha e) db0" "row_shows (sha e) db0 r p sem" "r \<in> set (ag_runs db0)"
      using assms(2) r(1,2) same by (simp_all add: log_inv_def row_shows_def run_events_def)
    obtain r' v q where a: "advances (sha e) db0 db' r r' p v q" "ap_epoch q = ap_epoch p + 1" "ap_state q = ap_state p"
      "pe_run_id permit = ap_run_id p" "pe_epoch permit = ap_epoch q" "pe_revision permit = ap_state_revision q"
      "pe_fencing_token permit = ag_fencing_counter db0 + 1" "leases db' = (ag_ownership db0 @ [granted_row permit], ag_fencing_counter db0 + 1)"
      "\<forall>x \<in> set (ag_ownership db0). ow_run_id x \<noteq> pe_run_id permit"
      by (rule grant_ownership_Inr [OF gr inv(1) assms(3) inv(3,2)])
    have "advances (sha e) db db' r r' p v q" using a(1) same by (simp add: advances_def row_shows_def run_events_def)
    from granted [OF 2(2) d this] a c r(3) f(2) same show thesis by simp
  qed
  show thesis
  proof (cases "find_ownership run db")
    case None
    with g result [of db] show thesis by simp
  next
    case (Some x)
    then consider "grant_ownership e p candidate event_id (delete_ownership run db) = Inr (permit, db')"
      | "db' = db" "permit_from_row x (ap_state_revision p) = Inr permit"
      using g by (auto simp: ebind_Inr_iff split: if_splits)
    then show thesis
    proof cases
      case 1
      then show thesis using result [of "delete_ownership run db"] by blast
    next
      case r: 2
      show thesis by (rule kept [OF 2(2) r(1) Some]) (use r(2) c in simp)
    qed
  qed
qed (use that(1) in blast)

lemma renew_own_cases:
  assumes "renew_ownership permit observed expires db = (res, db')"
  obtains "db' = db" "\<not> is_ok res"
  | row p t where "require_permit_row (find_ownership (pe_run_id permit) db) permit (Some observed) = Inr row" "res = Inr p"
      "ow_expires_at row < t"
      "db' = db\<lparr>ag_ownership := update_rows (\<lambda>x. ow_run_id x = pe_run_id permit) (\<lambda>x. x\<lparr>ow_expires_at := t\<rparr>) (ag_ownership db)\<rparr>"
  using assms unfolding renew_ownership_def
proof (cases rule: agent_commit_cases)
  case (2 p)
  then show thesis using that(2) by (auto simp: ebind_Inr_iff not_le split: if_splits option.splits)
qed (use that(1) in simp)

lemma release_own_cases:
  assumes "release_ownership permit db = (res, db')"
  obtains "db' = db" "\<not> is_ok res"
  | row where "require_permit_row (find_ownership (pe_run_id permit) db) permit None = Inr row" "res = Inr True"
      "db' = delete_ownership (pe_run_id permit) db"
  using assms unfolding release_ownership_def
proof (cases rule: agent_commit_cases)
  case (2 p)
  then show thesis using that(2) by (auto simp: ebind_Inr_iff)
qed (use that(1) in simp)

lemma semantic_cases:
  assumes "semantic_commit h current v new_binding revision epoch db = Inr (p', db')" "event_ok h v" "log_inv h db" "hex_hash h"
  obtains r r' where "advances h db db' r r' current v p'" "ae_event_type v = Semantic_State_Advanced" "ap_epoch p' = ap_epoch current"
      "ap_state p' = ap_state current" "ap_state_revision current = revision" "leases db' = leases db"
proof -
  obtain r previous event_new db1 where t: "ae_event_type v = Semantic_State_Advanced" and fr: "find_run (ap_run_id current) db = Some r"
    and pr: "projection_from_row h r = Inr current" "ap_state_revision current = revision" "ap_epoch current = epoch"
    and pv: "semantic_binding_from_row r = Inr previous"
      "optional_binding_from_dict h Semantic_Binding (payload_field ''previous_binding'' v) = Inr previous"
    and nb: "binding_from_dict h Semantic_Binding (payload_field ''new_binding'' v) = Inr new_binding"
    and ap: "apply_agent_event h (Some current) v = Inr p'" and i: "insert_event h v db = Inr db1"
    and s: "swap_row (ap_run_id current) revision epoch
                                   (\<lambda>x. x\<lparr>rs_state_revision := ap_state_revision p', rs_state_digest := state_digest h p',
                                          rs_updated_at := ap_updated_at p', rs_semantic_state_ref := Some (vb_ref new_binding),
                                          rs_semantic_state_digest := Some (vb_digest new_binding),
                                          rs_semantic_state_revision := Some (vb_revision new_binding)\<rparr>) db1 = Inr db'"
    using assms(1) by (auto simp: semantic_commit_def ebind_Inr_iff require_Inr split: if_splits option.splits)
  let ?f = "\<lambda>x. x\<lparr>rs_state_revision := ap_state_revision p', rs_state_digest := state_digest h p',
                                          rs_updated_at := ap_updated_at p', rs_semantic_state_ref := Some (vb_ref new_binding),
                                          rs_semantic_state_digest := Some (vb_digest new_binding),
                                          rs_semantic_state_revision := Some (vb_revision new_binding)\<rparr>"
  have r: "r \<in> set (ag_runs db)" "rs_run_id r = ap_run_id current" using fr by (auto simp: find_run_def dest!: lookup_row_Some)
  obtain q sem where q: "row_shows h db r q sem" using r assms(3) by (auto simp: log_inv_def)
  note rd = row_reads [OF q assms(4)]
  have e: "q = current" "sem = previous" using rd(2,3) pr(1) pv(1) by simp_all
  note q = q [unfolded e] and ok = rd(1) [unfolded e]
  have st: "ap_state p' = ap_state current" "ap_epoch p' = ap_epoch current" using semantic_keeps [OF ap t] by simp_all
  have "?f r = set_semantic (Some new_binding) (projection_row h p')"
  proof -
    have "r = set_semantic previous (projection_row h current)" using q by (auto simp: row_shows_def)
    moreover have "ap_initial_header p' = ap_initial_header current" using apply_Some [OF ap ok assms(2)] by (simp add: moves_on_def)
    ultimately show ?thesis using st
      by (simp add: set_semantic_def projection_row_def Let_def ap_run_id_def ap_subject_digest_def)
  qed
  from advance_row [OF assms(3) r(1) q ap assms(2) i refl refl, of ?f db' "Some new_binding"] this s pr t pv nb
  have "advances h db db' r (?f r) current v p'" "leases db' = leases db" by (auto simp: semantic_after_def)
  with t st pr(2) show thesis by (intro that [of r "?f r"]) simp_all
qed

end
