(* ===== verification/AgentCreation.thy ===== *)
theory AgentCreation
  imports AgentTransitions
begin

text \<open>
  The two transactions of the agent store that write a new row: creation, whose event starts the chain of
  its run, and the rebuild of a projection, which puts back the row that the log determines.
\<close>

section \<open>Creation\<close>

lemma insert_bindings_same:
  assumes "insert_bindings h a db = Inr db'"
  shows "ag_runs db' = ag_runs db \<and> ag_events db' = ag_events db \<and> leases db' = leases db"
proof -
  obtain gs ws ms ps where "insert_lineage a (db\<lparr>ag_goals := gs, ag_worlds := ws, ag_memories := ms, ag_plans := ps\<rparr>) = Inr db'"
    using assms by (auto simp: insert_bindings_def Let_def ebind_Inr_iff)
  then show ?thesis by (auto simp: insert_lineage_def Let_def leases_def split: option.splits if_splits)
qed

lemma insert_projection_Inr:
  "insert_projection h p db = Inr db' \<longleftrightarrow> find_run (ap_run_id p) db = None \<and> db' = db\<lparr>ag_runs := ag_runs db @ [projection_row h p]\<rparr>"
  by (auto simp: insert_projection_def)

lemma set_initial_semantic [simp]: "set_semantic (ah_semantic_state (ap_initial_header p)) (projection_row h p) = projection_row h p"
  by (simp add: set_semantic_def projection_row_def Let_def)

definition begins :: "(string \<Rightarrow> string) \<Rightarrow> agent_db \<Rightarrow> agent_db \<Rightarrow> agent_projection \<Rightarrow> agent_event \<Rightarrow> bool" where
  "begins h db db' p v \<longleftrightarrow> apply_agent_event h None v = Inr p \<and> event_ok h v \<and> ae_event_id v \<notin> er_event_id ` set (ag_events db)
     \<and> find_run (ap_run_id p) db = None \<and> ag_events db' = ag_events db @ [event_row_of h (int (length (ag_events db)) + 1) v]
     \<and> ag_runs db' = ag_runs db @ [projection_row h p]"

lemma created_header:
  assumes "validated_payload h Run_Created (JObj [(''initial_header'', header_to_dict h a)]) = Inr q" "header_ok h a" "hex_hash h"
  shows "q = json_norm (JObj [(''initial_header'', header_to_dict h a)])"
proof -
  have "header_from_dict h (header_to_dict h a) = Inr a" using header_reads [OF reads_plain assms(2,3)] .
  then show ?thesis
    using assms(1) by (auto simp: validated_payload_def typed_payload_def created_payload_def ebind_Inr_iff)
qed

lemma create_cases:
  assumes "create_agent_run e header event_id db = (res, db')" "header_ok (sha e) header" "hex_hash (sha e)"
  obtains err where "res = Inl err" "db' = db"
  | p v where "res = Inr p" "begins (sha e) db db' p v" "ap_initial_header p = header" "leases db' = leases db"
  using assms(1) unfolding create_agent_run_def
proof (cases rule: agent_commit_cases)
  case (2 p)
  then obtain v db1 db2 where p: "from_creation_header header (JStr (isoformat (ah_created_at header))) = Inr p"
    and v: "event_create (sha e) (event_id_of e event_id) (JStr (ap_run_id p)) (JInt 0) (JInt 0) (JInt 1) Run_Created
                 (JObj [(''initial_header'', header_to_dict (sha e) header)]) (JStr (state_digest (sha e) p))
                 (JStr (isoformat (ah_created_at header))) = Inr v"
    and n: "find_run (ap_run_id p) db = None" and i: "insert_event (sha e) v db = Inr db1"
    and r: "insert_projection (sha e) p db1 = Inr db2" and b: "insert_bindings (sha e) header db2 = Inr db'"
    by (auto simp: ebind_Inr_iff split: if_splits)
  note vs = event_create_Inr [OF v assms(3)]
  have ok: "datetime_ok (ae_created_at v)" "datetime_ok (ah_created_at header)" using vs assms(2) by (simp_all add: event_ok_def header_ok_def)
  have t: "ah_created_at header = ae_created_at v" using vs isoformat_inject ok by simp
  note ps = from_creation_Inr [OF p assms(2)]
  have "ae_payload v = json_norm (JObj [(''initial_header'', header_to_dict (sha e) header)])"
    using created_header vs assms(2,3) by blast
  then have "event_header (sha e) v = Inr header"
    using header_round_trip [OF assms(2,3)] by (simp add: event_header_def payload_field_def)
  then have "apply_agent_event (sha e) None v = Inr p"
    using vs p t by (simp add: apply_agent_event_def first_projection_def)
  with vs i r b insert_bindings_same [OF b] have "begins (sha e) db db' p v" "leases db' = leases db"
    by (auto simp: begins_def insert_event_Inr insert_projection_Inr leases_def find_run_def)
  with that(2) [OF 2(2)] ps ok t show thesis by simp
qed (use that(1) in blast)

lemma begins_inv:
  assumes "begins h db db' p v" "log_inv h db" "hex_hash h"
  shows "log_inv h db'" "row_shows h db' (projection_row h p) p (ah_semantic_state (ap_initial_header p))"
proof -
  note b = assms(1) [unfolded begins_def]
  note f = apply_None [OF conjunct1 [OF b] conjunct1 [OF conjunct2 [OF b]]]
  have run: "ae_run_id v = ap_run_id p" using f by (simp add: shows_event_def)
  have new: "ap_run_id p \<notin> rs_run_id ` set (ag_runs db)" using b by (auto simp: find_run_def lookup_row_None)
  then have "run_events (ap_run_id p) db = []"
    using assms(2) unfolding run_events_def log_inv_def filter_empty_conv by metis
  then have "run_events (ap_run_id p) db' = [event_row_of h (int (length (ag_events db)) + 1) v]"
    using b run by (simp add: run_events_append)
  then show s: "row_shows h db' (projection_row h p) p (ah_semantic_state (ap_initial_header p))"
    unfolding row_shows_def using b f replay_one
    by (intro exI [of _ "[v]"]) (auto simp: event_from_row_of assms(3))
  have "\<exists>p sem. row_shows h db' x p sem" if x: "x \<in> set (ag_runs db')" for x
  proof (cases "x \<in> set (ag_runs db)")
    case True
    then obtain p0 sem0 where p0: "row_shows h db x p0 sem0" using assms(2) by (auto simp: log_inv_def)
    have "rs_run_id x \<noteq> ap_run_id p" using True new by (metis imageI)
    with b run have "run_events (rs_run_id x) db' = run_events (rs_run_id x) db" by (simp add: run_events_append)
    from row_shows_other [OF p0 this] show ?thesis by blast
  qed (use x b s in auto)
  then show "log_inv h db'"
    using assms(2) b new run event_from_row_of [of h v] assms(3) by (auto simp: log_inv_def)
qed

section \<open>Rebuild\<close>

lemma load_chain_Inr:
  "load_event_chain h run db = Inr vs \<longleftrightarrow> run_events run db \<noteq> [] \<and> emap (event_from_row h) (run_events run db) = Inr vs"
  by (auto simp: load_event_chain_def)

lemma delete_run_runs [simp]:
  "ag_runs (delete_run run db) = filter (\<lambda>r. rs_run_id r \<noteq> run) (ag_runs db)" "ag_events (delete_run run db) = ag_events db"
  by (simp_all add: delete_run_def)

lemma leases_delete_run [simp]: "leases (delete_run run db) = leases (delete_ownership run db)"
  by (simp add: leases_def delete_run_def delete_ownership_def)

lemma tables_delete_run [simp]: "ag_ownership (delete_run run db) = ag_ownership (delete_ownership run db)"
  "ag_fencing_counter (delete_run run db) = ag_fencing_counter (delete_ownership run db)"
  by (simp_all add: delete_run_def delete_ownership_def)

lemma find_run_delete [simp]: "find_run run (delete_run run db) = None"
  by (auto simp: find_run_def lookup_row_None)

lemma rebuild_children_same:
  "rebuild_outgoing_children h run db = Inr db' \<Longrightarrow> ag_runs db' = ag_runs db \<and> ag_events db' = ag_events db \<and> leases db' = leases db"
  by (auto simp: rebuild_outgoing_children_def ebind_Inr_iff leases_def)

text \<open>The row that a rebuild writes is the one that the log determines, whatever the projection tables held.\<close>

lemma rebuild_row:
  assumes "rebuild_projection e run observed_at db = (Inr p, db')"
  obtains vs sem where "emap (event_from_row (sha e)) (run_events run db) = Inr vs" "replay_agent_events (sha e) vs = Inr p"
    "replay_semantic_binding (sha e) (ah_semantic_state (ap_initial_header p)) vs = Inr sem" "ag_events db' = ag_events db"
    "ag_runs db' = filter (\<lambda>r. rs_run_id r \<noteq> run) (ag_runs db) @
       [if ap_run_id p = run then set_semantic sem (projection_row (sha e) p) else projection_row (sha e) p]"
    "leases db' = leases (delete_ownership run db)"
proof -
  obtain vs sem db1 db2 db3 where c: "load_event_chain (sha e) run db = Inr vs" "replay_agent_events (sha e) vs = Inr p"
    "replay_semantic_binding (sha e) (ah_semantic_state (ap_initial_header p)) vs = Inr sem"
    and d: "insert_projection (sha e) p (delete_run run db) = Inr db1" "insert_bindings (sha e) (ap_initial_header p) db1 = Inr db2"
      "rebuild_outgoing_children (sha e) run db2 = Inr db3"
    and db': "db' = (if sem \<noteq> ah_semantic_state (ap_initial_header p)
                   then db3\<lparr>ag_runs := update_rows (\<lambda>r. rs_run_id r = run) (set_semantic sem) (ag_runs db3)\<rparr> else db3)"
    using assms unfolding rebuild_projection_def
    by (cases rule: agent_commit_cases [where r = "ebind _ _", OF assms [unfolded rebuild_projection_def]])
      (auto simp: ebind_Inr_iff split: if_splits option.splits)
  have r3: "ag_runs db3 = filter (\<lambda>r. rs_run_id r \<noteq> run) (ag_runs db) @ [projection_row (sha e) p]"
    "ag_events db3 = ag_events db" "leases db3 = leases (delete_ownership run db)"
    using d(1) insert_bindings_same [OF d(2)] rebuild_children_same [OF d(3)]
    by (auto simp: insert_projection_Inr leases_def simp flip: leases_delete_run)
  have "update_rows (\<lambda>r. rs_run_id r = run) (set_semantic sem) (filter (\<lambda>r. rs_run_id r \<noteq> run) (ag_runs db))
      = filter (\<lambda>r. rs_run_id r \<noteq> run) (ag_runs db)"
    by (rule update_rows_id) simp
  with r3(1) have "ag_runs db' = filter (\<lambda>r. rs_run_id r \<noteq> run) (ag_runs db) @
       [if ap_run_id p = run then set_semantic sem (projection_row (sha e) p) else projection_row (sha e) p]"
    by (auto simp: db' table_simps)
  with c r3 show thesis by (intro that [of vs sem]) (auto simp: load_chain_Inr db' leases_def)
qed

text \<open>On a database whose rows follow the log the rebuild only moves the row.\<close>

lemma rebuild_same:
  assumes "rebuild_projection e run observed_at db = (Inr p, db')" "log_inv (sha e) db" "hex_hash (sha e)"
  obtains r sem where "r \<in> set (ag_runs db)" "rs_run_id r = run" "row_shows (sha e) db r p sem"
    "ag_runs db' = filter (\<lambda>r. rs_run_id r \<noteq> run) (ag_runs db) @ [r]" "ag_events db' = ag_events db"
    "leases db' = leases (delete_ownership run db)"
proof -
  obtain vs sem where v: "emap (event_from_row (sha e)) (run_events run db) = Inr vs" "replay_agent_events (sha e) vs = Inr p"
    "replay_semantic_binding (sha e) (ah_semantic_state (ap_initial_header p)) vs = Inr sem" and same: "ag_events db' = ag_events db"
    and rows: "ag_runs db' = filter (\<lambda>r. rs_run_id r \<noteq> run) (ag_runs db) @
       [if ap_run_id p = run then set_semantic sem (projection_row (sha e) p) else projection_row (sha e) p]"
    and l: "leases db' = leases (delete_ownership run db)"
    by (rule rebuild_row [OF assms(1)])
  have "run_events run db \<noteq> []" using v(1,2) by (auto simp: replay_agent_events_def)
  then obtain x where "x \<in> set (ag_events db)" "er_run_id x = run" by (auto simp: run_events_def filter_empty_conv)
  then obtain r where r: "r \<in> set (ag_runs db)" "rs_run_id r = run" using assms(2) by (auto simp: log_inv_def)
  then obtain q sem2 where q: "row_shows (sha e) db r q sem2" using assms(2) by (auto simp: log_inv_def)
  with v r(2) have e: "q = p" "sem2 = sem" "r = set_semantic sem (projection_row (sha e) p)" by (auto simp: row_shows_def)
  then have "ap_run_id p = run" using r(2) by simp
  with rows e(3) have "ag_runs db' = filter (\<lambda>r. rs_run_id r \<noteq> run) (ag_runs db) @ [r]" by simp
  from that [OF r q [unfolded e(1)] this same l] show thesis .
qed

lemma rebuild_inv:
  assumes "rebuild_projection e run observed_at db = (res, db')" "log_inv (sha e) db" "hex_hash (sha e)"
  shows "log_inv (sha e) db'"
proof (cases res)
  case (Inl err)
  then have "db' = db" using assms(1) by (auto simp: rebuild_projection_def agent_commit_def split: sum.splits)
  with assms(2) show ?thesis by simp
next
  case (Inr p)
  obtain r sem where r: "r \<in> set (ag_runs db)" "rs_run_id r = run" "row_shows (sha e) db r p sem"
    "ag_runs db' = filter (\<lambda>r. rs_run_id r \<noteq> run) (ag_runs db) @ [r]" "ag_events db' = ag_events db" "leases db' = leases (delete_ownership run db)"
    by (rule rebuild_same [OF assms(1) [unfolded Inr] assms(2,3)])
  have d: "distinct (map rs_run_id (filter (\<lambda>r. rs_run_id r \<noteq> run) (ag_runs db)))"
    using assms(2) by (simp add: log_inv_def distinct_map_filter)
  have u: "x = r" if "x \<in> set (ag_runs db)" "rs_run_id x = run" for x
    using assms(2) that r(1,2) by (auto simp: log_inv_def distinct_map dest: inj_onD)
  have "set (ag_runs db') = set (ag_runs db)" using r(1) u unfolding r(4) by auto
  moreover have "row_shows (sha e) db' = row_shows (sha e) db" by (simp add: fun_eq_iff row_shows_def run_events_def r(5))
  moreover have "distinct (map rs_run_id (ag_runs db'))" using d r(2) unfolding r(4) by auto
  ultimately show ?thesis using assms(2) unfolding log_inv_def r(5) by simp
qed

end
