(* ===== verification/AgentOwnershipProps.thy ===== *)
theory AgentOwnershipProps
  imports AgentCreation
begin

text \<open>
  Invariants of the agent store: the rows follow the log, a lease belongs to an open run and carries its
  epoch, and the fencing tokens of a run are drawn from the counter.
\<close>

section \<open>The rows follow the log\<close>

lemma agent_step_log_inv:
  assumes "agent_step h s t" "log_inv h s" "hex_hash h"
  shows "log_inv h t"
  using assms(1)
proof cases
  case (create e header event_id pres)
  then show ?thesis using create_cases [OF create(3)] begins_inv(1) assms(2,3) by metis
next
  case (unowned e run expected target revision epoch ty payload created event_id pres)
  show ?thesis by (rule unowned_cases [OF unowned(2)]) (use unowned(1) assms(2,3) advances_inv in auto)
next
  case (acquire e run owner revision epoch observed expires lease event_id qres)
  show ?thesis by (rule acquire_own_cases [OF acquire(2)]) (use acquire(1) assms(2,3) advances_inv in auto)
next
  case (renew permit observed expires qres)
  have "ag_runs t = ag_runs s \<and> ag_events t = ag_events s" by (rule renew_own_cases [OF renew]) auto
  then have same: "ag_runs t = ag_runs s" "ag_events t = ag_events s" by simp_all
  have "row_shows h t = row_shows h s" by (simp add: fun_eq_iff row_shows_def run_events_def same)
  with assms(2) show ?thesis by (simp add: log_inv_def same)
next
  case (release permit bres)
  have "ag_runs t = ag_runs s \<and> ag_events t = ag_events s" by (rule release_own_cases [OF release]) (auto simp: delete_ownership_def)
  then have same: "ag_runs t = ag_runs s" "ag_events t = ag_events s" by simp_all
  have "row_shows h t = row_shows h s" by (simp add: fun_eq_iff row_shows_def run_events_def same)
  with assms(2) show ?thesis by (simp add: log_inv_def same)
next
  case (owned e permit states target revision epoch ty payload created event_id pres)
  show ?thesis by (rule owned_cases [OF owned(2)]) (use owned(1) assms(2,3) advances_inv in auto)
next
  case (semantic v current new_binding revision epoch p)
  show ?thesis by (rule semantic_cases [OF semantic(2,1) assms(2,3)]) (use assms(2,3) advances_inv in blast)
next
  case (rebuild e run observed_at pres)
  with rebuild_inv [OF rebuild(2)] assms(2,3) show ?thesis by simp
qed

section \<open>Leases\<close>

definition open_states :: "agent_state set" where
  "open_states = {Admitted, Active, Blocked}"

definition lease_fits :: "agent_db \<Rightarrow> ownership_row \<Rightarrow> bool" where
  "lease_fits db w \<longleftrightarrow> (\<exists>r \<in> set (ag_runs db). rs_run_id r = ow_run_id w \<and> rs_epoch r = ow_epoch w \<and> rs_state r \<in> open_states)"

definition lease_inv :: "agent_db \<Rightarrow> bool" where
  "lease_inv db \<longleftrightarrow> distinct (map ow_run_id (ag_ownership db)) \<and> (\<forall>w \<in> set (ag_ownership db). lease_fits db w)"

lemma find_ownership_iff:
  "lease_inv db \<Longrightarrow> find_ownership run db = Some w \<longleftrightarrow> w \<in> set (ag_ownership db) \<and> ow_run_id w = run"
  by (simp add: find_ownership_def lookup_row_iff lease_inv_def)

lemma find_ownership_None: "find_ownership run db = None \<longleftrightarrow> (\<forall>w \<in> set (ag_ownership db). ow_run_id w \<noteq> run)"
  by (simp add: find_ownership_def lookup_row_None)

lemma leases_iff: "leases t = (ws, n) \<longleftrightarrow> ag_ownership t = ws \<and> ag_fencing_counter t = n"
  by (simp add: leases_def)

lemma leases_same: "leases t = leases s \<longleftrightarrow> ag_ownership t = ag_ownership s \<and> ag_fencing_counter t = ag_fencing_counter s"
  by (simp add: leases_def)

lemma delete_ownership_simps [simp]:
  "ag_ownership (delete_ownership run db) = filter (\<lambda>w. ow_run_id w \<noteq> run) (ag_ownership db)"
  "ag_fencing_counter (delete_ownership run db) = ag_fencing_counter db" "ag_runs (delete_ownership run db) = ag_runs db"
  by (simp_all add: delete_ownership_def)

lemma same_row: "log_inv h db \<Longrightarrow> x \<in> set (ag_runs db) \<Longrightarrow> r \<in> set (ag_runs db) \<Longrightarrow> rs_run_id x = rs_run_id r \<Longrightarrow> x = r"
  by (metis distinct_map inj_onD log_inv_def)

lemma begins_fits: "begins h db db' p v \<Longrightarrow> lease_fits db w \<Longrightarrow> lease_fits db' w"
  by (auto simp: begins_def lease_fits_def)

lemma advances_fits:
  assumes "advances h db db' r r' p v q" "log_inv h db" "hex_hash h" "lease_fits db w"
    and "ow_run_id w = ap_run_id p \<Longrightarrow> ap_epoch q = ap_epoch p \<and> ap_state q \<in> open_states"
  shows "lease_fits db' w"
proof -
  note a = assms(1) [unfolded advances_def] and s = advances_shows [OF assms(1,3)]
  obtain x where x: "x \<in> set (ag_runs db)" "rs_run_id x = ow_run_id w" "rs_epoch x = ow_epoch w" "rs_state x \<in> open_states"
    using assms(4) by (auto simp: lease_fits_def)
  show ?thesis
  proof (cases "rs_run_id x = ap_run_id p")
    case False
    with x a show ?thesis by (fastforce simp: lease_fits_def set_update_rows)
  next
    case True
    have "x = r" using same_row [OF assms(2) x(1)] True s(3) a by simp
    then have "rs_epoch x = ap_epoch p" using a shows_simps by blast
    moreover have "rs_epoch r' = ap_epoch q \<and> rs_state r' = ap_state q" using s(1) shows_simps by blast
    moreover have "r' \<in> set (ag_runs db')" using a s(3) by (auto simp: set_update_rows)
    ultimately show ?thesis using True x assms(5) s(2) by (auto simp: lease_fits_def)
  qed
qed

lemma advances_lease_inv:
  assumes "advances h s t r r' p v q" "log_inv h s" "hex_hash h" "lease_inv s" "ag_ownership t = ag_ownership s"
    and "find_ownership (ap_run_id p) s = None \<or> ap_epoch q = ap_epoch p \<and> ap_state q \<in> open_states"
  shows "lease_inv t"
  using assms(4,6) advances_fits [OF assms(1-3)] by (auto simp: lease_inv_def assms(5) find_ownership_None)

lemma lease_state:
  assumes "advances h s t r r' p v q" "hex_hash h" "lease_inv s" "log_inv h s" "find_ownership (ap_run_id p) s = Some w"
  shows "ap_state p \<in> open_states \<and> ap_epoch p = ow_epoch w"
proof -
  have w: "w \<in> set (ag_ownership s)" "ow_run_id w = ap_run_id p" using assms(5) find_ownership_iff [OF assms(3)] by blast+
  then obtain x where x: "x \<in> set (ag_runs s)" "rs_run_id x = ow_run_id w" "rs_epoch x = ow_epoch w" "rs_state x \<in> open_states"
    using assms(3) by (auto simp: lease_inv_def lease_fits_def)
  obtain sem where r: "r \<in> set (ag_runs s)" "row_shows h s r p sem" using assms(1) by (auto simp: advances_def)
  have "x = r" using same_row [OF assms(4) x(1) r(1)] x(2) w(2) shows_simps [OF r(2)] by simp
  with shows_simps [OF r(2)] x show ?thesis by simp
qed

lemma next_state_open:
  assumes "advances h s t r r' p v q" "hex_hash h" "ap_state p \<in> open_states" "\<not> is_terminal_agent_run_state (ap_state q)"
  shows "ap_state q \<in> open_states"
  using advances_shows(5) [OF assms(1,2)] assms(3,4)
  by (auto simp: moves_on_def open_states_def is_terminal_agent_run_state_def)

lemma granted_fits:
  assumes "advances h s t r r' p v q" "hex_hash h" "ap_state q \<in> open_states" "pe_run_id permit = ap_run_id p" "pe_epoch permit = ap_epoch q"
  shows "lease_fits t (granted_row permit)"
proof -
  note a = assms(1) [unfolded advances_def] and s = advances_shows [OF assms(1,2)]
  have "r' \<in> set (ag_runs t)" using a s(3) by (auto simp: set_update_rows)
  moreover have "rs_epoch r' = ap_epoch q \<and> rs_state r' = ap_state q" using s(1) shows_simps by blast
  ultimately show ?thesis using s(2) assms(3-5) by (auto simp: lease_fits_def granted_row_def)
qed

lemma granted_row_simps [simp]:
  "ow_run_id (granted_row p) = pe_run_id p" "ow_fencing_token (granted_row p) = pe_fencing_token p" "ow_epoch (granted_row p) = pe_epoch p"
  "ow_owner_id (granted_row p) = pe_owner_id p" "ow_lease_id (granted_row p) = pe_lease_id p" "ow_expires_at (granted_row p) = pe_expires_at p"
  by (simp_all add: granted_row_def)

lemma agent_step_lease_inv:
  assumes "agent_step h s t" "log_inv h s" "hex_hash h" "lease_inv s"
  shows "lease_inv t"
  using assms(1)
proof cases
  case (create e header event_id pres)
  show ?thesis
  proof (rule create_cases [OF create(3)])
    fix p v
    assume b: "begins (sha e) s t p v" "leases t = leases s"
    show "lease_inv t" using assms(4) begins_fits [OF b(1)] b(2) by (simp add: lease_inv_def leases_same)
  qed (use create(1,2) assms(3,4) in auto)
next
  case (unowned e run expected target revision epoch ty payload created event_id pres)
  show ?thesis
  proof (rule unowned_cases [OF unowned(2)])
    fix r r' p v q
    assume a: "advances (sha e) s t r r' p v q" "ap_run_id p = run" "find_ownership run s = None" "leases t = leases s"
    show "lease_inv t" by (rule advances_lease_inv [OF a(1)]) (use a unowned(1) assms in \<open>simp_all add: leases_same\<close>)
  qed (use unowned(1) assms in auto)
next
  case (acquire e run owner revision epoch observed expires lease event_id qres)
  show ?thesis
  proof (rule acquire_own_cases [OF acquire(2)])
    fix db0 permit r r' p v q
    assume d: "db0 = s \<and> find_ownership run s = None \<or> db0 = delete_ownership run s" and a: "advances (sha e) s t r r' p v q"
      and p: "ap_run_id p = run" "ap_state p \<in> {Admitted, Active, Blocked}" "ap_state q = ap_state p" "pe_run_id permit = run"
        "pe_epoch permit = ap_epoch q"
      and l: "leases t = (ag_ownership db0 @ [granted_row permit], ag_fencing_counter s + 1)" "\<forall>x \<in> set (ag_ownership db0). ow_run_id x \<noteq> run"
    have sub: "set (ag_ownership db0) \<subseteq> set (ag_ownership s)" "distinct (map ow_run_id (ag_ownership db0))"
      using d assms(4) by (auto simp: lease_inv_def distinct_map_filter)
    have "lease_fits t w" if "w \<in> set (ag_ownership db0)" for w
      by (rule advances_fits [OF a]) (use that sub l(2) p(1) assms acquire(1) in \<open>auto simp: lease_inv_def\<close>)
    moreover have "lease_fits t (granted_row permit)"
      using granted_fits [OF a] p assms(3) acquire(1) by (simp add: open_states_def)
    ultimately show "lease_inv t" using sub(2) l p(4) by (auto simp: lease_inv_def leases_iff)
  qed (use acquire(1) assms in auto)
next
  case (renew permit observed expires qres)
  show ?thesis
  proof (rule renew_own_cases [OF renew])
    fix row x
    assume t: "t = s\<lparr>ag_ownership := update_rows (\<lambda>x. ow_run_id x = pe_run_id permit) (\<lambda>w. w\<lparr>ow_expires_at := x\<rparr>) (ag_ownership s)\<rparr>"
    have "lease_fits t w = lease_fits s w" "lease_fits t (w\<lparr>ow_expires_at := x\<rparr>) = lease_fits s w" for w
      by (simp_all add: t lease_fits_def)
    then show "lease_inv t" using assms(4) by (auto simp: t lease_inv_def map_update_rows set_update_rows)
  qed (use assms in auto)
next
  case (release permit bres)
  show ?thesis
  proof (rule release_own_cases [OF release])
    assume t: "t = delete_ownership (pe_run_id permit) s"
    show "lease_inv t" using assms(4) by (auto simp: t lease_inv_def distinct_map_filter lease_fits_def)
  qed (use assms in auto)
next
  case (owned e permit states target revision epoch ty payload created event_id pres)
  show ?thesis
  proof (rule owned_cases [OF owned(2)])
    fix r r' p v q row
    assume a: "advances (sha e) s t r r' p v q" and p: "ap_run_id p = pe_run_id permit" "ap_epoch q = ap_epoch p" "ap_state q = target"
      and row: "require_permit_row (find_ownership (pe_run_id permit) s) permit (Some created) = Inr row"
      and l: "leases t = leases (if is_terminal_agent_run_state target then delete_ownership (pe_run_id permit) s else s)"
    have h: "sha e = h" by (rule owned(1))
    have op: "ap_state p \<in> open_states" using lease_state [OF a [unfolded h] assms(3,4,2)] row p(1) by (simp add: require_permit_Inr)
    show "lease_inv t"
    proof (cases "is_terminal_agent_run_state target")
      case True
      have "lease_fits t w" if "w \<in> set (ag_ownership t)" for w
        by (rule advances_fits [OF a [unfolded h] assms(2,3)]) (use that True l p(1) assms(4) in \<open>auto simp: lease_inv_def leases_same\<close>)
      then show ?thesis using True l assms(4) by (auto simp: lease_inv_def leases_same distinct_map_filter)
    next
      case False
      show ?thesis
        by (rule advances_lease_inv [OF a [unfolded h] assms(2-4)])
          (use False l p next_state_open [OF a [unfolded h] assms(3) op] in \<open>simp_all add: leases_same\<close>)
    qed
  qed (use owned(1) assms in auto)
next
  case (semantic v current new_binding revision epoch p)
  show ?thesis
  proof (rule semantic_cases [OF semantic(2,1) assms(2,3)])
    fix r r'
    assume a: "advances h s t r r' current v p" "ap_epoch p = ap_epoch current" "ap_state p = ap_state current" "leases t = leases s"
    show "lease_inv t"
      by (rule advances_lease_inv [OF a(1) assms(2-4)])
        (use a lease_state [OF a(1) assms(3,4,2)] in \<open>cases "find_ownership (ap_run_id current) s"; simp add: leases_same\<close>)+
  qed
next
  case (rebuild e run observed_at pres)
  show ?thesis
  proof (cases pres)
    case (Inl err)
    then have "t = s" using rebuild(2) by (auto simp: rebuild_projection_def agent_commit_def split: sum.splits)
    with assms(4) show ?thesis by simp
  next
    case (Inr p)
    obtain r sem where r: "r \<in> set (ag_runs s)" "rs_run_id r = run" "row_shows (sha e) s r p sem"
      "ag_runs t = filter (\<lambda>r. rs_run_id r \<noteq> run) (ag_runs s) @ [r]" "ag_events t = ag_events s" "leases t = leases (delete_ownership run s)"
      by (rule rebuild_same [OF rebuild(2) [unfolded Inr]]) (use rebuild(1) assms in simp_all)
    with assms(4) show ?thesis by (auto simp: lease_inv_def leases_same distinct_map_filter lease_fits_def)
  qed
qed

section \<open>Reachable stores\<close>

definition agent_inv :: "(string \<Rightarrow> string) \<Rightarrow> agent_db \<Rightarrow> bool" where
  "agent_inv h db \<longleftrightarrow> hex_hash h \<longrightarrow> log_inv h db \<and> lease_inv db"

interpretation agent_steps: step_system "\<lambda>db. db = initial_agent_db" "agent_step h" "agent_inv h" for h
proof unfold_locales
  fix s t
  show "agent_inv h s" if "s = initial_agent_db"
    using that by (simp add: agent_inv_def initial_agent_db_def log_inv_def lease_inv_def)
  show "agent_inv h t" if "agent_inv h s" "agent_step h s t"
    using that agent_step_log_inv agent_step_lease_inv by (auto simp: agent_inv_def)
qed

lemma reachable_agent:
  "(agent_step h)\<^sup>*\<^sup>* initial_agent_db s \<Longrightarrow> hex_hash h \<Longrightarrow> log_inv h s \<and> lease_inv s"
  using agent_steps.reachable_inv [of initial_agent_db h s] by (simp add: agent_inv_def)

section \<open>Fencing tokens\<close>

text \<open>The tokens of the leases on the runs \<open>Q\<close>.\<close>

definition run_tokens :: "(string \<Rightarrow> bool) \<Rightarrow> agent_db \<Rightarrow> int list" where
  "run_tokens Q db = map ow_fencing_token (filter (\<lambda>w. Q (ow_run_id w)) (ag_ownership db))"

definition agent_live :: "(string \<Rightarrow> string) \<Rightarrow> agent_db \<Rightarrow> agent_db \<Rightarrow> bool" where
  "agent_live h s t \<longleftrightarrow> hex_hash h \<and> log_inv h s \<and> agent_step h s t"

lemma live_steps: "(agent_step h)\<^sup>*\<^sup>* s t \<Longrightarrow> hex_hash h \<Longrightarrow> log_inv h s \<Longrightarrow> (agent_live h)\<^sup>*\<^sup>* s t"
proof (induction rule: rtranclp_induct)
  case (step t u)
  then have l: "(agent_live h)\<^sup>*\<^sup>* s t" by simp
  have "log_inv h t" using step.hyps(1) step.prems by (induction rule: rtranclp_induct) (auto intro: agent_step_log_inv)
  then have "agent_live h t u" using step by (simp add: agent_live_def)
  with l show ?case by (rule rtranclp.rtrancl_into_rtrancl)
qed simp

lemma same_tokens: "leases t = leases s \<Longrightarrow> run_tokens Q t = run_tokens Q s \<and> ag_fencing_counter t = ag_fencing_counter s"
  by (simp add: run_tokens_def leases_same)

lemma tokens_delete: "mset (run_tokens Q (delete_ownership run s)) \<subseteq># mset (run_tokens Q s)"
  unfolding run_tokens_def mset_map mset_filter delete_ownership_simps
  by (intro image_mset_subseteq_mono multiset_filter_mono multiset_filter_subset)

lemma tokens_step:
  assumes "agent_live h s t"
  shows "ag_fencing_counter s \<le> ag_fencing_counter t \<and> (mset (run_tokens Q t) \<subseteq># mset (run_tokens Q s)
    \<or> ag_fencing_counter s < ag_fencing_counter t \<and> mset (run_tokens Q t) \<subseteq># add_mset (ag_fencing_counter t) (mset (run_tokens Q s)))"
proof -
  have hh: "hex_hash h" "log_inv h s" and st: "agent_step h s t" using assms by (simp_all add: agent_live_def)
  consider "leases t = leases s" | run where "leases t = leases (delete_ownership run s)"
    | run x where "t = s\<lparr>ag_ownership := update_rows (\<lambda>x. ow_run_id x = run) (\<lambda>w. w\<lparr>ow_expires_at := x\<rparr>) (ag_ownership s)\<rparr>"
    | permit db0 run where "db0 = s \<or> db0 = delete_ownership run s" "pe_fencing_token permit = ag_fencing_counter s + 1"
        "leases t = (ag_ownership db0 @ [granted_row permit], ag_fencing_counter s + 1)"
    using st
  proof cases
    case (create e header event_id pres)
    show ?thesis by (rule create_cases [OF create(3)]) (use create(1,2) hh that(1) in auto)
  next
    case (unowned e run expected target revision epoch ty payload created event_id pres)
    show ?thesis by (rule unowned_cases [OF unowned(2)]) (use unowned(1) hh that(1) in auto)
  next
    case (acquire e run owner revision epoch observed expires lease event_id qres)
    show ?thesis by (rule acquire_own_cases [OF acquire(2)]) (use acquire(1) hh that(1,4) in auto)
  next
    case (renew permit observed expires qres)
    show ?thesis by (rule renew_own_cases [OF renew]) (use that(1,3) in auto)
  next
    case (release permit bres)
    show ?thesis by (rule release_own_cases [OF release]) (use that(1,2) in auto)
  next
    case (owned e permit states target revision epoch ty payload created event_id pres)
    show ?thesis by (rule owned_cases [OF owned(2)]) (use owned(1) hh that(1,2) in \<open>auto split: if_splits\<close>)
  next
    case (semantic v current new_binding revision epoch p)
    show ?thesis by (rule semantic_cases [OF semantic(2,1) hh(2,1)]) (use that(1) in auto)
  next
    case (rebuild e run observed_at pres)
    show ?thesis
    proof (cases pres)
      case (Inl err)
      then have "t = s" using rebuild(2) by (auto simp: rebuild_projection_def agent_commit_def split: sum.splits)
      then show ?thesis using that(1) by simp
    next
      case (Inr p)
      show ?thesis by (rule rebuild_same [OF rebuild(2) [unfolded Inr]]) (use rebuild(1) hh that(2) in simp_all)
    qed
  qed
  then show ?thesis
  proof cases
    case 1
    then show ?thesis using same_tokens [of t s] by simp
  next
    case (2 run)
    then show ?thesis using same_tokens [OF 2] tokens_delete by simp
  next
    case (3 run x)
    have "map ow_fencing_token (filter (\<lambda>w. Q (ow_run_id w)) (update_rows (\<lambda>x. ow_run_id x = run) (\<lambda>w. w\<lparr>ow_expires_at := x\<rparr>) ws))
        = map ow_fencing_token (filter (\<lambda>w. Q (ow_run_id w)) ws)" for ws
      by (induction ws) auto
    then have "run_tokens Q t = run_tokens Q s" "ag_fencing_counter t = ag_fencing_counter s" unfolding run_tokens_def 3 by simp_all
    then show ?thesis by simp
  next
    case (4 permit db0 run)
    have "mset (run_tokens Q db0) \<subseteq># mset (run_tokens Q s)" using 4(1) tokens_delete by auto
    moreover have "mset (run_tokens Q t) \<subseteq># add_mset (ag_fencing_counter t) (mset (run_tokens Q db0))"
      using 4(2,3) by (auto simp: run_tokens_def leases_iff)
    ultimately show ?thesis using 4(3) by (auto simp: leases_iff intro: subset_mset.order_trans)
  qed
qed

interpretation agent_tokens: fenced_table ag_fencing_counter "run_tokens Q" "agent_live h" for Q h
  by unfold_locales (rule tokens_step)

end
