(* ===== verification/AgentStoreProps.thy ===== *)
theory AgentStoreProps
  imports AgentOwnershipProps
begin

text \<open>
  The properties of the agent store: every read is the replay of the log, a run moves through its life cycle
  one revision at a time, stale writers and superseded owners are refused, and the projection tables can be
  rebuilt from the log.
\<close>

section \<open>Reads replay the log\<close>

lemma run_row_or_nothing:
  assumes "log_inv h db"
  obtains "find_run run db = None" "run_events run db = []"
  | r p sem where "find_run run db = Some r" "r \<in> set (ag_runs db)" "rs_run_id r = run" "row_shows h db r p sem"
proof (cases "find_run run db")
  case None
  then have "\<forall>r \<in> set (ag_runs db). rs_run_id r \<noteq> run" by (simp add: find_run_def lookup_row_None)
  then have "run_events run db = []" using assms by (fastforce simp: log_inv_def run_events_def filter_empty_conv)
  with None that(1) show thesis by simp
next
  case (Some r)
  then have "r \<in> set (ag_runs db)" "rs_run_id r = run" by (auto simp: find_run_def dest!: lookup_row_Some)
  with Some that(2) assms show thesis by (auto simp: log_inv_def)
qed

lemma shown_chain: "row_shows h db r p sem \<Longrightarrow> \<exists>vs. load_event_chain h (rs_run_id r) db = Inr vs \<and> replay_agent_events h vs = Inr p
    \<and> replay_semantic_binding h (ah_semantic_state (ap_initial_header p)) vs = Inr sem"
  by (auto simp: row_shows_def load_chain_Inr replay_agent_events_def)

lemma read_run:
  assumes "log_inv h db" "hex_hash h"
  shows "get_agent_run h run db = ebind (chk_uuid4 run) (\<lambda>run. ebind (load_event_chain h run db) (replay_agent_events h))"
  using assms(1)
proof (cases rule: run_row_or_nothing [of h db run])
  case 1
  then show ?thesis
    by (auto simp: get_agent_run_def current_projection_def load_event_chain_def chk_uuid4_def)
next
  case (2 r p sem)
  note rd = row_reads [OF 2(4) assms(2)]
  from shown_chain [OF 2(4)] 2(1,3) rd(2,4) show ?thesis
    by (auto simp: get_agent_run_def current_projection_def chk_uuid4_def)
qed

lemma read_semantic:
  assumes "log_inv h db" "hex_hash h"
  shows "get_agent_semantic_binding h run db = ebind (chk_uuid4 run) (\<lambda>run. ebind (load_event_chain h run db) (\<lambda>vs.
    ebind (replay_agent_events h vs) (\<lambda>p. replay_semantic_binding h (ah_semantic_state (ap_initial_header p)) vs)))"
  using assms(1)
proof (cases rule: run_row_or_nothing [of h db run])
  case 1
  then show ?thesis
    by (auto simp: get_agent_semantic_binding_def load_event_chain_def chk_uuid4_def)
next
  case (2 r p sem)
  note rd = row_reads [OF 2(4) assms(2)]
  have "header_from_dict h (rs_initial_header_json r) = Inr (ap_initial_header p)"
    using header_round_trip rd(1) assms(2) 2(4) by (auto simp: projection_ok_def row_shows_def)
  with shown_chain [OF 2(4)] 2(1,3) rd(3) show ?thesis
    by (auto simp: get_agent_semantic_binding_def chk_uuid4_def)
qed

text \<open>C22. The projection tables are a cache of the event log: whatever transactions have run, reading a run or
  its semantic binding gives what replaying its events from scratch gives, for every run id, and the
  integrity checks of the reads never fire.
\<close>

theorem reads_replay_the_log:
  assumes "hex_hash h" "(agent_step h)\<^sup>*\<^sup>* initial_agent_db db"
  shows "get_agent_run h run db = ebind (chk_uuid4 run) (\<lambda>run. ebind (load_event_chain h run db) (replay_agent_events h))
    \<and> get_agent_semantic_binding h run db = ebind (chk_uuid4 run) (\<lambda>run. ebind (load_event_chain h run db) (\<lambda>vs.
        ebind (replay_agent_events h vs) (\<lambda>p. replay_semantic_binding h (ah_semantic_state (ap_initial_header p)) vs)))"
  using read_run read_semantic reachable_agent assms by blast

section \<open>The life of a run\<close>

definition follows :: "run_state_row \<Rightarrow> run_state_row \<Rightarrow> bool" where
  "follows r r' \<longleftrightarrow> rs_run_id r' = rs_run_id r \<and> rs_initial_header_json r' = rs_initial_header_json r
     \<and> rs_subject_digest r' = rs_subject_digest r \<and> rs_epoch r \<le> rs_epoch r'
     \<and> (r' = r \<or> rs_state_revision r < rs_state_revision r')
     \<and> (rs_state r, rs_state r') \<in> {(a, b). b \<in> set (phase_b_transitions a)}\<^sup>*"

lemma follows_refl [simp]: "follows r r"
  by (simp add: follows_def)

lemma follows_trans: "follows a b \<Longrightarrow> follows b c \<Longrightarrow> follows a c"
  unfolding follows_def by (auto intro: rtrancl_trans)

lemma advances_follows:
  assumes "advances h s t r r' p v q" "hex_hash h"
  shows "follows r r'"
proof -
  note f = advances_shows [OF assms]
  obtain sem sem' where s: "row_shows h s r p sem" "row_shows h t r' q sem'" using assms(1) f(1) by (auto simp: advances_def)
  have "(ap_state p, ap_state q) \<in> {(a, b). b \<in> set (phase_b_transitions a)}\<^sup>*" using f(5) by (auto simp: moves_on_def)
  moreover have "rs_initial_header_json r' = rs_initial_header_json r" "rs_subject_digest r' = rs_subject_digest r"
    using s f(5) by (auto simp: row_shows_def moves_on_def ap_subject_digest_def)
  ultimately show ?thesis using shows_simps [OF s(1)] shows_simps [OF s(2)] f(2,3,5) by (simp add: follows_def moves_on_def)
qed

lemma advances_rows:
  assumes "advances h s t r r' p v q" "hex_hash h" "log_inv h s" "x \<in> set (ag_runs s)"
  shows "\<exists>x' \<in> set (ag_runs t). follows x x'"
proof (cases "rs_run_id x = ap_run_id p")
  case True
  note a = assms(1) [unfolded advances_def]
  have "x = r" using same_row [OF assms(3,4)] True a advances_shows(3) [OF assms(1,2)] by simp
  moreover have "r' \<in> set (ag_runs t)" using a advances_shows(3) [OF assms(1,2)] by (auto simp: set_update_rows)
  ultimately show ?thesis using advances_follows [OF assms(1,2)] by blast
next
  case False
  then have "x \<in> set (ag_runs t)" using assms(1,4) by (force simp: advances_def set_update_rows)
  then show ?thesis by (auto intro: bexI [of _ x])
qed

lemma step_follows:
  assumes "agent_step h s t" "hex_hash h" "log_inv h s" "x \<in> set (ag_runs s)"
  shows "\<exists>x' \<in> set (ag_runs t). follows x x'"
  using assms(1)
proof cases
  case (create e header event_id pres)
  show ?thesis by (rule create_cases [OF create(3)]) (use create(1,2) assms in \<open>auto simp: begins_def intro: bexI [of _ x]\<close>)
next
  case (unowned e run expected target revision epoch ty payload created event_id pres)
  show ?thesis by (rule unowned_cases [OF unowned(2)]) (use unowned(1) assms in \<open>auto intro: bexI [of _ x] advances_rows\<close>)
next
  case (acquire e run owner revision epoch observed expires lease event_id qres)
  show ?thesis by (rule acquire_own_cases [OF acquire(2)]) (use acquire(1) assms in \<open>auto intro: bexI [of _ x] advances_rows\<close>)
next
  case (renew permit observed expires qres)
  show ?thesis by (rule renew_own_cases [OF renew]) (use assms in \<open>auto intro: bexI [of _ x]\<close>)
next
  case (release permit bres)
  show ?thesis by (rule release_own_cases [OF release]) (use assms in \<open>auto intro: bexI [of _ x]\<close>)
next
  case (owned e permit states target revision epoch ty payload created event_id pres)
  show ?thesis by (rule owned_cases [OF owned(2)]) (use owned(1) assms in \<open>auto intro: bexI [of _ x] advances_rows\<close>)
next
  case (semantic v current new_binding revision epoch p)
  show ?thesis by (rule semantic_cases [OF semantic(2,1) assms(3,2)]) (use assms advances_rows in blast)
next
  case (rebuild e run observed_at pres)
  show ?thesis
  proof (cases pres)
    case (Inl err)
    then have "t = s" using rebuild(2) by (auto simp: rebuild_projection_def agent_commit_def split: sum.splits)
    then show ?thesis using assms(4) by (auto intro: bexI [of _ x])
  next
    case (Inr p)
    obtain r sem where r: "r \<in> set (ag_runs s)" "rs_run_id r = run" "row_shows (sha e) s r p sem"
      "ag_runs t = filter (\<lambda>r. rs_run_id r \<noteq> run) (ag_runs s) @ [r]" "ag_events t = ag_events s" "leases t = leases (delete_ownership run s)"
      by (rule rebuild_same [OF rebuild(2) [unfolded Inr]]) (use rebuild(1) assms in simp_all)
    then have "x \<in> set (ag_runs t)" using same_row [OF assms(3,4) r(1)] assms(4) by auto
    then show ?thesis by (auto intro: bexI [of _ x])
  qed
qed

lemma log_inv_steps: "(agent_step h)\<^sup>*\<^sup>* s t \<Longrightarrow> hex_hash h \<Longrightarrow> log_inv h s \<Longrightarrow> log_inv h t"
  by (induction rule: rtranclp_induct) (auto intro: agent_step_log_inv)

lemma steps_follow:
  assumes "(agent_step h)\<^sup>*\<^sup>* s t" "hex_hash h" "log_inv h s" "x \<in> set (ag_runs s)"
  shows "\<exists>x' \<in> set (ag_runs t). follows x x'"
  using assms(1)
proof (induction rule: rtranclp_induct)
  case base
  then show ?case using assms(4) by (auto intro: bexI [of _ x])
next
  case (step t u)
  then obtain y where y: "y \<in> set (ag_runs t)" "follows x y" by blast
  have "log_inv h t" using log_inv_steps [OF step.hyps(1) assms(2,3)] .
  from step_follows [OF step.hyps(2) assms(2) this y(1)] y(2) show ?case by (auto intro: follows_trans)
qed

lemma found_follows:
  assumes "(agent_step h)\<^sup>*\<^sup>* s t" "hex_hash h" "log_inv h s" "find_run run s = Some r"
  obtains r' where "find_run run t = Some r'" "follows r r'"
proof -
  have r: "r \<in> set (ag_runs s)" "rs_run_id r = run" using assms(4) by (auto simp: find_run_def dest!: lookup_row_Some)
  obtain r' where r': "r' \<in> set (ag_runs t)" "follows r r'" using steps_follow [OF assms(1-3) r(1)] by blast
  moreover have "find_run run t = Some r'"
    using find_run_iff [of t run r'] log_inv_steps [OF assms(1-3)] r' r(2) by (simp add: log_inv_def follows_def)
  ultimately show thesis using that by blast
qed

text \<open>C27. The life of a run: in every later store the run still exists with the header and the subject digest it
  was created with, its state has moved only along the transitions of the table (so a run that is completed,
  failed or cancelled stays so), its epoch has not gone back, and its row is unchanged unless its
  revision has grown.
\<close>

theorem run_life_cycle:
  assumes "hex_hash h" "(agent_step h)\<^sup>*\<^sup>* initial_agent_db s" "(agent_step h)\<^sup>*\<^sup>* s t" "find_run run s = Some r"
  shows "\<exists>r'. find_run run t = Some r' \<and> rs_initial_header_json r' = rs_initial_header_json r
     \<and> rs_subject_digest r' = rs_subject_digest r \<and> rs_epoch r \<le> rs_epoch r'
     \<and> (r' = r \<or> rs_state_revision r < rs_state_revision r')
     \<and> (rs_state r, rs_state r') \<in> {(a, b). b \<in> set (phase_b_transitions a)}\<^sup>*"
proof -
  obtain r' where "find_run run t = Some r'" "follows r r'"
    using found_follows [OF assms(3,1) _ assms(4)] reachable_agent [OF assms(2,1)] by blast
  then show ?thesis by (auto simp: follows_def)
qed

section \<open>Leases\<close>

lemma reachable_tokens:
  assumes "hex_hash h" "(agent_step h)\<^sup>*\<^sup>* initial_agent_db db"
  shows "distinct (run_tokens Q db) \<and> (\<forall>n \<in> set (run_tokens Q db). n \<le> ag_fencing_counter db)"
proof -
  have "log_inv h initial_agent_db" using reachable_agent [of h initial_agent_db] assms(1) by simp
  from agent_tokens.steps_fenced [OF live_steps [OF assms(2,1) this], of Q]
  show ?thesis by (simp add: agent_tokens.fenced_def run_tokens_def initial_agent_db_def)
qed

lemma lease_facts:
  assumes "hex_hash h" "(agent_step h)\<^sup>*\<^sup>* initial_agent_db db" "find_ownership run db = Some w"
  shows "(\<exists>r. find_run run db = Some r \<and> rs_epoch r = ow_epoch w \<and> rs_state r \<in> {Admitted, Active, Blocked})
    \<and> filter (\<lambda>x. ow_run_id x = run) (ag_ownership db) = [w] \<and> distinct (map ow_fencing_token (ag_ownership db))
    \<and> ow_fencing_token w \<le> ag_fencing_counter db"
proof -
  have inv: "log_inv h db" "lease_inv db" using reachable_agent assms(1,2) by blast+
  have w: "w \<in> set (ag_ownership db)" "ow_run_id w = run" using assms(3) find_ownership_iff [OF inv(2)] by blast+
  then obtain r where r: "r \<in> set (ag_runs db)" "rs_run_id r = run" "rs_epoch r = ow_epoch w" "rs_state r \<in> open_states"
    using inv(2) by (auto simp: lease_inv_def lease_fits_def)
  have f: "find_run run db = Some r" using find_run_iff [of db run r] inv(1) r(1,2) by (simp add: log_inv_def)
  have "filter (\<lambda>x. ow_run_id x = run) ws = [w]" if "distinct (map ow_run_id ws)" "w \<in> set ws" for ws
    using that w(2) by (induction ws) (auto simp: filter_empty_conv image_iff)
  then have "filter (\<lambda>x. ow_run_id x = run) (ag_ownership db) = [w]" using inv(2) w(1) by (simp add: lease_inv_def)
  moreover have "distinct (map ow_fencing_token (ag_ownership db)) \<and> ow_fencing_token w \<le> ag_fencing_counter db"
    using reachable_tokens [OF assms(1,2), of "\<lambda>_. True"] w(1) by (simp add: run_tokens_def)
  ultimately show ?thesis using f r by (auto simp: open_states_def)
qed

text \<open>A lease always belongs to a run that is admitted, active or blocked, and carries the epoch of that run;
  a run has one lease at most, no two leases share a fencing token, and no token is above the counter.
\<close>

theorem leases_on_open_runs:
  assumes "hex_hash h" "(agent_step h)\<^sup>*\<^sup>* initial_agent_db db" "find_ownership run db = Some w"
  shows "(\<exists>r. find_run run db = Some r \<and> rs_epoch r = ow_epoch w \<and> rs_state r \<in> {Admitted, Active, Blocked})
    \<and> filter (\<lambda>x. ow_run_id x = run) (ag_ownership db) = [w] \<and> distinct (map ow_fencing_token (ag_ownership db))
    \<and> ow_fencing_token w \<le> ag_fencing_counter db"
  by (rule lease_facts [OF assms])

section \<open>Superseded owners\<close>

definition stranger :: "agent_db \<Rightarrow> agent_permit \<Rightarrow> bool" where
  "stranger db permit \<longleftrightarrow> pe_fencing_token permit \<notin> set (run_tokens (\<lambda>x. x = pe_run_id permit) db)"

lemma stranger_refused: "stranger db permit \<Longrightarrow> require_permit_row (find_ownership (pe_run_id permit) db) permit observed \<noteq> Inr w"
  by (auto simp: stranger_def run_tokens_def require_permit_Inr find_ownership_def image_iff dest!: lookup_row_Some)

lemma stranger_renew:
  assumes "stranger db permit"
  shows "\<exists>err. renew_ownership permit observed expires db = (Inl err, db)"
proof -
  obtain res db' where r: "renew_ownership permit observed expires db = (res, db')" by fastforce
  show ?thesis by (rule renew_own_cases [OF r]) (use r stranger_refused [OF assms] in \<open>cases res; auto\<close>)+
qed

lemma stranger_release:
  assumes "stranger db permit"
  shows "\<exists>err. release_ownership permit db = (Inl err, db)"
proof -
  obtain res db' where r: "release_ownership permit db = (res, db')" by fastforce
  show ?thesis by (rule release_own_cases [OF r]) (use r stranger_refused [OF assms] in \<open>cases res; auto\<close>)+
qed

lemma stranger_transition:
  assumes "stranger db permit" "log_inv (sha e) db" "hex_hash (sha e)"
  shows "\<exists>err. transition_owned e permit states target revision epoch ty payload created event_id db = (Inl err, db)"
proof -
  obtain res db' where r: "transition_owned e permit states target revision epoch ty payload created event_id db = (res, db')" by fastforce
  show ?thesis by (rule owned_cases [OF r assms(2,3)]) (use r stranger_refused [OF assms(1)] in auto)
qed

lemma acquired_lease:
  assumes "acquire_ownership e run owner revision epoch observed expires lease event_id s = (Inr permit, t)"
    and "log_inv (sha e) s" "hex_hash (sha e)" "lease_inv t" "\<forall>n \<in> set (run_tokens (\<lambda>x. x = run) t). n \<le> ag_fencing_counter t"
  shows "pe_run_id permit = run \<and> (\<exists>w. find_ownership run t = Some w \<and> ow_fencing_token w = pe_fencing_token permit)
    \<and> pe_fencing_token permit \<le> ag_fencing_counter t"
proof (rule acquire_own_cases [OF assms(1-3)])
  fix w p
  assume p: "Inr permit = Inr p" "t = s" "find_ownership run s = Some w" "permit_from_row w revision = Inr p"
  have w: "ow_run_id w = run" "w \<in> set (ag_ownership t)" using p(2,3) by (auto simp: find_ownership_def dest!: lookup_row_Some)
  have "pe_run_id p = run \<and> ow_fencing_token w = pe_fencing_token p"
    using permit_create_Inr [OF p(4) [unfolded permit_from_row_def]] w by simp
  with p(1-3) assms(5) w show ?thesis by (auto simp: run_tokens_def)
next
  fix db0 p r r' q0 v q
  assume p: "Inr permit = Inr p" "pe_run_id p = run" "pe_fencing_token p = ag_fencing_counter s + 1"
    "leases t = (ag_ownership db0 @ [granted_row p], ag_fencing_counter s + 1)"
  then have "granted_row p \<in> set (ag_ownership t)" by (simp add: leases_iff)
  with p have "find_ownership run t = Some (granted_row p)" using find_ownership_iff [OF assms(4)] by simp
  with p show ?thesis by (simp add: leases_iff)
qed simp

text \<open>C25. Once a run has been acquired again under another fencing token, the permit of the earlier owner is
  dead: in every later store its renewal, its release and its transitions are refused and change nothing.
\<close>

theorem superseded_owner_refused:
  assumes "hex_hash (sha e)" "(agent_step (sha e))\<^sup>*\<^sup>* initial_agent_db s0"
    and "acquire_ownership e run owner revision epoch observed expires lease event_id s0 = (Inr old, s1)"
    and "(agent_step (sha e))\<^sup>*\<^sup>* s1 s2" "sha e2 = sha e"
    and "acquire_ownership e2 run owner2 revision2 epoch2 observed2 expires2 lease2 event_id2 s2 = (Inr new, s3)"
    and "pe_fencing_token new \<noteq> pe_fencing_token old" "(agent_step (sha e))\<^sup>*\<^sup>* s3 s4" "sha e4 = sha e"
  shows "\<exists>err1 err2 err3. renew_ownership old now later s4 = (Inl err1, s4) \<and> release_ownership old s4 = (Inl err2, s4)
    \<and> transition_owned e4 old states target revision4 epoch4 ty payload created event_id4 s4 = (Inl err3, s4)"
proof -
  have s1: "(agent_step (sha e))\<^sup>*\<^sup>* initial_agent_db s1"
    using assms(2) agent_step.acquire [OF refl assms(3)] by (rule rtranclp.rtrancl_into_rtrancl)
  with assms(4) have s2: "(agent_step (sha e))\<^sup>*\<^sup>* initial_agent_db s2" by (simp add: rtranclp_trans)
  have s3: "(agent_step (sha e))\<^sup>*\<^sup>* initial_agent_db s3"
    using s2 agent_step.acquire [OF assms(5,6)] by (rule rtranclp.rtrancl_into_rtrancl)
  note inv = reachable_agent [OF _ assms(1)]
  have o1: "pe_run_id old = run" "pe_fencing_token old \<le> ag_fencing_counter s1"
    using acquired_lease [OF assms(3) _ assms(1)] inv [OF assms(2)] inv [OF s1] reachable_tokens [OF assms(1) s1] by simp_all
  obtain w where w: "find_ownership run s3 = Some w" "ow_fencing_token w = pe_fencing_token new"
    using acquired_lease [OF assms(6)] inv [OF s2] inv [OF s3] reachable_tokens [OF assms(1) s3] assms(1,5) by auto
  have "run_tokens (\<lambda>x. x = run) s3 = [ow_fencing_token w]"
    using lease_facts [OF assms(1) s3 w(1)] by (simp add: run_tokens_def)
  then have out: "pe_fencing_token old \<notin> set (run_tokens (\<lambda>x. x = run) s3)" using w(2) assms(7) by simp
  have "ag_fencing_counter s1 \<le> ag_fencing_counter s3"
  proof -
    have "(agent_step (sha e))\<^sup>*\<^sup>* s1 s3" using assms(4) agent_step.acquire [OF assms(5,6)] by (rule rtranclp.rtrancl_into_rtrancl)
    from agent_tokens.counter_steps [OF live_steps [OF this assms(1)]] inv [OF s1] show ?thesis by simp
  qed
  with o1(2) have "pe_fencing_token old \<le> ag_fencing_counter s3" by simp
  from agent_tokens.retired_token [OF live_steps [OF assms(8,1)] this out] inv [OF s3] o1(1)
  have st: "stranger s4 old" by (simp add: stranger_def)
  have "(agent_step (sha e))\<^sup>*\<^sup>* initial_agent_db s4" using s3 assms(8) by (rule rtranclp_trans)
  from stranger_transition [OF st, of e4] inv [OF this] assms(1,9) show ?thesis
    using stranger_renew [OF st] stranger_release [OF st] by simp
qed

section \<open>Stale writers\<close>

lemma stale_projection:
  assumes "log_inv h db" "hex_hash h" "find_run run db = Some r" "rs_state_revision r \<noteq> revision"
  shows "fresh_projection h run revision epoch db = Inl (AgentError Stale_Revision)"
proof -
  have r: "r \<in> set (ag_runs db)" using assms(3) by (auto simp: find_run_def dest!: lookup_row_Some)
  then obtain p sem where s: "row_shows h db r p sem" using assms(1) by (auto simp: log_inv_def)
  from row_reads(2,4) [OF s assms(2)] shows_simps [OF s] assms(3,4) show ?thesis
    by (simp add: fresh_projection_def current_projection_def)
qed

lemma stale_transition:
  assumes "log_inv (sha e) db" "hex_hash (sha e)" "find_run run db = Some r" "rs_state_revision r \<noteq> revision"
    and "is_uuid4 run" "1 \<le> revision" "0 \<le> epoch"
  shows "transition_unowned e run expected target revision epoch ty payload created event_id db = (Inl (AgentError Stale_Revision), db)"
    "pe_run_id permit = run \<Longrightarrow>
      transition_owned e permit states target revision epoch ty payload created event_id db = (Inl (AgentError Stale_Revision), db)"
  using stale_projection [OF assms(1-4)] assms(5-7)
  by (simp_all add: transition_unowned_def transition_owned_def chk_uuid4_def require_positive_int_def require_non_negative_int_def
      agent_commit_def)

lemma advanced_row:
  assumes "advances h s t r r' p v q" "log_inv h s" "hex_hash h" "(agent_step h)\<^sup>*\<^sup>* t u"
  obtains x where "find_run (ap_run_id p) u = Some x" "ap_state_revision p < rs_state_revision x"
proof -
  note f = advances_shows [OF assms(1,3)]
  have t: "log_inv h t" using advances_inv [OF assms(1-3)] .
  obtain sem where q: "row_shows h t r' q sem" using f(1) by blast
  have "r' \<in> set (ag_runs t)" using assms(1) f(3) by (auto simp: advances_def set_update_rows)
  then have "find_run (ap_run_id p) t = Some r'" using find_run_iff [of t "ap_run_id p" r'] t f(2) by (simp add: log_inv_def)
  then obtain x where "find_run (ap_run_id p) u = Some x" "follows r' x" using found_follows [OF assms(4,3) t] by blast
  with that shows_simps [OF q] f(5) show thesis by (auto simp: follows_def moves_on_def)
qed

text \<open>C26. Optimistic concurrency: when a transition of a run has been committed against a revision, every later
  transition of that run against the same revision, under whatever epoch, by whatever holder or without one, is
  refused as stale and changes nothing, whatever has happened in between: other transitions, new owners, rebuilds.
\<close>

theorem stale_transition_refused:
  assumes "hex_hash (sha e)" "(agent_step (sha e))\<^sup>*\<^sup>* initial_agent_db s"
    and "transition_unowned e run expected target revision epoch ty payload created event_id s = (Inr p, t)
      \<or> pe_run_id permit = run \<and> transition_owned e permit states target revision epoch ty payload created event_id s = (Inr p, t)"
    and "is_uuid4 run" "(agent_step (sha e))\<^sup>*\<^sup>* t u" "sha e2 = sha e" "pe_run_id permit2 = run" "0 \<le> epoch2"
  shows "transition_unowned e2 run expected2 target2 revision epoch2 ty2 payload2 created2 event_id2 u = (Inl (AgentError Stale_Revision), u)
    \<and> transition_owned e2 permit2 states2 target2 revision epoch2 ty2 payload2 created2 event_id2 u = (Inl (AgentError Stale_Revision), u)"
proof -
  have inv: "log_inv (sha e) s" using reachable_agent [OF assms(2,1)] by simp
  obtain r r' p0 v q where a: "advances (sha e) s t r r' p0 v q" "ap_run_id p0 = run" "ap_state_revision p0 = revision"
    using assms(3)
  proof
    assume u: "transition_unowned e run expected target revision epoch ty payload created event_id s = (Inr p, t)"
    show thesis by (rule unowned_cases [OF u inv assms(1)]) (use that in auto)
  next
    assume w: "pe_run_id permit = run \<and> transition_owned e permit states target revision epoch ty payload created event_id s = (Inr p, t)"
    show thesis by (rule owned_cases [OF conjunct2 [OF w] inv assms(1)]) (use that w in auto)
  qed
  have pos: "1 \<le> revision"
    using assms(3) by (auto simp: transition_unowned_def transition_owned_def agent_commit_def ebind_Inr_iff require_Inr split: sum.splits)
  obtain x where x: "find_run run u = Some x" "revision < rs_state_revision x"
    using advanced_row [OF a(1) inv assms(1,5)] a(2,3) by metis
  have "log_inv (sha e) u" using log_inv_steps [OF assms(5,1) advances_inv [OF a(1) inv assms(1)]] .
  with stale_transition [of e2 u run x revision epoch2] x assms(1,4,6,7,8) pos show ?thesis by simp
qed

end
