(* ===== verification/AgentRecoveryProps.thy ===== *)
theory AgentRecoveryProps
  imports AgentStoreProps "HOL-Library.Sublist"
begin

text \<open>
  What the event log of the agent store holds, and what can be recovered from it: the events of a run are
  numbered without gaps and free of content, and the projection tables can be rebuilt from them.
\<close>

section \<open>What the log holds\<close>

lemma content_free_all:
  "content_free_items xs = Inr () \<longleftrightarrow> (\<forall>x \<in> set xs. validate_content_free x = Inr ())"
  "content_free_members kvs = Inr () \<longleftrightarrow> (\<forall>kv \<in> set kvs. \<not> forbidden_key (fst kv) \<and> validate_content_free (snd kv) = Inr ())"
  by (induction xs, simp_all add: result_simps) (induction kvs, auto simp: result_simps split: if_splits)

lemma content_free_norm: "validate_content_free v = Inr () \<Longrightarrow> validate_content_free (json_norm v) = Inr ()"
proof (induction v)
  case (JList xs)
  then show ?case by (auto simp: content_free_all norm_items_map)
next
  case (JObj kvs)
  then show ?case by (fastforce simp: content_free_all norm_members_map)
qed simp_all

lemma event_content_free: "event_ok h v \<Longrightarrow> validate_content_free (ae_payload v) = Inr ()"
proof -
  assume "event_ok h v"
  then have "validated_payload h (ae_event_type v) (ae_payload v) = Inr (ae_payload v)" by (simp add: event_ok_def)
  then obtain n where "validate_content_free n = Inr ()" "ae_payload v = json_norm n"
    by (auto simp: validated_payload_def ebind_Inr_iff split: json.splits if_splits)
  then show ?thesis using content_free_norm by simp
qed

lemma replay_revisions:
  assumes "replay_from h ids cur vs = Inr p" "case cur of None \<Rightarrow> n = 0 | Some c \<Rightarrow> ap_state_revision c = n"
  shows "map ae_after_revision vs = [n + 1..n + int (length vs)]"
  using assms
proof (induction vs arbitrary: ids cur n)
  case (Cons v vs)
  then obtain q where q: "apply_agent_event h cur v = Inr q" "replay_from h (ae_event_id v # ids) (Some q) vs = Inr p"
    by (auto simp: ebind_Inr_iff split: if_splits)
  have "ae_after_revision v = n + 1 \<and> ap_state_revision q = n + 1"
  proof (cases cur)
    case None
    with q(1) Cons.prems(2) show ?thesis
      by (auto simp: apply_agent_event_def first_projection_def from_creation_header_def ebind_Inr_iff projection_create_Inr split: if_splits)
  next
    case (Some c)
    with q(1) Cons.prems(2) show ?thesis
      by (auto simp: apply_agent_event_def next_projection_def ebind_Inr_iff projection_create_Inr split: if_splits)
  qed
  moreover from this Cons.IH [OF q(2), of "n + 1"] have "map ae_after_revision vs = [n + 1 + 1..n + 1 + int (length vs)]" by simp
  ultimately show ?case by (simp add: upto_rec1 add.assoc)
qed simp

text \<open>The log only grows, by rows of well-formed events under the next sequence number.\<close>

definition logs :: "(string \<Rightarrow> string) \<Rightarrow> agent_db \<Rightarrow> agent_db \<Rightarrow> bool" where
  "logs h s t \<longleftrightarrow> ag_events t = ag_events s
     \<or> (\<exists>v. event_ok h v \<and> ag_events t = ag_events s @ [event_row_of h (int (length (ag_events s)) + 1) v])"

lemma step_logs:
  assumes "agent_step h s t" "hex_hash h" "log_inv h s"
  shows "logs h s t"
  using assms(1)
proof cases
  case (create e header event_id pres)
  show ?thesis by (rule create_cases [OF create(3)]) (use create(1,2) assms in \<open>auto simp: begins_def logs_def\<close>)
next
  case (unowned e run expected target revision epoch ty payload created event_id pres)
  show ?thesis by (rule unowned_cases [OF unowned(2)]) (use unowned(1) assms in \<open>auto simp: logs_def advances_def\<close>)
next
  case (acquire e run owner revision epoch observed expires lease event_id qres)
  show ?thesis by (rule acquire_own_cases [OF acquire(2)]) (use acquire(1) assms in \<open>auto simp: logs_def advances_def\<close>)
next
  case (renew permit observed expires qres)
  show ?thesis by (rule renew_own_cases [OF renew]) (simp_all add: logs_def)
next
  case (release permit bres)
  show ?thesis by (rule release_own_cases [OF release]) (simp_all add: logs_def delete_ownership_def)
next
  case (owned e permit states target revision epoch ty payload created event_id pres)
  show ?thesis by (rule owned_cases [OF owned(2)]) (use owned(1) assms in \<open>auto simp: logs_def advances_def\<close>)
next
  case (semantic v current new_binding revision epoch p)
  show ?thesis by (rule semantic_cases [OF semantic(2,1) assms(3,2)]) (auto simp: logs_def advances_def)
next
  case (rebuild e run observed_at pres)
  show ?thesis
  proof (cases pres)
    case (Inl err)
    then have "t = s" using rebuild(2) by (auto simp: rebuild_projection_def agent_commit_def split: sum.splits)
    then show ?thesis by (simp add: logs_def)
  next
    case (Inr p)
    show ?thesis by (rule rebuild_same [OF rebuild(2) [unfolded Inr]]) (use rebuild(1) assms in \<open>simp_all add: logs_def\<close>)
  qed
qed

text \<open>The digest of a stored event covers its type and its payload, and the event is one revision on.\<close>

definition sealed :: "(string \<Rightarrow> string) \<Rightarrow> event_row \<Rightarrow> bool" where
  "sealed h x \<longleftrightarrow> er_after_revision x = er_before_revision x + 1
     \<and> er_payload_digest x = canonical_record_digest h ''macr.agent.event-payload.v1''
         (JObj [(''event_type'', JStr (event_type_value (er_event_type x))), (''payload'', er_payload_json x)])"

definition numbered_log :: "(string \<Rightarrow> string) \<Rightarrow> event_row list \<Rightarrow> bool" where
  "numbered_log h rows \<longleftrightarrow> map er_sequence rows = [1..int (length rows)]
     \<and> (\<forall>x \<in> set rows. sealed h x)"

lemma event_row_number [simp]: "er_sequence (event_row_of h n v) = n"
  by (simp add: event_row_of_def)

lemma event_row_sealed: "event_ok h v \<Longrightarrow> sealed h (event_row_of h n v)"
  by (simp add: sealed_def event_row_of_def payload_digest_def event_ok_def)

lemma logs_numbered: "logs h s t \<Longrightarrow> numbered_log h (ag_events s) \<Longrightarrow> numbered_log h (ag_events t)"
proof -
  have "[1..int k + 1] = [1..int k] @ [int k + 1]" for k :: nat by (simp add: upto_rec2)
  then show "logs h s t \<Longrightarrow> numbered_log h (ag_events s) \<Longrightarrow> numbered_log h (ag_events t)"
    by (auto simp: logs_def numbered_log_def event_row_sealed add.commute [of 1])
qed

lemma logs_prefix: "logs h s t \<Longrightarrow> prefix (ag_events s) (ag_events t)"
  by (auto simp: logs_def)

lemma steps_log:
  assumes "(agent_step h)\<^sup>*\<^sup>* s t" "hex_hash h" "log_inv h s" "numbered_log h (ag_events s)"
  shows "prefix (ag_events s) (ag_events t) \<and> numbered_log h (ag_events t)"
  using assms(1)
proof (induction rule: rtranclp_induct)
  case (step t u)
  have "logs h t u" using step_logs [OF step.hyps(2) assms(2) log_inv_steps [OF step.hyps(1) assms(2,3)]] .
  with step.IH logs_prefix logs_numbered show ?case by (meson prefix_order.trans)
qed (use assms(4) in simp)

lemma run_revisions:
  assumes "log_inv h db" "hex_hash h"
  shows "map er_after_revision (run_events run db) = [1..int (length (run_events run db))]"
  using assms(1)
proof (cases rule: run_row_or_nothing [of h db run])
  case (2 r p sem)
  then obtain vs where v: "emap (event_from_row h) (run_events run db) = Inr vs" "replay_agent_events h vs = Inr p"
    by (auto simp: row_shows_def)
  have m: "map ae_after_revision vs = map er_after_revision (run_events run db)"
    by (rule emap_facts [OF v(1)]) (use event_from_row_Inr assms(2) in blast)
  from replay_revisions [of h "[]" None vs p 0] v(2) have "map ae_after_revision vs = [1..int (length vs)]"
    by (simp add: replay_agent_events_def)
  with m show ?thesis by (metis length_map)
qed simp

text \<open>C28. The event log is append-only: no transaction changes or removes an event; the sequence numbers are
  one to the number of events, the revisions of every run are one to the number of its events, every event
  leads from one revision to the next, and the digest stored with it is that of its type and its payload.
\<close>

theorem event_log_append_only:
  assumes "hex_hash h" "(agent_step h)\<^sup>*\<^sup>* initial_agent_db s" "(agent_step h)\<^sup>*\<^sup>* s t"
  shows "prefix (ag_events s) (ag_events t) \<and> map er_sequence (ag_events t) = [1..int (length (ag_events t))]
    \<and> map er_after_revision (run_events run t) = [1..int (length (run_events run t))]
    \<and> list_all (\<lambda>x. er_after_revision x = er_before_revision x + 1
        \<and> er_payload_digest x = canonical_record_digest h ''macr.agent.event-payload.v1''
            (JObj [(''event_type'', JStr (event_type_value (er_event_type x))), (''payload'', er_payload_json x)])) (ag_events t)"
proof -
  have i: "log_inv h s" "log_inv h initial_agent_db" using reachable_agent assms(1,2) by blast+
  have "numbered_log h (ag_events initial_agent_db)" by (simp add: numbered_log_def initial_agent_db_def)
  then have "numbered_log h (ag_events s)" using steps_log assms(1,2) i(2) by blast
  with steps_log [OF assms(3,1) i(1)] run_revisions [OF log_inv_steps [OF assms(3,1) i(1)] assms(1)] show ?thesis
    unfolding numbered_log_def list_all_iff sealed_def [symmetric] by blast
qed

section \<open>Rebuilding the projections\<close>

lemma reads_of_row:
  assumes "find_run run d = find_run run s" "ag_events d = ag_events s"
  shows "get_agent_run h run d = get_agent_run h run s" "get_agent_semantic_binding h run d = get_agent_semantic_binding h run s"
proof -
  have e: "run_events x d = run_events x s" for x by (simp add: run_events_def assms(2))
  have "require_matching_tail h d = require_matching_tail h s" by (simp add: fun_eq_iff require_matching_tail_def e Let_def)
  with e have "current_projection h run d = current_projection h run s" "load_event_chain h run d = load_event_chain h run s"
    by (simp_all add: current_projection_def load_event_chain_def assms(1) cong: option.case_cong)
  then show "get_agent_run h run d = get_agent_run h run s" "get_agent_semantic_binding h run d = get_agent_semantic_binding h run s"
    by (simp_all add: get_agent_run_def get_agent_semantic_binding_def chk_uuid4_def assms(1) cong: option.case_cong)
qed

text \<open>C23. The projection of a run can be recovered from the log alone: in a database that has the events of a
  store but any projection tables at all, a rebuild of a run that succeeds writes the row that the store
  had, so the run and its semantic binding read as they did in the store.
\<close>

theorem rebuild_restores:
  assumes "hex_hash (sha e)" "(agent_step (sha e))\<^sup>*\<^sup>* initial_agent_db s" "ag_events d = ag_events s"
    and "rebuild_projection e run observed_at d = (Inr p, d')"
  shows "find_run run d' = find_run run s \<and> get_agent_run (sha e) run d' = get_agent_run (sha e) run s
    \<and> get_agent_semantic_binding (sha e) run d' = get_agent_semantic_binding (sha e) run s"
proof -
  have inv: "log_inv (sha e) s" using reachable_agent assms(1,2) by blast
  have same: "run_events run d = run_events run s" by (simp add: run_events_def assms(3))
  obtain vs sem where v: "emap (event_from_row (sha e)) (run_events run d) = Inr vs" "replay_agent_events (sha e) vs = Inr p"
    "replay_semantic_binding (sha e) (ah_semantic_state (ap_initial_header p)) vs = Inr sem" and ev: "ag_events d' = ag_events d"
    and rows: "ag_runs d' = filter (\<lambda>r. rs_run_id r \<noteq> run) (ag_runs d) @
       [if ap_run_id p = run then set_semantic sem (projection_row (sha e) p) else projection_row (sha e) p]"
    by (rule rebuild_row [OF assms(4)])
  have ne: "run_events run s \<noteq> []" using v(1,2) by (auto simp: replay_agent_events_def same)
  from inv have "find_run run d' = find_run run s"
  proof (cases rule: run_row_or_nothing [of "sha e" s run])
    case (2 r q sem2)
    with v have e: "q = p" "r = set_semantic sem (projection_row (sha e) p)" by (auto simp: row_shows_def same)
    have "lookup_row (\<lambda>r. rs_run_id r = run) (filter (\<lambda>r. rs_run_id r \<noteq> run) (ag_runs d)) = None" by (simp add: lookup_row_None)
    with 2(1,3) e rows show ?thesis by (simp add: find_run_def table_simps)
  qed (use ne in simp)
  with reads_of_row [of run d' s] ev assms(3) show ?thesis by simp
qed

text \<open>The creation events of the log: one for every run, whose header has the id of the run.\<close>

lemma replay_tail: "replay_from h ids (Some c) vs = Inr p \<Longrightarrow> \<forall>v \<in> set vs. ae_event_type v \<noteq> Run_Created"
proof (induction vs arbitrary: ids c)
  case (Cons v vs)
  then show ?case
    by (auto simp: ebind_Inr_iff apply_agent_event_def next_projection_def split: if_splits)
qed simp

definition creations :: "agent_db \<Rightarrow> event_row list" where
  "creations db = filter (\<lambda>r. er_event_type r = Run_Created) (ag_events db)"

lemma run_creation:
  assumes "log_inv h db" "hex_hash h" "run_events run db \<noteq> []"
  obtains x v a where "filter (\<lambda>r. er_event_type r = Run_Created) (run_events run db) = [x]" "event_from_row h x = Inr v"
    "event_header h v = Inr a" "ai_run_id (ah_identity a) = run"
  using assms(1)
proof (cases rule: run_row_or_nothing [of h db run])
  case (2 r p sem)
  then obtain vs where vs: "emap (event_from_row h) (run_events run db) = Inr vs" "replay_agent_events h vs = Inr p"
    by (auto simp: row_shows_def)
  obtain x xs where x: "run_events run db = x # xs" using assms(3) by (cases "run_events run db") simp_all
  then obtain v ws where v: "event_from_row h x = Inr v" "emap (event_from_row h) xs = Inr ws" "vs = v # ws"
    using vs(1) by (auto simp: ebind_Inr_iff)
  then obtain q where q: "apply_agent_event h None v = Inr q" "replay_from h [ae_event_id v] (Some q) ws = Inr p"
    using vs(2) by (auto simp: replay_agent_events_def ebind_Inr_iff split: if_splits)
  note f = event_from_row_Inr [OF v(1) assms(2)]
  note a = apply_None [OF q(1) conjunct1 [OF f]]
  have "map ae_event_type ws = map er_event_type xs"
    by (rule emap_facts [OF v(2)]) (use event_from_row_Inr assms(2) in blast)
  then have "\<forall>y \<in> set xs. er_event_type y \<noteq> Run_Created" using replay_tail [OF q(2)] by (metis (mono_tags) imageE image_eqI set_map)
  then have "filter (\<lambda>r. er_event_type r = Run_Created) (run_events run db) = [x]" using x f a by simp
  moreover have "ai_run_id (ah_identity (ap_initial_header q)) = run"
  proof -
    have "x \<in> set (run_events run db)" by (simp add: x)
    then have "er_run_id x = run" by (simp add: run_events_def)
    with f a show ?thesis by (simp add: shows_event_def ap_run_id_def)
  qed
  ultimately show thesis using that v(1) a by blast
qed (use assms(3) in simp)

lemma distinct_by_key: "(\<And>k. length (filter (\<lambda>x. f x = k) xs) \<le> 1) \<Longrightarrow> distinct (map f xs)"
proof (induction xs)
  case (Cons x xs)
  have "filter (\<lambda>y. f y = f x) xs = []" using Cons.prems [of "f x"] by simp
  then have "f x \<notin> f ` set xs" by (auto simp: filter_empty_conv)
  moreover have "length (filter (\<lambda>y. f y = k) xs) \<le> 1" for k using Cons.prems [of k] by (simp split: if_splits)
  ultimately show ?case using Cons.IH by simp
qed simp

lemma filter_swap: "filter P (filter Q xs) = filter Q (filter P xs)"
  by (simp add: conj_commute)

lemma creations_ok:
  assumes "log_inv h db" "hex_hash h"
  obtains hs where "emap (\<lambda>r. ebind (event_from_row h r) (event_header h)) (creations db) = Inr hs"
    "distinct (map (\<lambda>a. ai_run_id (ah_identity a)) hs)"
proof -
  have one: "\<exists>v a. event_from_row h x = Inr v \<and> event_header h v = Inr a \<and> ai_run_id (ah_identity a) = er_run_id x"
    if x: "x \<in> set (creations db)" for x
  proof -
    have "x \<in> set (filter (\<lambda>r. er_event_type r = Run_Created) (run_events (er_run_id x) db))"
      using x by (simp add: creations_def run_events_def)
    moreover from this have "run_events (er_run_id x) db \<noteq> []" by auto
    ultimately show ?thesis using run_creation [OF assms, of "er_run_id x"] by (metis list.set(1) list.set(2) singletonD)
  qed
  have d: "distinct (map er_run_id (creations db))"
  proof (rule distinct_by_key)
    fix run
    have e: "filter (\<lambda>x. er_run_id x = run) (creations db) = filter (\<lambda>r. er_event_type r = Run_Created) (run_events run db)"
      unfolding creations_def run_events_def by (rule filter_swap)
    show "length (filter (\<lambda>x. er_run_id x = run) (creations db)) \<le> 1"
    proof (cases "run_events run db = []")
      case False
      then show ?thesis unfolding e by (rule run_creation [OF assms]) simp
    qed (simp add: e)
  qed
  have "\<exists>hs. emap (\<lambda>r. ebind (event_from_row h r) (event_header h)) xs = Inr hs \<and> map (\<lambda>a. ai_run_id (ah_identity a)) hs = map er_run_id xs"
    if "set xs \<subseteq> set (creations db)" for xs
    using that
  proof (induction xs)
    case (Cons x xs)
    with one [of x] show ?case by auto
  qed simp
  then obtain hs where hs: "emap (\<lambda>r. ebind (event_from_row h r) (event_header h)) (creations db) = Inr hs"
    "map (\<lambda>a. ai_run_id (ah_identity a)) hs = map er_run_id (creations db)" by blast
  show thesis by (rule that [OF hs(1)]) (simp only: hs(2) d)
qed

section \<open>The rebuild succeeds\<close>

lemma add_rows_fresh: "distinct (map key rows) \<Longrightarrow> \<forall>r \<in> set rows. key r \<notin> key ` set table \<Longrightarrow> add_rows key rows table = Inr (table @ rows)"
  by (simp add: add_rows_def list_all_iff)

lemma fresh_binding_rows:
  assumes "distinct (map (binding_digest h k) bs)" "\<forall>r \<in> set table. bi_run_id r \<noteq> run"
  shows "add_rows binding_key (binding_rows h k run bs) table = Inr (table @ binding_rows h k run bs)"
proof (rule add_rows_fresh)
  have "map binding_key (binding_rows h k run bs) = map (Pair run) (map (binding_digest h k) bs)"
    by (simp add: binding_rows_def binding_key_def)
  then show "distinct (map binding_key (binding_rows h k run bs))" using assms(1) by (simp add: distinct_map inj_on_def)
  show "\<forall>r \<in> set (binding_rows h k run bs). binding_key r \<notin> binding_key ` set table"
    using assms(2) by (auto simp: binding_rows_def binding_key_def)
qed

lemma fresh_memory_rows:
  assumes "distinct (map (memory_binding_digest h) ms)" "\<forall>r \<in> set table. my_run_id r \<noteq> run"
  shows "add_rows memory_key (memory_rows h run ms) table = Inr (table @ memory_rows h run ms)"
proof (rule add_rows_fresh)
  have "map memory_key (memory_rows h run ms) = map (Pair run) (map (memory_binding_digest h) ms)"
    by (simp add: memory_rows_def memory_key_def)
  then show "distinct (map memory_key (memory_rows h run ms))" using assms(1) by (simp add: distinct_map inj_on_def)
  show "\<forall>r \<in> set (memory_rows h run ms). memory_key r \<notin> memory_key ` set table"
    using assms(2) by (auto simp: memory_rows_def memory_key_def)
qed

lemma fresh_bindings:
  assumes "header_ok h a" "ah_parent_agent_run_id a = None" "ai_run_id (ah_identity a) = run"
    and "\<forall>r \<in> set (ag_goals db) \<union> set (ag_worlds db) \<union> set (ag_plans db). bi_run_id r \<noteq> run" "\<forall>r \<in> set (ag_memories db). my_run_id r \<noteq> run"
  obtains db' where "insert_bindings h a db = Inr db'" "ag_events db' = ag_events db" "ag_children db' = ag_children db"
proof -
  have d: "distinct (map (binding_digest h World_Binding) (ah_world_bindings a))" "distinct (map (memory_binding_digest h) (ah_memory_bindings a))"
    using assms(1) by (simp_all add: header_ok_def canonical_list_def)
  show thesis
    by (rule that [of "db\<lparr>ag_goals := ag_goals db @ binding_rows h Goal_Binding run [ah_goal a],
          ag_worlds := ag_worlds db @ binding_rows h World_Binding run (ah_world_bindings a),
          ag_memories := ag_memories db @ memory_rows h run (ah_memory_bindings a),
          ag_plans := ag_plans db @ binding_rows h Plan_Binding run (case ah_active_plan a of None \<Rightarrow> [] | Some b \<Rightarrow> [b])\<rparr>"])
      (use assms(2-5) d in \<open>simp_all add: insert_bindings_def Let_def fresh_binding_rows fresh_memory_rows insert_lineage_def
          split: option.splits\<close>)
qed

lemma children_rebuilt:
  assumes "log_inv h s" "hex_hash h" "ag_events db = ag_events s"
  obtains db' where "rebuild_outgoing_children h run db = Inr db'"
proof -
  obtain hs where hs: "emap (\<lambda>r. ebind (event_from_row h r) (event_header h)) (creations s) = Inr hs"
    "distinct (map (\<lambda>a. ai_run_id (ah_identity a)) hs)" by (rule creations_ok [OF assms(1,2)])
  let ?rows = "map (\<lambda>a. \<lparr>ch_parent_run_id = run, ch_child_run_id = ai_run_id (ah_identity a),
                      ch_delegation_ref = (case ah_delegation_ref a of None \<Rightarrow> [] | Some d \<Rightarrow> d)\<rparr>)
         (filter (\<lambda>a. ah_parent_agent_run_id a = Some run) hs)"
  have e: "expected_outgoing_children h run db = Inr ?rows"
    using hs(1) by (simp add: expected_outgoing_children_def creations_def assms(3))
  have "distinct (map (\<lambda>a. ai_run_id (ah_identity a)) (filter (\<lambda>a. ah_parent_agent_run_id a = Some run) hs))"
    using hs(2) by (rule distinct_map_filter)
  then have "distinct (map (Pair run) (map (\<lambda>a. ai_run_id (ah_identity a)) (filter (\<lambda>a. ah_parent_agent_run_id a = Some run) hs)))"
    by (simp add: distinct_map inj_on_def)
  then have "distinct (map (\<lambda>c. (ch_parent_run_id c, ch_child_run_id c)) ?rows)" by (simp add: comp_def)
  from add_rows_fresh [OF this, of "filter (\<lambda>c. ch_parent_run_id c \<noteq> run) (ag_children db)"]
  have "add_rows (\<lambda>c. (ch_parent_run_id c, ch_child_run_id c)) ?rows (filter (\<lambda>c. ch_parent_run_id c \<noteq> run) (ag_children db))
      = Inr (filter (\<lambda>c. ch_parent_run_id c \<noteq> run) (ag_children db) @ ?rows)" by force
  with e that show thesis by (simp add: rebuild_outgoing_children_def)
qed

lemma rebuild_possible:
  assumes "hex_hash (sha e)" "(agent_step (sha e))\<^sup>*\<^sup>* initial_agent_db s" "ag_events d = ag_events s"
    and "find_run run s = Some r" "rs_parent_agent_run_id r = None"
    and "\<nexists>w. find_ownership run d = Some w \<and> clk e 0 < ow_expires_at w"
  shows "\<exists>p d'. get_agent_run (sha e) run s = Inr p \<and> rebuild_projection e run None d = (Inr p, d')"
proof -
  have inv: "log_inv (sha e) s" using reachable_agent assms(1,2) by blast
  have same: "run_events run d = run_events run s" by (simp add: run_events_def assms(3))
  from inv obtain q sem where q: "rs_run_id r = run" "row_shows (sha e) s r q sem"
    by (cases rule: run_row_or_nothing [of "sha e" s run]) (use assms(4) in auto)
  obtain vs where v: "load_event_chain (sha e) run s = Inr vs" "replay_agent_events (sha e) vs = Inr q"
    "replay_semantic_binding (sha e) (ah_semantic_state (ap_initial_header q)) vs = Inr sem"
    using shown_chain [OF q(2)] q(1) by blast
  have vd: "load_event_chain (sha e) run d = Inr vs" using v(1) by (simp add: load_chain_Inr same)
  note rd = row_reads [OF q(2) assms(1)]
  let ?a = "ap_initial_header q"
  have a: "header_ok (sha e) ?a" "ah_parent_agent_run_id ?a = None" "ai_run_id (ah_identity ?a) = run" "ap_run_id q = run"
    using rd(1) q assms(5) by (auto simp: projection_ok_def row_shows_def projection_row_def Let_def set_semantic_def ap_run_id_def)
  have u: "is_uuid4 run" using a(1,3) by (auto simp: header_ok_def)
  obtain db1 where db1: "insert_projection (sha e) q (delete_run run d) = Inr db1" "ag_events db1 = ag_events s"
      "db1 = (delete_run run d)\<lparr>ag_runs := ag_runs (delete_run run d) @ [projection_row (sha e) q]\<rparr>"
    using a(4) assms(3) by (simp add: insert_projection_def)
  obtain db2 where db2: "insert_bindings (sha e) ?a db1 = Inr db2" "ag_events db2 = ag_events db1"
    by (rule fresh_bindings [OF a(1-3), of db1]) (auto simp: db1(3) delete_run_def)
  obtain db3 where db3: "rebuild_outgoing_children (sha e) run db2 = Inr db3"
    by (rule children_rebuilt [OF inv assms(1), of db2]) (use db1 db2 in simp_all)
  have free: "\<not> (case find_ownership run d of None \<Rightarrow> False | Some w \<Rightarrow> clk e 0 < ow_expires_at w)"
    using assms(6) by (auto split: option.splits)
  have "get_agent_run (sha e) run s = Inr q" using read_run [OF inv assms(1)] u v by (simp add: chk_uuid4_def)
  moreover have "\<exists>d'. rebuild_projection e run None d = (Inr q, d')"
    unfolding rebuild_projection_def using u vd v(2,3) free db1(1) db2(1) db3
    by (simp add: chk_uuid4_def agent_commit_def)
  ultimately show ?thesis by blast
qed

text \<open>C24. Recovery does not get stuck: for every run of a store that is not the child of another, the rebuild
  succeeds in any database that still has the events of the store and no unexpired lease on the run, and it
  returns the projection that the run had in the store.
\<close>

theorem rebuild_succeeds:
  assumes "hex_hash (sha e)" "(agent_step (sha e))\<^sup>*\<^sup>* initial_agent_db s" "ag_events d = ag_events s"
    and "find_run run s = Some r" "rs_parent_agent_run_id r = None"
    and "\<nexists>w. find_ownership run d = Some w \<and> clk e 0 < ow_expires_at w"
  shows "\<exists>p d'. get_agent_run (sha e) run s = Inr p \<and> rebuild_projection e run None d = (Inr p, d')"
  by (rule rebuild_possible [OF assms])

end
