(* ===== verification/AgentProgress.thy ===== *)
theory AgentProgress
  imports AgentRecoveryProps
begin

text \<open>
  When the transactions of the agent store succeed: an event that fits is built, inserted and swapped in.
\<close>

section \<open>Building an event\<close>

definition event_fits :: "agent_projection \<Rightarrow> agent_event_type \<Rightarrow> agent_state \<Rightarrow> int \<Rightarrow> bool" where
  "event_fits p t s ep \<longleftrightarrow>
     (t = Owner_Acquired \<and> ap_state p \<in> open_states \<and> s = ap_state p \<and> ep = ap_epoch p + 1)
     \<or> (target_state t = Some s \<and> s \<in> set (phase_b_transitions (ap_state p)) \<and> ep = ap_epoch p)"

definition advanced :: "agent_projection \<Rightarrow> agent_state \<Rightarrow> int \<Rightarrow> int \<Rightarrow> agent_projection" where
  "advanced p s ep c = p\<lparr>ap_state := s, ap_state_revision := ap_state_revision p + 1, ap_epoch := ep, ap_updated_at := c\<rparr>"

lemma advanced_simps [simp]:
  "ap_initial_header (advanced p s ep c) = ap_initial_header p" "ap_state (advanced p s ep c) = s"
  "ap_state_revision (advanced p s ep c) = ap_state_revision p + 1" "ap_epoch (advanced p s ep c) = ep" "ap_updated_at (advanced p s ep c) = c"
  "ap_run_id (advanced p s ep c) = ap_run_id p"
  by (simp_all add: advanced_def ap_run_id_def)

lemma next_state_fits:
  assumes "event_fits p t s ep" "ae_event_type v = t" "ae_epoch v = ep"
  shows "next_state p v = Inr s \<and> t \<noteq> Run_Created"
  using assms
  by (cases t) (auto simp: event_fits_def next_state_def require_phase_b_transition_def open_states_def)

lemma build_event_ok:
  assumes "projection_ok h p" "hex_hash h" "event_fits p t s ep" "validated_payload h t payload = Inr pl" "is_uuid4 eid" "datetime_ok c"
    and "\<And>x. t = Owner_Acquired \<Longrightarrow> normalize_timestamp (case pl of JObj kvs \<Rightarrow> jfield ''expires_at'' kvs | _ \<Rightarrow> JNull) = Inr x \<Longrightarrow> c < x"
    and "t = Owner_Acquired \<Longrightarrow> \<exists>x. normalize_timestamp (case pl of JObj kvs \<Rightarrow> jfield ''expires_at'' kvs | _ \<Rightarrow> JNull) = Inr x"
  obtains v where "build_event h p s ep (JStr (isoformat c)) (JStr eid) t payload = Inr (v, advanced p s ep c)" "ae_event_id v = eid"
    "ae_run_id v = ap_run_id p" "ae_after_revision v = ap_state_revision p + 1"
proof -
  let ?q = "advanced p s ep c"
  have pos: "1 \<le> ap_state_revision p" "0 \<le> ep" using assms(1,3) by (auto simp: projection_ok_def event_fits_def)
  have c: "projection_create (ap_initial_header p) s (JInt (ap_state_revision p + 1)) (JInt ep) (JStr (isoformat c)) = Inr ?q"
    using assms(1,6) pos by (auto simp: projection_create_Inr projection_ok_def)
  define v where "v = \<lparr>ae_event_id = eid, ae_run_id = ap_run_id p, ae_epoch = ep, ae_before_revision = ap_state_revision p,
      ae_after_revision = ap_state_revision p + 1, ae_event_type = t, ae_payload = pl, ae_state_digest_after = state_digest h ?q, ae_created_at = c\<rparr>"
  have f: "ae_event_id v = eid" "ae_run_id v = ap_run_id p" "ae_epoch v = ep" "ae_before_revision v = ap_state_revision p"
    "ae_after_revision v = ap_state_revision p + 1" "ae_event_type v = t" "ae_payload v = pl" "ae_state_digest_after v = state_digest h ?q"
    "ae_created_at v = c" by (simp_all add: v_def)
  have n: "next_state p v = Inr s" "t \<noteq> Run_Created" using next_state_fits [OF assms(3) f(6,3)] by simp_all
  have times: "event_times h v = Inr ()"
  proof (cases "t = Owner_Acquired")
    case True
    with assms(7,8) obtain x where "normalize_timestamp (payload_field ''expires_at'' v) = Inr x" "c < x"
      by (auto simp: payload_field_def f)
    with True show ?thesis by (simp add: event_times_def f)
  next
    case False
    with n(2) show ?thesis by (cases t) (simp_all add: event_times_def f)
  qed
  have run: "is_uuid4 (ap_run_id p)" using assms(1) by (simp add: projection_ok_def header_ok_def ap_run_id_def)
  have hex: "is_sha256 (state_digest h ?q)" unfolding state_digest_def by (rule canonical_record_digest_hex [OF assms(2)])
  have t: "normalize_timestamp (JStr (isoformat c)) = Inr c" using assms(6) by (simp add: normalize_timestamp_Inr)
  have e: "event_create h (JStr eid) (JStr (ap_run_id p)) (JInt ep) (JInt (ap_state_revision p)) (JInt (ap_state_revision p + 1)) t payload
      (JStr (state_digest h ?q)) (JStr (isoformat c)) = Inr v"
    using times [unfolded v_def] assms(4,5) pos run hex t
    by (simp add: event_create_def Let_def require_uuid4_def chk_uuid4_def require_sha256_def chk_digest_def require_positive_int_def
        require_non_negative_int_def v_def)
  have a: "apply_agent_event h (Some p) v = Inr ?q"
    by (simp add: apply_agent_event_def next_projection_def f n c)
  show thesis by (rule that [of v]) (simp_all add: build_event_def c e a f)
qed

section \<open>Inserting it\<close>

lemma shown_revision:
  assumes "row_shows h db r p sem" "hex_hash h"
  shows "ap_state_revision p = int (length (run_events (ap_run_id p) db))"
proof -
  obtain vs where v: "emap (event_from_row h) (run_events (rs_run_id r) db) = Inr vs" "replay_agent_events h vs = Inr p"
    using assms(1) by (auto simp: row_shows_def)
  have "\<forall>x \<in> set vs. event_ok h x" by (rule emap_all [OF v(1)]) (use event_from_row_Inr assms(2) in blast)
  from replay_facts [OF v(2) this] have "ap_state_revision p = int (length vs)" by simp
  moreover have "map ae_event_id vs = map er_event_id (run_events (rs_run_id r) db)"
    by (rule emap_facts [OF v(1)]) (use event_from_row_Inr assms(2) in blast)
  ultimately show ?thesis using shows_simps [OF assms(1)] by (metis length_map)
qed

lemma insert_ok:
  assumes "log_inv h db" "hex_hash h" "row_shows h db r p sem" "ae_run_id v = ap_run_id p" "ae_after_revision v = ap_state_revision p + 1"
    and "ae_event_id v \<notin> er_event_id ` set (ag_events db)"
  shows "insert_event h v db = Inr (db\<lparr>ag_events := ag_events db @ [event_row_of h (int (length (ag_events db)) + 1) v]\<rparr>)"
proof -
  have "er_after_revision x \<noteq> ap_state_revision p + 1" if "x \<in> set (ag_events db)" "er_run_id x = ap_run_id p" for x
  proof -
    have "er_after_revision x \<in> set (map er_after_revision (run_events (ap_run_id p) db))" using that by (simp add: run_events_def)
    then show ?thesis using run_revisions [OF assms(1,2), of "ap_run_id p"] shown_revision [OF assms(3,2)] by auto
  qed
  then show ?thesis using assms(4-6) by (auto simp: insert_event_Inr)
qed

lemma fresh_ok:
  assumes "log_inv h db" "hex_hash h" "row_shows h db r p sem" "r \<in> set (ag_runs db)"
  shows "fresh_projection h (ap_run_id p) (ap_state_revision p) (ap_epoch p) db = Inr p"
proof -
  have "find_run (ap_run_id p) db = Some r"
    using find_run_iff [of db] assms(1,4) shows_simps [OF assms(3)] by (simp add: log_inv_def)
  with row_reads(2,4) [OF assms(3,2)] show ?thesis by (simp add: fresh_projection_def current_projection_def)
qed

section \<open>The transactions\<close>

lemma unowned_ok:
  assumes "log_inv (sha e) db" "hex_hash (sha e)" "row_shows (sha e) db r p sem" "r \<in> set (ag_runs db)" "find_ownership (ap_run_id p) db = None"
    and "target_state t = Some s" "s \<in> set (phase_b_transitions (ap_state p))" "validated_payload (sha e) t payload = Inr pl"
    and "event_id_of e eid = JStr i" "is_uuid4 i" "i \<notin> er_event_id ` set (ag_events db)" "datetime_ok c"
  obtains db' where
    "transition_unowned e (ap_run_id p) (ap_state p) s (ap_state_revision p) (ap_epoch p) t payload c eid db = (Inr (advanced p s (ap_epoch p) c), db')"
    "map er_event_id (ag_events db') = map er_event_id (ag_events db) @ [i]"
proof -
  note rd = row_reads(1) [OF assms(3,2)] and sh = shows_simps [OF assms(3)]
  have fits: "event_fits p t s (ap_epoch p)" using assms(6,7) by (simp add: event_fits_def)
  have no: "t \<noteq> Owner_Acquired" using assms(6) by auto
  obtain v where v: "build_event (sha e) p s (ap_epoch p) (JStr (isoformat c)) (JStr i) t payload = Inr (v, advanced p s (ap_epoch p) c)"
    "ae_event_id v = i" "ae_run_id v = ap_run_id p" "ae_after_revision v = ap_state_revision p + 1"
    by (rule build_event_ok [OF rd assms(2) fits assms(8,10,12)]) (use no in simp_all)
  let ?db1 = "db\<lparr>ag_events := ag_events db @ [event_row_of (sha e) (int (length (ag_events db)) + 1) v]\<rparr>"
  have i: "insert_event (sha e) v db = Inr ?db1"
    by (rule insert_ok [OF assms(1-3) v(3,4)]) (use assms(11) v(2) in simp)
  have d: "distinct (map rs_run_id (ag_runs ?db1))" using assms(1) by (simp add: log_inv_def)
  have u: "is_uuid4 (ap_run_id p)" "1 \<le> ap_state_revision p" "0 \<le> ap_epoch p"
    using rd by (simp_all add: projection_ok_def header_ok_def ap_run_id_def)
  from swap_row_one [OF d, of r "set_projection (sha e) (advanced p s (ap_epoch p) c)"] assms(4) sh obtain db' where
    "swap_row (ap_run_id p) (ap_state_revision p) (ap_epoch p) (set_projection (sha e) (advanced p s (ap_epoch p) c)) ?db1 = Inr db'"
    and "ag_events db' = ag_events ?db1" by simp
  with v(1,2) i u fresh_ok [OF assms(1-4)] assms(5,7,9) that show thesis
    by (simp add: transition_unowned_def agent_commit_def chk_uuid4_def require_positive_int_def require_non_negative_int_def
        require_phase_b_transition_def)
qed

lemma acquire_ok:
  assumes "log_inv (sha e) db" "hex_hash (sha e)" "row_shows (sha e) db r p sem" "r \<in> set (ag_runs db)" "ap_state p \<in> open_states"
    and "case find_ownership (ap_run_id p) db of None \<Rightarrow> True | Some w \<Rightarrow> ow_expires_at w \<le> now"
    and "\<forall>w \<in> set (ag_ownership db). ow_lease_id w \<noteq> lease" "text_ok 256 owner" "is_uuid4 lease" "datetime_ok now" "datetime_ok expires" "now < expires"
    and "validated_payload (sha e) Owner_Acquired (JObj [(''owner_id'', JStr owner), (''lease_id'', JStr lease),
           (''fencing_token'', JInt (ag_fencing_counter db + 1)), (''expires_at'', JStr (isoformat expires))]) = Inr pl"
    and "(case pl of JObj kvs \<Rightarrow> jfield ''expires_at'' kvs | _ \<Rightarrow> JNull) = JStr (isoformat expires)"
    and "event_id_of e eid = JStr i" "is_uuid4 i" "i \<notin> er_event_id ` set (ag_events db)" "0 \<le> ag_fencing_counter db"
  obtains permit db' where
    "acquire_ownership e (ap_run_id p) (JStr owner) (ap_state_revision p) (ap_epoch p) now expires (JStr lease) eid db = (Inr permit, db')"
    "pe_fencing_token permit = ag_fencing_counter db + 1" "pe_expires_at permit = expires" "pe_lease_id permit = lease"
    "map er_event_id (ag_events db') = map er_event_id (ag_events db) @ [i]"
proof -
  note rd = row_reads(1) [OF assms(3,2)] and sh = shows_simps [OF assms(3)]
  let ?run = "ap_run_id p"
  let ?permit = "\<lparr>pe_run_id = ?run, pe_owner_id = owner, pe_lease_id = lease, pe_fencing_token = ag_fencing_counter db + 1,
      pe_epoch = ap_epoch p + 1, pe_revision = ap_state_revision p + 1, pe_acquired_at = now, pe_expires_at = expires\<rparr>"
  have u: "is_uuid4 ?run" "1 \<le> ap_state_revision p" "0 \<le> ap_epoch p"
    using rd by (simp_all add: projection_ok_def header_ok_def ap_run_id_def)
  have create: "permit_create (JStr ?run) (JStr owner) (JStr lease) (JInt n) (JInt m) (JInt k) (JStr (isoformat now)) (JStr (isoformat expires))
      = Inr \<lparr>pe_run_id = ?run, pe_owner_id = owner, pe_lease_id = lease, pe_fencing_token = n, pe_epoch = m, pe_revision = k,
          pe_acquired_at = now, pe_expires_at = expires\<rparr>" if "1 \<le> n" "1 \<le> m" "1 \<le> k" for n m k
  proof -
    have t: "normalize_timestamp (JStr (isoformat now)) = Inr now" "normalize_timestamp (JStr (isoformat expires)) = Inr expires"
      using assms(10,11) by (simp_all add: normalize_timestamp_Inr)
    show ?thesis using that u(1) assms(8,9,12) t
      by (simp add: permit_create_def require_uuid4_def chk_uuid4_def require_positive_int_def)
  qed
  have fits: "event_fits p Owner_Acquired (ap_state p) (ap_epoch p + 1)" using assms(5) by (simp add: event_fits_def)
  let ?q = "advanced p (ap_state p) (ap_epoch p + 1) now"
  obtain v where v: "build_event (sha e) p (ap_state p) (ap_epoch p + 1) (JStr (isoformat now)) (JStr i) Owner_Acquired
        (JObj [(''owner_id'', JStr owner), (''lease_id'', JStr lease), (''fencing_token'', JInt (ag_fencing_counter db + 1)),
           (''expires_at'', JStr (isoformat expires))]) = Inr (v, ?q)"
    "ae_event_id v = i" "ae_run_id v = ?run" "ae_after_revision v = ap_state_revision p + 1"
  proof (rule build_event_ok [OF rd assms(2) fits assms(13,16,10)])
    show "now < x" if "normalize_timestamp (case pl of JObj kvs \<Rightarrow> jfield ''expires_at'' kvs | _ \<Rightarrow> JNull) = Inr x" for x
      using that assms(11,12,14) isoformat_inject by (auto simp: normalize_timestamp_Inr)
    show "\<exists>x. normalize_timestamp (case pl of JObj kvs \<Rightarrow> jfield ''expires_at'' kvs | _ \<Rightarrow> JNull) = Inr x"
      using assms(11,14) by (auto simp: normalize_timestamp_Inr)
  qed
  have grant: "\<exists>db'. grant_ownership e p c eid db0 = Inr (?permit, db') \<and> map er_event_id (ag_events db') = map er_event_id (ag_events db) @ [i]"
    if d: "db0 = db \<and> find_ownership ?run db = None \<or> db0 = delete_ownership ?run db"
      and c: "pe_owner_id c = owner" "pe_lease_id c = lease" "pe_acquired_at c = now" "pe_expires_at c = expires" for db0 c
  proof -
    let ?db = "db0\<lparr>ag_fencing_counter := ag_fencing_counter db0 + 1\<rparr>"
    have same: "ag_events ?db = ag_events db" "ag_runs ?db = ag_runs db" "ag_fencing_counter db0 = ag_fencing_counter db"
      using d by (auto simp: delete_ownership_def)
    have no: "\<not> list_ex (\<lambda>r. ow_run_id r = ?run \<or> ow_lease_id r = lease) (ag_ownership db0)"
      using d assms(7) by (auto simp: list_ex_iff find_ownership_None)
    have inv: "log_inv (sha e) ?db" "row_shows (sha e) ?db r p sem"
      using assms(1,3) same by (simp_all add: log_inv_def row_shows_def run_events_def)
    let ?db1 = "?db\<lparr>ag_events := ag_events ?db @ [event_row_of (sha e) (int (length (ag_events ?db)) + 1) v]\<rparr>"
    have ins: "insert_event (sha e) v ?db = Inr ?db1"
      by (rule insert_ok [OF inv(1) assms(2) inv(2) v(3,4)]) (use assms(17) v(2) same in simp)
    have dist: "distinct (map rs_run_id (ag_runs ?db1))" using assms(1) same by (simp add: log_inv_def)
    let ?f = "\<lambda>r. r\<lparr>rs_state_revision := ap_state_revision ?q, rs_epoch := ap_epoch ?q,
                      rs_state_digest := state_digest (sha e) ?q, rs_updated_at := ap_updated_at ?q\<rparr>"
    obtain db2 where "swap_row ?run (ap_state_revision p) (ap_epoch p) ?f ?db1 = Inr db2" "ag_ownership db2 = ag_ownership db0"
        "map er_event_id (ag_events db2) = map er_event_id (ag_events db) @ [i]"
      using v(2) swap_row_one [OF dist, of r ?f] assms(4) sh same by simp
    with v(1) ins create [of "ag_fencing_counter db + 1" "ap_epoch p + 1" "ap_state_revision p + 1"] u assms(15,18) no same(3) c show ?thesis
      by (simp add: grant_ownership_def insert_ownership_def Let_def)
  qed
  have cand: "permit_create (JStr ?run) (JStr owner) (JStr lease) (JInt 1) (JInt (max 1 (ap_epoch p + 1))) (JInt (ap_state_revision p + 1))
        (JStr (isoformat now)) (JStr (isoformat expires))
      = Inr \<lparr>pe_run_id = ?run, pe_owner_id = owner, pe_lease_id = lease, pe_fencing_token = 1, pe_epoch = max 1 (ap_epoch p + 1),
          pe_revision = ap_state_revision p + 1, pe_acquired_at = now, pe_expires_at = expires\<rparr>" (is "_ = Inr ?c")
    using create u by simp
  obtain db' where "acquire_ownership e ?run (JStr owner) (ap_state_revision p) (ap_epoch p) now expires (JStr lease) eid db = (Inr ?permit, db')"
    "map er_event_id (ag_events db') = map er_event_id (ag_events db) @ [i]"
  proof (cases "find_ownership ?run db")
    case None
    with grant [of db ?c] obtain db' where "grant_ownership e p ?c eid db = Inr (?permit, db')"
      "map er_event_id (ag_events db') = map er_event_id (ag_events db) @ [i]" by auto
    with None that cand fresh_ok [OF assms(1-4)] u assms(5) show thesis
      by (simp add: acquire_ownership_def agent_commit_def chk_uuid4_def require_positive_int_def require_non_negative_int_def open_states_def)
  next
    case (Some w)
    with grant [of "delete_ownership ?run db" ?c] obtain db' where
      "grant_ownership e p ?c eid (delete_ownership ?run db) = Inr (?permit, db')" "map er_event_id (ag_events db') = map er_event_id (ag_events db) @ [i]" by auto
    with Some that cand fresh_ok [OF assms(1-4)] u assms(5,6) show thesis
      by (simp add: acquire_ownership_def agent_commit_def chk_uuid4_def require_positive_int_def require_non_negative_int_def open_states_def)
  qed
  with that show thesis by simp
qed

lemma create_ok:
  assumes "header_ok (sha e) a" "hex_hash (sha e)" "ah_state a = Created" "ah_state_revision a = 1" "ah_epoch a = 0"
    and "ah_parent_agent_run_id a = None" "event_id_of e eid = JStr i" "is_uuid4 i"
    and "validate_content_free (header_to_dict (sha e) a) = Inr ()" "\<not> forbidden_key ''initial_header''"
  obtains p db' where "create_agent_run e a eid initial_agent_db = (Inr p, db')" "map er_event_id (ag_events db') = [i]"
    "p = \<lparr>ap_initial_header = a, ap_state = Created, ap_state_revision = 1, ap_epoch = 0, ap_updated_at = ah_created_at a\<rparr>"
proof -
  let ?p = "\<lparr>ap_initial_header = a, ap_state = Created, ap_state_revision = 1, ap_epoch = 0, ap_updated_at = ah_created_at a\<rparr>"
  have ok: "datetime_ok (ah_created_at a)" "is_uuid4 (ap_run_id ?p)" using assms(1) by (simp_all add: header_ok_def ap_run_id_def)
  have p: "from_creation_header a (JStr (isoformat (ah_created_at a))) = Inr ?p"
    using assms(3-5) ok by (simp add: from_creation_header_def require_creation_header_def projection_create_Inr)
  have rt: "header_from_dict (sha e) (header_to_dict (sha e) a) = Inr a" "header_from_dict (sha e) (json_norm (header_to_dict (sha e) a)) = Inr a"
    using header_reads [OF reads_plain assms(1,2)] header_round_trip [OF assms(1,2)] by simp_all
  have vj: "validate_json (header_to_dict (sha e) a) = Inr ()"
    using rt(1) by (auto simp: header_from_dict_def require_closed_mapping_def ebind_Inr_iff split: json.splits)
  have pl: "validated_payload (sha e) Run_Created (JObj [(''initial_header'', header_to_dict (sha e) a)])
      = Inr (JObj [(''initial_header'', json_norm (header_to_dict (sha e) a))])"
    using vj assms(9,10) by (simp add: validated_payload_def typed_payload_def created_payload_def rt p)
  have hex: "is_sha256 (state_digest (sha e) ?p)" unfolding state_digest_def by (rule canonical_record_digest_hex [OF assms(2)])
  have t: "normalize_timestamp (JStr (isoformat (ah_created_at a))) = Inr (ah_created_at a)" using ok by (simp add: normalize_timestamp_Inr)
  obtain v where v: "event_create (sha e) (JStr i) (JStr (ap_run_id ?p)) (JInt 0) (JInt 0) (JInt 1) Run_Created
       (JObj [(''initial_header'', header_to_dict (sha e) a)]) (JStr (state_digest (sha e) ?p)) (JStr (isoformat (ah_created_at a))) = Inr v"
    "ae_event_id v = i"
    using pl hex t ok assms(8) rt(2)
    by (simp add: event_create_def Let_def require_uuid4_def chk_uuid4_def require_sha256_def chk_digest_def require_positive_int_def
        require_non_negative_int_def event_times_def event_header_def payload_field_def)
  let ?db2 = "\<lambda>db. db\<lparr>ag_runs := [projection_row (sha e) ?p]\<rparr>"
  obtain db1 where i: "insert_event (sha e) v initial_agent_db = Inr db1" "ag_runs db1 = []" "map er_event_id (ag_events db1) = [i]"
    "ag_goals db1 = []" "ag_worlds db1 = []" "ag_plans db1 = []" "ag_memories db1 = []"
    using v(2) by (auto simp: insert_event_Inr initial_agent_db_def)
  obtain db3 where b: "insert_bindings (sha e) a (?db2 db1) = Inr db3" "ag_events db3 = ag_events db1"
    by (rule fresh_bindings [OF assms(1,6) refl, of "?db2 db1"]) (use i in simp_all)
  have n: "find_run (ap_run_id ?p) initial_agent_db = None" "find_run (ap_run_id ?p) db1 = None"
    by (simp_all add: find_run_def initial_agent_db_def i(2))
  then have r: "insert_projection (sha e) ?p db1 = Inr (?db2 db1)" by (simp add: insert_projection_def i(2))
  have "create_agent_run e a eid initial_agent_db = (Inr ?p, db3)"
    using p v(1) n i(1) r b(1) assms(7) by (simp add: create_agent_run_def agent_commit_def)
  with that b(2) i(3) show thesis by simp
qed

section \<open>The run that a store shows\<close>

definition shows_run :: "(string \<Rightarrow> string) \<Rightarrow> agent_db \<Rightarrow> agent_projection \<Rightarrow> bool" where
  "shows_run h db p \<longleftrightarrow> (\<exists>r sem. r \<in> set (ag_runs db) \<and> row_shows h db r p sem)"

lemma advances_shows_run: "advances h s t r r' p v q \<Longrightarrow> hex_hash h \<Longrightarrow> shows_run h t q"
proof -
  assume a: "advances h s t r r' p v q" "hex_hash h"
  have "r' \<in> set (ag_runs t)" using a(1) advances_shows(3) [OF a] by (auto simp: advances_def set_update_rows)
  with advances_shows(1) [OF a] show ?thesis by (auto simp: shows_run_def)
qed

end
