(* ===== verification/AgentExample.thy ===== *)
theory AgentExample
  imports AgentProgress AuthorityProps
begin

text \<open>
  A run of an agent: created, admitted, acquired by one owner and, after its lease has expired, by another. The
  theorems of the agent store at these databases.
\<close>

section \<open>Texts that pass\<close>

lemma no_drive: "\<forall>c \<in> set s. byte c \<noteq> 58 \<and> byte c \<noteq> 47 \<and> byte c \<noteq> 92 \<Longrightarrow> \<not> has_drive s"
  by (auto simp: has_drive_def is_slash_def split: list.splits)

lemma no_path: "\<forall>c \<in> set s. byte c \<noteq> 58 \<and> byte c \<noteq> 92 \<Longrightarrow> \<not> finds_local_path prev s"
  by (induction s arbitrary: prev) (auto simp: local_path_at_def split: list.splits)

lemma no_dash_start: "\<forall>c \<in> set s. byte c \<noteq> 45 \<Longrightarrow> CHR ''-'' \<in> set p \<Longrightarrow> \<not> starts_lower p s"
proof
  assume s: "\<forall>c \<in> set s. byte c \<noteq> 45" "CHR ''-'' \<in> set p" "starts_lower p s"
  then have "CHR ''-'' \<in> set (lower (take (length p) s))" by (simp add: starts_lower_def)
  then obtain c where c: "c \<in> set s" "lower_char c = CHR ''-''" by (auto simp: lower_def dest: in_set_takeD)
  have "byte (lower_char c) = 45" using c(2) by (simp add: byte_def)
  moreover have "byte (lower_char c) = (if 65 \<le> byte c \<and> byte c \<le> 90 then byte c + 32 else byte c)"
    by (simp add: lower_char_def byte_def)
  ultimately have "byte c = 45" by (simp split: if_splits)
  with s(1) c(1) show False by blast
qed

lemma no_credential: "\<forall>c \<in> set s. byte c \<noteq> 45 \<Longrightarrow> \<not> finds_credential prev s"
proof (induction s arbitrary: prev)
  case (Cons c s)
  from Cons.prems have "\<not> starts_lower p (c # s)" if "CHR ''-'' \<in> set p" for p using that by (rule no_dash_start)
  then have "\<not> token_key_at ''sk-'' (c # s)" "\<not> token_key_at ''xai-'' (c # s)" "\<not> private_key_at (c # s)"
    by (simp_all add: token_key_at_def private_key_at_def Let_def)
  with Cons show ?case by simp
qed simp

lemma set_strip: "set (strip s) \<subseteq> set s"
  by (auto simp: strip_def dest!: set_dropWhileD)

definition plain_text :: "string \<Rightarrow> bool" where
  "plain_text s \<longleftrightarrow> list_all (\<lambda>c. byte c \<noteq> 45 \<and> byte c \<noteq> 58 \<and> byte c \<noteq> 47 \<and> byte c \<noteq> 92) s"

lemma plain_clean: "plain_text s \<Longrightarrow> clean_text s"
proof -
  assume "plain_text s"
  then have b: "\<forall>c \<in> set s. byte c \<noteq> 45 \<and> byte c \<noteq> 58 \<and> byte c \<noteq> 47 \<and> byte c \<noteq> 92"
    by (auto simp: plain_text_def list_all_iff)
  then have "\<not> has_drive (strip s)" using set_strip by (intro no_drive) blast
  with b show ?thesis by (simp add: clean_text_def contains_local_path_def no_path no_credential)
qed

lemma hex_clean [simp]: "is_sha256 s \<Longrightarrow> clean_text s"
  by (rule plain_clean) (auto simp: plain_text_def is_sha256_def list_all_iff is_lower_hex_def is_digit_def)

text \<open>Texts like UUIDs and instants: without a slash and without the letters k, n and x.\<close>

definition stamp_text :: "string \<Rightarrow> bool" where
  "stamp_text s \<longleftrightarrow> list_all (\<lambda>c. byte c \<noteq> 47 \<and> byte c \<noteq> 92 \<and> byte c \<noteq> 107 \<and> byte c \<noteq> 75 \<and> byte c \<noteq> 120 \<and> byte c \<noteq> 88
     \<and> byte c \<noteq> 110 \<and> byte c \<noteq> 78) s"

lemma stamp_start: "stamp_text s \<Longrightarrow> CHR ''k'' \<in> set p \<or> CHR ''x'' \<in> set p \<or> CHR ''n'' \<in> set p \<Longrightarrow> \<not> starts_lower p s"
proof
  assume s: "stamp_text s" "CHR ''k'' \<in> set p \<or> CHR ''x'' \<in> set p \<or> CHR ''n'' \<in> set p" "starts_lower p s"
  then obtain d where d: "d \<in> set (lower (take (length p) s))" "d = CHR ''k'' \<or> d = CHR ''x'' \<or> d = CHR ''n''"
    by (auto simp: starts_lower_def)
  then obtain c where c: "c \<in> set s" "lower_char c = d" by (auto simp: lower_def dest: in_set_takeD)
  have "byte (lower_char c) = 107 \<or> byte (lower_char c) = 120 \<or> byte (lower_char c) = 110" using c(2) d(2) by (auto simp: byte_def)
  moreover have "byte (lower_char c) = (if 65 \<le> byte c \<and> byte c \<le> 90 then byte c + 32 else byte c)"
    by (simp add: lower_char_def byte_def)
  ultimately have "byte c = 107 \<or> byte c = 75 \<or> byte c = 120 \<or> byte c = 88 \<or> byte c = 110 \<or> byte c = 78" by (auto split: if_splits)
  with s(1) c(1) show False by (auto simp: stamp_text_def list_all_iff)
qed

lemma stamp_clean:
  assumes "stamp_text s" "\<not> has_drive (strip s)"
  shows "clean_text s"
proof -
  have "\<not> finds_credential prev s" for prev
    using assms(1)
  proof (induction s arbitrary: prev)
    case (Cons c s)
    have "\<not> token_key_at ''sk-'' (c # s)" "\<not> token_key_at ''xai-'' (c # s)" "\<not> private_key_at (c # s)"
      by (simp_all add: token_key_at_def private_key_at_def Let_def stamp_start [OF Cons.prems])
    with Cons show ?case by (simp add: stamp_text_def)
  qed simp
  moreover have "\<not> finds_local_path prev s" for prev
    using assms(1) by (induction s arbitrary: prev) (auto simp: local_path_at_def stamp_text_def list_all_iff is_slash_def split: list.splits)
  ultimately show ?thesis using assms(2) by (simp add: clean_text_def contains_local_path_def)
qed

section \<open>Keys that pass\<close>

definition plain_key :: "string \<Rightarrow> bool" where
  "plain_key k \<longleftrightarrow> list_all (\<lambda>c. is_lower_letter c \<or> byte c = 95) k"

lemma no_upper_sub: "\<forall>c \<in> set k. \<not> is_upper c \<Longrightarrow> sub_acronyms k = k" "\<forall>c \<in> set k. \<not> is_upper c \<Longrightarrow> sub_words prev k = k"
proof -
  show "\<forall>c \<in> set k. \<not> is_upper c \<Longrightarrow> sub_acronyms k = k" by (induction k rule: sub_acronyms.induct) simp_all
  show "\<forall>c \<in> set k. \<not> is_upper c \<Longrightarrow> sub_words prev k = k" by (induction k arbitrary: prev) simp_all
qed

lemma plain_sub: "plain_key k \<Longrightarrow> sub_acronyms k = k" "plain_key k \<Longrightarrow> sub_words prev k = k"
  using no_upper_sub [of k] by (force simp: plain_key_def list_all_iff is_upper_def is_lower_letter_def)+

lemma plain_key_same: "plain_key k \<Longrightarrow> normalize_key k = k"
proof -
  assume k: "plain_key k"
  then have c: "\<forall>c \<in> set k. \<not> is_space c \<and> lower_char c = c \<and> byte c \<noteq> 45"
    by (auto simp: plain_key_def list_all_iff is_lower_letter_def is_space_def lower_char_def)
  have dw: "dropWhile is_space s = s" if "set s \<subseteq> set k" for s using that c by (cases s) auto
  have "strip k = k" by (simp add: strip_def dw)
  moreover have "map lower_char k = k" using c by (simp add: map_idI)
  moreover have "map (\<lambda>c. if byte c = 45 then CHR ''_'' else c) k = k" using c by (intro map_idI) simp
  ultimately show ?thesis using plain_sub [OF k] by (simp add: normalize_key_def lower_def)
qed

lemma plain_key_ok: "plain_key k \<Longrightarrow> k \<notin> set forbidden_keys \<Longrightarrow> \<not> list_ex (\<lambda>t. ends_with t k) [''_body'', ''_content'', ''_path'', ''_paths'']
    \<Longrightarrow> \<not> forbidden_key k"
  by (simp add: forbidden_key_def plain_key_same)

section \<open>The run\<close>

definition agent_dg :: "char \<Rightarrow> string" where "agent_dg c = replicate 64 c"

definition agent_run :: string where "agent_run = example_uid 1"

definition agent_binding :: "string \<Rightarrow> versioned_binding" where
  "agent_binding r = \<lparr>vb_ref = r, vb_digest = agent_dg CHR ''a'', vb_revision = 1\<rparr>"

definition agent_authority :: text_reference where
  "agent_authority = \<lparr>tr_source_kind = ''operator'', tr_source_id = ''root'', tr_digest = agent_dg CHR ''b'', tr_revision = 1, tr_epoch = 0,
     tr_scope = ''run''\<rparr>"

definition example_origin :: agent_origin where
  "example_origin = \<lparr>ao_host = ''cli'', ao_identifier_kind = ''task'', ao_native_id = ''t1''\<rparr>"

definition agent_subject :: string where
  "agent_subject = (case agent_run_subject_digest example_sha ''agent'' example_origin (agent_binding ''goal'') agent_authority
     (agent_binding ''budget'') [] [] of Inr d \<Rightarrow> d | Inl _ \<Rightarrow> [])"

definition example_header :: agent_header where
  "example_header = \<lparr>ah_identity = \<lparr>ai_run_id = agent_run, ai_subject_digest = agent_subject\<rparr>, ah_agent_ref = ''agent'',
     ah_origin = example_origin, ah_state = Created, ah_state_revision = 1, ah_epoch = 0, ah_goal = agent_binding ''goal'',
     ah_authority = agent_authority, ah_budget = agent_binding ''budget'', ah_semantic_state = None, ah_active_plan = None,
     ah_world_bindings = [], ah_memory_bindings = [], ah_parent_agent_run_id = None, ah_delegation_ref = None, ah_created_at = 0\<rparr>"

lemma agent_hash: "hex_hash example_sha"
  by (simp add: hex_hash_def example_sha_hex)

lemma agent_texts:
  "text_ok 512 ''agent''" "text_ok 512 ''goal''" "text_ok 512 ''budget''" "any_text_ok ''operator''" "any_text_ok ''root''" "any_text_ok ''run''"
  "any_text_ok ''cli''" "any_text_ok ''task''" "any_text_ok ''t1''" "is_uuid4 agent_run" "is_sha256 (agent_dg CHR ''a'')" "is_sha256 (agent_dg CHR ''b'')"
  by code_simp+

lemma agent_subject_eq:
  "agent_run_subject_digest example_sha ''agent'' example_origin (agent_binding ''goal'') agent_authority (agent_binding ''budget'') [] []
     = Inr agent_subject" "is_sha256 agent_subject"
proof -
  have "require_non_empty 512 (JStr ''agent'') = Inr ''agent''" using agent_texts(1) by simp
  then obtain j where j: "agent_run_subject_digest example_sha ''agent'' example_origin (agent_binding ''goal'') agent_authority
      (agent_binding ''budget'') [] [] = Inr (canonical_record_digest example_sha ''macr.agent.run-subject.v1'' j)"
    by (simp add: agent_run_subject_digest_def canonical_bindings_def)
  then show "agent_run_subject_digest example_sha ''agent'' example_origin (agent_binding ''goal'') agent_authority
      (agent_binding ''budget'') [] [] = Inr agent_subject" by (simp add: agent_subject_def)
  show "is_sha256 agent_subject" using canonical_record_digest_hex [OF agent_hash] j by (simp add: agent_subject_def)
qed

lemma example_header_ok: "header_ok example_sha example_header"
proof -
  have "datetime_ok 0" by (simp add: datetime_ok_def)
  with agent_texts agent_subject_eq show ?thesis
    by (simp add: header_ok_def example_header_def example_origin_def [symmetric])
      (simp add: origin_ok_def binding_ok_def reference_ok_def canonical_list_def agent_binding_def agent_authority_def example_origin_def)
qed

section \<open>What the events carry\<close>

definition agent_key_names :: "string list" where
  "agent_key_names = [''initial_header'', ''schema_version'', ''identity'', ''agent_ref'', ''origin'', ''state'', ''state_revision'', ''epoch'',
     ''goal'', ''authority'', ''budget'', ''semantic_state'', ''active_plan'', ''world_bindings'', ''memory_bindings'',
     ''parent_agent_run_id'', ''delegation_ref'', ''created_at'', ''agent_run_id'', ''subject_digest'', ''host'', ''identifier_kind'',
     ''native_id'', ''ref'', ''digest'', ''revision'', ''binding_digest'', ''source_kind'', ''source_id'', ''scope'',
     ''owner_id'', ''lease_id'', ''fencing_token'', ''expires_at'', ''reason_code'', ''reason_digest'']"

lemma agent_plain: "list_all plain_key agent_key_names"
  by code_simp

lemma agent_keys: "list_all (\<lambda>k. \<not> forbidden_key k) agent_key_names"
proof -
  have "list_all (\<lambda>k. k \<notin> set forbidden_keys \<and> \<not> list_ex (\<lambda>t. ends_with t k) [''_body'', ''_content'', ''_path'', ''_paths'']) agent_key_names"
    by (simp add: agent_key_names_def forbidden_keys_def ends_with_def)
  with agent_plain show ?thesis unfolding list_all_iff using plain_key_ok by blast
qed

lemmas agent_key = agent_keys [unfolded agent_key_names_def list.pred_inject]

lemma agent_iso: "isoformat 0 = ''1970-01-01T00:00:00+00:00''" "isoformat (seconds 3) = ''1970-01-01T00:00:03+00:00''"
  "isoformat (seconds 14) = ''1970-01-01T00:00:14+00:00''"
  by code_simp+

lemma agent_plain_texts: "list_all plain_text [''agent'', ''cli'', ''task'', ''t1'', ''created'', ''goal'', ''operator'', ''root'', ''run'', ''budget'',
     ''a'', ''b'', ''ready'']"
  by code_simp

lemma agent_stamps: "list_all (\<lambda>s. stamp_text s \<and> \<not> has_drive (strip s)) [agent_run, example_uid 11, example_uid 12,
     ''1970-01-01T00:00:00+00:00'', ''1970-01-01T00:00:03+00:00'', ''1970-01-01T00:00:14+00:00'']"
  by code_simp

lemma agent_clean: "clean_text ''macr-agent-run/v1''" "clean_text agent_run" "clean_text ''agent''" "clean_text ''cli''" "clean_text ''task''"
  "clean_text ''t1''" "clean_text (agent_state_value Created)" "clean_text ''goal''" "clean_text ''operator''" "clean_text ''root''" "clean_text ''run''"
  "clean_text ''budget''" "clean_text (isoformat 0)" "clean_text ''a''" "clean_text ''b''" "clean_text ''ready''"
  "clean_text (isoformat (seconds 3))" "clean_text (isoformat (seconds 14))" "clean_text (example_uid 11)" "clean_text (example_uid 12)"
  using agent_plain_texts agent_stamps plain_clean stamp_clean by (simp_all add: agent_iso) code_simp

lemma clean_digest [simp]: "clean_text (canonical_record_digest example_sha ns v)"
  by (rule hex_clean [OF canonical_record_digest_hex [OF agent_hash]])

lemma header_clean: "validate_content_free (header_to_dict example_sha example_header) = Inr ()"
  using agent_key agent_clean agent_texts(10-) agent_subject_eq(2)
  by (simp add: header_to_dict_def identity_to_dict_def origin_dict_def binding_to_dict_def binding_identity_def authority_binding_to_dict_def
      reference_dict_def optional_binding_to_dict_def binding_digest_def authority_binding_digest_def jstr_def
      example_header_def example_origin_def agent_binding_def agent_authority_def)

lemma ready_payload:
  "validated_payload h Run_Admitted (agent_reason (JStr ''ready'') (JStr (agent_dg CHR ''a'')))
     = Inr (json_norm (agent_reason (JStr ''ready'') (JStr (agent_dg CHR ''a''))))"
proof -
  have "text_ok 128 ''ready''" by code_simp
  then show ?thesis
    using agent_texts(11) agent_clean agent_key
    by (simp add: agent_reason_def validated_payload_def typed_payload_def reason_payload_def require_sha256_def chk_digest_def)
qed

lemma lease_payload:
  assumes "text_ok 256 w" "clean_text w" "is_uuid4 l" "clean_text l" "1 \<le> n" "datetime_ok x" "clean_text (isoformat x)"
  shows "validated_payload h Owner_Acquired (JObj [(''owner_id'', JStr w), (''lease_id'', JStr l), (''fencing_token'', JInt n),
       (''expires_at'', JStr (isoformat x))])
     = Inr (JObj [(''expires_at'', JStr (isoformat x)), (''fencing_token'', JInt n), (''lease_id'', JStr l), (''owner_id'', JStr w)])"
proof -
  have "normalize_timestamp (JStr (isoformat x)) = Inr x" using assms(6) by (simp add: normalize_timestamp_Inr)
  then show ?thesis
    using assms agent_key
    by (simp add: validated_payload_def typed_payload_def owner_payload_def require_uuid4_def chk_uuid4_def require_positive_int_def)
qed

section \<open>Creation and admission\<close>

definition born :: agent_projection where
  "born = \<lparr>ap_initial_header = example_header, ap_state = Created, ap_state_revision = 1, ap_epoch = 0, ap_updated_at = 0\<rparr>"

definition created_db :: agent_db where
  "created_db = snd (create_agent_run example_env example_header (Some (example_uid 2)) initial_agent_db)"

abbreviation agent_cause :: json where
  "agent_cause \<equiv> agent_reason (JStr ''ready'') (JStr (agent_dg CHR ''a''))"

definition admitted_db :: agent_db where
  "admitted_db = snd (transition_unowned example_env agent_run Created Admitted 1 0 Run_Admitted agent_cause (seconds 1) (Some (example_uid 3)) created_db)"

definition admitted :: agent_projection where
  "admitted = advanced born Admitted 0 (seconds 1)"

lemma agent_env [simp]: "sha example_env = example_sha" "clk example_env i = seconds (int i)"
  by (simp_all add: example_env_def)

lemma agent_ids: "list_all is_uuid4 [example_uid 2, example_uid 3, example_uid 4, example_uid 5, example_uid 11, example_uid 12]"
  "distinct [example_uid 5, example_uid 4, example_uid 3, example_uid 2]" "example_uid 11 \<noteq> example_uid 12"
  by code_simp+

lemma born_simps: "ap_run_id born = agent_run" "ap_state born = Created" "ap_state_revision born = 1" "ap_epoch born = 0"
  by (simp_all add: born_def ap_run_id_def example_header_def)

lemma created: "create_agent_run example_env example_header (Some (example_uid 2)) initial_agent_db = (Inr born, created_db)"
  "map er_event_id (ag_events created_db) = [example_uid 2]"
proof -
  have key: "\<not> forbidden_key ''initial_header''" using agent_key by simp
  have f: "ah_state example_header = Created" "ah_state_revision example_header = 1" "ah_epoch example_header = 0"
    "ah_parent_agent_run_id example_header = None" by (simp_all add: example_header_def)
  have i: "event_id_of example_env (Some (example_uid 2)) = JStr (example_uid 2)" "is_uuid4 (example_uid 2)"
    using agent_ids by (simp_all add: event_id_of_def)
  note ok = example_header_ok [folded agent_env(1)] and hx = agent_hash [folded agent_env(1)] and cl = header_clean [folded agent_env(1)]
  obtain p db where c: "create_agent_run example_env example_header (Some (example_uid 2)) initial_agent_db = (Inr p, db)"
    "map er_event_id (ag_events db) = [example_uid 2]"
    "p = \<lparr>ap_initial_header = example_header, ap_state = Created, ap_state_revision = 1, ap_epoch = 0, ap_updated_at = ah_created_at example_header\<rparr>"
    by (rule create_ok [OF ok hx f i cl key])
  then have "p = born" by (simp add: born_def) (simp add: example_header_def)
  with c show "create_agent_run example_env example_header (Some (example_uid 2)) initial_agent_db = (Inr born, created_db)"
    "map er_event_id (ag_events created_db) = [example_uid 2]" by (simp_all add: created_db_def)
qed

lemma created_reachable: "(agent_step example_sha)\<^sup>*\<^sup>* initial_agent_db created_db"
  using agent_step.create [OF agent_env(1) _ created(1)] example_header_ok by (simp add: r_into_rtranclp)

lemma created_facts: "shows_run example_sha created_db born" "leases created_db = ([], 0)"
proof -
  note ok = example_header_ok [folded agent_env(1)] and hx = agent_hash [folded agent_env(1)]
  have inv: "log_inv example_sha initial_agent_db" using reachable_agent [of example_sha initial_agent_db] agent_hash by simp
  obtain v where v: "begins example_sha initial_agent_db created_db born v" "leases created_db = leases initial_agent_db"
    by (rule create_cases [OF created(1) ok hx]) auto
  from begins_inv(2) [OF v(1) inv agent_hash] v(1) show "shows_run example_sha created_db born"
    unfolding shows_run_def begins_def by fastforce
  show "leases created_db = ([], 0)" using v(2) by (simp add: leases_def initial_agent_db_def)
qed

lemma unowned_shows:
  assumes "transition_unowned e run expected target revision epoch t payload c eid db = (Inr q, db')" "log_inv (sha e) db" "hex_hash (sha e)"
  shows "shows_run (sha e) db' q \<and> leases db' = leases db"
  by (rule unowned_cases [OF assms]) (use advances_shows_run assms(3) in auto)

lemma admitted_step:
  "transition_unowned example_env agent_run Created Admitted 1 0 Run_Admitted agent_cause (seconds 1) (Some (example_uid 3)) created_db
     = (Inr admitted, admitted_db)" "map er_event_id (ag_events admitted_db) = [example_uid 2, example_uid 3]"
proof -
  have inv: "log_inv (sha example_env) created_db" using reachable_agent [OF created_reachable agent_hash] by simp
  obtain r sem where r: "r \<in> set (ag_runs created_db)" "row_shows (sha example_env) created_db r born sem"
    using created_facts(1) by (auto simp: shows_run_def)
  have free: "find_ownership (ap_run_id born) created_db = None" using created_facts(2) by (simp add: find_ownership_def leases_def)
  have i: "event_id_of example_env (Some (example_uid 3)) = JStr (example_uid 3)" "is_uuid4 (example_uid 3)"
    "example_uid 3 \<notin> er_event_id ` set (ag_events created_db)"
    using agent_ids created(2) by (simp_all add: event_id_of_def flip: set_map)
  have d: "datetime_ok (seconds 1)" by (simp add: datetime_ok_def seconds_def)
  have t: "target_state Run_Admitted = Some Admitted" "Admitted \<in> set (phase_b_transitions (ap_state born))" by (simp_all add: born_simps)
  obtain db where "transition_unowned example_env (ap_run_id born) (ap_state born) Admitted (ap_state_revision born) (ap_epoch born)
      Run_Admitted agent_cause (seconds 1) (Some (example_uid 3)) created_db = (Inr (advanced born Admitted (ap_epoch born) (seconds 1)), db)"
    "map er_event_id (ag_events db) = map er_event_id (ag_events created_db) @ [example_uid 3]"
    by (rule unowned_ok [OF inv _ r(2,1) free t ready_payload i d]) (use agent_hash in simp_all)
  then show "transition_unowned example_env agent_run Created Admitted 1 0 Run_Admitted agent_cause (seconds 1) (Some (example_uid 3)) created_db
     = (Inr admitted, admitted_db)" "map er_event_id (ag_events admitted_db) = [example_uid 2, example_uid 3]"
    by (simp_all add: born_simps admitted_def admitted_db_def created(2))
qed

lemma admitted_reachable: "(agent_step example_sha)\<^sup>*\<^sup>* created_db admitted_db" "(agent_step example_sha)\<^sup>*\<^sup>* initial_agent_db admitted_db"
proof -
  show s: "(agent_step example_sha)\<^sup>*\<^sup>* created_db admitted_db"
    using agent_step.unowned [OF agent_env(1) admitted_step(1)] by (simp add: r_into_rtranclp)
  show "(agent_step example_sha)\<^sup>*\<^sup>* initial_agent_db admitted_db" using created_reachable s by (rule rtranclp_trans)
qed

lemma admitted_facts: "shows_run example_sha admitted_db admitted" "leases admitted_db = ([], 0)"
  using unowned_shows [OF admitted_step(1)] reachable_agent [OF created_reachable agent_hash] agent_hash created_facts(2) by simp_all

lemma admitted_simps: "ap_run_id admitted = agent_run" "ap_state admitted = Admitted" "ap_state_revision admitted = 2" "ap_epoch admitted = 0"
  by (simp_all add: admitted_def born_simps)

section \<open>Two owners\<close>

definition owned_db :: agent_db where
  "owned_db = snd (acquire_ownership example_env agent_run (JStr ''a'') 2 0 (seconds 2) (seconds 3) (JStr (example_uid 11))
     (Some (example_uid 4)) admitted_db)"

definition first_permit :: agent_permit where
  "first_permit = (case fst (acquire_ownership example_env agent_run (JStr ''a'') 2 0 (seconds 2) (seconds 3) (JStr (example_uid 11))
     (Some (example_uid 4)) admitted_db) of Inr p \<Rightarrow> p)"

definition taken_db :: agent_db where
  "taken_db = snd (acquire_ownership example_env agent_run (JStr ''b'') 3 1 (seconds 4) (seconds 14) (JStr (example_uid 12))
     (Some (example_uid 5)) owned_db)"

definition second_permit :: agent_permit where
  "second_permit = (case fst (acquire_ownership example_env agent_run (JStr ''b'') 3 1 (seconds 4) (seconds 14) (JStr (example_uid 12))
     (Some (example_uid 5)) owned_db) of Inr p \<Rightarrow> p)"

lemma agent_datetimes: "list_all (\<lambda>n. datetime_ok (seconds n)) [2, 3, 4, 14]"
  by (simp add: datetime_ok_def seconds_def)

lemma agent_owners: "text_ok 256 ''a''" "text_ok 256 ''b''"
  by code_simp+

lemma owned_payload:
  "validated_payload h Owner_Acquired (JObj [(''owner_id'', JStr ''a''), (''lease_id'', JStr (example_uid 11)), (''fencing_token'', JInt 1),
       (''expires_at'', JStr (isoformat (seconds 3)))])
     = Inr (JObj [(''expires_at'', JStr (isoformat (seconds 3))), (''fencing_token'', JInt 1), (''lease_id'', JStr (example_uid 11)),
          (''owner_id'', JStr ''a'')])"
  "validated_payload h Owner_Acquired (JObj [(''owner_id'', JStr ''b''), (''lease_id'', JStr (example_uid 12)), (''fencing_token'', JInt 2),
       (''expires_at'', JStr (isoformat (seconds 14)))])
     = Inr (JObj [(''expires_at'', JStr (isoformat (seconds 14))), (''fencing_token'', JInt 2), (''lease_id'', JStr (example_uid 12)),
          (''owner_id'', JStr ''b'')])"
  using agent_clean agent_ids(1) agent_owners agent_datetimes by (simp_all add: lease_payload)

text \<open>An acquisition at a database of the example.\<close>

lemma example_acquire:
  assumes "(agent_step example_sha)\<^sup>*\<^sup>* initial_agent_db db" "shows_run example_sha db p" "ap_state p \<in> open_states"
    and "case find_ownership (ap_run_id p) db of None \<Rightarrow> True | Some w \<Rightarrow> ow_expires_at w \<le> now" "lease \<notin> ow_lease_id ` set (ag_ownership db)"
    and "text_ok 256 owner" "clean_text owner" "is_uuid4 lease" "clean_text lease" "datetime_ok now" "datetime_ok expires" "now < expires"
    and "clean_text (isoformat expires)" "is_uuid4 i" "i \<notin> set (map er_event_id (ag_events db))" "0 \<le> ag_fencing_counter db"
  shows "\<exists>permit db'. acquire_ownership example_env (ap_run_id p) (JStr owner) (ap_state_revision p) (ap_epoch p) now expires (JStr lease) (Some i) db
      = (Inr permit, db') \<and> pe_fencing_token permit = ag_fencing_counter db + 1 \<and> pe_expires_at permit = expires \<and> pe_lease_id permit = lease
      \<and> map er_event_id (ag_events db') = map er_event_id (ag_events db) @ [i]"
proof -
  have inv: "log_inv (sha example_env) db" using reachable_agent [OF assms(1) agent_hash] by simp
  obtain r sem where r: "r \<in> set (ag_runs db)" "row_shows (sha example_env) db r p sem" using assms(2) by (auto simp: shows_run_def)
  have pl: "validated_payload (sha example_env) Owner_Acquired (JObj [(''owner_id'', JStr owner), (''lease_id'', JStr lease),
       (''fencing_token'', JInt (ag_fencing_counter db + 1)), (''expires_at'', JStr (isoformat expires))])
     = Inr (JObj [(''expires_at'', JStr (isoformat expires)), (''fencing_token'', JInt (ag_fencing_counter db + 1)), (''lease_id'', JStr lease),
          (''owner_id'', JStr owner)])"
    using assms(6-11,13,16) by (intro lease_payload) simp_all
  have x: "(case JObj [(''expires_at'', JStr (isoformat expires)), (''fencing_token'', JInt (ag_fencing_counter db + 1)), (''lease_id'', JStr lease),
          (''owner_id'', JStr owner)] of JObj kvs \<Rightarrow> jfield ''expires_at'' kvs | _ \<Rightarrow> JNull) = JStr (isoformat expires)" by simp
  have i: "event_id_of example_env (Some i) = JStr i" "i \<notin> er_event_id ` set (ag_events db)"
    using assms(15) by (simp_all add: event_id_of_def)
  have l: "\<forall>w \<in> set (ag_ownership db). ow_lease_id w \<noteq> lease" using assms(5) by auto
  show ?thesis
    by (rule acquire_ok [OF inv agent_hash [folded agent_env(1)] r(2,1) assms(3,4) l assms(6,8,10-12) pl x i(1) assms(14) i(2) assms(16)]) blast
qed

lemma owned_step:
  "acquire_ownership example_env agent_run (JStr ''a'') 2 0 (seconds 2) (seconds 3) (JStr (example_uid 11)) (Some (example_uid 4)) admitted_db
     = (Inr first_permit, owned_db)" "map er_event_id (ag_events owned_db) = [example_uid 2, example_uid 3, example_uid 4]"
  "pe_fencing_token first_permit = 1" "pe_expires_at first_permit = seconds 3" "pe_lease_id first_permit = example_uid 11"
proof -
  have own: "ag_ownership admitted_db = []" "ag_fencing_counter admitted_db = 0" using admitted_facts(2) by (simp_all add: leases_def)
  have "\<exists>permit db'. acquire_ownership example_env (ap_run_id admitted) (JStr ''a'') (ap_state_revision admitted) (ap_epoch admitted) (seconds 2)
      (seconds 3) (JStr (example_uid 11)) (Some (example_uid 4)) admitted_db
      = (Inr permit, db') \<and> pe_fencing_token permit = ag_fencing_counter admitted_db + 1 \<and> pe_expires_at permit = seconds 3
      \<and> pe_lease_id permit = example_uid 11
      \<and> map er_event_id (ag_events db') = map er_event_id (ag_events admitted_db) @ [example_uid 4]"
    by (rule example_acquire [OF admitted_reachable(2) admitted_facts(1)])
      (use agent_clean agent_ids agent_owners agent_datetimes in
        \<open>simp_all add: own find_ownership_def admitted_simps open_states_def admitted_step(2) seconds_def\<close>)
  then show "acquire_ownership example_env agent_run (JStr ''a'') 2 0 (seconds 2) (seconds 3) (JStr (example_uid 11)) (Some (example_uid 4)) admitted_db
     = (Inr first_permit, owned_db)" "map er_event_id (ag_events owned_db) = [example_uid 2, example_uid 3, example_uid 4]"
    "pe_fencing_token first_permit = 1" "pe_expires_at first_permit = seconds 3" "pe_lease_id first_permit = example_uid 11"
    by (auto simp: admitted_simps owned_db_def first_permit_def own admitted_step(2))
qed

lemma owned_reachable: "(agent_step example_sha)\<^sup>*\<^sup>* initial_agent_db owned_db"
  using admitted_reachable(2) agent_step.acquire [OF agent_env(1) owned_step(1)] by (rule rtranclp.rtrancl_into_rtrancl)

lemma owned_facts:
  obtains p where "shows_run example_sha owned_db p" "ap_run_id p = agent_run" "ap_state p = Admitted" "ap_state_revision p = 3" "ap_epoch p = 1"
    "ag_ownership owned_db = [granted_row first_permit]" "ag_fencing_counter owned_db = 1" "pe_run_id first_permit = agent_run"
proof -
  have inv: "log_inv (sha example_env) admitted_db" using reachable_agent [OF admitted_reachable(2) agent_hash] by simp
  have own: "ag_ownership admitted_db = []" "ag_fencing_counter admitted_db = 0" using admitted_facts(2) by (simp_all add: leases_def)
  show thesis
  proof (rule acquire_own_cases [OF owned_step(1) inv agent_hash [folded agent_env(1)]])
    fix db0 permit r r' p v q
    assume p: "Inr first_permit = Inr permit" "db0 = admitted_db \<and> find_ownership agent_run admitted_db = None \<or> db0 = delete_ownership agent_run admitted_db"
      and a: "advances (sha example_env) admitted_db owned_db r r' p v q" "ap_run_id p = agent_run" "ap_state_revision p = 2" "ap_epoch p = 0"
        "ap_epoch q = ap_epoch p + 1" "ap_state q = ap_state p" "pe_run_id permit = agent_run"
        "leases owned_db = (ag_ownership db0 @ [granted_row permit], ag_fencing_counter admitted_db + 1)"
    have m: "moves_on p v q" and sr: "shows_run example_sha owned_db q"
      using advances_shows(5) [OF a(1)] advances_shows_run [OF a(1)] agent_hash by simp_all
    have st: "ap_state p = Admitted"
    proof -
      obtain x y where x: "x \<in> set (ag_runs admitted_db)" "row_shows (sha example_env) admitted_db x p y" using a(1) by (auto simp: advances_def)
      obtain z w where z: "z \<in> set (ag_runs admitted_db)" "row_shows (sha example_env) admitted_db z admitted w"
        using admitted_facts(1) by (auto simp: shows_run_def)
      have "x = z" using same_row [OF inv x(1) z(1)] shows_simps [OF x(2)] shows_simps [OF z(2)] a(2) admitted_simps(1) by simp
      then show ?thesis using shows_simps [OF x(2)] shows_simps [OF z(2)] admitted_simps(2) by simp
    qed
    show thesis
    proof (rule that [OF sr])
      show "ap_run_id q = agent_run" using m a(2) by (simp add: moves_on_def ap_run_id_def)
      show "ag_ownership owned_db = [granted_row first_permit]" using a(8) p own by (auto simp: leases_iff)
    qed (use m a p own st in \<open>auto simp: moves_on_def leases_iff\<close>)
  qed (use own in \<open>simp_all add: find_ownership_def\<close>)
qed

lemma taken_step:
  "acquire_ownership example_env agent_run (JStr ''b'') 3 1 (seconds 4) (seconds 14) (JStr (example_uid 12)) (Some (example_uid 5)) owned_db
     = (Inr second_permit, taken_db)" "pe_fencing_token second_permit = 2"
proof -
  obtain p where p: "shows_run example_sha owned_db p" "ap_run_id p = agent_run" "ap_state p = Admitted" "ap_state_revision p = 3" "ap_epoch p = 1"
    "ag_ownership owned_db = [granted_row first_permit]" "ag_fencing_counter owned_db = 1" "pe_run_id first_permit = agent_run"
    by (rule owned_facts)
  have "\<exists>permit db'. acquire_ownership example_env (ap_run_id p) (JStr ''b'') (ap_state_revision p) (ap_epoch p) (seconds 4)
      (seconds 14) (JStr (example_uid 12)) (Some (example_uid 5)) owned_db
      = (Inr permit, db') \<and> pe_fencing_token permit = ag_fencing_counter owned_db + 1 \<and> pe_expires_at permit = seconds 14
      \<and> pe_lease_id permit = example_uid 12
      \<and> map er_event_id (ag_events db') = map er_event_id (ag_events owned_db) @ [example_uid 5]"
    by (rule example_acquire [OF owned_reachable p(1)])
      (use agent_clean agent_ids agent_owners agent_datetimes in
        \<open>simp_all add: p(2-8) owned_step(2-5) find_ownership_def open_states_def seconds_def\<close>)
  then show "acquire_ownership example_env agent_run (JStr ''b'') 3 1 (seconds 4) (seconds 14) (JStr (example_uid 12)) (Some (example_uid 5)) owned_db
     = (Inr second_permit, taken_db)" "pe_fencing_token second_permit = 2"
    by (auto simp: p taken_db_def second_permit_def)
qed

section \<open>The theorems at the example\<close>

theorem reads_replay_the_log_witness:
  "get_agent_run example_sha agent_run admitted_db
     = ebind (chk_uuid4 agent_run) (\<lambda>run. ebind (load_event_chain example_sha run admitted_db) (replay_agent_events example_sha))"
  using reads_replay_the_log [OF agent_hash admitted_reachable(2)] by blast

theorem run_life_cycle_witness:
  "\<exists>r r'. find_run agent_run created_db = Some r \<and> find_run agent_run admitted_db = Some r' \<and> rs_subject_digest r' = rs_subject_digest r
     \<and> rs_epoch r \<le> rs_epoch r'"
proof -
  obtain r sem where r: "r \<in> set (ag_runs created_db)" "row_shows example_sha created_db r born sem"
    using created_facts(1) by (auto simp: shows_run_def)
  have "find_run agent_run created_db = Some r"
    using find_run_iff [of created_db agent_run r] reachable_agent [OF created_reachable agent_hash] r shows_simps [OF r(2)] born_simps(1)
    by (simp add: log_inv_def)
  from run_life_cycle [OF agent_hash created_reachable admitted_reachable(1) this] this show ?thesis by blast
qed

theorem leases_on_open_runs_witness:
  "\<exists>r. find_run agent_run owned_db = Some r \<and> rs_epoch r = pe_epoch first_permit \<and> rs_state r \<in> {Admitted, Active, Blocked}"
proof -
  obtain p where p: "ag_ownership owned_db = [granted_row first_permit]" "pe_run_id first_permit = agent_run" by (rule owned_facts)
  then have "find_ownership agent_run owned_db = Some (granted_row first_permit)" by (simp add: find_ownership_def)
  from leases_on_open_runs [OF agent_hash owned_reachable this] show ?thesis by simp
qed

theorem superseded_owner_refused_witness:
  "\<exists>err1 err2. renew_ownership first_permit (seconds 5) (seconds 9) taken_db = (Inl err1, taken_db)
     \<and> release_ownership first_permit taken_db = (Inl err2, taken_db)"
  using superseded_owner_refused [OF agent_hash [folded agent_env(1)] admitted_reachable(2) [folded agent_env(1)] owned_step(1) rtranclp.rtrancl_refl refl
      taken_step(1) _ rtranclp.rtrancl_refl refl, of "seconds 5" "seconds 9"] owned_step(3) taken_step(2) by fastforce

text \<open>The run has an owner, and a new epoch, when the stale transition comes.\<close>

theorem stale_transition_refused_witness:
  "transition_unowned example_env agent_run Created Cancelled 1 1 Run_Cancelled agent_cause (seconds 5) None owned_db
     = (Inl (AgentError Stale_Revision), owned_db)"
proof -
  have "(agent_step (sha example_env))\<^sup>*\<^sup>* admitted_db owned_db"
    using agent_step.acquire [OF agent_env(1) owned_step(1)] by (simp add: agent_env)
  from stale_transition_refused [OF agent_hash [folded agent_env(1)] created_reachable [folded agent_env(1)] disjI1 [OF admitted_step(1)]
      agent_texts(10) this refl, of "first_permit\<lparr>pe_run_id := agent_run\<rparr>" 1]
  show ?thesis by simp
qed

theorem event_log_append_only_witness:
  "prefix (ag_events created_db) (ag_events admitted_db) \<and> map er_sequence (ag_events admitted_db) = [1..int (length (ag_events admitted_db))]"
  using event_log_append_only [OF agent_hash created_reachable admitted_reachable(1)] by blast

text \<open>The admitted run after its projection tables were lost.\<close>

definition lost_db :: agent_db where
  "lost_db = admitted_db\<lparr>ag_runs := [], ag_goals := []\<rparr>"

lemma lost_facts: "ag_events lost_db = ag_events admitted_db" "find_ownership agent_run lost_db = None"
  using admitted_facts(2) by (simp_all add: lost_db_def find_ownership_def leases_def)

lemma admitted_row:
  obtains r where "find_run agent_run admitted_db = Some r" "rs_parent_agent_run_id r = None"
proof -
  obtain r sem where r: "r \<in> set (ag_runs admitted_db)" "row_shows example_sha admitted_db r admitted sem"
    using admitted_facts(1) by (auto simp: shows_run_def)
  have "find_run agent_run admitted_db = Some r"
    using find_run_iff [of admitted_db agent_run r] reachable_agent [OF admitted_reachable(2) agent_hash] r shows_simps [OF r(2)] admitted_simps(1)
    by (simp add: log_inv_def)
  moreover have "rs_parent_agent_run_id r = None"
    using r(2) by (auto simp: row_shows_def projection_row_def set_semantic_def Let_def admitted_def born_def example_header_def)
  ultimately show thesis by (rule that)
qed

theorem rebuild_succeeds_witness:
  "\<exists>p d'. get_agent_run example_sha agent_run admitted_db = Inr p \<and> rebuild_projection example_env agent_run None lost_db = (Inr p, d')"
proof -
  obtain r where "find_run agent_run admitted_db = Some r" "rs_parent_agent_run_id r = None" by (rule admitted_row)
  from rebuild_succeeds [OF agent_hash [folded agent_env(1)] admitted_reachable(2) [folded agent_env(1)] lost_facts(1) this] lost_facts(2)
  show ?thesis by simp
qed

theorem rebuild_restores_witness:
  "\<exists>p d'. rebuild_projection example_env agent_run None lost_db = (Inr p, d') \<and> find_run agent_run lost_db = None
     \<and> find_run agent_run d' = find_run agent_run admitted_db \<and> find_run agent_run admitted_db \<noteq> None"
proof -
  obtain r where r: "find_run agent_run admitted_db = Some r" "rs_parent_agent_run_id r = None" by (rule admitted_row)
  obtain p d' where d: "rebuild_projection example_env agent_run None lost_db = (Inr p, d')"
    using rebuild_possible [OF agent_hash [folded agent_env(1)] admitted_reachable(2) [folded agent_env(1)] lost_facts(1) r] lost_facts(2) by auto
  from rebuild_restores [OF agent_hash [folded agent_env(1)] admitted_reachable(2) [folded agent_env(1)] lost_facts(1) d]
  have "find_run agent_run d' = find_run agent_run admitted_db" by simp
  with r(1) d show ?thesis by (auto simp: lost_db_def find_run_def)
qed

end
