(* ===== verification/VerifierGraph.thy ===== *)
theory VerifierGraph
  imports Canonical
begin

text \<open>
  \<open>src/src/macr_runtime/verification_graph.py\<close>: the tools that verify a change as nodes of a dependency
  graph, the canonical order in which they run, and the composition of a compiler, a vector and a diff
  verifier over several files. Every error is a \<open>ValueError\<close>; \<open>graph_error\<close> tells its messages apart.
\<close>

section \<open>Errors\<close>

datatype graph_error =
    Field_Refused err | Digests_Empty | Digests_Duplicate | Identifiers_Duplicate | Self_Dependency
  | Graph_Empty | Duplicate_Node | Missing_Dependency string | Graph_Cycle
  | Not_Canonical_Order | Graph_Digest_Differs
  | Verifier_Missing string | Verifier_Not_Required string | Independent_Of_Compiler string
  | Key_Error string     \<comment> \<open>a lookup of \<open>by_id\<close> that fails\<close>

type_synonym 'a checked = "graph_error + 'a"

definition ctry :: "'a checked \<Rightarrow> ('a \<Rightarrow> 'b checked) \<Rightarrow> 'b checked" where
  "ctry r f = (case r of Inl e \<Rightarrow> Inl e | Inr a \<Rightarrow> f a)"

definition field :: "'a result \<Rightarrow> 'a checked" where
  "field r = (case r of Inl e \<Rightarrow> Inl (Field_Refused e) | Inr a \<Rightarrow> Inr a)"

definition accepted :: "'a checked \<Rightarrow> bool" where
  "accepted r \<longleftrightarrow> (case r of Inl _ \<Rightarrow> False | Inr _ \<Rightarrow> True)"

lemma ctry_simps [simp]: "ctry (Inl e) f = Inl e" "ctry (Inr a) f = f a"
  by (simp_all add: ctry_def)

lemma ctry_Inr [result_simps]: "ctry r f = Inr b \<longleftrightarrow> (\<exists>a. r = Inr a \<and> f a = Inr b)"
  by (cases r) simp_all

lemma field_Inr [simp]: "field r = Inr a \<longleftrightarrow> r = Inr a"
  by (cases r) (simp_all add: field_def)

lemma accepted_simps [simp]: "accepted (Inr a)" "\<not> accepted (Inl e)"
  by (simp_all add: accepted_def)

lemma accepted_iff: "accepted r \<longleftrightarrow> (\<exists>a. r = Inr a)"
  by (cases r) simp_all

section \<open>Nodes\<close>

record verifier_node =
  node_id :: string
  tool :: string
  tool_version :: string
  input_digests :: "string list"
  depends_on :: "string list"
  config_digest :: "string option"
  required_node :: bool

definition digest_set :: "string list \<Rightarrow> string list checked" where
  "digest_set values =
     ctry (field (emap chk_digest values)) (\<lambda>normalized.
       if normalized = [] then Inl Digests_Empty
       else if \<not> distinct normalized then Inl Digests_Duplicate
       else Inr (sort normalized))"

definition identifier_set :: "string list \<Rightarrow> string list checked" where
  "identifier_set values =
     ctry (field (emap chk_identifier values)) (\<lambda>normalized.
       if \<not> distinct normalized then Inl Identifiers_Duplicate
       else Inr (sort normalized))"

definition create_node ::
    "string \<Rightarrow> string \<Rightarrow> string \<Rightarrow> string list \<Rightarrow> string list \<Rightarrow> string option \<Rightarrow> bool \<Rightarrow> verifier_node checked" where
  "create_node nid name ver inputs deps config req =
     ctry (field (chk_identifier nid)) (\<lambda>nid.
     ctry (field (chk_identifier name)) (\<lambda>name.
     ctry (field (chk_identifier ver)) (\<lambda>ver.
     ctry (digest_set inputs) (\<lambda>inputs.
     ctry (identifier_set deps) (\<lambda>deps.
       if nid \<in> set deps then Inl Self_Dependency
       else ctry (field (chk_optional chk_digest config)) (\<lambda>config.
         Inr \<lparr>node_id = nid, tool = name, tool_version = ver, input_digests = inputs, depends_on = deps,
              config_digest = config, required_node = req\<rparr>))))))"

definition node_to_dict :: "verifier_node \<Rightarrow> json" where
  "node_to_dict n =
     JObj [(''node_id'', JStr (node_id n)), (''tool'', JStr (tool n)), (''version'', JStr (tool_version n)),
           (''input_digests'', jstrs (input_digests n)), (''depends_on'', jstrs (depends_on n)),
           (''config_digest'', jstr (config_digest n)), (''required'', JBool (required_node n))]"

definition node_digest :: "(string \<Rightarrow> string) \<Rightarrow> verifier_node \<Rightarrow> string" where
  "node_digest sha n = sha256_hex sha ''verifier_node_v1'' (node_to_dict n)"

section \<open>Topological order\<close>

text \<open>\<open>{item.node_id: item for item in nodes}\<close>: the last node of an identifier.\<close>

definition by_id :: "verifier_node list \<Rightarrow> string \<Rightarrow> verifier_node option" where
  "by_id nodes k = map_of (rev (map (\<lambda>n. (node_id n, n)) nodes)) k"

definition node_at :: "verifier_node list \<Rightarrow> string \<Rightarrow> verifier_node checked" where
  "node_at nodes k = (case by_id nodes k of None \<Rightarrow> Inl (Key_Error k) | Some n \<Rightarrow> Inr n)"

fun nodes_at :: "verifier_node list \<Rightarrow> string list \<Rightarrow> verifier_node list checked" where
  "nodes_at nodes [] = Inr []"
| "nodes_at nodes (k # ks) = ctry (node_at nodes k) (\<lambda>n. ctry (nodes_at nodes ks) (\<lambda>ns. Inr (n # ns)))"

fun missing_dependency :: "string set \<Rightarrow> verifier_node list \<Rightarrow> string option" where
  "missing_dependency ids [] = None"
| "missing_dependency ids (n # ns) =
     (case sort (remdups (filter (\<lambda>d. d \<notin> ids) (depends_on n))) of
        d # _ \<Rightarrow> Some d
      | [] \<Rightarrow> missing_dependency ids ns)"

text \<open>One round of the loop: the identifiers that wait for nothing, and what the others then still
  wait for.\<close>

definition ready :: "(string \<times> string list) list \<Rightarrow> string list" where
  "ready remaining = sort (map fst (filter (\<lambda>(k, ds). ds = []) remaining))"

definition without :: "string list \<Rightarrow> (string \<times> string list) list \<Rightarrow> (string \<times> string list) list" where
  "without ks remaining =
     map (\<lambda>(k, ds). (k, filter (\<lambda>d. d \<notin> set ks) ds)) (filter (\<lambda>(k, ds). k \<notin> set ks) remaining)"

lemma ready_set: "set (ready r) = {k. (k, []) \<in> set r}"
  by (force simp: ready_def)

lemma without_shorter:
  assumes "ready r \<noteq> []"
  shows "length (without (ready r) r) < length r"
proof -
  obtain k where k: "k \<in> set (ready r)" using assms by fastforce
  then have "(k, []) \<in> set r" by (simp add: ready_set)
  with k have "length (filter (\<lambda>(k, ds). k \<notin> set (ready r)) r) < length r"
    by (intro length_filter_less) auto
  then show ?thesis by (simp add: without_def)
qed

function order_nodes ::
    "verifier_node list \<Rightarrow> (string \<times> string list) list \<Rightarrow> verifier_node list \<Rightarrow> verifier_node list checked" where
  "order_nodes nodes remaining ordered =
     (if remaining = [] then Inr ordered
      else if ready remaining = [] then Inl Graph_Cycle
      else ctry (nodes_at nodes (ready remaining)) (\<lambda>ns.
        order_nodes nodes (without (ready remaining) remaining) (ordered @ ns)))"
  by pat_completeness auto
termination by (relation "measure (\<lambda>(_, r, _). length r)") (auto simp: without_shorter)

declare order_nodes.simps [simp del]

definition topological_nodes :: "verifier_node list \<Rightarrow> verifier_node list checked" where
  "topological_nodes nodes =
     (if nodes = [] then Inl Graph_Empty
      else if \<not> distinct (map node_id nodes) then Inl Duplicate_Node
      else case missing_dependency (set (map node_id nodes)) nodes of
        Some d \<Rightarrow> Inl (Missing_Dependency d)
      | None \<Rightarrow> order_nodes nodes (map (\<lambda>n. (node_id n, depends_on n)) nodes) [])"

section \<open>Graphs\<close>

record verifier_graph =
  graph_nodes :: "verifier_node list"
  graph_digest :: string

definition nodes_digest :: "(string \<Rightarrow> string) \<Rightarrow> verifier_node list \<Rightarrow> string" where
  "nodes_digest sha nodes = sha256_hex sha ''verifier_graph_v1'' (JObj [(''nodes'', JList (map node_to_dict nodes))])"

definition create_graph :: "(string \<Rightarrow> string) \<Rightarrow> verifier_node list \<Rightarrow> string \<Rightarrow> verifier_graph checked" where
  "create_graph sha nodes digest =
     (if nodes = [] then Inl Graph_Empty
      else ctry (topological_nodes nodes) (\<lambda>expected.
        if nodes \<noteq> expected then Inl Not_Canonical_Order
        else if digest \<noteq> nodes_digest sha nodes then Inl Graph_Digest_Differs
        else Inr \<lparr>graph_nodes = nodes, graph_digest = digest\<rparr>))"

definition build_graph :: "(string \<Rightarrow> string) \<Rightarrow> verifier_node list \<Rightarrow> verifier_graph checked" where
  "build_graph sha nodes =
     ctry (topological_nodes nodes) (\<lambda>canonical. create_graph sha canonical (nodes_digest sha canonical))"

definition graph_to_dict :: "verifier_graph \<Rightarrow> json" where
  "graph_to_dict g =
     JObj [(''graph_digest'', JStr (graph_digest g)), (''nodes'', JList (map node_to_dict (graph_nodes g)))]"

section \<open>Cross-file composition\<close>

lemma by_id_Some: "by_id nodes k = Some n \<Longrightarrow> n \<in> set nodes \<and> node_id n = k"
  by (auto simp: by_id_def dest!: map_of_SomeD)

lemma fewer_unseen:
  assumes "by_id nodes k = Some n" "k \<notin> set seen"
  shows "card (set (map node_id nodes) - set (k # seen)) < card (set (map node_id nodes) - set seen)"
proof (rule psubset_card_mono)
  show "set (map node_id nodes) - set (k # seen) \<subset> set (map node_id nodes) - set seen"
    using by_id_Some [OF assms(1)] assms(2) by auto
qed simp

text \<open>\<open>_depends_on\<close>: a depth-first search. The head of \<open>pending\<close> is the end of the list that the
  code pops from; the identifiers that are not yet in \<open>seen\<close> bound the rounds.\<close>

function search_dependency :: "verifier_node list \<Rightarrow> string \<Rightarrow> string list \<Rightarrow> string list \<Rightarrow> bool checked" where
  "search_dependency nodes ancestor [] seen = Inr False"
| "search_dependency nodes ancestor (current # pending) seen =
     (if current = ancestor then Inr True
      else if current \<in> set seen then search_dependency nodes ancestor pending seen
      else case by_id nodes current of
        None \<Rightarrow> Inl (Key_Error current)
      | Some n \<Rightarrow> search_dependency nodes ancestor (rev (depends_on n) @ pending) (current # seen))"
  by pat_completeness auto

termination
proof (relation "measures [\<lambda>(nodes, _, _, seen). card (set (map node_id nodes) - set seen), \<lambda>(_, _, pending, _). length pending]")
  fix nodes ancestor current pending seen n
  assume "current \<notin> set seen" "by_id nodes current = Some n"
  then have "card (set (map node_id nodes) - set (current # seen)) < card (set (map node_id nodes) - set seen)"
    by (rule fewer_unseen [rotated])
  then show "((nodes, ancestor, rev (depends_on n) @ pending, current # seen), nodes, ancestor, current # pending, seen)
    \<in> measures [\<lambda>(nodes, _, _, seen). card (set (map node_id nodes) - set seen), \<lambda>(_, _, pending, _). length pending]"
    by simp
qed simp_all

definition node_depends_on :: "verifier_node list \<Rightarrow> string \<Rightarrow> string \<Rightarrow> bool checked" where
  "node_depends_on nodes k ancestor =
     ctry (node_at nodes k) (\<lambda>n. search_dependency nodes ancestor (rev (depends_on n)) [])"

record crossfile_composition =
  individual_graph :: verifier_graph
  integration_graph :: verifier_graph
  compiler_node_id :: string
  vector_node_id :: string
  diff_node_id :: string

fun require_verifiers :: "verifier_node list \<Rightarrow> (string \<times> string) list \<Rightarrow> unit checked" where
  "require_verifiers nodes [] = Inr ()"
| "require_verifiers nodes ((label, k) # rest) =
     (case by_id nodes k of
        None \<Rightarrow> Inl (Verifier_Missing label)
      | Some n \<Rightarrow> if \<not> required_node n then Inl (Verifier_Not_Required label) else require_verifiers nodes rest)"

definition create_composition ::
    "verifier_graph \<Rightarrow> verifier_graph \<Rightarrow> string \<Rightarrow> string \<Rightarrow> string \<Rightarrow> crossfile_composition checked" where
  "create_composition individual integration compiler vector diff =
     ctry (field (chk_identifier compiler)) (\<lambda>compiler.
     ctry (field (chk_identifier vector)) (\<lambda>vector.
     ctry (field (chk_identifier diff)) (\<lambda>diff.
     ctry (require_verifiers (graph_nodes integration)
             [(''compiler'', compiler), (''vector'', vector), (''diff'', diff)]) (\<lambda>_.
     ctry (node_depends_on (graph_nodes integration) vector compiler) (\<lambda>v.
       if \<not> v then Inl (Independent_Of_Compiler ''vector'')
       else ctry (node_depends_on (graph_nodes integration) diff compiler) (\<lambda>d.
         if \<not> d then Inl (Independent_Of_Compiler ''diff'')
         else Inr \<lparr>individual_graph = individual, integration_graph = integration,
                   compiler_node_id = compiler, vector_node_id = vector, diff_node_id = diff\<rparr>))))))"

definition composition_to_dict :: "crossfile_composition \<Rightarrow> json" where
  "composition_to_dict c =
     JObj [(''individual_graph_digest'', JStr (graph_digest (individual_graph c))),
           (''integration_graph_digest'', JStr (graph_digest (integration_graph c))),
           (''compiler_node_id'', JStr (compiler_node_id c)), (''vector_node_id'', JStr (vector_node_id c)),
           (''diff_node_id'', JStr (diff_node_id c))]"

definition composition_digest :: "(string \<Rightarrow> string) \<Rightarrow> crossfile_composition \<Rightarrow> string" where
  "composition_digest sha c = sha256_hex sha ''crossfile_verifier_composition_v1'' (composition_to_dict c)"

end
