(* ===== verification/VerifierGraphProps.thy ===== *)
theory VerifierGraphProps
  imports VerifierGraph "HOL-Library.Multiset"
begin

text \<open>
  The canonical order of a verifier graph: it lists every node once, after the nodes it depends on; it
  exists iff the dependencies are closed and acyclic; it does not depend on the order in which the nodes
  are given. The search of \<open>_depends_on\<close> ends and decides the transitive dependencies, so an accepted
  composition runs its compiler first.
\<close>

section \<open>Dependencies\<close>

definition waits_for :: "verifier_node list \<Rightarrow> (string \<times> string) set" where
  "waits_for nodes = (\<Union>n \<in> set nodes. Pair (node_id n) ` set (depends_on n))"

definition well_linked :: "verifier_node list \<Rightarrow> bool" where
  "well_linked nodes \<longleftrightarrow> distinct (map node_id nodes) \<and> Range (waits_for nodes) \<subseteq> node_id ` set nodes"

lemma waits_for_iff: "(k, d) \<in> waits_for nodes \<longleftrightarrow> (\<exists>n \<in> set nodes. node_id n = k \<and> d \<in> set (depends_on n))"
  by (auto simp: waits_for_def)

lemma finite_waits_for: "finite (waits_for nodes)"
  by (simp add: waits_for_def)

lemma waits_for_set: "set nodes = set nodes' \<Longrightarrow> waits_for nodes = waits_for nodes'"
  by (simp add: waits_for_def)

lemma one_node: "distinct (map node_id nodes) \<Longrightarrow> m \<in> set nodes \<Longrightarrow> n \<in> set nodes \<Longrightarrow> node_id m = node_id n \<Longrightarrow> m = n"
  by (auto simp: distinct_map dest: inj_onD)

lemma by_id_iff:
  assumes "distinct (map node_id nodes)"
  shows "by_id nodes k = Some n \<longleftrightarrow> n \<in> set nodes \<and> node_id n = k"
proof -
  have "distinct (map fst (rev (map (\<lambda>n. (node_id n, n)) nodes)))"
    using assms by (simp add: rev_map [symmetric] comp_def)
  then show ?thesis by (auto simp: by_id_def map_of_eq_Some_iff)
qed

lemma node_of_id:
  assumes "distinct (map node_id nodes)" "k \<in> node_id ` set nodes"
  obtains n where "by_id nodes k = Some n" "n \<in> set nodes" "node_id n = k"
  using assms by (auto simp: by_id_iff)

lemma missing_dependency_None: "missing_dependency ids ns = None \<longleftrightarrow> (\<forall>n \<in> set ns. set (depends_on n) \<subseteq> ids)"
proof (induction ns)
  case (Cons n ns)
  let ?m = "sort (remdups (filter (\<lambda>d. d \<notin> ids) (depends_on n)))"
  have m: "set ?m = set (depends_on n) - ids" by auto
  show ?case
  proof (cases ?m)
    case Nil
    then have "set (depends_on n) \<subseteq> ids" using m by (metis Diff_eq_empty_iff set_empty)
    with Cons Nil show ?thesis by simp
  next
    case (Cons d ds)
    then have "d \<in> set (depends_on n) - ids" using m by (metis list.set_intros(1))
    then show ?thesis using Cons by auto
  qed
qed simp

lemma Range_waits_for: "Range (waits_for nodes) \<subseteq> S \<longleftrightarrow> (\<forall>n \<in> set nodes. set (depends_on n) \<subseteq> S)"
  unfolding waits_for_def by blast

lemma topological_nodes_unfold:
  "topological_nodes nodes = Inr ns \<longleftrightarrow>
     nodes \<noteq> [] \<and> well_linked nodes \<and> order_nodes nodes (map (\<lambda>n. (node_id n, depends_on n)) nodes) [] = Inr ns"
proof -
  have "well_linked nodes \<longleftrightarrow> distinct (map node_id nodes) \<and> missing_dependency (set (map node_id nodes)) nodes = None"
    by (simp only: well_linked_def missing_dependency_None Range_waits_for set_map)
  then show ?thesis by (simp add: topological_nodes_def split: option.split)
qed

section \<open>The rounds of the loop\<close>

definition left :: "verifier_node list \<Rightarrow> string set \<Rightarrow> (string \<times> string list) list" where
  "left nodes D = map (\<lambda>n. (node_id n, filter (\<lambda>d. d \<notin> D) (depends_on n))) (filter (\<lambda>n. node_id n \<notin> D) nodes)"

definition free_ids :: "verifier_node list \<Rightarrow> string set \<Rightarrow> string set" where
  "free_ids nodes D = {k \<in> node_id ` set nodes. k \<notin> D \<and> waits_for nodes `` {k} \<subseteq> D}"

lemma left_start: "map (\<lambda>n. (node_id n, depends_on n)) nodes = left nodes {}"
  by (simp add: left_def)

lemma left_Nil: "left nodes D = [] \<longleftrightarrow> node_id ` set nodes \<subseteq> D"
  by (auto simp: left_def filter_empty_conv)

lemma without_left: "without ks (left nodes D) = left nodes (D \<union> set ks)"
  by (simp add: without_def left_def filter_map comp_def conj_ac)

lemma waits_of:
  assumes "distinct (map node_id nodes)" "n \<in> set nodes"
  shows "waits_for nodes `` {node_id n} = set (depends_on n)"
proof -
  have "m = n" if "m \<in> set nodes" "node_id m = node_id n" for m
    by (rule one_node [OF assms(1) that(1) assms(2) that(2)])
  then have "d \<in> waits_for nodes `` {node_id n} \<longleftrightarrow> d \<in> set (depends_on n)" for d
    unfolding Image_singleton_iff waits_for_iff using assms(2) by blast
  then show ?thesis by blast
qed

lemma free_deps:
  assumes "distinct (map node_id nodes)" "n \<in> set nodes" "node_id n \<in> free_ids nodes D"
  shows "set (depends_on n) \<subseteq> D"
  using assms(3) waits_of [OF assms(1,2)] by (simp add: free_ids_def)

lemma ready_left:
  assumes "distinct (map node_id nodes)"
  shows "ready (left nodes D) = sorted_list_of_set (free_ids nodes D)"
proof -
  have "k \<in> set (ready (left nodes D)) \<longleftrightarrow> k \<in> free_ids nodes D" for k
  proof -
    have "k \<in> set (ready (left nodes D)) \<longleftrightarrow>
        (\<exists>n \<in> set nodes. node_id n = k \<and> k \<notin> D \<and> filter (\<lambda>d. d \<notin> D) (depends_on n) = [])"
      unfolding ready_set left_def by auto
    also have "\<dots> \<longleftrightarrow> (\<exists>n \<in> set nodes. node_id n = k \<and> k \<notin> D \<and> waits_for nodes `` {k} \<subseteq> D)"
      by (rule bex_cong [OF refl]) (use waits_of [OF assms] in \<open>auto simp: filter_empty_conv\<close>)
    also have "\<dots> \<longleftrightarrow> k \<in> free_ids nodes D" by (auto simp: free_ids_def)
    finally show ?thesis .
  qed
  then have s: "set (ready (left nodes D)) = free_ids nodes D" by blast
  have "map fst (left nodes D) = map node_id (filter (\<lambda>n. node_id n \<notin> D) nodes)" by (simp add: left_def comp_def)
  then have "distinct (map fst (left nodes D))" using assms by (simp add: distinct_map_filter)
  then have "distinct (ready (left nodes D))" by (simp add: ready_def distinct_map_filter)
  moreover have "sorted (ready (left nodes D))" by (simp add: ready_def)
  ultimately show ?thesis
    using s by (metis sorted_list_of_set_sort_remdups sorted_sort_id distinct_remdups_id)
qed

lemma free_ids_in: "free_ids nodes D \<subseteq> node_id ` set nodes" and finite_free_ids: "finite (free_ids nodes D)"
  by (auto simp: free_ids_def)

lemma nodes_at_ok:
  assumes "distinct (map node_id nodes)" "set ks \<subseteq> node_id ` set nodes"
  shows "\<exists>ns. nodes_at nodes ks = Inr ns \<and> map node_id ns = ks \<and> set ns = {n \<in> set nodes. node_id n \<in> set ks}"
  using assms(2)
proof (induction ks)
  case (Cons k ks)
  have "k \<in> node_id ` set nodes" "set ks \<subseteq> node_id ` set nodes" using Cons.prems by auto
  then obtain n ns where n: "by_id nodes k = Some n" "n \<in> set nodes" "node_id n = k"
    and ns: "nodes_at nodes ks = Inr ns" "map node_id ns = ks" "set ns = {n \<in> set nodes. node_id n \<in> set ks}"
    using Cons.IH node_of_id [OF assms(1)] by metis
  have "m = n" if "m \<in> set nodes" "node_id m = k" for m
    by (rule one_node [OF assms(1) that(1) n(2)]) (simp only: that(2) n(3))
  then have "{m \<in> set nodes. node_id m = k} = {n}" using n(2,3) by blast
  then have "set (n # ns) = {m \<in> set nodes. node_id m \<in> set (k # ks)}" using ns(3) by auto
  with n ns show ?case by (simp add: node_at_def)
qed simp

text \<open>A round of the loop, with the nodes already listed as a set.\<close>

lemma order_round:
  assumes "distinct (map node_id nodes)" "ns = map (the \<circ> by_id nodes) (sorted_list_of_set (free_ids nodes D))"
  shows "order_nodes nodes (left nodes D) acc =
     (if node_id ` set nodes \<subseteq> D then Inr acc
      else if free_ids nodes D = {} then Inl Graph_Cycle
      else order_nodes nodes (left nodes (D \<union> free_ids nodes D)) (acc @ ns))"
    and "map node_id ns = sorted_list_of_set (free_ids nodes D)"
    and "set ns = {n \<in> set nodes. node_id n \<in> free_ids nodes D}"
proof -
  obtain ms where ms: "nodes_at nodes (sorted_list_of_set (free_ids nodes D)) = Inr ms"
    "map node_id ms = sorted_list_of_set (free_ids nodes D)" "set ms = {n \<in> set nodes. node_id n \<in> free_ids nodes D}"
    using nodes_at_ok [OF assms(1), of "sorted_list_of_set (free_ids nodes D)"] free_ids_in [of nodes D] finite_free_ids
    by auto
  have "map (the \<circ> by_id nodes) (map node_id ms) = ms"
    unfolding map_map
  proof (rule map_idI)
    fix n assume "n \<in> set ms"
    then have "by_id nodes (node_id n) = Some n" using ms(3) by_id_iff [OF assms(1)] by simp
    then show "(the \<circ> by_id nodes \<circ> node_id) n = n" by simp
  qed
  then have "ns = ms" using assms(2) ms(2) by simp
  with ms show "map node_id ns = sorted_list_of_set (free_ids nodes D)"
    "set ns = {n \<in> set nodes. node_id n \<in> free_ids nodes D}" by simp_all
  show "order_nodes nodes (left nodes D) acc =
     (if node_id ` set nodes \<subseteq> D then Inr acc
      else if free_ids nodes D = {} then Inl Graph_Cycle
      else order_nodes nodes (left nodes (D \<union> free_ids nodes D)) (acc @ ns))"
    unfolding order_nodes.simps [of nodes "left nodes D"]
    using ms(1) \<open>ns = ms\<close> finite_free_ids [of nodes D] by (simp add: ready_left [OF assms(1)] left_Nil without_left)
qed

lemma rounds_induct:
  assumes "\<And>D acc. (\<lbrakk>\<not> node_id ` set nodes \<subseteq> D; free_ids nodes D \<noteq> {}\<rbrakk> \<Longrightarrow> \<forall>acc. P (D \<union> free_ids nodes D) acc) \<Longrightarrow> P D acc"
  shows "P D acc"
proof (induction "card (node_id ` set nodes - D)" arbitrary: D acc rule: less_induct)
  case less
  show ?case
  proof (rule assms)
    assume "free_ids nodes D \<noteq> {}"
    then have "node_id ` set nodes - (D \<union> free_ids nodes D) \<subset> node_id ` set nodes - D" by (auto simp: free_ids_def)
    then have "card (node_id ` set nodes - (D \<union> free_ids nodes D)) < card (node_id ` set nodes - D)"
      by (intro psubset_card_mono) auto
    then show "\<forall>acc. P (D \<union> free_ids nodes D) acc" using less by blast
  qed
qed

section \<open>The order\<close>

fun runs_in_order :: "string set \<Rightarrow> verifier_node list \<Rightarrow> bool" where
  "runs_in_order D [] \<longleftrightarrow> True"
| "runs_in_order D (n # ns) \<longleftrightarrow> set (depends_on n) \<subseteq> D \<and> runs_in_order (insert (node_id n) D) ns"

lemma runs_in_order_append:
  "runs_in_order D (xs @ ys) \<longleftrightarrow> runs_in_order D xs \<and> runs_in_order (D \<union> node_id ` set xs) ys"
  by (induction xs arbitrary: D) auto

lemma runs_in_order_layer: "\<forall>n \<in> set ns. set (depends_on n) \<subseteq> D \<Longrightarrow> runs_in_order D ns"
  by (induction ns arbitrary: D) (simp_all add: subset_insertI2)

lemma runs_in_order_nth:
  "runs_in_order D ns \<Longrightarrow> i < length ns \<Longrightarrow> set (depends_on (ns ! i)) \<subseteq> D \<union> node_id ` set (take i ns)"
proof (induction ns arbitrary: D i)
  case (Cons n ns)
  then show ?case by (cases i) fastforce+
qed simp

lemma order_sound:
  assumes "distinct (map node_id nodes)"
  shows "order_nodes nodes (left nodes D) acc = Inr ns \<Longrightarrow>
    \<exists>ms. ns = acc @ ms \<and> set ms = {n \<in> set nodes. node_id n \<notin> D} \<and> distinct (map node_id ms) \<and> runs_in_order D ms"
proof (induction D acc rule: rounds_induct [of nodes])
  case (1 D acc)
  define new where "new = map (the \<circ> by_id nodes) (sorted_list_of_set (free_ids nodes D))"
  note r = order_round [OF assms new_def]
  show ?case
  proof (cases "node_id ` set nodes \<subseteq> D")
    case True
    with 1 r show ?thesis by auto
  next
    case False
    then have nz: "free_ids nodes D \<noteq> {}"
      and step: "order_nodes nodes (left nodes (D \<union> free_ids nodes D)) (acc @ new) = Inr ns"
      using 1(2) r(1) by (auto split: if_splits)
    obtain ms where ms: "ns = (acc @ new) @ ms" "set ms = {n \<in> set nodes. node_id n \<notin> D \<union> free_ids nodes D}"
      "distinct (map node_id ms)" "runs_in_order (D \<union> free_ids nodes D) ms"
      using 1(1) [OF False nz] step by blast
    have "set (map node_id new) = free_ids nodes D" "distinct (map node_id new)"
      using r(2) finite_free_ids [of nodes D] by simp_all
    moreover have "runs_in_order D new"
      by (rule runs_in_order_layer) (use r(3) free_deps [OF assms] in blast)
    ultimately have "distinct (map node_id (new @ ms))" "runs_in_order D (new @ ms)"
      using ms by (auto simp: runs_in_order_append)
    moreover have "set (new @ ms) = {n \<in> set nodes. node_id n \<notin> D}"
      using r(3) ms(2) by (auto simp: free_ids_def)
    ultimately show ?thesis using ms(1) by auto
  qed
qed

lemma topological_sound:
  assumes "topological_nodes nodes = Inr ns"
  shows "set ns = set nodes" "distinct (map node_id ns)" "mset ns = mset nodes" "runs_in_order {} ns" "well_linked ns" "ns \<noteq> []"
proof -
  have t: "nodes \<noteq> []" "well_linked nodes" "order_nodes nodes (left nodes {}) [] = Inr ns"
    using assms by (simp_all add: topological_nodes_unfold left_start)
  then show s: "set ns = set nodes" "distinct (map node_id ns)" "runs_in_order {} ns"
    using order_sound [of nodes "{}" "[]"] by (auto simp: well_linked_def)
  then show "mset ns = mset nodes"
    using t(2) by (metis distinct_map set_eq_iff_mset_eq_distinct well_linked_def)
  show "well_linked ns" using s t(2) waits_for_set [of ns nodes] by (simp add: well_linked_def)
  show "ns \<noteq> []" using s(1) t(1) by auto
qed

text \<open>Position in the order: a dependency stands strictly before its node.\<close>

definition place :: "verifier_node list \<Rightarrow> string \<Rightarrow> nat" where
  "place ns k = length (takeWhile (\<lambda>n. node_id n \<noteq> k) ns)"

lemma place_Cons: "place (n # ns) k = (if node_id n = k then 0 else Suc (place ns k))"
  by (simp add: place_def)

lemma place_nth: "k \<in> node_id ` set ns \<Longrightarrow> place ns k < length ns \<and> node_id (ns ! place ns k) = k"
  by (induction ns) (auto simp: place_Cons)

lemma dependency_before:
  "\<lbrakk>runs_in_order D ns; distinct (map node_id ns); D \<inter> node_id ` set ns = {}; n \<in> set ns; d \<in> set (depends_on n); d \<notin> D\<rbrakk>
    \<Longrightarrow> place ns d < place ns (node_id n)"
proof (induction ns arbitrary: D)
  case (Cons m ns)
  show ?case
  proof (cases "n = m")
    case True
    with Cons.prems show ?thesis by auto
  next
    case False
    then have n: "n \<in> set ns" "node_id n \<noteq> node_id m" using Cons.prems by (auto simp: image_iff)
    show ?thesis
    proof (cases "d = node_id m")
      case False
      have "place ns d < place ns (node_id n)"
        by (rule Cons.IH [of "insert (node_id m) D"]) (use Cons.prems n False in auto)
      with n False show ?thesis by (simp add: place_Cons)
    qed (use n in \<open>simp add: place_Cons\<close>)
  qed
qed simp

lemma waits_before:
  assumes "topological_nodes nodes = Inr ns" "(k, d) \<in> waits_for nodes"
  shows "place ns d < place ns k"
proof -
  have s: "set ns = set nodes" "distinct (map node_id ns)" "runs_in_order {} ns" using topological_sound [OF assms(1)] by simp_all
  from assms(2) obtain n where "n \<in> set nodes" "node_id n = k" "d \<in> set (depends_on n)" by (auto simp: waits_for_iff)
  with s dependency_before [of "{}" ns n d] show ?thesis by simp
qed

lemma waits_before_trancl:
  assumes "topological_nodes nodes = Inr ns" "(k, d) \<in> (waits_for nodes)\<^sup>+"
  shows "place ns d < place ns k"
  using assms(2)
proof (induction rule: trancl_induct)
  case (base y)
  then show ?case using waits_before [OF assms(1)] by blast
next
  case (step y z)
  then show ?case using waits_before [OF assms(1), of y z] by simp
qed

section \<open>When an order exists\<close>

lemma order_total:
  assumes "distinct (map node_id nodes)" "Range (waits_for nodes) \<subseteq> node_id ` set nodes" "acyclic (waits_for nodes)"
  shows "\<exists>ns. order_nodes nodes (left nodes D) acc = Inr ns"
proof (induction D acc rule: rounds_induct [of nodes])
  case (1 D acc)
  note r = order_round [OF assms(1) refl]
  show ?case
  proof (cases "node_id ` set nodes \<subseteq> D")
    case True
    then show ?thesis by (simp add: r(1))
  next
    case False
    have "wf ((waits_for nodes)\<inverse>)"
      using assms(3) by (intro finite_acyclic_wf) (simp_all add: finite_waits_for)
    then obtain k where k: "k \<in> node_id ` set nodes - D" "\<And>d. (k, d) \<in> waits_for nodes \<Longrightarrow> d \<notin> node_id ` set nodes - D"
      using False wfE_min [of "(waits_for nodes)\<inverse>" _ "node_id ` set nodes - D"] by (metis Diff_eq_empty_iff converse.intros ex_in_conv)
    then have "k \<in> free_ids nodes D" using assms(2) by (auto simp: free_ids_def)
    then have nz: "free_ids nodes D \<noteq> {}" by auto
    show ?thesis using r(1) [of D acc] 1 [OF False nz] False nz by auto
  qed
qed

lemma topological_iff:
  "(\<exists>ns. topological_nodes nodes = Inr ns) \<longleftrightarrow> nodes \<noteq> [] \<and> well_linked nodes \<and> acyclic (waits_for nodes)"
proof
  assume "\<exists>ns. topological_nodes nodes = Inr ns"
  then obtain ns where t: "topological_nodes nodes = Inr ns" ..
  have "acyclic (waits_for nodes)" using waits_before_trancl [OF t] by (auto simp: acyclic_def)
  with t show "nodes \<noteq> [] \<and> well_linked nodes \<and> acyclic (waits_for nodes)" by (simp add: topological_nodes_unfold)
next
  assume "nodes \<noteq> [] \<and> well_linked nodes \<and> acyclic (waits_for nodes)"
  with order_total [of nodes "{}" "[]"] show "\<exists>ns. topological_nodes nodes = Inr ns"
    by (auto simp: topological_nodes_unfold left_start well_linked_def)
qed

section \<open>The order does not depend on how the nodes are given\<close>

lemma order_permuted:
  assumes "distinct (map node_id nodes)" "distinct (map node_id nodes')" "set nodes = set nodes'"
  shows "order_nodes nodes (left nodes D) acc = order_nodes nodes' (left nodes' D) acc"
proof (induction D acc rule: rounds_induct [of nodes])
  case (1 D acc)
  have free: "free_ids nodes' D = free_ids nodes D" using assms(3) waits_for_set [of nodes nodes'] by (simp add: free_ids_def)
  have "by_id nodes k = by_id nodes' k" for k
    using by_id_iff [OF assms(1), of k] by_id_iff [OF assms(2), of k] assms(3) by (metis option.exhaust)
  then have at: "by_id nodes = by_id nodes'" by blast
  note r = order_round(1) [OF assms(1) refl, of D acc] order_round(1) [OF assms(2) refl, of D acc, unfolded free assms(3) [symmetric] at [symmetric]]
  show ?case
  proof (cases "node_id ` set nodes \<subseteq> D \<or> free_ids nodes D = {}")
    case True
    then show ?thesis using r by auto
  next
    case False
    then show ?thesis using 1 r by auto
  qed
qed

lemma topological_permuted:
  assumes "mset nodes = mset nodes'"
  shows "topological_nodes nodes = Inr ns \<longleftrightarrow> topological_nodes nodes' = Inr ns"
proof -
  have s: "set nodes = set nodes'" using assms by (rule mset_eq_setD)
  have "mset (map node_id nodes) = mset (map node_id nodes')" using assms by simp
  then have d: "distinct (map node_id nodes) \<longleftrightarrow> distinct (map node_id nodes')" by (rule mset_eq_imp_distinct_iff)
  have w: "well_linked nodes \<longleftrightarrow> well_linked nodes'" using s d waits_for_set [OF s] by (simp add: well_linked_def)
  have e: "nodes = [] \<longleftrightarrow> nodes' = []" using s by (metis set_empty)
  show ?thesis
  proof (cases "well_linked nodes")
    case True
    then have "order_nodes nodes (left nodes {}) [] = order_nodes nodes' (left nodes' {}) []"
      using w s by (intro order_permuted) (simp_all add: well_linked_def)
    with w e show ?thesis by (simp add: topological_nodes_unfold left_start)
  next
    case False
    with w show ?thesis by (simp add: topological_nodes_unfold)
  qed
qed

lemma topological_again: "topological_nodes nodes = Inr ns \<Longrightarrow> topological_nodes ns = Inr ns"
  using topological_permuted topological_sound(3) by blast

lemma create_graph_Inr:
  "create_graph sha ns d = Inr g \<longleftrightarrow> topological_nodes ns = Inr ns \<and> d = nodes_digest sha ns \<and> g = \<lparr>graph_nodes = ns, graph_digest = d\<rparr>"
  by (auto simp: create_graph_def result_simps topological_nodes_unfold split: if_splits)

lemma build_graph_Inr:
  "build_graph sha nodes = Inr g \<longleftrightarrow>
     (\<exists>ns. topological_nodes nodes = Inr ns \<and> g = \<lparr>graph_nodes = ns, graph_digest = nodes_digest sha ns\<rparr>)"
  using topological_again by (auto simp: build_graph_def result_simps create_graph_Inr)

section \<open>The search for a dependency\<close>

lemma search_total:
  assumes "distinct (map node_id nodes)" "Range (waits_for nodes) \<subseteq> node_id ` set nodes" "set pending \<subseteq> node_id ` set nodes"
  shows "\<exists>b. search_dependency nodes a pending seen = Inr b"
  using assms
proof (induction nodes a pending seen rule: search_dependency.induct)
  case (2 nodes a current pending seen)
  obtain n where n: "by_id nodes current = Some n" "n \<in> set nodes" "node_id n = current"
    using node_of_id [OF 2(3)] 2(5) by auto
  then have "set (depends_on n) \<subseteq> node_id ` set nodes" using 2(4) by (simp add: Range_waits_for)
  with 2 n(1) show ?case by auto
qed (auto intro: exI [of _ False])

lemma search_True:
  assumes "distinct (map node_id nodes)"
  shows "search_dependency nodes a pending seen = Inr True \<Longrightarrow> \<exists>p \<in> set pending. (p, a) \<in> (waits_for nodes)\<^sup>*"
proof (induction nodes a pending seen rule: search_dependency.induct)
  case (2 nodes a current pending seen)
  show ?case
  proof (cases "current = a \<or> current \<in> set seen")
    case True
    with 2 show ?thesis by (auto split: if_splits)
  next
    case False
    with 2(3) obtain n where n: "by_id nodes current = Some n"
      "search_dependency nodes a (rev (depends_on n) @ pending) (current # seen) = Inr True"
      by (auto split: option.splits)
    then obtain p where p: "p \<in> set (depends_on n) \<union> set pending" "(p, a) \<in> (waits_for nodes)\<^sup>*"
      using 2(2) False by auto
    have "(current, p) \<in> waits_for nodes" if "p \<in> set (depends_on n)"
      using by_id_Some [OF n(1)] that by (auto simp: waits_for_iff)
    with p show ?thesis by (auto intro: converse_rtrancl_into_rtrancl)
  qed
qed simp

lemma search_False:
  assumes "search_dependency nodes a pending seen = Inr False" "distinct (map node_id nodes)"
    "a \<notin> set seen" "waits_for nodes `` set seen \<subseteq> set seen \<union> set pending"
  shows "\<exists>S. set seen \<union> set pending \<subseteq> S \<and> waits_for nodes `` S \<subseteq> S \<and> a \<notin> S"
  using assms
proof (induction nodes a pending seen rule: search_dependency.induct)
  case (1 nodes a seen)
  then show ?case by auto
next
  case (2 nodes a current pending seen)
  show ?case
  proof (cases "current \<in> set seen")
    case True
    then have "current \<noteq> a" using 2(5) by auto
    with 2 True show ?thesis by (auto simp: insert_absorb)
  next
    case False
    with 2(3) obtain n where c: "current \<noteq> a" and n: "by_id nodes current = Some n"
      and s: "search_dependency nodes a (rev (depends_on n) @ pending) (current # seen) = Inr False"
      by (auto split: if_splits option.splits)
    have "waits_for nodes `` {current} = set (depends_on n)"
      using n by_id_iff [OF 2(4)] waits_of [OF 2(4)] by auto
    then have "waits_for nodes `` set (current # seen) \<subseteq> set (current # seen) \<union> set (rev (depends_on n) @ pending)"
      using 2(6) Image_Un [of "waits_for nodes" "{current}" "set seen"] by auto
    then obtain S where "set (current # seen) \<union> set (rev (depends_on n) @ pending) \<subseteq> S" "waits_for nodes `` S \<subseteq> S" "a \<notin> S"
      using 2(2) [OF c False n s 2(4)] c 2(5) by auto
    then show ?thesis by (intro exI [of _ S]) auto
  qed
qed

lemma depends_iff:
  assumes "well_linked nodes" "k \<in> node_id ` set nodes"
  shows "node_depends_on nodes k a = Inr ((k, a) \<in> (waits_for nodes)\<^sup>+)"
proof -
  have d: "distinct (map node_id nodes)" and c: "Range (waits_for nodes) \<subseteq> node_id ` set nodes"
    using assms(1) by (simp_all add: well_linked_def)
  obtain n where n: "by_id nodes k = Some n" using node_of_id [OF d assms(2)] by blast
  have w: "waits_for nodes `` {k} = set (depends_on n)"
    using n by_id_iff [OF d] waits_of [OF d] by auto
  have "set (rev (depends_on n)) \<subseteq> node_id ` set nodes" using w c by auto
  then obtain b where b: "search_dependency nodes a (rev (depends_on n)) [] = Inr b"
    using search_total [OF d c] by blast
  have "b \<longleftrightarrow> (k, a) \<in> (waits_for nodes)\<^sup>+"
  proof
    assume b
    then obtain p where "p \<in> set (depends_on n)" "(p, a) \<in> (waits_for nodes)\<^sup>*"
      using search_True [OF d, of a "rev (depends_on n)" "[]"] b by auto
    with w show "(k, a) \<in> (waits_for nodes)\<^sup>+" by (metis Image_singleton_iff rtrancl_into_trancl2)
  next
    assume "(k, a) \<in> (waits_for nodes)\<^sup>+"
    then obtain p where p: "p \<in> set (depends_on n)" "(p, a) \<in> (waits_for nodes)\<^sup>*"
      using w by (metis Image_singleton_iff tranclD)
    show b
    proof (rule ccontr)
      assume "\<not> b"
      then obtain S where S: "set (depends_on n) \<subseteq> S" "waits_for nodes `` S \<subseteq> S" "a \<notin> S"
        using search_False [of nodes a "rev (depends_on n)" "[]"] b d by auto
      have "a \<in> S" using p(2)
        by (induction rule: rtrancl_induct) (use S p(1) in auto)
      with S show False by simp
    qed
  qed
  with n b show ?thesis by (simp add: node_depends_on_def node_at_def)
qed

section \<open>Compositions\<close>

definition runs_at :: "verifier_graph \<Rightarrow> string \<Rightarrow> nat \<Rightarrow> bool" where
  "runs_at g k i \<longleftrightarrow> i < length (graph_nodes g) \<and> node_id (graph_nodes g ! i) = k \<and> required_node (graph_nodes g ! i)"

definition required_in :: "verifier_node list \<Rightarrow> string \<Rightarrow> bool" where
  "required_in nodes k \<longleftrightarrow> (\<exists>n. by_id nodes k = Some n \<and> required_node n)"

lemma required_place:
  assumes "well_linked (graph_nodes g)" "required_in (graph_nodes g) k"
  shows "runs_at g k (place (graph_nodes g) k)"
proof -
  have d: "distinct (map node_id (graph_nodes g))" using assms(1) by (simp add: well_linked_def)
  obtain n where n: "n \<in> set (graph_nodes g)" "node_id n = k" "required_node n"
    using assms(2) by_id_Some by (auto simp: required_in_def)
  have p: "place (graph_nodes g) k < length (graph_nodes g)" "node_id (graph_nodes g ! place (graph_nodes g) k) = k"
    using place_nth [of k "graph_nodes g"] n by auto
  then have "graph_nodes g ! place (graph_nodes g) k = n"
    using one_node [OF d nth_mem n(1)] n(2) by simp
  with p n(3) show ?thesis by (simp add: runs_at_def)
qed

lemma require_verifiers_Inr: "require_verifiers nodes ls = Inr u \<longleftrightarrow> (\<forall>l \<in> set ls. required_in nodes (snd l))"
proof (induction ls)
  case (Cons l ls)
  then show ?case by (cases l) (auto simp: required_in_def split: option.splits)
qed simp

lemma composition_parts:
  assumes "well_linked (graph_nodes g)" "create_composition ind g c v d = Inr x"
  shows "required_in (graph_nodes g) c" "required_in (graph_nodes g) v" "required_in (graph_nodes g) d"
    "(v, c) \<in> (waits_for (graph_nodes g))\<^sup>+" "(d, c) \<in> (waits_for (graph_nodes g))\<^sup>+"
proof -
  have "require_verifiers (graph_nodes g) [(''compiler'', c), (''vector'', v), (''diff'', d)] = Inr ()"
    and dep: "node_depends_on (graph_nodes g) v c = Inr True" "node_depends_on (graph_nodes g) d c = Inr True"
    using assms(2) by (auto simp: create_composition_def result_simps split: if_splits)
  then show r: "required_in (graph_nodes g) c" "required_in (graph_nodes g) v" "required_in (graph_nodes g) d"
    unfolding require_verifiers_Inr by simp_all
  have "v \<in> node_id ` set (graph_nodes g)" "d \<in> node_id ` set (graph_nodes g)"
    using r by_id_Some by (fastforce simp: required_in_def)+
  with dep show "(v, c) \<in> (waits_for (graph_nodes g))\<^sup>+" "(d, c) \<in> (waits_for (graph_nodes g))\<^sup>+"
    by (simp_all add: depends_iff [OF assms(1)])
qed

section \<open>Properties\<close>

text \<open>C29. The order of a graph lists every given node exactly once, and every node stands after all the
  nodes it depends on: a verifier runs only when its inputs have been verified.\<close>

theorem topological_order:
  assumes "topological_nodes nodes = Inr ns"
  shows "mset ns = mset nodes \<and> (\<forall>i < length ns. set (depends_on (ns ! i)) \<subseteq> node_id ` set (take i ns))"
  using topological_sound(3,4) [OF assms] runs_in_order_nth [of "{}" ns] by simp

text \<open>C30. The loop always ends, and it ends with an order, rather than with one of the errors of the
  code, exactly when the graph is not empty, no identifier is given twice, every dependency is a node of
  the graph, and no node depends on itself through others.\<close>

theorem topological_nodes_accepts_iff:
  "accepted (topological_nodes nodes) \<longleftrightarrow>
     nodes \<noteq> [] \<and> distinct (map node_id nodes) \<and> Range (waits_for nodes) \<subseteq> node_id ` set nodes \<and>
     acyclic (waits_for nodes)"
  unfolding accepted_iff topological_iff by (simp add: well_linked_def)

text \<open>C31. A graph is canonical: it does not depend on the order in which its nodes are given, and the
  constructor accepts what \<open>build\<close> returns, with nothing else of the same nodes.\<close>

theorem graph_is_canonical:
  assumes "build_graph sha nodes = Inr g" "mset nodes' = mset nodes"
  shows "build_graph sha nodes' = Inr g \<and> create_graph sha (graph_nodes g) (graph_digest g) = Inr g \<and>
    (accepted (create_graph sha nodes' d) \<longleftrightarrow> nodes' = graph_nodes g \<and> d = graph_digest g)"
proof -
  obtain ns where ns: "topological_nodes nodes = Inr ns" "g = \<lparr>graph_nodes = ns, graph_digest = nodes_digest sha ns\<rparr>"
    using assms(1) by (auto simp: build_graph_Inr)
  have ns': "topological_nodes nodes' = Inr ns" using ns(1) topological_permuted [OF assms(2)] by blast
  have "build_graph sha nodes' = Inr g" using ns(2) ns' by (simp add: build_graph_Inr)
  moreover have "create_graph sha (graph_nodes g) (graph_digest g) = Inr g"
    using topological_again [OF ns(1)] ns(2) by (simp add: create_graph_Inr)
  moreover have "accepted (create_graph sha nodes' d) \<longleftrightarrow> nodes' = graph_nodes g \<and> d = graph_digest g"
    using ns(2) ns' by (auto simp: accepted_iff create_graph_Inr)
  ultimately show ?thesis by blast
qed

text \<open>C32. In a graph, the depth-first search of \<open>_depends_on\<close> ends for every node of the graph without a
  failed lookup, and answers whether the node depends, directly or through others, on the given one.\<close>

theorem dependency_search_decides:
  assumes "create_graph sha nodes d = Inr g" "k \<in> node_id ` set nodes"
  shows "node_depends_on nodes k ancestor = Inr ((k, ancestor) \<in> (waits_for nodes)\<^sup>+)"
proof -
  have "well_linked nodes" using assms(1) topological_sound(5) by (auto simp: create_graph_Inr)
  then show ?thesis using assms(2) by (rule depends_iff)
qed

text \<open>C33. In an accepted composition the compiler, the vector and the diff verifier are required nodes of
  the integration graph, and in the order of that graph the compiler runs before the other two.\<close>

theorem composition_runs_compiler_first:
  assumes "create_graph sha nodes digest = Inr g" "create_composition ind g c v d = Inr x"
  shows "\<exists>i j k. runs_at g c i \<and> runs_at g v j \<and> runs_at g d k \<and> i < j \<and> i < k"
proof -
  have t: "topological_nodes (graph_nodes g) = Inr (graph_nodes g)" "well_linked (graph_nodes g)"
    using assms(1) topological_sound(5) by (auto simp: create_graph_Inr)
  note r = composition_parts [OF t(2) assms(2)]
  have "place (graph_nodes g) c < place (graph_nodes g) v" "place (graph_nodes g) c < place (graph_nodes g) d"
    using r(4,5) waits_before_trancl [OF t(1)] by blast+
  with r(1-3) required_place [OF t(2)] show ?thesis by blast
qed

section \<open>An example\<close>

definition check_node :: "string \<Rightarrow> string list \<Rightarrow> verifier_node" where
  "check_node k deps =
     \<lparr>node_id = k, tool = ''t'', tool_version = ''1'', input_digests = [replicate 64 CHR ''0''], depends_on = deps,
      config_digest = None, required_node = True\<rparr>"

definition checks :: "verifier_node list" where
  "checks = [check_node ''d'' [''c''], check_node ''c'' [], check_node ''v'' [''c'']]"

definition ordered_checks :: "verifier_node list" where
  "ordered_checks = [check_node ''c'' [], check_node ''d'' [''c''], check_node ''v'' [''c'']]"

lemma checks_ordered: "topological_nodes checks = Inr ordered_checks"
  by code_simp

lemma checks_graph:
  "build_graph (\<lambda>s. s) checks = Inr \<lparr>graph_nodes = ordered_checks, graph_digest = nodes_digest (\<lambda>s. s) ordered_checks\<rparr>"
  "create_graph (\<lambda>s. s) ordered_checks (nodes_digest (\<lambda>s. s) ordered_checks)
     = Inr \<lparr>graph_nodes = ordered_checks, graph_digest = nodes_digest (\<lambda>s. s) ordered_checks\<rparr>"
  using checks_ordered topological_again [OF checks_ordered] by (simp_all add: build_graph_Inr create_graph_Inr)

theorem topological_order_witness: "mset ordered_checks = mset checks"
  using topological_order [OF checks_ordered] by simp

theorem graph_is_canonical_witness: "\<exists>g. build_graph (\<lambda>s. s) (rev checks) = Inr g \<and> graph_nodes g = ordered_checks"
  using graph_is_canonical [OF checks_graph(1), of "rev checks"] by simp

theorem dependency_search_decides_witness:
  "node_depends_on ordered_checks ''v'' ''c'' = Inr ((''v'', ''c'') \<in> (waits_for ordered_checks)\<^sup>+)"
  by (rule dependency_search_decides [OF checks_graph(2)]) (simp add: ordered_checks_def check_node_def)

lemma checks_composition:
  "accepted (create_composition g \<lparr>graph_nodes = ordered_checks, graph_digest = x\<rparr> ''c'' ''v'' ''d'')"
  by code_simp

theorem composition_runs_compiler_first_witness:
  "\<exists>g i j. graph_nodes g = ordered_checks \<and> runs_at g ''c'' i \<and> runs_at g ''v'' j \<and> i < j"
  using composition_runs_compiler_first [OF checks_graph(2)] checks_composition
  by (metis accepted_iff verifier_graph.select_convs(1))

end
