(* ===== verification/SemanticContracts.thy ===== *)
theory SemanticContracts
  imports AgentContracts
begin

text \<open>
  \<open>src/src/macr_runtime/semantic/contracts.py\<close>: the records of a semantic graph. A node states a goal, a
  claim, a plan and so on, a relation links two nodes, a patch adds nodes and relations to a graph and
  replaces nodes by later versions. Every record has a digest, which its constructor computes; here it is a
  function of the record. A frozen JSON object is the object.
\<close>

section \<open>Enumerations\<close>

datatype node_type =
    Goal | Trigger | Observation | Claim | Hypothesis | Plan | Task | Action_Proposal | Constraint | Decision
  | Receipt | Verification | Checkpoint | Failure | Wake_Condition | Ambiguity | Obligation

fun node_type_value :: "node_type \<Rightarrow> string" where
  "node_type_value Goal = ''goal''"
| "node_type_value Trigger = ''trigger''"
| "node_type_value Observation = ''observation''"
| "node_type_value Claim = ''claim''"
| "node_type_value Hypothesis = ''hypothesis''"
| "node_type_value Plan = ''plan''"
| "node_type_value Task = ''task''"
| "node_type_value Action_Proposal = ''action_proposal''"
| "node_type_value Constraint = ''constraint''"
| "node_type_value Decision = ''decision''"
| "node_type_value Receipt = ''receipt''"
| "node_type_value Verification = ''verification''"
| "node_type_value Checkpoint = ''checkpoint''"
| "node_type_value Failure = ''failure''"
| "node_type_value Wake_Condition = ''wake_condition''"
| "node_type_value Ambiguity = ''ambiguity''"
| "node_type_value Obligation = ''obligation''"

definition node_types :: "node_type list" where
  "node_types = [Goal, Trigger, Observation, Claim, Hypothesis, Plan, Task, Action_Proposal, Constraint, Decision,
     Receipt, Verification, Checkpoint, Failure, Wake_Condition, Ambiguity, Obligation]"

datatype lifecycle_status = Life_Proposed | Life_Active | Life_Stale | Life_Superseded | Life_Completed | Life_Failed

fun lifecycle_value :: "lifecycle_status \<Rightarrow> string" where
  "lifecycle_value Life_Proposed = ''proposed''"
| "lifecycle_value Life_Active = ''active''"
| "lifecycle_value Life_Stale = ''stale''"
| "lifecycle_value Life_Superseded = ''superseded''"
| "lifecycle_value Life_Completed = ''completed''"
| "lifecycle_value Life_Failed = ''failed''"

definition lifecycle_statuses :: "lifecycle_status list" where
  "lifecycle_statuses = [Life_Proposed, Life_Active, Life_Stale, Life_Superseded, Life_Completed, Life_Failed]"

datatype claim_status =
    Claim_Proposed | Claim_Active | Claim_Supported | Claim_Contested | Claim_Verified | Claim_Refuted | Claim_Stale
  | Claim_Superseded | Claim_Unresolved

fun claim_value :: "claim_status \<Rightarrow> string" where
  "claim_value Claim_Proposed = ''proposed''"
| "claim_value Claim_Active = ''active''"
| "claim_value Claim_Supported = ''supported''"
| "claim_value Claim_Contested = ''contested''"
| "claim_value Claim_Verified = ''verified''"
| "claim_value Claim_Refuted = ''refuted''"
| "claim_value Claim_Stale = ''stale''"
| "claim_value Claim_Superseded = ''superseded''"
| "claim_value Claim_Unresolved = ''unresolved''"

definition claim_statuses :: "claim_status list" where
  "claim_statuses = [Claim_Proposed, Claim_Active, Claim_Supported, Claim_Contested, Claim_Verified, Claim_Refuted,
     Claim_Stale, Claim_Superseded, Claim_Unresolved]"

datatype resolution_status = Unresolved | Resolved

fun resolution_value :: "resolution_status \<Rightarrow> string" where
  "resolution_value Unresolved = ''unresolved''"
| "resolution_value Resolved = ''resolved''"

definition resolution_statuses :: "resolution_status list" where
  "resolution_statuses = [Unresolved, Resolved]"

datatype relation_type =
    Supports | Contradicts | Depends_On | Derived_From | Observes | Describes | Constrains | Motivates | Targets | Affects
  | Expects | Produced | Verifies | Refutes | Supersedes | Revises | Blocks | Resolves | Causes | Precedes | Follows | Waits_For

fun relation_value :: "relation_type \<Rightarrow> string" where
  "relation_value Supports = ''supports''"
| "relation_value Contradicts = ''contradicts''"
| "relation_value Depends_On = ''depends_on''"
| "relation_value Derived_From = ''derived_from''"
| "relation_value Observes = ''observes''"
| "relation_value Describes = ''describes''"
| "relation_value Constrains = ''constrains''"
| "relation_value Motivates = ''motivates''"
| "relation_value Targets = ''targets''"
| "relation_value Affects = ''affects''"
| "relation_value Expects = ''expects''"
| "relation_value Produced = ''produced''"
| "relation_value Verifies = ''verifies''"
| "relation_value Refutes = ''refutes''"
| "relation_value Supersedes = ''supersedes''"
| "relation_value Revises = ''revises''"
| "relation_value Blocks = ''blocks''"
| "relation_value Resolves = ''resolves''"
| "relation_value Causes = ''causes''"
| "relation_value Precedes = ''precedes''"
| "relation_value Follows = ''follows''"
| "relation_value Waits_For = ''waits_for''"

definition relation_types :: "relation_type list" where
  "relation_types = [Supports, Contradicts, Depends_On, Derived_From, Observes, Describes, Constrains, Motivates, Targets,
     Affects, Expects, Produced, Verifies, Refutes, Supersedes, Revises, Blocks, Resolves, Causes, Precedes, Follows, Waits_For]"

datatype semantic_event_type = Proposal | Status_Change | Correction | Resolution | Patch_Proposal

fun semantic_event_value :: "semantic_event_type \<Rightarrow> string" where
  "semantic_event_value Proposal = ''proposal''"
| "semantic_event_value Status_Change = ''status_change''"
| "semantic_event_value Correction = ''correction''"
| "semantic_event_value Resolution = ''resolution''"
| "semantic_event_value Patch_Proposal = ''patch_proposal''"

definition semantic_event_types :: "semantic_event_type list" where
  "semantic_event_types = [Proposal, Status_Change, Correction, Resolution, Patch_Proposal]"

datatype external_kind = Reference_Kind | Projection_Kind | Derived_Kind | Transformation_Kind

fun external_kind_value :: "external_kind \<Rightarrow> string" where
  "external_kind_value Reference_Kind = ''reference''"
| "external_kind_value Projection_Kind = ''projection''"
| "external_kind_value Derived_Kind = ''derived''"
| "external_kind_value Transformation_Kind = ''transformation''"

definition external_kinds :: "external_kind list" where
  "external_kinds = [Reference_Kind, Projection_Kind, Derived_Kind, Transformation_Kind]"

datatype artifact_role =
  Canonical_Source | Canonical_Derived | Derived_Rebuildable | Projection_Role | Cache_Index | Legacy_Compatibility

fun artifact_role_value :: "artifact_role \<Rightarrow> string" where
  "artifact_role_value Canonical_Source = ''canonical_source''"
| "artifact_role_value Canonical_Derived = ''canonical_derived''"
| "artifact_role_value Derived_Rebuildable = ''derived_rebuildable''"
| "artifact_role_value Projection_Role = ''projection''"
| "artifact_role_value Cache_Index = ''cache_index''"
| "artifact_role_value Legacy_Compatibility = ''legacy_compatibility''"

definition artifact_roles :: "artifact_role list" where
  "artifact_roles = [Canonical_Source, Canonical_Derived, Derived_Rebuildable, Projection_Role, Cache_Index, Legacy_Compatibility]"

text \<open>The value of an enumeration from its text, as \<open>Enum(value)\<close>.\<close>

definition enum_of :: "('a \<Rightarrow> string) \<Rightarrow> 'a list \<Rightarrow> json \<Rightarrow> 'a result" where
  "enum_of val xs v = (case find (\<lambda>x. v = JStr (val x)) xs of None \<Rightarrow> Inl (ValueError Bad_Choice) | Some x \<Rightarrow> Inr x)"

section \<open>Statuses\<close>

datatype semantic_status = Lifecycle lifecycle_status | Claim_Status claim_status | Resolution_Status resolution_status

fun status_value :: "semantic_status \<Rightarrow> string" where
  "status_value (Lifecycle s) = lifecycle_value s"
| "status_value (Claim_Status s) = claim_value s"
| "status_value (Resolution_Status s) = resolution_value s"

fun status_fits :: "node_type \<Rightarrow> semantic_status \<Rightarrow> bool" where
  "status_fits t (Claim_Status s) \<longleftrightarrow> t = Claim \<or> t = Hypothesis"
| "status_fits t (Resolution_Status s) \<longleftrightarrow> t = Ambiguity \<or> t = Obligation"
| "status_fits t (Lifecycle s) \<longleftrightarrow> \<not> (t = Claim \<or> t = Hypothesis \<or> t = Ambiguity \<or> t = Obligation)"

definition status_from_text :: "node_type \<Rightarrow> json \<Rightarrow> semantic_status result" where
  "status_from_text t v =
     (case v of
        JStr _ \<Rightarrow>
          if t = Claim \<or> t = Hypothesis then ebind (enum_of claim_value claim_statuses v) (\<lambda>s. Inr (Claim_Status s))
          else if t = Ambiguity \<or> t = Obligation then ebind (enum_of resolution_value resolution_statuses v) (\<lambda>s. Inr (Resolution_Status s))
          else ebind (enum_of lifecycle_value lifecycle_statuses v) (\<lambda>s. Inr (Lifecycle s))
      | _ \<Rightarrow> Inl (ValueError Bad_Text))"

section \<open>Arrays and objects\<close>

text \<open>\<open>tuple(value)\<close> of a JSON value: a text is taken apart into its characters (a UTF-8 lead byte with
  its continuation bytes), an object into its keys.\<close>

definition continuation :: "char \<Rightarrow> bool" where
  "continuation c \<longleftrightarrow> 128 \<le> byte c \<and> byte c < 192"

function text_chars :: "string \<Rightarrow> string list" where
  "text_chars [] = []"
| "text_chars (c # cs) = (c # takeWhile continuation cs) # text_chars (dropWhile continuation cs)"
  by pat_completeness auto
termination by (relation "measure length") (auto simp: le_imp_less_Suc length_dropWhile_le)

definition tuple_of :: "json \<Rightarrow> json list result" where
  "tuple_of v =
     (case v of
        JList xs \<Rightarrow> Inr xs
      | JStr s \<Rightarrow> Inr (map JStr (text_chars s))
      | JObj kvs \<Rightarrow> Inr (map (JStr \<circ> fst) kvs)
      | _ \<Rightarrow> Inl TypeError)"

definition require_string_tuple :: "nat \<Rightarrow> json list \<Rightarrow> string list result" where
  "require_string_tuple maximum values =
     ebind (emap (require_non_empty 512) values) (\<lambda>normalized.
       if length normalized > maximum then Inl (ValueError Bad_Array)
       else if \<not> distinct normalized then Inl (ValueError Bad_Duplicates)
       else Inr (sort normalized))"

text \<open>The same check of a value of a document, which has to be an array.\<close>

definition require_string_array :: "nat \<Rightarrow> json \<Rightarrow> string list result" where
  "require_string_array maximum v = ebind (json_array v) (require_string_tuple maximum)"

definition require_json_object :: "json \<Rightarrow> json result" where
  "require_json_object v =
     (case v of JObj _ \<Rightarrow> ebind (validate_json v) (\<lambda>_. Inr v) | _ \<Rightarrow> Inl (ValueError Bad_Json))"

definition optional_value :: "(json \<Rightarrow> 'a result) \<Rightarrow> json \<Rightarrow> 'a option result" where
  "optional_value f v = (if v = JNull then Inr None else ebind (f v) (\<lambda>x. Inr (Some x)))"

definition jint :: "int option \<Rightarrow> json" where
  "jint v = (case v of None \<Rightarrow> JNull | Some n \<Rightarrow> JInt n)"

section \<open>Profiles and external bindings\<close>

record semantic_profile =
  sp_system_id :: string
  sp_profile_id :: string
  sp_profile_version :: string
  sp_registry_ref :: "string option"
  sp_registry_revision :: "int option"
  sp_registry_digest :: "string option"
  sp_decoder :: "string option"

definition profile_create :: "json \<Rightarrow> json \<Rightarrow> json \<Rightarrow> json \<Rightarrow> json \<Rightarrow> json \<Rightarrow> json \<Rightarrow> semantic_profile result" where
  "profile_create system profile version rref rrev rdigest decoder =
     ebind (require_non_empty 512 system) (\<lambda>system.
     ebind (require_non_empty 512 profile) (\<lambda>profile.
     ebind (require_non_empty 512 version) (\<lambda>version.
     ebind (require_optional_non_empty 512 rref) (\<lambda>rref.
     ebind (optional_value require_positive_int rrev) (\<lambda>rrev.
     ebind (optional_value require_sha256 rdigest) (\<lambda>rdigest.
       if (rref \<noteq> None \<or> rrev \<noteq> None \<or> rdigest \<noteq> None) \<and> \<not> (rref \<noteq> None \<and> rrev \<noteq> None \<and> rdigest \<noteq> None)
       then Inl (ValueError Bad_Fields)
       else ebind (require_optional_non_empty 512 decoder) (\<lambda>decoder.
         Inr \<lparr>sp_system_id = system, sp_profile_id = profile, sp_profile_version = version, sp_registry_ref = rref,
              sp_registry_revision = rrev, sp_registry_digest = rdigest, sp_decoder = decoder\<rparr>)))))))"

definition profile_identity :: "semantic_profile \<Rightarrow> (string \<times> json) list" where
  "profile_identity p =
     [(''system_id'', JStr (sp_system_id p)), (''profile_id'', JStr (sp_profile_id p)),
      (''profile_version'', JStr (sp_profile_version p)), (''registry_ref'', jstr (sp_registry_ref p)),
      (''registry_revision'', jint (sp_registry_revision p)), (''registry_digest'', jstr (sp_registry_digest p)),
      (''decoder_contract_ref'', jstr (sp_decoder p))]"

definition profile_digest :: "(string \<Rightarrow> string) \<Rightarrow> semantic_profile \<Rightarrow> string" where
  "profile_digest h p = canonical_record_digest h ''macr.semantic.profile-ref.v1'' (JObj (profile_identity p))"

definition profile_to_dict :: "(string \<Rightarrow> string) \<Rightarrow> semantic_profile \<Rightarrow> json" where
  "profile_to_dict h p = JObj (profile_identity p @ [(''binding_digest'', JStr (profile_digest h p))])"

definition profile_keys :: "string list" where
  "profile_keys = [''system_id'', ''profile_id'', ''profile_version'', ''registry_ref'', ''registry_revision'',
     ''registry_digest'', ''decoder_contract_ref'', ''binding_digest'']"

definition profile_from_dict :: "(string \<Rightarrow> string) \<Rightarrow> json \<Rightarrow> semantic_profile result" where
  "profile_from_dict h data =
     ebind (require_closed_mapping profile_keys data) (\<lambda>p.
     ebind (profile_create (jfield ''system_id'' p) (jfield ''profile_id'' p) (jfield ''profile_version'' p)
              (jfield ''registry_ref'' p) (jfield ''registry_revision'' p) (jfield ''registry_digest'' p)
              (jfield ''decoder_contract_ref'' p)) (\<lambda>r.
     ebind (require_same_digest (profile_digest h r) (jfield ''binding_digest'' p)) (\<lambda>_. Inr r)))"

record external_binding =
  eb_semantic_ref :: string
  eb_profile :: semantic_profile
  eb_object_ref :: string
  eb_object_digest :: string
  eb_kind :: external_kind
  eb_role :: artifact_role

definition external_create ::
    "json \<Rightarrow> semantic_profile \<Rightarrow> json \<Rightarrow> json \<Rightarrow> external_kind \<Rightarrow> artifact_role \<Rightarrow> external_binding result" where
  "external_create ref profile object digest kind role =
     ebind (require_non_empty 512 ref) (\<lambda>ref.
     ebind (require_non_empty 512 object) (\<lambda>object.
     ebind (require_sha256 digest) (\<lambda>digest.
       Inr \<lparr>eb_semantic_ref = ref, eb_profile = profile, eb_object_ref = object, eb_object_digest = digest,
            eb_kind = kind, eb_role = role\<rparr>)))"

definition external_digest :: "(string \<Rightarrow> string) \<Rightarrow> external_binding \<Rightarrow> string" where
  "external_digest h b = canonical_record_digest h ''macr.semantic.external-binding.v1''
     (JObj [(''semantic_ref'', JStr (eb_semantic_ref b)), (''profile_binding_digest'', JStr (profile_digest h (eb_profile b))),
        (''external_object_ref'', JStr (eb_object_ref b)), (''external_object_digest'', JStr (eb_object_digest b)),
        (''binding_kind'', JStr (external_kind_value (eb_kind b))), (''artifact_role'', JStr (artifact_role_value (eb_role b)))])"

definition external_members :: "(string \<Rightarrow> string) \<Rightarrow> external_binding \<Rightarrow> (string \<times> json) list" where
  "external_members h b =
     [(''semantic_ref'', JStr (eb_semantic_ref b)), (''profile'', profile_to_dict h (eb_profile b)),
      (''external_object_ref'', JStr (eb_object_ref b)), (''external_object_digest'', JStr (eb_object_digest b)),
      (''binding_kind'', JStr (external_kind_value (eb_kind b))), (''artifact_role'', JStr (artifact_role_value (eb_role b))),
      (''binding_digest'', JStr (external_digest h b))]"

definition external_to_dict :: "(string \<Rightarrow> string) \<Rightarrow> external_binding \<Rightarrow> json" where
  "external_to_dict h b = JObj (external_members h b)"

definition external_keys :: "string list" where
  "external_keys = [''semantic_ref'', ''profile'', ''external_object_ref'', ''external_object_digest'', ''binding_kind'',
     ''artifact_role'', ''binding_digest'']"

definition external_from_dict :: "(string \<Rightarrow> string) \<Rightarrow> json \<Rightarrow> external_binding result" where
  "external_from_dict h data =
     ebind (require_closed_mapping external_keys data) (\<lambda>p.
     ebind (profile_from_dict h (jfield ''profile'' p)) (\<lambda>profile.
     ebind (enum_of external_kind_value external_kinds (jfield ''binding_kind'' p)) (\<lambda>kind.
     ebind (enum_of artifact_role_value artifact_roles (jfield ''artifact_role'' p)) (\<lambda>role.
     ebind (external_create (jfield ''semantic_ref'' p) profile (jfield ''external_object_ref'' p)
              (jfield ''external_object_digest'' p) kind role) (\<lambda>b.
     ebind (require_same_digest (external_digest h b) (jfield ''binding_digest'' p)) (\<lambda>_. Inr b))))))"

section \<open>Provenance\<close>

record provenance =
  pv_origin_kind :: string
  pv_origin_ref :: string
  pv_source_refs :: "string list"
  pv_agent_run_id :: "string option"
  pv_created_by_ref :: string
  pv_created_at :: int

definition provenance_create :: "json \<Rightarrow> json \<Rightarrow> json list \<Rightarrow> json \<Rightarrow> json \<Rightarrow> json \<Rightarrow> provenance result" where
  "provenance_create kind ref sources run creator created =
     ebind (require_non_empty 512 kind) (\<lambda>kind.
     ebind (require_non_empty 512 ref) (\<lambda>ref.
     ebind (require_string_tuple 128 sources) (\<lambda>sources.
     ebind (optional_value require_uuid4 run) (\<lambda>run.
     ebind (require_non_empty 512 creator) (\<lambda>creator.
     ebind (normalize_timestamp created) (\<lambda>created.
       Inr \<lparr>pv_origin_kind = kind, pv_origin_ref = ref, pv_source_refs = sources, pv_agent_run_id = run,
            pv_created_by_ref = creator, pv_created_at = created\<rparr>))))))"

definition provenance_identity :: "provenance \<Rightarrow> (string \<times> json) list" where
  "provenance_identity p =
     [(''origin_kind'', JStr (pv_origin_kind p)), (''origin_ref'', JStr (pv_origin_ref p)),
      (''source_refs'', jstrs (pv_source_refs p)), (''agent_run_id'', jstr (pv_agent_run_id p)),
      (''created_by_ref'', JStr (pv_created_by_ref p)), (''created_at'', JStr (isoformat (pv_created_at p)))]"

definition provenance_digest :: "(string \<Rightarrow> string) \<Rightarrow> provenance \<Rightarrow> string" where
  "provenance_digest h p = canonical_record_digest h ''macr.semantic.provenance.v1'' (JObj (provenance_identity p))"

definition provenance_to_dict :: "(string \<Rightarrow> string) \<Rightarrow> provenance \<Rightarrow> json" where
  "provenance_to_dict h p = JObj (provenance_identity p @ [(''provenance_digest'', JStr (provenance_digest h p))])"

definition provenance_keys :: "string list" where
  "provenance_keys = [''origin_kind'', ''origin_ref'', ''source_refs'', ''agent_run_id'', ''created_by_ref'', ''created_at'',
     ''provenance_digest'']"

definition provenance_from_dict :: "(string \<Rightarrow> string) \<Rightarrow> json \<Rightarrow> provenance result" where
  "provenance_from_dict h data =
     ebind (require_closed_mapping provenance_keys data) (\<lambda>p.
     ebind (tuple_of (jfield ''source_refs'' p)) (\<lambda>sources.
     ebind (provenance_create (jfield ''origin_kind'' p) (jfield ''origin_ref'' p) sources (jfield ''agent_run_id'' p)
              (jfield ''created_by_ref'' p) (jfield ''created_at'' p)) (\<lambda>r.
     ebind (require_same_digest (provenance_digest h r) (jfield ''provenance_digest'' p)) (\<lambda>_. Inr r))))"

section \<open>Nodes\<close>

record semantic_node =
  sn_node_id :: string
  sn_node_type :: node_type
  sn_payload :: json
  sn_scope_ref :: string
  sn_status :: semantic_status
  sn_effects :: "string list"
  sn_constraints :: "string list"
  sn_policy :: json
  sn_provenance :: provenance
  sn_temporal :: json
  sn_bindings :: "external_binding list"

definition node_create ::
    "(string \<Rightarrow> string) \<Rightarrow> json \<Rightarrow> node_type \<Rightarrow> json \<Rightarrow> json \<Rightarrow> semantic_status \<Rightarrow> json list \<Rightarrow> json list \<Rightarrow> json
       \<Rightarrow> provenance \<Rightarrow> json \<Rightarrow> external_binding list \<Rightarrow> semantic_node result" where
  "node_create h nid t payload scope status effects constraints policy prov temporal bindings =
     ebind (require_non_empty 512 nid) (\<lambda>nid.
     ebind (require_json_object payload) (\<lambda>payload.
     ebind (require_non_empty 512 scope) (\<lambda>scope.
     ebind (guard (status_fits t status) (ValueError Bad_Choice)) (\<lambda>_.
     ebind (require_string_tuple 128 effects) (\<lambda>effects.
     ebind (require_string_tuple 128 constraints) (\<lambda>constraints.
     ebind (require_json_object policy) (\<lambda>policy.
     ebind (require_json_object temporal) (\<lambda>temporal.
     ebind (canonical_bindings (external_digest h) bindings) (\<lambda>bindings.
       if list_ex (\<lambda>b. eb_semantic_ref b \<noteq> nid) bindings then Inl (ValueError Bad_Fields)
       else Inr \<lparr>sn_node_id = nid, sn_node_type = t, sn_payload = payload, sn_scope_ref = scope, sn_status = status,
                 sn_effects = effects, sn_constraints = constraints, sn_policy = policy, sn_provenance = prov,
                 sn_temporal = temporal, sn_bindings = bindings\<rparr>)))))))))"

definition content_digest :: "(string \<Rightarrow> string) \<Rightarrow> semantic_node \<Rightarrow> string" where
  "content_digest h n = canonical_record_digest h ''macr.semantic.node-content.v1''
     (JObj [(''node_type'', JStr (node_type_value (sn_node_type n))), (''payload'', sn_payload n),
        (''scope_ref'', JStr (sn_scope_ref n))])"

definition record_digest :: "(string \<Rightarrow> string) \<Rightarrow> semantic_node \<Rightarrow> string" where
  "record_digest h n = canonical_record_digest h ''macr.semantic.node-record.v1''
     (JObj [(''node_id'', JStr (sn_node_id n)), (''content_digest'', JStr (content_digest h n)),
        (''status'', JStr (status_value (sn_status n))), (''effects'', jstrs (sn_effects n)),
        (''constraints'', jstrs (sn_constraints n)), (''policy'', sn_policy n),
        (''provenance_digest'', JStr (provenance_digest h (sn_provenance n))), (''temporal'', sn_temporal n),
        (''external_binding_digests'', jstrs (map (external_digest h) (sn_bindings n)))])"

definition semantic_node_members :: "(string \<Rightarrow> string) \<Rightarrow> semantic_node \<Rightarrow> (string \<times> json) list" where
  "semantic_node_members h n =
     [(''node_id'', JStr (sn_node_id n)), (''node_type'', JStr (node_type_value (sn_node_type n))),
      (''payload'', sn_payload n), (''scope_ref'', JStr (sn_scope_ref n)), (''status'', JStr (status_value (sn_status n))),
      (''effects'', jstrs (sn_effects n)), (''constraints'', jstrs (sn_constraints n)), (''policy'', sn_policy n),
      (''provenance'', provenance_to_dict h (sn_provenance n)), (''temporal'', sn_temporal n),
      (''external_bindings'', JList (map (external_to_dict h) (sn_bindings n))),
      (''content_digest'', JStr (content_digest h n)), (''record_digest'', JStr (record_digest h n))]"

definition semantic_node_to_dict :: "(string \<Rightarrow> string) \<Rightarrow> semantic_node \<Rightarrow> json" where
  "semantic_node_to_dict h n = JObj (semantic_node_members h n)"

definition semantic_node_keys :: "string list" where
  "semantic_node_keys = [''node_id'', ''node_type'', ''payload'', ''scope_ref'', ''status'', ''effects'', ''constraints'',
     ''policy'', ''provenance'', ''temporal'', ''external_bindings'', ''content_digest'', ''record_digest'']"

definition semantic_node_from_dict :: "(string \<Rightarrow> string) \<Rightarrow> json \<Rightarrow> semantic_node result" where
  "semantic_node_from_dict h data =
     ebind (require_closed_mapping semantic_node_keys data) (\<lambda>p.
     ebind (enum_of node_type_value node_types (jfield ''node_type'' p)) (\<lambda>t.
     ebind (status_from_text t (jfield ''status'' p)) (\<lambda>status.
     ebind (tuple_of (jfield ''effects'' p)) (\<lambda>effects.
     ebind (tuple_of (jfield ''constraints'' p)) (\<lambda>constraints.
     ebind (provenance_from_dict h (jfield ''provenance'' p)) (\<lambda>prov.
     ebind (tuple_of (jfield ''external_bindings'' p)) (\<lambda>docs.
     ebind (emap (external_from_dict h) docs) (\<lambda>bindings.
     ebind (node_create h (jfield ''node_id'' p) t (jfield ''payload'' p) (jfield ''scope_ref'' p) status effects constraints
              (jfield ''policy'' p) prov (jfield ''temporal'' p) bindings) (\<lambda>n.
     ebind (require_same_digest (content_digest h n) (jfield ''content_digest'' p)) (\<lambda>_.
     ebind (require_same_digest (record_digest h n) (jfield ''record_digest'' p)) (\<lambda>_. Inr n)))))))))))"

section \<open>Relations\<close>

record semantic_relation =
  sr_relation_id :: string
  sr_source_ref :: string
  sr_relation_type :: relation_type
  sr_target_ref :: string
  sr_qualifiers :: json
  sr_provenance :: provenance

definition relation_create :: "json \<Rightarrow> json \<Rightarrow> relation_type \<Rightarrow> json \<Rightarrow> json \<Rightarrow> provenance \<Rightarrow> semantic_relation result" where
  "relation_create rid src t tgt qualifiers prov =
     ebind (require_non_empty 512 rid) (\<lambda>rid.
     ebind (require_non_empty 512 src) (\<lambda>src.
     ebind (require_non_empty 512 tgt) (\<lambda>tgt.
     ebind (require_json_object qualifiers) (\<lambda>qualifiers.
       Inr \<lparr>sr_relation_id = rid, sr_source_ref = src, sr_relation_type = t, sr_target_ref = tgt,
            sr_qualifiers = qualifiers, sr_provenance = prov\<rparr>))))"

definition relation_digest :: "(string \<Rightarrow> string) \<Rightarrow> semantic_relation \<Rightarrow> string" where
  "relation_digest h r = canonical_record_digest h ''macr.semantic.relation.v1''
     (JObj [(''relation_id'', JStr (sr_relation_id r)), (''source_ref'', JStr (sr_source_ref r)),
        (''relation_type'', JStr (relation_value (sr_relation_type r))), (''target_ref'', JStr (sr_target_ref r)),
        (''qualifiers'', sr_qualifiers r), (''provenance_digest'', JStr (provenance_digest h (sr_provenance r)))])"

definition relation_members :: "(string \<Rightarrow> string) \<Rightarrow> semantic_relation \<Rightarrow> (string \<times> json) list" where
  "relation_members h r =
     [(''relation_id'', JStr (sr_relation_id r)), (''source_ref'', JStr (sr_source_ref r)),
      (''relation_type'', JStr (relation_value (sr_relation_type r))), (''target_ref'', JStr (sr_target_ref r)),
      (''qualifiers'', sr_qualifiers r), (''provenance'', provenance_to_dict h (sr_provenance r)),
      (''relation_digest'', JStr (relation_digest h r))]"

definition relation_to_dict :: "(string \<Rightarrow> string) \<Rightarrow> semantic_relation \<Rightarrow> json" where
  "relation_to_dict h r = JObj (relation_members h r)"

definition relation_keys :: "string list" where
  "relation_keys = [''relation_id'', ''source_ref'', ''relation_type'', ''target_ref'', ''qualifiers'', ''provenance'',
     ''relation_digest'']"

definition relation_from_dict :: "(string \<Rightarrow> string) \<Rightarrow> json \<Rightarrow> semantic_relation result" where
  "relation_from_dict h data =
     ebind (require_closed_mapping relation_keys data) (\<lambda>p.
     ebind (enum_of relation_value relation_types (jfield ''relation_type'' p)) (\<lambda>t.
     ebind (provenance_from_dict h (jfield ''provenance'' p)) (\<lambda>prov.
     ebind (relation_create (jfield ''relation_id'' p) (jfield ''source_ref'' p) t (jfield ''target_ref'' p)
              (jfield ''qualifiers'' p) prov) (\<lambda>r.
     ebind (require_same_digest (relation_digest h r) (jfield ''relation_digest'' p)) (\<lambda>_. Inr r)))))"

section \<open>Events\<close>

record semantic_event =
  se_event_id :: string
  se_event_type :: semantic_event_type
  se_subject_refs :: "string list"
  se_parent_refs :: "string list"
  se_payload :: json
  se_provenance :: provenance
  se_created_at :: int

definition semantic_event_create ::
    "json \<Rightarrow> semantic_event_type \<Rightarrow> json list \<Rightarrow> json list \<Rightarrow> json \<Rightarrow> provenance \<Rightarrow> json \<Rightarrow> semantic_event result" where
  "semantic_event_create eid t subjects parents payload prov created =
     ebind (require_non_empty 512 eid) (\<lambda>eid.
     ebind (require_string_tuple 128 subjects) (\<lambda>subjects.
       if subjects = [] then Inl (ValueError Bad_Array)
       else
         ebind (require_string_tuple 128 parents) (\<lambda>parents.
           if (t = Correction \<or> t = Resolution) \<and> parents = [] then Inl (ValueError Bad_Fields)
           else
             ebind (require_json_object payload) (\<lambda>payload.
             ebind (normalize_timestamp created) (\<lambda>created.
               Inr \<lparr>se_event_id = eid, se_event_type = t, se_subject_refs = subjects, se_parent_refs = parents,
                    se_payload = payload, se_provenance = prov, se_created_at = created\<rparr>)))))"

definition semantic_event_digest :: "(string \<Rightarrow> string) \<Rightarrow> semantic_event \<Rightarrow> string" where
  "semantic_event_digest h e = canonical_record_digest h ''macr.semantic.event.v1''
     (JObj [(''event_id'', JStr (se_event_id e)), (''event_type'', JStr (semantic_event_value (se_event_type e))),
        (''subject_refs'', jstrs (se_subject_refs e)), (''parent_event_refs'', jstrs (se_parent_refs e)),
        (''payload'', se_payload e), (''provenance_digest'', JStr (provenance_digest h (se_provenance e))),
        (''created_at'', JStr (isoformat (se_created_at e)))])"

definition semantic_event_members :: "(string \<Rightarrow> string) \<Rightarrow> semantic_event \<Rightarrow> (string \<times> json) list" where
  "semantic_event_members h e =
     [(''event_id'', JStr (se_event_id e)), (''event_type'', JStr (semantic_event_value (se_event_type e))),
      (''subject_refs'', jstrs (se_subject_refs e)), (''parent_event_refs'', jstrs (se_parent_refs e)),
      (''payload'', se_payload e), (''provenance'', provenance_to_dict h (se_provenance e)),
      (''created_at'', JStr (isoformat (se_created_at e))), (''event_digest'', JStr (semantic_event_digest h e))]"

definition semantic_event_to_dict :: "(string \<Rightarrow> string) \<Rightarrow> semantic_event \<Rightarrow> json" where
  "semantic_event_to_dict h e = JObj (semantic_event_members h e)"

definition semantic_event_keys :: "string list" where
  "semantic_event_keys = [''event_id'', ''event_type'', ''subject_refs'', ''parent_event_refs'', ''payload'', ''provenance'',
     ''created_at'', ''event_digest'']"

definition semantic_event_from_dict :: "(string \<Rightarrow> string) \<Rightarrow> json \<Rightarrow> semantic_event result" where
  "semantic_event_from_dict h data =
     ebind (require_closed_mapping semantic_event_keys data) (\<lambda>p.
     ebind (enum_of semantic_event_value semantic_event_types (jfield ''event_type'' p)) (\<lambda>t.
     ebind (tuple_of (jfield ''subject_refs'' p)) (\<lambda>subjects.
     ebind (tuple_of (jfield ''parent_event_refs'' p)) (\<lambda>parents.
     ebind (provenance_from_dict h (jfield ''provenance'' p)) (\<lambda>prov.
     ebind (semantic_event_create (jfield ''event_id'' p) t subjects parents (jfield ''payload'' p) prov
              (jfield ''created_at'' p)) (\<lambda>e.
     ebind (require_same_digest (semantic_event_digest h e) (jfield ''event_digest'' p)) (\<lambda>_. Inr e)))))))"

section \<open>Patches\<close>

record semantic_patch =
  pt_patch_id :: string
  pt_base_graph_digest :: string
  pt_add_nodes :: "semantic_node list"
  pt_add_relations :: "semantic_relation list"
  pt_status_updates :: "json list"
  pt_supersession_refs :: "string list"
  pt_producer_ref :: string

definition update_key :: "(string \<Rightarrow> string) \<Rightarrow> json \<Rightarrow> string" where
  "update_key h u = canonical_record_digest h ''macr.semantic.status-update.v1'' u"

definition patch_create ::
    "(string \<Rightarrow> string) \<Rightarrow> json \<Rightarrow> json \<Rightarrow> semantic_node list \<Rightarrow> semantic_relation list \<Rightarrow> json list \<Rightarrow> json list \<Rightarrow> json
       \<Rightarrow> semantic_patch result" where
  "patch_create h pid base nodes relations updates refs producer =
     ebind (require_non_empty 512 pid) (\<lambda>pid.
     ebind (require_sha256 base) (\<lambda>base.
     ebind (canonical_bindings (record_digest h) nodes) (\<lambda>nodes.
     ebind (canonical_bindings (relation_digest h) relations) (\<lambda>relations.
     ebind (emap require_json_object updates) (\<lambda>updates.
     ebind (canonical_bindings (update_key h) updates) (\<lambda>updates.
     ebind (require_string_tuple 128 refs) (\<lambda>refs.
     ebind (require_non_empty 512 producer) (\<lambda>producer.
       Inr \<lparr>pt_patch_id = pid, pt_base_graph_digest = base, pt_add_nodes = nodes, pt_add_relations = relations,
            pt_status_updates = updates, pt_supersession_refs = refs, pt_producer_ref = producer\<rparr>))))))))"

definition patch_digest :: "(string \<Rightarrow> string) \<Rightarrow> semantic_patch \<Rightarrow> string" where
  "patch_digest h p = canonical_record_digest h ''macr.semantic.patch.v1''
     (JObj [(''patch_id'', JStr (pt_patch_id p)), (''base_graph_digest'', JStr (pt_base_graph_digest p)),
        (''add_node_digests'', jstrs (map (record_digest h) (pt_add_nodes p))),
        (''add_relation_digests'', jstrs (map (relation_digest h) (pt_add_relations p))),
        (''status_updates'', JList (pt_status_updates p)), (''supersession_refs'', jstrs (pt_supersession_refs p)),
        (''producer_ref'', JStr (pt_producer_ref p))])"

definition patch_members :: "(string \<Rightarrow> string) \<Rightarrow> semantic_patch \<Rightarrow> (string \<times> json) list" where
  "patch_members h p =
     [(''patch_id'', JStr (pt_patch_id p)), (''base_graph_digest'', JStr (pt_base_graph_digest p)),
      (''add_nodes'', JList (map (semantic_node_to_dict h) (pt_add_nodes p))),
      (''add_relations'', JList (map (relation_to_dict h) (pt_add_relations p))),
      (''status_updates'', JList (pt_status_updates p)), (''supersession_refs'', jstrs (pt_supersession_refs p)),
      (''producer_ref'', JStr (pt_producer_ref p)), (''patch_digest'', JStr (patch_digest h p))]"

definition patch_to_dict :: "(string \<Rightarrow> string) \<Rightarrow> semantic_patch \<Rightarrow> json" where
  "patch_to_dict h p = JObj (patch_members h p)"

definition patch_keys :: "string list" where
  "patch_keys = [''patch_id'', ''base_graph_digest'', ''add_nodes'', ''add_relations'', ''status_updates'',
     ''supersession_refs'', ''producer_ref'', ''patch_digest'']"

definition patch_from_dict :: "(string \<Rightarrow> string) \<Rightarrow> json \<Rightarrow> semantic_patch result" where
  "patch_from_dict h data =
     ebind (require_closed_mapping patch_keys data) (\<lambda>p.
     ebind (tuple_of (jfield ''add_nodes'' p)) (\<lambda>node_docs.
     ebind (emap (semantic_node_from_dict h) node_docs) (\<lambda>nodes.
     ebind (tuple_of (jfield ''add_relations'' p)) (\<lambda>relation_docs.
     ebind (emap (relation_from_dict h) relation_docs) (\<lambda>relations.
     ebind (tuple_of (jfield ''status_updates'' p)) (\<lambda>updates.
     ebind (tuple_of (jfield ''supersession_refs'' p)) (\<lambda>refs.
     ebind (patch_create h (jfield ''patch_id'' p) (jfield ''base_graph_digest'' p) nodes relations updates refs
              (jfield ''producer_ref'' p)) (\<lambda>r.
     ebind (require_same_digest (patch_digest h r) (jfield ''patch_digest'' p)) (\<lambda>_. Inr r)))))))))"

end
