(* ===== verification/SemanticGraph.thy ===== *)
theory SemanticGraph
  imports SemanticContracts "HOL-Library.AList"
begin

text \<open>
  \<open>semantic/registry.py\<close>: which node types, statuses and effects a graph may hold and which types a relation
  may link; \<open>semantic/graph.py\<close>: the head of a graph, which lists the digests of its active records, and its
  immutable revisions.
\<close>

section \<open>The registry\<close>

text \<open>A Python dictionary filled in the order of a list.\<close>

definition index :: "('a \<Rightarrow> string) \<Rightarrow> 'a list \<Rightarrow> (string \<times> 'a) list" where
  "index key xs = fold (\<lambda>x. AList.update (key x) x) xs []"

record semantic_registry =
  rg_version :: string
  rg_node_types :: "string list"
  rg_rules :: "(string \<times> string list \<times> string list) list"
  rg_effects :: "string list"
  rg_statuses :: "string list"
  rg_verdicts :: "string list"
  rg_failures :: "string list"

text \<open>\<open>EffectName\<close> and \<open>VerificationVerdict\<close> of \<open>action/contracts.py\<close>, and the failure types.\<close>

definition effect_names :: "string list" where
  "effect_names = [''repository.read'', ''repository.working_tree.write'', ''repository.branch.write'', ''process.execute'',
     ''software_domain.inspect'', ''software_domain.pause'', ''software_domain.resume'', ''software_domain.temporal_rate.write'']"

definition verdict_names :: "string list" where
  "verdict_names = [''passed'', ''failed'', ''partial'', ''diverged'', ''unknown'', ''stale'']"

definition failure_names :: "string list" where
  "failure_names = [''MODEL_FAILURE'', ''PROVIDER_FAILURE'', ''CAPABILITY_MISSING'', ''AUTHORITY_DENIED'', ''BUDGET_EXHAUSTED'',
     ''WORLD_STALE'', ''PROJECTION_FAILED'', ''VERIFICATION_FAILED'', ''ACTION_DIVERGED'', ''CHECKPOINT_INVALID'', ''WAKE_INVALID'',
     ''DEPENDENCY_FAILED'', ''RECONCILIATION_REQUIRED'', ''HUMAN_DECISION_REQUIRED'']"

definition status_names :: "string list" where
  "status_names = map lifecycle_value lifecycle_statuses @ map claim_value claim_statuses @ map resolution_value resolution_statuses"

definition known_node_type :: "string \<Rightarrow> bool" where
  "known_node_type s \<longleftrightarrow> s \<in> set (map node_type_value node_types)"

definition relation_rule :: "string \<times> json \<Rightarrow> (string \<times> string list \<times> string list) result" where
  "relation_rule item =
     ebind (require_non_empty 512 (JStr (fst item))) (\<lambda>name.
     ebind (require_closed_mapping [''source_types'', ''target_types''] (snd item)) (\<lambda>p.
     ebind (require_string_array 128 (jfield ''source_types'' p)) (\<lambda>sources.
     ebind (require_string_array 128 (jfield ''target_types'' p)) (\<lambda>targets.
       if sources = [] \<or> targets = [] then Inl (SemanticError Registry_Mismatch)
       else if list_ex (\<lambda>t. t \<noteq> ''*'' \<and> \<not> known_node_type t) (sources @ targets) then Inl (SemanticError Registry_Mismatch)
       else Inr (name, sources, targets)))))"

definition validated_rules :: "json \<Rightarrow> (string \<times> string list \<times> string list) list result" where
  "validated_rules v =
     (case v of
        JObj kvs \<Rightarrow> ebind (emap relation_rule kvs) (\<lambda>rules. Inr (sort_key fst (map snd (index fst rules))))
      | _ \<Rightarrow> Inl (SemanticError Registry_Mismatch))"

definition same_members :: "string list \<Rightarrow> string list \<Rightarrow> unit result" where
  "same_members xs ys = (if set xs \<noteq> set ys then Inl (SemanticError Registry_Mismatch) else Inr ())"

definition registry_create ::
    "json \<Rightarrow> json \<Rightarrow> json list \<Rightarrow> json \<Rightarrow> json list \<Rightarrow> json list \<Rightarrow> json list \<Rightarrow> json list \<Rightarrow> semantic_registry result" where
  "registry_create schema version types rules effects statuses verdicts failures =
     (if schema \<noteq> JStr ''macr-semantic-registry/v1'' then Inl (SemanticError Registry_Mismatch)
      else
        ebind (require_non_empty 64 version) (\<lambda>version.
        ebind (require_string_tuple 128 types) (\<lambda>types.
        ebind (same_members types (map node_type_value node_types)) (\<lambda>_.
        ebind (validated_rules rules) (\<lambda>rules.
        ebind (same_members (map fst rules) (map relation_value relation_types)) (\<lambda>_.
        ebind (require_string_tuple 128 effects) (\<lambda>effects.
        ebind (same_members effects effect_names) (\<lambda>_.
        ebind (require_string_tuple 128 statuses) (\<lambda>statuses.
        ebind (same_members statuses status_names) (\<lambda>_.
        ebind (require_string_tuple 128 verdicts) (\<lambda>verdicts.
        ebind (same_members verdicts verdict_names) (\<lambda>_.
        ebind (require_string_tuple 128 failures) (\<lambda>failures.
        ebind (same_members failures failure_names) (\<lambda>_.
          Inr \<lparr>rg_version = version, rg_node_types = types, rg_rules = rules, rg_effects = effects,
               rg_statuses = statuses, rg_verdicts = verdicts, rg_failures = failures\<rparr>))))))))))))))"

definition rule_to_dict :: "string \<times> string list \<times> string list \<Rightarrow> string \<times> json" where
  "rule_to_dict r = (fst r, JObj [(''source_types'', jstrs (fst (snd r))), (''target_types'', jstrs (snd (snd r)))])"

definition registry_identity :: "semantic_registry \<Rightarrow> (string \<times> json) list" where
  "registry_identity r =
     [(''schema_version'', JStr ''macr-semantic-registry/v1''), (''registry_version'', JStr (rg_version r)),
      (''node_types'', jstrs (rg_node_types r)), (''relation_rules'', JObj (map rule_to_dict (rg_rules r))),
      (''effect_types'', jstrs (rg_effects r)), (''status_types'', jstrs (rg_statuses r)),
      (''verdict_types'', jstrs (rg_verdicts r)), (''failure_types'', jstrs (rg_failures r))]"

definition registry_digest :: "(string \<Rightarrow> string) \<Rightarrow> semantic_registry \<Rightarrow> string" where
  "registry_digest h r = canonical_record_digest h ''macr.semantic.registry.v1'' (JObj (registry_identity r))"

definition registry_to_dict :: "(string \<Rightarrow> string) \<Rightarrow> semantic_registry \<Rightarrow> json" where
  "registry_to_dict h r = JObj (registry_identity r @ [(''registry_digest'', JStr (registry_digest h r))])"

definition payload_keys :: "string list" where
  "payload_keys = [''schema_version'', ''registry_version'', ''node_types'', ''relation_rules'', ''effect_types'', ''status_types'',
     ''verdict_types'', ''failure_types'']"

definition registry_from_payload :: "json \<Rightarrow> semantic_registry result" where
  "registry_from_payload data =
     ebind (require_closed_mapping payload_keys data) (\<lambda>p.
     ebind (tuple_of (jfield ''node_types'' p)) (\<lambda>types.
     ebind (tuple_of (jfield ''effect_types'' p)) (\<lambda>effects.
     ebind (tuple_of (jfield ''status_types'' p)) (\<lambda>statuses.
     ebind (tuple_of (jfield ''verdict_types'' p)) (\<lambda>verdicts.
     ebind (tuple_of (jfield ''failure_types'' p)) (\<lambda>failures.
       registry_create (jfield ''schema_version'' p) (jfield ''registry_version'' p) types (jfield ''relation_rules'' p)
         effects statuses verdicts failures))))))"

definition registry_from_dict :: "(string \<Rightarrow> string) \<Rightarrow> json \<Rightarrow> semantic_registry result" where
  "registry_from_dict h data =
     ebind (require_closed_mapping (payload_keys @ [''registry_digest'']) data) (\<lambda>p.
     ebind (require_sha256 (jfield ''registry_digest'' p)) (\<lambda>supplied.
     ebind (registry_from_payload (JObj (filter (\<lambda>(k, v). k \<noteq> ''registry_digest'') p))) (\<lambda>r.
       if registry_digest h r \<noteq> supplied then Inl (SemanticError Registry_Mismatch) else Inr r)))"

text \<open>\<open>_require_member\<close>, \<open>require_node_type\<close>, \<open>require_status\<close>, \<open>require_effect\<close> and \<open>require_relation\<close>.\<close>

definition require_member :: "string list \<Rightarrow> string \<Rightarrow> string result" where
  "require_member allowed s = (if s \<notin> set allowed then Inl (SemanticError Registry_Unknown) else Inr s)"

definition require_relation :: "semantic_registry \<Rightarrow> string \<Rightarrow> string \<Rightarrow> string \<Rightarrow> unit result" where
  "require_relation r src t tgt =
     ebind (require_member (rg_node_types r) src) (\<lambda>src.
     ebind (require_member (map fst (rg_rules r)) t) (\<lambda>t.
     ebind (require_member (rg_node_types r) tgt) (\<lambda>tgt.
       case map_of (rg_rules r) t of
         None \<Rightarrow> Inl (SemanticError Registry_Unknown)
       | Some (sources, targets) \<Rightarrow>
           if (''*'' \<notin> set sources \<and> src \<notin> set sources) \<or> (''*'' \<notin> set targets \<and> tgt \<notin> set targets)
           then Inl (SemanticError Registry_Mismatch) else Inr ())))"

section \<open>The registry that is shipped\<close>

text \<open>\<open>semantic/schemas/registry-v1.json\<close>, which \<open>from_builtin\<close> reads.\<close>

definition shipped_rules :: "(string \<times> string list \<times> string list) list" where
  "shipped_rules = [
     (''affects'', [''*''], [''*'']),
     (''blocks'', [''ambiguity'', ''constraint'', ''failure'', ''obligation''], [''action_proposal'', ''decision'',
       ''goal'', ''plan'', ''task'']),
     (''causes'', [''*''], [''*'']),
     (''constrains'', [''constraint''], [''action_proposal'', ''decision'', ''goal'', ''plan'', ''task'']),
     (''contradicts'', [''claim'', ''hypothesis'', ''observation'', ''verification''], [''claim'', ''decision'',
       ''goal'', ''hypothesis'', ''plan'']),
     (''depends_on'', [''*''], [''*'']),
     (''derived_from'', [''*''], [''*'']),
     (''describes'', [''*''], [''*'']),
     (''expects'', [''action_proposal'', ''plan'', ''task''], [''observation'', ''receipt'', ''verification'']),
     (''follows'', [''*''], [''*'']),
     (''motivates'', [''ambiguity'', ''claim'', ''goal'', ''hypothesis'', ''obligation'', ''observation''],
       [''action_proposal'', ''decision'', ''plan'', ''task'']),
     (''observes'', [''observation''], [''*'']),
     (''precedes'', [''*''], [''*'']),
     (''produced'', [''action_proposal'', ''plan'', ''task''], [''failure'', ''observation'', ''receipt'']),
     (''refutes'', [''observation'', ''verification''], [''claim'', ''hypothesis'']),
     (''resolves'', [''decision'', ''observation'', ''verification''], [''ambiguity'', ''failure'', ''obligation'']),
     (''revises'', [''*''], [''*'']),
     (''supports'', [''claim'', ''hypothesis'', ''observation'', ''verification''], [''claim'', ''decision'',
       ''goal'', ''hypothesis'', ''plan'']),
     (''supersedes'', [''*''], [''*'']),
     (''targets'', [''action_proposal'', ''decision'', ''plan'', ''task''], [''constraint'', ''goal'',
       ''observation'', ''task'']),
     (''verifies'', [''verification''], [''action_proposal'', ''claim'', ''decision'', ''receipt'']),
     (''waits_for'', [''action_proposal'', ''plan'', ''task'', ''wake_condition''], [''observation'', ''receipt'',
       ''task'', ''verification'', ''wake_condition''])]"

definition shipped_node_types :: "string list" where
  "shipped_node_types = [''action_proposal'', ''ambiguity'', ''checkpoint'', ''claim'', ''constraint'', ''decision'',
     ''failure'', ''goal'', ''hypothesis'', ''obligation'', ''observation'', ''plan'', ''receipt'', ''task'',
     ''trigger'', ''verification'', ''wake_condition'']"

definition shipped_effects :: "string list" where
  "shipped_effects = [''process.execute'', ''repository.branch.write'', ''repository.read'',
     ''repository.working_tree.write'', ''software_domain.inspect'', ''software_domain.pause'',
     ''software_domain.resume'', ''software_domain.temporal_rate.write'']"

definition shipped_statuses :: "string list" where
  "shipped_statuses = [''active'', ''completed'', ''contested'', ''failed'', ''proposed'', ''refuted'', ''resolved'',
     ''stale'', ''superseded'', ''supported'', ''unresolved'', ''verified'']"

definition shipped_verdicts :: "string list" where
  "shipped_verdicts = [''diverged'', ''failed'', ''partial'', ''passed'', ''stale'', ''unknown'']"

definition shipped_failures :: "string list" where
  "shipped_failures = [''ACTION_DIVERGED'', ''AUTHORITY_DENIED'', ''BUDGET_EXHAUSTED'', ''CAPABILITY_MISSING'',
     ''CHECKPOINT_INVALID'', ''DEPENDENCY_FAILED'', ''HUMAN_DECISION_REQUIRED'', ''MODEL_FAILURE'',
     ''PROJECTION_FAILED'', ''PROVIDER_FAILURE'', ''RECONCILIATION_REQUIRED'', ''VERIFICATION_FAILED'',
     ''WAKE_INVALID'', ''WORLD_STALE'']"

definition builtin_payload :: json where
  "builtin_payload =
     JObj [(''schema_version'', JStr ''macr-semantic-registry/v1''), (''registry_version'', JStr ''1''),
       (''node_types'', jstrs shipped_node_types), (''relation_rules'', JObj (map rule_to_dict shipped_rules)),
       (''effect_types'', jstrs shipped_effects), (''status_types'', jstrs shipped_statuses),
       (''verdict_types'', jstrs shipped_verdicts), (''failure_types'', jstrs shipped_failures)]"

definition registry_from_builtin :: "semantic_registry result" where
  "registry_from_builtin = registry_from_payload builtin_payload"

section \<open>Heads\<close>

definition sha256_tuple :: "json list \<Rightarrow> string list result" where
  "sha256_tuple values =
     ebind (require_string_tuple 128 values) (\<lambda>items.
     ebind (emap (\<lambda>s. require_sha256 (JStr s)) items) (\<lambda>normalized. Inr (sort normalized)))"

definition graph_content :: "string \<Rightarrow> string \<Rightarrow> string list \<Rightarrow> string list \<Rightarrow> json" where
  "graph_content version registry nodes relations =
     JObj [(''registry_version'', JStr version), (''registry_digest'', JStr registry),
       (''active_node_record_digests'', jstrs nodes), (''active_relation_digests'', jstrs relations)]"

definition calculate_graph_digest ::
    "(string \<Rightarrow> string) \<Rightarrow> string \<Rightarrow> string \<Rightarrow> string list \<Rightarrow> string list \<Rightarrow> string result" where
  "calculate_graph_digest h version registry nodes relations =
     ebind (require_sha256 (JStr registry)) (\<lambda>registry.
     ebind (sha256_tuple (map JStr nodes)) (\<lambda>nodes.
     ebind (sha256_tuple (map JStr relations)) (\<lambda>relations.
       Inr (canonical_record_digest h ''macr.semantic.graph-content.v1'' (graph_content version registry nodes relations)))))"

record graph_head =
  gh_graph_id :: string
  gh_scope_ref :: string
  gh_revision :: int
  gh_registry_version :: string
  gh_registry_digest :: string
  gh_nodes :: "string list"
  gh_relations :: "string list"
  gh_created_by :: string
  gh_created_at :: int
  gh_updated_at :: int
  gh_graph_digest :: string

definition head_create ::
    "(string \<Rightarrow> string) \<Rightarrow> json \<Rightarrow> json \<Rightarrow> json \<Rightarrow> json \<Rightarrow> json \<Rightarrow> json list \<Rightarrow> json list \<Rightarrow> json \<Rightarrow> json \<Rightarrow> json
       \<Rightarrow> graph_head result" where
  "head_create h gid scope revision version registry nodes relations creator created updated =
     ebind (require_uuid4 gid) (\<lambda>gid.
     ebind (any_non_empty scope) (\<lambda>scope.
     ebind (require_positive_int revision) (\<lambda>revision.
     ebind (any_non_empty version) (\<lambda>version.
     ebind (require_sha256 registry) (\<lambda>registry.
     ebind (sha256_tuple nodes) (\<lambda>nodes.
     ebind (sha256_tuple relations) (\<lambda>relations.
     ebind (require_uuid4 creator) (\<lambda>creator.
     ebind (normalize_timestamp created) (\<lambda>created.
     ebind (normalize_timestamp updated) (\<lambda>updated.
       if updated < created then Inl (ValueError Bad_Timestamp)
       else
         ebind (calculate_graph_digest h version registry nodes relations) (\<lambda>digest.
           Inr \<lparr>gh_graph_id = gid, gh_scope_ref = scope, gh_revision = revision, gh_registry_version = version,
                gh_registry_digest = registry, gh_nodes = nodes, gh_relations = relations, gh_created_by = creator,
                gh_created_at = created, gh_updated_at = updated, gh_graph_digest = digest\<rparr>)))))))))))"

definition graph_ref :: "graph_head \<Rightarrow> string" where
  "graph_ref g = ''semantic-graph:'' @ gh_graph_id g"

definition head_create_empty :: "(string \<Rightarrow> string) \<Rightarrow> json \<Rightarrow> json \<Rightarrow> semantic_registry \<Rightarrow> json \<Rightarrow> json \<Rightarrow> graph_head result" where
  "head_create_empty h gid scope r creator created =
     head_create h gid scope (JInt 1) (JStr (rg_version r)) (JStr (registry_digest h r)) [] [] creator created created"

definition head_binding :: "graph_head \<Rightarrow> versioned_binding result" where
  "head_binding g = binding_create (JStr (graph_ref g)) (JStr (gh_graph_digest g)) (JInt (gh_revision g))"

definition head_members :: "graph_head \<Rightarrow> (string \<times> json) list" where
  "head_members g =
     [(''schema_version'', JStr ''macr-semantic-graph-head/v1''), (''graph_id'', JStr (gh_graph_id g)),
      (''graph_ref'', JStr (graph_ref g)), (''scope_ref'', JStr (gh_scope_ref g)), (''graph_revision'', JInt (gh_revision g)),
      (''registry_version'', JStr (gh_registry_version g)), (''registry_digest'', JStr (gh_registry_digest g)),
      (''active_node_record_digests'', jstrs (gh_nodes g)), (''active_relation_digests'', jstrs (gh_relations g)),
      (''created_by_agent_run_id'', JStr (gh_created_by g)), (''created_at'', JStr (isoformat (gh_created_at g))),
      (''updated_at'', JStr (isoformat (gh_updated_at g))), (''graph_digest'', JStr (gh_graph_digest g))]"

definition head_to_dict :: "graph_head \<Rightarrow> json" where
  "head_to_dict g = JObj (head_members g)"

definition head_keys :: "string list" where
  "head_keys = [''schema_version'', ''graph_id'', ''graph_ref'', ''scope_ref'', ''graph_revision'', ''registry_version'',
     ''registry_digest'', ''active_node_record_digests'', ''active_relation_digests'', ''created_by_agent_run_id'',
     ''created_at'', ''updated_at'', ''graph_digest'']"

definition head_from_dict :: "(string \<Rightarrow> string) \<Rightarrow> json \<Rightarrow> graph_head result" where
  "head_from_dict h data =
     ebind (require_closed_mapping head_keys data) (\<lambda>p.
       if jfield ''schema_version'' p \<noteq> JStr ''macr-semantic-graph-head/v1'' then Inl (ValueError Bad_Version)
       else
         ebind (tuple_of (jfield ''active_node_record_digests'' p)) (\<lambda>nodes.
         ebind (tuple_of (jfield ''active_relation_digests'' p)) (\<lambda>relations.
         ebind (head_create h (jfield ''graph_id'' p) (jfield ''scope_ref'' p) (jfield ''graph_revision'' p)
                  (jfield ''registry_version'' p) (jfield ''registry_digest'' p) nodes relations
                  (jfield ''created_by_agent_run_id'' p) (jfield ''created_at'' p) (jfield ''updated_at'' p)) (\<lambda>g.
           if jfield ''graph_ref'' p \<noteq> JStr (graph_ref g) then Inl (ValueError Bad_Document)
           else ebind (require_sha256 (jfield ''graph_digest'' p)) (\<lambda>d.
             if d \<noteq> gh_graph_digest g then Inl (SemanticError Graph_Digest_Mismatch) else Inr g)))))"

section \<open>Revisions\<close>

record graph_revision =
  gr_graph_id :: string
  gr_revision :: int
  gr_graph_digest :: string
  gr_parent_revision :: "int option"
  gr_parent_digest :: "string option"
  gr_patch_digest :: "string option"
  gr_registry_version :: string
  gr_registry_digest :: string
  gr_nodes :: "string list"
  gr_relations :: "string list"
  gr_committed_at :: int

definition revision_create ::
    "(string \<Rightarrow> string) \<Rightarrow> json \<Rightarrow> json \<Rightarrow> json \<Rightarrow> json \<Rightarrow> json \<Rightarrow> json \<Rightarrow> json \<Rightarrow> json \<Rightarrow> json list \<Rightarrow> json list \<Rightarrow> json
       \<Rightarrow> graph_revision result" where
  "revision_create h gid revision digest prev prevd patch version registry nodes relations committed =
     ebind (require_uuid4 gid) (\<lambda>gid.
     ebind (require_positive_int revision) (\<lambda>revision.
     ebind (require_sha256 digest) (\<lambda>digest.
     ebind (optional_value require_positive_int prev) (\<lambda>prev.
     ebind (optional_value require_sha256 prevd) (\<lambda>prevd.
       if (prev = None) \<noteq> (prevd = None) then Inl (ValueError Bad_Fields)
       else
         ebind (optional_value require_sha256 patch) (\<lambda>patch.
           if revision = 1 \<and> (prev \<noteq> None \<or> patch \<noteq> None) then Inl (ValueError Bad_Fields)
           else if revision > 1 \<and> (prev \<noteq> Some (revision - 1) \<or> patch = None) then Inl (ValueError Bad_Fields)
           else
             ebind (any_non_empty version) (\<lambda>version.
             ebind (require_sha256 registry) (\<lambda>registry.
             ebind (sha256_tuple nodes) (\<lambda>nodes.
             ebind (sha256_tuple relations) (\<lambda>relations.
             ebind (calculate_graph_digest h version registry nodes relations) (\<lambda>expected.
               if expected \<noteq> digest then Inl (SemanticError Graph_Digest_Mismatch)
               else ebind (normalize_timestamp committed) (\<lambda>committed.
                 Inr \<lparr>gr_graph_id = gid, gr_revision = revision, gr_graph_digest = digest, gr_parent_revision = prev,
                      gr_parent_digest = prevd, gr_patch_digest = patch, gr_registry_version = version,
                      gr_registry_digest = registry, gr_nodes = nodes, gr_relations = relations,
                      gr_committed_at = committed\<rparr>))))))))))))"

definition revision_from_initial_head :: "(string \<Rightarrow> string) \<Rightarrow> graph_head \<Rightarrow> graph_revision result" where
  "revision_from_initial_head h g =
     (if gh_revision g \<noteq> 1 then Inl (ValueError Bad_Fields)
      else revision_create h (JStr (gh_graph_id g)) (JInt 1) (JStr (gh_graph_digest g)) JNull JNull JNull
             (JStr (gh_registry_version g)) (JStr (gh_registry_digest g)) (map JStr (gh_nodes g)) (map JStr (gh_relations g))
             (JStr (isoformat (gh_created_at g))))"

definition revision_identity :: "graph_revision \<Rightarrow> (string \<times> json) list" where
  "revision_identity r =
     [(''schema_version'', JStr ''macr-semantic-graph-revision/v1''), (''graph_id'', JStr (gr_graph_id r)),
      (''graph_revision'', JInt (gr_revision r)), (''graph_digest'', JStr (gr_graph_digest r)),
      (''parent_revision'', jint (gr_parent_revision r)), (''parent_graph_digest'', jstr (gr_parent_digest r)),
      (''patch_digest'', jstr (gr_patch_digest r)), (''registry_version'', JStr (gr_registry_version r)),
      (''registry_digest'', JStr (gr_registry_digest r)), (''active_node_record_digests'', jstrs (gr_nodes r)),
      (''active_relation_digests'', jstrs (gr_relations r)), (''committed_at'', JStr (isoformat (gr_committed_at r)))]"

definition revision_digest :: "(string \<Rightarrow> string) \<Rightarrow> graph_revision \<Rightarrow> string" where
  "revision_digest h r = canonical_record_digest h ''macr.semantic.graph-revision.v1'' (JObj (revision_identity r))"

definition revision_to_dict :: "(string \<Rightarrow> string) \<Rightarrow> graph_revision \<Rightarrow> json" where
  "revision_to_dict h r = JObj (revision_identity r @ [(''revision_digest'', JStr (revision_digest h r))])"

definition revision_keys :: "string list" where
  "revision_keys = [''schema_version'', ''graph_id'', ''graph_revision'', ''graph_digest'', ''parent_revision'',
     ''parent_graph_digest'', ''patch_digest'', ''registry_version'', ''registry_digest'', ''active_node_record_digests'',
     ''active_relation_digests'', ''committed_at'', ''revision_digest'']"

definition revision_from_dict :: "(string \<Rightarrow> string) \<Rightarrow> json \<Rightarrow> graph_revision result" where
  "revision_from_dict h data =
     ebind (require_closed_mapping revision_keys data) (\<lambda>p.
       if jfield ''schema_version'' p \<noteq> JStr ''macr-semantic-graph-revision/v1'' then Inl (ValueError Bad_Version)
       else
         ebind (tuple_of (jfield ''active_node_record_digests'' p)) (\<lambda>nodes.
         ebind (tuple_of (jfield ''active_relation_digests'' p)) (\<lambda>relations.
         ebind (revision_create h (jfield ''graph_id'' p) (jfield ''graph_revision'' p) (jfield ''graph_digest'' p)
                  (jfield ''parent_revision'' p) (jfield ''parent_graph_digest'' p) (jfield ''patch_digest'' p)
                  (jfield ''registry_version'' p) (jfield ''registry_digest'' p) nodes relations (jfield ''committed_at'' p)) (\<lambda>r.
         ebind (require_sha256 (jfield ''revision_digest'' p)) (\<lambda>d.
           if d \<noteq> revision_digest h r then Inl (SemanticError Graph_Digest_Mismatch) else Inr r)))))"

end
