(* ===== verification/SemanticPatches.thy ===== *)
theory SemanticPatches
  imports SemanticGraph
begin

text \<open>
  \<open>semantic/validation.py\<close> and \<open>semantic/patch.py\<close>: a proposal offers a patch for one revision of a graph;
  \<open>SemanticPatchCompiler.compile\<close> checks it against the head and the active records and computes the active
  records of the next revision. The local variables of \<open>compile\<close> are the fields of \<open>compile_state\<close>; a
  Python dictionary is the list of its items in insertion order.
\<close>

section \<open>Status updates\<close>

record status_update =
  su_node_id :: string
  su_from_digest :: string
  su_to_status :: semantic_status
  su_reason_digest :: string
  su_evidence_refs :: "string list"

definition parse_semantic_status :: "node_type \<Rightarrow> json \<Rightarrow> semantic_status result" where
  "parse_semantic_status t v =
     (case status_from_text t v of Inl _ \<Rightarrow> Inl (SemanticError Status_Transition) | Inr s \<Rightarrow> Inr s)"

definition parse_status_update :: "(string \<Rightarrow> string) \<Rightarrow> json \<Rightarrow> semantic_node \<Rightarrow> status_update result" where
  "parse_status_update h update current =
     ebind (require_closed_mapping [''node_id'', ''from_record_digest'', ''to_status'', ''reason_digest'', ''evidence_refs''] update) (\<lambda>p.
       if jfield ''node_id'' p \<noteq> JStr (sn_node_id current) then Inl (SemanticError Patch_Invalid)
       else
         ebind (require_sha256 (jfield ''from_record_digest'' p)) (\<lambda>old.
           if old \<noteq> record_digest h current then Inl (SemanticError Patch_Invalid)
           else
             ebind (parse_semantic_status (sn_node_type current) (jfield ''to_status'' p)) (\<lambda>status.
               if status = sn_status current then Inl (SemanticError Status_Transition)
               else
                 ebind (require_string_array 128 (jfield ''evidence_refs'' p)) (\<lambda>evidence.
                   if (sn_node_type current = Ambiguity \<or> sn_node_type current = Obligation) \<and>
                      status = Resolution_Status Resolved \<and> evidence = [] then Inl (SemanticError Patch_Invalid)
                   else
                     ebind (require_sha256 (jfield ''reason_digest'' p)) (\<lambda>reason.
                       Inr \<lparr>su_node_id = sn_node_id current, su_from_digest = old, su_to_status = status,
                            su_reason_digest = reason, su_evidence_refs = evidence\<rparr>)))))"

section \<open>Proposals and commit requests\<close>

record patch_proposal =
  pp_proposal_id :: string
  pp_graph_id :: string
  pp_agent_run_id :: string
  pp_base_revision :: int
  pp_base_digest :: string
  pp_registry_version :: string
  pp_registry_digest :: string
  pp_patch :: semantic_patch

definition proposal_create ::
    "json \<Rightarrow> json \<Rightarrow> json \<Rightarrow> json \<Rightarrow> json \<Rightarrow> json \<Rightarrow> json \<Rightarrow> semantic_patch \<Rightarrow> patch_proposal result" where
  "proposal_create pid gid run revision digest version registry patch =
     ebind (require_uuid4 pid) (\<lambda>pid.
     ebind (require_uuid4 gid) (\<lambda>gid.
     ebind (require_uuid4 run) (\<lambda>run.
     ebind (require_positive_int revision) (\<lambda>revision.
     ebind (require_sha256 digest) (\<lambda>digest.
     ebind (any_non_empty version) (\<lambda>version.
     ebind (require_sha256 registry) (\<lambda>registry.
       if pt_base_graph_digest patch \<noteq> digest then Inl (SemanticError Patch_Invalid)
       else Inr \<lparr>pp_proposal_id = pid, pp_graph_id = gid, pp_agent_run_id = run, pp_base_revision = revision,
                 pp_base_digest = digest, pp_registry_version = version, pp_registry_digest = registry,
                 pp_patch = patch\<rparr>)))))))"

definition proposal_identity :: "(string \<Rightarrow> string) \<Rightarrow> patch_proposal \<Rightarrow> (string \<times> json) list" where
  "proposal_identity h p =
     [(''schema_version'', JStr ''macr-semantic-patch-proposal/v1''), (''proposal_id'', JStr (pp_proposal_id p)),
      (''graph_id'', JStr (pp_graph_id p)), (''agent_run_id'', JStr (pp_agent_run_id p)),
      (''base_graph_revision'', JInt (pp_base_revision p)), (''base_graph_digest'', JStr (pp_base_digest p)),
      (''registry_version'', JStr (pp_registry_version p)), (''registry_digest'', JStr (pp_registry_digest p)),
      (''patch'', patch_to_dict h (pp_patch p))]"

definition proposal_digest :: "(string \<Rightarrow> string) \<Rightarrow> patch_proposal \<Rightarrow> string" where
  "proposal_digest h p = canonical_record_digest h ''macr.semantic.patch-proposal.v1'' (JObj (proposal_identity h p))"

definition proposal_to_dict :: "(string \<Rightarrow> string) \<Rightarrow> patch_proposal \<Rightarrow> json" where
  "proposal_to_dict h p = JObj (proposal_identity h p @ [(''proposal_digest'', JStr (proposal_digest h p))])"

definition proposal_keys :: "string list" where
  "proposal_keys = [''schema_version'', ''proposal_id'', ''graph_id'', ''agent_run_id'', ''base_graph_revision'',
     ''base_graph_digest'', ''registry_version'', ''registry_digest'', ''patch'', ''proposal_digest'']"

definition proposal_from_dict :: "(string \<Rightarrow> string) \<Rightarrow> json \<Rightarrow> patch_proposal result" where
  "proposal_from_dict h data =
     ebind (require_closed_mapping proposal_keys data) (\<lambda>p.
       if jfield ''schema_version'' p \<noteq> JStr ''macr-semantic-patch-proposal/v1'' then Inl (ValueError Bad_Version)
       else
         ebind (patch_from_dict h (jfield ''patch'' p)) (\<lambda>patch.
         ebind (proposal_create (jfield ''proposal_id'' p) (jfield ''graph_id'' p) (jfield ''agent_run_id'' p)
                  (jfield ''base_graph_revision'' p) (jfield ''base_graph_digest'' p) (jfield ''registry_version'' p)
                  (jfield ''registry_digest'' p) patch) (\<lambda>r.
         ebind (require_sha256 (jfield ''proposal_digest'' p)) (\<lambda>supplied.
           if proposal_digest h r \<noteq> supplied then Inl (SemanticError Patch_Invalid) else Inr r))))"

record commit_request =
  cr_commit_id :: string
  cr_proposal :: patch_proposal
  cr_expected_revision :: int
  cr_expected_epoch :: int
  cr_permit_digest :: string
  cr_authorization :: text_reference

text \<open>The request repeats the fields of its proposal; its constructor builds the proposal from them and
  compares the digest.\<close>

definition request_create ::
    "(string \<Rightarrow> string) \<Rightarrow> json \<Rightarrow> json \<Rightarrow> json \<Rightarrow> json \<Rightarrow> json \<Rightarrow> json \<Rightarrow> json \<Rightarrow> json \<Rightarrow> json \<Rightarrow> json \<Rightarrow> json \<Rightarrow> json
       \<Rightarrow> text_reference \<Rightarrow> semantic_patch \<Rightarrow> commit_request result" where
  "request_create h cid pid pdigest gid run revision digest version registry erevision eepoch permit authorization patch =
     ebind (require_uuid4 cid) (\<lambda>cid.
     ebind (require_uuid4 pid) (\<lambda>pid.
     ebind (require_sha256 pdigest) (\<lambda>pdigest.
     ebind (require_uuid4 gid) (\<lambda>gid.
     ebind (require_uuid4 run) (\<lambda>run.
     ebind (require_positive_int revision) (\<lambda>revision.
     ebind (require_sha256 digest) (\<lambda>digest.
     ebind (any_non_empty version) (\<lambda>version.
     ebind (require_sha256 registry) (\<lambda>registry.
     ebind (require_positive_int erevision) (\<lambda>erevision.
     ebind (require_non_negative_int eepoch) (\<lambda>eepoch.
     ebind (require_sha256 permit) (\<lambda>permit.
     ebind (proposal_create (JStr pid) (JStr gid) (JStr run) (JInt revision) (JStr digest) (JStr version) (JStr registry) patch) (\<lambda>proposal.
       if proposal_digest h proposal \<noteq> pdigest then Inl (SemanticError Patch_Invalid)
       else Inr \<lparr>cr_commit_id = cid, cr_proposal = proposal, cr_expected_revision = erevision, cr_expected_epoch = eepoch,
                 cr_permit_digest = permit, cr_authorization = authorization\<rparr>)))))))))))))"

definition request_from_proposal ::
    "(string \<Rightarrow> string) \<Rightarrow> json \<Rightarrow> patch_proposal \<Rightarrow> json \<Rightarrow> json \<Rightarrow> json \<Rightarrow> text_reference \<Rightarrow> commit_request result" where
  "request_from_proposal h cid p erevision eepoch permit authorization =
     request_create h cid (JStr (pp_proposal_id p)) (JStr (proposal_digest h p)) (JStr (pp_graph_id p)) (JStr (pp_agent_run_id p))
       (JInt (pp_base_revision p)) (JStr (pp_base_digest p)) (JStr (pp_registry_version p)) (JStr (pp_registry_digest p))
       erevision eepoch permit authorization (pp_patch p)"

definition request_identity :: "(string \<Rightarrow> string) \<Rightarrow> commit_request \<Rightarrow> (string \<times> json) list" where
  "request_identity h c =
     (let p = cr_proposal c in
       [(''schema_version'', JStr ''macr-semantic-commit-request/v1''), (''commit_id'', JStr (cr_commit_id c)),
        (''proposal_id'', JStr (pp_proposal_id p)), (''proposal_digest'', JStr (proposal_digest h p)),
        (''graph_id'', JStr (pp_graph_id p)), (''agent_run_id'', JStr (pp_agent_run_id p)),
        (''base_graph_revision'', JInt (pp_base_revision p)), (''base_graph_digest'', JStr (pp_base_digest p)),
        (''registry_version'', JStr (pp_registry_version p)), (''registry_digest'', JStr (pp_registry_digest p)),
        (''expected_agent_revision'', JInt (cr_expected_revision c)), (''expected_agent_epoch'', JInt (cr_expected_epoch c)),
        (''ownership_permit_digest'', JStr (cr_permit_digest c)),
        (''authorization_reference'', JObj (reference_dict (cr_authorization c))), (''patch'', patch_to_dict h (pp_patch p))])"

definition request_digest :: "(string \<Rightarrow> string) \<Rightarrow> commit_request \<Rightarrow> string" where
  "request_digest h c = canonical_record_digest h ''macr.semantic.commit-request.v1'' (JObj (request_identity h c))"

definition request_to_dict :: "(string \<Rightarrow> string) \<Rightarrow> commit_request \<Rightarrow> json" where
  "request_to_dict h c = JObj (request_identity h c @ [(''request_digest'', JStr (request_digest h c))])"

definition request_keys :: "string list" where
  "request_keys = [''schema_version'', ''commit_id'', ''proposal_id'', ''proposal_digest'', ''graph_id'', ''agent_run_id'',
     ''base_graph_revision'', ''base_graph_digest'', ''registry_version'', ''registry_digest'', ''expected_agent_revision'',
     ''expected_agent_epoch'', ''ownership_permit_digest'', ''authorization_reference'', ''patch'', ''request_digest'']"

definition authorization_from_dict :: "json \<Rightarrow> text_reference result" where
  "authorization_from_dict v =
     ebind (require_closed_mapping [''source_kind'', ''source_id'', ''digest'', ''revision'', ''epoch'', ''scope''] v) (\<lambda>p.
       text_reference_create (jfield ''source_kind'' p) (jfield ''source_id'' p) (jfield ''digest'' p) (jfield ''revision'' p)
         (jfield ''epoch'' p) (jfield ''scope'' p))"

definition request_from_dict :: "(string \<Rightarrow> string) \<Rightarrow> json \<Rightarrow> commit_request result" where
  "request_from_dict h data =
     ebind (require_closed_mapping request_keys data) (\<lambda>p.
       if jfield ''schema_version'' p \<noteq> JStr ''macr-semantic-commit-request/v1'' then Inl (ValueError Bad_Version)
       else
         ebind (authorization_from_dict (jfield ''authorization_reference'' p)) (\<lambda>authorization.
         ebind (patch_from_dict h (jfield ''patch'' p)) (\<lambda>patch.
         ebind (request_create h (jfield ''commit_id'' p) (jfield ''proposal_id'' p) (jfield ''proposal_digest'' p)
                  (jfield ''graph_id'' p) (jfield ''agent_run_id'' p) (jfield ''base_graph_revision'' p)
                  (jfield ''base_graph_digest'' p) (jfield ''registry_version'' p) (jfield ''registry_digest'' p)
                  (jfield ''expected_agent_revision'' p) (jfield ''expected_agent_epoch'' p)
                  (jfield ''ownership_permit_digest'' p) authorization patch) (\<lambda>c.
         ebind (require_sha256 (jfield ''request_digest'' p)) (\<lambda>supplied.
           if request_digest h c \<noteq> supplied then Inl (SemanticError Patch_Invalid) else Inr c)))))"

section \<open>Compilation\<close>

record compiled_patch =
  cp_proposal_digest :: string
  cp_graph_id :: string
  cp_base_revision :: int
  cp_base_digest :: string
  cp_next_revision :: int
  cp_next_digest :: string
  cp_registry_version :: string
  cp_registry_digest :: string
  cp_active_nodes :: "semantic_node list"
  cp_active_relations :: "semantic_relation list"
  cp_added_nodes :: "semantic_node list"
  cp_added_relations :: "semantic_relation list"
  cp_status_updates :: "semantic_node list"
  cp_historical_nodes :: "semantic_node list"
  cp_superseded :: "string list"

definition compiled_digest :: "(string \<Rightarrow> string) \<Rightarrow> compiled_patch \<Rightarrow> string" where
  "compiled_digest h c = canonical_record_digest h ''macr.semantic.compiled-patch.v1''
     (JObj [(''proposal_digest'', JStr (cp_proposal_digest c)), (''graph_id'', JStr (cp_graph_id c)),
        (''base_graph_revision'', JInt (cp_base_revision c)), (''base_graph_digest'', JStr (cp_base_digest c)),
        (''next_graph_revision'', JInt (cp_next_revision c)), (''next_graph_digest'', JStr (cp_next_digest c)),
        (''registry_version'', JStr (cp_registry_version c)), (''registry_digest'', JStr (cp_registry_digest c)),
        (''active_node_digests'', jstrs (map (record_digest h) (cp_active_nodes c))),
        (''active_relation_digests'', jstrs (map (relation_digest h) (cp_active_relations c))),
        (''added_node_digests'', jstrs (map (record_digest h) (cp_added_nodes c))),
        (''added_relation_digests'', jstrs (map (relation_digest h) (cp_added_relations c))),
        (''status_update_digests'', jstrs (map (record_digest h) (cp_status_updates c))),
        (''superseded_record_digests'', jstrs (cp_superseded c))])"

record compile_state =
  cs_nodes :: "(string \<times> semantic_node) list"
  cs_consumed :: "string list"
  cs_historical :: "semantic_node list"
  cs_added :: "semantic_node list"
  cs_status :: "semantic_node list"

definition validate_node :: "semantic_registry \<Rightarrow> semantic_node \<Rightarrow> graph_head \<Rightarrow> unit result" where
  "validate_node reg n g =
     ebind (require_member (rg_node_types reg) (node_type_value (sn_node_type n))) (\<lambda>_.
     ebind (require_member (rg_statuses reg) (status_value (sn_status n))) (\<lambda>_.
       if list_ex (\<lambda>e. \<not> is_ok (require_member (rg_effects reg) e)) (sn_effects n) then Inl (SemanticError Patch_Invalid)
       else if sn_scope_ref n \<noteq> gh_scope_ref g then Inl (SemanticError Scope_Escalation)
       else Inr ()))"

definition supersession_set :: "string list \<Rightarrow> string list result" where
  "supersession_set refs =
     (case emap (\<lambda>r. require_sha256 (JStr r)) refs of
        Inl _ \<Rightarrow> Inl (SemanticError Supersession_Invalid) | Inr ds \<Rightarrow> Inr ds)"

definition add_node ::
    "(string \<Rightarrow> string) \<Rightarrow> semantic_registry \<Rightarrow> graph_head \<Rightarrow> string list \<Rightarrow> semantic_node \<Rightarrow> compile_state \<Rightarrow> compile_state result" where
  "add_node h reg g supersession n s =
     ebind (validate_node reg n g) (\<lambda>_.
       case map_of (cs_nodes s) (sn_node_id n) of
         None \<Rightarrow> Inr (s\<lparr>cs_nodes := AList.update (sn_node_id n) n (cs_nodes s), cs_added := cs_added s @ [n]\<rparr>)
       | Some old \<Rightarrow>
           if record_digest h old \<notin> set supersession then Inl (SemanticError Node_Conflict)
           else Inr (s\<lparr>cs_nodes := AList.update (sn_node_id n) n (cs_nodes s), cs_added := cs_added s @ [n],
                       cs_consumed := record_digest h old # cs_consumed s, cs_historical := cs_historical s @ [old]\<rparr>))"

fun add_nodes ::
    "(string \<Rightarrow> string) \<Rightarrow> semantic_registry \<Rightarrow> graph_head \<Rightarrow> string list \<Rightarrow> semantic_node list \<Rightarrow> compile_state \<Rightarrow> compile_state result" where
  "add_nodes h reg g supersession [] s = Inr s"
| "add_nodes h reg g supersession (n # ns) s = ebind (add_node h reg g supersession n s) (add_nodes h reg g supersession ns)"

text \<open>A key that is looked up in a dictionary has to be hashable.\<close>

fun hashable :: "json \<Rightarrow> bool" where
  "hashable (JObj kvs) = False"
| "hashable (JList xs) = list_all hashable xs"
| "hashable v = True"

definition update_node_id :: "json \<Rightarrow> json result" where
  "update_node_id u = (case u of JObj kvs \<Rightarrow> Inr (jfield ''node_id'' kvs) | _ \<Rightarrow> Inl (SemanticError Patch_Invalid))"

definition node_of :: "(string \<times> semantic_node) list \<Rightarrow> json \<Rightarrow> semantic_node result" where
  "node_of nodes k =
     (if \<not> hashable k then Inl TypeError
      else case k of
        JStr s \<Rightarrow> (case map_of nodes s of None \<Rightarrow> Inl (SemanticError Patch_Invalid) | Some n \<Rightarrow> Inr n)
      | _ \<Rightarrow> Inl (SemanticError Patch_Invalid))"

definition with_status :: "(string \<Rightarrow> string) \<Rightarrow> semantic_node \<Rightarrow> semantic_status \<Rightarrow> semantic_node result" where
  "with_status h n status =
     node_create h (JStr (sn_node_id n)) (sn_node_type n) (sn_payload n) (JStr (sn_scope_ref n)) status
       (map JStr (sn_effects n)) (map JStr (sn_constraints n)) (sn_policy n) (sn_provenance n) (sn_temporal n) (sn_bindings n)"

definition apply_update :: "(string \<Rightarrow> string) \<Rightarrow> string list \<Rightarrow> json \<Rightarrow> compile_state \<Rightarrow> compile_state result" where
  "apply_update h supersession u s =
     ebind (update_node_id u) (\<lambda>k.
     ebind (node_of (cs_nodes s) k) (\<lambda>old.
     ebind (parse_status_update h u old) (\<lambda>parsed.
       if record_digest h old \<notin> set supersession then Inl (SemanticError Supersession_Invalid)
       else
         ebind (with_status h old (su_to_status parsed)) (\<lambda>replacement.
           Inr (s\<lparr>cs_nodes := AList.update (sn_node_id old) replacement (cs_nodes s),
                  cs_consumed := record_digest h old # cs_consumed s, cs_historical := cs_historical s @ [old],
                  cs_added := cs_added s @ [replacement], cs_status := cs_status s @ [replacement]\<rparr>)))))"

fun apply_updates :: "(string \<Rightarrow> string) \<Rightarrow> string list \<Rightarrow> json list \<Rightarrow> compile_state \<Rightarrow> compile_state result" where
  "apply_updates h supersession [] s = Inr s"
| "apply_updates h supersession (u # us) s = ebind (apply_update h supersession u s) (apply_updates h supersession us)"

definition add_relation ::
    "semantic_registry \<Rightarrow> (string \<times> semantic_node) list \<Rightarrow> semantic_relation \<Rightarrow> (string \<times> semantic_relation) list
       \<Rightarrow> (string \<times> semantic_relation) list result" where
  "add_relation reg nodes r rels =
     (if map_of rels (sr_relation_id r) \<noteq> None then Inl (SemanticError Patch_Invalid)
      else case (map_of nodes (sr_source_ref r), map_of nodes (sr_target_ref r)) of
        (Some src, Some tgt) \<Rightarrow>
          (case require_relation reg (node_type_value (sn_node_type src)) (relation_value (sr_relation_type r))
                  (node_type_value (sn_node_type tgt)) of
             Inl e \<Rightarrow> if e = SemanticError Registry_Mismatch then Inl (SemanticError Relation_Direction) else Inl e
           | Inr _ \<Rightarrow> Inr (AList.update (sr_relation_id r) r rels))
      | _ \<Rightarrow> Inl (SemanticError Relation_Dangling))"

fun add_relations ::
    "semantic_registry \<Rightarrow> (string \<times> semantic_node) list \<Rightarrow> semantic_relation list \<Rightarrow> (string \<times> semantic_relation) list
       \<Rightarrow> (string \<times> semantic_relation) list result" where
  "add_relations reg nodes [] rels = Inr rels"
| "add_relations reg nodes (r # rs) rels = ebind (add_relation reg nodes r rels) (add_relations reg nodes rs)"

definition dangling :: "(string \<times> semantic_node) list \<Rightarrow> semantic_relation \<Rightarrow> bool" where
  "dangling nodes r \<longleftrightarrow> map_of nodes (sr_source_ref r) = None \<or> map_of nodes (sr_target_ref r) = None"

text \<open>The checks of the head and of the records before the patch is looked at.\<close>

definition compile_inputs ::
    "(string \<Rightarrow> string) \<Rightarrow> semantic_registry \<Rightarrow> graph_head \<Rightarrow> patch_proposal \<Rightarrow> semantic_node list \<Rightarrow> semantic_relation list \<Rightarrow> unit result" where
  "compile_inputs h reg g p nodes rels =
     (if pp_graph_id p \<noteq> gh_graph_id g \<or> pp_base_revision p \<noteq> gh_revision g \<or> pp_base_digest p \<noteq> gh_graph_digest g
      then Inl (SemanticError Graph_Stale)
      else if pp_registry_version p \<noteq> gh_registry_version g \<or> pp_registry_digest p \<noteq> gh_registry_digest g \<or>
        pp_registry_version p \<noteq> rg_version reg \<or> pp_registry_digest p \<noteq> registry_digest h reg
      then Inl (SemanticError Registry_Mismatch)
      else if set (map (record_digest h) nodes) \<noteq> set (gh_nodes g) \<or> set (map (relation_digest h) rels) \<noteq> set (gh_relations g)
      then Inl (SemanticError Graph_Digest_Mismatch)
      else if length (index sn_node_id nodes) \<noteq> length nodes then Inl (SemanticError Node_Conflict)
      else if length (index sr_relation_id rels) \<noteq> length rels then Inl (SemanticError Patch_Invalid)
      else Inr ())"

definition compile_patch ::
    "(string \<Rightarrow> string) \<Rightarrow> semantic_registry \<Rightarrow> graph_head \<Rightarrow> patch_proposal \<Rightarrow> semantic_node list \<Rightarrow> semantic_relation list
       \<Rightarrow> compiled_patch result" where
  "compile_patch h reg g p nodes rels =
     ebind (compile_inputs h reg g p nodes rels) (\<lambda>_.
     ebind (supersession_set (pt_supersession_refs (pp_patch p))) (\<lambda>supersession.
     ebind (add_nodes h reg g supersession (pt_add_nodes (pp_patch p))
              \<lparr>cs_nodes = index sn_node_id nodes, cs_consumed = [], cs_historical = [], cs_added = [], cs_status = []\<rparr>) (\<lambda>s.
     ebind (apply_updates h supersession (pt_status_updates (pp_patch p)) s) (\<lambda>s.
       if set (cs_consumed s) \<noteq> set supersession then Inl (SemanticError Supersession_Invalid)
       else
         ebind (add_relations reg (cs_nodes s) (pt_add_relations (pp_patch p)) (index sr_relation_id rels)) (\<lambda>rels.
           if list_ex (dangling (cs_nodes s)) (map snd rels) then Inl (SemanticError Relation_Dangling)
           else
             (let active_nodes = sort_key (record_digest h) (map snd (cs_nodes s));
                  active_relations = sort_key (relation_digest h) (map snd rels)
              in ebind (calculate_graph_digest h (gh_registry_version g) (gh_registry_digest g)
                          (map (record_digest h) active_nodes) (map (relation_digest h) active_relations)) (\<lambda>next.
                   Inr \<lparr>cp_proposal_digest = proposal_digest h p, cp_graph_id = gh_graph_id g,
                        cp_base_revision = gh_revision g, cp_base_digest = gh_graph_digest g,
                        cp_next_revision = gh_revision g + 1, cp_next_digest = next,
                        cp_registry_version = gh_registry_version g, cp_registry_digest = gh_registry_digest g,
                        cp_active_nodes = active_nodes, cp_active_relations = active_relations,
                        cp_added_nodes = sort_key (record_digest h) (cs_added s),
                        cp_added_relations = pt_add_relations (pp_patch p),
                        cp_status_updates = sort_key (record_digest h) (cs_status s),
                        cp_historical_nodes = sort_key (record_digest h) (map snd (index (record_digest h) (cs_historical s))),
                        cp_superseded = sort (remdups (cs_consumed s))\<rparr>)))))))"

end
