(* ===== verification/SemanticCommit.thy ===== *)
theory SemanticCommit
  imports SemanticPatches
begin

text \<open>
  \<open>semantic/commit.py\<close>: the head and the revision that a commit writes for a compiled patch
  (\<open>_write_compiled\<close>).
\<close>

definition next_head :: "(string \<Rightarrow> string) \<Rightarrow> graph_head \<Rightarrow> compiled_patch \<Rightarrow> int \<Rightarrow> graph_head result" where
  "next_head h g c committed =
     head_create h (JStr (gh_graph_id g)) (JStr (gh_scope_ref g)) (JInt (cp_next_revision c)) (JStr (gh_registry_version g))
       (JStr (gh_registry_digest g)) (map (JStr \<circ> record_digest h) (cp_active_nodes c))
       (map (JStr \<circ> relation_digest h) (cp_active_relations c)) (JStr (gh_created_by g)) (JStr (isoformat (gh_created_at g)))
       (JStr (isoformat committed))"

definition next_revision ::
    "(string \<Rightarrow> string) \<Rightarrow> graph_head \<Rightarrow> compiled_patch \<Rightarrow> string \<Rightarrow> graph_head \<Rightarrow> int \<Rightarrow> graph_revision result" where
  "next_revision h g c patch g' committed =
     revision_create h (JStr (gh_graph_id g)) (JInt (cp_next_revision c)) (JStr (cp_next_digest c)) (JInt (gh_revision g))
       (JStr (gh_graph_digest g)) (JStr patch) (JStr (gh_registry_version g)) (JStr (gh_registry_digest g))
       (map JStr (gh_nodes g')) (map JStr (gh_relations g')) (JStr (isoformat committed))"

end
