(* ===== verification/SemanticDocuments.thy ===== *)
theory SemanticDocuments
  imports SemanticPatches AgentDocuments
begin

text \<open>
  What the constructors of the semantic records accept is well formed, a well-formed record passes its
  constructor unchanged, and a document reads back as its record, up to the order of the keys in the JSON
  objects that the record carries.
\<close>

section \<open>Dictionaries\<close>

definition table :: "('a \<Rightarrow> string) \<Rightarrow> (string \<times> 'a) list \<Rightarrow> bool" where
  "table key m \<longleftrightarrow> distinct (map fst m) \<and> (\<forall>p \<in> set m. key (snd p) = fst p)"

lemma update_new: "k \<notin> fst ` set m \<Longrightarrow> AList.update k v m = m @ [(k, v)]"
  by (induction m) auto

lemma index_fold:
  "distinct (map key xs) \<Longrightarrow> key ` set xs \<inter> fst ` set m = {} \<Longrightarrow>
     fold (\<lambda>x. AList.update (key x) x) xs m = m @ map (\<lambda>x. (key x, x)) xs"
proof (induction xs arbitrary: m)
  case (Cons x xs)
  then have "fold (\<lambda>x. AList.update (key x) x) xs (m @ [(key x, x)]) = (m @ [(key x, x)]) @ map (\<lambda>x. (key x, x)) xs"
    by (intro Cons.IH) auto
  with Cons.prems show ?case by (simp add: update_new)
qed simp

lemma index_distinct: "distinct (map key xs) \<Longrightarrow> index key xs = map (\<lambda>x. (key x, x)) xs"
  using index_fold [of key xs "[]"] by (simp add: index_def)

lemma index_keys:
  "distinct (map fst m) \<Longrightarrow> distinct (map fst (fold (\<lambda>x. AList.update (key x) x) xs m))"
  "fst ` set (fold (\<lambda>x. AList.update (key x) x) xs m) = key ` set xs \<union> fst ` set m"
proof -
  show "distinct (map fst m) \<Longrightarrow> distinct (map fst (fold (\<lambda>x. AList.update (key x) x) xs m))"
    by (induction xs arbitrary: m) (simp_all add: AList.distinct_update)
  show "fst ` set (fold (\<lambda>x. AList.update (key x) x) xs m) = key ` set xs \<union> fst ` set m"
    by (induction xs arbitrary: m) (simp_all add: AList.dom_update)
qed

lemma index_length: "length (index key xs) = length xs \<longleftrightarrow> distinct (map key xs)"
proof
  assume l: "length (index key xs) = length xs"
  have d: "distinct (map fst (index key xs))" "set (map fst (index key xs)) = set (map key xs)"
    using index_keys [where m = "[]" and key = key and xs = xs] by (simp_all add: index_def)
  have "card (set (map key xs)) = length (map key xs)"
    using distinct_card [OF d(1)] d(2) l by simp
  then show "distinct (map key xs)" by (rule card_distinct)
qed (simp add: index_distinct)

lemma index_table: "distinct (map key xs) \<Longrightarrow> table key (index key xs) \<and> map snd (index key xs) = xs"
  by (simp add: index_distinct table_def comp_def)

lemma table_lookup:
  assumes "table key m"
  shows "map_of m k = Some x \<longleftrightarrow> x \<in> set (map snd m) \<and> key x = k"
  using assms by (force simp: table_def map_of_eq_Some_iff)

lemma table_keys: "table key m \<Longrightarrow> fst ` set m = key ` set (map snd m)"
  by (force simp: table_def)

lemma table_distinct:
  assumes "table key m"
  shows "distinct (map key (map snd m))"
proof -
  have "map key (map snd m) = map fst m" unfolding map_map by (rule map_cong) (use assms in \<open>auto simp: table_def\<close>)
  moreover have "distinct (map fst m)" using assms by (simp add: table_def)
  ultimately show ?thesis by (simp only:)
qed

lemma table_update:
  assumes t: "table key m"
  shows "table key (AList.update (key x) x m)"
    and "set (map snd (AList.update (key x) x m)) = insert x {y \<in> set (map snd m). key y \<noteq> key x}"
proof -
  have d: "distinct (map fst (AList.update (key x) x m))" using t by (simp add: table_def AList.distinct_update)
  have i: "(k, y) \<in> set (AList.update (key x) x m) \<longleftrightarrow> (if k = key x then y = x else (k, y) \<in> set m)" for k y
    using t map_of_eq_Some_iff [OF d, of k y] map_of_eq_Some_iff [of m k y] by (auto simp: table_def AList.update_conv')
  show "table key (AList.update (key x) x m)" unfolding table_def using d i t by (auto simp: table_def split: if_splits)
  show "set (map snd (AList.update (key x) x m)) = insert x {y \<in> set (map snd m). key y \<noteq> key x}"
  proof (rule set_eqI)
    fix y
    have "y \<in> set (map snd (AList.update (key x) x m)) \<longleftrightarrow> (\<exists>k. (k, y) \<in> set (AList.update (key x) x m))" by force
    also have "\<dots> \<longleftrightarrow> y = x \<or> (\<exists>k. k \<noteq> key x \<and> (k, y) \<in> set m)" unfolding i by auto
    also have "\<dots> \<longleftrightarrow> y \<in> insert x {y \<in> set (map snd m). key y \<noteq> key x}" using t by (force simp: table_def)
    finally show "y \<in> set (map snd (AList.update (key x) x m)) \<longleftrightarrow> y \<in> insert x {y \<in> set (map snd m). key y \<noteq> key x}" .
  qed
qed

section \<open>Well-formed values\<close>

definition strings_ok :: "nat \<Rightarrow> string list \<Rightarrow> bool" where
  "strings_ok m xs \<longleftrightarrow> (\<forall>s \<in> set xs. text_ok 512 s) \<and> length xs \<le> m \<and> distinct xs \<and> sorted xs"

definition object_ok :: "json \<Rightarrow> bool" where
  "object_ok v \<longleftrightarrow> (\<exists>kvs. v = JObj kvs) \<and> validate_json v = Inr ()"

lemma text_tuple: "emap (require_non_empty 512) vs = Inr xs \<Longrightarrow> \<forall>s \<in> set xs. text_ok 512 s"
  by (erule emap_all) (blast dest: require_non_empty_Inr)

lemma require_string_tuple_Inr: "require_string_tuple m vs = Inr xs \<Longrightarrow> strings_ok m xs"
  by (auto simp: require_string_tuple_def strings_ok_def ebind_Inr_iff dest!: text_tuple split: if_splits)

lemma require_string_tuple_ok [simp]:
  assumes "strings_ok m xs"
  shows "require_string_tuple m (map JStr xs) = Inr xs"
proof -
  have "emap (require_non_empty 512) (map JStr xs) = Inr xs"
    by (rule emap_map_ok) (use assms in \<open>simp add: strings_ok_def\<close>)
  with assms show ?thesis by (simp add: require_string_tuple_def strings_ok_def sorted_sort_id)
qed

lemma require_json_object_Inr: "require_json_object v = Inr w \<longleftrightarrow> object_ok v \<and> w = v"
  by (auto simp: require_json_object_def object_ok_def ebind_Inr_iff split: json.splits)

lemma optional_value_Inr: "optional_value f v = Inr x \<Longrightarrow> (case x of None \<Rightarrow> v = JNull | Some y \<Rightarrow> f v = Inr y)"
  by (auto simp: optional_value_def ebind_Inr_iff split: if_splits)

lemma optional_text_value [simp]:
  "(case x of None \<Rightarrow> True | Some s \<Rightarrow> f (JStr s) = Inr s) \<Longrightarrow> optional_value f (jstr x) = Inr x"
  by (cases x) (simp_all add: optional_value_def jstr_def)

lemma optional_int_value [simp]:
  "(case x of None \<Rightarrow> True | Some n \<Rightarrow> f (JInt n) = Inr n) \<Longrightarrow> optional_value f (jint x) = Inr x"
  by (cases x) (simp_all add: optional_value_def jint_def)

lemma check_simps [simp]:
  "is_sha256 s \<Longrightarrow> require_sha256 (JStr s) = Inr s" "is_uuid4 s \<Longrightarrow> require_uuid4 (JStr s) = Inr s"
  "1 \<le> n \<Longrightarrow> require_positive_int (JInt n) = Inr n" "0 \<le> n \<Longrightarrow> require_non_negative_int (JInt n) = Inr n"
  "datetime_ok t \<Longrightarrow> normalize_timestamp (JStr (isoformat t)) = Inr t"
  by (simp_all add: require_Inr)

lemma tuple_of_simps [simp]: "tuple_of (JList xs) = Inr xs" "tuple_of (jstrs ss) = Inr (map JStr ss)"
  by (simp_all add: tuple_of_def jstrs_def)

lemma reads_jstrs [simp]: "reads f \<Longrightarrow> f (jstrs ss) = jstrs ss"
  by (simp add: jstrs_def comp_def)

lemma reads_jint [simp]: "reads f \<Longrightarrow> f (jint x) = jint x"
  by (cases x) (simp_all add: jint_def)

lemma reads_object: "reads f \<Longrightarrow> object_ok v \<Longrightarrow> object_ok (f v)"
  using validate_norm(1) [of v] by (auto simp: reads_def object_ok_def simp del: validate_norm)

lemma validate_jstrs [simp]: "validate_json (jstrs ss) = Inr ()" "validate_items (map JStr ss) = Inr ()"
proof -
  show v: "validate_items (map JStr ss) = Inr ()" by (induction ss) simp_all
  show "validate_json (jstrs ss) = Inr ()" by (simp add: jstrs_def v)
qed

lemma validate_jint [simp]: "validate_json (jint x) = Inr ()"
  by (cases x) (simp_all add: jint_def)

text \<open>A digest does not see in which order the keys of an object were written.\<close>

lemma digest_reads:
  assumes "json_norm v = json_norm w"
  shows "canonical_record_digest h ns v = canonical_record_digest h ns w"
  using assms by (simp add: canonical_record_digest_def sha256_hex_def)

lemma reads_same: "reads f \<Longrightarrow> json_norm (f v) = json_norm v"
  by (auto simp: reads_def json_norm_idem)

lemma node_type_of_value [simp]: "enum_of node_type_value node_types (JStr (node_type_value x)) = Inr x"
  by (cases x) (simp_all add: enum_of_def node_types_def)

lemma lifecycle_of_value [simp]: "enum_of lifecycle_value lifecycle_statuses (JStr (lifecycle_value x)) = Inr x"
  by (cases x) (simp_all add: enum_of_def lifecycle_statuses_def)

lemma claim_of_value [simp]: "enum_of claim_value claim_statuses (JStr (claim_value x)) = Inr x"
  by (cases x) (simp_all add: enum_of_def claim_statuses_def)

lemma resolution_of_value [simp]: "enum_of resolution_value resolution_statuses (JStr (resolution_value x)) = Inr x"
  by (cases x) (simp_all add: enum_of_def resolution_statuses_def)

lemma external_kind_of_value [simp]: "enum_of external_kind_value external_kinds (JStr (external_kind_value x)) = Inr x"
  by (cases x) (simp_all add: enum_of_def external_kinds_def)

lemma artifact_role_of_value [simp]: "enum_of artifact_role_value artifact_roles (JStr (artifact_role_value x)) = Inr x"
  by (cases x) (simp_all add: enum_of_def artifact_roles_def)

lemma relation_of_value [simp]: "enum_of relation_value relation_types (JStr (relation_value t)) = Inr t"
  by (cases t) (simp_all add: enum_of_def relation_types_def)

lemma semantic_event_of_value [simp]:
  "enum_of semantic_event_value semantic_event_types (JStr (semantic_event_value t)) = Inr t"
  by (cases t) (simp_all add: enum_of_def semantic_event_types_def)

lemma status_text [simp]: "status_fits t s \<Longrightarrow> status_from_text t (JStr (status_value s)) = Inr s"
  by (cases s) (auto simp: status_from_text_def)

lemma status_from_text_Inr: "status_from_text t v = Inr s \<Longrightarrow> status_fits t s"
  by (auto simp: status_from_text_def ebind_Inr_iff split: json.splits if_splits)

section \<open>Well-formed records\<close>

definition profile_ok :: "semantic_profile \<Rightarrow> bool" where
  "profile_ok p \<longleftrightarrow> text_ok 512 (sp_system_id p) \<and> text_ok 512 (sp_profile_id p) \<and> text_ok 512 (sp_profile_version p)
     \<and> (case sp_registry_ref p of None \<Rightarrow> True | Some s \<Rightarrow> text_ok 512 s)
     \<and> (case sp_registry_revision p of None \<Rightarrow> True | Some n \<Rightarrow> 1 \<le> n)
     \<and> (case sp_registry_digest p of None \<Rightarrow> True | Some d \<Rightarrow> is_sha256 d)
     \<and> (sp_registry_ref p = None \<longleftrightarrow> sp_registry_revision p = None) \<and> (sp_registry_ref p = None \<longleftrightarrow> sp_registry_digest p = None)
     \<and> (case sp_decoder p of None \<Rightarrow> True | Some s \<Rightarrow> text_ok 512 s)"

definition external_ok :: "external_binding \<Rightarrow> bool" where
  "external_ok b \<longleftrightarrow> text_ok 512 (eb_semantic_ref b) \<and> profile_ok (eb_profile b) \<and> text_ok 512 (eb_object_ref b)
     \<and> is_sha256 (eb_object_digest b)"

definition provenance_ok :: "provenance \<Rightarrow> bool" where
  "provenance_ok p \<longleftrightarrow> text_ok 512 (pv_origin_kind p) \<and> text_ok 512 (pv_origin_ref p) \<and> strings_ok 128 (pv_source_refs p)
     \<and> (case pv_agent_run_id p of None \<Rightarrow> True | Some r \<Rightarrow> is_uuid4 r) \<and> text_ok 512 (pv_created_by_ref p)
     \<and> datetime_ok (pv_created_at p)"

definition node_ok :: "(string \<Rightarrow> string) \<Rightarrow> semantic_node \<Rightarrow> bool" where
  "node_ok h n \<longleftrightarrow> text_ok 512 (sn_node_id n) \<and> object_ok (sn_payload n) \<and> text_ok 512 (sn_scope_ref n)
     \<and> status_fits (sn_node_type n) (sn_status n) \<and> strings_ok 128 (sn_effects n) \<and> strings_ok 128 (sn_constraints n)
     \<and> object_ok (sn_policy n) \<and> provenance_ok (sn_provenance n) \<and> object_ok (sn_temporal n)
     \<and> canonical_list (external_digest h) (sn_bindings n)
     \<and> (\<forall>b \<in> set (sn_bindings n). external_ok b \<and> eb_semantic_ref b = sn_node_id n)"

definition relation_ok :: "semantic_relation \<Rightarrow> bool" where
  "relation_ok r \<longleftrightarrow> text_ok 512 (sr_relation_id r) \<and> text_ok 512 (sr_source_ref r) \<and> text_ok 512 (sr_target_ref r)
     \<and> object_ok (sr_qualifiers r) \<and> provenance_ok (sr_provenance r)"

definition patch_ok :: "(string \<Rightarrow> string) \<Rightarrow> semantic_patch \<Rightarrow> bool" where
  "patch_ok h p \<longleftrightarrow> text_ok 512 (pt_patch_id p) \<and> is_sha256 (pt_base_graph_digest p)
     \<and> (\<forall>n \<in> set (pt_add_nodes p). node_ok h n) \<and> canonical_list (record_digest h) (pt_add_nodes p)
     \<and> (\<forall>r \<in> set (pt_add_relations p). relation_ok r) \<and> canonical_list (relation_digest h) (pt_add_relations p)
     \<and> (\<forall>u \<in> set (pt_status_updates p). object_ok u) \<and> canonical_list (update_key h) (pt_status_updates p)
     \<and> strings_ok 128 (pt_supersession_refs p) \<and> text_ok 512 (pt_producer_ref p)"

lemma profile_create_Inr: "profile_create s p v rr rv rd d = Inr x \<Longrightarrow> profile_ok x"
  by (auto simp: profile_create_def profile_ok_def ebind_Inr_iff require_Inr dest!: require_non_empty_Inr optional_text
      optional_value_Inr split: if_splits option.splits)

lemma profile_from_dict_Inr: "profile_from_dict h v = Inr x \<Longrightarrow> profile_ok x"
  by (auto simp: profile_from_dict_def ebind_Inr_iff dest!: profile_create_Inr)

lemma external_create_Inr: "external_create r p ob d k a = Inr x \<Longrightarrow> profile_ok p \<Longrightarrow> external_ok x"
  by (auto simp: external_create_def external_ok_def ebind_Inr_iff require_Inr dest!: require_non_empty_Inr)

lemma external_from_dict_Inr: "external_from_dict h v = Inr x \<Longrightarrow> external_ok x"
  by (auto simp: external_from_dict_def ebind_Inr_iff dest!: profile_from_dict_Inr external_create_Inr)

lemma provenance_create_Inr: "provenance_create k r ss a c t = Inr x \<Longrightarrow> provenance_ok x"
  by (auto simp: provenance_create_def provenance_ok_def ebind_Inr_iff require_Inr dest!: require_non_empty_Inr
      require_string_tuple_Inr optional_value_Inr split: option.splits)

lemma provenance_from_dict_Inr: "provenance_from_dict h v = Inr x \<Longrightarrow> provenance_ok x"
  by (auto simp: provenance_from_dict_def ebind_Inr_iff dest!: provenance_create_Inr)

lemma node_create_Inr:
  assumes "node_create h nid t payload scope status effects constraints policy prov temporal bindings = Inr n"
    and "provenance_ok prov" "\<forall>b \<in> set bindings. external_ok b"
  shows "node_ok h n"
  using assms
  by (auto simp: node_create_def node_ok_def ebind_Inr_iff require_json_object_Inr list_ex_iff dest!: require_non_empty_Inr
      require_string_tuple_Inr canonical_bindings_Inr split: if_splits)

lemma semantic_node_from_dict_Inr:
  assumes "semantic_node_from_dict h v = Inr n"
  shows "node_ok h n"
proof -
  obtain nid t payload scope status effects constraints policy prov temporal docs bindings where
    "node_create h nid t payload scope status effects constraints policy prov temporal bindings = Inr n"
    "provenance_ok prov" "emap (external_from_dict h) docs = Inr bindings"
    using assms by (auto simp: semantic_node_from_dict_def ebind_Inr_iff dest!: provenance_from_dict_Inr)
  moreover have "\<forall>b \<in> set bindings. external_ok b"
    by (rule emap_all [OF calculation(3)]) (rule external_from_dict_Inr)
  ultimately show ?thesis using node_create_Inr by blast
qed

lemma relation_create_Inr: "relation_create i s t g q p = Inr r \<Longrightarrow> provenance_ok p \<Longrightarrow> relation_ok r"
  by (auto simp: relation_create_def relation_ok_def ebind_Inr_iff require_json_object_Inr dest!: require_non_empty_Inr)

lemma relation_from_dict_Inr: "relation_from_dict h v = Inr r \<Longrightarrow> relation_ok r"
  by (auto simp: relation_from_dict_def ebind_Inr_iff dest!: provenance_from_dict_Inr relation_create_Inr)

lemma object_tuple: "emap require_json_object us = Inr vs \<Longrightarrow> \<forall>u \<in> set vs. object_ok u"
  by (erule emap_all) (simp add: require_json_object_Inr)

lemma patch_create_Inr:
  assumes "patch_create h pid base nodes relations updates refs producer = Inr p"
    and "\<forall>n \<in> set nodes. node_ok h n" "\<forall>r \<in> set relations. relation_ok r"
  shows "patch_ok h p"
  using assms
  by (auto simp: patch_create_def patch_ok_def ebind_Inr_iff require_Inr dest!: require_non_empty_Inr object_tuple
      require_string_tuple_Inr canonical_bindings_Inr)

lemma patch_from_dict_Inr:
  assumes "patch_from_dict h v = Inr p"
  shows "patch_ok h p"
proof -
  obtain pid base nd nodes rd relations updates refs producer where
    "patch_create h pid base nodes relations updates refs producer = Inr p"
    "emap (semantic_node_from_dict h) nd = Inr nodes" "emap (relation_from_dict h) rd = Inr relations"
    using assms by (auto simp: patch_from_dict_def ebind_Inr_iff)
  moreover have "\<forall>n \<in> set nodes. node_ok h n"
    by (rule emap_all [OF calculation(2)]) (rule semantic_node_from_dict_Inr)
  moreover have "\<forall>r \<in> set relations. relation_ok r"
    by (rule emap_all [OF calculation(3)]) (rule relation_from_dict_Inr)
  ultimately show ?thesis by (blast intro: patch_create_Inr)
qed

text \<open>A node with another status, as a status update makes it.\<close>

lemma with_status_Inr:
  assumes "node_ok h n"
  shows "with_status h n s = (if status_fits (sn_node_type n) s then Inr (n\<lparr>sn_status := s\<rparr>) else Inl (ValueError Bad_Choice))"
proof -
  have p: "require_json_object (sn_payload n) = Inr (sn_payload n)" "require_json_object (sn_policy n) = Inr (sn_policy n)"
    "require_json_object (sn_temporal n) = Inr (sn_temporal n)"
    using assms by (simp_all add: require_json_object_Inr node_ok_def)
  have b: "\<not> list_ex (\<lambda>b. eb_semantic_ref b \<noteq> sn_node_id n) (sn_bindings n)"
    using assms by (simp add: node_ok_def list_ex_iff)
  show ?thesis
    using assms b by (simp add: with_status_def node_create_def p node_ok_def guard_def)
qed

lemma with_status_ok: "node_ok h n \<Longrightarrow> with_status h n s = Inr m \<Longrightarrow> m = n\<lparr>sn_status := s\<rparr> \<and> node_ok h m"
  by (auto simp: with_status_Inr node_ok_def split: if_splits)

section \<open>Documents read back\<close>

lemma profile_reads:
  assumes rd: "reads f" and ok: "profile_ok p" and h: "hex_hash h"
  shows "profile_from_dict h (f (profile_to_dict h p)) = Inr p"
proof -
  let ?kvs = "profile_identity p @ [(''binding_digest'', JStr (profile_digest h p))]"
  obtain lvs where l: "require_closed_mapping profile_keys (f (JObj ?kvs)) = Inr lvs" "\<And>k. jfield k lvs = f (jfield k ?kvs)"
    by (rule closed_mapping_reads [OF rd, of ?kvs profile_keys]) (simp_all add: profile_identity_def profile_keys_def)
  have c: "profile_create (JStr (sp_system_id p)) (JStr (sp_profile_id p)) (JStr (sp_profile_version p)) (jstr (sp_registry_ref p))
      (jint (sp_registry_revision p)) (jstr (sp_registry_digest p)) (jstr (sp_decoder p)) = Inr p"
    using ok by (auto simp: profile_create_def profile_ok_def split: option.splits)
  have d: "require_same_digest (profile_digest h p) (JStr (profile_digest h p)) = Inr ()"
    using canonical_record_digest_hex [OF h] by (simp add: require_same_digest_Inr profile_digest_def)
  have f: "jfield ''system_id'' lvs = JStr (sp_system_id p)" "jfield ''profile_id'' lvs = JStr (sp_profile_id p)"
    "jfield ''profile_version'' lvs = JStr (sp_profile_version p)" "jfield ''registry_ref'' lvs = jstr (sp_registry_ref p)"
    "jfield ''registry_revision'' lvs = jint (sp_registry_revision p)" "jfield ''registry_digest'' lvs = jstr (sp_registry_digest p)"
    "jfield ''decoder_contract_ref'' lvs = jstr (sp_decoder p)" "jfield ''binding_digest'' lvs = JStr (profile_digest h p)"
    using rd unfolding l(2) by (simp_all add: profile_identity_def)
  show ?thesis unfolding profile_from_dict_def profile_to_dict_def l(1) ebind_simps f c d ..
qed

lemma validate_profile [simp]: "validate_json (profile_to_dict h p) = Inr ()"
  by (simp add: profile_to_dict_def profile_identity_def)

lemma external_reads:
  assumes rd: "reads f" and ok: "external_ok b" and h: "hex_hash h"
  shows "external_from_dict h (f (external_to_dict h b)) = Inr b"
proof -
  obtain lvs where l: "require_closed_mapping external_keys (f (JObj (external_members h b))) = Inr lvs"
    "\<And>k. jfield k lvs = f (jfield k (external_members h b))"
    by (rule closed_mapping_reads [OF rd, of "external_members h b" external_keys]) (simp_all add: external_members_def external_keys_def)
  have p: "profile_from_dict h (f (profile_to_dict h (eb_profile b))) = Inr (eb_profile b)"
    using profile_reads [OF rd _ h] ok by (simp add: external_ok_def)
  have c: "external_create (JStr (eb_semantic_ref b)) (eb_profile b) (JStr (eb_object_ref b)) (JStr (eb_object_digest b)) (eb_kind b) (eb_role b) = Inr b"
    using ok by (simp add: external_create_def external_ok_def)
  have d: "require_same_digest (external_digest h b) (JStr (external_digest h b)) = Inr ()"
    using canonical_record_digest_hex [OF h] by (simp add: require_same_digest_Inr external_digest_def)
  have f: "jfield ''semantic_ref'' lvs = JStr (eb_semantic_ref b)" "jfield ''profile'' lvs = f (profile_to_dict h (eb_profile b))"
    "jfield ''external_object_ref'' lvs = JStr (eb_object_ref b)" "jfield ''external_object_digest'' lvs = JStr (eb_object_digest b)"
    "jfield ''binding_kind'' lvs = JStr (external_kind_value (eb_kind b))"
    "jfield ''artifact_role'' lvs = JStr (artifact_role_value (eb_role b))" "jfield ''binding_digest'' lvs = JStr (external_digest h b)"
    using rd unfolding l(2) by (simp_all add: external_members_def)
  show ?thesis unfolding external_from_dict_def external_to_dict_def l(1) ebind_simps f p external_kind_of_value artifact_role_of_value c d ..
qed

lemma validate_external [simp]: "validate_json (external_to_dict h b) = Inr ()"
  by (simp add: external_to_dict_def external_members_def)

lemma provenance_reads:
  assumes rd: "reads f" and ok: "provenance_ok p" and h: "hex_hash h"
  shows "provenance_from_dict h (f (provenance_to_dict h p)) = Inr p"
proof -
  let ?kvs = "provenance_identity p @ [(''provenance_digest'', JStr (provenance_digest h p))]"
  obtain lvs where l: "require_closed_mapping provenance_keys (f (JObj ?kvs)) = Inr lvs" "\<And>k. jfield k lvs = f (jfield k ?kvs)"
    by (rule closed_mapping_reads [OF rd, of ?kvs provenance_keys]) (simp_all add: provenance_identity_def provenance_keys_def)
  have c: "provenance_create (JStr (pv_origin_kind p)) (JStr (pv_origin_ref p)) (map JStr (pv_source_refs p)) (jstr (pv_agent_run_id p))
      (JStr (pv_created_by_ref p)) (JStr (isoformat (pv_created_at p))) = Inr p"
    using ok by (simp add: provenance_create_def provenance_ok_def split: option.splits)
  have d: "require_same_digest (provenance_digest h p) (JStr (provenance_digest h p)) = Inr ()"
    using canonical_record_digest_hex [OF h] by (simp add: require_same_digest_Inr provenance_digest_def)
  have f: "jfield ''origin_kind'' lvs = JStr (pv_origin_kind p)" "jfield ''origin_ref'' lvs = JStr (pv_origin_ref p)"
    "tuple_of (jfield ''source_refs'' lvs) = Inr (map JStr (pv_source_refs p))" "jfield ''agent_run_id'' lvs = jstr (pv_agent_run_id p)"
    "jfield ''created_by_ref'' lvs = JStr (pv_created_by_ref p)" "jfield ''created_at'' lvs = JStr (isoformat (pv_created_at p))"
    "jfield ''provenance_digest'' lvs = JStr (provenance_digest h p)"
    using rd unfolding l(2) by (simp_all add: provenance_identity_def)
  show ?thesis unfolding provenance_from_dict_def provenance_to_dict_def l(1) ebind_simps f c d ..
qed

lemma validate_provenance [simp]: "validate_json (provenance_to_dict h p) = Inr ()"
  by (simp add: provenance_to_dict_def provenance_identity_def)

lemma validate_mapped: "\<forall>x \<in> set xs. validate_json (g x) = Inr () \<Longrightarrow> validate_items (map g xs) = Inr ()"
  by (induction xs) simp_all

lemma object_valid: "object_ok v \<Longrightarrow> validate_json v = Inr ()"
  by (simp add: object_ok_def)

text \<open>A record whose JSON objects are read by \<open>f\<close>.\<close>

definition node_read :: "(json \<Rightarrow> json) \<Rightarrow> semantic_node \<Rightarrow> semantic_node" where
  "node_read f n = n\<lparr>sn_payload := f (sn_payload n), sn_policy := f (sn_policy n), sn_temporal := f (sn_temporal n)\<rparr>"

definition relation_read :: "(json \<Rightarrow> json) \<Rightarrow> semantic_relation \<Rightarrow> semantic_relation" where
  "relation_read f r = r\<lparr>sr_qualifiers := f (sr_qualifiers r)\<rparr>"

definition patch_read :: "(json \<Rightarrow> json) \<Rightarrow> semantic_patch \<Rightarrow> semantic_patch" where
  "patch_read f p = p\<lparr>pt_add_nodes := map (node_read f) (pt_add_nodes p), pt_add_relations := map (relation_read f) (pt_add_relations p),
     pt_status_updates := map f (pt_status_updates p)\<rparr>"

lemma node_read_digests [simp]:
  assumes "reads f"
  shows "content_digest h (node_read f n) = content_digest h n" "record_digest h (node_read f n) = record_digest h n"
proof -
  show c: "content_digest h (node_read f n) = content_digest h n"
    unfolding content_digest_def by (rule digest_reads) (simp add: node_read_def reads_same [OF assms])
  show "record_digest h (node_read f n) = record_digest h n"
    unfolding record_digest_def c by (rule digest_reads) (simp add: node_read_def reads_same [OF assms])
qed

lemma relation_read_digest [simp]:
  assumes "reads f"
  shows "relation_digest h (relation_read f r) = relation_digest h r"
  unfolding relation_digest_def by (rule digest_reads) (simp add: relation_read_def reads_same [OF assms])

lemma node_digests_hex:
  assumes "hex_hash h"
  shows "is_sha256 (content_digest h n)" "is_sha256 (record_digest h n)" "is_sha256 (relation_digest h r)"
  unfolding content_digest_def record_digest_def relation_digest_def by (rule canonical_record_digest_hex [OF assms])+

lemma node_read_ok: "reads f \<Longrightarrow> node_ok h n \<Longrightarrow> node_ok h (node_read f n)"
  by (simp add: node_ok_def node_read_def reads_object)

lemma relation_read_ok: "reads f \<Longrightarrow> relation_ok r \<Longrightarrow> relation_ok (relation_read f r)"
  by (simp add: relation_ok_def relation_read_def reads_object)

lemma create_same_node:
  assumes "node_ok h n"
  shows "node_create h (JStr (sn_node_id n)) (sn_node_type n) (sn_payload n) (JStr (sn_scope_ref n)) (sn_status n)
    (map JStr (sn_effects n)) (map JStr (sn_constraints n)) (sn_policy n) (sn_provenance n) (sn_temporal n) (sn_bindings n) = Inr n"
  using with_status_Inr [OF assms, of "sn_status n"] assms by (simp add: with_status_def node_ok_def)

lemma validate_node_dict [simp]: "node_ok h n \<Longrightarrow> validate_json (semantic_node_to_dict h n) = Inr ()"
  using validate_mapped [of "sn_bindings n" "external_to_dict h"]
  by (simp add: semantic_node_to_dict_def semantic_node_members_def node_ok_def object_valid)

lemma semantic_node_reads:
  assumes rd: "reads f" and ok: "node_ok h n" and h: "hex_hash h"
  shows "semantic_node_from_dict h (f (semantic_node_to_dict h n)) = Inr (node_read f n)"
proof -
  let ?m = "node_read f n" and ?kvs = "semantic_node_members h n"
  have v: "validate_members ?kvs = Inr ()" using validate_node_dict [OF ok] by (simp add: semantic_node_to_dict_def)
  obtain lvs where l: "require_closed_mapping semantic_node_keys (f (JObj ?kvs)) = Inr lvs" "\<And>k. jfield k lvs = f (jfield k ?kvs)"
    by (rule closed_mapping_reads [OF rd, of ?kvs semantic_node_keys])
      (simp_all add: v, simp_all add: semantic_node_members_def semantic_node_keys_def)
  have p: "provenance_from_dict h (f (provenance_to_dict h (sn_provenance n))) = Inr (sn_provenance n)"
    using provenance_reads [OF rd _ h] ok by (simp add: node_ok_def)
  have b: "emap (external_from_dict h) (map (\<lambda>b. f (external_to_dict h b)) (sn_bindings n)) = Inr (sn_bindings n)"
    by (rule emap_map_ok) (use external_reads [OF rd _ h] ok in \<open>simp add: node_ok_def\<close>)
  have s: "status_from_text (sn_node_type n) (JStr (status_value (sn_status n))) = Inr (sn_status n)"
    using ok by (simp add: node_ok_def)
  have c: "node_create h (JStr (sn_node_id n)) (sn_node_type n) (f (sn_payload n)) (JStr (sn_scope_ref n)) (sn_status n)
      (map JStr (sn_effects n)) (map JStr (sn_constraints n)) (f (sn_policy n)) (sn_provenance n) (f (sn_temporal n)) (sn_bindings n) = Inr ?m"
    using create_same_node [OF node_read_ok [OF rd ok]] by (simp add: node_read_def)
  have d: "require_same_digest (content_digest h ?m) (JStr (content_digest h n)) = Inr ()"
      "require_same_digest (record_digest h ?m) (JStr (record_digest h n)) = Inr ()"
    using node_digests_hex [OF h] rd by (simp_all add: require_same_digest_Inr)
  have f: "jfield ''node_id'' lvs = JStr (sn_node_id n)" "jfield ''node_type'' lvs = JStr (node_type_value (sn_node_type n))"
    "jfield ''payload'' lvs = f (sn_payload n)" "jfield ''scope_ref'' lvs = JStr (sn_scope_ref n)"
    "jfield ''status'' lvs = JStr (status_value (sn_status n))" "tuple_of (jfield ''effects'' lvs) = Inr (map JStr (sn_effects n))"
    "tuple_of (jfield ''constraints'' lvs) = Inr (map JStr (sn_constraints n))" "jfield ''policy'' lvs = f (sn_policy n)"
    "jfield ''provenance'' lvs = f (provenance_to_dict h (sn_provenance n))" "jfield ''temporal'' lvs = f (sn_temporal n)"
    "tuple_of (jfield ''external_bindings'' lvs) = Inr (map (\<lambda>b. f (external_to_dict h b)) (sn_bindings n))"
    "jfield ''content_digest'' lvs = JStr (content_digest h n)" "jfield ''record_digest'' lvs = JStr (record_digest h n)"
    using rd unfolding l(2) by (simp_all add: semantic_node_members_def comp_def)
  show ?thesis unfolding semantic_node_from_dict_def semantic_node_to_dict_def l(1) ebind_simps f node_type_of_value s p b c d ..
qed

lemma validate_relation_dict [simp]: "relation_ok r \<Longrightarrow> validate_json (relation_to_dict h r) = Inr ()"
  by (simp add: relation_to_dict_def relation_members_def relation_ok_def object_valid)

lemma relation_reads:
  assumes rd: "reads f" and ok: "relation_ok r" and h: "hex_hash h"
  shows "relation_from_dict h (f (relation_to_dict h r)) = Inr (relation_read f r)"
proof -
  let ?kvs = "relation_members h r"
  have v: "validate_members ?kvs = Inr ()" using validate_relation_dict [OF ok] by (simp add: relation_to_dict_def)
  obtain lvs where l: "require_closed_mapping relation_keys (f (JObj ?kvs)) = Inr lvs" "\<And>k. jfield k lvs = f (jfield k ?kvs)"
    by (rule closed_mapping_reads [OF rd, of ?kvs relation_keys]) (simp_all add: v, simp_all add: relation_members_def relation_keys_def)
  have p: "provenance_from_dict h (f (provenance_to_dict h (sr_provenance r))) = Inr (sr_provenance r)"
    using provenance_reads [OF rd _ h] ok by (simp add: relation_ok_def)
  have q: "require_json_object (f (sr_qualifiers r)) = Inr (f (sr_qualifiers r))"
    using ok reads_object [OF rd] by (simp add: require_json_object_Inr relation_ok_def)
  have c: "relation_create (JStr (sr_relation_id r)) (JStr (sr_source_ref r)) (sr_relation_type r) (JStr (sr_target_ref r))
      (f (sr_qualifiers r)) (sr_provenance r) = Inr (relation_read f r)"
    using ok by (simp add: relation_create_def relation_ok_def q relation_read_def)
  have d: "require_same_digest (relation_digest h (relation_read f r)) (JStr (relation_digest h r)) = Inr ()"
    using node_digests_hex [OF h] rd by (simp add: require_same_digest_Inr)
  have f: "jfield ''relation_id'' lvs = JStr (sr_relation_id r)" "jfield ''source_ref'' lvs = JStr (sr_source_ref r)"
    "jfield ''relation_type'' lvs = JStr (relation_value (sr_relation_type r))" "jfield ''target_ref'' lvs = JStr (sr_target_ref r)"
    "jfield ''qualifiers'' lvs = f (sr_qualifiers r)" "jfield ''provenance'' lvs = f (provenance_to_dict h (sr_provenance r))"
    "jfield ''relation_digest'' lvs = JStr (relation_digest h r)"
    using rd unfolding l(2) by (simp_all add: relation_members_def)
  show ?thesis unfolding relation_from_dict_def relation_to_dict_def l(1) ebind_simps f relation_of_value p c d ..
qed

lemma update_read_key [simp]: "reads f \<Longrightarrow> update_key h (f u) = update_key h u"
  unfolding update_key_def by (rule digest_reads) (rule reads_same)

lemma patch_read_digest [simp]:
  assumes "reads f"
  shows "patch_digest h (patch_read f p) = patch_digest h p"
  unfolding patch_digest_def
  by (rule digest_reads) (simp add: patch_read_def assms comp_def norm_items_map reads_same [OF assms])

lemma patch_read_ok:
  assumes rd: "reads f" and ok: "patch_ok h p"
  shows "patch_ok h (patch_read f p)"
  using ok node_read_ok [OF rd] relation_read_ok [OF rd] reads_object [OF rd]
  by (simp add: patch_ok_def patch_read_def canonical_list_def comp_def rd)

lemma validate_patch [simp]: "patch_ok h p \<Longrightarrow> validate_json (patch_to_dict h p) = Inr ()"
  using validate_mapped [of "pt_add_nodes p" "semantic_node_to_dict h"] validate_mapped [of "pt_add_relations p" "relation_to_dict h"]
    validate_mapped [of "pt_status_updates p" "\<lambda>u. u"]
  by (simp add: patch_to_dict_def patch_members_def patch_ok_def object_valid)

lemma create_same_patch:
  assumes "patch_ok h p"
  shows "patch_create h (JStr (pt_patch_id p)) (JStr (pt_base_graph_digest p)) (pt_add_nodes p) (pt_add_relations p)
    (pt_status_updates p) (map JStr (pt_supersession_refs p)) (JStr (pt_producer_ref p)) = Inr p"
proof -
  have "emap require_json_object (pt_status_updates p) = Inr (pt_status_updates p)"
    by (rule emap_id) (use assms in \<open>simp add: patch_ok_def require_json_object_Inr\<close>)
  with assms show ?thesis by (simp add: patch_create_def patch_ok_def)
qed

lemma patch_reads:
  assumes rd: "reads f" and ok: "patch_ok h p" and h: "hex_hash h"
  shows "patch_from_dict h (f (patch_to_dict h p)) = Inr (patch_read f p)"
proof -
  let ?kvs = "patch_members h p" and ?q = "patch_read f p"
  have v: "validate_members ?kvs = Inr ()" using validate_patch [OF ok] by (simp add: patch_to_dict_def)
  obtain lvs where l: "require_closed_mapping patch_keys (f (JObj ?kvs)) = Inr lvs" "\<And>k. jfield k lvs = f (jfield k ?kvs)"
    by (rule closed_mapping_reads [OF rd, of ?kvs patch_keys]) (simp_all add: v, simp_all add: patch_members_def patch_keys_def)
  have n: "emap (semantic_node_from_dict h) (map (\<lambda>n. f (semantic_node_to_dict h n)) ns) = Inr (map (node_read f) ns)"
    if "\<forall>n \<in> set ns. node_ok h n" for ns
    using that by (induction ns) (simp_all add: semantic_node_reads [OF rd _ h])
  have r: "emap (relation_from_dict h) (map (\<lambda>n. f (relation_to_dict h n)) ns) = Inr (map (relation_read f) ns)"
    if "\<forall>n \<in> set ns. relation_ok n" for ns
    using that by (induction ns) (simp_all add: relation_reads [OF rd _ h])
  have nr: "emap (semantic_node_from_dict h) (map (\<lambda>n. f (semantic_node_to_dict h n)) (pt_add_nodes p)) = Inr (map (node_read f) (pt_add_nodes p))"
    "emap (relation_from_dict h) (map (\<lambda>n. f (relation_to_dict h n)) (pt_add_relations p)) = Inr (map (relation_read f) (pt_add_relations p))"
    using ok n r by (simp_all add: patch_ok_def)
  have c: "patch_create h (JStr (pt_patch_id p)) (JStr (pt_base_graph_digest p)) (map (node_read f) (pt_add_nodes p))
      (map (relation_read f) (pt_add_relations p)) (map f (pt_status_updates p)) (map JStr (pt_supersession_refs p))
      (JStr (pt_producer_ref p)) = Inr ?q"
    using create_same_patch [OF patch_read_ok [OF rd ok]] by (simp add: patch_read_def)
  have d: "require_same_digest (patch_digest h ?q) (JStr (patch_digest h p)) = Inr ()"
    using canonical_record_digest_hex [OF h] rd by (simp add: require_same_digest_Inr) (simp add: patch_digest_def)
  have f: "jfield ''patch_id'' lvs = JStr (pt_patch_id p)" "jfield ''base_graph_digest'' lvs = JStr (pt_base_graph_digest p)"
    "tuple_of (jfield ''add_nodes'' lvs) = Inr (map (\<lambda>n. f (semantic_node_to_dict h n)) (pt_add_nodes p))"
    "tuple_of (jfield ''add_relations'' lvs) = Inr (map (\<lambda>r. f (relation_to_dict h r)) (pt_add_relations p))"
    "tuple_of (jfield ''status_updates'' lvs) = Inr (map f (pt_status_updates p))"
    "tuple_of (jfield ''supersession_refs'' lvs) = Inr (map JStr (pt_supersession_refs p))"
    "jfield ''producer_ref'' lvs = JStr (pt_producer_ref p)" "jfield ''patch_digest'' lvs = JStr (patch_digest h p)"
    using rd unfolding l(2) by (simp_all add: patch_members_def comp_def)
  show ?thesis unfolding patch_from_dict_def patch_to_dict_def l(1) ebind_simps f nr c d ..
qed

definition proposal_ok :: "(string \<Rightarrow> string) \<Rightarrow> patch_proposal \<Rightarrow> bool" where
  "proposal_ok h p \<longleftrightarrow> is_uuid4 (pp_proposal_id p) \<and> is_uuid4 (pp_graph_id p) \<and> is_uuid4 (pp_agent_run_id p)
     \<and> 1 \<le> pp_base_revision p \<and> is_sha256 (pp_base_digest p) \<and> any_text_ok (pp_registry_version p)
     \<and> is_sha256 (pp_registry_digest p) \<and> patch_ok h (pp_patch p) \<and> pt_base_graph_digest (pp_patch p) = pp_base_digest p"

definition proposal_read :: "(json \<Rightarrow> json) \<Rightarrow> patch_proposal \<Rightarrow> patch_proposal" where
  "proposal_read f p = p\<lparr>pp_patch := patch_read f (pp_patch p)\<rparr>"

lemma proposal_create_Inr:
  "proposal_create i g r b d v y p = Inr x \<Longrightarrow> patch_ok h p \<Longrightarrow> proposal_ok h x"
  by (auto simp: proposal_create_def proposal_ok_def ebind_Inr_iff require_Inr dest!: any_non_empty_Inr split: if_splits)

lemma proposal_from_dict_Inr: "proposal_from_dict h v = Inr x \<Longrightarrow> proposal_ok h x"
  by (auto simp: proposal_from_dict_def ebind_Inr_iff dest!: patch_from_dict_Inr intro: proposal_create_Inr split: if_splits)

lemma patch_dict_norm:
  assumes rd: "reads f"
  shows "json_norm (patch_to_dict h (patch_read f p)) = json_norm (patch_to_dict h p)"
proof -
  have n: "json_norm (semantic_node_to_dict h (node_read f n)) = json_norm (semantic_node_to_dict h n)" for n
    using rd by (simp add: semantic_node_to_dict_def semantic_node_members_def) (simp add: node_read_def reads_same [OF rd])
  have r: "json_norm (relation_to_dict h (relation_read f n)) = json_norm (relation_to_dict h n)" for n
    using rd by (simp add: relation_to_dict_def relation_members_def) (simp add: relation_read_def reads_same [OF rd])
  show ?thesis
    using rd by (simp add: patch_to_dict_def patch_members_def)
      (simp add: patch_read_def norm_items_map comp_def n r reads_same [OF rd])
qed

lemma proposal_read_digest [simp]:
  assumes "reads f"
  shows "proposal_digest h (proposal_read f p) = proposal_digest h p"
  unfolding proposal_digest_def
  by (rule digest_reads) (simp add: proposal_read_def proposal_identity_def patch_dict_norm [OF assms])

lemma proposal_reads:
  assumes rd: "reads f" and ok: "proposal_ok h p" and h: "hex_hash h"
  shows "proposal_from_dict h (f (proposal_to_dict h p)) = Inr (proposal_read f p)"
proof -
  let ?kvs = "proposal_identity h p @ [(''proposal_digest'', JStr (proposal_digest h p))]" and ?q = "proposal_read f p"
  have pok: "patch_ok h (pp_patch p)" using ok by (simp add: proposal_ok_def)
  obtain lvs where l: "require_closed_mapping proposal_keys (f (JObj ?kvs)) = Inr lvs" "\<And>k. jfield k lvs = f (jfield k ?kvs)"
    by (rule closed_mapping_reads [OF rd, of ?kvs proposal_keys]) (simp_all add: proposal_identity_def proposal_keys_def pok)
  have c: "proposal_create (JStr (pp_proposal_id p)) (JStr (pp_graph_id p)) (JStr (pp_agent_run_id p)) (JInt (pp_base_revision p))
      (JStr (pp_base_digest p)) (JStr (pp_registry_version p)) (JStr (pp_registry_digest p)) (patch_read f (pp_patch p)) = Inr ?q"
    using ok by (simp add: proposal_create_def proposal_ok_def proposal_read_def) (simp add: patch_read_def)
  have d: "require_sha256 (JStr (proposal_digest h p)) = Inr (proposal_digest h ?q)"
    using canonical_record_digest_hex [OF h] rd by simp (simp add: proposal_digest_def)
  have f: "jfield ''schema_version'' lvs = JStr ''macr-semantic-patch-proposal/v1''" "jfield ''proposal_id'' lvs = JStr (pp_proposal_id p)"
    "jfield ''graph_id'' lvs = JStr (pp_graph_id p)" "jfield ''agent_run_id'' lvs = JStr (pp_agent_run_id p)"
    "jfield ''base_graph_revision'' lvs = JInt (pp_base_revision p)" "jfield ''base_graph_digest'' lvs = JStr (pp_base_digest p)"
    "jfield ''registry_version'' lvs = JStr (pp_registry_version p)" "jfield ''registry_digest'' lvs = JStr (pp_registry_digest p)"
    "jfield ''patch'' lvs = f (patch_to_dict h (pp_patch p))" "jfield ''proposal_digest'' lvs = JStr (proposal_digest h p)"
    using rd unfolding l(2) by (simp_all add: proposal_identity_def)
  show ?thesis
    unfolding proposal_from_dict_def proposal_to_dict_def l(1) ebind_simps f patch_reads [OF rd pok h] c d by simp
qed

end
