(* ===== verification/SemanticPatchProps.thy ===== *)
theory SemanticPatchProps
  imports SemanticCommit SemanticDocuments
begin

text \<open>
  What the patch compiler guarantees. Adding a node and updating a status both put a version of a node into
  the node map; \<open>puts\<close> says how, and the invariant of the compilation is proved for it once. A graph
  evolves by compiling proposals against its head and writing the next head.
\<close>

section \<open>Putting a version of a node\<close>

definition puts :: "(string \<Rightarrow> string) \<Rightarrow> string list \<Rightarrow> semantic_node \<Rightarrow> compile_state \<Rightarrow> compile_state \<Rightarrow> bool" where
  "puts h over m s s' \<longleftrightarrow>
     cs_nodes s' = AList.update (sn_node_id m) m (cs_nodes s) \<and> cs_added s' = cs_added s @ [m] \<and>
     (case map_of (cs_nodes s) (sn_node_id m) of
        None \<Rightarrow> cs_consumed s' = cs_consumed s \<and> cs_historical s' = cs_historical s
      | Some old \<Rightarrow> record_digest h old \<in> set over \<and> cs_consumed s' = record_digest h old # cs_consumed s
          \<and> cs_historical s' = cs_historical s @ [old])"

definition updates_of :: "(string \<Rightarrow> string) \<Rightarrow> semantic_node set \<Rightarrow> semantic_node list \<Rightarrow> string set \<Rightarrow> bool" where
  "updates_of h olds ms consumed \<longleftrightarrow>
     (\<forall>m \<in> set ms. \<exists>old \<in> olds. m = old\<lparr>sn_status := sn_status m\<rparr> \<and> sn_status m \<noteq> sn_status old \<and> record_digest h old \<in> consumed)"

definition compile_inv ::
    "(string \<Rightarrow> string) \<Rightarrow> string \<Rightarrow> string list \<Rightarrow> semantic_node set \<Rightarrow> compile_state \<Rightarrow> bool" where
  "compile_inv h scope over nodes s \<longleftrightarrow>
     table sn_node_id (cs_nodes s) \<and> set (map snd (cs_nodes s)) \<subseteq> nodes \<union> set (cs_added s) \<and>
     (\<forall>n \<in> nodes. n \<in> set (map snd (cs_nodes s)) \<or> record_digest h n \<in> set (cs_consumed s)) \<and>
     sn_node_id ` nodes \<subseteq> sn_node_id ` set (map snd (cs_nodes s)) \<and> set (cs_consumed s) \<subseteq> set over \<and>
     set (cs_consumed s) = record_digest h ` set (cs_historical s) \<and> set (cs_historical s) \<subseteq> nodes \<union> set (cs_added s) \<and>
     (\<forall>n \<in> set (map snd (cs_nodes s)). node_ok h n \<and> sn_scope_ref n = scope) \<and>
     updates_of h (nodes \<union> set (cs_added s)) (cs_status s) (set (cs_consumed s))"

lemma compile_invD:
  assumes "compile_inv h scope over nodes s"
  shows "table sn_node_id (cs_nodes s)" "\<forall>n \<in> set (map snd (cs_nodes s)). node_ok h n \<and> sn_scope_ref n = scope"
    "set (map snd (cs_nodes s)) \<subseteq> nodes \<union> set (cs_added s)"
    "\<forall>n \<in> nodes. n \<in> set (map snd (cs_nodes s)) \<or> record_digest h n \<in> set (cs_consumed s)"
    "sn_node_id ` nodes \<subseteq> sn_node_id ` set (map snd (cs_nodes s))"
    "updates_of h (nodes \<union> set (cs_added s)) (cs_status s) (set (cs_consumed s))"
  by (insert assms, unfold compile_inv_def, (elim conjE, assumption)+)

lemma updates_mono: "updates_of h olds ms consumed \<Longrightarrow> olds \<subseteq> olds' \<Longrightarrow> consumed \<subseteq> consumed' \<Longrightarrow> updates_of h olds' ms consumed'"
  unfolding updates_of_def by blast

lemma puts_inv:
  assumes p: "puts h over m s s'" and inv: "compile_inv h scope over nodes s" and m: "node_ok h m" "sn_scope_ref m = scope"
    and u: "cs_status s' = cs_status s \<or> (cs_status s' = cs_status s @ [m] \<and>
      (\<exists>old. map_of (cs_nodes s) (sn_node_id m) = Some old \<and> m = old\<lparr>sn_status := sn_status m\<rparr> \<and> sn_status m \<noteq> sn_status old))"
  shows "compile_inv h scope over nodes s'"
proof -
  let ?old = "map_of (cs_nodes s) (sn_node_id m)"
  have t: "table sn_node_id (cs_nodes s)" using inv by (simp add: compile_inv_def)
  have n: "cs_nodes s' = AList.update (sn_node_id m) m (cs_nodes s)" "cs_added s' = cs_added s @ [m]"
    using p by (simp_all add: puts_def)
  note v = table_update [OF t, of m, folded n(1)]
  have c: "set (cs_consumed s') = set (cs_consumed s) \<union> record_digest h ` set_option ?old"
    "set (cs_historical s') = set (cs_historical s) \<union> set_option ?old" "record_digest h ` set_option ?old \<subseteq> set over"
    using p by (auto simp: puts_def split: option.splits)
  have o: "set_option ?old = {x \<in> set (map snd (cs_nodes s)). sn_node_id x = sn_node_id m}"
    using table_lookup [OF t, of "sn_node_id m"] by (auto simp: elem_set)
  have 1: "set (map snd (cs_nodes s')) \<subseteq> nodes \<union> set (cs_added s')"
    using inv unfolding v(2) n(2) compile_inv_def by auto
  have 2: "\<forall>n \<in> nodes. n \<in> set (map snd (cs_nodes s')) \<or> record_digest h n \<in> set (cs_consumed s')"
  proof -
    have "\<forall>n \<in> nodes. n \<in> set (map snd (cs_nodes s)) \<or> record_digest h n \<in> set (cs_consumed s)"
      using inv unfolding compile_inv_def by blast
    then show ?thesis unfolding v(2) c(1) o by blast
  qed
  have 3: "sn_node_id ` nodes \<subseteq> sn_node_id ` set (map snd (cs_nodes s'))"
  proof -
    have "sn_node_id ` S \<subseteq> sn_node_id ` insert m {y \<in> S. sn_node_id y \<noteq> sn_node_id m}" for S by force
    then have "sn_node_id ` set (map snd (cs_nodes s)) \<subseteq> sn_node_id ` set (map snd (cs_nodes s'))" unfolding v(2) .
    moreover have "sn_node_id ` nodes \<subseteq> sn_node_id ` set (map snd (cs_nodes s))" using inv unfolding compile_inv_def by (elim conjE)
    ultimately show ?thesis by (rule subset_trans [rotated])
  qed
  have 4: "set (cs_consumed s') \<subseteq> set over" "set (cs_consumed s') = record_digest h ` set (cs_historical s')"
    using inv c unfolding compile_inv_def by auto
  have 5: "set (cs_historical s') \<subseteq> nodes \<union> set (cs_added s')"
    using inv unfolding c(2) o n(2) compile_inv_def by auto
  have 6: "\<forall>n \<in> set (map snd (cs_nodes s')). node_ok h n \<and> sn_scope_ref n = scope"
    using inv m unfolding v(2) compile_inv_def by auto
  have 7: "updates_of h (nodes \<union> set (cs_added s')) (cs_status s') (set (cs_consumed s'))"
  proof -
    have old: "updates_of h (nodes \<union> set (cs_added s')) (cs_status s) (set (cs_consumed s'))"
      using inv unfolding compile_inv_def by (elim conjE updates_mono) (auto simp: n(2) c(1))
    show ?thesis using u
    proof (elim disjE conjE exE)
      fix old assume q: "cs_status s' = cs_status s @ [m]" "?old = Some old" "m = old\<lparr>sn_status := sn_status m\<rparr>" "sn_status m \<noteq> sn_status old"
      then have "old \<in> nodes \<union> set (cs_added s')" using inv o unfolding n(2) compile_inv_def by auto
      moreover have "record_digest h old \<in> set (cs_consumed s')" using c(1) q(2) by simp
      ultimately show ?thesis using old q(1,3,4) unfolding updates_of_def by auto
    qed (use old in simp)
  qed
  show ?thesis unfolding compile_inv_def using v(1) 1 2 3 4 5 6 7 by blast
qed

lemma add_node_puts:
  assumes "add_node h reg g over n s = Inr s'"
  shows "puts h over n s s' \<and> cs_status s' = cs_status s \<and> sn_scope_ref n = gh_scope_ref g"
  using assms by (auto simp: add_node_def puts_def validate_node_def ebind_Inr_iff split: option.splits if_splits)

lemma parse_status_update_Inr:
  assumes "parse_status_update h u old = Inr parsed"
  shows "su_to_status parsed \<noteq> sn_status old" "status_fits (sn_node_type old) (su_to_status parsed)"
    "su_to_status parsed = Resolution_Status Resolved \<longrightarrow> su_evidence_refs parsed \<noteq> []"
  using assms
  by (auto simp: parse_status_update_def parse_semantic_status_def ebind_Inr_iff split: if_splits sum.splits dest!: status_from_text_Inr)

lemma apply_update_puts:
  assumes a: "apply_update h over u s = Inr s'" and t: "table sn_node_id (cs_nodes s)"
    and ok: "\<forall>n \<in> set (map snd (cs_nodes s)). node_ok h n"
  obtains m old where "puts h over m s s'" "cs_status s' = cs_status s @ [m]" "node_ok h m" "sn_scope_ref m = sn_scope_ref old"
    "map_of (cs_nodes s) (sn_node_id m) = Some old" "m = old\<lparr>sn_status := sn_status m\<rparr>" "sn_status m \<noteq> sn_status old"
proof -
  obtain k old parsed m where c: "node_of (cs_nodes s) k = Inr old" "parse_status_update h u old = Inr parsed"
    "record_digest h old \<in> set over" "with_status h old (su_to_status parsed) = Inr m"
    and s': "s' = s\<lparr>cs_nodes := AList.update (sn_node_id old) m (cs_nodes s),
                  cs_consumed := record_digest h old # cs_consumed s, cs_historical := cs_historical s @ [old],
                  cs_added := cs_added s @ [m], cs_status := cs_status s @ [m]\<rparr>"
    using a by (auto simp: apply_update_def ebind_Inr_iff split: if_splits)
  obtain i where i: "map_of (cs_nodes s) i = Some old" using c(1) by (auto simp: node_of_def split: if_splits json.splits option.splits)
  then have o: "old \<in> set (map snd (cs_nodes s))" "sn_node_id old = i" using table_lookup [OF t] by blast+
  have m: "m = old\<lparr>sn_status := su_to_status parsed\<rparr>" "node_ok h m"
    using with_status_ok [OF _ c(4)] o(1) ok by blast+
  then have id: "sn_node_id m = sn_node_id old" by simp
  show thesis
  proof (rule that [of m old])
    show "puts h over m s s'" using c(3) i o(2) by (simp add: puts_def s' id)
    show "map_of (cs_nodes s) (sn_node_id m) = Some old" using i o(2) id by simp
    show "sn_status m \<noteq> sn_status old" using parse_status_update_Inr(1) [OF c(2)] m(1) by simp
  qed (use m s' in simp_all)
qed

lemma add_nodes_inv:
  assumes "add_nodes h reg g over ns s = Inr s'" "compile_inv h (gh_scope_ref g) over nodes s" "\<forall>n \<in> set ns. node_ok h n"
  shows "compile_inv h (gh_scope_ref g) over nodes s' \<and> set (cs_added s') = set (cs_added s) \<union> set ns"
  using assms
proof (induction ns arbitrary: s)
  case (Cons n ns)
  then obtain t where t: "add_node h reg g over n s = Inr t" "add_nodes h reg g over ns t = Inr s'" by (auto simp: ebind_Inr_iff)
  note p = add_node_puts [OF t(1)]
  have "compile_inv h (gh_scope_ref g) over nodes t"
    by (rule puts_inv [of h over n s]) (use p Cons.prems in auto)
  with Cons.IH [OF t(2)] Cons.prems(3) p show ?case by (simp add: puts_def)
qed simp

lemma apply_updates_inv:
  assumes "apply_updates h over us s = Inr s'" "compile_inv h scope over nodes s"
  shows "compile_inv h scope over nodes s'"
  using assms
proof (induction us arbitrary: s)
  case (Cons u us)
  then obtain t where t: "apply_update h over u s = Inr t" "apply_updates h over us t = Inr s'" by (auto simp: ebind_Inr_iff)
  have i: "table sn_node_id (cs_nodes s)" "\<forall>n \<in> set (map snd (cs_nodes s)). node_ok h n \<and> sn_scope_ref n = scope"
    using Cons.prems(2) by (simp_all add: compile_inv_def)
  then have ok: "\<forall>n \<in> set (map snd (cs_nodes s)). node_ok h n" by blast
  obtain m old where p: "puts h over m s t" "cs_status t = cs_status s @ [m]" "node_ok h m" "sn_scope_ref m = sn_scope_ref old"
    "map_of (cs_nodes s) (sn_node_id m) = Some old" "m = old\<lparr>sn_status := sn_status m\<rparr>" "sn_status m \<noteq> sn_status old"
    by (rule apply_update_puts [OF t(1) i(1) ok])
  have "old \<in> set (map snd (cs_nodes s))" using p(5) table_lookup [OF i(1)] by blast
  then have "sn_scope_ref m = scope" using p(4) i(2) by simp
  then have "compile_inv h scope over nodes t" using p by (intro puts_inv [OF p(1) Cons.prems(2)]) auto
  with Cons.IH [OF t(2)] show ?case by blast
qed simp

lemma added_grow: "apply_updates h over us s = Inr s' \<Longrightarrow> set (cs_added s) \<subseteq> set (cs_added s')"
proof (induction us arbitrary: s)
  case (Cons u us)
  then obtain t where t: "apply_update h over u s = Inr t" "apply_updates h over us t = Inr s'" by (auto simp: ebind_Inr_iff)
  have "set (cs_added s) \<subseteq> set (cs_added t)" using t(1) by (auto simp: apply_update_def ebind_Inr_iff split: if_splits)
  with Cons.IH [OF t(2)] show ?case by blast
qed simp

end
