(* ===== verification/SemanticEvolution.thy ===== *)
theory SemanticEvolution
  imports SemanticPatchProps "HOL-Library.Multiset"
begin

text \<open>
  A semantic graph over its history: from an empty head, a step compiles a proposal against the current head
  and the current active records and writes the next head. Every state of a history is a closed graph whose
  head lists exactly its records.
\<close>

section \<open>Digests\<close>

definition digests_ok :: "string list \<Rightarrow> bool" where
  "digests_ok ds \<longleftrightarrow> (\<forall>d \<in> set ds. is_sha256 d) \<and> distinct ds \<and> sorted ds \<and> length ds \<le> 128"

lemma hex_not_space: "is_lower_hex c \<Longrightarrow> \<not> is_space c"
  by (auto simp: is_lower_hex_def is_space_def is_digit_def)

lemma sha256_text: "is_sha256 s \<Longrightarrow> text_ok 512 s"
proof -
  assume s: "is_sha256 s"
  then have n: "s \<noteq> []" "\<forall>c \<in> set s. \<not> is_space c" by (auto simp: is_sha256_def list_all_iff hex_not_space)
  have d: "dropWhile is_space xs = xs" if "set xs = set s" for xs
    using that n by (cases xs) auto
  show "text_ok 512 s" using s n d [of s] d [of "rev s"] by (simp add: text_ok_def strip_def is_sha256_def)
qed

lemma emap_same: "emap f xs = Inr ys \<Longrightarrow> (\<And>x y. f x = Inr y \<Longrightarrow> y = x) \<Longrightarrow> ys = xs"
  by (induction xs arbitrary: ys) (auto simp: ebind_Inr_iff)

lemma sha256_tuple_Inr: "sha256_tuple vs = Inr ds \<Longrightarrow> digests_ok ds"
proof -
  assume "sha256_tuple vs = Inr ds"
  then obtain items ns where i: "require_string_tuple 128 vs = Inr items" "emap (\<lambda>s. require_sha256 (JStr s)) items = Inr ns" "ds = sort ns"
    by (auto simp: sha256_tuple_def ebind_Inr_iff)
  have "ns = items" by (rule emap_same [OF i(2)]) (simp add: require_Inr)
  moreover have "\<forall>d \<in> set ns. is_sha256 d" by (rule emap_all [OF i(2)]) (simp add: require_Inr)
  ultimately show "digests_ok ds" using require_string_tuple_Inr [OF i(1)] i(3) by (simp add: digests_ok_def strings_ok_def)
qed

lemma sha256_tuple_ok: "digests_ok ds \<Longrightarrow> sha256_tuple (map JStr ds) = Inr ds"
proof -
  assume d: "digests_ok ds"
  then have "require_string_tuple 128 (map JStr ds) = Inr ds"
    by (intro require_string_tuple_ok) (simp add: digests_ok_def strings_ok_def sha256_text)
  moreover have "emap (\<lambda>s. require_sha256 (JStr s)) ds = Inr ds" by (rule emap_id) (use d in \<open>simp add: digests_ok_def\<close>)
  ultimately show ?thesis using d by (simp add: sha256_tuple_def digests_ok_def sorted_sort_id)
qed

lemma sha256_tuple_sorted:
  assumes "sha256_tuple (map JStr ds) = Inr es" "\<forall>d \<in> set ds. is_sha256 d" "sorted ds"
  shows "digests_ok ds \<and> es = ds"
proof -
  have "emap (require_non_empty 512) (map JStr ds) = Inr ds" by (rule emap_map_ok) (simp add: assms(2) sha256_text)
  then have d: "distinct ds" "length ds \<le> 128"
    using assms(1) by (auto simp: sha256_tuple_def require_string_tuple_def ebind_Inr_iff split: if_splits)
  then have "digests_ok ds" using assms(2,3) by (simp add: digests_ok_def)
  with sha256_tuple_ok assms(1) show ?thesis by fastforce
qed

lemma graph_digest_Inr:
  assumes "calculate_graph_digest h v y ns rs = Inr d" "\<forall>n \<in> set ns. is_sha256 n" "sorted ns" "\<forall>r \<in> set rs. is_sha256 r" "sorted rs"
  shows "digests_ok ns" "digests_ok rs" "is_sha256 y"
  using assms by (auto simp: calculate_graph_digest_def ebind_Inr_iff require_Inr dest!: sha256_tuple_sorted)

section \<open>Heads\<close>

definition head_ok :: "(string \<Rightarrow> string) \<Rightarrow> graph_head \<Rightarrow> bool" where
  "head_ok h g \<longleftrightarrow> is_uuid4 (gh_graph_id g) \<and> any_text_ok (gh_scope_ref g) \<and> 1 \<le> gh_revision g
     \<and> any_text_ok (gh_registry_version g) \<and> is_sha256 (gh_registry_digest g) \<and> digests_ok (gh_nodes g)
     \<and> digests_ok (gh_relations g) \<and> is_uuid4 (gh_created_by g) \<and> datetime_ok (gh_created_at g) \<and> datetime_ok (gh_updated_at g)
     \<and> gh_created_at g \<le> gh_updated_at g
     \<and> calculate_graph_digest h (gh_registry_version g) (gh_registry_digest g) (gh_nodes g) (gh_relations g) = Inr (gh_graph_digest g)"

lemma head_create_Inr: "head_create h i s v y z ns rs c t u = Inr g \<Longrightarrow> head_ok h g"
  by (auto simp: head_create_def head_ok_def ebind_Inr_iff require_Inr dest!: any_non_empty_Inr sha256_tuple_Inr split: if_splits)

lemma head_create_parts:
  assumes "head_create h i s v (JStr w) z ns rs (JStr c) (JStr t) u = Inr g"
  shows "i = JStr (gh_graph_id g)" "v = JInt (gh_revision g)" "z = JStr (gh_registry_digest g)" "gh_created_by g = c"
    "sha256_tuple ns = Inr (gh_nodes g)" "sha256_tuple rs = Inr (gh_relations g)" "any_non_empty s = Inr (gh_scope_ref g)"
    "any_non_empty (JStr w) = Inr (gh_registry_version g)" "t = isoformat (gh_created_at g)" "u = JStr (isoformat (gh_updated_at g))"
  using assms by (auto simp: head_create_def ebind_Inr_iff require_Inr split: if_splits)

lemma head_create_same:
  assumes "head_ok h g"
  shows "head_create h (JStr (gh_graph_id g)) (JStr (gh_scope_ref g)) (JInt (gh_revision g)) (JStr (gh_registry_version g))
    (JStr (gh_registry_digest g)) (map JStr (gh_nodes g)) (map JStr (gh_relations g)) (JStr (gh_created_by g))
    (JStr (isoformat (gh_created_at g))) (JStr (isoformat (gh_updated_at g))) = Inr g"
  using assms by (simp add: head_create_def head_ok_def sha256_tuple_ok)

section \<open>Relations\<close>

lemma add_relation_Inr:
  assumes "add_relation reg nodes r rels = Inr rels'" "table sr_relation_id rels"
  shows "table sr_relation_id rels'" "set (map snd rels') = insert r (set (map snd rels))"
    "\<exists>s t. map_of nodes (sr_source_ref r) = Some s \<and> map_of nodes (sr_target_ref r) = Some t \<and>
       require_relation reg (node_type_value (sn_node_type s)) (relation_value (sr_relation_type r)) (node_type_value (sn_node_type t)) = Inr ()"
proof -
  have n: "map_of rels (sr_relation_id r) = None" and u: "rels' = AList.update (sr_relation_id r) r rels"
    and e: "\<exists>s t. map_of nodes (sr_source_ref r) = Some s \<and> map_of nodes (sr_target_ref r) = Some t \<and>
       require_relation reg (node_type_value (sn_node_type s)) (relation_value (sr_relation_type r)) (node_type_value (sn_node_type t)) = Inr ()"
    using assms(1) by (auto simp: add_relation_def split: if_splits option.splits sum.splits)
  show "table sr_relation_id rels'" unfolding u by (rule table_update(1) [OF assms(2)])
  have fresh: "sr_relation_id r \<notin> sr_relation_id ` set (map snd rels)"
    using n table_keys [OF assms(2)] by (simp add: map_of_eq_None_iff)
  have "{y \<in> S. sr_relation_id y \<noteq> sr_relation_id r} = S" if "sr_relation_id r \<notin> sr_relation_id ` S" for S
    using that by force
  note this [OF fresh]
  then show "set (map snd rels') = insert r (set (map snd rels))"
    unfolding u using table_update(2) [OF assms(2), of r] by (simp only:)
  show "\<exists>s t. map_of nodes (sr_source_ref r) = Some s \<and> map_of nodes (sr_target_ref r) = Some t \<and>
       require_relation reg (node_type_value (sn_node_type s)) (relation_value (sr_relation_type r)) (node_type_value (sn_node_type t)) = Inr ()"
    by (rule e)
qed

lemma add_relations_Inr:
  assumes "add_relations reg nodes rs rels = Inr rels'" "table sr_relation_id rels"
  shows "table sr_relation_id rels' \<and> set (map snd rels') = set rs \<union> set (map snd rels) \<and>
    (\<forall>r \<in> set rs. \<exists>s t. map_of nodes (sr_source_ref r) = Some s \<and> map_of nodes (sr_target_ref r) = Some t \<and>
       require_relation reg (node_type_value (sn_node_type s)) (relation_value (sr_relation_type r)) (node_type_value (sn_node_type t)) = Inr ())"
  using assms
proof (induction rs arbitrary: rels)
  case (Cons r rs)
  then obtain m where m: "add_relation reg nodes r rels = Inr m" "add_relations reg nodes rs m = Inr rels'" by (auto simp: ebind_Inr_iff)
  note a = add_relation_Inr [OF m(1) Cons.prems(2)]
  show ?case using Cons.IH [OF m(2) a(1)] a(2,3) by simp
qed simp

section \<open>Compiled patches\<close>

definition closed_graph :: "(string \<Rightarrow> string) \<Rightarrow> string \<Rightarrow> semantic_node list \<Rightarrow> semantic_relation list \<Rightarrow> bool" where
  "closed_graph h scope nodes rels \<longleftrightarrow>
     distinct (map sn_node_id nodes) \<and> distinct (map sr_relation_id rels) \<and>
     (\<forall>n \<in> set nodes. node_ok h n \<and> sn_scope_ref n = scope) \<and>
     (\<forall>r \<in> set rels. sr_source_ref r \<in> sn_node_id ` set nodes \<and> sr_target_ref r \<in> sn_node_id ` set nodes)"

definition linked_by :: "semantic_registry \<Rightarrow> semantic_node list \<Rightarrow> semantic_relation \<Rightarrow> bool" where
  "linked_by reg nodes r \<longleftrightarrow>
     (\<exists>s \<in> set nodes. \<exists>t \<in> set nodes. sn_node_id s = sr_source_ref r \<and> sn_node_id t = sr_target_ref r \<and>
        require_relation reg (node_type_value (sn_node_type s)) (relation_value (sr_relation_type r)) (node_type_value (sn_node_type t)) = Inr ())"

lemma supersession_set_Inr: "supersession_set refs = Inr ds \<Longrightarrow> ds = refs"
  by (auto simp: supersession_set_def require_Inr split: sum.splits dest!: emap_same)

definition compiled_from ::
    "(string \<Rightarrow> string) \<Rightarrow> semantic_registry \<Rightarrow> graph_head \<Rightarrow> patch_proposal \<Rightarrow> semantic_node list \<Rightarrow> semantic_relation list
       \<Rightarrow> compiled_patch \<Rightarrow> compile_state \<Rightarrow> (string \<times> semantic_relation) list \<Rightarrow> bool" where
  "compiled_from h reg g p nodes rels c s m \<longleftrightarrow>
     compile_inputs h reg g p nodes rels = Inr () \<and>
     compile_inv h (gh_scope_ref g) (pt_supersession_refs (pp_patch p)) (set nodes) s \<and>
     set (cs_consumed s) = set (pt_supersession_refs (pp_patch p)) \<and>
     set (pt_add_nodes (pp_patch p)) \<subseteq> set (cs_added s) \<and>
     table sr_relation_id m \<and>
     set (map snd m) = set (pt_add_relations (pp_patch p)) \<union> set rels \<and>
     (\<forall>r \<in> set (pt_add_relations (pp_patch p)). linked_by reg (map snd (cs_nodes s)) r) \<and>
     (\<forall>r \<in> set (map snd m). \<not> dangling (cs_nodes s) r) \<and>
     calculate_graph_digest h (gh_registry_version g) (gh_registry_digest g) (map (record_digest h) (cp_active_nodes c))
       (map (relation_digest h) (cp_active_relations c)) = Inr (cp_next_digest c) \<and>
     cp_active_nodes c = sort_key (record_digest h) (map snd (cs_nodes s)) \<and>
     cp_active_relations c = sort_key (relation_digest h) (map snd m) \<and>
     cp_added_nodes c = sort_key (record_digest h) (cs_added s) \<and>
     cp_status_updates c = sort_key (record_digest h) (cs_status s) \<and>
     cp_next_revision c = gh_revision g + 1 \<and>
     cp_superseded c = sort (remdups (cs_consumed s))"

lemma compiled_fromD:
  assumes "compiled_from h reg g p nodes rels c s m"
  shows "compile_inputs h reg g p nodes rels = Inr ()"
    "compile_inv h (gh_scope_ref g) (pt_supersession_refs (pp_patch p)) (set nodes) s"
    "set (cs_consumed s) = set (pt_supersession_refs (pp_patch p))"
    "set (pt_add_nodes (pp_patch p)) \<subseteq> set (cs_added s)"
    "table sr_relation_id m"
    "set (map snd m) = set (pt_add_relations (pp_patch p)) \<union> set rels"
    "\<forall>r \<in> set (pt_add_relations (pp_patch p)). linked_by reg (map snd (cs_nodes s)) r"
    "\<forall>r \<in> set (map snd m). \<not> dangling (cs_nodes s) r"
    "calculate_graph_digest h (gh_registry_version g) (gh_registry_digest g) (map (record_digest h) (cp_active_nodes c))
       (map (relation_digest h) (cp_active_relations c)) = Inr (cp_next_digest c)"
    "cp_active_nodes c = sort_key (record_digest h) (map snd (cs_nodes s))"
    "cp_active_relations c = sort_key (relation_digest h) (map snd m)"
    "cp_added_nodes c = sort_key (record_digest h) (cs_added s)"
    "cp_status_updates c = sort_key (record_digest h) (cs_status s)"
    "cp_next_revision c = gh_revision g + 1"
    "cp_superseded c = sort (remdups (cs_consumed s))"
  by (insert assms, unfold compiled_from_def, (elim conjE, assumption)+)

lemma compile_Inr:
  assumes c: "compile_patch h reg g p nodes rels = Inr c" and ok: "\<forall>n \<in> set nodes. node_ok h n \<and> sn_scope_ref n = gh_scope_ref g"
    and pok: "patch_ok h (pp_patch p)"
  obtains s m where "compiled_from h reg g p nodes rels c s m"
proof -
  let ?s0 = "\<lparr>cs_nodes = index sn_node_id nodes, cs_consumed = [], cs_historical = [], cs_added = [], cs_status = []\<rparr>"
  obtain ss s1 s m where i: "compile_inputs h reg g p nodes rels = Inr ()"
    and ss: "supersession_set (pt_supersession_refs (pp_patch p)) = Inr ss"
    and s1: "add_nodes h reg g ss (pt_add_nodes (pp_patch p)) ?s0 = Inr s1"
    and s: "apply_updates h ss (pt_status_updates (pp_patch p)) s1 = Inr s"
    and cons: "set (cs_consumed s) = set ss"
    and m: "add_relations reg (cs_nodes s) (pt_add_relations (pp_patch p)) (index sr_relation_id rels) = Inr m"
    and dang: "\<not> list_ex (dangling (cs_nodes s)) (map snd m)"
    and dig: "calculate_graph_digest h (gh_registry_version g) (gh_registry_digest g) (map (record_digest h) (cp_active_nodes c))
       (map (relation_digest h) (cp_active_relations c)) = Inr (cp_next_digest c)"
    and out: "cp_active_nodes c = sort_key (record_digest h) (map snd (cs_nodes s))"
      "cp_active_relations c = sort_key (relation_digest h) (map snd m)"
      "cp_added_nodes c = sort_key (record_digest h) (cs_added s)" "cp_status_updates c = sort_key (record_digest h) (cs_status s)"
      "cp_next_revision c = gh_revision g + 1" "cp_superseded c = sort (remdups (cs_consumed s))"
    using c by (auto simp: compile_patch_def ebind_Inr_iff Let_def split: if_splits)
  have sr: "ss = pt_supersession_refs (pp_patch p)" by (rule supersession_set_Inr [OF ss])
  have d: "distinct (map sn_node_id nodes)" "distinct (map sr_relation_id rels)"
    using i unfolding index_length [symmetric] by (auto simp: compile_inputs_def split: if_splits)
  have "compile_inv h (gh_scope_ref g) ss (set nodes) ?s0"
    using ok index_table [OF d(1)] by (simp add: compile_inv_def updates_of_def index_distinct [OF d(1)])
  then have s1i: "compile_inv h (gh_scope_ref g) ss (set nodes) s1" "set (cs_added s1) = set (pt_add_nodes (pp_patch p))"
    using add_nodes_inv [OF s1] pok by (simp_all add: patch_ok_def)
  have si: "compile_inv h (gh_scope_ref g) ss (set nodes) s" by (rule apply_updates_inv [OF s s1i(1)])
  have grow: "set (cs_added s1) \<subseteq> set (cs_added s)" by (rule added_grow [OF s])
  note r = add_relations_Inr [OF m, OF conjunct1 [OF index_table [OF d(2)]]]
  note tab = compile_invD(1) [OF si]
  have links: "\<forall>r \<in> set (pt_add_relations (pp_patch p)). linked_by reg (map snd (cs_nodes s)) r"
    using r table_lookup [OF tab] unfolding linked_by_def by blast
  have rs: "set (map snd m) = set (pt_add_relations (pp_patch p)) \<union> set rels"
    using r index_table [OF d(2)] by simp
  show thesis
    by (rule that, unfold compiled_from_def, intro conjI; (rule i si [unfolded sr] cons [unfolded sr] conjunct1 [OF r] rs links dig out)?)
      (use grow s1i(2) dang in \<open>simp_all add: list_ex_iff\<close>)
qed

lemma compile_closed:
  assumes c: "compile_patch h reg g p nodes rels = Inr c" and ok: "\<forall>n \<in> set nodes. node_ok h n \<and> sn_scope_ref n = gh_scope_ref g"
    and pok: "patch_ok h (pp_patch p)"
  shows "closed_graph h (gh_scope_ref g) (cp_active_nodes c) (cp_active_relations c)"
proof -
  obtain s m where x: "compiled_from h reg g p nodes rels c s m"
    by (rule compile_Inr [OF c ok pok])
  note x = compiled_fromD [OF x]
  note tab = compile_invD(1) [OF x(2)] and n = compile_invD(2) [OF x(2)] and a = x(10,11)
  have "mset (map sn_node_id (cp_active_nodes c)) = mset (map sn_node_id (map snd (cs_nodes s)))" by (simp only: a mset_map mset_sort)
  then have d: "distinct (map sn_node_id (cp_active_nodes c))"
    using table_distinct [OF tab] by (metis mset_eq_imp_distinct_iff)
  have "mset (map sr_relation_id (cp_active_relations c)) = mset (map sr_relation_id (map snd m))" by (simp only: a mset_map mset_sort)
  then have e: "distinct (map sr_relation_id (cp_active_relations c))"
    using table_distinct [OF x(5)] by (metis mset_eq_imp_distinct_iff)
  have "k \<in> sn_node_id ` set (map snd (cs_nodes s))" if "map_of (cs_nodes s) k \<noteq> None" for k
    using that unfolding map_of_eq_None_iff table_keys [OF tab] by blast
  then have "\<forall>r \<in> set (map snd m). sr_source_ref r \<in> sn_node_id ` set (map snd (cs_nodes s)) \<and>
      sr_target_ref r \<in> sn_node_id ` set (map snd (cs_nodes s))"
    using x(8) unfolding dangling_def by blast
  then show ?thesis unfolding closed_graph_def using d e n by (simp add: a del: set_map)
qed

lemma compile_bounds:
  assumes c: "compile_patch h reg g p nodes rels = Inr c" and ok: "\<forall>n \<in> set nodes. node_ok h n \<and> sn_scope_ref n = gh_scope_ref g"
    and pok: "patch_ok h (pp_patch p)" and h: "hex_hash h"
  shows "digests_ok (map (record_digest h) (cp_active_nodes c))" "digests_ok (map (relation_digest h) (cp_active_relations c))"
    "is_sha256 (gh_registry_digest g)"
proof -
  obtain s m where x: "compiled_from h reg g p nodes rels c s m"
    by (rule compile_Inr [OF c ok pok])
  note x = compiled_fromD [OF x]
  note d = graph_digest_Inr [OF x(9)] and a = x(10,11)
  have "\<forall>n \<in> set (map (record_digest h) (cp_active_nodes c)). is_sha256 n" "sorted (map (record_digest h) (cp_active_nodes c))"
    "\<forall>n \<in> set (map (relation_digest h) (cp_active_relations c)). is_sha256 n" "sorted (map (relation_digest h) (cp_active_relations c))"
    using node_digests_hex [OF h] by (simp_all add: a)
  from d [OF this] show "digests_ok (map (record_digest h) (cp_active_nodes c))"
    "digests_ok (map (relation_digest h) (cp_active_relations c))" "is_sha256 (gh_registry_digest g)" by blast+
qed

lemma next_head_ok:
  assumes g: "head_ok h g" and c: "compile_patch h reg g p nodes rels = Inr c"
    and ok: "\<forall>n \<in> set nodes. node_ok h n \<and> sn_scope_ref n = gh_scope_ref g" and pok: "patch_ok h (pp_patch p)" and h: "hex_hash h"
    and t: "datetime_ok t" "gh_created_at g \<le> t"
  shows "next_head h g c t = Inr (g\<lparr>gh_revision := gh_revision g + 1, gh_nodes := map (record_digest h) (cp_active_nodes c),
    gh_relations := map (relation_digest h) (cp_active_relations c), gh_updated_at := t, gh_graph_digest := cp_next_digest c\<rparr>)"
proof -
  let ?g = "g\<lparr>gh_revision := gh_revision g + 1, gh_nodes := map (record_digest h) (cp_active_nodes c),
    gh_relations := map (relation_digest h) (cp_active_relations c), gh_updated_at := t, gh_graph_digest := cp_next_digest c\<rparr>"
  obtain s m where x: "compiled_from h reg g p nodes rels c s m"
    by (rule compile_Inr [OF c ok pok])
  note x = compiled_fromD [OF x]
  have "head_ok h ?g" using g t x(9) compile_bounds [OF c ok pok h] by (simp add: head_ok_def)
  from head_create_same [OF this] show ?thesis by (simp add: next_head_def x(14))
qed

section \<open>Histories\<close>

type_synonym graph_state = "graph_head \<times> semantic_node list \<times> semantic_relation list"

inductive graph_step :: "(string \<Rightarrow> string) \<Rightarrow> semantic_registry \<Rightarrow> graph_state \<Rightarrow> graph_state \<Rightarrow> bool"
  for h reg where
  commit: "\<lbrakk>patch_ok h (pp_patch p); compile_patch h reg g p nodes rels = Inr c; next_head h g c t = Inr g'\<rbrakk>
    \<Longrightarrow> graph_step h reg (g, nodes, rels) (g', cp_active_nodes c, cp_active_relations c)"

inductive_cases graph_step_cases [elim]: "graph_step h reg (g, nodes, rels) st"

definition starts_graph :: "(string \<Rightarrow> string) \<Rightarrow> semantic_registry \<Rightarrow> graph_head \<Rightarrow> bool" where
  "starts_graph h reg g \<longleftrightarrow> (\<exists>gid scope creator created. head_create_empty h gid scope reg (JStr creator) (JStr created) = Inr g)"

definition graph_inv :: "(string \<Rightarrow> string) \<Rightarrow> graph_state \<Rightarrow> bool" where
  "graph_inv h st \<longleftrightarrow>
     (case st of (g, nodes, rels) \<Rightarrow>
        head_ok h g \<and> closed_graph h (gh_scope_ref g) nodes rels \<and>
        gh_nodes g = map (record_digest h) nodes \<and> gh_relations g = map (relation_digest h) rels)"

lemma graph_step_inv:
  assumes "graph_step h reg st st'" "graph_inv h st" "hex_hash h"
  shows "graph_inv h st' \<and> gh_revision (fst st') = gh_revision (fst st) + 1 \<and> gh_graph_id (fst st') = gh_graph_id (fst st) \<and>
    gh_scope_ref (fst st') = gh_scope_ref (fst st)"
  using assms(1)
proof cases
  case (commit p g nodes rels c t g')
  have g: "head_ok h g" and ok: "\<forall>n \<in> set nodes. node_ok h n \<and> sn_scope_ref n = gh_scope_ref g"
    using assms(2) unfolding commit(1) graph_inv_def closed_graph_def by simp_all
  have u: "\<exists>u. datetime_ok u \<and> gh_created_at g \<le> u \<and> isoformat u = isoformat t"
  proof -
    obtain v u where v: "isoformat (gh_created_at g) = isoformat v" "datetime_ok v" "datetime_ok u" "isoformat t = isoformat u" "v \<le> u"
      using commit(5) by (auto simp: next_head_def head_create_def ebind_Inr_iff require_Inr not_less split: if_splits)
    have "v = gh_created_at g" using isoformat_inject [OF _ v(2,1)] g by (simp add: head_ok_def)
    with v show ?thesis by auto
  qed
  then obtain u where u: "datetime_ok u" "gh_created_at g \<le> u" "isoformat u = isoformat t" by blast
  have "next_head h g c t = next_head h g c u" by (simp add: next_head_def u(3))
  with next_head_ok [OF g commit(4) ok commit(3) assms(3) u(1,2)] commit(5)
  have g': "g' = g\<lparr>gh_revision := gh_revision g + 1, gh_nodes := map (record_digest h) (cp_active_nodes c),
    gh_relations := map (relation_digest h) (cp_active_relations c), gh_updated_at := u, gh_graph_digest := cp_next_digest c\<rparr>" by simp
  have "head_ok h g'" using commit(5) head_create_Inr unfolding next_head_def by blast
  with g' compile_closed [OF commit(4) ok commit(3)] show ?thesis
    unfolding commit(1,2) graph_inv_def by simp
qed

lemma graph_inv_start:
  assumes "starts_graph h reg g"
  shows "graph_inv h (g, [], []) \<and> gh_revision g = 1"
proof -
  obtain gid scope creator created where c: "head_create_empty h gid scope reg (JStr creator) (JStr created) = Inr g"
    using assms by (auto simp: starts_graph_def)
  note p = head_create_parts [OF c [unfolded head_create_empty_def]]
  have "head_ok h g" using c head_create_Inr unfolding head_create_empty_def by blast
  with p(2,5,6) show ?thesis by (simp add: graph_inv_def closed_graph_def sha256_tuple_def require_string_tuple_def)
qed

lemma graph_steps_inv:
  assumes "(graph_step h reg)\<^sup>*\<^sup>* st st'" "graph_inv h st" "hex_hash h"
  shows "graph_inv h st' \<and> gh_revision (fst st) \<le> gh_revision (fst st') \<and> gh_graph_id (fst st') = gh_graph_id (fst st) \<and>
    gh_scope_ref (fst st') = gh_scope_ref (fst st)"
  using assms(1)
proof (induction rule: rtranclp_induct)
  case (step y z)
  with graph_step_inv [OF step(2) _ assms(3)] show ?case by fastforce
qed (use assms(2) in simp)

end
