(* ===== verification/SemanticRegistryProps.thy ===== *)
theory SemanticRegistryProps
  imports SemanticDocuments
begin

text \<open>
  The registry that is shipped passes every check of its constructor, so \<open>from_builtin\<close> returns; what it
  returns is \<open>builtin_registry\<close>.
\<close>

definition builtin_registry :: semantic_registry where
  "builtin_registry =
     \<lparr>rg_version = ''1'', rg_node_types = shipped_node_types, rg_rules = sort_key fst shipped_rules, rg_effects = shipped_effects,
      rg_statuses = shipped_statuses, rg_verdicts = shipped_verdicts, rg_failures = shipped_failures\<rparr>"

definition names_checked :: "string list \<Rightarrow> bool" where
  "names_checked xs \<longleftrightarrow> list_all (text_ok 512) xs \<and> sorted xs \<and> distinct xs \<and> length xs \<le> 128"

lemma names_checked_ok: "names_checked xs \<Longrightarrow> strings_ok 128 xs"
  by (simp add: names_checked_def strings_ok_def list_all_iff)

lemma shipped_names:
  "names_checked shipped_node_types" "names_checked shipped_effects" "names_checked shipped_statuses"
  "names_checked shipped_verdicts" "names_checked shipped_failures" "text_ok 64 ''1''"
  by code_simp+

lemma shipped_members:
  "same_members shipped_node_types (map node_type_value node_types) = Inr ()"
  "same_members (map fst shipped_rules) (map relation_value relation_types) = Inr ()"
  "same_members shipped_effects effect_names = Inr ()" "same_members shipped_statuses status_names = Inr ()"
  "same_members shipped_verdicts verdict_names = Inr ()" "same_members shipped_failures failure_names = Inr ()"
  by code_simp+

section \<open>Rules\<close>

definition types_checked :: "string list \<Rightarrow> bool" where
  "types_checked ts \<longleftrightarrow> ts \<noteq> [] \<and> sorted ts \<and> distinct ts \<and> length ts \<le> 128 \<and> list_all (\<lambda>t. List.member (''*'' # shipped_node_types) t) ts"

lemma shipped_rules_checked:
  "list_all (\<lambda>(k, ss, ts). types_checked ss \<and> types_checked ts) shipped_rules" "list_all (text_ok 512) (map fst shipped_rules)"
  "distinct (map fst shipped_rules)" "text_ok 512 ''*''"
  by code_simp+

lemma types_checked_ok:
  assumes "types_checked ts"
  shows "strings_ok 128 ts" "ts \<noteq> []" "\<not> list_ex (\<lambda>t. t \<noteq> ''*'' \<and> \<not> known_node_type t) ts"
proof -
  have m: "t = ''*'' \<or> t \<in> set shipped_node_types" if "t \<in> set ts" for t
    using assms that by (auto simp: types_checked_def list_all_iff)
  have k: "set shipped_node_types = set (map node_type_value node_types)"
    using shipped_members(1) by (simp add: same_members_def split: if_splits)
  have ok: "text_ok 512 t" if "t \<in> set shipped_node_types" for t
    using shipped_names(1) that by (simp add: names_checked_def list_all_iff)
  have "text_ok 512 t" if "t \<in> set ts" for t
    using m [OF that] ok shipped_rules_checked(4) by blast
  with assms show "strings_ok 128 ts" "ts \<noteq> []" by (simp_all add: types_checked_def strings_ok_def)
  show "\<not> list_ex (\<lambda>t. t \<noteq> ''*'' \<and> \<not> known_node_type t) ts"
    using m k unfolding list_ex_iff known_node_type_def by blast
qed

lemma rule_accepted:
  assumes "text_ok 512 k" "types_checked ss" "types_checked ts"
  shows "relation_rule (rule_to_dict (k, ss, ts)) = Inr (k, ss, ts)"
proof -
  let ?kvs = "[(''source_types'', jstrs ss), (''target_types'', jstrs ts)]"
  have c: "require_closed_mapping [''source_types'', ''target_types''] (JObj ?kvs) = Inr ?kvs"
    by (simp add: require_closed_mapping_def)
  have a: "require_string_array 128 (jstrs xs) = Inr xs" if "types_checked xs" for xs
    using types_checked_ok(1) [OF that] by (simp add: require_string_array_def json_array_def jstrs_def)
  have "jfield ''source_types'' ?kvs = jstrs ss" "jfield ''target_types'' ?kvs = jstrs ts" by simp_all
  then show ?thesis
    using assms types_checked_ok(2,3) by (simp add: relation_rule_def rule_to_dict_def c a)
qed

lemma rules_accepted: "validated_rules (JObj (map rule_to_dict shipped_rules)) = Inr (sort_key fst shipped_rules)"
proof -
  have "relation_rule (rule_to_dict r) = Inr r" if "r \<in> set shipped_rules" for r
    using rule_accepted [of "fst r" "fst (snd r)" "snd (snd r)"] shipped_rules_checked(1,2) that by (auto simp: list_all_iff)
  then have "emap relation_rule (map rule_to_dict shipped_rules) = Inr shipped_rules" by (intro emap_map_ok) blast
  then show ?thesis using index_table [OF shipped_rules_checked(3)] by (simp add: validated_rules_def)
qed

section \<open>The registry\<close>

theorem builtin_registry_accepted: "registry_from_builtin = Inr builtin_registry"
proof -
  let ?kvs = "[(''schema_version'', JStr ''macr-semantic-registry/v1''), (''registry_version'', JStr ''1''),
       (''node_types'', jstrs shipped_node_types), (''relation_rules'', JObj (map rule_to_dict shipped_rules)),
       (''effect_types'', jstrs shipped_effects), (''status_types'', jstrs shipped_statuses),
       (''verdict_types'', jstrs shipped_verdicts), (''failure_types'', jstrs shipped_failures)]"
  have v: "validate_members (map rule_to_dict rs) = Inr ()" for rs
    by (induction rs) (simp_all add: rule_to_dict_def)
  have c: "require_closed_mapping payload_keys builtin_payload = Inr ?kvs"
    by (simp add: require_closed_mapping_def builtin_payload_def payload_keys_def v)
  have s: "same_members (map fst (sort_key fst shipped_rules)) (map relation_value relation_types) = Inr ()"
    using shipped_members(2) by (simp add: same_members_def)
  have t: "require_string_tuple 128 (map JStr xs) = Inr xs" if "names_checked xs" for xs
    using require_string_tuple_ok [OF names_checked_ok [OF that]] .
  have f: "jfield ''schema_version'' ?kvs = JStr ''macr-semantic-registry/v1''" "jfield ''registry_version'' ?kvs = JStr ''1''"
    "tuple_of (jfield ''node_types'' ?kvs) = Inr (map JStr shipped_node_types)"
    "jfield ''relation_rules'' ?kvs = JObj (map rule_to_dict shipped_rules)"
    "tuple_of (jfield ''effect_types'' ?kvs) = Inr (map JStr shipped_effects)"
    "tuple_of (jfield ''status_types'' ?kvs) = Inr (map JStr shipped_statuses)"
    "tuple_of (jfield ''verdict_types'' ?kvs) = Inr (map JStr shipped_verdicts)"
    "tuple_of (jfield ''failure_types'' ?kvs) = Inr (map JStr shipped_failures)"
    by simp_all
  show ?thesis
    unfolding registry_from_builtin_def registry_from_payload_def c ebind_simps f registry_create_def
    using shipped_names shipped_members s by (simp add: t rules_accepted builtin_registry_def)
qed

end
