(* ===== verification/SemanticGraphProps.thy ===== *)
theory SemanticGraphProps
  imports SemanticEvolution SemanticRegistryProps
begin

text \<open>
  The guarantees of the semantic graph over every history of commits, the runs that show their hypotheses to
  hold, and two places where the checks of the compiler stop short.
\<close>

section \<open>Reachable graphs\<close>

definition graph_history :: "(string \<Rightarrow> string) \<Rightarrow> semantic_registry \<Rightarrow> graph_head \<Rightarrow> graph_state \<Rightarrow> bool" where
  "graph_history h reg g0 st \<longleftrightarrow> hex_hash h \<and> starts_graph h reg g0 \<and> (graph_step h reg)\<^sup>*\<^sup>* (g0, [], []) st"

lemma history_inv: "graph_history h reg g0 st \<Longrightarrow> graph_inv h st \<and> gh_scope_ref (fst st) = gh_scope_ref g0"
  using graph_steps_inv [of h reg "(g0, [], [])" st] graph_inv_start [of h reg g0] by (auto simp: graph_history_def)

lemma history_facts:
  assumes "graph_history h reg g0 (g, nodes, rels)"
  shows "hex_hash h" "head_ok h g" "\<forall>n \<in> set nodes. node_ok h n \<and> sn_scope_ref n = gh_scope_ref g"
    "gh_nodes g = map (record_digest h) nodes" "gh_relations g = map (relation_digest h) rels"
  using history_inv [OF assms] assms by (auto simp: graph_inv_def closed_graph_def graph_history_def)

lemma stale_refused: "pp_base_revision p \<noteq> gh_revision g \<Longrightarrow> compile_patch h reg g p nodes rels = Inl (SemanticError Graph_Stale)"
  by (simp add: compile_patch_def compile_inputs_def)

lemma graph_digest_hex: "hex_hash h \<Longrightarrow> calculate_graph_digest h v y ns rs = Inr d \<Longrightarrow> is_sha256 d"
  by (auto simp: calculate_graph_digest_def ebind_Inr_iff canonical_record_digest_hex)

lemma next_revision_ok:
  assumes g: "head_ok h g" and c: "compile_patch h reg g p nodes rels = Inr c"
    and ok: "\<forall>n \<in> set nodes. node_ok h n \<and> sn_scope_ref n = gh_scope_ref g" and pok: "patch_ok h (pp_patch p)" and h: "hex_hash h"
    and t: "datetime_ok t" "gh_created_at g \<le> t" "is_sha256 pd" and g': "next_head h g c t = Inr g'"
  shows "\<exists>r. next_revision h g c pd g' t = Inr r \<and> gr_revision r = gh_revision g + 1 \<and> gr_graph_digest r = cp_next_digest c
    \<and> gr_parent_digest r = Some (gh_graph_digest g) \<and> gr_nodes r = gh_nodes g'"
proof -
  obtain s m where x: "compiled_from h reg g p nodes rels c s m" by (rule compile_Inr [OF c ok pok])
  note x = compiled_fromD [OF x]
  note b = compile_bounds [OF c ok pok h]
  have g'_eq: "gh_nodes g' = map (record_digest h) (cp_active_nodes c)" "gh_relations g' = map (relation_digest h) (cp_active_relations c)"
    using next_head_ok [OF g c ok pok h t(1,2)] g' by simp_all
  have now: "calculate_graph_digest h (gh_registry_version g) (gh_registry_digest g) (gh_nodes g) (gh_relations g) = Inr (gh_graph_digest g)"
    using g by (simp add: head_ok_def)
  have d: "is_sha256 (cp_next_digest c)" "is_sha256 (gh_graph_digest g)"
    using graph_digest_hex [OF h x(9)] graph_digest_hex [OF h now] by simp_all
  have r: "gh_revision g + 1 \<noteq> 1" "1 \<le> gh_revision g" using g by (auto simp: head_ok_def)
  show ?thesis
    using g b d r t x(9) sha256_tuple_ok [OF b(1)] sha256_tuple_ok [OF b(2)]
    by (simp add: next_revision_def revision_create_def x(14) optional_value_def g'_eq head_ok_def)
qed

section \<open>Versions\<close>

text \<open>Which versions of the nodes a compilation keeps: \<open>old\<close> are the versions it started with.\<close>

definition versions :: "(string \<Rightarrow> string) \<Rightarrow> semantic_node set \<Rightarrow> compile_state \<Rightarrow> bool" where
  "versions h old s \<longleftrightarrow>
     table sn_node_id (cs_nodes s) \<and> set (map snd (cs_nodes s)) \<subseteq> old \<union> set (cs_added s) \<and>
     (\<forall>n \<in> set (map snd (cs_nodes s)). record_digest h n \<in> set (cs_consumed s) \<longrightarrow> record_digest h n \<in> record_digest h ` set (cs_added s)) \<and>
     (\<forall>m \<in> set (cs_added s). m \<in> set (map snd (cs_nodes s)) \<or> record_digest h m \<in> set (cs_consumed s)) \<and>
     set (cs_consumed s) \<subseteq> record_digest h ` (old \<union> set (cs_added s)) \<and>
     sn_node_id ` set (map snd (cs_nodes s)) = sn_node_id ` (old \<union> set (cs_added s))"

lemma versionsD:
  assumes "versions h old s"
  shows "table sn_node_id (cs_nodes s)" "set (map snd (cs_nodes s)) \<subseteq> old \<union> set (cs_added s)"
    "\<forall>n \<in> set (map snd (cs_nodes s)). record_digest h n \<in> set (cs_consumed s) \<longrightarrow> record_digest h n \<in> record_digest h ` set (cs_added s)"
    "\<forall>m \<in> set (cs_added s). m \<in> set (map snd (cs_nodes s)) \<or> record_digest h m \<in> set (cs_consumed s)"
    "set (cs_consumed s) \<subseteq> record_digest h ` (old \<union> set (cs_added s))"
    "sn_node_id ` set (map snd (cs_nodes s)) = sn_node_id ` (old \<union> set (cs_added s))"
  by (insert assms, unfold versions_def, (elim conjE, assumption)+)

lemma puts_versions:
  assumes p: "puts h over m s s'" and v: "versions h old s" and inj: "inj_on (record_digest h) old"
  shows "versions h old s'"
proof -
  note v = versionsD [OF v]
  define N A C where "N = set (map snd (cs_nodes s))" and "A = set (cs_added s)" and "C = set (cs_consumed s)"
  note v' = v [folded N_def A_def C_def]
  have n: "cs_nodes s' = AList.update (sn_node_id m) m (cs_nodes s)" "set (cs_added s') = insert m A"
    using p by (auto simp: puts_def A_def)
  have N': "set (map snd (cs_nodes s')) = insert m {y \<in> N. sn_node_id y \<noteq> sn_node_id m}"
    unfolding n(1) N_def by (rule table_update(2) [OF v(1)])
  have t: "table sn_node_id (cs_nodes s')" unfolding n(1) by (rule table_update(1) [OF v(1)])
  have key: "x = y" if "x \<in> N" "y \<in> N" "sn_node_id x = sn_node_id y" for x y
    using that table_lookup [OF v(1), of "sn_node_id x" x] table_lookup [OF v(1), of "sn_node_id x" y] by (simp add: N_def)
  consider (new) "\<forall>y \<in> N. sn_node_id y \<noteq> sn_node_id m" "set (cs_consumed s') = C"
    | (over) w where "w \<in> N" "sn_node_id w = sn_node_id m" "set (cs_consumed s') = insert (record_digest h w) C"
  proof (cases "map_of (cs_nodes s) (sn_node_id m)")
    case None
    then have "\<forall>y \<in> N. sn_node_id y \<noteq> sn_node_id m"
      using table_lookup [OF v(1), of "sn_node_id m"] unfolding N_def by fastforce
    then show thesis using p None new by (simp add: puts_def C_def)
  next
    case (Some w)
    then have "w \<in> N" "sn_node_id w = sn_node_id m" using table_lookup [OF v(1)] unfolding N_def by blast+
    then show thesis using p Some over by (simp add: puts_def C_def)
  qed
  then show ?thesis
  proof cases
    case new
    show ?thesis unfolding versions_def N' n(2) new(2)
      by (intro conjI t) (use v'(2-6) new(1) in blast)+
  next
    case over
    have a: "record_digest h x \<in> record_digest h ` insert m A"
      if x: "x \<in> N" "sn_node_id x \<noteq> sn_node_id m" "record_digest h x \<in> insert (record_digest h w) C" for x
    proof (cases "record_digest h x \<in> C \<or> x \<in> A \<or> w \<in> A")
      case True
      then show ?thesis using v'(3) x by auto
    next
      case False
      then have "x \<in> old" "w \<in> old" "record_digest h x = record_digest h w" using v'(2) x over(1) by auto
      then have "x = w" using inj by (simp add: inj_on_def)
      then show ?thesis using x(2) over(2) by simp
    qed
    have b: "y \<in> insert m {y \<in> N. sn_node_id y \<noteq> sn_node_id m} \<or> record_digest h y \<in> insert (record_digest h w) C"
      if "y \<in> insert m A" for y
    proof (cases "y \<in> N \<and> sn_node_id y = sn_node_id m")
      case True
      then have "y = w" using key over(1,2) by simp
      then show ?thesis by simp
    next
      case False
      then show ?thesis using that v'(4) by blast
    qed
    have c: "insert (record_digest h w) C \<subseteq> record_digest h ` (old \<union> insert m A)" using v'(2,5) over(1) by blast
    have ids: "sn_node_id ` insert m {y \<in> N. sn_node_id y \<noteq> sn_node_id m} = sn_node_id ` (old \<union> insert m A)"
    proof -
      have "sn_node_id ` insert m {y \<in> N. sn_node_id y \<noteq> sn_node_id m} = insert (sn_node_id m) (sn_node_id ` N)" by blast
      also have "\<dots> = sn_node_id ` (old \<union> insert m A)" using v'(6) by blast
      finally show ?thesis .
    qed
    show ?thesis unfolding versions_def N' n(2) over(3)
      by (intro conjI t c ids) (use a b v'(2) in blast)+
  qed
qed

lemma add_nodes_versions:
  assumes "add_nodes h reg g over ns s = Inr s'" "versions h old s" "inj_on (record_digest h) old"
  shows "versions h old s' \<and> set (cs_added s') = set (cs_added s) \<union> set ns \<and> cs_status s' = cs_status s"
  using assms(1,2)
proof (induction ns arbitrary: s)
  case (Cons n ns)
  then obtain t where t: "add_node h reg g over n s = Inr t" "add_nodes h reg g over ns t = Inr s'" by (auto simp: ebind_Inr_iff)
  note p = add_node_puts [OF t(1)]
  have "versions h old t" using puts_versions [OF _ Cons.prems(2) assms(3)] p by blast
  with Cons.IH [OF t(2)] p show ?case by (simp add: puts_def)
qed simp

lemma apply_updates_versions:
  assumes "apply_updates h over us s = Inr s'" "compile_inv h scope over nodes s" "versions h old s" "inj_on (record_digest h) old"
    "set (cs_added s) = B \<union> set (cs_status s)"
  shows "versions h old s' \<and> set (cs_added s') = B \<union> set (cs_status s')"
  using assms(1,2,3,5)
proof (induction us arbitrary: s)
  case (Cons u us)
  then obtain t where t: "apply_update h over u s = Inr t" "apply_updates h over us t = Inr s'" by (auto simp: ebind_Inr_iff)
  have ok: "\<forall>n \<in> set (map snd (cs_nodes s)). node_ok h n" using compile_invD(2) [OF Cons.prems(2)] by blast
  obtain m prev where p: "puts h over m s t" "cs_status t = cs_status s @ [m]"
    by (rule apply_update_puts [OF t(1) compile_invD(1) [OF Cons.prems(2)] ok])
  have "apply_updates h over [u] s = Inr t" using t(1) by simp
  then have "compile_inv h scope over nodes t" using Cons.prems(2) by (rule apply_updates_inv)
  moreover have "versions h old t" by (rule puts_versions [OF p(1) Cons.prems(3) assms(4)])
  moreover have "set (cs_added t) = B \<union> set (cs_status t)" using p Cons.prems(4) by (auto simp: puts_def)
  ultimately show ?case using Cons.IH [OF t(2)] by blast
qed simp

lemma compile_versions:
  assumes c: "compile_patch h reg g p nodes rels = Inr c" and ok: "\<forall>n \<in> set nodes. node_ok h n \<and> sn_scope_ref n = gh_scope_ref g"
    and pok: "patch_ok h (pp_patch p)" and inj: "inj_on (record_digest h) (set nodes)"
  obtains s where "versions h (set nodes) s" "set (cs_added s) = set (pt_add_nodes (pp_patch p)) \<union> set (cs_status s)"
    "set (cp_active_nodes c) = set (map snd (cs_nodes s))" "set (cp_added_nodes c) = set (cs_added s)"
    "set (cp_superseded c) = set (cs_consumed s)" "set (cp_status_updates c) = set (cs_status s)"
    "set (cs_consumed s) = set (pt_supersession_refs (pp_patch p))"
    "updates_of h (set nodes \<union> set (cs_added s)) (cs_status s) (set (cs_consumed s))"
    "\<forall>n \<in> set nodes. n \<in> set (map snd (cs_nodes s)) \<or> record_digest h n \<in> set (cs_consumed s)"
proof -
  let ?s0 = "\<lparr>cs_nodes = index sn_node_id nodes, cs_consumed = [], cs_historical = [], cs_added = [], cs_status = []\<rparr>"
  obtain ss s1 s where i: "compile_inputs h reg g p nodes rels = Inr ()"
    and ss: "supersession_set (pt_supersession_refs (pp_patch p)) = Inr ss"
    and s1: "add_nodes h reg g ss (pt_add_nodes (pp_patch p)) ?s0 = Inr s1"
    and s: "apply_updates h ss (pt_status_updates (pp_patch p)) s1 = Inr s"
    and cons: "set (cs_consumed s) = set ss"
    and out: "cp_active_nodes c = sort_key (record_digest h) (map snd (cs_nodes s))"
      "cp_added_nodes c = sort_key (record_digest h) (cs_added s)" "cp_status_updates c = sort_key (record_digest h) (cs_status s)"
      "cp_superseded c = sort (remdups (cs_consumed s))"
    using c by (auto simp: compile_patch_def ebind_Inr_iff Let_def split: if_splits)
  have sr: "ss = pt_supersession_refs (pp_patch p)" by (rule supersession_set_Inr [OF ss])
  have d: "distinct (map sn_node_id nodes)"
    using i unfolding index_length [symmetric] by (auto simp: compile_inputs_def split: if_splits)
  note t = index_table [OF d]
  have i0: "compile_inv h (gh_scope_ref g) ss (set nodes) ?s0"
    using ok t by (simp add: compile_inv_def updates_of_def index_distinct [OF d])
  have v0: "versions h (set nodes) ?s0" using t by (simp add: versions_def)
  have i1: "compile_inv h (gh_scope_ref g) ss (set nodes) s1"
    using add_nodes_inv [OF s1 i0] pok by (simp add: patch_ok_def)
  note v1 = add_nodes_versions [OF s1 v0 inj]
  have "versions h (set nodes) s \<and> set (cs_added s) = set (pt_add_nodes (pp_patch p)) \<union> set (cs_status s)"
    by (rule apply_updates_versions [OF s i1 _ inj]) (use v1 in simp_all)
  moreover note compile_invD [OF apply_updates_inv [OF s i1]]
  ultimately show thesis
    by (intro that [of s]) (simp_all only: out sr cons set_sort set_remdups)
qed

section \<open>Properties\<close>

text \<open>C34. In every graph that a sequence of commits makes from an empty head, node and relation identifiers
  are unique, every relation links two active nodes, every node lies in the scope of the graph, and the head
  lists exactly the digests of the active records.\<close>

theorem graph_stays_closed:
  assumes "graph_history h reg g0 (g, nodes, rels)"
  shows "closed_graph h (gh_scope_ref g0) nodes rels \<and> gh_nodes g = map (record_digest h) nodes \<and>
    gh_relations g = map (relation_digest h) rels"
  using history_inv [OF assms] by (auto simp: graph_inv_def)

text \<open>C39. A graph never has more than 128 active nodes or more than 128 active relations, and a patch that would
  exceed this does not compile.\<close>

theorem graph_size_bounded:
  assumes "graph_history h reg g0 (g, nodes, rels)" "patch_ok h (pp_patch p)" "compile_patch h reg g p nodes rels = Inr c"
  shows "length nodes \<le> 128 \<and> length rels \<le> 128 \<and> length (cp_active_nodes c) \<le> 128 \<and> length (cp_active_relations c) \<le> 128"
  using compile_bounds [OF assms(3) _ assms(2)] history_facts [OF assms(1)] by (simp add: digests_ok_def head_ok_def)

text \<open>C35. A compiled patch replaces exactly the versions that it names, and its own records take their place.
  Its supersession references all name active versions or versions that the patch itself adds; what it adds
  are its new nodes and the status updates, each of which differs from the superseded version it replaces in
  the status only. An active version that is not named stays active; a version that is named does not, unless
  an added record has its digest; every record added is active unless it is named itself. There is one active
  version for every node identifier, old or added, and the relations are the old and the added ones.\<close>

theorem patch_changes_what_it_names:
  assumes "graph_history h reg g0 (g, nodes, rels)" "patch_ok h (pp_patch p)" "compile_patch h reg g p nodes rels = Inr c"
  shows "set (cp_superseded c) = set (pt_supersession_refs (pp_patch p)) \<and>
    set (pt_supersession_refs (pp_patch p)) \<subseteq> record_digest h ` (set nodes \<union> set (cp_added_nodes c)) \<and>
    set (cp_added_nodes c) = set (pt_add_nodes (pp_patch p)) \<union> set (cp_status_updates c) \<and>
    (\<forall>m \<in> set (cp_status_updates c). \<exists>old \<in> set nodes \<union> set (cp_added_nodes c).
       m = old\<lparr>sn_status := sn_status m\<rparr> \<and> sn_status m \<noteq> sn_status old \<and> record_digest h old \<in> set (pt_supersession_refs (pp_patch p))) \<and>
    {n \<in> set nodes. record_digest h n \<notin> set (pt_supersession_refs (pp_patch p))} \<subseteq> set (cp_active_nodes c) \<and>
    (\<forall>n \<in> set (cp_active_nodes c). n \<in> set (cp_added_nodes c) \<or> n \<in> set nodes \<and>
       (record_digest h n \<notin> set (pt_supersession_refs (pp_patch p)) \<or> record_digest h n \<in> record_digest h ` set (cp_added_nodes c))) \<and>
    (\<forall>m \<in> set (cp_added_nodes c). m \<in> set (cp_active_nodes c) \<or> record_digest h m \<in> set (pt_supersession_refs (pp_patch p))) \<and>
    distinct (map sn_node_id (cp_active_nodes c)) \<and>
    sn_node_id ` set (cp_active_nodes c) = sn_node_id ` (set nodes \<union> set (cp_added_nodes c)) \<and>
    set (cp_active_relations c) = set rels \<union> set (pt_add_relations (pp_patch p))"
proof -
  note f = history_facts [OF assms(1)]
  have "distinct (map (record_digest h) nodes)" using f(2,4) by (simp add: head_ok_def digests_ok_def)
  then have inj: "inj_on (record_digest h) (set nodes)" by (simp add: distinct_map)
  obtain s where v: "versions h (set nodes) s" and u: "set (cs_added s) = set (pt_add_nodes (pp_patch p)) \<union> set (cs_status s)"
    and c: "set (cp_active_nodes c) = set (map snd (cs_nodes s))" "set (cp_added_nodes c) = set (cs_added s)"
      "set (cp_superseded c) = set (cs_consumed s)" "set (cp_status_updates c) = set (cs_status s)"
      "set (cs_consumed s) = set (pt_supersession_refs (pp_patch p))"
    and up: "updates_of h (set nodes \<union> set (cs_added s)) (cs_status s) (set (cs_consumed s))"
    and old: "\<forall>n \<in> set nodes. n \<in> set (map snd (cs_nodes s)) \<or> record_digest h n \<in> set (cs_consumed s)"
    by (rule compile_versions [OF assms(3) f(3) assms(2) inj])
  have r: "set (cp_active_relations c) = set rels \<union> set (pt_add_relations (pp_patch p))"
  proof -
    obtain t m where "compiled_from h reg g p nodes rels c t m" by (rule compile_Inr [OF assms(3) f(3) assms(2)])
    note x = compiled_fromD [OF this]
    show ?thesis by (simp only: x(6,11) set_sort Un_commute)
  qed
  have d: "distinct (map sn_node_id (cp_active_nodes c))"
    using compile_closed [OF assms(3) f(3) assms(2)] by (simp add: closed_graph_def)
  show ?thesis
    by (intro conjI d r) (use versionsD [OF v] u up old in \<open>simp_all only: c updates_of_def, blast+\<close>)
qed

text \<open>A status update replaces an active version of a node, which the patch supersedes, by a version that
  differs in its status only, and its new status is one that the type of the node may have.\<close>

theorem status_update_keeps_content:
  assumes "graph_history h reg g0 (g, nodes, rels)" "patch_ok h (pp_patch p)" "compile_patch h reg g p nodes rels = Inr c"
    "m \<in> set (cp_status_updates c)"
  shows "\<exists>old \<in> set nodes \<union> set (cp_added_nodes c). m = old\<lparr>sn_status := sn_status m\<rparr> \<and> sn_status m \<noteq> sn_status old \<and>
    record_digest h old \<in> set (cp_superseded c)"
proof -
  obtain s q where x: "compiled_from h reg g p nodes rels c s q"
    by (rule compile_Inr [OF assms(3) history_facts(3) [OF assms(1)] assms(2)])
  note x = compiled_fromD [OF x]
  have a: "set (cp_status_updates c) = set (cs_status s)" "set (cp_added_nodes c) = set (cs_added s)" "set (cp_superseded c) = set (cs_consumed s)"
    by (simp_all only: x(12,13,15) set_sort set_remdups)
  show ?thesis using compile_invD(6) [OF x(2)] assms(4) unfolding updates_of_def a by blast
qed

text \<open>C36. Every relation that a compiled patch adds links two nodes of the next graph, of types between which
  the registry allows a relation of its type.\<close>

theorem added_relations_allowed:
  assumes "graph_history h reg g0 (g, nodes, rels)" "patch_ok h (pp_patch p)" "compile_patch h reg g p nodes rels = Inr c"
    "r \<in> set (pt_add_relations (pp_patch p))"
  shows "linked_by reg (cp_active_nodes c) r"
proof -
  obtain s m where x: "compiled_from h reg g p nodes rels c s m"
    by (rule compile_Inr [OF assms(3) history_facts(3) [OF assms(1)] assms(2)])
  note x = compiled_fromD [OF x]
  have "set (cp_active_nodes c) = set (map snd (cs_nodes s))" by (simp only: x(10) set_sort)
  then show ?thesis using x(7) assms(4) unfolding linked_by_def by blast
qed

text \<open>C38. A compiled patch can be committed at any later time: the next head and the next revision pass their
  constructors, carry the digest that was compiled, and the revision names the current head as its parent.\<close>

theorem compiled_patch_commits:
  assumes "graph_history h reg g0 (g, nodes, rels)" "patch_ok h (pp_patch p)" "compile_patch h reg g p nodes rels = Inr c"
    "datetime_ok t" "gh_created_at g \<le> t" "is_sha256 pd"
  shows "\<exists>g' r. next_head h g c t = Inr g' \<and> next_revision h g c pd g' t = Inr r \<and> gh_revision g' = gh_revision g + 1 \<and>
    gh_graph_digest g' = cp_next_digest c \<and> gr_graph_digest r = cp_next_digest c \<and> gr_parent_digest r = Some (gh_graph_digest g)"
proof -
  note f = history_facts [OF assms(1)]
  note n = next_head_ok [OF f(2) assms(3) f(3) assms(2) f(1) assms(4,5)]
  from next_revision_ok [OF f(2) assms(3) f(3) assms(2) f(1) assms(4-6) n] n show ?thesis by auto
qed

text \<open>C37. A proposal made for a revision of a graph is refused as stale after any commit to that graph, even if
  later commits bring back the same content.\<close>

theorem stale_proposal_refused:
  assumes "graph_history h reg g0 (g, nodes, rels)" "(graph_step h reg)\<^sup>+\<^sup>+ (g, nodes, rels) (g', nodes', rels')"
    "pp_base_revision p = gh_revision g"
  shows "compile_patch h reg g' p nodes' rels' = Inl (SemanticError Graph_Stale)"
proof -
  have inv: "graph_inv h (g, nodes, rels)" and h: "hex_hash h" using history_inv [OF assms(1)] history_facts(1) [OF assms(1)] by simp_all
  obtain st where st: "graph_step h reg (g, nodes, rels) st" "(graph_step h reg)\<^sup>*\<^sup>* st (g', nodes', rels')"
    using tranclpD [OF assms(2)] by blast
  have "gh_revision g < gh_revision g'"
    using graph_step_inv [OF st(1) inv h] graph_steps_inv [OF st(2) _ h] by fastforce
  then show ?thesis using assms(3) by (intro stale_refused) simp
qed

text \<open>C40. A proposal, with its patch and every record the patch adds, is read back from the canonical form of
  its document with the same digest; only the order of the keys in its JSON objects may differ.\<close>

theorem proposal_round_trip:
  assumes "hex_hash h" "proposal_from_dict h doc = Inr p"
  shows "\<exists>q. proposal_from_dict h (json_norm (proposal_to_dict h p)) = Inr q \<and> proposal_digest h q = proposal_digest h p \<and>
    json_norm (proposal_to_dict h q) = json_norm (proposal_to_dict h p)"
proof -
  have e: "json_norm (proposal_to_dict h (proposal_read json_norm p)) = json_norm (proposal_to_dict h p)"
    using proposal_read_digest [OF reads_norm]
    by (simp add: proposal_to_dict_def proposal_identity_def) (simp add: proposal_read_def patch_dict_norm [OF reads_norm])
  show ?thesis
    using proposal_reads [OF reads_norm proposal_from_dict_Inr [OF assms(2)] assms(1)] proposal_read_digest [OF reads_norm] e by blast
qed

section \<open>An example\<close>

text \<open>A graph with one task that targets itself, under the shipped registry and any hash.\<close>

definition graph_uid :: string where
  "graph_uid = ''00000000-0000-4000-8000-000000000000''"

definition example_provenance :: provenance where
  "example_provenance = \<lparr>pv_origin_kind = ''k'', pv_origin_ref = ''r'', pv_source_refs = [], pv_agent_run_id = None,
     pv_created_by_ref = ''c'', pv_created_at = 0\<rparr>"

definition example_node :: "node_type \<Rightarrow> semantic_status \<Rightarrow> semantic_node" where
  "example_node t s = \<lparr>sn_node_id = ''n'', sn_node_type = t, sn_payload = JObj [], sn_scope_ref = ''s'', sn_status = s,
     sn_effects = [], sn_constraints = [], sn_policy = JObj [], sn_provenance = example_provenance, sn_temporal = JObj [], sn_bindings = []\<rparr>"

definition example_relation :: semantic_relation where
  "example_relation = \<lparr>sr_relation_id = ''r'', sr_source_ref = ''n'', sr_relation_type = Targets, sr_target_ref = ''n'',
     sr_qualifiers = JObj [], sr_provenance = example_provenance\<rparr>"

definition example_task :: semantic_node where
  "example_task = example_node Task (Lifecycle Life_Active)"

definition registry_hash :: "(string \<Rightarrow> string) \<Rightarrow> string" where
  "registry_hash h = registry_digest h builtin_registry"

definition content_hash :: "(string \<Rightarrow> string) \<Rightarrow> string list \<Rightarrow> string list \<Rightarrow> string" where
  "content_hash h ns rs = canonical_record_digest h ''macr.semantic.graph-content.v1'' (graph_content ''1'' (registry_hash h) ns rs)"

definition example_head :: "(string \<Rightarrow> string) \<Rightarrow> int \<Rightarrow> string list \<Rightarrow> string list \<Rightarrow> graph_head" where
  "example_head h v ns rs = \<lparr>gh_graph_id = graph_uid, gh_scope_ref = ''s'', gh_revision = v, gh_registry_version = ''1'',
     gh_registry_digest = registry_hash h, gh_nodes = ns, gh_relations = rs, gh_created_by = graph_uid, gh_created_at = 0,
     gh_updated_at = 0, gh_graph_digest = content_hash h ns rs\<rparr>"

definition example_patch :: "graph_head \<Rightarrow> semantic_node \<Rightarrow> semantic_relation list \<Rightarrow> string list \<Rightarrow> semantic_patch" where
  "example_patch g n rs refs = \<lparr>pt_patch_id = ''p'', pt_base_graph_digest = gh_graph_digest g, pt_add_nodes = [n],
     pt_add_relations = rs, pt_status_updates = [], pt_supersession_refs = refs, pt_producer_ref = ''a''\<rparr>"

definition example_proposal :: "graph_head \<Rightarrow> semantic_patch \<Rightarrow> patch_proposal" where
  "example_proposal g pt = \<lparr>pp_proposal_id = graph_uid, pp_graph_id = graph_uid, pp_agent_run_id = graph_uid,
     pp_base_revision = gh_revision g, pp_base_digest = gh_graph_digest g, pp_registry_version = ''1'',
     pp_registry_digest = gh_registry_digest g, pp_patch = pt\<rparr>"

lemma example_texts:
  "text_ok 512 ''n''" "text_ok 512 ''s''" "text_ok 512 ''r''" "text_ok 512 ''k''" "text_ok 512 ''c''" "text_ok 512 ''p''" "text_ok 512 ''a''"
  "any_text_ok ''s''" "any_text_ok ''1''" "is_uuid4 graph_uid"
  by code_simp+

lemma example_records_ok:
  "status_fits t s \<Longrightarrow> node_ok h (example_node t s)" "relation_ok example_relation"
proof -
  have "datetime_ok 0" by (simp add: datetime_ok_def)
  then have p: "provenance_ok example_provenance"
    using example_texts by (simp add: provenance_ok_def example_provenance_def strings_ok_def)
  show "status_fits t s \<Longrightarrow> node_ok h (example_node t s)" "relation_ok example_relation"
    using p example_texts by (simp_all add: node_ok_def relation_ok_def example_node_def example_relation_def strings_ok_def object_ok_def
        canonical_list_def)
qed

lemma registry_hash_hex: "hex_hash h \<Longrightarrow> is_sha256 (registry_hash h)" and content_hash_hex: "hex_hash h \<Longrightarrow> is_sha256 (content_hash h ns rs)"
  by (simp_all add: registry_hash_def registry_digest_def content_hash_def canonical_record_digest_hex)

lemma content_digest_hash:
  assumes "hex_hash h" "digests_ok ns" "digests_ok rs"
  shows "calculate_graph_digest h ''1'' (registry_hash h) ns rs = Inr (content_hash h ns rs)"
  using assms by (simp add: calculate_graph_digest_def sha256_tuple_ok registry_hash_hex content_hash_def)

lemma one_digest: "is_sha256 d \<Longrightarrow> digests_ok [d]" and no_digest: "digests_ok []"
  by (simp_all add: digests_ok_def)

lemma example_starts:
  assumes h: "hex_hash h"
  shows "starts_graph h builtin_registry (example_head h 1 [] [])"
proof -
  have z: "datetime_ok 0" by (simp add: datetime_ok_def)
  have t: "sha256_tuple [] = Inr []" using sha256_tuple_ok [OF no_digest] by simp
  have r: "registry_digest h builtin_registry = registry_hash h" "rg_version builtin_registry = ''1''"
    by (simp_all add: registry_hash_def builtin_registry_def)
  have "head_create_empty h (JStr graph_uid) (JStr ''s'') builtin_registry (JStr graph_uid) (JStr (isoformat 0)) = Inr (example_head h 1 [] [])"
    using example_texts z content_digest_hash [OF h no_digest no_digest] registry_hash_hex [OF h]
    by (simp add: head_create_empty_def head_create_def r t example_head_def)
  then show ?thesis unfolding starts_graph_def by blast
qed

lemma registry_lookup:
  "require_member (rg_node_types builtin_registry) (node_type_value t) = Inr (node_type_value t)"
  "require_relation builtin_registry ''task'' ''targets'' ''task'' = Inr ()"
  "require_relation builtin_registry ''trigger'' ''targets'' ''trigger'' = Inl (SemanticError Registry_Mismatch)"
proof -
  have k: "set shipped_node_types = set (map node_type_value node_types)"
    using shipped_members(1) by (simp add: same_members_def split: if_splits)
  show m: "require_member (rg_node_types builtin_registry) (node_type_value t) = Inr (node_type_value t)" for t
    using k by (cases t) (simp_all add: require_member_def builtin_registry_def node_types_def)
  have r: "map_of (rg_rules builtin_registry) ''targets'' =
      Some ([''action_proposal'', ''decision'', ''plan'', ''task''], [''constraint'', ''goal'', ''observation'', ''task''])"
    by (simp add: builtin_registry_def map_of_sort [OF shipped_rules_checked(3)]) (simp add: shipped_rules_def)
  have "''targets'' \<in> fst ` set (rg_rules builtin_registry)" using map_of_SomeD [OF r] by force
  then have t: "require_member (map fst (rg_rules builtin_registry)) ''targets'' = Inr ''targets''"
    by (simp add: require_member_def)
  show "require_relation builtin_registry ''task'' ''targets'' ''task'' = Inr ()"
    "require_relation builtin_registry ''trigger'' ''targets'' ''trigger'' = Inl (SemanticError Registry_Mismatch)"
    using m [of Task] m [of Trigger] by (simp_all add: require_relation_def t r)
qed

definition first_head :: "(string \<Rightarrow> string) \<Rightarrow> graph_head" where
  "first_head h = example_head h 1 [] []"

definition first_proposal :: "(string \<Rightarrow> string) \<Rightarrow> patch_proposal" where
  "first_proposal h = example_proposal (first_head h) (example_patch (first_head h) example_task [example_relation] [])"

definition second_head :: "(string \<Rightarrow> string) \<Rightarrow> graph_head" where
  "second_head h = example_head h 2 [record_digest h example_task] [relation_digest h example_relation]"

lemma example_patch_ok:
  assumes "hex_hash h" "node_ok h n" "\<forall>r \<in> set rs. relation_ok r" "canonical_list (relation_digest h) rs" "strings_ok 128 refs"
    "gh_graph_digest g = content_hash h ns qs"
  shows "patch_ok h (example_patch g n rs refs)"
  using assms example_texts content_hash_hex [OF assms(1)] by (simp add: patch_ok_def example_patch_def canonical_list_def)

lemma example_valid:
  assumes "gh_scope_ref g = ''s''"
  shows "validate_node builtin_registry (example_node t (Lifecycle Life_Active)) g = Inr ()"
proof -
  have "require_member (rg_statuses builtin_registry) ''active'' = Inr ''active''"
    by (simp add: require_member_def builtin_registry_def shipped_statuses_def)
  then show ?thesis using registry_lookup(1) [of t] assms by (simp add: validate_node_def example_node_def)
qed

lemma first_compiles:
  assumes h: "hex_hash h"
  obtains c where "compile_patch h builtin_registry (first_head h) (first_proposal h) [] [] = Inr c"
    "cp_active_nodes c = [example_task]" "cp_active_relations c = [example_relation]" "cp_added_nodes c = [example_task]"
    "cp_status_updates c = []"
    "cp_next_digest c = content_hash h [record_digest h example_task] [relation_digest h example_relation]"
proof -
  note v = example_valid [of "first_head h" Task, folded example_task_def]
  note d = content_digest_hash [OF h one_digest [OF node_digests_hex(2) [OF h, of example_task]] one_digest [OF node_digests_hex(3) [OF h, of example_relation]]]
  have r: "rg_version builtin_registry = ''1''" "registry_digest h builtin_registry = registry_hash h"
    by (simp_all add: builtin_registry_def registry_hash_def)
  have "\<exists>c. compile_patch h builtin_registry (first_head h) (first_proposal h) [] [] = Inr c \<and>
    cp_active_nodes c = [example_task] \<and> cp_active_relations c = [example_relation] \<and> cp_added_nodes c = [example_task] \<and>
    cp_status_updates c = [] \<and>
    cp_next_digest c = content_hash h [record_digest h example_task] [relation_digest h example_relation]"
    unfolding compile_patch_def compile_inputs_def
    by (use v d registry_lookup(2) in \<open>simp_all add: r first_head_def example_head_def first_proposal_def example_proposal_def example_patch_def index_def
        supersession_set_def add_node_def add_relation_def dangling_def example_relation_def example_task_def example_node_def Let_def\<close>)
  then show thesis using that by blast
qed

lemma first_step:
  assumes h: "hex_hash h"
  shows "graph_history h builtin_registry (first_head h) (first_head h, [], [])"
    "patch_ok h (pp_patch (first_proposal h))"
    "graph_step h builtin_registry (first_head h, [], []) (second_head h, [example_task], [example_relation])"
    "graph_history h builtin_registry (first_head h) (second_head h, [example_task], [example_relation])"
proof -
  obtain c where c: "compile_patch h builtin_registry (first_head h) (first_proposal h) [] [] = Inr c"
    "cp_active_nodes c = [example_task]" "cp_active_relations c = [example_relation]"
    "cp_next_digest c = content_hash h [record_digest h example_task] [relation_digest h example_relation]"
    by (rule first_compiles [OF h]) (rule that; assumption)
  show s: "graph_history h builtin_registry (first_head h) (first_head h, [], [])"
    using h example_starts [OF h] by (simp add: graph_history_def first_head_def)
  show p: "patch_ok h (pp_patch (first_proposal h))"
    using example_patch_ok [OF h, of example_task "[example_relation]" "[]" "first_head h" "[]" "[]"] example_records_ok
    by (simp add: first_proposal_def example_proposal_def example_task_def canonical_list_def strings_ok_def)
      (simp add: first_head_def example_head_def)
  have z: "datetime_ok 0" "gh_created_at (first_head h) \<le> 0" by (simp_all add: datetime_ok_def first_head_def example_head_def)
  note f = history_facts [OF s]
  have "next_head h (first_head h) c 0 = Inr (second_head h)"
    using next_head_ok [OF f(2) c(1) f(3) p h z] c(2-) by (simp add: first_head_def second_head_def example_head_def)
  from graph_step.commit [OF p c(1) this] c(2,3)
  show g: "graph_step h builtin_registry (first_head h, [], []) (second_head h, [example_task], [example_relation])" by simp
  show "graph_history h builtin_registry (first_head h) (second_head h, [example_task], [example_relation])"
    using s g by (auto simp: graph_history_def)
qed

text \<open>The second commit turns the task into a trigger.\<close>

definition example_trigger :: semantic_node where
  "example_trigger = example_node Trigger (Lifecycle Life_Active)"

definition second_proposal :: "(string \<Rightarrow> string) \<Rightarrow> patch_proposal" where
  "second_proposal h = example_proposal (second_head h) (example_patch (second_head h) example_trigger [] [record_digest h example_task])"

lemma second_compiles:
  assumes h: "hex_hash h"
  obtains c where "compile_patch h builtin_registry (second_head h) (second_proposal h) [example_task] [example_relation] = Inr c"
    "cp_active_nodes c = [example_trigger]" "cp_active_relations c = [example_relation]"
proof -
  note v = example_valid [of "second_head h" Trigger, folded example_trigger_def]
  note d = content_digest_hash [OF h one_digest [OF node_digests_hex(2) [OF h, of example_trigger]] one_digest [OF node_digests_hex(3) [OF h, of example_relation]]]
  have r: "rg_version builtin_registry = ''1''" "registry_digest h builtin_registry = registry_hash h"
    by (simp_all add: builtin_registry_def registry_hash_def)
  have "\<exists>c. compile_patch h builtin_registry (second_head h) (second_proposal h) [example_task] [example_relation] = Inr c \<and>
    cp_active_nodes c = [example_trigger] \<and> cp_active_relations c = [example_relation]"
    unfolding compile_patch_def compile_inputs_def
    by (use v d node_digests_hex(2) [OF h] in \<open>simp_all add: r second_head_def example_head_def second_proposal_def example_proposal_def
      example_patch_def index_def supersession_set_def add_node_def dangling_def example_relation_def example_task_def example_trigger_def
      example_node_def Let_def\<close>)
  then show thesis using that by blast
qed

section \<open>Witnesses\<close>

definition zero_sha :: "string \<Rightarrow> string" where
  "zero_sha s = replicate 64 CHR ''0''"

lemma zero_hex: "is_sha256 (replicate 64 CHR ''0'')"
  by code_simp

lemma zero_sha: "hex_hash zero_sha"
  by (simp add: hex_hash_def zero_sha_def zero_hex)

theorem graph_stays_closed_witness:
  "closed_graph zero_sha (gh_scope_ref (first_head zero_sha)) [example_task] [example_relation] \<and>
    gh_nodes (second_head zero_sha) = map (record_digest zero_sha) [example_task] \<and>
    gh_relations (second_head zero_sha) = map (relation_digest zero_sha) [example_relation]"
  by (rule graph_stays_closed [OF first_step(4) [OF zero_sha]])

theorem graph_size_bounded_witness:
  "\<exists>c. compile_patch zero_sha builtin_registry (first_head zero_sha) (first_proposal zero_sha) [] [] = Inr c \<and>
    length (cp_active_nodes c) \<le> 128 \<and> length (cp_active_relations c) \<le> 128"
proof -
  obtain c where c: "compile_patch zero_sha builtin_registry (first_head zero_sha) (first_proposal zero_sha) [] [] = Inr c"
    by (rule first_compiles [OF zero_sha])
  from graph_size_bounded [OF first_step(1,2) [OF zero_sha] c] c show ?thesis by blast
qed

text \<open>At the second commit, which replaces the task by a trigger.\<close>

theorem patch_changes_what_it_names_witness:
  "\<exists>c. compile_patch zero_sha builtin_registry (second_head zero_sha) (second_proposal zero_sha) [example_task] [example_relation] = Inr c \<and>
    set (cp_superseded c) = {record_digest zero_sha example_task} \<and> set (cp_active_relations c) = {example_relation} \<and>
    example_trigger \<in> set (cp_added_nodes c) \<and> example_task \<notin> set (cp_active_nodes c)"
proof -
  obtain c where c: "compile_patch zero_sha builtin_registry (second_head zero_sha) (second_proposal zero_sha) [example_task] [example_relation] = Inr c"
    "cp_active_nodes c = [example_trigger]"
    by (rule second_compiles [OF zero_sha])
  have refs: "pt_supersession_refs (pp_patch (second_proposal zero_sha)) = [record_digest zero_sha example_task]"
    "pt_add_relations (pp_patch (second_proposal zero_sha)) = []" "pt_add_nodes (pp_patch (second_proposal zero_sha)) = [example_trigger]"
    by (simp_all add: second_proposal_def example_proposal_def example_patch_def)
  have digest: "gh_graph_digest (second_head zero_sha)
      = content_hash zero_sha [record_digest zero_sha example_task] [relation_digest zero_sha example_relation]"
    by (simp add: second_head_def example_head_def)
  have "patch_ok zero_sha (pp_patch (second_proposal zero_sha))"
    using example_patch_ok [OF zero_sha _ _ _ _ digest, of example_trigger "[]" "[record_digest zero_sha example_task]"]
      example_records_ok node_digests_hex(2) [OF zero_sha, of example_task]
    by (simp add: second_proposal_def example_proposal_def example_trigger_def canonical_list_def strings_ok_def sha256_text)
  from patch_changes_what_it_names [OF first_step(4) [OF zero_sha] this c(1)] c refs show ?thesis
    by (auto simp: example_task_def example_trigger_def example_node_def)
qed

theorem added_relations_allowed_witness:
  "linked_by builtin_registry [example_task] example_relation"
proof -
  obtain c where c: "compile_patch zero_sha builtin_registry (first_head zero_sha) (first_proposal zero_sha) [] [] = Inr c"
    "cp_active_nodes c = [example_task]"
    by (rule first_compiles [OF zero_sha])
  have "example_relation \<in> set (pt_add_relations (pp_patch (first_proposal zero_sha)))"
    by (simp add: first_proposal_def example_proposal_def example_patch_def)
  from added_relations_allowed [OF first_step(1,2) [OF zero_sha] c(1) this] c(2) show ?thesis by simp
qed

theorem compiled_patch_commits_witness:
  "\<exists>c g' r. compile_patch zero_sha builtin_registry (first_head zero_sha) (first_proposal zero_sha) [] [] = Inr c \<and>
    next_head zero_sha (first_head zero_sha) c 5 = Inr g' \<and> gh_revision g' = 2 \<and>
    next_revision zero_sha (first_head zero_sha) c (zero_sha ''patch'') g' 5 = Inr r"
proof -
  obtain c where c: "compile_patch zero_sha builtin_registry (first_head zero_sha) (first_proposal zero_sha) [] [] = Inr c"
    by (rule first_compiles [OF zero_sha])
  have t: "datetime_ok 5" "gh_created_at (first_head zero_sha) \<le> 5" "is_sha256 (zero_sha ''patch'')" "gh_revision (first_head zero_sha) = 1"
    by (simp_all add: datetime_ok_def first_head_def example_head_def zero_sha_def zero_hex)
  from compiled_patch_commits [OF first_step(1,2) [OF zero_sha] c t(1-3)] c t(4) show ?thesis by auto
qed

theorem stale_proposal_refused_witness:
  "compile_patch zero_sha builtin_registry (second_head zero_sha) (first_proposal zero_sha) [example_task] [example_relation]
    = Inl (SemanticError Graph_Stale)"
proof -
  have "pp_base_revision (first_proposal zero_sha) = gh_revision (first_head zero_sha)"
    by (simp add: first_proposal_def example_proposal_def)
  from stale_proposal_refused [OF first_step(1) [OF zero_sha] tranclp.r_into_trancl [where r = "graph_step zero_sha builtin_registry", OF first_step(3) [OF zero_sha]] this]
  show ?thesis .
qed

lemma first_proposal_ok: "hex_hash h \<Longrightarrow> proposal_ok h (first_proposal h)"
  using first_step(2) [of h] example_texts registry_hash_hex [of h] content_hash_hex [of h]
  by (simp add: proposal_ok_def first_proposal_def example_proposal_def first_head_def example_head_def example_patch_def)

theorem proposal_round_trip_witness:
  "\<exists>p q. proposal_from_dict zero_sha (proposal_to_dict zero_sha (first_proposal zero_sha)) = Inr p \<and>
    proposal_from_dict zero_sha (json_norm (proposal_to_dict zero_sha p)) = Inr q \<and> proposal_digest zero_sha q = proposal_digest zero_sha p"
proof -
  obtain p where p: "proposal_from_dict zero_sha (proposal_to_dict zero_sha (first_proposal zero_sha)) = Inr p"
    using proposal_reads [OF reads_plain first_proposal_ok [OF zero_sha] zero_sha] by blast
  from proposal_round_trip [OF zero_sha p] p show ?thesis by blast
qed

section \<open>Where the compiler stops short\<close>

text \<open>A patch that supersedes a node by a node of another type keeps the relations of the node: the type rules
  are checked for the relations that the patch adds only. Here a relation of type targets is left between
  two triggers, which no patch could add.\<close>

theorem retyped_node_keeps_relation:
  "\<exists>c. compile_patch zero_sha builtin_registry (second_head zero_sha) (second_proposal zero_sha) [example_task] [example_relation] = Inr c \<and>
    cp_active_relations c = [example_relation] \<and> \<not> linked_by builtin_registry (cp_active_nodes c) example_relation"
proof -
  obtain c where c: "compile_patch zero_sha builtin_registry (second_head zero_sha) (second_proposal zero_sha) [example_task] [example_relation] = Inr c"
    "cp_active_nodes c = [example_trigger]" "cp_active_relations c = [example_relation]"
    by (rule second_compiles [OF zero_sha]) (rule that; assumption)
  have "\<not> linked_by builtin_registry [example_trigger] example_relation"
    using registry_lookup(3) by (simp add: linked_by_def example_trigger_def example_node_def example_relation_def)
  with c show ?thesis by auto
qed

end
