(* ===== verification/Spec2Isabelle.thy ===== *)
theory Spec2Isabelle
  imports CanonicalProps AuthorityProps AdmissionWitnesses BatchAuthorityProps DispatchProps TargetLeasesProps QueueExample Composition
    AgentExample VerifierGraphProps SemanticGraphProps
begin

text \<open>
  A model of the core of the MACR runtime, \<open>src/src/macr_runtime\<close>: the stores through which
  several dispatcher processes agree, over one SQLite file, on who may call which model provider, for
  which plan, at what cost, and on which file; the kernel of agent runs, an event log with its projections and ownership
  leases in a second SQLite file; the semantic graph that agent runs edit by patches; and the graph of the
  verifiers of a change. Every operation of these parts is a definition of this
  development; the properties of the stores hold for every interleaving of their transactions.

  \<^bold>\<open>The program.\<close> An operator issues a dispatch authority (\<open>authority.py\<close>), whose scope says which
  providers, tasks and amounts it covers, or a batch authority (\<open>batch_authority.py\<close>), which covers the
  ordered members of one plan. A plan is put into the plan queue (\<open>scheduler.py\<close>) under its batch authority;
  dispatchers claim its members one by one, and complete, fail or hand them to reconciliation. Before a
  dispatch, the admission gate (\<open>dispatch.py\<close>) verifies the authority and takes a lease on the resource; a
  provider that is shared takes a capacity request through its admission kernel
  (\<open>provider_admission.py\<close>), which has a chain of receipts for every change of its policy, and a circuit that opens
  after failures. A member that writes files owns their paths through target leases
  (\<open>target_leases.py\<close>). These stores share the tables and the fencing counter of \<open>runtime_db.py\<close>, and write
  canonical JSON and digests (\<open>canonical.py\<close>).

  An agent run (\<open>agent/\<close>) is created from an immutable header, admitted, owned by one process at a time under a
  fencing token, activated, blocked and ended. Each change appends an event to a log, and the row that
  shows the run is a projection of its events. A run may be bound to a revision of a semantic graph
  (\<open>semantic/\<close>): nodes and relations under a type registry, which a patch extends or supersedes; the compiler of \<open>patch.py\<close>
  checks a proposed patch against the revision that it was made for and computes the next one. A
  verifier graph (\<open>verification_graph.py\<close>) orders the checks of a change by their dependencies.

  \<^bold>\<open>Theories and code: the coordination stores.\<close>
  \<^item> Prelude: error values for the exceptions of \<open>errors.py\<close>, results as sums, the checks of identifiers, digests,
    UUIDs, bounded integers and text that the constructors of all modules share, lists used as tables.
  \<^item> Canonical, CanonicalProps: \<open>canonical_json_bytes\<close>, \<open>validate_json\<close> and \<open>sha256_id\<close> of \<open>canonical.py\<close>; the printer
    is injective and its texts are prefix-free on finite values.
  \<^item> Timestamps: the ISO text of an instant as the columns store it; the text order is the order of time.
  \<^item> Floats, Costs: binary64 floats as rational numbers with the rounding of an operation; amounts of money as the
    \<open>repr\<close> text of a float and the float it denotes.
  \<^item> RuntimeDb: the database as one record with a list per table; the locales of the step systems.
  \<^item> Authority, AuthorityProps: \<open>AuthorityScope\<close>, \<open>DispatchAuthorityStore\<close> with \<open>issue\<close>, \<open>advance_epoch\<close>, \<open>revoke\<close>,
    \<open>verify\<close> and \<open>verify_in_transaction\<close>.
  \<^item> BatchAuthority, BatchAuthorityProps: \<open>BatchAuthorityScope\<close> and its store.
  \<^item> Dispatch, DispatchProps: \<open>DispatcherLeaseStore\<close> and \<open>AdmissionGate.admit\<close>.
  \<^item> AdmissionPolicy, AdmissionKernel, AdmissionRequests, AdmissionOutcome: the contracts of \<open>provider_admission.py\<close> and
    every operation of \<open>ProviderAdmissionKernel\<close>. AdmissionSteps and AdmissionOps split each operation into atomic
    changes; AdmissionCapacity, AdmissionSafety and AdmissionControl are the invariants of these changes;
    AdmissionTransport and AdmissionProgress say what a caller may rely on; AdmissionExample and AdmissionWitnesses
    run the kernel on a concrete policy.
  \<^item> TargetLeases, TargetLeasesProps: path normalisation and \<open>TargetLeaseStore\<close>.
  \<^item> PlanQueue, QueueClaims: the contracts of \<open>scheduler.py\<close> and every operation of \<open>PlanQueue\<close>. QueueSafety is
    the life cycle and the invariant of its members, QueueProps the collision check, QueueClaimProps the guarantees
    of \<open>claim\<close>, \<open>release_before_dispatch\<close> and \<open>enqueue\<close>, QueueExample a plan of two members.
  \<^item> Composition: all coordination stores on one database.

  \<^bold>\<open>Theories and code: agent runs.\<close>
  \<^item> TextFacts, FencedTokens: facts on text, and the locale of a table whose rows are fenced by a counter.
  \<^item> RecordContracts: the checks of \<open>_v07_contracts.py\<close>, record digests, and what it means that a document reads back.
  \<^item> AgentContracts, AgentDocuments: \<open>agent/contracts.py\<close>, the header with its bindings, and its documents.
  \<^item> AgentEvents, AgentReplay: \<open>lifecycle.py\<close>, \<open>state.py\<close> and \<open>events.py\<close>, with the refusal of paths, credentials and
    content in payloads, and the replay of a log.
  \<^item> AgentStore, AgentOps, AgentRecovery: the tables of \<open>database.py\<close> and every operation of \<open>store.py\<close>, \<open>ownership.py\<close>,
    \<open>service.py\<close> and \<open>semantic_binding.py\<close>, with inspection and rebuild of projections.
  \<^item> AgentEventProps, AgentStoreSteps, AgentTransitions, AgentCreation, AgentOwnershipProps, AgentStoreProps,
    AgentRecoveryProps, AgentProgress: the events of a run replay to its row, leases are fenced, and the guarantees of each
    operation. AgentExample runs the life of one agent.

  \<^bold>\<open>Theories and code: graphs.\<close>
  \<^item> VerifierGraph, VerifierGraphProps: the nodes, the canonical order and the search for dependencies of
    \<open>verification_graph.py\<close>.
  \<^item> SemanticContracts, SemanticDocuments: the records of \<open>semantic/contracts.py\<close> and the reading of their documents.
  \<^item> SemanticGraph, SemanticRegistryProps: \<open>registry.py\<close> with the shipped registry, heads and revisions of \<open>graph.py\<close>.
  \<^item> SemanticPatches, SemanticPatchProps: \<open>validation.py\<close> and \<open>patch.py\<close>, the compiler with an invariant for each of its loops.
  \<^item> SemanticCommit, SemanticEvolution, SemanticGraphProps: the head and revision that \<open>commit.py\<close> writes, and graphs
    under any sequence of commits.

  \<^bold>\<open>State and steps.\<close> A table is a list of row records in insertion order; a statement is an update of the list. An
  operation takes an environment (\<open>sha\<close>, the hash; \<open>uid\<close>, the source of UUIDs; \<open>clk i\<close>, the \<open>i\<close>-th
  reading of the clock), its arguments and the database, and returns its result and the database it leaves;
  a raised exception is \<open>Inl\<close> with the database as it was left by the rollback or by what was committed before. An operation that reads
  without a lock, or that commits more than one transaction, takes the databases in which it reads
  (\<open>seen\<close>, \<open>later\<close>) and a function \<open>between\<close> for what other processes commit meanwhile. Each store has a
  step relation whose steps are its operations with arbitrary arguments and results, and a step for everything that
  leaves its tables alone; \<open>step_system\<close> gives reachability, \<open>revocable_store\<close> the
  finality of a revocation, \<open>fenced_table\<close> the uniqueness of fencing tokens. They are interpreted for each
  store, and in Composition for the runtime, whose steps are the operations of all coordination stores: \<open>runtime_inv\<close> is the
  conjunction of their invariants, and a run of the runtime is a run of each store.

  \<^bold>\<open>What is shown.\<close> Canonical text and stored documents read back as what was written. A verified authority was
  issued before in the current epoch, with the very scope and digest of its reference, is unexpired and unrevoked and covers the
  request; revocation, an advanced epoch and the use of an activation
  authority are final. Capacity is never exceeded, the unit accounting of projects is exact, the end of a transport releases one unit or none and moves the circuit as its outcome says, requests
  follow their life cycle, the receipts form an unbroken append-only chain, an open circuit closes only under an
  authority, the lanes take turns, and a lone request is granted at once. A dispatch lease has one holder and fences
  out its predecessors; the gate keeps no lease that it refuses. A path has the owners of one plan only, with at most one that
  writes automatically. A member of a plan is claimed under a live authority, in order and within the ceilings, never ends twice, and an
  unused claim is undone; resolving a member ends its plan and no other. No fencing token is used twice by any of the stores.
  What an agent row shows is the replay of its events, of which none is ever changed; a rebuild restores a lost or changed row and
  succeeds; a superseded owner and a stale transition, under whatever epoch, are refused. The order of a verifier graph is topological, exists unless there is
  a missing dependency or a cycle, and does not depend on the order of the input. A semantic graph stays closed, typed for added relations
  and bounded, a patch replaces exactly the versions it names by what it adds, a stale proposal is refused, and a compiled patch can be committed.

  \<^bold>\<open>Modelling decisions.\<close> SHA-256 is a parameter; no property assumes that it is injective, except where a
  set of policies is said to have different digests. Instants are whole microseconds as integers; that comparing the stored texts compares the
  instants is proved in Timestamps. A float is the rational number nearest to the decimal of its text, and a sum of floats is
  rounded to the nearest float, ties to even, so the ceiling checks with \<open>1e-12\<close> decide as the code does. How SQLite rounds its
  \<open>SUM\<close> is a parameter of the environment.
  Text is a list of characters, a byte each; paths are ASCII, so that \<open>casefold\<close> is \<open>lower\<close>. The types of the
  arguments stand for the \<open>isinstance\<close> checks. A column of JSON text holds its document in the order of canonical text. What a
  statement finds under a unique key is found by that key, and
  an \<open>INSERT\<close> that would break it is an error. Most loops of the code run over stored rows or given lists and are structural recursions; the
  ordering of a verifier graph and the search in it, and the splitting of a text into characters, are total functions by a measure;
  no definition takes fuel. The example runs use a stand-in for the hash that is injective on
  the texts that occur, or a constant one where digests need not differ.

  \<^bold>\<open>Not modelled.\<close> Opening the files, PRAGMAs, schema creation and migration, busy time-outs of SQLite: calls of the library.
  The parsing of stored JSON text, the fault injector of the tests, and the column \<open>latest_checkpoint_ref\<close>, which is always NULL.
  \<open>ProviderAdmissionDirectory\<close> and \<open>require_transport_binding\<close>. The transactions of the semantic store and its projections, and the
  cells of agents. The providers under \<open>providers/\<close>, the command line, direct mode
  and the observatory: network, processes, terminal and web interface. The planner, accounting and the event store are
  further components over files of their own, which the parts modelled here do
  not read; the manifest lists each of them.
\<close>

end
